(* ===== verification/ShimPrelude.thy ===== *)
theory ShimPrelude
  imports Main "HOL-Library.Word"
begin

text \<open>
  The prelude of the development: the EFI status codes, results that carry either a
  status or a memory fault, byte buffers at a machine address (reads and writes outside
  the buffer are a \<open>Fault\<close>, never an unspecified value), little-endian loads and
  stores, and the generic lemmas on lists, results and words that the components share.
\<close>

unbundle bit_operations_syntax

named_theorems res_simps \<open>evaluation rules of the result operations\<close>
named_theorems mem_simps \<open>loads and stores of byte buffers\<close>

section \<open>Machine types\<close>

type_synonym u8 = "8 word"
type_synonym u16 = "16 word"
type_synonym u32 = "32 word"
type_synonym u64 = "64 word"
type_synonym bytes = "u8 list"

section \<open>EFI status codes\<close>

text \<open>
  The status codes the program tests for by name. Firmware may return any other error or
  warning, which \<open>EFI_OTHER_ERROR\<close> and \<open>EFI_WARNING\<close> stand for.
\<close>

datatype efi_status =
    EFI_SUCCESS
  | EFI_INVALID_PARAMETER
  | EFI_UNSUPPORTED
  | EFI_BAD_BUFFER_SIZE
  | EFI_BUFFER_TOO_SMALL
  | EFI_NOT_READY
  | EFI_DEVICE_ERROR
  | EFI_WRITE_PROTECTED
  | EFI_OUT_OF_RESOURCES
  | EFI_NOT_FOUND
  | EFI_ACCESS_DENIED
  | EFI_ALREADY_STARTED
  | EFI_PROTOCOL_ERROR
  | EFI_SECURITY_VIOLATION
  | EFI_OTHER_ERROR nat
  | EFI_WARNING nat

fun EFI_ERROR :: "efi_status \<Rightarrow> bool" where
  "EFI_ERROR EFI_SUCCESS = False"
| "EFI_ERROR (EFI_WARNING n) = False"
| "EFI_ERROR _ = True"

lemma not_error_success [simp]: "\<not> EFI_ERROR EFI_SUCCESS"
  by simp

text \<open>Errors the code returns but does not test for.\<close>

definition EFI_ABORTED :: efi_status where "EFI_ABORTED = EFI_OTHER_ERROR 21"
definition EFI_COMPROMISED_DATA :: efi_status where "EFI_COMPROMISED_DATA = EFI_OTHER_ERROR 33"
definition EFI_HTTP_ERROR :: efi_status where "EFI_HTTP_ERROR = EFI_OTHER_ERROR 35"

lemma named_errors [simp]:
  "EFI_ERROR EFI_ABORTED" "EFI_ABORTED \<noteq> EFI_SUCCESS" "EFI_SUCCESS \<noteq> EFI_ABORTED"
  "EFI_ERROR EFI_COMPROMISED_DATA" "EFI_COMPROMISED_DATA \<noteq> EFI_SUCCESS" "EFI_ERROR EFI_HTTP_ERROR" "EFI_HTTP_ERROR \<noteq> EFI_SUCCESS"
  by (simp_all add: EFI_ABORTED_def EFI_COMPROMISED_DATA_def EFI_HTTP_ERROR_def)

section \<open>Results: a value, an error status, or a fault\<close>

text \<open>
  \<open>Status s\<close> is an early return with status \<open>s\<close>; \<open>Fault\<close> is an access outside
  the object a pointer belongs to, which C leaves undefined.
\<close>

datatype exc = Status efi_status | Fault

type_synonym 'a res = "exc + 'a"

definition bindR :: "'a res \<Rightarrow> ('a \<Rightarrow> 'b res) \<Rightarrow> 'b res" where
  "bindR m f = (case m of Inl e \<Rightarrow> Inl e | Inr x \<Rightarrow> f x)"

lemma bindR_Inl [simp, res_simps]: "bindR (Inl e) f = Inl e"
  by (simp add: bindR_def)

lemma bindR_Inr [simp, res_simps]: "bindR (Inr x) f = f x"
  by (simp add: bindR_def)

lemma bindR_assoc: "bindR (bindR m f) g = bindR m (\<lambda>x. bindR (f x) g)"
  by (simp add: bindR_def split: sum.splits)

lemma bindR_cong [fundef_cong]:
  "m = m' \<Longrightarrow> (\<And>x. m' = Inr x \<Longrightarrow> f x = f' x) \<Longrightarrow> bindR m f = bindR m' f'"
  by (simp add: bindR_def split: sum.splits)

lemma bindR_eq_Inr [res_simps]: "bindR m f = Inr y \<longleftrightarrow> (\<exists>x. m = Inr x \<and> f x = Inr y)"
  by (simp add: bindR_def split: sum.splits)

lemma bindR_eq_Inl [res_simps]:
  "bindR m f = Inl e \<longleftrightarrow> m = Inl e \<or> (\<exists>x. m = Inr x \<and> f x = Inl e)"
  by (auto simp add: bindR_def split: sum.splits)

lemma bindR_not_fault:
  "m \<noteq> Inl Fault \<Longrightarrow> (\<And>x. m = Inr x \<Longrightarrow> f x \<noteq> Inl Fault) \<Longrightarrow> bindR m f \<noteq> Inl Fault"
  by (auto simp add: bindR_def split: sum.splits)

lemma bindR_not_fault_ex:
  "(\<exists>x. m = Inr x \<and> f x \<noteq> Inl Fault) \<Longrightarrow> bindR m f \<noteq> Inl Fault"
  by auto

text \<open>A guard: the early return \<open>if (!c) return s;\<close>.\<close>

definition guardR :: "bool \<Rightarrow> efi_status \<Rightarrow> unit res" where
  "guardR c s = (if c then Inr () else Inl (Status s))"

lemma guardR_eq_Inr [simp]: "guardR c s = Inr u \<longleftrightarrow> c"
  by (simp add: guardR_def)

lemma guardR_eq_Inl [simp]: "guardR c s = Inl e \<longleftrightarrow> \<not> c \<and> e = Status s"
  by (auto simp add: guardR_def)

lemma guardR_not_fault [simp]: "guardR c s \<noteq> Inl Fault"
  by (simp add: guardR_def)

lemma bind_guardR [res_simps]:
  "bindR (guardR c s) f = (if c then f () else Inl (Status s))"
  by (simp add: guardR_def)

section \<open>Little-endian numbers\<close>

fun le_nat :: "bytes \<Rightarrow> nat" where
  "le_nat [] = 0"
| "le_nat (b # bs) = unat b + 256 * le_nat bs"

fun le_bytes :: "nat \<Rightarrow> nat \<Rightarrow> bytes" where
  "le_bytes 0 x = []"
| "le_bytes (Suc n) x = word_of_nat x # le_bytes n (x div 256)"

lemma le_bytes_numeral: "le_bytes (numeral k) x = word_of_nat x # le_bytes (pred_numeral k) (x div 256)"
  by (simp only: numeral_eq_Suc le_bytes.simps)

lemma length_le_bytes [simp]: "length (le_bytes n x) = n"
  by (induction n arbitrary: x) auto

lemma unat_byte_bound: "unat (b :: u8) < 256"
proof -
  have "unat b < 2 ^ LENGTH(8)" by (rule unsigned_less)
  then show ?thesis by simp
qed

lemma le_nat_bound: "le_nat bs < 256 ^ length bs"
proof (induction bs)
  case (Cons b bs)
  then show ?case using unat_byte_bound [of b] by simp
qed simp

lemma le_nat_le_bytes: "le_nat (le_bytes n x) = x mod 256 ^ n"
proof (induction n arbitrary: x)
  case (Suc n)
  have "unat (word_of_nat x :: u8) = x mod 256"
    by (simp add: unat_of_nat)
  then show ?case using Suc.IH [of "x div 256"]
    by (simp add: mod_mult2_eq)
qed simp

lemma word_of_nat_byte_add: "(word_of_nat (unat b + 256 * k) :: u8) = b"
proof (rule word_unat_eq_iff [THEN iffD2])
  have "(unat b + 256 * k) mod 256 = unat b"
    using unat_byte_bound [of b] by simp
  then show "unat (word_of_nat (unat b + 256 * k) :: u8) = unat b"
    by (simp add: unat_of_nat del: of_nat_add of_nat_mult)
qed

lemma le_bytes_le_nat: "le_bytes (length bs) (le_nat bs) = bs"
proof (induction bs)
  case (Cons b bs)
  have "(unat b + 256 * le_nat bs) div 256 = le_nat bs"
    using unat_byte_bound [of b] by simp
  then show ?case
    using Cons word_of_nat_byte_add [of b "le_nat bs"] by simp
qed simp

section \<open>Byte buffers at an address\<close>

record mbuf =
  mb_base :: u64
  mb_data :: bytes

text \<open>The offset of a pointer in its buffer, and the range test of an access of \<open>n\<close> bytes.\<close>

definition off :: "mbuf \<Rightarrow> u64 \<Rightarrow> nat" where
  "off b p = unat (p - mb_base b)"

definition in_buf :: "mbuf \<Rightarrow> u64 \<Rightarrow> nat \<Rightarrow> bool" where
  "in_buf b p n \<longleftrightarrow> off b p + n \<le> length (mb_data b)"

definition load :: "mbuf \<Rightarrow> u64 \<Rightarrow> nat \<Rightarrow> bytes res" where
  "load b p n = (if in_buf b p n then Inr (take n (drop (off b p) (mb_data b))) else Inl Fault)"

definition store :: "mbuf \<Rightarrow> u64 \<Rightarrow> bytes \<Rightarrow> mbuf res" where
  "store b p bs =
     (if in_buf b p (length bs)
      then Inr (b\<lparr>mb_data := take (off b p) (mb_data b) @ bs @ drop (off b p + length bs) (mb_data b)\<rparr>)
      else Inl Fault)"

definition rd8 :: "mbuf \<Rightarrow> u64 \<Rightarrow> u8 res" where
  "rd8 b p = bindR (load b p 1) (\<lambda>bs. Inr (word_of_nat (le_nat bs)))"

definition rd16 :: "mbuf \<Rightarrow> u64 \<Rightarrow> u16 res" where
  "rd16 b p = bindR (load b p 2) (\<lambda>bs. Inr (word_of_nat (le_nat bs)))"

definition rd32 :: "mbuf \<Rightarrow> u64 \<Rightarrow> u32 res" where
  "rd32 b p = bindR (load b p 4) (\<lambda>bs. Inr (word_of_nat (le_nat bs)))"

definition rd64 :: "mbuf \<Rightarrow> u64 \<Rightarrow> u64 res" where
  "rd64 b p = bindR (load b p 8) (\<lambda>bs. Inr (word_of_nat (le_nat bs)))"

definition wr16 :: "mbuf \<Rightarrow> u64 \<Rightarrow> u16 \<Rightarrow> mbuf res" where
  "wr16 b p v = store b p (le_bytes 2 (unat v))"

definition wr32 :: "mbuf \<Rightarrow> u64 \<Rightarrow> u32 \<Rightarrow> mbuf res" where
  "wr32 b p v = store b p (le_bytes 4 (unat v))"

definition wr64 :: "mbuf \<Rightarrow> u64 \<Rightarrow> u64 \<Rightarrow> mbuf res" where
  "wr64 b p v = store b p (le_bytes 8 (unat v))"

lemma in_buf_mono: "in_buf b p n \<Longrightarrow> m \<le> n \<Longrightarrow> in_buf b p m"
  by (simp add: in_buf_def)

text \<open>A field at a displacement inside a structure that lies in the buffer.\<close>

lemma off_plus_le: "off b (p + d) \<le> off b p + unat d"
proof -
  have "p + d - mb_base b = (p - mb_base b) + d" by simp
  then have "unat (p + d - mb_base b) = (unat (p - mb_base b) + unat d) mod 2 ^ 64"
    by (simp only: unat_word_ariths) simp
  then show ?thesis unfolding off_def by simp
qed

lemma in_buf_field:
  assumes "in_buf b p n" and "unat d + k \<le> n"
  shows "in_buf b (p + d) k"
  using assms off_plus_le [of b p d] by (simp add: in_buf_def)

lemma off_base [simp]: "off b (mb_base b) = 0"
  by (simp add: off_def)

lemma off_base_plus [simp]: "off b (mb_base b + d) = unat d"
  by (simp add: off_def)

lemma load_ok [mem_simps]: "in_buf b p n \<Longrightarrow> load b p n = Inr (take n (drop (off b p) (mb_data b)))"
  by (simp add: load_def)

lemma load_not_status: "load b p n \<noteq> Inl (Status s)"
  by (simp add: load_def)

lemma load_length: "load b p n = Inr bs \<Longrightarrow> length bs = n"
  by (auto simp add: load_def in_buf_def split: if_splits)

lemma rd_ok:
  "in_buf b p 1 \<Longrightarrow> \<exists>v. rd8 b p = Inr v"
  "in_buf b p 2 \<Longrightarrow> \<exists>v. rd16 b p = Inr v"
  "in_buf b p 4 \<Longrightarrow> \<exists>v. rd32 b p = Inr v"
  "in_buf b p 8 \<Longrightarrow> \<exists>v. rd64 b p = Inr v"
  by (simp_all add: rd8_def rd16_def rd32_def rd64_def load_ok)

lemma rd_Inr_in_buf:
  "rd8 b p = Inr x \<Longrightarrow> in_buf b p 1"
  "rd16 b p = Inr y \<Longrightarrow> in_buf b p 2"
  "rd32 b p = Inr z \<Longrightarrow> in_buf b p 4"
  "rd64 b p = Inr w \<Longrightarrow> in_buf b p 8"
  by (auto simp add: rd8_def rd16_def rd32_def rd64_def load_def split: if_splits)

lemma rd_not_status [simp]:
  "rd8 b p \<noteq> Inl (Status s)" "rd16 b p \<noteq> Inl (Status s)"
  "rd32 b p \<noteq> Inl (Status s)" "rd64 b p \<noteq> Inl (Status s)"
  by (simp_all add: rd8_def rd16_def rd32_def rd64_def load_def)

lemma rd_not_fault:
  "in_buf b p 1 \<Longrightarrow> rd8 b p \<noteq> Inl Fault"
  "in_buf b p 2 \<Longrightarrow> rd16 b p \<noteq> Inl Fault"
  "in_buf b p 4 \<Longrightarrow> rd32 b p \<noteq> Inl Fault"
  "in_buf b p 8 \<Longrightarrow> rd64 b p \<noteq> Inl Fault"
  using rd_ok by fastforce+

lemma store_frame:
  assumes "store b p bs = Inr b'"
  shows "mb_base b' = mb_base b" and "length (mb_data b') = length (mb_data b)"
  using assms by (auto simp add: store_def in_buf_def split: if_splits)

lemma store_in_buf: "store b p bs = Inr b' \<Longrightarrow> in_buf b' q n = in_buf b q n"
  using store_frame [of b p bs b'] by (simp add: in_buf_def off_def)

text \<open>Reading back what was stored, and a read that does not overlap the store.\<close>

lemma load_store_same:
  assumes "store b p bs = Inr b'"
  shows "load b' p (length bs) = Inr bs"
proof -
  from assms have i: "in_buf b p (length bs)" by (simp add: store_def split: if_splits)
  with assms have "mb_data b' = take (off b p) (mb_data b) @ bs @ drop (off b p + length bs) (mb_data b)"
    by (auto simp add: store_def)
  moreover have "off b' p = off b p" using store_frame [OF assms] by (simp add: off_def)
  ultimately show ?thesis using i store_in_buf [OF assms]
    by (simp add: load_def in_buf_def)
qed

lemma load_store_other:
  assumes "store b p bs = Inr b'"
    and "off b q + n \<le> off b p \<or> off b p + length bs \<le> off b q"
  shows "load b' q n = load b q n"
proof -
  from assms have i: "off b p + length bs \<le> length (mb_data b)"
    and d: "mb_data b' = take (off b p) (mb_data b) @ bs @ drop (off b p + length bs) (mb_data b)"
    by (auto simp add: store_def in_buf_def split: if_splits)
  have o: "off b' q = off b q" using store_frame [OF assms(1)] by (simp add: off_def)
  have "take n (drop (off b q) (mb_data b')) = take n (drop (off b q) (mb_data b))"
    using assms(2)
  proof
    assume "off b q + n \<le> off b p"
    then have "n \<le> off b p - off b q" and "off b q \<le> length (take (off b p) (mb_data b))"
      using i by simp_all
    then show ?thesis using i d by (simp add: drop_take)
  next
    assume "off b p + length bs \<le> off b q"
    then show ?thesis using i d by (simp add: drop_take)
  qed
  then show ?thesis using o store_in_buf [OF assms(1)] by (simp add: load_def)
qed

section \<open>Reading a C array by index\<close>

definition idx :: "bytes \<Rightarrow> nat \<Rightarrow> u8 res" where
  "idx s i = (if i < length s then Inr (s ! i) else Inl Fault)"

lemma idx_ok [mem_simps]: "i < length s \<Longrightarrow> idx s i = Inr (s ! i)"
  by (simp add: idx_def)

definition upd_idx :: "bytes \<Rightarrow> nat \<Rightarrow> u8 \<Rightarrow> bytes res" where
  "upd_idx s i b = (if i < length s then Inr (s[i := b]) else Inl Fault)"

lemma upd_idx_ok [mem_simps]: "i < length s \<Longrightarrow> upd_idx s i b = Inr (s[i := b])"
  by (simp add: upd_idx_def)

section \<open>Checked arithmetic on machine words\<close>

text \<open>
  \<open>__builtin_add_overflow\<close> and its kin (\<open>checked_add\<close>, \<open>checked_sub\<close>,
  \<open>checked_mul\<close> of include/compiler.h): \<open>None\<close> is "it overflowed".
\<close>

definition checked_add :: "u64 \<Rightarrow> u64 \<Rightarrow> u64 option" where
  "checked_add a b = (if unat a + unat b < 2 ^ 64 then Some (a + b) else None)"

definition checked_sub :: "u64 \<Rightarrow> u64 \<Rightarrow> u64 option" where
  "checked_sub a b = (if b \<le> a then Some (a - b) else None)"

definition checked_mul :: "u64 \<Rightarrow> u64 \<Rightarrow> u64 option" where
  "checked_mul a b = (if unat a * unat b < 2 ^ 64 then Some (a * b) else None)"

lemma checked_add_unat: "checked_add a b = Some c \<Longrightarrow> unat c = unat a + unat b"
  by (auto simp add: checked_add_def unat_word_ariths split: if_splits)

lemma checked_sub_unat: "checked_sub a b = Some c \<Longrightarrow> unat c = unat a - unat b \<and> unat b \<le> unat a"
  by (auto simp add: checked_sub_def unat_sub word_le_nat_alt split: if_splits)

lemma checked_mul_unat: "checked_mul a b = Some c \<Longrightarrow> unat c = unat a * unat b"
  by (auto simp add: checked_mul_def unat_word_ariths split: if_splits)

text \<open>A checked operation whose overflow is an early return.\<close>

definition orelse_status :: "'a option \<Rightarrow> efi_status \<Rightarrow> 'a res" where
  "orelse_status x s = (case x of None \<Rightarrow> Inl (Status s) | Some y \<Rightarrow> Inr y)"

lemma orelse_status_eq_Inr [simp]: "orelse_status x s = Inr y \<longleftrightarrow> x = Some y"
  by (simp add: orelse_status_def split: option.splits)

lemma orelse_status_eq_Inl: "orelse_status x s = Inl e \<longleftrightarrow> x = None \<and> e = Status s"
  by (auto simp add: orelse_status_def split: option.splits)

lemma orelse_status_not_fault [simp]: "orelse_status x s \<noteq> Inl Fault"
  by (simp add: orelse_status_def split: option.splits)

text \<open>\<open>size_t\<close> subtraction wraps.\<close>

definition size_sub :: "nat \<Rightarrow> nat \<Rightarrow> nat" where
  "size_sub a b = (if b \<le> a then a - b else a + 2 ^ 64 - b)"

lemma size_sub_le [simp]: "b \<le> a \<Longrightarrow> size_sub a b = a - b"
  by (simp add: size_sub_def)

section \<open>Widening\<close>

lemma unat_u16_bound: "unat (x :: u16) < 65536"
proof -
  have "unat x < 2 ^ LENGTH(16)" by (rule unsigned_less)
  then show ?thesis by simp
qed

lemma unat_u32_bound: "unat (x :: u32) < 4294967296"
proof -
  have "unat x < 2 ^ LENGTH(32)" by (rule unsigned_less)
  then show ?thesis by simp
qed

lemma unat_u64_bound: "unat (x :: u64) < 18446744073709551616"
proof -
  have "unat x < 2 ^ LENGTH(64)" by (rule unsigned_less)
  then show ?thesis by simp
qed

text \<open>The bits above a bound, sums that do not wrap, and a narrow value widened.\<close>

lemma not_bit_high:
  fixes x :: "'a :: len word"
  assumes "unat x < 2 ^ k" and "k \<le> m"
  shows "\<not> bit x m"
proof -
  have "(2 :: nat) ^ k \<le> 2 ^ m" using assms(2) by (intro power_increasing) simp_all
  with assms(1) have "unat x < 2 ^ m" by linarith
  then have "take_bit m x = x"
    by (intro word_unat_eq_iff [THEN iffD2]) (simp add: unsigned_take_bit_eq take_bit_nat_eq_self)
  then have "bit x m = bit (take_bit m x) m" by simp
  then show ?thesis by (simp add: bit_simps)
qed

lemma scast_small:
  fixes x :: u32
  assumes "unat x < 2 ^ 31"
  shows "(scast x :: u64) = ucast x"
proof (rule bit_word_eqI)
  fix j assume "j < LENGTH(64)"
  then show "bit (scast x :: u64) j = bit (ucast x :: u64) j"
    using not_bit_high [OF assms, of 31] not_bit_high [OF assms, of j]
    by (cases "j < 31") (auto simp add: bit_simps min_def)
qed

lemma unat_small_u64: "n < 2 ^ 64 \<Longrightarrow> unat (a :: u64) + unat b = n \<Longrightarrow> unat (a + b) = n"
  by (simp add: unat_word_ariths)

lemma unat_of_nat_u64: "n < 2 ^ 64 \<Longrightarrow> unat (word_of_nat n :: u64) = n"
  by (simp add: unat_of_nat)

lemma unat_ucast_u16_u64 [simp]: "unat (ucast (x :: u16) :: u64) = unat x"
  using unat_u16_bound [of x] by (simp add: unsigned_ucast_eq take_bit_nat_eq_self)

lemma unat_ucast_u32_u64 [simp]: "unat (ucast (x :: u32) :: u64) = unat x"
  using unat_u32_bound [of x] by (simp add: unsigned_ucast_eq take_bit_nat_eq_self)

section \<open>Fields of a byte buffer, by index\<close>

definition get_bytes :: "bytes \<Rightarrow> nat \<Rightarrow> nat \<Rightarrow> bytes res" where
  "get_bytes s i n = (if i + n \<le> length s then Inr (take n (drop i s)) else Inl Fault)"

definition get_le :: "bytes \<Rightarrow> nat \<Rightarrow> nat \<Rightarrow> nat res" where
  "get_le s i n = bindR (get_bytes s i n) (\<lambda>b. Inr (le_nat b))"

text \<open>A structure that starts at a known place of a concatenation.\<close>

lemma get_bytes_append [mem_simps]:
  "get_bytes (pre @ xs) (length pre + k) n = get_bytes xs k n"
  "get_bytes (pre @ xs) (length pre) n = get_bytes xs 0 n"
  by (simp_all add: get_bytes_def)

lemma get_bytes_here [mem_simps]: "length b = n \<Longrightarrow> get_bytes (b @ xs) 0 n = Inr b"
  by (simp add: get_bytes_def)

lemma get_bytes_at: "length pre = i \<Longrightarrow> length b = n \<Longrightarrow> get_bytes (pre @ b @ post) i n = Inr b"
  by (auto simp add: get_bytes_def)

lemma get_le_at:
  "length pre = i \<Longrightarrow> x < 256 ^ n \<Longrightarrow> get_le (pre @ le_bytes n x @ post) i n = Inr x"
  by (simp add: get_le_def get_bytes_at le_nat_le_bytes)

section \<open>GUIDs and C strings\<close>

type_synonym guid = bytes

definition mk_guid :: "nat \<Rightarrow> nat \<Rightarrow> nat \<Rightarrow> nat list \<Rightarrow> guid" where
  "mk_guid a b c d = le_bytes 4 a @ le_bytes 2 b @ le_bytes 2 c @ map word_of_nat d"

lemma length_mk_guid [simp]: "length (mk_guid a b c d) = 8 + length d"
  by (simp add: mk_guid_def)

text \<open>A string literal as bytes, without its NUL.\<close>

definition str8 :: "string \<Rightarrow> bytes" where
  "str8 s = map (\<lambda>c. word_of_nat (of_char c)) s"

section \<open>Safe results\<close>

text \<open>
  \<open>safely m P\<close>: \<open>m\<close> makes no fault, and a value it returns satisfies \<open>P\<close>. The rules
  follow the structure of the code.
\<close>

definition safely :: "'a res \<Rightarrow> ('a \<Rightarrow> bool) \<Rightarrow> bool" where
  "safely m P \<longleftrightarrow> (case m of Inl Fault \<Rightarrow> False | Inl (Status s) \<Rightarrow> True | Inr x \<Rightarrow> P x)"

lemma safely_Inr [simp]: "safely (Inr x) P \<longleftrightarrow> P x"
  and safely_status [simp]: "safely (Inl (Status s)) P"
  and safely_fault [simp]: "\<not> safely (Inl Fault) P"
  by (simp_all add: safely_def)

lemma safely_bind: "safely m Q \<Longrightarrow> (\<And>x. m = Inr x \<Longrightarrow> Q x \<Longrightarrow> safely (f x) P) \<Longrightarrow> safely (bindR m f) P"
  by (auto simp add: safely_def bindR_def split: sum.splits exc.splits)

lemma safely_guard: "(c \<Longrightarrow> safely (f ()) P) \<Longrightarrow> safely (bindR (guardR c s) f) P"
  by (simp add: bind_guardR)

lemma safely_orelse: "(\<And>y. x = Some y \<Longrightarrow> safely (f y) P) \<Longrightarrow> safely (bindR (orelse_status x s) f) P"
  by (cases x) (simp_all add: orelse_status_def)

lemma safely_weaken: "safely m Q \<Longrightarrow> (\<And>x. m = Inr x \<Longrightarrow> Q x \<Longrightarrow> P x) \<Longrightarrow> safely m P"
  by (auto simp add: safely_def split: sum.splits exc.splits)

lemma safely_result: "safely m P \<Longrightarrow> m = Inr x \<Longrightarrow> P x"
  by (simp add: safely_def)

lemma safely_no_fault: "safely m P \<Longrightarrow> m \<noteq> Inl Fault"
  by (auto simp add: safely_def)

lemma safely_rd8:
  "in_buf b p 1 \<Longrightarrow> (\<And>x. rd8 b p = Inr x \<Longrightarrow> safely (f x) P) \<Longrightarrow> safely (bindR (rd8 b p) f) P"
  by (drule rd_ok(1)) auto

lemma safely_rd16:
  "in_buf b p 2 \<Longrightarrow> (\<And>x. rd16 b p = Inr x \<Longrightarrow> safely (f x) P) \<Longrightarrow> safely (bindR (rd16 b p) f) P"
  by (drule rd_ok(2)) auto

lemma safely_rd32:
  "in_buf b p 4 \<Longrightarrow> (\<And>x. rd32 b p = Inr x \<Longrightarrow> safely (f x) P) \<Longrightarrow> safely (bindR (rd32 b p) f) P"
  by (drule rd_ok(3)) auto

lemma safely_rd64:
  "in_buf b p 8 \<Longrightarrow> (\<And>x. rd64 b p = Inr x \<Longrightarrow> safely (f x) P) \<Longrightarrow> safely (bindR (rd64 b p) f) P"
  by (drule rd_ok(4)) auto

lemmas safely_rd = safely_rd8 safely_rd16 safely_rd32 safely_rd64

lemma safely_load:
  "in_buf b p n \<Longrightarrow> (\<And>x. load b p n = Inr x \<Longrightarrow> length x = n \<Longrightarrow> safely (f x) P) \<Longrightarrow> safely (bindR (load b p n) f) P"
  by (auto simp add: load_ok in_buf_def)

end
