(* ===== verification/PeHeader.thy ===== *)
theory PeHeader
  imports ShimPrelude
begin

text \<open>
  pe-relocate.c, the headers: bounds-checked image pointers, the sections of an image,
  and \<open>read_header\<close>, which takes the fields of an untrusted PE file into a context.
  Pointers are 64-bit addresses; the file is an \<open>mbuf\<close>. The structures' layouts are
  those of include/peimage.h, as field offsets.
\<close>

section \<open>Build and platform\<close>

datatype arch = X64 | AARCH64 | ARM | IA32 | IA64 | RISCV64

text \<open>
  What the code takes from the build and from shim's global state: the architecture, the
  option \<open>ALLOW_32BIT_KERNEL_ON_X64\<close>, \<open>in_protocol\<close> and the NX bit of \<open>mok_policy\<close>.
\<close>

record pe_env =
  pe_arch :: arch
  pe_allow_32bit_kernel_on_x64 :: bool
  pe_in_protocol :: bool
  pe_require_nx :: bool

definition PAGE_SIZE :: u32 where "PAGE_SIZE = 4096"

definition EFI_IMAGE_NT_OPTIONAL_HDR32_MAGIC :: u16 where "EFI_IMAGE_NT_OPTIONAL_HDR32_MAGIC = 0x10b"
definition EFI_IMAGE_NT_OPTIONAL_HDR64_MAGIC :: u16 where "EFI_IMAGE_NT_OPTIONAL_HDR64_MAGIC = 0x20b"
definition IMAGE_FILE_MACHINE_I386 :: u16 where "IMAGE_FILE_MACHINE_I386 = 0x014c"
definition IMAGE_FILE_MACHINE_X64 :: u16 where "IMAGE_FILE_MACHINE_X64 = 0x8664"

definition machine_type :: "arch \<Rightarrow> u16" where
  "machine_type a = (case a of
      X64 \<Rightarrow> IMAGE_FILE_MACHINE_X64 | AARCH64 \<Rightarrow> 0xaa64 | ARM \<Rightarrow> 0x01c2
    | IA32 \<Rightarrow> IMAGE_FILE_MACHINE_I386 | IA64 \<Rightarrow> 0x0200 | RISCV64 \<Rightarrow> 0x5064)"

definition allow_64_bit :: "pe_env \<Rightarrow> bool" where
  "allow_64_bit env = (case pe_arch env of
      X64 \<Rightarrow> True | AARCH64 \<Rightarrow> True | IA32 \<Rightarrow> pe_in_protocol env | RISCV64 \<Rightarrow> True | _ \<Rightarrow> False)"

definition allow_32_bit :: "pe_env \<Rightarrow> bool" where
  "allow_32_bit env = (case pe_arch env of
      X64 \<Rightarrow> pe_allow_32bit_kernel_on_x64 env \<and> pe_in_protocol env
    | IA32 \<Rightarrow> True | AARCH64 \<Rightarrow> False | RISCV64 \<Rightarrow> False | _ \<Rightarrow> True)"

section \<open>Image pointers\<close>

text \<open>\<open>None\<close> is the null pointer.\<close>

definition ImageAddress :: "u64 \<Rightarrow> u64 \<Rightarrow> u64 \<Rightarrow> u64 option" where
  "ImageAddress img sz address =
     (if sz \<le> address then None else checked_add img address)"

lemma ImageAddress_Some:
  "ImageAddress img sz address = Some p \<longleftrightarrow>
     address < sz \<and> unat img + unat address < 2 ^ 64 \<and> p = img + address"
  by (auto simp add: ImageAddress_def checked_add_def)

lemma ImageAddress_bound:
  "ImageAddress img sz address = Some p \<Longrightarrow> unat (p - img) < unat sz"
  by (auto simp add: ImageAddress_Some word_less_nat_alt)

section \<open>The context\<close>

record pe_context =
  c_ImageAddress :: u64
  c_ImageSize :: u64
  c_EntryPoint :: u64
  c_SizeOfHeaders :: u64
  c_NumberOfSections :: u16
  c_SectionAlignment :: u32
  c_FirstSection :: u64
  c_RelocDir :: u64
  c_SecDir :: u64
  c_NumberOfRvaAndSizes :: u64
  c_PEHdr :: u64

section \<open>Sections\<close>

record section_header =
  sh_Name :: bytes
  sh_VirtualSize :: u32
  sh_VirtualAddress :: u32
  sh_SizeOfRawData :: u32
  sh_PointerToRawData :: u32
  sh_PointerToRelocations :: u32
  sh_NumberOfRelocations :: u16
  sh_Characteristics :: u32

definition read_section :: "mbuf \<Rightarrow> u64 \<Rightarrow> section_header res" where
  "read_section b p =
     bindR (load b p 8) (\<lambda>name. bindR (rd32 b (p + 8)) (\<lambda>vs. bindR (rd32 b (p + 12)) (\<lambda>va.
     bindR (rd32 b (p + 16)) (\<lambda>rs. bindR (rd32 b (p + 20)) (\<lambda>rp. bindR (rd32 b (p + 24)) (\<lambda>pr.
     bindR (rd16 b (p + 32)) (\<lambda>nr. bindR (rd32 b (p + 36)) (\<lambda>ch.
       Inr \<lparr>sh_Name = name, sh_VirtualSize = vs, sh_VirtualAddress = va, sh_SizeOfRawData = rs,
            sh_PointerToRawData = rp, sh_PointerToRelocations = pr, sh_NumberOfRelocations = nr,
            sh_Characteristics = ch\<rparr>))))))))"

definition EFI_IMAGE_SCN_CNT_UNINITIALIZED_DATA :: u32 where
  "EFI_IMAGE_SCN_CNT_UNINITIALIZED_DATA = 0x00000080"
definition EFI_IMAGE_SCN_MEM_DISCARDABLE :: u32 where "EFI_IMAGE_SCN_MEM_DISCARDABLE = 0x02000000"
definition EFI_IMAGE_SCN_MEM_EXECUTE :: u32 where "EFI_IMAGE_SCN_MEM_EXECUTE = 0x20000000"
definition EFI_IMAGE_SCN_MEM_READ :: u32 where "EFI_IMAGE_SCN_MEM_READ = 0x40000000"
definition EFI_IMAGE_SCN_MEM_WRITE :: u32 where "EFI_IMAGE_SCN_MEM_WRITE = 0x80000000"

definition has_flag :: "section_header \<Rightarrow> u32 \<Rightarrow> bool" where
  "has_flag s f \<longleftrightarrow> sh_Characteristics s AND f \<noteq> 0"

text \<open>The address of a section header in the table.\<close>

definition section_ptr :: "pe_context \<Rightarrow> nat \<Rightarrow> u64" where
  "section_ptr ctx i = c_FirstSection ctx + word_of_nat (40 * i)"

text \<open>The null pointer is below every other.\<close>

definition ptr_val :: "u64 option \<Rightarrow> u64" where
  "ptr_val p = (case p of None \<Rightarrow> 0 | Some x \<Rightarrow> x)"

text \<open>
  \<open>get_section_vma\<close>: the base of a section in the image loaded at \<open>buffer\<close>, its size
  (one less than the number of bytes), and its header. The sums of two 32-bit fields wrap.
\<close>

definition get_section_vma ::
  "mbuf \<Rightarrow> pe_context \<Rightarrow> nat \<Rightarrow> u64 \<Rightarrow> (u64 option \<times> u64 \<times> section_header) res"
where
  "get_section_vma b ctx i buffer =
     bindR (guardR (i < unat (c_NumberOfSections ctx)) EFI_NOT_FOUND) (\<lambda>_.
     bindR (guardR (c_FirstSection ctx \<noteq> 0) EFI_UNSUPPORTED) (\<lambda>_.
     bindR (read_section b (section_ptr ctx i)) (\<lambda>sec.
     let base = ImageAddress buffer (c_ImageSize ctx) (ucast (sh_VirtualAddress sec));
         e = ImageAddress buffer (c_ImageSize ctx)
               (ucast (sh_VirtualAddress sec + sh_VirtualSize sec - 1))
     in bindR (guardR (has_flag sec EFI_IMAGE_SCN_MEM_DISCARDABLE \<or> (base \<noteq> None \<and> e \<noteq> None))
                 EFI_UNSUPPORTED) (\<lambda>_.
        bindR (guardR (has_flag sec EFI_IMAGE_SCN_CNT_UNINITIALIZED_DATA \<or>
                 \<not> (ucast (sh_VirtualAddress sec) < c_SizeOfHeaders ctx \<or>
                    ucast (sh_PointerToRawData sec) < c_SizeOfHeaders ctx)) EFI_UNSUPPORTED) (\<lambda>_.
        bindR (guardR (ptr_val base \<le> ptr_val e) EFI_UNSUPPORTED) (\<lambda>_.
          Inr (base, ptr_val e - ptr_val base, sec)))))))"

text \<open>The loop of \<open>get_section_vma_by_name\<close>: \<open>k\<close> sections are left, \<open>i\<close> is the current one.\<close>

fun find_section_loop ::
  "mbuf \<Rightarrow> pe_context \<Rightarrow> bytes \<Rightarrow> u64 \<Rightarrow> nat \<Rightarrow> nat \<Rightarrow> (u64 option \<times> u64 \<times> section_header) res"
where
  "find_section_loop b ctx namebuf buffer 0 i = Inl (Status EFI_NOT_FOUND)"
| "find_section_loop b ctx namebuf buffer (Suc k) i =
     (case get_section_vma b ctx i buffer of
        Inl Fault \<Rightarrow> Inl Fault
      | Inl (Status st) \<Rightarrow> find_section_loop b ctx namebuf buffer k (Suc i)
      | Inr (base, sz, sec) \<Rightarrow>
          if sh_Name sec = namebuf then Inr (base, sz, sec)
          else find_section_loop b ctx namebuf buffer k (Suc i))"

definition get_section_vma_by_name ::
  "mbuf \<Rightarrow> pe_context \<Rightarrow> bytes \<Rightarrow> u64 \<Rightarrow> nat \<Rightarrow> (u64 option \<times> u64 \<times> section_header) res"
where
  "get_section_vma_by_name b ctx name buffer bufsz =
     bindR (guardR (name \<noteq> [] \<and> buffer \<noteq> 0 \<and> length name \<le> bufsz) EFI_INVALID_PARAMETER) (\<lambda>_.
     bindR (guardR (length name \<le> 8) EFI_UNSUPPORTED) (\<lambda>_.
       find_section_loop b ctx (name @ replicate (8 - length name) 0) buffer
         (unat (c_NumberOfSections ctx)) 0))"

section \<open>read_header\<close>

definition image_is_64_bit :: "mbuf \<Rightarrow> u64 \<Rightarrow> bool res" where
  "image_is_64_bit b pe = bindR (rd16 b (pe + 24)) (\<lambda>m. Inr (m = EFI_IMAGE_NT_OPTIONAL_HDR64_MAGIC))"

definition image_is_loadable :: "pe_env \<Rightarrow> mbuf \<Rightarrow> u64 \<Rightarrow> bool res" where
  "image_is_loadable env b pe =
     bindR (rd16 b (pe + 4)) (\<lambda>machine.
     let mt = machine_type (pe_arch env) in
     if machine \<noteq> mt \<and>
        \<not> (mt = IMAGE_FILE_MACHINE_I386 \<and> machine = IMAGE_FILE_MACHINE_X64 \<and> allow_64_bit env)
     then Inr False
     else bindR (rd16 b (pe + 24)) (\<lambda>magic.
       if magic \<noteq> EFI_IMAGE_NT_OPTIONAL_HDR64_MAGIC \<and> magic \<noteq> EFI_IMAGE_NT_OPTIONAL_HDR32_MAGIC
       then Inr False
       else bindR (image_is_64_bit b pe) (\<lambda>is64.
         Inr (if is64 then allow_64_bit env else allow_32_bit env))))"

text \<open>The DOS header: where the PE header is, and its offset.\<close>

definition find_pe_header :: "mbuf \<Rightarrow> u64 \<Rightarrow> u32 \<Rightarrow> (u64 \<times> u64) res" where
  "find_pe_header b data datasize =
     bindR (guardR (64 \<le> datasize) EFI_UNSUPPORTED) (\<lambda>_.
     bindR (rd16 b data) (\<lambda>e_magic.
     if e_magic = 0x5a4d then
       bindR (rd32 b (data + 60)) (\<lambda>e_lfanew.
       bindR (guardR (64 \<le> e_lfanew \<and> e_lfanew \<le> datasize - 4) EFI_UNSUPPORTED) (\<lambda>_.
         Inr (data + ucast e_lfanew, ucast e_lfanew)))
     else Inr (data, 0)))"

text \<open>The size and alignment fields of the optional header, and its size.\<close>

record opt_header =
  oh_NumberOfRvaAndSizes :: u32
  oh_SizeOfHeaders :: u32
  oh_SizeOfImage :: u32
  oh_SectionAlignment :: u32
  oh_FileAlignment :: u32
  oh_size :: u64

definition read_opt_header :: "mbuf \<Rightarrow> u64 \<Rightarrow> bool \<Rightarrow> opt_header res" where
  "read_opt_header b pe is64 =
     bindR (rd32 b (pe + (if is64 then 132 else 116))) (\<lambda>n.
     bindR (rd32 b (pe + 84)) (\<lambda>h. bindR (rd32 b (pe + 80)) (\<lambda>s.
     bindR (rd32 b (pe + 56)) (\<lambda>sa. bindR (rd32 b (pe + 60)) (\<lambda>fa.
       Inr \<lparr>oh_NumberOfRvaAndSizes = n, oh_SizeOfHeaders = h, oh_SizeOfImage = s,
            oh_SectionAlignment = sa, oh_FileAlignment = fa, oh_size = (if is64 then 240 else 224)\<rparr>)))))"

text \<open>The section alignment the loader uses.\<close>

definition adjust_alignment :: "u32 \<Rightarrow> u32 \<Rightarrow> u32" where
  "adjust_alignment section_alignment file_alignment =
     (let fa = (if file_alignment = 0 then 0x200 else file_alignment);
          sa = (if section_alignment = 0 then PAGE_SIZE else section_alignment)
      in if sa < fa then fa else sa)"

text \<open>
  The consistency of the directory count with the optional header's size: all in
  \<open>size_t\<close>, each step with its overflow check.
\<close>

definition directories_ok :: "u64 \<Rightarrow> u16 \<Rightarrow> u32 \<Rightarrow> bool" where
  "directories_ok opt_size size_of_opt nrva =
     (case checked_mul 8 16 of None \<Rightarrow> False | Some t0 \<Rightarrow>
      case checked_sub opt_size t0 of None \<Rightarrow> False | Some without \<Rightarrow>
      case checked_sub (ucast size_of_opt) without of None \<Rightarrow> False | Some t0 \<Rightarrow>
      case checked_mul (ucast nrva) 8 of None \<Rightarrow> False | Some t1 \<Rightarrow> t0 = t1)"

text \<open>
  The offset of the section table, from \<open>e_lfanew\<close> of the DOS header (also when the file
  has no DOS signature), and the checks that the table fits.
\<close>

definition section_table_offset :: "u32 \<Rightarrow> u16 \<Rightarrow> u64 option" where
  "section_table_offset e_lfanew size_of_opt =
     (case checked_add (ucast e_lfanew) 4 of None \<Rightarrow> None | Some t \<Rightarrow>
      case checked_add t 20 of None \<Rightarrow> None | Some t \<Rightarrow> checked_add t (ucast size_of_opt))"

definition section_table_fits :: "u64 \<Rightarrow> u64 \<Rightarrow> u64 \<Rightarrow> u16 \<Rightarrow> u32 \<Rightarrow> bool" where
  "section_table_fits table image_size size_of_headers nsec datasize \<longleftrightarrow>
     (case checked_sub image_size table of None \<Rightarrow> False | Some t \<Rightarrow> ucast nsec < t div 40) \<and>
     (case checked_sub size_of_headers table of None \<Rightarrow> False | Some t \<Rightarrow> ucast nsec \<le> t div 40) \<and>
     (case checked_mul (ucast nsec) 40 of None \<Rightarrow> False | Some t \<Rightarrow>
      case checked_add t table of None \<Rightarrow> False | Some t \<Rightarrow> t \<le> ucast datasize)"

text \<open>The fields of the PE header at \<open>pe\<close>, once it is known to lie in the file.\<close>

definition read_pe_header :: "pe_env \<Rightarrow> mbuf \<Rightarrow> u64 \<Rightarrow> u32 \<Rightarrow> u64 \<Rightarrow> bool \<Rightarrow> pe_context res" where
  "read_pe_header env b data datasize pe is64 =
     bindR (image_is_loadable env b pe) (\<lambda>loadable.
     bindR (guardR loadable EFI_UNSUPPORTED) (\<lambda>_.
     bindR (read_opt_header b pe is64) (\<lambda>oh.
     bindR (guardR (oh_FileAlignment oh mod 2 = 0) EFI_UNSUPPORTED) (\<lambda>_.
     bindR (rd16 b (pe + 6)) (\<lambda>nsec.
     bindR (guardR (oh_NumberOfRvaAndSizes oh \<le> 16) EFI_UNSUPPORTED) (\<lambda>_.
     bindR (rd16 b (pe + 20)) (\<lambda>size_of_opt.
     bindR (guardR (directories_ok (oh_size oh) size_of_opt (oh_NumberOfRvaAndSizes oh)) EFI_UNSUPPORTED) (\<lambda>_.
     bindR (rd32 b (data + 60)) (\<lambda>e_lfanew.
     bindR (orelse_status (section_table_offset e_lfanew size_of_opt) EFI_UNSUPPORTED) (\<lambda>table.
     bindR (guardR (section_table_fits table (ucast (oh_SizeOfImage oh)) (ucast (oh_SizeOfHeaders oh)) nsec datasize)
              EFI_UNSUPPORTED) (\<lambda>_.
     bindR (orelse_status (checked_sub pe data) EFI_UNSUPPORTED) (\<lambda>t.
     bindR (orelse_status (checked_add t 264) EFI_UNSUPPORTED) (\<lambda>t.
     bindR (guardR (t \<le> ucast datasize) EFI_UNSUPPORTED) (\<lambda>_.
     bindR (rd16 b pe) (\<lambda>signature.
     bindR (guardR (signature = 0x4550) EFI_UNSUPPORTED) (\<lambda>_.
     bindR (rd16 b (pe + 22)) (\<lambda>characteristics.
     bindR (guardR (characteristics AND 1 = 0) EFI_UNSUPPORTED) (\<lambda>_.
     bindR (if is64 then rd64 b (pe + 48) else bindR (rd32 b (pe + 52)) (\<lambda>x. Inr (ucast x))) (\<lambda>image_base.
     bindR (rd32 b (pe + 40)) (\<lambda>entry.
     bindR (rd16 b (pe + 94)) (\<lambda>dll_flags.
     let dirs = pe + (if is64 then 136 else 120); reloc_dir = dirs + 40; sec_dir = dirs + 32 in
     bindR (guardR (\<not> (pe_require_nx env \<and> dll_flags AND 0x0100 = 0)) EFI_UNSUPPORTED) (\<lambda>_.
     bindR (orelse_status (checked_add pe (ucast size_of_opt)) EFI_UNSUPPORTED) (\<lambda>t.
     bindR (orelse_status (checked_add t 4) EFI_UNSUPPORTED) (\<lambda>t.
     bindR (orelse_status (checked_add t 20) EFI_UNSUPPORTED) (\<lambda>first_section.
     bindR (guardR (first_section \<le> data + ucast datasize) EFI_UNSUPPORTED) (\<lambda>_.
     bindR (guardR (oh_SizeOfHeaders oh \<le> oh_SizeOfImage oh) EFI_UNSUPPORTED) (\<lambda>_.
     bindR (orelse_status (checked_sub sec_dir data) EFI_UNSUPPORTED) (\<lambda>t.
     bindR (guardR (t \<le> ucast datasize - 8) EFI_UNSUPPORTED) (\<lambda>_.
     bindR (rd32 b sec_dir) (\<lambda>sec_va.
     bindR (rd32 b (sec_dir + 4)) (\<lambda>sec_size.
     bindR (guardR (\<not> (datasize < sec_va \<or> (sec_va = datasize \<and> 0 < sec_size))) EFI_INVALID_PARAMETER) (\<lambda>_.
       Inr \<lparr>c_ImageAddress = image_base, c_ImageSize = ucast (oh_SizeOfImage oh), c_EntryPoint = ucast entry,
            c_SizeOfHeaders = ucast (oh_SizeOfHeaders oh), c_NumberOfSections = nsec,
            c_SectionAlignment = adjust_alignment (oh_SectionAlignment oh) (oh_FileAlignment oh),
            c_FirstSection = first_section, c_RelocDir = reloc_dir, c_SecDir = sec_dir,
            c_NumberOfRvaAndSizes = ucast (oh_NumberOfRvaAndSizes oh),
            c_PEHdr = pe\<rparr>))))))))))))))))))))))))))))))))"

definition read_header :: "pe_env \<Rightarrow> mbuf \<Rightarrow> u64 \<Rightarrow> u32 \<Rightarrow> pe_context res" where
  "read_header env b data datasize =
     bindR (find_pe_header b data datasize) (\<lambda>(pe, dos_sz).
     bindR (guardR (248 \<le> ucast datasize - dos_sz) EFI_UNSUPPORTED) (\<lambda>_.
     bindR (image_is_64_bit b pe) (\<lambda>is64.
     bindR (guardR (\<not> is64 \<or> 264 \<le> ucast datasize - dos_sz) EFI_UNSUPPORTED) (\<lambda>_.
       read_pe_header env b data datasize pe is64))))"


section \<open>Safety of the header parser\<close>

lemma ucast_u32_u64_u32 [simp]: "(ucast (ucast (x :: u32) :: u64) :: u32) = x"
  by (rule bit_word_eqI) (simp add: bit_ucast_iff)

text \<open>
  What a context gives once \<open>read_header\<close> has accepted a file of \<open>n\<close> bytes at
  \<open>data\<close>: the section table, the two data directories and the PE header lie in the file,
  and the headers are no larger than the image.
\<close>

definition context_ok :: "mbuf \<Rightarrow> u64 \<Rightarrow> nat \<Rightarrow> pe_context \<Rightarrow> bool" where
  "context_ok b data n ctx \<longleftrightarrow>
     (\<exists>d. c_FirstSection ctx = data + d \<and> unat d + 40 * unat (c_NumberOfSections ctx) \<le> n)
   \<and> in_buf b (c_RelocDir ctx) 8 \<and> in_buf b (c_SecDir ctx) 8 \<and> in_buf b (c_PEHdr ctx) 264
   \<and> c_SizeOfHeaders ctx \<le> c_ImageSize ctx \<and> unat (c_ImageSize ctx) < 2 ^ 32
   \<and> 40 * (unat (c_NumberOfSections ctx) + 1) \<le> unat (c_ImageSize ctx)
   \<and> unat (c_NumberOfRvaAndSizes ctx) \<le> 16
   \<and> (\<forall>va. rd32 b (c_SecDir ctx) = Inr va \<longrightarrow> unat va \<le> n)"

lemma find_pe_header_safe:
  assumes "in_buf b data (unat datasize)"
  shows "safely (find_pe_header b data datasize) (\<lambda>(pe, dos).
     pe = data + dos \<and> 64 \<le> unat datasize \<and> unat dos \<le> unat datasize
     \<and> (dos = 0 \<or> rd32 b (data + 60) = Inr (ucast dos)))"
proof -
  have e: "unat (datasize - 4) \<le> unat datasize" if "64 \<le> datasize"
    using that by (simp add: word_le_nat_alt unat_sub)
  show ?thesis unfolding find_pe_header_def
  proof (rule safely_guard, rule safely_rd16)
    assume "64 \<le> datasize"
    then have n: "64 \<le> unat datasize" by (simp add: word_le_nat_alt)
    show "in_buf b data 2" using in_buf_mono [OF assms] n by simp
    fix m :: u16
    have i: "in_buf b (data + 60) 4" by (rule in_buf_field [OF assms]) (use n in simp)
    show "safely (if m = 0x5a4d then bindR (rd32 b (data + 60)) (\<lambda>e_lfanew.
        bindR (guardR (64 \<le> e_lfanew \<and> e_lfanew \<le> datasize - 4) EFI_UNSUPPORTED) (\<lambda>_.
          Inr (data + ucast e_lfanew, ucast e_lfanew))) else Inr (data, 0))
       (\<lambda>(pe, dos). pe = data + dos \<and> 64 \<le> unat datasize \<and> unat dos \<le> unat datasize
          \<and> (dos = 0 \<or> rd32 b (data + 60) = Inr (ucast dos)))"
      using n e \<open>64 \<le> datasize\<close>
      by (auto simp add: word_le_nat_alt intro!: safely_rd32 i safely_guard) 
  qed
qed

lemma safely_is64:
  "in_buf b pe 248 \<Longrightarrow> (\<And>x. safely (f x) P) \<Longrightarrow> safely (bindR (image_is_64_bit b pe) f) P"
  unfolding image_is_64_bit_def bindR_assoc bindR_Inr
  by (rule safely_rd16 [OF in_buf_field]) auto

lemma safely_loadable:
  assumes "in_buf b pe 248" and "\<And>x. safely (f x) P"
  shows "safely (bindR (image_is_loadable env b pe) f) P"
proof -
  have "in_buf b (pe + 4) 2" "in_buf b (pe + 24) 2"
    by (rule in_buf_field [OF assms(1)], simp)+
  then show ?thesis unfolding image_is_loadable_def bindR_assoc Let_def
    using assms by (intro safely_rd16) (auto intro!: safely_rd16 safely_is64 simp add: bindR_assoc)
qed

lemma safely_opt:
  assumes "in_buf b pe 248" and "\<And>x. oh_size x = (if is64 then 240 else 224) \<Longrightarrow> safely (f x) P"
  shows "safely (bindR (read_opt_header b pe is64) f) P"
proof -
  have "in_buf b (pe + (if is64 then 132 else 116)) 4" "in_buf b (pe + 84) 4" "in_buf b (pe + 80) 4"
    "in_buf b (pe + 56) 4" "in_buf b (pe + 60) 4"
    by (rule in_buf_field [OF assms(1)], simp)+
  then show ?thesis unfolding read_opt_header_def bindR_assoc bindR_Inr
    using assms(2) by (intro safely_rd32) auto
qed

lemma section_table_offset_unat:
  "section_table_offset e szo = Some t \<Longrightarrow> unat t = unat e + 24 + unat szo"
  by (auto simp add: section_table_offset_def dest!: checked_add_unat split: option.splits)

lemma section_table_fits_unat:
  assumes "section_table_fits t isz hsz ns ds"
  shows "40 * unat ns + unat t \<le> unat ds" and "40 * (unat ns + 1) \<le> unat isz"
proof -
  show "40 * unat ns + unat t \<le> unat ds"
    using assms unfolding section_table_fits_def
    by (auto simp add: word_le_nat_alt dest!: checked_add_unat checked_mul_unat split: option.splits)
  obtain x where x: "checked_sub isz t = Some x" "ucast ns < x div 40"
    using assms unfolding section_table_fits_def by (auto split: option.splits)
  have "unat (x div 40) = unat x div 40" by (simp add: unat_div)
  then have "unat ns + 1 \<le> unat x div 40" using x(2) by (simp add: word_less_nat_alt)
  then have "40 * (unat ns + 1) \<le> 40 * (unat x div 40)" by (rule mult_le_mono2)
  also have "\<dots> \<le> unat x" by simp
  finally have "40 * (unat ns + 1) \<le> unat x" .
  then show "40 * (unat ns + 1) \<le> unat isz" using checked_sub_unat [OF x(1)] by linarith
qed

lemma safely_base:
  assumes "in_buf b pe 248" and "\<And>x. safely (f x) P"
  shows "safely (bindR (if is64 then rd64 b (pe + 48) else bindR (rd32 b (pe + 52)) (\<lambda>x. Inr (ucast x))) f) P"
proof -
  have "in_buf b (pe + 48) 8" "in_buf b (pe + 52) 4"
    by (rule in_buf_field [OF assms(1)], simp)+
  then show ?thesis using assms(2)
    by (cases is64) (auto simp add: bindR_assoc intro!: safely_rd32 safely_rd64)
qed

lemma context_okI:
  assumes "in_buf b data (unat datasize)" and "pe = data + dos"
    and "dos = 0 \<or> rd32 b (data + 60) = Inr (ucast dos :: u32) \<and> unat dos < 2 ^ 32"
    and "in_buf b (pe + (if is64 then 136 else 120) + 32) 8" and "in_buf b (pe + (if is64 then 136 else 120) + 40) 8"
    and "rd32 b (data + 60) = Inr e" and "section_table_offset e szo = Some table"
    and "section_table_fits table (ucast (oh_SizeOfImage oh)) (ucast (oh_SizeOfHeaders oh)) nsec datasize"
    and "checked_sub pe data = Some t" and "checked_add t 264 = Some t'" and "t' \<le> ucast datasize"
    and "checked_add pe (ucast szo) = Some u" and "checked_add u 4 = Some v" and "checked_add v 20 = Some fs"
    and "oh_SizeOfHeaders oh \<le> oh_SizeOfImage oh" and "oh_NumberOfRvaAndSizes oh \<le> 16"
    and "rd32 b (pe + (if is64 then 136 else 120) + 32) = Inr va"
    and "\<not> (datasize < va \<or> (va = datasize \<and> 0 < vs))"
  shows "context_ok b data (unat datasize)
     \<lparr>c_ImageAddress = ib, c_ImageSize = ucast (oh_SizeOfImage oh), c_EntryPoint = ep,
      c_SizeOfHeaders = ucast (oh_SizeOfHeaders oh), c_NumberOfSections = nsec, c_SectionAlignment = sa,
      c_FirstSection = fs, c_RelocDir = pe + (if is64 then 136 else 120) + 40,
      c_SecDir = pe + (if is64 then 136 else 120) + 32,
      c_NumberOfRvaAndSizes = ucast (oh_NumberOfRvaAndSizes oh), c_PEHdr = pe\<rparr>"
proof -
  note tab = section_table_offset_unat [OF assms(7)]
  note fits = section_table_fits_unat [OF assms(8)]
  have fs: "fs = pe + (ucast szo + 4 + 20)" using assms(12-14)
    by (auto simp add: checked_add_def split: if_splits)
  have d: "unat dos \<le> unat e"
    using assms(3,6) by (auto simp add: unsigned_ucast_eq take_bit_nat_eq_self)
  have "unat (dos + (ucast szo + 4 + 20)) \<le> unat dos + unat (ucast szo + 4 + 20 :: u64)"
    by (simp add: unat_word_ariths)
  moreover have "unat (ucast szo + 4 + 20 :: u64) \<le> unat szo + 24"
    by (simp add: unat_word_ariths) 
  ultimately have "unat (dos + (ucast szo + 4 + 20)) + 40 * unat nsec \<le> unat datasize"
    using tab fits(1) d by linarith
  then have first: "\<exists>d. fs = data + d \<and> unat d + 40 * unat nsec \<le> unat datasize"
    using fs assms(2) by (intro exI [of _ "dos + (ucast szo + 4 + 20)"]) (simp add: add.assoc)
  have "unat dos + 264 \<le> unat datasize"
    using assms(2,9-11) checked_add_unat [OF assms(10)]
    by (auto simp add: checked_sub_def word_le_nat_alt split: if_splits)
  then have pe: "in_buf b pe 264" unfolding assms(2) by (intro in_buf_field [OF assms(1)]) simp
  have "unat va \<le> unat datasize" using assms(18) by (simp add: word_less_nat_alt not_less)
  then show ?thesis
    using first pe assms(4,5,15-17) fits(2) unat_u32_bound [of "oh_SizeOfImage oh"]
    by (simp add: context_ok_def word_le_nat_alt)
qed

lemma read_pe_header_safe:
  assumes buf: "in_buf b data (unat datasize)" and wrap: "unat data + unat datasize < 2 ^ 64"
    and pe: "pe = data + dos" and n: "64 \<le> unat datasize" "unat dos + 248 \<le> unat datasize"
    and dos: "dos = 0 \<or> rd32 b (data + 60) = Inr (ucast dos :: u32) \<and> unat dos < 2 ^ 32"
  shows "safely (read_pe_header env b data datasize pe is64) (context_ok b data (unat datasize))"
proof -
  have i: "in_buf b pe 248" unfolding pe by (rule in_buf_field [OF buf]) (use n in simp)
  have f: "in_buf b (pe + d) k" if "unat d + k \<le> 248" for d k by (rule in_buf_field [OF i that])
  have i2: "in_buf b pe 2" by (rule in_buf_mono [OF i]) simp
  have i60: "in_buf b (data + 60) 4" by (rule in_buf_field [OF buf]) (use n in simp)
  have sd: "in_buf b (pe + (if is64 then 136 else 120) + 32) 4"
    "in_buf b (pe + (if is64 then 136 else 120) + 32) 8"
    "in_buf b (pe + (if is64 then 136 else 120) + 32 + 4) 4"
    "in_buf b (pe + (if is64 then 136 else 120) + 40) 8"
    using f [of 168 4] f [of 152 4] f [of 168 8] f [of 152 8] f [of 172 4] f [of 156 4] f [of 176 8] f [of 160 8]
    by (simp_all add: add.assoc)
  show ?thesis
    unfolding read_pe_header_def Let_def
    by (intro safely_loadable safely_opt safely_guard safely_rd16 safely_rd32 safely_orelse safely_base i i2 i60 sd f)
       ((unfold safely_Inr, rule context_okI [OF buf pe dos sd(2,4)]; assumption) | simp)+
qed

lemma read_header_ok:
  assumes "in_buf b data (unat datasize)" and "unat data + unat datasize < 2 ^ 64"
  shows "safely (read_header env b data datasize) (context_ok b data (unat datasize))"
  unfolding read_header_def
proof (rule safely_bind [OF find_pe_header_safe [OF assms(1)]])
  fix x assume x: "case x of (pe, dos) \<Rightarrow> pe = data + dos \<and> 64 \<le> unat datasize \<and> unat dos \<le> unat datasize
     \<and> (dos = 0 \<or> rd32 b (data + 60) = Inr (ucast dos))"
  obtain pe dos where xx: "x = (pe, dos)" by fastforce
  have pe: "pe = data + dos" "64 \<le> unat datasize" "unat dos \<le> unat datasize"
    "dos = 0 \<or> rd32 b (data + 60) = Inr (ucast dos)" using x xx by auto
  have sub: "unat (ucast datasize - dos) = unat datasize - unat dos"
    using pe(3) by (simp add: unat_sub word_le_nat_alt)
  have dos: "dos = 0 \<or> rd32 b (data + 60) = Inr (ucast dos :: u32) \<and> unat dos < 2 ^ 32"
    using pe(3,4) unat_u32_bound [of datasize] by auto
  show "safely (case x of (pe, dos_sz) \<Rightarrow>
      bindR (guardR (248 \<le> ucast datasize - dos_sz) EFI_UNSUPPORTED) (\<lambda>_.
      bindR (image_is_64_bit b pe) (\<lambda>is64.
      bindR (guardR (\<not> is64 \<or> 264 \<le> ucast datasize - dos_sz) EFI_UNSUPPORTED) (\<lambda>_.
        read_pe_header env b data datasize pe is64)))) (context_ok b data (unat datasize))"
    unfolding xx prod.case
  proof (rule safely_guard)
    assume "248 \<le> ucast datasize - dos"
    then have n: "unat dos + 248 \<le> unat datasize" using sub pe(3) by (simp add: word_le_nat_alt)
    then have i: "in_buf b pe 248" unfolding pe(1) by (intro in_buf_field [OF assms(1)]) simp
    show "safely (bindR (image_is_64_bit b pe) (\<lambda>is64.
      bindR (guardR (\<not> is64 \<or> 264 \<le> ucast datasize - dos) EFI_UNSUPPORTED) (\<lambda>_.
        read_pe_header env b data datasize pe is64))) (context_ok b data (unat datasize))"
      by (intro safely_is64 [OF i] safely_guard read_pe_header_safe [OF assms pe(1,2) n dos])
  qed
qed

text \<open>
  C18. \<open>read_header\<close> on a file of any content never reads outside it, and when it accepts
  the file the section table, the relocation and certificate directories and the PE header
  lie inside the file, the headers are within the image size, and the certificate table
  starts inside the file.
\<close>

theorem read_header_safe:
  assumes "in_buf b data (unat datasize)" and "unat data + unat datasize < 2 ^ 64"
  shows "safely (read_header env b data datasize) (context_ok b data (unat datasize))"
  using assms by (rule read_header_ok)

section \<open>Sections\<close>

lemma read_section_safe:
  assumes "in_buf b p 40"
  shows "safely (read_section b p) (\<lambda>s. length (sh_Name s) = 8)"
proof -
  have f: "in_buf b (p + d) k" if "unat d + k \<le> 40" for d k by (rule in_buf_field [OF assms that])
  show ?thesis unfolding read_section_def
    by (intro safely_load [OF in_buf_mono [OF assms]] safely_rd16 safely_rd32 f) simp_all
qed

lemma section_ptr_in_buf:
  assumes buf: "in_buf b data n" and ctx: "context_ok b data n ctx"
    and i: "i < unat (c_NumberOfSections ctx)"
  shows "in_buf b (section_ptr ctx i) 40"
proof -
  obtain d where d: "c_FirstSection ctx = data + d" "unat d + 40 * unat (c_NumberOfSections ctx) \<le> n"
    using ctx by (auto simp add: context_ok_def)
  have "40 * i < 2 ^ 64" using i unat_u16_bound [of "c_NumberOfSections ctx"] by simp
  then have "unat (word_of_nat (40 * i) :: u64) = 40 * i" by (rule unat_of_nat_u64)
  then have "unat (d + word_of_nat (40 * i)) \<le> unat d + 40 * i" by (simp add: unat_word_ariths)
  then have "unat (d + word_of_nat (40 * i)) + 40 \<le> n" using d(2) i by simp
  from in_buf_field [OF buf this] show ?thesis by (simp add: section_ptr_def d(1) add.assoc)
qed

lemma get_section_vma_ok:
  assumes "in_buf b data n" and "context_ok b data n ctx"
  shows "safely (get_section_vma b ctx i buffer) (\<lambda>(base, sz, sec).
     i < unat (c_NumberOfSections ctx) \<and> read_section b (section_ptr ctx i) = Inr sec
     \<and> (\<not> has_flag sec EFI_IMAGE_SCN_MEM_DISCARDABLE \<longrightarrow>
          (\<exists>p. base = Some p \<and> unat (p - buffer) + unat sz < unat (c_ImageSize ctx)))
     \<and> (\<not> has_flag sec EFI_IMAGE_SCN_CNT_UNINITIALIZED_DATA \<longrightarrow>
          unat (c_SizeOfHeaders ctx) \<le> unat (sh_VirtualAddress sec)
          \<and> unat (c_SizeOfHeaders ctx) \<le> unat (sh_PointerToRawData sec)))"
  unfolding get_section_vma_def Let_def
proof (rule safely_guard, rule safely_guard, rule safely_bind [OF read_section_safe], goal_cases)
  case 1
  then show ?case by (intro section_ptr_in_buf [OF assms])
next
  case (2 sec)
  let ?base = "ImageAddress buffer (c_ImageSize ctx) (ucast (sh_VirtualAddress sec))"
  let ?e = "ImageAddress buffer (c_ImageSize ctx) (ucast (sh_VirtualAddress sec + sh_VirtualSize sec - 1))"
  have b: "\<exists>p. ?base = Some p \<and> unat (p - buffer) + unat (ptr_val ?e - ptr_val ?base) < unat (c_ImageSize ctx)"
    if h: "?base \<noteq> None" "?e \<noteq> None" "ptr_val ?base \<le> ptr_val ?e"
  proof -
    obtain p q where pq: "?base = Some p" "?e = Some q" using h by auto
    let ?va = "ucast (sh_VirtualAddress sec) :: u64" and ?ve = "ucast (sh_VirtualAddress sec + sh_VirtualSize sec - 1) :: u64"
    have p: "p = buffer + ?va" "unat buffer + unat ?va < 2 ^ 64"
      and q: "q = buffer + ?ve" "unat buffer + unat ?ve < 2 ^ 64" "?ve < c_ImageSize ctx"
      using pq by (simp_all only: ImageAddress_Some)
    have up: "unat p = unat buffer + unat ?va" "unat q = unat buffer + unat ?ve"
      using p q by (simp_all only: unat_word_ariths mod_less) simp_all
    have "unat (q - p) = unat q - unat p" "p \<le> q" using h pq by (simp_all add: ptr_val_def unat_sub)
    moreover have "unat p \<le> unat q" using h(3) pq by (simp add: ptr_val_def word_le_nat_alt)
    moreover have "p - buffer = ?va" using p by simp
    moreover have "unat ?ve < unat (c_ImageSize ctx)" using q(3) by (simp only: word_less_nat_alt)
    ultimately show ?thesis using pq up by (simp add: ptr_val_def)
  qed
  show ?case
    using 2(1,3) b
    by (intro safely_guard) (auto simp add: word_less_nat_alt not_less)
qed
lemma le_nat_zeros [simp]: "le_nat (replicate n 0) = 0"
  by (induction n) auto

section \<open>A file that is accepted\<close>

definition demo_pe_bytes :: bytes where
  "demo_pe_bytes = [0x4d, 0x5a] @ replicate 58 0 @ le_bytes 4 64
     @ le_bytes 2 0x4550 @ [0, 0] @ le_bytes 2 0x8664 @ le_bytes 2 1 @ replicate 12 0 @ le_bytes 2 240 @ le_bytes 2 0
     @ le_bytes 2 0x20b @ replicate 14 0 @ le_bytes 4 0x1000 @ replicate 4 0
     @ le_bytes 8 0x40000 @ le_bytes 4 0x1000 @ le_bytes 4 0x200
     @ replicate 16 0 @ le_bytes 4 0x3000 @ le_bytes 4 376 @ replicate 6 0 @ le_bytes 2 0x100
     @ replicate 36 0 @ le_bytes 4 16 @ replicate 128 0
     @ [0x2e, 0x74, 0x65, 0x78, 0x74, 0, 0, 0] @ le_bytes 4 0x1000 @ le_bytes 4 0x1000 @ le_bytes 4 16 @ le_bytes 4 376
     @ replicate 12 0 @ le_bytes 4 0x60000020 @ replicate 8 0 @ replicate 16 0xC3 @ replicate 8 0"

definition demo_pe :: mbuf where "demo_pe = \<lparr>mb_base = 0x10000, mb_data = demo_pe_bytes\<rparr>"
definition demo_pe_env :: pe_env where
  "demo_pe_env = \<lparr>pe_arch = X64, pe_allow_32bit_kernel_on_x64 = False, pe_in_protocol = False, pe_require_nx = True\<rparr>"
definition demo_ctx :: pe_context where
  "demo_ctx = \<lparr>c_ImageAddress = 0x40000, c_ImageSize = 0x3000, c_EntryPoint = 0x1000, c_SizeOfHeaders = 376,
     c_NumberOfSections = 1, c_SectionAlignment = 0x1000, c_FirstSection = 0x10000 + 328,
     c_RelocDir = 0x10000 + 64 + 136 + 40, c_SecDir = 0x10000 + 64 + 136 + 32, c_NumberOfRvaAndSizes = 16, c_PEHdr = 0x10000 + 64\<rparr>"

lemma demo_reads:
  "rd16 demo_pe 65536 = Inr 23117"
  "rd32 demo_pe 65596 = Inr 64"
  "rd16 demo_pe 65624 = Inr 523"
  "rd16 demo_pe 65604 = Inr 34404"
  "rd32 demo_pe 65732 = Inr 16"
  "rd32 demo_pe 65684 = Inr 376"
  "rd32 demo_pe 65680 = Inr 12288"
  "rd32 demo_pe 65656 = Inr 4096"
  "rd32 demo_pe 65660 = Inr 512"
  "rd16 demo_pe 65606 = Inr 1"
  "rd16 demo_pe 65620 = Inr 240"
  "rd16 demo_pe 65600 = Inr 17744"
  "rd16 demo_pe 65622 = Inr 0"
  "rd64 demo_pe 65648 = Inr 262144"
  "rd32 demo_pe 65640 = Inr 4096"
  "rd16 demo_pe 65694 = Inr 256"
  "rd32 demo_pe 65768 = Inr 0"
  "rd32 demo_pe 65772 = Inr 0"
  by (simp_all add: rd16_def rd32_def rd64_def load_def in_buf_def off_def demo_pe_def demo_pe_bytes_def le_nat_le_bytes)

lemma demo_read_header: "read_header demo_pe_env demo_pe 0x10000 400 = Inr demo_ctx"
  by (simp add: read_header_def find_pe_header_def demo_reads guardR_def image_is_64_bit_def read_pe_header_def
      image_is_loadable_def read_opt_header_def directories_ok_def section_table_offset_def section_table_fits_def
      checked_add_def checked_sub_def checked_mul_def orelse_status_def Let_def demo_pe_env_def demo_ctx_def machine_type_def
      adjust_alignment_def allow_64_bit_def EFI_IMAGE_NT_OPTIONAL_HDR64_MAGIC_def IMAGE_FILE_MACHINE_X64_def IMAGE_FILE_MACHINE_I386_def PAGE_SIZE_def)

lemma demo_pe_in_buf: "in_buf demo_pe 0x10000 (unat (400 :: u32))"
  by (simp add: in_buf_def off_def demo_pe_def demo_pe_bytes_def)

lemma read_header_safe_witness:
  "read_header demo_pe_env demo_pe 0x10000 400 = Inr demo_ctx \<and> context_ok demo_pe 0x10000 400 demo_ctx"
proof -
  have "safely (read_header demo_pe_env demo_pe 0x10000 400) (context_ok demo_pe 0x10000 (unat (400 :: u32)))"
    by (rule read_header_safe [OF demo_pe_in_buf]) simp
  then show ?thesis using demo_read_header by simp
qed

text \<open>
  \<open>get_section_vma\<close>, with a context that \<open>read_header\<close> could have made, never reads
  outside the file, and a section it returns is one of the table; unless the section is
  discardable, its base and its last byte lie in the loaded image; unless it is
  uninitialised data, neither its address nor its file offset lies in the headers.
\<close>

theorem get_section_vma_bounds:
  assumes "in_buf b data n" and "context_ok b data n ctx"
  shows "safely (get_section_vma b ctx i buffer) (\<lambda>(base, sz, sec).
     i < unat (c_NumberOfSections ctx) \<and> read_section b (section_ptr ctx i) = Inr sec
     \<and> (\<not> has_flag sec EFI_IMAGE_SCN_MEM_DISCARDABLE \<longrightarrow>
          (\<exists>p. base = Some p \<and> unat (p - buffer) + unat sz < unat (c_ImageSize ctx)))
     \<and> (\<not> has_flag sec EFI_IMAGE_SCN_CNT_UNINITIALIZED_DATA \<longrightarrow>
          unat (c_SizeOfHeaders ctx) \<le> unat (sh_VirtualAddress sec)
          \<and> unat (c_SizeOfHeaders ctx) \<le> unat (sh_PointerToRawData sec)))"
  using assms by (rule get_section_vma_ok)

lemma demo_context_ok: "context_ok demo_pe 0x10000 400 demo_ctx"
proof -
  have "safely (read_header demo_pe_env demo_pe 0x10000 400) (context_ok demo_pe 0x10000 (unat (400 :: u32)))"
    by (rule read_header_ok [OF demo_pe_in_buf]) simp
  then show ?thesis using demo_read_header by simp
qed

lemma demo_section:
  "read_section demo_pe (section_ptr demo_ctx 0)
   = Inr \<lparr>sh_Name = [0x2e, 0x74, 0x65, 0x78, 0x74, 0, 0, 0], sh_VirtualSize = 0x1000, sh_VirtualAddress = 0x1000,
          sh_SizeOfRawData = 16, sh_PointerToRawData = 376, sh_PointerToRelocations = 0, sh_NumberOfRelocations = 0,
          sh_Characteristics = 0x60000020\<rparr>"
  by (simp add: read_section_def section_ptr_def demo_ctx_def rd16_def rd32_def load_def in_buf_def off_def
      demo_pe_def demo_pe_bytes_def le_nat_le_bytes)

lemma get_section_vma_bounds_witness:
  "\<exists>sz sec. get_section_vma demo_pe demo_ctx 0 0x80000 = Inr (Some 0x81000, sz, sec)
     \<and> unat (0x81000 - 0x80000 :: u64) + unat sz < unat (c_ImageSize demo_ctx)"
proof -
  have r: "\<exists>sz sec. get_section_vma demo_pe demo_ctx 0 0x80000 = Inr (Some 0x81000, sz, sec)
      \<and> \<not> has_flag sec EFI_IMAGE_SCN_MEM_DISCARDABLE"
    by (simp add: get_section_vma_def demo_section has_flag_def EFI_IMAGE_SCN_MEM_DISCARDABLE_def
        EFI_IMAGE_SCN_CNT_UNINITIALIZED_DATA_def ImageAddress_def checked_add_def ptr_val_def guardR_def)
       (simp add: demo_ctx_def)
  have b: "in_buf demo_pe 0x10000 400" using demo_pe_in_buf by simp
  show ?thesis
    using r get_section_vma_bounds [OF b demo_context_ok, of 0 "0x80000"] by auto
qed

end
