(* ===== verification/PeHash.thy ===== *)
theory PeHash
  imports PeHeader "HOL-Library.Multiset"
begin

text \<open>
  pe.c, \<open>generate_hash\<close>: the Authenticode digests of an image. The incremental SHA
  functions and the pool allocator are parameters; a range that is hashed is loaded from the
  file, so that hashing past its end is a fault.
\<close>

section \<open>The code\<close>

text \<open>An incremental hash: \<open>Init\<close>, \<open>Update\<close> and \<open>Final\<close>, each of which may fail.\<close>

record 'h sha =
  sha_init :: "'h option"
  sha_update :: "'h \<Rightarrow> bytes \<Rightarrow> 'h option"
  sha_final :: "'h \<Rightarrow> bytes option"

definition check_size :: "u64 \<Rightarrow> u32 \<Rightarrow> u64 \<Rightarrow> u32 \<Rightarrow> bool" where
  "check_size data datasize hashbase hashsize \<longleftrightarrow>
     \<not> (data + ucast datasize < hashbase) \<and> \<not> (data + ucast datasize < hashbase + ucast hashsize)"

text \<open>Check a range and feed it to both hashes.\<close>

definition hash_range ::
  "'h sha \<Rightarrow> 'g sha \<Rightarrow> mbuf \<Rightarrow> u64 \<Rightarrow> u32 \<Rightarrow> 'h \<times> 'g \<Rightarrow> u64 \<Rightarrow> u32 \<Rightarrow> ('h \<times> 'g) res"
where
  "hash_range s256 s1 b data datasize h hashbase hashsize =
     bindR (guardR (check_size data datasize hashbase hashsize) EFI_INVALID_PARAMETER) (\<lambda>_.
     bindR (load b hashbase (unat hashsize)) (\<lambda>bs.
     bindR (orelse_status (sha_update s256 (fst h) bs) EFI_OUT_OF_RESOURCES) (\<lambda>h256.
     bindR (orelse_status (sha_update s1 (snd h) bs) EFI_OUT_OF_RESOURCES) (\<lambda>h1.
       Inr (h256, h1)))))"

text \<open>The headers: up to the checksum, up to the certificate directory, and the rest.\<close>

definition hash_headers ::
  "'h sha \<Rightarrow> 'g sha \<Rightarrow> mbuf \<Rightarrow> u64 \<Rightarrow> u32 \<Rightarrow> pe_context \<Rightarrow> 'h \<times> 'g \<Rightarrow> ('h \<times> 'g) res"
where
  "hash_headers s256 s1 b data datasize ctx h =
     (let checksum = c_PEHdr ctx + 88; dd = c_SecDir ctx + 8;
          hashsize = ucast (c_SizeOfHeaders ctx - (dd - data)) :: u32 in
      bindR (hash_range s256 s1 b data datasize h data (ucast (checksum - data))) (\<lambda>h.
      bindR (hash_range s256 s1 b data datasize h (checksum + 4) (ucast (c_SecDir ctx - (checksum + 4)))) (\<lambda>h.
      bindR (guardR (\<not> datasize < hashsize) EFI_INVALID_PARAMETER) (\<lambda>_.
        hash_range s256 s1 b data datasize h dd hashsize))))"

text \<open>The section table, found again when the context has none.\<close>

definition fix_sections :: "mbuf \<Rightarrow> u64 \<Rightarrow> u32 \<Rightarrow> u32 \<Rightarrow> pe_context \<Rightarrow> pe_context res" where
  "fix_sections b data datasize pe_offset ctx =
     (if c_NumberOfSections ctx = 0 \<or> c_FirstSection ctx = 0 then
        bindR (rd16 b (c_PEHdr ctx + 6)) (\<lambda>nsections.
        bindR (rd16 b (c_PEHdr ctx + 20)) (\<lambda>opthdrsz.
        let addr = ucast pe_offset + 4 + 20 + ucast opthdrsz in
        bindR (orelse_status (ImageAddress data (ucast datasize) addr) EFI_INVALID_PARAMETER) (\<lambda>section0.
        bindR (orelse_status (ImageAddress data (ucast datasize) (addr + 40 * (ucast nsections - 1))) EFI_INVALID_PARAMETER) (\<lambda>_.
          Inr (ctx\<lparr>c_NumberOfSections := nsections, c_FirstSection := section0\<rparr>)))))
      else Inr ctx)"

text \<open>The insertion of a section into the sorted copy of the table.\<close>

fun shift_sections :: "section_header list \<Rightarrow> section_header \<Rightarrow> nat \<Rightarrow> section_header list \<times> nat" where
  "shift_sections t s 0 = (t, 0)"
| "shift_sections t s (Suc p) =
     (if sh_PointerToRawData s < sh_PointerToRawData (t ! p) then shift_sections (t[Suc p := t ! p]) s p
      else (t, Suc p))"

definition insert_section :: "section_header list \<Rightarrow> section_header \<Rightarrow> nat \<Rightarrow> section_header list" where
  "insert_section t s i = (case shift_sections t s i of (t', pos) \<Rightarrow> t'[pos := s])"

text \<open>
  The loop over the sections: \<open>k\<close> are left, \<open>i\<close> is the current one, \<open>sm\<close> the bytes of the
  sections before it. The flag is the loop's \<open>break\<close>.
\<close>

fun sort_sections ::
  "mbuf \<Rightarrow> u64 \<Rightarrow> u32 \<Rightarrow> pe_context \<Rightarrow> u32 \<Rightarrow> nat \<Rightarrow> nat \<Rightarrow> u32 \<Rightarrow> section_header list
   \<Rightarrow> (section_header list \<times> bool) res"
where
  "sort_sections b data datasize ctx hashed 0 i sm t = Inr (t, False)"
| "sort_sections b data datasize ctx hashed (Suc k) i sm t =
     (case get_section_vma b ctx i data of
        Inl (Status st) \<Rightarrow> if st = EFI_NOT_FOUND then Inr (t, True) else Inl (Status st)
      | Inl Fault \<Rightarrow> Inl Fault
      | Inr (base, sz, sec) \<Rightarrow>
          if datasize - hashed - sm < sh_SizeOfRawData sec then Inl (Status EFI_INVALID_PARAMETER)
          else sort_sections b data datasize ctx hashed k (Suc i) (sm + sh_SizeOfRawData sec)
                 (insert_section t sec i))"

text \<open>The loop that hashes the sections of the sorted table.\<close>

fun hash_sections ::
  "'h sha \<Rightarrow> 'g sha \<Rightarrow> mbuf \<Rightarrow> u64 \<Rightarrow> u32 \<Rightarrow> 'h \<times> 'g \<Rightarrow> u32 \<Rightarrow> section_header list
   \<Rightarrow> (('h \<times> 'g) \<times> u32) res"
where
  "hash_sections s256 s1 b data datasize h hashed [] = Inr (h, hashed)"
| "hash_sections s256 s1 b data datasize h hashed (s # ss) =
     (if sh_SizeOfRawData s = 0 then hash_sections s256 s1 b data datasize h hashed ss
      else
        bindR (orelse_status (ImageAddress data (ucast datasize) (ucast (sh_PointerToRawData s))) EFI_INVALID_PARAMETER) (\<lambda>hashbase.
        bindR (guardR (\<not> datasize - sh_PointerToRawData s < sh_SizeOfRawData s) EFI_INVALID_PARAMETER) (\<lambda>_.
        bindR (hash_range s256 s1 b data datasize h hashbase (sh_SizeOfRawData s)) (\<lambda>h.
          hash_sections s256 s1 b data datasize h (hashed + sh_SizeOfRawData s) ss))))"

text \<open>What is left up to the certificate table, when there is one.\<close>

definition hash_rest ::
  "'h sha \<Rightarrow> 'g sha \<Rightarrow> mbuf \<Rightarrow> u64 \<Rightarrow> u32 \<Rightarrow> pe_context \<Rightarrow> 'h \<times> 'g \<Rightarrow> u32 \<Rightarrow> ('h \<times> 'g) res"
where
  "hash_rest s256 s1 b data datasize ctx h hashed =
     (if hashed < datasize then
        bindR (rd32 b (c_SecDir ctx + 4)) (\<lambda>sec_size.
        if sec_size \<noteq> 0 then
          bindR (rd32 b (c_SecDir ctx)) (\<lambda>sec_va.
          let hashsize = datasize - sec_size - hashed in
          bindR (guardR (\<not> (datasize - hashed < sec_size \<or> hashed + hashsize \<noteq> sec_va)) EFI_INVALID_PARAMETER) (\<lambda>_.
            hash_range s256 s1 b data datasize h (data + ucast hashed) hashsize))
        else Inr h)
      else Inr h)"

definition zero_section :: section_header where
  "zero_section = \<lparr>sh_Name = replicate 8 0, sh_VirtualSize = 0, sh_VirtualAddress = 0, sh_SizeOfRawData = 0,
     sh_PointerToRawData = 0, sh_PointerToRelocations = 0, sh_NumberOfRelocations = 0, sh_Characteristics = 0\<rparr>"

text \<open>From the sort on: the digests, and the context the sections were taken from.\<close>

definition hash_body ::
  "'h sha \<Rightarrow> 'g sha \<Rightarrow> (nat \<Rightarrow> bool) \<Rightarrow> mbuf \<Rightarrow> u64 \<Rightarrow> u32 \<Rightarrow> 'h \<times> 'g \<Rightarrow> pe_context
   \<Rightarrow> (bytes \<times> bytes \<times> pe_context) res"
where
  "hash_body s256 s1 pool b data datasize h ctx =
     bindR (guardR (pool 2) EFI_OUT_OF_RESOURCES) (\<lambda>_.
     bindR (sort_sections b data datasize ctx (ucast (c_SizeOfHeaders ctx)) (unat (c_NumberOfSections ctx)) 0 0
              (replicate (unat (c_NumberOfSections ctx)) zero_section)) (\<lambda>(t, broke).
     bindR (hash_sections s256 s1 b data datasize h (ucast (c_SizeOfHeaders ctx)) t) (\<lambda>(h, hashed).
     bindR (hash_rest s256 s1 b data datasize ctx h hashed) (\<lambda>h.
     bindR (orelse_status (sha_final s256 (fst h)) EFI_OUT_OF_RESOURCES) (\<lambda>sha256hash.
     bindR (orelse_status (sha_final s1 (snd h)) EFI_OUT_OF_RESOURCES) (\<lambda>sha1hash.
     bindR (guardR (\<not> broke) EFI_NOT_FOUND) (\<lambda>_.
       Inr (sha256hash, sha1hash, ctx))))))))"

text \<open>The digests, and the context, in which the section table may have been filled in.\<close>

definition generate_hash ::
  "'h sha \<Rightarrow> 'g sha \<Rightarrow> (nat \<Rightarrow> bool) \<Rightarrow> mbuf \<Rightarrow> u64 \<Rightarrow> u32 \<Rightarrow> pe_context
   \<Rightarrow> (bytes \<times> bytes \<times> pe_context) res"
where
  "generate_hash s256 s1 pool b data datasize ctx =
     bindR (guardR (64 < datasize) EFI_INVALID_PARAMETER) (\<lambda>_.
     bindR (rd16 b data) (\<lambda>e_magic.
     bindR (guardR (e_magic = 0x5a4d) EFI_INVALID_PARAMETER) (\<lambda>_.
     bindR (rd32 b (data + 60)) (\<lambda>pe_offset.
     bindR (guardR (pool 0 \<and> pool 1) EFI_OUT_OF_RESOURCES) (\<lambda>_.
     bindR (orelse_status (sha_init s256) EFI_OUT_OF_RESOURCES) (\<lambda>h256.
     bindR (orelse_status (sha_init s1) EFI_OUT_OF_RESOURCES) (\<lambda>h1.
     bindR (hash_headers s256 s1 b data datasize ctx (h256, h1)) (\<lambda>h.
     bindR (fix_sections b data datasize pe_offset ctx)
       (hash_body s256 s1 pool b data datasize h)))))))))"

section \<open>The sorted table\<close>

abbreviation ptr :: "section_header \<Rightarrow> u32" where "ptr \<equiv> sh_PointerToRawData"

lemma shift_sections_spec:
  assumes "i < length t" and "shift_sections t s i = (t', pos)"
  shows "pos \<le> i \<and> length t' = length t
     \<and> t'[pos := s] = take pos t @ s # drop pos (take i t) @ drop (Suc i) t
     \<and> (\<forall>x \<in> set (drop pos (take i t)). ptr s < ptr x)
     \<and> (0 < pos \<longrightarrow> \<not> ptr s < ptr (t ! (pos - 1)))"
  using assms
proof (induction i arbitrary: t)
  case 0
  then show ?case by (cases t) auto
next
  case (Suc p)
  show ?case
  proof (cases "ptr s < ptr (t ! p)")
    case True
    let ?t = "t[Suc p := t ! p]"
    have r: "shift_sections ?t s p = (t', pos)" using Suc.prems True by simp
    have ih: "pos \<le> p \<and> length t' = length ?t \<and> t'[pos := s] = take pos ?t @ s # drop pos (take p ?t) @ drop (Suc p) ?t
       \<and> (\<forall>x \<in> set (drop pos (take p ?t)). ptr s < ptr x) \<and> (0 < pos \<longrightarrow> \<not> ptr s < ptr (?t ! (pos - 1)))"
      by (rule Suc.IH [OF _ r]) (use Suc.prems in simp)
    have a: "drop (Suc p) ?t = t ! p # drop (Suc (Suc p)) t"
      using Suc.prems(1) by (subst Cons_nth_drop_Suc [symmetric]) simp_all
    have b: "drop pos (take (Suc p) t) = drop pos (take p t) @ [t ! p]"
      using Suc.prems(1) ih by (simp add: take_Suc_conv_app_nth)
    have pp: "pos \<le> p" using ih by blast
    then have c: "pos - 1 < Suc p" by simp
    show ?thesis using ih a b c True by auto
  next
    case False
    then have "t' = t" "pos = Suc p" using Suc.prems by auto
    then show ?thesis using Suc.prems False by (simp add: upd_conv_take_nth_drop)
  qed
qed

lemma filter_none: "\<forall>x \<in> set xs. \<not> P x \<Longrightarrow> filter P xs = []"
  by (induction xs) auto

text \<open>The copy of the table is the stable sort of the sections so far, and zeros.\<close>

lemma insert_section_sort:
  assumes "t = sort_key ptr xs @ r # rest" and "i = length xs"
  shows "insert_section t s i = sort_key ptr (xs @ [s]) @ rest"
proof -
  let ?ys = "sort_key ptr xs"
  have li: "length ?ys = i" using assms(2) by simp
  obtain t' pos where sp: "shift_sections t s i = (t', pos)" by fastforce
  have il: "i < length t" using assms by simp
  note spec = shift_sections_spec [OF il sp]
  have tk: "take i t = ?ys" "drop (Suc i) t = rest" using assms(1) li by auto
  have pl: "pos \<le> i" using spec by blast
  have tp: "take pos t = take pos ?ys" using assms(1) pl li by simp
  have t': "t'[pos := s] = (take pos ?ys @ s # drop pos ?ys) @ rest"
    using spec tk tp by simp
  have sorted: "sorted (map ptr ?ys)" by simp
  have up: "\<forall>x \<in> set (drop pos ?ys). ptr s < ptr x" using spec tk by simp
  have down: "\<forall>x \<in> set (take pos ?ys). ptr x \<le> ptr s"
  proof (cases pos)
    case (Suc q)
    have q: "\<not> ptr s < ptr (?ys ! q)" using spec Suc assms(1) li pl by (simp add: nth_append)
    have "ptr (?ys ! j) \<le> ptr (?ys ! q)" if "j < pos" for j
      using sorted_nth_mono [OF sorted, of j q] that Suc pl li by simp
    then show ?thesis using q pl li by (force simp add: in_set_conv_nth)
  qed simp
  have "sort_key ptr (xs @ [s]) = take pos ?ys @ s # drop pos ?ys"
  proof (rule properties_for_sort_key)
    have "mset (take pos ?ys) + mset (drop pos ?ys) = mset ?ys"
      by (metis append_take_drop_id mset_append)
    then show "mset (take pos ?ys @ s # drop pos ?ys) = mset (xs @ [s])" by simp
    show "sorted (map ptr (take pos ?ys @ s # drop pos ?ys))"
      using sorted up down sorted_wrt_take [OF sorted, of pos] sorted_wrt_drop [OF sorted, of pos]
      by (auto simp add: sorted_append take_map drop_map less_imp_le intro: order_trans)
    fix k assume "k \<in> set (take pos ?ys @ s # drop pos ?ys)"
    have st: "filter (\<lambda>x. ptr k = ptr x) ?ys = filter (\<lambda>x. ptr k = ptr x) xs"
      by (metis (mono_tags, lifting) sort_key_stable filter_cong)
    have sp: "filter P ?ys = filter P (take pos ?ys) @ filter P (drop pos ?ys)" for P
      by (metis append_take_drop_id filter_append)
    show "filter (\<lambda>x. ptr k = ptr x) (take pos ?ys @ s # drop pos ?ys) = filter (\<lambda>x. ptr k = ptr x) (xs @ [s])"
    proof (cases "ptr k = ptr s")
      case True
      then have "filter (\<lambda>x. ptr k = ptr x) (drop pos ?ys) = []" using up by (auto intro!: filter_none)
      then show ?thesis using True st sp [of "\<lambda>x. ptr k = ptr x"] by simp
    next
      case False
      then show ?thesis using st sp [of "\<lambda>x. ptr k = ptr x"] by simp
    qed
  qed
  then show ?thesis by (simp add: insert_section_def sp t')
qed


section \<open>What is hashed\<close>

text \<open>The file is the whole buffer, and is not at the top of the address space.\<close>

definition is_file :: "mbuf \<Rightarrow> u64 \<Rightarrow> u32 \<Rightarrow> bool" where
  "is_file b data datasize \<longleftrightarrow>
     mb_base b = data \<and> length (mb_data b) = unat datasize \<and> unat data + 2 ^ 33 \<le> 2 ^ 64"

definition file_slice :: "bytes \<Rightarrow> nat \<Rightarrow> nat \<Rightarrow> bytes" where
  "file_slice f i j = take (j - i) (drop i f)"

text \<open>A hash fed with a list of chunks.\<close>

fun feed :: "'h sha \<Rightarrow> 'h \<Rightarrow> bytes list \<Rightarrow> 'h option" where
  "feed s h [] = Some h"
| "feed s h (c # cs) = (case sha_update s h c of None \<Rightarrow> None | Some h' \<Rightarrow> feed s h' cs)"

lemma feed_append:
  "feed s h xs = Some h' \<Longrightarrow> feed s h (xs @ ys) = feed s h' ys"
  by (induction xs arbitrary: h) (auto split: option.splits)

definition fed :: "'h sha \<Rightarrow> 'g sha \<Rightarrow> 'h \<times> 'g \<Rightarrow> bytes list \<Rightarrow> 'h \<times> 'g \<Rightarrow> bool" where
  "fed s256 s1 h cs h' \<longleftrightarrow> feed s256 (fst h) cs = Some (fst h') \<and> feed s1 (snd h) cs = Some (snd h')"

lemma fed_Nil [simp]: "fed s256 s1 h [] h"
  by (simp add: fed_def)

lemma fed_append: "fed s256 s1 h xs h' \<Longrightarrow> fed s256 s1 h' ys h'' \<Longrightarrow> fed s256 s1 h (xs @ ys) h''"
  by (simp add: fed_def feed_append)

text \<open>\<open>d\<close> is the digest the incremental functions compute: that of the concatenation.\<close>

definition computes :: "'h sha \<Rightarrow> (bytes \<Rightarrow> bytes) \<Rightarrow> bool" where
  "computes s d \<longleftrightarrow> (\<forall>h0 cs h x. sha_init s = Some h0 \<longrightarrow> feed s h0 cs = Some h \<longrightarrow> sha_final s h = Some x
     \<longrightarrow> x = d (concat cs))"

definition section_at :: "mbuf \<Rightarrow> pe_context \<Rightarrow> nat \<Rightarrow> section_header" where
  "section_at b ctx i = (case read_section b (section_ptr ctx i) of Inr s \<Rightarrow> s | Inl _ \<Rightarrow> zero_section)"

definition sections_of :: "mbuf \<Rightarrow> pe_context \<Rightarrow> section_header list" where
  "sections_of b ctx = map (section_at b ctx) [0..<unat (c_NumberOfSections ctx)]"

definition raw_bytes :: "bytes \<Rightarrow> section_header \<Rightarrow> bytes" where
  "raw_bytes f s = file_slice f (unat (ptr s)) (unat (ptr s) + unat (sh_SizeOfRawData s))"

definition raw_sum :: "section_header list \<Rightarrow> nat" where
  "raw_sum ss = (\<Sum>s \<leftarrow> ss. unat (sh_SizeOfRawData s))"

text \<open>
  The Authenticode input: the headers without the checksum and the certificate directory,
  the sections by their file offset, and the bytes after them up to the certificate table,
  when there is one.
\<close>

definition authenticode_input :: "bytes \<Rightarrow> nat \<Rightarrow> nat \<Rightarrow> nat \<Rightarrow> section_header list \<Rightarrow> nat \<Rightarrow> bytes" where
  "authenticode_input f pe sd hdrs ss cert_size =
     file_slice f 0 (pe + 88) @ file_slice f (pe + 92) sd @ file_slice f (sd + 8) hdrs
     @ concat (map (raw_bytes f) (sort_key ptr ss))
     @ (let n = hdrs + raw_sum ss in
        if n < length f \<and> cert_size \<noteq> 0 then file_slice f n (length f - cert_size) else [])"

definition sections_in_file :: "section_header list \<Rightarrow> nat \<Rightarrow> bool" where
  "sections_in_file ss n \<longleftrightarrow>
     (\<forall>s \<in> set ss. sh_SizeOfRawData s \<noteq> 0 \<longrightarrow> unat (ptr s) + unat (sh_SizeOfRawData s) \<le> n)"

lemma safely_hash_range:
  assumes f: "is_file b data datasize" and base: "data \<le> hashbase"
    and "\<And>h'. unat (hashbase - data) + unat hashsize \<le> unat datasize
      \<Longrightarrow> fed s256 s1 h [file_slice (mb_data b) (unat (hashbase - data)) (unat (hashbase - data) + unat hashsize)] h'
      \<Longrightarrow> safely (k h') P"
  shows "safely (bindR (hash_range s256 s1 b data datasize h hashbase hashsize) k) P"
proof -
  let ?d = "unat (hashbase - data)"
  have l: "?d + unat hashsize \<le> unat datasize" if c: "check_size data datasize hashbase hashsize"
  proof -
    have u: "unat (data + ucast datasize) = unat data + unat datasize"
      using f unat_u32_bound [of datasize] by (simp add: is_file_def unat_word_ariths)
    have b: "unat hashbase \<le> unat data + unat datasize" using c u by (simp add: check_size_def not_less word_le_nat_alt)
    then have "unat (hashbase + ucast hashsize) = unat hashbase + unat hashsize"
      using f unat_u32_bound [of datasize] unat_u32_bound [of hashsize] by (simp add: is_file_def unat_word_ariths)
    then have "unat hashbase + unat hashsize \<le> unat data + unat datasize"
      using c u by (simp add: check_size_def not_less word_le_nat_alt)
    then show ?thesis using base by (simp add: unat_sub word_le_nat_alt)
  qed
  have ld: "load b hashbase (unat hashsize) = Inr (file_slice (mb_data b) ?d (?d + unat hashsize))"
    if "check_size data datasize hashbase hashsize"
    using l [OF that] f by (simp add: load_def in_buf_def off_def is_file_def file_slice_def)
  show ?thesis
    unfolding hash_range_def bindR_assoc
    by (intro safely_guard) (auto simp add: ld bindR_assoc fed_def intro!: safely_orelse assms(3) l)
qed

definition header_ctx :: "mbuf \<Rightarrow> u64 \<Rightarrow> nat \<Rightarrow> pe_context \<Rightarrow> bool" where
  "header_ctx b data n ctx \<longleftrightarrow> context_ok b data n ctx
   \<and> rd16 b (c_PEHdr ctx + 6) = Inr (c_NumberOfSections ctx) \<and> c_FirstSection ctx \<noteq> 0
   \<and> (c_SecDir ctx = c_PEHdr ctx + 152 \<or> c_SecDir ctx = c_PEHdr ctx + 168)"

lemma read_header_ctx:
  assumes "in_buf b data (unat datasize)" and "unat data + unat datasize < 2 ^ 64"
    and "read_header env b data datasize = Inr ctx"
  shows "header_ctx b data (unat datasize) ctx"
proof -
  have "rd16 b (c_PEHdr ctx + 6) = Inr (c_NumberOfSections ctx) \<and> c_FirstSection ctx \<noteq> 0
   \<and> (c_SecDir ctx = c_PEHdr ctx + 152 \<or> c_SecDir ctx = c_PEHdr ctx + 168)"
    using assms(3) unfolding read_header_def read_pe_header_def Let_def
    by (auto simp add: bindR_eq_Inr add.assoc dest!: checked_add_unat)
  then show ?thesis
    using safely_result [OF read_header_ok [OF assms(1,2)] assms(3)] by (simp add: header_ctx_def)
qed


text \<open>Pointers of the context, as displacements from the file.\<close>

lemma is_file_in_buf: "is_file b data datasize \<Longrightarrow> in_buf b data (unat datasize)"
  by (simp add: is_file_def in_buf_def off_def)

lemma header_ctx_ptrs:
  assumes f: "is_file b data datasize" and c: "header_ctx b data (unat datasize) ctx"
  shows "unat (c_PEHdr ctx) = unat data + unat (c_PEHdr ctx - data)"
    and "unat (c_PEHdr ctx - data) + 264 \<le> unat datasize"
    and "unat (c_SecDir ctx - data) = unat (c_PEHdr ctx - data) + unat (c_SecDir ctx - c_PEHdr ctx)"
    and "c_SecDir ctx - c_PEHdr ctx \<in> {152, 168}"
proof -
  have "in_buf b (c_PEHdr ctx) 264" using c by (simp add: header_ctx_def context_ok_def)
  then show p: "unat (c_PEHdr ctx - data) + 264 \<le> unat datasize"
    using f by (simp add: is_file_def in_buf_def off_def)
  have "unat (data + (c_PEHdr ctx - data)) = unat data + unat (c_PEHdr ctx - data)"
    using p f unat_u32_bound [of datasize] by (simp only: unat_word_ariths) (simp add: is_file_def)
  then show "unat (c_PEHdr ctx) = unat data + unat (c_PEHdr ctx - data)" by simp
  show s: "c_SecDir ctx - c_PEHdr ctx \<in> {152, 168}" using c by (auto simp add: header_ctx_def)
  have e: "c_SecDir ctx - data = (c_PEHdr ctx - data) + (c_SecDir ctx - c_PEHdr ctx)" by simp
  show "unat (c_SecDir ctx - data) = unat (c_PEHdr ctx - data) + unat (c_SecDir ctx - c_PEHdr ctx)"
    unfolding e using p s unat_u32_bound [of datasize]
    by (subst unat_word_ariths) (auto simp add: is_file_def)
qed

lemma unat_ucast_small: "unat (x :: u64) < 2 ^ 32 \<Longrightarrow> unat (ucast x :: u32) = unat x"
  by (simp add: unsigned_ucast_eq take_bit_nat_eq_self)

lemma header_offsets:
  assumes f: "is_file b data datasize" and c: "header_ctx b data (unat datasize) ctx"
  shows "unat (c_PEHdr ctx + 88 - data) = unat (c_PEHdr ctx - data) + 88"
    and "unat (c_PEHdr ctx + 92 - data) = unat (c_PEHdr ctx - data) + 92"
    and "unat (c_SecDir ctx + 8 - data) = unat (c_SecDir ctx - data) + 8"
    and "data \<le> c_PEHdr ctx + 92" and "data \<le> c_SecDir ctx + 8"
    and "unat (c_SecDir ctx - (c_PEHdr ctx + 92)) = unat (c_SecDir ctx - data) - (unat (c_PEHdr ctx - data) + 92)"
proof -
  let ?pe = "unat (c_PEHdr ctx - data)" and ?sd = "unat (c_SecDir ctx - data)"
  note p = header_ctx_ptrs [OF f c]
  note ds = unat_u32_bound [of datasize]
  have sd: "?sd \<le> ?pe + 168" "?pe + 152 \<le> ?sd" using p(3,4) by auto
  have plus: "unat (q + d - data) = unat (q - data) + unat d" "unat (data + (q - data) + d) = unat data + unat (q - data) + unat d"
    if "unat (q - data) + unat d \<le> unat datasize" for q d
  proof -
    have "q + d - data = (q - data) + d" by simp
    then have "unat (q + d - data) = unat ((q - data) + d)" by (rule arg_cong)
    then show "unat (q + d - data) = unat (q - data) + unat d"
      using that ds by (simp only: unat_word_ariths) simp
    have "data + (q - data) + d = data + ((q - data) + d)" by simp
    then have "unat (data + (q - data) + d) = unat (data + ((q - data) + d))" by (rule arg_cong)
    then show "unat (data + (q - data) + d) = unat data + unat (q - data) + unat d"
      using that ds f by (simp only: unat_word_ariths) (simp add: is_file_def)
  qed
  show "unat (c_PEHdr ctx + 88 - data) = ?pe + 88" using plus(1) [of "c_PEHdr ctx" 88] p(2) by simp
  show e2: "unat (c_PEHdr ctx + 92 - data) = ?pe + 92" using plus(1) [of "c_PEHdr ctx" 92] p(2) by simp
  show "unat (c_SecDir ctx + 8 - data) = ?sd + 8" using plus(1) [of "c_SecDir ctx" 8] p(2) sd by simp
  show "data \<le> c_PEHdr ctx + 92" using plus(2) [of "c_PEHdr ctx" 92] p(2) by (simp add: word_le_nat_alt)
  show "data \<le> c_SecDir ctx + 8" using plus(2) [of "c_SecDir ctx" 8] p(2) sd by (simp add: word_le_nat_alt)
  have "c_SecDir ctx - (c_PEHdr ctx + 92) = (c_SecDir ctx - data) - (c_PEHdr ctx + 92 - data)" by simp
  then have "unat (c_SecDir ctx - (c_PEHdr ctx + 92)) = unat ((c_SecDir ctx - data) - (c_PEHdr ctx + 92 - data))"
    by (rule arg_cong)
  also have "\<dots> = ?sd - unat (c_PEHdr ctx + 92 - data)" using sd e2 by (intro unat_sub) (simp add: word_le_nat_alt)
  finally show "unat (c_SecDir ctx - (c_PEHdr ctx + 92)) = ?sd - (?pe + 92)" using e2 by simp
qed

text \<open>A 32-bit difference that wraps is too large for the check after it.\<close>

lemma header_rest_size:
  fixes hs x :: u64 and h3 :: u32
  assumes "unat hs < 2 ^ 32" and "n < 2 ^ 32" and "unat x \<le> n"
    and "unat x + unat (ucast (hs - x) :: u32) \<le> n"
  shows "unat x + unat (ucast (hs - x) :: u32) = unat hs"
proof (cases "x \<le> hs")
  case True
  then have "unat (hs - x) = unat hs - unat x" by (simp add: unat_sub)
  then show ?thesis using True assms(1) by (subst unat_ucast_small) (simp_all add: word_le_nat_alt)
next
  case False
  have u: "unat hs < unat x" using False by (simp add: word_le_nat_alt)
  have "unat (hs - x) = (2 ^ 64 + unat hs) - unat x"
    using False by (simp add: unat_sub_if_size word_size word_le_nat_alt)
  then have "unat (ucast (hs - x) :: u32) = ((2 ^ 64 + unat hs) - unat x) mod 2 ^ 32"
    by (simp only: unsigned_ucast_eq take_bit_eq_mod) simp
  moreover have "(2 ^ 64 + unat hs) - unat x = (2 ^ 32 - (unat x - unat hs)) + (2 ^ 32 - 1) * 2 ^ 32"
    using u assms(2,3) by simp
  ultimately have "unat (ucast (hs - x) :: u32) = (2 ^ 32 - (unat x - unat hs)) mod 2 ^ 32" by (simp only: mod_mult_self1)
  moreover have "2 ^ 32 - (unat x - unat hs) < (2 :: nat) ^ 32" using u by simp
  ultimately have "unat (ucast (hs - x) :: u32) = 2 ^ 32 - (unat x - unat hs)" by (simp only: mod_less)
  then show ?thesis using assms u by simp
qed

lemma hash_headers_fed:
  assumes f: "is_file b data datasize" and c: "header_ctx b data (unat datasize) ctx"
    and k: "\<And>h'. fed s256 s1 h [file_slice (mb_data b) 0 (unat (c_PEHdr ctx - data) + 88),
             file_slice (mb_data b) (unat (c_PEHdr ctx - data) + 92) (unat (c_SecDir ctx - data)),
             file_slice (mb_data b) (unat (c_SecDir ctx - data) + 8) (unat (c_SizeOfHeaders ctx))] h'
         \<Longrightarrow> unat (c_SizeOfHeaders ctx) \<le> unat datasize \<Longrightarrow> safely (k h') P"
  shows "safely (bindR (hash_headers s256 s1 b data datasize ctx h) k) P"
proof -
  let ?pe = "unat (c_PEHdr ctx - data)" and ?sd = "unat (c_SecDir ctx - data)" and ?hs = "c_SizeOfHeaders ctx"
  note p = header_ctx_ptrs [OF f c]
  note o = header_offsets [OF f c]
  note ds = unat_u32_bound [of datasize]
  have sd: "?sd \<le> ?pe + 168" "?pe + 152 \<le> ?sd" using p(3,4) by auto
  have hs: "unat ?hs < 2 ^ 32" using c by (auto simp add: header_ctx_def context_ok_def word_le_nat_alt)
  have s1: "unat (ucast (c_PEHdr ctx + 88 - data) :: u32) = ?pe + 88"
    using o(1) p(2) ds by (subst unat_ucast_small) simp_all
  have s2: "unat (ucast (c_SecDir ctx - (c_PEHdr ctx + 92)) :: u32) = ?sd - (?pe + 92)"
    using o(6) sd p(2) ds by (subst unat_ucast_small) simp_all
  let ?h3 = "ucast (?hs - (c_SecDir ctx + 8 - data)) :: u32"
  have pe92: "c_PEHdr ctx + 88 + 4 = c_PEHdr ctx + 92" by simp
  show ?thesis
    unfolding hash_headers_def Let_def bindR_assoc pe92
  proof (rule safely_hash_range [OF f], goal_cases)
    case (2 h1)
    show ?case
    proof (rule safely_hash_range [OF f o(4)])
      fix h2 assume h2: "fed s256 s1 h1 [file_slice (mb_data b) (unat (c_PEHdr ctx + 92 - data))
          (unat (c_PEHdr ctx + 92 - data) + unat (ucast (c_SecDir ctx - (c_PEHdr ctx + 92)) :: u32))] h2"
      show "safely (bindR (guardR (\<not> datasize < ?h3) EFI_INVALID_PARAMETER) (\<lambda>_.
          bindR (hash_range s256 s1 b data datasize h2 (c_SecDir ctx + 8) ?h3) k)) P"
      proof (rule safely_guard, rule safely_hash_range [OF f o(5)])
        fix h3 assume l3: "unat (c_SecDir ctx + 8 - data) + unat ?h3 \<le> unat datasize"
          and h3: "fed s256 s1 h2 [file_slice (mb_data b) (unat (c_SecDir ctx + 8 - data)) (unat (c_SecDir ctx + 8 - data) + unat ?h3)] h3"
        have r3: "?sd + 8 + unat ?h3 = unat ?hs"
          using header_rest_size [OF hs _ _ l3] l3 ds o(3) by simp
        have "fed s256 s1 h ([file_slice (mb_data b) 0 (?pe + 88)] @ [file_slice (mb_data b) (?pe + 92) ?sd] @ [file_slice (mb_data b) (?sd + 8) (unat ?hs)]) h3"
          using 2(2) h2 h3 sd unfolding o(2,3) s1 s2 r3 by (intro fed_append) simp_all
        then show "safely (k h3) P" using r3 l3 unfolding o(3) by (intro k) simp_all
      qed
    qed
  qed simp
qed

lemma get_section_vma_status:
  "get_section_vma b ctx i buffer = Inl (Status st) \<Longrightarrow> i < unat (c_NumberOfSections ctx) \<Longrightarrow> st = EFI_UNSUPPORTED"
  by (auto simp add: get_section_vma_def read_section_def Let_def bindR_eq_Inl load_not_status)

lemma sort_sections_ok:
  assumes f: "is_file b data datasize" and c: "context_ok b data (unat datasize) ctx"
    and "i + k = unat (c_NumberOfSections ctx)"
    and "t = sort_key ptr (map (section_at b ctx) [0..<i]) @ replicate k zero_section"
    and "unat sm = raw_sum (map (section_at b ctx) [0..<i])" and "unat hashed + unat sm \<le> unat datasize"
  shows "safely (sort_sections b data datasize ctx hashed k i sm t) (\<lambda>(t', broke).
     \<not> broke \<and> t' = sort_key ptr (sections_of b ctx) \<and> unat hashed + raw_sum (sections_of b ctx) \<le> unat datasize)"
  using assms(3-)
proof (induction k arbitrary: i sm t)
  case 0
  then show ?case by (simp add: sections_of_def)
next
  case (Suc k)
  have i: "i < unat (c_NumberOfSections ctx)" using Suc.prems(1) by simp
  note s = get_section_vma_ok [OF is_file_in_buf [OF f] c, of i data]
  show ?case
  proof (cases "get_section_vma b ctx i data")
    case (Inl e)
    then show ?thesis using s get_section_vma_status [OF _ i] by (cases e) auto
  next
    case (Inr r)
    obtain base sz sec where r: "r = (base, sz, sec)" by (cases r)
    have sec: "section_at b ctx i = sec" using s Inr r by (simp add: section_at_def)
    have ext: "map (section_at b ctx) [0..<Suc i] = map (section_at b ctx) [0..<i] @ [sec]" using sec by simp
    have ins: "insert_section t sec i = sort_key ptr (map (section_at b ctx) [0..<Suc i]) @ replicate k zero_section"
      unfolding ext using Suc.prems(2) by (intro insert_section_sort) simp_all
    have d: "unat (datasize - hashed - sm) = unat datasize - unat hashed - unat sm"
    proof -
      have "unat (datasize - hashed) = unat datasize - unat hashed"
        using Suc.prems(4) by (intro unat_sub) (simp add: word_le_nat_alt)
      then show ?thesis using Suc.prems(4) by (subst unat_sub) (simp_all add: word_le_nat_alt)
    qed
    have "safely (sort_sections b data datasize ctx hashed k (Suc i) (sm + sh_SizeOfRawData sec) (insert_section t sec i))
       (\<lambda>(t', broke). \<not> broke \<and> t' = sort_key ptr (sections_of b ctx) \<and> unat hashed + raw_sum (sections_of b ctx) \<le> unat datasize)"
      if "\<not> datasize - hashed - sm < sh_SizeOfRawData sec"
    proof -
      have le: "unat (sh_SizeOfRawData sec) \<le> unat datasize - unat hashed - unat sm"
        using that d by (simp add: not_less word_le_nat_alt)
      have u: "unat (sm + sh_SizeOfRawData sec) = unat sm + unat (sh_SizeOfRawData sec)"
        using le Suc.prems(4) unat_u32_bound [of datasize] by (simp add: unat_word_ariths)
      show ?thesis
        using Suc.prems le u ext by (intro Suc.IH ins) (simp_all add: raw_sum_def)
    qed
    then show ?thesis by (simp add: Inr r)
  qed
qed


lemma raw_bytes_empty: "sh_SizeOfRawData s = 0 \<Longrightarrow> raw_bytes f s = []"
  by (simp add: raw_bytes_def file_slice_def)

lemma hash_sections_fed:
  assumes f: "is_file b data datasize"
    and "unat hashed + raw_sum ss \<le> unat datasize"
    and "\<And>h' cs hashed'. fed s256 s1 h cs h' \<Longrightarrow> concat cs = concat (map (raw_bytes (mb_data b)) ss)
           \<Longrightarrow> unat hashed' = unat hashed + raw_sum ss \<Longrightarrow> sections_in_file ss (unat datasize)
           \<Longrightarrow> safely (k (h', hashed')) P"
  shows "safely (bindR (hash_sections s256 s1 b data datasize h hashed ss) k) P"
  using assms(2-)
proof (induction ss arbitrary: h hashed k)
  case Nil
  have "safely (k (h, hashed)) P"
    by (rule Nil(2) [of "[]" h]) (simp_all add: raw_sum_def sections_in_file_def)
  then show ?case by simp
next
  case (Cons s ss)
  show ?case
  proof (cases "sh_SizeOfRawData s = 0")
    case True
    have "safely (bindR (hash_sections s256 s1 b data datasize h hashed ss) k) P"
      using Cons.prems True by (intro Cons.IH) (simp_all add: raw_sum_def raw_bytes_empty sections_in_file_def)
    then show ?thesis using True by simp
  next
    case False
    let ?p = "ucast (ptr s) :: u64"
    have step: "safely (bindR (guardR (\<not> datasize - ptr s < sh_SizeOfRawData s) EFI_INVALID_PARAMETER) (\<lambda>_.
        bindR (hash_range s256 s1 b data datasize h hb (sh_SizeOfRawData s)) (\<lambda>h.
        bindR (hash_sections s256 s1 b data datasize h (hashed + sh_SizeOfRawData s) ss) k))) P"
      if hb: "ImageAddress data (ucast datasize) ?p = Some hb" for hb
    proof -
      have hbp: "hb = data + ?p" "unat data + unat ?p < 2 ^ 64" using hb by (simp_all add: ImageAddress_Some)
      have le: "data \<le> hb" using hbp by (simp add: word_le_nat_alt unat_word_ariths)
      have off: "hb - data = ?p" using hbp(1) by simp
      have u: "unat (hashed + sh_SizeOfRawData s) = unat hashed + unat (sh_SizeOfRawData s)"
        using Cons.prems(1) unat_u32_bound [of datasize] by (simp add: unat_word_ariths raw_sum_def)
      show ?thesis
      proof (rule safely_guard, rule safely_hash_range [OF f le])
        fix h1 assume l: "unat (hb - data) + unat (sh_SizeOfRawData s) \<le> unat datasize"
          and h1: "fed s256 s1 h [file_slice (mb_data b) (unat (hb - data)) (unat (hb - data) + unat (sh_SizeOfRawData s))] h1"
        have h1': "fed s256 s1 h [raw_bytes (mb_data b) s] h1" using h1 unfolding off by (simp add: raw_bytes_def)
        show "safely (bindR (hash_sections s256 s1 b data datasize h1 (hashed + sh_SizeOfRawData s) ss) k) P"
        proof (rule Cons.IH)
          show "unat (hashed + sh_SizeOfRawData s) + raw_sum ss \<le> unat datasize"
            using Cons.prems(1) u by (simp add: raw_sum_def)
          fix h' cs and hashed' :: u32
          assume a: "fed s256 s1 h1 cs h'" "concat cs = concat (map (raw_bytes (mb_data b)) ss)"
            "unat hashed' = unat (hashed + sh_SizeOfRawData s) + raw_sum ss" "sections_in_file ss (unat datasize)"
          show "safely (k (h', hashed')) P"
            using fed_append [OF h1' a(1)] a l u unfolding off
            by (intro Cons.prems(2) [of "raw_bytes (mb_data b) s # cs"]) (simp_all add: raw_sum_def sections_in_file_def)
        qed
      qed
    qed
    then show ?thesis using False by (simp add: bindR_assoc safely_orelse)
  qed
qed

definition cert_size :: "mbuf \<Rightarrow> pe_context \<Rightarrow> nat" where
  "cert_size b ctx = (case rd32 b (c_SecDir ctx + 4) of Inr n \<Rightarrow> unat n | Inl _ \<Rightarrow> 0)"

lemma hash_rest_fed:
  assumes f: "is_file b data datasize" and sd: "in_buf b (c_SecDir ctx) 8" and "unat hashed \<le> unat datasize"
    and k: "\<And>h' cs. fed s256 s1 h cs h' \<Longrightarrow> concat cs =
           (if unat hashed < unat datasize \<and> cert_size b ctx \<noteq> 0
            then file_slice (mb_data b) (unat hashed) (unat datasize - cert_size b ctx) else [])
           \<Longrightarrow> safely (k h') P"
  shows "safely (bindR (hash_rest s256 s1 b data datasize ctx h hashed) k) P"
proof -
  obtain sz va where r: "rd32 b (c_SecDir ctx + 4) = Inr sz" "rd32 b (c_SecDir ctx) = Inr va"
    using rd_ok(3) [OF in_buf_field [OF sd, of 4 4]] rd_ok(3) [OF in_buf_mono [OF sd, of 4]] by auto
  have cz: "cert_size b ctx = unat sz" using r by (simp add: cert_size_def)
  show ?thesis
  proof (cases "hashed < datasize \<and> sz \<noteq> 0")
    case False
    have "safely (k h) P" using False by (intro k [of "[]" h]) (auto simp add: cz word_less_nat_alt unat_eq_0)
    then show ?thesis using False by (auto simp add: hash_rest_def r)
  next
    case True
    have b: "data + ucast hashed - data = ucast hashed" by simp
    have le: "data \<le> data + ucast hashed"
      using f unat_u32_bound [of hashed] by (simp add: word_le_nat_alt unat_word_ariths is_file_def)
    have "safely (bindR (guardR (\<not> (datasize - hashed < sz \<or> hashed + (datasize - sz - hashed) \<noteq> va)) EFI_INVALID_PARAMETER) (\<lambda>_.
       bindR (hash_range s256 s1 b data datasize h (data + ucast hashed) (datasize - sz - hashed)) k)) P"
    proof (rule safely_guard, rule safely_hash_range [OF f le])
      assume g: "\<not> (datasize - hashed < sz \<or> hashed + (datasize - sz - hashed) \<noteq> va)"
      have hd: "unat hashed < unat datasize" using True by (simp add: word_less_nat_alt)
      have l: "unat sz \<le> unat datasize - unat hashed"
        using g True by (simp add: not_less word_le_nat_alt unat_sub word_less_nat_alt)
      have "unat (datasize - sz) = unat datasize - unat sz" using l by (intro unat_sub) (simp add: word_le_nat_alt)
      then have u: "unat (datasize - sz - hashed) = unat datasize - unat sz - unat hashed"
        using l hd by (subst unat_sub) (simp_all add: word_le_nat_alt)
      fix h' assume h': "fed s256 s1 h [file_slice (mb_data b) (unat (data + ucast hashed - data))
        (unat (data + ucast hashed - data) + unat (datasize - sz - hashed))] h'"
      show "safely (k h') P"
        using h' True l unfolding b u
        by (intro k [of "[file_slice (mb_data b) (unat hashed) (unat datasize - unat sz)]" h'])
           (auto simp add: cz word_less_nat_alt unat_eq_0)
    qed
    then show ?thesis using True by (simp add: hash_rest_def r bindR_assoc Let_def)
  qed
qed

lemma fix_sections_ok:
  assumes f: "is_file b data datasize" and c: "header_ctx b data (unat datasize) ctx"
    and k: "\<And>ctx'. ctx' = ctx \<or> c_NumberOfSections ctx = 0 \<and> (\<exists>p. ctx' = ctx\<lparr>c_FirstSection := p\<rparr>) \<Longrightarrow> safely (k ctx') P"
  shows "safely (bindR (fix_sections b data datasize pe_offset ctx) k) P"
proof (cases "c_NumberOfSections ctx = 0")
  case False
  then show ?thesis using c k by (simp add: fix_sections_def header_ctx_def)
next
  case True
  have pe: "in_buf b (c_PEHdr ctx) 264" and n: "rd16 b (c_PEHdr ctx + 6) = Inr 0"
    using c True by (simp_all add: header_ctx_def context_ok_def)
  have i: "in_buf b (c_PEHdr ctx + 20) 2" by (rule in_buf_field [OF pe]) simp
  have e: "ctx\<lparr>c_NumberOfSections := 0, c_FirstSection := p\<rparr> = ctx\<lparr>c_FirstSection := p\<rparr>" for p
    using True by (cases ctx) simp
  show ?thesis
    unfolding fix_sections_def Let_def using True
    by (simp add: n bindR_assoc e) (intro safely_rd16 i safely_orelse k, auto simp add: True)
qed


text \<open>What the parts give together.\<close>

definition digests ::
  "('h sha) \<Rightarrow> ('g sha) \<Rightarrow> mbuf \<Rightarrow> u64 \<Rightarrow> pe_context \<Rightarrow> bytes \<Rightarrow> bytes \<Rightarrow> bool"
where
  "digests s256 s1 b data ctx h256 h1 \<longleftrightarrow>
     (let m = authenticode_input (mb_data b) (unat (c_PEHdr ctx - data)) (unat (c_SecDir ctx - data))
                (unat (c_SizeOfHeaders ctx)) (sections_of b ctx) (cert_size b ctx)
      in (\<forall>d. computes s256 d \<longrightarrow> h256 = d m) \<and> (\<forall>d. computes s1 d \<longrightarrow> h1 = d m))"

lemma sections_of_first:
  "c_NumberOfSections ctx = 0 \<Longrightarrow> sections_of b (ctx\<lparr>c_FirstSection := p\<rparr>) = sections_of b ctx"
  by (simp add: sections_of_def)

lemma context_ok_first:
  "c_NumberOfSections ctx = 0 \<Longrightarrow> context_ok b data n ctx \<Longrightarrow> context_ok b data n (ctx\<lparr>c_FirstSection := data\<rparr>)"
  by (auto simp add: context_ok_def intro: exI [of _ 0])

lemma sort_sections_fixed:
  assumes f: "is_file b data datasize" and c: "context_ok b data (unat datasize) ctx"
    and x: "ctx' = ctx \<or> c_NumberOfSections ctx = 0 \<and> (\<exists>p. ctx' = ctx\<lparr>c_FirstSection := p\<rparr>)"
    and h: "unat (ucast (c_SizeOfHeaders ctx) :: u32) \<le> unat datasize"
  shows "safely (sort_sections b data datasize ctx' (ucast (c_SizeOfHeaders ctx)) (unat (c_NumberOfSections ctx')) 0 0
            (replicate (unat (c_NumberOfSections ctx')) zero_section))
     (\<lambda>(t, broke). \<not> broke \<and> t = sort_key ptr (sections_of b ctx)
        \<and> unat (ucast (c_SizeOfHeaders ctx) :: u32) + raw_sum (sections_of b ctx) \<le> unat datasize)"
proof (cases "c_NumberOfSections ctx = 0")
  case True
  then have "c_NumberOfSections ctx' = 0" using x by auto
  then show ?thesis using True h by (simp add: sections_of_def raw_sum_def)
next
  case False
  then have "ctx' = ctx" using x by simp
  then show ?thesis
    using sort_sections_ok [OF f c, of 0 "unat (c_NumberOfSections ctx)" _ 0 "ucast (c_SizeOfHeaders ctx)"] h
    by (simp add: raw_sum_def)
qed

lemma raw_sum_sort: "raw_sum (sort_key ptr ss) = raw_sum ss"
proof -
  have "sum_mset (image_mset f (mset xs)) = sum_list (map f xs)" for f :: "section_header \<Rightarrow> nat" and xs
    by (simp add: sum_mset_sum_list flip: mset_map)
  then show ?thesis unfolding raw_sum_def by (metis mset_sort)
qed

definition hash_post ::
  "'h sha \<Rightarrow> 'g sha \<Rightarrow> mbuf \<Rightarrow> u64 \<Rightarrow> u32 \<Rightarrow> pe_context \<Rightarrow> bytes \<times> bytes \<times> pe_context \<Rightarrow> bool"
where
  "hash_post s256 s1 b data datasize ctx r \<longleftrightarrow> (case r of (h256, h1, ctx') \<Rightarrow>
     digests s256 s1 b data ctx h256 h1 \<and> unat (c_SizeOfHeaders ctx) \<le> unat datasize
     \<and> sections_in_file (sections_of b ctx) (unat datasize)
     \<and> (ctx' = ctx \<or> c_NumberOfSections ctx = 0 \<and> (\<exists>p. ctx' = ctx\<lparr>c_FirstSection := p\<rparr>)))"

definition header_chunks :: "mbuf \<Rightarrow> u64 \<Rightarrow> pe_context \<Rightarrow> bytes list" where
  "header_chunks b data ctx =
     [file_slice (mb_data b) 0 (unat (c_PEHdr ctx - data) + 88),
      file_slice (mb_data b) (unat (c_PEHdr ctx - data) + 92) (unat (c_SecDir ctx - data)),
      file_slice (mb_data b) (unat (c_SecDir ctx - data) + 8) (unat (c_SizeOfHeaders ctx))]"

lemma digestsI:
  assumes "sha_init s256 = Some (fst h0)" and "sha_init s1 = Some (snd h0)"
    and "fed s256 s1 h0 (header_chunks b data ctx) h" and "fed s256 s1 h cs h2" and "fed s256 s1 h2 cs2 h3"
    and "concat cs = concat (map (raw_bytes (mb_data b)) (sort_key ptr (sections_of b ctx)))"
    and "concat cs2 = (let n = unat (c_SizeOfHeaders ctx) + raw_sum (sections_of b ctx) in
        if n < length (mb_data b) \<and> cert_size b ctx \<noteq> 0 then file_slice (mb_data b) n (length (mb_data b) - cert_size b ctx) else [])"
    and "sha_final s256 (fst h3) = Some h256" and "sha_final s1 (snd h3) = Some h1"
  shows "digests s256 s1 b data ctx h256 h1"
proof -
  let ?all = "header_chunks b data ctx @ cs @ cs2"
  have f: "fed s256 s1 h0 ?all h3" using assms(3-5) fed_append by blast
  have c: "concat ?all = authenticode_input (mb_data b) (unat (c_PEHdr ctx - data)) (unat (c_SecDir ctx - data))
      (unat (c_SizeOfHeaders ctx)) (sections_of b ctx) (cert_size b ctx)"
    using assms(6,7) by (simp add: header_chunks_def authenticode_input_def)
  have "h256 = d (concat ?all)" if "computes s256 d" for d
    using that f assms(1,8) unfolding computes_def fed_def by blast
  moreover have "h1 = d (concat ?all)" if "computes s1 d" for d
    using that f assms(2,9) unfolding computes_def fed_def by blast
  ultimately show ?thesis unfolding digests_def Let_def c by blast
qed

lemma sections_in_file_sort: "sections_in_file (sort_key f ss) n = sections_in_file ss n"
  by (simp add: sections_in_file_def)

lemma hash_body_ok:
  assumes f: "is_file b data datasize" and ctx: "context_ok b data (unat datasize) ctx"
    and x: "ctx' = ctx \<or> c_NumberOfSections ctx = 0 \<and> (\<exists>p. ctx' = ctx\<lparr>c_FirstSection := p\<rparr>)"
    and hs: "unat (c_SizeOfHeaders ctx) \<le> unat datasize"
    and init: "sha_init s256 = Some (fst h0)" "sha_init s1 = Some (snd h0)"
    and fd: "fed s256 s1 h0 (header_chunks b data ctx) h"
  shows "safely (hash_body s256 s1 pool b data datasize h ctx') (hash_post s256 s1 b data datasize ctx)"
proof -
  let ?t = "sort_key ptr (sections_of b ctx)" and ?hd = "ucast (c_SizeOfHeaders ctx) :: u32"
  have sd: "in_buf b (c_SecDir ctx) 8" using ctx by (simp add: context_ok_def)
  have uh: "unat ?hd = unat (c_SizeOfHeaders ctx)"
    using ctx by (intro unat_ucast_small) (auto simp add: context_ok_def word_le_nat_alt)
  have lf: "length (mb_data b) = unat datasize" using f by (simp add: is_file_def)
  have hd: "c_SizeOfHeaders ctx' = c_SizeOfHeaders ctx" "c_SecDir ctx' = c_SecDir ctx" "cert_size b ctx' = cert_size b ctx"
    using x by (auto simp add: cert_size_def)
  have hu: "unat ?hd \<le> unat datasize" using hs uh by simp
  note sorted = sort_sections_fixed [OF f ctx x hu]
  show ?thesis
    unfolding hash_body_def hd
  proof (rule safely_guard, rule safely_bind [OF sorted], goal_cases)
    case (1 p)
    have p: "p = (?t, False)" and sum: "unat ?hd + raw_sum ?t \<le> unat datasize"
      using 1(3) by (auto simp add: raw_sum_sort split: prod.splits)
    show ?case
      unfolding p prod.case
    proof (rule hash_sections_fed [OF f sum])
      fix h2 cs and hashed :: u32
      assume a: "fed s256 s1 h cs h2" "concat cs = concat (map (raw_bytes (mb_data b)) ?t)"
        "unat hashed = unat ?hd + raw_sum ?t" "sections_in_file ?t (unat datasize)"
      show "safely (case (h2, hashed) of (h, hashed) \<Rightarrow> bindR (hash_rest s256 s1 b data datasize ctx' h hashed) (\<lambda>h.
            bindR (orelse_status (sha_final s256 (fst h)) EFI_OUT_OF_RESOURCES) (\<lambda>sha256hash.
            bindR (orelse_status (sha_final s1 (snd h)) EFI_OUT_OF_RESOURCES) (\<lambda>sha1hash.
            bindR (guardR (\<not> False) EFI_NOT_FOUND) (\<lambda>_. Inr (sha256hash, sha1hash, ctx'))))))
         (hash_post s256 s1 b data datasize ctx)"
        unfolding prod.case
      proof (rule hash_rest_fed [OF f], goal_cases)
        case 1 then show ?case using sd hd by simp
      next
        case 2 then show ?case using a(3) sum by simp
      next
        case (3 h3 cs2)
        have "digests s256 s1 b data ctx h256 h1"
          if "sha_final s256 (fst h3) = Some h256" "sha_final s1 (snd h3) = Some h1" for h256 h1
          using 3(2) a(3) by (intro digestsI [OF init fd a(1) 3(1) a(2) _ that]) (simp add: lf hd uh raw_sum_sort Let_def)
        then show ?case
          using hs x a(4) by (intro safely_orelse) (auto simp add: hash_post_def sections_in_file_sort bind_guardR)
      qed
    qed
  qed
qed

lemma generate_hash_ok:
  assumes f: "is_file b data datasize" and c: "header_ctx b data (unat datasize) ctx"
  shows "safely (generate_hash s256 s1 pool b data datasize ctx) (hash_post s256 s1 b data datasize ctx)"
proof -
  note buf = is_file_in_buf [OF f]
  have ctx: "context_ok b data (unat datasize) ctx" using c by (simp add: header_ctx_def)
  have body: "safely (bindR (hash_headers s256 s1 b data datasize ctx (i256, i1)) (\<lambda>h.
       bindR (fix_sections b data datasize off ctx) (hash_body s256 s1 pool b data datasize h)))
     (hash_post s256 s1 b data datasize ctx)" if "sha_init s256 = Some i256" "sha_init s1 = Some i1" for i256 i1 off
    using that
    by (intro hash_headers_fed [OF f c] fix_sections_ok [OF f c] hash_body_ok [OF f ctx, where ?h0.0 = "(i256, i1)"])
       (simp_all add: header_chunks_def)
  show ?thesis
    unfolding generate_hash_def
  proof (intro safely_guard safely_rd16 safely_rd32 safely_orelse body, goal_cases)
    case 1 then show ?case by (intro in_buf_mono [OF buf]) (simp add: word_less_nat_alt)
  next
    case (2 m) then show ?case by (intro in_buf_field [OF buf]) (simp add: word_less_nat_alt)
  qed
qed

section \<open>Properties\<close>

text \<open>The file of the header theory, with a hash that is the identity.\<close>

definition demo_sha :: "(bytes \<Rightarrow> bytes) \<Rightarrow> bytes sha" where
  "demo_sha f = \<lparr>sha_init = Some [], sha_update = (\<lambda>h c. Some (h @ c)), sha_final = (\<lambda>h. Some (f h))\<rparr>"

lemma demo_sha_feed: "feed (demo_sha f) h cs = Some (h @ concat cs)"
  by (induction cs arbitrary: h) (simp_all add: demo_sha_def)

lemma demo_sha_computes: "computes (demo_sha f) f"
  by (simp add: computes_def demo_sha_feed) (simp add: demo_sha_def)

lemma demo_sha_simps [simp]:
  "sha_init (demo_sha f) = Some []" "sha_update (demo_sha f) h c = Some (h @ c)" "sha_final (demo_sha f) h = Some (f h)"
  by (simp_all add: demo_sha_def)

lemma demo_length: "length (mb_data demo_pe) = 400" "mb_base demo_pe = 0x10000"
  by (simp_all add: demo_pe_def demo_pe_bytes_def)

lemma demo_load: "unat (p - 0x10000) + n \<le> 400 \<Longrightarrow> load demo_pe p n = Inr (file_slice (mb_data demo_pe) (unat (p - 0x10000)) (unat (p - 0x10000) + n))"
  by (simp add: load_def in_buf_def off_def demo_length file_slice_def)

lemma demo_hash_range:
  "check_size 0x10000 400 p n \<Longrightarrow> unat (p - 0x10000) + unat n \<le> 400 \<Longrightarrow>
   hash_range (demo_sha f) (demo_sha g) demo_pe 0x10000 400 h p n =
     (let bs = file_slice (mb_data demo_pe) (unat (p - 0x10000)) (unat (p - 0x10000) + unat n) in Inr (fst h @ bs, snd h @ bs))"
  by (simp add: hash_range_def demo_load Let_def orelse_status_def bind_guardR)

lemma demo_hash_headers:
  "\<exists>m. hash_headers (demo_sha f) (demo_sha g) demo_pe 0x10000 400 demo_ctx h = Inr (fst h @ m, snd h @ m)"
  by (simp add: hash_headers_def demo_ctx_def demo_hash_range check_size_def Let_def bind_guardR)

lemma demo_vma: "get_section_vma demo_pe demo_ctx 0 0x10000 = Inr (Some 0x11000, 0xFFF,
   \<lparr>sh_Name = [0x2e, 0x74, 0x65, 0x78, 0x74, 0, 0, 0], sh_VirtualSize = 0x1000, sh_VirtualAddress = 0x1000,
          sh_SizeOfRawData = 16, sh_PointerToRawData = 376, sh_PointerToRelocations = 0, sh_NumberOfRelocations = 0,
          sh_Characteristics = 0x60000020\<rparr>)"
    by (simp add: get_section_vma_def demo_section has_flag_def EFI_IMAGE_SCN_MEM_DISCARDABLE_def
        EFI_IMAGE_SCN_CNT_UNINITIALIZED_DATA_def ImageAddress_def checked_add_def ptr_val_def guardR_def)
       (simp add: demo_ctx_def)

lemma demo_sort: "sort_sections demo_pe 0x10000 400 demo_ctx 376 1 0 0 [zero_section] = Inr ([
   \<lparr>sh_Name = [0x2e, 0x74, 0x65, 0x78, 0x74, 0, 0, 0], sh_VirtualSize = 0x1000, sh_VirtualAddress = 0x1000,
          sh_SizeOfRawData = 16, sh_PointerToRawData = 376, sh_PointerToRelocations = 0, sh_NumberOfRelocations = 0,
          sh_Characteristics = 0x60000020\<rparr>], False)"
  by (simp add: demo_vma insert_section_def)

lemma demo_generate_hash:
  "\<exists>m. generate_hash (demo_sha f) (demo_sha g) (\<lambda>_. True) demo_pe 0x10000 400 demo_ctx = Inr (f m, g m, demo_ctx)"
proof -
  obtain m where m: "hash_headers (demo_sha f) (demo_sha g) demo_pe 0x10000 400 demo_ctx ([], []) = Inr (m, m)"
    using demo_hash_headers [where h = "([], [])"] by auto
  have fx: "fix_sections demo_pe 0x10000 400 64 demo_ctx = Inr demo_ctx"
    by (simp add: fix_sections_def demo_ctx_def)
  have f: "c_SizeOfHeaders demo_ctx = 376" "c_NumberOfSections demo_ctx = 1" "c_SecDir demo_ctx = 0x10000 + 64 + 136 + 32"
    by (simp_all add: demo_ctx_def)
  have "\<exists>n. hash_body (demo_sha f) (demo_sha g) (\<lambda>_. True) demo_pe 0x10000 400 (m, m) demo_ctx = Inr (f n, g n, demo_ctx)"
    unfolding hash_body_def
    by (simp add: f demo_sort [simplified] bind_guardR ImageAddress_def checked_add_def orelse_status_def
       demo_hash_range check_size_def Let_def hash_rest_def demo_reads) blast
  then show ?thesis
    by (simp add: generate_hash_def bind_guardR demo_reads orelse_status_def m fx)
qed

lemma demo_is_file: "is_file demo_pe 0x10000 400"
  by (simp add: is_file_def demo_length)

lemma generate_hash_result:
  assumes f: "is_file b data datasize" and h: "read_header env b data datasize = Inr ctx"
  shows "safely (generate_hash s256 s1 pool b data datasize ctx) (hash_post s256 s1 b data datasize ctx)"
proof -
  have "unat data + unat datasize < 2 ^ 64"
    using f unat_u32_bound [of datasize] by (simp add: is_file_def)
  from read_header_ctx [OF is_file_in_buf [OF f] this h] show ?thesis by (rule generate_hash_ok [OF f])
qed

text \<open>
  \<open>generate_hash\<close>, on any file whose header \<open>read_header\<close> accepts, never hashes a
  byte outside the file; when it succeeds the headers and every section's raw data lie in the
  file.
\<close>

theorem generate_hash_safe:
  assumes "is_file b data datasize" and "read_header env b data datasize = Inr ctx"
  shows "safely (generate_hash s256 s1 pool b data datasize ctx)
    (\<lambda>_. unat (c_SizeOfHeaders ctx) \<le> unat datasize \<and> sections_in_file (sections_of b ctx) (unat datasize))"
  by (rule safely_weaken [OF generate_hash_result [OF assms]]) (simp add: hash_post_def split: prod.splits)

lemma generate_hash_safe_witness:
  "\<exists>r. generate_hash (demo_sha id) (demo_sha id) (\<lambda>_. True) demo_pe 0x10000 400 demo_ctx = Inr r
     \<and> sections_in_file (sections_of demo_pe demo_ctx) 400"
proof -
  obtain r where "generate_hash (demo_sha id) (demo_sha id) (\<lambda>_. True) demo_pe 0x10000 400 demo_ctx = Inr r"
    using demo_generate_hash [of id id] by auto
  then show ?thesis
    using generate_hash_safe [OF demo_is_file demo_read_header, of "demo_sha id" "demo_sha id" "\<lambda>_. True"]
    by (cases r) simp
qed

text \<open>
  C10. The digests \<open>generate_hash\<close> returns are those of the Authenticode input of the file:
  the headers without the checksum and the certificate directory entry, the raw data of the
  sections in the order of their file offsets, whatever the order of the table, and what
  follows them up to the certificate table when there is one.
\<close>

theorem generate_hash_digest:
  assumes "is_file b data datasize" and "read_header env b data datasize = Inr ctx"
    and "computes s256 sha256" and "computes s1 sha1"
    and "generate_hash s256 s1 pool b data datasize ctx = Inr (h256, h1, ctx')"
  shows "h256 = sha256 (authenticode_input (mb_data b) (unat (c_PEHdr ctx - data)) (unat (c_SecDir ctx - data))
                  (unat (c_SizeOfHeaders ctx)) (sections_of b ctx) (cert_size b ctx))
    \<and> h1 = sha1 (authenticode_input (mb_data b) (unat (c_PEHdr ctx - data)) (unat (c_SecDir ctx - data))
                  (unat (c_SizeOfHeaders ctx)) (sections_of b ctx) (cert_size b ctx))"
  using safely_result [OF generate_hash_result [OF assms(1,2)] assms(5)] assms(3,4)
  by (auto simp add: hash_post_def digests_def Let_def)

lemma generate_hash_digest_witness:
  "\<exists>h. generate_hash (demo_sha id) (demo_sha id) (\<lambda>_. True) demo_pe 0x10000 400 demo_ctx = Inr (h, h, demo_ctx)
     \<and> h = authenticode_input demo_pe_bytes 64 232 376 (sections_of demo_pe demo_ctx) (cert_size demo_pe demo_ctx)"
proof -
  obtain h where h: "generate_hash (demo_sha id) (demo_sha id) (\<lambda>_. True) demo_pe 0x10000 400 demo_ctx = Inr (h, h, demo_ctx)"
    using demo_generate_hash [of id id] by auto
  have e: "mb_data demo_pe = demo_pe_bytes" "unat (c_PEHdr demo_ctx - 0x10000) = 64" "unat (c_SecDir demo_ctx - 0x10000) = 232"
    "unat (c_SizeOfHeaders demo_ctx) = 376"
    by (simp_all add: demo_pe_def demo_ctx_def)
  have "h = authenticode_input demo_pe_bytes 64 232 376 (sections_of demo_pe demo_ctx) (cert_size demo_pe demo_ctx)"
    using generate_hash_digest [OF demo_is_file demo_read_header demo_sha_computes demo_sha_computes h]
    unfolding e by simp
  with h show ?thesis by blast
qed

end
