(* ===== verification/CStr.thy ===== *)
theory CStr
  imports ShimPrelude
begin

text \<open>
  C strings: the routines of lib/string.c on NUL-terminated byte arrays and the bounded
  tokenizer of include/str.h. A pointer into an array is the list from there on
  (\<open>drop p s\<close>), so running off the end of the object is the empty list, a \<open>Fault\<close>.
\<close>

section \<open>lib/string.c\<close>

text \<open>\<open>strlen\<close>: counts to the NUL.\<close>

fun strlen :: "bytes \<Rightarrow> nat res" where
  "strlen [] = Inl Fault"
| "strlen (c # cs) = (if c = 0 then Inr 0 else bindR (strlen cs) (\<lambda>n. Inr (Suc n)))"

text \<open>\<open>strcmp\<close>: the difference of the first bytes that differ, as unsigned bytes.\<close>

fun strcmp :: "bytes \<Rightarrow> bytes \<Rightarrow> int res" where
  "strcmp (a # as) (b # bs) =
     (if a = 0 \<or> a \<noteq> b then Inr (int (unat a) - int (unat b)) else strcmp as bs)"
| "strcmp _ _ = Inl Fault"

text \<open>
  \<open>strncmp\<close>: the loop test reads \<open>*s1\<close> before it looks at \<open>len\<close>, and \<open>*s2\<close> only
  while \<open>len\<close> is not used up.
\<close>

fun strncmp :: "bytes \<Rightarrow> bytes \<Rightarrow> nat \<Rightarrow> int res" where
  "strncmp [] _ _ = Inl Fault"
| "strncmp (a # as) _ 0 = Inr 0"
| "strncmp (a # as) [] (Suc n) = Inl Fault"
| "strncmp (a # as) (b # bs) (Suc n) =
     (if a = 0 \<or> a \<noteq> b then Inr (int (unat a) - int (unat b)) else strncmp as bs n)"

text \<open>\<open>strrchr\<close>: the last occurrence; the terminating NUL counts as part of the string.\<close>

fun strrchr_from :: "bytes \<Rightarrow> u8 \<Rightarrow> nat \<Rightarrow> nat option \<Rightarrow> nat option res" where
  "strrchr_from [] c i save = Inl Fault"
| "strrchr_from (x # xs) c i save =
     (let save' = (if x = c then Some i else save)
      in if x = 0 then Inr save' else strrchr_from xs c (Suc i) save')"

definition strrchr :: "bytes \<Rightarrow> u8 \<Rightarrow> nat option res" where
  "strrchr s c = strrchr_from s c 0 None"

text \<open>\<open>strnlen\<close>: never reads past the first \<open>n\<close> bytes.\<close>

fun strnlen :: "bytes \<Rightarrow> nat \<Rightarrow> nat res" where
  "strnlen _ 0 = Inr 0"
| "strnlen [] (Suc n) = Inl Fault"
| "strnlen (c # cs) (Suc n) = (if c = 0 then Inr 0 else bindR (strnlen cs n) (\<lambda>k. Inr (Suc k)))"

text \<open>\<open>strchrnul\<close> and \<open>strchr\<close>: the first occurrence, as an index.\<close>

fun strchrnul :: "bytes \<Rightarrow> u8 \<Rightarrow> nat res" where
  "strchrnul [] c = Inl Fault"
| "strchrnul (x # xs) c = (if x = 0 \<or> x = c then Inr 0 else bindR (strchrnul xs c) (\<lambda>n. Inr (Suc n)))"

definition strchr :: "bytes \<Rightarrow> u8 \<Rightarrow> nat option res" where
  "strchr s c =
     bindR (strchrnul s c) (\<lambda>i. bindR (idx s i) (\<lambda>x. Inr (if x = 0 then None else Some i)))"

text \<open>
  \<open>stpcpy\<close> and \<open>strcpy\<close>: copy up to and with the NUL. The destination is the list the
  bytes overwrite; the index returned is the NUL's.
\<close>

fun stpcpy :: "bytes \<Rightarrow> bytes \<Rightarrow> (bytes \<times> nat) res" where
  "stpcpy [] _ = Inl Fault"
| "stpcpy (d # ds) [] = Inl Fault"
| "stpcpy (d # ds) (c # cs) =
     (if c = 0 then Inr (0 # ds, 0)
      else bindR (stpcpy ds cs) (\<lambda>(r, n). Inr (c # r, Suc n)))"

text \<open>\<open>strncpy\<close>: at most \<open>n\<close> bytes, NUL-terminated only when there is room.\<close>

fun strncpy :: "bytes \<Rightarrow> bytes \<Rightarrow> nat \<Rightarrow> bytes res" where
  "strncpy ds _ 0 = Inr ds"
| "strncpy ds [] (Suc n) = Inl Fault"
| "strncpy [] (c # cs) (Suc n) = Inl Fault"
| "strncpy (d # ds) (c # cs) (Suc n) =
     (if c = 0 then Inr (0 # ds) else bindR (strncpy ds cs n) (\<lambda>r. Inr (c # r)))"

text \<open>\<open>strcat\<close>: \<open>dest\<close> up to its NUL, then a copy of \<open>src\<close>.\<close>

definition strcat :: "bytes \<Rightarrow> bytes \<Rightarrow> bytes res" where
  "strcat dest src =
     bindR (strlen dest) (\<lambda>n.
       bindR (stpcpy (drop n dest) src) (\<lambda>(r, _). Inr (take n dest @ r)))"

text \<open>
  \<open>translate_slashes\<close>: backslashes to slashes, a doubled backslash to one. The bytes
  written to \<open>out\<close>, the NUL included.
\<close>

fun translate_slashes :: "bytes \<Rightarrow> bytes res" where
  "translate_slashes [] = Inl Fault"
| "translate_slashes (c # cs) =
     (if c = 0 then Inr [0]
      else if c = 0x5c then
        (case cs of
           [] \<Rightarrow> Inl Fault
         | d # ds \<Rightarrow>
             bindR (translate_slashes (if d = 0x5c then ds else d # ds)) (\<lambda>r. Inr (0x2f # r)))
      else bindR (translate_slashes cs) (\<lambda>r. Inr (c # r)))"

text \<open>The comparisons without case, with \<open>toupper\<close> of ctype.h.\<close>

definition toupper :: "u8 \<Rightarrow> u8" where
  "toupper c = (if 0x61 \<le> c \<and> c \<le> 0x7a then c - 0x20 else c)"

fun strncasecmp :: "bytes \<Rightarrow> bytes \<Rightarrow> nat \<Rightarrow> int res" where
  "strncasecmp [] _ _ = Inl Fault"
| "strncasecmp (a # as) _ 0 = Inr 0"
| "strncasecmp (a # as) [] (Suc n) = Inl Fault"
| "strncasecmp (a # as) (b # bs) (Suc n) =
     (if a = 0 \<or> toupper a \<noteq> toupper b then Inr (int (unat a) - int (unat b)) else strncasecmp as bs n)"

fun strcasecmp :: "bytes \<Rightarrow> bytes \<Rightarrow> int res" where
  "strcasecmp (a # as) (b # bs) =
     (if a = 0 \<or> toupper a \<noteq> toupper b then Inr (int (unat (toupper a)) - int (unat (toupper b))) else strcasecmp as bs)"
| "strcasecmp _ _ = Inl Fault"

text \<open>\<open>strndup\<close> and \<open>strdup\<close>: a copy in new memory, \<open>None\<close> when there is none.\<close>

definition strndup :: "(nat \<Rightarrow> bool) \<Rightarrow> bytes \<Rightarrow> nat \<Rightarrow> bytes option res" where
  "strndup pool src srcmax =
     bindR (strnlen src srcmax) (\<lambda>len.
       if pool (len + 1) then bindR (strncpy (replicate (len + 1) 0) src len) (\<lambda>s. Inr (Some s)) else Inr None)"

definition strdup :: "(nat \<Rightarrow> bool) \<Rightarrow> bytes \<Rightarrow> bytes option res" where
  "strdup pool src =
     bindR (strlen src) (\<lambda>len.
       if pool (len + 1) then bindR (strncpy (replicate (len + 1) 0) src len) (\<lambda>s. Inr (Some s)) else Inr None)"

section \<open>include/str.h\<close>

text \<open>
  The scan of \<open>strnchrnul\<close>: how many of the next \<open>n\<close> bytes are neither NUL nor \<open>c\<close>.
  The C index is an \<open>unsigned int\<close>; the model is exact for \<open>max\<close> below 4 GiB.
\<close>

fun strnchrnul_scan :: "bytes \<Rightarrow> nat \<Rightarrow> nat \<Rightarrow> u8 \<Rightarrow> nat res" where
  "strnchrnul_scan s p 0 c = Inr 0"
| "strnchrnul_scan s p (Suc n) c =
     bindR (idx s p) (\<lambda>b. if b = 0 \<or> b = c then Inr 0
       else bindR (strnchrnul_scan s (Suc p) n c) (\<lambda>k. Inr (Suc k)))"

definition strnchrnul :: "bytes \<Rightarrow> nat \<Rightarrow> nat \<Rightarrow> u8 \<Rightarrow> nat res" where
  "strnchrnul s p mx c =
     (if mx = 0 then Inr p
      else bindR (strnchrnul_scan s p mx c) (\<lambda>i. Inr (p + (if i = mx then i - 1 else i))))"

text \<open>The loop of \<open>strntoken\<close> over its delimiters.\<close>

fun strntoken_delims ::
  "bytes \<Rightarrow> nat \<Rightarrow> nat \<Rightarrow> bytes \<Rightarrow> nat option \<Rightarrow> u8 \<Rightarrow> nat \<Rightarrow> bool \<Rightarrow> bool \<Rightarrow> (nat \<times> bool \<times> bool) res"
where
  "strntoken_delims s str mx [] token state tokend isdelim state_is_delim =
     Inr (tokend, isdelim, state_is_delim)"
| "strntoken_delims s str mx (d # ds) token state tokend isdelim state_is_delim =
     (let state_is_delim' = (if token \<noteq> None \<and> d = state then True else state_is_delim)
      in bindR (strnchrnul s str mx d) (\<lambda>tmp.
           let tokend' = (if tmp < tokend then tmp else tokend)
           in bindR (idx s tokend') (\<lambda>c.
                strntoken_delims s str mx ds token state tokend'
                  (if c = d then True else isdelim) state_is_delim')))"

text \<open>
  \<open>strntoken\<close>: the result is the C return value, the array (the delimiter found is
  overwritten by NUL), the token pointer and the saved delimiter.
\<close>

definition strntoken ::
  "bytes \<Rightarrow> nat \<Rightarrow> nat \<Rightarrow> bytes \<Rightarrow> nat option \<Rightarrow> u8 \<Rightarrow> (bool \<times> bytes \<times> nat option \<times> u8) res"
where
  "strntoken s str mx delims token state =
     (if mx = 0 then Inr (False, s, token, state)
      else bindR (if token = None \<and> mx = 1 then bindR (idx s str) (\<lambda>b. Inr (b = 0)) else Inr False)
        (\<lambda>special.
           bindR (strntoken_delims s str mx delims token state (str + mx - 1) False special)
             (\<lambda>(tokend, isdelim, state_is_delim).
                if isdelim
                then bindR (idx s tokend) (\<lambda>c.
                       bindR (upd_idx s tokend 0) (\<lambda>s'. Inr (True, s', Some str, c)))
                else Inr (state_is_delim, s, Some str, state))))"

definition is_utf8_bom :: "bytes \<Rightarrow> nat \<Rightarrow> nat \<Rightarrow> bool res" where
  "is_utf8_bom s p bufsize =
     (let n = min 3 bufsize
      in if p + n \<le> length s then Inr (take n (drop p s) = take n [0xef, 0xbb, 0xbf]) else Inl Fault)"

section \<open>What the string routines compute\<close>

definition cstr :: "bytes \<Rightarrow> bytes" where
  "cstr s = takeWhile (\<lambda>c. c \<noteq> 0) s"

lemma cstr_terminated [simp]: "0 \<notin> set t \<Longrightarrow> cstr (t @ 0 # r) = t"
  unfolding cstr_def by (induction t) auto

lemma cstr_no_nul: "0 \<notin> set (cstr s)"
  by (auto simp add: cstr_def dest: set_takeWhileD)

lemma strlen_terminated [simp]: "0 \<notin> set t \<Longrightarrow> strlen (t @ 0 # r) = Inr (length t)"
  by (induction t) auto

lemma strlen_cstr: "strlen s = (if 0 \<in> set s then Inr (length (cstr s)) else Inl Fault)"
  by (induction s) (auto simp add: cstr_def)

lemma strcmp_zero_iff:
  assumes "0 \<notin> set t" and "0 \<notin> set u"
  shows "strcmp (t @ 0 # r) (u @ 0 # q) = Inr 0 \<longleftrightarrow> t = u"
  using assms
proof (induction t arbitrary: u)
  case Nil
  then show ?case by (cases u) (auto simp add: unat_eq_zero simp del: of_nat_unat)
next
  case (Cons a t)
  then show ?case by (cases u) (auto simp add: unat_gt_0 word_unat_eq_iff [symmetric] simp del: of_nat_unat)
qed

lemma strcmp_total:
  assumes "0 \<notin> set t" and "0 \<notin> set u"
  shows "\<exists>d. strcmp (t @ 0 # r) (u @ 0 # q) = Inr d"
  using assms
proof (induction t arbitrary: u)
  case Nil
  then show ?case by (cases u) auto
next
  case (Cons a t)
  then show ?case by (cases u) auto
qed

lemma strcmp_antisym:
  "0 \<notin> set t \<Longrightarrow> 0 \<notin> set u \<Longrightarrow> strcmp (t @ 0 # r) (u @ 0 # q) = Inr d \<Longrightarrow>
   strcmp (u @ 0 # q) (t @ 0 # r) = Inr (- d)"
proof (induction t arbitrary: u)
  case Nil
  then show ?case by (cases u) auto
next
  case (Cons a t)
  then show ?case by (cases u) (auto split: if_splits)
qed

lemma strnchrnul_scan_found:
  assumes "i < n" and "p + i < length s" and "s ! (p + i) = 0 \<or> s ! (p + i) = c"
    and "\<And>j. j < i \<Longrightarrow> s ! (p + j) \<noteq> 0 \<and> s ! (p + j) \<noteq> c"
  shows "strnchrnul_scan s p n c = Inr i"
  using assms
proof (induction i arbitrary: p n)
  case 0
  then show ?case by (cases n) (auto simp add: idx_def)
next
  case (Suc i)
  then obtain m where n: "n = Suc m" by (cases n) auto
  have "strnchrnul_scan s (Suc p) m c = Inr i"
  proof (rule Suc.IH)
    show "\<And>j. j < i \<Longrightarrow> s ! (Suc p + j) \<noteq> 0 \<and> s ! (Suc p + j) \<noteq> c"
      using Suc.prems(4) [of "Suc j" for j] by auto
  qed (use Suc.prems n in auto)
  then show ?case using n Suc.prems(2) Suc.prems(4) [of 0] by (auto simp add: idx_def)
qed

lemma strnchrnul_found:
  assumes "i < n" and "p + i < length s" and "s ! (p + i) = 0 \<or> s ! (p + i) = c"
    and "\<And>j. j < i \<Longrightarrow> s ! (p + j) \<noteq> 0 \<and> s ! (p + j) \<noteq> c"
  shows "strnchrnul s p n c = Inr (p + i)"
  using strnchrnul_scan_found [OF assms] assms(1) by (simp add: strnchrnul_def)

lemma strnchrnul_scan_le: "strnchrnul_scan s p n c = Inr i \<Longrightarrow> i \<le> n"
  by (induction s p n c arbitrary: i rule: strnchrnul_scan.induct)
     (auto simp add: res_simps split: if_splits)

lemma strnchrnul_ge: "strnchrnul s p n c = Inr q \<Longrightarrow> p \<le> q"
  by (auto simp add: strnchrnul_def res_simps split: if_splits)

text \<open>Bounded scans stay inside the object: only the first \<open>max\<close> bytes are touched.\<close>

lemma strnchrnul_scan_safe: "p + n \<le> length s \<Longrightarrow> \<exists>i. strnchrnul_scan s p n c = Inr i"
proof (induction n arbitrary: p)
  case (Suc n)
  then obtain k where "strnchrnul_scan s (Suc p) n c = Inr k" by fastforce
  with Suc.prems show ?case by (simp add: idx_def)
qed simp

lemma strnchrnul_safe:
  assumes "p + n \<le> length s"
  shows "\<exists>q. strnchrnul s p n c = Inr q \<and> p \<le> q \<and> (n \<noteq> 0 \<longrightarrow> q < p + n)"
proof -
  obtain i where "strnchrnul_scan s p n c = Inr i" using strnchrnul_scan_safe [OF assms] by blast
  with strnchrnul_scan_le [OF this] show ?thesis by (auto simp add: strnchrnul_def)
qed

end
