(* ===== verification/Csv.thy ===== *)
theory Csv
  imports CStr
begin

text \<open>
  The CSV parser of csv.c. It works in place: it overwrites delimiters with NUL in the
  caller's buffer and returns rows of pointers into it. The buffer is a byte list, a
  pointer an index into it; \<open>data_end\<close> is the index of the last byte.
\<close>

section \<open>parse_csv_line\<close>

text \<open>
  The loop over the columns: \<open>k\<close> is the number of columns left and \<open>n\<close> the current one.
  A column after the last token is \<open>NULL\<close>.
\<close>

fun parse_csv_line_loop ::
  "nat \<Rightarrow> nat \<Rightarrow> bytes \<Rightarrow> nat \<Rightarrow> nat \<Rightarrow> bool \<Rightarrow> nat option \<Rightarrow> u8 \<Rightarrow> nat
   \<Rightarrow> (bytes \<times> nat option list \<times> nat) res"
where
  "parse_csv_line_loop 0 n s next mx valid token state new_n = Inr (s, [], new_n)"
| "parse_csv_line_loop (Suc k) n s next mx valid token state new_n =
     bindR (if valid then strntoken s next mx [0x2c] token state else Inr (False, s, token, state))
       (\<lambda>(valid', s', token', state').
          if valid' then
            (case token' of
               None \<Rightarrow> Inl Fault
             | Some t \<Rightarrow>
                 bindR (strlen (drop t s')) (\<lambda>l.
                 bindR (parse_csv_line_loop k (Suc n) s' (next + l + 1) (size_sub mx (l + 1))
                          True token' state' (Suc n))
                   (\<lambda>(s'', cols, m). Inr (s'', Some t # cols, m))))
          else
            bindR (parse_csv_line_loop k (Suc n) s' next mx False token' state' new_n)
              (\<lambda>(s'', cols, m). Inr (s'', None # cols, m)))"

definition parse_csv_line :: "bytes \<Rightarrow> nat \<Rightarrow> nat \<Rightarrow> nat \<Rightarrow> (bytes \<times> nat option list \<times> nat) res" where
  "parse_csv_line s line mx n_columns =
     parse_csv_line_loop n_columns 0 s line mx True None 0 0"

section \<open>parse_csv_data\<close>

record csv_row =
  n_columns :: nat
  columns :: "nat option list"

text \<open>Skipping the delimiters of the previous line: one pass tries each delimiter once.\<close>

fun csv_skip_pass :: "bytes \<Rightarrow> bytes \<Rightarrow> nat \<Rightarrow> nat \<Rightarrow> bool \<Rightarrow> (nat \<times> nat \<times> bool) res" where
  "csv_skip_pass s [] line mx found = Inr (line, mx, found)"
| "csv_skip_pass s (d # ds) line mx found =
     (if mx = 0 then Inr (line, mx, found)
      else bindR (idx s line) (\<lambda>c.
        if c = d then csv_skip_pass s ds (line + 1) (mx - 1) True
        else csv_skip_pass s ds line mx found))"

lemma csv_skip_pass_decreases:
  "csv_skip_pass s ds line mx found = Inr (line', mx', found') \<Longrightarrow>
   line' + mx' = line + mx \<and> mx' \<le> mx \<and> (found' \<longrightarrow> found \<or> mx' < mx)"
proof (induction ds arbitrary: line mx found)
  case (Cons d ds)
  show ?case
  proof (cases "mx = 0")
    case False
    then show ?thesis
      using Cons.prems Cons.IH [of "line + 1" "mx - 1" True] Cons.IH [of line mx found]
      by (auto simp add: bindR_eq_Inr split: if_splits)
  qed (use Cons.prems in simp)
qed simp

function csv_skip :: "bytes \<Rightarrow> nat \<Rightarrow> nat \<Rightarrow> (nat \<times> nat) res" where
  "csv_skip s line mx =
     (if mx = 0 then Inr (line, mx)
      else bindR (csv_skip_pass s [0x0d, 0x0a] line mx False) (\<lambda>(line', mx', found).
        if found then csv_skip s line' mx' else Inr (line', mx')))"
  by pat_completeness auto
termination
  by (relation "measure (\<lambda>(s, line, mx). mx)")
     (auto simp del: csv_skip_pass.simps dest: csv_skip_pass_decreases)

declare csv_skip.simps [simp del]

text \<open>The first delimiter of the line, or \<open>end\<close> when there is none before it.\<close>

fun csv_find_end :: "bytes \<Rightarrow> nat \<Rightarrow> nat \<Rightarrow> bytes \<Rightarrow> nat \<Rightarrow> nat res" where
  "csv_find_end s line mx [] e = Inr e"
| "csv_find_end s line mx (d # ds) e =
     bindR (strnchrnul s line mx d) (\<lambda>tmp. csv_find_end s line mx ds (if tmp < e then tmp else e))"

lemma csv_skip_ge: "csv_skip s line mx = Inr (line', mx') \<Longrightarrow> line \<le> line' \<and> line' + mx' = line + mx"
proof (induction s line mx arbitrary: line' mx' rule: csv_skip.induct)
  case (1 s line mx)
  show ?case
  proof (cases "mx = 0")
    case True
    then show ?thesis using "1.prems" by (simp add: csv_skip.simps)
  next
    case False
    then obtain l m f where p: "csv_skip_pass s [0x0d, 0x0a] line mx False = Inr (l, m, f)"
      and r: "(if f then csv_skip s l m else Inr (l, m)) = Inr (line', mx')"
      using "1.prems" by (auto simp add: csv_skip.simps [of s line mx] res_simps
          simp del: csv_skip_pass.simps)
    have "l + m = line + mx" "m \<le> mx" using csv_skip_pass_decreases [OF p] by simp_all
    moreover have "l \<le> line' \<and> line' + mx' = l + m"
      using r "1.IH" [OF False p] by (auto split: if_splits)
    ultimately show ?thesis by simp
  qed
qed

lemma csv_find_end_ge: "csv_find_end s line mx ds e = Inr e' \<Longrightarrow> min line e \<le> e' \<and> e' \<le> e"
proof (induction s line mx ds e arbitrary: e' rule: csv_find_end.induct)
  case (2 s line mx d ds e)
  then obtain tmp where "strnchrnul s line mx d = Inr tmp"
    and "csv_find_end s line mx ds (if tmp < e then tmp else e) = Inr e'"
    by (auto simp add: res_simps)
  with "2.IH" [of tmp e'] strnchrnul_ge [of s line mx d tmp] show ?case
    by (auto split: if_splits)
qed simp

lemma csv_find_end_ge2:
  "csv_find_end s line mx ds e = Inr e' \<Longrightarrow> (\<forall>l. l \<le> line \<and> l \<le> e \<longrightarrow> l \<le> e') \<and> e' \<le> e"
  using csv_find_end_ge [of s line mx ds e e'] by auto

text \<open>
  The distance \<open>end - line + (end > line ? 1 : 0)\<close> in \<open>uintptr_t\<close> arithmetic.
\<close>

definition csv_max :: "nat \<Rightarrow> nat \<Rightarrow> nat" where
  "csv_max e line = (size_sub e line + (if line < e then 1 else 0)) mod 2 ^ 64"

text \<open>
  The main loop. \<open>pool\<close> says which of the row allocations succeed; when one fails the
  list is freed and the status is \<open>EFI_OUT_OF_RESOURCES\<close>. The result is the buffer as
  the parser leaves it and the rows in order.
\<close>

function parse_csv_rows ::
  "(nat \<Rightarrow> bool) \<Rightarrow> nat \<Rightarrow> nat \<Rightarrow> bytes \<Rightarrow> nat \<Rightarrow> csv_row list \<Rightarrow> (bytes \<times> csv_row list) res"
where
  "parse_csv_rows pool data_end ncols s line rows =
     (if line \<le> data_end then
        bindR (idx s line) (\<lambda>c0.
        if c0 = 0 then Inr (s, rows)
        else bindR (csv_skip s line (csv_max data_end line)) (\<lambda>(line, mx).
        bindR (csv_find_end s line mx [0x0d, 0x0a] data_end) (\<lambda>e.
        let mx = csv_max e line in
        bindR (idx s e) (\<lambda>ce.
        let eof = (ce = 0) in
        bindR (upd_idx s e 0) (\<lambda>s.
        if line = data_end \<or> mx = 0 then parse_csv_rows pool data_end ncols s (e + 1) rows
        else if \<not> pool (length rows) then Inl (Status EFI_OUT_OF_RESOURCES)
        else bindR (csv_find_end s line mx [0x0d, 0x0a] e) (\<lambda>e.
        bindR (parse_csv_line s line mx ncols) (\<lambda>(s, cols, m_columns).
        let rows = rows @ [\<lparr>n_columns = m_columns, columns = cols\<rparr>] in
        if eof then Inr (s, rows)
        else parse_csv_rows pool data_end ncols s (e + 1) rows)))))))
      else Inr (s, rows))"
  by pat_completeness auto
termination
proof (relation "measure (\<lambda>(pool, data_end, ncols, s, line, rows). data_end + 1 - line)", goal_cases)
  case 1
  then show ?case by simp
next
  case 2
  then show ?case
    by (auto simp del: csv_find_end.simps dest!: csv_skip_ge csv_find_end_ge2)
next
  case 3
  then show ?case
    by (auto simp del: csv_find_end.simps dest!: csv_skip_ge csv_find_end_ge2)
qed

declare parse_csv_rows.simps [simp del]

definition parse_csv_data ::
  "(nat \<Rightarrow> bool) \<Rightarrow> bytes \<Rightarrow> nat \<Rightarrow> nat \<Rightarrow> (bytes \<times> csv_row list) res"
where
  "parse_csv_data pool s data_end ncols =
     (if data_end = 0 \<or> ncols = 0 then Inl (Status EFI_INVALID_PARAMETER)
      else bindR (is_utf8_bom s 0 (csv_max data_end 0)) (\<lambda>bom.
        parse_csv_rows pool data_end ncols s (if bom then 3 else 0) []))"

text \<open>The string a column points to, read from the buffer the parser left behind.\<close>

definition column_str :: "bytes \<Rightarrow> nat option \<Rightarrow> bytes option" where
  "column_str s p = map_option (\<lambda>i. cstr (drop i s)) p"

definition row_strs :: "bytes \<Rightarrow> csv_row \<Rightarrow> bytes list" where
  "row_strs s r = map (\<lambda>i. cstr (drop i s)) (List.map_filter id (take (n_columns r) (columns r)))"

section \<open>What the parser computes\<close>

text \<open>The specification: a line split at every comma, and a text split into its lines.\<close>

function split_byte :: "u8 \<Rightarrow> bytes \<Rightarrow> bytes list" where
  "split_byte c x =
     (if c \<in> set x
      then takeWhile (\<lambda>b. b \<noteq> c) x # split_byte c (tl (dropWhile (\<lambda>b. b \<noteq> c) x))
      else [x])"
  by pat_completeness auto
termination
proof (relation "measure (\<lambda>(c, x). length x)", goal_cases)
  case (2 c x)
  then have "dropWhile (\<lambda>b. b \<noteq> c) x \<noteq> []" by simp
  moreover have "length (dropWhile (\<lambda>b. b \<noteq> c) x) \<le> length x" by (rule length_dropWhile_le)
  ultimately show ?case by (cases "dropWhile (\<lambda>b. b \<noteq> c) x") auto
qed simp

declare split_byte.simps [simp del]

lemma takeWhile_first:
  "c \<notin> set a \<Longrightarrow> takeWhile (\<lambda>b. b \<noteq> c) (a @ c # b) = a"
  "c \<notin> set a \<Longrightarrow> dropWhile (\<lambda>b. b \<noteq> c) (a @ c # b) = c # b"
  by (induction a) auto

lemma split_byte_cons: "c \<notin> set a \<Longrightarrow> split_byte c (a @ c # b) = a # split_byte c b"
  by (simp add: split_byte.simps [of c "a @ c # b"] takeWhile_first)

lemma split_byte_last: "c \<notin> set a \<Longrightarrow> split_byte c a = [a]"
  by (simp add: split_byte.simps)

definition is_nl :: "u8 \<Rightarrow> bool" where
  "is_nl c \<longleftrightarrow> c = 0x0d \<or> c = 0x0a"

definition csv_fields :: "nat \<Rightarrow> bytes \<Rightarrow> bytes list" where
  "csv_fields n l = (if 0x2c \<in> set l then take n (split_byte 0x2c l) else [])"

function csv_lines :: "bytes \<Rightarrow> bytes list" where
  "csv_lines t =
     (let r = dropWhile is_nl t; l = takeWhile (\<lambda>c. \<not> is_nl c) r
      in if r = [] then [] else l # csv_lines (drop (length l + 1) r))"
  by pat_completeness auto
termination
proof (relation "measure length", goal_cases)
  case (2 t r l)
  have "length r \<le> length t" unfolding 2 by (rule length_dropWhile_le)
  then show ?case using 2(3) by (cases r) auto
qed simp

declare csv_lines.simps [simp del]

subsection \<open>Indexing an appended buffer\<close>

lemma idx_append [mem_simps]: "idx (pre @ xs) (length pre + k) = idx xs k"
  "idx (pre @ xs) (length pre) = idx xs 0"
  by (simp_all add: idx_def nth_append)

lemma idx_Cons [mem_simps]: "idx (x # xs) 0 = Inr x" "idx (x # xs) (Suc k) = idx xs k"
  by (simp_all add: idx_def)

lemma upd_idx_append [mem_simps]:
  "upd_idx (pre @ x # xs) (length pre) b = Inr (pre @ b # xs)"
  by (simp add: upd_idx_def)

lemma strnchrnul_append:
  assumes "\<And>b. b \<in> set x \<Longrightarrow> b \<noteq> 0 \<and> b \<noteq> c" and "y = 0 \<or> y = c" and "length x < mx"
  shows "strnchrnul (pre @ x @ y # post) (length pre) mx c = Inr (length pre + length x)"
  by (rule strnchrnul_found) (use assms in \<open>auto simp add: nth_append\<close>)

text \<open>The first \<open>c\<close> of a string, or its NUL.\<close>

lemma strnchrnul_text:
  assumes "0 \<notin> set x"
  shows "strnchrnul (pre @ x @ 0 # post) (length pre) (Suc (length x)) c
       = Inr (length pre + length (takeWhile (\<lambda>b. b \<noteq> c) x))"
proof (cases "c \<in> set x")
  case True
  then obtain a b where x: "x = a @ c # b" and a: "c \<notin> set a"
    using split_list_first [OF True] by auto
  have "strnchrnul (pre @ a @ c # b @ 0 # post) (length pre) (Suc (length x)) c
      = Inr (length pre + length a)"
    by (rule strnchrnul_append) (use assms x a in auto)
  moreover have "takeWhile (\<lambda>b. b \<noteq> c) x = a" using x a by (simp add: takeWhile_first)
  ultimately show ?thesis using x by simp
next
  case False
  then have "takeWhile (\<lambda>b. b \<noteq> c) x = x" by (auto simp add: takeWhile_eq_all_conv)
  moreover have "strnchrnul (pre @ x @ 0 # post) (length pre) (Suc (length x)) c
      = Inr (length pre + length x)"
    by (rule strnchrnul_append) (use assms False in auto)
  ultimately show ?thesis by (simp only:)
qed

lemma drop_append_len: "drop (length pre) (pre @ xs) = xs"
  by simp

subsection \<open>One line\<close>

lemma strntoken_comma:
  assumes "0 \<notin> set a" and "0x2c \<notin> set a" and "0 \<notin> set b"
  shows "strntoken (pre @ a @ 0x2c # b @ 0 # post) (length pre) (length a + length b + 2) [0x2c] tok st
       = Inr (True, pre @ a @ 0 # b @ 0 # post, Some (length pre), 0x2c)"
proof -
  have s: "strnchrnul (pre @ a @ 0x2c # b @ 0 # post) (length pre) (length a + length b + 2) 0x2c
         = Inr (length pre + length a)"
    by (rule strnchrnul_append) (use assms in auto)
  have i: "idx (pre @ a @ 0x2c # b @ 0 # post) (length pre + length a) = Inr 0x2c"
    by (simp add: mem_simps)
  have u: "upd_idx (pre @ a @ 0x2c # b @ 0 # post) (length pre + length a) 0
         = Inr (pre @ a @ 0 # b @ 0 # post)"
    using upd_idx_append [of "pre @ a"] by simp
  show ?thesis using s i u by (simp add: strntoken_def Let_def)
qed

lemma strntoken_no_comma:
  assumes "0 \<notin> set x" and "0x2c \<notin> set x" and "tok \<noteq> None \<or> x \<noteq> []"
  shows "strntoken (pre @ x @ 0 # post) (length pre) (Suc (length x)) [0x2c] tok st
       = Inr (tok \<noteq> None \<and> st = 0x2c, pre @ x @ 0 # post, Some (length pre), st)"
proof -
  have s: "strnchrnul (pre @ x @ 0 # post) (length pre) (Suc (length x)) 0x2c
         = Inr (length pre + length x)"
    by (rule strnchrnul_append) (use assms in auto)
  have i: "idx (pre @ x @ 0 # post) (length pre + length x) = Inr 0"
    by (simp add: mem_simps)
  have "\<not> (tok = None \<and> Suc (length x) = 1)" using assms(3) by auto
  then show ?thesis using s i by (auto simp add: strntoken_def Let_def)
qed

lemma parse_csv_line_loop_invalid:
  "parse_csv_line_loop k n s next mx False tok st m = Inr (s, replicate k None, m)"
  by (induction k arbitrary: n) auto

text \<open>
  The result of a line: the buffer with some commas turned into NUL, the columns filled
  and then \<open>NULL\<close>, each string the corresponding field.
\<close>

lemma parse_csv_line_loop_fields:
  assumes "0 \<notin> set x" and "length pre + length x + 1 < 2 ^ 64"
    and "(tok \<noteq> None \<and> st = 0x2c) \<or> (tok = None \<and> 0x2c \<in> set x)"
  shows "\<exists>x' ps. parse_csv_line_loop k n (pre @ x @ 0 # post) (length pre) (Suc (length x)) True tok st n
           = Inr (pre @ x' @ 0 # post, map Some ps @ replicate (k - length ps) None, n + length ps)
       \<and> length x' = length x
       \<and> map (\<lambda>p. cstr (drop p (pre @ x' @ 0 # post))) ps = take k (split_byte 0x2c x)
       \<and> (\<forall>p\<in>set ps. length pre \<le> p \<and> p \<le> length pre + length x)"
  using assms
proof (induction k arbitrary: n pre x tok st)
  case 0
  show ?case by (intro exI [of _ x] exI [of _ "[]"]) simp
next
  case (Suc k)
  show ?case
  proof (cases "0x2c \<in> set x")
    case True
    then obtain a b where x: "x = a @ 0x2c # b" and a: "0x2c \<notin> set a"
      using split_list_first [OF True] by auto
    have nz: "0 \<notin> set a" "0 \<notin> set b" using Suc.prems(1) x by auto
    let ?pre = "pre @ a @ [0]"
    have tk: "strntoken (pre @ x @ 0 # post) (length pre) (Suc (length x)) [0x2c] tok st
        = Inr (True, pre @ a @ 0 # b @ 0 # post, Some (length pre), 0x2c)"
      using strntoken_comma [OF nz(1) a nz(2), of pre post tok st] x by simp
    have len: "length ?pre + length b + 1 < 2 ^ 64" using Suc.prems(2) x by simp
    have st: "(Some (length pre) \<noteq> None \<and> (0x2c :: u8) = 0x2c) \<or> (Some (length pre) = None \<and> 0x2c \<in> set b)"
      by simp
    obtain x' ps where ih: "parse_csv_line_loop k (Suc n) (?pre @ b @ 0 # post) (length ?pre)
          (Suc (length b)) True (Some (length pre)) 0x2c (Suc n)
        = Inr (?pre @ x' @ 0 # post, map Some ps @ replicate (k - length ps) None, Suc n + length ps)"
      and lx: "length x' = length b"
      and fs: "map (\<lambda>p. cstr (drop p (?pre @ x' @ 0 # post))) ps = take k (split_byte 0x2c b)"
      and rng: "\<forall>p\<in>set ps. length ?pre \<le> p \<and> p \<le> length ?pre + length b"
      using Suc.IH [OF nz(2) len st, of "Suc n"] by blast
    have r: "parse_csv_line_loop (Suc k) n (pre @ x @ 0 # post) (length pre) (Suc (length x)) True tok st n
        = Inr (pre @ (a @ 0 # x') @ 0 # post,
               map Some (length pre # ps) @ replicate (Suc k - length (length pre # ps)) None,
               n + length (length pre # ps))"
      using ih tk x nz by (simp del: drop_append add: drop_append_len)
    show ?thesis
      by (rule exI [of _ "a @ 0 # x'"], rule exI [of _ "length pre # ps"])
         (use r fs rng nz lx x split_byte_cons [OF a, of b] in \<open>auto simp del: parse_csv_line_loop.simps drop_append simp add: drop_append_len\<close>)
  next
    case False
    then have tok: "tok \<noteq> None" "st = 0x2c" using Suc.prems(3) by auto
    have tk: "strntoken (pre @ x @ 0 # post) (length pre) (Suc (length x)) [0x2c] tok st
        = Inr (True, pre @ x @ 0 # post, Some (length pre), 0x2c)"
      using strntoken_no_comma [OF Suc.prems(1) False, of tok pre post st] tok by simp
    have "parse_csv_line_loop k (Suc n) (pre @ x @ 0 # post) (Suc (length pre + length x)) 0 True
            (Some (length pre)) 0x2c (Suc n) = Inr (pre @ x @ 0 # post, replicate k None, Suc n)"
    proof (cases k)
      case (Suc j)
      then show ?thesis by (simp add: strntoken_def parse_csv_line_loop_invalid)
    qed simp
    then have r: "parse_csv_line_loop (Suc k) n (pre @ x @ 0 # post) (length pre) (Suc (length x)) True tok st n
        = Inr (pre @ x @ 0 # post, map Some [length pre] @ replicate (Suc k - 1) None, n + 1)"
      using tk Suc.prems(1) by (simp del: drop_append add: drop_append_len)
    show ?thesis
      by (rule exI [of _ x], rule exI [of _ "[length pre]"])
         (use r Suc.prems(1) split_byte_last [OF False] in \<open>auto simp del: parse_csv_line_loop.simps\<close>)
  qed
qed

text \<open>A line without a comma fills no column.\<close>

lemma parse_csv_line_no_comma:
  assumes "0 \<notin> set x" and "0x2c \<notin> set x" and "x \<noteq> []"
  shows "parse_csv_line (pre @ x @ 0 # post) (length pre) (Suc (length x)) k
       = Inr (pre @ x @ 0 # post, replicate k None, 0)"
proof (cases k)
  case (Suc j)
  then show ?thesis
    using strntoken_no_comma [OF assms(1,2), of None pre post 0] assms(3)
    by (simp add: parse_csv_line_def parse_csv_line_loop_invalid)
qed (simp add: parse_csv_line_def)

lemma map_filter_columns: "List.map_filter id (take (length ps) (map Some ps @ replicate j None)) = ps"
  by (induction ps) (auto simp add: List.map_filter_simps)

lemma row_strs_filled:
  "row_strs s \<lparr>n_columns = length ps, columns = map Some ps @ replicate j None\<rparr>
   = map (\<lambda>p. cstr (drop p s)) ps"
  unfolding row_strs_def csv_row.simps map_filter_columns ..

text \<open>A row as the parser builds it: the columns filled, then \<open>NULL\<close>.\<close>

definition row_filled :: "csv_row \<Rightarrow> bool" where
  "row_filled r \<longleftrightarrow> (\<exists>ps j. r = \<lparr>n_columns = length ps, columns = map Some ps @ replicate j None\<rparr>)"

lemma row_filledI: "row_filled \<lparr>n_columns = length ps, columns = map Some ps @ replicate j None\<rparr>"
  unfolding row_filled_def by blast

lemma parse_csv_line_fields:
  assumes "0 \<notin> set x" and "length pre + length x + 1 < 2 ^ 64" and "x \<noteq> []" and "k \<noteq> 0"
  shows "\<exists>x' cols m. parse_csv_line (pre @ x @ 0 # post) (length pre) (Suc (length x)) k
           = Inr (pre @ x' @ 0 # post, cols, m)
       \<and> length x' = length x \<and> length cols = k
       \<and> row_strs (pre @ x' @ 0 # post) \<lparr>n_columns = m, columns = cols\<rparr> = csv_fields k x
       \<and> row_filled \<lparr>n_columns = m, columns = cols\<rparr>
       \<and> (\<forall>p. Some p \<in> set cols \<longrightarrow> length pre \<le> p \<and> p \<le> length pre + length x)"
proof (cases "0x2c \<in> set x")
  case True
  then obtain x' ps where r: "parse_csv_line_loop k 0 (pre @ x @ 0 # post) (length pre) (Suc (length x)) True None 0 0
           = Inr (pre @ x' @ 0 # post, map Some ps @ replicate (k - length ps) None, 0 + length ps)"
       and l: "length x' = length x"
       and f: "map (\<lambda>p. cstr (drop p (pre @ x' @ 0 # post))) ps = take k (split_byte 0x2c x)"
       and b: "\<forall>p\<in>set ps. length pre \<le> p \<and> p \<le> length pre + length x"
    using parse_csv_line_loop_fields [OF assms(1,2), of None 0 k 0 post] assms(4) by auto
  have "length ps = length (take k (split_byte 0x2c x))" using f by (metis length_map)
  then have "length ps \<le> k" by simp
  then show ?thesis
    by (intro exI [of _ x'] exI [of _ "map Some ps @ replicate (k - length ps) None"] exI [of _ "length ps"])
       (use r l f b True in \<open>auto simp add: parse_csv_line_def row_strs_filled csv_fields_def intro: row_filledI simp del: drop_append\<close>)
next
  case False
  then show ?thesis
    using parse_csv_line_no_comma [OF assms(1) False assms(3), of pre post k]
    using row_filledI [of "[]" k]
    by (auto simp add: row_strs_def csv_fields_def List.map_filter_simps)
qed

subsection \<open>The lines\<close>

lemma csv_skip_delims:
  "0 \<notin> set rest \<Longrightarrow>
   csv_skip (pre @ rest @ [0]) (length pre) (Suc (length rest))
   = Inr (length pre + length (takeWhile is_nl rest), Suc (length (dropWhile is_nl rest)))"
proof (induction "length rest" arbitrary: pre rest rule: less_induct)
  case less
  show ?case
  proof (cases rest)
    case Nil
    then show ?thesis by (simp add: csv_skip.simps mem_simps)
  next
    case (Cons c cs)
    note step = less.hyps
    have cs: "0 \<notin> set cs" using less.prems Cons by simp
    show ?thesis
    proof (cases "is_nl c")
      case False
      then have "c \<noteq> 0x0d" "c \<noteq> 0x0a" by (auto simp add: is_nl_def)
      then show ?thesis using False Cons by (simp add: csv_skip.simps mem_simps)
    next
      case True
      show ?thesis
      proof (cases "c = 0x0d \<and> (\<exists>ds. cs = 0x0a # ds)")
        case True
        then obtain ds where ds: "c = 0x0d" "cs = 0x0a # ds" by auto
        have i: "idx (pre @ 0x0d # 0x0a # ds @ [0]) (Suc (length pre)) = Inr 0x0a"
          using idx_append(1) [of pre "0x0d # 0x0a # ds @ [0]" 1] by (simp add: idx_def)
        have "csv_skip (pre @ rest @ [0]) (length pre) (Suc (length rest))
            = csv_skip ((pre @ [c, 0x0a]) @ ds @ [0]) (length (pre @ [c, 0x0a])) (Suc (length ds))"
          using ds Cons i by (simp add: csv_skip.simps [of _ "length pre"] mem_simps)
        also have "\<dots> = Inr (length (pre @ [c, 0x0a]) + length (takeWhile is_nl ds), Suc (length (dropWhile is_nl ds)))"
          by (rule step) (use ds cs Cons in auto)
        finally show ?thesis using Cons ds by (simp add: is_nl_def)
      next
        case noCRLF: False
        obtain y ys where y: "cs @ [0] = y # ys" "c = 0x0d \<longrightarrow> y \<noteq> 0x0a"
          using noCRLF by (cases cs) auto
        have i: "idx (pre @ c # y # ys) (Suc (length pre)) = Inr y"
          using idx_append(1) [of pre "c # y # ys" 1] by (simp add: idx_def)
        have "csv_skip (pre @ rest @ [0]) (length pre) (Suc (length rest))
            = csv_skip ((pre @ [c]) @ cs @ [0]) (length (pre @ [c])) (Suc (length cs))"
          using Cons i y True by (auto simp add: csv_skip.simps [of _ "length pre"] mem_simps is_nl_def)
        also have "\<dots> = Inr (length (pre @ [c]) + length (takeWhile is_nl cs), Suc (length (dropWhile is_nl cs)))"
          by (rule step) (use cs Cons in auto)
        finally show ?thesis using Cons True by simp
      qed
    qed
  qed
qed

lemma length_takeWhile_both:
  "length (takeWhile (\<lambda>c. \<not> is_nl c) r)
   = min (length (takeWhile (\<lambda>b. b \<noteq> 0x0d) r)) (length (takeWhile (\<lambda>b. b \<noteq> 0x0a) r))"
  by (induction r) (auto simp add: is_nl_def)

lemma csv_find_end_text:
  assumes "0 \<notin> set r"
  shows "csv_find_end (pre @ r @ 0 # post) (length pre) (Suc (length r)) [0x0d, 0x0a] (length pre + length r)
       = Inr (length pre + length (takeWhile (\<lambda>c. \<not> is_nl c) r))"
  using strnchrnul_text [OF assms, of pre post "0x0d"] strnchrnul_text [OF assms, of pre post "0x0a"]
    length_takeWhile_le [of "\<lambda>b. b \<noteq> 0x0d" r] length_takeWhile_le [of "\<lambda>b. b \<noteq> 0x0a" r]
  by (simp add: length_takeWhile_both)

lemma csv_find_end_whole:
  assumes "0 \<notin> set r" and "\<forall>c\<in>set r. \<not> is_nl c"
  shows "csv_find_end (pre @ r @ 0 # post) (length pre) (Suc (length r)) [0x0d, 0x0a] (length pre + length r)
       = Inr (length pre + length r)"
proof -
  have "takeWhile (\<lambda>c. \<not> is_nl c) r = r" using assms(2) by (simp add: takeWhile_eq_all_conv)
  then show ?thesis using csv_find_end_text [OF assms(1), of pre post] by (simp only:)
qed

lemma csv_max_append: "a + n < 2 ^ 64 - 1 \<Longrightarrow> csv_max (a + n) a = n + (if n = 0 then 0 else 1)"
  by (simp add: csv_max_def)

text \<open>The rows found so far lie in the part of the buffer that is already cut.\<close>

definition rows_closed :: "bytes \<Rightarrow> csv_row list \<Rightarrow> bool" where
  "rows_closed pre rows \<longleftrightarrow>
     (\<forall>r\<in>set rows. row_filled r) \<and> (\<forall>r\<in>set rows. \<forall>p. Some p \<in> set (columns r) \<longrightarrow> p < length pre \<and> 0 \<in> set (drop p pre))"

lemma cstr_append: "0 \<in> set a \<Longrightarrow> cstr (a @ b) = cstr a"
  by (induction a) (auto simp add: cstr_def)

lemma in_map_filter_id: "p \<in> set (List.map_filter id xs) \<longleftrightarrow> Some p \<in> set xs"
  by (induction xs) (auto simp add: List.map_filter_simps split: option.splits)

lemma row_strs_append:
  assumes "\<And>p. Some p \<in> set (columns r) \<Longrightarrow> p < length pre \<and> 0 \<in> set (drop p pre)"
  shows "row_strs (pre @ x) r = row_strs pre r"
  unfolding row_strs_def
proof (rule map_cong [OF refl])
  fix i assume "i \<in> set (List.map_filter id (take (n_columns r) (columns r)))"
  then have "Some i \<in> set (columns r)" by (auto simp add: in_map_filter_id dest: in_set_takeD)
  from assms [OF this] show "cstr (drop i (pre @ x)) = cstr (drop i pre)"
    by (auto simp add: cstr_append)
qed

lemma rows_strs_append: "rows_closed pre rows \<Longrightarrow> map (row_strs (pre @ x)) rows = map (row_strs pre) rows"
  by (intro map_cong refl row_strs_append) (auto simp add: rows_closed_def)

lemma rows_closed_append: "rows_closed pre rows \<Longrightarrow> rows_closed (pre @ x) rows"
  unfolding rows_closed_def by fastforce

lemma rows_closed_row:
  assumes "\<forall>p. Some p \<in> set (columns r) \<longrightarrow> length pre \<le> p \<and> p \<le> length pre + length x"
    and "row_filled r"
  shows "rows_closed (pre @ x @ [0]) [r]"
  using assms by (auto simp add: rows_closed_def)

lemma rows_closed_snoc:
  "rows_closed pre (rows @ [r]) \<longleftrightarrow> rows_closed pre rows \<and> rows_closed pre [r]"
  by (auto simp add: rows_closed_def)

lemma csv_lines_unfold:
  assumes "\<And>c. c \<in> set d \<Longrightarrow> is_nl c" and "l \<noteq> []" and "\<And>c. c \<in> set l \<Longrightarrow> \<not> is_nl c"
    and "tail = [] \<or> is_nl (hd tail)"
  shows "csv_lines (d @ l @ tail) = l # csv_lines (drop 1 tail)"
proof -
  have "dropWhile is_nl (d @ l @ tail) = l @ tail"
    using assms by (cases l) (auto simp add: dropWhile_append2)
  moreover have "takeWhile (\<lambda>c. \<not> is_nl c) (l @ tail) = l"
    using assms(3,4) by (cases tail) (auto simp add: takeWhile_append2 takeWhile_eq_all_conv)
  ultimately show ?thesis using assms(2) by (simp add: csv_lines.simps [of "d @ l @ tail"])
qed

lemma parse_csv_rows_text:
  assumes "0 \<notin> set rest" and "length pre + length rest + 2 < 2 ^ 64" and "\<forall>i. pool i"
    and "rows_closed pre rows" and "ncols \<noteq> 0"
  shows "\<exists>s' rows'. parse_csv_rows pool (length pre + length rest) ncols (pre @ rest @ [0]) (length pre) rows
           = Inr (s', rows @ rows')
         \<and> rows_closed s' (rows @ rows')
         \<and> map (row_strs s') (rows @ rows')
           = map (row_strs pre) rows @ map (csv_fields ncols) (csv_lines rest)"
  using assms
proof (induction "length rest" arbitrary: pre rest rows rule: less_induct)
  case less
  show ?case
  proof (cases "rest = []")
    case True
    then show ?thesis using rows_strs_append [OF less.prems(4)] rows_closed_append [OF less.prems(4)]
      by (auto simp add: parse_csv_rows.simps mem_simps csv_lines.simps)
  next
    case nonempty: False
    define d where "d = takeWhile is_nl rest"
    define r where "r = dropWhile is_nl rest"
    define l where "l = takeWhile (\<lambda>c. \<not> is_nl c) r"
    define tail where "tail = dropWhile (\<lambda>c. \<not> is_nl c) r"
    have rest: "rest = d @ l @ tail" and r: "r = l @ tail"
      by (simp_all add: d_def r_def l_def tail_def)
    have nz: "0 \<notin> set r" "0 \<notin> set l" "0 \<notin> set tail" using less.prems(1) rest r by auto
    have dl: "\<And>c. c \<in> set d \<Longrightarrow> is_nl c" and ll: "\<And>c. c \<in> set l \<Longrightarrow> \<not> is_nl c"
      by (auto simp add: d_def l_def dest: set_takeWhileD)
    have th: "tail = [] \<or> is_nl (hd tail)" using hd_dropWhile [of "\<lambda>c. \<not> is_nl c" r] by (auto simp add: tail_def)
    have hr: "r \<noteq> [] \<Longrightarrow> \<not> is_nl (hd r)" unfolding r_def by (rule hd_dropWhile)
    have le: "l = [] \<longleftrightarrow> r = []"
      using hr by (cases r) (simp_all add: l_def)
    let ?s = "pre @ rest @ [0]" and ?p = "pre @ d" and ?de = "length pre + length rest"
    have s: "?s = ?p @ r @ [0]" using rest r by simp
    have c0: "idx ?s (length pre) = Inr (hd rest)" "hd rest \<noteq> 0"
      using nonempty less.prems(1) by (cases rest; simp add: mem_simps)+
    have m0: "csv_max ?de (length pre) = Suc (length rest)"
      using csv_max_append [of "length pre" "length rest"] less.prems(2) nonempty by simp
    have sk: "csv_skip ?s (length pre) (Suc (length rest)) = Inr (length ?p, Suc (length r))"
      using csv_skip_delims [OF less.prems(1), of pre] by (simp add: d_def r_def)
    have de: "?de = length ?p + length r" using rest r by simp
    have fe: "csv_find_end ?s (length ?p) (Suc (length r)) [0x0d, 0x0a] ?de = Inr (length ?p + length l)"
      using csv_find_end_text [OF nz(1), of ?p "[]"] s de by (simp only: l_def)
    have m1: "csv_max (length ?p + length l) (length ?p) = length l + (if l = [] then 0 else 1)"
      using csv_max_append [of "length ?p" "length l"] less.prems(2) rest by simp
    note unf = parse_csv_rows.simps [of pool ?de ncols ?s "length pre" rows]
    show ?thesis
    proof (cases "r = []")
      case True
      then have e: "idx ?s (length ?p) = Inr 0" "upd_idx ?s (length ?p) 0 = Inr ?s" "?de = length ?p"
        using s de upd_idx_append [of ?p 0 "[]" 0] True by (simp_all add: mem_simps)
      have "parse_csv_rows pool ?de ncols ?s (length pre) rows = Inr (?s, rows @ [])"
        using unf c0 m0 sk fe m1 e True le
        by (simp add: parse_csv_rows.simps [of pool "length ?p" ncols ?s "Suc (length ?p)"] del: length_append csv_find_end.simps)
      moreover have "csv_lines rest = []" using True by (simp add: csv_lines.simps r_def)
      ultimately show ?thesis
        using rows_strs_append [OF less.prems(4)] rows_closed_append [OF less.prems(4)] by auto
    next
      case False
      then have l0: "l \<noteq> []" using le by simp
      define ce where "ce = hd (tail @ [0])"
      define post where "post = tl (tail @ [0])"
      have tp: "tail @ [0] = ce # post" by (cases tail) (auto simp add: ce_def post_def)
      have s2: "?s = (?p @ l) @ ce # post" using s r tp by simp
      have e0: "idx ((?p @ l) @ ce # post) (length (?p @ l)) = Inr ce"
        "upd_idx ((?p @ l) @ ce # post) (length (?p @ l)) 0 = Inr ((?p @ l) @ 0 # post)"
        by (simp_all only: idx_append idx_Cons upd_idx_append)
      have e: "idx ?s (length ?p + length l) = Inr ce"
        "upd_idx ?s (length ?p + length l) 0 = Inr (?p @ l @ 0 # post)"
        using e0 by (simp_all only: s2 length_append append_assoc add.assoc)
      have fe2: "csv_find_end (?p @ l @ 0 # post) (length ?p) (Suc (length l)) [0x0d, 0x0a] (length ?p + length l)
           = Inr (length ?p + length l)"
        by (rule csv_find_end_whole) (use nz ll in auto)
      have lenl: "length ?p + length l + 1 < 2 ^ 64" using less.prems(2) rest by simp
      obtain x' cols m where pl: "parse_csv_line (?p @ l @ 0 # post) (length ?p) (Suc (length l)) ncols
           = Inr (?p @ x' @ 0 # post, cols, m)"
        and lx: "length x' = length l"
        and rs: "row_strs (?p @ x' @ 0 # post) \<lparr>n_columns = m, columns = cols\<rparr> = csv_fields ncols l"
        and rf: "row_filled \<lparr>n_columns = m, columns = cols\<rparr>"
        and cp: "\<forall>p. Some p \<in> set cols \<longrightarrow> length ?p \<le> p \<and> p \<le> length ?p + length l"
        using parse_csv_line_fields [OF nz(2) lenl l0 less.prems(5), of post] by blast
      let ?row = "\<lparr>n_columns = m, columns = cols\<rparr>" and ?p2 = "?p @ x' @ [0]"
      have ne: "length ?p \<noteq> ?de" using de False by simp
      have main: "parse_csv_rows pool ?de ncols ?s (length pre) rows
          = (if ce = 0 then Inr (?p2 @ post, rows @ [?row])
             else parse_csv_rows pool ?de ncols (?p2 @ post) (length ?p2) (rows @ [?row]))"
        using unf c0 m0 sk fe m1 e fe2 pl ne l0 less.prems(3) lx
        by (simp add: Let_def add.assoc del: csv_find_end.simps)
      have cl1: "rows_closed ?p2 [?row]"
        using rows_closed_row [of ?row ?p x'] cp lx rf by simp
      have cl: "rows_closed ?p2 (rows @ [?row])"
        using cl1 rows_closed_append [OF less.prems(4), of "d @ x' @ [0]"] by (simp add: rows_closed_snoc)
      have rs2: "row_strs ?p2 ?row = csv_fields ncols l"
        using rows_strs_append [OF cl1, of post] rs by simp
      have old: "map (row_strs ?p2) rows = map (row_strs pre) rows"
        using rows_strs_append [OF less.prems(4), of "d @ x' @ [0]"] by simp
      have lines: "csv_lines rest = l # csv_lines (drop 1 tail)"
        unfolding rest by (rule csv_lines_unfold) (use dl l0 ll th in auto)
      show ?thesis
      proof (cases tail)
        case Nil
        then have "ce = 0" by (simp add: ce_def)
        then show ?thesis
          using main rows_strs_append [OF cl, of post] rows_closed_append [OF cl, of post] rs2 old lines Nil
          by (intro exI [of _ "?p2 @ post"] exI [of _ "[?row]"]) (simp add: csv_lines.simps)
      next
        case (Cons c r')
        have ce: "ce = c" "post = r' @ [0]" "c \<noteq> 0" using Cons nz(3) by (auto simp add: ce_def post_def)
        have "length r' < length rest" using Cons rest by simp
        moreover have "0 \<notin> set r'" using nz(3) Cons by simp
        moreover have "length ?p2 + length r' + 2 < 2 ^ 64" using less.prems(2) rest Cons lx by simp
        ultimately obtain s' rows' where ih: "parse_csv_rows pool (length ?p2 + length r') ncols
              (?p2 @ r' @ [0]) (length ?p2) (rows @ [?row]) = Inr (s', (rows @ [?row]) @ rows')"
          and rc: "rows_closed s' ((rows @ [?row]) @ rows')"
          and rw: "map (row_strs s') ((rows @ [?row]) @ rows')
              = map (row_strs ?p2) (rows @ [?row]) @ map (csv_fields ncols) (csv_lines r')"
          using less.hyps [of r' ?p2 "rows @ [?row]"] less.prems(3,5) cl by blast
        have "?de = length ?p2 + length r'" using rest Cons lx by simp
        then have "parse_csv_rows pool ?de ncols ?s (length pre) rows = Inr (s', rows @ (?row # rows'))"
          using main ih ce by (simp add: add.assoc)
        moreover have "map (row_strs s') (rows @ (?row # rows'))
            = map (row_strs pre) rows @ map (csv_fields ncols) (csv_lines rest)"
          using rw rs2 old lines Cons by simp
        moreover have "rows_closed s' (rows @ (?row # rows'))" using rc by simp
        ultimately show ?thesis by blast
      qed
    qed
  qed
qed


subsection \<open>The parser on a text\<close>

definition utf8_bom :: bytes where
  "utf8_bom = [0xef, 0xbb, 0xbf]"

text \<open>
  \<open>parse_csv_data\<close> on a NUL-terminated text: the byte order mark is dropped, every
  nonempty line is a row and the strings of a row are the fields of its line.
\<close>

definition strip_bom :: "bytes \<Rightarrow> bytes" where
  "strip_bom t = (if take 3 t = utf8_bom then drop 3 t else t)"

lemma is_utf8_bom_text:
  assumes "0 \<notin> set t" and "t \<noteq> []"
  shows "is_utf8_bom (t @ [0]) 0 (Suc (length t)) = Inr (take 3 t = utf8_bom)"
proof -
  show ?thesis
  proof (cases "2 \<le> length t")
    case True
    then have n: "min 3 (Suc (length t)) = 3" by simp
    obtain x y z where t: "t = x # y # z"
      using True by (cases t; cases "tl t") auto
    show ?thesis using assms(1) unfolding is_utf8_bom_def n t utf8_bom_def
      by (cases z) (auto simp add: Let_def)
  next
    case False
    then obtain x where "t = [x]" using assms(2) by (cases t; cases "tl t") auto
    then show ?thesis using assms(1)
      by (auto simp add: is_utf8_bom_def utf8_bom_def Let_def)
  qed
qed

lemma parse_csv_data_correct:
  assumes "0 \<notin> set t" and "t \<noteq> []" and "length t + 2 < 2 ^ 64" and "\<forall>i. pool i" and "ncols \<noteq> 0"
  shows "\<exists>s rows. parse_csv_data pool (t @ [0]) (length t) ncols = Inr (s, rows)
         \<and> rows_closed s rows
         \<and> map (row_strs s) rows = map (csv_fields ncols) (csv_lines (strip_bom t))"
proof -
  have "csv_max (length t) 0 = Suc (length t)"
    using csv_max_append [of 0 "length t"] assms by simp
  then have b: "is_utf8_bom (t @ [0]) 0 (csv_max (length t) 0) = Inr (take 3 t = utf8_bom)"
    using is_utf8_bom_text [OF assms(1,2)] by simp
  define pre where "pre = (if take 3 t = utf8_bom then take 3 t else [])"
  define rest where "rest = strip_bom t"
  have t: "t = pre @ rest" 

  proof -
    have "pre = take 3 t \<and> rest = drop 3 t \<or> pre = [] \<and> rest = t"
      by (simp add: pre_def rest_def strip_bom_def)
    then show ?thesis by (elim disjE conjE) (simp_all only: append_take_drop_id append_Nil)
  qed
  have lp: "length pre = (if take 3 t = utf8_bom then 3 else 0)"
    using arg_cong [of "take 3 t" utf8_bom length] by (simp add: pre_def utf8_bom_def)
  have r: "\<exists>s' rows'. parse_csv_rows pool (length pre + length rest) ncols (pre @ rest @ [0]) (length pre) []
           = Inr (s', [] @ rows')
         \<and> rows_closed s' ([] @ rows')
         \<and> map (row_strs s') ([] @ rows') = map (row_strs pre) [] @ map (csv_fields ncols) (csv_lines rest)"
    by (rule parse_csv_rows_text) (use assms t in \<open>auto simp add: rows_closed_def\<close>)
  have e: "length pre + length rest = length t" "pre @ rest @ [0] = t @ [0]" using t by simp_all
  have "parse_csv_data pool (t @ [0]) (length t) ncols
      = parse_csv_rows pool (length t) ncols (t @ [0]) (length pre) []"
    using b lp assms(2,5) by (simp add: parse_csv_data_def)
  with r show ?thesis unfolding e by (simp add: rest_def)
qed



end
