(* ===== verification/UefiVars.thy ===== *)
theory UefiVars
  imports ShimPrelude
begin

text \<open>
  lib/variables.c and lib/guid.c: signature lists, the wrappers around the variable
  services, the setup-mode and secure-boot tests. The firmware's runtime services are the
  record \<open>efi_rt\<close> of functions on a firmware state \<open>'w\<close>; what the wrappers rely on is
  the locale \<open>variable_services\<close>.
\<close>

section \<open>GUIDs (lib/guid.c)\<close>

definition SIG_DB :: guid where
  "SIG_DB = mk_guid 0xd719b2cb 0x3d3a 0x4596 [0xa3, 0xbc, 0xda, 0xd0, 0x0e, 0x67, 0x65, 0x6f]"

definition GV_GUID :: guid where
  "GV_GUID = mk_guid 0x8be4df61 0x93ca 0x11d2 [0xaa, 0x0d, 0x00, 0xe0, 0x98, 0x03, 0x2b, 0x8c]"

definition X509_GUID :: guid where
  "X509_GUID = mk_guid 0xa5c059a1 0x94e4 0x4aa7 [0x87, 0xb5, 0xab, 0x15, 0x5c, 0x2b, 0xf0, 0x72]"

definition EFI_CERT_SHA1_GUID :: guid where
  "EFI_CERT_SHA1_GUID = mk_guid 0x826ca512 0xcf10 0x4ac9 [0xb1, 0x87, 0xbe, 0x1, 0x49, 0x66, 0x31, 0xbd]"

definition EFI_CERT_SHA256_GUID :: guid where
  "EFI_CERT_SHA256_GUID = mk_guid 0xc1c41626 0x504c 0x4092 [0xac, 0xa9, 0x41, 0xf9, 0x36, 0x93, 0x43, 0x28]"

definition EFI_CERT_TYPE_PKCS7_GUID :: guid where
  "EFI_CERT_TYPE_PKCS7_GUID = mk_guid 0x4aafd29d 0x68df 0x49ee [0x8a, 0xa9, 0x34, 0x7d, 0x37, 0x56, 0x65, 0xa7]"

definition EFI_CERT_TYPE_X509_GUID :: guid where
  "EFI_CERT_TYPE_X509_GUID = mk_guid 0xa5c059a1 0x94e4 0x4aa7 [0x87, 0xb5, 0xab, 0x15, 0x5c, 0x2b, 0xf0, 0x72]"

definition EFI_SECURE_BOOT_DB_GUID :: guid where
  "EFI_SECURE_BOOT_DB_GUID = mk_guid 0xd719b2cb 0x3d3a 0x4596 [0xa3, 0xbc, 0xda, 0xd0, 0x0e, 0x67, 0x65, 0x6f]"

definition SHIM_LOCK_GUID :: guid where
  "SHIM_LOCK_GUID = mk_guid 0x605dab50 0xe046 0x4300 [0xab, 0xb6, 0x3d, 0xd8, 0x10, 0xdd, 0x8b, 0x23]"

definition MOK_VARIABLE_STORE :: guid where
  "MOK_VARIABLE_STORE = mk_guid 0xc451ed2b 0x9694 0x45d3 [0xba, 0xba, 0xed, 0x9f, 0x89, 0x88, 0xa3, 0x89]"

definition SECUREBOOT_EFI_NAMESPACE_GUID :: guid where
  "SECUREBOOT_EFI_NAMESPACE_GUID = mk_guid 0x77fa9abd 0x0359 0x4d32 [0xbd, 0x60, 0x28, 0xf4, 0xe7, 0x8f, 0x78, 0x4b]"

lemmas guid_defs = SIG_DB_def GV_GUID_def X509_GUID_def EFI_CERT_SHA1_GUID_def EFI_CERT_SHA256_GUID_def
  EFI_CERT_TYPE_PKCS7_GUID_def EFI_CERT_TYPE_X509_GUID_def EFI_SECURE_BOOT_DB_GUID_def
  SHIM_LOCK_GUID_def MOK_VARIABLE_STORE_def SECUREBOOT_EFI_NAMESPACE_GUID_def

lemma length_guids [simp]:
  "length SIG_DB = 16" "length GV_GUID = 16" "length X509_GUID = 16"
  "length EFI_CERT_SHA1_GUID = 16" "length EFI_CERT_SHA256_GUID = 16"
  "length EFI_CERT_TYPE_PKCS7_GUID = 16" "length EFI_CERT_TYPE_X509_GUID = 16"
  "length EFI_SECURE_BOOT_DB_GUID = 16" "length SHIM_LOCK_GUID = 16"
  "length MOK_VARIABLE_STORE = 16" "length SECUREBOOT_EFI_NAMESPACE_GUID = 16"
  by (simp_all add: guid_defs)

section \<open>Variable attributes\<close>

definition EFI_VARIABLE_NON_VOLATILE :: u32 where "EFI_VARIABLE_NON_VOLATILE = 0x01"
definition EFI_VARIABLE_BOOTSERVICE_ACCESS :: u32 where "EFI_VARIABLE_BOOTSERVICE_ACCESS = 0x02"
definition EFI_VARIABLE_RUNTIME_ACCESS :: u32 where "EFI_VARIABLE_RUNTIME_ACCESS = 0x04"
definition EFI_VARIABLE_TIME_BASED_AUTHENTICATED_WRITE_ACCESS :: u32 where
  "EFI_VARIABLE_TIME_BASED_AUTHENTICATED_WRITE_ACCESS = 0x20"
definition EFI_VARIABLE_APPEND_WRITE :: u32 where "EFI_VARIABLE_APPEND_WRITE = 0x40"
definition EFI_VARIABLE_ENHANCED_AUTHENTICATED_ACCESS :: u32 where
  "EFI_VARIABLE_ENHANCED_AUTHENTICATED_ACCESS = 0x80"

definition UEFI_VAR_NV_BS :: u32 where
  "UEFI_VAR_NV_BS = EFI_VARIABLE_NON_VOLATILE OR EFI_VARIABLE_BOOTSERVICE_ACCESS"
definition UEFI_VAR_NV_BS_RT :: u32 where
  "UEFI_VAR_NV_BS_RT = EFI_VARIABLE_NON_VOLATILE OR EFI_VARIABLE_BOOTSERVICE_ACCESS OR EFI_VARIABLE_RUNTIME_ACCESS"
definition UEFI_VAR_NV_BS_TIMEAUTH :: u32 where
  "UEFI_VAR_NV_BS_TIMEAUTH = UEFI_VAR_NV_BS OR EFI_VARIABLE_TIME_BASED_AUTHENTICATED_WRITE_ACCESS"

lemmas var_attr_defs = EFI_VARIABLE_NON_VOLATILE_def EFI_VARIABLE_BOOTSERVICE_ACCESS_def
  EFI_VARIABLE_RUNTIME_ACCESS_def EFI_VARIABLE_TIME_BASED_AUTHENTICATED_WRITE_ACCESS_def
  EFI_VARIABLE_APPEND_WRITE_def EFI_VARIABLE_ENHANCED_AUTHENTICATED_ACCESS_def
  UEFI_VAR_NV_BS_def UEFI_VAR_NV_BS_RT_def UEFI_VAR_NV_BS_TIMEAUTH_def

section \<open>Signature lists\<close>

text \<open>\<open>sizeof(EFI_SIGNATURE_LIST)\<close>, \<open>sizeof(EFI_SIGNATURE_DATA)\<close>, and the header of a list.\<close>

definition sizeof_ESL :: nat where "sizeof_ESL = 28"
definition sizeof_ESD :: nat where "sizeof_ESD = 17"

definition esl_header :: "guid \<Rightarrow> nat \<Rightarrow> nat \<Rightarrow> nat \<Rightarrow> bytes" where
  "esl_header ty list_size header_size sig_size =
     ty @ le_bytes 4 list_size @ le_bytes 4 header_size @ le_bytes 4 sig_size"

lemma length_esl_header [simp]: "length ty = 16 \<Longrightarrow> length (esl_header ty l h s) = 28"
  by (simp add: esl_header_def)

text \<open>
  \<open>fill_esl\<close>: \<open>outbuf\<close> is \<open>None\<close> for a null output pointer. The result is the status, the
  output buffer and \<open>*outlen\<close>. \<open>data_len\<close> is computed in \<open>size_t\<close> before the range check.
\<close>

definition fill_esl ::
  "bytes option \<Rightarrow> nat \<Rightarrow> guid \<Rightarrow> nat \<Rightarrow> bytes option \<Rightarrow> nat \<Rightarrow> (efi_status \<times> bytes option \<times> nat) res"
where
  "fill_esl first_sig howmany ty sig_size outbuf outlen =
     (let data_len = (howmany * sig_size) mod 2 ^ 64
      in if (outbuf \<noteq> None \<and> first_sig = None) \<or> howmany = 0 \<or> sig_size = 0
         then Inr (EFI_INVALID_PARAMETER, outbuf, outlen)
         else if (2 ^ 32 - 1 - sizeof_ESL) div sig_size < howmany
         then Inr (EFI_INVALID_PARAMETER, outbuf, outlen)
         else let needed = sizeof_ESL + data_len
              in (case outbuf of
                    None \<Rightarrow> Inr (EFI_BUFFER_TOO_SMALL, outbuf, needed)
                  | Some ob \<Rightarrow>
                      if outlen < needed then Inr (EFI_BUFFER_TOO_SMALL, outbuf, needed)
                      else if length ob < needed \<or> length (the first_sig) < data_len then Inl Fault
                      else Inr (EFI_SUCCESS,
                                Some (esl_header ty needed 0 sig_size @ take data_len (the first_sig)
                                      @ drop needed ob), needed)))"

text \<open>\<open>pool n\<close> says whether an allocation of \<open>n\<close> bytes succeeds.\<close>

definition fill_esl_with_one_signature ::
  "(nat \<Rightarrow> bool) \<Rightarrow> bytes \<Rightarrow> nat \<Rightarrow> guid \<Rightarrow> guid option \<Rightarrow> bytes option \<Rightarrow> nat
   \<Rightarrow> (efi_status \<times> bytes option \<times> nat) res"
where
  "fill_esl_with_one_signature pool data data_len ty owner outbuf outlen =
     (let sig_size = (sizeof_ESD - 1 + data_len) mod 2 ^ 32
      in if data_len > 2 ^ 32 - 1 - sizeof_ESD + 1 then Inr (EFI_INVALID_PARAMETER, outbuf, outlen)
         else if outbuf \<noteq> None then
           (if \<not> pool sig_size then Inr (EFI_OUT_OF_RESOURCES, outbuf, outlen)
            else if length data < data_len then Inl Fault
            else fill_esl (Some ((case owner of None \<Rightarrow> replicate 16 0 | Some g \<Rightarrow> g) @ take data_len data))
                   1 ty sig_size outbuf outlen)
         else fill_esl None 1 ty sig_size outbuf outlen)"

text \<open>The two-call allocation pattern: the first call asks for the size.\<close>

definition variable_create_esl ::
  "(nat \<Rightarrow> bool) \<Rightarrow> bytes \<Rightarrow> nat \<Rightarrow> guid \<Rightarrow> nat \<Rightarrow> (efi_status \<times> bytes option \<times> nat) res"
where
  "variable_create_esl pool first_sig howmany ty sig_size =
     bindR (fill_esl (Some first_sig) howmany ty sig_size None 0) (\<lambda>(st, _, outlen).
       if st \<noteq> EFI_BUFFER_TOO_SMALL then Inr (st, None, outlen)
       else if \<not> pool outlen then Inr (EFI_OUT_OF_RESOURCES, None, outlen)
       else fill_esl (Some first_sig) howmany ty sig_size (Some (replicate outlen 0)) outlen)"

definition variable_create_esl_with_one_signature ::
  "(nat \<Rightarrow> bool) \<Rightarrow> bytes \<Rightarrow> nat \<Rightarrow> guid \<Rightarrow> guid option \<Rightarrow> (efi_status \<times> bytes option \<times> nat) res"
where
  "variable_create_esl_with_one_signature pool data data_len ty owner =
     bindR (fill_esl_with_one_signature pool data (data_len mod 2 ^ 32) ty owner None 0) (\<lambda>(st, _, outlen).
       if st \<noteq> EFI_BUFFER_TOO_SMALL then Inr (st, None, outlen)
       else if \<not> pool outlen then Inr (EFI_OUT_OF_RESOURCES, None, outlen)
       else fill_esl_with_one_signature pool data (data_len mod 2 ^ 32) ty owner
              (Some (replicate outlen 0)) outlen)"

text \<open>
  \<open>find_in_esl\<close>: the loops of \<open>certlist_for_each_certentry\<close> and
  \<open>certentry_for_each_cert\<close>. Nothing in the code bounds the list size from below, so the
  loops are partial functions: \<open>None\<close> is a run that does not return.
\<close>

partial_function (option) esl_certs_loop ::
  "bytes \<Rightarrow> nat \<Rightarrow> nat \<Rightarrow> nat \<Rightarrow> bytes \<Rightarrow> bool res option"
where
  "esl_certs_loop data c e sz key =
     (if c < e then
        (case get_bytes data (c + 16) (length key) of
           Inl x \<Rightarrow> Some (Inl x)
         | Inr k \<Rightarrow> if k = key then Some (Inr True) else esl_certs_loop data (c + sz) e sz key)
      else Some (Inr False))"

declare esl_certs_loop.simps [code]

partial_function (option) find_in_esl_loop :: "bytes \<Rightarrow> nat \<Rightarrow> nat \<Rightarrow> bytes \<Rightarrow> efi_status res option" where
  "find_in_esl_loop data cl s key =
     (if 0 < s then
        (case get_le data (cl + 16) 4 of
           Inl x \<Rightarrow> Some (Inl x)
         | Inr lsz \<Rightarrow>
             if lsz \<le> s then
               (case get_le data (cl + 24) 4 of
                  Inl x \<Rightarrow> Some (Inl x)
                | Inr ssz \<Rightarrow>
                    if ssz \<noteq> length key + 16 then find_in_esl_loop data (cl + lsz) (s - lsz) key
                    else
                      (case get_le data (cl + 20) 4 of
                         Inl x \<Rightarrow> Some (Inl x)
                       | Inr hsz \<Rightarrow>
                           (case esl_certs_loop data (cl + sizeof_ESL + hsz) (cl + lsz) ssz key of
                              None \<Rightarrow> None
                            | Some (Inl x) \<Rightarrow> Some (Inl x)
                            | Some (Inr found) \<Rightarrow>
                                if found then Some (Inr EFI_SUCCESS)
                                else find_in_esl_loop data (cl + lsz) (s - lsz) key)))
             else Some (Inr EFI_NOT_FOUND))
      else Some (Inr EFI_NOT_FOUND))"

declare find_in_esl_loop.simps [code]

definition find_in_esl :: "bytes \<Rightarrow> nat \<Rightarrow> bytes \<Rightarrow> efi_status res option" where
  "find_in_esl data datasize key = find_in_esl_loop data 0 datasize key"

text \<open>Signature lists as data, and the bytes of a well-formed list.\<close>

record esl =
  esl_type :: guid
  esl_hdr :: bytes
  esl_size :: nat
  esl_sigs :: "(guid \<times> bytes) list"

definition sig_bytes :: "guid \<times> bytes \<Rightarrow> bytes" where
  "sig_bytes x = fst x @ snd x"

definition esl_len :: "esl \<Rightarrow> nat" where
  "esl_len l = sizeof_ESL + length (esl_hdr l) + esl_size l * length (esl_sigs l)"

definition esl_bytes :: "esl \<Rightarrow> bytes" where
  "esl_bytes l = esl_header (esl_type l) (esl_len l) (length (esl_hdr l)) (esl_size l)
     @ esl_hdr l @ concat (map sig_bytes (esl_sigs l))"

definition esl_wf :: "esl \<Rightarrow> bool" where
  "esl_wf l \<longleftrightarrow> length (esl_type l) = 16 \<and> esl_len l < 2 ^ 32 \<and> esl_size l < 2 ^ 32
     \<and> (\<forall>x\<in>set (esl_sigs l). length (fst x) = 16 \<and> length (snd x) + 16 = esl_size l)"

definition esl_has :: "bytes \<Rightarrow> esl \<Rightarrow> bool" where
  "esl_has key l \<longleftrightarrow> esl_size l = length key + 16 \<and> key \<in> snd ` set (esl_sigs l)"

lemma length_sigs:
  "(\<forall>x\<in>set sigs. length (fst x) = 16 \<and> length (snd x) + 16 = sz) \<Longrightarrow>
   length (concat (map sig_bytes sigs)) = sz * length sigs"
  by (induction sigs) (auto simp add: sig_bytes_def)

lemma length_esl_bytes: "esl_wf l \<Longrightarrow> length (esl_bytes l) = esl_len l"
  using length_sigs [of "esl_sigs l" "esl_size l"]
  by (simp add: esl_wf_def esl_bytes_def esl_len_def sizeof_ESL_def)

lemma esl_certs_loop_sigs:
  assumes "\<forall>x\<in>set sigs. length (fst x) = 16 \<and> length (snd x) = length key"
  shows "esl_certs_loop (pre @ concat (map sig_bytes sigs) @ post) (length pre)
           (length pre + (length key + 16) * length sigs) (length key + 16) key
       = Some (Inr (key \<in> snd ` set sigs))"
  using assms
proof (induction sigs arbitrary: pre)
  case Nil
  then show ?case by (simp add: esl_certs_loop.simps)
next
  case (Cons x sigs)
  have l: "length (fst x) = 16" "length (snd x) = length key" using Cons.prems by auto
  have lx: "length (sig_bytes x) = length key + 16" using l by (simp add: sig_bytes_def)
  let ?d = "pre @ concat (map sig_bytes (x # sigs)) @ post"
  have g: "get_bytes ?d (length pre + 16) (length key) = Inr (snd x)"
    using get_bytes_at [of "pre @ fst x" "length pre + 16" "snd x" "length key"] l
    by (simp add: sig_bytes_def)
  have ih: "esl_certs_loop ?d (length pre + (length key + 16))
      (length pre + (length key + 16) * length (x # sigs)) (length key + 16) key
      = Some (Inr (key \<in> snd ` set sigs))"
    using Cons.IH [of "pre @ sig_bytes x"] Cons.prems lx
    by (simp add: algebra_simps)
  show ?case
    by (subst esl_certs_loop.simps) (use g ih in auto)
qed

lemma esl_fields:
  assumes "esl_wf l"
  shows "get_le (pre @ esl_bytes l @ post) (length pre + 16) 4 = Inr (esl_len l)"
    and "get_le (pre @ esl_bytes l @ post) (length pre + 20) 4 = Inr (length (esl_hdr l))"
    and "get_le (pre @ esl_bytes l @ post) (length pre + 24) 4 = Inr (esl_size l)"
proof -
  have w: "length (esl_type l) = 16" "esl_len l < 256 ^ 4" "esl_size l < 256 ^ 4"
    "length (esl_hdr l) < 256 ^ 4"
    using assms by (auto simp add: esl_wf_def esl_len_def)
  let ?t = "esl_hdr l @ concat (map sig_bytes (esl_sigs l)) @ post"
  show "get_le (pre @ esl_bytes l @ post) (length pre + 16) 4 = Inr (esl_len l)"
    using get_le_at [of "pre @ esl_type l" "length pre + 16" "esl_len l" 4] w
    by (simp add: esl_bytes_def esl_header_def)
  show "get_le (pre @ esl_bytes l @ post) (length pre + 20) 4 = Inr (length (esl_hdr l))"
    using get_le_at [of "pre @ esl_type l @ le_bytes 4 (esl_len l)" "length pre + 20" "length (esl_hdr l)" 4] w
    by (simp add: esl_bytes_def esl_header_def)
  show "get_le (pre @ esl_bytes l @ post) (length pre + 24) 4 = Inr (esl_size l)"
    using get_le_at [of "pre @ esl_type l @ le_bytes 4 (esl_len l) @ le_bytes 4 (length (esl_hdr l))"
        "length pre + 24" "esl_size l" 4] w
    by (simp add: esl_bytes_def esl_header_def)
qed

lemma find_in_esl_lists:
  assumes "\<forall>l\<in>set ls. esl_wf l"
  shows "find_in_esl_loop (pre @ concat (map esl_bytes ls) @ post) (length pre)
           (length (concat (map esl_bytes ls))) key
       = Some (Inr (if \<exists>l\<in>set ls. esl_has key l then EFI_SUCCESS else EFI_NOT_FOUND))"
  using assms
proof (induction ls arbitrary: pre)
  case Nil
  then show ?case by (simp add: find_in_esl_loop.simps)
next
  case (Cons l ls)
  have wf: "esl_wf l" using Cons.prems by simp
  let ?rest = "concat (map esl_bytes ls) @ post"
  let ?d = "pre @ esl_bytes l @ ?rest" and ?n = "length (concat (map esl_bytes (l # ls)))"
  have n: "?n = esl_len l + length (concat (map esl_bytes ls))"
    using length_esl_bytes [OF wf] by simp
  have pos: "0 < esl_len l" by (simp add: esl_len_def sizeof_ESL_def)
  have ih: "find_in_esl_loop ?d (length pre + esl_len l) (?n - esl_len l) key
      = Some (Inr (if \<exists>l\<in>set ls. esl_has key l then EFI_SUCCESS else EFI_NOT_FOUND))"
    using Cons.IH [of "pre @ esl_bytes l"] Cons.prems length_esl_bytes [OF wf] by simp
  note f = esl_fields [OF wf, of pre ?rest]
  have step: "find_in_esl_loop ?d (length pre) ?n key
      = Some (Inr (if \<exists>l\<in>set (l # ls). esl_has key l then EFI_SUCCESS else EFI_NOT_FOUND))"
  proof (cases "esl_size l = length key + 16")
    case False
    then show ?thesis
      by (subst find_in_esl_loop.simps) (use f ih n pos in \<open>simp add: esl_has_def\<close>)
  next
    case True
    let ?pre = "pre @ esl_header (esl_type l) (esl_len l) (length (esl_hdr l)) (esl_size l) @ esl_hdr l"
    have lp: "length ?pre = length pre + sizeof_ESL + length (esl_hdr l)"
      using wf by (simp add: esl_wf_def sizeof_ESL_def)
    have le: "length ?pre + (length key + 16) * length (esl_sigs l) = length pre + esl_len l"
      using lp True by (simp add: esl_len_def)
    have "\<forall>x\<in>set (esl_sigs l). length (fst x) = 16 \<and> length (snd x) = length key"
      using wf True by (auto simp add: esl_wf_def)
    from esl_certs_loop_sigs [OF this, of ?pre ?rest]
    have c: "esl_certs_loop ?d (length pre + sizeof_ESL + length (esl_hdr l)) (length pre + esl_len l)
        (length key + 16) key = Some (Inr (key \<in> snd ` set (esl_sigs l)))"
      unfolding le unfolding lp by (simp add: esl_bytes_def True)
    show ?thesis
      by (subst find_in_esl_loop.simps) (use f ih n pos c True in \<open>auto simp add: esl_has_def\<close>)
  qed
  then show ?case by simp
qed

lemma find_in_esl_wf:
  assumes "\<forall>l\<in>set ls. esl_wf l"
  shows "find_in_esl (concat (map esl_bytes ls) @ pad) (length (concat (map esl_bytes ls))) key
       = Some (Inr (if \<exists>l\<in>set ls. esl_has key l then EFI_SUCCESS else EFI_NOT_FOUND))"
  using find_in_esl_lists [OF assms, of "[]" pad key] by (simp add: find_in_esl_def)

text \<open>A list that says it is 0 bytes long is never left.\<close>

lemma find_in_esl_loop_zero:
  assumes "0 < s" and "get_le data (cl + 16) 4 = Inr 0" and "get_le data (cl + 24) 4 = Inr z"
    and "z \<noteq> length key + 16"
  shows "find_in_esl_loop data cl s key = None"
proof (rule ccontr)
  assume "find_in_esl_loop data cl s key \<noteq> None"
  then obtain r where "find_in_esl_loop data cl s key = Some r" by auto
  then have "\<not> (0 < s \<and> get_le data (cl + 16) 4 = Inr 0 \<and>
      (\<exists>z. get_le data (cl + 24) 4 = Inr z \<and> z \<noteq> length key + 16))"
    by (rule find_in_esl_loop.raw_induct [rotated]) (fastforce split: if_splits)
  then show False using assms by blast
qed


section \<open>The runtime services\<close>

text \<open>
  What \<open>GetVariable\<close> returns: its status, the attributes if it wrote them, the size it
  reports, and the bytes it put into the buffer.
\<close>

record gv_out =
  gv_status :: efi_status
  gv_attr :: "u32 option"
  gv_size :: nat
  gv_data :: bytes

text \<open>
  The services the program calls. \<open>GetVariable w name guid has_buffer size\<close> is given a
  buffer of \<open>size\<close> bytes, or a null pointer when \<open>has_buffer\<close> is false.
\<close>

record 'w efi_rt =
  GetVariable :: "'w \<Rightarrow> string \<Rightarrow> guid \<Rightarrow> bool \<Rightarrow> nat \<Rightarrow> gv_out"
  SetVariable :: "'w \<Rightarrow> string \<Rightarrow> guid \<Rightarrow> u32 \<Rightarrow> bytes \<Rightarrow> efi_status \<times> 'w"
  QueryVariableInfo :: "'w \<Rightarrow> u32 \<Rightarrow> efi_status \<times> nat \<times> nat \<times> nat"
  GetTime :: "'w \<Rightarrow> efi_status \<times> bytes"

definition append_write :: "u32 \<Rightarrow> bool" where
  "append_write a \<longleftrightarrow> a AND EFI_VARIABLE_APPEND_WRITE \<noteq> 0"

section \<open>Reading and writing variables\<close>

text \<open>
  \<open>get_variable_attr\<close>: the status, the data with its three zero pad bytes, the length and
  the attributes. \<open>want\<close> is false for a null \<open>data\<close> pointer.
\<close>

definition get_variable_attr ::
  "'w efi_rt \<Rightarrow> (nat \<Rightarrow> bool) \<Rightarrow> 'w \<Rightarrow> bool \<Rightarrow> string \<Rightarrow> guid
   \<Rightarrow> efi_status \<times> bytes option \<times> nat \<times> u32 option"
where
  "get_variable_attr rt pool w want var owner =
     (let r = GetVariable rt w var owner False 0
      in if gv_status r \<noteq> EFI_BUFFER_TOO_SMALL then
           (if \<not> EFI_ERROR (gv_status r) then EFI_PROTOCOL_ERROR else gv_status r, None, gv_size r, None)
         else if \<not> want then (EFI_INVALID_PARAMETER, None, gv_size r, None)
         else if \<not> pool (gv_size r + 3) then (EFI_OUT_OF_RESOURCES, None, gv_size r, None)
         else let q = GetVariable rt w var owner True (gv_size r)
              in if EFI_ERROR (gv_status q) then (gv_status q, None, gv_size q, gv_attr q)
                 else (gv_status q,
                       Some (gv_data q @ replicate (gv_size r + 3 - length (gv_data q)) 0),
                       gv_size q, gv_attr q))"

definition get_variable ::
  "'w efi_rt \<Rightarrow> (nat \<Rightarrow> bool) \<Rightarrow> 'w \<Rightarrow> string \<Rightarrow> guid \<Rightarrow> efi_status \<times> bytes option \<times> nat"
where
  "get_variable rt pool w var owner =
     (case get_variable_attr rt pool w True var owner of (st, d, n, a) \<Rightarrow> (st, d, n))"

definition get_variable_size ::
  "'w efi_rt \<Rightarrow> (nat \<Rightarrow> bool) \<Rightarrow> 'w \<Rightarrow> string \<Rightarrow> guid \<Rightarrow> efi_status \<times> nat option"
where
  "get_variable_size rt pool w var owner =
     (case get_variable_attr rt pool w False var owner of (st, d, n, a) \<Rightarrow>
        if EFI_ERROR st then
          (if st = EFI_BUFFER_TOO_SMALL then (EFI_SUCCESS, Some n)
           else if st = EFI_NOT_FOUND then (EFI_SUCCESS, Some 0)
           else (st, None))
        else (st, Some n))"

definition set_variable ::
  "'w efi_rt \<Rightarrow> 'w \<Rightarrow> string \<Rightarrow> guid \<Rightarrow> u32 \<Rightarrow> bytes \<Rightarrow> efi_status \<times> 'w"
where
  "set_variable rt w var owner attributes data = SetVariable rt w var owner attributes data"

definition del_variable :: "'w efi_rt \<Rightarrow> 'w \<Rightarrow> string \<Rightarrow> guid \<Rightarrow> efi_status \<times> 'w" where
  "del_variable rt w var owner = set_variable rt w var owner 0 []"

definition find_in_variable_esl ::
  "'w efi_rt \<Rightarrow> (nat \<Rightarrow> bool) \<Rightarrow> 'w \<Rightarrow> string \<Rightarrow> guid \<Rightarrow> bytes \<Rightarrow> efi_status res option"
where
  "find_in_variable_esl rt pool w var owner key =
     (case get_variable rt pool w var owner of (st, d, n) \<Rightarrow>
        if EFI_ERROR st then Some (Inr st)
        else (case d of None \<Rightarrow> Some (Inl Fault) | Some data \<Rightarrow> find_in_esl data n key))"

text \<open>A one-byte variable, with the value when it cannot be read.\<close>

definition variable_byte :: "'w efi_rt \<Rightarrow> 'w \<Rightarrow> string \<Rightarrow> nat \<Rightarrow> nat" where
  "variable_byte rt w var dflt =
     (let r = GetVariable rt w var GV_GUID True 1
      in if EFI_ERROR (gv_status r) then dflt
         else (case gv_data r of [] \<Rightarrow> dflt | b # _ \<Rightarrow> unat b))"

definition variable_is_setupmode :: "'w efi_rt \<Rightarrow> 'w \<Rightarrow> nat \<Rightarrow> nat" where
  "variable_is_setupmode rt w default_return = variable_byte rt w ''SetupMode'' default_return"

definition variable_is_secureboot :: "'w efi_rt \<Rightarrow> 'w \<Rightarrow> nat" where
  "variable_is_secureboot rt w = variable_byte rt w ''SecureBoot'' 0"

definition GetOSIndications :: "'w efi_rt \<Rightarrow> 'w \<Rightarrow> nat option" where
  "GetOSIndications rt w =
     (let r = GetVariable rt w ''OsIndicationsSupported'' GV_GUID True 8
      in if EFI_ERROR (gv_status r) then Some 0
         else if length (gv_data r) < 8 then None
         else Some (le_nat (take 8 (gv_data r))))"

text \<open>The second component says that the machine was reset, which does not return.\<close>

definition SETOSIndicationsAndReboot :: "'w efi_rt \<Rightarrow> 'w \<Rightarrow> nat \<Rightarrow> efi_status \<times> bool \<times> 'w" where
  "SETOSIndicationsAndReboot rt w indications =
     (case SetVariable rt w ''OsIndications'' GV_GUID
             (EFI_VARIABLE_NON_VOLATILE OR EFI_VARIABLE_RUNTIME_ACCESS OR EFI_VARIABLE_BOOTSERVICE_ACCESS)
             (le_bytes 8 indications) of
        (st, w') \<Rightarrow> if EFI_ERROR st then (st, False, w') else (EFI_SUCCESS, True, w'))"

section \<open>Authenticated variables\<close>

text \<open>
  \<open>CreateTimeBasedPayload\<close>: a 40-byte \<open>EFI_VARIABLE_AUTHENTICATION_2\<close> without certificate
  data in front of the payload. Of the 16 bytes of \<open>EFI_TIME\<close> the code clears the padding,
  the nanoseconds, the time zone and the daylight flag, which are bytes 7 to 15.
\<close>

definition auth2_size :: nat where "auth2_size = 40"

definition CreateTimeBasedPayload ::
  "'w efi_rt \<Rightarrow> (nat \<Rightarrow> bool) \<Rightarrow> 'w \<Rightarrow> bytes \<Rightarrow> efi_status + bytes"
where
  "CreateTimeBasedPayload rt pool w payload =
     (if \<not> pool (auth2_size + length payload) then Inl EFI_OUT_OF_RESOURCES
      else (case GetTime rt w of (st, time) \<Rightarrow>
        if EFI_ERROR st then Inl st
        else Inr (take 7 time @ replicate 9 0
                  @ le_bytes 4 24 @ le_bytes 2 0x0200 @ le_bytes 2 0x0EF1
                  @ EFI_CERT_TYPE_PKCS7_GUID @ payload)))"

definition SetSecureVariable ::
  "'w efi_rt \<Rightarrow> (nat \<Rightarrow> bool) \<Rightarrow> 'w \<Rightarrow> string \<Rightarrow> bytes \<Rightarrow> guid \<Rightarrow> u32 \<Rightarrow> bool \<Rightarrow> (efi_status \<times> 'w) res"
where
  "SetSecureVariable rt pool w var data owner options createtimebased =
     (if variable_is_setupmode rt w 1 = 0 then Inr (EFI_SECURITY_VIOLATION, w)
      else bindR (if createtimebased
                  then variable_create_esl_with_one_signature pool data (length data) X509_GUID None
                  else Inr (EFI_SUCCESS, Some data, length data))
        (\<lambda>(st, cert, _).
           if EFI_ERROR st then Inr (st, w)
           else (case cert of None \<Rightarrow> Inl Fault | Some c \<Rightarrow>
             (case CreateTimeBasedPayload rt pool w c of
                Inl st \<Rightarrow> Inr (st, w)
              | Inr payload \<Rightarrow>
                  Inr (SetVariable rt w var owner
                    (EFI_VARIABLE_NON_VOLATILE OR EFI_VARIABLE_RUNTIME_ACCESS
                     OR EFI_VARIABLE_BOOTSERVICE_ACCESS
                     OR EFI_VARIABLE_TIME_BASED_AUTHENTICATED_WRITE_ACCESS OR options) payload)))))"

text \<open>The 76-byte list with one SHA-256 hash that \<open>variable_enroll_hash\<close> builds.\<close>

definition hash_esl :: "bytes \<Rightarrow> bytes" where
  "hash_esl hash = esl_header EFI_CERT_SHA256_GUID 76 0 48 @ SHIM_LOCK_GUID @ hash"

definition variable_enroll_hash ::
  "'w efi_rt \<Rightarrow> (nat \<Rightarrow> bool) \<Rightarrow> 'w \<Rightarrow> string \<Rightarrow> guid \<Rightarrow> bytes \<Rightarrow> (efi_status \<times> 'w) res option"
where
  "variable_enroll_hash rt pool w var owner hash =
     (case find_in_variable_esl rt pool w var owner hash of
        None \<Rightarrow> None
      | Some (Inl e) \<Rightarrow> Some (Inl e)
      | Some (Inr st) \<Rightarrow>
          if \<not> EFI_ERROR st then Some (Inr (EFI_ALREADY_STARTED, w))
          else if owner = SIG_DB then
            Some (SetSecureVariable rt pool w var (hash_esl hash) owner EFI_VARIABLE_APPEND_WRITE False)
          else Some (Inr (SetVariable rt w var owner
                 (EFI_VARIABLE_NON_VOLATILE OR EFI_VARIABLE_BOOTSERVICE_ACCESS OR EFI_VARIABLE_APPEND_WRITE)
                 (hash_esl hash))))"


section \<open>The contract of the variable services\<close>

text \<open>Attributes without any of the authentication flags.\<close>

definition plain_attrs :: "u32 \<Rightarrow> bool" where
  "plain_attrs a \<longleftrightarrow> a AND 0xb0 = 0"

definition var_data :: "(u32 \<times> bytes) option \<Rightarrow> bytes" where
  "var_data v = (case v of None \<Rightarrow> [] | Some (a, d) \<Rightarrow> d)"

text \<open>
  \<open>vars w\<close> is the content of the variable store in state \<open>w\<close> and \<open>good\<close> the invariant
  the services keep. A variable is never empty.
\<close>

locale variable_services =
  fixes rt :: "'w efi_rt"
    and vars :: "'w \<Rightarrow> string \<times> guid \<Rightarrow> (u32 \<times> bytes) option"
    and good :: "'w \<Rightarrow> bool"
  assumes get_missing: "good w \<Longrightarrow> vars w (n, g) = None \<Longrightarrow>
      gv_status (GetVariable rt w n g hb sz) = EFI_NOT_FOUND"
    and get_small: "good w \<Longrightarrow> vars w (n, g) = Some (a, d) \<Longrightarrow> sz < length d \<Longrightarrow>
      gv_status (GetVariable rt w n g hb sz) = EFI_BUFFER_TOO_SMALL
      \<and> gv_size (GetVariable rt w n g hb sz) = length d"
    and get_fits: "good w \<Longrightarrow> vars w (n, g) = Some (a, d) \<Longrightarrow> length d \<le> sz \<Longrightarrow>
      GetVariable rt w n g True sz
      = \<lparr>gv_status = EFI_SUCCESS, gv_attr = Some a, gv_size = length d, gv_data = d\<rparr>"
    and nonempty: "good w \<Longrightarrow> vars w k = Some (a, d) \<Longrightarrow> d \<noteq> []"
    and set_good: "good w \<Longrightarrow> SetVariable rt w n g a d = (st, w') \<Longrightarrow> good w'"
    and set_frame: "good w \<Longrightarrow> SetVariable rt w n g a d = (st, w') \<Longrightarrow> k \<noteq> (n, g) \<Longrightarrow> vars w' k = vars w k"
    and set_error: "good w \<Longrightarrow> SetVariable rt w n g a d = (st, w') \<Longrightarrow> EFI_ERROR st \<Longrightarrow> vars w' = vars w"
    and set_write: "good w \<Longrightarrow> SetVariable rt w n g a d = (st, w') \<Longrightarrow> \<not> EFI_ERROR st \<Longrightarrow>
      plain_attrs a \<Longrightarrow> \<not> append_write a \<Longrightarrow> d \<noteq> [] \<Longrightarrow>
      \<exists>a'. vars w' (n, g) = Some (a', d) \<and> a' AND NOT EFI_VARIABLE_APPEND_WRITE = a AND NOT EFI_VARIABLE_APPEND_WRITE"
    and set_delete: "good w \<Longrightarrow> SetVariable rt w n g a [] = (st, w') \<Longrightarrow> \<not> EFI_ERROR st \<Longrightarrow>
      plain_attrs a \<Longrightarrow> \<not> append_write a \<Longrightarrow> vars w' (n, g) = None"
    and set_append: "good w \<Longrightarrow> SetVariable rt w n g a d = (st, w') \<Longrightarrow> \<not> EFI_ERROR st \<Longrightarrow>
      plain_attrs a \<Longrightarrow> append_write a \<Longrightarrow> d \<noteq> [] \<Longrightarrow>
      \<exists>a'. vars w' (n, g) = Some (a', var_data (vars w (n, g)) @ d)"
begin

lemma get_attr_missing:
  "good w \<Longrightarrow> vars w (n, g) = None \<Longrightarrow> \<exists>sz. get_variable_attr rt pool w want n g = (EFI_NOT_FOUND, None, sz, None)"
  by (simp add: get_variable_attr_def get_missing Let_def)

lemma get_attr_present:
  assumes "good w" and "vars w (n, g) = Some (a, d)" and "pool (length d + 3)"
  shows "get_variable_attr rt pool w True n g = (EFI_SUCCESS, Some (d @ [0, 0, 0]), length d, Some a)"
proof -
  have "0 < length d" using nonempty [OF assms(1,2)] by simp
  from get_small [OF assms(1,2) this] get_fits [OF assms(1,2)] assms(3)
  show ?thesis by (simp add: get_variable_attr_def Let_def numeral_3_eq_3)
qed

lemma get_present:
  "good w \<Longrightarrow> vars w (n, g) = Some (a, d) \<Longrightarrow> pool (length d + 3) \<Longrightarrow>
   get_variable rt pool w n g = (EFI_SUCCESS, Some (d @ [0, 0, 0]), length d)"
  by (simp add: get_variable_def get_attr_present)

lemma get_missing':
  "good w \<Longrightarrow> vars w (n, g) = None \<Longrightarrow> \<exists>sz. get_variable rt pool w n g = (EFI_NOT_FOUND, None, sz)"
  using get_attr_missing [of w n g pool True] by (auto simp add: get_variable_def)

text \<open>\<open>get_variable_size\<close> fails exactly on the variables that exist.\<close>

lemma size_of_present:
  assumes "good w" and "vars w (n, g) = Some (a, d)"
  shows "get_variable_size rt pool w n g = (EFI_INVALID_PARAMETER, None)"
proof -
  have "0 < length d" using nonempty [OF assms] by simp
  from get_small [OF assms this] show ?thesis
    by (simp add: get_variable_size_def get_variable_attr_def Let_def)
qed

lemma find_in_variable:
  assumes "good w" and "\<forall>l\<in>set ls. esl_wf l" and "\<forall>n. pool n"
    and "var_data (vars w (n, g)) = concat (map esl_bytes ls)"
  shows "find_in_variable_esl rt pool w n g key
       = Some (Inr (if \<exists>l\<in>set ls. esl_has key l then EFI_SUCCESS else EFI_NOT_FOUND))"
proof (cases "vars w (n, g)")
  case None
  then have "concat (map esl_bytes ls) = []" using assms(4) by (simp add: var_data_def)
  then have "ls = []" using assms(2) length_esl_bytes
    by (cases ls) (auto simp add: esl_bytes_def esl_header_def esl_wf_def)
  then show ?thesis using get_missing' [OF assms(1) None, of pool]
    by (auto simp add: find_in_variable_esl_def)
next
  case (Some v)
  then obtain a d where v: "vars w (n, g) = Some (a, d)" by (cases v) auto
  then have "d = concat (map esl_bytes ls)" using assms(4) by (simp add: var_data_def)
  then show ?thesis using get_present [OF assms(1) v, of pool] assms(3) find_in_esl_wf [OF assms(2)]
    by (simp add: find_in_variable_esl_def del: append_Cons)
qed

text \<open>Enrolling a hash into a list variable: afterwards the hash is found.\<close>

lemma enroll_hash:
  assumes "good w" and "\<forall>l\<in>set ls. esl_wf l" and "\<forall>n. pool n"
    and "var_data (vars w (n, g)) = concat (map esl_bytes ls)"
    and "length hash = 32" and "g \<noteq> SIG_DB"
  shows "\<exists>st w'. variable_enroll_hash rt pool w n g hash = Some (Inr (st, w'))
      \<and> good w' \<and> (\<forall>k. k \<noteq> (n, g) \<longrightarrow> vars w' k = vars w k)
      \<and> (EFI_ERROR st \<longrightarrow> vars w' = vars w)
      \<and> ((\<exists>l\<in>set ls. esl_has hash l) \<longrightarrow> st = EFI_ALREADY_STARTED)
      \<and> (\<not> EFI_ERROR st \<longrightarrow>
           find_in_variable_esl rt pool w' n g hash = Some (Inr EFI_SUCCESS))"
proof (cases "\<exists>l\<in>set ls. esl_has hash l")
  case True
  then show ?thesis using find_in_variable [OF assms(1-4), of hash] assms(1)
    by (simp add: variable_enroll_hash_def)
next
  case False
  let ?a = "EFI_VARIABLE_NON_VOLATILE OR EFI_VARIABLE_BOOTSERVICE_ACCESS OR EFI_VARIABLE_APPEND_WRITE"
  let ?l = "\<lparr>esl_type = EFI_CERT_SHA256_GUID, esl_hdr = [], esl_size = 48, esl_sigs = [(SHIM_LOCK_GUID, hash)]\<rparr>"
  obtain st w' where set: "SetVariable rt w n g ?a (hash_esl hash) = (st, w')" by fastforce
  have r: "variable_enroll_hash rt pool w n g hash = Some (Inr (st, w'))"
    using find_in_variable [OF assms(1-4), of hash] False assms(6) set
    by (simp add: variable_enroll_hash_def)
  have l: "esl_bytes ?l = hash_esl hash" "esl_wf ?l" "esl_has hash ?l"
    using assms(5) by (simp_all add: esl_bytes_def hash_esl_def esl_len_def sizeof_ESL_def sig_bytes_def
        esl_wf_def esl_has_def)
  have a: "plain_attrs ?a" "append_write ?a"
    by (simp_all add: plain_attrs_def append_write_def var_attr_defs)
  have "length (hash_esl hash) \<noteq> 0" using assms(5) by (simp add: hash_esl_def)
  then have ne: "hash_esl hash \<noteq> []" by auto
  have found: "find_in_variable_esl rt pool w' n g hash = Some (Inr EFI_SUCCESS)" if ok: "\<not> EFI_ERROR st"
  proof -
    obtain a' where "vars w' (n, g) = Some (a', concat (map esl_bytes ls) @ hash_esl hash)"
      using set_append [OF assms(1) set ok a ne] assms(4) by auto
    then have "var_data (vars w' (n, g)) = concat (map esl_bytes (ls @ [?l]))"
      using l by (simp add: var_data_def)
    then show ?thesis
      using find_in_variable [of w' "ls @ [?l]" pool n g hash] set_good [OF assms(1) set] assms(2,3) l by auto
  qed
  show ?thesis
    using r found False set_good [OF assms(1) set] set_frame [OF assms(1) set] set_error [OF assms(1) set] by auto
qed

text \<open>What is written is what is read back; what is deleted is gone.\<close>

lemma set_get:
  assumes "good w" and "set_variable rt w n g a d = (st, w')" and "\<not> EFI_ERROR st"
    and "plain_attrs a" and "\<not> append_write a" and "d \<noteq> []" and "pool (length d + 3)"
  shows "get_variable rt pool w' n g = (EFI_SUCCESS, Some (d @ [0, 0, 0]), length d)"
proof -
  have s: "SetVariable rt w n g a d = (st, w')" using assms(2) by (simp add: set_variable_def)
  obtain a' where "vars w' (n, g) = Some (a', d)" using set_write [OF assms(1) s assms(3-6)] by auto
  with set_good [OF assms(1) s] assms(7) show ?thesis by (simp add: get_present)
qed

lemma del_get:
  assumes "good w" and "del_variable rt w n g = (st, w')" and "\<not> EFI_ERROR st"
  shows "\<exists>sz. get_variable rt pool w' n g = (EFI_NOT_FOUND, None, sz)"
proof -
  have s: "SetVariable rt w n g 0 [] = (st, w')" using assms(2) by (simp add: del_variable_def set_variable_def)
  have "vars w' (n, g) = None"
    using set_delete [OF assms(1) s assms(3)] by (simp add: plain_attrs_def append_write_def)
  with set_good [OF assms(1) s] show ?thesis by (rule get_missing')
qed

end

end
