(* ===== verification/Sbat.thy ===== *)
theory Sbat
  imports Csv UefiVars
begin

text \<open>
  sbat.c (with \<open>verify_sbat_section\<close> of pe.c): the entries of an image's .sbat section and
  of the SbatLevel variable, the revocation check, and the update of the revocation
  variables at boot.
\<close>

section \<open>Entries\<close>

text \<open>The strings of an entry, without their NUL.\<close>

record sbat_section_entry =
  component_name :: bytes
  component_generation :: bytes
  vendor_name :: bytes
  vendor_package_name :: bytes
  vendor_version :: bytes
  vendor_url :: bytes

record sbat_var_entry =
  var_component_name :: bytes
  var_component_generation :: bytes
  var_sbat_datestamp :: "bytes option"

definition SBAT_SECTION_COLUMNS :: nat where "SBAT_SECTION_COLUMNS = 6"
definition SBAT_VAR_COLUMNS :: nat where "SBAT_VAR_COLUMNS = 3"
definition SBAT_VAR_REQUIRED_COLUMNS :: nat where "SBAT_VAR_REQUIRED_COLUMNS = 2"

section \<open>parse_sbat_section\<close>

text \<open>
  The first pass: every row has enough columns and none of its strings is empty. The
  result is the number of bytes the strings and the entries need.
\<close>

fun check_columns :: "bytes \<Rightarrow> nat option list \<Rightarrow> nat res" where
  "check_columns s [] = Inr 0"
| "check_columns s (c # cs) =
     (case c of
        None \<Rightarrow> Inl Fault
      | Some p \<Rightarrow>
          bindR (idx s p) (\<lambda>b.
            if b = 0 then Inl (Status EFI_INVALID_PARAMETER)
            else bindR (strlen (drop p s)) (\<lambda>l. bindR (check_columns s cs) (\<lambda>k. Inr (l + 1 + k)))))"

fun check_rows :: "bytes \<Rightarrow> nat \<Rightarrow> nat \<Rightarrow> csv_row list \<Rightarrow> nat res" where
  "check_rows s req entrysz [] = Inr 0"
| "check_rows s req entrysz (r # rs) =
     bindR (guardR (req \<le> n_columns r) EFI_INVALID_PARAMETER) (\<lambda>_.
     bindR (check_columns s (take (n_columns r) (columns r))) (\<lambda>k.
     bindR (check_rows s req entrysz rs) (\<lambda>m. Inr (entrysz + k + m))))"

text \<open>The second pass copies the strings.\<close>

definition copy_column :: "bytes \<Rightarrow> csv_row \<Rightarrow> nat \<Rightarrow> bytes res" where
  "copy_column s r i =
     (if i < length (columns r) then
        (case columns r ! i of
           None \<Rightarrow> Inl Fault
         | Some p \<Rightarrow> bindR (strlen (drop p s)) (\<lambda>l. get_bytes s p l))
      else Inl Fault)"

definition section_entry :: "bytes \<Rightarrow> csv_row \<Rightarrow> sbat_section_entry res" where
  "section_entry s r =
     bindR (copy_column s r 0) (\<lambda>a. bindR (copy_column s r 1) (\<lambda>b. bindR (copy_column s r 2) (\<lambda>c.
     bindR (copy_column s r 3) (\<lambda>d. bindR (copy_column s r 4) (\<lambda>e. bindR (copy_column s r 5) (\<lambda>f.
       Inr \<lparr>component_name = a, component_generation = b, vendor_name = c,
            vendor_package_name = d, vendor_version = e, vendor_url = f\<rparr>))))))"

fun map_res :: "('a \<Rightarrow> 'b res) \<Rightarrow> 'a list \<Rightarrow> 'b list res" where
  "map_res f [] = Inr []"
| "map_res f (x # xs) = bindR (f x) (\<lambda>y. bindR (map_res f xs) (\<lambda>ys. Inr (y # ys)))"

definition parse_sbat_section ::
  "(nat \<Rightarrow> bool) \<Rightarrow> bytes \<Rightarrow> nat \<Rightarrow> sbat_section_entry list res"
where
  "parse_sbat_section pool section_base section_size =
     (if section_size = 0 then Inl (Status EFI_INVALID_PARAMETER)
      else bindR (parse_csv_data pool section_base (section_size - 1) SBAT_SECTION_COLUMNS) (\<lambda>(s, csv).
           bindR (check_rows s SBAT_SECTION_COLUMNS (8 + 48) csv) (\<lambda>allocsz.
           if csv = [] then Inr []
           else if \<not> pool allocsz then Inl (Status EFI_OUT_OF_RESOURCES)
           else map_res (section_entry s) csv)))"

section \<open>The revocation check\<close>

text \<open>
  \<open>atoi\<close> is the firmware library's; its result is stored in a \<open>UINT16\<close>. The result
  is the status and \<open>*found\<close>.
\<close>

definition verify_single_entry ::
  "(bytes \<Rightarrow> nat) \<Rightarrow> sbat_section_entry \<Rightarrow> sbat_var_entry \<Rightarrow> (efi_status \<times> bool) res"
where
  "verify_single_entry atoi entry var_entry =
     bindR (strcmp (component_name entry @ [0]) (var_component_name var_entry @ [0])) (\<lambda>c.
       if c = 0 then
         (let sbat_gen = (word_of_nat (atoi (component_generation entry)) :: u16);
              sbat_var_gen = (word_of_nat (atoi (var_component_generation var_entry)) :: u16)
          in if sbat_gen < sbat_var_gen then Inr (EFI_SECURITY_VIOLATION, True)
             else Inr (EFI_SUCCESS, True))
       else Inr (EFI_SUCCESS, False))"

fun verify_entry_loop ::
  "(bytes \<Rightarrow> nat) \<Rightarrow> sbat_section_entry \<Rightarrow> sbat_var_entry list \<Rightarrow> efi_status res"
where
  "verify_entry_loop atoi e [] = Inr EFI_SUCCESS"
| "verify_entry_loop atoi e (v # vs) =
     bindR (verify_single_entry atoi e v) (\<lambda>(st, found).
       if EFI_ERROR st then Inr st
       else if found then Inr EFI_SUCCESS
       else verify_entry_loop atoi e vs)"

fun verify_entries_loop ::
  "(bytes \<Rightarrow> nat) \<Rightarrow> sbat_var_entry list \<Rightarrow> sbat_section_entry list \<Rightarrow> efi_status res"
where
  "verify_entries_loop atoi vs [] = Inr EFI_SUCCESS"
| "verify_entries_loop atoi vs (e # es) =
     bindR (verify_entry_loop atoi e vs) (\<lambda>st.
       if EFI_ERROR st then Inr st else verify_entries_loop atoi vs es)"

definition verify_sbat_helper ::
  "(bytes \<Rightarrow> nat) \<Rightarrow> sbat_var_entry list \<Rightarrow> sbat_section_entry list \<Rightarrow> efi_status res"
where
  "verify_sbat_helper atoi local_sbat_var entries =
     (if local_sbat_var = [] then Inr EFI_SUCCESS
      else verify_entries_loop atoi local_sbat_var entries)"

text \<open>
  \<open>verify_sbat_section\<close>: \<open>sec\<close> is \<open>None\<close> when the image has no section; the section is
  copied and given a NUL.
\<close>

definition verify_sbat_section ::
  "(nat \<Rightarrow> bool) \<Rightarrow> (bytes \<Rightarrow> nat) \<Rightarrow> sbat_var_entry list \<Rightarrow> bool \<Rightarrow> bytes option \<Rightarrow> efi_status res"
where
  "verify_sbat_section pool atoi sbat_var in_protocol sec =
     (if sbat_var = [] then Inr EFI_SUCCESS
      else case sec of
        None \<Rightarrow> Inr (if in_protocol then EFI_SUCCESS else EFI_SECURITY_VIOLATION)
      | Some data \<Rightarrow>
          if data = [] then Inr (if in_protocol then EFI_SUCCESS else EFI_SECURITY_VIOLATION)
          else if 2 ^ 64 \<le> length data + 1 then Inr EFI_SECURITY_VIOLATION
          else if \<not> pool (length data + 1) then Inr EFI_OUT_OF_RESOURCES
          else (case parse_sbat_section pool (data @ [0]) (length data + 1) of
                  Inl (Status st) \<Rightarrow> Inr st
                | Inl Fault \<Rightarrow> Inl Fault
                | Inr entries \<Rightarrow> verify_sbat_helper atoi sbat_var entries))"

section \<open>parse_sbat_var\<close>

definition var_entry :: "bytes \<Rightarrow> csv_row \<Rightarrow> sbat_var_entry res" where
  "var_entry s r =
     bindR (copy_column s r 0) (\<lambda>a. bindR (copy_column s r 1) (\<lambda>b.
     bindR (if n_columns r < 3 then Inr None else bindR (copy_column s r 2) (\<lambda>c. Inr (Some c))) (\<lambda>c.
       Inr \<lparr>var_component_name = a, var_component_generation = b, var_sbat_datestamp = c\<rparr>)))"

definition parse_sbat_var_data :: "(nat \<Rightarrow> bool) \<Rightarrow> bytes \<Rightarrow> nat \<Rightarrow> sbat_var_entry list res" where
  "parse_sbat_var_data pool data datasize =
     (if datasize = 0 then Inl (Status EFI_INVALID_PARAMETER)
      else bindR (parse_csv_data pool data (datasize - 1) SBAT_VAR_COLUMNS) (\<lambda>(s, csv).
           bindR (check_rows s SBAT_VAR_REQUIRED_COLUMNS (8 + 40) csv) (\<lambda>allocsz.
           if \<not> pool allocsz then Inl (Status EFI_OUT_OF_RESOURCES)
           else map_res (var_entry s) csv)))"

section \<open>The environment and the state\<close>

text \<open>
  \<open>devel\<close> is the build option \<open>ENABLE_SHIM_DEVEL\<close>, \<open>secure\<close> the function
  \<open>secure_mode\<close> of shim.c, \<open>shim_sbat\<close> the .sbat section of shim itself and
  \<open>heap_byte\<close> the content of a byte of a fresh allocation.
\<close>

record 'w sbat_env =
  se_rt :: "'w efi_rt"
  se_pool :: "nat \<Rightarrow> bool"
  se_devel :: bool
  se_atoi :: "bytes \<Rightarrow> nat"
  se_secure :: "'w \<Rightarrow> bool"
  se_shim_sbat :: bytes
  se_heap_byte :: u8

record sbat_state =
  sbat_policy :: u8
  ssp_policy :: u8
  sbat_var :: "sbat_var_entry list"

definition POLICY_LATEST :: u8 where "POLICY_LATEST = 1"
definition POLICY_AUTOMATIC :: u8 where "POLICY_AUTOMATIC = 2"
definition POLICY_RESET :: u8 where "POLICY_RESET = 3"
definition POLICY_NOTREAD :: u8 where "POLICY_NOTREAD = 255"

definition SBAT_VAR_NAME :: "bool \<Rightarrow> string" where
  "SBAT_VAR_NAME devel = (if devel then ''SbatLevel_DEVEL'' else ''SbatLevel'')"

definition SBAT_VAR_ATTRS :: "bool \<Rightarrow> u32" where
  "SBAT_VAR_ATTRS devel = (if devel then UEFI_VAR_NV_BS_RT else UEFI_VAR_NV_BS)"

definition SBAT_VAR_SIG :: bytes where "SBAT_VAR_SIG = str8 ''sbat,''"
definition SBAT_VAR_ORIGINAL_DATE :: bytes where "SBAT_VAR_ORIGINAL_DATE = str8 ''2021030218''"
definition SBAT_VAR_ORIGINAL :: bytes where
  "SBAT_VAR_ORIGINAL = SBAT_VAR_SIG @ str8 ''1,'' @ SBAT_VAR_ORIGINAL_DATE @ [0x0a]"

text \<open>The candidate is a C string; \<open>None\<close> asks for the variable.\<close>

definition parse_sbat_var :: "'w sbat_env \<Rightarrow> 'w \<Rightarrow> bytes option \<Rightarrow> sbat_var_entry list res" where
  "parse_sbat_var env w candidate =
     (case candidate of
        None \<Rightarrow>
          (case get_variable (se_rt env) (se_pool env) w (SBAT_VAR_NAME (se_devel env)) SHIM_LOCK_GUID of
             (st, d, n) \<Rightarrow>
               if EFI_ERROR st then Inl (Status st)
               else (case d of None \<Rightarrow> Inl Fault
                     | Some data \<Rightarrow> parse_sbat_var_data (se_pool env) data (n + 1)))
      | Some c \<Rightarrow>
          bindR (strlen c) (\<lambda>n.
            if \<not> se_pool env (n + 1) then Inl Fault
            else parse_sbat_var_data (se_pool env) (take n c @ [se_heap_byte env]) (n + 1)))"

section \<open>Comparing the variable with a candidate\<close>

definition check_sbat_var_attributes :: "bool \<Rightarrow> u32 \<Rightarrow> bool" where
  "check_sbat_var_attributes devel attributes =
     (if devel then attributes = UEFI_VAR_NV_BS_RT
      else attributes = UEFI_VAR_NV_BS \<or> attributes = UEFI_VAR_NV_BS_TIMEAUTH)"

text \<open>\<open>nth_sbat_field\<close>: \<open>k\<close> characters are left of the limit; the result is an index.\<close>

fun nth_sbat_field :: "bytes \<Rightarrow> nat \<Rightarrow> nat \<Rightarrow> nat \<Rightarrow> nat res" where
  "nth_sbat_field s 0 n i = Inr i"
| "nth_sbat_field s (Suc k) n i =
     bindR (idx s i) (\<lambda>c.
       if c = 0 \<or> n = 0 then Inr i
       else nth_sbat_field s k (if c = 0x2c then n - 1 else n) (Suc i))"

text \<open>\<open>strncmp\<close> with a length computed as a C \<open>int\<close>: a negative one is a huge \<open>size_t\<close>.\<close>

definition strncmp_int :: "bytes \<Rightarrow> bytes \<Rightarrow> int \<Rightarrow> int res" where
  "strncmp_int a b n = strncmp a b (nat (n mod 2 ^ 64))"

definition preserve_sbat_uefi_variable :: "bool \<Rightarrow> bytes \<Rightarrow> nat \<Rightarrow> u32 \<Rightarrow> bytes \<Rightarrow> bool res" where
  "preserve_sbat_uefi_variable devel sbat sbatsize attributes candidate =
     (if \<not> check_sbat_var_attributes devel attributes \<or> sbatsize < length SBAT_VAR_ORIGINAL
      then Inr False
      else bindR (strncmp sbat (SBAT_VAR_SIG @ [0]) (length SBAT_VAR_SIG)) (\<lambda>sig.
        if sig \<noteq> 0 then Inr False
        else bindR (strlen candidate) (\<lambda>n.
          bindR (nth_sbat_field sbat sbatsize 1 0) (\<lambda>current_version.
          bindR (nth_sbat_field candidate (n + 1) 1 0) (\<lambda>new_version.
          bindR (nth_sbat_field sbat sbatsize 2 0) (\<lambda>current_datestamp.
          bindR (nth_sbat_field candidate (n + 1) 2 0) (\<lambda>new_datestamp.
          let current_version_len = int current_datestamp - int current_version - 1;
              new_version_len = int new_datestamp - int new_version - 1
          in bindR (if new_version_len < current_version_len then Inr True
                    else if current_version_len = new_version_len
                    then bindR (strncmp_int (drop current_version sbat) (drop new_version candidate) new_version_len)
                           (\<lambda>c. Inr (0 < c))
                    else Inr False) (\<lambda>newer.
             if newer then Inr True
             else bindR (strncmp (drop current_datestamp sbat) (drop new_datestamp candidate)
                           (length SBAT_VAR_ORIGINAL_DATE)) (\<lambda>c. Inr (0 \<le> c))))))))))"

section \<open>set_sbat_uefi_variable\<close>

definition clear_sbat_policy :: "'w efi_rt \<Rightarrow> 'w \<Rightarrow> 'w" where
  "clear_sbat_policy rt w = snd (del_variable rt w ''SbatPolicy'' SHIM_LOCK_GUID)"

text \<open>
  Reading the policy: the status, the attributes read with it, and the new state. The
  policy is read once; afterwards the status is \<open>EFI_SUCCESS\<close>.
\<close>

definition read_sbat_policy ::
  "'w sbat_env \<Rightarrow> sbat_state \<Rightarrow> 'w \<Rightarrow> (efi_status \<times> u32 \<times> sbat_state \<times> 'w) res"
where
  "read_sbat_policy env s w =
     (if sbat_policy s = POLICY_NOTREAD then
        (case get_variable_attr (se_rt env) (se_pool env) w True ''SbatPolicy'' SHIM_LOCK_GUID of
           (st, d, n, a) \<Rightarrow>
             let attributes = (case a of None \<Rightarrow> 0 | Some x \<Rightarrow> x)
             in if EFI_ERROR st then Inr (st, attributes, s, w)
                else (case d of
                        Some (p # _) \<Rightarrow>
                          Inr (st, attributes, s\<lparr>sbat_policy := p\<rparr>, clear_sbat_policy (se_rt env) w)
                      | _ \<Rightarrow> Inl Fault))
      else Inr (EFI_SUCCESS, 0, s, w))"

text \<open>The candidate and whether to reset.\<close>

definition choose_sbat_candidate ::
  "bool \<Rightarrow> bool \<Rightarrow> u8 \<Rightarrow> bytes \<Rightarrow> bytes \<Rightarrow> bytes \<times> bool"
where
  "choose_sbat_candidate policy_error secure policy automatic latest =
     (if policy_error then
        (if secure then (automatic, False) else (SBAT_VAR_ORIGINAL @ [0], True))
      else if policy = POLICY_LATEST then (latest, False)
      else if policy = POLICY_AUTOMATIC then (automatic, False)
      else if policy = POLICY_RESET then
        (if secure then (automatic, False) else (SBAT_VAR_ORIGINAL @ [0], True))
      else if secure then (automatic, False)
      else (SBAT_VAR_ORIGINAL @ [0], True))"

text \<open>Writing the candidate and reading it back.\<close>

definition write_sbat_candidate :: "'w sbat_env \<Rightarrow> 'w \<Rightarrow> bytes \<Rightarrow> (efi_status \<times> 'w) res" where
  "write_sbat_candidate env w candidate =
     bindR (strlen candidate) (\<lambda>n.
       case set_variable (se_rt env) w (SBAT_VAR_NAME (se_devel env)) SHIM_LOCK_GUID
              (SBAT_VAR_ATTRS (se_devel env)) (take n candidate) of (st, w) \<Rightarrow>
         if EFI_ERROR st then Inr (st, w)
         else (case get_variable (se_rt env) (se_pool env) w (SBAT_VAR_NAME (se_devel env)) SHIM_LOCK_GUID of
           (st, d, sbatsize) \<Rightarrow>
             if EFI_ERROR st then Inr (st, w)
             else if sbatsize \<noteq> n then Inr (EFI_INVALID_PARAMETER, w)
             else (case d of
                     None \<Rightarrow> Inl Fault
                   | Some sbat \<Rightarrow>
                       bindR (strncmp sbat candidate n) (\<lambda>c.
                         Inr (if c \<noteq> 0 then EFI_INVALID_PARAMETER else st, w)))))"

definition set_sbat_uefi_variable ::
  "'w sbat_env \<Rightarrow> bool \<Rightarrow> sbat_state \<Rightarrow> 'w \<Rightarrow> bytes \<Rightarrow> bytes \<Rightarrow> (efi_status \<times> sbat_state \<times> 'w) res"
where
  "set_sbat_uefi_variable env in_protocol s w automatic latest =
     bindR (read_sbat_policy env s w) (\<lambda>(st, attributes, s, w).
     case choose_sbat_candidate (EFI_ERROR st) (se_secure env w) (sbat_policy s) automatic latest of
       (candidate, reset_sbat) \<Rightarrow>
     case get_variable_attr (se_rt env) (se_pool env) w True (SBAT_VAR_NAME (se_devel env)) SHIM_LOCK_GUID of
       (st, d, sbatsize, a) \<Rightarrow>
     let attributes = (case a of None \<Rightarrow> attributes | Some x \<Rightarrow> x) in
     if EFI_ERROR st then
       bindR (write_sbat_candidate env w candidate) (\<lambda>(st, w). Inr (st, s, w))
     else (case d of
       None \<Rightarrow> Inl Fault
     | Some sbat \<Rightarrow>
         bindR (preserve_sbat_uefi_variable (se_devel env) sbat sbatsize attributes candidate) (\<lambda>preserve.
         if preserve \<and> \<not> reset_sbat then Inr (EFI_SUCCESS, s, w)
         else (case parse_sbat_var env w (Some candidate) of
             Inl Fault \<Rightarrow> Inl Fault
           | Inl (Status st) \<Rightarrow> Inr (st, s, w)
           | Inr entries \<Rightarrow>
               let s = s\<lparr>sbat_var := entries\<rparr> in
               bindR (verify_sbat_section (se_pool env) (se_atoi env) entries in_protocol (Some (se_shim_sbat env))) (\<lambda>st.
               if EFI_ERROR st then Inr (st, s, w)
               else (case set_variable (se_rt env) w (SBAT_VAR_NAME (se_devel env)) SHIM_LOCK_GUID attributes [] of
                 (st, w) \<Rightarrow>
                   if EFI_ERROR st then Inr (st, s, w)
                   else bindR (write_sbat_candidate env w candidate) (\<lambda>(st, w). Inr (st, s, w))))))))"


text \<open>
  \<open>set_sbat_uefi_variable_internal\<close>: the two levels live in one payload, at the offsets
  its header gives.
\<close>

definition set_sbat_uefi_variable_internal ::
  "'w sbat_env \<Rightarrow> bool \<Rightarrow> sbat_state \<Rightarrow> 'w \<Rightarrow> bytes \<Rightarrow> (efi_status \<times> sbat_state \<times> 'w) res"
where
  "set_sbat_uefi_variable_internal env in_protocol s w payload =
     bindR (get_le payload 0 4) (\<lambda>automatic_offset.
     bindR (get_le payload 4 4) (\<lambda>latest_offset.
       set_sbat_uefi_variable env in_protocol s w (drop automatic_offset payload) (drop latest_offset payload)))"

section \<open>SkuSiPolicy: the boot manager's revocations\<close>

definition SSPVER_SIZE :: nat where "SSPVER_SIZE = 8"
definition SSPSIG_SIZE :: nat where "SSPSIG_SIZE = 131"
definition SSP_VAR_ATTRS :: u32 where "SSP_VAR_ATTRS = UEFI_VAR_NV_BS"
definition SSPVER_VAR_NAME :: string where "SSPVER_VAR_NAME = ''SkuSiPolicyVersion''"
definition SSPSIG_VAR_NAME :: string where "SSPSIG_VAR_NAME = ''SkuSiPolicyUpdateSigners''"

text \<open>The shifts and additions are of 64-bit words.\<close>

definition ssp_ver_to_ull :: "bytes \<Rightarrow> u64 res" where
  "ssp_ver_to_ull ver =
     bindR (get_le ver 0 2) (\<lambda>a. bindR (get_le ver 2 2) (\<lambda>b.
     bindR (get_le ver 4 2) (\<lambda>c. bindR (get_le ver 6 2) (\<lambda>d.
       Inr (push_bit 48 (word_of_nat a) + push_bit 32 (word_of_nat b)
            + push_bit 16 (word_of_nat c) + word_of_nat d)))))"

definition preserve_ssp_uefi_variable ::
  "bool \<Rightarrow> bytes option \<Rightarrow> nat \<Rightarrow> u32 \<Rightarrow> bytes option \<Rightarrow> bool res"
where
  "preserve_ssp_uefi_variable devel ssp_applied sspversize attributes ssp_candidate =
     (case (ssp_applied, ssp_candidate) of
        (Some applied, Some candidate) \<Rightarrow>
          if sspversize \<noteq> SSPVER_SIZE then Inr False
          else if \<not> check_sbat_var_attributes devel attributes then Inr False
          else bindR (ssp_ver_to_ull applied) (\<lambda>old.
               bindR (ssp_ver_to_ull candidate) (\<lambda>new. Inr (\<not> old < new)))
      | _ \<Rightarrow> Inr False)"

definition clear_ssp_policy :: "'w efi_rt \<Rightarrow> 'w \<Rightarrow> 'w" where
  "clear_ssp_policy rt w = snd (del_variable rt w ''SSPPolicy'' SHIM_LOCK_GUID)"

definition clear_ssp_uefi_variables :: "'w efi_rt \<Rightarrow> 'w \<Rightarrow> efi_status \<times> 'w" where
  "clear_ssp_uefi_variables rt w =
     (case del_variable rt w SSPVER_VAR_NAME SECUREBOOT_EFI_NAMESPACE_GUID of (st1, w1) \<Rightarrow>
        let rc = (if EFI_ERROR st1 then st1 else EFI_SUCCESS)
        in case del_variable rt w1 SSPSIG_VAR_NAME SECUREBOOT_EFI_NAMESPACE_GUID of (st2, w2) \<Rightarrow>
             (if EFI_ERROR st2 then st2 else rc, w2))"

definition read_ssp_policy ::
  "'w sbat_env \<Rightarrow> sbat_state \<Rightarrow> 'w \<Rightarrow> (efi_status \<times> u32 \<times> sbat_state \<times> 'w) res"
where
  "read_ssp_policy env s w =
     (if ssp_policy s = POLICY_NOTREAD then
        (case get_variable_attr (se_rt env) (se_pool env) w True ''SSPPolicy'' SHIM_LOCK_GUID of
           (st, d, n, a) \<Rightarrow>
             let attributes = (case a of None \<Rightarrow> 0 | Some x \<Rightarrow> x)
             in if EFI_ERROR st then Inr (st, attributes, s, w)
                else (case d of
                        Some (p # _) \<Rightarrow>
                          Inr (st, attributes, s\<lparr>ssp_policy := p\<rparr>, clear_ssp_policy (se_rt env) w)
                      | _ \<Rightarrow> Inl Fault))
      else Inr (EFI_SUCCESS, 0, s, w))"

text \<open>The version, the signers and whether to reset; \<open>None\<close> is a null pointer.\<close>

definition choose_ssp ::
  "bool \<Rightarrow> bool \<Rightarrow> u8 \<Rightarrow> bytes option \<times> bytes option \<Rightarrow> bytes option \<times> bytes option
   \<Rightarrow> bytes option \<times> bytes option \<times> bool"
where
  "choose_ssp policy_error secure policy automatic latest =
     (if policy_error then (fst automatic, snd automatic, False)
      else if policy = POLICY_LATEST then (fst latest, snd latest, False)
      else if policy = POLICY_AUTOMATIC then (fst automatic, snd automatic, False)
      else if policy = POLICY_RESET then
        (if secure then (fst automatic, snd automatic, False) else (None, None, True))
      else (fst automatic, snd automatic, False))"

text \<open>Writing the pair; \<open>SetVariable\<close> on a null pointer reads out of bounds.\<close>

definition write_ssp :: "'w efi_rt \<Rightarrow> 'w \<Rightarrow> bytes option \<Rightarrow> bytes option \<Rightarrow> (efi_status \<times> 'w) res" where
  "write_ssp rt w ver sig =
     (case ver of None \<Rightarrow> Inl Fault | Some v \<Rightarrow>
        bindR (get_bytes v 0 SSPVER_SIZE) (\<lambda>vb.
        case set_variable rt w SSPVER_VAR_NAME SECUREBOOT_EFI_NAMESPACE_GUID SSP_VAR_ATTRS vb of (st, w) \<Rightarrow>
          if EFI_ERROR st then Inr (st, w)
          else (case sig of None \<Rightarrow> Inl Fault | Some sb \<Rightarrow>
            bindR (get_bytes sb 0 SSPSIG_SIZE) (\<lambda>sb.
              Inr (set_variable rt w SSPSIG_VAR_NAME SECUREBOOT_EFI_NAMESPACE_GUID SSP_VAR_ATTRS sb)))))"

definition set_ssp_uefi_variable ::
  "'w sbat_env \<Rightarrow> sbat_state \<Rightarrow> 'w \<Rightarrow> bytes option \<times> bytes option \<Rightarrow> bytes option \<times> bytes option
   \<Rightarrow> (efi_status \<times> sbat_state \<times> 'w) res"
where
  "set_ssp_uefi_variable env s w automatic latest =
     bindR (read_ssp_policy env s w) (\<lambda>(st, attributes, s, w).
     case choose_ssp (EFI_ERROR st) (se_secure env w) (ssp_policy s) automatic latest of
       (ssp_ver, ssp_sig, reset_ssp) \<Rightarrow>
     if ssp_ver = None \<and> ssp_sig = None \<and> \<not> reset_ssp then Inr (EFI_SUCCESS, s, w)
     else (case get_variable_attr (se_rt env) (se_pool env) w True SSPVER_VAR_NAME SECUREBOOT_EFI_NAMESPACE_GUID of
       (st, d, sspversize, a) \<Rightarrow>
       let attributes = (case a of None \<Rightarrow> attributes | Some x \<Rightarrow> x) in
       bindR (if EFI_ERROR st then Inr (False, st, w)
              else bindR (preserve_ssp_uefi_variable (se_devel env) d sspversize attributes ssp_ver) (\<lambda>preserve.
                if preserve \<and> \<not> reset_ssp then Inr (True, EFI_SUCCESS, w)
                else (case clear_ssp_uefi_variables (se_rt env) w of (st, w) \<Rightarrow> Inr (False, st, w))))
         (\<lambda>(finished, st, w).
            if finished then Inr (st, s, w)
            else if reset_ssp then Inr (st, s, w)
            else bindR (write_ssp (se_rt env) w ssp_ver ssp_sig) (\<lambda>(st, w). Inr (st, s, w)))))"

definition SkuSiPolicyVersion :: bytes where
  "SkuSiPolicyVersion = [0x2, 0x0, 0x0, 0x0, 0x0, 0x0, 0x2, 0x0]"

definition SkuSiPolicyUpdateSigners :: bytes where
  "SkuSiPolicyUpdateSigners =
    [0x01, 0, 0, 0, 0x06, 0, 0, 0, 0, 0, 0, 0, 0, 0, 0, 0,
     0, 0, 0, 0, 0, 0, 0, 0, 0, 0, 0, 0, 0x01, 0, 0, 0,
     0x0b, 0, 0, 0, 0xd0, 0x91, 0x73, 0, 0, 0, 0, 0, 0, 0, 0x02, 0,
     0, 0, 0, 0, 0x54, 0xa6, 0x78, 0, 0, 0, 0, 0, 0, 0, 0x02, 0,
     0, 0, 0, 0, 0x5c, 0xa6, 0x78, 0, 0, 0, 0, 0, 0, 0, 0x02, 0,
     0, 0, 0, 0, 0x64, 0xa6, 0x78, 0, 0, 0, 0, 0, 0, 0, 0, 0,
     0, 0, 0, 0, 0, 0, 0, 0, 0, 0, 0, 0, 0, 0, 0, 0,
     0, 0, 0, 0, 0x0a, 0x2b, 0x06, 0x01, 0x04, 0x01, 0x82, 0x37, 0x0a, 0x03, 0x06, 0,
     0, 0, 0]"

definition set_ssp_uefi_variable_internal ::
  "'w sbat_env \<Rightarrow> sbat_state \<Rightarrow> 'w \<Rightarrow> (efi_status \<times> sbat_state \<times> 'w) res"
where
  "set_ssp_uefi_variable_internal env s w =
     set_ssp_uefi_variable env s w (None, None) (Some SkuSiPolicyVersion, Some SkuSiPolicyUpdateSigners)"

end
