(* ===== verification/MockVars.thy ===== *)
theory MockVars
  imports UefiVars
begin

text \<open>
  mock-variables.c: the variable store the program's tests run on, a provider of the
  variable services. The store is a list of variables in the order of the C list, with
  the limits and counters the usage accounting works on. The test hooks are null, and the
  host's allocator does not fail.
\<close>

section \<open>State\<close>

record mock_variable =
  mv_name :: string
  mv_guid :: guid
  mv_attrs :: u32
  mv_data :: bytes

text \<open>The limits point to counters, which different entries may share: cells of \<open>mock_cells\<close>.\<close>

record mock_variable_limits =
  ml_attrs :: u32
  ml_max_var_storage :: nat
  ml_remaining_var_storage :: nat
  ml_max_var_size :: nat
  ml_status :: efi_status

datatype mock_sort_policy =
    MOCK_SORT_DESCENDING
  | MOCK_SORT_PREPEND
  | MOCK_SORT_APPEND
  | MOCK_SORT_ASCENDING

record mock_state =
  mock_variables :: "mock_variable list"
  mock_variable_sort_policy :: mock_sort_policy
  mock_variable_delete_attr_policy :: u32
  mock_qvi_limits :: "mock_variable_limits list"
  mock_sv_limits :: "mock_variable_limits list"
  mock_cells :: "nat \<Rightarrow> u64"

section \<open>Comparisons\<close>

definition variable_limits_cmp :: "mock_variable_limits \<Rightarrow> u32 \<Rightarrow> bool" where
  "variable_limits_cmp l attrs \<longleftrightarrow> attrs AND 0x7 = ml_attrs l AND 0x7"

text \<open>
  \<open>CompareGuid\<close> and \<open>StrCmp\<close> are the firmware library's: the parameters \<open>cg\<close> and
  \<open>sc\<close>.
\<close>

definition variable_cmp ::
  "(guid \<Rightarrow> guid \<Rightarrow> int) \<Rightarrow> (string \<Rightarrow> string \<Rightarrow> int) \<Rightarrow> string \<Rightarrow> guid \<Rightarrow> mock_variable \<Rightarrow> int"
where
  "variable_cmp cg sc name gd v =
     (let ret = cg gd (mv_guid v) * 256
      in if ret \<noteq> 0 then ret else sc name (mv_name v))"

section \<open>mock_get_variable\<close>

fun mock_get_loop ::
  "(guid \<Rightarrow> guid \<Rightarrow> int) \<Rightarrow> (string \<Rightarrow> string \<Rightarrow> int) \<Rightarrow> string \<Rightarrow> guid \<Rightarrow> bool \<Rightarrow> nat
   \<Rightarrow> mock_variable list \<Rightarrow> gv_out"
where
  "mock_get_loop cg sc name gd has_data sz [] =
     \<lparr>gv_status = EFI_NOT_FOUND, gv_attr = None, gv_size = sz, gv_data = []\<rparr>"
| "mock_get_loop cg sc name gd has_data sz (v # vs) =
     (if variable_cmp cg sc name gd v = 0 then
        (if sz < length (mv_data v) then
           \<lparr>gv_status = EFI_BUFFER_TOO_SMALL, gv_attr = Some (mv_attrs v),
            gv_size = length (mv_data v), gv_data = []\<rparr>
         else if \<not> has_data then
           \<lparr>gv_status = EFI_INVALID_PARAMETER, gv_attr = Some (mv_attrs v), gv_size = sz, gv_data = []\<rparr>
         else
           \<lparr>gv_status = EFI_SUCCESS, gv_attr = Some (mv_attrs v),
            gv_size = length (mv_data v), gv_data = mv_data v\<rparr>)
      else mock_get_loop cg sc name gd has_data sz vs)"

definition mock_get_variable ::
  "(guid \<Rightarrow> guid \<Rightarrow> int) \<Rightarrow> (string \<Rightarrow> string \<Rightarrow> int) \<Rightarrow> mock_state \<Rightarrow> string \<Rightarrow> guid \<Rightarrow> bool \<Rightarrow> nat \<Rightarrow> gv_out"
where
  "mock_get_variable cg sc s name gd has_data sz =
     mock_get_loop cg sc name gd has_data sz (mock_variables s)"

section \<open>Usage accounting\<close>

definition find_limits :: "mock_variable_limits list \<Rightarrow> u32 \<Rightarrow> mock_variable_limits option" where
  "find_limits ls attrs = List.find (\<lambda>l. variable_limits_cmp l attrs) ls"

definition mock_sv_adjust_usage_data :: "mock_state \<Rightarrow> u32 \<Rightarrow> nat \<Rightarrow> int \<Rightarrow> efi_status \<times> mock_state" where
  "mock_sv_adjust_usage_data s attrs sz change =
     (let qvi = find_limits (mock_qvi_limits s) (attrs AND 0x7);
          sv = find_limits (mock_sv_limits s) (attrs AND 0x7)
      in (case sv of
            None \<Rightarrow> (EFI_UNSUPPORTED, s)
          | Some l \<Rightarrow>
              if ml_status l \<noteq> EFI_SUCCESS then (ml_status l, s)
              else if unat (mock_cells s (ml_max_var_size l)) < sz then (EFI_OUT_OF_RESOURCES, s)
              else if 0 < change \<and> uint (mock_cells s (ml_remaining_var_storage l)) < change
              then (EFI_OUT_OF_RESOURCES, s)
              else
                let c = mock_cells s; r = ml_remaining_var_storage l; c = c(r := c r + word_of_int change)
                in (EFI_SUCCESS, s\<lparr>mock_cells :=
                     (case qvi of
                        None \<Rightarrow> c
                      | Some q \<Rightarrow>
                          let qr = ml_remaining_var_storage q
                          in if qr = r then c
                             else if change < 0 \<and> uint (c qr) < - change then c(qr := 0)
                             else if 0 < change \<and> 2 ^ 64 - 1 - uint (c qr) < change then c(qr := - 1)
                             else c(qr := c qr + word_of_int change))\<rparr>)))"

section \<open>Operations on one variable\<close>

text \<open>\<open>i\<close> is the position of the variable in the list.\<close>

definition mock_delete_variable :: "mock_state \<Rightarrow> nat \<Rightarrow> efi_status \<times> mock_state" where
  "mock_delete_variable s i =
     (let v = mock_variables s ! i
      in case mock_sv_adjust_usage_data s (mv_attrs v) 0 (- int (length (mv_data v))) of (st, s') \<Rightarrow>
           if EFI_ERROR st then (st, s')
           else (EFI_SUCCESS, s'\<lparr>mock_variables := take i (mock_variables s') @ drop (i + 1) (mock_variables s')\<rparr>))"

definition mock_replace_variable :: "mock_state \<Rightarrow> nat \<Rightarrow> bytes \<Rightarrow> efi_status \<times> mock_state" where
  "mock_replace_variable s i data =
     (let v = mock_variables s ! i
      in case mock_sv_adjust_usage_data s (mv_attrs v) (length data)
                (- int (length (mv_data v)) + int (length data)) of (st, s') \<Rightarrow>
           if EFI_ERROR st then (st, s')
           else (EFI_SUCCESS, s'\<lparr>mock_variables := (mock_variables s')[i := v\<lparr>mv_data := data\<rparr>]\<rparr>))"

definition mock_sv_extend :: "mock_state \<Rightarrow> nat \<Rightarrow> bytes \<Rightarrow> efi_status \<times> mock_state" where
  "mock_sv_extend s i data =
     (let v = mock_variables s ! i
      in if data = [] then (EFI_SUCCESS, s)
         else case mock_sv_adjust_usage_data s (mv_attrs v) (length (mv_data v) + length data)
                     (int (length data)) of (st, s') \<Rightarrow>
           if EFI_ERROR st then (st, s')
           else (EFI_SUCCESS,
                 s'\<lparr>mock_variables := (mock_variables s')[i := v\<lparr>mv_data := mv_data v @ data\<rparr>]\<rparr>))"

definition mock_new_variable :: "string \<Rightarrow> guid \<Rightarrow> u32 \<Rightarrow> bytes \<Rightarrow> efi_status + mock_variable" where
  "mock_new_variable name gd attrs data =
     (if data = [] then Inl EFI_INVALID_PARAMETER
      else Inr \<lparr>mv_name = name, mv_guid = gd, mv_attrs = attrs, mv_data = data\<rparr>)"

section \<open>mock_set_variable\<close>

text \<open>
  The search: the position where it stops (the length of the list when it runs through),
  the sign of the last comparison, and whether it stopped early.
\<close>

definition mock_stop :: "mock_sort_policy \<Rightarrow> int \<Rightarrow> bool" where
  "mock_stop pol c =
     (case pol of MOCK_SORT_DESCENDING \<Rightarrow> 0 \<le> c | MOCK_SORT_ASCENDING \<Rightarrow> c \<le> 0 | _ \<Rightarrow> c = 0)"

fun mock_search ::
  "(mock_variable \<Rightarrow> int) \<Rightarrow> mock_sort_policy \<Rightarrow> mock_variable list \<Rightarrow> nat \<Rightarrow> int \<Rightarrow> nat \<times> int \<times> bool"
where
  "mock_search cmpf pol [] i c = (i, c, False)"
| "mock_search cmpf pol (v # vs) i c =
     (let c' = sgn (cmpf v)
      in if mock_stop pol c' then (i, c', True) else mock_search cmpf pol vs (i + 1) c')"

definition mock_sv_attrs_match :: "u32 \<Rightarrow> u32 \<Rightarrow> bool" where
  "mock_sv_attrs_match old new \<longleftrightarrow>
     old AND NOT EFI_VARIABLE_APPEND_WRITE = new AND NOT EFI_VARIABLE_APPEND_WRITE"

definition mock_insert :: "bool \<Rightarrow> nat \<Rightarrow> mock_variable \<Rightarrow> mock_variable list \<Rightarrow> mock_variable list" where
  "mock_insert add_tail i v vs =
     (if add_tail then take i vs @ v # drop i vs
      else if i = length vs then v # vs
      else take (i + 1) vs @ v # drop (i + 1) vs)"

text \<open>
  Attributes that do not match are an error, unless the call deletes the variable and the
  policy for deletions allows it.
\<close>

definition mock_sv_attrs_status :: "mock_state \<Rightarrow> u32 \<Rightarrow> u32 \<Rightarrow> bytes \<Rightarrow> efi_status" where
  "mock_sv_attrs_status s old attrs data =
     (if mock_sv_attrs_match old attrs then EFI_SUCCESS
      else if data = [] \<and> attrs AND EFI_VARIABLE_APPEND_WRITE = 0 \<and>
              ((mock_variable_delete_attr_policy s AND 0x1 \<noteq> 0 \<and> attrs = 0) \<or>
               mock_variable_delete_attr_policy s AND 0x2 \<noteq> 0)
      then EFI_SUCCESS else EFI_INVALID_PARAMETER)"

definition mock_set_existing :: "mock_state \<Rightarrow> nat \<Rightarrow> u32 \<Rightarrow> bytes \<Rightarrow> efi_status \<times> mock_state" where
  "mock_set_existing s i attrs data =
     (let st = mock_sv_attrs_status s (mv_attrs (mock_variables s ! i)) attrs data
      in if EFI_ERROR st then (st, s)
         else if append_write attrs then mock_sv_extend s i data
         else if data = [] then
           (if attrs AND (EFI_VARIABLE_TIME_BASED_AUTHENTICATED_WRITE_ACCESS
                          OR EFI_VARIABLE_ENHANCED_AUTHENTICATED_ACCESS) \<noteq> 0
            then (EFI_INVALID_PARAMETER, s)
            else mock_delete_variable s i)
         else mock_replace_variable s i data)"

text \<open>A new variable: the result of the accounting is not looked at.\<close>

definition mock_set_new :: "mock_state \<Rightarrow> nat \<Rightarrow> string \<Rightarrow> guid \<Rightarrow> u32 \<Rightarrow> bytes \<Rightarrow> efi_status \<times> mock_state" where
  "mock_set_new s i name gd attrs data =
     (case mock_new_variable name gd attrs data of
        Inl st \<Rightarrow> (st, s)
      | Inr v \<Rightarrow>
          (case mock_sv_adjust_usage_data s attrs (length data)
                  (int (length data + 2 * (length name + 1))) of (_, s') \<Rightarrow>
             (EFI_SUCCESS,
              s'\<lparr>mock_variables :=
                mock_insert (mock_variable_sort_policy s \<noteq> MOCK_SORT_PREPEND) i v (mock_variables s')\<rparr>)))"

definition mock_set_variable ::
  "(guid \<Rightarrow> guid \<Rightarrow> int) \<Rightarrow> (string \<Rightarrow> string \<Rightarrow> int) \<Rightarrow> mock_state \<Rightarrow> string \<Rightarrow> guid \<Rightarrow> u32 \<Rightarrow> bytes
   \<Rightarrow> efi_status \<times> mock_state"
where
  "mock_set_variable cg sc s name gd attrs data =
     (if name = [] then (EFI_INVALID_PARAMETER, s)
      else if attrs AND EFI_VARIABLE_RUNTIME_ACCESS \<noteq> 0 \<and> attrs AND EFI_VARIABLE_BOOTSERVICE_ACCESS = 0
      then (EFI_INVALID_PARAMETER, s)
      else
        (case mock_search (variable_cmp cg sc name gd) (mock_variable_sort_policy s) (mock_variables s) 0 (- 1)
         of (i, c, found) \<Rightarrow>
           if c \<noteq> 0 \<or> (c = 0 \<and> \<not> found) then mock_set_new s i name gd attrs data
           else mock_set_existing s i attrs data))"

section \<open>mock_query_variable_info\<close>

definition mock_query_variable_info :: "mock_state \<Rightarrow> u32 \<Rightarrow> efi_status \<times> nat \<times> nat \<times> nat" where
  "mock_query_variable_info s attrs =
     (case find_limits (mock_qvi_limits s) attrs of
        None \<Rightarrow> (EFI_UNSUPPORTED, 0, 0, 0)
      | Some l \<Rightarrow> (EFI_SUCCESS, unat (mock_cells s (ml_max_var_storage l)),
                   unat (mock_cells s (ml_remaining_var_storage l)),
                   unat (mock_cells s (ml_max_var_size l))))"

definition mock_rt ::
  "(guid \<Rightarrow> guid \<Rightarrow> int) \<Rightarrow> (string \<Rightarrow> string \<Rightarrow> int) \<Rightarrow> efi_status \<times> bytes \<Rightarrow> mock_state efi_rt" where
  "mock_rt cg sc time =
     \<lparr>GetVariable = mock_get_variable cg sc, SetVariable = mock_set_variable cg sc,
      QueryVariableInfo = mock_query_variable_info, GetTime = (\<lambda>s. time)\<rparr>"

section \<open>The store implements the contract\<close>

definition mv_key :: "mock_variable \<Rightarrow> string \<times> guid" where
  "mv_key v = (mv_name v, mv_guid v)"

definition mock_vars :: "mock_state \<Rightarrow> string \<times> guid \<Rightarrow> (u32 \<times> bytes) option" where
  "mock_vars s = map_of (map (\<lambda>v. (mv_key v, (mv_attrs v, mv_data v))) (mock_variables s))"

definition mock_good :: "mock_state \<Rightarrow> bool" where
  "mock_good s \<longleftrightarrow> mock_variable_sort_policy s \<in> {MOCK_SORT_APPEND, MOCK_SORT_PREPEND}
     \<and> distinct (map mv_key (mock_variables s)) \<and> (\<forall>v\<in>set (mock_variables s). mv_data v \<noteq> [])"

definition cmp_ok :: "(guid \<Rightarrow> guid \<Rightarrow> int) \<Rightarrow> (string \<Rightarrow> string \<Rightarrow> int) \<Rightarrow> bool" where
  "cmp_ok cg sc \<longleftrightarrow> (\<forall>a b. cg a b = 0 \<longleftrightarrow> a = b) \<and> (\<forall>a b. sc a b = 0 \<longleftrightarrow> a = b)"

lemma variable_cmp_zero: "cmp_ok cg sc \<Longrightarrow> variable_cmp cg sc n g v = 0 \<longleftrightarrow> mv_key v = (n, g)"
  by (auto simp add: cmp_ok_def variable_cmp_def mv_key_def Let_def)

lemma mock_get_loop_find:
  assumes "cmp_ok cg sc"
  shows "mock_get_loop cg sc n g hb sz vs =
     (case map_of (map (\<lambda>v. (mv_key v, (mv_attrs v, mv_data v))) vs) (n, g) of
        None \<Rightarrow> \<lparr>gv_status = EFI_NOT_FOUND, gv_attr = None, gv_size = sz, gv_data = []\<rparr>
      | Some (a, d) \<Rightarrow>
          if sz < length d then \<lparr>gv_status = EFI_BUFFER_TOO_SMALL, gv_attr = Some a, gv_size = length d, gv_data = []\<rparr>
          else if \<not> hb then \<lparr>gv_status = EFI_INVALID_PARAMETER, gv_attr = Some a, gv_size = sz, gv_data = []\<rparr>
          else \<lparr>gv_status = EFI_SUCCESS, gv_attr = Some a, gv_size = length d, gv_data = d\<rparr>)"
  by (induction vs) (auto simp add: variable_cmp_zero [OF assms])

text \<open>The search of an unsorted store, when the variable is absent and when it is there.\<close>

lemma mock_search_absent:
  assumes "pol \<in> {MOCK_SORT_APPEND, MOCK_SORT_PREPEND}" and "\<forall>v\<in>set vs. f v \<noteq> 0"
  shows "\<exists>c'. mock_search f pol vs i c = (i + length vs, c', False) \<and> (c \<noteq> 0 \<longrightarrow> c' \<noteq> 0)"
  using assms(2)
proof (induction vs arbitrary: i c)
  case (Cons v vs)
  have "mock_stop pol (sgn (f v)) \<longleftrightarrow> f v = 0" using assms(1) by (auto simp add: mock_stop_def sgn_0_0)
  then show ?case using Cons.IH [of "i + 1" "sgn (f v)"] Cons.prems by (auto simp add: sgn_0_0)
qed simp

lemma mock_search_present:
  assumes "pol \<in> {MOCK_SORT_APPEND, MOCK_SORT_PREPEND}" and "\<forall>v\<in>set us. f v \<noteq> 0" and "f v = 0"
  shows "mock_search f pol (us @ v # vs) i c = (i + length us, 0, True)"
  using assms(2)
proof (induction us arbitrary: i c)
  case Nil
  then show ?case using assms(1,3) by (auto simp add: mock_stop_def)
next
  case (Cons u us)
  have "mock_stop pol (sgn (f u)) \<longleftrightarrow> f u = 0" using assms(1) by (auto simp add: mock_stop_def sgn_0_0)
  then show ?case using Cons.IH [of "i + 1" "sgn (f u)"] Cons.prems by auto
qed

lemma adjust_frame:
  "mock_sv_adjust_usage_data s a n c = (st, s') \<Longrightarrow>
   mock_variables s' = mock_variables s \<and> mock_variable_sort_policy s' = mock_variable_sort_policy s"
  by (auto simp add: mock_sv_adjust_usage_data_def Let_def split: option.splits if_splits)

text \<open>
  The effect of \<open>mock_set_variable\<close> on a store that is in order: an error changes no
  variable; a new variable is inserted; the one that is there is deleted, replaced or
  extended in place.
\<close>

definition mock_effect :: "mock_state \<Rightarrow> string \<Rightarrow> guid \<Rightarrow> u32 \<Rightarrow> bytes \<Rightarrow> efi_status \<Rightarrow> mock_state \<Rightarrow> bool" where
  "mock_effect s n g a d st s' \<longleftrightarrow>
     mock_variable_sort_policy s' = mock_variable_sort_policy s \<and>
     (if EFI_ERROR st then mock_variables s' = mock_variables s
      else if (n, g) \<notin> mv_key ` set (mock_variables s) then
        d \<noteq> [] \<and> (\<exists>us vs. mock_variables s = us @ vs \<and>
           mock_variables s' = us @ \<lparr>mv_name = n, mv_guid = g, mv_attrs = a, mv_data = d\<rparr> # vs)
      else (\<exists>us v vs. mock_variables s = us @ v # vs \<and> mv_key v = (n, g) \<and>
        (d \<noteq> [] \<longrightarrow> mv_attrs v AND NOT EFI_VARIABLE_APPEND_WRITE = a AND NOT EFI_VARIABLE_APPEND_WRITE) \<and>
        mock_variables s' =
          (if append_write a then us @ v\<lparr>mv_data := mv_data v @ d\<rparr> # vs
           else if d = [] then us @ vs
           else us @ v\<lparr>mv_data := d\<rparr> # vs)))"

lemma mock_set_effect:
  assumes cmp: "cmp_ok cg sc" and good: "mock_good s"
    and set: "mock_set_variable cg sc s n g a d = (st, s')"
  shows "mock_effect s n g a d st s'"
proof (cases "n = [] \<or> a AND EFI_VARIABLE_RUNTIME_ACCESS \<noteq> 0 \<and> a AND EFI_VARIABLE_BOOTSERVICE_ACCESS = 0")
  case True
  then have "mock_set_variable cg sc s n g a d = (EFI_INVALID_PARAMETER, s)"
    by (elim disjE) (simp_all add: mock_set_variable_def)
  then show ?thesis using set by (simp add: mock_effect_def)
next
  case False
  then have pre: "n \<noteq> []" "\<not> (a AND EFI_VARIABLE_RUNTIME_ACCESS \<noteq> 0 \<and> a AND EFI_VARIABLE_BOOTSERVICE_ACCESS = 0)"
    by simp_all
  let ?f = "variable_cmp cg sc n g" and ?pol = "mock_variable_sort_policy s"
  have pol: "?pol \<in> {MOCK_SORT_APPEND, MOCK_SORT_PREPEND}" using good by (simp add: mock_good_def)
  show ?thesis
  proof (cases "(n, g) \<in> mv_key ` set (mock_variables s)")
    case absent: False
    then have "\<forall>v\<in>set (mock_variables s). ?f v \<noteq> 0" by (metis imageI variable_cmp_zero [OF cmp])
    from mock_search_absent [OF pol this, of 0 "- 1"]
    obtain c where c: "mock_search ?f ?pol (mock_variables s) 0 (- 1) = (length (mock_variables s), c, False)" "c \<noteq> 0"
      by auto
    show ?thesis
    proof (cases "d = []")
      case True
      then have "mock_set_variable cg sc s n g a d = (EFI_INVALID_PARAMETER, s)"
        using c pre by (simp add: mock_set_variable_def mock_set_new_def mock_new_variable_def)
      then show ?thesis using set by (simp add: mock_effect_def)
    next
      case d: False
      let ?v = "\<lparr>mv_name = n, mv_guid = g, mv_attrs = a, mv_data = d\<rparr>"
      obtain st1 s1 where adj: "mock_sv_adjust_usage_data s a (length d) (int (length d + 2 * (length n + 1))) = (st1, s1)"
        by fastforce
      have r: "st = EFI_SUCCESS"
        "s' = s1\<lparr>mock_variables := mock_insert (?pol \<noteq> MOCK_SORT_PREPEND) (length (mock_variables s)) ?v (mock_variables s1)\<rparr>"
        using set c pre d adj by (simp_all add: mock_set_variable_def mock_set_new_def mock_new_variable_def)
      note fr = adjust_frame [OF adj]
      have "\<exists>us vs. mock_variables s = us @ vs \<and> mock_variables s' = us @ ?v # vs"
      proof (cases "?pol = MOCK_SORT_PREPEND")
        case True
        then show ?thesis using r fr by (intro exI [of _ "[]"] exI [of _ "mock_variables s"]) (simp add: mock_insert_def)
      next
        case False
        then show ?thesis using r fr by (intro exI [of _ "mock_variables s"] exI [of _ "[]"]) (simp add: mock_insert_def)
      qed
      then show ?thesis using r fr d absent by (simp add: mock_effect_def)
    qed
  next
    case True
    then obtain v where v: "v \<in> set (mock_variables s)" "mv_key v = (n, g)" by auto
    then obtain us vs where s: "mock_variables s = us @ v # vs" by (auto simp add: in_set_conv_decomp)
    have "\<forall>u\<in>set us. ?f u \<noteq> 0"
      using good v s by (auto simp add: mock_good_def variable_cmp_zero [OF cmp] image_iff)
    then have c: "mock_search ?f ?pol (mock_variables s) 0 (- 1) = (length us, 0, True)"
      using mock_search_present [OF pol, of us ?f v vs 0 "- 1"] v variable_cmp_zero [OF cmp] s by simp
    have nth: "mock_variables s ! length us = v" using s by simp
    have r0: "mock_set_existing s (length us) a d = (st, s')"
      using set c pre by (simp add: mock_set_variable_def)
    let ?st = "mock_sv_attrs_status s (mv_attrs v) a d"
    show ?thesis
    proof (cases "EFI_ERROR ?st")
      case True
      then have "s' = s" "EFI_ERROR st" using r0 nth by (auto simp add: mock_set_existing_def)
      then show ?thesis by (simp add: mock_effect_def)
    next
      case False
      have r: "(st, s') = (if append_write a then mock_sv_extend s (length us) d
          else if d = [] then
            (if a AND (EFI_VARIABLE_TIME_BASED_AUTHENTICATED_WRITE_ACCESS
                       OR EFI_VARIABLE_ENHANCED_AUTHENTICATED_ACCESS) \<noteq> 0
             then (EFI_INVALID_PARAMETER, s) else mock_delete_variable s (length us))
          else mock_replace_variable s (length us) d)"
        using r0 False nth by (simp add: mock_set_existing_def del: not_None_eq)
      have att: "d \<noteq> [] \<longrightarrow> mv_attrs v AND NOT EFI_VARIABLE_APPEND_WRITE = a AND NOT EFI_VARIABLE_APPEND_WRITE"
        using False by (auto simp add: mock_sv_attrs_status_def mock_sv_attrs_match_def split: if_splits)
      have key: "(n, g) \<in> mv_key ` set (mock_variables s)" using v by (metis imageI)
      have eff: "mock_variable_sort_policy s' = ?pol \<and>
          (if EFI_ERROR st then mock_variables s' = mock_variables s
           else mock_variables s' =
             (if append_write a then us @ v\<lparr>mv_data := mv_data v @ d\<rparr> # vs
              else if d = [] then us @ vs else us @ v\<lparr>mv_data := d\<rparr> # vs))"
        using r s nth adjust_frame [of s "mv_attrs v"]
        by (auto simp add: mock_sv_extend_def mock_delete_variable_def mock_replace_variable_def Let_def
            split: if_splits prod.splits)
      show ?thesis unfolding mock_effect_def using eff att key s v by auto
    qed
  qed
qed

definition mv_entry :: "mock_variable \<Rightarrow> (string \<times> guid) \<times> (u32 \<times> bytes)" where
  "mv_entry v = (mv_key v, (mv_attrs v, mv_data v))"

lemma mock_vars_entries: "mock_vars s = map_of (map mv_entry (mock_variables s))"
  by (simp add: mock_vars_def mv_entry_def [abs_def])

lemma dom_entries: "map_of (map mv_entry vs) k = None \<longleftrightarrow> k \<notin> mv_key ` set vs"
  by (induction vs) (auto simp add: mv_entry_def)

lemma map_of_entries_middle:
  assumes "mv_key v \<notin> mv_key ` set us"
  shows "map_of (map mv_entry (us @ v # vs)) = (map_of (map mv_entry (us @ vs)))(mv_key v \<mapsto> (mv_attrs v, mv_data v))"
proof
  fix k
  show "map_of (map mv_entry (us @ v # vs)) k
      = ((map_of (map mv_entry (us @ vs)))(mv_key v \<mapsto> (mv_attrs v, mv_data v))) k"
    using assms dom_entries [of us "mv_key v"]
    by (auto simp add: map_add_def mv_entry_def split: option.splits)
qed

lemma mv_key_update [simp]: "mv_key (v\<lparr>mv_data := d\<rparr>) = mv_key v"
  by (simp add: mv_key_def)

lemma effect_good: "mock_good s \<Longrightarrow> mock_effect s n g a d st s' \<Longrightarrow> mock_good s'"
  by (auto simp add: mock_effect_def mock_good_def mv_key_def split: if_splits)

lemma effect_error: "mock_effect s n g a d st s' \<Longrightarrow> EFI_ERROR st \<Longrightarrow> mock_vars s' = mock_vars s"
  by (simp add: mock_effect_def mock_vars_def)

text \<open>The content of the store after a successful call.\<close>

lemma effect_vars:
  assumes good: "mock_good s" and eff: "mock_effect s n g a d st s'" and ok: "\<not> EFI_ERROR st"
  shows "if \<not> append_write a \<and> d = [] then mock_vars s' = (mock_vars s)((n, g) := None)
       else d \<noteq> [] \<longrightarrow> (\<exists>a'. a' AND NOT EFI_VARIABLE_APPEND_WRITE = a AND NOT EFI_VARIABLE_APPEND_WRITE
          \<and> mock_vars s' = (mock_vars s)((n, g) \<mapsto>
              (a', if append_write a then var_data (mock_vars s (n, g)) @ d else d)))"
proof -
  show ?thesis
  proof (cases "(n, g) \<in> mv_key ` set (mock_variables s)")
    case False
    let ?v = "\<lparr>mv_name = n, mv_guid = g, mv_attrs = a, mv_data = d\<rparr>"
    obtain us vs where s: "d \<noteq> []" "mock_variables s = us @ vs" "mock_variables s' = us @ ?v # vs"
      using eff ok False by (auto simp add: mock_effect_def)
    have k: "mv_key ?v = (n, g)" by (simp add: mv_key_def)
    have "mock_vars s' = (mock_vars s)((n, g) \<mapsto> (a, d))"
      using map_of_entries_middle [of ?v us vs] False s(2) k
      by (simp only: mock_vars_entries s) (auto simp add: mv_key_def)
    moreover have "var_data (mock_vars s (n, g)) = []"
      using False dom_entries [of "mock_variables s" "(n, g)"] by (simp add: mock_vars_entries var_data_def)
    ultimately show ?thesis using s(1) by auto
  next
    case True
    obtain us v vs where s: "mock_variables s = us @ v # vs" "mv_key v = (n, g)"
      and att: "d \<noteq> [] \<longrightarrow> mv_attrs v AND NOT EFI_VARIABLE_APPEND_WRITE = a AND NOT EFI_VARIABLE_APPEND_WRITE"
      and s': "mock_variables s' =
          (if append_write a then us @ v\<lparr>mv_data := mv_data v @ d\<rparr> # vs
           else if d = [] then us @ vs
           else us @ v\<lparr>mv_data := d\<rparr> # vs)"
      using eff ok True unfolding mock_effect_def by (simp only: if_False if_True not_not simp_thms) blast
    have nu: "(n, g) \<notin> mv_key ` set us" "(n, g) \<notin> mv_key ` set vs"
      using good s by (auto simp add: mock_good_def)
    have m: "mock_vars s = (map_of (map mv_entry (us @ vs)))((n, g) \<mapsto> (mv_attrs v, mv_data v))"
      using map_of_entries_middle [of v us vs] nu s by (simp add: mock_vars_entries)
    have none: "map_of (map mv_entry (us @ vs)) (n, g) = None"
      unfolding dom_entries using nu by auto
    have upd: "map_of (map mv_entry (us @ v\<lparr>mv_data := x\<rparr> # vs)) = (mock_vars s)((n, g) \<mapsto> (mv_attrs v, x))" for x
      using map_of_entries_middle [of "v\<lparr>mv_data := x\<rparr>" us vs] nu s m by simp
    show ?thesis
    proof (cases "append_write a")
      case True
      then have "mock_vars s' = (mock_vars s)((n, g) \<mapsto> (mv_attrs v, mv_data v @ d))"
        using upd [of "mv_data v @ d"] s' by (simp add: mock_vars_entries)
      moreover have "var_data (mock_vars s (n, g)) = mv_data v" using m by (simp add: var_data_def)
      ultimately show ?thesis using True att by auto
    next
      case False
      show ?thesis
      proof (cases "d = []")
        case True
        then have "mock_vars s' = map_of (map mv_entry (us @ vs))" using s' False by (simp add: mock_vars_entries)
        then show ?thesis using m none True False by (auto simp del: map_append)
      next
        case d: False
        then have "mock_vars s' = (mock_vars s)((n, g) \<mapsto> (mv_attrs v, d))"
          using upd [of d] s' False by (simp add: mock_vars_entries)
        then show ?thesis using False d att by auto
      qed
    qed
  qed
qed

lemma effect_frame:
  assumes good: "mock_good s" and eff: "mock_effect s n g a d st s'" and k: "k \<noteq> (n, g)"
  shows "mock_vars s' k = mock_vars s k"
proof (cases "EFI_ERROR st")
  case True
  then show ?thesis using effect_error [OF eff] by simp
next
  case ok: False
  show ?thesis
  proof (cases "\<not> append_write a \<and> d = [] \<or> d \<noteq> []")
    case True
    then show ?thesis using effect_vars [OF good eff ok] k by (auto split: if_splits)
  next
    case False
    then have d: "append_write a" "d = []" by auto
    then have "mock_variables s' = mock_variables s"
      using eff ok by (auto simp add: mock_effect_def split: if_splits)
    then show ?thesis by (simp add: mock_vars_def)
  qed
qed

lemma mock_variable_services:
  assumes "cmp_ok cg sc"
  shows "variable_services (mock_rt cg sc time) mock_vars mock_good"
proof (rule variable_services.intro, goal_cases)
  case (1 w n g hb sz)
  then show ?case
    by (simp add: mock_rt_def mock_get_variable_def mock_get_loop_find [OF assms] mock_vars_def)
next
  case (2 w n g a d sz hb)
  then show ?case
    by (simp add: mock_rt_def mock_get_variable_def mock_get_loop_find [OF assms] mock_vars_def)
next
  case (3 w n g a d sz)
  then show ?case
    by (simp add: mock_rt_def mock_get_variable_def mock_get_loop_find [OF assms] mock_vars_def)
next
  case (4 w k a d)
  then show ?case by (fastforce simp add: mock_good_def mock_vars_def dest!: map_of_SomeD)
next
  case (5 w n g a d st w')
  then show ?case using mock_set_effect [OF assms] effect_good by (simp add: mock_rt_def) blast
next
  case (6 w n g a d st w' k)
  then have e: "mock_effect w n g a d st w'" using mock_set_effect [OF assms] by (simp add: mock_rt_def)
  show ?case by (rule effect_frame [OF 6(1) e 6(3)])
next
  case (7 w n g a d st w')
  then show ?case using mock_set_effect [OF assms] effect_error by (simp add: mock_rt_def) blast
next
  case (8 w n g a d st w')
  then have e: "mock_effect w n g a d st w'" using mock_set_effect [OF assms] by (simp add: mock_rt_def)
  show ?case using effect_vars [OF 8(1) e 8(3)] 8(5,6) by auto
next
  case (9 w n g a st w')
  then have e: "mock_effect w n g a [] st w'" using mock_set_effect [OF assms] by (simp add: mock_rt_def)
  show ?case using effect_vars [OF 9(1) e 9(3)] 9(5) by simp
next
  case (10 w n g a d st w')
  then have e: "mock_effect w n g a d st w'" using mock_set_effect [OF assms] by (simp add: mock_rt_def)
  show ?case using effect_vars [OF 10(1) e 10(3)] 10(5,6) by auto
qed

text \<open>
  The instance: the comparators of the host, as lexicographic differences. The contract's
  facts about the store are the facts with the prefix \<open>mock\<close>.
\<close>

fun host_lex :: "nat list \<Rightarrow> nat list \<Rightarrow> int" where
  "host_lex [] [] = 0"
| "host_lex [] (b # bs) = - 1"
| "host_lex (a # as) [] = 1"
| "host_lex (a # as) (b # bs) = (if a = b then host_lex as bs else int a - int b)"

definition host_CompareGuid :: "guid \<Rightarrow> guid \<Rightarrow> int" where
  "host_CompareGuid a b = host_lex (map unat a) (map unat b)"

definition host_StrCmp :: "string \<Rightarrow> string \<Rightarrow> int" where
  "host_StrCmp a b = host_lex (map of_char a) (map of_char b)"

lemma host_lex_zero: "host_lex a b = 0 \<longleftrightarrow> a = b"
  by (induction a b rule: host_lex.induct) auto

lemma host_cmp_ok: "cmp_ok host_CompareGuid host_StrCmp"
proof -
  have "inj (unat :: u8 \<Rightarrow> nat)" by (simp add: inj_def word_unat_eq_iff)
  moreover have "inj (of_char :: char \<Rightarrow> nat)" by (simp add: inj_def)
  ultimately show ?thesis
    by (simp add: cmp_ok_def host_CompareGuid_def host_StrCmp_def host_lex_zero inj_map_eq_map)
qed

definition host_rt :: "mock_state efi_rt" where
  "host_rt = mock_rt host_CompareGuid host_StrCmp (EFI_SUCCESS, replicate 16 0)"

interpretation mock: variable_services host_rt mock_vars mock_good
  unfolding host_rt_def by (rule mock_variable_services [OF host_cmp_ok])

text \<open>A store without variables.\<close>

definition empty_store :: mock_state where
  "empty_store = \<lparr>mock_variables = [], mock_variable_sort_policy = MOCK_SORT_APPEND,
     mock_variable_delete_attr_policy = 1, mock_qvi_limits = [], mock_sv_limits = [], mock_cells = (\<lambda>_. 0)\<rparr>"

lemma empty_store_good: "mock_good empty_store" "mock_vars empty_store k = None"
  by (simp_all add: mock_good_def mock_vars_def empty_store_def)

end
