(* ===== verification/SbatSpec.thy ===== *)
theory SbatSpec
  imports Sbat MockVars
begin

text \<open>
  What sbat.c computes: the entries of a section and of the variable from their text, the
  verdict on an image, and the effect of \<open>set_sbat_uefi_variable\<close> on the variable store,
  proved from the contract of the variable services and instantiated to the store of
  mock-variables.c.
\<close>

section \<open>The revocation check, abstractly\<close>

text \<open>
  An entry is revoked when the first entry of the variable with its name has a greater
  generation, both read as 16-bit numbers.
\<close>

definition gen16 :: "(bytes \<Rightarrow> nat) \<Rightarrow> bytes \<Rightarrow> nat" where
  "gen16 atoi g = atoi g mod 65536"

definition revoked :: "(bytes \<Rightarrow> nat) \<Rightarrow> sbat_var_entry list \<Rightarrow> sbat_section_entry \<Rightarrow> bool" where
  "revoked atoi vs e \<longleftrightarrow>
     (case List.find (\<lambda>v. var_component_name v = component_name e) vs of
        None \<Rightarrow> False
      | Some v \<Rightarrow> gen16 atoi (component_generation e) < gen16 atoi (var_component_generation v))"

definition var_names_ok :: "sbat_var_entry list \<Rightarrow> bool" where
  "var_names_ok vs \<longleftrightarrow> (\<forall>v\<in>set vs. 0 \<notin> set (var_component_name v))"

lemma verify_single_entry_eq:
  assumes "0 \<notin> set (component_name e)" and "0 \<notin> set (var_component_name v)"
  shows "verify_single_entry atoi e v =
     Inr (if var_component_name v = component_name e then
            (if gen16 atoi (component_generation e) < gen16 atoi (var_component_generation v)
             then EFI_SECURITY_VIOLATION else EFI_SUCCESS, True)
          else (EFI_SUCCESS, False))"
proof -
  obtain d where d: "strcmp (component_name e @ [0]) (var_component_name v @ [0]) = Inr d"
    using strcmp_total [OF assms] by blast
  have "d = 0 \<longleftrightarrow> component_name e = var_component_name v"
    using strcmp_zero_iff [OF assms, of "[]" "[]"] d by auto
  moreover have "(word_of_nat a :: u16) < word_of_nat b \<longleftrightarrow> a mod 65536 < b mod 65536" for a b
    by (simp add: word_less_nat_alt unat_of_nat)
  ultimately show ?thesis using d by (auto simp add: verify_single_entry_def gen16_def)
qed

lemma verify_entry_loop_eq:
  assumes "0 \<notin> set (component_name e)" and "var_names_ok vs"
  shows "verify_entry_loop atoi e vs = Inr (if revoked atoi vs e then EFI_SECURITY_VIOLATION else EFI_SUCCESS)"
  using assms(2)
  by (induction vs) (auto simp add: verify_single_entry_eq [OF assms(1)] revoked_def var_names_ok_def)

lemma verify_entries_loop_eq:
  assumes "\<forall>e\<in>set es. 0 \<notin> set (component_name e)" and "var_names_ok vs"
  shows "verify_entries_loop atoi vs es
       = Inr (if \<exists>e\<in>set es. revoked atoi vs e then EFI_SECURITY_VIOLATION else EFI_SUCCESS)"
  using assms(1) by (induction es) (auto simp add: verify_entry_loop_eq assms(2))

lemma verify_sbat_helper_eq:
  assumes "\<forall>e\<in>set es. 0 \<notin> set (component_name e)" and "var_names_ok vs"
  shows "verify_sbat_helper atoi vs es
       = Inr (if \<exists>e\<in>set es. revoked atoi vs e then EFI_SECURITY_VIOLATION else EFI_SUCCESS)"
  using verify_entries_loop_eq [OF assms] by (auto simp add: verify_sbat_helper_def revoked_def)

section \<open>Sections, from the text\<close>

lemma cstr_hd: "p < length s \<Longrightarrow> cstr (drop p s) = [] \<longleftrightarrow> s ! p = 0"
  by (simp add: cstr_def Cons_nth_drop_Suc [symmetric])

lemma strlen_in_row: "0 \<in> set (drop p s) \<Longrightarrow> strlen (drop p s) = Inr (length (cstr (drop p s)))"
  by (simp add: strlen_cstr)

lemma check_columns_eq:
  assumes "\<forall>p\<in>set ps. p < length s \<and> 0 \<in> set (drop p s)"
  shows "check_columns s (map Some ps)
       = (if [] \<in> set (map (\<lambda>p. cstr (drop p s)) ps) then Inl (Status EFI_INVALID_PARAMETER)
          else Inr (sum_list (map (\<lambda>p. length (cstr (drop p s)) + 1) ps)))"
  using assms
proof (induction ps)
  case (Cons p ps)
  then show ?case
    using cstr_hd [of p s] strlen_in_row [of p s] idx_ok [of p s]
    by (cases "s ! p = 0") (auto simp add: eq_commute [of "[]"])
qed simp

definition fields_ok :: "nat \<Rightarrow> bytes list \<Rightarrow> bool" where
  "fields_ok req fs \<longleftrightarrow> req \<le> length fs \<and> [] \<notin> set fs"

lemma row_filled_ptrs:
  assumes "rows_closed s [r]"
  obtains ps where "n_columns r = length ps" and "take (n_columns r) (columns r) = map Some ps"
    and "row_strs s r = map (\<lambda>p. cstr (drop p s)) ps"
    and "\<forall>p\<in>set ps. p < length s \<and> 0 \<in> set (drop p s)"
    and "\<And>i. i < length ps \<Longrightarrow> i < length (columns r) \<and> columns r ! i = Some (ps ! i)"
proof -
  obtain ps j where r: "r = \<lparr>n_columns = length ps, columns = map Some ps @ replicate j None\<rparr>"
    using assms by (auto simp add: rows_closed_def row_filled_def)
  have "\<forall>p\<in>set ps. p < length s \<and> 0 \<in> set (drop p s)"
    using assms r by (auto simp add: rows_closed_def)
  then show ?thesis using that [of ps] r by (auto simp add: row_strs_filled nth_append)
qed

lemma check_rows_eq:
  assumes "rows_closed s rows"
  shows "if \<forall>r\<in>set rows. fields_ok req (row_strs s r) then \<exists>k. check_rows s req esz rows = Inr k
         else check_rows s req esz rows = Inl (Status EFI_INVALID_PARAMETER)"
  using assms
proof (induction rows)
  case (Cons r rows)
  have r: "rows_closed s [r]" and rs: "rows_closed s rows" using Cons.prems by (auto simp add: rows_closed_def)
  obtain ps where ps: "n_columns r = length ps" "take (n_columns r) (columns r) = map Some ps"
    "row_strs s r = map (\<lambda>p. cstr (drop p s)) ps" "\<forall>p\<in>set ps. p < length s \<and> 0 \<in> set (drop p s)"
    using row_filled_ptrs [OF r] by metis
  note cc = check_columns_eq [OF ps(4)]
  show ?case
  proof (cases "fields_ok req (row_strs s r)")
    case True
    then have "req \<le> n_columns r" "[] \<notin> set (map (\<lambda>p. cstr (drop p s)) ps)"
      using ps by (simp_all add: fields_ok_def)
    then show ?thesis using Cons.IH [OF rs] True cc ps(1,2) by (auto simp add: bind_guardR)
  next
    case False
    then have "\<not> req \<le> n_columns r \<or> [] \<in> set (map (\<lambda>p. cstr (drop p s)) ps)"
      using ps by (simp add: fields_ok_def)
    then show ?thesis using False cc ps(1,2) by (auto simp add: bind_guardR)
  qed
qed simp

lemma copy_column_eq:
  assumes "rows_closed s [r]" and "i < length (row_strs s r)"
  shows "copy_column s r i = Inr (row_strs s r ! i)"
proof -
  obtain ps where ps: "row_strs s r = map (\<lambda>p. cstr (drop p s)) ps"
    "\<forall>p\<in>set ps. p < length s \<and> 0 \<in> set (drop p s)"
    "i < length ps \<Longrightarrow> i < length (columns r) \<and> columns r ! i = Some (ps ! i)"
    using row_filled_ptrs [OF assms(1)] by metis
  let ?p = "ps ! i"
  have i: "i < length ps" using assms(2) ps(1) by simp
  then have p: "0 \<in> set (drop ?p s)" "?p < length s" using ps(2) by auto
  have "length (cstr (drop ?p s)) \<le> length (drop ?p s)" unfolding cstr_def by (rule length_takeWhile_le)
  then have "get_bytes s ?p (length (cstr (drop ?p s))) = Inr (cstr (drop ?p s))"
    using p(2) by (simp add: get_bytes_def cstr_def takeWhile_eq_take [symmetric] del: length_takeWhile_le)
  then show ?thesis using ps i strlen_in_row [OF p(1)] by (simp add: copy_column_def)
qed

definition entry_of :: "bytes list \<Rightarrow> sbat_section_entry" where
  "entry_of f = \<lparr>component_name = f ! 0, component_generation = f ! 1, vendor_name = f ! 2,
     vendor_package_name = f ! 3, vendor_version = f ! 4, vendor_url = f ! 5\<rparr>"

definition var_entry_of :: "bytes list \<Rightarrow> sbat_var_entry" where
  "var_entry_of f = \<lparr>var_component_name = f ! 0, var_component_generation = f ! 1,
     var_sbat_datestamp = (if length f < 3 then None else Some (f ! 2))\<rparr>"

lemma section_entry_eq:
  assumes "rows_closed s [r]" and "6 \<le> length (row_strs s r)"
  shows "section_entry s r = Inr (entry_of (row_strs s r))"
proof -
  have "copy_column s r 0 = Inr (row_strs s r ! 0)"
    by (rule copy_column_eq [OF assms(1)]) (use assms(2) in linarith)
  then show ?thesis using copy_column_eq [OF assms(1)] assms(2) by (simp add: section_entry_def entry_of_def)
qed

lemma var_entry_eq:
  assumes "rows_closed s [r]" and "2 \<le> length (row_strs s r)"
  shows "var_entry s r = Inr (var_entry_of (row_strs s r))"
proof -
  obtain ps where "n_columns r = length ps" "row_strs s r = map (\<lambda>p. cstr (drop p s)) ps"
    using row_filled_ptrs [OF assms(1)] by metis
  then have "n_columns r = length (row_strs s r)" by simp
  moreover have "copy_column s r 0 = Inr (row_strs s r ! 0)"
    by (rule copy_column_eq [OF assms(1)]) (use assms(2) in linarith)
  ultimately show ?thesis using copy_column_eq [OF assms(1)] assms(2)
    by (auto simp add: var_entry_def var_entry_of_def)
qed

lemma map_res_eq: "(\<And>x. x \<in> set xs \<Longrightarrow> f x = Inr (g x)) \<Longrightarrow> map_res f xs = Inr (map g xs)"
  by (induction xs) auto

lemma rows_closed_each: "rows_closed s rows \<Longrightarrow> r \<in> set rows \<Longrightarrow> rows_closed s [r]"
  by (auto simp add: rows_closed_def)

text \<open>The rows of a text and the entries they stand for.\<close>

definition csv_rows :: "nat \<Rightarrow> bytes \<Rightarrow> bytes list list" where
  "csv_rows n t = map (csv_fields n) (csv_lines (strip_bom t))"

lemma parse_sbat_section_eq:
  assumes t: "0 \<notin> set t" "t \<noteq> []" "length t + 2 < 2 ^ 64" and pool: "\<forall>i. pool i"
  shows "parse_sbat_section pool (t @ [0]) (length t + 1)
       = (if \<forall>f\<in>set (csv_rows 6 t). fields_ok 6 f then Inr (map entry_of (csv_rows 6 t))
          else Inl (Status EFI_INVALID_PARAMETER))"
proof -
  obtain s rows where p: "parse_csv_data pool (t @ [0]) (length t) 6 = Inr (s, rows)"
    and c: "rows_closed s rows" and m: "map (row_strs s) rows = csv_rows 6 t"
    using parse_csv_data_correct [OF t pool, of 6] by (auto simp add: csv_rows_def)
  have all: "(\<forall>f\<in>set (csv_rows 6 t). fields_ok 6 f) \<longleftrightarrow> (\<forall>r\<in>set rows. fields_ok 6 (row_strs s r))"
    by (simp add: m [symmetric])
  show ?thesis
  proof (cases "\<forall>r\<in>set rows. fields_ok 6 (row_strs s r)")
    case True
    obtain k where k: "check_rows s 6 (8 + 48) rows = Inr k"
      using check_rows_eq [OF c, of 6 "8 + 48"] True by auto
    have "map_res (section_entry s) rows = Inr (map (\<lambda>r. entry_of (row_strs s r)) rows)"
      by (rule map_res_eq, rule section_entry_eq) (use rows_closed_each [OF c] True in \<open>auto simp add: fields_ok_def\<close>)
    also have "map (\<lambda>r. entry_of (row_strs s r)) rows = map entry_of (csv_rows 6 t)"
      unfolding m [symmetric] by simp
    finally show ?thesis using p k all True pool m
      by (auto simp add: parse_sbat_section_def SBAT_SECTION_COLUMNS_def)
  next
    case False
    then have "check_rows s 6 (8 + 48) rows = Inl (Status EFI_INVALID_PARAMETER)"
      using check_rows_eq [OF c, of 6 "8 + 48"] by presburger
    then show ?thesis using p all False
      by (simp add: parse_sbat_section_def SBAT_SECTION_COLUMNS_def)
  qed
qed

lemma parse_sbat_var_data_eq:
  assumes t: "0 \<notin> set t" "t \<noteq> []" "length t + 2 < 2 ^ 64" and pool: "\<forall>i. pool i"
  shows "parse_sbat_var_data pool (t @ [0]) (length t + 1)
       = (if \<forall>f\<in>set (csv_rows 3 t). fields_ok 2 f then Inr (map var_entry_of (csv_rows 3 t))
          else Inl (Status EFI_INVALID_PARAMETER))"
proof -
  obtain s rows where p: "parse_csv_data pool (t @ [0]) (length t) 3 = Inr (s, rows)"
    and c: "rows_closed s rows" and m: "map (row_strs s) rows = csv_rows 3 t"
    using parse_csv_data_correct [OF t pool, of 3] by (auto simp add: csv_rows_def)
  have all: "(\<forall>f\<in>set (csv_rows 3 t). fields_ok 2 f) \<longleftrightarrow> (\<forall>r\<in>set rows. fields_ok 2 (row_strs s r))"
    by (simp add: m [symmetric])
  show ?thesis
  proof (cases "\<forall>r\<in>set rows. fields_ok 2 (row_strs s r)")
    case True
    obtain k where k: "check_rows s 2 (8 + 40) rows = Inr k"
      using check_rows_eq [OF c, of 2 "8 + 40"] True by auto
    have "map_res (var_entry s) rows = Inr (map (\<lambda>r. var_entry_of (row_strs s r)) rows)"
      by (rule map_res_eq, rule var_entry_eq) (use rows_closed_each [OF c] True in \<open>auto simp add: fields_ok_def\<close>)
    also have "map (\<lambda>r. var_entry_of (row_strs s r)) rows = map var_entry_of (csv_rows 3 t)"
      unfolding m [symmetric] by simp
    finally show ?thesis using p k all True pool
      by (simp add: parse_sbat_var_data_def SBAT_VAR_COLUMNS_def SBAT_VAR_REQUIRED_COLUMNS_def)
  next
    case False
    then have "check_rows s 2 (8 + 40) rows = Inl (Status EFI_INVALID_PARAMETER)"
      using check_rows_eq [OF c, of 2 "8 + 40"] by presburger
    then show ?thesis using p all False
      by (simp add: parse_sbat_var_data_def SBAT_VAR_COLUMNS_def SBAT_VAR_REQUIRED_COLUMNS_def)
  qed
qed


section \<open>An image's section against the variable\<close>

lemma split_byte_no_nul: "0 \<notin> set x \<Longrightarrow> f \<in> set (split_byte c x) \<Longrightarrow> 0 \<notin> set f"
proof (induction c x rule: split_byte.induct)
  case (1 c x)
  have "0 \<notin> set (tl (dropWhile (\<lambda>b. b \<noteq> c) x))"
    using 1(2) by (metis list.sel(2) list.set_sel(2) set_dropWhileD)
  then show ?case
    using 1 set_takeWhileD [of 0 "\<lambda>b. b \<noteq> c" x] by (subst (asm) split_byte.simps) (auto split: if_splits)
qed

lemma csv_lines_no_nul: "0 \<notin> set t \<Longrightarrow> l \<in> set (csv_lines t) \<Longrightarrow> 0 \<notin> set l"
proof (induction t rule: csv_lines.induct)
  case (1 t)
  let ?r = "dropWhile is_nl t" and ?l = "takeWhile (\<lambda>c. \<not> is_nl c) (dropWhile is_nl t)"
  have r: "0 \<notin> set ?r" using 1(2) by (meson set_dropWhileD)
  have "0 \<notin> set ?l" using r by (meson set_takeWhileD)
  moreover have "0 \<notin> set (drop (length ?l + 1) ?r)" using r by (meson in_set_dropD)
  ultimately show ?case using 1(1) [OF refl refl] 1(3)
    by (subst (asm) csv_lines.simps) (auto simp add: Let_def split: if_splits)
qed

lemma csv_rows_no_nul:
  assumes "0 \<notin> set t" and "f \<in> set (csv_rows n t)" and "x \<in> set f"
  shows "0 \<notin> set x"
proof -
  obtain l where l: "l \<in> set (csv_lines (strip_bom t))" "f = csv_fields n l"
    using assms(2) by (auto simp add: csv_rows_def)
  have "0 \<notin> set (strip_bom t)" using assms(1) by (auto simp add: strip_bom_def dest: in_set_dropD)
  then have "0 \<notin> set l" using csv_lines_no_nul l(1) by blast
  moreover have "x \<in> set (split_byte 0x2c l)"
    using assms(3) l(2) by (auto simp add: csv_fields_def dest: in_set_takeD split: if_splits)
  ultimately show ?thesis using split_byte_no_nul by blast
qed

lemma verify_sbat_section_eq:
  assumes t: "0 \<notin> set t" "t \<noteq> []" "length t + 2 < 2 ^ 64" and pool: "\<forall>i. pool i"
    and vs: "vs \<noteq> []" "var_names_ok vs"
  shows "verify_sbat_section pool atoi vs in_protocol (Some t)
       = Inr (if \<exists>f\<in>set (csv_rows 6 t). \<not> fields_ok 6 f then EFI_INVALID_PARAMETER
              else if \<exists>f\<in>set (csv_rows 6 t). revoked atoi vs (entry_of f) then EFI_SECURITY_VIOLATION
              else EFI_SUCCESS)"
proof -
  have pl: "pool (length t + 1)" using pool by blast
  note ps = parse_sbat_section_eq [OF t pool]
  show ?thesis
  proof (cases "\<forall>f\<in>set (csv_rows 6 t). fields_ok 6 f")
    case False
    then have "parse_sbat_section pool (t @ [0]) (length t + 1) = Inl (Status EFI_INVALID_PARAMETER)"
      using ps by presburger
    then show ?thesis using False t(2,3) pl vs(1) by (auto simp add: verify_sbat_section_def)
  next
    case True
    then have p: "parse_sbat_section pool (t @ [0]) (length t + 1) = Inr (map entry_of (csv_rows 6 t))"
      using ps by presburger
    have "\<forall>e\<in>set (map entry_of (csv_rows 6 t)). 0 \<notin> set (component_name e)"
    proof
      fix e assume "e \<in> set (map entry_of (csv_rows 6 t))"
      then obtain f where f: "f \<in> set (csv_rows 6 t)" "e = entry_of f" by auto
      have "0 < length f" using True f(1) by (fastforce simp add: fields_ok_def)
      then have "f ! 0 \<in> set f" by (rule nth_mem)
      with csv_rows_no_nul [OF t(1) f(1)] f(2) show "0 \<notin> set (component_name e)"
        by (simp add: entry_of_def)
    qed
    from verify_sbat_helper_eq [OF this vs(2), of atoi] show ?thesis
      using p t(2,3) pl vs(1) True by (auto simp add: verify_sbat_section_def)
  qed
qed

section \<open>Statuses of the parser\<close>

text \<open>
  The low-level routines return no status, and what the parser returns is an error.
\<close>

definition err_only :: "'a res \<Rightarrow> bool" where
  "err_only m \<longleftrightarrow> (\<forall>st. m = Inl (Status st) \<longrightarrow> EFI_ERROR st)"

lemma err_only_simps [simp]:
  "err_only (Inr x)" "err_only (Inl Fault)" "err_only (Inl (Status st)) \<longleftrightarrow> EFI_ERROR st"
  by (simp_all add: err_only_def)

lemma err_only_bind: "err_only m \<Longrightarrow> (\<And>x. m = Inr x \<Longrightarrow> err_only (f x)) \<Longrightarrow> err_only (bindR m f)"
  by (auto simp add: err_only_def bindR_eq_Inl)

lemma err_only_idx [simp]: "err_only (idx s i)" "err_only (upd_idx s i b)" "err_only (get_bytes s i n)"
  by (simp_all add: idx_def upd_idx_def get_bytes_def)

lemma err_only_strlen [simp]: "err_only (strlen s)"
  by (simp add: strlen_cstr)

lemma err_only_scan [simp]: "err_only (strnchrnul_scan s p n c)"
  by (induction n arbitrary: p) (auto intro!: err_only_bind)

lemma err_only_strnchrnul [simp]: "err_only (strnchrnul s p n c)"
  by (auto simp add: strnchrnul_def intro!: err_only_bind)

lemma err_only_delims [simp]: "err_only (strntoken_delims s str mx ds tok st te a b)"
  by (induction ds arbitrary: te a b) (auto simp add: Let_def intro!: err_only_bind)

lemma err_only_strntoken [simp]: "err_only (strntoken s str mx ds tok st)"
  by (auto simp add: strntoken_def intro!: err_only_bind split: prod.splits)

lemma err_only_line [simp]: "err_only (parse_csv_line_loop k n s next mx valid tok st m)"
  by (induction k arbitrary: n s "next" mx valid tok st m)
     (auto intro!: err_only_bind split: prod.splits option.splits)

lemma err_only_pass [simp]: "err_only (csv_skip_pass s ds line mx f)"
  by (induction ds arbitrary: line mx f) (auto intro!: err_only_bind)

lemma err_only_skip [simp]: "err_only (csv_skip s line mx)"
proof (induction s line mx rule: csv_skip.induct)
  case (1 s line mx)
  then show ?case
    by (subst csv_skip.simps) (auto simp del: csv_skip_pass.simps intro!: err_only_bind split: prod.splits)
qed

lemma err_only_find [simp]: "err_only (csv_find_end s line mx ds e)"
  by (induction ds arbitrary: e) (auto intro!: err_only_bind)

lemma err_only_rows [simp]: "err_only (parse_csv_rows pool de n s line rows)"
proof (induction "de + 1 - line" arbitrary: s line rows rule: less_induct)
  case less
  show ?case
  proof (cases "line \<le> de")
    case True
    have ih: "err_only (parse_csv_rows pool de n s' (Suc e) rows')" if "line \<le> e" for s' e rows'
      using less [of "Suc e" s' rows'] True that by simp
    show ?thesis
      by (subst parse_csv_rows.simps, auto simp add: Let_def parse_csv_line_def simp del: csv_find_end.simps
            intro!: err_only_bind split: prod.splits dest!: csv_skip_ge csv_find_end_ge2)
         (use True in \<open>auto intro!: ih\<close>)
  qed (simp add: parse_csv_rows.simps)
qed

lemma err_only_bom [simp]: "err_only (is_utf8_bom s p n)"
  by (simp add: is_utf8_bom_def Let_def)

lemma err_only_csv [simp]: "err_only (parse_csv_data pool s de n)"
  by (auto simp add: parse_csv_data_def intro!: err_only_bind)

lemma err_only_columns [simp]: "err_only (check_columns s cs)"
  by (induction cs) (auto intro!: err_only_bind split: option.splits)

lemma err_only_guard [simp]: "EFI_ERROR st \<Longrightarrow> err_only (guardR c st)"
  by (simp add: guardR_def)

lemma err_only_check_rows [simp]: "err_only (check_rows s req esz rs)"
  by (induction rs) (auto intro!: err_only_bind)

lemma err_only_copy [simp]: "err_only (copy_column s r i)"
  by (auto simp add: copy_column_def intro!: err_only_bind split: option.splits)

lemma err_only_map: "(\<And>x. err_only (f x)) \<Longrightarrow> err_only (map_res f xs)"
  by (induction xs) (auto intro!: err_only_bind)

lemma err_only_entries [simp]: "err_only (section_entry s r)" "err_only (var_entry s r)"
  by (auto simp add: section_entry_def var_entry_def intro!: err_only_bind)

lemma err_only_var_data [simp]: "err_only (parse_sbat_var_data pool data n)"
  by (auto simp add: parse_sbat_var_data_def intro!: err_only_bind err_only_map split: prod.splits)

lemma parse_sbat_var_error: "parse_sbat_var env w (Some c) = Inl (Status st) \<Longrightarrow> EFI_ERROR st"
proof -
  have "err_only (parse_sbat_var env w (Some c))"
    by (auto simp add: parse_sbat_var_def intro!: err_only_bind)
  then show "parse_sbat_var env w (Some c) = Inl (Status st) \<Longrightarrow> EFI_ERROR st" by (simp add: err_only_def)
qed

section \<open>Updating the variable\<close>

lemma strncmp_same: "0 \<notin> set t \<Longrightarrow> x \<noteq> [] \<Longrightarrow> strncmp (t @ x) (t @ y) (length t) = Inr 0"
proof (induction t)
  case Nil
  then show ?case by (cases x) auto
qed simp

text \<open>The keys of the two variables are different.\<close>

definition level_key :: "bool \<Rightarrow> string \<times> guid" where
  "level_key devel = (SBAT_VAR_NAME devel, SHIM_LOCK_GUID)"

definition policy_key :: "string \<times> guid" where
  "policy_key = (''SbatPolicy'', SHIM_LOCK_GUID)"

lemma level_not_policy [simp]: "level_key devel \<noteq> policy_key" "policy_key \<noteq> level_key devel"
  by (simp_all add: level_key_def policy_key_def SBAT_VAR_NAME_def)

lemma sbat_attrs_plain: "plain_attrs (SBAT_VAR_ATTRS devel)" "\<not> append_write (SBAT_VAR_ATTRS devel)"
  by (simp_all add: plain_attrs_def append_write_def SBAT_VAR_ATTRS_def var_attr_defs)

context variable_services
begin

lemma write_candidate:
  assumes g: "good w" and rt: "se_rt env = rt" and pool: "\<forall>n. se_pool env n"
    and t: "0 \<notin> set t" "t \<noteq> []"
  shows "\<exists>st w'. write_sbat_candidate env w (t @ 0 # r) = Inr (st, w') \<and> good w'
      \<and> (\<forall>k. k \<noteq> level_key (se_devel env) \<longrightarrow> vars w' k = vars w k)
      \<and> (if EFI_ERROR st then vars w' = vars w
         else st = EFI_SUCCESS \<and> (\<exists>a. vars w' (level_key (se_devel env)) = Some (a, t)))"
proof -
  let ?L = "SBAT_VAR_NAME (se_devel env)"
  obtain st w' where s: "SetVariable rt w ?L SHIM_LOCK_GUID (SBAT_VAR_ATTRS (se_devel env)) t = (st, w')"
    by fastforce
  have gw: "good w'" and fr: "\<And>k. k \<noteq> level_key (se_devel env) \<Longrightarrow> vars w' k = vars w k"
    using set_good [OF g s] set_frame [OF g s] by (auto simp add: level_key_def)
  show ?thesis
  proof (cases "EFI_ERROR st")
    case True
    then have "write_sbat_candidate env w (t @ 0 # r) = Inr (st, w')"
      using s rt t by (simp add: write_sbat_candidate_def set_variable_def)
    then show ?thesis using gw fr True set_error [OF g s True] by auto
  next
    case False
    obtain a where v: "vars w' (?L, SHIM_LOCK_GUID) = Some (a, t)"
      using set_write [OF g s False sbat_attrs_plain t(2)] by auto
    have "get_variable rt (se_pool env) w' ?L SHIM_LOCK_GUID = (EFI_SUCCESS, Some (t @ [0, 0, 0]), length t)"
      using get_present [OF gw v] pool by simp
    then have "write_sbat_candidate env w (t @ 0 # r) = Inr (EFI_SUCCESS, w')"
      using s rt t False strncmp_same [OF t(1), of "[0, 0, 0]" "0 # r"]
      by (simp add: write_sbat_candidate_def set_variable_def)
    then show ?thesis using gw fr v by (auto simp add: level_key_def)
  qed
qed

lemma read_policy:
  assumes g: "good w" and rt: "se_rt env = rt" and pool: "\<forall>n. se_pool env n"
  shows "\<exists>st a s' w'. read_sbat_policy env s w = Inr (st, a, s', w') \<and> good w'
      \<and> sbat_var s' = sbat_var s \<and> (\<forall>k. k \<noteq> policy_key \<longrightarrow> vars w' k = vars w k)"
proof (cases "sbat_policy s = POLICY_NOTREAD")
  case False
  then show ?thesis using g by (simp add: read_sbat_policy_def)
next
  case True
  show ?thesis
  proof (cases "vars w policy_key")
    case None
    then obtain sz where "get_variable_attr rt (se_pool env) w True ''SbatPolicy'' SHIM_LOCK_GUID = (EFI_NOT_FOUND, None, sz, None)"
      using get_attr_missing [OF g, of "''SbatPolicy''" SHIM_LOCK_GUID "se_pool env" True] by (auto simp add: policy_key_def)
    then show ?thesis using True g rt by (simp add: read_sbat_policy_def)
  next
    case (Some v)
    then obtain a d where v: "vars w (''SbatPolicy'', SHIM_LOCK_GUID) = Some (a, d)" by (cases v) (auto simp add: policy_key_def)
    have ga: "get_variable_attr rt (se_pool env) w True ''SbatPolicy'' SHIM_LOCK_GUID
        = (EFI_SUCCESS, Some (d @ [0, 0, 0]), length d, Some a)"
      by (rule get_attr_present [OF g v]) (use pool in simp)
    obtain st w' where s: "SetVariable rt w ''SbatPolicy'' SHIM_LOCK_GUID 0 [] = (st, w')" by fastforce
    obtain p ps where "d @ [0, 0, 0] = p # ps" by (cases "d @ [0, 0, 0]") auto
    then have "read_sbat_policy env s w = Inr (EFI_SUCCESS, a, s\<lparr>sbat_policy := p\<rparr>, w')"
      using True ga rt s by (simp add: read_sbat_policy_def clear_sbat_policy_def del_variable_def set_variable_def)
    then show ?thesis using set_good [OF g s] set_frame [OF g s] by (auto simp add: policy_key_def)
  qed
qed

text \<open>
  The effect of \<open>set_sbat_uefi_variable\<close> when it returns: only the two variables are
  touched; a success leaves the level as it was, when it is not older than the candidate
  (or was not reset), or makes it the candidate.
\<close>

lemma set_sbat_effect:
  assumes g: "good w" and rt: "se_rt env = rt" and pool: "\<forall>n. se_pool env n"
    and a: "automatic = ta @ 0 # ra" "0 \<notin> set ta" "ta \<noteq> []"
    and l: "latest = tl' @ 0 # rl" "0 \<notin> set tl'" "tl' \<noteq> []"
    and secure: "\<forall>w. se_secure env w"
    and run: "set_sbat_uefi_variable env ip s w automatic latest = Inr (st, s', w')"
  shows "good w' \<and> (\<forall>k. k \<noteq> policy_key \<and> k \<noteq> level_key (se_devel env) \<longrightarrow> vars w' k = vars w k)
      \<and> (EFI_ERROR st \<longrightarrow> (\<forall>at d. vars w (level_key (se_devel env)) = Some (at, d) \<longrightarrow> plain_attrs at \<and> \<not> append_write at)
           \<longrightarrow> vars w' (level_key (se_devel env)) \<in> {vars w (level_key (se_devel env)), None})
      \<and> (\<not> EFI_ERROR st \<longrightarrow> (\<exists>(c, t) \<in> {(automatic, ta), (latest, tl')}.
           (\<exists>at. vars w' (level_key (se_devel env)) = Some (at, t))
         \<or> (vars w' (level_key (se_devel env)) = vars w (level_key (se_devel env)) \<and>
            (\<exists>at d. vars w (level_key (se_devel env)) = Some (at, d) \<and>
              preserve_sbat_uefi_variable (se_devel env) (d @ [0, 0, 0]) (length d) at c = Inr True))))"
proof -
  let ?L = "level_key (se_devel env)" and ?n = "SBAT_VAR_NAME (se_devel env)"
  obtain st1 a1 s1 w1 where r: "read_sbat_policy env s w = Inr (st1, a1, s1, w1)" and g1: "good w1"
    and f1: "\<And>k. k \<noteq> policy_key \<Longrightarrow> vars w1 k = vars w k"
    using read_policy [OF g rt pool] by blast
  obtain c where ch: "choose_sbat_candidate (EFI_ERROR st1) (se_secure env w1) (sbat_policy s1) automatic latest = (c, False)"
    and c: "c = automatic \<or> c = latest"
    using secure by (cases "EFI_ERROR st1"; cases "sbat_policy s1 = POLICY_LATEST")
      (auto simp add: choose_sbat_candidate_def split: if_splits)
  obtain t rc where ct: "c = t @ 0 # rc" "0 \<notin> set t" "t \<noteq> []" "(c, t) \<in> {(automatic, ta), (latest, tl')}"
    using c a l by blast
  have L1: "vars w1 ?L = vars w ?L" by (rule f1) simp
  show ?thesis
  proof (cases "vars w1 ?L")
    case None
    then obtain sz where ga: "get_variable_attr rt (se_pool env) w1 True ?n SHIM_LOCK_GUID = (EFI_NOT_FOUND, None, sz, None)"
      using get_attr_missing [OF g1, of ?n SHIM_LOCK_GUID "se_pool env" True] by (auto simp add: level_key_def)
    obtain st2 w2 where w2: "write_sbat_candidate env w1 c = Inr (st2, w2)" and q: "good w2"
      "\<forall>k. k \<noteq> ?L \<longrightarrow> vars w2 k = vars w1 k"
      "if EFI_ERROR st2 then vars w2 = vars w1 else st2 = EFI_SUCCESS \<and> (\<exists>a. vars w2 ?L = Some (a, t))"
      using write_candidate [OF g1 rt pool ct(2,3), of rc] ct(1) by blast
    have "(st, w') = (st2, w2)" using run r ch ga w2 rt by (simp add: set_sbat_uefi_variable_def)
    then show ?thesis using q f1 L1 None ct(4) by (auto split: if_splits)
  next
    case (Some v)
    then obtain at d where v: "vars w1 (?n, SHIM_LOCK_GUID) = Some (at, d)" by (cases v) (auto simp add: level_key_def)
    have ga: "get_variable_attr rt (se_pool env) w1 True ?n SHIM_LOCK_GUID
        = (EFI_SUCCESS, Some (d @ [0, 0, 0]), length d, Some at)"
      by (rule get_attr_present [OF g1 v]) (use pool in simp)
    obtain p where p: "preserve_sbat_uefi_variable (se_devel env) (d @ [0, 0, 0]) (length d) at c = Inr p"
      using run r ch ga rt by (auto simp add: set_sbat_uefi_variable_def res_simps)
    show ?thesis
    proof (cases p)
      case True
      then have "(st, w') = (EFI_SUCCESS, w1)" using run r ch ga p rt by (simp add: set_sbat_uefi_variable_def)
      then show ?thesis using g1 f1 L1 v p True ct(4) by (auto simp add: level_key_def)
    next
      case False
      note run1 = run [unfolded set_sbat_uefi_variable_def r bindR_Inr prod.case ch rt ga]
      show ?thesis
      proof (cases "parse_sbat_var env w1 (Some c)")
        case (Inl e)
        then have "w' = w1 \<and> e = Status st" using run1 p False by (auto split: exc.splits)
        then show ?thesis using g1 f1 L1 parse_sbat_var_error [of env w1 c st] Inl by auto
      next
        case (Inr entries)
        obtain st3 where vs: "verify_sbat_section (se_pool env) (se_atoi env) entries ip (Some (se_shim_sbat env)) = Inr st3"
          using run1 p False Inr by (auto simp add: res_simps Let_def)
        obtain st4 w4 where d4: "SetVariable rt w1 ?n SHIM_LOCK_GUID at [] = (st4, w4)" by fastforce
        show ?thesis
        proof (cases "EFI_ERROR st3")
          case True
          then have "w' = w1 \<and> st = st3" using run1 p Inr False vs by simp
          then show ?thesis using g1 f1 L1 True by auto
        next
          case ok3: False
          show ?thesis
          proof (cases "EFI_ERROR st4")
            case True
            then have "w' = w4 \<and> st = st4" using run1 p Inr False vs ok3 d4 by (simp add: set_variable_def)
            then show ?thesis using set_good [OF g1 d4] set_error [OF g1 d4 True] f1 L1 True by auto
          next
            case ok4: False
            have g4: "good w4" by (rule set_good [OF g1 d4])
            have f4: "\<And>k. k \<noteq> ?L \<Longrightarrow> vars w4 k = vars w1 k"
              using set_frame [OF g1 d4] by (simp add: level_key_def)
            obtain st5 w5 where w5: "write_sbat_candidate env w4 c = Inr (st5, w5)" and q: "good w5"
              "\<forall>k. k \<noteq> ?L \<longrightarrow> vars w5 k = vars w4 k"
              "if EFI_ERROR st5 then vars w5 = vars w4 else st5 = EFI_SUCCESS \<and> (\<exists>a. vars w5 ?L = Some (a, t))"
              using write_candidate [OF g4 rt pool ct(2,3), of rc] ct(1) by blast
            have e: "st = st5" "w' = w5" using run1 p Inr False vs ok3 ok4 d4 w5 by (simp_all add: set_variable_def)
            show ?thesis
            proof (cases "EFI_ERROR st5")
              case True
              then have "vars w5 = vars w4" using q(3) by simp
              moreover have "vars w4 ?L = None" if "plain_attrs at \<and> \<not> append_write at"
                using set_delete [OF g1 d4 ok4] that by (simp add: level_key_def)
              moreover have "vars w ?L = Some (at, d)" using v L1 by (simp add: level_key_def)
              ultimately show ?thesis using e q(1,2) f4 f1 True by auto
            next
              case False
              then show ?thesis using e q f4 f1 L1 ct(4) by auto
            qed
          qed
        qed
      qed
    qed
  qed
qed

end

section \<open>Properties\<close>

text \<open>
  \<open>parse_sbat_section\<close> on a NUL-terminated section yields one entry per line, its six
  fields in order, and fails with \<open>EFI_INVALID_PARAMETER\<close> exactly when some line has
  fewer than six fields or an empty one.
\<close>

theorem parse_sbat_section_entries:
  assumes "0 \<notin> set t" and "t \<noteq> []" and "length t + 2 < 2 ^ 64" and "\<forall>i. pool i"
  shows "parse_sbat_section pool (t @ [0]) (length t + 1)
       = (if \<forall>f\<in>set (csv_rows 6 t). fields_ok 6 f then Inr (map entry_of (csv_rows 6 t))
          else Inl (Status EFI_INVALID_PARAMETER))"
  using assms by (rule parse_sbat_section_eq)

lemma parse_sbat_section_entries_witness:
  "parse_sbat_section (\<lambda>_. True) ([0x61, 0x2c, 0x31] @ [0]) 4 = Inl (Status EFI_INVALID_PARAMETER)"
proof -
  have r: "csv_rows 6 [0x61, 0x2c, 0x31] = [[[0x61], [0x31]]]"
    by (simp add: csv_rows_def strip_bom_def utf8_bom_def csv_lines.simps csv_fields_def split_byte.simps is_nl_def)
  have l: "length [0x61, 0x2c, 0x31 :: u8] + 1 = 4" by simp
  have "parse_sbat_section (\<lambda>_. True) ([0x61, 0x2c, 0x31] @ [0]) (length [0x61, 0x2c, 0x31 :: u8] + 1)
      = (if \<forall>f\<in>set (csv_rows 6 [0x61, 0x2c, 0x31]). fields_ok 6 f
         then Inr (map entry_of (csv_rows 6 [0x61, 0x2c, 0x31])) else Inl (Status EFI_INVALID_PARAMETER))"
    by (rule parse_sbat_section_entries) simp_all
  then show ?thesis unfolding l r by (simp add: fields_ok_def)
qed


text \<open>A section with the line \<open>a,1,v,p,q,u\<close>, with generations read from the first digit.\<close>

definition demo_atoi :: "bytes \<Rightarrow> nat" where
  "demo_atoi s = (case s of [] \<Rightarrow> 0 | c # _ \<Rightarrow> unat c - 0x30)"



definition demo_env :: "mock_state sbat_env" where
  "demo_env = \<lparr>se_rt = host_rt, se_pool = (\<lambda>_. True), se_devel = False, se_atoi = demo_atoi,
     se_secure = (\<lambda>_. True), se_shim_sbat = [], se_heap_byte = 0\<rparr>"

definition demo_sbat :: sbat_state where
  "demo_sbat = \<lparr>sbat_policy = POLICY_NOTREAD, ssp_policy = POLICY_NOTREAD, sbat_var = []\<rparr>"

lemma demo_run:
  "\<exists>st s' w'. set_sbat_uefi_variable demo_env False demo_sbat empty_store [0x61, 0] [0x62, 0] = Inr (st, s', w')"
proof -
  obtain sz where p: "get_variable_attr host_rt (\<lambda>_. True) empty_store True ''SbatPolicy'' SHIM_LOCK_GUID
      = (EFI_NOT_FOUND, None, sz, None)"
    using mock.get_attr_missing [OF empty_store_good(1), of "''SbatPolicy''" SHIM_LOCK_GUID "\<lambda>_. True" True]
    by (auto simp add: empty_store_good)
  obtain sz' where l: "get_variable_attr host_rt (\<lambda>_. True) empty_store True ''SbatLevel'' SHIM_LOCK_GUID
      = (EFI_NOT_FOUND, None, sz', None)"
    using mock.get_attr_missing [OF empty_store_good(1), of "''SbatLevel''" SHIM_LOCK_GUID "\<lambda>_. True" True]
    by (auto simp add: empty_store_good)
  have "\<exists>st w'. write_sbat_candidate demo_env empty_store ([0x61] @ 0 # []) = Inr (st, w')"
    using mock.write_candidate [OF empty_store_good(1), of demo_env "[0x61]" "[]"] by (auto simp add: demo_env_def)
  then obtain st w' where "write_sbat_candidate demo_env empty_store [0x61, 0] = Inr (st, w')" by auto
  then show ?thesis using p l
    by (simp add: set_sbat_uefi_variable_def read_sbat_policy_def choose_sbat_candidate_def demo_env_def
        demo_sbat_def SBAT_VAR_NAME_def)
qed


text \<open>
  Enrolling a SHA-256 hash into a variable other than the signature database, in the
  store of mock-variables.c: the run returns; a hash that is there already gives
  \<open>EFI_ALREADY_STARTED\<close>; after a success the hash is found in the variable; a failure
  changes nothing; no other variable changes.
\<close>

theorem variable_enroll_hash_found:
  assumes "mock_good w" and "\<forall>l\<in>set ls. esl_wf l" and "\<forall>n. pool n"
    and "var_data (mock_vars w (n, g)) = concat (map esl_bytes ls)"
    and "length hash = 32" and "g \<noteq> SIG_DB"
  shows "\<exists>st w'. variable_enroll_hash host_rt pool w n g hash = Some (Inr (st, w'))
      \<and> mock_good w' \<and> (\<forall>k. k \<noteq> (n, g) \<longrightarrow> mock_vars w' k = mock_vars w k)
      \<and> (EFI_ERROR st \<longrightarrow> mock_vars w' = mock_vars w)
      \<and> ((\<exists>l\<in>set ls. esl_has hash l) \<longrightarrow> st = EFI_ALREADY_STARTED)
      \<and> (\<not> EFI_ERROR st \<longrightarrow>
           find_in_variable_esl host_rt pool w' n g hash = Some (Inr EFI_SUCCESS))"
  using assms by (rule mock.enroll_hash)

lemma variable_enroll_hash_found_witness:
  "\<exists>st w'. variable_enroll_hash host_rt (\<lambda>_. True) empty_store ''MokListX'' SHIM_LOCK_GUID (replicate 32 7)
     = Some (Inr (st, w')) \<and> mock_good w'"
proof -
  have "SHIM_LOCK_GUID \<noteq> SIG_DB" by (simp add: SHIM_LOCK_GUID_def SIG_DB_def mk_guid_def le_bytes_numeral)
  then show ?thesis
    using variable_enroll_hash_found [OF empty_store_good(1), of "[]" "\<lambda>_. True" "''MokListX''" SHIM_LOCK_GUID "replicate 32 7"]
    by (auto simp add: empty_store_good var_data_def)
qed

text \<open>
  \<open>get_variable_size\<close> never succeeds for a variable that exists: the size query is
  answered by \<open>get_variable_attr\<close> with \<open>EFI_INVALID_PARAMETER\<close>, a status the caller
  does not expect.
\<close>

theorem get_variable_size_of_existing:
  assumes "mock_good w" and "mock_vars w (n, g) = Some (a, d)"
  shows "get_variable_size host_rt pool w n g = (EFI_INVALID_PARAMETER, None)"
  using assms by (rule mock.size_of_present)

definition empty_store1 :: mock_state where
  "empty_store1 = empty_store\<lparr>mock_variables :=
     [\<lparr>mv_name = ''MokList'', mv_guid = SHIM_LOCK_GUID, mv_attrs = 3, mv_data = [1, 2]\<rparr>]\<rparr>"

lemma get_variable_size_of_existing_witness:
  "get_variable_size host_rt (\<lambda>_. True) empty_store1 ''MokList'' SHIM_LOCK_GUID = (EFI_INVALID_PARAMETER, None)"
  by (rule get_variable_size_of_existing [of _ _ _ 3 "[1, 2]"])
     (simp_all add: empty_store1_def empty_store_def mock_good_def mock_vars_def mv_key_def)

end
