(* ===== verification/SigDb.thy ===== *)
theory SigDb
  imports MockVars
begin

text \<open>
  shim.c, the signature databases: the search for a hash or a certificate in a list of
  \<open>EFI_SIGNATURE_LIST\<close>s, and the deny and allow lists. OpenSSL and the Authenticode check of
  the crypto library are parameters. As for \<open>find_in_esl\<close>, nothing bounds a list's size from
  below, so a run that does not return is \<open>None\<close>.
\<close>

section \<open>Runs that may not return\<close>

definition bindO :: "'a res option \<Rightarrow> ('a \<Rightarrow> 'b res option) \<Rightarrow> 'b res option" where
  "bindO m f = (case m of None \<Rightarrow> None | Some (Inl e) \<Rightarrow> Some (Inl e) | Some (Inr x) \<Rightarrow> f x)"

lemma bindO_simps [simp]:
  "bindO None f = None" "bindO (Some (Inl e)) f = Some (Inl e)" "bindO (Some (Inr x)) f = f x"
  by (simp_all add: bindO_def)

lemma bindO_eq: "bindO m f = Some (Inr y) \<longleftrightarrow> (\<exists>x. m = Some (Inr x) \<and> f x = Some (Inr y))"
  by (simp add: bindO_def split: option.splits sum.splits)

definition returns :: "'a res option \<Rightarrow> bool" where
  "returns m \<longleftrightarrow> (\<exists>x. m = Some (Inr x))"

section \<open>The code\<close>

datatype check_status = DATA_FOUND | DATA_NOT_FOUND | VAR_NOT_FOUND

datatype verification_method = VERIFIED_BY_NOTHING | VERIFIED_BY_CERT | VERIFIED_BY_HASH

text \<open>
  The crypto library: \<open>AuthenticodeVerify sig cert hash\<close> and the extended key usages of a
  certificate (\<open>None\<close> when it does not parse or has none); the lists compiled into shim
  (\<open>None\<close> when the build has none), and the firmware's services.
\<close>

record 'w verify_env =
  ve_rt :: "'w efi_rt"
  ve_pool :: "nat \<Rightarrow> bool"
  ve_authenticode :: "bytes \<Rightarrow> bytes \<Rightarrow> bytes \<Rightarrow> bool"
  ve_ekus :: "bytes \<Rightarrow> string list option"
  ve_vendor_deauthorized :: bytes
  ve_vendor_db :: "bytes option"
  ve_build_cert :: "bytes option"
  ve_vendor_cert :: "bytes option"
  ve_ignore_db :: bool
  ve_user_insecure_mode :: bool

definition OID_EKU_MODSIGN :: string where "OID_EKU_MODSIGN = ''1.3.6.1.4.1.2312.16.1.2''"

text \<open>\<open>db\<close> is the object the certificate lies in, at \<open>p\<close>; \<open>size\<close> is a \<open>UINTN\<close>.\<close>

definition verify_x509 :: "bytes \<Rightarrow> nat \<Rightarrow> nat \<Rightarrow> bool res" where
  "verify_x509 db p sz =
     (if sz < 4 then Inr False
      else bindR (idx db p) (\<lambda>b0.
        if b0 \<noteq> 0x30 then Inr False
        else bindR (idx db (p + 1)) (\<lambda>b1.
          if b1 \<noteq> 0x82 then Inr False
          else bindR (idx db (p + 2)) (\<lambda>b2. bindR (idx db (p + 3)) (\<lambda>b3.
            Inr (256 * unat b2 + unat b3 = sz - 4))))))"

definition verify_eku :: "'w verify_env \<Rightarrow> bytes \<Rightarrow> bool" where
  "verify_eku env cert = (case ve_ekus env cert of None \<Rightarrow> True | Some us \<Rightarrow> OID_EKU_MODSIGN \<notin> set us)"

text \<open>One list of \<open>check_db_cert_in_ram\<close>: its first entry, if it is a certificate.\<close>

definition check_list_cert :: "'w verify_env \<Rightarrow> bytes \<Rightarrow> nat \<Rightarrow> bytes \<Rightarrow> bytes \<Rightarrow> bool res" where
  "check_list_cert env db cl sig hash =
     bindR (get_bytes db cl 16) (\<lambda>ty.
     if ty \<noteq> EFI_CERT_TYPE_X509_GUID then Inr False
     else bindR (get_le db (cl + 20) 4) (\<lambda>hsz. bindR (get_le db (cl + 24) 4) (\<lambda>ssz.
       let cert = cl + sizeof_ESL + hsz + 16; cert_size = (ssz + 2 ^ 64 - 16) mod 2 ^ 64 in
       bindR (verify_x509 db cert cert_size) (\<lambda>x509.
       if \<not> x509 then Inr False
       else bindR (get_bytes db cert cert_size) (\<lambda>c.
         Inr (verify_eku env c \<and> ve_authenticode env sig c hash))))))"

partial_function (option) check_db_cert_loop ::
  "'w verify_env \<Rightarrow> bytes \<Rightarrow> bytes \<Rightarrow> bytes \<Rightarrow> nat \<Rightarrow> nat \<Rightarrow> check_status res option"
where
  "check_db_cert_loop env db sig hash cl dbsize =
     (if 0 < dbsize then
        (case get_le db (cl + 16) 4 of
           Inl e \<Rightarrow> Some (Inl e)
         | Inr lsz \<Rightarrow>
             if lsz \<le> dbsize then
               (case check_list_cert env db cl sig hash of
                  Inl e \<Rightarrow> Some (Inl e)
                | Inr found \<Rightarrow>
                    if found then Some (Inr DATA_FOUND)
                    else check_db_cert_loop env db sig hash (cl + lsz) (dbsize - lsz))
             else Some (Inr DATA_NOT_FOUND))
      else Some (Inr DATA_NOT_FOUND))"

declare check_db_cert_loop.simps [code]

definition check_db_cert_in_ram ::
  "'w verify_env \<Rightarrow> bytes \<Rightarrow> nat \<Rightarrow> bytes \<Rightarrow> bytes \<Rightarrow> check_status res option"
where
  "check_db_cert_in_ram env db dbsize sig hash = check_db_cert_loop env db sig hash 0 dbsize"

definition check_db_cert ::
  "'w verify_env \<Rightarrow> 'w \<Rightarrow> string \<Rightarrow> guid \<Rightarrow> bytes \<Rightarrow> bytes \<Rightarrow> check_status res option"
where
  "check_db_cert env w dbname guid sig hash =
     (case get_variable (ve_rt env) (ve_pool env) w dbname guid of (st, d, n) \<Rightarrow>
        if EFI_ERROR st then Some (Inr VAR_NOT_FOUND)
        else (case d of None \<Rightarrow> Some (Inl Fault) | Some db \<Rightarrow> check_db_cert_in_ram env db n sig hash))"

text \<open>The entries of one list of \<open>check_db_hash_in_ram\<close>.\<close>

fun scan_hashes :: "bytes \<Rightarrow> bytes \<Rightarrow> nat \<Rightarrow> nat \<Rightarrow> nat \<Rightarrow> bool res" where
  "scan_hashes db hash ssz 0 cert = Inr False"
| "scan_hashes db hash ssz (Suc k) cert =
     bindR (get_bytes db (cert + 16) (length hash)) (\<lambda>b.
       if b = hash then Inr True else scan_hashes db hash ssz k (cert + ssz))"

text \<open>The number of entries is computed in \<open>size_t\<close>; a zero signature size is a division by zero.\<close>

definition check_list_hash :: "bytes \<Rightarrow> nat \<Rightarrow> nat \<Rightarrow> bytes \<Rightarrow> guid \<Rightarrow> bool res" where
  "check_list_hash db cl lsz hash ct =
     bindR (get_le db (cl + 20) 4) (\<lambda>hsz. bindR (get_le db (cl + 24) 4) (\<lambda>ssz.
     if ssz = 0 then Inl Fault
     else let count = ((lsz + 2 * 2 ^ 64 - sizeof_ESL - hsz) mod 2 ^ 64) div ssz in
       bindR (get_bytes db cl 16) (\<lambda>ty.
         if ty = ct then scan_hashes db hash ssz count (cl + sizeof_ESL + hsz) else Inr False)))"

partial_function (option) check_db_hash_loop ::
  "bytes \<Rightarrow> bytes \<Rightarrow> guid \<Rightarrow> nat \<Rightarrow> nat \<Rightarrow> check_status res option"
where
  "check_db_hash_loop db hash ct cl dbsize =
     (if 0 < dbsize then
        (case get_le db (cl + 16) 4 of
           Inl e \<Rightarrow> Some (Inl e)
         | Inr lsz \<Rightarrow>
             if lsz \<le> dbsize then
               (case check_list_hash db cl lsz hash ct of
                  Inl e \<Rightarrow> Some (Inl e)
                | Inr found \<Rightarrow>
                    if found then Some (Inr DATA_FOUND)
                    else check_db_hash_loop db hash ct (cl + lsz) (dbsize - lsz))
             else Some (Inr DATA_NOT_FOUND))
      else Some (Inr DATA_NOT_FOUND))"

declare check_db_hash_loop.simps [code]

definition check_db_hash_in_ram :: "bytes \<Rightarrow> nat \<Rightarrow> bytes \<Rightarrow> guid \<Rightarrow> check_status res option" where
  "check_db_hash_in_ram db dbsize hash ct = check_db_hash_loop db hash ct 0 dbsize"

definition check_db_hash ::
  "'w verify_env \<Rightarrow> 'w \<Rightarrow> string \<Rightarrow> guid \<Rightarrow> bytes \<Rightarrow> guid \<Rightarrow> check_status res option"
where
  "check_db_hash env w dbname guid hash ct =
     (case get_variable (ve_rt env) (ve_pool env) w dbname guid of (st, d, n) \<Rightarrow>
        if EFI_ERROR st then Some (Inr VAR_NOT_FOUND)
        else (case d of None \<Rightarrow> Some (Inl Fault) | Some db \<Rightarrow> check_db_hash_in_ram db n hash ct))"

text \<open>A chain of checks, each an early return when it finds the data, with what it returns.\<close>

fun first_found :: "(check_status res option \<times> 'a) list \<Rightarrow> 'a \<Rightarrow> 'a res option" where
  "first_found [] dflt = Some (Inr dflt)"
| "first_found ((c, r) # cs) dflt = bindO c (\<lambda>st. if st = DATA_FOUND then Some (Inr r) else first_found cs dflt)"

definition deny_checks ::
  "'w verify_env \<Rightarrow> 'w \<Rightarrow> bytes option \<Rightarrow> bytes \<Rightarrow> bytes \<Rightarrow> (check_status res option \<times> efi_status) list"
where
  "deny_checks env w cert sha256hash sha1hash =
     (let dbx = ve_vendor_deauthorized env; viol = EFI_SECURITY_VIOLATION;
          with_cert = (\<lambda>f. case cert of None \<Rightarrow> [] | Some c \<Rightarrow> [(f c, viol)]) in
        [(check_db_hash_in_ram dbx (length dbx) sha256hash EFI_CERT_SHA256_GUID, viol),
         (check_db_hash_in_ram dbx (length dbx) sha1hash EFI_CERT_SHA1_GUID, viol)]
      @ with_cert (\<lambda>c. check_db_cert_in_ram env dbx (length dbx) c sha256hash)
      @ [(check_db_hash env w ''dbx'' EFI_SECURE_BOOT_DB_GUID sha256hash EFI_CERT_SHA256_GUID, viol),
         (check_db_hash env w ''dbx'' EFI_SECURE_BOOT_DB_GUID sha1hash EFI_CERT_SHA1_GUID, viol)]
      @ with_cert (\<lambda>c. check_db_cert env w ''dbx'' EFI_SECURE_BOOT_DB_GUID c sha256hash)
      @ [(check_db_hash env w ''MokListX'' SHIM_LOCK_GUID sha256hash EFI_CERT_SHA256_GUID, viol)]
      @ with_cert (\<lambda>c. check_db_cert env w ''MokListX'' SHIM_LOCK_GUID c sha256hash))"

definition check_denylist ::
  "'w verify_env \<Rightarrow> 'w \<Rightarrow> bytes option \<Rightarrow> bytes \<Rightarrow> bytes \<Rightarrow> efi_status res option"
where
  "check_denylist env w cert sha256hash sha1hash =
     first_found (deny_checks env w cert sha256hash sha1hash) EFI_SUCCESS"

definition update_verification_method :: "verification_method \<Rightarrow> verification_method \<Rightarrow> verification_method" where
  "update_verification_method m vm = (if vm = VERIFIED_BY_NOTHING then m else vm)"

text \<open>
  Each check of the allow list comes with the value of \<open>verification_method\<close> it leaves; all
  but the first assign it before they update it.
\<close>

definition allow_checks ::
  "'w verify_env \<Rightarrow> 'w \<Rightarrow> bytes option \<Rightarrow> bytes \<Rightarrow> bytes \<Rightarrow> verification_method
   \<Rightarrow> (check_status res option \<times> efi_status \<times> verification_method) list"
where
  "allow_checks env w cert sha256hash sha1hash vm =
     (let with_cert = (\<lambda>f. case cert of None \<Rightarrow> []
                         | Some c \<Rightarrow> [(f c, EFI_SUCCESS, update_verification_method VERIFIED_BY_CERT VERIFIED_BY_CERT)]);
          by_hash = (EFI_SUCCESS, update_verification_method VERIFIED_BY_HASH VERIFIED_BY_HASH) in
      (if ve_ignore_db env then [] else
         [(check_db_hash env w ''db'' EFI_SECURE_BOOT_DB_GUID sha256hash EFI_CERT_SHA256_GUID,
           EFI_SUCCESS, update_verification_method VERIFIED_BY_HASH vm),
          (check_db_hash env w ''db'' EFI_SECURE_BOOT_DB_GUID sha1hash EFI_CERT_SHA1_GUID, by_hash)]
         @ with_cert (\<lambda>c. check_db_cert env w ''db'' EFI_SECURE_BOOT_DB_GUID c sha256hash))
      @ (case ve_vendor_db env of None \<Rightarrow> [] | Some db \<Rightarrow>
           [(check_db_hash_in_ram db (length db) sha256hash EFI_CERT_SHA256_GUID, by_hash)]
           @ with_cert (\<lambda>c. check_db_cert_in_ram env db (length db) c sha256hash))
      @ [(check_db_hash env w ''MokListRT'' SHIM_LOCK_GUID sha256hash EFI_CERT_SHA256_GUID, by_hash)]
      @ with_cert (\<lambda>c. check_db_cert env w ''MokListRT'' SHIM_LOCK_GUID c sha256hash))"

definition check_allowlist ::
  "'w verify_env \<Rightarrow> 'w \<Rightarrow> bytes option \<Rightarrow> bytes \<Rightarrow> bytes \<Rightarrow> verification_method
   \<Rightarrow> (efi_status \<times> verification_method) res option"
where
  "check_allowlist env w cert sha256hash sha1hash vm =
     first_found (allow_checks env w cert sha256hash sha1hash vm)
       (EFI_NOT_FOUND, update_verification_method VERIFIED_BY_NOTHING vm)"

definition secure_mode :: "'w verify_env \<Rightarrow> 'w \<Rightarrow> bool" where
  "secure_mode env w =
     (if ve_user_insecure_mode env then False
      else if variable_is_secureboot (ve_rt env) w \<noteq> 1 then False
      else if variable_is_setupmode (ve_rt env) w 0 = 1 then False
      else True)"

text \<open>A signature of the file, against the lists and then the built-in certificates.\<close>

definition verify_one_signature ::
  "'w verify_env \<Rightarrow> 'w \<Rightarrow> bytes \<Rightarrow> bytes \<Rightarrow> bytes \<Rightarrow> verification_method
   \<Rightarrow> (efi_status \<times> verification_method) res option"
where
  "verify_one_signature env w sig sha256hash sha1hash vm =
     bindO (check_denylist env w (Some sig) sha256hash sha1hash) (\<lambda>st.
     if EFI_ERROR st then Some (Inr (st, vm))
     else bindO (check_allowlist env w (Some sig) sha256hash sha1hash vm) (\<lambda>(st, vm).
       if \<not> EFI_ERROR st then Some (Inr (st, vm))
       else let by_cert = (\<lambda>c. c \<noteq> [] \<and> ve_authenticode env sig c sha256hash) in
         if (case ve_build_cert env of None \<Rightarrow> False | Some c \<Rightarrow> by_cert c)
         then Some (Inr (EFI_SUCCESS, update_verification_method VERIFIED_BY_CERT vm))
         else if (case ve_vendor_cert env of None \<Rightarrow> False | Some c \<Rightarrow> by_cert c)
         then Some (Inr (EFI_SUCCESS, update_verification_method VERIFIED_BY_CERT vm))
         else Some (Inr (EFI_NOT_FOUND, vm))))"


section \<open>What the searches decide\<close>

definition db_wf :: "guid \<Rightarrow> nat \<Rightarrow> esl list \<Rightarrow> bool" where
  "db_wf ct n ls \<longleftrightarrow> (\<forall>l\<in>set ls. esl_wf l \<and> 0 < esl_size l \<and> (esl_type l = ct \<longrightarrow> esl_size l = n + 16))"

definition db_has :: "guid \<Rightarrow> bytes \<Rightarrow> esl list \<Rightarrow> bool" where
  "db_has ct hash ls \<longleftrightarrow> (\<exists>l\<in>set ls. esl_type l = ct \<and> hash \<in> snd ` set (esl_sigs l))"

definition found_status :: "bool \<Rightarrow> check_status" where
  "found_status b = (if b then DATA_FOUND else DATA_NOT_FOUND)"

lemma found_status_eq [simp]: "found_status b = DATA_FOUND \<longleftrightarrow> b"
  by (simp add: found_status_def)

lemma scan_hashes_sigs:
  assumes "\<forall>x\<in>set sigs. length (fst x) = 16 \<and> length (snd x) = length hash"
  shows "scan_hashes (pre @ concat (map sig_bytes sigs) @ post) hash (length hash + 16) (length sigs) (length pre)
       = Inr (hash \<in> snd ` set sigs)"
  using assms
proof (induction sigs arbitrary: pre)
  case (Cons x sigs)
  have l: "length (fst x) = 16" "length (snd x) = length hash" using Cons.prems by auto
  have g: "get_bytes (pre @ concat (map sig_bytes (x # sigs)) @ post) (length pre + 16) (length hash) = Inr (snd x)"
    using get_bytes_at [of "pre @ fst x" "length pre + 16" "snd x" "length hash"] l by (simp add: sig_bytes_def)
  have "scan_hashes ((pre @ sig_bytes x) @ concat (map sig_bytes sigs) @ post) hash (length hash + 16) (length sigs)
      (length (pre @ sig_bytes x)) = Inr (hash \<in> snd ` set sigs)"
    using Cons.prems by (intro Cons.IH) simp
  then have "scan_hashes (pre @ concat (map sig_bytes (x # sigs)) @ post) hash (length hash + 16) (length sigs)
      (length pre + (length hash + 16)) = Inr (hash \<in> snd ` set sigs)"
    using l by (simp add: sig_bytes_def algebra_simps)
  then show ?case using g by auto
qed simp

lemma get_bytes_type:
  assumes "esl_wf l"
  shows "get_bytes (pre @ esl_bytes l @ post) (length pre) 16 = Inr (esl_type l)"
  using get_bytes_at [of pre "length pre" "esl_type l" 16] assms
  by (simp add: esl_wf_def esl_bytes_def esl_header_def)

lemma esl_count:
  assumes "esl_wf l" and "0 < esl_size l"
  shows "((esl_len l + 2 * 2 ^ 64 - sizeof_ESL - length (esl_hdr l)) mod 2 ^ 64) div esl_size l = length (esl_sigs l)"
proof -
  have w: "esl_len l < 2 ^ 32" using assms(1) by (simp add: esl_wf_def)
  let ?n = "esl_size l * length (esl_sigs l)"
  have "esl_len l + 2 * 2 ^ 64 - sizeof_ESL - length (esl_hdr l) = ?n + 2 * 2 ^ 64" by (simp add: esl_len_def)
  moreover have "?n < 2 ^ 64" using w by (simp add: esl_len_def)
  ultimately have "(esl_len l + 2 * 2 ^ 64 - sizeof_ESL - length (esl_hdr l)) mod 2 ^ 64 = ?n"
    by (simp only: mod_mult_self1 mod_less)
  then show ?thesis using assms(2) by simp
qed

lemma check_list_hash_wf:
  assumes "esl_wf l" and "0 < esl_size l" and "esl_type l = ct \<longrightarrow> esl_size l = length hash + 16"
  shows "check_list_hash (pre @ esl_bytes l @ post) (length pre) (esl_len l) hash ct
       = Inr (esl_type l = ct \<and> hash \<in> snd ` set (esl_sigs l))"
proof -
  note f = esl_fields [OF assms(1), of pre post] get_bytes_type [OF assms(1), of pre post]
  show ?thesis
  proof (cases "esl_type l = ct")
    case False
    then show ?thesis using f assms(2) by (simp add: check_list_hash_def)
  next
    case True
    let ?pre = "pre @ esl_header (esl_type l) (esl_len l) (length (esl_hdr l)) (esl_size l) @ esl_hdr l"
    have lp: "length ?pre = length pre + sizeof_ESL + length (esl_hdr l)"
      using assms(1) by (simp add: esl_wf_def sizeof_ESL_def)
    have "\<forall>x\<in>set (esl_sigs l). length (fst x) = 16 \<and> length (snd x) = length hash"
      using assms(1,3) True by (auto simp add: esl_wf_def)
    from scan_hashes_sigs [OF this, of ?pre post]
    have "scan_hashes (pre @ esl_bytes l @ post) hash (length hash + 16) (length (esl_sigs l))
        (length pre + sizeof_ESL + length (esl_hdr l)) = Inr (hash \<in> snd ` set (esl_sigs l))"
      unfolding lp by (simp add: esl_bytes_def)
    moreover have "((esl_len l + 2 * 2 ^ 64 - sizeof_ESL - length (esl_hdr l)) mod 2 ^ 64) div (length hash + 16)
        = length (esl_sigs l)"
      using esl_count [OF assms(1,2)] True assms(3) by simp
    ultimately show ?thesis
      using f True assms(2,3) unfolding check_list_hash_def Let_def by simp
  qed
qed

lemma check_db_hash_lists:
  assumes "db_wf ct (length hash) ls"
  shows "check_db_hash_loop (pre @ concat (map esl_bytes ls) @ post) hash ct (length pre)
           (length (concat (map esl_bytes ls))) = Some (Inr (found_status (db_has ct hash ls)))"
  using assms
proof (induction ls arbitrary: pre)
  case Nil
  then show ?case by (simp add: check_db_hash_loop.simps db_has_def found_status_def)
next
  case (Cons l ls)
  have wf: "esl_wf l" "0 < esl_size l" "esl_type l = ct \<longrightarrow> esl_size l = length hash + 16"
    and wfs: "db_wf ct (length hash) ls"
    using Cons.prems by (auto simp add: db_wf_def)
  let ?rest = "concat (map esl_bytes ls) @ post"
  let ?d = "pre @ esl_bytes l @ ?rest" and ?n = "length (concat (map esl_bytes (l # ls)))"
  have n: "?n = esl_len l + length (concat (map esl_bytes ls))"
    using length_esl_bytes [OF wf(1)] by simp
  have pos: "0 < esl_len l" by (simp add: esl_len_def sizeof_ESL_def)
  have ih: "check_db_hash_loop ?d hash ct (length pre + esl_len l) (?n - esl_len l)
      = Some (Inr (found_status (db_has ct hash ls)))"
    using Cons.IH [OF wfs, of "pre @ esl_bytes l"] length_esl_bytes [OF wf(1)] by simp
  have "check_db_hash_loop ?d hash ct (length pre) ?n = Some (Inr (found_status (db_has ct hash (l # ls))))"
    using esl_fields(1) [OF wf(1), of pre ?rest] check_list_hash_wf [OF wf, of pre ?rest] ih n pos
    by (subst check_db_hash_loop.simps) (auto simp add: db_has_def found_status_def)
  then show ?case by simp
qed

lemma check_db_hash_in_ram_wf:
  assumes "db_wf ct (length hash) ls"
  shows "check_db_hash_in_ram (concat (map esl_bytes ls) @ pad) (length (concat (map esl_bytes ls))) hash ct
       = Some (Inr (found_status (db_has ct hash ls)))"
  using check_db_hash_lists [OF assms, of "[]" pad] by (simp add: check_db_hash_in_ram_def)

text \<open>Only the first entry of a list of certificates is tried.\<close>

definition der_x509 :: "bytes \<Rightarrow> bool" where
  "der_x509 c \<longleftrightarrow> 4 \<le> length c \<and> c ! 0 = 0x30 \<and> c ! 1 = 0x82 \<and> 256 * unat (c ! 2) + unat (c ! 3) = length c - 4"

definition cert_allows :: "'w verify_env \<Rightarrow> bytes \<Rightarrow> bytes \<Rightarrow> bytes \<Rightarrow> bool" where
  "cert_allows env sig hash c \<longleftrightarrow> der_x509 c \<and> verify_eku env c \<and> ve_authenticode env sig c hash"

definition db_has_cert :: "'w verify_env \<Rightarrow> bytes \<Rightarrow> bytes \<Rightarrow> esl list \<Rightarrow> bool" where
  "db_has_cert env sig hash ls \<longleftrightarrow>
     (\<exists>l\<in>set ls. esl_type l = EFI_CERT_TYPE_X509_GUID \<and> cert_allows env sig hash (snd (hd (esl_sigs l))))"

definition cert_db_wf :: "esl list \<Rightarrow> bool" where
  "cert_db_wf ls \<longleftrightarrow> (\<forall>l\<in>set ls. esl_wf l \<and> (esl_type l = EFI_CERT_TYPE_X509_GUID \<longrightarrow> esl_sigs l \<noteq> []))"

lemma idx_at: "length pre = p \<Longrightarrow> i < length c \<Longrightarrow> idx (pre @ c @ post) (p + i) = Inr (c ! i)"
  by (auto simp add: idx_def nth_append)

lemma verify_x509_at:
  assumes "length pre = p"
  shows "verify_x509 (pre @ c @ post) p (length c) = Inr (der_x509 c)"
proof (cases "length c < 4")
  case False
  then have l: "0 < length c" "1 < length c" "2 < length c" "3 < length c" by linarith+
  have "idx (pre @ c @ post) p = Inr (c ! 0)" "idx (pre @ c @ post) (p + 1) = Inr (c ! 1)"
    "idx (pre @ c @ post) (p + 2) = Inr (c ! 2)" "idx (pre @ c @ post) (p + 3) = Inr (c ! 3)"
    using idx_at [OF assms l(1), of post] idx_at [OF assms l(2), of post] idx_at [OF assms l(3), of post]
      idx_at [OF assms l(4), of post]
    by (simp_all only: add_0_right)
  then show ?thesis using False by (simp add: verify_x509_def der_x509_def del: One_nat_def)
qed (simp add: verify_x509_def der_x509_def)

lemma check_list_cert_wf:
  assumes "esl_wf l" and "esl_type l = EFI_CERT_TYPE_X509_GUID \<longrightarrow> esl_sigs l \<noteq> []"
  shows "check_list_cert env (pre @ esl_bytes l @ post) (length pre) sig hash
       = Inr (esl_type l = EFI_CERT_TYPE_X509_GUID \<and> cert_allows env sig hash (snd (hd (esl_sigs l))))"
proof -
  note f = esl_fields [OF assms(1), of pre post] get_bytes_type [OF assms(1), of pre post]
  show ?thesis
  proof (cases "esl_type l = EFI_CERT_TYPE_X509_GUID")
    case False
    then show ?thesis using f by (simp add: check_list_cert_def)
  next
    case True
    obtain x xs where x: "esl_sigs l = x # xs" using assms(2) True by (cases "esl_sigs l") auto
    have lx: "length (fst x) = 16" "length (snd x) + 16 = esl_size l" "esl_size l < 2 ^ 32"
      using assms(1) x by (auto simp add: esl_wf_def)
    have sz: "(esl_size l + 2 ^ 64 - 16) mod 2 ^ 64 = length (snd x)"
    proof -
      have "esl_size l + 2 ^ 64 - 16 = length (snd x) + 2 ^ 64" using lx(2) by simp
      moreover have "length (snd x) < 2 ^ 64" using lx(2,3) by simp
      ultimately show ?thesis by (simp only: mod_add_self2 mod_less)
    qed
    let ?pre = "pre @ esl_header (esl_type l) (esl_len l) (length (esl_hdr l)) (esl_size l) @ esl_hdr l @ fst x"
    have lp: "length ?pre = length pre + sizeof_ESL + length (esl_hdr l) + 16"
      using assms(1) lx by (simp add: esl_wf_def sizeof_ESL_def)
    have d: "pre @ esl_bytes l @ post = ?pre @ snd x @ (concat (map sig_bytes xs) @ post)"
      by (simp add: esl_bytes_def x sig_bytes_def)
    have v: "verify_x509 (pre @ esl_bytes l @ post) (length pre + sizeof_ESL + length (esl_hdr l) + 16) (length (snd x))
        = Inr (der_x509 (snd x))"
      unfolding d by (rule verify_x509_at [OF lp])
    have g: "get_bytes (pre @ esl_bytes l @ post) (length pre + sizeof_ESL + length (esl_hdr l) + 16) (length (snd x))
        = Inr (snd x)"
      unfolding d by (rule get_bytes_at [OF lp refl])
    show ?thesis
      using f v g sz True by (simp add: check_list_cert_def Let_def x cert_allows_def)
  qed
qed

lemma check_db_cert_lists:
  assumes "cert_db_wf ls"
  shows "check_db_cert_loop env (pre @ concat (map esl_bytes ls) @ post) sig hash (length pre)
           (length (concat (map esl_bytes ls))) = Some (Inr (found_status (db_has_cert env sig hash ls)))"
  using assms
proof (induction ls arbitrary: pre)
  case Nil
  then show ?case by (simp add: check_db_cert_loop.simps db_has_cert_def found_status_def)
next
  case (Cons l ls)
  have wf: "esl_wf l" "esl_type l = EFI_CERT_TYPE_X509_GUID \<longrightarrow> esl_sigs l \<noteq> []" and wfs: "cert_db_wf ls"
    using Cons.prems by (auto simp add: cert_db_wf_def)
  let ?rest = "concat (map esl_bytes ls) @ post"
  let ?d = "pre @ esl_bytes l @ ?rest" and ?n = "length (concat (map esl_bytes (l # ls)))"
  have n: "?n = esl_len l + length (concat (map esl_bytes ls))"
    using length_esl_bytes [OF wf(1)] by simp
  have pos: "0 < esl_len l" by (simp add: esl_len_def sizeof_ESL_def)
  have ih: "check_db_cert_loop env ?d sig hash (length pre + esl_len l) (?n - esl_len l)
      = Some (Inr (found_status (db_has_cert env sig hash ls)))"
    using Cons.IH [OF wfs, of "pre @ esl_bytes l"] length_esl_bytes [OF wf(1)] by simp
  have "check_db_cert_loop env ?d sig hash (length pre) ?n = Some (Inr (found_status (db_has_cert env sig hash (l # ls))))"
    using esl_fields(1) [OF wf(1), of pre ?rest] check_list_cert_wf [OF wf, of env pre ?rest] ih n pos
    by (subst check_db_cert_loop.simps) (auto simp add: db_has_cert_def found_status_def)
  then show ?case by simp
qed

lemma check_db_cert_in_ram_wf:
  assumes "cert_db_wf ls"
  shows "check_db_cert_in_ram env (concat (map esl_bytes ls) @ pad) (length (concat (map esl_bytes ls))) sig hash
       = Some (Inr (found_status (db_has_cert env sig hash ls)))"
  using check_db_cert_lists [OF assms, of env "[]" pad] by (simp add: check_db_cert_in_ram_def)


section \<open>The deny and allow lists\<close>

text \<open>The lists of the program, as data.\<close>

record sig_dbs =
  s_vendor_dbx :: "esl list"
  s_dbx :: "esl list"
  s_mokx :: "esl list"
  s_db :: "esl list"
  s_vendor_db :: "esl list"
  s_mok :: "esl list"

definition list_ok :: "esl list \<Rightarrow> bool" where
  "list_ok ls \<longleftrightarrow> db_wf EFI_CERT_SHA256_GUID 32 ls \<and> db_wf EFI_CERT_SHA1_GUID 20 ls \<and> cert_db_wf ls"

definition esls_bytes :: "esl list \<Rightarrow> bytes" where
  "esls_bytes ls = concat (map esl_bytes ls)"

definition dbs_ok :: "'w verify_env \<Rightarrow> (string \<times> guid \<Rightarrow> (u32 \<times> bytes) option) \<Rightarrow> sig_dbs \<Rightarrow> bool" where
  "dbs_ok env vs d \<longleftrightarrow>
     (\<forall>ls \<in> {s_vendor_dbx d, s_dbx d, s_mokx d, s_db d, s_vendor_db d, s_mok d}. list_ok ls)
   \<and> ve_vendor_deauthorized env = esls_bytes (s_vendor_dbx d)
   \<and> (case ve_vendor_db env of None \<Rightarrow> s_vendor_db d = [] | Some b \<Rightarrow> b = esls_bytes (s_vendor_db d))
   \<and> var_data (vs (''dbx'', EFI_SECURE_BOOT_DB_GUID)) = esls_bytes (s_dbx d)
   \<and> var_data (vs (''MokListX'', SHIM_LOCK_GUID)) = esls_bytes (s_mokx d)
   \<and> var_data (vs (''db'', EFI_SECURE_BOOT_DB_GUID)) = esls_bytes (s_db d)
   \<and> var_data (vs (''MokListRT'', SHIM_LOCK_GUID)) = esls_bytes (s_mok d)"

definition has_cert :: "'w verify_env \<Rightarrow> bytes option \<Rightarrow> bytes \<Rightarrow> esl list \<Rightarrow> bool" where
  "has_cert env cert hash ls \<longleftrightarrow> (case cert of None \<Rightarrow> False | Some c \<Rightarrow> db_has_cert env c hash ls)"

text \<open>The policy: what denies a binary, and what allows it.\<close>

definition denied_hash :: "sig_dbs \<Rightarrow> bytes \<Rightarrow> bytes \<Rightarrow> bool" where
  "denied_hash d sha256hash sha1hash \<longleftrightarrow>
     (\<exists>ls \<in> {s_vendor_dbx d, s_dbx d}. db_has EFI_CERT_SHA256_GUID sha256hash ls \<or> db_has EFI_CERT_SHA1_GUID sha1hash ls)
     \<or> db_has EFI_CERT_SHA256_GUID sha256hash (s_mokx d)"

definition denied :: "'w verify_env \<Rightarrow> sig_dbs \<Rightarrow> bytes option \<Rightarrow> bytes \<Rightarrow> bytes \<Rightarrow> bool" where
  "denied env d cert sha256hash sha1hash \<longleftrightarrow>
     denied_hash d sha256hash sha1hash \<or> (\<exists>ls \<in> {s_vendor_dbx d, s_dbx d, s_mokx d}. has_cert env cert sha256hash ls)"

definition allowed :: "'w verify_env \<Rightarrow> sig_dbs \<Rightarrow> bytes option \<Rightarrow> bytes \<Rightarrow> bytes \<Rightarrow> bool" where
  "allowed env d cert sha256hash sha1hash \<longleftrightarrow>
     (\<not> ve_ignore_db env \<and> (db_has EFI_CERT_SHA256_GUID sha256hash (s_db d) \<or> db_has EFI_CERT_SHA1_GUID sha1hash (s_db d)
        \<or> has_cert env cert sha256hash (s_db d)))
     \<or> (\<exists>ls \<in> {s_vendor_db d, s_mok d}. db_has EFI_CERT_SHA256_GUID sha256hash ls \<or> has_cert env cert sha256hash ls)"

text \<open>A check that returns and finds exactly when \<open>b\<close>.\<close>

definition decides :: "check_status res option \<Rightarrow> bool \<Rightarrow> bool" where
  "decides c b \<longleftrightarrow> (\<exists>st. c = Some (Inr st) \<and> (st = DATA_FOUND \<longleftrightarrow> b))"

lemma first_found_decides: "decides c b \<Longrightarrow> first_found ((c, r) # cs) dflt = (if b then Some (Inr r) else first_found cs dflt)"
  by (auto simp add: decides_def)

lemma decides_ram:
  assumes "list_ok ls"
  shows "length hash = 32 \<Longrightarrow> decides (check_db_hash_in_ram (esls_bytes ls) (length (esls_bytes ls)) hash EFI_CERT_SHA256_GUID)
           (db_has EFI_CERT_SHA256_GUID hash ls)"
    and "length hash = 20 \<Longrightarrow> decides (check_db_hash_in_ram (esls_bytes ls) (length (esls_bytes ls)) hash EFI_CERT_SHA1_GUID)
           (db_has EFI_CERT_SHA1_GUID hash ls)"
    and "decides (check_db_cert_in_ram env (esls_bytes ls) (length (esls_bytes ls)) sig hash') (db_has_cert env sig hash' ls)"
  using assms check_db_hash_in_ram_wf [of _ hash ls "[]"] check_db_cert_in_ram_wf [of ls env "[]" sig hash']
  by (auto simp add: decides_def esls_bytes_def list_ok_def)

lemma esls_empty: "\<forall>l\<in>set ls. esl_wf l \<Longrightarrow> esls_bytes ls = [] \<Longrightarrow> ls = []"
  using length_esl_bytes by (cases ls) (auto simp add: esls_bytes_def esl_bytes_def esl_header_def esl_wf_def)

definition builtin_allows :: "'w verify_env \<Rightarrow> bytes \<Rightarrow> bytes \<Rightarrow> bool" where
  "builtin_allows env sig sha256hash \<longleftrightarrow>
     (\<exists>c. (ve_build_cert env = Some c \<or> ve_vendor_cert env = Some c) \<and> c \<noteq> [] \<and> ve_authenticode env sig c sha256hash)"

context variable_services
begin

lemma decides_var:
  assumes "good w" and "ve_rt env = rt" and "\<forall>n. ve_pool env n" and "list_ok ls"
    and "var_data (vars w (n, g)) = esls_bytes ls"
  shows "length hash = 32 \<Longrightarrow> decides (check_db_hash env w n g hash EFI_CERT_SHA256_GUID) (db_has EFI_CERT_SHA256_GUID hash ls)"
    and "length hash = 20 \<Longrightarrow> decides (check_db_hash env w n g hash EFI_CERT_SHA1_GUID) (db_has EFI_CERT_SHA1_GUID hash ls)"
    and "decides (check_db_cert env w n g sig hash') (db_has_cert env sig hash' ls)"
proof -
  have wf: "\<forall>l\<in>set ls. esl_wf l" using assms(4) by (simp add: list_ok_def cert_db_wf_def)
  have "(length hash = 32 \<longrightarrow> decides (check_db_hash env w n g hash EFI_CERT_SHA256_GUID) (db_has EFI_CERT_SHA256_GUID hash ls))
    \<and> (length hash = 20 \<longrightarrow> decides (check_db_hash env w n g hash EFI_CERT_SHA1_GUID) (db_has EFI_CERT_SHA1_GUID hash ls))
    \<and> decides (check_db_cert env w n g sig hash') (db_has_cert env sig hash' ls)"
  proof (cases "vars w (n, g)")
    case None
    then have "ls = []" using assms(5) esls_empty [OF wf] by (simp add: var_data_def)
    then show ?thesis using get_missing' [OF assms(1) None, of "ve_pool env"] assms(2)
      by (auto simp add: check_db_hash_def check_db_cert_def decides_def db_has_def db_has_cert_def)
  next
    case (Some v)
    then obtain a where v: "vars w (n, g) = Some (a, esls_bytes ls)" using assms(5) by (cases v) (auto simp add: var_data_def)
    note gp = get_present [OF assms(1) v, of "ve_pool env"]
    show ?thesis
      using gp assms(2-4) check_db_hash_in_ram_wf [of _ hash ls "[0, 0, 0]"] check_db_cert_in_ram_wf [of ls env "[0, 0, 0]" sig hash']
      by (auto simp add: check_db_hash_def check_db_cert_def decides_def list_ok_def esls_bytes_def)
  qed
  then show "length hash = 32 \<Longrightarrow> decides (check_db_hash env w n g hash EFI_CERT_SHA256_GUID) (db_has EFI_CERT_SHA256_GUID hash ls)"
    and "length hash = 20 \<Longrightarrow> decides (check_db_hash env w n g hash EFI_CERT_SHA1_GUID) (db_has EFI_CERT_SHA1_GUID hash ls)"
    and "decides (check_db_cert env w n g sig hash') (db_has_cert env sig hash' ls)"
    by blast+
qed

lemma denylist_policy:
  assumes "good w" and "ve_rt env = rt" and "\<forall>n. ve_pool env n" and "dbs_ok env (vars w) d"
    and "length sha256hash = 32" and "length sha1hash = 20"
  shows "check_denylist env w cert sha256hash sha1hash
       = Some (Inr (if denied env d cert sha256hash sha1hash then EFI_SECURITY_VIOLATION else EFI_SUCCESS))"
proof -
  note dv = decides_var [OF assms(1-3)]
  have ok: "list_ok (s_vendor_dbx d)" "list_ok (s_dbx d)" "list_ok (s_mokx d)"
    and bytes: "ve_vendor_deauthorized env = esls_bytes (s_vendor_dbx d)"
    "var_data (vars w (''dbx'', EFI_SECURE_BOOT_DB_GUID)) = esls_bytes (s_dbx d)"
    "var_data (vars w (''MokListX'', SHIM_LOCK_GUID)) = esls_bytes (s_mokx d)"
    using assms(4) by (simp_all add: dbs_ok_def)
  note ff = first_found_decides [OF decides_ram(1) [OF ok(1) assms(5)]] first_found_decides [OF decides_ram(2) [OF ok(1) assms(6)]]
    first_found_decides [OF decides_ram(3) [OF ok(1)]]
    first_found_decides [OF dv(1) [OF ok(2) bytes(2) assms(5)]] first_found_decides [OF dv(2) [OF ok(2) bytes(2) assms(6)]]
    first_found_decides [OF dv(3) [OF ok(2) bytes(2)]]
    first_found_decides [OF dv(1) [OF ok(3) bytes(3) assms(5)]] first_found_decides [OF dv(3) [OF ok(3) bytes(3)]]
  show ?thesis
    unfolding check_denylist_def deny_checks_def Let_def bytes(1)
    by (cases cert) (simp_all add: ff denied_def denied_hash_def has_cert_def del: first_found.simps(2))
qed

lemma allowlist_policy:
  assumes "good w" and "ve_rt env = rt" and "\<forall>n. ve_pool env n" and "dbs_ok env (vars w) d"
    and "length sha256hash = 32" and "length sha1hash = 20"
  shows "\<exists>vm'. check_allowlist env w cert sha256hash sha1hash vm
       = Some (Inr (if allowed env d cert sha256hash sha1hash then EFI_SUCCESS else EFI_NOT_FOUND, vm'))"
proof -
  note dv = decides_var [OF assms(1-3)]
  have ok: "list_ok (s_db d)" "list_ok (s_vendor_db d)" "list_ok (s_mok d)"
    and bytes: "case ve_vendor_db env of None \<Rightarrow> s_vendor_db d = [] | Some b \<Rightarrow> b = esls_bytes (s_vendor_db d)"
    "var_data (vars w (''db'', EFI_SECURE_BOOT_DB_GUID)) = esls_bytes (s_db d)"
    "var_data (vars w (''MokListRT'', SHIM_LOCK_GUID)) = esls_bytes (s_mok d)"
    using assms(4) by (simp_all add: dbs_ok_def)
  note ff = first_found_decides [OF dv(1) [OF ok(1) bytes(2) assms(5)]] first_found_decides [OF dv(2) [OF ok(1) bytes(2) assms(6)]]
    first_found_decides [OF dv(3) [OF ok(1) bytes(2)]]
    first_found_decides [OF decides_ram(1) [OF ok(2) assms(5)]] first_found_decides [OF decides_ram(3) [OF ok(2)]]
    first_found_decides [OF dv(1) [OF ok(3) bytes(3) assms(5)]] first_found_decides [OF dv(3) [OF ok(3) bytes(3)]]
  have none: "db_has ct h [] = False" "db_has_cert env c h [] = False" for ct h c
    by (simp_all add: db_has_def db_has_cert_def)
  show ?thesis
    using bytes(1)
    unfolding check_allowlist_def allow_checks_def Let_def
    by (cases cert; cases "ve_vendor_db env"; cases "ve_ignore_db env")
       (simp_all add: ff allowed_def has_cert_def none del: first_found.simps(2))
qed

text \<open>A signature is accepted exactly when nothing denies it and a list or a built-in certificate allows it.\<close>

lemma one_signature_policy:
  assumes "good w" and "ve_rt env = rt" and "\<forall>n. ve_pool env n" and "dbs_ok env (vars w) d"
    and "length sha256hash = 32" and "length sha1hash = 20"
  shows "\<exists>vm'. verify_one_signature env w sig sha256hash sha1hash vm
       = Some (Inr (if denied env d (Some sig) sha256hash sha1hash then EFI_SECURITY_VIOLATION
                    else if allowed env d (Some sig) sha256hash sha1hash \<or> builtin_allows env sig sha256hash
                    then EFI_SUCCESS else EFI_NOT_FOUND, vm'))"
proof -
  obtain vm' where "check_allowlist env w (Some sig) sha256hash sha1hash vm
       = Some (Inr (if allowed env d (Some sig) sha256hash sha1hash then EFI_SUCCESS else EFI_NOT_FOUND, vm'))"
    using allowlist_policy [OF assms] by blast
  then show ?thesis
    using denylist_policy [OF assms, of "Some sig"]
    by (auto simp add: verify_one_signature_def builtin_allows_def Let_def split: option.splits)
qed

end

section \<open>Properties\<close>

text \<open>
  C11. With every list well formed, \<open>check_denylist\<close> returns, and refuses exactly the
  binaries the policy denies: those whose hash is in the vendor's list, dbx or MokListX, and
  those with a signature by a certificate that is the first entry of a list there.
\<close>

theorem check_denylist_verdict:
  assumes "mock_good w" and "ve_rt env = host_rt" and "\<forall>n. ve_pool env n" and "dbs_ok env (mock_vars w) d"
    and "length sha256hash = 32" and "length sha1hash = 20"
  shows "check_denylist env w cert sha256hash sha1hash
       = Some (Inr (if denied env d cert sha256hash sha1hash then EFI_SECURITY_VIOLATION else EFI_SUCCESS))"
  using assms by (rule mock.denylist_policy)

text \<open>An empty store, and a vendor list with one SHA-256 hash.\<close>

definition demo_hash :: "u8 \<Rightarrow> bytes" where "demo_hash b = replicate 32 b"

definition demo_list :: "u8 \<Rightarrow> esl" where
  "demo_list b = \<lparr>esl_type = EFI_CERT_SHA256_GUID, esl_hdr = [], esl_size = 48, esl_sigs = [(SHIM_LOCK_GUID, demo_hash b)]\<rparr>"

text \<open>Hash 7 is denied, hash 8 allowed by the vendor; the vendor's certificate is \<open>[1]\<close>.\<close>

definition demo_verify_env :: "mock_state verify_env" where
  "demo_verify_env = \<lparr>ve_rt = host_rt, ve_pool = (\<lambda>_. True), ve_authenticode = (\<lambda>sig c h. sig = c), ve_ekus = (\<lambda>_. None),
     ve_vendor_deauthorized = esls_bytes [demo_list 7], ve_vendor_db = Some (esls_bytes [demo_list 8]),
     ve_build_cert = None, ve_vendor_cert = Some [1], ve_ignore_db = False, ve_user_insecure_mode = False\<rparr>"

definition demo_dbs :: sig_dbs where
  "demo_dbs = \<lparr>s_vendor_dbx = [demo_list 7], s_dbx = [], s_mokx = [], s_db = [], s_vendor_db = [demo_list 8], s_mok = []\<rparr>"

lemma demo_list_ok: "list_ok [demo_list b]" "list_ok []"
proof -
  have "EFI_CERT_SHA256_GUID \<noteq> EFI_CERT_SHA1_GUID" "EFI_CERT_SHA256_GUID \<noteq> EFI_CERT_TYPE_X509_GUID"
    by (simp_all add: guid_defs mk_guid_def le_bytes_numeral)
  then show "list_ok [demo_list b]" "list_ok []"
    by (simp_all add: list_ok_def db_wf_def cert_db_wf_def demo_list_def esl_wf_def esl_len_def sizeof_ESL_def demo_hash_def)
qed

lemma demo_dbs_ok: "dbs_ok demo_verify_env (mock_vars empty_store) demo_dbs"
  using demo_list_ok
  by (simp add: dbs_ok_def demo_verify_env_def demo_dbs_def empty_store_good var_data_def esls_bytes_def)

lemma demo_env_facts: "ve_rt demo_verify_env = host_rt" "\<forall>n. ve_pool demo_verify_env n" "length (demo_hash b) = 32"
  by (simp_all add: demo_verify_env_def demo_hash_def)

lemma demo_hash_eq: "demo_hash a = demo_hash b \<longleftrightarrow> a = b"
  by (simp add: demo_hash_def)

lemma demo_db_has: "db_has EFI_CERT_SHA256_GUID (demo_hash a) [demo_list b] \<longleftrightarrow> a = b" "db_has ct h [] = False"
  "db_has EFI_CERT_SHA1_GUID h [demo_list b] = False" "db_has_cert env sig h [demo_list b] = False"
  "db_has_cert env sig h [] = False"
proof -
  have "EFI_CERT_SHA256_GUID \<noteq> EFI_CERT_SHA1_GUID" "EFI_CERT_SHA256_GUID \<noteq> EFI_CERT_TYPE_X509_GUID"
    by (simp_all add: guid_defs mk_guid_def le_bytes_numeral)
  then show "db_has EFI_CERT_SHA256_GUID (demo_hash a) [demo_list b] \<longleftrightarrow> a = b" "db_has ct h [] = False"
    "db_has EFI_CERT_SHA1_GUID h [demo_list b] = False" "db_has_cert env sig h [demo_list b] = False"
    "db_has_cert env sig h [] = False"
    by (auto simp add: db_has_def db_has_cert_def demo_list_def demo_hash_eq)
qed

lemma demo_denied: "denied demo_verify_env demo_dbs cert (demo_hash b) h1 \<longleftrightarrow> b = 7"
  by (auto simp add: denied_def denied_hash_def demo_dbs_def demo_db_has has_cert_def split: option.splits)

lemma demo_allowed: "allowed demo_verify_env demo_dbs cert (demo_hash b) h1 \<longleftrightarrow> b = 8"
  by (auto simp add: allowed_def demo_dbs_def demo_db_has has_cert_def split: option.splits)

lemma check_denylist_verdict_witness:
  "check_denylist demo_verify_env empty_store None (demo_hash 7) (replicate 20 0) = Some (Inr EFI_SECURITY_VIOLATION)
   \<and> check_denylist demo_verify_env empty_store None (demo_hash 9) (replicate 20 0) = Some (Inr EFI_SUCCESS)"
  using check_denylist_verdict [OF empty_store_good(1) demo_env_facts(1,2) demo_dbs_ok demo_env_facts(3), of "replicate 20 0" None 7]
    check_denylist_verdict [OF empty_store_good(1) demo_env_facts(1,2) demo_dbs_ok demo_env_facts(3), of "replicate 20 0" None 9]
  by (simp add: demo_denied)

text \<open>
  C12. A signature is accepted exactly when neither the hashes nor the signature are denied
  and an allow list (unless it is ignored) or a certificate built into shim allows it.
\<close>

theorem verify_one_signature_verdict:
  assumes "mock_good w" and "ve_rt env = host_rt" and "\<forall>n. ve_pool env n" and "dbs_ok env (mock_vars w) d"
    and "length sha256hash = 32" and "length sha1hash = 20"
  shows "\<exists>vm'. verify_one_signature env w sig sha256hash sha1hash vm
       = Some (Inr (if denied env d (Some sig) sha256hash sha1hash then EFI_SECURITY_VIOLATION
                    else if allowed env d (Some sig) sha256hash sha1hash \<or> builtin_allows env sig sha256hash
                    then EFI_SUCCESS else EFI_NOT_FOUND, vm'))"
  using assms by (rule mock.one_signature_policy)

lemma verify_one_signature_verdict_witness:
  "\<exists>vm1 vm2 vm3. verify_one_signature demo_verify_env empty_store [1] (demo_hash 7) (replicate 20 0) VERIFIED_BY_NOTHING
      = Some (Inr (EFI_SECURITY_VIOLATION, vm1))
   \<and> verify_one_signature demo_verify_env empty_store [1] (demo_hash 9) (replicate 20 0) VERIFIED_BY_NOTHING
      = Some (Inr (EFI_SUCCESS, vm2))
   \<and> verify_one_signature demo_verify_env empty_store [2] (demo_hash 9) (replicate 20 0) VERIFIED_BY_NOTHING
      = Some (Inr (EFI_NOT_FOUND, vm3))"
proof -
  have b: "builtin_allows demo_verify_env sig h \<longleftrightarrow> sig = [1]" for sig h
    by (auto simp add: builtin_allows_def demo_verify_env_def)
  note v = verify_one_signature_verdict [OF empty_store_good(1) demo_env_facts(1,2) demo_dbs_ok demo_env_facts(3), of "replicate 20 0"]
  show ?thesis
    using v [of "[1]" 7 VERIFIED_BY_NOTHING] v [of "[1]" 9 VERIFIED_BY_NOTHING] v [of "[2]" 9 VERIFIED_BY_NOTHING]
    by (simp add: demo_denied demo_allowed b)
qed

end
