(* ===== verification/Verify.thy ===== *)
theory Verify
  imports PeHash SbatSpec SigDb
begin

text \<open>
  shim.c, the verification of a file: its hash against the lists, the signatures of its
  certificate table, and its SBAT section. The remote check of keyless-sign.c is the
  parameter \<open>http\<close>: its status, or an error when the file has no such signature.
\<close>

section \<open>The code\<close>

definition align_value :: "u64 \<Rightarrow> u64 \<Rightarrow> u64" where
  "align_value v a = v + ((a - v) AND (a - 1))"

text \<open>One entry of the certificate table: its size, and its data when it is a PKCS signature.\<close>

definition read_certificate ::
  "mbuf \<Rightarrow> u64 \<Rightarrow> u64 \<Rightarrow> u32 \<Rightarrow> u64 \<Rightarrow> u64 \<Rightarrow> (u64 \<times> bytes option) res"
where
  "read_certificate b data n dir_size offset sig =
     bindR (guardR (\<not> (data + n < sig + 12)) EFI_INVALID_PARAMETER) (\<lambda>_.
     bindR (guardR (\<not> (ucast dir_size < offset + 0 + 4)) EFI_INVALID_PARAMETER) (\<lambda>_.
     bindR (rd32 b sig) (\<lambda>len.
     bindR (guardR (\<not> (ucast dir_size - offset < ucast len)) EFI_INVALID_PARAMETER) (\<lambda>_.
     bindR (guardR (\<not> (len < 8)) EFI_INVALID_PARAMETER) (\<lambda>_.
     bindR (rd16 b (sig + 6)) (\<lambda>ty.
     if ty = 2 then bindR (load b (sig + 8) (unat len - 8)) (\<lambda>cert. Inr (ucast len, Some cert))
     else Inr (ucast len, None)))))))"

text \<open>
  The loop over the table; \<open>ret\<close> is the verdict so far. The flag of the result is an early
  return.
\<close>

partial_function (option) signature_loop ::
  "'w verify_env \<Rightarrow> 'w \<Rightarrow> mbuf \<Rightarrow> u64 \<Rightarrow> u64 \<Rightarrow> u32 \<Rightarrow> u32 \<Rightarrow> bytes \<Rightarrow> bytes
   \<Rightarrow> u64 \<Rightarrow> efi_status \<Rightarrow> verification_method \<Rightarrow> (bool \<times> efi_status \<times> verification_method) res option"
where
  "signature_loop env w b data n dir_va dir_size sha256hash sha1hash offset ret vm =
     (case ImageAddress data n (ucast dir_va + offset) of
        None \<Rightarrow> Some (Inr (False, ret, vm))
      | Some sig \<Rightarrow>
          (case read_certificate b data n dir_size offset sig of
             Inl Fault \<Rightarrow> Some (Inl Fault)
           | Inl (Status st) \<Rightarrow> Some (Inr (True, st, vm))
           | Inr (sz, cert) \<Rightarrow>
               (case (case cert of None \<Rightarrow> Some (Inr (ret, vm))
                      | Some c \<Rightarrow> bindO (verify_one_signature env w c sha256hash sha1hash vm)
                          (\<lambda>(st, vm). Some (Inr (if ret \<noteq> EFI_SUCCESS then st else ret, vm)))) of
                  None \<Rightarrow> None
                | Some (Inl e) \<Rightarrow> Some (Inl e)
                | Some (Inr (ret', vm')) \<Rightarrow>
                    let offset' = align_value (offset + sz) 8 in
                    if offset' < ucast dir_size
                    then signature_loop env w b data n dir_va dir_size sha256hash sha1hash offset' ret' vm'
                    else Some (Inr (False, ret', vm')))))"

declare signature_loop.simps [code]

text \<open>The certificate table, and the remote check that may override the verdict.\<close>

definition verify_signatures ::
  "'w verify_env \<Rightarrow> 'w \<Rightarrow> efi_status \<Rightarrow> mbuf \<Rightarrow> u64 \<Rightarrow> u32 \<Rightarrow> pe_context \<Rightarrow> bytes \<Rightarrow> bytes
   \<Rightarrow> verification_method \<Rightarrow> (efi_status \<times> verification_method) res option"
where
  "verify_signatures env w http b data datasize ctx sha256hash sha1hash vm =
     (case rd32 b (c_SecDir ctx + 4) of Inl e \<Rightarrow> Some (Inl e) | Inr dir_size \<Rightarrow>
      if dir_size = 0 then Some (Inr (EFI_SECURITY_VIOLATION, vm))
      else (case rd32 b (c_SecDir ctx) of Inl e \<Rightarrow> Some (Inl e) | Inr dir_va \<Rightarrow>
        if (ucast datasize :: u64) < ucast dir_size + ucast dir_va then Some (Inr (EFI_INVALID_PARAMETER, vm))
        else bindO (signature_loop env w b data (ucast datasize) dir_va dir_size sha256hash sha1hash 0 EFI_NOT_FOUND vm)
          (\<lambda>(early, ret, vm). if early then Some (Inr (ret, vm))
             else if \<not> EFI_ERROR http then Some (Inr (http, vm)) else Some (Inr (ret, vm)))))"

definition verify_hash ::
  "'w verify_env \<Rightarrow> 'w \<Rightarrow> efi_status \<Rightarrow> mbuf \<Rightarrow> u64 \<Rightarrow> u32 \<Rightarrow> pe_context \<Rightarrow> bytes \<Rightarrow> bytes
   \<Rightarrow> verification_method \<Rightarrow> (efi_status \<times> verification_method) res option"
where
  "verify_hash env w http b data datasize ctx sha256hash sha1hash vm =
     bindO (check_denylist env w None sha256hash sha1hash) (\<lambda>st.
     if EFI_ERROR st then Some (Inr (st, vm))
     else bindO (check_allowlist env w None sha256hash sha1hash vm) (\<lambda>(st, vm).
       if EFI_ERROR st \<and> st \<noteq> EFI_NOT_FOUND then Some (Inr (st, vm))
       else if \<not> EFI_ERROR st then Some (Inr (st, vm))
       else verify_signatures env w http b data datasize ctx sha256hash sha1hash vm))"

text \<open>The context is returned: \<open>generate_hash\<close> may have filled in its section table.\<close>

definition verify_buffer_authenticode ::
  "'w verify_env \<Rightarrow> 'w \<Rightarrow> 'h sha \<Rightarrow> 'g sha \<Rightarrow> (nat \<Rightarrow> bool) \<Rightarrow> efi_status \<Rightarrow> mbuf \<Rightarrow> u64 \<Rightarrow> u32 \<Rightarrow> pe_context
   \<Rightarrow> verification_method \<Rightarrow> (efi_status \<times> verification_method \<times> pe_context) res option"
where
  "verify_buffer_authenticode env w s256 s1 pool http b data datasize ctx vm =
     (if datasize <s 0 then Some (Inr (EFI_INVALID_PARAMETER, vm, ctx))
      else (case generate_hash s256 s1 pool b data datasize ctx of
        Inl Fault \<Rightarrow> Some (Inl Fault)
      | Inl (Status st) \<Rightarrow> Some (Inr (st, vm, ctx))
      | Inr (sha256hash, sha1hash, ctx) \<Rightarrow>
          bindO (verify_hash env w http b data datasize ctx sha256hash sha1hash vm)
            (\<lambda>(st, vm). Some (Inr (st, vm, ctx)))))"

text \<open>The .sbat section: \<open>base\<close> and \<open>sz\<close> are those of the section found so far.\<close>

fun sbat_section_loop ::
  "mbuf \<Rightarrow> u64 \<Rightarrow> u64 \<Rightarrow> pe_context \<Rightarrow> nat \<Rightarrow> nat \<Rightarrow> u64 option \<Rightarrow> u64 \<Rightarrow> (u64 option \<times> u64) res"
where
  "sbat_section_loop b data n ctx 0 i base sz = Inr (base, sz)"
| "sbat_section_loop b data n ctx (Suc k) i base sz =
     (let p = section_ptr ctx i in
      bindR (guardR (\<not> (data + n < p + 40)) EFI_UNSUPPORTED) (\<lambda>_.
      bindR (read_section b p) (\<lambda>s.
      if sh_Name s \<noteq> str8 ''.sbat'' @ [0, 0, 0] then sbat_section_loop b data n ctx k (Suc i) base sz
      else
        bindR (guardR (base = None \<and> sz = 0) EFI_UNSUPPORTED) (\<lambda>_.
        bindR (guardR (sh_NumberOfRelocations s = 0 \<and> sh_PointerToRelocations s = 0) EFI_UNSUPPORTED) (\<lambda>_.
        if sh_SizeOfRawData s \<noteq> 0 \<and> sh_VirtualSize s \<le> sh_SizeOfRawData s then
          let base' = ImageAddress data n (ucast (sh_PointerToRawData s)); sz' = ucast (sh_SizeOfRawData s) in
          bindR (orelse_status (checked_add (ptr_val base') sz') EFI_UNSUPPORTED) (\<lambda>boundary.
          bindR (guardR (\<not> (data + n < boundary)) EFI_UNSUPPORTED) (\<lambda>_.
            sbat_section_loop b data n ctx k (Suc i) base' sz'))
        else sbat_section_loop b data n ctx k (Suc i) base sz)))))"

text \<open>\<open>atoi\<close> is the library's, \<open>sbat\<close> the revocations.\<close>

definition verify_buffer_sbat ::
  "(nat \<Rightarrow> bool) \<Rightarrow> (bytes \<Rightarrow> nat) \<Rightarrow> sbat_var_entry list \<Rightarrow> bool \<Rightarrow> mbuf \<Rightarrow> u64 \<Rightarrow> u32 \<Rightarrow> pe_context \<Rightarrow> efi_status res"
where
  "verify_buffer_sbat pool atoi sbat in_protocol b data datasize ctx =
     (let n = scast datasize :: u64 in
      bindR (sbat_section_loop b data n ctx (unat (c_NumberOfSections ctx)) 0 None 0) (\<lambda>(base, sz).
      bindR (case base of None \<Rightarrow> Inr None
             | Some p \<Rightarrow> bindR (load b p (unat sz)) (\<lambda>bs. Inr (Some bs))) (\<lambda>section.
        verify_sbat_section pool atoi sbat in_protocol section)))"

definition verify_buffer ::
  "'w verify_env \<Rightarrow> 'w \<Rightarrow> 'h sha \<Rightarrow> 'g sha \<Rightarrow> (nat \<Rightarrow> bool) \<Rightarrow> efi_status
   \<Rightarrow> (bytes \<Rightarrow> nat) \<Rightarrow> sbat_var_entry list \<Rightarrow> bool \<Rightarrow> mbuf \<Rightarrow> u64 \<Rightarrow> u32 \<Rightarrow> pe_context
   \<Rightarrow> verification_method \<Rightarrow> (efi_status \<times> verification_method \<times> pe_context) res option"
where
  "verify_buffer env w s256 s1 pool http atoi sbat in_protocol b data datasize ctx vm =
     bindO (verify_buffer_authenticode env w s256 s1 pool http b data datasize ctx vm) (\<lambda>(st, vm, ctx).
     if EFI_ERROR st then Some (Inr (st, vm, ctx))
     else (case verify_buffer_sbat pool atoi sbat in_protocol b data datasize ctx of
             Inl Fault \<Rightarrow> Some (Inl Fault)
           | Inl (Status st) \<Rightarrow> Some (Inr (st, vm, ctx))
           | Inr st \<Rightarrow> Some (Inr (st, vm, ctx))))"

section \<open>The certificate table\<close>

lemma read_certificate_safe:
  assumes f: "is_file b data datasize" and n: "n = ucast datasize"
    and table: "unat (dir_va :: u32) + unat dir_size \<le> unat datasize" and off: "unat offset < unat dir_size"
    and sig: "ImageAddress data n (ucast dir_va + offset) = Some sig"
  shows "safely (read_certificate b data n dir_size offset sig)
     (\<lambda>(sz, _). 8 \<le> unat sz \<and> unat offset + unat sz \<le> unat dir_size)"
proof -
  note ds = unat_u32_bound [of datasize] and dd = unat_u32_bound [of dir_size]
  have uo: "unat (ucast dir_va + offset) = unat dir_va + unat offset"
    using table off ds by (intro unat_small_u64) simp_all
  have s: "sig = data + (ucast dir_va + offset)" using sig by (simp add: ImageAddress_Some)
  have us: "unat sig = unat data + (unat dir_va + unat offset)"
    using f uo table off ds unfolding s by (intro unat_small_u64) (simp_all add: is_file_def)
  have un: "unat (data + n) = unat data + unat datasize"
    using f ds unfolding n by (intro unat_small_u64) (simp_all add: is_file_def)
  have u12: "unat (sig + 12) = unat sig + 12"
    using f us table off ds by (intro unat_small_u64) (simp_all add: is_file_def)
  have hd: "unat dir_va + unat offset + 12 \<le> unat datasize" if "\<not> data + n < sig + 12"
    using that unfolding word_less_nat_alt un u12 us by simp
  have acc: "in_buf b (sig + d) k" if "unat dir_va + unat offset + unat d + k \<le> unat datasize" for d k
  proof -
    have "in_buf b (data + ((ucast dir_va + offset) + d)) k"
    proof (rule in_buf_field [OF is_file_in_buf [OF f]])
      have "unat (ucast dir_va + offset + d) = unat dir_va + unat offset + unat d"
        using that ds uo by (intro unat_small_u64) simp_all
      then show "unat (ucast dir_va + offset + d) + k \<le> unat datasize" using that by simp
    qed
    then show ?thesis unfolding s by (simp add: add.assoc)
  qed
  have rest: "unat (ucast dir_size - offset) = unat dir_size - unat offset"
    using off by (subst unat_sub) (simp_all add: word_le_nat_alt)
  show ?thesis
    unfolding read_certificate_def
  proof (intro safely_guard safely_rd32 safely_rd16, goal_cases)
    case 1
    then show ?case using acc [of 0 4] hd [OF 1(1)] by simp
  next
    case (2 len)
    then show ?case using acc [of 6 2] hd [OF 2(1)] by simp
  next
    case (3 len ty)
    have l: "8 \<le> unat len" "unat len \<le> unat dir_size - unat offset"
      using 3(4,5) rest by (simp_all add: not_less word_less_nat_alt)
    have "in_buf b (sig + 8) (unat len - 8)" using l table off by (intro acc) simp
    then show ?case using l off
      by (cases "ty = 2") (auto intro!: safely_load)
  qed
qed

lemma align8:
  assumes "unat v + 8 \<le> 2 ^ 64"
  shows "unat v \<le> unat (align_value v 8)"
proof -
  have "(8 - v) AND 7 = take_bit 3 (8 - v)" by (simp add: take_bit_eq_mask mask_eq_exp_minus_1)
  then have "unat ((8 - v) AND 7) < 2 ^ 3" by (simp only: unsigned_take_bit_eq take_bit_nat_less_exp)
  then have "unat (align_value v 8) = unat v + unat ((8 - v) AND 7)"
    using assms unfolding align_value_def by (intro unat_small_u64) simp_all
  then show ?thesis by simp
qed

text \<open>A certificate of the table that the policy accepts.\<close>

definition accepted_signature ::
  "'w verify_env \<Rightarrow> sig_dbs \<Rightarrow> mbuf \<Rightarrow> u64 \<Rightarrow> u32 \<Rightarrow> pe_context \<Rightarrow> bytes \<Rightarrow> bytes \<Rightarrow> bool"
where
  "accepted_signature env d b data datasize ctx sha256hash sha1hash \<longleftrightarrow>
     (\<exists>va n off sig sz c. rd32 b (c_SecDir ctx) = Inr va \<and> rd32 b (c_SecDir ctx + 4) = Inr n
        \<and> ImageAddress data (ucast datasize) (ucast va + off) = Some sig
        \<and> read_certificate b data (ucast datasize) n off sig = Inr (sz, Some c)
        \<and> \<not> denied env d (Some c) sha256hash sha1hash
        \<and> (allowed env d (Some c) sha256hash sha1hash \<or> builtin_allows env c sha256hash))"

context variable_services
begin

lemma signature_loop_verdict:
  assumes "good w" and "ve_rt env = rt" and "\<forall>n. ve_pool env n" and "dbs_ok env (vars w) d"
    and "length sha256hash = 32" and "length sha1hash = 20"
    and f: "is_file b data datasize"
    and dir: "rd32 b (c_SecDir ctx) = Inr dir_va" "rd32 b (c_SecDir ctx + 4) = Inr dir_size"
    and table: "unat dir_va + unat dir_size \<le> unat datasize"
    and off: "unat offset < unat dir_size"
    and ret: "\<not> EFI_ERROR ret \<longrightarrow> accepted_signature env d b data datasize ctx sha256hash sha1hash"
  shows "\<exists>early ret' vm'. signature_loop env w b data (ucast datasize) dir_va dir_size sha256hash sha1hash offset ret vm
          = Some (Inr (early, ret', vm'))
      \<and> (\<not> EFI_ERROR ret' \<longrightarrow> accepted_signature env d b data datasize ctx sha256hash sha1hash)"
  using off ret
proof (induction "unat dir_size - unat offset" arbitrary: offset ret vm rule: less_induct)
  case less
  show ?case
  proof (cases "ImageAddress data (ucast datasize) (ucast dir_va + offset)")
    case None
    then show ?thesis using less.prems by (subst signature_loop.simps) auto
  next
    case (Some sig)
    let ?rc = "read_certificate b data (ucast datasize) dir_size offset sig"
    note rs = read_certificate_safe [OF f refl table less.prems(1) Some]
    show ?thesis
    proof (cases ?rc)
      case (Inl e)
      have "EFI_ERROR st" if "e = Status st" for st
        using Inl that by (auto simp add: read_certificate_def bindR_eq_Inl load_not_status split: if_splits)
      then show ?thesis using Inl rs Some
        by (subst signature_loop.simps) (cases e; auto)
    next
      case (Inr r)
      obtain sz cert where r: "r = (sz, cert)" by fastforce
      have sz: "8 \<le> unat sz" "unat offset + unat sz \<le> unat dir_size" using rs Inr r by auto
      let ?off = "align_value (offset + sz) 8"
      have uo: "unat (offset + sz) = unat offset + unat sz"
        using sz unat_u32_bound [of dir_size] by (intro unat_small_u64) simp_all
      have prog: "unat offset + 8 \<le> unat ?off"
        using align8 [of "offset + sz"] uo sz unat_u32_bound [of dir_size] by simp
      obtain ret1 vm1 where step: "(case cert of None \<Rightarrow> Some (Inr (ret, vm))
             | Some c \<Rightarrow> bindO (verify_one_signature env w c sha256hash sha1hash vm)
                 (\<lambda>(st, vm). Some (Inr (if ret \<noteq> EFI_SUCCESS then st else ret, vm)))) = Some (Inr (ret1, vm1))"
        and acc: "\<not> EFI_ERROR ret1 \<longrightarrow> accepted_signature env d b data datasize ctx sha256hash sha1hash"
      proof (cases cert)
        case None
        then show ?thesis using less.prems(2) that by simp
      next
        case (Some c)
        let ?v = "if denied env d (Some c) sha256hash sha1hash then EFI_SECURITY_VIOLATION
                  else if allowed env d (Some c) sha256hash sha1hash \<or> builtin_allows env c sha256hash
                  then EFI_SUCCESS else EFI_NOT_FOUND"
        obtain vm' where v: "verify_one_signature env w c sha256hash sha1hash vm = Some (Inr (?v, vm'))"
          using one_signature_policy [OF assms(1-6)] by blast
        have "accepted_signature env d b data datasize ctx sha256hash sha1hash"
          if "\<not> denied env d (Some c) sha256hash sha1hash"
            "allowed env d (Some c) sha256hash sha1hash \<or> builtin_allows env c sha256hash"
          using that dir Inr r Some \<open>ImageAddress _ _ _ = Some sig\<close> unfolding accepted_signature_def by blast
        then have a: "\<not> EFI_ERROR ?v \<longrightarrow> accepted_signature env d b data datasize ctx sha256hash sha1hash" by simp
        show ?thesis
          by (rule that [of "if ret \<noteq> EFI_SUCCESS then ?v else ret" vm']) (use v Some less.prems(2) a in \<open>simp_all\<close>)
      qed
      show ?thesis
      proof (cases "?off < ucast dir_size")
        case False
        then show ?thesis using Some Inr r step acc by (subst signature_loop.simps) (auto simp add: Let_def)
      next
        case True
        then have o: "unat ?off < unat dir_size" by (simp add: word_less_nat_alt)
        have "unat dir_size - unat ?off < unat dir_size - unat offset" using prog o by simp
        from less.hyps [OF this o acc] show ?thesis
          using True Some Inr r step by (subst signature_loop.simps) (simp add: Let_def)
      qed
    qed
  qed
qed


text \<open>What acceptance of a file means.\<close>

lemma signatures_verdict:
  assumes "good w" and "ve_rt env = rt" and "\<forall>n. ve_pool env n" and "dbs_ok env (vars w) d"
    and "length sha256hash = 32" and "length sha1hash = 20"
    and f: "is_file b data datasize" and sd: "in_buf b (c_SecDir ctx) 8"
  shows "\<exists>st vm'. verify_signatures env w http b data datasize ctx sha256hash sha1hash vm = Some (Inr (st, vm'))
      \<and> (\<not> EFI_ERROR st \<longrightarrow> accepted_signature env d b data datasize ctx sha256hash sha1hash \<or> \<not> EFI_ERROR http)"
proof -
  obtain n va where dir: "rd32 b (c_SecDir ctx + 4) = Inr n" "rd32 b (c_SecDir ctx) = Inr va"
    using rd_ok(3) [OF in_buf_field [OF sd, of 4 4]] rd_ok(3) [OF in_buf_mono [OF sd, of 4]] by auto
  show ?thesis
  proof (cases "n = 0 \<or> (ucast datasize :: u64) < ucast n + ucast va")
    case True
    then show ?thesis using dir by (auto simp add: verify_signatures_def)
  next
    case False
    have u: "unat (ucast n + ucast va :: u64) = unat n + unat va"
      using unat_u32_bound [of n] unat_u32_bound [of va] by (intro unat_small_u64) simp_all
    have table: "unat va + unat n \<le> unat datasize" using False u by (simp add: not_less word_le_nat_alt)
    have o: "unat (0 :: u64) < unat n" using False by (simp add: unat_gt_0)
    obtain early ret vm' where "signature_loop env w b data (ucast datasize) va n sha256hash sha1hash 0 EFI_NOT_FOUND vm
        = Some (Inr (early, ret, vm'))"
      "\<not> EFI_ERROR ret \<longrightarrow> accepted_signature env d b data datasize ctx sha256hash sha1hash"
      using signature_loop_verdict [OF assms(1-6) f dir(2,1) table o, of EFI_NOT_FOUND vm] by auto
    then show ?thesis using dir False by (auto simp add: verify_signatures_def)
  qed
qed

lemma hash_verdict:
  assumes "good w" and "ve_rt env = rt" and "\<forall>n. ve_pool env n" and "dbs_ok env (vars w) d"
    and "length sha256hash = 32" and "length sha1hash = 20"
    and f: "is_file b data datasize" and sd: "in_buf b (c_SecDir ctx) 8"
  shows "\<exists>st vm'. verify_hash env w http b data datasize ctx sha256hash sha1hash vm = Some (Inr (st, vm'))
      \<and> (denied_hash d sha256hash sha1hash \<longrightarrow> st = EFI_SECURITY_VIOLATION)
      \<and> (\<not> denied_hash d sha256hash sha1hash \<longrightarrow> allowed env d None sha256hash sha1hash \<longrightarrow> st = EFI_SUCCESS)
      \<and> (\<not> EFI_ERROR st \<longrightarrow> allowed env d None sha256hash sha1hash
           \<or> accepted_signature env d b data datasize ctx sha256hash sha1hash \<or> \<not> EFI_ERROR http)"
proof -
  have n: "denied env d None sha256hash sha1hash = denied_hash d sha256hash sha1hash"
    by (simp add: denied_def has_cert_def)
  note deny = denylist_policy [OF assms(1-6), of None, unfolded n]
  obtain vm1 where allow: "check_allowlist env w None sha256hash sha1hash vm
       = Some (Inr (if allowed env d None sha256hash sha1hash then EFI_SUCCESS else EFI_NOT_FOUND, vm1))"
    using allowlist_policy [OF assms(1-6)] by blast
  show ?thesis
    using deny allow signatures_verdict [OF assms, of http vm1]
    by (cases "denied_hash d sha256hash sha1hash"; cases "allowed env d None sha256hash sha1hash")
       (auto simp add: verify_hash_def)
qed

end

section \<open>The SBAT section\<close>

definition is_sbat_section :: "section_header \<Rightarrow> bool" where
  "is_sbat_section s \<longleftrightarrow> sh_Name s = str8 ''.sbat'' @ [0, 0, 0]"

text \<open>The section that is checked: none, or the raw data of a .sbat section of the file.\<close>

definition sbat_section_of :: "mbuf \<Rightarrow> pe_context \<Rightarrow> bytes option \<Rightarrow> bool" where
  "sbat_section_of b ctx sec \<longleftrightarrow>
     (case sec of None \<Rightarrow> True
      | Some bs \<Rightarrow> (\<exists>s \<in> set (sections_of b ctx). is_sbat_section s \<and> bs = raw_bytes (mb_data b) s))"

lemma section_in_sections: "i < unat (c_NumberOfSections ctx) \<Longrightarrow> section_at b ctx i \<in> set (sections_of b ctx)"
  by (simp add: sections_of_def)

definition sbat_found :: "mbuf \<Rightarrow> pe_context \<Rightarrow> u64 option \<times> u64 \<Rightarrow> bool" where
  "sbat_found b ctx r \<longleftrightarrow> (case fst r of None \<Rightarrow> True | Some p \<Rightarrow> \<exists>s \<in> set (sections_of b ctx). is_sbat_section s
        \<and> load b p (unat (snd r)) = Inr (raw_bytes (mb_data b) s))"

lemma sbat_bytes:
  assumes f: "is_file b data datasize"
    and p: "ImageAddress data (ucast datasize) (ucast (sh_PointerToRawData s)) = Some p"
    and bd: "checked_add p (ucast (sh_SizeOfRawData s)) = Some bd" "\<not> data + ucast datasize < bd"
  shows "load b p (unat (sh_SizeOfRawData s)) = Inr (raw_bytes (mb_data b) s)"
proof -
  have un: "unat (data + ucast datasize) = unat data + unat datasize"
    using f unat_u32_bound [of datasize] by (intro unat_small_u64) (simp_all add: is_file_def)
  have pp: "p = data + ucast (sh_PointerToRawData s)" "unat data + unat (sh_PointerToRawData s) < 2 ^ 64"
    using p by (simp_all add: ImageAddress_Some)
  have up: "unat p = unat data + unat (sh_PointerToRawData s)"
    using pp by (simp add: unat_word_ariths)
  have o: "off b p = unat (sh_PointerToRawData s)" using f pp(1) by (simp add: off_def is_file_def)
  have "unat (sh_PointerToRawData s) + unat (sh_SizeOfRawData s) \<le> unat datasize"
    using checked_add_unat [OF bd(1)] bd(2) up un by (simp add: not_less word_le_nat_alt)
  then show ?thesis using f o by (simp add: load_def in_buf_def raw_bytes_def file_slice_def is_file_def)
qed

lemma sbat_section_loop_safe:
  assumes f: "is_file b data datasize" and c: "context_ok b data (unat datasize) ctx"
    and i: "i + k = unat (c_NumberOfSections ctx)" and inv: "sbat_found b ctx (base, sz)"
  shows "safely (sbat_section_loop b data (ucast datasize) ctx k i base sz) (sbat_found b ctx)"
  using i inv
proof (induction k arbitrary: i base sz)
  case (Suc k)
  have il: "i < unat (c_NumberOfSections ctx)" using Suc.prems(1) by simp
  have sp: "in_buf b (section_ptr ctx i) 40" by (rule section_ptr_in_buf [OF is_file_in_buf [OF f] c il])
  have rest: "safely (sbat_section_loop b data (ucast datasize) ctx k (Suc i) base' sz') (sbat_found b ctx)"
    if "sbat_found b ctx (base', sz')" for base' sz'
    using Suc.prems(1) that by (intro Suc.IH) simp_all
  show ?case
    unfolding sbat_section_loop.simps Let_def
  proof (rule safely_guard, rule safely_bind [OF read_section_safe [OF sp]], goal_cases)
    case (1 s)
    have s: "s \<in> set (sections_of b ctx)" using section_in_sections [OF il, of b] 1(2) by (simp add: section_at_def)
    let ?p = "ImageAddress data (ucast datasize) (ucast (sh_PointerToRawData s))"
    have new: "sbat_found b ctx (?p, ucast (sh_SizeOfRawData s))"
      if "is_sbat_section s" "checked_add (ptr_val ?p) (ucast (sh_SizeOfRawData s)) = Some bd" "\<not> data + ucast datasize < bd" for bd
    proof (cases ?p)
      case (Some p)
      then show ?thesis
        using that s sbat_bytes [OF f Some] unfolding sbat_found_def by (auto simp add: ptr_val_def)
    qed (simp add: sbat_found_def)
    show ?case
    proof (cases "is_sbat_section s")
      case False
      then show ?thesis using rest [OF Suc.prems(2)] by (simp add: is_sbat_section_def)
    next
      case True
      then have n: "(sh_Name s \<noteq> str8 ''.sbat'' @ [0, 0, 0]) = False" by (simp add: is_sbat_section_def)
      show ?thesis
        unfolding n if_False
        using new [OF True] by (auto intro!: safely_guard safely_orelse rest Suc.prems(2))
    qed
  qed
qed simp

lemma strcmp_no_status: "strcmp a b \<noteq> Inl (Status st)"
  by (induction a b rule: strcmp.induct) auto

lemma verify_sbat_section_error: "verify_sbat_section pool atoi sbat in_protocol sec \<noteq> Inl (Status st)"
proof -
  have one: "verify_single_entry atoi e v \<noteq> Inl (Status st)" for e v
    by (auto simp add: verify_single_entry_def bindR_eq_Inl strcmp_no_status Let_def split: if_splits)
  have entry: "verify_entry_loop atoi e vs \<noteq> Inl (Status st)" for e vs
    by (induction vs) (auto simp add: bindR_eq_Inl one)
  have "verify_entries_loop atoi vs es \<noteq> Inl (Status st)" for vs es
    by (induction es) (auto simp add: bindR_eq_Inl entry)
  then show ?thesis
    by (simp add: verify_sbat_section_def verify_sbat_helper_def split: option.splits sum.splits exc.splits)
qed

text \<open>What \<open>verify_buffer_sbat\<close> decides, from a section of the file.\<close>

lemma verify_buffer_sbat_section:
  assumes f: "is_file b data datasize" and c: "context_ok b data (unat datasize) ctx" and n: "datasize < 0x80000000"
  shows "(\<exists>st. verify_buffer_sbat pool atoi sbat in_protocol b data datasize ctx = Inl (Status st) \<and> EFI_ERROR st)
       \<or> (\<exists>sec. sbat_section_of b ctx sec
            \<and> verify_buffer_sbat pool atoi sbat in_protocol b data datasize ctx
              = verify_sbat_section pool atoi sbat in_protocol sec)"
proof -
  have sc: "(scast datasize :: u64) = ucast datasize" using n by (intro scast_small) (simp add: word_less_nat_alt)
  let ?loop = "sbat_section_loop b data (ucast datasize) ctx (unat (c_NumberOfSections ctx)) 0 None 0"
  have s: "safely ?loop (sbat_found b ctx)"
    by (rule sbat_section_loop_safe [OF f c]) (simp_all add: sbat_found_def)
  have err: "EFI_ERROR st" if "sbat_section_loop b data n' ctx k i base sz = Inl (Status st)" for n' k i base sz st
    using that by (induction k arbitrary: i base sz)
      (auto simp add: Let_def bindR_eq_Inl read_section_def load_not_status orelse_status_eq_Inl split: if_splits)
  show ?thesis
  proof (cases ?loop)
    case (Inl e)
    then show ?thesis using s err by (cases e) (auto simp add: verify_buffer_sbat_def sc)
  next
    case (Inr r)
    obtain base sz where r: "r = (base, sz)" by fastforce
    show ?thesis
    proof (cases base)
      case None
      then have "sbat_section_of b ctx None" "verify_buffer_sbat pool atoi sbat in_protocol b data datasize ctx
          = verify_sbat_section pool atoi sbat in_protocol None"
        using Inr r by (simp_all add: verify_buffer_sbat_def sc sbat_section_of_def)
      then show ?thesis by blast
    next
      case (Some p)
      then obtain x where x: "x \<in> set (sections_of b ctx)" "is_sbat_section x" "load b p (unat sz) = Inr (raw_bytes (mb_data b) x)"
        using s Inr r by (auto simp add: sbat_found_def)
      then have "sbat_section_of b ctx (Some (raw_bytes (mb_data b) x))" by (auto simp add: sbat_section_of_def)
      moreover have "verify_buffer_sbat pool atoi sbat in_protocol b data datasize ctx
          = verify_sbat_section pool atoi sbat in_protocol (Some (raw_bytes (mb_data b) x))"
        using Inr r Some x(3) by (simp add: verify_buffer_sbat_def sc)
      ultimately show ?thesis by blast
    qed
  qed
qed


section \<open>Errors of the digest\<close>

lemma err_only_load [simp]: "err_only (load b p n)" "err_only (rd16 b p)" "err_only (rd32 b p)"
  by (auto simp add: err_only_def rd16_def rd32_def load_def)

lemma err_only_orelse [simp]: "EFI_ERROR st \<Longrightarrow> err_only (orelse_status x st)"
  by (auto simp add: err_only_def orelse_status_def split: option.splits)

lemma err_only_range [simp]: "err_only (hash_range s256 s1 b data n h p sz)"
  by (simp add: hash_range_def err_only_bind)

lemma err_only_hash_headers [simp]: "err_only (hash_headers s256 s1 b data n ctx h)"
  by (simp add: hash_headers_def Let_def err_only_bind)

lemma err_only_fix [simp]: "err_only (fix_sections b data n pe_off ctx)"
  by (simp add: fix_sections_def Let_def err_only_bind)

lemma err_only_vma [simp]: "err_only (get_section_vma b ctx i buffer)"
  by (simp add: get_section_vma_def read_section_def Let_def err_only_bind)

lemma err_only_sort [simp]: "err_only (sort_sections b data n ctx hashed k i sm t)"
proof (induction k arbitrary: i sm t)
  case (Suc k)
  have "err_only (get_section_vma b ctx i data)" by simp
  then show ?case using Suc by (auto simp add: err_only_def split: sum.splits exc.splits)
qed simp

lemma err_only_hash_sections [simp]: "err_only (hash_sections s256 s1 b data n h hashed ss)"
  by (induction ss arbitrary: h hashed) (simp_all add: err_only_bind)

lemma err_only_rest [simp]: "err_only (hash_rest s256 s1 b data n ctx h hashed)"
  by (simp add: hash_rest_def Let_def err_only_bind)

lemma err_only_body [simp]: "err_only (hash_body s256 s1 pool b data n h ctx)"
  by (simp add: hash_body_def err_only_bind split: prod.splits)

lemma err_only_generate_hash [simp]: "err_only (generate_hash s256 s1 pool b data n ctx)"
  by (simp add: generate_hash_def err_only_bind)


section \<open>Properties\<close>

text \<open>The part of the file that is signed, and what a verdict of success has to rest on.\<close>

definition signed_content :: "mbuf \<Rightarrow> u64 \<Rightarrow> pe_context \<Rightarrow> bytes" where
  "signed_content b data ctx = authenticode_input (mb_data b) (unat (c_PEHdr ctx - data)) (unat (c_SecDir ctx - data))
     (unat (c_SizeOfHeaders ctx)) (sections_of b ctx) (cert_size b ctx)"

definition trusted ::
  "'w verify_env \<Rightarrow> sig_dbs \<Rightarrow> mbuf \<Rightarrow> u64 \<Rightarrow> u32 \<Rightarrow> pe_context \<Rightarrow> efi_status \<Rightarrow> bytes \<Rightarrow> bytes \<Rightarrow> bool"
where
  "trusted env d b data datasize ctx http h256 h1 \<longleftrightarrow> \<not> denied_hash d h256 h1
     \<and> (allowed env d None h256 h1 \<or> accepted_signature env d b data datasize ctx h256 h1 \<or> \<not> EFI_ERROR http)"

lemma accepted_signature_first [simp]:
  "accepted_signature env d b data datasize (ctx\<lparr>c_FirstSection := p\<rparr>) h256 h1 = accepted_signature env d b data datasize ctx h256 h1"
  by (simp add: accepted_signature_def)

lemma int_nonneg: "(n :: u32) < 0x80000000 \<Longrightarrow> \<not> n <s 0"
  using not_bit_high [of n 31 31]
  by (simp add: word_sless_alt not_less bit_last_iff word_less_nat_alt flip: bit_last_iff)

lemma authenticode_verdict:
  assumes store: "mock_good w" "ve_rt env = host_rt" "\<forall>n. ve_pool env n" "dbs_ok env (mock_vars w) d"
    and f: "is_file b data datasize" and n: "datasize < 0x80000000" and h: "read_header penv b data datasize = Inr ctx"
    and s: "computes s256 sha256" "computes s1 sha1" "\<forall>m. length (sha256 m) = 32" "\<forall>m. length (sha1 m) = 20"
  shows "\<exists>st vm' ctx'. verify_buffer_authenticode env w s256 s1 pool http b data datasize ctx vm = Some (Inr (st, vm', ctx'))
     \<and> (ctx' = ctx \<or> c_NumberOfSections ctx = 0 \<and> (\<exists>p. ctx' = ctx\<lparr>c_FirstSection := p\<rparr>))
     \<and> (\<not> EFI_ERROR st \<longrightarrow> trusted env d b data datasize ctx http (sha256 (signed_content b data ctx)) (sha1 (signed_content b data ctx)))"
proof -
  note pos = int_nonneg [OF n]
  note r = generate_hash_result [OF f h, of s256 s1 pool]
  show ?thesis
  proof (cases "generate_hash s256 s1 pool b data datasize ctx")
    case (Inl e)
    then obtain st where "e = Status st" using r by (cases e) auto
    then show ?thesis
      using Inl pos err_only_generate_hash [of s256 s1 pool b data datasize ctx]
      by (simp add: verify_buffer_authenticode_def err_only_def)
  next
    case (Inr x)
    obtain h256 h1 ctx' where x: "x = (h256, h1, ctx')" using prod_cases3 by blast
    have post: "hash_post s256 s1 b data datasize ctx (h256, h1, ctx')" using r Inr x by simp
    then have dg: "h256 = sha256 (signed_content b data ctx)" "h1 = sha1 (signed_content b data ctx)"
      and c: "ctx' = ctx \<or> c_NumberOfSections ctx = 0 \<and> (\<exists>p. ctx' = ctx\<lparr>c_FirstSection := p\<rparr>)"
      using s by (auto simp add: hash_post_def digests_def signed_content_def Let_def)
    have nb: "unat data + unat datasize < 2 ^ 64"
      using f unat_u32_bound [of datasize] by (simp add: is_file_def)
    have "context_ok b data (unat datasize) ctx"
      using read_header_ctx [OF is_file_in_buf [OF f] nb h] by (simp add: header_ctx_def)
    then have sd: "in_buf b (c_SecDir ctx') 8" using c by (auto simp add: context_ok_def)
    have l: "length h256 = 32" "length h1 = 20" using dg s by simp_all
    obtain st vm' where v: "verify_hash env w http b data datasize ctx' h256 h1 vm = Some (Inr (st, vm'))"
      "denied_hash d h256 h1 \<longrightarrow> st = EFI_SECURITY_VIOLATION"
      "\<not> EFI_ERROR st \<longrightarrow> allowed env d None h256 h1 \<or> accepted_signature env d b data datasize ctx' h256 h1 \<or> \<not> EFI_ERROR http"
      using mock.hash_verdict [OF store l f sd, of http vm] by blast
    have a: "accepted_signature env d b data datasize ctx' h256 h1 = accepted_signature env d b data datasize ctx h256 h1"
      using c by auto
    have "verify_buffer_authenticode env w s256 s1 pool http b data datasize ctx vm = Some (Inr (st, vm', ctx'))"
      using Inr x pos v(1) by (simp add: verify_buffer_authenticode_def)
    moreover have "\<not> EFI_ERROR st \<longrightarrow> trusted env d b data datasize ctx http h256 h1"
      using v(2,3) unfolding trusted_def a by auto
    ultimately show ?thesis using c dg by blast
  qed
qed


definition demo_sha256 :: "u8 \<Rightarrow> bytes sha" where "demo_sha256 x = demo_sha (\<lambda>_. demo_hash x)"
definition demo_sha1 :: "bytes sha" where "demo_sha1 = demo_sha (\<lambda>_. replicate 20 0)"

lemma demo_sha_facts: "computes (demo_sha256 x) (\<lambda>_. demo_hash x)" "computes demo_sha1 (\<lambda>_. replicate 20 0)"
  "\<forall>m. length (demo_hash x) = 32" "\<forall>m. length (replicate 20 (0 :: u8)) = 20"
  by (simp_all add: demo_sha256_def demo_sha1_def demo_sha_computes demo_hash_def)


lemma buffer_accepts:
  assumes "mock_good w" and "ve_rt env = host_rt" and "\<forall>n. ve_pool env n" and "dbs_ok env (mock_vars w) d"
    and "is_file b data datasize" and "datasize < 0x80000000" and "read_header penv b data datasize = Inr ctx"
    and "computes s256 sha256" and "computes s1 sha1" and "\<forall>m. length (sha256 m) = 32" and "\<forall>m. length (sha1 m) = 20"
    and "verify_buffer env w s256 s1 pool http atoi sbat in_protocol b data datasize ctx vm = Some (Inr (st, vm', ctx'))"
    and "\<not> EFI_ERROR st"
  shows "trusted env d b data datasize ctx http (sha256 (signed_content b data ctx)) (sha1 (signed_content b data ctx))
     \<and> (\<exists>sec. sbat_section_of b ctx sec \<and> verify_sbat_section pool atoi sbat in_protocol sec = Inr st)"
proof -
  obtain st0 vm0 ctx0 where a: "verify_buffer_authenticode env w s256 s1 pool http b data datasize ctx vm = Some (Inr (st0, vm0, ctx0))"
    and c: "ctx0 = ctx \<or> c_NumberOfSections ctx = 0 \<and> (\<exists>p. ctx0 = ctx\<lparr>c_FirstSection := p\<rparr>)"
    and t: "\<not> EFI_ERROR st0 \<longrightarrow> trusted env d b data datasize ctx http (sha256 (signed_content b data ctx)) (sha1 (signed_content b data ctx))"
    using authenticode_verdict [OF assms(1-11), of pool http vm] by blast
  let ?sbat = "\<lambda>c. verify_buffer_sbat pool atoi sbat in_protocol b data datasize c"
  have ok: "\<not> EFI_ERROR st0" and sb: "?sbat ctx0 = Inr st \<or> ?sbat ctx0 = Inl (Status st)"
    using assms(12,13) a by (auto simp add: verify_buffer_def split: if_splits sum.splits exc.splits)
  have nb: "unat data + unat datasize < 2 ^ 64"
    using assms(5) unat_u32_bound [of datasize] by (simp add: is_file_def)
  have ctx: "context_ok b data (unat datasize) ctx"
    using read_header_ctx [OF is_file_in_buf [OF assms(5)] nb assms(7)] by (simp add: header_ctx_def)
  have "\<exists>sec. sbat_section_of b ctx sec \<and> verify_sbat_section pool atoi sbat in_protocol sec = Inr st"
    if "?sbat ctx = Inr st \<or> ?sbat ctx = Inl (Status st)"
    using that verify_buffer_sbat_section [OF assms(5) ctx assms(6), of pool atoi sbat in_protocol] assms(13)
      verify_sbat_section_error by fastforce
  moreover have "?sbat ctx0 = ?sbat ctx" using c by (auto simp add: verify_buffer_sbat_def)
  ultimately show ?thesis using ok t sb by simp
qed


text \<open>A file with an allowed hash and no SBAT section is accepted when there are no revocations.\<close>

lemma demo_verify_buffer:
  assumes "mock_good w" and "dbs_ok demo_verify_env (mock_vars w) demo_dbs"
  shows "\<exists>vm'. verify_buffer demo_verify_env w (demo_sha256 8) demo_sha1 (\<lambda>_. True) EFI_NOT_FOUND atoi [] in_protocol
       demo_pe 0x10000 400 demo_ctx VERIFIED_BY_NOTHING = Some (Inr (EFI_SUCCESS, vm', demo_ctx))"
proof -
  have g: "generate_hash (demo_sha256 8) demo_sha1 (\<lambda>_. True) demo_pe 0x10000 400 demo_ctx = Inr (demo_hash 8, replicate 20 0, demo_ctx)"
    unfolding demo_sha256_def demo_sha1_def using demo_generate_hash [of "\<lambda>_. demo_hash 8" "\<lambda>_. replicate 20 0"] by simp
  have l: "length (demo_hash 8) = 32" "length (replicate 20 (0 :: u8)) = 20" by (simp_all add: demo_hash_def)
  have sd: "in_buf demo_pe (c_SecDir demo_ctx) 8" by (simp add: in_buf_def off_def demo_length demo_ctx_def)
  have "\<not> denied_hash demo_dbs (demo_hash 8) (replicate 20 0)"
    using demo_denied [of None 8] by (simp add: denied_def has_cert_def)
  then obtain vm' where v: "verify_hash demo_verify_env w EFI_NOT_FOUND demo_pe 0x10000 400 demo_ctx (demo_hash 8)
      (replicate 20 0) VERIFIED_BY_NOTHING = Some (Inr (EFI_SUCCESS, vm'))"
    using mock.hash_verdict [OF assms(1) demo_env_facts(1,2) assms(2) l demo_is_file sd] demo_allowed by blast
  have n: "unat (c_NumberOfSections demo_ctx) = 1" by (simp add: demo_ctx_def)
  have p: "0x10000 + 400 < section_ptr demo_ctx 0 + 40 \<longleftrightarrow> False" by (simp add: section_ptr_def demo_ctx_def)
  have s: "verify_buffer_sbat (\<lambda>_. True) atoi [] in_protocol demo_pe 0x10000 400 demo_ctx = Inr EFI_SUCCESS"
    by (simp add: verify_buffer_sbat_def n p [simplified] demo_section bind_guardR str8_def verify_sbat_section_def)
  show ?thesis
    using g v s int_nonneg [of 400] by (simp add: verify_buffer_def verify_buffer_authenticode_def)
qed


end
