(* ===== verification/Reloc.thy ===== *)
theory Reloc
  imports PeHeader
begin

text \<open>
  pe-relocate.c, \<open>relocate_coff\<close>: the base relocations of an image. The table is read from
  the file (at \<open>orig\<close>), the fixups go to the loaded image (at \<open>data\<close>); both are
  \<open>mbuf\<close>s. The loops are partial functions, so that not returning is \<open>None\<close>.
\<close>

section \<open>The code\<close>

text \<open>One fixup, by the type in the upper four bits of the entry.\<close>

definition reloc_fixup :: "mbuf \<Rightarrow> u64 \<Rightarrow> u64 \<Rightarrow> u16 \<Rightarrow> mbuf res" where
  "reloc_fixup img base adjust entry =
     (let fixup = base + ucast (entry AND 0xFFF); kind = drop_bit 12 entry in
      if kind = 0 then Inr img
      else if kind = 1 then
        bindR (rd16 img fixup) (\<lambda>v. wr16 img fixup (v + ucast (drop_bit 16 (ucast adjust :: u32))))
      else if kind = 2 then
        bindR (rd16 img fixup) (\<lambda>v. wr16 img fixup (v + ucast adjust))
      else if kind = 3 then
        bindR (rd32 img fixup) (\<lambda>v. wr32 img fixup (v + ucast adjust))
      else if kind = 10 then
        bindR (rd64 img fixup) (\<lambda>v. wr64 img fixup (v + adjust))
      else Inl (Status EFI_UNSUPPORTED))"

text \<open>The entries of a block, from \<open>reloc\<close> to \<open>reloc_end\<close>.\<close>

partial_function (option) reloc_entries ::
  "mbuf \<Rightarrow> u64 \<Rightarrow> u64 \<Rightarrow> u64 \<Rightarrow> u64 \<Rightarrow> mbuf \<Rightarrow> mbuf res option"
where
  "reloc_entries file base adjust reloc_end reloc img =
     (if reloc < reloc_end then
        (case bindR (rd16 file reloc) (reloc_fixup img base adjust) of
           Inl e \<Rightarrow> Some (Inl e)
         | Inr img' \<Rightarrow> reloc_entries file base adjust reloc_end (reloc + 2) img')
      else Some (Inr img))"

declare reloc_entries.simps [code]

text \<open>
  The checks on a block: its end (the next block) and the address its entries are relative
  to. \<open>size\<close> is the image size as an \<open>int\<close>, sign-extended where it is used.
\<close>

definition reloc_block :: "mbuf \<Rightarrow> u32 \<Rightarrow> u64 \<Rightarrow> u64 \<Rightarrow> u64 \<Rightarrow> u64 \<Rightarrow> (u64 \<times> u64) res" where
  "reloc_block file dir_size orig data sz block =
     bindR (rd32 file (block + 4)) (\<lambda>size_of_block.
     bindR (guardR (size_of_block \<noteq> 0) EFI_UNSUPPORTED) (\<lambda>_.
     bindR (guardR (size_of_block \<le> dir_size) EFI_UNSUPPORTED) (\<lambda>_.
     let reloc_end = block + ucast size_of_block in
     bindR (guardR (\<not> (reloc_end < orig \<or> orig + sz < reloc_end)) EFI_UNSUPPORTED) (\<lambda>_.
     bindR (rd32 file block) (\<lambda>va.
     bindR (orelse_status (ImageAddress data sz (ucast va)) EFI_UNSUPPORTED) (\<lambda>base.
       Inr (reloc_end, base)))))))"

partial_function (option) reloc_blocks ::
  "mbuf \<Rightarrow> u32 \<Rightarrow> u64 \<Rightarrow> u64 \<Rightarrow> u64 \<Rightarrow> u64 \<Rightarrow> u64 \<Rightarrow> u64 \<Rightarrow> mbuf \<Rightarrow> mbuf res option"
where
  "reloc_blocks file dir_size orig data sz adjust table_end block img =
     (if block < table_end then
        (case reloc_block file dir_size orig data sz block of
           Inl e \<Rightarrow> Some (Inl e)
         | Inr (reloc_end, base) \<Rightarrow>
             (case reloc_entries file base adjust reloc_end (block + 8) img of
                None \<Rightarrow> None
              | Some (Inl e) \<Rightarrow> Some (Inl e)
              | Some (Inr img') \<Rightarrow>
                  reloc_blocks file dir_size orig data sz adjust table_end reloc_end img'))
      else Some (Inr img))"

declare reloc_blocks.simps [code]

definition relocate_coff ::
  "mbuf \<Rightarrow> pe_context \<Rightarrow> section_header \<Rightarrow> u64 \<Rightarrow> u64 \<Rightarrow> mbuf \<Rightarrow> mbuf res option"
where
  "relocate_coff file ctx sec orig data img =
     (let sz = scast (ucast (c_ImageSize ctx) :: u32) :: u64 in
      case rd32 file (c_RelocDir ctx + 4) of
        Inl e \<Rightarrow> Some (Inl e)
      | Inr dir_size \<Rightarrow>
          (case (ImageAddress orig sz (ucast (sh_PointerToRawData sec)),
                 ImageAddress orig sz (ucast (sh_PointerToRawData sec + dir_size - 1))) of
             (None, None) \<Rightarrow> Some (Inr img)
           | (Some block, Some table_end) \<Rightarrow>
               if data - c_ImageAddress ctx = 0 then Some (Inr img)
               else reloc_blocks file dir_size orig data sz (data - c_ImageAddress ctx) table_end block img
           | _ \<Rightarrow> Some (Inl (Status EFI_UNSUPPORTED))))"

section \<open>The loops return\<close>

lemma reloc_entries_total:
  assumes "unat reloc_end + 8 \<le> 2 ^ 64"
  shows "\<exists>r. reloc_entries file base adjust reloc_end reloc img = Some r"
proof (induction "unat reloc_end - unat reloc" arbitrary: reloc img rule: less_induct)
  case less
  show ?case
  proof (cases "reloc < reloc_end")
    case True
    then have r: "unat reloc < unat reloc_end" by (simp add: word_less_nat_alt)
    then have "unat (reloc + 2) = unat reloc + 2" using assms by (simp add: unat_word_ariths)
    then have "unat reloc_end - unat (reloc + 2) < unat reloc_end - unat reloc" using r by simp
    note ih = less.hyps [OF this]
    show ?thesis
      using ih by (subst reloc_entries.simps) (auto split: sum.splits)
  next
    case False
    then show ?thesis by (subst reloc_entries.simps) simp
  qed
qed

lemma reloc_block_end:
  assumes "reloc_block file dir_size orig data sz block = Inr (e, base)"
    and "unat block + 2 ^ 32 \<le> 2 ^ 64"
  shows "unat block < unat e" and "unat e < unat block + 2 ^ 32" 
proof -
  obtain s where s: "s \<noteq> 0" "e = block + ucast (s :: u32)"
    using assms(1) by (auto simp add: reloc_block_def Let_def res_simps split: if_splits)
  have "0 < unat s" using s(1) by (simp add: unat_gt_0)
  moreover have "unat e = unat block + unat s"
    using s(2) assms(2) unat_u32_bound [of s] by (simp add: unat_word_ariths)
  ultimately show "unat block < unat e" "unat e < unat block + 2 ^ 32" 
    using unat_u32_bound [of s] by simp_all
qed

lemma reloc_blocks_total:
  assumes "unat table_end + 2 ^ 33 \<le> 2 ^ 64"
  shows "\<exists>r. reloc_blocks file dir_size orig data sz adjust table_end block img = Some r"
proof (induction "unat table_end - unat block" arbitrary: block img rule: less_induct)
  case less
  show ?case
  proof (cases "block < table_end")
    case True
    then have b: "unat block < unat table_end" by (simp add: word_less_nat_alt)
    have total: "\<exists>r. (case reloc_entries file base adjust e (block + 8) img of
                None \<Rightarrow> None
              | Some (Inl x) \<Rightarrow> Some (Inl x)
              | Some (Inr img') \<Rightarrow> reloc_blocks file dir_size orig data sz adjust table_end e img') = Some r"
      if h: "reloc_block file dir_size orig data sz block = Inr (e, base)" for e base
    proof -
      have e: "unat block < unat e" "unat e + 8 \<le> 2 ^ 64"
        using reloc_block_end [OF h] b assms by simp_all
      obtain r where r: "reloc_entries file base adjust e (block + 8) img = Some r"
        using reloc_entries_total [OF e(2)] by blast
      have "unat table_end - unat e < unat table_end - unat block" using e(1) b by simp
      from less.hyps [OF this] show ?thesis by (auto simp add: r split: sum.splits)
    qed
    show ?thesis
      using True total by (subst reloc_blocks.simps) (auto split: sum.splits prod.splits)
  next
    case False
    then show ?thesis by (subst reloc_blocks.simps) simp
  qed
qed

lemma relocate_coff_total:
  assumes "unat orig + 2 ^ 34 \<le> 2 ^ 64"
  shows "\<exists>r. relocate_coff file ctx sec orig data img = Some r"
proof -
  have e: "unat p + 2 ^ 33 \<le> 2 ^ 64" if "ImageAddress orig sz (ucast (x :: u32)) = Some p" for sz x p
    using that assms unat_u32_bound [of x] by (auto simp add: ImageAddress_Some unat_word_ariths)
  show ?thesis
    unfolding relocate_coff_def Let_def
    using reloc_blocks_total [OF e] by (auto split: sum.splits option.splits)
qed

section \<open>What the code computes\<close>

text \<open>
  An abstract table is a list of blocks, each an address and its entries; \<open>table_bytes\<close> is
  its encoding in the file. An entry adds a number to a little-endian field of the image.
\<close>

type_synonym reloc_table = "(u32 \<times> u16 list) list"

definition entries_bytes :: "u16 list \<Rightarrow> bytes" where
  "entries_bytes es = concat (map (\<lambda>e. le_bytes 2 (unat e)) es)"

definition block_bytes :: "u32 \<times> u16 list \<Rightarrow> bytes" where
  "block_bytes blk = le_bytes 4 (unat (fst blk)) @ le_bytes 4 (8 + 2 * length (snd blk)) @ entries_bytes (snd blk)"

definition table_bytes :: "reloc_table \<Rightarrow> bytes" where
  "table_bytes t = concat (map block_bytes t)"

definition add_field :: "nat \<Rightarrow> nat \<Rightarrow> nat \<Rightarrow> bytes \<Rightarrow> bytes" where
  "add_field w d i bs =
     take i bs @ le_bytes w ((le_nat (take w (drop i bs)) + d) mod 256 ^ w) @ drop (i + w) bs"

definition entry_width :: "u16 \<Rightarrow> nat option" where
  "entry_width e = (let k = drop_bit 12 e in
     if k = 0 then Some 0 else if k = 1 \<or> k = 2 then Some 2 else if k = 3 then Some 4
     else if k = 10 then Some 8 else None)"

definition entry_delta :: "u64 \<Rightarrow> u16 \<Rightarrow> nat" where
  "entry_delta adjust e = (if drop_bit 12 e = 1 then unat adjust div 2 ^ 16 else unat adjust)"

definition entry_pos :: "u32 \<Rightarrow> u16 \<Rightarrow> nat" where
  "entry_pos va e = unat va + unat (e AND 0xFFF)"

definition entry_ok :: "nat \<Rightarrow> u32 \<Rightarrow> u16 \<Rightarrow> bool" where
  "entry_ok n va e \<longleftrightarrow> (case entry_width e of None \<Rightarrow> False | Some w \<Rightarrow> entry_pos va e + w \<le> n)"

definition apply_entry :: "u64 \<Rightarrow> u32 \<Rightarrow> u16 \<Rightarrow> bytes \<Rightarrow> bytes" where
  "apply_entry adjust va e bs = add_field (the (entry_width e)) (entry_delta adjust e) (entry_pos va e) bs"

definition apply_table :: "u64 \<Rightarrow> reloc_table \<Rightarrow> bytes \<Rightarrow> bytes" where
  "apply_table adjust t bs =
     fold (\<lambda>(va, es) bs. fold (apply_entry adjust va) es bs) t bs"

definition table_ok :: "nat \<Rightarrow> nat \<Rightarrow> reloc_table \<Rightarrow> bool" where
  "table_ok isz n t \<longleftrightarrow> (\<forall>(va, es) \<in> set t. unat va < isz \<and> (\<forall>e \<in> set es. entry_ok n va e))"

lemma length_entries_bytes [simp]: "length (entries_bytes es) = 2 * length es"
  by (induction es) (simp_all add: entries_bytes_def)

lemma length_block_bytes [simp]: "length (block_bytes blk) = 8 + 2 * length (snd blk)"
  by (simp add: block_bytes_def)

lemma unat_ptr: "unat (p :: u64) + k < 2 ^ 64 \<Longrightarrow> unat (p + word_of_nat k) = unat p + k"
  by (simp add: unat_word_ariths unat_of_nat)

lemma load_at:
  assumes "mb_data b = pre @ xs @ post" and "length pre = k" and "length xs = n" and "k < 2 ^ 64"
  shows "load b (mb_base b + word_of_nat k) n = Inr xs"
  using assms unat_of_nat_u64 [OF assms(4)] by (simp add: load_def in_buf_def)

lemma rd16_at:
  assumes "mb_data b = pre @ le_bytes 2 (unat (x :: u16)) @ post" and "length pre = k" and "k < 2 ^ 64"
  shows "rd16 b (mb_base b + word_of_nat k) = Inr x"
  using load_at [OF assms(1,2) length_le_bytes assms(3)] unat_u16_bound [of x]
  by (simp add: rd16_def le_nat_le_bytes)

lemma rd32_at:
  assumes "mb_data b = pre @ le_bytes 4 n @ post" and "length pre = k" and "k < 2 ^ 64" and "n < 2 ^ 32"
  shows "rd32 b (mb_base b + word_of_nat k) = Inr (word_of_nat n)"
  using load_at [OF assms(1,2) length_le_bytes assms(3)] assms(4)
  by (simp add: rd32_def le_nat_le_bytes)

lemma add_field_0 [simp]: "add_field 0 d i bs = bs"
  by (simp add: add_field_def)

lemma length_add_field [simp]: "i + w \<le> length bs \<Longrightarrow> length (add_field w d i bs) = length bs"
  by (simp add: add_field_def)

text \<open>A load, an addition and a store of the same width are \<open>add_field\<close>.\<close>

lemma field_pos:
  assumes "unat va + unat (e AND 0xFFF) + w \<le> length (mb_data img)" and "length (mb_data img) < 2 ^ 64"
  shows "off img (mb_base img + ucast (va :: u32) + ucast (e AND 0xFFF :: u16)) = entry_pos va e"
proof -
  have "unat (ucast va + ucast (e AND 0xFFF) :: u64) = entry_pos va e"
    using assms by (simp add: unat_word_ariths entry_pos_def)
  then show ?thesis by (simp add: off_def)
qed

lemma store_field:
  assumes "off img p = i" and "i + w \<le> length (mb_data img)"
  shows "bindR (load img p w) (\<lambda>x. store img p (le_bytes w ((le_nat x + d) mod 256 ^ w)))
         = Inr (img\<lparr>mb_data := add_field w d i (mb_data img)\<rparr>)"
  using assms by (simp add: load_def store_def in_buf_def add_field_def)

lemma wr_of_load:
  "bindR (rd16 img p) (\<lambda>v. wr16 img p (v + word_of_nat d))
   = bindR (load img p 2) (\<lambda>x. store img p (le_bytes 2 ((le_nat x + d) mod 256 ^ 2)))"
  "bindR (rd32 img p) (\<lambda>v. wr32 img p (v + word_of_nat d))
   = bindR (load img p 4) (\<lambda>x. store img p (le_bytes 4 ((le_nat x + d) mod 256 ^ 4)))"
  "bindR (rd64 img p) (\<lambda>v. wr64 img p (v + word_of_nat d))
   = bindR (load img p 8) (\<lambda>x. store img p (le_bytes 8 ((le_nat x + d) mod 256 ^ 8)))"
  by (simp_all add: rd16_def rd32_def rd64_def wr16_def wr32_def wr64_def bindR_assoc unat_of_nat
      flip: of_nat_add)

lemma reloc_fixup_apply:
  assumes "entry_ok (length (mb_data img)) va e" and "length (mb_data img) < 2 ^ 64" and "mb_base img = data"
  shows "reloc_fixup img (data + ucast va) adjust e
         = Inr (img\<lparr>mb_data := apply_entry adjust va e (mb_data img)\<rparr>)"
proof -
  obtain w where w: "entry_width e = Some w" "entry_pos va e + w \<le> length (mb_data img)"
    using assms(1) by (auto simp add: entry_ok_def split: option.splits)
  let ?p = "data + ucast va + ucast (e AND 0xFFF)"
  have o: "off img ?p = entry_pos va e"
    using field_pos [of va e w img] w(2) assms(2,3) by (simp add: entry_pos_def)
  note sf = store_field [OF o w(2)]
  have hi: "(ucast (drop_bit 16 (ucast adjust :: u32)) :: u16) = word_of_nat (unat adjust div 65536)"
  proof (rule bit_word_eqI)
    fix n assume "n < LENGTH(16)"
    moreover have "unat adjust div 65536 = drop_bit 16 (unat adjust)" by (simp add: drop_bit_eq_div)
    ultimately show "bit (ucast (drop_bit 16 (ucast adjust :: u32)) :: u16) n = bit (word_of_nat (unat adjust div 65536) :: u16) n"
      by (simp add: bit_simps)
  qed
  note wr = wr_of_load(1) [of img ?p "unat adjust", simplified] wr_of_load(2,3) [of img ?p "unat adjust", simplified]
    wr_of_load(1) [of img ?p "unat adjust div 65536", folded hi]
  have k: "drop_bit 12 e = 0 \<or> drop_bit 12 e = 1 \<or> drop_bit 12 e = 2 \<or> drop_bit 12 e = 3 \<or> drop_bit 12 e = 10"
    using w(1) by (auto simp add: entry_width_def Let_def split: if_splits)
  then show ?thesis
    using w(1) sf
    by (elim disjE)
       (simp_all add: reloc_fixup_def Let_def entry_width_def apply_entry_def entry_delta_def wr)
qed


text \<open>The two loops on an encoded table.\<close>

lemma length_apply_entry:
  "entry_ok (length bs) va e \<Longrightarrow> length (apply_entry adjust va e bs) = length bs"
  by (auto simp add: entry_ok_def apply_entry_def split: option.splits)

lemma length_apply_entries:
  "\<forall>e\<in>set es. entry_ok (length bs) va e \<Longrightarrow> length (fold (apply_entry adjust va) es bs) = length bs"
  by (induction es arbitrary: bs) (simp_all add: length_apply_entry)

lemma reloc_entries_apply:
  assumes "mb_data file = pre @ entries_bytes es @ post" and "length pre = k"
    and "unat (mb_base file) + k + 2 * length es < 2 ^ 64"
    and "reloc_end = mb_base file + word_of_nat (k + 2 * length es)"
    and "\<forall>e \<in> set es. entry_ok (length (mb_data img)) va e"
    and "length (mb_data img) < 2 ^ 64" and "mb_base img = data"
  shows "reloc_entries file (data + ucast va) adjust reloc_end (mb_base file + word_of_nat k) img
         = Some (Inr (img\<lparr>mb_data := fold (apply_entry adjust va) es (mb_data img)\<rparr>))"
  using assms
proof (induction es arbitrary: pre k img)
  case Nil
  then show ?case by (subst reloc_entries.simps) (simp add: entries_bytes_def)
next
  case (Cons e es)
  let ?p = "mb_base file + word_of_nat k"
  have lt: "?p < reloc_end"
    using Cons.prems(3) unfolding Cons.prems(4) word_less_nat_alt
    by (subst (1 2) unat_ptr) simp_all
  have r: "rd16 file ?p = Inr e"
    using Cons.prems(1-3) by (intro rd16_at [of _ pre _ "entries_bytes es @ post"]) (simp_all add: entries_bytes_def)
  have f: "reloc_fixup img (data + ucast va) adjust e = Inr (img\<lparr>mb_data := apply_entry adjust va e (mb_data img)\<rparr>)"
    using Cons.prems(5-7) by (intro reloc_fixup_apply) simp_all
  have n: "?p + 2 = mb_base file + word_of_nat (k + 2)" by simp
  have "reloc_entries file (data + ucast va) adjust reloc_end (?p + 2) (img\<lparr>mb_data := apply_entry adjust va e (mb_data img)\<rparr>)
     = Some (Inr (img\<lparr>mb_data := fold (apply_entry adjust va) (e # es) (mb_data img)\<rparr>))"
    unfolding n using Cons.prems
    by (subst Cons.IH [of "pre @ le_bytes 2 (unat e)"]) (simp_all add: entries_bytes_def length_apply_entry)
  then show ?case by (subst reloc_entries.simps) (simp add: lt r f)
qed

lemma reloc_block_encoded:
  assumes "mb_data file = pre @ block_bytes (va, es) @ post" and "length pre = k"
    and "orig = mb_base file" and "unat orig + k + 8 + 2 * length es < 2 ^ 64"
    and "8 + 2 * length es \<le> unat dir_size"
    and "k + 8 + 2 * length es \<le> unat sz" and "unat orig + unat sz < 2 ^ 64"
    and "unat va < unat sz" and "unat data + unat sz < 2 ^ 64"
  shows "reloc_block file dir_size orig data sz (orig + word_of_nat k)
         = Inr (orig + word_of_nat (k + 8 + 2 * length es), data + ucast va)"
proof -
  have n: "8 + 2 * length es < 2 ^ 32" using assms(5) unat_u32_bound [of dir_size] by simp
  have a: "rd32 file (orig + word_of_nat k) = Inr va"
    using rd32_at [where b = "file" and pre = pre and n = "unat va" and post = "le_bytes 4 (8 + 2 * length es) @ entries_bytes es @ post" and k = k]
      assms(1-4) unat_u32_bound [of va] by (simp add: block_bytes_def)
  have "rd32 file (orig + word_of_nat (k + 4)) = Inr (word_of_nat (8 + 2 * length es))"
    unfolding assms(3) using assms(1-4) n
    by (intro rd32_at [of _ "pre @ le_bytes 4 (unat va)" _ "entries_bytes es @ post"]) (simp_all add: block_bytes_def)
  then have b: "rd32 file (orig + word_of_nat k + 4) = Inr (word_of_nat (8 + 2 * length es))"
    by (simp add: add.assoc)
  have u: "unat (word_of_nat (8 + 2 * length es) :: u32) = 8 + 2 * length es"
    using n by (simp add: unat_of_nat del: of_nat_add)
  have nz: "(word_of_nat (8 + 2 * length es) :: u32) \<noteq> 0" using u by auto
  have le: "(word_of_nat (8 + 2 * length es) :: u32) \<le> dir_size"
    using u assms(5) unfolding word_le_nat_alt by simp
  have uc: "(ucast (word_of_nat (8 + 2 * length es) :: u32) :: u64) = word_of_nat (8 + 2 * length es)"
    using u n by (intro word_unat_eq_iff [THEN iffD2]) (simp del: of_nat_add add: unat_of_nat)
  have e: "orig + word_of_nat k + (ucast (word_of_nat (8 + 2 * length es) :: u32) :: u64) = orig + word_of_nat (k + 8 + 2 * length es)"
    unfolding uc by (simp add: add.assoc)
  have eu: "unat (orig + word_of_nat (k + 8 + 2 * length es)) = unat orig + (k + 8 + 2 * length es)"
    using assms(4) by (intro unat_ptr) simp
  have su: "unat (orig + sz) = unat orig + unat sz" using assms(7) by (simp add: unat_word_ariths)
  have c: "\<not> (orig + word_of_nat (k + 8 + 2 * length es) < orig \<or> orig + sz < orig + word_of_nat (k + 8 + 2 * length es))"
    using assms(6) unfolding word_less_nat_alt eu su by simp
  have i: "ImageAddress data sz (ucast va) = Some (data + ucast va)"
    using assms(8,9) by (simp add: ImageAddress_Some word_less_nat_alt)
  show ?thesis
    by (simp only: reloc_block_def b bindR_Inr Let_def guardR_def nz le e c a i orelse_status_def if_True option.case
        not_False_eq_True)
qed


lemma table_ok_Cons:
  "table_ok isz n ((va, es) # t) \<longleftrightarrow> unat va < isz \<and> (\<forall>e\<in>set es. entry_ok n va e) \<and> table_ok isz n t"
  by (simp add: table_ok_def)

lemma table_bytes_Cons: "table_bytes (blk # t) = block_bytes blk @ table_bytes t"
  by (simp add: table_bytes_def)

lemma reloc_blocks_apply:
  assumes "mb_data file = pre @ table_bytes t @ post" and "length pre = k" and "orig = mb_base file"
    and "unat orig + unat sz < 2 ^ 64" and "unat data + unat sz < 2 ^ 64"
    and "length (table_bytes t) \<le> unat dir_size" and "k + length (table_bytes t) \<le> unat sz"
    and "table_end = orig + word_of_nat (k + length (table_bytes t) - 1)"
    and "0 < k" and "table_ok (unat sz) (length (mb_data img)) t"
    and "length (mb_data img) < 2 ^ 64" and "mb_base img = data"
  shows "reloc_blocks file dir_size orig data sz adjust table_end (orig + word_of_nat k) img
         = Some (Inr (img\<lparr>mb_data := apply_table adjust t (mb_data img)\<rparr>))"
  using assms
proof (induction t arbitrary: pre k img)
  case Nil
  have "\<not> orig + word_of_nat k < table_end"
    using Nil.prems(4,7-9) unfolding Nil.prems(8) word_less_nat_alt
    by (subst (1 2) unat_ptr) (simp_all add: table_bytes_def)
  then show ?case by (subst reloc_blocks.simps) (simp add: apply_table_def)
next
  case (Cons blk t)
  obtain va es where blk: "blk = (va, es)" by fastforce
  let ?k = "k + 8 + 2 * length es"
  have len: "length (table_bytes (blk # t)) = 8 + 2 * length es + length (table_bytes t)"
    by (simp add: table_bytes_Cons blk)
  have ok: "unat va < unat sz" "\<forall>e\<in>set es. entry_ok (length (mb_data img)) va e"
    "table_ok (unat sz) (length (mb_data img)) t"
    using Cons.prems(10) by (simp_all add: blk table_ok_Cons)
  have lt: "orig + word_of_nat k < table_end"
    using Cons.prems(4,7) len unfolding Cons.prems(8) word_less_nat_alt
    by (subst (1 2) unat_ptr) simp_all
  have d: "mb_data file = pre @ block_bytes (va, es) @ (table_bytes t @ post)"
    using Cons.prems(1) by (simp add: table_bytes_Cons blk)
  have b: "reloc_block file dir_size orig data sz (orig + word_of_nat k) = Inr (orig + word_of_nat ?k, data + ucast va)"
    using Cons.prems(2-7) len ok(1) by (intro reloc_block_encoded [OF d]) simp_all
  let ?img = "img\<lparr>mb_data := fold (apply_entry adjust va) es (mb_data img)\<rparr>"
  have p8: "orig + word_of_nat k + 8 = mb_base file + word_of_nat (k + 8)" using Cons.prems(3) by simp
  have r: "reloc_entries file (data + ucast va) adjust (orig + word_of_nat ?k) (orig + word_of_nat k + 8) img = Some (Inr ?img)"
    unfolding p8 using Cons.prems(2-4,7,11,12) len ok(2) d
    by (intro reloc_entries_apply [of _ "pre @ le_bytes 4 (unat va) @ le_bytes 4 (8 + 2 * length es)" _ "table_bytes t @ post"])
       (simp_all add: block_bytes_def add.assoc)
  have l: "length (mb_data ?img) = length (mb_data img)" using length_apply_entries [OF ok(2)] by simp
  have "reloc_blocks file dir_size orig data sz adjust table_end (orig + word_of_nat ?k) ?img
     = Some (Inr (?img\<lparr>mb_data := apply_table adjust t (mb_data ?img)\<rparr>))"
  proof (rule Cons.IH [of "pre @ block_bytes (va, es)"])
    show "mb_data file = (pre @ block_bytes (va, es)) @ table_bytes t @ post" using d by simp
    show "length (table_bytes t) \<le> unat dir_size" using Cons.prems(6) len by simp
    show "?k + length (table_bytes t) \<le> unat sz" using Cons.prems(7) len by simp
    show "table_end = orig + word_of_nat (?k + length (table_bytes t) - 1)"
      using Cons.prems(8) len by (simp add: add.assoc)
    show "table_ok (unat sz) (length (mb_data ?img)) t" using ok(3) l by simp
    show "length (mb_data ?img) < 2 ^ 64" using Cons.prems(11) l by simp
  qed (use Cons.prems in \<open>simp_all\<close>)
  then show ?case
    by (subst reloc_blocks.simps) (simp add: lt b r blk apply_table_def del: of_nat_add of_nat_mult)
qed

lemma apply_entry_0: "entry_ok (length bs) va e \<Longrightarrow> apply_entry 0 va e bs = bs"
proof -
  assume "entry_ok (length bs) va e"
  then obtain w where w: "entry_width e = Some w" "entry_pos va e + w \<le> length bs"
    by (auto simp add: entry_ok_def split: option.splits)
  let ?x = "take w (drop (entry_pos va e) bs)"
  have x: "length ?x = w" using w(2) by simp
  then have "le_bytes w (le_nat ?x mod 256 ^ w) = ?x"
    using le_nat_bound [of ?x] le_bytes_le_nat [of ?x] by simp
  then have "add_field w 0 (entry_pos va e) bs = take (entry_pos va e) bs @ ?x @ drop (entry_pos va e + w) bs"
    by (simp add: add_field_def)
  also have "\<dots> = bs" by (metis append_take_drop_id drop_drop add.commute)
  finally show ?thesis by (simp add: apply_entry_def w(1) entry_delta_def)
qed

lemma apply_table_0: "table_ok isz (length bs) t \<Longrightarrow> apply_table 0 t bs = bs"
proof (induction t)
  case (Cons blk t)
  obtain va es where blk: "blk = (va, es)" by fastforce
  have "fold (apply_entry 0 va) es bs = bs" if "\<forall>e\<in>set es. entry_ok (length bs) va e"
    using that by (induction es) (simp_all add: apply_entry_0)
  then show ?case using Cons by (simp add: blk table_ok_Cons apply_table_def)
qed (simp add: apply_table_def)

text \<open>The hypotheses under which a file holds a well-formed relocation table.\<close>

definition reloc_input :: "mbuf \<Rightarrow> pe_context \<Rightarrow> section_header \<Rightarrow> mbuf \<Rightarrow> reloc_table \<Rightarrow> bool" where
  "reloc_input file ctx sec img t \<longleftrightarrow>
     (let k = unat (sh_PointerToRawData sec); n = length (table_bytes t); isz = unat (c_ImageSize ctx) in
      0 < k \<and> 0 < n \<and> k + n \<le> isz \<and> isz < 2 ^ 31
    \<and> unat (mb_base file) + isz < 2 ^ 64 \<and> unat (mb_base img) + isz < 2 ^ 64
    \<and> k + n \<le> length (mb_data file) \<and> take n (drop k (mb_data file)) = table_bytes t
    \<and> rd32 file (c_RelocDir ctx + 4) = Inr (word_of_nat n)
    \<and> length (mb_data img) < 2 ^ 64 \<and> table_ok isz (length (mb_data img)) t)"

lemma size_int:
  assumes "unat (s :: u64) < 2 ^ 31"
  shows "(scast (ucast s :: u32) :: u64) = s"
proof (rule bit_word_eqI)
  fix n assume "n < LENGTH(64)"
  then show "bit (scast (ucast s :: u32) :: u64) n = bit s n"
    using not_bit_high [OF assms, of 31] not_bit_high [OF assms, of n]
    by (cases "n < 31") (auto simp add: bit_simps min_def)
qed

lemma relocate_coff_apply:
  assumes "reloc_input file ctx sec img t"
  shows "relocate_coff file ctx sec (mb_base file) (mb_base img) img
         = Some (Inr (img\<lparr>mb_data := apply_table (mb_base img - c_ImageAddress ctx) t (mb_data img)\<rparr>))"
proof -
  let ?k = "unat (sh_PointerToRawData sec)" and ?n = "length (table_bytes t)" and ?orig = "mb_base file"
  let ?sz = "c_ImageSize ctx" and ?data = "mb_base img"
  have i: "0 < ?k" "0 < ?n" "?k + ?n \<le> unat ?sz" "unat ?sz < 2 ^ 31" "unat ?orig + unat ?sz < 2 ^ 64"
    "unat ?data + unat ?sz < 2 ^ 64" "?k + ?n \<le> length (mb_data file)"
    "take ?n (drop ?k (mb_data file)) = table_bytes t" "rd32 file (c_RelocDir ctx + 4) = Inr (word_of_nat ?n)"
    "length (mb_data img) < 2 ^ 64" "table_ok (unat ?sz) (length (mb_data img)) t"
    using assms by (simp_all add: reloc_input_def Let_def)
  have sz: "(scast (ucast ?sz :: u32) :: u64) = ?sz" using i by (intro size_int) simp
  have nu: "unat (word_of_nat ?n :: u32) = ?n" using i by (simp add: unat_of_nat)
  have kk: "(ucast (sh_PointerToRawData sec) :: u64) = word_of_nat ?k" by simp
  have e: "(ucast (sh_PointerToRawData sec + word_of_nat ?n - 1) :: u64) = word_of_nat (?k + ?n - 1)"
  proof -
    have "sh_PointerToRawData sec + word_of_nat ?n - 1 = word_of_nat (?k + ?n - 1)"
      using i by (simp add: of_nat_diff)
    moreover have "unat (word_of_nat (?k + ?n - 1) :: u32) = ?k + ?n - 1"
    proof -
      have "?k + ?n - 1 < 2 ^ LENGTH(32)" using i by simp
      then show ?thesis unfolding unat_of_nat by (rule mod_less)
    qed
    moreover have "unat (word_of_nat (?k + ?n - 1) :: u64) = ?k + ?n - 1"
      using i by (intro unat_of_nat_u64) simp
    ultimately show ?thesis
      by (intro word_unat_eq_iff [THEN iffD2]) (simp only: unat_ucast_u32_u64)
  qed
  have ia: "ImageAddress ?orig ?sz (word_of_nat m) = Some (?orig + word_of_nat m)" if "m < unat ?sz" for m
    using that i unat_of_nat_u64 [of m] by (simp add: ImageAddress_Some word_less_nat_alt)
  have ik: "ImageAddress ?orig ?sz (ucast (sh_PointerToRawData sec)) = Some (?orig + word_of_nat ?k)"
    unfolding kk by (rule ia) (use i(2,3) in linarith)
  have ie: "ImageAddress ?orig ?sz (ucast (sh_PointerToRawData sec + word_of_nat ?n - 1)) = Some (?orig + word_of_nat (?k + ?n - 1))"
    unfolding e by (rule ia) (use i(2,3) in linarith)
  have d: "mb_data file = take ?k (mb_data file) @ table_bytes t @ drop (?k + ?n) (mb_data file)"
    using i by (metis append_take_drop_id drop_drop add.commute)
  have r: "reloc_blocks file (word_of_nat ?n) ?orig ?data ?sz adjust (?orig + word_of_nat (?k + ?n - 1)) (?orig + word_of_nat ?k) img
    = Some (Inr (img\<lparr>mb_data := apply_table adjust t (mb_data img)\<rparr>))" for adjust
    by (rule reloc_blocks_apply [OF d]) (use i nu in \<open>simp_all\<close>)
  have z: "img\<lparr>mb_data := apply_table 0 t (mb_data img)\<rparr> = img" using i by (simp add: apply_table_0)
  show ?thesis
    by (cases "?data - c_ImageAddress ctx = 0")
       (simp_all only: relocate_coff_def Let_def sz i(9) ik ie r z sum.case option.case prod.case if_True if_False if_cancel)
qed


section \<open>Memory safety\<close>

definition same_shape :: "mbuf \<Rightarrow> mbuf \<Rightarrow> bool" where
  "same_shape a b \<longleftrightarrow> mb_base b = mb_base a \<and> length (mb_data b) = length (mb_data a)"

lemma same_shape_refl [simp]: "same_shape a a"
  by (simp add: same_shape_def)

lemma same_shape_trans: "same_shape a b \<Longrightarrow> same_shape b c \<Longrightarrow> same_shape a c"
  by (simp add: same_shape_def)

lemma same_shape_in_buf: "same_shape a b \<Longrightarrow> in_buf b p n = in_buf a p n"
  by (simp add: same_shape_def in_buf_def off_def)

lemma safely_store:
  "in_buf img p (length bs) \<Longrightarrow> safely (store img p bs) (same_shape img)"
  by (auto simp add: store_def same_shape_def in_buf_def)

lemma reloc_fixup_safe:
  assumes "in_buf img base 4103"
  shows "safely (reloc_fixup img base adjust e) (same_shape img)"
proof -
  have m: "unat (ucast (e AND 0xFFF) :: u64) < 4096"
  proof -
    have "e AND 0xFFF = take_bit 12 e" by (simp add: take_bit_eq_mask mask_eq_exp_minus_1)
    then have "unat (e AND 0xFFF) < 2 ^ 12" by (simp only: unsigned_take_bit_eq take_bit_nat_less_exp)
    then show ?thesis by simp
  qed
  have i: "in_buf img (base + ucast (e AND 0xFFF)) 8"
    by (rule in_buf_field [OF assms]) (use m in simp)
  note j = in_buf_mono [OF i, of 2] in_buf_mono [OF i, of 4]
  show ?thesis
    using i j unfolding reloc_fixup_def Let_def
    by (auto simp add: wr16_def wr32_def wr64_def intro!: safely_rd16 safely_rd32 safely_rd64 safely_store)
qed

text \<open>A pointer between two others is a displacement of the first.\<close>

lemma ptr_between:
  assumes "orig \<le> p" and "unat p \<le> unat orig + n"
  shows "\<exists>d. p = orig + d \<and> unat d \<le> n"
  using assms by (intro exI [of _ "p - orig"]) (simp add: unat_sub word_le_nat_alt)

lemma reloc_entries_safe:
  assumes "in_buf file orig (n + 8)" and "orig \<le> reloc" and "unat reloc_end \<le> unat orig + n"
    and "unat orig + n + 8 \<le> 2 ^ 64" and "in_buf img base 4103"
    and "reloc_entries file base adjust reloc_end reloc img = Some r"
  shows "safely r (same_shape img)"
proof -
  have i: "in_buf file reloc 2" if "reloc < reloc_end" "orig \<le> reloc" for reloc
  proof -
    have "unat reloc \<le> unat orig + n" using that(1) assms(3) by (simp add: word_less_nat_alt)
    from ptr_between [OF that(2) this] obtain d where d: "reloc = orig + d" "unat d \<le> n" by blast
    show ?thesis unfolding d(1) by (rule in_buf_field [OF assms(1)]) (use d(2) in simp)
  qed
  have "\<lbrakk>orig \<le> reloc; same_shape img img'; reloc_entries file base adjust reloc_end reloc img' = Some r\<rbrakk>
      \<Longrightarrow> safely r (same_shape img)" for reloc img'
  proof (induction "unat reloc_end - unat reloc" arbitrary: reloc img' rule: less_induct)
    case less
    show ?case
    proof (cases "reloc < reloc_end")
      case True
      have u: "unat (reloc + 2) = unat reloc + 2" "unat reloc < unat reloc_end"
        using True assms(3,4) by (simp_all add: word_less_nat_alt unat_word_ariths)
      obtain e where e: "rd16 file reloc = Inr e" using rd_ok(2) [OF i [OF True less.prems(1)]] by blast
      have s: "safely (reloc_fixup img' base adjust e) (same_shape img')"
        using assms(5) same_shape_in_buf [OF less.prems(2)] by (intro reloc_fixup_safe) simp
      show ?thesis
      proof (cases "reloc_fixup img' base adjust e")
        case (Inl x)
        then have "r = Inl x" using less.prems(3) True e by (simp add: reloc_entries.simps [of "file"])
        then show ?thesis using s Inl by (cases x) auto
      next
        case (Inr img'')
        have "reloc_entries file base adjust reloc_end (reloc + 2) img'' = Some r"
          using less.prems(3) True e Inr by (simp add: reloc_entries.simps [of "file" _ _ _ "reloc"])
        moreover have "same_shape img img''" using s Inr less.prems(2) same_shape_trans by auto
        moreover have "orig \<le> reloc + 2" using less.prems(1) u by (simp add: word_le_nat_alt)
        moreover have "unat reloc_end - unat (reloc + 2) < unat reloc_end - unat reloc" using u by simp
        ultimately show ?thesis using less.hyps by blast
      qed
    next
      case False
      then show ?thesis using less.prems by (auto simp add: reloc_entries.simps [of "file"])
    qed
  qed
  from this [OF assms(2) same_shape_refl assms(6)] show ?thesis .
qed


lemma reloc_block_safe:
  assumes "in_buf file block 8" and "in_buf img data (unat sz + 4102)" and "unat orig + unat sz < 2 ^ 64"
  shows "safely (reloc_block file dir_size orig data sz block)
           (\<lambda>(e, base). orig \<le> e \<and> unat e \<le> unat orig + unat sz \<and> in_buf img base 4103)"
proof -
  have su: "unat (orig + sz) = unat orig + unat sz" using assms(3) by (simp add: unat_word_ariths)
  have f: "in_buf img base 4103" if b: "ImageAddress data sz (ucast (va :: u32)) = Some base" for va base
  proof -
    have "base = data + ucast va" "unat va < unat sz"
      using b by (simp_all add: ImageAddress_Some word_less_nat_alt)
    then show ?thesis using in_buf_field [OF assms(2), of "ucast va" 4103] by simp
  qed
  have i: "in_buf file (block + 4) 4" "in_buf file block 4"
    using in_buf_field [OF assms(1), of 4 4] in_buf_mono [OF assms(1), of 4] by simp_all
  show ?thesis
    unfolding reloc_block_def Let_def
    by (intro safely_rd32 safely_guard safely_orelse i) (simp add: f not_less word_le_nat_alt su)
qed

lemma reloc_blocks_safe:
  assumes "in_buf file orig (unat sz + 8)" and "orig \<le> block" and "unat table_end < unat orig + unat sz"
    and "unat orig + unat sz + 2 ^ 33 \<le> 2 ^ 64" and "in_buf img data (unat sz + 4102)"
    and "reloc_blocks file dir_size orig data sz adjust table_end block img = Some r"
  shows "safely r (same_shape img)"
proof -
  have i: "in_buf file block 8" if "block < table_end" "orig \<le> block" for block
  proof -
    have "unat block \<le> unat orig + unat sz" using that(1) assms(3) by (simp add: word_less_nat_alt)
    from ptr_between [OF that(2) this] obtain d where d: "block = orig + d" "unat d \<le> unat sz" by blast
    show ?thesis unfolding d(1) by (rule in_buf_field [OF assms(1)]) (use d(2) in simp)
  qed
  have "\<lbrakk>orig \<le> block; same_shape img img';
      reloc_blocks file dir_size orig data sz adjust table_end block img' = Some r\<rbrakk>
      \<Longrightarrow> safely r (same_shape img)" for block img'
  proof (induction "unat table_end - unat block" arbitrary: block img' rule: less_induct)
    case less
    show ?case
    proof (cases "block < table_end")
      case True
      have img': "in_buf img' data (unat sz + 4102)" using assms(5) same_shape_in_buf [OF less.prems(2)] by simp
      have s: "safely (reloc_block file dir_size orig data sz block)
           (\<lambda>(e, base). orig \<le> e \<and> unat e \<le> unat orig + unat sz \<and> in_buf img' base 4103)"
        using assms(4) by (intro reloc_block_safe i [OF True less.prems(1)] img') simp
      show ?thesis
      proof (cases "reloc_block file dir_size orig data sz block")
        case (Inl x)
        then have "r = Inl x" using less.prems(3) True by (simp add: reloc_blocks.simps [of "file"])
        then show ?thesis using s Inl by (cases x) auto
      next
        case (Inr p)
        obtain e base where p: "p = (e, base)" by fastforce
        have e: "orig \<le> e" "unat e \<le> unat orig + unat sz" "in_buf img' base 4103" using s Inr p by auto
        have b: "unat block + 2 ^ 32 \<le> 2 ^ 64" "unat block < unat table_end"
          using True assms(3,4) by (simp_all add: word_less_nat_alt)
        have be: "unat block < unat e" using reloc_block_end [OF Inr [unfolded p] b(1)] by simp
        have b8: "orig \<le> block + 8" using less.prems(1) b(1) by (simp add: word_le_nat_alt unat_word_ariths)
        have eu: "unat e + 8 \<le> 2 ^ 64" using e(2) assms(4) by simp
        obtain r' where r': "reloc_entries file base adjust e (block + 8) img' = Some r'"
          using reloc_entries_total [OF eu] by blast
        have s': "safely r' (same_shape img')"
          using assms(4) by (intro reloc_entries_safe [OF assms(1) b8 e(2) _ e(3) r']) simp
        show ?thesis
        proof (cases r')
          case (Inl x)
          then have "r = Inl x" using less.prems(3) True Inr p r' by (simp add: reloc_blocks.simps [of "file" _ _ _ _ _ _ block])
          then show ?thesis using s' Inl by (cases x) auto
        next
          case (Inr img'')
          have "reloc_blocks file dir_size orig data sz adjust table_end e img'' = Some r"
            using less.prems(3) True p r' Inr \<open>reloc_block _ _ _ _ _ _ = Inr p\<close>
            by (simp add: reloc_blocks.simps [of "file" _ _ _ _ _ _ block])
          moreover have "same_shape img img''" using s' Inr less.prems(2) same_shape_trans by auto
          moreover have "unat table_end - unat e < unat table_end - unat block" using b be by simp
          ultimately show ?thesis using less.hyps e(1) by blast
        qed
      qed
    next
      case False
      then show ?thesis using less.prems by (auto simp add: reloc_blocks.simps [of "file"])
    qed
  qed
  from this [OF assms(2) same_shape_refl assms(6)] show ?thesis .
qed

lemma relocate_coff_no_fault:
  assumes "in_buf file orig (unat (c_ImageSize ctx) + 8)" and "in_buf file (c_RelocDir ctx) 8"
    and "in_buf img data (unat (c_ImageSize ctx) + 4102)" and "unat (c_ImageSize ctx) < 2 ^ 31"
    and "unat orig + 2 ^ 34 \<le> 2 ^ 64"
    and "relocate_coff file ctx sec orig data img = Some r"
  shows "safely r (same_shape img)"
proof -
  let ?sz = "c_ImageSize ctx"
  have sz: "(scast (ucast ?sz :: u32) :: u64) = ?sz" using assms(4) by (rule size_int)
  obtain dir_size where d: "rd32 file (c_RelocDir ctx + 4) = Inr dir_size"
    using rd_ok(3) [OF in_buf_field [OF assms(2), of 4 4]] by auto
  have blocks: "safely r (same_shape img)"
    if h: "ImageAddress orig ?sz (ucast (x :: u32)) = Some block" "ImageAddress orig ?sz (ucast (y :: u32)) = Some table_end"
      "reloc_blocks file dir_size orig data ?sz adjust table_end block img = Some r" for x y block table_end adjust
  proof (rule reloc_blocks_safe [OF assms(1) _ _ _ assms(3) h(3)])
    show "orig \<le> block" "unat table_end < unat orig + unat ?sz"
      using h(1,2) by (auto simp add: ImageAddress_Some word_le_nat_alt word_less_nat_alt unat_word_ariths)
  qed (use assms(4,5) in simp)
  show ?thesis
    using assms(6) blocks
    by (auto simp add: relocate_coff_def Let_def sz d split: option.splits if_splits)
qed


section \<open>Properties\<close>

text \<open>
  C17. \<open>relocate_coff\<close> on a file that holds the encoding of a relocation table applies
  the table: every entry adds the load displacement (or its upper half) to its little-endian
  field of the image, in the order of the table, and nothing else changes.
\<close>

theorem relocate_coff_applies_table:
  assumes "reloc_input file ctx sec img t"
  shows "relocate_coff file ctx sec (mb_base file) (mb_base img) img
         = Some (Inr (img\<lparr>mb_data := apply_table (mb_base img - c_ImageAddress ctx) t (mb_data img)\<rparr>))"
  using assms by (rule relocate_coff_apply)

definition demo_table :: reloc_table where "demo_table = [(0, [0xA004, 0])]"
definition demo_reloc_file :: mbuf where
  "demo_reloc_file = \<lparr>mb_base = 0x10000, mb_data = le_bytes 4 16 @ le_bytes 4 12 @ replicate 8 0 @ table_bytes demo_table @ replicate 44 0\<rparr>"
definition demo_reloc_ctx :: pe_context where
  "demo_reloc_ctx = \<lparr>c_ImageAddress = 0x40000, c_ImageSize = 64, c_EntryPoint = 0, c_SizeOfHeaders = 16,
     c_NumberOfSections = 1, c_SectionAlignment = 16, c_FirstSection = 0, c_RelocDir = 0x10000, c_SecDir = 0,
     c_NumberOfRvaAndSizes = 16, c_PEHdr = 0\<rparr>"
definition demo_reloc_sec :: section_header where
  "demo_reloc_sec = \<lparr>sh_Name = str8 ''.reloc'' @ [0, 0], sh_VirtualSize = 12, sh_VirtualAddress = 16, sh_SizeOfRawData = 12,
     sh_PointerToRawData = 16, sh_PointerToRelocations = 0, sh_NumberOfRelocations = 0, sh_Characteristics = EFI_IMAGE_SCN_MEM_READ\<rparr>"
definition demo_image :: "nat \<Rightarrow> mbuf" where
  "demo_image n = \<lparr>mb_base = 0x80000, mb_data = replicate n 0\<rparr>"

lemma demo_table_bytes: "table_bytes demo_table = [0, 0, 0, 0, 12, 0, 0, 0, 4, 0xA0, 0, 0]"
  by (simp add: table_bytes_def demo_table_def block_bytes_def entries_bytes_def le_bytes_numeral)

lemma demo_reloc_dir: "rd32 demo_reloc_file 65540 = Inr 12"
  by (simp add: rd32_def load_def in_buf_def off_def demo_reloc_file_def demo_table_bytes le_nat_le_bytes)

lemma demo_entries: "entry_ok 16 0 0xA004" "entry_ok 16 0 0"
  by (simp_all add: entry_ok_def entry_width_def entry_pos_def Let_def)

lemma demo_entry_parts:
  "entry_width 0xA004 = Some 8" "entry_width 0 = Some 0" "entry_delta 0x40000 0xA004 = 0x40000"
  "entry_pos 0 0xA004 = 4" "entry_pos 0 0 = 0"
  by (simp_all add: entry_width_def entry_pos_def entry_delta_def Let_def)

lemma demo_table_ok: "table_ok 64 16 demo_table"
  using demo_entries by (simp add: table_ok_def demo_table_def)

lemma demo_reloc_input: "reloc_input demo_reloc_file demo_reloc_ctx demo_reloc_sec (demo_image 16) demo_table"
  using demo_reloc_dir demo_table_ok
  by (simp add: reloc_input_def Let_def demo_table_bytes demo_reloc_ctx_def demo_reloc_sec_def demo_image_def)
     (simp add: demo_reloc_file_def demo_table_bytes)

lemma relocate_coff_applies_table_witness:
  "relocate_coff demo_reloc_file demo_reloc_ctx demo_reloc_sec 0x10000 0x80000 (demo_image 16)
   = Some (Inr \<lparr>mb_base = 0x80000, mb_data = [0, 0, 0, 0, 0, 0, 4, 0, 0, 0, 0, 0, 0, 0, 0, 0]\<rparr>)"
proof -
  have r4: "replicate 4 0 = [0, 0, 0, 0 :: u8]" by (simp add: numeral_eq_Suc)
  have "apply_table 0x40000 demo_table (replicate 16 0) = [0, 0, 0, 0, 0, 0, 4, 0, 0, 0, 0, 0, 0, 0, 0, 0]"
    by (simp add: apply_table_def demo_table_def apply_entry_def demo_entry_parts add_field_def le_bytes_numeral r4)
  then show ?thesis
    using relocate_coff_applies_table [OF demo_reloc_input]
    by (simp add: demo_image_def demo_reloc_file_def demo_reloc_ctx_def)
qed

text \<open>
  C23. \<open>relocate_coff\<close> returns on any file, section, context and image, whatever the
  contents of the relocation table (the file does not touch the top of the address space).
\<close>

theorem relocate_coff_returns:
  assumes "unat orig + 2 ^ 34 \<le> 2 ^ 64"
  shows "\<exists>r. relocate_coff file ctx sec orig data img = Some r"
  using assms by (rule relocate_coff_total)

lemma relocate_coff_returns_witness:
  "\<exists>r. relocate_coff demo_reloc_file demo_reloc_ctx demo_reloc_sec 0x10000 0x80000 (demo_image 16) = Some r"
  by (rule relocate_coff_returns) simp

text \<open>
  \<open>relocate_coff\<close> makes no access outside the file and the image, for any contents
  of the file, when the file is at least eight bytes longer than the image size of its header
  and the image buffer extends 4102 bytes past the image size.
\<close>

theorem relocate_coff_safe:
  assumes "in_buf file orig (unat (c_ImageSize ctx) + 8)" and "in_buf file (c_RelocDir ctx) 8"
    and "in_buf img data (unat (c_ImageSize ctx) + 4102)" and "unat (c_ImageSize ctx) < 2 ^ 31"
    and "unat orig + 2 ^ 34 \<le> 2 ^ 64"
    and "relocate_coff file ctx sec orig data img = Some r"
  shows "safely r (same_shape img)"
  using assms by (rule relocate_coff_no_fault)

lemma relocate_coff_safe_witness:
  "\<exists>r. relocate_coff demo_reloc_file demo_reloc_ctx demo_reloc_sec 0x10000 0x80000 (demo_image 4166) = Some r
     \<and> safely r (same_shape (demo_image 4166))"
proof -
  obtain r where r: "relocate_coff demo_reloc_file demo_reloc_ctx demo_reloc_sec 0x10000 0x80000 (demo_image 4166) = Some r"
    using relocate_coff_total [of "0x10000"] by fastforce
  have "safely r (same_shape (demo_image 4166))"
    by (rule relocate_coff_safe [OF _ _ _ _ _ r])
       (simp_all add: in_buf_def off_def demo_reloc_file_def demo_table_bytes demo_reloc_ctx_def demo_image_def)
  with r show ?thesis by blast
qed


text \<open>The same file with a fixup at offset \<open>0xFFF\<close> of the block.\<close>

definition demo_far_table :: reloc_table where "demo_far_table = [(0, [0xAFFF])]"
definition demo_far_file :: mbuf where
  "demo_far_file = \<lparr>mb_base = 0x10000, mb_data = le_bytes 4 16 @ le_bytes 4 10 @ replicate 8 0 @ table_bytes demo_far_table @ replicate 46 0\<rparr>"

text \<open>
  Only the block's address is checked against the image size, not the fixup: with an
  image buffer of exactly the image size, an entry at offset \<open>0xFFF\<close> of a block inside the
  image makes \<open>relocate_coff\<close> write outside it.
\<close>

theorem relocate_coff_fixup_past_image:
  "unat (c_ImageSize demo_reloc_ctx) = 64 \<and> length (mb_data (demo_image 64)) = 64
   \<and> relocate_coff demo_far_file demo_reloc_ctx demo_reloc_sec 0x10000 0x80000 (demo_image 64) = Some (Inl Fault)"
proof -
  have sz: "c_ImageSize demo_reloc_ctx = 64" by (simp add: demo_reloc_ctx_def)
  have bytes: "table_bytes demo_far_table = block_bytes (0, [0xAFFF])"
    by (simp add: table_bytes_def demo_far_table_def)
  have blk: "block_bytes (0, [0xAFFF]) = [0, 0, 0, 0, 10, 0, 0, 0, 0xFF, 0xAF]"
    by (simp add: block_bytes_def entries_bytes_def le_bytes_numeral)
  have dir: "rd32 demo_far_file 65540 = Inr 10"
    by (simp add: rd32_def load_def in_buf_def off_def demo_far_file_def bytes blk le_nat_le_bytes)
  have b: "reloc_block demo_far_file 10 0x10000 0x80000 64 (0x10000 + word_of_nat 16)
      = Inr (0x10000 + word_of_nat (16 + 8 + 2 * length [0xAFFF :: u16]), 0x80000 + ucast (0 :: u32))"
    by (rule reloc_block_encoded [of _ "le_bytes 4 16 @ le_bytes 4 10 @ replicate 8 0" _ _ "replicate 46 0"])
       (simp_all add: demo_far_file_def bytes)
  have e: "rd16 demo_far_file 65560 = Inr 0xAFFF"
    by (simp add: rd16_def load_def in_buf_def off_def demo_far_file_def bytes blk le_nat_le_bytes)
  have f: "reloc_fixup (demo_image 64) 0x80000 0x40000 0xAFFF = Inl Fault"
    by (simp add: reloc_fixup_def Let_def rd64_def load_def in_buf_def off_def demo_image_def)
  have s: "(scast (ucast (c_ImageSize demo_reloc_ctx) :: u32) :: u64) = 64"
    using size_int [of 64] sz by simp
  have i: "ImageAddress 0x10000 64 16 = Some 0x10010" "ImageAddress 0x10000 64 25 = Some 0x10019"
    by (simp_all add: ImageAddress_Some)
  have "reloc_entries demo_far_file 0x80000 0x40000 65562 65560 (demo_image 64) = Some (Inl Fault)"
    by (subst reloc_entries.simps) (simp add: e f)
  then have r: "reloc_blocks demo_far_file 10 0x10000 0x80000 64 0x40000 0x10019 0x10010 (demo_image 64) = Some (Inl Fault)"
    using b by (subst reloc_blocks.simps) simp
  have "relocate_coff demo_far_file demo_reloc_ctx demo_reloc_sec 0x10000 0x80000 (demo_image 64) = Some (Inl Fault)"
    by (simp add: relocate_coff_def Let_def s) (simp add: demo_reloc_ctx_def demo_reloc_sec_def dir i r)
  then show ?thesis by (simp add: sz demo_image_def)
qed

end
