(* ===== verification/Loader.thy ===== *)
theory Loader
  imports Verify Reloc
begin

text \<open>
  pe.c, the loader: page attributes, the verification of an image, and \<open>handle_image\<close>, which
  copies a verified image into memory, relocates it and sets the permissions of its pages. The
  memory attribute protocol of the firmware is a parameter over a state \<open>'m\<close> of its own;
  the allocator and the TPM measurement are parameters too. Messages and the flush of the
  instruction cache are left out.
\<close>

section \<open>Page attributes\<close>

definition MEM_ATTR_R :: u64 where "MEM_ATTR_R = 4"
definition MEM_ATTR_W :: u64 where "MEM_ATTR_W = 2"
definition MEM_ATTR_X :: u64 where "MEM_ATTR_X = 1"

text \<open>The attributes of the UEFI specification, each a protection.\<close>

definition EFI_MEMORY_RP :: u64 where "EFI_MEMORY_RP = 0x2000"
definition EFI_MEMORY_XP :: u64 where "EFI_MEMORY_XP = 0x4000"
definition EFI_MEMORY_RO :: u64 where "EFI_MEMORY_RO = 0x20000"

lemmas mem_attr_defs = MEM_ATTR_R_def MEM_ATTR_W_def MEM_ATTR_X_def
  EFI_MEMORY_RP_def EFI_MEMORY_XP_def EFI_MEMORY_RO_def

definition shim_mem_attrs_to_uefi_mem_attrs :: "u64 \<Rightarrow> u64" where
  "shim_mem_attrs_to_uefi_mem_attrs attrs =
     (let ret = EFI_MEMORY_RP OR EFI_MEMORY_RO OR EFI_MEMORY_XP;
          ret = (if attrs AND MEM_ATTR_R \<noteq> 0 then ret AND NOT EFI_MEMORY_RP else ret);
          ret = (if attrs AND MEM_ATTR_W \<noteq> 0 then ret AND NOT EFI_MEMORY_RO else ret);
          ret = (if attrs AND MEM_ATTR_X \<noteq> 0 then ret AND NOT EFI_MEMORY_XP else ret)
      in ret)"

definition uefi_mem_attrs_to_shim_mem_attrs :: "u64 \<Rightarrow> u64" where
  "uefi_mem_attrs_to_shim_mem_attrs attrs =
     (let ret = MEM_ATTR_R OR MEM_ATTR_W OR MEM_ATTR_X;
          ret = (if attrs AND EFI_MEMORY_RP \<noteq> 0 then ret AND NOT MEM_ATTR_R else ret);
          ret = (if attrs AND EFI_MEMORY_RO \<noteq> 0 then ret AND NOT MEM_ATTR_W else ret);
          ret = (if attrs AND EFI_MEMORY_XP \<noteq> 0 then ret AND NOT MEM_ATTR_X else ret)
      in ret)"

text \<open>\<open>ma_proto\<close> is whether the located interface is not null.\<close>

record 'm mem_attr_proto =
  ma_locate :: efi_status
  ma_proto :: bool
  ma_get :: "'m \<Rightarrow> u64 \<Rightarrow> u64 \<Rightarrow> efi_status \<times> u64"
  ma_set :: "'m \<Rightarrow> u64 \<Rightarrow> u64 \<Rightarrow> u64 \<Rightarrow> efi_status \<times> 'm"
  ma_clear :: "'m \<Rightarrow> u64 \<Rightarrow> u64 \<Rightarrow> u64 \<Rightarrow> efi_status \<times> 'm"

definition IS_PAGE_ALIGNED :: "u64 \<Rightarrow> bool" where
  "IS_PAGE_ALIGNED v \<longleftrightarrow> v AND 0xFFF = 0"

text \<open>The attributes are \<open>None\<close> when they are not written.\<close>

definition get_mem_attrs :: "'m mem_attr_proto \<Rightarrow> 'm \<Rightarrow> u64 \<Rightarrow> u64 \<Rightarrow> efi_status \<times> u64 option" where
  "get_mem_attrs p m addr sz =
     (if EFI_ERROR (ma_locate p) \<or> \<not> ma_proto p then (ma_locate p, None)
      else if \<not> IS_PAGE_ALIGNED addr \<or> \<not> IS_PAGE_ALIGNED sz \<or> sz = 0 then (EFI_SUCCESS, None)
      else case ma_get p m addr sz of (st, a) \<Rightarrow> (st, Some (uefi_mem_attrs_to_shim_mem_attrs a)))"

definition update_mem_attrs ::
  "'m mem_attr_proto \<Rightarrow> 'm \<Rightarrow> u64 \<Rightarrow> u64 \<Rightarrow> u64 \<Rightarrow> u64 \<Rightarrow> efi_status \<times> 'm"
where
  "update_mem_attrs p m addr sz set_attrs clear_attrs =
     (if EFI_ERROR (ma_locate p) \<or> \<not> ma_proto p then (ma_locate p, m)
      else if \<not> IS_PAGE_ALIGNED addr \<or> \<not> IS_PAGE_ALIGNED sz \<or> sz = 0 then (EFI_SUCCESS, m)
      else
        let uefi_set_attrs = shim_mem_attrs_to_uefi_mem_attrs set_attrs;
            uefi_clear_attrs = shim_mem_attrs_to_uefi_mem_attrs clear_attrs;
            (st, m) = (if uefi_set_attrs \<noteq> 0 then ma_set p m addr sz uefi_set_attrs else (EFI_SUCCESS, m))
        in if \<not> EFI_ERROR st \<and> uefi_clear_attrs \<noteq> 0 then ma_clear p m addr sz uefi_clear_attrs else (st, m))"

section \<open>The verification\<close>

text \<open>\<open>tpm\<close> is the status of \<open>tpm_log_pe\<close> in a build that requires the TPM.\<close>

definition verify_image ::
  "'w verify_env \<Rightarrow> 'w \<Rightarrow> 'h sha \<Rightarrow> 'g sha \<Rightarrow> (nat \<Rightarrow> bool) \<Rightarrow> efi_status
   \<Rightarrow> (bytes \<Rightarrow> nat) \<Rightarrow> sbat_var_entry list \<Rightarrow> pe_env \<Rightarrow> efi_status option \<Rightarrow> mbuf \<Rightarrow> u64 \<Rightarrow> u32
   \<Rightarrow> verification_method \<Rightarrow> (efi_status \<times> verification_method \<times> pe_context option) res option"
where
  "verify_image env w s256 s1 pool http atoi sbat penv tpm b data datasize vm =
     (case read_header penv b data datasize of
        Inl Fault \<Rightarrow> Some (Inl Fault)
      | Inl (Status st) \<Rightarrow> Some (Inr (st, vm, None))
      | Inr ctx \<Rightarrow>
          bindO (if secure_mode env w
                 then verify_buffer env w s256 s1 pool http atoi sbat (pe_in_protocol penv) b data datasize ctx vm
                 else Some (Inr (EFI_SUCCESS, vm, ctx))) (\<lambda>(st, vm, ctx).
          if EFI_ERROR st then Some (Inr (st, vm, Some ctx))
          else (case generate_hash s256 s1 pool b data datasize ctx of
                  Inl Fault \<Rightarrow> Some (Inl Fault)
                | Inl (Status st) \<Rightarrow> Some (Inr (st, vm, Some ctx))
                | Inr (sha256hash, sha1hash, ctx) \<Rightarrow>
                    (case tpm of
                       None \<Rightarrow> Some (Inr (EFI_SUCCESS, vm, Some ctx))
                     | Some st \<Rightarrow> Some (Inr (if st \<noteq> EFI_SUCCESS then st else EFI_SUCCESS, vm, Some ctx))))))"

section \<open>Copying the sections\<close>

text \<open>What the copy loop carries: the image, the count of entry points, the relocation section.\<close>

type_synonym copy_state = "mbuf \<times> nat \<times> section_header option"

definition section_end :: "section_header \<Rightarrow> u32" where
  "section_end s = sh_VirtualAddress s + sh_VirtualSize s - 1"

text \<open>The \<open>.reloc\<close> section, from \<open>RelocBase\<close> to \<open>RelocBaseEnd\<close> by the data directory.\<close>

definition check_reloc_section ::
  "section_header \<Rightarrow> u64 option \<Rightarrow> u64 option \<Rightarrow> u64 option \<Rightarrow> u64 option \<Rightarrow> section_header option
   \<Rightarrow> section_header option res"
where
  "check_reloc_section s base e RelocBase RelocBaseEnd found =
     (if sh_Name s \<noteq> str8 ''.reloc'' @ [0, 0] then Inr found
      else bindR (guardR (found = None) EFI_UNSUPPORTED) (\<lambda>_.
           bindR (guardR (sh_SizeOfRawData s \<noteq> 0 \<and> sh_VirtualSize s \<noteq> 0 \<and> base \<noteq> None \<and> e \<noteq> None
                   \<and> RelocBase = base \<and> ptr_val RelocBaseEnd \<le> ptr_val e) EFI_UNSUPPORTED) (\<lambda>_.
             Inr (Some s))))"

text \<open>The bytes of a section: its raw data, and zeros.\<close>

definition copy_section_data :: "mbuf \<Rightarrow> u64 \<Rightarrow> pe_context \<Rightarrow> section_header \<Rightarrow> u64 \<Rightarrow> mbuf \<Rightarrow> mbuf res" where
  "copy_section_data b data ctx s base img =
     (let vs = unat (sh_VirtualSize s) in
      if has_flag s EFI_IMAGE_SCN_CNT_UNINITIALIZED_DATA then store img base (replicate vs 0)
      else bindR (guardR (\<not> ucast (sh_PointerToRawData s) < c_SizeOfHeaders ctx) EFI_UNSUPPORTED) (\<lambda>_.
        let sz = min vs (unat (sh_SizeOfRawData s)) in
        bindR (if 0 < sz then bindR (load b (data + ucast (sh_PointerToRawData s)) sz) (store img base) else Inr img) (\<lambda>img.
        if sz < vs then store img (base + word_of_nat sz) (replicate (vs - sz) 0) else Inr img)))"

definition copy_section ::
  "pe_env \<Rightarrow> mbuf \<Rightarrow> u64 \<Rightarrow> pe_context \<Rightarrow> u64 \<Rightarrow> u64 option \<Rightarrow> u64 option \<Rightarrow> section_header \<Rightarrow> copy_state \<Rightarrow> copy_state res"
where
  "copy_section penv b data ctx buffer RelocBase RelocBaseEnd s cs =
     (case cs of (img, found_entry, reloc) \<Rightarrow>
      if has_flag s EFI_IMAGE_SCN_MEM_DISCARDABLE \<and> sh_VirtualSize s = 0 then Inr cs
      else if \<not> has_flag s EFI_IMAGE_SCN_MEM_READ then Inr cs
      else
        bindR (guardR (\<not> (\<not> has_flag s EFI_IMAGE_SCN_MEM_DISCARDABLE \<and> has_flag s EFI_IMAGE_SCN_MEM_WRITE
                   \<and> has_flag s EFI_IMAGE_SCN_MEM_EXECUTE \<and> pe_require_nx penv)) EFI_UNSUPPORTED) (\<lambda>_.
        let base = ImageAddress buffer (c_ImageSize ctx) (ucast (sh_VirtualAddress s));
            e = ImageAddress buffer (c_ImageSize ctx) (ucast (section_end s)) in
        bindR (guardR (\<not> ptr_val e < ptr_val base) EFI_UNSUPPORTED) (\<lambda>_.
        let found_entry = (if ucast (sh_VirtualAddress s) \<le> c_EntryPoint ctx \<and> c_EntryPoint ctx < ucast (section_end s)
                           then found_entry + 1 else found_entry) in
        bindR (check_reloc_section s base e RelocBase RelocBaseEnd reloc) (\<lambda>reloc.
        if has_flag s EFI_IMAGE_SCN_MEM_DISCARDABLE then Inr (img, found_entry, reloc)
        else bindR (orelse_status base EFI_UNSUPPORTED) (\<lambda>base.
             bindR (guardR (e \<noteq> None) EFI_UNSUPPORTED) (\<lambda>_.
             bindR (guardR (\<not> (\<not> has_flag s EFI_IMAGE_SCN_CNT_UNINITIALIZED_DATA
                 \<and> (ucast (sh_VirtualAddress s) < c_SizeOfHeaders ctx
                    \<or> ucast (sh_PointerToRawData s) < c_SizeOfHeaders ctx))) EFI_UNSUPPORTED) (\<lambda>_.
             bindR (copy_section_data b data ctx s base img) (\<lambda>img. Inr (img, found_entry, reloc)))))))))"

fun copy_sections ::
  "pe_env \<Rightarrow> mbuf \<Rightarrow> u64 \<Rightarrow> pe_context \<Rightarrow> u64 \<Rightarrow> u64 option \<Rightarrow> u64 option \<Rightarrow> nat \<Rightarrow> nat \<Rightarrow> copy_state \<Rightarrow> copy_state res"
where
  "copy_sections penv b data ctx buffer rb re 0 i cs = Inr cs"
| "copy_sections penv b data ctx buffer rb re (Suc k) i cs =
     bindR (read_section b (section_ptr ctx i)) (\<lambda>s.
     bindR (copy_section penv b data ctx buffer rb re s cs) (\<lambda>cs.
       copy_sections penv b data ctx buffer rb re k (Suc i) cs))"

section \<open>Permissions\<close>

definition section_permissions ::
  "'m mem_attr_proto \<Rightarrow> pe_context \<Rightarrow> u64 \<Rightarrow> section_header \<Rightarrow> 'm \<Rightarrow> 'm"
where
  "section_permissions p ctx buffer s m =
     (if has_flag s EFI_IMAGE_SCN_MEM_DISCARDABLE \<and> sh_VirtualSize s = 0 then m
      else if \<not> has_flag s EFI_IMAGE_SCN_MEM_READ then m
      else
        let base = ptr_val (ImageAddress buffer (c_ImageSize ctx) (ucast (sh_VirtualAddress s)));
            e = ptr_val (ImageAddress buffer (c_ImageSize ctx) (ucast (section_end s)));
            len = align_value (e - base + 1) 4096;
            (set_attrs, clear_attrs) = (MEM_ATTR_R, MEM_ATTR_W OR MEM_ATTR_X);
            (set_attrs, clear_attrs) = (if has_flag s EFI_IMAGE_SCN_MEM_WRITE
               then (set_attrs OR MEM_ATTR_W, clear_attrs AND NOT MEM_ATTR_W) else (set_attrs, clear_attrs));
            (set_attrs, clear_attrs) = (if has_flag s EFI_IMAGE_SCN_MEM_EXECUTE
               then (set_attrs OR MEM_ATTR_X, clear_attrs AND NOT MEM_ATTR_X) else (set_attrs, clear_attrs))
        in snd (update_mem_attrs p m base len set_attrs clear_attrs))"

fun set_permissions ::
  "'m mem_attr_proto \<Rightarrow> mbuf \<Rightarrow> pe_context \<Rightarrow> u64 \<Rightarrow> nat \<Rightarrow> nat \<Rightarrow> 'm \<Rightarrow> 'm res"
where
  "set_permissions p b ctx buffer 0 i m = Inr m"
| "set_permissions p b ctx buffer (Suc k) i m =
     bindR (read_section b (section_ptr ctx i)) (\<lambda>s.
       set_permissions p b ctx buffer k (Suc i) (section_permissions p ctx buffer s m))"

section \<open>Loading\<close>

definition alloc_size :: "pe_context \<Rightarrow> u32" where
  "alloc_size ctx = ucast (align_value (c_ImageSize ctx + ucast (c_SectionAlignment ctx)) 4096)"

definition image_buffer :: "pe_context \<Rightarrow> u64 \<Rightarrow> u64" where
  "image_buffer ctx addr =
     align_value addr (ucast (if c_SectionAlignment ctx = 0 then 4096 else c_SectionAlignment ctx))"

text \<open>
  The result: the status, the entry point, the pages (\<open>None\<close> when none were allocated) and
  whether they have been freed, the page attributes, and what the loaded image protocol says.
\<close>

record 'm load_result =
  lr_status :: efi_status
  lr_entry :: "u64 option"
  lr_pages :: "mbuf option"
  lr_freed :: bool
  lr_attrs :: 'm
  lr_ImageBase :: "u64 option"
  lr_ImageSize :: u64

text \<open>The early returns of the loop that free the pages.\<close>

definition load_failed :: "'m \<Rightarrow> mbuf \<Rightarrow> u64 option \<Rightarrow> efi_status \<Rightarrow> 'm load_result" where
  "load_failed m img entry st = \<lparr>lr_status = st, lr_entry = entry, lr_pages = Some img, lr_freed = True,
     lr_attrs = m, lr_ImageBase = None, lr_ImageSize = 0\<rparr>"

text \<open>From the permissions on.\<close>

definition finish_load ::
  "'m mem_attr_proto \<Rightarrow> mbuf \<Rightarrow> pe_context \<Rightarrow> u64 \<Rightarrow> u64 \<Rightarrow> 'm \<Rightarrow> nat \<Rightarrow> mbuf \<Rightarrow> 'm load_result res"
where
  "finish_load p b ctx buffer entry m found img =
     bindR (set_permissions p b ctx buffer (unat (c_NumberOfSections ctx)) 0 m) (\<lambda>m.
       Inr \<lparr>lr_status = (if found = 1 then EFI_SUCCESS else EFI_UNSUPPORTED), lr_entry = Some entry,
            lr_pages = Some img, lr_freed = (found \<noteq> 1), lr_attrs = m,
            lr_ImageBase = Some buffer, lr_ImageSize = c_ImageSize ctx\<rparr>)"

text \<open>From the copy of the headers on: \<open>img\<close> are the allocated pages.\<close>

definition load_sections ::
  "'m mem_attr_proto \<Rightarrow> pe_env \<Rightarrow> mbuf \<Rightarrow> u64 \<Rightarrow> pe_context \<Rightarrow> u64 \<Rightarrow> 'm \<Rightarrow> mbuf \<Rightarrow> 'm load_result res option"
where
  "load_sections p penv b data ctx buffer m img =
     (case bindR (load b data (unat (c_SizeOfHeaders ctx))) (store img buffer) of Inl e \<Rightarrow> Some (Inl e) | Inr img \<Rightarrow>
      (case ImageAddress buffer (c_ImageSize ctx) (c_EntryPoint ctx) of
         None \<Rightarrow> Some (Inr (load_failed m img None EFI_UNSUPPORTED))
       | Some entry \<Rightarrow>
      (case bindR (rd32 b (c_RelocDir ctx)) (\<lambda>va. bindR (rd32 b (c_RelocDir ctx + 4)) (\<lambda>sz. Inr (va, sz))) of
         Inl e \<Rightarrow> Some (Inl e)
       | Inr (reloc_va, reloc_size) \<Rightarrow>
      (case copy_sections penv b data ctx buffer (ImageAddress buffer (c_ImageSize ctx) (ucast reloc_va))
              (ImageAddress buffer (c_ImageSize ctx) (ucast (reloc_va + reloc_size - 1)))
              (unat (c_NumberOfSections ctx)) 0 (img, 0, None) of
         Inl Fault \<Rightarrow> Some (Inl Fault)
       | Inl (Status st) \<Rightarrow> Some (Inr (load_failed m img (Some entry) st))
       | Inr (img, found, reloc) \<Rightarrow>
      if c_NumberOfRvaAndSizes ctx \<le> 5 then Some (Inr (load_failed m img (Some entry) EFI_UNSUPPORTED))
      else (case (if reloc_size \<noteq> 0 then reloc else None) of
         None \<Rightarrow> Some (finish_load p b ctx buffer entry m found img)
       | Some s \<Rightarrow>
           (case relocate_coff b ctx s data buffer img of
              None \<Rightarrow> None
            | Some (Inl Fault) \<Rightarrow> Some (Inl Fault)
            | Some (Inl (Status st)) \<Rightarrow> Some (Inr (load_failed m img (Some entry) st))
            | Some (Inr img) \<Rightarrow> Some (finish_load p b ctx buffer entry m found img)))))))"

text \<open>\<open>alloc n\<close> is \<open>AllocatePages\<close>: \<open>n\<close> pages, or \<open>None\<close>.\<close>

definition load_image ::
  "'m mem_attr_proto \<Rightarrow> (nat \<Rightarrow> mbuf option) \<Rightarrow> pe_env \<Rightarrow> mbuf \<Rightarrow> u64 \<Rightarrow> pe_context \<Rightarrow> 'm \<Rightarrow> 'm load_result res option"
where
  "load_image p alloc penv b data ctx m =
     (case alloc (unat (alloc_size ctx) div 4096) of
        None \<Rightarrow> Some (Inr \<lparr>lr_status = EFI_OUT_OF_RESOURCES, lr_entry = None, lr_pages = None, lr_freed = False,
                     lr_attrs = m, lr_ImageBase = None, lr_ImageSize = 0\<rparr>)
      | Some img \<Rightarrow>
          let buffer = image_buffer ctx (mb_base img);
              m = snd (update_mem_attrs p m buffer (ucast (alloc_size ctx)) (MEM_ATTR_R OR MEM_ATTR_W) MEM_ATTR_X)
          in load_sections p penv b data ctx buffer m img)"

definition handle_image ::
  "'w verify_env \<Rightarrow> 'w \<Rightarrow> 'h sha \<Rightarrow> 'g sha \<Rightarrow> (nat \<Rightarrow> bool) \<Rightarrow> efi_status
   \<Rightarrow> (bytes \<Rightarrow> nat) \<Rightarrow> sbat_var_entry list \<Rightarrow> pe_env \<Rightarrow> efi_status option
   \<Rightarrow> 'm mem_attr_proto \<Rightarrow> (nat \<Rightarrow> mbuf option) \<Rightarrow> 'm \<Rightarrow> mbuf \<Rightarrow> u64 \<Rightarrow> u32 \<Rightarrow> verification_method
   \<Rightarrow> (verification_method \<times> 'm load_result) res option"
where
  "handle_image env w s256 s1 pool http atoi sbat penv tpm p alloc m b data datasize vm =
     bindO (verify_image env w s256 s1 pool http atoi sbat penv tpm b data datasize vm) (\<lambda>(st, vm, ctx).
       case (if st \<noteq> EFI_SUCCESS then None else ctx) of
         None \<Rightarrow> Some (Inr (vm, \<lparr>lr_status = st, lr_entry = None, lr_pages = None, lr_freed = False, lr_attrs = m,
                     lr_ImageBase = None, lr_ImageSize = 0\<rparr>))
       | Some ctx \<Rightarrow> bindO (load_image p alloc penv b data ctx m) (\<lambda>r. Some (Inr (vm, r))))"

section \<open>Attributes of a page\<close>

lemma and_exp_word: "(a :: 'a :: len word) AND 2 ^ n = (if bit a n then 2 ^ n else 0)"
  by (rule bit_word_eqI) (auto simp add: bit_and_iff bit_exp_iff)

lemma and_attr:
  "(a :: u64) AND 4 = (if bit a 2 then 4 else 0)" "a AND 2 = (if bit a 1 then 2 else 0)" "a AND 1 = (if bit a 0 then 1 else 0)"
  "a AND 0x2000 = (if bit a 13 then 0x2000 else 0)" "a AND 0x4000 = (if bit a 14 then 0x4000 else 0)"
  "a AND 0x20000 = (if bit a 17 then 0x20000 else 0)"
  using and_exp_word [of a 2] and_exp_word [of a 1] and_exp_word [of a 0] and_exp_word [of a 13] and_exp_word [of a 14]
    and_exp_word [of a 17] by simp_all

lemma and_attrs:
  "(a :: u64) AND 7 = (if bit a 2 then 4 else 0) OR (if bit a 1 then 2 else 0) OR (if bit a 0 then 1 else 0)"
  "a AND 0x26000 = (if bit a 13 then 0x2000 else 0) OR (if bit a 14 then 0x4000 else 0) OR (if bit a 17 then 0x20000 else 0)"
proof -
  have "a AND (4 OR 2 OR 1) = (a AND 4) OR (a AND 2) OR (a AND 1)"
    "a AND (0x2000 OR 0x4000 OR 0x20000) = (a AND 0x2000) OR (a AND 0x4000) OR (a AND 0x20000)"
    by (simp_all only: bit.conj_disj_distrib)
  then show "a AND 7 = (if bit a 2 then 4 else 0) OR (if bit a 1 then 2 else 0) OR (if bit a 0 then 1 else 0)"
    "a AND 0x26000 = (if bit a 13 then 0x2000 else 0) OR (if bit a 14 then 0x4000 else 0) OR (if bit a 17 then 0x20000 else 0)"
    unfolding and_attr by simp_all
qed

lemma shim_to_uefi_bits:
  "shim_mem_attrs_to_uefi_mem_attrs a =
     (if bit a 2 then 0 else 0x2000) OR (if bit a 0 then 0 else 0x4000) OR (if bit a 1 then 0 else 0x20000)"
  by (simp add: shim_mem_attrs_to_uefi_mem_attrs_def mem_attr_defs Let_def and_attr)

lemma uefi_to_shim_bits:
  "uefi_mem_attrs_to_shim_mem_attrs a =
     (if bit a 13 then 0 else 4) OR (if bit a 17 then 0 else 2) OR (if bit a 14 then 0 else 1)"
  by (simp add: uefi_mem_attrs_to_shim_mem_attrs_def mem_attr_defs Let_def and_attr)

lemma attr_round_trip:
  "uefi_mem_attrs_to_shim_mem_attrs (shim_mem_attrs_to_uefi_mem_attrs a) = a AND 7"
  "shim_mem_attrs_to_uefi_mem_attrs (uefi_mem_attrs_to_shim_mem_attrs a) = a AND 0x26000"
  unfolding and_attrs
  by (cases "bit a 2"; cases "bit a 1"; cases "bit a 0"; simp add: shim_to_uefi_bits uefi_to_shim_bits)
     (cases "bit a 13"; cases "bit a 14"; cases "bit a 17"; simp add: shim_to_uefi_bits uefi_to_shim_bits)

section \<open>Contract of the memory attribute protocol\<close>

definition pages :: "u64 \<Rightarrow> u64 \<Rightarrow> nat set" where
  "pages addr sz = {unat addr div 4096 ..< (unat addr + unat sz) div 4096}"

text \<open>
  The documented behaviour, over the attributes \<open>attrs m pg\<close> of each page: setting and
  clearing change the bits given, on the pages of the range, or fail and change nothing.
\<close>

definition attr_protocol :: "'m mem_attr_proto \<Rightarrow> ('m \<Rightarrow> nat \<Rightarrow> u64) \<Rightarrow> bool" where
  "attr_protocol p attrs \<longleftrightarrow> \<not> EFI_ERROR (ma_locate p) \<and> ma_proto p \<and>
     (\<forall>m addr sz a pg.
        attrs (snd (ma_set p m addr sz a)) pg =
          (if \<not> EFI_ERROR (fst (ma_set p m addr sz a)) \<and> pg \<in> pages addr sz then attrs m pg OR a else attrs m pg)
      \<and> attrs (snd (ma_clear p m addr sz a)) pg =
          (if \<not> EFI_ERROR (fst (ma_clear p m addr sz a)) \<and> pg \<in> pages addr sz then attrs m pg AND NOT a else attrs m pg))"

definition page_attrs :: "('m \<Rightarrow> nat \<Rightarrow> u64) \<Rightarrow> 'm \<Rightarrow> nat \<Rightarrow> u64" where
  "page_attrs attrs m pg = uefi_mem_attrs_to_shim_mem_attrs (attrs m pg)"

lemma protection_bits:
  "bit (shim_mem_attrs_to_uefi_mem_attrs a) 13 = (\<not> bit a 2)" "bit (shim_mem_attrs_to_uefi_mem_attrs a) 14 = (\<not> bit a 0)"
  "bit (shim_mem_attrs_to_uefi_mem_attrs a) 17 = (\<not> bit a 1)"
  unfolding shim_to_uefi_bits by (cases "bit a 2"; cases "bit a 1"; cases "bit a 0"; simp)+

lemma update_mem_attrs_cases:
  assumes "attr_protocol p attrs"
  obtains "snd (update_mem_attrs p m addr sz s c) = m"
      "EFI_ERROR (fst (update_mem_attrs p m addr sz s c)) \<or> \<not> IS_PAGE_ALIGNED addr \<or> \<not> IS_PAGE_ALIGNED sz \<or> sz = 0"
  | "EFI_ERROR (fst (update_mem_attrs p m addr sz s c))"
      "\<And>pg. attrs (snd (update_mem_attrs p m addr sz s c)) pg =
         (if pg \<in> pages addr sz then attrs m pg OR shim_mem_attrs_to_uefi_mem_attrs s else attrs m pg)"
  | "EFI_ERROR (fst (update_mem_attrs p m addr sz s c))"
      "\<And>pg. attrs (snd (update_mem_attrs p m addr sz s c)) pg = attrs m pg"
  | "\<And>pg. attrs (snd (update_mem_attrs p m addr sz s c)) pg =
         (if pg \<in> pages addr sz
          then (attrs m pg OR shim_mem_attrs_to_uefi_mem_attrs s) AND NOT (shim_mem_attrs_to_uefi_mem_attrs c)
          else attrs m pg)"
proof -
  let ?u = "shim_mem_attrs_to_uefi_mem_attrs"
  let ?r = "if ?u s \<noteq> 0 then ma_set p m addr sz (?u s) else (EFI_SUCCESS, m)"
  obtain st m1 where r: "?r = (st, m1)" by fastforce
  have present: "\<not> EFI_ERROR (ma_locate p)" "ma_proto p" using assms by (simp_all add: attr_protocol_def)
  have law: "attrs (snd (ma_set p m addr sz a)) pg =
          (if \<not> EFI_ERROR (fst (ma_set p m addr sz a)) \<and> pg \<in> pages addr sz then attrs m pg OR a else attrs m pg)"
    "attrs (snd (ma_clear p m addr sz a)) pg =
          (if \<not> EFI_ERROR (fst (ma_clear p m addr sz a)) \<and> pg \<in> pages addr sz then attrs m pg AND NOT a else attrs m pg)"
    for m a pg using assms unfolding attr_protocol_def by blast+
  have m1: "attrs m1 pg = (if \<not> EFI_ERROR st \<and> pg \<in> pages addr sz then attrs m pg OR ?u s else attrs m pg)" for pg
    using r law(1) [of m "?u s" pg] by (cases "?u s = 0") auto
  show ?thesis
  proof (cases "IS_PAGE_ALIGNED addr \<and> IS_PAGE_ALIGNED sz \<and> sz \<noteq> 0")
    case False
    then show ?thesis using present by (intro that(1)) (auto simp add: update_mem_attrs_def)
  next
    case True
    have u: "update_mem_attrs p m addr sz s c
        = (if \<not> EFI_ERROR st \<and> ?u c \<noteq> 0 then ma_clear p m1 addr sz (?u c) else (st, m1))"
      using True present r by (auto simp add: update_mem_attrs_def Let_def)
    show ?thesis
    proof (cases "EFI_ERROR st")
      case True
      then show ?thesis using u m1 by (intro that(3)) simp_all
    next
      case ok: False
      show ?thesis
      proof (cases "?u c \<noteq> 0 \<and> EFI_ERROR (fst (ma_clear p m1 addr sz (?u c)))")
        case True
        then show ?thesis using u ok m1 law(2) [of m1 "?u c"] by (intro that(2)) simp_all
      next
        case False
        then show ?thesis using u ok m1 law(2) [of m1 "?u c"] by (intro that(4)) (cases "?u c = 0"; simp)
      qed
    qed
  qed
qed

lemma update_mem_attrs_ok:
  assumes p: "attr_protocol p attrs"
    and s: "\<not> EFI_ERROR (fst (update_mem_attrs p m addr sz s c))"
    and a: "IS_PAGE_ALIGNED addr" "IS_PAGE_ALIGNED sz" "sz \<noteq> 0"
    and c: "c = NOT s AND 7"
  shows "page_attrs attrs (snd (update_mem_attrs p m addr sz s c)) pg
     = (if pg \<in> pages addr sz then s AND 7 else page_attrs attrs m pg)"
proof -
  have b: "bit c 0 = (\<not> bit s 0)" "bit c (Suc 0) = (\<not> bit s (Suc 0))" "bit c 2 = (\<not> bit s 2)"
    unfolding c by (simp_all add: bit_and_iff bit_not_iff)
  show ?thesis
  proof (cases rule: update_mem_attrs_cases [OF p, of m addr sz s c])
    case 4
    show ?thesis
      unfolding page_attrs_def uefi_to_shim_bits and_attrs 4
      by (simp add: bit_or_iff bit_and_iff bit_not_iff protection_bits b)
  qed (use s a in simp_all)
qed

text \<open>Whatever happens, an update that does not ask for both keeps a page from being writable and executable.\<close>

definition wx :: "('m \<Rightarrow> nat \<Rightarrow> u64) \<Rightarrow> 'm \<Rightarrow> nat \<Rightarrow> bool" where
  "wx attrs m pg \<longleftrightarrow> page_attrs attrs m pg AND MEM_ATTR_W \<noteq> 0 \<and> page_attrs attrs m pg AND MEM_ATTR_X \<noteq> 0"

lemma wx_bits: "wx attrs m pg \<longleftrightarrow> \<not> bit (attrs m pg) 17 \<and> \<not> bit (attrs m pg) 14"
  by (simp add: wx_def page_attrs_def mem_attr_defs uefi_to_shim_bits)

lemma update_mem_attrs_wx:
  assumes p: "attr_protocol p attrs" and c: "c = NOT s AND 7" and s: "\<not> (bit s 1 \<and> bit s 0)"
    and w: "\<not> wx attrs m pg"
  shows "\<not> wx attrs (snd (update_mem_attrs p m addr sz s c)) pg"
proof -
  have b: "bit c 0 = (\<not> bit s 0)" "bit c (Suc 0) = (\<not> bit s (Suc 0))"
    unfolding c by (simp_all add: bit_and_iff bit_not_iff)
  show ?thesis
    using s w
    by (cases rule: update_mem_attrs_cases [OF p, of m addr sz s c])
       (auto simp add: wx_bits bit_or_iff bit_and_iff bit_not_iff protection_bits b)
qed

section \<open>The image a file is loaded as\<close>

definition place :: "nat \<Rightarrow> bytes \<Rightarrow> bytes \<Rightarrow> bytes" where
  "place i x img = take i img @ x @ drop (i + length x) img"

lemma length_place: "i + length x \<le> length img \<Longrightarrow> length (place i x img) = length img"
  by (simp add: place_def)

lemma place_append:
  assumes "i + length x + length y \<le> length img"
  shows "place (i + length x) y (place i x img) = place i (x @ y) img"
  using assms by (simp add: place_def ac_simps)

text \<open>The bytes of a section in memory.\<close>

definition section_contents :: "bytes \<Rightarrow> section_header \<Rightarrow> bytes" where
  "section_contents f s =
     (let vs = unat (sh_VirtualSize s); raw = min vs (unat (sh_SizeOfRawData s)) in
      if has_flag s EFI_IMAGE_SCN_CNT_UNINITIALIZED_DATA then replicate vs 0
      else take raw (drop (unat (sh_PointerToRawData s)) f) @ replicate (vs - raw) 0)"

definition considered :: "section_header \<Rightarrow> bool" where
  "considered s \<longleftrightarrow> has_flag s EFI_IMAGE_SCN_MEM_READ
     \<and> \<not> (has_flag s EFI_IMAGE_SCN_MEM_DISCARDABLE \<and> sh_VirtualSize s = 0)"

definition copied :: "section_header \<Rightarrow> bool" where
  "copied s \<longleftrightarrow> considered s \<and> \<not> has_flag s EFI_IMAGE_SCN_MEM_DISCARDABLE"

definition section_image :: "bytes \<Rightarrow> nat \<Rightarrow> section_header list \<Rightarrow> bytes \<Rightarrow> bytes" where
  "section_image f buf ss img =
     fold (\<lambda>s img. if copied s then place (buf + unat (sh_VirtualAddress s)) (section_contents f s) img else img) ss img"

text \<open>What the loop lets pass: a section in the image, not writable and executable under NX.\<close>

definition section_in_image :: "pe_context \<Rightarrow> section_header \<Rightarrow> bool" where
  "section_in_image ctx s \<longleftrightarrow> 0 < unat (sh_VirtualSize s)
     \<and> unat (sh_VirtualAddress s) + unat (sh_VirtualSize s) \<le> unat (c_ImageSize ctx)"

definition section_loadable :: "pe_env \<Rightarrow> pe_context \<Rightarrow> section_header \<Rightarrow> bool" where
  "section_loadable penv ctx s \<longleftrightarrow> (copied s \<longrightarrow> section_in_image ctx s
     \<and> \<not> (pe_require_nx penv \<and> has_flag s EFI_IMAGE_SCN_MEM_WRITE \<and> has_flag s EFI_IMAGE_SCN_MEM_EXECUTE))"

definition holds_entry :: "pe_context \<Rightarrow> section_header \<Rightarrow> bool" where
  "holds_entry ctx s \<longleftrightarrow> considered s \<and> ucast (sh_VirtualAddress s) \<le> c_EntryPoint ctx
     \<and> c_EntryPoint ctx < ucast (section_end s)"

definition raw_in_file :: "section_header \<Rightarrow> u32 \<Rightarrow> bool" where
  "raw_in_file s datasize \<longleftrightarrow>
     (sh_SizeOfRawData s \<noteq> 0 \<longrightarrow> unat (sh_PointerToRawData s) + unat (sh_SizeOfRawData s) \<le> unat datasize)"

text \<open>The buffer lies in the allocated pages, which do not wrap around.\<close>

definition buffer_ok :: "mbuf \<Rightarrow> u64 \<Rightarrow> pe_context \<Rightarrow> bool" where
  "buffer_ok img buffer ctx \<longleftrightarrow> in_buf img buffer (unat (c_ImageSize ctx)) \<and> mb_base img \<noteq> 0
     \<and> unat (mb_base img) + length (mb_data img) < 2 ^ 64 \<and> mb_base img \<le> buffer"

lemma buffer_okE:
  assumes "buffer_ok img buffer ctx"
  shows "off img buffer + unat (c_ImageSize ctx) \<le> length (mb_data img)"
    and "unat buffer = unat (mb_base img) + off img buffer"
    and "unat buffer + unat (c_ImageSize ctx) < 2 ^ 64" and "buffer \<noteq> 0"
proof -
  show a: "off img buffer + unat (c_ImageSize ctx) \<le> length (mb_data img)"
    using assms by (simp add: buffer_ok_def in_buf_def)
  show b: "unat buffer = unat (mb_base img) + off img buffer"
    using assms by (simp add: buffer_ok_def off_def unat_sub word_le_nat_alt)
  show "unat buffer + unat (c_ImageSize ctx) < 2 ^ 64" using a b assms by (simp add: buffer_ok_def)
  have "0 < unat (mb_base img)" using assms by (simp add: buffer_ok_def unat_gt_0)
  then show "buffer \<noteq> 0" using b by auto
qed

lemma store_place:
  assumes b: "buffer_ok img buffer ctx" and d: "unat d + length x \<le> unat (c_ImageSize ctx)"
  shows "store img (buffer + d) x = Inr (img\<lparr>mb_data := place (off img buffer + unat d) x (mb_data img)\<rparr>)"
proof -
  have "off img (buffer + d) = unat ((buffer - mb_base img) + d)" by (simp add: off_def algebra_simps)
  moreover have "unat ((buffer - mb_base img) + d) = off img buffer + unat d"
    using buffer_okE(1,2) [OF b] d b unfolding off_def
    by (intro unat_small_u64) (simp_all add: buffer_ok_def off_def)
  ultimately have "off img (buffer + d) = off img buffer + unat d" by simp
  then show ?thesis using buffer_okE(1) [OF b] d by (simp add: store_def in_buf_def place_def)
qed

lemma off_update [simp]: "off (img\<lparr>mb_data := x\<rparr>) p = off img p"
  by (simp add: off_def)

lemma buffer_ok_update:
  "buffer_ok img buffer ctx \<Longrightarrow> length x = length (mb_data img) \<Longrightarrow> buffer_ok (img\<lparr>mb_data := x\<rparr>) buffer ctx"
  by (simp add: buffer_ok_def in_buf_def off_def)

lemma length_section_contents:
  assumes "raw_in_file s (datasize)" and "length f = unat datasize"
  shows "length (section_contents f s) = unat (sh_VirtualSize s)"
proof (cases "sh_SizeOfRawData s = 0")
  case False
  then show ?thesis using assms by (auto simp add: section_contents_def Let_def raw_in_file_def)
qed (simp add: section_contents_def Let_def)

lemma copy_section_data_image:
  assumes f: "is_file b data datasize" and r: "raw_in_file s datasize" and i: "buffer_ok img buffer ctx"
    and s: "section_in_image ctx s" and p: "has_flag s EFI_IMAGE_SCN_CNT_UNINITIALIZED_DATA \<or> \<not> ucast (sh_PointerToRawData s) < c_SizeOfHeaders ctx"
  shows "copy_section_data b data ctx s (buffer + ucast (sh_VirtualAddress s)) img
     = Inr (img\<lparr>mb_data := place (off img buffer + unat (sh_VirtualAddress s)) (section_contents (mb_data b) s) (mb_data img)\<rparr>)"
proof -
  let ?vs = "unat (sh_VirtualSize s)" and ?raw = "min (unat (sh_VirtualSize s)) (unat (sh_SizeOfRawData s))"
  let ?va = "ucast (sh_VirtualAddress s) :: u64" and ?o = "off img buffer + unat (sh_VirtualAddress s)"
  have fit: "unat ?va + ?vs \<le> unat (c_ImageSize ctx)" using s by (simp add: section_in_image_def)
  show ?thesis
  proof (cases "has_flag s EFI_IMAGE_SCN_CNT_UNINITIALIZED_DATA")
    case True
    then show ?thesis using store_place [OF i, of ?va "replicate ?vs 0"] fit
      by (simp add: copy_section_data_def section_contents_def)
  next
    case False
    let ?x = "take ?raw (drop (unat (sh_PointerToRawData s)) (mb_data b))"
    have lf: "length (mb_data b) = unat datasize" using f by (simp add: is_file_def)
    have lx: "length ?x = ?raw" using r lf by (cases "sh_SizeOfRawData s = 0") (auto simp add: raw_in_file_def)
    have ld: "load b (data + ucast (sh_PointerToRawData s)) ?raw = Inr ?x" if "0 < ?raw"
    proof -
      have "sh_SizeOfRawData s \<noteq> 0" using that by auto
      then have "unat (sh_PointerToRawData s) + ?raw \<le> unat datasize" using r by (auto simp add: raw_in_file_def)
      then show ?thesis using f by (simp add: load_def in_buf_def is_file_def off_def)
    qed
    define img1 where "img1 = img\<lparr>mb_data := place ?o ?x (mb_data img)\<rparr>"
    have li: "?o + ?vs \<le> length (mb_data img)" using buffer_okE(1) [OF i] fit by simp
    have "?o + length ?x \<le> length (mb_data img)" using li unfolding lx by (simp add: min_def)
    then have i1: "buffer_ok img1 buffer ctx" unfolding img1_def by (intro buffer_ok_update [OF i] length_place)
    have step1: "(if 0 < ?raw then bindR (load b (data + ucast (sh_PointerToRawData s)) ?raw) (store img (buffer + ?va)) else Inr img) = Inr img1"
    proof (cases "0 < ?raw")
      case True
      then show ?thesis using store_place [OF i, of ?va ?x] ld fit lx by (simp add: img1_def)
    next
      case False
      then have "?raw = 0" unfolding not_gr0 .
      then have x: "?x = []" by (simp only: take_0)
      show ?thesis unfolding if_not_P [OF False] img1_def x by (simp add: place_def)
    qed
    have o1: "off img1 p = off img p" for p by (simp add: img1_def)
    have step2: "(if ?raw < ?vs then store img1 (buffer + ?va + word_of_nat ?raw) (replicate (?vs - ?raw) 0) else Inr img1)
       = Inr (img\<lparr>mb_data := place ?o (section_contents (mb_data b) s) (mb_data img)\<rparr>)"
    proof (cases "?raw < ?vs")
      case True
      have rs: "?raw < 2 ^ 64" using unat_u32_bound [of "sh_VirtualSize s"] by (simp add: min_def)
      have "unat (?va + word_of_nat ?raw) = unat (sh_VirtualAddress s) + ?raw"
        using True fit unat_u64_bound [of "c_ImageSize ctx"] rs by (intro unat_small_u64) (simp_all add: unat_of_nat_u64)
      moreover have "place (?o + ?raw) (replicate (?vs - ?raw) 0) (place ?o ?x (mb_data img))
          = place ?o (?x @ replicate (?vs - ?raw) 0) (mb_data img)"
        using place_append [of ?o ?x "replicate (?vs - ?raw) 0" "mb_data img"] li lx True by simp
      ultimately show ?thesis
        using store_place [OF i1, of "?va + word_of_nat ?raw" "replicate (?vs - ?raw) 0"] True fit False
        by (simp add: o1 img1_def section_contents_def Let_def add.assoc del: of_nat_min)
    next
      case f: False
      then show ?thesis using False by (simp add: img1_def section_contents_def Let_def min_def)
    qed
    show ?thesis using False p step1 step2 by (simp add: copy_section_data_def Let_def bind_guardR)
  qed
qed

lemma section_range:
  assumes b: "ImageAddress buffer n (ucast (sh_VirtualAddress s)) = Some p"
    and e: "ImageAddress buffer n (ucast (section_end s)) = Some q" and le: "p \<le> q"
    and n: "unat n < 2 ^ 32"
  shows "0 < unat (sh_VirtualSize s) \<and> unat (sh_VirtualAddress s) + unat (sh_VirtualSize s) \<le> unat n"
proof -
  let ?va = "unat (sh_VirtualAddress s)" and ?vs = "unat (sh_VirtualSize s)" and ?e = "unat (section_end s)"
  have u: "unat p = unat buffer + ?va" "unat q = unat buffer + ?e" and en: "?e < unat n"
    using b e by (auto simp add: ImageAddress_Some word_less_nat_alt intro!: unat_small_u64)
  have ve: "?va \<le> ?e" using le u by (simp add: word_le_nat_alt)
  have e1: "section_end s = sh_VirtualAddress s + (sh_VirtualSize s - 1)" by (simp add: section_end_def)
  have vs: "0 < ?vs"
  proof (rule ccontr)
    assume "\<not> 0 < ?vs"
    then have z: "sh_VirtualSize s = 0" by (simp add: unat_gt_0)
    have "?e = (if ?va = 0 then 2 ^ 32 - 1 else ?va - 1)"
      using z by (cases "sh_VirtualAddress s = 0") (simp_all add: section_end_def unat_minus_one unat_eq_0 unsigned_minus_1_eq_mask mask_eq_exp_minus_1)
    then show False using ve en n by (simp split: if_splits)
  qed
  have s1: "unat (sh_VirtualSize s - 1) = ?vs - 1" using vs by (simp add: unat_minus_one unat_gt_0)
  have "?e = (?va + (?vs - 1)) mod 2 ^ 32" unfolding e1 by (simp add: unat_word_ariths s1)
  moreover have "?va + (?vs - 1) < 2 ^ 32"
  proof (rule ccontr)
    assume "\<not> ?va + (?vs - 1) < 2 ^ 32"
    then have "(?va + (?vs - 1)) mod 2 ^ 32 = ?va + (?vs - 1) - 2 ^ 32"
      using unat_u32_bound [of "sh_VirtualAddress s"] unat_u32_bound [of "sh_VirtualSize s"]
      by (simp add: mod_if)
    then show False using calculation ve vs unat_u32_bound [of "sh_VirtualSize s"] \<open>\<not> ?va + (?vs - 1) < 2 ^ 32\<close> by simp
  qed
  ultimately have "?e = ?va + (?vs - 1)" by simp
  then show ?thesis using vs en by simp
qed

lemma copy_section_image:
  assumes f: "is_file b data datasize" and r: "raw_in_file s datasize" and i: "buffer_ok img buffer ctx"
    and n: "unat (c_ImageSize ctx) < 2 ^ 32"
  shows "safely (copy_section penv b data ctx buffer rb re s (img, k, rl)) (\<lambda>(img', k', rl').
     img' = img\<lparr>mb_data := section_image (mb_data b) (off img buffer) [s] (mb_data img)\<rparr>
     \<and> k' = k + (if holds_entry ctx s then 1 else 0) \<and> section_loadable penv ctx s)"
proof (cases "considered s")
  case False
  then show ?thesis
    by (auto simp add: copy_section_def section_image_def copied_def holds_entry_def section_loadable_def considered_def)
next
  case c: True
  let ?base = "ImageAddress buffer (c_ImageSize ctx) (ucast (sh_VirtualAddress s))"
  let ?e = "ImageAddress buffer (c_ImageSize ctx) (ucast (section_end s))"
  let ?k = "if holds_entry ctx s then k + 1 else k"
  let ?post = "\<lambda>(img', k', rl').
     img' = img\<lparr>mb_data := section_image (mb_data b) (off img buffer) [s] (mb_data img)\<rparr>
     \<and> k' = k + (if holds_entry ctx s then 1 else 0) \<and> section_loadable penv ctx s"
  have skip: "(has_flag s EFI_IMAGE_SCN_MEM_DISCARDABLE \<and> sh_VirtualSize s = 0) = False"
    "(\<not> has_flag s EFI_IMAGE_SCN_MEM_READ) = False"
    using c by (auto simp add: considered_def)
  have h: "(ucast (sh_VirtualAddress s) \<le> c_EntryPoint ctx \<and> c_EntryPoint ctx < ucast (section_end s)) = holds_entry ctx s"
    using c by (simp add: holds_entry_def)
  have reloc: "safely (check_reloc_section s ?base ?e rb re rl) (\<lambda>_. True)"
    by (auto simp add: check_reloc_section_def bind_guardR safely_def)
  show ?thesis
    unfolding copy_section_def prod.case skip if_False Let_def h
  proof (rule safely_guard, rule safely_guard, rule safely_bind [OF reloc], goal_cases)
    case nx: (1 rl')
    show ?case
    proof (cases "has_flag s EFI_IMAGE_SCN_MEM_DISCARDABLE")
      case True
      then have "\<not> copied s" by (simp add: copied_def)
      then show ?thesis using True by (simp add: section_image_def section_loadable_def)
    next
      case False
      then have cp: "copied s" using c by (simp add: copied_def)
      have nd: "has_flag s EFI_IMAGE_SCN_MEM_DISCARDABLE = False" using False by simp
      show ?thesis
        unfolding nd if_False
      proof (rule safely_orelse, rule safely_guard, rule safely_guard, goal_cases)
        case (1 p)
        then obtain q where q: "?e = Some q" by auto
        have "p \<le> q" using nx(2) 1(1) q by (simp add: ptr_val_def)
        then have s: "section_in_image ctx s"
          unfolding section_in_image_def by (rule section_range [OF 1(1) q _ n])
        have p: "p = buffer + ucast (sh_VirtualAddress s)" using 1(1) by (simp add: ImageAddress_Some)
        have u: "has_flag s EFI_IMAGE_SCN_CNT_UNINITIALIZED_DATA \<or> \<not> ucast (sh_PointerToRawData s) < c_SizeOfHeaders ctx"
          using 1(3) by blast
        have nx: "section_loadable penv ctx s" using nx(1) False s cp by (auto simp add: section_loadable_def)
        show ?case
          unfolding p using copy_section_data_image [OF f r i s u] cp nx by (simp add: section_image_def)
      qed
    qed
  qed
qed

text \<open>The section table as a list.\<close>

lemma section_read:
  assumes f: "is_file b data datasize" and c: "context_ok b data (unat datasize) ctx" and i: "i < unat (c_NumberOfSections ctx)"
  shows "read_section b (section_ptr ctx i) = Inr (section_at b ctx i)"
proof -
  have "in_buf b (section_ptr ctx i) 40" by (rule section_ptr_in_buf [OF is_file_in_buf [OF f] c i])
  moreover have "read_section b q \<noteq> Inl (Status st)" for q st
    by (simp add: read_section_def bindR_eq_Inl load_not_status)
  ultimately obtain s where "read_section b (section_ptr ctx i) = Inr s"
    using read_section_safe by (metis exc.exhaust obj_sumE safely_no_fault)
  then show ?thesis by (simp add: section_at_def)
qed

definition sections_from :: "mbuf \<Rightarrow> pe_context \<Rightarrow> nat \<Rightarrow> section_header list" where
  "sections_from b ctx i = map (section_at b ctx) [i..<unat (c_NumberOfSections ctx)]"

lemma sections_from_Cons:
  "i < unat (c_NumberOfSections ctx) \<Longrightarrow> sections_from b ctx i = section_at b ctx i # sections_from b ctx (Suc i)"
  by (simp add: sections_from_def upt_conv_Cons)

lemma sections_from_0: "sections_from b ctx 0 = sections_of b ctx"
  by (simp add: sections_from_def sections_of_def)

lemma section_image_Cons:
  "section_image f o' (s # ss) x = section_image f o' ss (section_image f o' [s] x)"
  by (simp add: section_image_def)

lemma length_section_image:
  assumes "buffer_ok img buffer ctx" and "section_loadable penv ctx s" and "raw_in_file s datasize" and "length f = unat datasize"
  shows "length (section_image f (off img buffer) [s] (mb_data img)) = length (mb_data img)"
  using buffer_okE(1) [OF assms(1)] length_section_contents [OF assms(3,4)] assms(2)
  by (auto simp add: section_image_def section_loadable_def section_in_image_def intro!: length_place)

definition copy_post ::
  "pe_env \<Rightarrow> mbuf \<Rightarrow> pe_context \<Rightarrow> u64 \<Rightarrow> section_header list \<Rightarrow> copy_state \<Rightarrow> copy_state \<Rightarrow> bool"
where
  "copy_post penv b ctx buffer ss cs cs' \<longleftrightarrow> (case cs of (img, k, rl) \<Rightarrow> case cs' of (img', k', rl') \<Rightarrow>
     img' = img\<lparr>mb_data := section_image (mb_data b) (off img buffer) ss (mb_data img)\<rparr>
     \<and> k' = k + length (filter (holds_entry ctx) ss) \<and> (\<forall>s \<in> set ss. section_loadable penv ctx s))"

lemma copy_sections_ok:
  assumes f: "is_file b data datasize" and c: "context_ok b data (unat datasize) ctx"
    and n: "i + k = unat (c_NumberOfSections ctx)" and r: "\<forall>s \<in> set (sections_of b ctx). raw_in_file s datasize"
    and b: "buffer_ok img buffer ctx"
  shows "safely (copy_sections penv b data ctx buffer rb re k i (img, j, rl))
     (copy_post penv b ctx buffer (sections_from b ctx i) (img, j, rl))"
  using n b
proof (induction k arbitrary: i img j rl)
  case 0
  then show ?case by (simp add: copy_post_def sections_from_def section_image_def)
next
  case (Suc k)
  let ?s = "section_at b ctx i"
  have i: "i < unat (c_NumberOfSections ctx)" using Suc.prems(1) by simp
  have ri: "raw_in_file ?s datasize" using r section_in_sections [OF i] by blast
  have sz: "unat (c_ImageSize ctx) < 2 ^ 32" using c by (simp add: context_ok_def)
  have lf: "length (mb_data b) = unat datasize" using f by (simp add: is_file_def)
  show ?case
    unfolding copy_sections.simps section_read [OF f c i] bindR_Inr
  proof (rule safely_bind [OF copy_section_image [OF f ri Suc.prems(2) sz]], goal_cases)
    case (1 cs)
    let ?img = "img\<lparr>mb_data := section_image (mb_data b) (off img buffer) [?s] (mb_data img)\<rparr>"
    obtain rl' where cs: "cs = (?img, j + (if holds_entry ctx ?s then 1 else 0), rl')" and l: "section_loadable penv ctx ?s"
      using 1(2) by auto
    have b': "buffer_ok ?img buffer ctx"
      by (rule buffer_ok_update [OF Suc.prems(2) length_section_image [OF Suc.prems(2) l ri lf]])
    have "Suc i + k = unat (c_NumberOfSections ctx)" using Suc.prems(1) by simp
    from Suc.IH [OF this b'] show ?case
      unfolding cs sections_from_Cons [OF i]
      by (rule safely_weaken) (use l in \<open>auto simp add: copy_post_def section_image_Cons [of _ _ _ "sections_from b ctx (Suc i)"]\<close>)
  qed
qed

lemma set_permissions_fold:
  assumes f: "is_file b data datasize" and c: "context_ok b data (unat datasize) ctx"
    and n: "i + k = unat (c_NumberOfSections ctx)"
  shows "set_permissions p b ctx buffer k i m = Inr (fold (section_permissions p ctx buffer) (sections_from b ctx i) m)"
  using n
proof (induction k arbitrary: i m)
  case (Suc k)
  have i: "i < unat (c_NumberOfSections ctx)" using Suc.prems by simp
  then show ?case using Suc section_read [OF f c i] by (simp add: sections_from_Cons)
qed (simp add: sections_from_def)

section \<open>The outcome of a load\<close>

definition load_ok ::
  "'m mem_attr_proto \<Rightarrow> pe_env \<Rightarrow> mbuf \<Rightarrow> pe_context \<Rightarrow> u64 \<Rightarrow> 'm \<Rightarrow> 'm load_result \<Rightarrow> bool"
where
  "load_ok p penv b ctx buffer m r \<longleftrightarrow>
     lr_entry r = Some (buffer + c_EntryPoint ctx) \<and> c_EntryPoint ctx < c_ImageSize ctx
     \<and> length (filter (holds_entry ctx) (sections_of b ctx)) = 1
     \<and> (\<forall>s \<in> set (sections_of b ctx). section_loadable penv ctx s)
     \<and> lr_attrs r = fold (section_permissions p ctx buffer) (sections_of b ctx) m
     \<and> lr_ImageBase r = Some buffer \<and> lr_ImageSize r = c_ImageSize ctx"

definition outcome :: "(('m load_result) \<Rightarrow> bool) \<Rightarrow> 'm load_result \<Rightarrow> bool" where
  "outcome P r \<longleftrightarrow> (if lr_status r = EFI_SUCCESS then lr_pages r \<noteq> None \<and> \<not> lr_freed r \<and> P r
     else lr_pages r \<noteq> None \<longrightarrow> lr_freed r)"

lemma outcome_failed: "st \<noteq> EFI_SUCCESS \<Longrightarrow> outcome P (load_failed m img e st)"
  by (simp add: outcome_def load_failed_def)

text \<open>The errors of the parts are errors.\<close>

lemma err_only_store [simp]: "err_only (store b p x)" "err_only (rd64 b p)"
  by (simp_all add: err_only_def store_def)

lemma err_only_wr [simp]: "err_only (wr16 b p v)" "err_only (wr32 b p v')" "err_only (wr64 b p v'')"
  by (simp_all add: wr16_def wr32_def wr64_def)

lemma err_only_copy_range [simp]: "err_only (copy_sections penv b data ctx buffer rb re k i cs)"
proof (induction k arbitrary: i cs)
  case (Suc k)
  have "err_only (read_section b q)" for q by (simp add: read_section_def err_only_bind)
  moreover have "err_only (check_reloc_section s x y rb re z)" for s x y z
    by (simp add: check_reloc_section_def err_only_bind)
  moreover have "err_only (copy_section_data b data ctx s x img)" for s x img
    by (simp add: copy_section_data_def Let_def err_only_bind)
  ultimately show ?case using Suc
    by (simp add: copy_section_def Let_def err_only_bind split: prod.splits)
qed simp

lemma reloc_fixup_err [simp]: "err_only (reloc_fixup img base adjust e)"
  by (simp add: reloc_fixup_def Let_def err_only_bind)

lemma reloc_entries_err: "reloc_entries file base adjust e r img = Some (Inl (Status st)) \<Longrightarrow> EFI_ERROR st"
proof -
  have "reloc_entries file base adjust e r img = Some x \<Longrightarrow> \<forall>st. x = Inl (Status st) \<longrightarrow> EFI_ERROR st" for x
  proof (rule reloc_entries.raw_induct [rotated])
    fix f b base adjust e r img x
    assume ih: "\<And>file base adjust e r img y. f file base adjust e r img = Some y \<Longrightarrow> \<forall>st. y = Inl (Status st) \<longrightarrow> EFI_ERROR st"
      and s: "(if r < e then case bindR (rd16 b r) (reloc_fixup img base adjust) of Inl z \<Rightarrow> Some (Inl z)
           | Inr img' \<Rightarrow> f b base adjust e (r + 2) img' else Some (Inr img)) = Some x"
    have "err_only (bindR (rd16 b r) (reloc_fixup img base adjust))" by (rule err_only_bind) simp_all
    then show "\<forall>st. x = Inl (Status st) \<longrightarrow> EFI_ERROR st"
      using s ih by (auto simp add: err_only_def split: if_splits sum.splits)
  qed
  then show "reloc_entries file base adjust e r img = Some (Inl (Status st)) \<Longrightarrow> EFI_ERROR st" by blast
qed

lemma reloc_blocks_err: "reloc_blocks file n orig data sz adjust e blk img = Some (Inl (Status st)) \<Longrightarrow> EFI_ERROR st"
proof -
  have "reloc_blocks file n orig data sz adjust e blk img = Some x \<Longrightarrow> \<forall>st. x = Inl (Status st) \<longrightarrow> EFI_ERROR st" for x
  proof (rule reloc_blocks.raw_induct [rotated])
    fix f b n orig data sz adjust e blk img x
    assume ih: "\<And>file n orig data sz adjust e blk img y.
        f file n orig data sz adjust e blk img = Some y \<Longrightarrow> \<forall>st. y = Inl (Status st) \<longrightarrow> EFI_ERROR st"
      and s: "(if blk < e then case reloc_block b n orig data sz blk of Inl z \<Rightarrow> Some (Inl z)
           | Inr (reloc_end, base) \<Rightarrow> (case reloc_entries b base adjust reloc_end (blk + 8) img of
               None \<Rightarrow> None | Some (Inl z) \<Rightarrow> Some (Inl z)
             | Some (Inr img') \<Rightarrow> f b n orig data sz adjust e reloc_end img') else Some (Inr img)) = Some x"
    have "err_only (reloc_block b n orig data sz blk)" by (simp add: reloc_block_def Let_def err_only_bind)
    then show "\<forall>st. x = Inl (Status st) \<longrightarrow> EFI_ERROR st"
      using s ih reloc_entries_err by (auto simp add: err_only_def split: if_splits sum.splits prod.splits option.splits)
  qed
  then show "reloc_blocks file n orig data sz adjust e blk img = Some (Inl (Status st)) \<Longrightarrow> EFI_ERROR st" by blast
qed

lemma relocate_coff_err: "relocate_coff file ctx s orig data img = Some (Inl (Status st)) \<Longrightarrow> EFI_ERROR st"
  using reloc_blocks_err
  by (auto simp add: relocate_coff_def Let_def err_only_def split: sum.splits option.splits if_splits)

lemma not_success: "EFI_ERROR st \<Longrightarrow> st \<noteq> EFI_SUCCESS"
  by auto

lemma load_sections_outcome:
  assumes f: "is_file b data datasize" and c: "context_ok b data (unat datasize) ctx"
    and r: "\<forall>s \<in> set (sections_of b ctx). raw_in_file s datasize" and bo: "buffer_ok img buffer ctx"
    and h: "unat (c_SizeOfHeaders ctx) \<le> unat datasize"
    and res: "load_sections p penv b data ctx buffer m img = Some x"
  shows "x = Inl Fault \<and> rd32 b (c_RelocDir ctx + 4) \<noteq> Inr 0
    \<or> (\<exists>l. x = Inr l \<and> outcome (load_ok p penv b ctx buffer m) l)"
proof -
  have le: "c_SizeOfHeaders ctx \<le> c_ImageSize ctx" using c by (simp add: context_ok_def)
  then have hs: "unat (c_SizeOfHeaders ctx) \<le> unat (c_ImageSize ctx)" by (simp add: word_le_nat_alt)
  have ld: "load b data (unat (c_SizeOfHeaders ctx)) = Inr (take (unat (c_SizeOfHeaders ctx)) (mb_data b))"
    using f h by (auto simp add: load_def in_buf_def is_file_def)
  have lt: "length (take (unat (c_SizeOfHeaders ctx)) (mb_data b)) = unat (c_SizeOfHeaders ctx)"
    using f h by (simp add: is_file_def)
  let ?img = "img\<lparr>mb_data := place (off img buffer) (take (unat (c_SizeOfHeaders ctx)) (mb_data b)) (mb_data img)\<rparr>"
  have st: "store img buffer (take (unat (c_SizeOfHeaders ctx)) (mb_data b)) = Inr ?img"
    using store_place [OF bo, of 0 "take (unat (c_SizeOfHeaders ctx)) (mb_data b)"] hs lt by simp
  have b1: "buffer_ok ?img buffer ctx"
    using buffer_okE(1) [OF bo] hs lt by (intro buffer_ok_update [OF bo] length_place) simp
  have rd: "in_buf b (c_RelocDir ctx) 8" using c by (simp add: context_ok_def)
  obtain va rs where dir: "rd32 b (c_RelocDir ctx) = Inr va" "rd32 b (c_RelocDir ctx + 4) = Inr rs"
    using rd_ok(3) [OF in_buf_field [OF rd, of 4 4]] rd_ok(3) [OF in_buf_mono [OF rd, of 4]] by auto
  show ?thesis
  proof (cases "ImageAddress buffer (c_ImageSize ctx) (c_EntryPoint ctx)")
    case None
    then show ?thesis using res by (auto simp add: load_sections_def ld st outcome_failed)
  next
    case (Some entry)
    then have en: "entry = buffer + c_EntryPoint ctx" "c_EntryPoint ctx < c_ImageSize ctx"
      by (simp_all add: ImageAddress_Some)
    let ?cp = "copy_sections penv b data ctx buffer (ImageAddress buffer (c_ImageSize ctx) (ucast va))
              (ImageAddress buffer (c_ImageSize ctx) (ucast (va + rs - 1)))
              (unat (c_NumberOfSections ctx)) 0 (?img, 0, None)"
    have cp: "safely ?cp (copy_post penv b ctx buffer (sections_of b ctx) (?img, 0, None))"
      using copy_sections_ok [OF f c _ r b1, of 0] by (simp add: sections_from_0)
    have fin: "\<exists>l. finish_load p b ctx buffer entry m k img' = Inr l
        \<and> outcome (load_ok p penv b ctx buffer m) l"
      if "k = length (filter (holds_entry ctx) (sections_of b ctx))" "\<forall>s \<in> set (sections_of b ctx). section_loadable penv ctx s" for k img'
      using set_permissions_fold [OF f c, of 0 _ p buffer m] that en
      by (simp add: finish_load_def outcome_def load_ok_def sections_from_0)
    show ?thesis
    proof (cases ?cp)
      case (Inl e)
      then obtain st' where e: "e = Status st'" using cp by (cases e) auto
      have "EFI_ERROR st'" using Inl e err_only_copy_range unfolding err_only_def by blast
      then show ?thesis using res Inl e not_success by (auto simp add: load_sections_def ld st Some dir outcome_failed)
    next
      case (Inr cs)
      obtain img2 k rl where cs: "cs = (img2, k, rl)" using prod_cases3 by blast
      have post: "k = length (filter (holds_entry ctx) (sections_of b ctx))" "\<forall>s \<in> set (sections_of b ctx). section_loadable penv ctx s"
        using cp Inr cs by (auto simp add: copy_post_def)
      note fin' = fin [OF post]
      show ?thesis
      proof (cases "c_NumberOfRvaAndSizes ctx \<le> 5")
        case True
        then show ?thesis using res Inr cs by (auto simp add: load_sections_def ld st Some dir outcome_failed)
      next
        case nr: False
        show ?thesis
        proof (cases "if rs \<noteq> 0 then rl else None")
          case None
          then show ?thesis using res Inr cs nr fin' [of img2] by (auto simp add: load_sections_def ld st Some dir)
        next
          case rel: (Some s)
          then have "rs \<noteq> 0" by (auto split: if_splits)
          moreover have "(case relocate_coff b ctx s data buffer img2 of
              None \<Rightarrow> None
            | Some (Inl Fault) \<Rightarrow> Some (Inl Fault)
            | Some (Inl (Status st)) \<Rightarrow> Some (Inr (load_failed m img2 (Some entry) st))
            | Some (Inr img) \<Rightarrow> Some (finish_load p b ctx buffer entry m k img)) = Some x"
            using res Inr cs nr rel by (auto simp add: load_sections_def ld st Some dir split: if_splits)
          ultimately show ?thesis
            using fin' dir not_success [OF relocate_coff_err]
            by (auto simp add: outcome_failed split: option.splits sum.splits exc.splits)
        qed
      qed
    qed
  qed
qed

section \<open>Where the image goes\<close>

lemma align_value_le:
  assumes "0 < unat a" and "unat v + unat a \<le> 2 ^ 64"
  shows "unat v \<le> unat (align_value v a)" and "unat (align_value v a) < unat v + unat a"
proof -
  have "(a - v) AND (a - 1) \<le> a - 1" by (rule word_and_le1)
  then have l: "unat ((a - v) AND (a - 1)) \<le> unat a - 1"
    using assms(1) by (simp add: word_le_nat_alt unat_minus_one unat_gt_0)
  then have "unat (align_value v a) = unat v + unat ((a - v) AND (a - 1))"
    using assms unfolding align_value_def by (intro unat_small_u64) simp_all
  then show "unat v \<le> unat (align_value v a)" "unat (align_value v a) < unat v + unat a" using l assms(1) by simp_all
qed

lemma page_round:
  assumes "w \<le> 4096 * n"
  shows "w + (4096 * n - w) mod 4096 = (w + 4095) div 4096 * (4096 :: nat)"
proof -
  define q t where "q = w div 4096" and "t = w mod 4096"
  have w: "w = 4096 * q + t" and t: "t < 4096" by (simp_all add: q_def t_def)
  show ?thesis
  proof (cases "t = 0")
    case True
    then show ?thesis using w by (simp add: flip: diff_mult_distrib2)
  next
    case False
    then have "q < n" using assms w by simp
    then obtain k where n: "n = q + 1 + k" using less_imp_Suc_add by fastforce
    have "4096 * n - w = 4096 * k + (4096 - t)" using t unfolding n w by simp
    then have "(4096 * n - w) mod 4096 = 4096 - t" using False by simp
    moreover have "(w + 4095) div 4096 = q + 1" using False t unfolding w by simp
    ultimately show ?thesis using w t by simp
  qed
qed

lemma align_page:
  assumes "unat v + 4096 \<le> 2 ^ 64"
  shows "unat (align_value v 4096) = (unat v + 4095) div 4096 * 4096"
proof -
  have e: "(4096 - v) AND 4095 = take_bit 12 (4096 - v)" by (simp add: take_bit_eq_mask mask_eq_exp_minus_1)
  have d: "unat ((4096 - v) AND 4095) = unat (4096 - v) mod 4096"
    unfolding e unsigned_take_bit_eq by (simp add: take_bit_eq_mod)
  have "unat (4096 - v) = (if unat v \<le> 4096 then 4096 - unat v else 2 ^ 64 + 4096 - unat v)"
    by (simp add: unat_sub_if_size word_size)
  then have "unat ((4096 - v) AND 4095) = (2 ^ 64 - unat v) mod 4096" unfolding d
  proof (cases "unat v \<le> 4096")
    case True
    then have "2 ^ 64 - unat v = 4096 - unat v + 4096 * (2 ^ 52 - 1)" by simp
    then show "unat (4096 - v) mod 4096 = (2 ^ 64 - unat v) mod 4096"
      using True by (simp only: mod_mult_self2) (simp add: unat_sub_if_size word_size)
  next
    case False
    then have "unat (4096 - v) = 2 ^ 64 + 4096 - unat v" by (simp add: unat_sub_if_size word_size)
    moreover have "2 ^ 64 + 4096 - unat v = (2 ^ 64 - unat v) + 4096" using assms by simp
    ultimately show "unat (4096 - v) mod 4096 = (2 ^ 64 - unat v) mod 4096" by (simp only: mod_add_self2)
  qed
  then have "unat (align_value v 4096) = unat v + (2 ^ 64 - unat v) mod 4096"
    using assms unfolding align_value_def by (intro unat_small_u64) simp_all
  then show ?thesis using page_round [of "unat v" "2 ^ 52"] assms by simp
qed

text \<open>The contract of \<open>AllocatePages\<close>.\<close>

definition allocator :: "(nat \<Rightarrow> mbuf option) \<Rightarrow> bool" where
  "allocator alloc \<longleftrightarrow> (\<forall>n img. alloc n = Some img \<longrightarrow> length (mb_data img) = 4096 * n \<and> mb_base img \<noteq> 0
     \<and> unat (mb_base img) mod 4096 = 0 \<and> unat (mb_base img) + 4096 * n + 2 ^ 32 \<le> 2 ^ 64)"

definition alloc_fits :: "pe_context \<Rightarrow> bool" where
  "alloc_fits ctx \<longleftrightarrow> unat (c_ImageSize ctx) + unat (c_SectionAlignment ctx) + 4095 < 2 ^ 32"

lemma alloc_size_unat:
  assumes "unat (c_ImageSize ctx) < 2 ^ 32"
  shows "unat (alloc_size ctx)
     = ((unat (c_ImageSize ctx) + unat (c_SectionAlignment ctx) + 4095) div 4096 * 4096) mod 2 ^ 32"
proof -
  have u: "unat (c_ImageSize ctx + ucast (c_SectionAlignment ctx)) = unat (c_ImageSize ctx) + unat (c_SectionAlignment ctx)"
    using assms unat_u32_bound [of "c_SectionAlignment ctx"] by (intro unat_small_u64) simp_all
  have "unat (align_value (c_ImageSize ctx + ucast (c_SectionAlignment ctx)) 4096)
     = (unat (c_ImageSize ctx) + unat (c_SectionAlignment ctx) + 4095) div 4096 * 4096"
    using align_page [of "c_ImageSize ctx + ucast (c_SectionAlignment ctx)"] assms unat_u32_bound [of "c_SectionAlignment ctx"]
    unfolding u by simp
  then show ?thesis unfolding alloc_size_def by (simp add: unsigned_ucast_eq take_bit_eq_mod)
qed

lemma alloc_buffer_ok:
  assumes a: "allocator alloc" "alloc (unat (alloc_size ctx) div 4096) = Some img"
    and n: "unat (c_ImageSize ctx) < 2 ^ 32" and fit: "alloc_fits ctx"
  shows "buffer_ok img (image_buffer ctx (mb_base img)) ctx"
proof -
  let ?buf = "image_buffer ctx (mb_base img)" and ?sa = "unat (c_SectionAlignment ctx)"
  have img: "length (mb_data img) = 4096 * (unat (alloc_size ctx) div 4096)" "mb_base img \<noteq> 0" "unat (mb_base img) mod 4096 = 0"
    "unat (mb_base img) + length (mb_data img) + 2 ^ 32 \<le> 2 ^ 64"
    using a by (auto simp add: allocator_def)
  have "(unat (c_ImageSize ctx) + ?sa + 4095) div 4096 * 4096 < 2 ^ 32"
    using fit unfolding alloc_fits_def by linarith
  then have len: "length (mb_data img) = (unat (c_ImageSize ctx) + ?sa + 4095) div 4096 * 4096"
    unfolding img(1) alloc_size_unat [OF n] by simp
  have buf: "unat (mb_base img) \<le> unat ?buf \<and> unat ?buf \<le> unat (mb_base img) + ?sa"
  proof (cases "c_SectionAlignment ctx = 0")
    case True
    have "unat ?buf = (unat (mb_base img) + 4095) div 4096 * 4096"
      using True img(4) by (simp add: image_buffer_def align_page)
    moreover obtain q where "unat (mb_base img) = 4096 * q" using img(3) by (auto simp add: mod_eq_0_iff_dvd dvd_def)
    ultimately show ?thesis using True by simp
  next
    case False
    then have p: "0 < unat (ucast (c_SectionAlignment ctx) :: u64)" by (simp add: unat_gt_0)
    have b: "unat (mb_base img) + unat (ucast (c_SectionAlignment ctx) :: u64) \<le> 2 ^ 64"
      using img(4) unat_u32_bound [of "c_SectionAlignment ctx"] by simp
    show ?thesis
      using align_value_le [OF p b] False by (simp add: image_buffer_def)
  qed
  have "off img ?buf = unat ?buf - unat (mb_base img)" using buf by (simp add: off_def unat_sub word_le_nat_alt)
  moreover have "unat (c_ImageSize ctx) + ?sa \<le> length (mb_data img)" unfolding len by linarith
  ultimately have "in_buf img ?buf (unat (c_ImageSize ctx))" using buf unfolding in_buf_def by linarith
  then show ?thesis using img buf by (simp add: buffer_ok_def word_le_nat_alt)
qed

lemma alloc_size_wraps:
  assumes n: "unat (c_ImageSize ctx) < 2 ^ 32" and "\<not> alloc_fits ctx" and sa: "unat (c_SectionAlignment ctx) \<le> 2 ^ 31"
  shows "unat (alloc_size ctx) < unat (c_ImageSize ctx)"
proof -
  let ?x = "(unat (c_ImageSize ctx) + unat (c_SectionAlignment ctx) + 4095) div 4096 * 4096"
  have up: "?x \<le> unat (c_ImageSize ctx) + unat (c_SectionAlignment ctx) + 4095" by (rule div_times_less_eq_dividend)
  have "2 ^ 32 div 4096 \<le> (unat (c_ImageSize ctx) + unat (c_SectionAlignment ctx) + 4095) div 4096"
    using assms(2) unfolding alloc_fits_def by (intro div_le_mono) simp
  then have lo: "2 ^ 32 \<le> ?x" by simp
  have "y mod 2 ^ 32 = y - 2 ^ 32" if "2 ^ 32 \<le> y" "y < 2 * 2 ^ 32" for y :: nat
    using that by (simp add: le_mod_geq)
  moreover have "?x < 2 * 2 ^ 32" using up n sa by simp
  ultimately have "?x mod 2 ^ 32 = ?x - 2 ^ 32" using lo by blast
  then show ?thesis unfolding alloc_size_unat [OF n] using up sa lo by simp
qed

section \<open>From the file to the image\<close>

definition same_table :: "pe_context \<Rightarrow> pe_context \<Rightarrow> bool" where
  "same_table ctx ctx' \<longleftrightarrow> ctx' = ctx \<or> c_NumberOfSections ctx = 0 \<and> (\<exists>p. ctx' = ctx\<lparr>c_FirstSection := p\<rparr>)"

lemma same_table_trans: "same_table a b \<Longrightarrow> same_table b c \<Longrightarrow> same_table a c"
  by (auto simp add: same_table_def)

lemma generate_hash_first:
  assumes "c_NumberOfSections ctx = 0"
  shows "generate_hash s256 s1 pool b data datasize (ctx\<lparr>c_FirstSection := p\<rparr>) = generate_hash s256 s1 pool b data datasize ctx"
proof -
  have "hash_headers s256 s1 b data datasize (ctx\<lparr>c_FirstSection := p\<rparr>) = hash_headers s256 s1 b data datasize ctx"
    by (simp add: hash_headers_def fun_eq_iff)
  moreover have "fix_sections b data datasize off (ctx\<lparr>c_FirstSection := p\<rparr>) = fix_sections b data datasize off ctx" for off
    using assms by (simp add: fix_sections_def)
  ultimately show ?thesis by (simp add: generate_hash_def)
qed

lemma generate_hash_table:
  assumes f: "is_file b data datasize" and h: "read_header penv b data datasize = Inr ctx" and s: "same_table ctx ctx'"
    and g: "generate_hash s256 s1 pool b data datasize ctx' = Inr (x, y, ctx'')"
  shows "same_table ctx ctx'' \<and> unat (c_SizeOfHeaders ctx) \<le> unat datasize
     \<and> (\<forall>s \<in> set (sections_of b ctx). raw_in_file s datasize)"
proof -
  have "generate_hash s256 s1 pool b data datasize ctx = Inr (x, y, ctx'')"
    using g s generate_hash_first unfolding same_table_def by metis
  from safely_result [OF generate_hash_result [OF f h] this] show ?thesis
    by (auto simp add: hash_post_def same_table_def sections_in_file_def raw_in_file_def)
qed

lemma verify_buffer_table:
  assumes f: "is_file b data datasize" and h: "read_header penv b data datasize = Inr ctx"
    and v: "verify_buffer env w s256 s1 pool http atoi sbat ip b data datasize ctx vm = Some (Inr (st, vm', ctx'))"
  shows "same_table ctx ctx'"
proof -
  obtain st0 vm0 where a: "verify_buffer_authenticode env w s256 s1 pool http b data datasize ctx vm = Some (Inr (st0, vm0, ctx'))"
    using v by (auto simp add: verify_buffer_def bindO_eq split: if_splits sum.splits exc.splits)
  have r: "same_table ctx ctx" by (simp add: same_table_def)
  show ?thesis
    using a r
    by (auto simp add: verify_buffer_authenticode_def bindO_eq dest: generate_hash_table [OF f h r] split: if_splits sum.splits exc.splits)
qed

lemma verify_image_table:
  assumes f: "is_file b data datasize" and h: "read_header penv b data datasize = Inr ctx"
    and v: "verify_image env w s256 s1 pool http atoi sbat penv tpm b data datasize vm = Some (Inr (EFI_SUCCESS, vm', c))"
  shows "\<exists>ctx'. c = Some ctx' \<and> same_table ctx ctx' \<and> unat (c_SizeOfHeaders ctx) \<le> unat datasize
     \<and> (\<forall>s \<in> set (sections_of b ctx). raw_in_file s datasize)
     \<and> (secure_mode env w \<longrightarrow> (\<exists>st ctx1 vm1. \<not> EFI_ERROR st
          \<and> verify_buffer env w s256 s1 pool http atoi sbat (pe_in_protocol penv) b data datasize ctx vm = Some (Inr (st, vm1, ctx1))))"
proof -
  obtain st1 vm1 ctx1 where v1: "(if secure_mode env w
       then verify_buffer env w s256 s1 pool http atoi sbat (pe_in_protocol penv) b data datasize ctx vm
       else Some (Inr (EFI_SUCCESS, vm, ctx))) = Some (Inr (st1, vm1, ctx1))"
    and ok: "\<not> EFI_ERROR st1"
    and g: "\<exists>x y ctx2. generate_hash s256 s1 pool b data datasize ctx1 = Inr (x, y, ctx2) \<and> c = Some ctx2"
  proof -
    have not: "generate_hash s256 s1 pool b data datasize ctx1 \<noteq> Inl (Status EFI_SUCCESS)" for ctx1
      using err_only_generate_hash [of s256 s1 pool b data datasize ctx1] by (auto simp add: err_only_def)
    show ?thesis
      using v h not that by (auto simp add: verify_image_def bindO_eq split: if_splits sum.splits exc.splits option.splits)
  qed
  obtain x y ctx2 where g2: "generate_hash s256 s1 pool b data datasize ctx1 = Inr (x, y, ctx2)" "c = Some ctx2"
    using g by blast
  have st: "same_table ctx ctx1"
  proof (cases "secure_mode env w")
    case True
    then show ?thesis using v1 by (intro verify_buffer_table [OF f h]) simp
  qed (use v1 in \<open>simp add: same_table_def\<close>)
  then show ?thesis
    using generate_hash_table [OF f h st g2(1)] g2(2) v1 ok by (cases "secure_mode env w") auto
qed

lemma load_image_table:
  assumes "same_table ctx ctx'"
  shows "load_image p alloc penv b data ctx' m = load_image p alloc penv b data ctx m"
proof -
  have "load_sections p penv b data (ctx\<lparr>c_FirstSection := q\<rparr>) buffer m img = load_sections p penv b data ctx buffer m img"
    if n: "c_NumberOfSections ctx = 0" for q buffer m img
  proof -
    let ?c = "ctx\<lparr>c_FirstSection := q\<rparr>"
    have e: "c_ImageAddress ?c = c_ImageAddress ctx" "c_ImageSize ?c = c_ImageSize ctx" "c_RelocDir ?c = c_RelocDir ctx"
      "c_NumberOfSections ?c = c_NumberOfSections ctx" "c_EntryPoint ?c = c_EntryPoint ctx"
      "c_SizeOfHeaders ?c = c_SizeOfHeaders ctx" "c_NumberOfRvaAndSizes ?c = c_NumberOfRvaAndSizes ctx"
      by simp_all
    have "copy_sections penv b data ?c buffer rb re (unat (c_NumberOfSections ctx))
        = copy_sections penv b data ctx buffer rb re (unat (c_NumberOfSections ctx))" for rb re
      using n by (simp add: fun_eq_iff)
    moreover have "finish_load p b ?c buffer = finish_load p b ctx buffer"
      using n by (simp add: finish_load_def fun_eq_iff)
    moreover have "relocate_coff b ?c = relocate_coff b ctx" by (intro ext) (simp only: relocate_coff_def e)
    ultimately show ?thesis by (simp only: load_sections_def e)
  qed
  moreover have "alloc_size (ctx\<lparr>c_FirstSection := q\<rparr>) = alloc_size ctx"
    "image_buffer (ctx\<lparr>c_FirstSection := q\<rparr>) = image_buffer ctx" for q
    by (simp_all add: alloc_size_def image_buffer_def fun_eq_iff)
  ultimately have "load_image p alloc penv b data (ctx\<lparr>c_FirstSection := q\<rparr>) m = load_image p alloc penv b data ctx m"
    if "c_NumberOfSections ctx = 0" for q
    using that by (simp only: load_image_def)
  then show ?thesis using assms by (auto simp add: same_table_def)
qed

lemma handle_image_cases:
  assumes f: "is_file b data datasize" and h: "read_header penv b data datasize = Inr ctx"
    and r: "handle_image env w s256 s1 pool http atoi sbat penv tpm p alloc m b data datasize vm = Some (Inr (vm', r))"
  obtains "lr_status r \<noteq> EFI_SUCCESS" "lr_pages r = None"
  | "load_image p alloc penv b data ctx m = Some (Inr r)" "unat (c_SizeOfHeaders ctx) \<le> unat datasize"
    "\<forall>s \<in> set (sections_of b ctx). raw_in_file s datasize"
    "secure_mode env w \<longrightarrow> (\<exists>st ctx1 vm1. \<not> EFI_ERROR st
          \<and> verify_buffer env w s256 s1 pool http atoi sbat (pe_in_protocol penv) b data datasize ctx vm = Some (Inr (st, vm1, ctx1)))"
proof -
  obtain st vm1 c where v: "verify_image env w s256 s1 pool http atoi sbat penv tpm b data datasize vm = Some (Inr (st, vm1, c))"
    using r by (auto simp add: handle_image_def bindO_eq)
  show ?thesis
  proof (cases "st = EFI_SUCCESS")
    case False
    then have "lr_status r \<noteq> EFI_SUCCESS" "lr_pages r = None" using r v by (auto simp add: handle_image_def)
    then show ?thesis by (rule that(1))
  next
    case True
    obtain ctx' where c: "c = Some ctx'" "same_table ctx ctx'" and x: "unat (c_SizeOfHeaders ctx) \<le> unat datasize"
      "\<forall>s \<in> set (sections_of b ctx). raw_in_file s datasize"
      "secure_mode env w \<longrightarrow> (\<exists>st ctx1 vm1. \<not> EFI_ERROR st
          \<and> verify_buffer env w s256 s1 pool http atoi sbat (pe_in_protocol penv) b data datasize ctx vm = Some (Inr (st, vm1, ctx1)))"
      using verify_image_table [OF f h v [unfolded True]] by blast
    have "load_image p alloc penv b data ctx m = Some (Inr r)"
      using r v c True load_image_table [OF c(2), of p alloc penv b data m] by (auto simp add: handle_image_def bindO_eq)
    then show ?thesis using x by (rule that(2))
  qed
qed

lemma header_context: "is_file b data datasize \<Longrightarrow> read_header penv b data datasize = Inr ctx \<Longrightarrow> context_ok b data (unat datasize) ctx"
  using read_header_ctx [OF is_file_in_buf] unat_u32_bound [of datasize] by (fastforce simp add: is_file_def header_ctx_def)

lemma load_image_outcome:
  assumes f: "is_file b data datasize" and c: "context_ok b data (unat datasize) ctx"
    and r: "\<forall>s \<in> set (sections_of b ctx). raw_in_file s datasize" and h: "unat (c_SizeOfHeaders ctx) \<le> unat datasize"
    and a: "allocator alloc" and fit: "alloc_fits ctx"
    and res: "load_image p alloc penv b data ctx m = Some x"
  shows "x = Inl Fault \<and> rd32 b (c_RelocDir ctx + 4) \<noteq> Inr 0
    \<or> (\<exists>l. x = Inr l \<and> (lr_pages l = None \<and> lr_status l \<noteq> EFI_SUCCESS
         \<or> (\<exists>buffer. outcome (load_ok p penv b ctx buffer (snd (update_mem_attrs p m buffer (ucast (alloc_size ctx))
              (MEM_ATTR_R OR MEM_ATTR_W) MEM_ATTR_X))) l)))"
proof (cases "alloc (unat (alloc_size ctx) div 4096)")
  case None
  then show ?thesis using res by (auto simp add: load_image_def)
next
  case (Some img)
  have n: "unat (c_ImageSize ctx) < 2 ^ 32" using c by (simp add: context_ok_def)
  let ?buf = "image_buffer ctx (mb_base img)"
  have bo: "buffer_ok img ?buf ctx" by (rule alloc_buffer_ok [OF a Some n fit])
  have "load_sections p penv b data ctx ?buf (snd (update_mem_attrs p m ?buf (ucast (alloc_size ctx))
      (MEM_ATTR_R OR MEM_ATTR_W) MEM_ATTR_X)) img = Some x"
    using res Some by (simp add: load_image_def Let_def)
  from load_sections_outcome [OF f c r bo h this] show ?thesis by blast
qed

section \<open>Properties\<close>

text \<open>
  The two translations of page attributes are inverse to each other: shim's attributes are
  permissions, those of UEFI protections.
\<close>

theorem mem_attrs_round_trip:
  "uefi_mem_attrs_to_shim_mem_attrs (shim_mem_attrs_to_uefi_mem_attrs a) = a AND (MEM_ATTR_R OR MEM_ATTR_W OR MEM_ATTR_X)
   \<and> shim_mem_attrs_to_uefi_mem_attrs (uefi_mem_attrs_to_shim_mem_attrs a)
     = a AND (EFI_MEMORY_RP OR EFI_MEMORY_RO OR EFI_MEMORY_XP)"
  using attr_round_trip [of a] by (simp add: mem_attr_defs)

text \<open>
  With a protocol that works as documented, an \<open>update_mem_attrs\<close> that sets some
  permissions and clears the others leaves the pages of the range with exactly these
  permissions, and every other page as it was.
\<close>

theorem update_mem_attrs_exact:
  assumes "attr_protocol p attrs" and "\<not> EFI_ERROR (fst (update_mem_attrs p m addr sz s (NOT s AND 7)))"
    and "IS_PAGE_ALIGNED addr" and "IS_PAGE_ALIGNED sz" and "sz \<noteq> 0"
  shows "page_attrs attrs (snd (update_mem_attrs p m addr sz s (NOT s AND 7))) pg
     = (if pg \<in> pages addr sz then s AND 7 else page_attrs attrs m pg)"
  using assms by (intro update_mem_attrs_ok) simp_all

text \<open>A protocol over a page table.\<close>

definition demo_attr_proto :: "(nat \<Rightarrow> u64) mem_attr_proto" where
  "demo_attr_proto = \<lparr>ma_locate = EFI_SUCCESS, ma_proto = True,
     ma_get = (\<lambda>m addr sz. (EFI_SUCCESS, m (unat addr div 4096))),
     ma_set = (\<lambda>m addr sz a. (EFI_SUCCESS, \<lambda>pg. if pg \<in> pages addr sz then m pg OR a else m pg)),
     ma_clear = (\<lambda>m addr sz a. (EFI_SUCCESS, \<lambda>pg. if pg \<in> pages addr sz then m pg AND NOT a else m pg))\<rparr>"

lemma demo_attr_protocol: "attr_protocol demo_attr_proto (\<lambda>m. m)"
  by (simp add: attr_protocol_def demo_attr_proto_def)

lemma demo_update_ok: "\<not> EFI_ERROR (fst (update_mem_attrs demo_attr_proto m addr sz s c))"
  by (simp add: update_mem_attrs_def demo_attr_proto_def Let_def split: prod.splits)

lemma update_mem_attrs_exact_witness:
  "page_attrs (\<lambda>m. m) (snd (update_mem_attrs demo_attr_proto (\<lambda>_. 0) 0x2000 0x1000 6 1)) 2 = 6
   \<and> page_attrs (\<lambda>m. m) (snd (update_mem_attrs demo_attr_proto (\<lambda>_. 0) 0x2000 0x1000 6 1)) 3 = 7"
proof -
  have a: "IS_PAGE_ALIGNED 0x2000" "IS_PAGE_ALIGNED 0x1000" "(0x1000 :: u64) \<noteq> 0" by (simp_all add: IS_PAGE_ALIGNED_def)
  have c: "NOT (6 :: u64) AND 7 = 1" by simp
  note t = update_mem_attrs_exact [OF demo_attr_protocol demo_update_ok a, of "\<lambda>_. 0" 6, unfolded c]
  show ?thesis using t [of 2] t [of 3] by (simp add: pages_def page_attrs_def uefi_to_shim_bits)
qed

text \<open>
  C25. The sections of a file are loaded as the reference image says: on a file with an accepted
  header, whose raw data lies in the file, the copy loop touches nothing outside the file
  and the image, and when it succeeds the buffer holds each section that is read and kept, in
  order, its raw data followed by zeros, and each of them lies in the image and, under NX, is
  not both writable and executable.
\<close>

theorem copy_sections_image:
  assumes "is_file b data datasize" and "context_ok b data (unat datasize) ctx"
    and "\<forall>s \<in> set (sections_of b ctx). raw_in_file s datasize" and "buffer_ok img buffer ctx"
  shows "safely (copy_sections penv b data ctx buffer rb re (unat (c_NumberOfSections ctx)) 0 (img, 0, None))
     (\<lambda>(img', found, reloc).
        mb_data img' = section_image (mb_data b) (off img buffer) (sections_of b ctx) (mb_data img)
        \<and> found = length (filter (holds_entry ctx) (sections_of b ctx))
        \<and> (\<forall>s \<in> set (sections_of b ctx). section_loadable penv ctx s))"
  using copy_sections_ok [OF assms(1,2) _ assms(3,4), of 0 "unat (c_NumberOfSections ctx)" penv rb re 0 None]
  by (auto simp add: sections_from_0 copy_post_def elim!: safely_weaken)

text \<open>The demonstration file, and an image buffer of zeros.\<close>

definition demo_pages :: "nat \<Rightarrow> mbuf option" where
  "demo_pages n = (if n \<le> 16 then Some \<lparr>mb_base = 0x100000, mb_data = replicate (4096 * n) 0\<rparr> else None)"

lemma demo_allocator: "allocator demo_pages"
  by (simp add: allocator_def demo_pages_def)

definition demo_text :: section_header where
  "demo_text = \<lparr>sh_Name = [0x2e, 0x74, 0x65, 0x78, 0x74, 0, 0, 0], sh_VirtualSize = 0x1000, sh_VirtualAddress = 0x1000,
          sh_SizeOfRawData = 16, sh_PointerToRawData = 376, sh_PointerToRelocations = 0, sh_NumberOfRelocations = 0,
          sh_Characteristics = 0x60000020\<rparr>"

lemma demo_sections: "sections_of demo_pe demo_ctx = [demo_text]"
proof -
  have "unat (c_NumberOfSections demo_ctx) = 1" by (simp add: demo_ctx_def)
  moreover have "section_at demo_pe demo_ctx 0 = demo_text" by (simp add: section_at_def demo_text_def demo_section)
  ultimately show ?thesis by (simp add: sections_of_def)
qed

lemma demo_raw: "\<forall>s \<in> set (sections_of demo_pe demo_ctx). raw_in_file s 400"
  by (simp add: demo_sections raw_in_file_def demo_text_def)

definition demo_region :: mbuf where "demo_region = \<lparr>mb_base = 0x100000, mb_data = replicate 0x4000 0\<rparr>"

lemma demo_buffer_ok: "buffer_ok demo_region 0x100000 demo_ctx"
  by (simp add: buffer_ok_def in_buf_def off_def demo_region_def demo_ctx_def)

lemma demo_context: "context_ok demo_pe 0x10000 (unat (400 :: u32)) demo_ctx"
  using demo_context_ok by simp

lemma copy_sections_image_witness:
  "safely (copy_sections demo_pe_env demo_pe 0x10000 demo_ctx 0x100000 None None 1 0 (demo_region, 0, None))
     (\<lambda>(img', found, reloc). mb_data img'
        = place 0x1000 (replicate 16 0xC3 @ replicate 0xFF0 0) (replicate 0x4000 0))"
proof -
  have c: "copied demo_text"
    by (simp add: copied_def considered_def demo_text_def has_flag_def EFI_IMAGE_SCN_MEM_DISCARDABLE_def EFI_IMAGE_SCN_MEM_READ_def)
  have "section_contents (mb_data demo_pe) demo_text = replicate 16 0xC3 @ replicate 0xFF0 0"
    by (simp add: section_contents_def demo_text_def has_flag_def EFI_IMAGE_SCN_CNT_UNINITIALIZED_DATA_def Let_def
        demo_pe_def demo_pe_bytes_def)
  then have i: "section_image (mb_data demo_pe) (off demo_region 0x100000) (sections_of demo_pe demo_ctx) (mb_data demo_region)
      = place 0x1000 (replicate 16 0xC3 @ replicate 0xFF0 0) (replicate 0x4000 0)"
    using c by (simp add: section_image_def demo_sections off_def demo_region_def) (simp add: demo_text_def)
  have n: "unat (c_NumberOfSections demo_ctx) = 1" by (simp add: demo_ctx_def)
  show ?thesis
    using copy_sections_image [OF demo_is_file demo_context demo_raw demo_buffer_ok, of demo_pe_env None None, unfolded n i]
    by (rule safely_weaken) auto
qed

text \<open>
  C26. Every failure of \<open>handle_image\<close> after the pages of the image are allocated frees them,
  and a success keeps them, with an entry point inside the image that exactly one section
  holds and with every loaded section inside the image and not writable and executable under NX.
  It can only go wrong in the relocations.
\<close>

theorem handle_image_outcome:
  assumes "is_file b data datasize" and "read_header penv b data datasize = Inr ctx"
    and "allocator alloc" and "alloc_fits ctx"
    and "handle_image env w s256 s1 pool http atoi sbat penv tpm p alloc m b data datasize vm = Some (Inr (vm', r))"
  shows "if lr_status r = EFI_SUCCESS
     then lr_pages r \<noteq> None \<and> \<not> lr_freed r
        \<and> (\<exists>buffer. lr_ImageBase r = Some buffer \<and> lr_entry r = Some (buffer + c_EntryPoint ctx))
        \<and> c_EntryPoint ctx < c_ImageSize ctx
        \<and> length (filter (holds_entry ctx) (sections_of b ctx)) = 1
        \<and> (\<forall>s \<in> set (sections_of b ctx). section_loadable penv ctx s)
     else lr_pages r \<noteq> None \<longrightarrow> lr_freed r"
proof (rule handle_image_cases [OF assms(1,2,5)], goal_cases)
  case 2
  then show ?case
    using load_image_outcome [OF assms(1) header_context [OF assms(1,2)] 2(3,2) assms(3,4) 2(1)]
    by (auto simp add: outcome_def load_ok_def split: if_splits)
qed simp

text \<open>The demonstration file loads, on any store that holds no lists.\<close>

lemma demo_flags: "has_flag demo_text EFI_IMAGE_SCN_MEM_DISCARDABLE = False" "has_flag demo_text EFI_IMAGE_SCN_MEM_READ"
  "has_flag demo_text EFI_IMAGE_SCN_MEM_WRITE = False" "has_flag demo_text EFI_IMAGE_SCN_MEM_EXECUTE"
  "has_flag demo_text EFI_IMAGE_SCN_CNT_UNINITIALIZED_DATA = False"
  by (simp_all add: has_flag_def demo_text_def EFI_IMAGE_SCN_MEM_DISCARDABLE_def EFI_IMAGE_SCN_MEM_READ_def
      EFI_IMAGE_SCN_MEM_WRITE_def EFI_IMAGE_SCN_MEM_EXECUTE_def EFI_IMAGE_SCN_CNT_UNINITIALIZED_DATA_def)

lemma demo_load_image:
  "\<exists>r. load_image demo_attr_proto demo_pages demo_pe_env demo_pe 0x10000 demo_ctx m = Some (Inr r) \<and> lr_status r = EFI_SUCCESS
     \<and> lr_ImageBase r = Some 0x100000"
proof -
  have sz: "alloc_size demo_ctx = 0x4000" "image_buffer demo_ctx 0x100000 = 0x100000"
    by (simp_all add: alloc_size_def image_buffer_def align_value_def demo_ctx_def)
  have pg: "demo_pages 4 = Some demo_region" by (simp add: demo_pages_def demo_region_def)
  have ctx: "c_ImageSize demo_ctx = 0x3000" "c_EntryPoint demo_ctx = 0x1000" "unat (c_SizeOfHeaders demo_ctx) = 376"
    "unat (c_NumberOfSections demo_ctx) = 1" "c_RelocDir demo_ctx = 65776" "c_NumberOfRvaAndSizes demo_ctx = 16"
    "c_SizeOfHeaders demo_ctx = 376"
    by (simp_all add: demo_ctx_def)
  have rd: "rd32 demo_pe 65776 = Inr 0" "rd32 demo_pe 65780 = Inr 0"
    by (simp_all add: rd32_def load_def in_buf_def off_def demo_pe_def demo_pe_bytes_def le_nat_le_bytes)
  have hd: "load demo_pe 0x10000 376 = Inr (take 376 (mb_data demo_pe))"
    by (simp add: load_def in_buf_def off_def demo_length)
  let ?img = "demo_region\<lparr>mb_data := place 0 (take 376 (mb_data demo_pe)) (mb_data demo_region)\<rparr>"
  have st: "store demo_region 0x100000 (take 376 (mb_data demo_pe)) = Inr ?img"
    using store_place [OF demo_buffer_ok, of 0 "take 376 (mb_data demo_pe)"]
    by (simp add: ctx demo_length off_def demo_region_def)
  have b1: "buffer_ok ?img 0x100000 demo_ctx"
    by (intro buffer_ok_update [OF demo_buffer_ok] length_place) (simp add: demo_length demo_region_def)
  have s: "read_section demo_pe (section_ptr demo_ctx 0) = Inr demo_text" by (simp add: demo_section demo_text_def)
  have fields: "sh_VirtualAddress demo_text = 0x1000" "section_end demo_text = 0x1FFF" "sh_Name demo_text \<noteq> str8 ''.reloc'' @ [0, 0]"
    "sh_PointerToRawData demo_text = 376" "sh_VirtualSize demo_text = 0x1000"
    by (simp_all add: demo_text_def section_end_def str8_def)
  have si: "section_in_image demo_ctx demo_text" by (simp add: section_in_image_def fields ctx)
  have rf: "raw_in_file demo_text 400" using demo_raw by (simp add: demo_sections)
  obtain img2 where cp: "copy_section_data demo_pe 0x10000 demo_ctx demo_text 0x101000 ?img = Inr img2"
    using copy_section_data_image [OF demo_is_file rf b1 si] by (simp add: fields ctx)
  have cs: "copy_sections demo_pe_env demo_pe 0x10000 demo_ctx 0x100000 rb re 1 0 (?img, 0, None) = Inr (img2, 1, None)" for rb re
    using cp by (simp add: s copy_section_def demo_flags fields ctx ImageAddress_def checked_add_def ptr_val_def
        bind_guardR check_reloc_section_def orelse_status_def)
  have ia: "ImageAddress 0x100000 0x3000 0x1000 = Some 0x101000" by (simp add: ImageAddress_def checked_add_def)
  have ls: "load_sections demo_attr_proto demo_pe_env demo_pe 0x10000 demo_ctx 0x100000 m' demo_region
      = Some (finish_load demo_attr_proto demo_pe demo_ctx 0x100000 0x101000 m' 1 img2)" for m'
  proof -
    have hs: "bindR (load demo_pe 0x10000 376) (store demo_region 0x100000) = Inr ?img" by (simp only: hd bindR_Inr st)
    have dir: "bindR (rd32 demo_pe 65776) (\<lambda>va. bindR (rd32 demo_pe (65776 + 4)) (\<lambda>sz. Inr (va, sz))) = Inr (0, 0)"
      by (simp add: rd)
    show ?thesis unfolding load_sections_def ctx(1-6) hs sum.case ia option.case dir prod.case cs by simp
  qed
  have base: "mb_base demo_region = 0x100000" by (simp add: demo_region_def)
  have "\<exists>r. finish_load demo_attr_proto demo_pe demo_ctx 0x100000 0x101000 m' 1 img2 = Inr r \<and> lr_status r = EFI_SUCCESS
     \<and> lr_ImageBase r = Some 0x100000" for m'
    by (simp add: finish_load_def ctx s)
  then show ?thesis
    by (simp add: load_image_def sz pg ls base)
qed

text \<open>A store with \<open>SecureBoot\<close> set, and one without; the digests of the file are allowed.\<close>

definition demo_secure_store :: mock_state where
  "demo_secure_store = empty_store\<lparr>mock_variables := [\<lparr>mv_name = ''SecureBoot'', mv_guid = GV_GUID, mv_attrs = 6, mv_data = [1]\<rparr>]\<rparr>"

lemma demo_secure_good: "mock_good demo_secure_store"
  by (simp add: mock_good_def demo_secure_store_def empty_store_def)

lemma demo_secure_vars: "mock_vars demo_secure_store k = (if k = (''SecureBoot'', GV_GUID) then Some (6, [1]) else None)"
  by (auto simp add: mock_vars_def demo_secure_store_def mv_key_def)

lemma demo_secure_dbs: "dbs_ok demo_verify_env (mock_vars demo_secure_store) demo_dbs"
  using demo_list_ok
  by (simp add: dbs_ok_def demo_verify_env_def demo_dbs_def demo_secure_vars var_data_def esls_bytes_def)

lemma demo_secure_mode: "secure_mode demo_verify_env demo_secure_store"
proof -
  have "gv_data (GetVariable host_rt demo_secure_store ''SecureBoot'' GV_GUID True 1) = [1]
    \<and> gv_status (GetVariable host_rt demo_secure_store ''SecureBoot'' GV_GUID True 1) = EFI_SUCCESS"
    using mock.get_fits [OF demo_secure_good, of "''SecureBoot''" GV_GUID 6 "[1]" 1] by (simp add: demo_secure_vars)
  moreover have "gv_status (GetVariable host_rt demo_secure_store ''SetupMode'' GV_GUID True 1) = EFI_NOT_FOUND"
    using mock.get_missing [OF demo_secure_good, of "''SetupMode''" GV_GUID True 1] by (simp add: demo_secure_vars)
  ultimately show ?thesis
    by (simp add: secure_mode_def variable_is_secureboot_def variable_is_setupmode_def variable_byte_def Let_def demo_verify_env_def)
qed

lemma demo_handle_image:
  assumes "mock_good w" and "dbs_ok demo_verify_env (mock_vars w) demo_dbs"
  shows "\<exists>vm' r. handle_image demo_verify_env w (demo_sha256 8) demo_sha1 (\<lambda>_. True) EFI_NOT_FOUND (\<lambda>_. 0) [] demo_pe_env None
      demo_attr_proto demo_pages m demo_pe 0x10000 400 VERIFIED_BY_NOTHING = Some (Inr (vm', r)) \<and> lr_status r = EFI_SUCCESS
      \<and> lr_ImageBase r = Some 0x100000"
proof -
  have g: "generate_hash (demo_sha256 8) demo_sha1 (\<lambda>_. True) demo_pe 0x10000 400 demo_ctx = Inr (demo_hash 8, replicate 20 0, demo_ctx)"
    unfolding demo_sha256_def demo_sha1_def using demo_generate_hash [of "\<lambda>_. demo_hash 8" "\<lambda>_. replicate 20 0"] by simp
  obtain vm' where v: "verify_buffer demo_verify_env w (demo_sha256 8) demo_sha1 (\<lambda>_. True) EFI_NOT_FOUND (\<lambda>_. 0) []
      (pe_in_protocol demo_pe_env) demo_pe 0x10000 400 demo_ctx VERIFIED_BY_NOTHING = Some (Inr (EFI_SUCCESS, vm', demo_ctx))"
    using demo_verify_buffer [OF assms] by blast
  have "\<exists>vm'. verify_image demo_verify_env w (demo_sha256 8) demo_sha1 (\<lambda>_. True) EFI_NOT_FOUND (\<lambda>_. 0) [] demo_pe_env None
      demo_pe 0x10000 400 VERIFIED_BY_NOTHING = Some (Inr (EFI_SUCCESS, vm', Some demo_ctx))"
    using v g by (simp add: verify_image_def demo_read_header)
  then show ?thesis using demo_load_image [of m] by (auto simp add: handle_image_def)
qed

lemma demo_alloc_fits: "alloc_fits demo_ctx"
  by (simp add: alloc_fits_def demo_ctx_def)

lemma handle_image_outcome_witness:
  "\<exists>vm' r. handle_image demo_verify_env demo_secure_store (demo_sha256 8) demo_sha1 (\<lambda>_. True) EFI_NOT_FOUND (\<lambda>_. 0) [] demo_pe_env None
      demo_attr_proto demo_pages (\<lambda>_. 0) demo_pe 0x10000 400 VERIFIED_BY_NOTHING = Some (Inr (vm', r))
      \<and> lr_entry r = Some 0x101000 \<and> \<not> lr_freed r"
proof -
  obtain vm' r where r: "handle_image demo_verify_env demo_secure_store (demo_sha256 8) demo_sha1 (\<lambda>_. True) EFI_NOT_FOUND (\<lambda>_. 0) []
      demo_pe_env None demo_attr_proto demo_pages (\<lambda>_. 0) demo_pe 0x10000 400 VERIFIED_BY_NOTHING = Some (Inr (vm', r))"
    and s: "lr_status r = EFI_SUCCESS" "lr_ImageBase r = Some 0x100000"
    using demo_handle_image [OF demo_secure_good demo_secure_dbs, of "\<lambda>_. 0"] by blast
  have e: "c_EntryPoint demo_ctx = 0x1000" by (simp add: demo_ctx_def)
  show ?thesis
    using handle_image_outcome [OF demo_is_file demo_read_header demo_allocator demo_alloc_fits r] r s by (simp add: e)
qed

text \<open>
  In secure mode \<open>handle_image\<close> succeeds only on a file that is trusted by its digest, a
  signature or the remote check, is not denied, and whose SBAT section passes.
\<close>

theorem handle_image_secure:
  assumes "mock_good w" and "ve_rt env = host_rt" and "\<forall>n. ve_pool env n" and "dbs_ok env (mock_vars w) d"
    and "is_file b data datasize" and "datasize < 0x80000000" and "read_header penv b data datasize = Inr ctx"
    and "computes s256 sha256" and "computes s1 sha1" and "\<forall>m. length (sha256 m) = 32" and "\<forall>m. length (sha1 m) = 20"
    and "handle_image env w s256 s1 pool http atoi sbat penv tpm p alloc m b data datasize vm = Some (Inr (vm', r))"
    and "lr_status r = EFI_SUCCESS" and "secure_mode env w"
  shows "trusted env d b data datasize ctx http (sha256 (signed_content b data ctx)) (sha1 (signed_content b data ctx))
     \<and> (\<exists>sec st. sbat_section_of b ctx sec \<and> verify_sbat_section pool atoi sbat (pe_in_protocol penv) sec = Inr st \<and> \<not> EFI_ERROR st)"
proof (rule handle_image_cases [OF assms(5,7,12)], goal_cases)
  case 2
  then obtain st ctx1 vm1 where v: "\<not> EFI_ERROR st"
    "verify_buffer env w s256 s1 pool http atoi sbat (pe_in_protocol penv) b data datasize ctx vm = Some (Inr (st, vm1, ctx1))"
    using assms(14) by blast
  from buffer_accepts [OF assms(1-11) v(2,1)] v(1) show ?case by blast
qed (use assms(13) in simp)

lemma handle_image_secure_witness:
  "trusted demo_verify_env demo_dbs demo_pe 0x10000 400 demo_ctx EFI_NOT_FOUND (demo_hash 8) (replicate 20 0)"
proof -
  obtain vm' r where r: "handle_image demo_verify_env demo_secure_store (demo_sha256 8) demo_sha1 (\<lambda>_. True) EFI_NOT_FOUND (\<lambda>_. 0) []
      demo_pe_env None demo_attr_proto demo_pages (\<lambda>_. 0) demo_pe 0x10000 400 VERIFIED_BY_NOTHING = Some (Inr (vm', r))"
    and s: "lr_status r = EFI_SUCCESS"
    using demo_handle_image [OF demo_secure_good demo_secure_dbs, of "\<lambda>_. 0"] by blast
  have n: "400 < (0x80000000 :: u32)" by simp
  from handle_image_secure [OF demo_secure_good demo_env_facts(1,2) demo_secure_dbs demo_is_file n
        demo_read_header demo_sha_facts(1) demo_sha_facts(2) demo_sha_facts(3) demo_sha_facts(4) r s demo_secure_mode]
  show ?thesis by simp
qed

text \<open>What \<open>section_permissions\<close> asks for.\<close>

definition section_attrs :: "section_header \<Rightarrow> u64" where
  "section_attrs s = MEM_ATTR_R OR (if has_flag s EFI_IMAGE_SCN_MEM_WRITE then MEM_ATTR_W else 0)
     OR (if has_flag s EFI_IMAGE_SCN_MEM_EXECUTE then MEM_ATTR_X else 0)"

lemma section_permissions_update:
  "considered s \<Longrightarrow> \<exists>base len. section_permissions p ctx buffer s m
     = snd (update_mem_attrs p m base len (section_attrs s) (NOT (section_attrs s) AND 7))"
  "\<not> considered s \<Longrightarrow> section_permissions p ctx buffer s m = m"
  by (auto simp add: section_permissions_def section_attrs_def considered_def mem_attr_defs Let_def)

lemma section_permissions_wx:
  assumes p: "attr_protocol p attrs" and s: "considered s \<longrightarrow> \<not> (has_flag s EFI_IMAGE_SCN_MEM_WRITE \<and> has_flag s EFI_IMAGE_SCN_MEM_EXECUTE)"
    and w: "\<not> wx attrs m pg"
  shows "\<not> wx attrs (section_permissions p ctx buffer s m) pg"
proof (cases "considered s")
  case True
  then have "\<not> (bit (section_attrs s) 1 \<and> bit (section_attrs s) 0)"
    using s by (auto simp add: section_attrs_def mem_attr_defs)
  then show ?thesis
    using update_mem_attrs_wx [OF p refl _ w, of "section_attrs s"] section_permissions_update(1) [OF True, of p ctx buffer m] by auto
qed (use w in \<open>simp add: section_permissions_update(2)\<close>)

lemma fold_permissions_wx:
  assumes "attr_protocol p attrs"
    and "\<forall>s \<in> set ss. considered s \<longrightarrow> \<not> (has_flag s EFI_IMAGE_SCN_MEM_WRITE \<and> has_flag s EFI_IMAGE_SCN_MEM_EXECUTE)"
    and "\<not> wx attrs m pg"
  shows "\<not> wx attrs (fold (section_permissions p ctx buffer) ss m) pg"
  using assms(2,3)
proof (induction ss arbitrary: m)
  case (Cons s ss)
  then show ?case using section_permissions_wx [OF assms(1), of s m pg ctx buffer] by simp
qed simp



text \<open>
  NX is not required of discardable sections: one that is writable and executable passes the
  copy loop under NX, and its pages are then made writable and executable.
\<close>

theorem discardable_section_rwx:
  "\<exists>s. has_flag s EFI_IMAGE_SCN_MEM_DISCARDABLE \<and> pe_require_nx demo_pe_env
     \<and> copy_section demo_pe_env demo_pe 0x10000 demo_ctx 0x100000 None None s (demo_region, 0, None) = Inr (demo_region, 1, None)
     \<and> wx (\<lambda>m. m) (section_permissions demo_attr_proto demo_ctx 0x100000 s (\<lambda>_. EFI_MEMORY_XP)) 0x101"
proof -
  let ?s = "demo_text\<lparr>sh_Characteristics := 0xE2000020\<rparr>"
  have f: "has_flag ?s EFI_IMAGE_SCN_MEM_DISCARDABLE" "has_flag ?s EFI_IMAGE_SCN_MEM_READ"
    "has_flag ?s EFI_IMAGE_SCN_MEM_WRITE" "has_flag ?s EFI_IMAGE_SCN_MEM_EXECUTE"
    by (simp_all add: has_flag_def EFI_IMAGE_SCN_MEM_DISCARDABLE_def EFI_IMAGE_SCN_MEM_READ_def
        EFI_IMAGE_SCN_MEM_WRITE_def EFI_IMAGE_SCN_MEM_EXECUTE_def)
  have nx: "pe_require_nx demo_pe_env" by (simp add: demo_pe_env_def)
  have fields: "sh_VirtualAddress ?s = 0x1000" "section_end ?s = 0x1FFF" "sh_Name ?s \<noteq> str8 ''.reloc'' @ [0, 0]" "sh_VirtualSize ?s = 0x1000"
    and ctx: "c_ImageSize demo_ctx = 0x3000" "c_EntryPoint demo_ctx = 0x1000"
    by (simp_all add: demo_text_def section_end_def str8_def demo_ctx_def)
  have "copy_section demo_pe_env demo_pe 0x10000 demo_ctx 0x100000 None None ?s (demo_region, 0, None) = Inr (demo_region, 1, None)"
    using f fields by (simp add: copy_section_def ctx ImageAddress_def checked_add_def ptr_val_def bind_guardR check_reloc_section_def)
  moreover have "section_permissions demo_attr_proto demo_ctx 0x100000 ?s (\<lambda>_. EFI_MEMORY_XP)
      = snd (update_mem_attrs demo_attr_proto (\<lambda>_. EFI_MEMORY_XP) 0x101000 0x1000 7 0)"
    using f fields by (simp add: section_permissions_def ctx ImageAddress_def checked_add_def ptr_val_def mem_attr_defs align_value_def)
  moreover have "page_attrs (\<lambda>m. m) (snd (update_mem_attrs demo_attr_proto (\<lambda>_. EFI_MEMORY_XP) 0x101000 0x1000 7 0)) 0x101 = 7"
    by (subst update_mem_attrs_ok [OF demo_attr_protocol demo_update_ok]) (simp_all add: IS_PAGE_ALIGNED_def pages_def)
  ultimately show ?thesis using f(1) nx by (intro exI [of _ ?s]) (simp add: wx_def mem_attr_defs)
qed

text \<open>
  The allocation size of an image is computed in 32 bits: it holds the image and the
  alignment exactly when these and a page do not reach 4 gigabytes, and is smaller than the
  image otherwise.
\<close>

theorem alloc_size_bounds:
  assumes "unat (c_ImageSize ctx) < 2 ^ 32" and "unat (c_SectionAlignment ctx) \<le> 2 ^ 31"
  shows "if unat (c_ImageSize ctx) + unat (c_SectionAlignment ctx) + 4095 < 2 ^ 32
     then unat (c_ImageSize ctx) + unat (c_SectionAlignment ctx) \<le> unat (alloc_size ctx)
     else unat (alloc_size ctx) < unat (c_ImageSize ctx)"
proof (cases "alloc_fits ctx")
  case True
  then have s: "unat (c_ImageSize ctx) + unat (c_SectionAlignment ctx) + 4095 < 2 ^ 32" by (simp add: alloc_fits_def)
  have "unat (c_ImageSize ctx) + unat (c_SectionAlignment ctx)
      \<le> (unat (c_ImageSize ctx) + unat (c_SectionAlignment ctx) + 4095) div 4096 * 4096" by linarith
  moreover have "(unat (c_ImageSize ctx) + unat (c_SectionAlignment ctx) + 4095) div 4096 * 4096 < 2 ^ 32" using s by linarith
  ultimately show ?thesis using s alloc_size_unat [OF assms(1)] by simp
next
  case False
  then show ?thesis using alloc_size_wraps [OF assms(1) False assms(2)] by (simp add: alloc_fits_def)
qed

lemma alloc_size_bounds_witness:
  "unat (alloc_size (demo_ctx\<lparr>c_ImageSize := 0xFFFFF001\<rparr>)) < 0xFFFFF001"
  using alloc_size_bounds [of "demo_ctx\<lparr>c_ImageSize := 0xFFFFF001\<rparr>"] by (simp add: demo_ctx_def)

end
