(* ===== verification/Ucs2.thy ===== *)
theory Ucs2
  imports ShimPrelude "HOL-Library.Sublist"
begin

text \<open>
  include/ucs2.h: the comparison and search routines on strings of 16-bit characters. A string is
  a list of characters up to and beyond its NUL; running off its end is a fault.
\<close>

section \<open>The code\<close>

type_synonym wstr = "u16 list"

text \<open>A wide string literal, and the bytes of a wide string in memory; neither has the NUL.\<close>

definition wide :: "string \<Rightarrow> wstr" where
  "wide s = map (\<lambda>c. word_of_nat (of_char c)) s"

definition wbytes :: "string \<Rightarrow> bytes" where
  "wbytes s = concat (map (\<lambda>c. le_bytes 2 (of_char c)) s)"

lemma length_wbytes [simp]: "length (wbytes s) = 2 * length s"
  by (induction s) (simp_all add: wbytes_def)

definition upcase :: "u16 \<Rightarrow> u16" where
  "upcase c = (if 97 \<le> c \<and> c \<le> 122 then c - 32 else c)"

fun StrCaseCmp :: "wstr \<Rightarrow> wstr \<Rightarrow> int res" where
  "StrCaseCmp (a # as) (b # bs) =
     (if a = 0 \<or> b = 0 then Inr (int (unat b) - int (unat a))
      else if upcase a \<noteq> upcase b then Inr (int (unat (upcase b)) - int (unat (upcase a)))
      else StrCaseCmp as bs)"
| "StrCaseCmp _ _ = Inl Fault"

fun StrnCaseCmp :: "wstr \<Rightarrow> wstr \<Rightarrow> nat \<Rightarrow> int res" where
  "StrnCaseCmp _ _ 0 = Inr 0"
| "StrnCaseCmp (a # as) (b # bs) (Suc n) =
     (if a = 0 \<or> b = 0 then Inr (int (unat b) - int (unat a))
      else if upcase a \<noteq> upcase b then Inr (int (unat (upcase b)) - int (unat (upcase a)))
      else StrnCaseCmp as bs n)"
| "StrnCaseCmp _ _ (Suc n) = Inl Fault"

fun in_reject :: "u16 \<Rightarrow> wstr \<Rightarrow> bool res" where
  "in_reject c [] = Inl Fault"
| "in_reject c (r # rs) = (if r = 0 then Inr False else if r = c then Inr True else in_reject c rs)"

fun StrCSpn :: "wstr \<Rightarrow> wstr \<Rightarrow> nat res" where
  "StrCSpn [] reject = Inl Fault"
| "StrCSpn (c # s) reject =
     (if c = 0 then Inr 0
      else bindR (in_reject c reject) (\<lambda>found.
        if found then Inr 0 else bindR (StrCSpn s reject) (\<lambda>n. Inr (Suc n))))"

section \<open>What the routines compute\<close>

lemma upcase_0 [simp]: "upcase 0 = 0"
  by (simp add: upcase_def)

lemma upcase_eq_0 [simp]: "upcase c = 0 \<longleftrightarrow> c = 0"
proof -
  have "c - 32 \<noteq> 0" if "97 \<le> c"
  proof
    assume "c - 32 = 0"
    then have "c = 32" by simp
    then show False using that by simp
  qed
  then show ?thesis by (auto simp add: upcase_def)
qed

lemma StrCaseCmp_eq:
  assumes "0 \<notin> set s" and "0 \<notin> set t"
  shows "\<exists>d. StrCaseCmp (s @ 0 # x) (t @ 0 # y) = Inr d \<and> (d = 0 \<longleftrightarrow> map upcase s = map upcase t)"
  using assms
proof (induction s arbitrary: t)
  case Nil
  then show ?case by (cases t) (auto simp add: unat_eq_zero simp del: of_nat_unat)
next
  case (Cons a s)
  show ?case
  proof (cases t)
    case Nil
    then show ?thesis using Cons.prems by (auto simp add: unat_eq_zero simp del: of_nat_unat)
  next
    case (Cons b u)
    then show ?thesis using Cons.IH [of u] \<open>0 \<notin> set (a # s)\<close> \<open>0 \<notin> set t\<close>
      by (auto simp add: word_unat_eq_iff [symmetric] simp del: of_nat_unat)
  qed
qed

lemma StrnCaseCmp_prefix:
  assumes "0 \<notin> set s" and "0 \<notin> set t"
  shows "\<exists>d. StrnCaseCmp (s @ 0 # x) (t @ 0 # y) (length s) = Inr d
     \<and> (d = 0 \<longleftrightarrow> prefix (map upcase s) (map upcase t))"
  using assms
proof (induction s arbitrary: t)
  case (Cons a s)
  show ?case
  proof (cases t)
    case Nil
    then show ?thesis using Cons.prems by (auto simp add: unat_eq_zero simp del: of_nat_unat)
  next
    case (Cons b u)
    then show ?thesis using Cons.IH [of u] \<open>0 \<notin> set (a # s)\<close> \<open>0 \<notin> set t\<close>
      by (auto simp add: word_unat_eq_iff [symmetric] simp del: of_nat_unat)
  qed
qed simp

lemma in_reject_eq: "0 \<notin> set r \<Longrightarrow> c \<noteq> 0 \<Longrightarrow> in_reject c (r @ 0 # x) = Inr (c \<in> set r)"
  by (induction r) auto

lemma StrCSpn_eq:
  assumes "0 \<notin> set s" and "0 \<notin> set r"
  shows "StrCSpn (s @ 0 # x) (r @ 0 # y) = Inr (length (takeWhile (\<lambda>c. c \<notin> set r) s))"
  using assms by (induction s) (auto simp add: in_reject_eq)

end
