(* ===== verification/LoadOptions.thy ===== *)
theory LoadOptions
  imports Ucs2
begin

text \<open>
  load-options.c: the path of the second stage, and the parser of the load options. The options
  are a byte buffer; pointers into it are offsets, \<open>None\<close> is the null pointer. \<open>dp\<close> is
  the text of the loaded image's device path, \<open>DevicePathToStr(li->FilePath)\<close>, without its NUL,
  or \<open>None\<close>. The string functions of the firmware library (\<open>StrLen\<close>, \<open>StrSize\<close>,
  \<open>StrnCmp\<close>, \<open>StrDuplicate\<close>, \<open>StrCat\<close>) are the list operations they denote.
\<close>

section \<open>The code: paths\<close>

definition BACKSLASH :: u16 where "BACKSLASH = 0x5C"
definition SLASH :: u16 where "SLASH = 0x2F"

text \<open>
  The loop that marks all but the first separator of a run with \<open>/\<close> and finds the last run,
  for \<open>i\<close> down to 1; the string is the buffer with its NUL, so every index is in it.
\<close>

fun mark_separators :: "wstr \<Rightarrow> nat \<Rightarrow> int \<Rightarrow> wstr \<times> int" where
  "mark_separators b 0 lst = (b, lst)"
| "mark_separators b (Suc i) lst =
     (if b ! Suc i = BACKSLASH \<and> b ! i = BACKSLASH then mark_separators (b[Suc i := SLASH]) i lst
      else if lst = -1 \<and> b ! Suc i = BACKSLASH then mark_separators b i (int (Suc i))
      else mark_separators b i lst)"

definition boot_directory :: "wstr \<Rightarrow> wstr" where
  "boot_directory bootpath =
     (let b = map (\<lambda>c. if c = SLASH then BACKSLASH else c) bootpath @ [0];
          (b, last) = mark_separators b (length bootpath) (-1);
          last = (if last = -1 \<and> b ! 0 = BACKSLASH then 0 else last);
          dir = take (nat (last + 1)) b
      in if 0 < last then filter (\<lambda>c. c \<noteq> SLASH) dir else dir)"

definition base_name :: "wstr \<Rightarrow> wstr" where
  "base_name p = rev (takeWhile (\<lambda>c. c \<noteq> BACKSLASH) (rev p))"

definition generate_path_from_image_path ::
  "(nat \<Rightarrow> bool) \<Rightarrow> wstr option \<Rightarrow> wstr \<Rightarrow> wstr res"
where
  "generate_path_from_image_path pool dp ImagePath =
     (if 5 < 2 * (length ImagePath + 1) \<and> take 5 ImagePath = wide [CHR 0x5C, CHR ''E'', CHR ''F'', CHR ''I'', CHR 0x5C] then
        bindR (guardR (pool (2 * (length ImagePath + 1))) EFI_OUT_OF_RESOURCES) (\<lambda>_. Inr ImagePath)
      else (case dp of
        None \<Rightarrow> Inl Fault
      | Some bootpath \<Rightarrow>
          let dir = boot_directory bootpath; base = base_name ImagePath in
          bindR (guardR (pool (2 * (length dir + 1) + 2 * (length base + 1))) EFI_OUT_OF_RESOURCES) (\<lambda>_.
          bindR (StrnCaseCmp (dir @ [0]) (base @ [0]) (length dir)) (\<lambda>d.
            Inr ((if d \<noteq> 0 then dir else []) @ base)))))"

definition is_our_path :: "(nat \<Rightarrow> bool) \<Rightarrow> wstr option \<Rightarrow> wstr \<Rightarrow> bool res" where
  "is_our_path pool dp path =
     (case dp of
        None \<Rightarrow> Inr False
      | Some dppath \<Rightarrow>
          (case generate_path_from_image_path pool dp path of
             Inl Fault \<Rightarrow> Inl Fault
           | Inl (Status st) \<Rightarrow> Inr True
           | Inr PathName \<Rightarrow>
               bindR (StrnCaseCmp (dppath @ [0]) (PathName @ [0]) (length dppath)) (\<lambda>d. Inr (d = 0))))"

section \<open>The code: the fields of a load option\<close>

text \<open>
  The end of the description: \<open>k\<close> bytes are left before \<open>limit\<close>; the result is
  \<open>i\<close> where the loop stops.
\<close>

fun description_loop :: "bytes \<Rightarrow> nat \<Rightarrow> nat \<Rightarrow> nat \<Rightarrow> nat res" where
  "description_loop buf cur 0 i = Inr i"
| "description_loop buf cur (Suc k) i =
     bindR (idx buf (cur + i)) (\<lambda>c.
       if odd i then (if c \<noteq> 0 then Inl (Status EFI_INVALID_PARAMETER) else description_loop buf cur k (Suc i))
       else if c = 0 then
         (if k = 0 then Inl (Status EFI_INVALID_PARAMETER)
          else bindR (idx buf (cur + Suc i)) (\<lambda>c'.
            if c' \<noteq> 0 then Inl (Status EFI_INVALID_PARAMETER) else Inr (Suc i)))
       else description_loop buf cur k (Suc i))"

text \<open>The device path, in 32-bit unsigned arithmetic: \<open>limit - i\<close> wraps around once \<open>i\<close> has passed it.\<close>

partial_function (option) device_path_loop :: "bytes \<Rightarrow> nat \<Rightarrow> u32 \<Rightarrow> u32 \<Rightarrow> u32 res option" where
  "device_path_loop buf cur limit i =
     (if 4 \<le> limit - i then
        (case bindR (idx buf (cur + unat i)) (\<lambda>t. bindR (idx buf (cur + unat (i + 1))) (\<lambda>st.
              bindR (idx buf (cur + unat (i + 3))) (\<lambda>hi. bindR (idx buf (cur + unat (i + 2))) (\<lambda>lo.
                Inr (t, st, ucast hi * 256 + ucast lo :: u32))))) of
           Inl e \<Rightarrow> Some (Inl e)
         | Inr (t, st, len) \<Rightarrow>
             if len < 4 \<or> limit < len then Some (Inl (Status EFI_INVALID_PARAMETER))
             else if t = 0x7f \<and> st = 0xff then
               (if len \<noteq> 4 then Some (Inl (Status EFI_INVALID_PARAMETER)) else Some (Inr (i + len)))
             else device_path_loop buf cur limit (i + len))
      else Some (Inr i))"

declare device_path_loop.simps [code]

text \<open>The optional data of the load option of \<open>data_size\<close> bytes at \<open>start\<close>: where, and its size.\<close>

definition get_load_option_optional_data :: "bytes \<Rightarrow> nat \<Rightarrow> u32 \<Rightarrow> (nat option \<times> u32) res option" where
  "get_load_option_optional_data buf start data_size =
     (if data_size < 12 then Some (Inl (Status EFI_INVALID_PARAMETER))
      else (case get_le buf (start + 4) 2 of Inl e \<Rightarrow> Some (Inl e) | Inr fplistlen \<Rightarrow>
        if unat (data_size - 10) < fplistlen then Some (Inl (Status EFI_INVALID_PARAMETER))
        else let cur = start + 6; limit = unat data_size - 6 - fplistlen in
          (case description_loop buf cur limit 0 of Inl e \<Rightarrow> Some (Inl e) | Inr i \<Rightarrow>
             let i = i + 1 in
             if limit < i then Some (Inl (Status EFI_INVALID_PARAMETER))
             else if i = limit then Some (Inr (None, 0))
             else let cur = cur + i; limit = word_of_nat limit - word_of_nat i + word_of_nat fplistlen in
               (case device_path_loop buf cur limit 0 of None \<Rightarrow> None
                | Some (Inl e) \<Rightarrow> Some (Inl e)
                | Some (Inr i) \<Rightarrow>
                    if unat i \<noteq> fplistlen then Some (Inl (Status EFI_INVALID_PARAMETER))
                    else Some (Inr (Some (cur + unat i), limit - i))))))"

section \<open>The code: splitting the options\<close>

fun skip_spaces :: "bytes \<Rightarrow> nat \<Rightarrow> nat \<Rightarrow> nat res" where
  "skip_spaces buf 0 start = Inr start"
| "skip_spaces buf (Suc k) start =
     bindR (get_le buf start 2) (\<lambda>c. if c \<noteq> 32 then Inr start else skip_spaces buf k (start + 2))"

fun find_argument_end :: "bytes \<Rightarrow> nat \<Rightarrow> nat \<Rightarrow> nat \<Rightarrow> nat option res" where
  "find_argument_end buf start 0 i = Inr None"
| "find_argument_end buf start (Suc k) i =
     bindR (get_le buf (start + 2 * i) 2) (\<lambda>c.
       if c = 32 \<or> c = 0 then Inr (Some i) else find_argument_end buf start k (Suc i))"

text \<open>
  The first argument, now with a NUL in the buffer, and what follows it; the sizes never go below
  zero. A null pointer is only followed when the size says there is a character.
\<close>

definition split_load_options ::
  "bytes \<Rightarrow> nat option \<Rightarrow> nat \<Rightarrow> (bytes \<times> (nat \<times> nat option \<times> nat) option) res"
where
  "split_load_options buf inp in_size =
     (case inp of
        None \<Rightarrow> if in_size div 2 = 0 then Inr (buf, None) else Inl Fault
      | Some p \<Rightarrow>
          bindR (skip_spaces buf (in_size div 2) p) (\<lambda>start.
          let in_size = in_size - (start - p) in
          bindR (find_argument_end buf start (in_size div 2) 0) (\<lambda>e.
          case e of
            None \<Rightarrow> Inr (buf, None)
          | Some i \<Rightarrow>
              bindR (upd_idx buf (start + 2 * i) 0) (\<lambda>buf. bindR (upd_idx buf (start + 2 * i + 1) 0) (\<lambda>buf.
              let skip = i + 1; remaining_size = in_size - skip * 2 in
              Inr (buf, Some (start, if 0 < remaining_size then Some (start + 2 * skip) else None, remaining_size)))))))"

section \<open>The code: parsing the options\<close>

definition BDS_GUID :: guid where
  "BDS_GUID = mk_guid 0x8108ac4e 0x9f11 0x4d59 [0x85, 0x0e, 0xe2, 0x1a, 0x52, 0x2c, 0x59, 0xb2]"

text \<open>The string at \<open>p\<close>, up to its NUL; \<open>k\<close> bounds the characters of the buffer.\<close>

fun string_at :: "bytes \<Rightarrow> nat \<Rightarrow> nat \<Rightarrow> wstr res" where
  "string_at buf p 0 = Inl Fault"
| "string_at buf p (Suc k) =
     bindR (get_le buf p 2) (\<lambda>c. if c = 0 then Inr [] else bindR (string_at buf (p + 2) k) (\<lambda>s. Inr (word_of_nat c # s)))"

text \<open>
  \<open>li->LoadOptions\<close> and its size, and the globals \<open>second_stage\<close> (\<open>None\<close> while it is
  the default loader), \<open>load_options\<close> and its size.
\<close>

record load_options_state =
  lo_buf :: bytes
  lo_LoadOptions :: "nat option"
  lo_LoadOptionsSize :: u32
  second_stage :: "nat option"
  load_options :: "nat option"
  load_options_size :: u32

definition use_first_argument :: "load_options_state \<Rightarrow> load_options_state res" where
  "use_first_argument s =
     bindR (split_load_options (lo_buf s) (lo_LoadOptions s) (unat (lo_LoadOptionsSize s))) (\<lambda>(buf, r).
       let s = s\<lparr>lo_buf := buf\<rparr> in
       case r of
         None \<Rightarrow> Inr s
       | Some (arg, remaining, sz) \<Rightarrow>
           bindR (get_le buf arg 2) (\<lambda>c.
             let s = (if c \<noteq> 0 then s\<lparr>second_stage := Some arg\<rparr> else s)
             in Inr (s\<lparr>load_options := remaining, load_options_size := word_of_nat sz\<rparr>)))"

definition skip_own_path :: "(nat \<Rightarrow> bool) \<Rightarrow> wstr option \<Rightarrow> load_options_state \<Rightarrow> load_options_state res" where
  "skip_own_path pool dp s =
     bindR (split_load_options (lo_buf s) (lo_LoadOptions s) (unat (lo_LoadOptionsSize s))) (\<lambda>(buf, r).
       let s = s\<lparr>lo_buf := buf\<rparr> in
       case r of
         None \<Rightarrow> Inr s
       | Some (arg, remaining, sz) \<Rightarrow>
           bindR (string_at buf arg (length buf)) (\<lambda>path.
           bindR (is_our_path pool dp path) (\<lambda>ours.
             Inr (if ours then s\<lparr>lo_LoadOptions := remaining, lo_LoadOptionsSize := word_of_nat sz\<rparr> else s))))"

definition parse_load_options ::
  "(nat \<Rightarrow> bool) \<Rightarrow> wstr option \<Rightarrow> load_options_state \<Rightarrow> (efi_status \<times> load_options_state) res option"
where
  "parse_load_options pool dp s =
     (if odd (unat (lo_LoadOptionsSize s)) \<or> lo_LoadOptionsSize s = 0 then Some (Inr (EFI_SUCCESS, s))
      else (case lo_LoadOptions s of None \<Rightarrow> Some (Inl Fault) | Some p \<Rightarrow>
        (case (if 16 < lo_LoadOptionsSize s
               then bindR (get_bytes (lo_buf s) (p + unat (lo_LoadOptionsSize s - 16)) 16) (\<lambda>g.
                      Inr (if g = BDS_GUID then s\<lparr>lo_LoadOptionsSize := lo_LoadOptionsSize s - 16\<rparr> else s))
               else Inr s) of
           Inl e \<Rightarrow> Some (Inl e)
         | Inr s \<Rightarrow>
        (case get_le (lo_buf s) p 2 of
           Inl e \<Rightarrow> Some (Inl e)
         | Inr c \<Rightarrow>
             if c = 0 then Some (Inr (EFI_SUCCESS, s))
             else (case get_load_option_optional_data (lo_buf s) p (lo_LoadOptionsSize s) of
                None \<Rightarrow> None
              | Some (Inl Fault) \<Rightarrow> Some (Inl Fault)
              | Some (Inl (Status st)) \<Rightarrow>
                  Some (bindR (if EFI_ERROR st then skip_own_path pool dp s else Inr s) (\<lambda>s.
                        bindR (use_first_argument s) (\<lambda>s. Inr (EFI_SUCCESS, s))))
              | Some (Inr (od, ods)) \<Rightarrow>
                  Some (bindR (use_first_argument (s\<lparr>lo_LoadOptions := od, lo_LoadOptionsSize := ods\<rparr>))
                         (\<lambda>s. Inr (EFI_SUCCESS, s))))))))"

section \<open>The directory of the boot path\<close>

text \<open>The reference: separators are backslashes, a run of them counts once, and the directory ends with the last one.\<close>

fun squeeze :: "u16 \<Rightarrow> wstr \<Rightarrow> wstr" where
  "squeeze prev [] = []"
| "squeeze prev (c # cs) = (if c = BACKSLASH \<and> prev = BACKSLASH then squeeze c cs else c # squeeze c cs)"

definition up_to_last :: "wstr \<Rightarrow> wstr" where
  "up_to_last p = rev (dropWhile (\<lambda>c. c \<noteq> BACKSLASH) (rev p))"

definition directory_of :: "wstr \<Rightarrow> wstr" where
  "directory_of p = up_to_last (squeeze 0 (map (\<lambda>c. if c = SLASH then BACKSLASH else c) p))"

fun marked :: "u16 \<Rightarrow> wstr \<Rightarrow> wstr" where
  "marked prev [] = []"
| "marked prev (c # cs) = (if c = BACKSLASH \<and> prev = BACKSLASH then SLASH else c) # marked c cs"

lemma sep_neq [simp]: "BACKSLASH \<noteq> SLASH" "SLASH \<noteq> BACKSLASH" "BACKSLASH \<noteq> 0" "SLASH \<noteq> 0"
  by (simp_all add: BACKSLASH_def SLASH_def)

lemma length_marked [simp]: "length (marked prev q) = length q"
  by (induction q arbitrary: prev) auto

lemma nth_marked: "j < length q \<Longrightarrow> marked prev q ! j =
    (if q ! j = BACKSLASH \<and> (if j = 0 then prev else q ! (j - 1)) = BACKSLASH then SLASH else q ! j)"
proof (induction q arbitrary: prev j)
  case (Cons c q)
  then show ?case by (cases j) (auto simp add: nth_Cons')
qed simp

lemma filter_marked: "SLASH \<notin> set q \<Longrightarrow> filter (\<lambda>c. c \<noteq> SLASH) (marked prev q) = squeeze prev q"
  by (induction q arbitrary: prev) auto

lemma up_to_last_filter: "filter (\<lambda>c. c \<noteq> SLASH) (up_to_last m) = up_to_last (filter (\<lambda>c. c \<noteq> SLASH) m)"
proof -
  have "dropWhile (\<lambda>c. c \<noteq> BACKSLASH) (filter (\<lambda>c. c \<noteq> SLASH) xs) = filter (\<lambda>c. c \<noteq> SLASH) (dropWhile (\<lambda>c. c \<noteq> BACKSLASH) xs)" for xs
    by (induction xs) auto
  then show ?thesis by (simp add: up_to_last_def rev_filter)
qed

lemma up_to_last_take:
  "j < length m \<Longrightarrow> m ! j = BACKSLASH \<Longrightarrow> (\<forall>k. j < k \<and> k < length m \<longrightarrow> m ! k \<noteq> BACKSLASH) \<Longrightarrow> up_to_last m = take (Suc j) m"
proof -
  assume a: "j < length m" "m ! j = BACKSLASH" "\<forall>k. j < k \<and> k < length m \<longrightarrow> m ! k \<noteq> BACKSLASH"
  have s: "rev m = rev (drop (Suc j) m) @ BACKSLASH # rev (take j m)"
    using id_take_nth_drop [OF a(1)] a(2) by (metis append.assoc append_Cons append_Nil rev.simps(2) rev_append)
  have "BACKSLASH \<notin> set (drop (Suc j) m)" using a(3) by (auto simp add: in_set_conv_nth)
  then have "dropWhile (\<lambda>c. c \<noteq> BACKSLASH) (rev m) = BACKSLASH # rev (take j m)"
    unfolding s by (subst dropWhile_append2) auto
  then show ?thesis using a(1,2) by (simp add: up_to_last_def take_Suc_conv_app_nth)
qed

lemma up_to_last_none: "BACKSLASH \<notin> set m \<Longrightarrow> up_to_last m = []"
  by (auto simp add: up_to_last_def dropWhile_eq_Nil_conv)

definition last_mark :: "wstr \<Rightarrow> nat \<Rightarrow> int \<Rightarrow> bool" where
  "last_mark m n l \<longleftrightarrow> (l = -1 \<and> (\<forall>k. 0 < k \<and> k \<le> n \<longrightarrow> m ! k \<noteq> BACKSLASH))
     \<or> (\<exists>j. l = int j \<and> 0 < j \<and> j \<le> n \<and> m ! j = BACKSLASH \<and> (\<forall>k. j < k \<and> k \<le> n \<longrightarrow> m ! k \<noteq> BACKSLASH))"

text \<open>\<open>m\<close> is \<open>b\<close> with all but the first separator of a run marked.\<close>

definition marks :: "wstr \<Rightarrow> nat \<Rightarrow> nat \<Rightarrow> u16" where
  "marks b n j = (if 0 < j \<and> j \<le> n \<and> b ! j = BACKSLASH \<and> b ! (j - 1) = BACKSLASH then SLASH else b ! j)"

lemma mark_separators_ok:
  assumes "n < length b" and "l = -1 \<or> 0 \<le> l"
  shows "\<exists>b' l'. mark_separators b n l = (b', l') \<and> length b' = length b
     \<and> (\<forall>j < length b. b' ! j = marks b n j)
     \<and> (l \<noteq> -1 \<longrightarrow> l' = l) \<and> (l = -1 \<longrightarrow> last_mark b' n l')"
  using assms
proof (induction n arbitrary: b l)
  case 0
  then show ?case by (auto simp add: marks_def last_mark_def)
next
  case (Suc n)
  show ?case
  proof (cases "b ! Suc n = BACKSLASH \<and> b ! n = BACKSLASH")
    case True
    let ?b = "b[Suc n := SLASH]"
    obtain b' l' where r: "mark_separators ?b n l = (b', l')" "length b' = length b"
      "\<forall>j < length b. b' ! j = marks ?b n j" "l \<noteq> -1 \<longrightarrow> l' = l" "l = -1 \<longrightarrow> last_mark b' n l'"
      using Suc.IH [of ?b l] Suc.prems by auto
    have m: "\<forall>j < length b. b' ! j = marks b (Suc n) j"
      using r(3) True Suc.prems(1) by (auto simp add: marks_def nth_list_update)
    have "b' ! Suc n = SLASH" using m True Suc.prems(1) by (simp add: marks_def)
    then have "last_mark b' n l' \<Longrightarrow> last_mark b' (Suc n) l'"
      unfolding last_mark_def by (metis le_Suc_eq sep_neq(2))
    then show ?thesis using r m True by auto
  next
    case False
    show ?thesis
    proof (cases "l = -1 \<and> b ! Suc n = BACKSLASH")
      case True
      obtain b' l' where r: "mark_separators b n (int (Suc n)) = (b', l')" "length b' = length b"
        "\<forall>j < length b. b' ! j = marks b n j" "l' = int (Suc n)"
        using Suc.IH [of b "int (Suc n)"] Suc.prems by auto
      have m: "\<forall>j < length b. b' ! j = marks b (Suc n) j"
        using r(3) False Suc.prems(1) by (auto simp add: marks_def le_Suc_eq)
      have "b' ! Suc n = BACKSLASH" using m True False Suc.prems(1) by (simp add: marks_def)
      then have "last_mark b' (Suc n) l'" unfolding last_mark_def r(4) by (intro disjI2 exI [of _ "Suc n"]) auto
      then show ?thesis using r m True False by simp
    next
      case f: False
      obtain b' l' where r: "mark_separators b n l = (b', l')" "length b' = length b"
        "\<forall>j < length b. b' ! j = marks b n j" "l \<noteq> -1 \<longrightarrow> l' = l" "l = -1 \<longrightarrow> last_mark b' n l'"
        using Suc.IH [of b l] Suc.prems by auto
      have m: "\<forall>j < length b. b' ! j = marks b (Suc n) j"
        using r(3) False Suc.prems(1) by (auto simp add: marks_def le_Suc_eq)
      have "l = -1 \<Longrightarrow> b' ! Suc n \<noteq> BACKSLASH" using m f Suc.prems(1) by (auto simp add: marks_def)
      then have "l = -1 \<longrightarrow> last_mark b' (Suc n) l'"
        using r(5) unfolding last_mark_def by (metis le_Suc_eq)
      then show ?thesis using r m False f by auto
    qed
  qed
qed


lemma boot_directory_eq:
  assumes "0 \<notin> set p"
  shows "boot_directory p = directory_of p"
proof -
  let ?q = "map (\<lambda>c. if c = SLASH then BACKSLASH else c) p" and ?n = "length p"
  obtain b l where r: "mark_separators (?q @ [0]) ?n (-1) = (b, l)" "length b = Suc ?n"
    "\<forall>j < Suc ?n. b ! j = marks (?q @ [0]) ?n j" "last_mark b ?n l"
    using mark_separators_ok [of ?n "?q @ [0]" "-1"] by auto
  let ?m = "marked 0 ?q"
  have bm: "b = ?m @ [0]"
  proof (rule nth_equalityI)
    fix j assume "j < length b"
    then have j: "j < Suc ?n" using r(2) by simp
    show "b ! j = (?m @ [0]) ! j"
    proof (cases "j < ?n")
      case True
      then show ?thesis using r(3) by (auto simp add: marks_def nth_append nth_marked)
    next
      case False
      then have "j = ?n" using j by simp
      then show ?thesis using r(3) by (auto simp add: marks_def nth_append)
    qed
  qed (use r(2) in simp)
  have sl: "SLASH \<notin> set ?q" by auto
  define l' where "l' = (if l = -1 \<and> b ! 0 = BACKSLASH then 0 else l)"
  have d: "boot_directory p = (if 0 < l' then filter (\<lambda>c. c \<noteq> SLASH) (take (nat (l' + 1)) b) else take (nat (l' + 1)) b)"
    using r(1) by (simp add: boot_directory_def Let_def l'_def)
  have n0: "b ! ?n = 0" unfolding bm by (simp add: nth_append)
  have none: "filter (\<lambda>c. c \<noteq> SLASH) (up_to_last ?m) = directory_of p"
    by (simp add: up_to_last_filter filter_marked [OF sl] directory_of_def)
  consider (no) "l' = -1" "BACKSLASH \<notin> set ?m" | (yes) j where "l' = int j" "j < ?n" "?m ! j = BACKSLASH"
      "\<forall>k. j < k \<and> k < length ?m \<longrightarrow> ?m ! k \<noteq> BACKSLASH"
  proof (cases "l = -1")
    case True
    then have k: "\<forall>k. 0 < k \<and> k \<le> ?n \<longrightarrow> b ! k \<noteq> BACKSLASH" using r(4) by (auto simp add: last_mark_def)
    show ?thesis
    proof (cases "b ! 0 = BACKSLASH")
      case t: True
      then have n: "0 < ?n" using n0 by (cases ?n) auto
      have "?m ! i \<noteq> BACKSLASH" if "0 < i" "i < length ?m" for i
        using spec [OF k, of i] that by (simp add: bm nth_append)
      moreover have "?m ! 0 = BACKSLASH" using t n by (simp add: bm nth_append)
      ultimately show ?thesis using t True n by (intro yes [of 0]) (simp_all add: l'_def)
    next
      case False
      have "?m ! i \<noteq> BACKSLASH" if "i < length ?m" for i
        using spec [OF k, of i] that False by (cases i) (simp_all add: bm nth_append)
      then have "BACKSLASH \<notin> set ?m" unfolding in_set_conv_nth by blast
      then show ?thesis using False True by (intro no) (simp_all add: l'_def)
    qed
  next
    case False
    then obtain j where j: "l = int j" "0 < j" "j \<le> ?n" "b ! j = BACKSLASH" "\<forall>k. j < k \<and> k \<le> ?n \<longrightarrow> b ! k \<noteq> BACKSLASH"
      using r(4) by (auto simp add: last_mark_def)
    then have jn: "j < ?n" using n0 by (cases "j = ?n") auto
    have "?m ! i \<noteq> BACKSLASH" if "j < i" "i < length ?m" for i
      using spec [OF j(5), of i] that by (simp add: bm nth_append)
    moreover have "?m ! j = BACKSLASH" using j(4) jn by (simp add: bm nth_append)
    ultimately show ?thesis using j(1) jn False by (intro yes [of j]) (simp_all add: l'_def)
  qed
  then show ?thesis
  proof cases
    case no
    then show ?thesis using d none up_to_last_none by simp
  next
    case (yes j)
    have u: "up_to_last ?m = take (Suc j) ?m" by (rule up_to_last_take) (use yes in simp_all)
    have tk: "take (nat (l' + 1)) b = take (Suc j) ?m" using yes by (simp add: bm nat_add_distrib)
    show ?thesis
    proof (cases "j = 0")
      case True
      have "0 < length ?m" using yes(2) by auto
      then have "take (Suc j) ?m = [BACKSLASH]" using yes(3) True by (cases ?m) simp_all
      then show ?thesis using d tk u none True yes(1) by simp
    next
      case False
      then show ?thesis using d tk u none yes(1) by simp
    qed
  qed
qed

lemma set_squeeze: "set (squeeze prev q) \<subseteq> set q"
  by (induction q arbitrary: prev) auto

lemma set_directory: "0 \<notin> set p \<Longrightarrow> 0 \<notin> set (directory_of p)"
  using set_squeeze [of 0 "map (\<lambda>c. if c = SLASH then BACKSLASH else c) p"]
  by (auto simp add: directory_of_def up_to_last_def dest!: set_dropWhileD split: if_splits)

lemma directory_ends: "directory_of p = [] \<or> (\<exists>d. directory_of p = d @ [BACKSLASH])"
proof -
  have "dropWhile (\<lambda>c. c \<noteq> BACKSLASH) xs = [] \<or> (\<exists>d. dropWhile (\<lambda>c. c \<noteq> BACKSLASH) xs = BACKSLASH # d)" for xs
    by (induction xs) auto
  from this [of "rev (squeeze 0 (map (\<lambda>c. if c = SLASH then BACKSLASH else c) p))"] show ?thesis
    unfolding directory_of_def up_to_last_def by (elim disjE exE) simp_all
qed

lemma base_name_no_separator: "BACKSLASH \<notin> set (base_name p)"
  by (auto simp add: base_name_def dest: set_takeWhileD)

lemma upcase_backslash: "upcase c = BACKSLASH \<longleftrightarrow> c = BACKSLASH"
proof -
  have "c - 32 \<noteq> BACKSLASH" if "c \<le> 122"
  proof
    assume "c - 32 = BACKSLASH"
    then have "c = 0x7C" by (simp add: BACKSLASH_def diff_eq_eq)
    then show False using that by simp
  qed
  then show ?thesis by (auto simp add: upcase_def) (simp_all add: BACKSLASH_def)
qed

lemma directory_not_prefix:
  assumes "prefix (map upcase (directory_of p)) (map upcase (base_name q))"
  shows "directory_of p = []"
proof (rule ccontr)
  assume "directory_of p \<noteq> []"
  then have "BACKSLASH \<in> set (directory_of p)" using directory_ends [of p] by auto
  then have "upcase BACKSLASH \<in> set (map upcase (base_name q))"
    using assms set_mono_prefix by fastforce
  moreover have "upcase BACKSLASH = BACKSLASH" by (simp add: upcase_backslash)
  ultimately obtain x where "x \<in> set (base_name q)" "upcase x = BACKSLASH" by auto
  then show False using base_name_no_separator [of q] by (simp add: upcase_backslash)
qed

definition ESP_ROOT :: wstr where "ESP_ROOT = [0x5C, 0x45, 0x46, 0x49, 0x5C]"

lemma esp_root: "wide [CHR 0x5C, CHR ''E'', CHR ''F'', CHR ''I'', CHR 0x5C] = ESP_ROOT"
  by (simp add: wide_def ESP_ROOT_def)

lemma generate_path_eq:
  assumes "0 \<notin> set bootpath" and "0 \<notin> set ImagePath" and "\<forall>n. pool n"
  shows "generate_path_from_image_path pool (Some bootpath) ImagePath
     = Inr (if take 5 ImagePath = ESP_ROOT then ImagePath else directory_of bootpath @ base_name ImagePath)"
proof (cases "take 5 ImagePath = ESP_ROOT")
  case True
  then have "length (take 5 ImagePath) = 5" by (simp add: ESP_ROOT_def)
  then have "4 < length ImagePath" by simp
  then show ?thesis using True assms(3) by (simp add: generate_path_from_image_path_def esp_root bind_guardR)
next
  case False
  let ?dir = "directory_of bootpath" and ?base = "base_name ImagePath"
  have "0 \<notin> set ?base" using assms(2) by (auto simp add: base_name_def dest: set_takeWhileD)
  then obtain d where d: "StrnCaseCmp (?dir @ [0]) (?base @ [0]) (length ?dir) = Inr d"
    "d = 0 \<longleftrightarrow> prefix (map upcase ?dir) (map upcase ?base)"
    using StrnCaseCmp_prefix [OF set_directory [OF assms(1)], of ?base "[]" "[]"] by auto
  then have "(if d \<noteq> 0 then ?dir else []) = ?dir" using directory_not_prefix [of bootpath ImagePath] by (cases "d = 0") simp_all
  then show ?thesis
    using False d(1) assms(3) by (simp add: generate_path_from_image_path_def esp_root boot_directory_eq [OF assms(1)] bind_guardR Let_def)
qed

section \<open>Arguments\<close>

text \<open>The characters of the options.\<close>

fun chars :: "bytes \<Rightarrow> nat \<Rightarrow> nat \<Rightarrow> nat list" where
  "chars buf p 0 = []"
| "chars buf p (Suc n) = le_nat (take 2 (drop p buf)) # chars buf (p + 2) n"

lemma length_chars [simp]: "length (chars buf p n) = n"
  by (induction n arbitrary: p) auto

lemma get_le_chars: "p + 2 \<le> length buf \<Longrightarrow> get_le buf p 2 = Inr (le_nat (take 2 (drop p buf)))"
  by (simp add: get_le_def get_bytes_def)

definition terminator :: "nat \<Rightarrow> bool" where "terminator c \<longleftrightarrow> c = 32 \<or> c = 0"

lemma skip_spaces_eq:
  "p + 2 * k \<le> length buf \<Longrightarrow>
   skip_spaces buf k p = Inr (p + 2 * length (takeWhile (\<lambda>c. c = 32) (chars buf p k)))"
  by (induction k arbitrary: p) (auto simp add: get_le_chars)

lemma find_argument_end_eq:
  "start + 2 * (i + k) \<le> length buf \<Longrightarrow>
   find_argument_end buf start k i =
     (let n = length (takeWhile (\<lambda>c. \<not> terminator c) (chars buf (start + 2 * i) k))
      in Inr (if n < k then Some (i + n) else None))"
proof (induction k arbitrary: i)
  case (Suc k)
  have "start + 2 * (Suc i + k) \<le> length buf" using Suc.prems by simp
  from Suc.IH [OF this] show ?case
    using Suc.prems by (auto simp add: get_le_chars terminator_def Let_def)
qed simp

lemma chars_drop: "m \<le> n \<Longrightarrow> drop m (chars buf p n) = chars buf (p + 2 * m) (n - m)"
proof (induction m arbitrary: n p)
  case (Suc m)
  then show ?case by (cases n) auto
qed simp


definition first_argument :: "nat list \<Rightarrow> nat list" where
  "first_argument cs = takeWhile (\<lambda>c. \<not> terminator c) (dropWhile (\<lambda>c. c = 32) cs)"

lemma remaining_arith: "n - 2 * k - (m + 1) * 2 = n - 2 * (k + m + 1)" for k m n :: nat
  by simp

lemma split_load_options_eq:
  assumes "p + n \<le> length buf"
  shows "split_load_options buf (Some p) n =
    (let cs = chars buf p (n div 2); k = length (takeWhile (\<lambda>c. c = 32) cs); start = p + 2 * k;
         m = length (first_argument cs)
     in Inr (if k + m < n div 2
             then (buf[start + 2 * m := 0, start + 2 * m + 1 := 0],
                   Some (start, if 2 * (k + m + 1) < n then Some (start + 2 * (m + 1)) else None, n - 2 * (k + m + 1)))
             else (buf, None)))"
proof -
  let ?cs = "chars buf p (n div 2)"
  let ?k = "length (takeWhile (\<lambda>c. c = 32) ?cs)" and ?m = "length (first_argument ?cs)"
  have k: "?k \<le> n div 2" using length_takeWhile_le [of _ ?cs] by simp
  have d: "(n - 2 * ?k) div 2 = n div 2 - ?k" by simp
  have c: "chars buf (p + 2 * ?k) (n div 2 - ?k) = dropWhile (\<lambda>c. c = 32) ?cs"
    using chars_drop [OF k, of buf p] by (simp add: dropWhile_eq_drop)
  have s: "skip_spaces buf (n div 2) p = Inr (p + 2 * ?k)" using assms by (intro skip_spaces_eq) simp
  have e: "find_argument_end buf (p + 2 * ?k) (n div 2 - ?k) 0 = Inr (if ?m < n div 2 - ?k then Some ?m else None)"
    using find_argument_end_eq [of "p + 2 * ?k" 0 "n div 2 - ?k" buf] assms k
    by (simp add: c first_argument_def Let_def)
  show ?thesis
  proof (cases "?k + ?m < n div 2")
    case False
    then have "\<not> ?m < n div 2 - ?k" by simp
    then show ?thesis using False by (simp add: split_load_options_def s e d Let_def)
  next
    case True
    then have m: "?m < n div 2 - ?k" by simp
    have b: "p + 2 * ?k + 2 * ?m + 1 < length buf" using assms True by simp
    show ?thesis
      unfolding split_load_options_def Let_def option.case s bindR_Inr add_diff_cancel_left' d e if_P [OF m] if_P [OF True]
        remaining_arith [of n ?k ?m]
      using b by (simp add: upd_idx_def)
  qed
qed

section \<open>Encoding a load option\<close>

type_synonym dp_node = "u8 \<times> u8 \<times> bytes"

definition dp_node_bytes :: "dp_node \<Rightarrow> bytes" where
  "dp_node_bytes nd = (case nd of (t, st, d) \<Rightarrow> [t, st] @ le_bytes 2 (4 + length d) @ d)"

definition node_ok :: "dp_node \<Rightarrow> bool" where
  "node_ok nd \<longleftrightarrow> (case nd of (t, st, d) \<Rightarrow> 4 + length d < 65536 \<and> \<not> (t = 0x7f \<and> st = 0xff))"

definition device_path_bytes :: "dp_node list \<Rightarrow> bytes" where
  "device_path_bytes nodes = concat (map dp_node_bytes nodes) @ [0x7f, 0xff, 4, 0]"

definition description_bytes :: "u8 list \<Rightarrow> bytes" where
  "description_bytes desc = concat (map (\<lambda>c. [c, 0]) desc) @ [0, 0]"

definition load_option_bytes :: "bytes \<Rightarrow> u8 list \<Rightarrow> dp_node list \<Rightarrow> bytes \<Rightarrow> bytes" where
  "load_option_bytes attrs desc nodes optional =
     attrs @ le_bytes 2 (length (device_path_bytes nodes)) @ description_bytes desc @ device_path_bytes nodes @ optional"

lemma length_description [simp]: "length (description_bytes desc) = 2 * length desc + 2"
  by (induction desc) (simp_all add: description_bytes_def)

lemma length_node [simp]: "length (dp_node_bytes nd) = 4 + length (snd (snd nd))"
  by (cases nd) (simp add: dp_node_bytes_def)

lemma description_loop_ok:
  assumes "0 \<notin> set desc" and "drop (cur + i) buf = description_bytes desc @ rest" and "even i" and "2 * length desc + 2 \<le> k"
    and "cur + i \<le> length buf"
  shows "description_loop buf cur k i = Inr (i + 2 * length desc + 1)"
  using assms
proof (induction desc arbitrary: i k)
  case Nil
  obtain k' where k: "k = Suc (Suc k')" using Nil.prems(4) by (cases k; cases "k - 1") auto
  have d: "drop (cur + i) buf = 0 # 0 # rest" using Nil.prems(2) by (simp add: description_bytes_def)
  then have "buf ! (cur + i) = 0" "cur + i < length buf"
    by (metis Cons_nth_drop_Suc drop_all list.inject list.simps(3) not_less)
       (metis d drop_all list.simps(3) not_less)
  moreover have "buf ! (cur + Suc i) = 0 \<and> cur + Suc i < length buf"
  proof -
    have "drop (cur + Suc i) buf = 0 # rest" using d by (metis add_Suc_right drop_Suc tl_drop list.sel(3))
    then show ?thesis by (metis Cons_nth_drop_Suc drop_all list.inject list.simps(3) not_less)
  qed
  ultimately show ?case using Nil.prems(3) k by (simp add: idx_def)
next
  case (Cons c desc)
  obtain k' where k: "k = Suc (Suc k')" using Cons.prems(4) by (cases k; cases "k - 1") auto
  have d: "drop (cur + i) buf = c # 0 # description_bytes desc @ rest" using Cons.prems(2) by (simp add: description_bytes_def)
  have l: "2 \<le> length buf - (cur + i)" using arg_cong [OF d, of length] by simp
  have v: "buf ! (cur + i) = c" "buf ! (cur + Suc i) = 0"
    using arg_cong [OF d, of "\<lambda>x. x ! 0"] arg_cong [OF d, of "\<lambda>x. x ! 1"] l by simp_all
  have d2: "drop (cur + Suc (Suc i)) buf = description_bytes desc @ rest"
    using arg_cong [OF d, of "drop 2"] by (simp add: add.commute)
  have "description_loop buf cur k' (Suc (Suc i)) = Inr (Suc (Suc i) + 2 * length desc + 1)"
    using Cons.prems k d2 l by (intro Cons.IH) auto
  then show ?case using Cons.prems(1,3) k v l by (simp add: idx_def)
qed

text \<open>The header of a node at a place of the buffer.\<close>

lemma node_header:
  assumes d: "drop p buf = [t, st] @ le_bytes 2 n @ r" and n: "n < 65536"
  shows "bindR (idx buf p) (\<lambda>t. bindR (idx buf (p + 1)) (\<lambda>st.
              bindR (idx buf (p + 3)) (\<lambda>hi. bindR (idx buf (p + 2)) (\<lambda>lo.
                Inr (t, st, ucast hi * 256 + ucast lo :: u32))))) = Inr (t, st, word_of_nat n)"
proof -
  have le: "le_bytes 2 n = [word_of_nat n, word_of_nat (n div 256)]" by (simp add: le_bytes_numeral)
  have l: "4 \<le> length buf - p" using arg_cong [OF d, of length] by simp
  have v: "buf ! p = t" "buf ! (p + 1) = st" "buf ! (p + 2) = word_of_nat n" "buf ! (p + 3) = word_of_nat (n div 256)"
    using arg_cong [OF d, of "\<lambda>x. x ! 0"] arg_cong [OF d, of "\<lambda>x. x ! 1"] arg_cong [OF d, of "\<lambda>x. x ! 2"]
      arg_cong [OF d, of "\<lambda>x. x ! 3"] l by (simp_all add: le)
  have u: "unat (word_of_nat n :: u8) = n mod 256" "unat (word_of_nat (n div 256) :: u8) = n div 256"
    using n by (simp_all add: unat_of_nat)
  have "ucast (word_of_nat (n div 256) :: u8) * 256 + ucast (word_of_nat n :: u8) = (word_of_nat n :: u32)"
  proof -
    have "(word_of_nat n :: u32) = word_of_nat ((n div 256) * 256 + n mod 256)" by simp
    also have "\<dots> = word_of_nat (unat (word_of_nat (n div 256) :: u8)) * 256 + word_of_nat (unat (word_of_nat n :: u8))"
      unfolding u by (simp only: of_nat_add of_nat_mult of_nat_numeral)
    finally show ?thesis by simp
  qed
  then show ?thesis using v l by (simp add: idx_def)
qed

lemma drop_prefix: "length a = n \<Longrightarrow> drop n (a @ b) = b"
  by simp

lemma device_path_loop_ok:
  assumes "\<forall>nd \<in> set nodes. node_ok nd" and "drop (cur + unat i) buf = device_path_bytes nodes @ rest"
    and "unat i + length (device_path_bytes nodes) \<le> unat limit"
  shows "device_path_loop buf cur limit i = Some (Inr (i + word_of_nat (length (device_path_bytes nodes))))"
  using assms
proof (induction nodes arbitrary: i)
  case Nil
  have len: "unat i + 4 \<le> unat limit" using Nil.prems(3) by (simp add: device_path_bytes_def)
  have ge: "4 \<le> limit - i" using len by (simp add: word_le_nat_alt unat_sub)
  have s: "unat (i + d) = unat i + unat d" if "unat d < 4" for d
    using len unat_u32_bound [of limit] that by (simp add: unat_word_ariths)
  have s3: "unat (i + 1) = unat i + 1" "unat (i + 2) = unat i + 2" "unat (i + 3) = unat i + 3"
    using s [of 1] s [of 2] s [of 3] by simp_all
  have d: "drop (cur + unat i) buf = [0x7f, 0xff] @ le_bytes 2 4 @ rest"
    using Nil.prems(2) by (simp add: device_path_bytes_def le_bytes_numeral)
  note h = node_header [OF d]
  have l4: "\<not> limit < 4" using len by (simp add: word_less_nat_alt)
  show ?case
    by (subst device_path_loop.simps) (use ge h l4 in \<open>simp add: s3 add.assoc [symmetric] device_path_bytes_def\<close>)
next
  case (Cons nd nodes)
  obtain t st x where nd: "nd = (t, st, x)" using prod_cases3 by blast
  let ?n = "4 + length x"
  have ok: "?n < 65536" "\<not> (t = 0x7f \<and> st = 0xff)" using Cons.prems(1) by (simp_all add: nd node_ok_def)
  have len: "unat i + ?n + length (device_path_bytes nodes) \<le> unat limit"
    using Cons.prems(3) by (simp add: device_path_bytes_def nd)
  have ge: "4 \<le> limit - i" using len by (simp add: word_le_nat_alt unat_sub)
  have s: "unat (i + d) = unat i + unat d" if "unat d < 4" for d
    using len unat_u32_bound [of limit] that by (simp add: unat_word_ariths)
  have s3: "unat (i + 1) = unat i + 1" "unat (i + 2) = unat i + 2" "unat (i + 3) = unat i + 3"
    using s [of 1] s [of 2] s [of 3] by simp_all
  have d: "drop (cur + unat i) buf = [t, st] @ le_bytes 2 ?n @ (x @ device_path_bytes nodes @ rest)"
    using Cons.prems(2) by (simp add: device_path_bytes_def nd dp_node_bytes_def)
  note h = node_header [OF d ok(1)]
  have un: "unat (word_of_nat ?n :: u32) = ?n" using ok(1) by (simp add: unat_of_nat del: of_nat_add)
  have c: "\<not> (word_of_nat ?n :: u32) < 4" "\<not> limit < word_of_nat ?n"
    using len un by (simp_all add: word_less_nat_alt del: of_nat_add)
  let ?i = "i + word_of_nat ?n :: u32"
  have ui: "unat ?i = unat i + ?n" using len un unat_u32_bound [of limit] by (simp add: unat_word_ariths del: of_nat_add)
  have "device_path_loop buf cur limit ?i = Some (Inr (?i + word_of_nat (length (device_path_bytes nodes))))"
  proof (rule Cons.IH)
    have "drop (cur + unat ?i) buf = drop ?n (drop (cur + unat i) buf)" unfolding ui by (simp add: ac_simps)
    also have "\<dots> = device_path_bytes nodes @ rest"
      using drop_prefix [of "[t, st] @ le_bytes 2 ?n @ x" ?n "device_path_bytes nodes @ rest"] unfolding d by simp
    finally show "drop (cur + unat ?i) buf = device_path_bytes nodes @ rest" .
  qed (use Cons.prems(1) len ui in simp_all)
  moreover have e: "i + word_of_nat (length (device_path_bytes (nd # nodes))) = ?i + word_of_nat (length (device_path_bytes nodes))"
    by (simp add: device_path_bytes_def nd add.assoc)
  ultimately show ?case
    unfolding e by (subst device_path_loop.simps) (use ge h c ok(2) in \<open>auto simp add: s3 add.assoc [symmetric] simp del: of_nat_add\<close>)
qed

lemma load_option_eq:
  assumes attrs: "length attrs = 4" and desc: "0 \<notin> set desc" and nodes: "\<forall>nd \<in> set nodes. node_ok nd"
    and fp: "length (device_path_bytes nodes) < 65536" and n: "unat n = length (load_option_bytes attrs desc nodes optional)"
    and two: "desc \<noteq> [] \<or> 2 \<le> length optional"
  shows "get_load_option_optional_data (pre @ load_option_bytes attrs desc nodes optional @ post) (length pre) n
     = Some (Inr (if optional = [] then (None, 0)
         else (Some (length pre + length (load_option_bytes attrs desc nodes []) ), word_of_nat (length optional))))"
proof -
  let ?buf = "pre @ load_option_bytes attrs desc nodes optional @ post" and ?f = "length (device_path_bytes nodes)"
  let ?d = "description_bytes desc" and ?dp = "device_path_bytes nodes"
  have tot: "unat n = 6 + length ?d + ?f + length optional" using n attrs by (simp add: load_option_bytes_def)
  have f4: "4 \<le> ?f" by (simp add: device_path_bytes_def)
  have n12: "\<not> n < 12" and n10: "unat (n - 10) = unat n - 10"
    using tot f4 by (simp_all add: word_less_nat_alt unat_sub word_le_nat_alt)
  have fl: "get_le ?buf (length pre + 4) 2 = Inr ?f"
    using get_le_at [of "pre @ attrs" "length pre + 4" ?f 2 "?d @ ?dp @ optional @ post"] attrs fp
    by (simp add: load_option_bytes_def)
  have cur: "drop (length pre + 6) ?buf = ?d @ ?dp @ optional @ post" using attrs by (simp add: load_option_bytes_def)
  let ?limit = "unat n - 6 - ?f"
  have lim: "?limit = length ?d + length optional" using tot by simp
  have dl: "description_loop ?buf (length pre + 6) ?limit 0 = Inr (2 * length desc + 1)"
    using description_loop_ok [OF desc, of "length pre + 6" 0 ?buf "?dp @ optional @ post" ?limit] cur lim attrs
    by (simp add: load_option_bytes_def)
  have "2 \<le> 2 * length desc + length optional" using two by (cases desc) simp_all
  then have g: "\<not> unat (n - 10) < ?f" unfolding n10 tot by simp
  show ?thesis
  proof (cases "optional = []")
    case True
    then show ?thesis using n12 fl g dl lim by (simp add: get_load_option_optional_data_def Let_def)
  next
    case False
    let ?cur = "length pre + 6 + (2 * length desc + 2)"
    let ?l = "word_of_nat ?limit - word_of_nat (2 * length desc + 2) + word_of_nat ?f :: u32"
    have w: "?l = word_of_nat (length optional + ?f)" unfolding lim by simp
    have ub: "length optional + ?f < 2 ^ 32" using tot unat_u32_bound [of n] by simp
    have ul: "unat ?l = length optional + ?f" unfolding w using ub by (simp add: unat_of_nat del: of_nat_add)
    have "drop ?cur ?buf = drop (length ?d) (drop (length pre + 6) ?buf)"
      by (simp only: drop_drop length_description add.commute [of "length pre + 6"])
    then have "drop (?cur + unat (0 :: u32)) ?buf = ?dp @ (optional @ post)" unfolding cur by simp
    from device_path_loop_ok [OF nodes this, of ?l] have dp: "device_path_loop ?buf ?cur ?l 0 = Some (Inr (word_of_nat ?f))"
      using ul by simp
    have uf: "unat (word_of_nat ?f :: u32) = ?f" using fp by (simp add: unat_of_nat)
    have sub: "?l - word_of_nat ?f = word_of_nat (length optional)" unfolding w by simp
    have x: "2 * length desc + 1 + 1 = 2 * length desc + 2" by simp
    have a: "\<not> ?limit < 2 * length desc + 2" and b: "2 * length desc + 2 \<noteq> ?limit" using lim False by simp_all
    have "get_load_option_optional_data ?buf (length pre) n
        = Some (Inr (Some (?cur + ?f), word_of_nat (length optional)))"
      unfolding get_load_option_optional_data_def if_not_P [OF n12] fl sum.case if_not_P [OF g] Let_def dl x
        sum.case if_not_P [OF a] if_not_P [OF b] dp option.case uf sub by simp
    moreover have "?cur + ?f = length pre + length (load_option_bytes attrs desc nodes [])"
      using attrs by (simp add: load_option_bytes_def)
    ultimately show ?thesis using False by simp
  qed
qed

section \<open>Properties\<close>

lemma chars_numeral: "chars buf p (numeral k) = le_nat (take 2 (drop p buf)) # chars buf (p + 2) (pred_numeral k)"
  by (simp only: numeral_eq_Suc chars.simps)

lemma description_loop_numeral: "description_loop buf cur (numeral k) i =
     bindR (idx buf (cur + i)) (\<lambda>c.
       if odd i then (if c \<noteq> 0 then Inl (Status EFI_INVALID_PARAMETER) else description_loop buf cur (pred_numeral k) (Suc i))
       else if c = 0 then
         (if pred_numeral k = 0 then Inl (Status EFI_INVALID_PARAMETER)
          else bindR (idx buf (cur + Suc i)) (\<lambda>c'.
            if c' \<noteq> 0 then Inl (Status EFI_INVALID_PARAMETER) else Inr (Suc i)))
       else description_loop buf cur (pred_numeral k) (Suc i))"
  by (simp only: numeral_eq_Suc description_loop.simps)

text \<open>
  C30. The path of the second stage is the name itself when it is a full path on the ESP, and
  otherwise the directory of shim's own path, its separators made backslashes and runs of
  them one, followed by the last component of the name.
\<close>

theorem generate_path_spec:
  assumes "0 \<notin> set bootpath" and "0 \<notin> set ImagePath" and "\<forall>n. pool n"
  shows "generate_path_from_image_path pool (Some bootpath) ImagePath
     = Inr (if take 5 ImagePath = ESP_ROOT then ImagePath else directory_of bootpath @ base_name ImagePath)"
  using assms by (rule generate_path_eq)

text \<open>The boot path \<open>\EFI//a\\shim\<close> and the name \<open>\grub\<close> give \<open>\EFI\a\grub\<close>.\<close>

lemma generate_path_spec_witness:
  "generate_path_from_image_path (\<lambda>_. True) (Some [0x5C, 0x45, 0x46, 0x49, 0x2F, 0x2F, 0x61, 0x5C, 0x5C, 0x73, 0x68])
      [0x5C, 0x67, 0x72] = Inr [0x5C, 0x45, 0x46, 0x49, 0x5C, 0x61, 0x5C, 0x67, 0x72]"
  by (subst generate_path_spec)
     (simp_all add: ESP_ROOT_def directory_of_def up_to_last_def base_name_def BACKSLASH_def SLASH_def)

text \<open>
  The optional data of an encoded load option is found again, whatever surrounds it: its
  description has no NUL, its device path fits 16 bits, and it has a description or at least
  two bytes of optional data.
\<close>

theorem load_option_round_trip:
  assumes "length attrs = 4" and "0 \<notin> set desc" and "\<forall>nd \<in> set nodes. node_ok nd"
    and "length (device_path_bytes nodes) < 65536" and "unat n = length (load_option_bytes attrs desc nodes optional)"
    and "desc \<noteq> [] \<or> 2 \<le> length optional"
  shows "get_load_option_optional_data (pre @ load_option_bytes attrs desc nodes optional @ post) (length pre) n
     = Some (Inr (if optional = [] then (None, 0)
         else (Some (length pre + length (load_option_bytes attrs desc nodes [])), word_of_nat (length optional))))"
  using assms by (rule load_option_eq)

lemma load_option_round_trip_witness:
  "get_load_option_optional_data (load_option_bytes [1, 0, 0, 0] [0x62] [(4, 4, [7, 7])] [1, 2, 3]) 0 23 = Some (Inr (Some 20, 3))"
  using load_option_round_trip [of "[1, 0, 0, 0]" "[0x62]" "[(4, 4, [7, 7])]" 23 "[1, 2, 3]" "[]" "[]"]
  by (simp add: node_ok_def load_option_bytes_def device_path_bytes_def description_bytes_def dp_node_bytes_def)

text \<open>
  The length of a device path node is compared with the whole space, not with what is left of
  it: on sixteen bytes of options with a second node longer than the rest,
  \<open>get_load_option_optional_data\<close> reads past their end.
\<close>

theorem optional_data_past_end:
  "get_load_option_optional_data ([0, 0, 0, 0, 4, 0, 0, 0] @ [1, 1, 4, 0] @ [1, 1, 8, 0]) 0 16 = Some (Inl Fault)"
proof -
  let ?buf = "[0, 0, 0, 0, 4, 0, 0, 0, 1, 1, 4, 0, 1, 1, 8, 0] :: bytes"
  have "device_path_loop ?buf 8 8 12 = Some (Inl Fault)"
    by (subst device_path_loop.simps) (simp add: idx_def)
  then have "device_path_loop ?buf 8 8 4 = Some (Inl Fault)"
    by (subst device_path_loop.simps) (simp add: idx_def)
  then have "device_path_loop ?buf 8 8 0 = Some (Inl Fault)"
    by (subst device_path_loop.simps) (simp add: idx_def)
  moreover have "description_loop ?buf 6 6 0 = Inr 1"
    by (simp add: idx_def description_loop_numeral)
  ultimately show ?thesis
    by (simp add: get_load_option_optional_data_def get_le_def get_bytes_def Let_def)
qed

text \<open>
  \<open>split_load_options\<close> makes no access outside the options, finds the first argument after
  any spaces, up to a space or NUL that it replaces by a NUL, and what remains behind it; without
  such an end there is none.
\<close>

theorem split_load_options_spec:
  assumes "p + n \<le> length buf"
  shows "split_load_options buf (Some p) n =
    (let cs = chars buf p (n div 2); k = length (takeWhile (\<lambda>c. c = 32) cs); start = p + 2 * k;
         m = length (first_argument cs)
     in Inr (if k + m < n div 2
             then (buf[start + 2 * m := 0, start + 2 * m + 1 := 0],
                   Some (start, if 2 * (k + m + 1) < n then Some (start + 2 * (m + 1)) else None, n - 2 * (k + m + 1)))
             else (buf, None)))"
  using assms by (rule split_load_options_eq)

text \<open>The options \<open> a b\<close> with a NUL.\<close>

lemma split_load_options_spec_witness:
  "split_load_options [32, 0, 0x61, 0, 32, 0, 0x62, 0, 0, 0] (Some 0) 10
     = Inr ([32, 0, 0x61, 0, 0, 0, 0x62, 0, 0, 0], Some (2, Some 6, 4))"
proof -
  have "chars [32, 0, 0x61, 0, 32, 0, 0x62, 0, 0, 0] 0 5 = [32, 0x61, 32, 0x62, 0]"
    by (simp add: chars_numeral)
  then show ?thesis
    using split_load_options_spec [of 0 10 "[32, 0, 0x61, 0, 32, 0, 0x62, 0, 0, 0]"]
    by (simp add: first_argument_def terminator_def Let_def)
qed

end
