(* ===== verification/Tpm.thy ===== *)
theory Tpm
  imports UefiVars Ucs2
begin

text \<open>
  tpm.c: measurements into the TPM and into a confidential computing measurement register. The
  firmware's protocols are the record \<open>tpm_protocols\<close> of functions on a firmware state
  \<open>'w\<close>; the program's own state is the flag that a TPM 1.2 turned out to be defective and the
  list of the variables measured so far.
\<close>

section \<open>The protocols (include/tpm.h, include/cc.h)\<close>

text \<open>
  The capabilities the program looks at. The flag \<open>TrEEPresentFlag\<close> of the old structure and
  the flag \<open>TPMPresentFlag\<close> of the new one are the same byte.
\<close>

record tcg2_caps =
  StructureVersion_Major :: u8
  StructureVersion_Minor :: u8
  PresentFlag :: bool

record tcg_caps =
  tcg_TPMPresentFlag :: bool
  tcg_TPMDeactivatedFlag :: bool

record tcg2_event =
  ev2_Size :: u32
  ev2_HeaderSize :: u32
  ev2_HeaderVersion :: u16
  ev2_PCRIndex :: u32
  ev2_EventType :: u32
  ev2_Event :: bytes

text \<open>The digest is \<open>None\<close> where the program leaves it to the firmware.\<close>

record tcg_event =
  ev_PCRIndex :: u32
  ev_EventType :: u32
  ev_digest :: "bytes option"
  ev_EventSize :: u32
  ev_Event :: bytes

text \<open>
  \<open>locate_cc\<close>: a confidential computing protocol is installed. The buffers to hash are passed
  as their bytes.
\<close>

record 'w tpm_protocols =
  locate_cc :: "'w \<Rightarrow> bool"
  map_pcr_to_mr_index :: "'w \<Rightarrow> u32 \<Rightarrow> efi_status \<times> u32"
  cc_hash_log_extend_event :: "'w \<Rightarrow> u64 \<Rightarrow> bytes \<Rightarrow> tcg2_event \<Rightarrow> efi_status \<times> 'w"
  locate_tpm2 :: "'w \<Rightarrow> efi_status"
  get_capability :: "'w \<Rightarrow> efi_status \<times> tcg2_caps"
  hash_log_extend_event :: "'w \<Rightarrow> u64 \<Rightarrow> bytes \<Rightarrow> tcg2_event \<Rightarrow> efi_status \<times> 'w"
  locate_tpm :: "'w \<Rightarrow> efi_status"
  status_check :: "'w \<Rightarrow> efi_status \<times> tcg_caps"
  log_extend_event :: "'w \<Rightarrow> bytes \<Rightarrow> tcg_event \<Rightarrow> efi_status \<times> 'w"

definition PE_COFF_IMAGE :: u64 where "PE_COFF_IMAGE = 0x10"
definition EFI_CC_FLAG_PE_COFF_IMAGE :: u64 where "EFI_CC_FLAG_PE_COFF_IMAGE = 0x10"
definition EV_IPL :: u32 where "EV_IPL = 0x0d"
definition EV_EFI_BOOT_SERVICES_APPLICATION :: u32 where
  "EV_EFI_BOOT_SERVICES_APPLICATION = 0x80000003"
definition EV_EFI_VARIABLE_AUTHORITY :: u32 where "EV_EFI_VARIABLE_AUTHORITY = 0x800000E0"

section \<open>The program's state\<close>

record variable_record =
  vr_VariableName :: string
  vr_VendorGuid :: guid
  vr_Data :: bytes

text \<open>
  \<open>measureddata\<close> is the array's first \<open>measuredcount\<close> slots, or \<open>None\<close> for the null pointer.
\<close>

record tpm_state =
  tpm_defective :: bool
  measuredcount :: nat
  measureddata :: "variable_record list option"

definition tpm_initial :: tpm_state where
  "tpm_initial = \<lparr>tpm_defective = False, measuredcount = 0, measureddata = None\<rparr>"

section \<open>Finding a TPM\<close>

definition tpm_present :: "'w tpm_protocols \<Rightarrow> tpm_state \<Rightarrow> 'w \<Rightarrow> bool" where
  "tpm_present fw s w =
     (if tpm_defective s then False
      else case status_check fw w of (st, caps) \<Rightarrow>
        \<not> (EFI_ERROR st \<or> tcg_TPMDeactivatedFlag caps \<or> \<not> tcg_TPMPresentFlag caps))"

definition tpm2_get_caps :: "'w tpm_protocols \<Rightarrow> 'w \<Rightarrow> efi_status + tcg2_caps \<times> bool" where
  "tpm2_get_caps fw w =
     (case get_capability fw w of (st, caps) \<Rightarrow>
        if EFI_ERROR st then Inl st
        else Inr (caps, StructureVersion_Major caps = 1 \<and> StructureVersion_Minor caps = 0))"

definition tpm2_present :: "tcg2_caps \<Rightarrow> bool \<Rightarrow> bool" where
  "tpm2_present caps old_caps = (if old_caps \<and> PresentFlag caps then True else PresentFlag caps)"

datatype located = Tpm2 | Tpm12

text \<open>The protocol found, or the error status.\<close>

definition tpm_locate_protocol :: "'w tpm_protocols \<Rightarrow> tpm_state \<Rightarrow> 'w \<Rightarrow> efi_status + located" where
  "tpm_locate_protocol fw s w =
     (if \<not> EFI_ERROR (locate_tpm2 fw w) then
        (case tpm2_get_caps fw w of
           Inl st \<Rightarrow> Inl st
         | Inr (caps, old_caps) \<Rightarrow>
             if tpm2_present caps old_caps then Inr Tpm2 else Inl EFI_NOT_FOUND)
      else if EFI_ERROR (locate_tpm fw w) then Inl (locate_tpm fw w)
      else if tpm_present fw s w then Inr Tpm12
      else Inl EFI_NOT_FOUND)"

definition fallback_should_prefer_reset :: "'w tpm_protocols \<Rightarrow> tpm_state \<Rightarrow> 'w \<Rightarrow> efi_status" where
  "fallback_should_prefer_reset fw s w =
     (case tpm_locate_protocol fw s w of Inl _ \<Rightarrow> EFI_NOT_FOUND | Inr _ \<Rightarrow> EFI_SUCCESS)"

section \<open>Logging an event\<close>

text \<open>
  The event of the two newer protocols: \<open>ix\<close> is the register. The structure is 18 bytes and the
  data; its header is 14.
\<close>

definition new_event :: "u32 \<Rightarrow> u32 \<Rightarrow> bytes \<Rightarrow> tcg2_event" where
  "new_event ix type log =
     \<lparr>ev2_Size = word_of_nat (18 + length log), ev2_HeaderSize = 14, ev2_HeaderVersion = 1,
      ev2_PCRIndex = ix, ev2_EventType = type, ev2_Event = log\<rparr>"

definition cc_log_event_raw ::
  "'w tpm_protocols \<Rightarrow> (nat \<Rightarrow> bool) \<Rightarrow> 'w \<Rightarrow> bytes \<Rightarrow> u8 \<Rightarrow> bytes \<Rightarrow> u32 \<Rightarrow> bool \<Rightarrow> efi_status \<times> 'w"
where
  "cc_log_event_raw fw pool w buf pcr log type is_pe_image =
     (if \<not> locate_cc fw w then (EFI_SUCCESS, w)
      else case map_pcr_to_mr_index fw w (ucast pcr) of (st, mr) \<Rightarrow>
        if EFI_ERROR st then (EFI_NOT_FOUND, w)
        else if \<not> pool (18 + length log) then (EFI_OUT_OF_RESOURCES, w)
        else cc_hash_log_extend_event fw w (if is_pe_image then EFI_CC_FLAG_PE_COFF_IMAGE else 0) buf
               (new_event mr type log))"

text \<open>\<open>hash\<close> is the SHA-1 of a PE image, for which the newer protocols compute their own.\<close>

definition tpm2_log_event ::
  "'w tpm_protocols \<Rightarrow> (nat \<Rightarrow> bool) \<Rightarrow> 'w \<Rightarrow> bytes \<Rightarrow> u8 \<Rightarrow> bytes \<Rightarrow> u32 \<Rightarrow> bytes option \<Rightarrow> efi_status \<times> 'w"
where
  "tpm2_log_event fw pool w buf pcr log type hash =
     (if \<not> pool (18 + length log) then (EFI_OUT_OF_RESOURCES, w)
      else let event = new_event (ucast pcr) type log in
        case (if hash \<noteq> None then hash_log_extend_event fw w PE_COFF_IMAGE buf event else (EFI_SUCCESS, w)) of
          (st, w') \<Rightarrow>
            if hash = None \<or> EFI_ERROR st then hash_log_extend_event fw w' 0 buf event else (st, w'))"

definition tpm1_log_event ::
  "'w tpm_protocols \<Rightarrow> (nat \<Rightarrow> bool) \<Rightarrow> tpm_state \<Rightarrow> 'w \<Rightarrow> bytes \<Rightarrow> u8 \<Rightarrow> bytes \<Rightarrow> u32 \<Rightarrow> bytes option
   \<Rightarrow> efi_status \<times> tpm_state \<times> 'w"
where
  "tpm1_log_event fw pool s w buf pcr log type hash =
     (if EFI_ERROR (locate_tpm fw w) then (EFI_SUCCESS, s, w)
      else if \<not> tpm_present fw s w then (EFI_SUCCESS, s, w)
      else if \<not> pool (36 + length log) then (EFI_OUT_OF_RESOURCES, s, w)
      else let event = \<lparr>ev_PCRIndex = ucast pcr, ev_EventType = type, ev_digest = hash,
                        ev_EventSize = word_of_nat (length log), ev_Event = log\<rparr> in
        case log_extend_event fw w (if hash = None then buf else []) event of (st, w') \<Rightarrow>
          if st = EFI_UNSUPPORTED then (EFI_SUCCESS, s\<lparr>tpm_defective := True\<rparr>, w') else (st, s, w'))"

text \<open>\<open>require_tpm\<close> is the build option \<open>REQUIRE_TPM\<close>.\<close>

definition tpm_log_event_raw ::
  "'w tpm_protocols \<Rightarrow> bool \<Rightarrow> (nat \<Rightarrow> bool) \<Rightarrow> tpm_state \<Rightarrow> 'w \<Rightarrow> bytes \<Rightarrow> u8 \<Rightarrow> bytes \<Rightarrow> u32 \<Rightarrow> bytes option
   \<Rightarrow> efi_status \<times> tpm_state \<times> 'w"
where
  "tpm_log_event_raw fw require_tpm pool s w buf pcr log type hash =
     (case cc_log_event_raw fw pool w buf pcr log type (hash \<noteq> None) of (st, w1) \<Rightarrow>
        if EFI_ERROR st then (st, s, w1)
        else case tpm_locate_protocol fw s w1 of
          Inl st \<Rightarrow> (if require_tpm \<or> st \<noteq> EFI_NOT_FOUND then st else EFI_SUCCESS, s, w1)
        | Inr Tpm2 \<Rightarrow> (case tpm2_log_event fw pool w1 buf pcr log type hash of (st, w2) \<Rightarrow> (st, s, w2))
        | Inr Tpm12 \<Rightarrow> tpm1_log_event fw pool s w1 buf pcr log type hash)"

definition tpm_log_event ::
  "'w tpm_protocols \<Rightarrow> bool \<Rightarrow> (nat \<Rightarrow> bool) \<Rightarrow> tpm_state \<Rightarrow> 'w \<Rightarrow> bytes \<Rightarrow> u8 \<Rightarrow> string
   \<Rightarrow> efi_status \<times> tpm_state \<times> 'w"
where
  "tpm_log_event fw require_tpm pool s w buf pcr description =
     tpm_log_event_raw fw require_tpm pool s w buf pcr (str8 description @ [0]) EV_IPL None"

text \<open>
  \<open>tpm_log_pe\<close>: \<open>buf\<close> is the image and \<open>at\<close> its address; \<open>path\<close> the bytes of the device path.
\<close>

definition image_load_event :: "u64 \<Rightarrow> nat \<Rightarrow> u64 \<Rightarrow> bytes option \<Rightarrow> bytes" where
  "image_load_event at sz addr path =
     le_bytes 8 (unat at) @ le_bytes 8 sz @ le_bytes 8 (unat addr)
     @ (case path of None \<Rightarrow> le_bytes 8 0 | Some p \<Rightarrow> le_bytes 8 (length p) @ p)"

definition tpm_log_pe ::
  "'w tpm_protocols \<Rightarrow> bool \<Rightarrow> (nat \<Rightarrow> bool) \<Rightarrow> tpm_state \<Rightarrow> 'w \<Rightarrow> u64 \<Rightarrow> bytes \<Rightarrow> u64 \<Rightarrow> bytes option
   \<Rightarrow> bytes option \<Rightarrow> u8 \<Rightarrow> efi_status \<times> tpm_state \<times> 'w"
where
  "tpm_log_pe fw require_tpm pool s w at buf addr path sha1hash pcr =
     (if \<not> pool (32 + (case path of None \<Rightarrow> 0 | Some p \<Rightarrow> length p)) then (EFI_OUT_OF_RESOURCES, s, w)
      else tpm_log_event_raw fw require_tpm pool s w buf pcr (image_load_event at (length buf) addr path)
             EV_EFI_BOOT_SERVICES_APPLICATION sha1hash)"

section \<open>Measuring a variable\<close>

text \<open>The loop reads the array's slots below \<open>measuredcount\<close>.\<close>

definition tpm_data_measured :: "tpm_state \<Rightarrow> string \<Rightarrow> guid \<Rightarrow> bytes \<Rightarrow> bool res" where
  "tpm_data_measured s name guid data =
     (if measuredcount s = 0 then Inr False
      else case measureddata s of
        None \<Rightarrow> Inl Fault
      | Some rs \<Rightarrow> Inr (\<exists>r\<in>set (take (measuredcount s) rs).
          name = vr_VariableName r \<and> guid = vr_VendorGuid r \<and> data = vr_Data r))"

definition tpm_record_data_measurement ::
  "(nat \<Rightarrow> bool) \<Rightarrow> tpm_state \<Rightarrow> string \<Rightarrow> guid \<Rightarrow> bytes \<Rightarrow> (efi_status \<times> tpm_state) res"
where
  "tpm_record_data_measurement pool s name guid data =
     (let n = measuredcount s;
          grown = (case measureddata s of
                     None \<Rightarrow> if pool 32 then Some ([], 1) else None
                   | Some rs \<Rightarrow> if pool ((n + 1) * 32) then Some (rs, n + 1) else None)
      in case grown of
           None \<Rightarrow> Inr (EFI_OUT_OF_RESOURCES, s\<lparr>measureddata := None\<rparr>)
         | Some (rs, slots) \<Rightarrow>
             if slots \<le> n then Inl Fault
             else if \<not> pool (2 * (length name + 1)) \<or> \<not> pool 16 \<or> \<not> pool (length data)
             then Inr (EFI_OUT_OF_RESOURCES, s\<lparr>measureddata := Some rs\<rparr>)
             else Inr (EFI_SUCCESS,
                   s\<lparr>measureddata := Some (take n rs
                        @ [\<lparr>vr_VariableName = name, vr_VendorGuid = guid, vr_Data = data\<rparr>]),
                     measuredcount := n + 1\<rparr>))"

text \<open>The event data: \<open>EFI_VARIABLE_DATA_TREE\<close>, packed, the name without its NUL.\<close>

definition variable_event :: "string \<Rightarrow> guid \<Rightarrow> bytes \<Rightarrow> bytes" where
  "variable_event name guid data =
     guid @ le_bytes 8 (length name) @ le_bytes 8 (length data) @ wbytes name @ data"

text \<open>The size of the event is computed in 32 bits.\<close>

definition tpm_measure_variable ::
  "'w tpm_protocols \<Rightarrow> bool \<Rightarrow> (nat \<Rightarrow> bool) \<Rightarrow> tpm_state \<Rightarrow> 'w \<Rightarrow> string \<Rightarrow> guid \<Rightarrow> bytes
   \<Rightarrow> (efi_status \<times> tpm_state \<times> 'w) res"
where
  "tpm_measure_variable fw require_tpm pool s w name guid data =
     bindR (tpm_data_measured s name guid data) (\<lambda>measured.
       if measured then Inr (EFI_SUCCESS, s, w)
       else let VarLogSize = (32 + length name * 2 + length data) mod 2 ^ 32;
                VarLog = variable_event name guid data
         in if \<not> pool VarLogSize then Inr (EFI_OUT_OF_RESOURCES, s, w)
            else if VarLogSize < length VarLog then Inl Fault
            else case tpm_log_event_raw fw require_tpm pool s w VarLog 7 VarLog EV_EFI_VARIABLE_AUTHORITY None of
              (st, s', w') \<Rightarrow>
                if EFI_ERROR st then Inr (st, s', w')
                else bindR (tpm_record_data_measurement pool s' name guid data) (\<lambda>(st', s'').
                       Inr (st', s'', w')))"

section \<open>Measuring once\<close>

text \<open>The variables measured so far, and the invariant of the array.\<close>

definition measured_records :: "tpm_state \<Rightarrow> variable_record list" where
  "measured_records s = (case measureddata s of None \<Rightarrow> [] | Some rs \<Rightarrow> rs)"

definition measured :: "tpm_state \<Rightarrow> (string \<times> guid \<times> bytes) set" where
  "measured s = (\<lambda>r. (vr_VariableName r, vr_VendorGuid r, vr_Data r)) ` set (measured_records s)"

definition tpm_ok :: "tpm_state \<Rightarrow> bool" where
  "tpm_ok s \<longleftrightarrow> length (measured_records s) = measuredcount s"

lemma data_measured_eq: "tpm_ok s \<Longrightarrow> tpm_data_measured s name guid data = Inr ((name, guid, data) \<in> measured s)"
  by (auto simp add: tpm_ok_def tpm_data_measured_def measured_def measured_records_def split: option.splits)

lemma record_measurement:
  assumes "tpm_ok s" and "tpm_record_data_measurement pool s name guid data = Inr (st, s')" and "\<not> EFI_ERROR st"
  shows "tpm_ok s' \<and> measured s' = insert (name, guid, data) (measured s)"
  using assms
  by (auto simp add: tpm_record_data_measurement_def tpm_ok_def measured_def measured_records_def Let_def
      split: option.splits if_splits)

lemma log_event_state:
  "tpm_log_event_raw fw rq pool s w buf pcr log type hash = (st, s', w') \<Longrightarrow>
   measuredcount s' = measuredcount s \<and> measureddata s' = measureddata s"
  by (auto simp add: tpm_log_event_raw_def tpm1_log_event_def Let_def
      split: prod.splits if_splits sum.splits located.splits)

lemma log_event_measured:
  "tpm_log_event_raw fw rq pool s w buf pcr log type hash = (st, s', w') \<Longrightarrow>
   measured s' = measured s \<and> tpm_ok s' = tpm_ok s"
  by (drule log_event_state) (simp add: measured_def tpm_ok_def measured_records_def)

lemma measure_again:
  "tpm_ok s \<Longrightarrow> (name, guid, data) \<in> measured s \<Longrightarrow>
   tpm_measure_variable fw rq pool s w name guid data = Inr (EFI_SUCCESS, s, w)"
  by (simp add: tpm_measure_variable_def data_measured_eq)

lemma measure_variable_success:
  assumes "tpm_ok s" and "tpm_measure_variable fw rq pool s w name guid data = Inr (st, s', w')"
    and "\<not> EFI_ERROR st"
  shows "tpm_ok s' \<and> measured s' = insert (name, guid, data) (measured s)"
proof (cases "(name, guid, data) \<in> measured s")
  case True
  then show ?thesis using assms by (auto simp add: measure_again)
next
  case False
  let ?log = "variable_event name guid data"
  obtain st1 s1 w1 where l: "tpm_log_event_raw fw rq pool s w ?log 7 ?log EV_EFI_VARIABLE_AUTHORITY None = (st1, s1, w1)"
    by (metis prod_cases3)
  have "tpm_record_data_measurement pool s1 name guid data = Inr (st, s')"
    using assms(2,3) False data_measured_eq [OF assms(1)] l
    by (auto simp add: tpm_measure_variable_def Let_def bindR_eq_Inr split: if_splits)
  then show ?thesis using record_measurement [of s1 pool name guid data st s'] assms(1,3) log_event_measured [OF l] by simp
qed

section \<open>One event for one measurement\<close>

text \<open>
  What is documented of the protocols: an event that is accepted is appended to the log with the
  buffer that was hashed (or the digest that was given), one that is refused is not.
\<close>

type_synonym log_entry = "u32 \<times> u32 \<times> bytes \<times> bytes"

definition tpm_firmware :: "'w tpm_protocols \<Rightarrow> ('w \<Rightarrow> log_entry list) \<Rightarrow> bool" where
  "tpm_firmware fw events \<longleftrightarrow>
     (\<forall>w flags buf ev st w'. hash_log_extend_event fw w flags buf ev = (st, w') \<longrightarrow>
        events w' = (if EFI_ERROR st then events w
                     else events w @ [(ev2_PCRIndex ev, ev2_EventType ev, ev2_Event ev, buf)]))
   \<and> (\<forall>w buf ev st w'. log_extend_event fw w buf ev = (st, w') \<longrightarrow>
        events w' = (if EFI_ERROR st then events w
                     else events w @ [(ev_PCRIndex ev, ev_EventType ev, ev_Event ev,
                            case ev_digest ev of None \<Rightarrow> buf | Some d \<Rightarrow> d)]))"

lemma tpm2_event:
  "tpm_firmware fw events \<Longrightarrow> hash_log_extend_event fw w flags buf ev = (st, w') \<Longrightarrow>
   events w' = (if EFI_ERROR st then events w
                else events w @ [(ev2_PCRIndex ev, ev2_EventType ev, ev2_Event ev, buf)])"
  by (simp only: tpm_firmware_def)

lemma tpm1_event:
  "tpm_firmware fw events \<Longrightarrow> log_extend_event fw w buf ev = (st, w') \<Longrightarrow>
   events w' = (if EFI_ERROR st then events w
                else events w @ [(ev_PCRIndex ev, ev_EventType ev, ev_Event ev,
                       case ev_digest ev of None \<Rightarrow> buf | Some d \<Rightarrow> d)])"
  by (simp only: tpm_firmware_def)

text \<open>The entry of a measurement; a TPM 1.2 is given the hash of a PE image.\<close>

definition entry_for :: "located \<Rightarrow> bytes \<Rightarrow> u8 \<Rightarrow> bytes \<Rightarrow> u32 \<Rightarrow> bytes option \<Rightarrow> log_entry" where
  "entry_for k buf pcr log type hash =
     (ucast pcr, type, log, if k = Tpm12 then (case hash of None \<Rightarrow> buf | Some h \<Rightarrow> h) else buf)"

lemma tpm2_log_event_events:
  assumes "tpm_firmware fw events" and "tpm2_log_event fw pool w buf pcr log type hash = (st, w')"
  shows "events w' = (if EFI_ERROR st then events w else events w @ [entry_for Tpm2 buf pcr log type hash])"
  using assms(2)
  by (auto simp add: tpm2_log_event_def Let_def new_event_def entry_for_def split: prod.splits if_splits
      dest!: tpm2_event [OF assms(1)])

lemma tpm1_log_event_events:
  assumes "tpm_firmware fw events" and "tpm1_log_event fw pool s w buf pcr log type hash = (st, s', w')"
    and "tpm_locate_protocol fw s w = Inr Tpm12"
  shows "events w' = (if EFI_ERROR st \<or> tpm_defective s' \<noteq> tpm_defective s then events w
                      else events w @ [entry_for Tpm12 buf pcr log type hash])"
proof -
  have p: "\<not> EFI_ERROR (locate_tpm fw w)" "tpm_present fw s w"
    using assms(3) by (auto simp add: tpm_locate_protocol_def split: if_splits sum.splits prod.splits)
  then have d: "\<not> tpm_defective s" by (simp add: tpm_present_def split: if_splits)
  show ?thesis using assms(2) p d
    by (auto simp add: tpm1_log_event_def Let_def entry_for_def split: prod.splits if_splits option.splits
        dest!: tpm1_event [OF assms(1)])
qed

text \<open>
  What a measurement does, without a confidential computing protocol: with a TPM, success means
  exactly one new entry in its log, unless the TPM 1.2 was found to be defective; without one, or on
  an error, the log is as before.
\<close>

lemma log_event_raw_events:
  assumes fw: "tpm_firmware fw events" and cc: "\<not> locate_cc fw w"
    and run: "tpm_log_event_raw fw rq pool s w buf pcr log type hash = (st, s', w')"
  shows "events w' =
     (case tpm_locate_protocol fw s w of
        Inl _ \<Rightarrow> events w
      | Inr k \<Rightarrow> if EFI_ERROR st \<or> tpm_defective s' \<noteq> tpm_defective s then events w
                 else events w @ [entry_for k buf pcr log type hash])"
proof (cases "tpm_locate_protocol fw s w")
  case (Inl e)
  then show ?thesis using cc run
    by (auto simp add: tpm_log_event_raw_def cc_log_event_raw_def split: if_splits)
next
  case (Inr k)
  show ?thesis
  proof (cases k)
    case Tpm2
    with Inr cc run obtain w2 where "tpm2_log_event fw pool w buf pcr log type hash = (st, w2)" "s' = s" "w' = w2"
      by (auto simp add: tpm_log_event_raw_def cc_log_event_raw_def split: prod.splits)
    with Inr Tpm2 show ?thesis using tpm2_log_event_events [OF fw] by simp
  next
    case Tpm12
    with Inr cc run have "tpm1_log_event fw pool s w buf pcr log type hash = (st, s', w')"
      by (simp add: tpm_log_event_raw_def cc_log_event_raw_def)
    with Inr Tpm12 show ?thesis using tpm1_log_event_events [OF fw] by simp
  qed
qed

lemma log_event_raw_defective:
  assumes "\<not> locate_cc fw w" and "EFI_ERROR (locate_tpm2 fw w)" and "tpm_defective s" and "\<not> rq"
    and "EFI_ERROR (locate_tpm fw w) \<longrightarrow> locate_tpm fw w = EFI_NOT_FOUND"
  shows "tpm_log_event_raw fw rq pool s w buf pcr log type hash = (EFI_SUCCESS, s, w)"
  using assms by (auto simp add: tpm_log_event_raw_def cc_log_event_raw_def tpm_locate_protocol_def tpm_present_def)

section \<open>The event determines the variable\<close>

lemma wbytes_inj: "wbytes n = wbytes m \<Longrightarrow> n = m"
proof (induction n arbitrary: m)
  case Nil
  then have "length (wbytes m) = length (wbytes [])" by simp
  then show ?case by (simp only: length_wbytes) simp
next
  case (Cons a n)
  from Cons.prems have "length (wbytes m) = 2 * Suc (length n)" by (metis length_wbytes length_Cons)
  then obtain b k where m: "m = b # k" by (cases m) auto
  have "le_bytes 2 (of_char a) = le_bytes 2 (of_char b :: nat)" and r: "wbytes n = wbytes k"
    using Cons.prems m by (simp_all add: wbytes_def)
  then have "le_nat (le_bytes 2 (of_char a)) = le_nat (le_bytes 2 (of_char b))" by simp
  then have "a = b" using nat_of_char_less_256 [of a] nat_of_char_less_256 [of b]
    by (simp add: le_nat_le_bytes)
  then show ?case using Cons.IH [OF r] m by simp
qed

lemma variable_event_inj:
  assumes "length g = 16" "length h = 16" "length n < 2 ^ 64" "length m < 2 ^ 64"
    and "variable_event n g d = variable_event m h e"
  shows "n = m \<and> g = h \<and> d = e"
proof -
  have g: "g = h" and l: "le_bytes 8 (length n) = le_bytes 8 (length m)"
    and r: "wbytes n @ d = wbytes m @ e"
    using assms by (simp_all add: variable_event_def)
  from l have "le_nat (le_bytes 8 (length n)) = le_nat (le_bytes 8 (length m))" by simp
  then have "length n = length m" using assms by (simp add: le_nat_le_bytes)
  with r have "wbytes n = wbytes m" "d = e" by simp_all
  then show ?thesis using g wbytes_inj by blast
qed

section \<open>A firmware to evaluate on\<close>

text \<open>A TPM 2.0 whose state is its log, and which refuses to hash PE images itself.\<close>

definition demo_tpm :: "log_entry list tpm_protocols" where
  "demo_tpm = \<lparr>locate_cc = (\<lambda>w. False), map_pcr_to_mr_index = (\<lambda>w p. (EFI_UNSUPPORTED, 0)),
     cc_hash_log_extend_event = (\<lambda>w fl b ev. (EFI_UNSUPPORTED, w)),
     locate_tpm2 = (\<lambda>w. EFI_SUCCESS),
     get_capability = (\<lambda>w. (EFI_SUCCESS,
        \<lparr>StructureVersion_Major = 1, StructureVersion_Minor = 1, PresentFlag = True\<rparr>)),
     hash_log_extend_event = (\<lambda>w fl b ev. if fl = PE_COFF_IMAGE then (EFI_UNSUPPORTED, w)
        else (EFI_SUCCESS, w @ [(ev2_PCRIndex ev, ev2_EventType ev, ev2_Event ev, b)])),
     locate_tpm = (\<lambda>w. EFI_NOT_FOUND),
     status_check = (\<lambda>w. (EFI_UNSUPPORTED, \<lparr>tcg_TPMPresentFlag = False, tcg_TPMDeactivatedFlag = False\<rparr>)),
     log_extend_event = (\<lambda>w b ev. (EFI_UNSUPPORTED, w))\<rparr>"

lemma demo_tpm_firmware: "tpm_firmware demo_tpm (\<lambda>w. w)"
  by (auto simp add: tpm_firmware_def demo_tpm_def split: if_splits)

lemma demo_tpm_located: "tpm_locate_protocol demo_tpm s w = Inr Tpm2"
  by (simp add: tpm_locate_protocol_def tpm2_get_caps_def tpm2_present_def demo_tpm_def)

lemma demo_tpm_log:
  "tpm_log_event_raw demo_tpm rq (\<lambda>_. True) s w buf pcr log type hash
   = (EFI_SUCCESS, s, w @ [(ucast pcr, type, log, buf)])"
  by (auto simp add: tpm_log_event_raw_def demo_tpm_located cc_log_event_raw_def tpm2_log_event_def Let_def)
     (auto simp add: demo_tpm_def new_event_def PE_COFF_IMAGE_def)

definition demo_measured :: tpm_state where
  "demo_measured = \<lparr>tpm_defective = False, measuredcount = 1, measureddata =
     Some [\<lparr>vr_VariableName = ''db'', vr_VendorGuid = SIG_DB, vr_Data = [1, 2]\<rparr>]\<rparr>"

lemma demo_measure:
  "tpm_measure_variable demo_tpm rq (\<lambda>_. True) tpm_initial [] ''db'' SIG_DB [1, 2]
   = Inr (EFI_SUCCESS, demo_measured,
       [(7, EV_EFI_VARIABLE_AUTHORITY, variable_event ''db'' SIG_DB [1, 2], variable_event ''db'' SIG_DB [1, 2])])"
  by (simp add: tpm_measure_variable_def tpm_data_measured_def tpm_initial_def demo_tpm_log Let_def
      tpm_record_data_measurement_def demo_measured_def variable_event_def)

section \<open>Properties\<close>

text \<open>
  C31. A variable is measured once: after a successful measurement of the same name, GUID and
  contents, another one succeeds without touching the firmware; the records kept are exactly the
  earlier ones and the new one.
\<close>

theorem measure_variable_once:
  assumes "tpm_ok s" and "tpm_measure_variable fw rq pool s w name guid data = Inr (st, s', w')"
    and "\<not> EFI_ERROR st"
  shows "tpm_ok s' \<and> measured s' = insert (name, guid, data) (measured s)
    \<and> ((name, guid, data) \<in> measured s \<longrightarrow> s' = s \<and> w' = w)
    \<and> tpm_measure_variable fw rq' pool' s' v name guid data = Inr (EFI_SUCCESS, s', v)"
proof -
  note a = measure_variable_success [OF assms]
  have "(name, guid, data) \<in> measured s \<longrightarrow> s' = s \<and> w' = w"
    using measure_again [OF assms(1), of name guid data fw rq pool w] assms(2) by auto
  moreover have "tpm_measure_variable fw rq' pool' s' v name guid data = Inr (EFI_SUCCESS, s', v)"
    by (rule measure_again) (use a in auto)
  ultimately show ?thesis using a by blast
qed

theorem measure_variable_once_witness:
  "tpm_ok demo_measured \<and> measured demo_measured = insert (''db'', SIG_DB, [1, 2]) {}
   \<and> tpm_measure_variable demo_tpm False (\<lambda>_. True) demo_measured [] ''db'' SIG_DB [1, 2]
     = Inr (EFI_SUCCESS, demo_measured, [])"
  using measure_variable_once [OF _ demo_measure [of False], of False "\<lambda>_. True" "[]"]
  by (simp add: tpm_ok_def tpm_initial_def measured_def measured_records_def)

text \<open>
  A measurement is logged exactly once. Without a confidential computing protocol: where a TPM
  is found, success means that its log has got exactly one new entry, with the register, type, event
  and data of the call, also when the firmware refused to hash a PE image and the measurement is
  repeated without that flag; an error, or no TPM, leaves the log as it was. The exception is a TPM
  1.2 that does not support the call, which is remembered as defective; from then on measurements
  succeed without calling it.
\<close>

theorem log_event_exactly_once:
  assumes "tpm_firmware fw events" and "\<not> locate_cc fw w"
    and "tpm_log_event_raw fw rq pool s w buf pcr log type hash = (st, s', w')"
  shows "events w' =
     (case tpm_locate_protocol fw s w of
        Inl _ \<Rightarrow> events w
      | Inr k \<Rightarrow> if EFI_ERROR st \<or> tpm_defective s' \<noteq> tpm_defective s then events w
                 else events w @ [entry_for k buf pcr log type hash])
   \<and> (\<not> locate_cc fw v \<and> EFI_ERROR (locate_tpm2 fw v) \<and> locate_tpm fw v \<in> {EFI_SUCCESS, EFI_NOT_FOUND}
       \<and> tpm_defective s' \<and> \<not> rq \<longrightarrow>
      tpm_log_event_raw fw rq pool s' v buf pcr log type hash = (EFI_SUCCESS, s', v))"
  using log_event_raw_events [OF assms] log_event_raw_defective [of fw v s' rq] by auto

theorem log_event_exactly_once_witness:
  "[(4 :: u32, EV_IPL, [7], [1, 2, 3 :: u8])] = [] @ [entry_for Tpm2 [1, 2, 3] 4 [7] EV_IPL (Some [9])]"
  using log_event_exactly_once [OF demo_tpm_firmware _ demo_tpm_log [of False tpm_initial "[]" "[1, 2, 3]" 4 "[7]" EV_IPL "Some [9]"], of "[]"]
  by (simp add: demo_tpm_located) (simp add: demo_tpm_def)

text \<open>
  The event logged for a variable determines it: no two different variables have the same
  event.
\<close>

theorem variable_event_determines:
  assumes "length g = 16" "length h = 16" "length n < 2 ^ 64" "length m < 2 ^ 64"
  shows "variable_event n g d = variable_event m h e \<longleftrightarrow> n = m \<and> g = h \<and> d = e"
  using variable_event_inj [OF assms] by blast

theorem variable_event_determines_witness:
  "variable_event ''db'' SIG_DB [1, 2] \<noteq> variable_event ''db'' SIG_DB [1, 3]"
  using variable_event_determines [of SIG_DB SIG_DB "''db''" "''db''" "[1, 2]" "[1, 3]"] by simp

text \<open>
  When the array of measured variables cannot be grown, its pointer becomes null while its
  count stays positive: the next measurement, of any variable, reads through the null pointer.
\<close>

theorem measured_array_lost:
  assumes "measureddata s = Some rs" and "0 < measuredcount s" and "\<not> pool ((measuredcount s + 1) * 32)"
    and "tpm_record_data_measurement pool s name guid data = Inr (st, s')"
  shows "st = EFI_OUT_OF_RESOURCES
    \<and> tpm_measure_variable fw rq pool' s' w name' guid' data' = Inl Fault"
  using assms
  by (auto simp add: tpm_record_data_measurement_def tpm_measure_variable_def tpm_data_measured_def Let_def
      split: if_splits)

theorem measured_array_lost_witness:
  "tpm_measure_variable demo_tpm False (\<lambda>_. True) (demo_measured\<lparr>measureddata := None\<rparr>) [] ''dbx'' SIG_DB []
   = Inl Fault"
  using measured_array_lost [of demo_measured "[\<lparr>vr_VariableName = ''db'', vr_VendorGuid = SIG_DB, vr_Data = [1, 2]\<rparr>]" "\<lambda>n. n < 64"
      "''MokSBState''" SIG_DB "[1]" EFI_OUT_OF_RESOURCES "demo_measured\<lparr>measureddata := None\<rparr>" demo_tpm False "\<lambda>_. True" "[]" "''dbx''" SIG_DB "[]"]
  by (simp add: demo_measured_def tpm_record_data_measurement_def)

end
