(* ===== verification/Mok.thy ===== *)
theory Mok
  imports Tpm CStr
begin

text \<open>
  mok.c: the import of the variables of the machine owner key facility. Each is read, checked,
  mirrored into a variable the operating system can read, measured, and copied into a table for the
  operating system. The firmware's state \<open>'w\<close> is part of \<open>mok_world\<close>, with the program's
  global variables. Strings of 16-bit and of 8-bit characters are both \<open>string\<close>.
\<close>

section \<open>The environment and the state\<close>

datatype vendor_addend_category = VENDOR_ADDEND_DB | VENDOR_ADDEND_X509 | VENDOR_ADDEND_NONE

datatype categorizer = Categorize_authorized | Categorize_deauthorized

datatype mok_flag = User_insecure_mode | Ignore_db | Trust_mok_list | Mok_policy

text \<open>
  An entry of the table. \<open>v_addend\<close>, \<open>v_user_cert\<close> and \<open>v_build_cert\<close> are the bytes behind
  the pointers, \<open>None\<close> for a null pointer in the table or behind it; their sizes are the lengths.
  \<open>v_data\<close> is the object \<open>v->data\<close> points to, which may be longer than \<open>v_data_size\<close>.
\<close>

record mok_variable =
  v_name :: string
  v_rtname :: "string option"
  v_guid :: guid
  v_data :: "bytes option"
  v_data_size :: nat
  v_categorize_addend :: "categorizer option"
  v_addend :: "bytes option"
  v_user_cert :: "bytes option"
  v_build_cert :: "bytes option"
  v_yes_attr :: u32
  v_no_attr :: u32
  v_flags :: u32
  v_pcr :: u8
  v_state :: "mok_flag option"

text \<open>
  What is built in: the vendor's lists and the certificates, and the build options
  \<open>ENABLE_SHIM_CERT\<close> and \<open>ENABLE_SHIM_DEVEL\<close>.
\<close>

record mok_vendor =
  vendor_authorized :: bytes
  vendor_authorized_category :: vendor_addend_category
  vendor_deauthorized :: bytes
  user_cert :: bytes
  build_cert :: "bytes option"
  shim_devel :: bool

text \<open>
  The firmware: runtime services, TPM, allocation of pool memory and of pages, the revision of the
  runtime services, and the functions of the EFI library. \<open>me_LibDeleteVariable\<close>,
  \<open>me_SPrint\<close> (the name, the number and the size in bytes of the buffer) belong to the library;
  \<open>me_start_mok_manager\<close> runs another program.
\<close>

record 'w mok_env =
  me_rt :: "'w efi_rt"
  me_tpm :: "'w tpm_protocols"
  me_require_tpm :: bool
  me_pool :: "nat \<Rightarrow> bool"
  me_major_version :: nat
  me_category :: vendor_addend_category
  me_LibDeleteVariable :: "'w \<Rightarrow> string \<Rightarrow> guid \<Rightarrow> efi_status \<times> 'w"
  me_SPrint :: "string \<Rightarrow> nat \<Rightarrow> nat \<Rightarrow> string"
  me_AllocatePages :: "nat \<Rightarrow> bool"
  me_InstallConfigurationTable :: "'w \<Rightarrow> guid \<Rightarrow> bytes \<Rightarrow> efi_status \<times> 'w"
  me_start_mok_manager :: "'w \<Rightarrow> efi_status \<times> 'w"

record 'w mok_world =
  mw_fw :: 'w
  mw_tpm :: tpm_state
  mw_user_insecure_mode :: u8
  mw_ignore_db :: u8
  mw_trust_mok_list :: u8
  mw_mok_policy :: u8

definition MOK_MIRROR_KEYDB :: u32 where "MOK_MIRROR_KEYDB = 0x01"
definition MOK_MIRROR_DELETE_FIRST :: u32 where "MOK_MIRROR_DELETE_FIRST = 0x02"
definition MOK_VARIABLE_MEASURE :: u32 where "MOK_VARIABLE_MEASURE = 0x04"
definition MOK_VARIABLE_LOG :: u32 where "MOK_VARIABLE_LOG = 0x08"
definition MOK_VARIABLE_INVERSE :: u32 where "MOK_VARIABLE_INVERSE = 0x10"

lemmas mok_flag_defs = MOK_MIRROR_KEYDB_def MOK_MIRROR_DELETE_FIRST_def MOK_VARIABLE_MEASURE_def
  MOK_VARIABLE_LOG_def MOK_VARIABLE_INVERSE_def

definition mok_has :: "mok_variable \<Rightarrow> u32 \<Rightarrow> bool" where
  "mok_has v f \<longleftrightarrow> v_flags v AND f \<noteq> 0"

section \<open>The table\<close>

definition categorize :: "'w mok_env \<Rightarrow> mok_variable \<Rightarrow> vendor_addend_category" where
  "categorize env v =
     (case v_categorize_addend v of
        None \<Rightarrow> VENDOR_ADDEND_NONE
      | Some c \<Rightarrow>
          if v_addend v = None \<or> v_addend v = Some [] then VENDOR_ADDEND_NONE
          else (case c of Categorize_authorized \<Rightarrow> me_category env
                | Categorize_deauthorized \<Rightarrow> VENDOR_ADDEND_DB))"

definition should_mirror_build_cert :: "mok_variable \<Rightarrow> bool" where
  "should_mirror_build_cert v \<longleftrightarrow> v_build_cert v \<noteq> None \<and> v_build_cert v \<noteq> Some []"

definition mok_entry :: "string \<Rightarrow> string \<Rightarrow> u32 \<Rightarrow> u8 \<Rightarrow> mok_flag option \<Rightarrow> mok_variable" where
  "mok_entry name rtname flags pcr state =
     \<lparr>v_name = name, v_rtname = Some rtname, v_guid = SHIM_LOCK_GUID, v_data = None, v_data_size = 0,
      v_categorize_addend = None, v_addend = None, v_user_cert = None, v_build_cert = None,
      v_yes_attr = EFI_VARIABLE_BOOTSERVICE_ACCESS OR EFI_VARIABLE_NON_VOLATILE,
      v_no_attr = EFI_VARIABLE_RUNTIME_ACCESS, v_flags = flags, v_pcr = pcr, v_state = state\<rparr>"

definition mok_state_variable_data :: "mok_vendor \<Rightarrow> mok_variable list" where
  "mok_state_variable_data b =
     [(mok_entry ''MokList'' ''MokListRT'' (MOK_MIRROR_KEYDB OR MOK_MIRROR_DELETE_FIRST OR MOK_VARIABLE_LOG) 14 None)
        \<lparr>v_categorize_addend := Some Categorize_authorized, v_addend := Some (vendor_authorized b),
         v_user_cert := Some (user_cert b), v_build_cert := build_cert b\<rparr>,
      (mok_entry ''MokListX'' ''MokListXRT'' (MOK_MIRROR_KEYDB OR MOK_MIRROR_DELETE_FIRST OR MOK_VARIABLE_LOG) 14 None)
        \<lparr>v_categorize_addend := Some Categorize_deauthorized, v_addend := Some (vendor_deauthorized b)\<rparr>,
      mok_entry ''MokSBState'' ''MokSBStateRT'' (MOK_MIRROR_DELETE_FIRST OR MOK_VARIABLE_MEASURE OR MOK_VARIABLE_LOG) 14
        (Some User_insecure_mode),
      mok_entry ''MokDBState'' ''MokIgnoreDB'' 0 0 (Some Ignore_db),
      (mok_entry (if shim_devel b then ''SbatLevel_DEVEL'' else ''SbatLevel'')
                 (if shim_devel b then ''SbatLevelRT_DEVEL'' else ''SbatLevelRT'')
                 (MOK_MIRROR_DELETE_FIRST OR MOK_VARIABLE_MEASURE) 7 None)
        \<lparr>v_no_attr := (if shim_devel b then 0 else EFI_VARIABLE_RUNTIME_ACCESS)\<rparr>,
      mok_entry ''MokListTrusted'' ''MokListTrustedRT''
        (MOK_MIRROR_DELETE_FIRST OR MOK_VARIABLE_INVERSE OR MOK_VARIABLE_LOG) 14 (Some Trust_mok_list),
      mok_entry ''MokPolicy'' ''MokPolicyRT'' (MOK_MIRROR_DELETE_FIRST OR MOK_VARIABLE_LOG) 14 (Some Mok_policy)]"

definition set_state :: "mok_flag \<Rightarrow> u8 \<Rightarrow> 'w mok_world \<Rightarrow> 'w mok_world" where
  "set_state f x s =
     (case f of User_insecure_mode \<Rightarrow> s\<lparr>mw_user_insecure_mode := x\<rparr>
      | Ignore_db \<Rightarrow> s\<lparr>mw_ignore_db := x\<rparr>
      | Trust_mok_list \<Rightarrow> s\<lparr>mw_trust_mok_list := x\<rparr>
      | Mok_policy \<Rightarrow> s\<lparr>mw_mok_policy := x\<rparr>)"

definition get_state :: "mok_flag \<Rightarrow> 'w mok_world \<Rightarrow> u8" where
  "get_state f s =
     (case f of User_insecure_mode \<Rightarrow> mw_user_insecure_mode s | Ignore_db \<Rightarrow> mw_ignore_db s
      | Trust_mok_list \<Rightarrow> mw_trust_mok_list s | Mok_policy \<Rightarrow> mw_mok_policy s)"

section \<open>Requests for MokManager\<close>

definition check_var :: "'w efi_rt \<Rightarrow> 'w \<Rightarrow> string \<Rightarrow> bool" where
  "check_var rt w varname =
     (let st = gv_status (GetVariable rt w varname SHIM_LOCK_GUID True 4)
      in \<not> EFI_ERROR st \<or> st = EFI_BUFFER_TOO_SMALL)"

definition mok_request_names :: "string list" where
  "mok_request_names = [''MokNew'', ''MokSB'', ''MokPW'', ''MokAuth'', ''MokDel'', ''MokDB'',
     ''MokXNew'', ''MokXDel'', ''MokXAuth'', ''MokListTrustedNew'']"

definition check_mok_request :: "'w mok_env \<Rightarrow> 'w \<Rightarrow> efi_status \<times> 'w" where
  "check_mok_request env w =
     (if list_ex (check_var (me_rt env) w) mok_request_names
      then (case me_start_mok_manager env w of
              (st, w') \<Rightarrow> (if EFI_ERROR st then st else EFI_SUCCESS, w'))
      else (EFI_SUCCESS, w))"

section \<open>Mirroring a signature database\<close>

definition get_max_var_sz :: "'w mok_env \<Rightarrow> 'w \<Rightarrow> u32 \<Rightarrow> efi_status \<times> nat" where
  "get_max_var_sz env w attrs =
     (if me_major_version env < 2 then (EFI_SUCCESS, 1024)
      else case QueryVariableInfo (me_rt env) w attrs of
        (st, max_storage_sz, remaining_sz, max_var_sz) \<Rightarrow>
          if EFI_ERROR st then (st, 0) else (st, if max_var_sz < remaining_sz then max_var_sz else remaining_sz))"

text \<open>\<open>FullData\<close> from \<open>pos\<close> on is the object \<open>esd\<close> points into.\<close>

definition mirror_one_esl ::
  "'w mok_env \<Rightarrow> 'w \<Rightarrow> string \<Rightarrow> guid \<Rightarrow> u32 \<Rightarrow> guid \<Rightarrow> nat \<Rightarrow> bytes \<Rightarrow> nat \<Rightarrow> (efi_status \<times> 'w) res"
where
  "mirror_one_esl env w name guid attrs ty sig_size esd howmany =
     bindR (variable_create_esl (me_pool env) esd howmany ty sig_size) (\<lambda>(st, var, varsz).
       if EFI_ERROR st then Inr (st, w)
       else case var of
         None \<Rightarrow> Inr (st, w)
       | Some x \<Rightarrow> if varsz = 0 then Inr (st, w)
                   else Inr (SetVariable (me_rt env) w name guid attrs (take varsz x)))"

text \<open>
  The name of the variable for the \<open>i\<close>th part. \<open>namen\<close> has room for \<open>namesz\<close> bytes, and the
  character at \<open>namelen - 1\<close> is written.
\<close>

definition mirror_name :: "'w mok_env \<Rightarrow> string \<Rightarrow> bool \<Rightarrow> nat \<Rightarrow> string res" where
  "mirror_name env name only_first i =
     (if only_first then Inr name
      else let namelen = length name + 18; namesz = length name * 2 + 34 in
        if namelen - 1 < namesz div 2 then Inr (me_SPrint env name i namelen) else Inl Fault)"

definition esl_sizes :: "bytes \<Rightarrow> nat \<Rightarrow> (guid \<times> nat \<times> nat) res" where
  "esl_sizes data esl =
     bindR (get_bytes data esl 16) (\<lambda>ty.
       bindR (get_le data (esl + 16) 4) (\<lambda>list_size.
         bindR (get_le data (esl + 24) 4) (\<lambda>sig_size. Inr (ty, list_size, sig_size))))"

text \<open>How many signatures fit into a variable of that name.\<close>

definition fitting :: "nat \<Rightarrow> string \<Rightarrow> nat \<Rightarrow> nat \<Rightarrow> nat" where
  "fitting max_var_sz namen room sig_size =
     (let namen_sz = (length namen + 1) * 2;
          m = (if namen_sz < max_var_sz then max_var_sz - namen_sz else 0)
      in if 28 < m then min ((m - 28) div sig_size) (room div sig_size) else 0)"

text \<open>
  The loop of \<open>mirror_mok_db\<close>. It ends by a \<open>break\<close> or at the end of the data (first component
  false), or by an early return with the status (true); \<open>did_one\<close> comes with the status.
\<close>

definition min_esl_sz :: nat where "min_esl_sz = 28 + 17 + 20"

partial_function (option) mirror_db_loop ::
  "'w mok_env \<Rightarrow> string \<Rightarrow> guid \<Rightarrow> u32 \<Rightarrow> bytes \<Rightarrow> nat \<Rightarrow> bool
   \<Rightarrow> nat \<Rightarrow> nat \<Rightarrow> nat option \<Rightarrow> nat \<Rightarrow> bool \<Rightarrow> efi_status \<Rightarrow> 'w
   \<Rightarrow> (bool \<times> bool \<times> efi_status \<times> 'w) res option"
where
  "mirror_db_loop env name guid attrs data n only_first i pos esl esl_end did_one st w =
     (if min_esl_sz \<le> size_sub n pos then
        (case (if esl = None \<or> esl_end \<le> pos
               then bindR (get_le data (pos + 16) 4) (\<lambda>ls. Inr (pos, pos + ls, pos + 28))
               else Inr (the esl, esl_end, pos)) of
           Inl e \<Rightarrow> Some (Inl e)
         | Inr (esl, esl_end, pos) \<Rightarrow>
             if n \<le> pos then Some (Inr (False, did_one, st, w))
             else case esl_sizes data esl of
               Inl e \<Rightarrow> Some (Inl e)
             | Inr (ty, list_size, sig_size) \<Rightarrow>
                 if list_size = 0 \<or> sig_size = 0 then Some (Inr (False, did_one, st, w))
                 else case mirror_name env name only_first i of
                   Inl e \<Rightarrow> Some (Inl e)
                 | Inr namen \<Rightarrow>
                     (case get_max_var_sz env w attrs of
                        (st, max_var_sz) \<Rightarrow>
                          if EFI_ERROR st then Some (Inr (True, did_one, st, w))
                          else let howmany = fitting max_var_sz namen (size_sub esl_end pos) sig_size;
                                   adj = howmany * sig_size in
                            if howmany = 0
                            then mirror_db_loop env name guid attrs data n only_first i esl_end (Some esl) esl_end did_one st w
                            else if \<not> only_first \<and> i = 0
                            then mirror_db_loop env name guid attrs data n only_first (i + 1) (pos + adj) (Some esl) esl_end did_one st w
                            else case mirror_one_esl env w namen guid attrs ty sig_size (drop pos data) howmany of
                              Inl e \<Rightarrow> Some (Inl e)
                            | Inr (st, w) \<Rightarrow>
                                if EFI_ERROR st then Some (Inr (False, did_one, st, w))
                                else if only_first then Some (Inr (False, True, st, w))
                                else mirror_db_loop env name guid attrs data n only_first (i + 1) (pos + adj) (Some esl) esl_end True st w))
      else Some (Inr (False, did_one, st, w)))"

declare mirror_db_loop.simps [code]

text \<open>The dummy entry is a hash whose value is 32 zero bytes.\<close>

definition null_sha256 :: bytes where "null_sha256 = replicate 32 0"

definition create_dummy :: "'w mok_env \<Rightarrow> 'w \<Rightarrow> string \<Rightarrow> guid \<Rightarrow> (efi_status \<times> 'w) res" where
  "create_dummy env w name guid =
     bindR (variable_create_esl_with_one_signature (me_pool env) null_sha256 32 EFI_CERT_SHA256_GUID
              (Some SHIM_LOCK_GUID)) (\<lambda>(st, var, varsz).
       if EFI_ERROR st then Inr (st, w)
       else case var of
         None \<Rightarrow> Inr (st, w)
       | Some x \<Rightarrow> if varsz = 0 then Inr (st, w)
                   else Inr (SetVariable (me_rt env) w name guid
                          (EFI_VARIABLE_BOOTSERVICE_ACCESS OR EFI_VARIABLE_RUNTIME_ACCESS) (take varsz x)))"

definition mirror_mok_db ::
  "'w mok_env \<Rightarrow> 'w \<Rightarrow> string \<Rightarrow> guid \<Rightarrow> u32 \<Rightarrow> bytes \<Rightarrow> nat \<Rightarrow> bool \<Rightarrow> (efi_status \<times> 'w) res option"
where
  "mirror_mok_db env w name guid attrs data n only_first =
     (case get_max_var_sz env w attrs of
        (st, max_var_sz) \<Rightarrow>
          if EFI_ERROR st \<and> st \<noteq> EFI_UNSUPPORTED then Some (Inr (st, w))
          else if n \<le> max_var_sz \<or> st = EFI_UNSUPPORTED then
            (if only_first
             then Some (bindR (get_bytes data 0 n) (\<lambda>d. Inr (SetVariable (me_rt env) w name guid attrs d)))
             else Some (Inr (EFI_SUCCESS, w)))
          else if \<not> only_first \<and> \<not> (me_pool env (length name * 2 + 34) \<and> me_pool env (length name + 18))
          then Some (Inr (EFI_OUT_OF_RESOURCES, w))
          else case mirror_db_loop env name guid attrs data n only_first 0 0 None 0 False st w of
            None \<Rightarrow> None
          | Some (Inl e) \<Rightarrow> Some (Inl e)
          | Some (Inr (early, did_one, st, w)) \<Rightarrow>
              if early \<or> EFI_ERROR st then Some (Inr (st, w))
              else if only_first \<and> \<not> did_one then Some (create_dummy env w name guid)
              else Some (Inr (st, w)))"

section \<open>Mirroring one variable\<close>

text \<open>The size a certificate takes as a list of its own; the other status is an early return.\<close>

definition cert_esl_size :: "'w mok_env \<Rightarrow> bytes \<Rightarrow> nat res" where
  "cert_esl_size env cert =
     bindR (fill_esl_with_one_signature (me_pool env) cert (length cert) EFI_CERT_TYPE_X509_GUID
              (Some SHIM_LOCK_GUID) None 0) (\<lambda>(st, _, n).
       if st \<noteq> EFI_BUFFER_TOO_SMALL then Inl (Status st) else Inr n)"

text \<open>The sizes of the addend, of the build certificate's list and of the user's certificates.\<close>

definition addend_bytes :: "mok_variable \<Rightarrow> bytes" where
  "addend_bytes v = (case v_addend v of None \<Rightarrow> [] | Some a \<Rightarrow> a)"

definition user_cert_bytes :: "mok_variable \<Rightarrow> bytes" where
  "user_cert_bytes v = (case v_user_cert v of None \<Rightarrow> [] | Some a \<Rightarrow> a)"

definition build_cert_bytes :: "mok_variable \<Rightarrow> bytes" where
  "build_cert_bytes v = (case v_build_cert v of None \<Rightarrow> [] | Some a \<Rightarrow> a)"

definition addend_size :: "'w mok_env \<Rightarrow> mok_variable \<Rightarrow> nat res" where
  "addend_size env v =
     (case categorize env v of
        VENDOR_ADDEND_DB \<Rightarrow> Inr (length (addend_bytes v))
      | VENDOR_ADDEND_X509 \<Rightarrow> cert_esl_size env (addend_bytes v)
      | VENDOR_ADDEND_NONE \<Rightarrow> Inr 0)"

definition build_cert_esl_size :: "'w mok_env \<Rightarrow> mok_variable \<Rightarrow> nat res" where
  "build_cert_esl_size env v =
     (if should_mirror_build_cert v then cert_esl_size env (build_cert_bytes v) else Inr 0)"

text \<open>Copies into the buffer at \<open>p\<close>; the results are the buffer and the place after the copy.\<close>

definition copy_at :: "bytes \<times> nat \<Rightarrow> bytes \<Rightarrow> (bytes \<times> nat) res" where
  "copy_at bp bs =
     (case bp of (buf, p) \<Rightarrow>
        if p + length bs \<le> length buf
        then Inr (take p buf @ bs @ drop (p + length bs) buf, p + length bs) else Inl Fault)"

definition cert_at :: "'w mok_env \<Rightarrow> nat \<Rightarrow> bytes \<Rightarrow> bytes \<times> nat \<Rightarrow> (bytes \<times> nat) res" where
  "cert_at env sz cert bp =
     (case bp of (buf, p) \<Rightarrow>
        bindR (fill_esl_with_one_signature (me_pool env) cert (length cert) EFI_CERT_TYPE_X509_GUID
                 (Some SHIM_LOCK_GUID) (Some (drop p buf)) sz) (\<lambda>(st, out, n).
          if EFI_ERROR st then Inl (Status st)
          else (case out of None \<Rightarrow> Inl Fault | Some x \<Rightarrow> Inr (take p buf @ x, p + n))))"

definition fill_addend :: "'w mok_env \<Rightarrow> mok_variable \<Rightarrow> nat \<Rightarrow> bytes \<times> nat \<Rightarrow> (bytes \<times> nat) res" where
  "fill_addend env v sz bp =
     (case categorize env v of
        VENDOR_ADDEND_DB \<Rightarrow> copy_at bp (addend_bytes v)
      | VENDOR_ADDEND_X509 \<Rightarrow> cert_at env sz (addend_bytes v) bp
      | VENDOR_ADDEND_NONE \<Rightarrow> Inr bp)"

definition fill_build_cert :: "'w mok_env \<Rightarrow> mok_variable \<Rightarrow> nat \<Rightarrow> bytes \<times> nat \<Rightarrow> (bytes \<times> nat) res" where
  "fill_build_cert env v sz bp =
     (if should_mirror_build_cert v then cert_at env sz (build_cert_bytes v) bp else Inr bp)"

definition fill_data :: "mok_variable \<Rightarrow> bool \<Rightarrow> bytes \<times> nat \<Rightarrow> (bytes \<times> nat) res" where
  "fill_data v reuse bp =
     (if reuse then Inr bp
      else case v_data v of
        None \<Rightarrow> Inr bp
      | Some d \<Rightarrow> if v_data_size v = 0 then Inr bp
                  else bindR (get_bytes d 0 (v_data_size v)) (copy_at bp))"

text \<open>The size of the buffer for \<open>n\<close> bytes: there are always some zeroes at the end.\<close>

definition mirror_alloc_size :: "nat \<Rightarrow> nat" where
  "mirror_alloc_size n =
     (let allocsz = n + 28; new = (allocsz + 4095) div 4096 * 4096
      in if new = allocsz then new + 4096 else new)"

definition keydb_sizes :: "'w mok_env \<Rightarrow> mok_variable \<Rightarrow> (nat \<times> nat \<times> nat) res" where
  "keydb_sizes env v =
     (if mok_has v MOK_MIRROR_KEYDB then
        bindR (addend_size env v) (\<lambda>a.
          bindR (build_cert_esl_size env v) (\<lambda>b. Inr (a, b, a + b + length (user_cert_bytes v))))
      else Inr (0, 0, 0))"

definition fill_keydb :: "'w mok_env \<Rightarrow> mok_variable \<Rightarrow> nat \<Rightarrow> nat \<Rightarrow> bytes \<times> nat \<Rightarrow> (bytes \<times> nat) res" where
  "fill_keydb env v a b bp =
     (if mok_has v MOK_MIRROR_KEYDB then
        bindR (fill_addend env v a bp) (\<lambda>bp.
          bindR (fill_build_cert env v b bp) (\<lambda>bp. copy_at bp (user_cert_bytes v)))
      else Inr bp)"

text \<open>
  The data to mirror, \<open>None\<close> for the null pointer, with its size. An existing variable that is all
  there is to mirror is not copied: its pointer moves from the table into \<open>FullData\<close>. The first
  component is the table entry, also where the result is an early return.
\<close>

definition full_data :: "'w mok_env \<Rightarrow> mok_variable \<Rightarrow> mok_variable \<times> (bytes option \<times> nat) res" where
  "full_data env v =
     (case keydb_sizes env v of
        Inl e \<Rightarrow> (v, Inl e)
      | Inr (a, b, extra) \<Rightarrow>
          let n = extra + v_data_size v; reuse = (v_data_size v = n) in
          if n = 0 then
            (if mok_has v MOK_MIRROR_KEYDB
             then (v, bindR (variable_create_esl_with_one_signature (me_pool env) null_sha256 32 EFI_CERT_SHA256_GUID
                        (Some SHIM_LOCK_GUID)) (\<lambda>(st, var, sz).
                        if EFI_ERROR st then Inl (Status st) else Inr (var, sz)))
             else (v, Inr (None, 0)))
          else if reuse then
            (case v_data v of
               None \<Rightarrow> (v, Inl Fault)
             | Some d \<Rightarrow> (v\<lparr>v_data := None, v_data_size := 0\<rparr>,
                 bindR (fill_keydb env v a b (d, n)) (\<lambda>(buf, p). Inr (Some buf, n))))
          else if \<not> me_pool env (mirror_alloc_size n) then (v, Inl (Status EFI_OUT_OF_RESOURCES))
          else (v, bindR (fill_keydb env v a b (replicate (mirror_alloc_size n) 0, 0)) (\<lambda>bp.
                     bindR (fill_data v reuse bp) (\<lambda>(buf, p). Inr (Some buf, n)))))"

definition mirror_attrs :: u32 where
  "mirror_attrs = EFI_VARIABLE_BOOTSERVICE_ACCESS OR EFI_VARIABLE_RUNTIME_ACCESS"

text \<open>The write of the runtime variable.\<close>

definition mirror_write ::
  "'w mok_env \<Rightarrow> mok_variable \<Rightarrow> string \<Rightarrow> bool \<Rightarrow> bytes \<Rightarrow> nat \<Rightarrow> 'w \<Rightarrow> (efi_status \<times> 'w) res option"
where
  "mirror_write env v rtname only_first data n w =
     (if mok_has v MOK_MIRROR_KEYDB then mirror_mok_db env w rtname (v_guid v) mirror_attrs data n only_first
      else if only_first
      then Some (bindR (get_bytes data 0 n) (\<lambda>d. Inr (SetVariable (me_rt env) w rtname (v_guid v) mirror_attrs d)))
      else Some (Inr (EFI_SUCCESS, w)))"

text \<open>
  The measurement and the log entry, on the first pass; each replaces the status. The first
  component is true for an early return.
\<close>

definition log_one ::
  "'w mok_env \<Rightarrow> mok_variable \<Rightarrow> bytes \<Rightarrow> efi_status \<Rightarrow> tpm_state \<Rightarrow> 'w
   \<Rightarrow> bool \<times> efi_status \<times> tpm_state \<times> 'w"
where
  "log_one env v d st t w =
     (if mok_has v MOK_VARIABLE_LOG then
        (case tpm_log_event (me_tpm env) (me_require_tpm env) (me_pool env) t w d (v_pcr v) (v_name v) of
           (st', t', w') \<Rightarrow> (EFI_ERROR st', st', t', w'))
      else (False, st, t, w))"

definition measure_one ::
  "'w mok_env \<Rightarrow> mok_variable \<Rightarrow> bytes \<Rightarrow> efi_status \<Rightarrow> tpm_state \<Rightarrow> 'w
   \<Rightarrow> (bool \<times> efi_status \<times> tpm_state \<times> 'w) res"
where
  "measure_one env v d st t w =
     (if mok_has v MOK_VARIABLE_MEASURE then
        bindR (tpm_measure_variable (me_tpm env) (me_require_tpm env) (me_pool env) t w (v_name v) (v_guid v) d)
          (\<lambda>(st1, t1, w1). Inr (if EFI_ERROR st1 then (True, st1, t1, w1) else log_one env v d st1 t1 w1))
      else Inr (log_one env v d st t w))"

definition mirror_one_mok_variable ::
  "'w mok_env \<Rightarrow> mok_variable \<Rightarrow> string \<Rightarrow> bool \<Rightarrow> 'w mok_world
   \<Rightarrow> (efi_status \<times> mok_variable \<times> 'w mok_world) res option"
where
  "mirror_one_mok_variable env v rtname only_first s =
     (case full_data env v of
        (v1, Inl Fault) \<Rightarrow> Some (Inl Fault)
      | (v1, Inl (Status st)) \<Rightarrow> Some (Inr (st, v1, s))
      | (v1, Inr (None, n)) \<Rightarrow> Some (Inr (EFI_SUCCESS, v1\<lparr>v_data := None, v_data_size := n\<rparr>, s))
      | (v1, Inr (Some data, n)) \<Rightarrow>
          (case mirror_write env v rtname only_first data n (mw_fw s) of
             None \<Rightarrow> None
           | Some (Inl e) \<Rightarrow> Some (Inl e)
           | Some (Inr (st, w1)) \<Rightarrow>
               if \<not> only_first
               then Some (Inr (st, v1\<lparr>v_data := Some data, v_data_size := n\<rparr>, s\<lparr>mw_fw := w1\<rparr>))
               else Some (bindR (get_bytes data 0 n) (\<lambda>d.
                      bindR (measure_one env v d st (mw_tpm s) w1) (\<lambda>(early, st2, t2, w2).
                        Inr (st2,
                          if early then v1 else v1\<lparr>v_data := Some data, v_data_size := n\<rparr>,
                          s\<lparr>mw_fw := w2, mw_tpm := t2\<rparr>))))))"

section \<open>Importing the variables\<close>

definition mirror_if_named ::
  "'w mok_env \<Rightarrow> mok_variable \<Rightarrow> efi_status \<Rightarrow> bool \<Rightarrow> 'w mok_world
   \<Rightarrow> (efi_status \<times> mok_variable \<times> 'w mok_world) res option"
where
  "mirror_if_named env v ret only_first s =
     (case v_rtname v of
        None \<Rightarrow> Some (Inr (ret, v, s))
      | Some rtname \<Rightarrow>
          let s1 = (if only_first \<and> mok_has v MOK_MIRROR_DELETE_FIRST
                    then s\<lparr>mw_fw := snd (me_LibDeleteVariable env (mw_fw s) rtname (v_guid v))\<rparr> else s)
          in (case mirror_one_mok_variable env v rtname only_first s1 of
                None \<Rightarrow> None
              | Some (Inl e) \<Rightarrow> Some (Inl e)
              | Some (Inr (st, v', s')) \<Rightarrow>
                  Some (Inr (if EFI_ERROR st \<and> ret \<noteq> EFI_SECURITY_VIOLATION then st else ret, v', s'))))"

text \<open>A one-byte variable goes into the program's own state.\<close>

definition apply_state :: "mok_variable \<Rightarrow> 'w mok_world \<Rightarrow> 'w mok_world res" where
  "apply_state v s =
     (case v_data v of
        None \<Rightarrow> Inr s
      | Some d \<Rightarrow>
          (case v_state v of
             None \<Rightarrow> Inr s
           | Some f \<Rightarrow> if v_data_size v = 1 then bindR (idx d 0) (\<lambda>x. Inr (set_state f x s)) else Inr s))"

definition maybe_mirror_one_mok_variable ::
  "'w mok_env \<Rightarrow> mok_variable \<Rightarrow> efi_status \<Rightarrow> bool \<Rightarrow> 'w mok_world
   \<Rightarrow> (efi_status \<times> mok_variable \<times> 'w mok_world) res option"
where
  "maybe_mirror_one_mok_variable env v ret only_first s =
     (case mirror_if_named env v ret only_first s of
        None \<Rightarrow> None
      | Some (Inl e) \<Rightarrow> Some (Inl e)
      | Some (Inr (ret, v, s)) \<Rightarrow> Some (bindR (apply_state v s) (\<lambda>s. Inr (ret, v, s))))"

text \<open>
  Reading the variable: the entry with its data, and whether the variable has to be deleted; the
  error is running out of memory.
\<close>

definition read_mok_variable :: "'w mok_env \<Rightarrow> 'w \<Rightarrow> mok_variable \<Rightarrow> efi_status + mok_variable \<times> bool" where
  "read_mok_variable env w v =
     (if v_data v \<noteq> None \<or> v_data_size v \<noteq> 0 then Inr (v, False)
      else case get_variable_attr (me_rt env) (me_pool env) w True (v_name v) (v_guid v) of
        (st, d, n, a) \<Rightarrow>
          let attrs = (case a of None \<Rightarrow> 0 | Some x \<Rightarrow> x) in
          if st = EFI_NOT_FOUND then
            (if mok_has v MOK_VARIABLE_INVERSE then
               (if \<not> me_pool env 4 then Inl EFI_OUT_OF_RESOURCES
                else Inr (v\<lparr>v_data := Some [1, 0, 0, 0], v_data_size := 1\<rparr>, False))
             else Inr (v\<lparr>v_data := None, v_data_size := 0\<rparr>, False))
          else if EFI_ERROR st then Inr (v\<lparr>v_data := d, v_data_size := n\<rparr>, True)
          else Inr (if mok_has v MOK_VARIABLE_INVERSE then v\<lparr>v_data := None, v_data_size := 0\<rparr>
                    else v\<lparr>v_data := d, v_data_size := n\<rparr>,
                    attrs AND v_yes_attr v = 0 \<or> attrs AND v_no_attr v \<noteq> 0))"

definition import_one_mok_state ::
  "'w mok_env \<Rightarrow> mok_variable \<Rightarrow> bool \<Rightarrow> 'w mok_world
   \<Rightarrow> (efi_status \<times> mok_variable \<times> 'w mok_world) res option"
where
  "import_one_mok_state env v only_first s =
     (case read_mok_variable env (mw_fw s) v of
        Inl st \<Rightarrow> Some (Inr (st, v, s))
      | Inr (v1, delete) \<Rightarrow>
          if delete then
            (case me_LibDeleteVariable env (mw_fw s) (v_name v) (v_guid v) of
               (st, w) \<Rightarrow>
                 maybe_mirror_one_mok_variable env (v1\<lparr>v_data := None, v_data_size := 0\<rparr>)
                   (if EFI_ERROR st then EFI_SECURITY_VIOLATION else EFI_SUCCESS) only_first (s\<lparr>mw_fw := w\<rparr>))
          else maybe_mirror_one_mok_variable env v1 EFI_SUCCESS only_first s)"

text \<open>The first loop of \<open>import_mok_state\<close>, and the second, whose statuses are dropped.\<close>

definition merge_status :: "efi_status \<Rightarrow> efi_status \<Rightarrow> efi_status" where
  "merge_status ret st = (if EFI_ERROR st \<and> ret \<noteq> EFI_SECURITY_VIOLATION then st else ret)"

fun import_variables ::
  "'w mok_env \<Rightarrow> bool \<Rightarrow> mok_variable list \<Rightarrow> efi_status \<Rightarrow> 'w mok_world
   \<Rightarrow> (efi_status \<times> mok_variable list \<times> 'w mok_world) res option"
where
  "import_variables env only_first [] ret s = Some (Inr (ret, [], s))"
| "import_variables env only_first (v # vs) ret s =
     (case import_one_mok_state env v only_first s of
        None \<Rightarrow> None
      | Some (Inl e) \<Rightarrow> Some (Inl e)
      | Some (Inr (st, v', s')) \<Rightarrow>
          (case import_variables env only_first vs (if only_first then merge_status ret st else ret) s' of
             None \<Rightarrow> None
           | Some (Inl e) \<Rightarrow> Some (Inl e)
           | Some (Inr (ret', vs', s'')) \<Rightarrow> Some (Inr (ret', v' # vs', s''))))"

section \<open>The configuration table\<close>

definition config_entry_size :: nat where "config_entry_size = 264"

definition has_data :: "mok_variable \<Rightarrow> bool" where
  "has_data v \<longleftrightarrow> v_data v \<noteq> None \<and> v_data_size v \<noteq> 0"

definition config_sz :: "mok_variable list \<Rightarrow> nat" where
  "config_sz vs = sum_list (map (\<lambda>v. if has_data v then v_data_size v + config_entry_size else 0) vs)"

text \<open>\<open>config_template\<close>: the name, at most 255 characters and NULs, and the size.\<close>

definition config_template :: "string \<Rightarrow> nat \<Rightarrow> bytes res" where
  "config_template rtname n =
     bindR (strncpy (replicate 256 0) (str8 rtname @ [0]) 255) (\<lambda>name.
       bindR (upd_idx name 255 0) (\<lambda>name. Inr (name @ le_bytes 8 n)))"

fun fill_config_table :: "mok_variable list \<Rightarrow> bytes \<times> nat \<Rightarrow> (bytes \<times> nat) res" where
  "fill_config_table [] bp = Inr bp"
| "fill_config_table (v # vs) bp =
     (case v_rtname v of
        None \<Rightarrow> Inl Fault
      | Some rtname \<Rightarrow>
          bindR (config_template rtname (v_data_size v)) (\<lambda>t.
            case v_data v of
              None \<Rightarrow> fill_config_table vs bp
            | Some d \<Rightarrow>
                if v_data_size v = 0 then fill_config_table vs bp
                else bindR (copy_at bp t) (\<lambda>bp.
                       bindR (get_bytes d 0 (v_data_size v)) (\<lambda>d.
                         bindR (copy_at bp d) (fill_config_table vs)))))"

text \<open>The pages of the table, \<open>None\<close> when there is nothing to put into it or no memory.\<close>

definition config_table :: "'w mok_env \<Rightarrow> mok_variable list \<Rightarrow> bytes option res" where
  "config_table env vs =
     (if config_sz vs = 0 then Inr None
      else let npages = (config_sz vs + config_entry_size + 4095) div 4096 in
        if \<not> me_AllocatePages env npages then Inr None
        else bindR (fill_config_table vs (replicate (npages * 4096) 0, 0)) (\<lambda>bp.
               bindR (copy_at bp (replicate config_entry_size 0)) (\<lambda>(table, p). Inr (Some table))))"

section \<open>The whole import\<close>

definition import_mok_state ::
  "'w mok_env \<Rightarrow> mok_variable list \<Rightarrow> 'w mok_world
   \<Rightarrow> (efi_status \<times> mok_variable list \<times> 'w mok_world) res option"
where
  "import_mok_state env vs s =
     (let s0 = s\<lparr>mw_user_insecure_mode := 0, mw_ignore_db := 0, mw_trust_mok_list := 0\<rparr> in
      case import_variables env True vs EFI_SUCCESS s0 of
        None \<Rightarrow> None
      | Some (Inl e) \<Rightarrow> Some (Inl e)
      | Some (Inr (ret, vs1, s1)) \<Rightarrow>
          (case config_table env vs1 of
             Inl e \<Rightarrow> Some (Inl e)
           | Inr table \<Rightarrow>
               let s2 = (case table of
                           None \<Rightarrow> s1
                         | Some t \<Rightarrow> s1\<lparr>mw_fw := snd (me_InstallConfigurationTable env (mw_fw s1) MOK_VARIABLE_STORE t)\<rparr>)
               in (case import_variables env False vs1 EFI_SUCCESS s2 of
                     None \<Rightarrow> None
                   | Some (Inl e) \<Rightarrow> Some (Inl e)
                   | Some (Inr (_, vs2, s3)) \<Rightarrow>
                       (case check_mok_request env (mw_fw s3) of
                          (st, w) \<Rightarrow> Some (Inr (merge_status ret st, vs2, s3\<lparr>mw_fw := w\<rparr>))))))"

end
