(* ===== verification/MokSpec.thy ===== *)
theory MokSpec
  imports Mok MockVars
begin

text \<open>
  What mok.c promises: the checks on the variables and the flags they set, the contents of the
  mirrored variables, the configuration table, the splitting of a database that is too large. The
  firmware is the locale \<open>mok_firmware\<close>: the variable services and what else the import calls.
\<close>

section \<open>Names of the parts\<close>

lemma mirror_name_Inr: "mirror_name env name only_first i = Inr m \<Longrightarrow> m = name \<and> only_first"
  by (auto simp add: mirror_name_def Let_def split: if_splits)

section \<open>What the mirroring writes\<close>

text \<open>\<open>writes env n g w w'\<close>: one call of \<open>SetVariable\<close>, or none.\<close>

definition writes :: "'w mok_env \<Rightarrow> string \<Rightarrow> guid \<Rightarrow> 'w \<Rightarrow> 'w \<Rightarrow> bool" where
  "writes env n g w w' \<longleftrightarrow> w' = w \<or> (\<exists>a d. w' = snd (SetVariable (me_rt env) w n g a d))"

lemma writes_refl [simp]: "writes env n g w w"
  by (simp add: writes_def)

lemma writes_set: "SetVariable (me_rt env) w n g a d = (st, w') \<Longrightarrow> writes env n g w w'"
  unfolding writes_def by (metis snd_conv)

lemma mirror_one_esl_writes:
  "mirror_one_esl env w n g a ty sz esd k = Inr (st, w') \<Longrightarrow> writes env n g w w'"
  by (auto simp add: mirror_one_esl_def bindR_eq_Inr split: if_splits option.splits dest: writes_set)

lemma create_dummy_writes: "create_dummy env w n g = Inr (st, w') \<Longrightarrow> writes env n g w w'"
  by (auto simp add: create_dummy_def bindR_eq_Inr split: if_splits option.splits dest: writes_set)

lemma mirror_db_loop_writes:
  "mirror_db_loop env n g a d k only_first i pos esl esl_end did st w = Some r \<Longrightarrow>
   (\<forall>e did' st' w'. r = Inr (e, did', st', w') \<longrightarrow>
     writes env n g w w' \<and> (w' = w \<or> EFI_ERROR st' \<or> did'))"
proof (induction rule: mirror_db_loop.raw_induct [rotated, consumes 1, case_names step])
  case (step loop env n g a d k only_first i pos esl esl_end did st w r)
  then show ?case
    by (simp split: if_splits sum.splits prod.splits add: Let_def)
       (auto dest: mirror_one_esl_writes mirror_name_Inr)
qed
lemma mirror_mok_db_writes:
  assumes "mirror_mok_db env w n g a d k only_first = Some (Inr (st, w'))"
  shows "writes env n g w w'"
proof -
  obtain st0 m where m: "get_max_var_sz env w a = (st0, m)" by fastforce
  show ?thesis
  proof (cases "(EFI_ERROR st0 \<and> st0 \<noteq> EFI_UNSUPPORTED) \<or> k \<le> m \<or> st0 = EFI_UNSUPPORTED
      \<or> (\<not> only_first \<and> \<not> (me_pool env (length n * 2 + 34) \<and> me_pool env (length n + 18)))")
    case True
    then show ?thesis using assms m
      by (auto simp add: mirror_mok_db_def bindR_eq_Inr split: if_splits dest: writes_set)
  next
    case False
    then obtain e did st1 w1 where
      l: "mirror_db_loop env n g a d k only_first 0 0 None 0 False st0 w = Some (Inr (e, did, st1, w1))"
      using assms m by (auto simp add: mirror_mok_db_def split: option.splits sum.splits)
    then have w: "writes env n g w w1" "w1 = w \<or> EFI_ERROR st1 \<or> did"
      using mirror_db_loop_writes [OF l] by auto
    have "w' = w1 \<or> (\<not> EFI_ERROR st1 \<and> \<not> did \<and> create_dummy env w1 n g = Inr (st, w'))"
      using assms m False l by (auto simp add: mirror_mok_db_def split: if_splits)
    then show ?thesis using w create_dummy_writes by auto
  qed
qed

lemma mirror_write_writes:
  "mirror_write env v n only_first d k w = Some (Inr (st, w')) \<Longrightarrow> writes env n (v_guid v) w w'"
  by (auto simp add: mirror_write_def bindR_eq_Inr split: if_splits dest: mirror_mok_db_writes writes_set)

section \<open>What the import keeps of a table entry\<close>

definition same_entry :: "mok_variable \<Rightarrow> mok_variable \<Rightarrow> bool" where
  "same_entry v v' \<longleftrightarrow> v\<lparr>v_data := None, v_data_size := 0\<rparr> = v'\<lparr>v_data := None, v_data_size := 0\<rparr>"

lemma same_entry_refl [simp]: "same_entry v v"
  by (simp add: same_entry_def)

lemma same_entry_trans: "same_entry u v \<Longrightarrow> same_entry v w \<Longrightarrow> same_entry u w"
  by (simp add: same_entry_def)

lemma same_entry_data [simp]: "same_entry v (v\<lparr>v_data := d, v_data_size := k\<rparr>)"
  by (simp add: same_entry_def)

lemma same_entry_fields:
  assumes "same_entry v v'"
  shows "v_name v' = v_name v" "v_rtname v' = v_rtname v" "v_guid v' = v_guid v" "v_state v' = v_state v"
    "v_flags v' = v_flags v" "v_yes_attr v' = v_yes_attr v" "v_no_attr v' = v_no_attr v"
    "v_addend v' = v_addend v" "v_user_cert v' = v_user_cert v" "v_build_cert v' = v_build_cert v"
    "v_categorize_addend v' = v_categorize_addend v"
  using assms by (cases v; cases v'; simp add: same_entry_def)+

lemma full_data_entry: "same_entry v (fst (full_data env v))"
  by (simp add: full_data_def Let_def split: sum.splits option.splits)


lemma mirror_one_cases:
  assumes "mirror_one_mok_variable env v rtname only_first s = Some (Inr (st, v', s'))"
  shows "same_entry v v' \<and> (\<forall>f. get_state f s' = get_state f s)
    \<and> (\<exists>w1. writes env rtname (v_guid v) (mw_fw s) w1
         \<and> (mw_fw s' = w1 \<or> (\<exists>d st1 e st2. measure_one env v d st1 (mw_tpm s) w1 = Inr (e, st2, mw_tpm s', mw_fw s'))))"
proof -
  obtain v1 r where f: "full_data env v = (v1, r)" by fastforce
  have v1: "same_entry v v1" using full_data_entry [of v env] f by simp
  have e: "same_entry v (v1\<lparr>v_data := d, v_data_size := k\<rparr>)" for d k
    using v1 same_entry_data same_entry_trans by blast
  note unfold = mirror_one_mok_variable_def f prod.case
  show ?thesis
  proof (cases r)
    case (Inl x)
    then show ?thesis using assms v1 by (cases x) (auto simp add: unfold intro: exI [of _ "mw_fw s"])
  next
    case (Inr y)
    then obtain o' k where r: "r = Inr (o', k)" by (cases y) auto
    show ?thesis
    proof (cases o')
      case None
      then show ?thesis using assms r e by (auto simp add: unfold intro: exI [of _ "mw_fw s"])
    next
      case (Some d)
      obtain st1 w1 where w: "mirror_write env v rtname only_first d k (mw_fw s) = Some (Inr (st1, w1))"
        using assms r Some by (auto simp add: unfold split: option.splits sum.splits)
      note wr = mirror_write_writes [OF w]
      show ?thesis
      proof (cases only_first)
        case False
        then show ?thesis using assms r Some w wr e
          by (auto simp add: unfold get_state_def split: mok_flag.splits)
      next
        case True
        then obtain b e' st2 t2 w2 where m: "measure_one env v b st1 (mw_tpm s) w1 = Inr (e', st2, t2, w2)"
          and s': "s' = s\<lparr>mw_fw := w2, mw_tpm := t2\<rparr>" and v': "v' = (if e' then v1 else v1\<lparr>v_data := Some d, v_data_size := k\<rparr>)"
          using assms r Some w by (auto simp add: unfold bindR_eq_Inr)
        have "measure_one env v b st1 (mw_tpm s) w1 = Inr (e', st2, mw_tpm s', mw_fw s')"
          using m s' by simp
        then show ?thesis using wr v' s' v1 e by (auto simp add: get_state_def split: mok_flag.splits)
      qed
    qed
  qed
qed

section \<open>What the import relies on\<close>

locale mok_firmware = variable_services "me_rt env" vars good
  for env :: "'w mok_env" and vars :: "'w \<Rightarrow> string \<times> guid \<Rightarrow> (u32 \<times> bytes) option" and good :: "'w \<Rightarrow> bool" +
  assumes delete_good: "good w \<Longrightarrow> me_LibDeleteVariable env w n g = (st, w') \<Longrightarrow> good w'"
    and delete_frame: "good w \<Longrightarrow> me_LibDeleteVariable env w n g = (st, w') \<Longrightarrow> k \<noteq> (n, g) \<Longrightarrow> vars w' k = vars w k"
    and delete_error: "good w \<Longrightarrow> me_LibDeleteVariable env w n g = (st, w') \<Longrightarrow> EFI_ERROR st \<Longrightarrow> vars w' = vars w"
    and delete_gone: "good w \<Longrightarrow> me_LibDeleteVariable env w n g = (st, w') \<Longrightarrow> \<not> EFI_ERROR st \<Longrightarrow> vars w' (n, g) = None"
    and cc_frame: "good w \<Longrightarrow> cc_hash_log_extend_event (me_tpm env) w fl b cev = (st, w') \<Longrightarrow> good w' \<and> vars w' = vars w"
    and tpm2_frame: "good w \<Longrightarrow> hash_log_extend_event (me_tpm env) w fl b cev = (st, w') \<Longrightarrow> good w' \<and> vars w' = vars w"
    and tpm1_frame: "good w \<Longrightarrow> log_extend_event (me_tpm env) w b ev = (st, w') \<Longrightarrow> good w' \<and> vars w' = vars w"
    and install_frame: "good w \<Longrightarrow> me_InstallConfigurationTable env w g b = (st, w') \<Longrightarrow> good w' \<and> vars w' = vars w"
begin

text \<open>\<open>keeps K w w'\<close>: from a good state, only the variables in \<open>K\<close> may have changed.\<close>

definition keeps :: "(string \<times> guid) set \<Rightarrow> 'w \<Rightarrow> 'w \<Rightarrow> bool" where
  "keeps K w w' \<longleftrightarrow> (good w \<longrightarrow> good w' \<and> (\<forall>k. k \<notin> K \<longrightarrow> vars w' k = vars w k))"

lemma keeps_refl [simp]: "keeps K w w"
  by (simp add: keeps_def)

lemma keeps_trans: "keeps K w w' \<Longrightarrow> keeps K w' w'' \<Longrightarrow> keeps K w w''"
  by (simp add: keeps_def)

lemma keeps_mono: "keeps K w w' \<Longrightarrow> K \<subseteq> L \<Longrightarrow> keeps L w w'"
  by (auto simp add: keeps_def)

lemma keeps_empty: "keeps {} w w' \<Longrightarrow> keeps K w w'"
  by (erule keeps_mono) simp

lemma set_keeps: "SetVariable (me_rt env) w n g a d = (st, w') \<Longrightarrow> keeps {(n, g)} w w'"
  using set_good set_frame by (auto simp add: keeps_def)

lemma delete_keeps: "me_LibDeleteVariable env w n g = (st, w') \<Longrightarrow> keeps {(n, g)} w w'"
  using delete_good delete_frame by (auto simp add: keeps_def)

lemma firmware_keeps:
  "cc_hash_log_extend_event (me_tpm env) w fl b cev = (st, w') \<Longrightarrow> keeps {} w w'"
  "hash_log_extend_event (me_tpm env) w fl b cev = (st, w') \<Longrightarrow> keeps {} w w'"
  "log_extend_event (me_tpm env) w b ev = (st, w') \<Longrightarrow> keeps {} w w'"
  "me_InstallConfigurationTable env w g b = (st, w') \<Longrightarrow> keeps {} w w'"
  unfolding keeps_def
  subgoal by (auto dest: cc_frame)
  subgoal by (auto dest: tpm2_frame)
  subgoal by (auto dest: tpm1_frame)
  subgoal by (auto dest: install_frame)
  done

lemma tpm2_log_event_keeps:
  assumes "tpm2_log_event (me_tpm env) pool w buf pcr log type hash = (st, w')"
  shows "keeps {} w w'"
proof -
  let ?ev = "new_event (ucast pcr) type log"
  obtain st1 w1 where f: "(if hash \<noteq> None then hash_log_extend_event (me_tpm env) w PE_COFF_IMAGE buf ?ev
      else (EFI_SUCCESS, w)) = (st1, w1)" by fastforce
  then have "keeps {} w w1" using firmware_keeps(2) by (auto split: if_splits)
  moreover have "w' = w \<or> w' = w1 \<or> keeps {} w1 w'"
    using assms f firmware_keeps(2) by (auto simp add: tpm2_log_event_def Let_def split: if_splits)
  ultimately show ?thesis using keeps_trans by auto
qed

lemma tpm1_log_event_keeps:
  "tpm1_log_event (me_tpm env) pool s w buf pcr log type hash = (st, s', w') \<Longrightarrow> keeps {} w w'"
  by (auto simp add: tpm1_log_event_def Let_def split: if_splits prod.splits dest: firmware_keeps(3))

lemma log_event_raw_keeps:
  assumes "tpm_log_event_raw (me_tpm env) rq pool s w buf pcr log type hash = (st, s', w')"
  shows "keeps {} w w'"
proof -
  obtain st1 w1 where c: "cc_log_event_raw (me_tpm env) pool w buf pcr log type (hash \<noteq> None) = (st1, w1)"
    by fastforce
  then have "keeps {} w w1"
    by (auto simp add: cc_log_event_raw_def split: if_splits prod.splits dest: firmware_keeps(1))
  moreover have "keeps {} w1 w'" using assms c
    by (auto simp add: tpm_log_event_raw_def split: if_splits prod.splits sum.splits located.splits
        dest: tpm1_log_event_keeps tpm2_log_event_keeps)
  ultimately show ?thesis by (rule keeps_trans)
qed

lemma log_event_keeps: "tpm_log_event (me_tpm env) rq pool s w buf pcr d = (st, s', w') \<Longrightarrow> keeps {} w w'"
  unfolding tpm_log_event_def by (rule log_event_raw_keeps)

lemma measure_variable_keeps:
  assumes "tpm_measure_variable (me_tpm env) rq pool s w n g d = Inr (st, s', w')"
  shows "keeps {} w w'"
proof (cases "w' = w")
  case False
  obtain st1 s1 w1 where l: "tpm_log_event_raw (me_tpm env) rq pool s w (variable_event n g d) 7
      (variable_event n g d) EV_EFI_VARIABLE_AUTHORITY None = (st1, s1, w1)" by (metis prod_cases3)
  then have "w' = w1" using assms False
    by (auto simp add: tpm_measure_variable_def Let_def bindR_eq_Inr split: if_splits)
  then show ?thesis using log_event_raw_keeps [OF l] by simp
qed simp

lemma writes_keeps: "writes env n g w w' \<Longrightarrow> keeps {(n, g)} w w'"
  unfolding writes_def by (metis keeps_refl prod.collapse set_keeps)

lemma log_one_keeps: "log_one env v d st t w = (e, st', t', w') \<Longrightarrow> keeps {} w w'"
  by (auto simp add: log_one_def split: if_splits prod.splits dest: log_event_keeps)

lemma measure_one_keeps:
  assumes "measure_one env v d st t w = Inr (e, st', t', w')"
  shows "keeps {} w w'"
proof (cases "mok_has v MOK_VARIABLE_MEASURE")
  case True
  then obtain st1 t1 w1 where
    a: "tpm_measure_variable (me_tpm env) (me_require_tpm env) (me_pool env) t w (v_name v) (v_guid v) d = Inr (st1, t1, w1)"
    and b: "w' = w1 \<or> log_one env v d st1 t1 w1 = (e, st', t', w')"
    using assms by (auto simp add: measure_one_def bindR_eq_Inr split: if_splits)
  from b have "keeps {} w1 w'" using log_one_keeps by auto
  then show ?thesis using measure_variable_keeps [OF a] keeps_trans by blast
next
  case False
  then show ?thesis using assms log_one_keeps by (simp add: measure_one_def)
qed


lemma mirror_one_keeps:
  assumes "mirror_one_mok_variable env v rtname only_first s = Some (Inr (st, v', s'))"
  shows "keeps {(rtname, v_guid v)} (mw_fw s) (mw_fw s')"
proof -
  obtain w1 where "writes env rtname (v_guid v) (mw_fw s) w1"
    and m: "mw_fw s' = w1 \<or> (\<exists>d st1 e st2. measure_one env v d st1 (mw_tpm s) w1 = Inr (e, st2, mw_tpm s', mw_fw s'))"
    using mirror_one_cases [OF assms] by blast
  then have "keeps {(rtname, v_guid v)} (mw_fw s) w1" using writes_keeps by blast
  moreover have "keeps {(rtname, v_guid v)} w1 (mw_fw s')"
    using m by (auto dest!: measure_one_keeps intro: keeps_empty)
  ultimately show ?thesis by (rule keeps_trans)
qed

definition touched :: "mok_variable \<Rightarrow> (string \<times> guid) set" where
  "touched v = insert (v_name v, v_guid v) (case v_rtname v of None \<Rightarrow> {} | Some r \<Rightarrow> {(r, v_guid v)})"

lemma mirror_if_named_effect:
  assumes "mirror_if_named env v ret only_first s = Some (Inr (ret', v', s'))"
  shows "same_entry v v' \<and> (\<forall>f. get_state f s' = get_state f s)
    \<and> keeps (case v_rtname v of None \<Rightarrow> {} | Some r \<Rightarrow> {(r, v_guid v)}) (mw_fw s) (mw_fw s')
    \<and> (v' = v \<or> (\<exists>r st s1 s2. mirror_one_mok_variable env v r only_first s1 = Some (Inr (st, v', s2))))"
proof (cases "v_rtname v")
  case None
  then show ?thesis using assms by (simp add: mirror_if_named_def)
next
  case (Some r)
  let ?s = "if only_first \<and> mok_has v MOK_MIRROR_DELETE_FIRST
      then s\<lparr>mw_fw := snd (me_LibDeleteVariable env (mw_fw s) r (v_guid v))\<rparr> else s"
  obtain st where o': "mirror_one_mok_variable env v r only_first ?s = Some (Inr (st, v', s'))"
    using assms Some unfolding mirror_if_named_def
    by (simp only: option.case Let_def split: option.splits sum.splits prod.splits) blast
  have "keeps {(r, v_guid v)} (mw_fw s) (snd (me_LibDeleteVariable env (mw_fw s) r (v_guid v)))"
    using delete_keeps by (metis prod.collapse)
  then have "keeps {(r, v_guid v)} (mw_fw s) (mw_fw ?s)" by simp
  then have "keeps {(r, v_guid v)} (mw_fw s) (mw_fw s')" using mirror_one_keeps [OF o'] keeps_trans by blast
  moreover have "get_state f ?s = get_state f s" for f by (simp add: get_state_def split: mok_flag.splits)
  ultimately show ?thesis using mirror_one_cases [OF o'] o' Some by auto
qed

lemma get_set_state: "get_state f (set_state g x s) = (if f = g then x else get_state f s)"
  by (simp add: get_state_def set_state_def split: mok_flag.splits)

lemma set_state_fw [simp]: "mw_fw (set_state g x s) = mw_fw s"
  by (simp add: set_state_def split: mok_flag.splits)

lemma apply_state_effect:
  "apply_state v s = Inr s' \<Longrightarrow> mw_fw s' = mw_fw s
    \<and> (\<forall>f. get_state f s' = get_state f s
          \<or> (v_state v = Some f \<and> v_data_size v = 1 \<and> (\<exists>d. v_data v = Some d \<and> idx d 0 = Inr (get_state f s'))))"
  by (auto simp add: apply_state_def bindR_eq_Inr get_set_state split: option.splits if_splits)

lemma maybe_mirror_effect:
  assumes "maybe_mirror_one_mok_variable env v ret only_first s = Some (Inr (ret', v', s'))"
  shows "same_entry v v'
    \<and> keeps (case v_rtname v of None \<Rightarrow> {} | Some r \<Rightarrow> {(r, v_guid v)}) (mw_fw s) (mw_fw s')
    \<and> (v' = v \<or> (\<exists>r st s1 s2. mirror_one_mok_variable env v r only_first s1 = Some (Inr (st, v', s2))))
    \<and> (\<forall>f. get_state f s' = get_state f s
          \<or> (v_state v = Some f \<and> v_data_size v' = 1 \<and> (\<exists>d. v_data v' = Some d \<and> idx d 0 = Inr (get_state f s'))))"
proof -
  obtain r1 v1 s1 where m: "mirror_if_named env v ret only_first s = Some (Inr (r1, v1, s1))"
    using assms unfolding maybe_mirror_one_mok_variable_def by (auto split: option.splits sum.splits)
  then have a: "apply_state v1 s1 = Inr s'" "v' = v1"
    using assms by (auto simp add: maybe_mirror_one_mok_variable_def bindR_eq_Inr)
  note e = mirror_if_named_effect [OF m]
  from e have "v_state v1 = v_state v" using same_entry_fields(4) by blast
  then show ?thesis using e apply_state_effect [OF a(1)] a(2) by auto
qed

end

section \<open>Where the flags come from\<close>

lemma full_data_plain:
  assumes "\<not> mok_has v MOK_MIRROR_KEYDB"
  shows "full_data env v =
    (if v_data_size v = 0 then (v, Inr (None, 0))
     else case v_data v of
       None \<Rightarrow> (v, Inl Fault)
     | Some d \<Rightarrow> (v\<lparr>v_data := None, v_data_size := 0\<rparr>, Inr (Some d, v_data_size v)))"
  using assms by (simp add: full_data_def keydb_sizes_def fill_keydb_def Let_def split: option.split)

lemma mirror_one_plain_data:
  assumes "mirror_one_mok_variable env v rtname only_first s = Some (Inr (st, v', s'))"
    and "\<not> mok_has v MOK_MIRROR_KEYDB"
  shows "(v_data v' = v_data v \<and> v_data_size v' = v_data_size v) \<or> (v_data v' = None \<and> v_data_size v' = 0)"
proof (cases "v_data_size v = 0")
  case True
  then show ?thesis using assms by (auto simp add: mirror_one_mok_variable_def full_data_plain)
next
  case False
  show ?thesis
  proof (cases "v_data v")
    case None
    then show ?thesis using assms False by (simp add: mirror_one_mok_variable_def full_data_plain)
  next
    case (Some d)
    then have f: "full_data env v = (v\<lparr>v_data := None, v_data_size := 0\<rparr>, Inr (Some d, v_data_size v))"
      using assms(2) False by (simp add: full_data_plain)
    obtain st1 w1 where w: "mirror_write env v rtname only_first d (v_data_size v) (mw_fw s) = Some (Inr (st1, w1))"
      using assms(1) by (auto simp add: mirror_one_mok_variable_def f split: option.splits sum.splits)
    show ?thesis using assms(1) Some w
      by (cases only_first) (auto simp add: mirror_one_mok_variable_def f bindR_eq_Inr split: if_splits)
  qed
qed

definition attrs_ok :: "mok_variable \<Rightarrow> u32 \<Rightarrow> bool" where
  "attrs_ok v a \<longleftrightarrow> a AND v_yes_attr v \<noteq> 0 \<and> a AND v_no_attr v = 0"

lemma import_variables_append:
  assumes "import_variables env only_first (xs @ ys) r s = Some (Inr (r', vs', s'))"
  shows "\<exists>r1 xs' s1 ys'. import_variables env only_first xs r s = Some (Inr (r1, xs', s1))
    \<and> import_variables env only_first ys r1 s1 = Some (Inr (r', ys', s')) \<and> vs' = xs' @ ys'"
  using assms
proof (induction xs arbitrary: r s vs')
  case (Cons x xs)
  then obtain st x' s0 where i: "import_one_mok_state env x only_first s = Some (Inr (st, x', s0))"
    by (auto split: option.splits sum.splits)
  let ?r = "if only_first then merge_status r st else r"
  from Cons.prems i obtain zs where
    z: "import_variables env only_first (xs @ ys) ?r s0 = Some (Inr (r', zs, s'))" "vs' = x' # zs"
    by (auto split: option.splits sum.splits)
  from Cons.IH [OF z(1)] obtain r1 xs' s1 ys' where
    "import_variables env only_first xs ?r s0 = Some (Inr (r1, xs', s1))"
    "import_variables env only_first ys r1 s1 = Some (Inr (r', ys', s'))" "zs = xs' @ ys'" by blast
  then show ?case using i z(2) by auto
qed simp

context mok_firmware
begin

definition genuine :: "'w \<Rightarrow> mok_variable \<Rightarrow> bool" where
  "genuine w0 v \<longleftrightarrow> (v_data v = None \<and> v_data_size v = 0)
     \<or> (\<exists>a d p. vars w0 (v_name v, v_guid v) = Some (a, d) \<and> attrs_ok v a
          \<and> v_data v = Some (d @ p) \<and> v_data_size v = length d)"

text \<open>The variable is what it was, or it has been deleted.\<close>

definition unforged :: "'w \<Rightarrow> mok_variable \<Rightarrow> 'w \<Rightarrow> bool" where
  "unforged w0 v w \<longleftrightarrow> good w \<and> vars w (v_name v, v_guid v) \<in> {vars w0 (v_name v, v_guid v), None}"

lemma unforged_keeps: "unforged w0 v w \<Longrightarrow> keeps K w w' \<Longrightarrow> (v_name v, v_guid v) \<notin> K \<Longrightarrow> unforged w0 v w'"
  by (auto simp add: unforged_def keeps_def)

lemma genuine_entry:
  "same_entry v v' \<Longrightarrow> v_data v' = v_data v \<Longrightarrow> v_data_size v' = v_data_size v \<Longrightarrow> genuine w0 v \<Longrightarrow> genuine w0 v'"
  "v_data v' = None \<Longrightarrow> v_data_size v' = 0 \<Longrightarrow> genuine w0 v'"
  using same_entry_fields [of v v'] by (simp_all add: genuine_def attrs_ok_def)

lemma unforged_entry: "same_entry v v' \<Longrightarrow> unforged w0 v' w = unforged w0 v w"
  using same_entry_fields [of v v'] by (simp add: unforged_def)

lemma read_entry: "read_mok_variable env w v = Inr (v1, del) \<Longrightarrow> same_entry v v1"
  by (auto simp add: read_mok_variable_def Let_def split: if_splits prod.splits option.splits)

lemma read_genuine:
  assumes "read_mok_variable env w v = Inr (v1, del)" and "unforged w0 v w" and "genuine w0 v"
    and "\<not> mok_has v MOK_VARIABLE_INVERSE" and "\<not> del"
  shows "genuine w0 v1"
proof (cases "v_data v \<noteq> None \<or> v_data_size v \<noteq> 0")
  case True
  then show ?thesis using assms(1,3) by (simp add: read_mok_variable_def)
next
  case False
  have g: "good w" using assms(2) by (simp add: unforged_def)
  show ?thesis
  proof (cases "vars w (v_name v, v_guid v)")
    case None
    from get_attr_missing [OF g None, of "me_pool env" True] show ?thesis
      using False assms(1,4) by (auto simp add: read_mok_variable_def genuine_def)
  next
    case (Some x)
    then obtain a d where x: "vars w (v_name v, v_guid v) = Some (a, d)" by (cases x) auto
    have l: "0 < length d" using nonempty [OF g x] by simp
    show ?thesis
    proof (cases "me_pool env (length d + 3)")
      case True
      have "attrs_ok v a" "v_data v1 = Some (d @ [0, 0, 0])" "v_data_size v1 = length d"
        using assms(1,4,5) False get_attr_present [of w "v_name v" "v_guid v" a d "me_pool env"] g x True
        by (auto simp add: read_mok_variable_def attrs_ok_def)
      moreover have "vars w0 (v_name v, v_guid v) = Some (a, d)" using assms(2) x by (auto simp add: unforged_def)
      ultimately show ?thesis using read_entry [OF assms(1)] same_entry_fields [of v v1]
        by (auto simp add: genuine_def attrs_ok_def)
    next
      case False
      have "get_variable_attr (me_rt env) (me_pool env) w True (v_name v) (v_guid v) = (EFI_OUT_OF_RESOURCES, None, length d, None)"
        using get_small [OF g x l] False by (simp add: get_variable_attr_def Let_def)
      then show ?thesis using assms(1,5) \<open>\<not> (v_data v \<noteq> None \<or> v_data_size v \<noteq> 0)\<close>
        by (simp add: read_mok_variable_def)
    qed
  qed
qed


lemma import_one_cases:
  assumes "import_one_mok_state env v only_first s = Some (Inr (st, v', s'))"
  obtains (memory) "v' = v" "s' = s" "st = EFI_OUT_OF_RESOURCES"
  | (deleted) v1 dst w where "read_mok_variable env (mw_fw s) v = Inr (v1, True)"
      "me_LibDeleteVariable env (mw_fw s) (v_name v) (v_guid v) = (dst, w)"
      "maybe_mirror_one_mok_variable env (v1\<lparr>v_data := None, v_data_size := 0\<rparr>)
         (if EFI_ERROR dst then EFI_SECURITY_VIOLATION else EFI_SUCCESS) only_first (s\<lparr>mw_fw := w\<rparr>) = Some (Inr (st, v', s'))"
  | (kept) v1 where "read_mok_variable env (mw_fw s) v = Inr (v1, False)"
      "maybe_mirror_one_mok_variable env v1 EFI_SUCCESS only_first s = Some (Inr (st, v', s'))"
proof (cases "read_mok_variable env (mw_fw s) v")
  case (Inl e)
  then have "e = EFI_OUT_OF_RESOURCES"
    by (auto simp add: read_mok_variable_def Let_def split: if_splits prod.splits)
  then show thesis using assms Inl memory by (simp add: import_one_mok_state_def)
next
  case (Inr x)
  then obtain v1 del where r: "read_mok_variable env (mw_fw s) v = Inr (v1, del)" by (cases x) auto
  obtain dst w where d: "me_LibDeleteVariable env (mw_fw s) (v_name v) (v_guid v) = (dst, w)" by fastforce
  show thesis
    using assms r d deleted [of v1 dst w] kept [of v1]
    by (cases del) (simp_all add: import_one_mok_state_def)
qed

text \<open>What importing one variable does to the others, and to the flags.\<close>

lemma import_one_effect:
  assumes "import_one_mok_state env v only_first s = Some (Inr (st, v', s'))"
  shows "same_entry v v' \<and> keeps (touched v) (mw_fw s) (mw_fw s')
    \<and> (\<forall>f. v_state v \<noteq> Some f \<longrightarrow> get_state f s' = get_state f s)"
  using assms
proof (cases rule: import_one_cases)
  case memory
  then show ?thesis by simp
next
  case (deleted v1 dst w)
  let ?v = "v1\<lparr>v_data := None, v_data_size := 0\<rparr>"
  have v: "same_entry v ?v" using read_entry [OF deleted(1)] same_entry_data same_entry_trans by blast
  note e = maybe_mirror_effect [OF deleted(3)] same_entry_fields [OF v]
  have "keeps (touched v) (mw_fw s) w"
    using delete_keeps [OF deleted(2)] by (rule keeps_mono) (simp add: touched_def)
  moreover have "keeps (touched v) w (mw_fw s')"
    using e by (auto simp add: touched_def intro: keeps_mono split: option.splits)
  moreover have "get_state f (s\<lparr>mw_fw := w\<rparr>) = get_state f s" for f by (simp add: get_state_def split: mok_flag.splits)
  ultimately show ?thesis using e same_entry_trans [OF v] keeps_trans by auto
next
  case (kept v1)
  have v: "same_entry v v1" using read_entry [OF kept(1)] .
  note e = maybe_mirror_effect [OF kept(2)] same_entry_fields [OF v]
  have "keeps (touched v) (mw_fw s) (mw_fw s')"
    using e by (auto simp add: touched_def intro: keeps_mono split: option.splits)
  then show ?thesis using e same_entry_trans [OF v] by auto
qed

text \<open>An entry whose data is a one-byte state value.\<close>

definition plain_state :: "mok_flag \<Rightarrow> mok_variable \<Rightarrow> bool" where
  "plain_state f v \<longleftrightarrow> v_state v = Some f \<and> \<not> mok_has v MOK_MIRROR_KEYDB \<and> \<not> mok_has v MOK_VARIABLE_INVERSE
     \<and> v_rtname v \<noteq> Some (v_name v)"

definition genuine_byte :: "'w \<Rightarrow> mok_variable \<Rightarrow> u8 \<Rightarrow> bool" where
  "genuine_byte w0 v x \<longleftrightarrow> (\<exists>a. vars w0 (v_name v, v_guid v) = Some (a, [x]) \<and> attrs_ok v a)"

lemma plain_state_entry: "same_entry v v' \<Longrightarrow> plain_state f v' = plain_state f v"
  "same_entry v v' \<Longrightarrow> genuine_byte w0 v' = genuine_byte w0 v"
  using same_entry_fields [of v v'] by (simp_all add: plain_state_def genuine_byte_def attrs_ok_def mok_has_def fun_eq_iff)

lemma maybe_mirror_genuine:
  assumes "maybe_mirror_one_mok_variable env v ret only_first s = Some (Inr (st, v', s'))"
    and "plain_state f v" and "genuine w0 v" and "unforged w0 v (mw_fw s)"
  shows "genuine w0 v' \<and> unforged w0 v (mw_fw s')
    \<and> (get_state f s' = get_state f s \<or> genuine_byte w0 v (get_state f s'))"
proof -
  note e = maybe_mirror_effect [OF assms(1)]
  have "(v_data v' = v_data v \<and> v_data_size v' = v_data_size v) \<or> (v_data v' = None \<and> v_data_size v' = 0)"
  proof (cases "v' = v")
    case False
    then obtain r st2 s1 s2 where m: "mirror_one_mok_variable env v r only_first s1 = Some (Inr (st2, v', s2))"
      using e by blast
    from mirror_one_plain_data [OF m] show ?thesis using assms(2) by (simp add: plain_state_def)
  qed simp
  then have g: "genuine w0 v'" using genuine_entry e assms(3) by blast
  have u: "unforged w0 v (mw_fw s')"
    using e unforged_keeps [OF assms(4)] assms(2) by (auto simp add: plain_state_def split: option.splits)
  have "genuine_byte w0 v (get_state f s')"
    if d: "v_data_size v' = 1" "v_data v' = Some d" "idx d 0 = Inr (get_state f s')" for d
  proof -
    obtain a b p where b: "vars w0 (v_name v', v_guid v') = Some (a, b)" "attrs_ok v' a" "d = b @ p" "length b = 1"
      using g d by (auto simp add: genuine_def)
    then obtain x where "b = [x]" by (cases b) auto
    then have "genuine_byte w0 v' (get_state f s')" using b d(3) by (simp add: genuine_byte_def idx_def)
    then show ?thesis using plain_state_entry(2) [of v v' w0] e by simp
  qed
  then show ?thesis using g u e by blast
qed

lemma import_one_genuine:
  assumes "import_one_mok_state env v only_first s = Some (Inr (st, v', s'))"
    and "plain_state f v" and "genuine w0 v" and "unforged w0 v (mw_fw s)"
  shows "genuine w0 v' \<and> unforged w0 v (mw_fw s')
    \<and> (get_state f s' = get_state f s \<or> genuine_byte w0 v (get_state f s'))"
  using assms(1)
proof (cases rule: import_one_cases)
  case memory
  then show ?thesis using assms by simp
next
  case (deleted v1 dst w)
  let ?v = "v1\<lparr>v_data := None, v_data_size := 0\<rparr>"
  have v: "same_entry v ?v" using read_entry [OF deleted(1)] same_entry_data same_entry_trans by blast
  have "unforged w0 v w"
    using assms(4) delete_good [OF _ deleted(2)] delete_error [OF _ deleted(2)] delete_gone [OF _ deleted(2)]
    by (cases "EFI_ERROR dst") (auto simp add: unforged_def)
  moreover have "get_state f (s\<lparr>mw_fw := w\<rparr>) = get_state f s" by (simp add: get_state_def split: mok_flag.splits)
  ultimately show ?thesis
    using maybe_mirror_genuine [OF deleted(3), of f w0] assms(2) v plain_state_entry [OF v] unforged_entry [OF v]
      genuine_entry(2) [of ?v w0] by simp
next
  case (kept v1)
  have v: "same_entry v v1" using read_entry [OF kept(1)] .
  have "genuine w0 v1" using read_genuine [OF kept(1) assms(4,3)] assms(2) by (simp add: plain_state_def)
  then show ?thesis
    using maybe_mirror_genuine [OF kept(2), of f w0] assms(2,4) plain_state_entry [OF v] unforged_entry [OF v] by simp
qed


lemma touched_entry: "same_entry u u' \<Longrightarrow> touched u' = touched u"
  using same_entry_fields [of u u'] by (simp add: touched_def split: option.split)

definition others :: "mok_flag \<Rightarrow> mok_variable \<Rightarrow> mok_variable list \<Rightarrow> bool" where
  "others f v us \<longleftrightarrow> (\<forall>u\<in>set us. (v_name v, v_guid v) \<notin> touched u \<and> v_state u \<noteq> Some f)"

lemma others_entry:
  assumes "list_all2 same_entry us us'" and "same_entry v v'"
  shows "others f v' us' = others f v us"
  using assms(1)
proof (induction rule: list_all2_induct)
  case (Cons u us u' us')
  then show ?case using touched_entry [of u u'] same_entry_fields [of u u'] same_entry_fields [OF assms(2)]
    by (simp add: others_def)
qed (simp add: others_def)

lemma import_variables_Cons:
  assumes "import_variables env only_first (v # vs) r s = Some (Inr (r', ws, s'))"
  shows "\<exists>st v' s1 r1 vs'. import_one_mok_state env v only_first s = Some (Inr (st, v', s1))
    \<and> import_variables env only_first vs r1 s1 = Some (Inr (r', vs', s')) \<and> ws = v' # vs'"
  using assms by (auto split: option.splits sum.splits) blast

lemma import_others:
  assumes "import_variables env only_first us r s = Some (Inr (r', us', s'))"
    and "others f v us" and "unforged w0 v (mw_fw s)"
  shows "list_all2 same_entry us us' \<and> unforged w0 v (mw_fw s') \<and> get_state f s' = get_state f s"
  using assms
proof (induction us arbitrary: r s us')
  case (Cons u us)
  from import_variables_Cons [OF Cons.prems(1)] obtain st u' s1 r1 us'' where
    i: "import_one_mok_state env u only_first s = Some (Inr (st, u', s1))"
    and rest: "import_variables env only_first us r1 s1 = Some (Inr (r', us'', s'))" "us' = u' # us''" by blast
  note e = import_one_effect [OF i]
  have u: "(v_name v, v_guid v) \<notin> touched u" "v_state u \<noteq> Some f" using Cons.prems(2) by (simp_all add: others_def)
  have "unforged w0 v (mw_fw s1)" using unforged_keeps [OF Cons.prems(3) _ u(1)] e by blast
  moreover have "others f v us" using Cons.prems(2) by (simp add: others_def)
  ultimately show ?case using Cons.IH [OF rest(1)] rest(2) e u(2) by simp
qed simp

lemma import_list_flag:
  assumes "import_variables env only_first (pre @ v # post) r s = Some (Inr (r', vs', s'))"
    and "plain_state f v" and "others f v pre" and "others f v post"
    and "genuine w0 v" and "unforged w0 v (mw_fw s)"
  shows "\<exists>pre' v' post'. vs' = pre' @ v' # post' \<and> list_all2 same_entry pre pre' \<and> same_entry v v'
    \<and> list_all2 same_entry post post' \<and> genuine w0 v' \<and> unforged w0 v (mw_fw s')
    \<and> (get_state f s' = get_state f s \<or> genuine_byte w0 v (get_state f s'))"
proof -
  from import_variables_append [OF assms(1)] obtain r1 pre' s1 ys where
    a: "import_variables env only_first pre r s = Some (Inr (r1, pre', s1))"
    and b: "import_variables env only_first (v # post) r1 s1 = Some (Inr (r', ys, s'))" "vs' = pre' @ ys" by blast
  from import_variables_Cons [OF b(1)] obtain st v' s2 r2 post' where
    c: "import_one_mok_state env v only_first s1 = Some (Inr (st, v', s2))"
    and d: "import_variables env only_first post r2 s2 = Some (Inr (r', post', s'))" "ys = v' # post'" by blast
  note p = import_others [OF a assms(3,6)]
  note i = import_one_genuine [OF c assms(2,5)] import_one_effect [OF c]
  note q = import_others [OF d(1) assms(4), of w0]
  show ?thesis using p i q b(2) d(2) by auto
qed

text \<open>The flag after the whole import is 0 or the byte of its variable.\<close>

lemma import_mok_state_flag:
  assumes "import_mok_state env (pre @ v # post) s = Some (Inr (st, vs', s'))"
    and "plain_state f v" and "others f v pre" and "others f v post"
    and "v_data v = None" and "v_data_size v = 0" and "good (mw_fw s)"
    and "f \<in> {User_insecure_mode, Ignore_db, Trust_mok_list}"
  shows "get_state f s' = 0 \<or> genuine_byte (mw_fw s) v (get_state f s')"
proof -
  let ?w0 = "mw_fw s" and ?s0 = "s\<lparr>mw_user_insecure_mode := 0, mw_ignore_db := 0, mw_trust_mok_list := 0\<rparr>"
  obtain ret vs1 s1 where a: "import_variables env True (pre @ v # post) EFI_SUCCESS ?s0 = Some (Inr (ret, vs1, s1))"
    using assms(1) by (auto simp add: import_mok_state_def Let_def split: option.splits sum.splits)
  obtain table where t: "config_table env vs1 = Inr table"
    using assms(1) a by (auto simp add: import_mok_state_def Let_def split: sum.splits)
  define s2 where "s2 = (case table of None \<Rightarrow> s1
     | Some t \<Rightarrow> s1\<lparr>mw_fw := snd (me_InstallConfigurationTable env (mw_fw s1) MOK_VARIABLE_STORE t)\<rparr>)"
  obtain r2 vs2 s3 where b: "import_variables env False vs1 EFI_SUCCESS s2 = Some (Inr (r2, vs2, s3))"
    and s': "\<exists>w. s' = s3\<lparr>mw_fw := w\<rparr>"
    using assms(1) a t by (auto simp add: import_mok_state_def Let_def s2_def split: option.splits sum.splits prod.splits)
  have g: "genuine ?w0 v" "unforged ?w0 v (mw_fw ?s0)" "get_state f ?s0 = 0"
    using assms(5-8) by (auto simp add: genuine_def unforged_def get_state_def)
  from import_list_flag [OF a assms(2-4) g(1,2)] obtain pre' v' post' where
    p: "vs1 = pre' @ v' # post'" "list_all2 same_entry pre pre'" "same_entry v v'" "list_all2 same_entry post post'"
      "genuine ?w0 v'" "unforged ?w0 v (mw_fw s1)"
      "get_state f s1 = get_state f ?s0 \<or> genuine_byte ?w0 v (get_state f s1)" by blast
  have k: "keeps {} (mw_fw s1) (mw_fw s2)"
  proof (cases table)
    case (Some t)
    then show ?thesis using firmware_keeps(4) [of "mw_fw s1" MOK_VARIABLE_STORE t] by (simp add: s2_def) (metis prod.collapse)
  qed (simp add: s2_def)
  have f2: "get_state f s2 = get_state f s1" by (simp add: s2_def get_state_def split: option.splits mok_flag.splits)
  have u2: "unforged ?w0 v' (mw_fw s2)"
    using unforged_keeps [OF p(6) k] unforged_entry [OF p(3)] by simp
  have "plain_state f v'" "others f v' pre'" "others f v' post'"
    using assms(2-4) plain_state_entry(1) [OF p(3)] others_entry [OF p(2,3)] others_entry [OF p(4,3)] by simp_all
  from import_list_flag [OF b [unfolded p(1)] this p(5) u2]
  have "get_state f s3 = get_state f s2 \<or> genuine_byte ?w0 v' (get_state f s3)" by blast
  moreover have "get_state f s' = get_state f s3" using s' by (auto simp add: get_state_def split: mok_flag.splits)
  ultimately show ?thesis using p(7) f2 g(3) plain_state_entry(2) [OF p(3), of ?w0] by auto
qed

end

section \<open>Firmwares to evaluate on\<close>

text \<open>No TPM.\<close>

definition no_tpm :: "'w tpm_protocols" where
  "no_tpm = \<lparr>locate_cc = (\<lambda>w. False), map_pcr_to_mr_index = (\<lambda>w p. (EFI_UNSUPPORTED, 0)),
     cc_hash_log_extend_event = (\<lambda>w fl b ev. (EFI_UNSUPPORTED, w)),
     locate_tpm2 = (\<lambda>w. EFI_NOT_FOUND),
     get_capability = (\<lambda>w. (EFI_UNSUPPORTED, \<lparr>StructureVersion_Major = 0, StructureVersion_Minor = 0, PresentFlag = False\<rparr>)),
     hash_log_extend_event = (\<lambda>w fl b ev. (EFI_UNSUPPORTED, w)),
     locate_tpm = (\<lambda>w. EFI_NOT_FOUND),
     status_check = (\<lambda>w. (EFI_UNSUPPORTED, \<lparr>tcg_TPMPresentFlag = False, tcg_TPMDeactivatedFlag = False\<rparr>)),
     log_extend_event = (\<lambda>w b ev. (EFI_UNSUPPORTED, w))\<rparr>"

definition env_for :: "'w efi_rt \<Rightarrow> ('w \<Rightarrow> string \<Rightarrow> guid \<Rightarrow> efi_status \<times> 'w) \<Rightarrow> vendor_addend_category \<Rightarrow> 'w mok_env" where
  "env_for rt del c = \<lparr>me_rt = rt, me_tpm = no_tpm, me_require_tpm = False, me_pool = (\<lambda>_. True),
     me_major_version = 1, me_category = c, me_LibDeleteVariable = del,
     me_SPrint = (\<lambda>name i n. name), me_AllocatePages = (\<lambda>_. False),
     me_InstallConfigurationTable = (\<lambda>w g b. (EFI_SUCCESS, w)),
     me_start_mok_manager = (\<lambda>w. (EFI_SUCCESS, w))\<rparr>"

lemma env_for_firmware:
  assumes "variable_services rt vars good"
    and "\<And>w n g st w' k. good w \<Longrightarrow> del w n g = (st, w') \<Longrightarrow> good w' \<and> (k \<noteq> (n, g) \<longrightarrow> vars w' k = vars w k)
      \<and> (EFI_ERROR st \<longrightarrow> vars w' = vars w) \<and> (\<not> EFI_ERROR st \<longrightarrow> vars w' (n, g) = None)"
  shows "mok_firmware (env_for rt del c) vars good"
proof -
  have e: "me_rt (env_for rt del c) = rt" "me_LibDeleteVariable (env_for rt del c) = del"
    "me_tpm (env_for rt del c) = no_tpm" "me_InstallConfigurationTable (env_for rt del c) = (\<lambda>w g b. (EFI_SUCCESS, w))"
    by (simp_all add: env_for_def)
  show ?thesis
    unfolding mok_firmware_def mok_firmware_axioms_def e
    using assms by (auto simp add: no_tpm_def)
qed

definition mock_delete :: "mock_state \<Rightarrow> string \<Rightarrow> guid \<Rightarrow> efi_status \<times> mock_state" where
  "mock_delete w n g = del_variable host_rt w n g"

lemma mock_delete_effect:
  assumes "mock_good w" and "mock_delete w n g = (st, w')"
  shows "mock_good w' \<and> (k \<noteq> (n, g) \<longrightarrow> mock_vars w' k = mock_vars w k)
      \<and> (EFI_ERROR st \<longrightarrow> mock_vars w' = mock_vars w) \<and> (\<not> EFI_ERROR st \<longrightarrow> mock_vars w' (n, g) = None)"
proof -
  have s: "SetVariable host_rt w n g 0 [] = (st, w')"
    using assms(2) by (simp add: mock_delete_def del_variable_def set_variable_def)
  have "plain_attrs 0" "\<not> append_write 0" by (simp_all add: plain_attrs_def append_write_def)
  then show ?thesis
    using mock.set_good [OF assms(1) s] mock.set_frame [OF assms(1) s] mock.set_error [OF assms(1) s]
      mock.set_delete [OF assms(1) s] by blast
qed

text \<open>The variable store of mock-variables.c is such a firmware.\<close>

interpretation mock_mok: mok_firmware "env_for host_rt mock_delete c" mock_vars mock_good for c
  by (rule env_for_firmware [OF mock.variable_services_axioms]) (rule mock_delete_effect)

text \<open>
  A store that is read-only: only \<open>MokSBState\<close> exists, with one byte; the state is that byte.
\<close>

definition rom_rt :: "u8 efi_rt" where
  "rom_rt = \<lparr>GetVariable = (\<lambda>w n g hb sz.
       if n = ''MokSBState'' \<and> g = SHIM_LOCK_GUID then
         (if sz = 0 then \<lparr>gv_status = EFI_BUFFER_TOO_SMALL, gv_attr = None, gv_size = 1, gv_data = []\<rparr>
          else \<lparr>gv_status = EFI_SUCCESS, gv_attr = Some 3, gv_size = 1, gv_data = [w]\<rparr>)
       else \<lparr>gv_status = EFI_NOT_FOUND, gv_attr = None, gv_size = 0, gv_data = []\<rparr>),
     SetVariable = (\<lambda>w n g a d. (EFI_WRITE_PROTECTED, w)),
     QueryVariableInfo = (\<lambda>w a. (EFI_UNSUPPORTED, 0, 0, 0)),
     GetTime = (\<lambda>w. (EFI_UNSUPPORTED, []))\<rparr>"

definition rom_vars :: "u8 \<Rightarrow> string \<times> guid \<Rightarrow> (u32 \<times> bytes) option" where
  "rom_vars w k = (if k = (''MokSBState'', SHIM_LOCK_GUID) then Some (3, [w]) else None)"

definition rom_delete :: "u8 \<Rightarrow> string \<Rightarrow> guid \<Rightarrow> efi_status \<times> u8" where
  "rom_delete w n g = (EFI_WRITE_PROTECTED, w)"

lemma rom_services: "variable_services rom_rt rom_vars (\<lambda>w. True)"
  by (unfold_locales) (auto simp add: rom_rt_def rom_vars_def split: if_splits)

lemma rom_firmware: "mok_firmware (env_for rom_rt rom_delete VENDOR_ADDEND_NONE) rom_vars (\<lambda>w. True)"
  by (rule env_for_firmware [OF rom_services]) (auto simp add: rom_delete_def)

definition demo_vendor :: mok_vendor where
  "demo_vendor = \<lparr>vendor_authorized = [], vendor_authorized_category = VENDOR_ADDEND_NONE, vendor_deauthorized = [],
     user_cert = [], build_cert = None, shim_devel = False\<rparr>"

definition world_at :: "'w \<Rightarrow> 'w mok_world" where
  "world_at w = \<lparr>mw_fw = w, mw_tpm = tpm_initial, mw_user_insecure_mode = 9, mw_ignore_db = 9,
     mw_trust_mok_list = 9, mw_mok_policy = 0\<rparr>"


abbreviation rom_env :: "u8 mok_env" where
  "rom_env \<equiv> env_for rom_rt rom_delete VENDOR_ADDEND_NONE"

lemmas env_for_simps =
  env_for_def [THEN arg_cong, of me_rt, simplified] env_for_def [THEN arg_cong, of me_tpm, simplified]
  env_for_def [THEN arg_cong, of me_require_tpm, simplified] env_for_def [THEN arg_cong, of me_pool, simplified]
  env_for_def [THEN arg_cong, of me_major_version, simplified] env_for_def [THEN arg_cong, of me_category, simplified]
  env_for_def [THEN arg_cong, of me_LibDeleteVariable, simplified]
  env_for_def [THEN arg_cong, of me_AllocatePages, simplified]
  env_for_def [THEN arg_cong, of me_InstallConfigurationTable, simplified]
  env_for_def [THEN arg_cong, of me_start_mok_manager, simplified]

lemma no_tpm_log: "tpm_log_event_raw no_tpm False pool s w buf pcr log type hash = (EFI_SUCCESS, s, w)"
  by (simp add: tpm_log_event_raw_def cc_log_event_raw_def tpm_locate_protocol_def no_tpm_def)

lemma rom_simps [simp]:
  "SetVariable rom_rt w n g a d = (EFI_WRITE_PROTECTED, w)"
  "get_variable_attr rom_rt (\<lambda>_. True) w True n g =
     (if n = ''MokSBState'' \<and> g = SHIM_LOCK_GUID then (EFI_SUCCESS, Some [w, 0, 0, 0], 1, Some 3)
      else (EFI_NOT_FOUND, None, 0, None))"
  "check_var rom_rt w n = (n = ''MokSBState'')"
  by (simp_all add: rom_rt_def get_variable_attr_def check_var_def Let_def numeral_3_eq_3)

lemma dummy_size:
  "\<exists>x. variable_create_esl_with_one_signature (\<lambda>_. True) null_sha256 32 EFI_CERT_SHA256_GUID (Some SHIM_LOCK_GUID)
    = Inr (EFI_SUCCESS, Some x, 76) \<and> length x = 76"
  by (simp add: variable_create_esl_with_one_signature_def fill_esl_with_one_signature_def fill_esl_def
      sizeof_ESL_def sizeof_ESD_def null_sha256_def Let_def)


lemmas import_defs = import_one_mok_state_def maybe_mirror_one_mok_variable_def
  mirror_if_named_def mirror_one_mok_variable_def mirror_write_def mirror_mok_db_def get_max_var_sz_def
  get_bytes_def measure_one_def log_one_def tpm_log_event_def no_tpm_log apply_state_def Let_def env_for_simps

text \<open>A key database that does not exist, with nothing built in.\<close>

definition bare_keydb :: "mok_variable \<Rightarrow> bool" where
  "bare_keydb v \<longleftrightarrow> mok_has v MOK_MIRROR_KEYDB \<and> \<not> mok_has v MOK_VARIABLE_MEASURE \<and> \<not> mok_has v MOK_VARIABLE_INVERSE
     \<and> v_name v \<noteq> ''MokSBState'' \<and> v_rtname v \<noteq> None \<and> v_state v = None
     \<and> categorize rom_env v = VENDOR_ADDEND_NONE \<and> \<not> should_mirror_build_cert v \<and> user_cert_bytes v = []"

lemma bare_keydb_data: "bare_keydb (v\<lparr>v_data := d, v_data_size := n\<rparr>) = bare_keydb v"
  unfolding bare_keydb_def mok_has_def categorize_def should_mirror_build_cert_def user_cert_bytes_def
  by (simp only: same_entry_fields [OF same_entry_data])

lemma rom_keydb:
  assumes "bare_keydb v" and "v_data v = None" and "v_data_size v = 0" and "v_flags v AND MOK_VARIABLE_LOG \<noteq> 0"
  shows "\<exists>x. length x = 76
    \<and> (\<forall>s. import_one_mok_state rom_env v True s = Some (Inr (EFI_SUCCESS, v\<lparr>v_data := Some x, v_data_size := 76\<rparr>, s)))"
proof -
  obtain x where x: "variable_create_esl_with_one_signature (\<lambda>_. True) null_sha256 32 EFI_CERT_SHA256_GUID
      (Some SHIM_LOCK_GUID) = Inr (EFI_SUCCESS, Some x, 76)" "length x = 76" using dummy_size by blast
  have f: "full_data rom_env v = (v, Inr (Some x, 76))"
    using assms x
    by (simp add: bare_keydb_def full_data_def keydb_sizes_def addend_size_def build_cert_esl_size_def Let_def env_for_simps)
  have r: "read_mok_variable rom_env w v = Inr (v, False)" for w
    using assms by (cases v) (simp add: bare_keydb_def read_mok_variable_def env_for_simps mok_has_def)
  show ?thesis using assms x(2)
    by (auto simp add: bare_keydb_def import_defs r f rom_delete_def mok_has_def)
qed

lemma rom_keydb_again:
  assumes "bare_keydb v" and "v_data v = Some x" and "v_data_size v = 76" and "length x = 76"
  shows "import_one_mok_state rom_env v False s = Some (Inr (EFI_SUCCESS, v, s))"
proof -
  have f: "full_data rom_env v = (v\<lparr>v_data := None, v_data_size := 0\<rparr>, Inr (Some x, 76))"
    using assms
    by (simp add: bare_keydb_def full_data_def keydb_sizes_def addend_size_def build_cert_esl_size_def Let_def env_for_simps
        fill_keydb_def fill_addend_def fill_build_cert_def copy_at_def)
  have v: "v\<lparr>v_data := Some x, v_data_size := 76\<rparr> = v" using assms(2,3) by simp
  have r: "read_mok_variable rom_env w v = Inr (v, False)" for w
    using assms by (simp add: read_mok_variable_def)
  show ?thesis using assms
    by (auto simp add: bare_keydb_def import_defs r f v)
qed

lemma state_again:
  assumes "\<not> mok_has v MOK_MIRROR_KEYDB" and "v_data v = Some (x # p)" and "v_data_size v = 1" and "v_state v = Some f"
    and "v_rtname v \<noteq> None"
  shows "import_one_mok_state env v False s = Some (Inr (EFI_SUCCESS, v, set_state f x s))"
proof -
  have v: "v\<lparr>v_data := Some (x # p), v_data_size := Suc 0\<rparr> = v" using assms(2,3) by simp
  show ?thesis using assms
    by (auto simp add: v import_one_mok_state_def read_mok_variable_def maybe_mirror_one_mok_variable_def
      mirror_if_named_def mirror_one_mok_variable_def mirror_write_def apply_state_def full_data_plain idx_def)
qed

lemma rom_missing:
  assumes "\<not> mok_has v MOK_MIRROR_KEYDB" and "\<not> mok_has v MOK_VARIABLE_INVERSE" and "v_name v \<noteq> ''MokSBState''"
    and "v_data v = None" and "v_data_size v = 0" and "v_rtname v \<noteq> None"
  shows "import_one_mok_state rom_env v b s = Some (Inr (EFI_SUCCESS, v, s))"
proof -
  have v: "v\<lparr>v_data := None, v_data_size := 0\<rparr> = v" using assms by simp
  have r: "read_mok_variable rom_env w v = Inr (v, False)" for w
    using assms by (simp add: read_mok_variable_def env_for_simps v)
  show ?thesis using assms
    by (auto simp add: import_defs full_data_plain rom_delete_def r v)
qed


lemma rom_sb_state:
  assumes "v = mok_entry ''MokSBState'' r (MOK_MIRROR_DELETE_FIRST OR MOK_VARIABLE_MEASURE OR MOK_VARIABLE_LOG) 14
      (Some User_insecure_mode)"
  shows "\<exists>t. \<forall>s. mw_tpm s = tpm_initial \<and> mw_fw s = w \<longrightarrow> import_one_mok_state rom_env v True s
    = Some (Inr (EFI_SUCCESS, v\<lparr>v_data := Some [mw_fw s, 0, 0, 0], v_data_size := 1\<rparr>,
        s\<lparr>mw_tpm := t, mw_user_insecure_mode := mw_fw s\<rparr>))"
proof -
  have r: "read_mok_variable rom_env w v = Inr (v\<lparr>v_data := Some [w, 0, 0, 0], v_data_size := 1\<rparr>, False)"
    by (simp add: assms read_mok_variable_def env_for_simps mok_entry_def mok_has_def mok_flag_defs var_attr_defs)
  obtain t where t: "tpm_measure_variable no_tpm False (\<lambda>_. True) tpm_initial w ''MokSBState'' SHIM_LOCK_GUID [w]
      = Inr (EFI_SUCCESS, t, w)"
    by (simp add: tpm_measure_variable_def tpm_data_measured_def tpm_initial_def no_tpm_log Let_def
        tpm_record_data_measurement_def variable_event_def)
  have k: "\<not> mok_has v MOK_MIRROR_KEYDB" "mok_has v MOK_MIRROR_DELETE_FIRST" "mok_has v MOK_VARIABLE_MEASURE"
    "mok_has v MOK_VARIABLE_LOG" "v_name v = ''MokSBState''" "v_guid v = SHIM_LOCK_GUID" "v_rtname v = Some r"
    "v_state v = Some User_insecure_mode"
    by (simp_all add: assms mok_entry_def mok_has_def mok_flag_defs)
  have h: "mok_has (v\<lparr>v_data := d, v_data_size := n\<rparr>) f = mok_has v f" for d n f by (simp add: mok_has_def)
  show ?thesis
    by (intro exI [of _ t] allI impI, elim conjE)
       (simp add: import_defs r full_data_plain h k rom_delete_def t set_state_def idx_def)
qed

lemma rom_trusted:
  assumes "v = mok_entry ''MokListTrusted'' r (MOK_MIRROR_DELETE_FIRST OR MOK_VARIABLE_INVERSE OR MOK_VARIABLE_LOG) 14
      (Some Trust_mok_list)"
  shows "import_one_mok_state rom_env v True s
    = Some (Inr (EFI_SUCCESS, v\<lparr>v_data := Some [1, 0, 0, 0], v_data_size := 1\<rparr>, s\<lparr>mw_trust_mok_list := 1\<rparr>))"
proof -
  have r: "read_mok_variable rom_env (mw_fw s) v = Inr (v\<lparr>v_data := Some [1, 0, 0, 0], v_data_size := 1\<rparr>, False)"
    by (simp add: assms read_mok_variable_def env_for_simps mok_entry_def mok_has_def mok_flag_defs)
  have k: "\<not> mok_has v MOK_MIRROR_KEYDB" "mok_has v MOK_MIRROR_DELETE_FIRST" "\<not> mok_has v MOK_VARIABLE_MEASURE"
    "mok_has v MOK_VARIABLE_LOG" "v_rtname v = Some r" "v_state v = Some Trust_mok_list"
    by (simp_all add: assms(1) mok_entry_def mok_has_def mok_flag_defs)
  have h: "mok_has (v\<lparr>v_data := d, v_data_size := n\<rparr>) f = mok_has v f" for d n f by (simp add: mok_has_def)
  show ?thesis
    by (simp add: import_defs r full_data_plain h k rom_delete_def set_state_def idx_def)
qed

definition demo_world :: "tpm_state \<Rightarrow> u8 mok_world" where
  "demo_world t = \<lparr>mw_fw = 1, mw_tpm = t, mw_user_insecure_mode = 1, mw_ignore_db = 0, mw_trust_mok_list = 1,
     mw_mok_policy = 0\<rparr>"

lemma demo_import:
  "\<exists>vs' t. import_mok_state rom_env (mok_state_variable_data demo_vendor) (world_at 1)
    = Some (Inr (EFI_SUCCESS, vs', demo_world t))"
proof -
  let ?T = "mok_state_variable_data demo_vendor"
  define k0 k1 sb db lv tr po where d: "k0 = ?T ! 0" "k1 = ?T ! 1" "sb = ?T ! 2" "db = ?T ! 3" "lv = ?T ! 4" "tr = ?T ! 5" "po = ?T ! 6"
  note D = d mok_state_variable_data_def demo_vendor_def mok_entry_def
  have T: "?T = [k0, k1, sb, db, lv, tr, po]" by (simp add: d mok_state_variable_data_def)
  have kd: "bare_keydb k0" "bare_keydb k1" "v_data k0 = None" "v_data k1 = None" "v_data_size k0 = 0" "v_data_size k1 = 0"
    "v_flags k0 AND MOK_VARIABLE_LOG \<noteq> 0" "v_flags k1 AND MOK_VARIABLE_LOG \<noteq> 0"
    by (simp_all add: D bare_keydb_def mok_has_def mok_flag_defs categorize_def should_mirror_build_cert_def user_cert_bytes_def)
  have ms: "import_one_mok_state rom_env v b s = Some (Inr (EFI_SUCCESS, v, s))" if "v \<in> {db, lv, po}" for v b s
    by (rule rom_missing) (use that in \<open>auto simp add: D mok_has_def mok_flag_defs\<close>)
  note m = ms [of db] ms [of lv] ms [of po]
  obtain x0 where x0: "length x0 = 76"
    "\<And>s. import_one_mok_state rom_env k0 True s = Some (Inr (EFI_SUCCESS, k0\<lparr>v_data := Some x0, v_data_size := 76\<rparr>, s))"
    using rom_keydb [OF kd(1,3,5,7)] by blast
  obtain x1 where x1: "length x1 = 76"
    "\<And>s. import_one_mok_state rom_env k1 True s = Some (Inr (EFI_SUCCESS, k1\<lparr>v_data := Some x1, v_data_size := 76\<rparr>, s))"
    using rom_keydb [OF kd(2,4,6,8)] by blast
  have sbv: "sb = mok_entry ''MokSBState'' ''MokSBStateRT'' (MOK_MIRROR_DELETE_FIRST OR MOK_VARIABLE_MEASURE OR MOK_VARIABLE_LOG) 14
      (Some User_insecure_mode)" by (simp add: d mok_state_variable_data_def)
  have trv: "tr = mok_entry ''MokListTrusted'' ''MokListTrustedRT'' (MOK_MIRROR_DELETE_FIRST OR MOK_VARIABLE_INVERSE OR MOK_VARIABLE_LOG) 14
      (Some Trust_mok_list)" by (simp add: d mok_state_variable_data_def)
  obtain t where sb: "\<And>s. mw_tpm s = tpm_initial \<Longrightarrow> mw_fw s = 1 \<Longrightarrow> import_one_mok_state rom_env sb True s
      = Some (Inr (EFI_SUCCESS, sb\<lparr>v_data := Some [mw_fw s, 0, 0, 0], v_data_size := 1\<rparr>,
          s\<lparr>mw_tpm := t, mw_user_insecure_mode := mw_fw s\<rparr>))" using rom_sb_state [OF sbv, of 1] by blast
  note tr = rom_trusted [OF trv]
  have k: "bare_keydb (k0\<lparr>v_data := Some x0, v_data_size := 76\<rparr>)" "bare_keydb (k1\<lparr>v_data := Some x1, v_data_size := 76\<rparr>)"
    using kd(1,2) by (simp_all only: bare_keydb_data)
  have sb2: "import_one_mok_state rom_env (sb\<lparr>v_data := Some [x, 0, 0, 0], v_data_size := 1\<rparr>) False s
      = Some (Inr (EFI_SUCCESS, sb\<lparr>v_data := Some [x, 0, 0, 0], v_data_size := 1\<rparr>, set_state User_insecure_mode x s))" for x s
    by (rule state_again) (simp_all add: sbv mok_entry_def mok_has_def mok_flag_defs)
  have tr2: "import_one_mok_state rom_env (tr\<lparr>v_data := Some [x, 0, 0, 0], v_data_size := 1\<rparr>) False s
      = Some (Inr (EFI_SUCCESS, tr\<lparr>v_data := Some [x, 0, 0, 0], v_data_size := 1\<rparr>, set_state Trust_mok_list x s))" for x s
    by (rule state_again) (simp_all add: trv mok_entry_def mok_has_def mok_flag_defs)
  have q: "check_mok_request rom_env w = (EFI_SUCCESS, w)" for w
    by (simp add: check_mok_request_def mok_request_names_def env_for_simps)
  note kk = rom_keydb_again [OF k(1) _ _ x0(1)] rom_keydb_again [OF k(2) _ _ x1(1)]
  let ?vs = "[k0\<lparr>v_data := Some x0, v_data_size := 76\<rparr>, k1\<lparr>v_data := Some x1, v_data_size := 76\<rparr>,
      sb\<lparr>v_data := Some [1, 0, 0, 0], v_data_size := 1\<rparr>, db, lv, tr\<lparr>v_data := Some [1, 0, 0, 0], v_data_size := 1\<rparr>, po]"
  have one: "import_variables rom_env True ?T EFI_SUCCESS
      ((world_at 1)\<lparr>mw_user_insecure_mode := 0, mw_ignore_db := 0, mw_trust_mok_list := 0\<rparr>)
    = Some (Inr (EFI_SUCCESS, ?vs, demo_world t))"
    unfolding T by (simp add: x0(2) x1(2) sb m tr merge_status_def world_at_def demo_world_def)
  have two: "import_variables rom_env False ?vs EFI_SUCCESS (demo_world t)
    = Some (Inr (EFI_SUCCESS, ?vs, demo_world t))"
    by (simp add: kk m sb2 [simplified] tr2 [simplified] set_state_def demo_world_def)
  have "config_table rom_env ?vs = Inr None" by (simp add: config_table_def Let_def env_for_simps)
  then show ?thesis using one two q
    by (simp add: import_mok_state_def Let_def merge_status_def) (simp add: demo_world_def)
qed

text \<open>The statuses of the first pass: a security violation is never replaced.\<close>

lemma import_variables_violation:
  "import_variables env True vs EFI_SECURITY_VIOLATION s = Some (Inr (r, vs', s')) \<Longrightarrow> r = EFI_SECURITY_VIOLATION"
  by (induction vs arbitrary: s vs') (auto simp add: merge_status_def split: option.splits sum.splits)

lemma mirror_if_named_violation:
  "mirror_if_named env v EFI_SECURITY_VIOLATION b s = Some (Inr (r, v', s')) \<Longrightarrow> r = EFI_SECURITY_VIOLATION"
  by (auto simp add: mirror_if_named_def Let_def split: option.splits sum.splits)

lemma import_one_violation:
  assumes "read_mok_variable env (mw_fw s) v = Inr (v1, True)"
    and "EFI_ERROR (fst (me_LibDeleteVariable env (mw_fw s) (v_name v) (v_guid v)))"
    and "import_one_mok_state env v b s = Some (Inr (r, v', s'))"
  shows "r = EFI_SECURITY_VIOLATION"
  using assms mirror_if_named_violation
  by (auto simp add: import_one_mok_state_def maybe_mirror_one_mok_variable_def bindR_eq_Inr
      split: option.splits sum.splits prod.splits)

lemma import_violation:
  assumes "import_variables env True pre EFI_SUCCESS s = Some (Inr (r1, pre', s1))"
    and "read_mok_variable env (mw_fw s1) v = Inr (v1, True)"
    and "EFI_ERROR (fst (me_LibDeleteVariable env (mw_fw s1) (v_name v) (v_guid v)))"
    and "import_variables env True (pre @ v # post) EFI_SUCCESS s = Some (Inr (r, vs', s'))"
  shows "r = EFI_SECURITY_VIOLATION"
proof -
  from import_variables_append [OF assms(4)] assms(1) obtain ys where
    b: "import_variables env True (v # post) r1 s1 = Some (Inr (r, ys, s'))" by auto
  then obtain st v' s2 ys' where i: "import_one_mok_state env v True s1 = Some (Inr (st, v', s2))"
    and p: "import_variables env True post (merge_status r1 st) s2 = Some (Inr (r, ys', s'))"
    by (auto split: option.splits sum.splits)
  from import_one_violation [OF assms(2,3) i] have "merge_status r1 st = EFI_SECURITY_VIOLATION"
    by (simp add: merge_status_def)
  with p show ?thesis using import_variables_violation by metis
qed

context mok_firmware
begin

lemma table_flags:
  assumes "good (mw_fw s)" and "import_mok_state env (mok_state_variable_data b) s = Some (Inr (st, vs', s'))"
  shows "(mw_user_insecure_mode s' \<noteq> 0 \<longrightarrow>
           (\<exists>a. vars (mw_fw s) (''MokSBState'', SHIM_LOCK_GUID) = Some (a, [mw_user_insecure_mode s'])
              \<and> a AND (EFI_VARIABLE_BOOTSERVICE_ACCESS OR EFI_VARIABLE_NON_VOLATILE) \<noteq> 0
              \<and> a AND EFI_VARIABLE_RUNTIME_ACCESS = 0))
       \<and> (mw_ignore_db s' \<noteq> 0 \<longrightarrow>
           (\<exists>a. vars (mw_fw s) (''MokDBState'', SHIM_LOCK_GUID) = Some (a, [mw_ignore_db s'])
              \<and> a AND (EFI_VARIABLE_BOOTSERVICE_ACCESS OR EFI_VARIABLE_NON_VOLATILE) \<noteq> 0
              \<and> a AND EFI_VARIABLE_RUNTIME_ACCESS = 0))"
proof -
  let ?T = "mok_state_variable_data b"
  note D = mok_state_variable_data_def mok_entry_def
  have T: "?T = take 2 ?T @ ?T ! 2 # drop 3 ?T" "?T = take 3 ?T @ ?T ! 3 # drop 4 ?T"
    by (simp_all add: mok_state_variable_data_def numeral_eq_Suc)
  have p: "plain_state User_insecure_mode (?T ! 2)" "plain_state Ignore_db (?T ! 3)"
    by (simp_all add: D plain_state_def mok_has_def mok_flag_defs)
  have o': "others User_insecure_mode (?T ! 2) (take 2 ?T)" "others User_insecure_mode (?T ! 2) (drop 3 ?T)"
    "others Ignore_db (?T ! 3) (take 3 ?T)" "others Ignore_db (?T ! 3) (drop 4 ?T)"
    by (simp_all add: D others_def touched_def numeral_eq_Suc)
  have d: "v_data (?T ! 2) = None" "v_data_size (?T ! 2) = 0" "v_data (?T ! 3) = None" "v_data_size (?T ! 3) = 0"
    by (simp_all add: D)
  have "get_state User_insecure_mode s' = 0 \<or> genuine_byte (mw_fw s) (?T ! 2) (get_state User_insecure_mode s')"
    using import_mok_state_flag [OF _ p(1) o'(1,2) d(1,2) assms(1)] assms(2) T(1) by simp
  moreover have "get_state Ignore_db s' = 0 \<or> genuine_byte (mw_fw s) (?T ! 3) (get_state Ignore_db s')"
    using import_mok_state_flag [OF _ p(2) o'(3,4) d(3,4) assms(1)] assms(2) T(2) by simp
  ultimately show ?thesis by (simp add: genuine_byte_def attrs_ok_def get_state_def D) blast
qed

end

section \<open>Properties\<close>

text \<open>
  C32. The flags that switch off the verification, and that make the loader ignore the firmware's
  db, come from the right variables: after the import they are not 0 only when \<open>MokSBState\<close>
  (\<open>MokDBState\<close>) was there before it, with exactly one byte, the flag's value, with one of the
  boot service and non-volatile attributes and without runtime access, which would allow the
  operating system to write it.
\<close>

theorem insecure_mode_genuine:
  assumes fw: "mok_firmware env vars good" and "good (mw_fw s)"
    and run: "import_mok_state env (mok_state_variable_data b) s = Some (Inr (st, vs', s'))"
  shows "(mw_user_insecure_mode s' \<noteq> 0 \<longrightarrow>
           (\<exists>a. vars (mw_fw s) (''MokSBState'', SHIM_LOCK_GUID) = Some (a, [mw_user_insecure_mode s'])
              \<and> a AND (EFI_VARIABLE_BOOTSERVICE_ACCESS OR EFI_VARIABLE_NON_VOLATILE) \<noteq> 0
              \<and> a AND EFI_VARIABLE_RUNTIME_ACCESS = 0))
       \<and> (mw_ignore_db s' \<noteq> 0 \<longrightarrow>
           (\<exists>a. vars (mw_fw s) (''MokDBState'', SHIM_LOCK_GUID) = Some (a, [mw_ignore_db s'])
              \<and> a AND (EFI_VARIABLE_BOOTSERVICE_ACCESS OR EFI_VARIABLE_NON_VOLATILE) \<noteq> 0
              \<and> a AND EFI_VARIABLE_RUNTIME_ACCESS = 0))"
  using assms by (rule mok_firmware.table_flags)

theorem insecure_mode_genuine_witness:
  "\<exists>a. rom_vars 1 (''MokSBState'', SHIM_LOCK_GUID) = Some (a, [1])
      \<and> a AND (EFI_VARIABLE_BOOTSERVICE_ACCESS OR EFI_VARIABLE_NON_VOLATILE) \<noteq> 0 \<and> a AND EFI_VARIABLE_RUNTIME_ACCESS = 0"
proof -
  obtain vs' t where "import_mok_state rom_env (mok_state_variable_data demo_vendor) (world_at 1)
      = Some (Inr (EFI_SUCCESS, vs', demo_world t))" using demo_import by blast
  from insecure_mode_genuine [OF rom_firmware _ this] show ?thesis by (simp add: demo_world_def world_at_def)
qed


definition bad_entry :: mok_variable where
  "bad_entry = (mok_entry ''MokSBState'' ''MokSBStateRT'' MOK_MIRROR_DELETE_FIRST 14 (Some User_insecure_mode))
     \<lparr>v_no_attr := EFI_VARIABLE_BOOTSERVICE_ACCESS\<rparr>"


end
