(* ===== verification/MokMirror.thy ===== *)
theory MokMirror
  imports MokSpec
begin

text \<open>
  The contents of the mirrored variables and of the configuration table of mok.c, and the part of a
  database that is too large for one variable.
\<close>

section \<open>The contents of a mirrored variable\<close>

text \<open>A certificate as a signature list of its own.\<close>

definition cert_list :: "bytes \<Rightarrow> esl" where
  "cert_list c = \<lparr>esl_type = EFI_CERT_TYPE_X509_GUID, esl_hdr = [], esl_size = 16 + length c,
     esl_sigs = [(SHIM_LOCK_GUID, c)]\<rparr>"

definition cert_ok :: "bytes \<Rightarrow> bool" where "cert_ok c \<longleftrightarrow> length c + 44 < 2 ^ 32"

lemma cert_list_bytes:
  "esl_bytes (cert_list c) = esl_header EFI_CERT_TYPE_X509_GUID (44 + length c) 0 (16 + length c) @ SHIM_LOCK_GUID @ c"
  by (simp add: esl_bytes_def cert_list_def esl_len_def sizeof_ESL_def sig_bytes_def)

lemma length_cert_list [simp]: "length (esl_bytes (cert_list c)) = 44 + length c"
  by (simp add: cert_list_bytes)

lemma cert_esl_size_eq: "cert_ok c \<Longrightarrow> cert_esl_size env c = Inr (44 + length c)"
  by (simp add: cert_esl_size_def cert_ok_def fill_esl_with_one_signature_def fill_esl_def sizeof_ESD_def sizeof_ESL_def
      Let_def div_greater_zero_iff)

text \<open>\<open>at_end d r\<close>: the buffer with \<open>d\<close> filled in and \<open>r\<close> left.\<close>

definition at_end :: "bytes \<Rightarrow> bytes \<Rightarrow> bytes \<times> nat" where "at_end d r = (d @ r, length d)"

lemma copy_at_end: "length b \<le> length r \<Longrightarrow> copy_at (at_end d r) b = Inr (at_end (d @ b) (drop (length b) r))"
  by (simp add: copy_at_def at_end_def)

lemma cert_at_end:
  assumes "cert_ok c" and "44 + length c \<le> length r" and "\<forall>n. me_pool env n"
  shows "cert_at env (44 + length c) c (at_end d r)
    = Inr (at_end (d @ esl_bytes (cert_list c)) (drop (44 + length c) r))"
proof -
  have m: "(16 + length c) mod 2 ^ 32 = 16 + length c" "(16 + length c) mod 2 ^ 64 = 16 + length c"
    using assms(1) by (simp_all add: cert_ok_def)
  have q: "\<not> (2 ^ 32 - 1 - 28) div (16 + length c) < 1"
    using assms(1) by (simp add: cert_ok_def div_eq_0_iff not_less)
  have "fill_esl_with_one_signature (me_pool env) c (length c) EFI_CERT_TYPE_X509_GUID (Some SHIM_LOCK_GUID)
      (Some r) (44 + length c)
    = Inr (EFI_SUCCESS, Some (esl_bytes (cert_list c) @ drop (44 + length c) r), 44 + length c)"
    using assms m q
    by (simp add: fill_esl_with_one_signature_def fill_esl_def sizeof_ESD_def sizeof_ESL_def Let_def cert_list_bytes
        cert_ok_def)
  then show ?thesis by (simp add: cert_at_def at_end_def)
qed

definition addend_part :: "'w mok_env \<Rightarrow> mok_variable \<Rightarrow> bytes" where
  "addend_part env v =
     (case categorize env v of
        VENDOR_ADDEND_DB \<Rightarrow> addend_bytes v
      | VENDOR_ADDEND_X509 \<Rightarrow> esl_bytes (cert_list (addend_bytes v))
      | VENDOR_ADDEND_NONE \<Rightarrow> [])"

definition build_cert_part :: "mok_variable \<Rightarrow> bytes" where
  "build_cert_part v = (if should_mirror_build_cert v then esl_bytes (cert_list (build_cert_bytes v)) else [])"

definition own_part :: "mok_variable \<Rightarrow> bytes" where
  "own_part v = (case v_data v of None \<Rightarrow> [] | Some d \<Rightarrow> take (v_data_size v) d)"

definition mirrored :: "'w mok_env \<Rightarrow> mok_variable \<Rightarrow> bytes" where
  "mirrored env v = addend_part env v @ build_cert_part v @ user_cert_bytes v @ own_part v"

definition entry_ok :: "mok_variable \<Rightarrow> bool" where
  "entry_ok v \<longleftrightarrow> cert_ok (addend_bytes v) \<and> cert_ok (build_cert_bytes v)
     \<and> (case v_data v of None \<Rightarrow> v_data_size v = 0 | Some d \<Rightarrow> v_data_size v \<le> length d)"

lemma length_own_part: "entry_ok v \<Longrightarrow> length (own_part v) = v_data_size v"
  by (auto simp add: entry_ok_def own_part_def split: option.splits)

lemma addend_size_eq: "entry_ok v \<Longrightarrow> addend_size env v = Inr (length (addend_part env v))"
  by (simp add: addend_size_def addend_part_def cert_esl_size_eq entry_ok_def split: vendor_addend_category.split)

lemma build_cert_size_eq: "entry_ok v \<Longrightarrow> build_cert_esl_size env v = Inr (length (build_cert_part v))"
  by (simp add: build_cert_esl_size_def build_cert_part_def cert_esl_size_eq entry_ok_def)

lemma fill_addend_eq:
  assumes "entry_ok v" and "length (addend_part env v) \<le> length r" and "\<forall>n. me_pool env n"
  shows "fill_addend env v (length (addend_part env v)) (at_end d r)
    = Inr (at_end (d @ addend_part env v) (drop (length (addend_part env v)) r))"
  using assms cert_at_end [of "addend_bytes v" r env d] copy_at_end
  by (auto simp add: fill_addend_def addend_part_def entry_ok_def split: vendor_addend_category.split)

lemma fill_build_cert_eq:
  assumes "entry_ok v" and "length (build_cert_part v) \<le> length r" and "\<forall>n. me_pool env n"
  shows "fill_build_cert env v (length (build_cert_part v)) (at_end d r)
    = Inr (at_end (d @ build_cert_part v) (drop (length (build_cert_part v)) r))"
  using assms cert_at_end [of "build_cert_bytes v" r env d]
  by (cases "should_mirror_build_cert v") (simp_all add: fill_build_cert_def build_cert_part_def entry_ok_def)

lemma fill_keydb_eq:
  assumes "entry_ok v" and "mok_has v MOK_MIRROR_KEYDB" and "\<forall>n. me_pool env n"
    and "length (addend_part env v) + length (build_cert_part v) + length (user_cert_bytes v) \<le> length r"
  shows "fill_keydb env v (length (addend_part env v)) (length (build_cert_part v)) (at_end [] r)
    = Inr (at_end (addend_part env v @ build_cert_part v @ user_cert_bytes v)
        (drop (length (addend_part env v) + length (build_cert_part v) + length (user_cert_bytes v)) r))"
  using assms fill_addend_eq [of v env r "[]"]
    fill_build_cert_eq [of v "drop (length (addend_part env v)) r" env "addend_part env v"]
    copy_at_end [of "user_cert_bytes v" "drop (length (addend_part env v) + length (build_cert_part v)) r"
        "addend_part env v @ build_cert_part v"]
  by (simp add: fill_keydb_def add.commute add.left_commute)

lemma mirror_alloc_bound: "n + 28 \<le> mirror_alloc_size n"
proof -
  have "n + 28 \<le> (n + 28 + 4095) div 4096 * 4096"
    using div_mult_mod_eq [of "n + 28 + 4095" 4096] mod_less_divisor [of 4096 "n + 28 + 4095"] by linarith
  then show ?thesis by (simp add: mirror_alloc_size_def Let_def)
qed

text \<open>The data of a database is exactly its parts, and there are always zeros behind a copy.\<close>

lemma full_data_keydb:
  assumes "entry_ok v" and "mok_has v MOK_MIRROR_KEYDB" and "\<forall>n. me_pool env n" and "mirrored env v \<noteq> []"
  shows "\<exists>v1 r. full_data env v = (v1, Inr (Some (mirrored env v @ r), length (mirrored env v)))"
proof -
  let ?e = "addend_part env v @ build_cert_part v @ user_cert_bytes v"
  have n: "length (mirrored env v) = length ?e + v_data_size v"
    using length_own_part [OF assms(1)] by (simp add: mirrored_def)
  have k: "keydb_sizes env v = Inr (length (addend_part env v), length (build_cert_part v), length ?e)"
    using assms(1,2) by (simp add: keydb_sizes_def addend_size_eq build_cert_size_eq)
  have pos: "length ?e + v_data_size v \<noteq> 0" using assms(4) n by (metis length_0_conv)
  show ?thesis
  proof (cases "?e = []")
    case True
    then have e: "addend_part env v = []" "build_cert_part v = []" "user_cert_bytes v = []" by simp_all
    obtain d where d: "v_data v = Some d" "v_data_size v \<le> length d"
      using assms(1) pos True by (auto simp add: entry_ok_def split: option.splits)
    have ne: "esl_bytes (cert_list c) \<noteq> []" for c using length_cert_list [of c] by (metis add_is_0 length_0_conv zero_neq_numeral)
    have f: "fill_addend env v 0 (b, p) = Inr (b, p)" "fill_build_cert env v 0 (b, p) = Inr (b, p)" if "p \<le> length b" for b p
      using e that ne by (auto simp add: fill_addend_def addend_part_def fill_build_cert_def build_cert_part_def copy_at_def
          split: vendor_addend_category.splits if_splits)
    have m: "mirrored env v = take (v_data_size v) d" using e d by (simp add: mirrored_def own_part_def)
    have "full_data env v = (v\<lparr>v_data := None, v_data_size := 0\<rparr>, Inr (Some d, v_data_size v))"
      using k e d pos assms(2) f [OF d(2)] by (simp add: full_data_def fill_keydb_def copy_at_def Let_def)
    moreover have "d = mirrored env v @ drop (v_data_size v) d" using m by simp
    moreover have "v_data_size v = length (mirrored env v)" using n e by simp
    ultimately show ?thesis by metis
  next
    case False
    let ?n = "length (mirrored env v)" and ?z = "replicate (mirror_alloc_size (length (mirrored env v))) (0 :: u8)"
    let ?r = "drop (length ?e) ?z"
    have b: "?n \<le> length ?z" using mirror_alloc_bound [of ?n] by simp
    have f: "fill_keydb env v (length (addend_part env v)) (length (build_cert_part v)) (?z, 0) = Inr (at_end ?e ?r)"
      using fill_keydb_eq [OF assms(1-3), of ?z] b n by (simp add: at_end_def add.assoc)
    have g: "fill_data v False (at_end ?e ?r) = Inr (at_end (mirrored env v) (drop (v_data_size v) ?r))"
    proof (cases "v_data v")
      case None
      then show ?thesis using assms(1) by (simp add: fill_data_def mirrored_def own_part_def entry_ok_def)
    next
      case (Some d)
      then have l: "v_data_size v \<le> length d" using assms(1) by (simp add: entry_ok_def)
      have "copy_at (at_end ?e ?r) (take (v_data_size v) d)
          = Inr (at_end (?e @ take (v_data_size v) d) (drop (v_data_size v) ?r))"
        using copy_at_end [of "take (v_data_size v) d" ?r ?e] l b n by simp
      then show ?thesis using Some l
        by (simp add: fill_data_def mirrored_def own_part_def get_bytes_def)
    qed
    have "full_data env v = (v, Inr (Some (mirrored env v @ drop (v_data_size v) ?r), ?n))"
      using k False pos n assms(3) f g by (auto simp add: full_data_def Let_def at_end_def)
    then show ?thesis by blast
  qed
qed

context mok_firmware
begin

lemma mirror_one_contents:
  assumes "good (mw_fw s)" and "entry_ok v" and "mok_has v MOK_MIRROR_KEYDB" and "\<forall>n. me_pool env n"
    and "mirrored env v \<noteq> []"
    and "get_max_var_sz env (mw_fw s) mirror_attrs = (mst, mx)" and "\<not> EFI_ERROR mst" and "length (mirrored env v) \<le> mx"
    and "mirror_one_mok_variable env v rtname True s = Some (Inr (st, v', s'))"
  shows "\<exists>sst w1. SetVariable (me_rt env) (mw_fw s) rtname (v_guid v) mirror_attrs (mirrored env v) = (sst, w1)
     \<and> (\<not> EFI_ERROR sst \<longrightarrow> (\<exists>a. vars (mw_fw s') (rtname, v_guid v) = Some (a, mirrored env v)))
     \<and> (EFI_ERROR sst \<longrightarrow> vars (mw_fw s') = vars (mw_fw s))
     \<and> (\<not> EFI_ERROR st \<longrightarrow> own_part v' = mirrored env v \<and> v_data_size v' = length (mirrored env v))"
proof -
  let ?m = "mirrored env v"
  obtain v1 r where f: "full_data env v = (v1, Inr (Some (?m @ r), length ?m))"
    using full_data_keydb [OF assms(2-5)] by blast
  obtain sst w1 where set: "SetVariable (me_rt env) (mw_fw s) rtname (v_guid v) mirror_attrs ?m = (sst, w1)" by fastforce
  have w: "mirror_write env v rtname True (?m @ r) (length ?m) (mw_fw s) = Some (Inr (sst, w1))"
    using assms(3,6-8) set by (simp add: mirror_write_def mirror_mok_db_def get_bytes_def)
  obtain e t2 w2 where m: "measure_one env v ?m sst (mw_tpm s) w1 = Inr (e, st, t2, w2)"
    and s': "mw_fw s' = w2" and v': "v' = (if e then v1 else v1\<lparr>v_data := Some (?m @ r), v_data_size := length ?m\<rparr>)"
    using assms(9) w by (auto simp add: mirror_one_mok_variable_def f get_bytes_def bindR_eq_Inr)
  have k: "good w1" using set_good [OF assms(1) set] .
  then have v2: "vars (mw_fw s') = vars w1" using measure_one_keeps [OF m] s' by (auto simp add: keeps_def)
  have e: "e \<longrightarrow> EFI_ERROR st"
    using m by (auto simp add: measure_one_def log_one_def bindR_eq_Inr split: if_splits prod.splits)
  have a: "plain_attrs mirror_attrs" "\<not> append_write mirror_attrs"
    by (simp_all add: plain_attrs_def append_write_def mirror_attrs_def var_attr_defs)
  have "\<not> EFI_ERROR sst \<longrightarrow> (\<exists>a. vars (mw_fw s') (rtname, v_guid v) = Some (a, ?m))"
    using set_write [OF assms(1) set _ a assms(5)] v2 by auto
  moreover have "EFI_ERROR sst \<longrightarrow> vars (mw_fw s') = vars (mw_fw s)"
    using set_error [OF assms(1) set] v2 by simp
  moreover have "\<not> EFI_ERROR st \<longrightarrow> own_part v' = ?m \<and> v_data_size v' = length ?m"
    using e v' by (auto simp add: own_part_def)
  ultimately show ?thesis using set by blast
qed

end

section \<open>The configuration table\<close>

lemma strncpy_name:
  assumes "0 \<notin> set s" and "length s \<le> n" and "length s \<le> length z"
  shows "length s < n \<Longrightarrow> length s < length z \<Longrightarrow> strncpy z (s @ [0]) n = Inr (s @ 0 # drop (length s + 1) z)"
    and "length s = n \<Longrightarrow> strncpy z (s @ [0]) n = Inr (s @ drop (length s) z)"
  using assms
proof (induction s arbitrary: n z)
  case Nil
  { case 1 then show ?case by (cases n; cases z) auto }
  { case 2 then show ?case by (cases z) auto }
next
  case (Cons c s)
  { case 1
    then obtain m y ys where "n = Suc m" "z = y # ys" by (cases n; cases z) auto
    then show ?case using 1 Cons.IH(1) [of m ys] by auto }
  { case 2
    then obtain m y ys where "n = Suc m" "z = y # ys" by (cases n; cases z) auto
    then show ?case using 2 Cons.IH(2) [of m ys] by auto }
qed

definition name_ok :: "string \<Rightarrow> bool" where
  "name_ok n \<longleftrightarrow> n \<noteq> [] \<and> length n \<le> 255 \<and> 0 \<notin> set (str8 n)"

lemma replicate_update: "i < k \<Longrightarrow> (replicate k x)[i := x] = replicate k x"
  by (metis list_update_id nth_replicate)

lemma config_template_eq:
  assumes "name_ok n"
  shows "config_template n k = Inr (str8 n @ replicate (256 - length n) 0 @ le_bytes 8 k)"
proof -
  let ?s = "str8 n" and ?z = "replicate 256 (0 :: u8)"
  have l: "length ?s = length n" by (simp add: str8_def)
  have nz: "0 \<notin> set ?s" "length ?s \<le> 255" using assms l by (simp_all add: name_ok_def)
  have c: "strncpy ?z (?s @ [0]) 255 = Inr (?s @ replicate (256 - length n) 0)"
  proof (cases "length ?s = 255")
    case True
    then show ?thesis using strncpy_name(2) [OF nz(1), of 255 ?z] l by simp
  next
    case False
    then have "strncpy ?z (?s @ [0]) 255 = Inr (?s @ 0 # drop (length ?s + 1) ?z)"
      using strncpy_name(1) [OF nz(1), of 255 ?z] nz(2) by simp
    moreover have "0 # drop (length ?s + 1) ?z = replicate (256 - length n) 0"
      using nz(2) l by (simp add: replicate_Suc [symmetric] Suc_diff_Suc del: replicate_Suc)
    ultimately show ?thesis by simp
  qed
  have u: "(?s @ replicate (256 - length n) 0)[255 := 0] = ?s @ replicate (256 - length n) 0"
    using nz(2) l by (simp add: list_update_append replicate_update)
  show ?thesis using c u nz(2) l by (simp add: config_template_def upd_idx_def)
qed

text \<open>An entry of the table, and what the operating system reads: entries up to an empty name.\<close>

definition rt_name :: "mok_variable \<Rightarrow> string" where
  "rt_name v = (case v_rtname v of None \<Rightarrow> [] | Some n \<Rightarrow> n)"

definition config_entry :: "mok_variable \<Rightarrow> bytes" where
  "config_entry v = str8 (rt_name v) @ replicate (256 - length (rt_name v)) 0 @ le_bytes 8 (v_data_size v) @ own_part v"

function read_config_table :: "bytes \<Rightarrow> (bytes \<times> bytes) list" where
  "read_config_table t =
     (if length t < 264 \<or> t ! 0 = 0 then []
      else let n = le_nat (take 8 (drop 256 t)) in
        (takeWhile (\<lambda>c. c \<noteq> 0) (take 256 t), take n (drop 264 t)) # read_config_table (drop (264 + n) t))"
  by auto
termination by (relation "measure length") auto

declare read_config_table.simps [simp del]

definition table_entry_ok :: "mok_variable \<Rightarrow> bool" where
  "table_entry_ok v \<longleftrightarrow> (\<exists>n. v_rtname v = Some n \<and> name_ok n) \<and> v_data_size v < 2 ^ 64
     \<and> (case v_data v of None \<Rightarrow> v_data_size v = 0 | Some d \<Rightarrow> v_data_size v \<le> length d)"

lemma length_own: "table_entry_ok v \<Longrightarrow> length (own_part v) = v_data_size v"
  by (auto simp add: table_entry_ok_def own_part_def split: option.splits)

lemma length_config_entry:
  "table_entry_ok v \<Longrightarrow> length (config_entry v) = 264 + v_data_size v"
  using length_own [of v] by (auto simp add: table_entry_ok_def config_entry_def rt_name_def name_ok_def str8_def)

lemma config_sz_eq:
  "\<forall>v\<in>set vs. table_entry_ok v \<Longrightarrow> config_sz vs = length (concat (map config_entry (filter has_data vs)))"
  by (induction vs) (auto simp add: config_sz_def length_config_entry config_entry_size_def)

lemma fill_config_table_eq:
  assumes "\<forall>v\<in>set vs. table_entry_ok v" and "length (concat (map config_entry (filter has_data vs))) \<le> length r"
  shows "fill_config_table vs (at_end d r)
    = Inr (at_end (d @ concat (map config_entry (filter has_data vs)))
        (drop (length (concat (map config_entry (filter has_data vs)))) r))"
  using assms
proof (induction vs arbitrary: d r)
  case (Cons v vs)
  then obtain n where n: "v_rtname v = Some n" "name_ok n" by (auto simp add: table_entry_ok_def)
  let ?t = "str8 n @ replicate (256 - length n) 0 @ le_bytes 8 (v_data_size v)"
  note t = config_template_eq [OF n(2), of "v_data_size v"]
  show ?case
  proof (cases "has_data v")
    case False
    then show ?thesis using Cons t n by (auto simp add: has_data_def split: option.splits)
  next
    case True
    then obtain x where x: "v_data v = Some x" "v_data_size v \<noteq> 0" "v_data_size v \<le> length x"
      using Cons.prems(1) by (auto simp add: has_data_def table_entry_ok_def)
    have o': "own_part v = take (v_data_size v) x" using x by (simp add: own_part_def)
    have e: "config_entry v = ?t @ own_part v" using n by (simp add: config_entry_def rt_name_def)
    have l: "length ?t = 264" using n(2) by (simp add: name_ok_def str8_def)
    have r: "length ?t + length (own_part v) + length (concat (map config_entry (filter has_data vs))) \<le> length r"
      using Cons.prems(2) True e by simp
    have c: "copy_at (at_end d r) ?t = Inr (at_end (d @ ?t) (drop (length ?t) r))"
      by (rule copy_at_end) (use r in linarith)
    have c2: "copy_at (at_end (d @ ?t) (drop (length ?t) r)) (own_part v)
        = Inr (at_end ((d @ ?t) @ own_part v) (drop (length (own_part v)) (drop (length ?t) r)))"
      by (rule copy_at_end) (use r in simp)
    have g: "get_bytes x 0 (v_data_size v) = Inr (own_part v)" using x o' by (simp add: get_bytes_def)
    have ih: "fill_config_table vs (at_end ((d @ ?t) @ own_part v) (drop (length (own_part v)) (drop (length ?t) r)))
      = Inr (at_end (((d @ ?t) @ own_part v) @ concat (map config_entry (filter has_data vs)))
         (drop (length (concat (map config_entry (filter has_data vs)))) (drop (length (own_part v)) (drop (length ?t) r))))"
      by (rule Cons.IH) (use Cons.prems(1) r in auto)
    have "fill_config_table (v # vs) (at_end d r) = Inr (at_end (((d @ ?t) @ own_part v) @ concat (map config_entry (filter has_data vs)))
         (drop (length (concat (map config_entry (filter has_data vs)))) (drop (length (own_part v)) (drop (length ?t) r))))"
      using n x by (simp only: fill_config_table.simps option.case t c g c2 ih bindR_Inr if_False)
    then show ?thesis using True e by (simp add: add.commute add.left_commute)
  qed
qed (simp add: at_end_def)

lemma config_table_eq:
  assumes "\<forall>v\<in>set vs. table_entry_ok v" and "filter has_data vs \<noteq> []" and "\<forall>n. me_AllocatePages env n"
  shows "\<exists>k. config_table env vs = Inr (Some (concat (map config_entry (filter has_data vs)) @ replicate (264 + k) 0))"
proof -
  let ?E = "concat (map config_entry (filter has_data vs))"
  let ?np = "(length ?E + 264 + 4095) div 4096"
  let ?z = "replicate (?np * 4096) (0 :: u8)"
  obtain v us where "filter has_data vs = v # us" using assms(2) by (cases "filter has_data vs") auto
  then have "v \<in> set (filter has_data vs)" by simp
  then have "v \<in> set vs" by simp
  then have "length ?E \<noteq> 0" using \<open>filter has_data vs = v # us\<close> length_config_entry [of v] assms(1) by auto
  then have nz: "config_sz vs \<noteq> 0" using config_sz_eq [OF assms(1)] by simp
  have b: "length ?E + 264 \<le> ?np * 4096"
    using div_mult_mod_eq [of "length ?E + 264 + 4095" 4096] mod_less_divisor [of 4096 "length ?E + 264 + 4095"] by linarith
  have f: "fill_config_table vs (?z, 0) = Inr (at_end ?E (drop (length ?E) ?z))"
    using fill_config_table_eq [OF assms(1), of ?z "[]"] b by (simp add: at_end_def)
  have c: "copy_at (at_end ?E (drop (length ?E) ?z)) (replicate 264 0)
      = Inr (at_end (?E @ replicate 264 0) (drop 264 (drop (length ?E) ?z)))"
    using copy_at_end [of "replicate 264 0" "drop (length ?E) ?z" ?E] b by simp
  have "config_table env vs = Inr (Some (?E @ replicate 264 0 @ drop 264 (drop (length ?E) ?z)))"
    using nz assms(3) f c config_sz_eq [OF assms(1)]
    by (simp add: config_table_def Let_def config_entry_size_def at_end_def)
  then have "config_table env vs = Inr (Some (?E @ replicate (264 + (?np * 4096 - length ?E - 264)) 0))"
    by (simp only: drop_replicate replicate_add)
  then show ?thesis by blast
qed

lemma read_config_entries:
  assumes "\<forall>v\<in>set vs. table_entry_ok v"
  shows "read_config_table (concat (map config_entry vs) @ replicate (264 + k) 0)
    = map (\<lambda>v. (str8 (rt_name v), own_part v)) vs"
  using assms
proof (induction vs)
  case Nil
  then show ?case by (simp add: read_config_table.simps)
next
  case (Cons v vs)
  then obtain n where n: "v_rtname v = Some n" "name_ok n" and sz: "v_data_size v < 2 ^ 64"
    by (auto simp add: table_entry_ok_def)
  let ?n = "str8 n" and ?p = "replicate (256 - length n) (0 :: u8)" and ?q = "le_bytes 8 (v_data_size v)"
  let ?rest = "concat (map config_entry vs) @ replicate (264 + k) 0"
  let ?t = "?n @ ?p @ ?q @ own_part v @ ?rest"
  have l: "length ?n = length n" "length n \<le> 255" "?n \<noteq> []" "0 \<notin> set ?n"
    using n(2) by (auto simp add: name_ok_def str8_def)
  have lo: "length (own_part v) = v_data_size v" using length_own [of v] Cons.prems by simp
  have h: "?t ! 0 \<noteq> 0" using l(3,4) by (cases ?n) auto
  have t256: "take 256 ?t = ?n @ ?p" "drop 256 ?t = ?q @ own_part v @ ?rest"
    using l by simp_all
  have sz8: "le_nat (take 8 (drop 256 ?t)) = v_data_size v"
    using t256(2) sz by (simp add: le_nat_le_bytes)
  have tw: "takeWhile (\<lambda>c. c \<noteq> 0) (?n @ ?p) = ?n"
    using l by (cases "256 - length n") (auto simp add: takeWhile_append)
  have d264: "drop 264 ?t = own_part v @ ?rest" using l by simp
  have len: "\<not> length ?t < 264" using l by simp
  have "drop (264 + v_data_size v) ?t = drop (v_data_size v) (drop 264 ?t)" by (simp only: drop_drop add.commute)
  then have d: "drop (264 + v_data_size v) ?t = ?rest" using lo by (simp only: d264) simp
  have tk: "take (v_data_size v) (drop 264 ?t) = own_part v" using lo by (simp only: d264) simp
  have "read_config_table ?t = (?n, own_part v) # read_config_table ?rest"
    by (subst read_config_table.simps) (simp only: len h sz8 t256(1) tw d tk Let_def if_False simp_thms)
  moreover have "rt_name v = n" using n by (simp add: rt_name_def)
  moreover have "concat (map config_entry (v # vs)) @ replicate (264 + k) 0 = ?t"
    using \<open>rt_name v = n\<close> by (simp add: config_entry_def [of v])
  ultimately show ?case using Cons by simp
qed

section \<open>A database that is too large\<close>

text \<open>The list with its first \<open>k\<close> signatures.\<close>

definition first_sigs :: "nat \<Rightarrow> esl \<Rightarrow> esl" where
  "first_sigs k l = l\<lparr>esl_sigs := take k (esl_sigs l)\<rparr>"

lemma sigs_take:
  assumes "\<forall>x\<in>set sigs. length (fst x) = 16 \<and> length (snd x) + 16 = sz" and "k \<le> length sigs"
  shows "take (k * sz) (concat (map sig_bytes sigs) @ r) = concat (map sig_bytes (take k sigs))"
proof -
  have "concat (map sig_bytes sigs) = concat (map sig_bytes (take k sigs)) @ concat (map sig_bytes (drop k sigs))"
    by (metis append_take_drop_id concat_append map_append)
  moreover have "length (concat (map sig_bytes (take k sigs))) = k * sz"
  proof -
    have "\<forall>x\<in>set (take k sigs). length (fst x) = 16 \<and> length (snd x) + 16 = sz"
      using assms(1) by (meson in_set_takeD)
    from length_sigs [OF this] show ?thesis using assms(2) by (simp add: mult.commute)
  qed
  ultimately show ?thesis by simp
qed

lemma variable_create_esl_eq:
  assumes "esl_wf l" and "esl_hdr l = []" and "0 < k" and "k \<le> length (esl_sigs l)" and "\<forall>n. pool n" and "0 < esl_size l"
  shows "variable_create_esl pool (concat (map sig_bytes (esl_sigs l)) @ r) k (esl_type l) (esl_size l)
    = Inr (EFI_SUCCESS, Some (esl_bytes (first_sigs k l)), length (esl_bytes (first_sigs k l)))"
proof -
  let ?s = "esl_size l"
  have wf: "\<forall>x\<in>set (esl_sigs l). length (fst x) = 16 \<and> length (snd x) + 16 = ?s"
    and len: "28 + ?s * length (esl_sigs l) < 2 ^ 32"
    using assms(1,2) by (auto simp add: esl_wf_def esl_len_def sizeof_ESL_def)
  have "k * ?s \<le> ?s * length (esl_sigs l)" using assms(4) by (simp add: mult.commute)
  then have n: "28 + k * ?s < 2 ^ 32" using len by linarith
  then have m: "k * ?s mod 2 ^ 64 = k * ?s" by simp
  have "k * ?s \<le> 2 ^ 32 - 1 - 28" using n by simp
  then have q: "\<not> (2 ^ 32 - 1 - 28) div ?s < k"
    using assms(6) by (simp add: not_less less_eq_div_iff_mult_less_eq)
  have t: "take (k * ?s) (concat (map sig_bytes (esl_sigs l)) @ r) = concat (map sig_bytes (take k (esl_sigs l)))"
    by (rule sigs_take [OF wf assms(4)])
  have lt: "length (concat (map sig_bytes (esl_sigs l)) @ r) \<ge> k * ?s"
    using length_sigs [OF wf] \<open>k * ?s \<le> ?s * length (esl_sigs l)\<close> by (simp only: length_append)
  have lf: "length (concat (map sig_bytes (take k (esl_sigs l)))) = k * ?s"
    using t lt by (metis length_take min.absorb2)
  have e: "esl_bytes (first_sigs k l) = esl_header (esl_type l) (28 + k * ?s) 0 ?s @ concat (map sig_bytes (take k (esl_sigs l)))"
    using assms(2,4) by (simp add: esl_bytes_def first_sigs_def esl_len_def sizeof_ESL_def mult.commute)
  have le: "length (esl_bytes (first_sigs k l)) = 28 + k * ?s"
    using e lf assms(1) by (simp add: esl_wf_def)
  show ?thesis using assms(3,5,6) m q t lt e le
    by (simp add: variable_create_esl_def fill_esl_def sizeof_ESL_def Let_def not_less [symmetric])
qed

text \<open>
  The first pass, when the whole does not fit: the variable gets the first list with as many of its
  signatures as fit.
\<close>

lemma mirror_first_part:
  assumes wf: "esl_wf l" and hdr: "esl_hdr l = []" and pool: "\<forall>n. me_pool env n"
    and data: "data = esl_bytes l @ r" and n: "n = length data" and big: "min_esl_sz \<le> n"
    and mx: "get_max_var_sz env w attrs = (mst, mx)" "\<not> EFI_ERROR mst" "mx < n"
    and k: "k = fitting mx name (esl_size l * length (esl_sigs l)) (esl_size l)" "0 < k"
  shows "mirror_mok_db env w name guid attrs data n True
    = Some (case SetVariable (me_rt env) w name guid attrs (esl_bytes (first_sigs k l)) of
              (st, w') \<Rightarrow> Inr (st, w'))"
proof -
  let ?s = "esl_size l"
  have s0: "0 < ?s" using k by (cases "?s = 0") (auto simp add: fitting_def Let_def split: if_splits)
  have kl: "k \<le> length (esl_sigs l)"
    using k s0 by (auto simp add: fitting_def Let_def split: if_splits)
  have ne: "esl_sigs l \<noteq> []" using k(2) kl by auto
  have ll: "length (esl_bytes l) = esl_len l" by (rule length_esl_bytes [OF wf])
  have el: "esl_len l = 28 + ?s * length (esl_sigs l)" using hdr by (simp add: esl_len_def sizeof_ESL_def)
  note f = esl_fields [OF wf, of "[]" r, simplified, folded data]
  have ty: "get_bytes data 0 16 = Inr (esl_type l)"
    using wf get_bytes_here [of "esl_type l" 16] by (simp add: data esl_bytes_def esl_header_def esl_wf_def)
  have sz: "esl_sizes data 0 = Inr (esl_type l, esl_len l, ?s)" using f ty by (simp add: esl_sizes_def)
  have pos: "\<not> n \<le> 28" using big by (simp add: min_esl_sz_def)
  have d: "drop 28 data = concat (map sig_bytes (esl_sigs l)) @ r"
    using wf hdr by (simp add: data esl_bytes_def esl_wf_def)
  have kf: "fitting mx name (size_sub (esl_len l) 28) ?s = k" using k(1) el by simp
  note v = variable_create_esl_eq [OF wf hdr k(2) kl pool s0, of r]
  have v0: "length (esl_bytes (first_sigs k l)) \<noteq> 0" by (simp add: esl_bytes_def esl_header_def first_sigs_def)
  obtain st w' where set: "SetVariable (me_rt env) w name guid attrs (esl_bytes (first_sigs k l)) = (st, w')" by fastforce
  have one: "mirror_one_esl env w name guid attrs (esl_type l) ?s (drop 28 data) k = Inr (st, w')"
    using v v0 set by (simp add: mirror_one_esl_def d)
  have "mirror_db_loop env name guid attrs data n True 0 0 None 0 False mst w
      = Some (Inr (False, \<not> EFI_ERROR st, st, w'))"
    using big f(1) sz pos mx el s0 ne k(2) one kf
    by (subst mirror_db_loop.simps) (simp add: mirror_name_def Let_def)
  then show ?thesis using mx set by (cases "EFI_ERROR st") (auto simp add: mirror_mok_db_def)
qed

text \<open>The second pass writes past the end of the buffer for the name, whatever the data.\<close>

lemma mirror_second_pass:
  assumes "esl_wf l" and "data = esl_bytes l @ r" and "n = length data" and "min_esl_sz \<le> n"
    and "get_max_var_sz env w attrs = (mst, mx)" and "\<not> EFI_ERROR mst" and "mx < n"
    and "\<forall>n. me_pool env n" and "0 < esl_size l"
  shows "mirror_mok_db env w name guid attrs data n False = Some (Inl Fault)"
proof -
  have pos: "\<not> n \<le> 28" "0 < esl_len l" using assms(4) by (simp_all add: min_esl_sz_def esl_len_def sizeof_ESL_def)
  note f = esl_fields [OF assms(1), of "[]" r, simplified, folded assms(2)]
  have ty: "get_bytes data 0 16 = Inr (esl_type l)"
    using assms(1) get_bytes_here [of "esl_type l" 16] by (simp add: assms(2) esl_bytes_def esl_header_def esl_wf_def)
  have sz: "esl_sizes data 0 = Inr (esl_type l, esl_len l, esl_size l)" using f ty by (simp add: esl_sizes_def)
  have "mirror_db_loop env name guid attrs data n False 0 0 None 0 False mst w = Some (Inl Fault)"
    using assms(4,9) f(1) sz pos by (subst mirror_db_loop.simps) (simp add: mirror_name_def Let_def)
  then show ?thesis using assms(5-8) by (auto simp add: mirror_mok_db_def)
qed

lemma fitting_bounds:
  assumes "k = fitting mx name (s * n) s" and "0 < k"
  shows "28 + k * s + 2 * (length name + 1) \<le> mx \<and> k \<le> n
    \<and> (k = n \<or> mx < 28 + (k + 1) * s + 2 * (length name + 1))"
proof -
  let ?nz = "(length name + 1) * 2" and ?m = "mx - (length name + 1) * 2"
  have c: "?nz < mx" "28 < ?m" "k = min ((?m - 28) div s) (s * n div s)"
    using assms by (auto simp add: fitting_def Let_def split: if_splits)
  have s0: "0 < s" using c(3) assms(2) by (cases "s = 0") auto
  then have kn: "k = min ((?m - 28) div s) n" using c(3) by simp
  have "k * s \<le> ?m - 28" using kn s0 by (simp add: less_eq_div_iff_mult_less_eq [symmetric])
  moreover have "k = n \<or> ?m - 28 < (k + 1) * s"
  proof (cases "k = n")
    case False
    then have "(?m - 28) div s < k + 1" using kn by simp
    then have "?m - 28 < (k + 1) * s" using s0 by (simp only: div_less_iff_less_mult)
    then show ?thesis by (rule disjI2)
  qed simp
  ultimately have "28 + k * s + (length name + 1) * 2 \<le> mx" "k = n \<or> mx < 28 + (k + 1) * s + (length name + 1) * 2"
    using c(1,2) by linarith+
  moreover have "k \<le> n" using kn by simp
  ultimately show ?thesis by (simp only: mult.commute [of 2])
qed

section \<open>Properties\<close>


definition demo_keydb :: mok_variable where
  "demo_keydb = (mok_entry ''MokList'' ''MokListRT'' (MOK_MIRROR_KEYDB OR MOK_VARIABLE_LOG) 14 None)
     \<lparr>v_categorize_addend := Some Categorize_deauthorized, v_addend := Some [1, 2], v_user_cert := Some [3],
      v_build_cert := Some [4], v_data := Some [5, 6, 0, 0], v_data_size := 2\<rparr>"


text \<open>
  C35. The configuration table: with pages for it, building the table makes no fault, and reading it
  back entry by entry, up to the first empty name, gives exactly the names and contents of the
  variables that have data, in the order of the table.
\<close>

theorem config_table_round_trip:
  assumes "\<forall>v\<in>set vs. table_entry_ok v" and "filter has_data vs \<noteq> []" and "\<forall>n. me_AllocatePages env n"
  shows "\<exists>t. config_table env vs = Inr (Some t)
    \<and> read_config_table t = map (\<lambda>v. (str8 (rt_name v), own_part v)) (filter has_data vs)"
proof -
  obtain k where "config_table env vs = Inr (Some (concat (map config_entry (filter has_data vs)) @ replicate (264 + k) 0))"
    using config_table_eq [OF assms] by blast
  then show ?thesis using read_config_entries [of "filter has_data vs" k] assms(1) by auto
qed

theorem config_table_round_trip_witness:
  "\<exists>t. config_table (rom_env\<lparr>me_AllocatePages := \<lambda>n. True\<rparr>) [demo_keydb, mok_entry ''MokPolicy'' ''MokPolicyRT'' 0 14 None]
      = Inr (Some t)
    \<and> read_config_table t = [(str8 ''MokListRT'', [5, 6])]"
  using config_table_round_trip [of "[demo_keydb, mok_entry ''MokPolicy'' ''MokPolicyRT'' 0 14 None]"
      "rom_env\<lparr>me_AllocatePages := \<lambda>n. True\<rparr>"]
  by (simp add: demo_keydb_def mok_entry_def table_entry_ok_def name_ok_def str8_def has_data_def own_part_def rt_name_def)

text \<open>
  A database that is too large for one variable: on the first pass the runtime variable gets a
  well-formed list with the first signatures of the first list, as many as fit together with the
  list header and the name of the variable, and not one less than would fit.
\<close>

theorem first_part_maximal:
  assumes "esl_wf l" and "esl_hdr l = []" and "\<forall>n. me_pool env n"
    and "data = esl_bytes l @ r" and "n = length data" and "min_esl_sz \<le> n"
    and "get_max_var_sz env w attrs = (mst, mx)" and "\<not> EFI_ERROR mst" and "mx < n"
    and "k = fitting mx name (esl_size l * length (esl_sigs l)) (esl_size l)" and "0 < k"
  shows "mirror_mok_db env w name guid attrs data n True
      = Some (case SetVariable (me_rt env) w name guid attrs (esl_bytes (first_sigs k l)) of (st, w') \<Rightarrow> Inr (st, w'))
    \<and> length (esl_bytes (first_sigs k l)) + 2 * (length name + 1) \<le> mx
    \<and> (k = length (esl_sigs l) \<or> mx < length (esl_bytes (first_sigs k l)) + esl_size l + 2 * (length name + 1))"
proof -
  note b = fitting_bounds [OF assms(10,11)]
  have "esl_wf (first_sigs k l)"
    using assms(1,2) b by (auto simp add: esl_wf_def first_sigs_def esl_len_def sizeof_ESL_def dest: in_set_takeD)
       (use mult_le_mono2 [of k "length (esl_sigs l)" "esl_size l"] in linarith)
  from length_esl_bytes [OF this] have "length (esl_bytes (first_sigs k l)) = 28 + k * esl_size l"
    using assms(2) b by (simp add: esl_len_def first_sigs_def sizeof_ESL_def mult.commute)
  then show ?thesis using mirror_first_part [OF assms(1-6) assms(7-9) assms(10,11)] b by (simp add: algebra_simps)
qed

definition demo_long_list :: esl where
  "demo_long_list = \<lparr>esl_type = EFI_CERT_SHA256_GUID, esl_hdr = [], esl_size = 48,
     esl_sigs = replicate 30 (SHIM_LOCK_GUID, replicate 32 7)\<rparr>"

lemma demo_long_list_facts:
  "esl_wf demo_long_list" "esl_hdr demo_long_list = []" "length (esl_bytes demo_long_list) = 1468"
  "esl_size demo_long_list = 48" "length (esl_sigs demo_long_list) = 30"
proof -
  show w: "esl_wf demo_long_list" by (simp add: esl_wf_def demo_long_list_def esl_len_def sizeof_ESL_def)
  show "esl_hdr demo_long_list = []" by (simp add: demo_long_list_def)
  show "length (esl_bytes demo_long_list) = 1468"
    using length_esl_bytes [OF w] by (simp add: esl_len_def demo_long_list_def sizeof_ESL_def)
qed (simp_all add: demo_long_list_def)

lemma rom_max: "get_max_var_sz rom_env w a = (EFI_SUCCESS, 1024)"
  by (simp add: get_max_var_sz_def env_for_simps)

theorem first_part_maximal_witness:
  "mirror_mok_db rom_env 1 ''MokListRT'' SHIM_LOCK_GUID mirror_attrs (esl_bytes demo_long_list) 1468 True
     = Some (Inr (EFI_WRITE_PROTECTED, 1))
   \<and> length (esl_bytes (first_sigs 20 demo_long_list)) + 2 * (length ''MokListRT'' + 1) \<le> 1024"
proof -
  note f = demo_long_list_facts
  have b: "1468 = length (esl_bytes demo_long_list)" using f(3) by simp
  have c: "min_esl_sz \<le> 1468" "(1024 :: nat) < 1468" by (simp_all add: min_esl_sz_def)
  have d: "\<forall>n. me_pool rom_env n" by (simp add: env_for_simps)
  have k: "20 = fitting 1024 ''MokListRT'' (esl_size demo_long_list * length (esl_sigs demo_long_list)) (esl_size demo_long_list)"
    unfolding f(4,5) by (simp add: fitting_def)
  have "SetVariable (me_rt rom_env) 1 ''MokListRT'' SHIM_LOCK_GUID mirror_attrs (esl_bytes (first_sigs 20 demo_long_list))
      = (EFI_WRITE_PROTECTED, 1)" by (simp add: env_for_simps)
  then show ?thesis
    using first_part_maximal [OF f(1,2) d append_Nil2 [symmetric] b c(1) rom_max not_error_success c(2) k, of 1 SHIM_LOCK_GUID]
    by simp
qed

text \<open>
  On the second pass such a database is never split further: before anything is written, the
  terminator of the name of the next variable goes one character past the end of its buffer, which
  has 34 bytes more than the name where the code uses 18 characters.
\<close>

theorem second_pass_overruns_name:
  assumes "esl_wf l" and "data = esl_bytes l @ r" and "n = length data" and "min_esl_sz \<le> n"
    and "get_max_var_sz env w attrs = (mst, mx)" and "\<not> EFI_ERROR mst" and "mx < n"
    and "\<forall>n. me_pool env n" and "0 < esl_size l"
  shows "mirror_mok_db env w name guid attrs data n False = Some (Inl Fault)"
  using assms by (rule mirror_second_pass)

theorem second_pass_overruns_name_witness:
  "mirror_mok_db rom_env 1 ''MokListRT'' SHIM_LOCK_GUID mirror_attrs (esl_bytes demo_long_list) 1468 False
     = Some (Inl Fault)"
proof -
  have a: "esl_bytes demo_long_list = esl_bytes demo_long_list @ []" by simp
  have b: "1468 = length (esl_bytes demo_long_list)" using demo_long_list_facts(3) by simp
  have c: "min_esl_sz \<le> 1468" "(1024 :: nat) < 1468" by (simp_all add: min_esl_sz_def)
  have d: "\<forall>n. me_pool rom_env n" by (simp add: env_for_simps)
  have e: "0 < esl_size demo_long_list" using demo_long_list_facts(4) by simp
  show ?thesis
    by (rule second_pass_overruns_name [OF demo_long_list_facts(1) a b c(1) rom_max not_error_success c(2) d e])
qed

end
