(* ===== verification/VarNames.thy ===== *)
theory VarNames
  imports MockVars
begin

text \<open>
  Enumerating the variables: \<open>mock_get_next_variable_name\<close> of mock-variables.c, and the locale
  \<open>variable_names\<close> with what a caller of \<open>GetNextVariableName\<close> relies on. The mock store
  only lists the variables of the vendor it is asked for.
\<close>

section \<open>The code\<close>

text \<open>What the service returns: the status, \<open>*size\<close>, and the name and vendor it leaves in the buffers.\<close>

type_synonym name_out = "efi_status \<times> nat \<times> string \<times> guid"

text \<open>The size asked for is in bytes, the size reported on success in characters.\<close>

definition mock_gnvn_set_result :: "nat \<Rightarrow> string \<Rightarrow> guid \<Rightarrow> mock_variable \<Rightarrow> name_out" where
  "mock_gnvn_set_result sz name gd result =
     (let need = 2 * (length (mv_name result) + 1)
      in if sz < need then (EFI_BUFFER_TOO_SMALL, need, name, gd)
         else (EFI_SUCCESS, length (mv_name result) + 1, mv_name result, mv_guid result))"

fun mock_gnvn_loop ::
  "(guid \<Rightarrow> guid \<Rightarrow> int) \<Rightarrow> (string \<Rightarrow> string \<Rightarrow> int) \<Rightarrow> string \<Rightarrow> guid \<Rightarrow> bool
   \<Rightarrow> mock_variable list \<Rightarrow> bool \<times> mock_variable option"
where
  "mock_gnvn_loop cg sc name gd found [] = (found, None)"
| "mock_gnvn_loop cg sc name gd found (v # vs) =
     (if name = [] then
        (if cg (mv_guid v) gd = 0 then (True, Some v) else mock_gnvn_loop cg sc name gd found vs)
      else if found then
        (if cg (mv_guid v) gd = 0 then (True, Some v) else mock_gnvn_loop cg sc name gd found vs)
      else mock_gnvn_loop cg sc name gd (variable_cmp cg sc name gd v = 0) vs)"

text \<open>The NUL of the name must be among the first \<open>*size\<close> characters.\<close>

definition mock_get_next_variable_name ::
  "(guid \<Rightarrow> guid \<Rightarrow> int) \<Rightarrow> (string \<Rightarrow> string \<Rightarrow> int) \<Rightarrow> mock_state \<Rightarrow> nat \<Rightarrow> string \<Rightarrow> guid \<Rightarrow> name_out"
where
  "mock_get_next_variable_name cg sc s sz name gd =
     (if \<not> length name < sz then (EFI_INVALID_PARAMETER, sz, name, gd)
      else case mock_gnvn_loop cg sc name gd False (mock_variables s) of (found, result) \<Rightarrow>
        if \<not> found then (if name = [] then EFI_NOT_FOUND else EFI_INVALID_PARAMETER, sz, name, gd)
        else (case result of
                None \<Rightarrow> (EFI_NOT_FOUND, sz, name, gd)
              | Some v \<Rightarrow> mock_gnvn_set_result sz name gd v))"

section \<open>The contract of the enumeration\<close>

text \<open>
  \<open>listed w g\<close> is what a caller visits that starts from the empty name and the vendor \<open>g\<close>;
  \<open>visited\<close> is the pair the caller holds before the \<open>i\<close>-th call.
\<close>

definition visited :: "(string \<times> guid) list \<Rightarrow> guid \<Rightarrow> nat \<Rightarrow> string \<times> guid" where
  "visited ns g i = (([], g) # ns) ! i"

lemma visited_0 [simp]: "visited ns g 0 = ([], g)"
  by (simp add: visited_def)

lemma visited_Suc [simp]: "visited ns g (Suc i) = ns ! i"
  by (simp add: visited_def)

locale variable_names = variable_services rt vars good
  for rt :: "'w efi_rt" and vars :: "'w \<Rightarrow> string \<times> guid \<Rightarrow> (u32 \<times> bytes) option" and good :: "'w \<Rightarrow> bool" +
  fixes next_name :: "'w \<Rightarrow> nat \<Rightarrow> string \<Rightarrow> guid \<Rightarrow> name_out"
    and listed :: "'w \<Rightarrow> guid \<Rightarrow> (string \<times> guid) list"
  assumes next_listed: "good w \<Longrightarrow> i < length (listed w g) \<Longrightarrow> visited (listed w g) g i = (n, g') \<Longrightarrow>
      listed w g ! i = (m, h) \<Longrightarrow> length n < sz \<Longrightarrow> 2 * (length m + 1) \<le> sz \<Longrightarrow>
      \<exists>sz'. next_name w sz n g' = (EFI_SUCCESS, sz', m, h)"
    and next_small: "good w \<Longrightarrow> i < length (listed w g) \<Longrightarrow> visited (listed w g) g i = (n, g') \<Longrightarrow>
      listed w g ! i = (m, h) \<Longrightarrow> length n < sz \<Longrightarrow> sz < 2 * (length m + 1) \<Longrightarrow>
      next_name w sz n g' = (EFI_BUFFER_TOO_SMALL, 2 * (length m + 1), n, g')"
    and next_end: "good w \<Longrightarrow> visited (listed w g) g (length (listed w g)) = (n, g') \<Longrightarrow> length n < sz \<Longrightarrow>
      \<exists>sz' m h. next_name w sz n g' = (EFI_NOT_FOUND, sz', m, h)"
    and listed_exist: "good w \<Longrightarrow> k \<in> set (listed w g) \<Longrightarrow> vars w k \<noteq> None"

section \<open>The mock store enumerates\<close>

definition mock_named :: "mock_state \<Rightarrow> bool" where
  "mock_named s \<longleftrightarrow> mock_good s \<and> (\<forall>v\<in>set (mock_variables s). mv_name v \<noteq> [])"

definition mock_listed :: "mock_state \<Rightarrow> guid \<Rightarrow> (string \<times> guid) list" where
  "mock_listed s g = filter (\<lambda>k. snd k = g) (map mv_key (mock_variables s))"

lemma effect_named:
  assumes "mock_named s" and "mock_effect s n g a d st s'" and "n \<noteq> [] \<or> EFI_ERROR st"
  shows "mock_named s'"
proof -
  have good: "mock_good s'" using assms effect_good by (auto simp add: mock_named_def)
  have "mv_name v \<noteq> []" if "v \<in> set (mock_variables s')" for v
    using assms that by (auto simp add: mock_named_def mock_effect_def split: if_splits)
  with good show ?thesis by (simp add: mock_named_def)
qed

lemma gnvn_loop_after:
  assumes "cmp_ok cg sc"
  shows "name \<noteq> [] \<Longrightarrow> mock_gnvn_loop cg sc name gd True vs = (True, List.find (\<lambda>v. mv_guid v = gd) vs)"
  using assms by (induction vs) (auto simp add: cmp_ok_def)

lemma gnvn_loop_first:
  assumes "cmp_ok cg sc"
  shows "mock_gnvn_loop cg sc [] gd False vs
       = (List.find (\<lambda>v. mv_guid v = gd) vs \<noteq> None, List.find (\<lambda>v. mv_guid v = gd) vs)"
  using assms by (induction vs) (auto simp add: cmp_ok_def)

lemma gnvn_loop_next:
  assumes "cmp_ok cg sc" and "name \<noteq> []" and "(name, gd) \<notin> mv_key ` set us" and "mv_key v = (name, gd)"
  shows "mock_gnvn_loop cg sc name gd False (us @ v # vs) = (True, List.find (\<lambda>v. mv_guid v = gd) vs)"
  using assms(3)
proof (induction us)
  case Nil
  then show ?case using assms variable_cmp_zero [OF assms(1), of name gd v] gnvn_loop_after [OF assms(1,2)] by simp
next
  case (Cons u us)
  then show ?case using assms(2) variable_cmp_zero [OF assms(1), of name gd u] by auto
qed


lemma find_filter: "List.find P xs = (case filter P xs of [] \<Rightarrow> None | y # ys \<Rightarrow> Some y)"
  by (induction xs) auto

lemma filter_nth_split:
  "i < length (filter P xs) \<Longrightarrow>
   \<exists>us vs. xs = us @ filter P xs ! i # vs \<and> filter P vs = drop (Suc i) (filter P xs)"
proof (induction xs arbitrary: i)
  case (Cons x xs)
  show ?case
  proof (cases "P x")
    case False
    then obtain us vs where "xs = us @ filter P xs ! i # vs" "filter P vs = drop (Suc i) (filter P xs)"
      using Cons by fastforce
    then have "x # xs = (x # us) @ filter P (x # xs) ! i # vs" using False by simp
    with \<open>filter P vs = _\<close> False show ?thesis by (metis filter.simps(2))
  next
    case True
    show ?thesis
    proof (cases i)
      case 0
      then have "x # xs = [] @ filter P (x # xs) ! i # xs" "filter P xs = drop (Suc i) (filter P (x # xs))"
        using True by simp_all
      then show ?thesis by blast
    next
      case (Suc j)
      then have "j < length (filter P xs)" using Cons.prems True by simp
      then obtain us vs where s: "xs = us @ filter P xs ! j # vs" "filter P vs = drop (Suc j) (filter P xs)"
        using Cons.IH by blast
      have "x # xs = (x # us) @ filter P (x # xs) ! i # vs" using s(1) True Suc by simp
      moreover have "filter P vs = drop (Suc i) (filter P (x # xs))" using s(2) True Suc by simp
      ultimately show ?thesis by blast
    qed
  qed
qed simp

lemma mock_listed_filter:
  "mock_listed s g = map mv_key (filter (\<lambda>v. mv_guid v = g) (mock_variables s))"
  by (simp add: mock_listed_def filter_map o_def mv_key_def)

text \<open>One call, from any place of the enumeration.\<close>

lemma mock_next_step:
  assumes cmp: "cmp_ok cg sc" and good: "mock_named s" and i: "i \<le> length (mock_listed s g)"
    and v: "visited (mock_listed s g) g i = (n, g')" and sz: "length n < sz"
  shows "mock_get_next_variable_name cg sc s sz n g' =
     (if i < length (mock_listed s g)
      then mock_gnvn_set_result sz n g' (filter (\<lambda>v. mv_guid v = g) (mock_variables s) ! i)
      else (EFI_NOT_FOUND, sz, n, g'))"
proof (cases i)
  case 0
  then have n: "n = []" "g' = g" using v by auto
  let ?f = "filter (\<lambda>v. mv_guid v = g) (mock_variables s)"
  show ?thesis
  proof (cases ?f)
    case Nil
    then show ?thesis using n 0 sz
      by (simp add: mock_get_next_variable_name_def gnvn_loop_first [OF cmp] find_filter mock_listed_filter)
  next
    case (Cons y ys)
    then show ?thesis using n 0 sz
      by (simp add: mock_get_next_variable_name_def gnvn_loop_first [OF cmp] find_filter mock_listed_filter)
  qed
next
  case (Suc j)
  let ?P = "\<lambda>v. mv_guid v = g"
  have j: "j < length (filter ?P (mock_variables s))" using i Suc by (simp add: mock_listed_filter)
  obtain us vs where s: "mock_variables s = us @ filter ?P (mock_variables s) ! j # vs"
      "filter ?P vs = drop (Suc j) (filter ?P (mock_variables s))"
    using filter_nth_split [OF j] by blast
  define c where "c = filter ?P (mock_variables s) ! j"
  have key: "mv_key c = (n, g')" using v Suc j by (simp add: mock_listed_filter c_def)
  have "c \<in> set (mock_variables s)" using s(1) unfolding c_def by (metis in_set_conv_decomp)
  then have n: "n \<noteq> []" using good key by (auto simp add: mock_named_def mv_key_def)
  have "c \<in> set (filter ?P (mock_variables s))" unfolding c_def using j by (rule nth_mem)
  then have g: "g' = g" using key by (auto simp add: mv_key_def)
  have m: "mock_variables s = us @ c # vs" using s(1) by (simp add: c_def)
  then have nu: "(n, g') \<notin> mv_key ` set us" using good key by (auto simp add: mock_named_def mock_good_def)
  have l: "mock_gnvn_loop cg sc n g' False (mock_variables s) = (True, List.find ?P vs)"
    unfolding m using gnvn_loop_next [OF cmp n nu key, of vs] g by simp
  have f: "List.find ?P vs = (if i < length (mock_listed s g) then Some (filter ?P (mock_variables s) ! i) else None)"
    unfolding find_filter s(2) using j Suc
    by (cases "Suc j < length (filter ?P (mock_variables s))")
      (auto simp add: mock_listed_filter Cons_nth_drop_Suc [symmetric])
  show ?thesis using l f sz by (simp add: mock_get_next_variable_name_def)
qed

lemma mock_services_named: "variable_services host_rt mock_vars mock_named"
proof -
  have g: "mock_good w" if "mock_named w" for w using that by (simp add: mock_named_def)
  have set: "mock_named w'" if "mock_named w" "SetVariable host_rt w n gd a d = (st, w')" for w w' n gd a d st
  proof (cases "n = []")
    case True
    then have "w' = w" using that(2) by (simp add: host_rt_def mock_rt_def mock_set_variable_def)
    then show ?thesis using that(1) by simp
  next
    case False
    have "mock_effect w n gd a d st w'"
      using that mock_set_effect [OF host_cmp_ok g [OF that(1)]] by (simp add: host_rt_def mock_rt_def)
    then show ?thesis using effect_named [OF that(1)] False by blast
  qed
  show ?thesis
    by unfold_locales (use g set in \<open>auto dest: mock.get_missing mock.get_small mock.get_fits mock.nonempty
      mock.set_frame mock.set_error mock.set_write mock.set_delete mock.set_append\<close>)
qed

definition mock_next :: "mock_state \<Rightarrow> nat \<Rightarrow> string \<Rightarrow> guid \<Rightarrow> name_out" where
  "mock_next = mock_get_next_variable_name host_CompareGuid host_StrCmp"

interpretation mock_names: variable_names host_rt mock_vars mock_named mock_next mock_listed
proof (rule variable_names.intro [OF mock_services_named], unfold_locales, goal_cases)
  case (1 w i g n g' m h sz)
  have "mv_key (filter (\<lambda>v. mv_guid v = g) (mock_variables w) ! i) = (m, h)" "i < length (mock_listed w g)"
    using 1 by (simp_all add: mock_listed_filter)
  then show ?case
    using mock_next_step [OF host_cmp_ok 1(1) less_imp_le [OF 1(2)] 1(3) 1(5)] 1(6)
    by (simp add: mock_next_def mock_gnvn_set_result_def mv_key_def Let_def)
next
  case (2 w i g n g' m h sz)
  have "mv_key (filter (\<lambda>v. mv_guid v = g) (mock_variables w) ! i) = (m, h)" "i < length (mock_listed w g)"
    using 2 by (simp_all add: mock_listed_filter)
  then show ?case
    using mock_next_step [OF host_cmp_ok 2(1) less_imp_le [OF 2(2)] 2(3) 2(5)] 2(6)
    by (simp add: mock_next_def mock_gnvn_set_result_def mv_key_def Let_def)
next
  case (3 w g n g' sz)
  then show ?case using mock_next_step [OF host_cmp_ok 3(1) order_refl 3(2,3)] by (simp add: mock_next_def)
next
  case (4 w k g)
  then show ?case by (auto simp add: mock_listed_def mock_vars_entries dom_entries)
qed

end
