(* ===== verification/Fallback.thy ===== *)
theory Fallback
  imports VarNames LoadOptions Tpm SigDb
begin

text \<open>
  fallback.c: the program that restores the boot entries. This theory holds the boot entries and
  the boot order: the device path of a file, the load option written for it, the search for an
  entry that is already there (also one hidden by a firmware), and the order. Device paths are
  the lists of nodes of LoadOptions; a label and the arguments are lists of 16-bit characters.
\<close>

section \<open>State and environment\<close>

text \<open>
  The globals: \<open>bootorder\<close> with its \<open>nbootorder\<close> entries, the option to start first with its
  arguments and their size, and the static counter of \<open>add_boot_option\<close>.
\<close>

record fb_globals =
  bootorder :: "u16 list"
  first_new_option :: "dp_node list option"
  first_new_option_args :: "wstr option"
  first_new_option_size :: nat
  next_number :: nat

definition fb_initial :: fb_globals where
  "fb_initial = \<lparr>bootorder = [], first_new_option = None, first_new_option_args = None,
     first_new_option_size = 0, next_number = 0\<rparr>"

text \<open>
  The firmware and its library: \<open>LibGetVariable\<close> is \<open>None\<close> for a null pointer,
  \<open>FileDevicePath\<close> is the device path of a path on the volume the program was loaded from,
  \<open>xtoi\<close> reads hexadecimal digits.
\<close>

record 'w fb_env =
  fe_rt :: "'w efi_rt"
  fe_GetNextVariableName :: "'w \<Rightarrow> nat \<Rightarrow> string \<Rightarrow> guid \<Rightarrow> name_out"
  fe_LibGetVariable :: "'w \<Rightarrow> string \<Rightarrow> guid \<Rightarrow> bytes option"
  fe_LibDeleteVariable :: "'w \<Rightarrow> string \<Rightarrow> guid \<Rightarrow> efi_status \<times> 'w"
  fe_FileDevicePath :: "wstr \<Rightarrow> dp_node list option"
  fe_xtoi :: "string \<Rightarrow> nat"
  fe_pool :: "nat \<Rightarrow> bool"

section \<open>Paths\<close>

definition make_full_path :: "(nat \<Rightarrow> bool) \<Rightarrow> wstr \<Rightarrow> wstr \<Rightarrow> wstr res" where
  "make_full_path pool dirname filename =
     (let len = 5 + length dirname + 1 + length filename + 2
      in if \<not> pool (len * 2) then Inl (Status EFI_OUT_OF_RESOURCES)
         else Inr (wide [CHR 0x5C, CHR ''E'', CHR ''F'', CHR ''I'', CHR 0x5C] @ dirname @ wide [CHR 0x5C] @ filename))"

text \<open>The accessors of the firmware library mask the top bit of a node's type.\<close>

definition dp_type :: "u8 \<Rightarrow> u8" where
  "dp_type t = t AND 0x7f"

definition DevicePathSize :: "dp_node list \<Rightarrow> nat" where
  "DevicePathSize dp = length (device_path_bytes dp)"

fun FindSubDevicePath :: "(nat \<Rightarrow> bool) \<Rightarrow> dp_node list \<Rightarrow> u8 \<Rightarrow> u8 \<Rightarrow> dp_node list res" where
  "FindSubDevicePath pool [] ty sub = Inl (Status EFI_NOT_FOUND)"
| "FindSubDevicePath pool ((t, st, d) # nodes) ty sub =
     (if dp_type t = ty \<and> st = sub then
        (if pool (DevicePathSize ((t, st, d) # nodes)) then Inr ((t, st, d) # nodes)
         else Inl (Status EFI_OUT_OF_RESOURCES))
      else FindSubDevicePath pool nodes ty sub)"

section \<open>Adding a boot entry\<close>

definition wstr_bytes :: "wstr \<Rightarrow> bytes" where
  "wstr_bytes s = concat (map (\<lambda>c. le_bytes 2 (unat c)) s)"

text \<open>The load option: attributes, size of the device path, label with its NUL, device path, arguments.\<close>

definition LOAD_OPTION_ACTIVE :: nat where "LOAD_OPTION_ACTIVE = 1"

definition option_bytes :: "wstr \<Rightarrow> dp_node list \<Rightarrow> wstr \<Rightarrow> bytes" where
  "option_bytes label dp arguments =
     le_bytes 4 LOAD_OPTION_ACTIVE @ le_bytes 2 (DevicePathSize dp) @ wstr_bytes label @ [0, 0]
       @ device_path_bytes dp @ wstr_bytes arguments"

definition hexmap :: string where "hexmap = ''0123456789ABCDEF''"

definition boot_varname :: "nat \<Rightarrow> string" where
  "boot_varname i = ''Boot'' @ [hexmap ! (i div 4096 mod 16), hexmap ! (i div 256 mod 16),
     hexmap ! (i div 16 mod 16), hexmap ! (i mod 16)]"

text \<open>The first number from \<open>i\<close> up to 0xffff whose variable does not exist.\<close>

function free_number :: "(string \<Rightarrow> bool) \<Rightarrow> nat \<Rightarrow> nat option" where
  "free_number used i =
     (if 0xffff < i then None else if used (boot_varname i) then free_number used (i + 1) else Some i)"
  by pat_completeness auto
termination by (relation "measure (\<lambda>(used, i). 0x10000 - i)") auto

declare free_number.simps [simp del]

text \<open>The first option found or added is the one to start; its copies may fail to be allocated.\<close>

definition remember_option :: "(nat \<Rightarrow> bool) \<Rightarrow> dp_node list \<Rightarrow> wstr \<Rightarrow> fb_globals \<Rightarrow> fb_globals" where
  "remember_option pool fulldp arguments g =
     (case first_new_option g of
        Some _ \<Rightarrow> g
      | None \<Rightarrow> g\<lparr>first_new_option := if pool (DevicePathSize fulldp) then Some fulldp else None,
                  first_new_option_args := if pool (2 * (length arguments + 1)) then Some arguments else None,
                  first_new_option_size := 2 * length arguments\<rparr>)"

definition add_boot_option ::
  "'w fb_env \<Rightarrow> dp_node list \<Rightarrow> dp_node list \<Rightarrow> wstr \<Rightarrow> wstr \<Rightarrow> fb_globals \<times> 'w \<Rightarrow> efi_status \<times> fb_globals \<times> 'w"
where
  "add_boot_option env hddp fulldp label arguments = (\<lambda>(g, w).
     case free_number (\<lambda>n. fe_LibGetVariable env w n GV_GUID \<noteq> None) (next_number g) of
       None \<Rightarrow> (EFI_OUT_OF_RESOURCES, g\<lparr>next_number := max (next_number g) 0x10000\<rparr>, w)
     | Some i \<Rightarrow>
         let g = g\<lparr>next_number := i\<rparr>; data = option_bytes label hddp arguments
         in if \<not> fe_pool env (length data + 2) then (EFI_OUT_OF_RESOURCES, g, w)
            else let g = remember_option (fe_pool env) fulldp arguments g
            in case SetVariable (fe_rt env) w (boot_varname i) GV_GUID UEFI_VAR_NV_BS_RT data of (st, w) \<Rightarrow>
                 if EFI_ERROR st then (st, g, w)
                 else if \<not> fe_pool env (2 * (length (bootorder g) + 1)) then (EFI_OUT_OF_RESOURCES, g, w)
                 else (EFI_SUCCESS, g\<lparr>bootorder := word_of_nat i # bootorder g\<rparr>, w))"

section \<open>Entries hidden by a firmware\<close>

definition ami_masked_device_path_guid :: guid where
  "ami_masked_device_path_guid = mk_guid 0x99e275e7 0x75a0 0x4b37 [0xa2, 0xe6, 0xc5, 0x38, 0x5e, 0x6c, 0x0, 0xcb]"

definition calc_masked_boot_option_size :: "nat \<Rightarrow> nat" where
  "calc_masked_boot_option_size sz = sz + 4 + 16 + 4"

text \<open>
  \<open>True\<close> when the candidate is not the masked form of \<open>data\<close>. The first part finds the
  end node behind the vendor node: \<open>None\<close> when the check already fails, otherwise the offset of
  the label's end, of the end node, and \<open>min_valid_size\<close>, in 32-bit arithmetic.
\<close>

definition masked_prefix :: "bytes \<Rightarrow> nat \<Rightarrow> (nat \<times> nat \<times> u32) option res" where
  "masked_prefix candidate csize =
     bindR (string_at candidate 6 (length candidate)) (\<lambda>s.
     let cursor = 6 + 2 * (length s + 1); min1 = cursor + 4
     in if csize \<le> min1 then Inr None
        else bindR (idx candidate cursor) (\<lambda>t. bindR (idx candidate (cursor + 1)) (\<lambda>sub.
          bindR (get_le candidate (cursor + 2) 2) (\<lambda>len.
          let node_size = word_of_nat len - 4; min2 = word_of_nat min1 + node_size
          in if word_of_nat csize \<le> min2 \<or> dp_type t \<noteq> 1 \<or> sub \<noteq> 4 \<or> node_size \<noteq> 16 then Inr None
             else bindR (get_bytes candidate (cursor + 4) 16) (\<lambda>gd.
               if gd \<noteq> ami_masked_device_path_guid \<or> word_of_nat csize \<le> min2 + 4 then Inr None
               else bindR (idx candidate (cursor + len)) (\<lambda>t. bindR (idx candidate (cursor + len + 1)) (\<lambda>sub.
                 Inr (if dp_type t = 0x7f \<and> sub = 0xff then Some (cursor, cursor + len, min2 + 4) else None))))))))"

definition masked_same :: "bytes \<Rightarrow> nat \<Rightarrow> bytes \<Rightarrow> nat \<times> nat \<times> u32 \<Rightarrow> bool res" where
  "masked_same candidate csize data = (\<lambda>(cursor, dp, min_valid_size).
     bindR (get_le candidate 0 4) (\<lambda>attrs. bindR (get_le data 0 4) (\<lambda>dattrs.
     if (word_of_nat attrs :: u32) AND 8 = 0 \<or> (word_of_nat attrs :: u32) AND NOT 8 \<noteq> word_of_nat dattrs
     then Inr False
     else bindR (get_le data 4 2) (\<lambda>dlen. bindR (get_le candidate 4 2) (\<lambda>clen.
     if calc_masked_boot_option_size dlen \<noteq> clen then Inr False
     else bindR (get_bytes candidate 6 (cursor - 6)) (\<lambda>cl. bindR (get_bytes data 6 (cursor - 6)) (\<lambda>dl.
     if cl \<noteq> dl then Inr False
     else bindR (get_le candidate (dp + 2) 2) (\<lambda>endlen. bindR (string_at data 8 (length data)) (\<lambda>s.
       let n = csize - unat min_valid_size
       in bindR (get_bytes candidate (dp + endlen) n) (\<lambda>a.
          bindR (get_bytes data (8 + 2 * (length s + 1)) n) (\<lambda>b. Inr (a = b))))))))))))"

definition check_masked_boot_option :: "bytes \<Rightarrow> nat \<Rightarrow> bytes \<Rightarrow> nat \<Rightarrow> bool res" where
  "check_masked_boot_option candidate csize data dsize =
     (if calc_masked_boot_option_size dsize \<noteq> csize then Inr True
      else bindR (masked_prefix candidate csize) (\<lambda>r.
        case r of None \<Rightarrow> Inr True
        | Some p \<Rightarrow> bindR (masked_same candidate csize data p) (\<lambda>same. Inr (\<not> same))))"

section \<open>Finding a boot entry\<close>

definition isxdigit :: "char \<Rightarrow> bool" where
  "isxdigit c \<longleftrightarrow> (let x = (of_char c :: nat)
     in (48 \<le> x \<and> x \<le> 57) \<or> (97 \<le> x \<and> x \<le> 102) \<or> (65 \<le> x \<and> x \<le> 70))"

definition is_boot_name :: "string \<Rightarrow> bool" where
  "is_boot_name n \<longleftrightarrow> length n = 8 \<and> take 4 n = ''Boot'' \<and> list_all isxdigit (drop 4 n)"

text \<open>
  The loop over the names: \<open>bufsz\<close> is the size of the name buffer, \<open>cand\<close> the buffer the
  variables are read into, which keeps what an earlier variable left behind.
\<close>

definition written_over :: "bytes \<Rightarrow> bytes \<Rightarrow> bytes" where
  "written_over buf b = take (length buf) (b @ drop (length b) buf)"

lemma length_written_over [simp]: "length (written_over buf b) = length buf"
  by (simp add: written_over_def)

definition candidate_matches :: "bytes \<Rightarrow> nat \<Rightarrow> bytes \<Rightarrow> nat \<Rightarrow> bool res" where
  "candidate_matches cand csize data sz =
     (if csize \<noteq> sz then bindR (check_masked_boot_option cand csize data sz) (\<lambda>r. Inr (\<not> r))
      else bindR (get_bytes cand 0 sz) (\<lambda>c. bindR (get_bytes data 0 sz) (\<lambda>d. Inr (c = d))))"

partial_function (option) find_boot_loop ::
  "'w fb_env \<Rightarrow> 'w \<Rightarrow> bytes \<Rightarrow> nat \<Rightarrow> nat \<Rightarrow> string \<Rightarrow> guid \<Rightarrow> bytes \<Rightarrow> u16 res option"
where
  "find_boot_loop env w data sz bufsz varname vendor cand =
     (case fe_GetNextVariableName env w bufsz varname vendor of (st, need, varname, vendor) \<Rightarrow>
        if EFI_ERROR st then
          (if st = EFI_BUFFER_TOO_SMALL then
             (if \<not> fe_pool env need then Some (Inl (Status EFI_OUT_OF_RESOURCES))
              else find_boot_loop env w data sz need varname vendor cand)
           else Some (Inl (Status st)))
        else if \<not> is_boot_name varname then find_boot_loop env w data sz bufsz varname vendor cand
        else let r = GetVariable (fe_rt env) w varname GV_GUID True (length cand);
                 cand = written_over cand (gv_data r)
             in if EFI_ERROR (gv_status r) then find_boot_loop env w data sz bufsz varname vendor cand
                else (case candidate_matches cand (gv_size r) data sz of
                        Inl e \<Rightarrow> Some (Inl e)
                      | Inr m \<Rightarrow>
                          if m then Some (Inr (word_of_nat (fe_xtoi env (drop 4 varname))))
                          else find_boot_loop env w data sz bufsz varname vendor cand))"

declare find_boot_loop.simps [code]

definition NullGuid :: guid where "NullGuid = replicate 16 0"

definition find_boot_option ::
  "'w fb_env \<Rightarrow> 'w \<Rightarrow> dp_node list \<Rightarrow> dp_node list \<Rightarrow> wstr \<Rightarrow> wstr \<Rightarrow> fb_globals \<Rightarrow> (u16 \<times> fb_globals) res option"
where
  "find_boot_option env w dp fulldp label arguments g =
     (let data = option_bytes label dp arguments; sz = length data; pool = fe_pool env;
          max_candidate = calc_masked_boot_option_size sz
      in if \<not> pool (sz + 2) \<or> \<not> pool 512 \<or> \<not> pool max_candidate then Some (Inl (Status EFI_OUT_OF_RESOURCES))
         else bindO (find_boot_loop env w (data @ [0, 0]) sz 512 [] NullGuid (replicate max_candidate 0)) (\<lambda>n.
           Some (Inr (n, remember_option pool fulldp arguments g))))"

section \<open>The boot order\<close>

text \<open>Reading a 16-bit entry list; a trailing odd byte is dropped.\<close>

fun order_entries :: "bytes \<Rightarrow> u16 list" where
  "order_entries (lo # hi # bs) = (ucast lo + 256 * ucast hi) # order_entries bs"
| "order_entries _ = []"

definition set_boot_order :: "'w fb_env \<Rightarrow> 'w \<Rightarrow> fb_globals \<Rightarrow> fb_globals" where
  "set_boot_order env w g =
     (case fe_LibGetVariable env w ''BootOrder'' GV_GUID of
        None \<Rightarrow> g
      | Some b \<Rightarrow> g\<lparr>bootorder := order_entries b\<rparr>)"

definition update_boot_order :: "'w fb_env \<Rightarrow> fb_globals \<Rightarrow> 'w \<Rightarrow> efi_status \<times> 'w" where
  "update_boot_order env g w =
     (if \<not> fe_pool env (2 * length (bootorder g)) then (EFI_OUT_OF_RESOURCES, w)
      else let w = (if gv_status (GetVariable (fe_rt env) w ''BootOrder'' GV_GUID False 0) = EFI_BUFFER_TOO_SMALL
                    then snd (fe_LibDeleteVariable env w ''BootOrder'' GV_GUID) else w)
           in SetVariable (fe_rt env) w ''BootOrder'' GV_GUID UEFI_VAR_NV_BS_RT (wstr_bytes (bootorder g)))"

text \<open>The index of the option in the order, or its length; the index is 16 bits wide.\<close>

partial_function (option) order_index :: "u16 list \<Rightarrow> u16 \<Rightarrow> u16 \<Rightarrow> u16 option" where
  "order_index order option bootnum =
     (if unat bootnum < length order then
        (if order ! unat bootnum = option then Some bootnum else order_index order option (bootnum + 1))
      else Some bootnum)"

declare order_index.simps [code]

text \<open>The option goes to the front: added when it is not in the order, moved when it is.\<close>

definition put_first :: "(nat \<Rightarrow> bool) \<Rightarrow> u16 list \<Rightarrow> u16 \<Rightarrow> u16 list res option" where
  "put_first pool order option =
     (case order_index order option 0 of
        None \<Rightarrow> None
      | Some bootnum \<Rightarrow> Some
          (if unat bootnum = length order then
             (if pool (2 * (length order + 1)) then Inr (option # order) else Inl (Status EFI_OUT_OF_RESOURCES))
           else if pool (2 * length order)
           then Inr (option # take (unat bootnum) order @ drop (unat bootnum + 1) order)
           else Inl (Status EFI_OUT_OF_RESOURCES)))"

text \<open>The status is the one of the search: the result of \<open>add_boot_option\<close> is dropped.\<close>

definition option_device_path :: "(nat \<Rightarrow> bool) \<Rightarrow> dp_node list \<Rightarrow> dp_node list res" where
  "option_device_path pool full =
     (case FindSubDevicePath pool full 4 1 of
        Inl (Status st) \<Rightarrow> if st = EFI_NOT_FOUND then Inr full else Inl (Status EFI_OUT_OF_RESOURCES)
      | r \<Rightarrow> r)"

definition add_to_boot_list ::
  "'w fb_env \<Rightarrow> wstr \<Rightarrow> wstr \<Rightarrow> wstr \<Rightarrow> wstr \<Rightarrow> fb_globals \<times> 'w \<Rightarrow> (efi_status \<times> fb_globals \<times> 'w) res option"
where
  "add_to_boot_list env dirname filename label arguments = (\<lambda>(g, w).
     case make_full_path (fe_pool env) dirname filename of
       Inl (Status st) \<Rightarrow> Some (Inr (st, g, w)) | Inl Fault \<Rightarrow> Some (Inl Fault)
     | Inr fullpath \<Rightarrow>
     (case fe_FileDevicePath env fullpath of
        None \<Rightarrow> Some (Inr (EFI_OUT_OF_RESOURCES, g, w))
      | Some full \<Rightarrow>
     (case option_device_path (fe_pool env) full of
        Inl (Status st) \<Rightarrow> Some (Inr (st, g, w)) | Inl Fault \<Rightarrow> Some (Inl Fault)
      | Inr dp \<Rightarrow>
     (case find_boot_option env w dp full label arguments g of
        None \<Rightarrow> None
      | Some (Inl Fault) \<Rightarrow> Some (Inl Fault)
      | Some (Inl (Status st)) \<Rightarrow> Some (Inr (st, snd (add_boot_option env dp full label arguments (g, w))))
      | Some (Inr (opt, g)) \<Rightarrow>
          (case put_first (fe_pool env) (bootorder g) opt of
             None \<Rightarrow> None
           | Some (Inl Fault) \<Rightarrow> Some (Inl Fault)
           | Some (Inl (Status st)) \<Rightarrow> Some (Inr (st, g, w))
           | Some (Inr order) \<Rightarrow> Some (Inr (EFI_SUCCESS, g\<lparr>bootorder := order\<rparr>, w)))))))"

end
