(* ===== verification/FallbackMasked.thy ===== *)
theory FallbackMasked
  imports Fallback
begin

text \<open>
  The form in which a firmware hides a boot entry, and that \<open>check_masked_boot_option\<close>
  recognises exactly this form.
\<close>

section \<open>Strings and fields in a buffer\<close>

lemma wstr_bytes_simps [simp]:
  "wstr_bytes [] = []" "wstr_bytes (c # s) = le_bytes 2 (unat c) @ wstr_bytes s"
  "wstr_bytes (s @ t) = wstr_bytes s @ wstr_bytes t"
  by (simp_all add: wstr_bytes_def)

lemma length_wstr_bytes [simp]: "length (wstr_bytes s) = 2 * length s"
  by (induction s) simp_all

lemma word16_le: "(word_of_nat (le_nat (le_bytes 2 (unat c))) :: u16) = c"
  using unat_u16_bound [of c] by (simp add: le_nat_le_bytes)

text \<open>What \<open>string_at\<close> reads, as bytes.\<close>

lemma get_bytes_append_res:
  "get_bytes b i (m + n) = bindR (get_bytes b i m) (\<lambda>x. bindR (get_bytes b (i + m) n) (\<lambda>y. Inr (x @ y)))"
  by (simp add: get_bytes_def take_add add.commute)

lemma get_le_2: "get_le b p 2 = Inr c \<longleftrightarrow> c < 65536 \<and> get_bytes b p 2 = Inr (le_bytes 2 c)"
proof
  assume "get_le b p 2 = Inr c"
  then obtain x where x: "get_bytes b p 2 = Inr x" "c = le_nat x" by (auto simp add: get_le_def bindR_eq_Inr)
  then have "length x = 2" by (auto simp add: get_bytes_def split: if_splits)
  then show "c < 65536 \<and> get_bytes b p 2 = Inr (le_bytes 2 c)"
    using x le_nat_bound [of x] le_bytes_le_nat [of x] by simp
next
  assume "c < 65536 \<and> get_bytes b p 2 = Inr (le_bytes 2 c)"
  then show "get_le b p 2 = Inr c" by (simp add: get_le_def le_nat_le_bytes)
qed

lemma string_at_bytes:
  "string_at b p k = Inr s \<longleftrightarrow>
   length s < k \<and> 0 \<notin> set s \<and> get_bytes b p (2 * length s + 2) = Inr (wstr_bytes s @ [0, 0])"
proof (induction k arbitrary: p s)
  case (Suc k)
  show ?case
  proof (cases s)
    case Nil
    have "le_bytes 2 0 = [0, 0]" by (simp add: le_bytes_numeral)
    then show ?thesis using get_le_2 [of b p 0] unfolding Nil
      by (auto simp add: bindR_eq_Inr numeral_2_eq_2 [symmetric] split: if_splits)
  next
    case (Cons c t)
    have "string_at b p (Suc k) = Inr s \<longleftrightarrow>
        c \<noteq> 0 \<and> get_le b p 2 = Inr (unat c) \<and> string_at b (p + 2) k = Inr t"
    proof (cases "get_le b p 2")
      case (Inr n)
      then have n: "n < 65536" by (simp add: get_le_2)
      then have "unat (word_of_nat n :: u16) = n" by (simp add: unat_of_nat)
      then have c: "word_of_nat n = c \<longleftrightarrow> n = unat c" by auto
      show ?thesis
      proof (cases "n = 0")
        case True
        then show ?thesis unfolding Cons using Inr by (auto simp add: unat_eq_zero)
      next
        case False
        then show ?thesis unfolding Cons using Inr c by (auto simp add: bindR_eq_Inr)
      qed
    qed simp
    moreover have "get_bytes b p (2 * length s + 2) = Inr (wstr_bytes s @ [0, 0]) \<longleftrightarrow>
        get_bytes b p 2 = Inr (le_bytes 2 (unat c)) \<and>
        get_bytes b (p + 2) (2 * length t + 2) = Inr (wstr_bytes t @ [0, 0])"
    proof -
      have n: "2 * length s + 2 = 2 + (2 * length t + 2)" by (simp add: Cons)
      have "length x = 2" if "get_bytes b p 2 = Inr x" for x
        using that by (auto simp add: get_bytes_def split: if_splits)
      then show ?thesis unfolding n get_bytes_append_res unfolding Cons
        by (fastforce simp add: bindR_eq_Inr append_eq_append_conv)
    qed
    ultimately show ?thesis using Suc.IH [of "p + 2" t] unat_u16_bound [of c] unfolding Cons
      by (auto simp add: get_le_2)
  qed
qed simp


text \<open>\<open>x\<close> is in the buffer at \<open>i\<close>.\<close>

definition holds_at :: "bytes \<Rightarrow> nat \<Rightarrow> bytes \<Rightarrow> bool" where
  "holds_at b i x \<longleftrightarrow> get_bytes b i (length x) = Inr x"

lemma holds_append: "holds_at b i (x @ y) \<longleftrightarrow> holds_at b i x \<and> holds_at b (i + length x) y"
proof -
  have "length z = length x" if "get_bytes b i (length x) = Inr z" for z
    using that by (auto simp add: get_bytes_def split: if_splits)
  then show ?thesis
    unfolding holds_at_def length_append get_bytes_append_res by (auto simp add: bindR_eq_Inr)
qed

lemma holds_all: "length x = length b \<Longrightarrow> holds_at b 0 x \<longleftrightarrow> b = x"
  by (auto simp add: holds_at_def get_bytes_def)

lemma holds_here: "holds_at (pre @ x @ post) (length pre) x"
  by (simp add: holds_at_def get_bytes_at)

lemma holds_le: "get_le b p n = Inr v \<longleftrightarrow> v < 256 ^ n \<and> holds_at b p (le_bytes n v)"
proof
  assume "get_le b p n = Inr v"
  then obtain x where x: "get_bytes b p n = Inr x" "v = le_nat x" by (auto simp add: get_le_def bindR_eq_Inr)
  then have "length x = n" by (auto simp add: get_bytes_def split: if_splits)
  then show "v < 256 ^ n \<and> holds_at b p (le_bytes n v)"
    using x le_nat_bound [of x] le_bytes_le_nat [of x] by (simp add: holds_at_def)
next
  assume "v < 256 ^ n \<and> holds_at b p (le_bytes n v)"
  then show "get_le b p n = Inr v" by (simp add: get_le_def holds_at_def le_nat_le_bytes)
qed

lemma holds_idx: "idx b i = Inr x \<longleftrightarrow> holds_at b i [x]"
  by (auto simp add: idx_def holds_at_def get_bytes_def take_Suc_conv_app_nth hd_drop_conv_nth split: if_splits
      dest: arg_cong [of _ _ hd])

lemma holds_get: "length x = n \<Longrightarrow> get_bytes b i n = Inr x \<longleftrightarrow> holds_at b i x"
  by (auto simp add: holds_at_def)

lemma holds_bound: "holds_at b i x \<Longrightarrow> i + length x \<le> length b"
  by (simp add: holds_at_def get_bytes_def split: if_splits)

section \<open>The hidden form\<close>

text \<open>The vendor node, and the type and subtype of the end node behind it.\<close>

definition masked_node :: "u8 \<Rightarrow> u8 \<Rightarrow> bytes" where
  "masked_node t u = [t, 4, 20, 0] @ ami_masked_device_path_guid @ [u, 0xff]"

lemma length_ami [simp]: "length ami_masked_device_path_guid = 16"
  by (simp add: ami_masked_device_path_guid_def)

lemma length_masked_node [simp]: "length (masked_node t u) = 22"
  by (simp add: masked_node_def)

lemma masked_prefix_Some:
  assumes s: "string_at c 6 (length c) = Inr s" and lim: "length c < 2 ^ 30"
  defines "cur \<equiv> 8 + 2 * length s"
  shows "masked_prefix c (length c) = Inr (Some p) \<longleftrightarrow>
     p = (cur, cur + 20, word_of_nat (cur + 24)) \<and> cur + 24 < length c
     \<and> (\<exists>t u. dp_type t = 1 \<and> dp_type u = 0x7f \<and> holds_at c cur (masked_node t u))"
proof (cases "cur + 4 < length c")
  case False
  then show ?thesis using s by (simp add: masked_prefix_def Let_def cur_def add.commute)
next
  case True
  obtain t sub len where r: "idx c cur = Inr t" "idx c (cur + 1) = Inr sub" "get_le c (cur + 2) 2 = Inr len"
    using True by (simp add: idx_def get_le_def get_bytes_def)
  have len: "len < 65536" using r(3) by (simp add: get_le_2)
  have w: "unat (word_of_nat n :: u32) = n" if "n < 2 ^ 31" for n
    using that by (simp add: unat_of_nat)
  have node: "(word_of_nat len - 4 :: u32) = 16 \<longleftrightarrow> len = 20"
  proof
    assume "(word_of_nat len - 4 :: u32) = 16"
    then have "(word_of_nat len :: u32) = 20" by (simp add: diff_eq_eq)
    then have "unat (word_of_nat len :: u32) = 20" by simp
    then show "len = 20" using w [of len] len by simp
  qed simp
  have le: "word_of_nat (length c) \<le> (word_of_nat n :: u32) \<longleftrightarrow> length c \<le> n" if "n < 2 ^ 31" for n
  proof -
    have "length c < 2 ^ 31" using lim by simp
    then show ?thesis using w [of "length c"] w [OF that] by (simp only: word_le_nat_alt)
  qed
  have "cur \<le> length c" using s
    by (auto simp add: string_at_bytes get_bytes_def cur_def split: if_splits)
  then have b: "cur + 20 < 2 ^ 31" "cur + 24 < 2 ^ 31" using lim by simp_all
  have m2: "(word_of_nat (cur + 4) + 16 :: u32) = word_of_nat (cur + 20)"
    "(word_of_nat (cur + 4) + 16 + 4 :: u32) = word_of_nat (cur + 24)" by simp_all
  have eq: "masked_prefix c (length c) =
     (if word_of_nat (length c) \<le> (word_of_nat (cur + 4) + (word_of_nat len - 4) :: u32) \<or> dp_type t \<noteq> 1 \<or> sub \<noteq> 4
         \<or> word_of_nat len - 4 \<noteq> (16 :: u32) then Inr None
      else bindR (get_bytes c (cur + 4) 16) (\<lambda>gd.
        if gd \<noteq> ami_masked_device_path_guid \<or> word_of_nat (length c) \<le> (word_of_nat (cur + 4) + (word_of_nat len - 4) + 4 :: u32)
        then Inr None
        else bindR (idx c (cur + len)) (\<lambda>t. bindR (idx c (cur + len + 1)) (\<lambda>sub.
          Inr (if dp_type t = 0x7f \<and> sub = 0xff
               then Some (cur, cur + len, word_of_nat (cur + 4) + (word_of_nat len - 4) + 4) else None)))))"
  proof -
    have c: "6 + 2 * (length s + 1) = cur" by (simp add: cur_def)
    have g: "\<not> length c \<le> cur + 4" using True by simp
    show ?thesis
      unfolding masked_prefix_def s bindR_Inr Let_def c if_not_P [OF g] r by (rule refl)
  qed
  have node_at: "holds_at c cur (masked_node t' u) \<longleftrightarrow> t' = t \<and> sub = 4 \<and> len = 20
      \<and> get_bytes c (cur + 4) 16 = Inr ami_masked_device_path_guid \<and> idx c (cur + 20) = Inr u \<and> idx c (cur + 21) = Inr 0xff"
    for t' u
  proof -
    have m: "masked_node t' u = [t'] @ [4] @ le_bytes 2 20 @ ami_masked_device_path_guid @ [u] @ [0xff]"
      by (simp add: masked_node_def le_bytes_numeral)
    have "holds_at c (cur + 2) (le_bytes 2 20) \<longleftrightarrow> len = 20"
      using holds_le [of c "cur + 2" 2 20] r(3) by auto
    moreover have "holds_at c cur (masked_node t' u) \<longleftrightarrow> holds_at c cur [t'] \<and> holds_at c (cur + 1) [4]
        \<and> holds_at c (cur + 2) (le_bytes 2 20) \<and> holds_at c (cur + 4) ami_masked_device_path_guid
        \<and> holds_at c (cur + 20) [u] \<and> holds_at c (cur + 21) [0xff]"
      unfolding m
      by (simp only: holds_append length_le_bytes length_ami list.size add_0_left One_nat_def [symmetric]
          add.assoc numeral_plus_numeral numeral_plus_one one_plus_numeral one_add_one add_num_simps)
    ultimately show ?thesis unfolding holds_idx [symmetric] holds_get [OF length_ami, symmetric] r by auto
  qed
  show ?thesis
  proof (cases "dp_type t = 1 \<and> sub = 4 \<and> len = 20 \<and> cur + 20 < length c")
    case False
    have cond: "word_of_nat (length c) \<le> (word_of_nat (cur + 4) + (word_of_nat len - 4) :: u32) \<or> dp_type t \<noteq> 1
        \<or> sub \<noteq> 4 \<or> word_of_nat len - 4 \<noteq> (16 :: u32)"
    proof (rule ccontr)
      assume a: "\<not> ?thesis"
      then have n: "(word_of_nat len - 4 :: u32) = 16" by blast
      from a have "\<not> word_of_nat (length c) \<le> (word_of_nat (cur + 4) + 16 :: u32)" unfolding n by blast
      then have "\<not> length c \<le> cur + 20" unfolding m2 le [OF b(1)] .
      then show False using a n node False by auto
    qed
    have "masked_prefix c (length c) = Inr None" unfolding eq if_P [OF cond] ..
    then show ?thesis using False node_at by auto
  next
    case vendor: True
    have n16: "(word_of_nat len - 4 :: u32) = 16" using node vendor by simp
    have l: "cur + len = cur + 20" "cur + 20 + 1 = cur + 21" using vendor by simp_all
    have nc: "\<not> (word_of_nat (length c) \<le> (word_of_nat (cur + 4) + 16 :: u32) \<or> dp_type t \<noteq> 1 \<or> sub \<noteq> 4 \<or> 16 \<noteq> (16 :: u32))"
      unfolding m2(1) le [OF b(1)] using vendor by simp
    have "masked_prefix c (length c) = bindR (get_bytes c (cur + 4) 16) (\<lambda>gd.
        if gd \<noteq> ami_masked_device_path_guid \<or> length c \<le> cur + 24 then Inr None
        else bindR (idx c (cur + 20)) (\<lambda>t. bindR (idx c (cur + 21)) (\<lambda>sub.
          Inr (if dp_type t = 0x7f \<and> sub = 0xff then Some (cur, cur + 20, word_of_nat (cur + 24)) else None))))"
      unfolding eq n16 if_not_P [OF nc] m2(2) le [OF b(2)] l by (rule refl)
    moreover obtain gd where "get_bytes c (cur + 4) 16 = Inr gd" using vendor by (simp add: get_bytes_def)
    moreover have "idx c (cur + 20) = Inr (c ! (cur + 20)) \<and> idx c (cur + 21) = Inr (c ! (cur + 21))" if "cur + 24 < length c"
      using that by (simp add: idx_def)
    ultimately show ?thesis using node_at vendor by (cases "cur + 24 < length c") auto
  qed
qed


definition masked_option_bytes :: "u8 \<Rightarrow> u8 \<Rightarrow> wstr \<Rightarrow> dp_node list \<Rightarrow> wstr \<Rightarrow> bytes" where
  "masked_option_bytes t u label dp arguments =
     le_bytes 4 9 @ le_bytes 2 (DevicePathSize dp + 24) @ (wstr_bytes label @ [0, 0]) @ masked_node t u @ le_bytes 2 4
       @ device_path_bytes dp @ wstr_bytes arguments"

text \<open>Attributes \<open>ACTIVE\<close> and \<open>HIDDEN\<close> become 9.\<close>

lemma bit_8_9: "bit (8 :: u32) n \<longleftrightarrow> n = 3" "bit (9 :: u32) n \<longleftrightarrow> n = 0 \<or> n = 3"
proof -
  have "(8 :: u32) = push_bit 3 1" "(9 :: u32) = push_bit 3 1 OR 1" by simp_all
  then show "bit (8 :: u32) n \<longleftrightarrow> n = 3" "bit (9 :: u32) n \<longleftrightarrow> n = 0 \<or> n = 3"
    by (auto simp only: bit_or_iff bit_push_bit_iff bit_1_iff) (auto simp add: bit_simps)
qed

lemma hidden_attrs: "(a :: u32) AND 8 \<noteq> 0 \<and> a AND NOT 8 = 1 \<longleftrightarrow> a = 9"
proof
  assume a: "a AND 8 \<noteq> 0 \<and> a AND NOT 8 = 1"
  have b3: "bit a 3"
  proof (rule ccontr)
    assume "\<not> bit a 3"
    then have "a AND 8 = 0" by (intro bit_word_eqI) (auto simp only: bit_and_iff bit_8_9 bit_0_eq)
    then show False using a by simp
  qed
  show "a = 9"
  proof (rule bit_word_eqI)
    fix n assume n: "n < LENGTH(32)"
    have "bit (a AND NOT 8) n \<longleftrightarrow> n = 0" using a n by (simp add: bit_1_iff)
    then have "bit a n \<and> n \<noteq> 3 \<longleftrightarrow> n = 0" using n by (simp only: bit_and_iff bit_not_iff bit_8_9) simp
    then show "bit a n \<longleftrightarrow> bit (9 :: u32) n" unfolding bit_8_9 using b3 by blast
  qed
qed simp

lemma masked_option_eq:
  assumes l: "label \<noteq> []" "0 \<notin> set label" and sz: "DevicePathSize dp + 24 < 65536"
    and lim: "length c < 2 ^ 30" and len: "length c = length (option_bytes label dp arguments) + 24"
    and e: "get_le c (8 + 2 * length label + 22) 2 = Inr 4"
  shows "check_masked_boot_option c (length c) (option_bytes label dp arguments @ [0, 0]) (length (option_bytes label dp arguments)) = Inr False
     \<longleftrightarrow> (\<exists>t u. dp_type t = 1 \<and> dp_type u = 0x7f \<and> c = masked_option_bytes t u label dp arguments)"
proof -
  let ?o = "option_bytes label dp arguments" and ?d = "option_bytes label dp arguments @ [0, 0]"
  let ?tail = "device_path_bytes dp @ wstr_bytes arguments" and ?cur = "8 + 2 * length label"
  obtain x xs where lab: "label = x # xs" using l(1) by (cases label) auto
  have lend: "length (le_bytes 4 LOAD_OPTION_ACTIVE @ le_bytes 2 (DevicePathSize dp)) = 6" by simp
  have d6: "?d = (le_bytes 4 LOAD_OPTION_ACTIVE @ le_bytes 2 (DevicePathSize dp)) @ (wstr_bytes label @ [0, 0]) @ ?tail @ [0, 0]"
    by (simp add: option_bytes_def)
  have dl: "holds_at ?d 6 (wstr_bytes label @ [0, 0])"
    unfolding d6 using holds_here [of _ _ "?tail @ [0, 0]"] lend by metis
  have d8: "string_at ?d 8 (length ?d) = Inr (tl label)"
  proof -
    have "holds_at ?d 6 (le_bytes 2 (unat x) @ (wstr_bytes xs @ [0, 0]))" using dl by (simp add: lab)
    then have "holds_at ?d 8 (wstr_bytes xs @ [0, 0])" by (simp only: holds_append length_le_bytes) simp
    then show ?thesis using l(2) by (simp add: string_at_bytes lab holds_get option_bytes_def)
  qed
  have check: "check_masked_boot_option c (length c) ?d (length ?o) = Inr False \<longleftrightarrow>
      (\<exists>p. masked_prefix c (length c) = Inr (Some p) \<and> masked_same c (length c) ?d p = Inr True)"
    using len by (simp add: check_masked_boot_option_def calc_masked_boot_option_size_def bindR_eq_Inr split: option.split)
      (auto split: option.splits)
  have e': "holds_at c (?cur + 22) (le_bytes 2 4)" using e by (simp add: holds_le)
  have tot: "length c = ?cur + 24 + length ?tail" using len by (simp add: option_bytes_def)
  have same: "masked_same c (length c) ?d (?cur, ?cur + 20, word_of_nat (?cur + 24)) = Inr True \<longleftrightarrow>
      holds_at c 0 (le_bytes 4 9) \<and> holds_at c 4 (le_bytes 2 (DevicePathSize dp + 24))
      \<and> holds_at c 6 (wstr_bytes label @ [0, 0]) \<and> holds_at c (?cur + 24) ?tail"
  proof -
    obtain attrs clen cl ct where r: "get_le c 0 4 = Inr attrs" "get_le c 4 2 = Inr clen"
        "get_bytes c 6 (?cur - 6) = Inr cl" "get_bytes c (?cur + 24) (length ?tail) = Inr ct"
      using tot by (simp add: get_le_def get_bytes_def)
    have a: "holds_at c 0 (le_bytes 4 9) \<longleftrightarrow> attrs = 9" "attrs < 4294967296"
      using r(1) holds_le [of c 0 4 9] holds_le [of c 0 4 attrs] by auto
    have cl: "holds_at c 4 (le_bytes 2 (DevicePathSize dp + 24)) \<longleftrightarrow> clen = DevicePathSize dp + 24"
      using r(2) holds_le [of c 4 2 "DevicePathSize dp + 24"] sz by auto
    have lb: "holds_at c 6 (wstr_bytes label @ [0, 0]) \<longleftrightarrow> cl = wstr_bytes label @ [0, 0]"
      using r(3) holds_get [of "wstr_bytes label @ [0, 0]" "?cur - 6" c 6] by auto
    have tl: "holds_at c (?cur + 24) ?tail \<longleftrightarrow> ct = ?tail"
      using r(4) holds_get [of ?tail "length ?tail" c "?cur + 24"] by auto
    have d: "get_le ?d 0 4 = Inr 1" "get_le ?d 4 2 = Inr (DevicePathSize dp)"
        "get_bytes ?d 6 (?cur - 6) = Inr (wstr_bytes label @ [0, 0])" "get_bytes ?d ?cur (length ?tail) = Inr ?tail"
    proof -
      show "get_le ?d 0 4 = Inr 1" unfolding option_bytes_def
        using get_le_at [of "[]" 0 1 4] by (simp add: LOAD_OPTION_ACTIVE_def)
      show "get_le ?d 4 2 = Inr (DevicePathSize dp)" unfolding option_bytes_def
        using get_le_at [of "le_bytes 4 LOAD_OPTION_ACTIVE" 4 "DevicePathSize dp" 2] sz by simp
      show "get_bytes ?d 6 (?cur - 6) = Inr (wstr_bytes label @ [0, 0])" using dl by (simp add: holds_at_def)
      show "get_bytes ?d ?cur (length ?tail) = Inr ?tail"
        using get_bytes_at [of "le_bytes 4 LOAD_OPTION_ACTIVE @ le_bytes 2 (DevicePathSize dp) @ wstr_bytes label @ [0, 0]" ?cur ?tail "length ?tail" "[0, 0]"]
        by (simp add: option_bytes_def)
    qed
    have u: "unat (word_of_nat (?cur + 24) :: u32) = ?cur + 24"
    proof -
      have "?cur + 24 < 2 ^ 32" using tot lim by simp
      then show ?thesis unfolding unat_of_nat by simp
    qed
    have w: "((word_of_nat attrs :: u32) AND 8 = 0 \<or> (word_of_nat attrs :: u32) AND NOT 8 \<noteq> word_of_nat 1) \<longleftrightarrow> attrs \<noteq> 9"
    proof -
      have "(word_of_nat attrs :: u32) = 9 \<longleftrightarrow> attrs = 9"
      proof
        assume "(word_of_nat attrs :: u32) = 9"
        then have "unat (word_of_nat attrs :: u32) = 9" by simp
        then show "attrs = 9" using a(2) unfolding unat_of_nat by simp
      qed simp
      then show ?thesis using hidden_attrs [of "word_of_nat attrs"] by auto
    qed
    have o: "?cur + 20 + 4 = ?cur + 24" "?cur + 20 + 2 = ?cur + 22" "8 + 2 * (length (tl label) + 1) = ?cur"
        "length c - (?cur + 24) = length ?tail" using lab tot by simp_all
    show ?thesis
      unfolding masked_same_def prod.case r(1,2,3) d bindR_Inr w o e d8 u Let_def r(4)
        a(1) cl lb tl calc_masked_boot_option_size_def
      by auto
  qed
  have parts: "c = masked_option_bytes t u label dp arguments \<longleftrightarrow>
      holds_at c 0 (le_bytes 4 9) \<and> holds_at c 4 (le_bytes 2 (DevicePathSize dp + 24))
      \<and> holds_at c 6 (wstr_bytes label @ [0, 0]) \<and> holds_at c ?cur (masked_node t u) \<and> holds_at c (?cur + 24) ?tail"
    for t u
  proof -
    have "length (masked_option_bytes t u label dp arguments) = length c"
      using tot by (simp add: masked_option_bytes_def)
    from holds_all [OF this] have "c = masked_option_bytes t u label dp arguments \<longleftrightarrow> holds_at c 0 (masked_option_bytes t u label dp arguments)" by simp
    moreover have "length (wstr_bytes label @ [0, 0]) = 2 * length label + 2" by simp
    moreover have "6 + (2 * length label + 2) = ?cur" "?cur + 22 + 2 = ?cur + 24" "0 + 4 = (4::nat)" "4 + 2 = (6::nat)" by simp_all
    ultimately show ?thesis
      unfolding masked_option_bytes_def holds_append [of _ _ "le_bytes 4 9"] holds_append [of _ _ "le_bytes 2 _"]
        holds_append [of _ _ "wstr_bytes label @ [0, 0]"] holds_append [of _ _ "masked_node t u"]
        length_le_bytes length_masked_node
      using e' by (simp only: simp_thms)
  qed
  show ?thesis
  proof (cases "holds_at c 6 (wstr_bytes label @ [0, 0])")
    case True
    then have s: "string_at c 6 (length c) = Inr label"
      using l(2) tot by (simp add: string_at_bytes holds_get)
    have gt: "?cur + 24 < length c" using tot by (simp add: device_path_bytes_def)
    have "check_masked_boot_option c (length c) ?d (length ?o) = Inr False \<longleftrightarrow>
        (\<exists>t u. dp_type t = 1 \<and> dp_type u = 0x7f \<and> holds_at c ?cur (masked_node t u))
        \<and> masked_same c (length c) ?d (?cur, ?cur + 20, word_of_nat (?cur + 24)) = Inr True"
      unfolding check masked_prefix_Some [OF s lim] using gt by blast
    then show ?thesis unfolding same parts by blast
  next
    case False
    have "masked_same c (length c) ?d p \<noteq> Inr True" if m: "masked_prefix c (length c) = Inr (Some p)" for p
    proof
      assume same': "masked_same c (length c) ?d p = Inr True"
      obtain s where s: "string_at c 6 (length c) = Inr s"
        using m by (auto simp add: masked_prefix_def bindR_eq_Inr)
      have p: "p = (8 + 2 * length s, 8 + 2 * length s + 20, word_of_nat (8 + 2 * length s + 24))"
        using m masked_prefix_Some [OF s lim, of p] by simp
      have "get_bytes c 6 (2 * length s + 2) = Inr (wstr_bytes s @ [0, 0])" "0 \<notin> set s"
        using s by (simp_all add: string_at_bytes)
      moreover have "get_bytes c 6 (2 * length s + 2) = get_bytes ?d 6 (2 * length s + 2)"
        using same' unfolding p masked_same_def
        by (auto simp add: bindR_eq_Inr split: if_splits)
      ultimately have g: "get_bytes ?d 6 (2 * length s + 2) = Inr (wstr_bytes s @ [0, 0])" "0 \<notin> set s" by simp_all
      then have "6 + (2 * length s + 2) \<le> length ?d" unfolding get_bytes_def by (simp only: sum.distinct split: if_splits)
      then have "string_at ?d 6 (length ?d) = Inr s" unfolding string_at_bytes using g by linarith
      moreover have "string_at ?d 6 (length ?d) = Inr label"
        using dl l(2) by (simp add: string_at_bytes holds_get option_bytes_def)
      ultimately have "s = label" by simp
      then show False using \<open>get_bytes c 6 _ = Inr _\<close> False by (simp add: holds_get)
    qed
    then show ?thesis unfolding check using False parts by blast
  qed
qed

end
