(* ===== verification/FallbackSpec.thy ===== *)
theory FallbackSpec
  imports FallbackMasked
begin

text \<open>
  What fallback.c's boot entries promise: the search visits every variable once and finds the
  first entry that holds the option, shown or hidden; an entry is added under a free number only;
  the option ends up first in the order and the rest keeps its place; doing it again changes
  nothing.
\<close>

section \<open>The firmware\<close>

text \<open>
  The variable services with an enumeration that lists every variable, the library's access to
  them, and \<open>xtoi\<close> on the numbers of boot entries.
\<close>

locale boot_firmware = variable_names "fe_rt env" vars good "fe_GetNextVariableName env" listed
  for env :: "'w fb_env" and vars :: "'w \<Rightarrow> string \<times> guid \<Rightarrow> (u32 \<times> bytes) option"
    and good :: "'w \<Rightarrow> bool" and listed :: "'w \<Rightarrow> guid \<Rightarrow> (string \<times> guid) list" +
  assumes lib_get: "good w \<Longrightarrow> fe_LibGetVariable env w n g = map_option snd (vars w (n, g))"
    and lib_delete: "good w \<Longrightarrow> fe_LibDeleteVariable env w n g = (st, w') \<Longrightarrow>
      good w' \<and> (\<forall>k. k \<noteq> (n, g) \<longrightarrow> vars w' k = vars w k)"
    and listed_all: "good w \<Longrightarrow> vars w k \<noteq> None \<Longrightarrow> k \<in> set (listed w g)"
    and xtoi_number: "i \<le> 0xffff \<Longrightarrow> fe_xtoi env (drop 4 (boot_varname i)) = i"
begin

text \<open>The search as a function of the names still to be visited.\<close>

fun found_among :: "'w \<Rightarrow> bytes \<Rightarrow> nat \<Rightarrow> (string \<times> guid) list \<Rightarrow> u16 res" where
  "found_among w data sz [] = Inl (Status EFI_NOT_FOUND)"
| "found_among w data sz ((n, g) # ks) =
     (if \<not> is_boot_name n then found_among w data sz ks
      else case vars w (n, GV_GUID) of
             None \<Rightarrow> found_among w data sz ks
           | Some (a, c) \<Rightarrow>
               if sz + 24 < length c then found_among w data sz ks
               else bindR (candidate_matches c (length c) data sz) (\<lambda>m.
                 if m then Inr (word_of_nat (fe_xtoi env (drop 4 n))) else found_among w data sz ks))"

end

lemma candidate_stale:
  assumes "length c \<le> sz + 24" and "length (c @ stale) = sz + 24"
  shows "candidate_matches (c @ stale) (length c) data sz = candidate_matches c (length c) data sz"
proof (cases "length c = sz")
  case True
  then show ?thesis by (simp add: candidate_matches_def get_bytes_def)
next
  case False
  show ?thesis
  proof (cases "length c = sz + 24")
    case True
    then have "stale = []" using assms(2) by simp
    then show ?thesis by simp
  next
    case full: False
    then show ?thesis using False
      by (simp add: candidate_matches_def check_masked_boot_option_def calc_masked_boot_option_size_def)
  qed
qed

text \<open>Reads fault or succeed: they have no status of their own.\<close>

definition no_status :: "'a res \<Rightarrow> bool" where
  "no_status m \<longleftrightarrow> (\<forall>s. m \<noteq> Inl (Status s))"

lemma no_status_bind: "no_status m \<Longrightarrow> (\<And>x. no_status (f x)) \<Longrightarrow> no_status (bindR m f)"
  by (auto simp add: no_status_def bindR_eq_Inl)

lemma no_status_if: "no_status m \<Longrightarrow> no_status m' \<Longrightarrow> no_status (if c then m else m')"
  by simp

lemma no_status_Inr: "no_status (Inr x)"
  by (simp add: no_status_def)

lemma no_status_read: "no_status (get_bytes b i n)" "no_status (get_le b i n)" "no_status (idx b i)"
  by (auto simp add: no_status_def get_bytes_def get_le_def idx_def bindR_eq_Inl split: if_splits)

lemma no_status_string_at: "no_status (string_at b p k)"
proof (induction k arbitrary: p)
  case 0
  then show ?case by (simp add: no_status_def)
next
  case (Suc k)
  show ?case unfolding string_at.simps
    by (intro no_status_bind no_status_if no_status_read no_status_Inr Suc.IH)
qed

lemmas no_status = no_status_bind no_status_if no_status_Inr no_status_read no_status_string_at

lemma no_status_candidate: "no_status (candidate_matches c n d m)"
proof -
  have p: "no_status (masked_prefix c n)"
    unfolding masked_prefix_def Let_def by (intro no_status)
  have q: "no_status (masked_same c n d p)" for p
    unfolding masked_same_def Let_def by (cases p) (simp only: prod.case, intro no_status)
  have "no_status (check_masked_boot_option c n d m)"
    unfolding check_masked_boot_option_def by (intro no_status p) (auto split: option.split intro!: no_status q)
  then show ?thesis unfolding candidate_matches_def by (intro no_status)
qed

lemma candidate_no_status [simp]: "candidate_matches c n d m \<noteq> Inl (Status s)"
  using no_status_candidate by (auto simp add: no_status_def)

lemma candidate_too_long: "sz + 24 < length c \<Longrightarrow> candidate_matches c (length c) data sz = Inr False"
  by (simp add: candidate_matches_def check_masked_boot_option_def calc_masked_boot_option_size_def)

context boot_firmware
begin

lemma find_loop:
  assumes pool: "\<forall>n. fe_pool env n" and good: "good w"
    and i: "i \<le> length (listed w NullGuid)" and v: "visited (listed w NullGuid) NullGuid i = (n, g)"
    and b: "length n < bufsz" and c: "length cand = sz + 24"
  shows "find_boot_loop env w data sz bufsz n g cand = Some (found_among w data sz (drop i (listed w NullGuid)))"
  using i v b c
proof (induction "length (listed w NullGuid) - i" arbitrary: i n g bufsz cand)
  case 0
  then have "i = length (listed w NullGuid)" by simp
  then obtain s m h where "fe_GetNextVariableName env w bufsz n g = (EFI_NOT_FOUND, s, m, h)"
    using next_end [OF good, of NullGuid n g bufsz] 0 by auto
  then show ?case using \<open>i = _\<close> by (subst find_boot_loop.simps) simp
next
  case (Suc k)
  let ?ns = "listed w NullGuid"
  have i: "i < length ?ns" using Suc.hyps(2) by simp
  obtain m h where mh: "?ns ! i = (m, h)" by fastforce
  have dr: "drop i ?ns = (m, h) # drop (Suc i) ?ns" using i mh by (metis Cons_nth_drop_Suc)
  have step: "find_boot_loop env w data sz bz n g cand = Some (found_among w data sz (drop i ?ns))"
    if bz: "length n < bz" "2 * (length m + 1) \<le> bz" for bz
  proof -
    obtain s where e: "fe_GetNextVariableName env w bz n g = (EFI_SUCCESS, s, m, h)"
      using next_listed [OF good i Suc.prems(2) mh bz] by blast
    have IH: "find_boot_loop env w data sz bz m h cand' = Some (found_among w data sz (drop (Suc i) ?ns))"
      if "length cand' = sz + 24" for cand'
      using Suc.hyps(1) [of "Suc i" m h bz cand'] Suc.hyps(2) i mh bz(2) that by simp
    show ?thesis
    proof (cases "is_boot_name m")
      case False
      then show ?thesis using IH [OF Suc.prems(4)] by (subst find_boot_loop.simps) (simp add: e dr)
    next
      case boot: True
      show ?thesis
      proof (cases "\<exists>a c. vars w (m, GV_GUID) = Some (a, c) \<and> length c \<le> sz + 24")
        case True
        then obtain a c where c: "vars w (m, GV_GUID) = Some (a, c)" "length c \<le> sz + 24" by blast
        let ?cand = "c @ drop (length c) cand"
        have w: "written_over cand c = ?cand" using c(2) Suc.prems(4) by (simp add: written_over_def)
        have len: "length ?cand = sz + 24" using c(2) Suc.prems(4) by simp
        have r: "GetVariable (fe_rt env) w m GV_GUID True (length cand)
            = \<lparr>gv_status = EFI_SUCCESS, gv_attr = Some a, gv_size = length c, gv_data = c\<rparr>"
          using get_fits [OF good c(1)] c(2) Suc.prems(4) by simp
        show ?thesis using IH [OF len] boot candidate_stale [OF c(2) len, of data] c
          by (subst find_boot_loop.simps)
            (simp add: e dr r w Let_def split: sum.split)
      next
        case False
        let ?r = "GetVariable (fe_rt env) w m GV_GUID True (length cand)"
        have err: "EFI_ERROR (gv_status ?r)"
          using False get_missing [OF good] get_small [OF good] Suc.prems(4)
          by (cases "vars w (m, GV_GUID)") (auto simp add: not_le)
        have "length (written_over cand (gv_data ?r)) = sz + 24" using Suc.prems(4) by simp
        from IH [OF this] show ?thesis using False boot err
          by (subst find_boot_loop.simps) (auto simp add: e dr Let_def split: option.split)
      qed
    qed
  qed
  show ?case
  proof (cases "2 * (length m + 1) \<le> bufsz")
    case True
    then show ?thesis using step Suc.prems(3) by simp
  next
    case False
    then have "fe_GetNextVariableName env w bufsz n g = (EFI_BUFFER_TOO_SMALL, 2 * (length m + 1), n, g)"
      using next_small [OF good i Suc.prems(2) mh Suc.prems(3)] by simp
    then show ?thesis using pool step [of "2 * (length m + 1)"] False Suc.prems(3)
      by (subst find_boot_loop.simps) simp
  qed
qed

text \<open>The outcome of the search, in terms of the variables.\<close>

lemma found_among_Inr:
  "found_among w data sz ks = Inr opt \<Longrightarrow>
   \<exists>n g a c. (n, g) \<in> set ks \<and> is_boot_name n \<and> vars w (n, GV_GUID) = Some (a, c)
     \<and> candidate_matches c (length c) data sz = Inr True \<and> opt = word_of_nat (fe_xtoi env (drop 4 n))"
proof (induction ks)
  case (Cons k ks)
  obtain n g where k: "k = (n, g)" by fastforce
  show ?case
  proof (cases "found_among w data sz ks = Inr opt")
    case True
    then show ?thesis using Cons.IH by fastforce
  next
    case False
    then show ?thesis using Cons.prems unfolding k
      by (auto simp add: bindR_eq_Inr split: if_splits option.splits)
  qed
qed simp

lemma found_among_Status:
  "found_among w data sz ks = Inl (Status st) \<Longrightarrow>
   st = EFI_NOT_FOUND \<and> (\<forall>(n, g)\<in>set ks. \<forall>a c. is_boot_name n \<longrightarrow> vars w (n, GV_GUID) = Some (a, c) \<longrightarrow>
     candidate_matches c (length c) data sz \<noteq> Inr True)"
proof (induction ks)
  case (Cons k ks)
  obtain n g where k: "k = (n, g)" by fastforce
  have rest: "found_among w data sz ks = Inl (Status st)"
    and here: "\<forall>a c. is_boot_name n \<longrightarrow> vars w (n, GV_GUID) = Some (a, c) \<longrightarrow>
      candidate_matches c (length c) data sz \<noteq> Inr True"
    using Cons.prems unfolding k
    by (auto simp add: bindR_eq_Inl candidate_too_long split: if_splits option.splits)
  show ?case using Cons.IH [OF rest] here unfolding k by auto
qed simp

lemma found_among_fault:
  "found_among w data sz ks = Inl Fault \<Longrightarrow>
   \<exists>n a c. vars w (n, GV_GUID) = Some (a, c) \<and> candidate_matches c (length c) data sz = Inl Fault"
proof (induction ks)
  case (Cons k ks)
  obtain n g where k: "k = (n, g)" by fastforce
  show ?case
  proof (cases "found_among w data sz ks = Inl Fault")
    case True
    then show ?thesis by (rule Cons.IH)
  next
    case False
    then show ?thesis using Cons.prems unfolding k
      by (auto simp add: bindR_eq_Inl split: if_splits option.splits) blast
  qed
qed simp

end

section \<open>Numbers and order\<close>

lemma free_number_Some:
  "free_number used i = Some k \<Longrightarrow> i \<le> k \<and> k \<le> 0xffff \<and> \<not> used (boot_varname k)"
proof (induction used i rule: free_number.induct)
  case (1 used i)
  then show ?case by (subst (asm) free_number.simps) (auto split: if_splits)
qed

lemma free_number_None:
  "free_number used i = None \<Longrightarrow> i \<le> j \<Longrightarrow> j \<le> 0xffff \<Longrightarrow> used (boot_varname j)"
proof (induction used i rule: free_number.induct)
  case (1 used i)
  have u: "used (boot_varname i)" "free_number used (i + 1) = None"
    using 1(2,3,4) free_number.simps [of used i] by (simp_all split: if_splits)
  show ?case using 1(1) [OF _ u] 1(3,4) u(1) by (cases "i = j") auto
qed

lemma order_index_eq:
  assumes "length order < 65536" and "j \<le> length (takeWhile (\<lambda>x. x \<noteq> opt) order)"
  shows "order_index order opt (word_of_nat j) = Some (word_of_nat (length (takeWhile (\<lambda>x. x \<noteq> opt) order)))"
  using assms(2)
proof (induction "length (takeWhile (\<lambda>x. x \<noteq> opt) order) - j" arbitrary: j)
  case 0
  let ?k = "length (takeWhile (\<lambda>x. x \<noteq> opt) order)"
  have j: "j = ?k" using 0 by simp
  have k: "?k \<le> length order" by (rule length_takeWhile_le)
  then have u: "unat (word_of_nat ?k :: u16) = ?k" using assms(1) by (simp add: unat_of_nat)
  have "order ! ?k = opt" if "?k < length order" using nth_length_takeWhile [OF that] by simp
  then show ?case unfolding j using u by (subst order_index.simps) simp
next
  case (Suc m)
  let ?k = "length (takeWhile (\<lambda>x. x \<noteq> opt) order)"
  have j: "j < ?k" using Suc.hyps(2) by simp
  have k: "?k \<le> length order" by (rule length_takeWhile_le)
  have u: "unat (word_of_nat j :: u16) = j" using assms(1) j k by (simp add: unat_of_nat)
  have "takeWhile (\<lambda>x. x \<noteq> opt) order ! j = order ! j" using j by (rule takeWhile_nth)
  then have "order ! j \<noteq> opt" using nth_mem [OF j] by (auto dest: set_takeWhileD)
  then have "order_index order opt (word_of_nat j) = order_index order opt (word_of_nat (Suc j))"
    using u j k by (subst order_index.simps) (simp add: add.commute)
  also have "\<dots> = Some (word_of_nat ?k)" using Suc.hyps(1) [of "Suc j"] Suc.hyps(2) j by simp
  finally show ?case .
qed

lemma remove1_takeWhile:
  "remove1 x xs = takeWhile (\<lambda>y. y \<noteq> x) xs @ drop (Suc (length (takeWhile (\<lambda>y. y \<noteq> x) xs))) xs"
  by (induction xs) auto

lemma put_first_eq:
  assumes "\<forall>n. pool n" and "length order < 65536"
  shows "put_first pool order opt = Some (Inr (opt # remove1 opt order))"
proof -
  let ?k = "length (takeWhile (\<lambda>x. x \<noteq> opt) order)"
  have k: "?k \<le> length order" by (rule length_takeWhile_le)
  then have u: "unat (word_of_nat ?k :: u16) = ?k" using assms(2) by (simp add: unat_of_nat)
  have t: "take ?k order = takeWhile (\<lambda>x. x \<noteq> opt) order" by (rule takeWhile_eq_take [symmetric])
  have e: "order_index order opt 0 = Some (word_of_nat ?k)" using order_index_eq [OF assms(2), of 0 opt] by simp
  show ?thesis
  proof (cases "?k = length order")
    case True
    then have "opt \<notin> set order" by (metis (mono_tags, lifting) takeWhile_eq_all_conv t take_all order_refl)
    then show ?thesis using e u True assms(1) by (simp add: put_first_def remove1_idem)
  next
    case False
    then show ?thesis using e u t assms(1) by (simp add: put_first_def remove1_takeWhile [of opt])
  qed
qed

section \<open>Adding an option to the list\<close>

definition esp_path :: "wstr \<Rightarrow> wstr \<Rightarrow> wstr" where
  "esp_path dirname filename =
     wide [CHR 0x5C, CHR ''E'', CHR ''F'', CHR ''I'', CHR 0x5C] @ dirname @ wide [CHR 0x5C] @ filename"

definition hard_drive_part :: "dp_node list \<Rightarrow> dp_node list" where
  "hard_drive_part full =
     (let d = dropWhile (\<lambda>(t, st, x). \<not> (dp_type t = 4 \<and> st = 1)) full in if d = [] then full else d)"

lemma FindSubDevicePath_eq:
  "\<forall>n. pool n \<Longrightarrow> FindSubDevicePath pool full 4 1 =
     (let d = dropWhile (\<lambda>(t, st, x). \<not> (dp_type t = 4 \<and> st = 1)) full
      in if d = [] then Inl (Status EFI_NOT_FOUND) else Inr d)"
  by (induction full) (auto simp add: Let_def simp del: dropWhile_eq_Nil_conv)

lemma option_device_path_eq: "\<forall>n. pool n \<Longrightarrow> option_device_path pool full = Inr (hard_drive_part full)"
  by (simp add: option_device_path_def FindSubDevicePath_eq hard_drive_part_def Let_def)

text \<open>The content \<open>c\<close> of a variable is the entry for an option, shown or hidden.\<close>

definition entry_check :: "wstr \<Rightarrow> dp_node list \<Rightarrow> wstr \<Rightarrow> bytes \<Rightarrow> bool res" where
  "entry_check label dp arguments c =
     (let data = option_bytes label dp arguments in candidate_matches c (length c) (data @ [0, 0]) (length data))"

lemma entry_check_self: "entry_check label dp arguments (option_bytes label dp arguments) = Inr True"
  by (simp add: entry_check_def candidate_matches_def get_bytes_def Let_def)

text \<open>In a content \<open>vs\<close> of the variable store: an entry for an option, and that no variable sends the search outside it.\<close>

definition boot_entry :: "(string \<times> guid \<Rightarrow> (u32 \<times> bytes) option) \<Rightarrow> string \<Rightarrow> wstr \<Rightarrow> dp_node list \<Rightarrow> wstr \<Rightarrow> bool" where
  "boot_entry vs n label dp arguments \<longleftrightarrow> is_boot_name n \<and>
     (\<exists>a c. vs (n, GV_GUID) = Some (a, c) \<and> entry_check label dp arguments c = Inr True)"

definition readable :: "(string \<times> guid \<Rightarrow> (u32 \<times> bytes) option) \<Rightarrow> wstr \<Rightarrow> dp_node list \<Rightarrow> wstr \<Rightarrow> bool" where
  "readable vs label dp arguments \<longleftrightarrow>
     (\<forall>n a c. vs (n, GV_GUID) = Some (a, c) \<longrightarrow> entry_check label dp arguments c \<noteq> Inl Fault)"

context boot_firmware
begin

definition entry_number :: "'w \<Rightarrow> wstr \<Rightarrow> dp_node list \<Rightarrow> wstr \<Rightarrow> u16 option" where
  "entry_number w label dp arguments =
     (let data = option_bytes label dp arguments
      in case found_among w (data @ [0, 0]) (length data) (listed w NullGuid) of Inl _ \<Rightarrow> None | Inr x \<Rightarrow> Some x)"

lemma find_boot_option_outcome:
  assumes pool: "\<forall>n. fe_pool env n" and good: "good w" and r: "readable (vars w) label dp arguments"
  shows "(\<exists>n. boot_entry (vars w) n label dp arguments
            \<and> entry_number w label dp arguments = Some (word_of_nat (fe_xtoi env (drop 4 n)))
            \<and> find_boot_option env w dp full label arguments g
              = Some (Inr (word_of_nat (fe_xtoi env (drop 4 n)), remember_option (fe_pool env) full arguments g)))
       \<or> ((\<nexists>n. boot_entry (vars w) n label dp arguments) \<and>
          find_boot_option env w dp full label arguments g = Some (Inl (Status EFI_NOT_FOUND)))"
proof -
  let ?data = "option_bytes label dp arguments" and ?ks = "listed w NullGuid"
  have loop: "find_boot_loop env w (?data @ [0, 0]) (length ?data) 512 [] NullGuid (replicate (calc_masked_boot_option_size (length ?data)) 0)
      = Some (found_among w (?data @ [0, 0]) (length ?data) ?ks)"
    using find_loop [OF pool good, of 0 "[]" NullGuid 512 "replicate (length ?data + 24) 0" "length ?data"]
    by (simp add: calc_masked_boot_option_size_def add.assoc)
  have f: "find_boot_option env w dp full label arguments g =
      bindO (Some (found_among w (?data @ [0, 0]) (length ?data) ?ks)) (\<lambda>n.
        Some (Inr (n, remember_option (fe_pool env) full arguments g)))"
    using pool by (simp add: find_boot_option_def Let_def loop)
  show ?thesis
  proof (cases "found_among w (?data @ [0, 0]) (length ?data) ?ks")
    case (Inl e)
    show ?thesis
    proof (cases e)
      case (Status st)
      note no = found_among_Status [OF Inl [unfolded Status]]
      have "\<not> boot_entry (vars w) n label dp arguments" for n
      proof
        assume b: "boot_entry (vars w) n label dp arguments"
        then obtain a c where c: "is_boot_name n" "vars w (n, GV_GUID) = Some (a, c)" "entry_check label dp arguments c = Inr True"
          by (auto simp add: boot_entry_def)
        then have "(n, GV_GUID) \<in> set ?ks" using listed_all [OF good, of "(n, GV_GUID)"] by simp
        then show False using no c by (auto simp add: entry_check_def Let_def)
      qed
      then show ?thesis using f Inl Status no by simp
    next
      case Fault
      then show ?thesis using found_among_fault [OF Inl [unfolded Fault]] r
        by (auto simp add: readable_def entry_check_def Let_def)
    qed
  next
    case (Inr opt)
    obtain n h a c where "(n, h) \<in> set ?ks" "is_boot_name n" "vars w (n, GV_GUID) = Some (a, c)"
        "candidate_matches c (length c) (?data @ [0, 0]) (length ?data) = Inr True" "opt = word_of_nat (fe_xtoi env (drop 4 n))"
      using found_among_Inr [OF Inr] by blast
    then have "boot_entry (vars w) n label dp arguments \<and> entry_number w label dp arguments = Some (word_of_nat (fe_xtoi env (drop 4 n)))
      \<and> find_boot_option env w dp full label arguments g
        = Some (Inr (word_of_nat (fe_xtoi env (drop 4 n)), remember_option (fe_pool env) full arguments g))"
      using f Inr by (auto simp add: boot_entry_def entry_check_def entry_number_def Let_def)
    then show ?thesis by blast
  qed
qed

lemma add_boot_option_outcome:
  assumes pool: "\<forall>n. fe_pool env n" and good: "good w"
    and add: "add_boot_option env dp full label arguments (g, w) = (st, g', w')"
  shows "good w' \<and>
     (bootorder g' = bootorder g \<and> vars w' = vars w \<and> EFI_ERROR st
      \<or> (\<exists>i a. i \<le> 0xffff \<and> next_number g' = i \<and> next_number g \<le> i \<and> vars w (boot_varname i, GV_GUID) = None
           \<and> bootorder g' = word_of_nat i # bootorder g \<and> st = EFI_SUCCESS
           \<and> vars w' = (vars w)((boot_varname i, GV_GUID) \<mapsto> (a, option_bytes label dp arguments))))"
proof (cases "free_number (\<lambda>n. fe_LibGetVariable env w n GV_GUID \<noteq> None) (next_number g)")
  case None
  then show ?thesis using add good by (auto simp add: add_boot_option_def)
next
  case (Some i)
  note num = free_number_Some [OF Some]
  let ?v = "boot_varname i" and ?data = "option_bytes label dp arguments"
  have free: "vars w (?v, GV_GUID) = None" using num lib_get [OF good, of ?v GV_GUID]
    by (cases "vars w (?v, GV_GUID)") auto
  obtain st' w'' where set: "SetVariable (fe_rt env) w ?v GV_GUID UEFI_VAR_NV_BS_RT ?data = (st', w'')" by fastforce
  have pl: "plain_attrs UEFI_VAR_NV_BS_RT" "\<not> append_write UEFI_VAR_NV_BS_RT"
    by (simp_all add: plain_attrs_def append_write_def var_attr_defs)
  have ne: "?data \<noteq> []" by (simp add: option_bytes_def device_path_bytes_def)
  have ro: "bootorder (remember_option (fe_pool env) full arguments (g\<lparr>next_number := i\<rparr>)) = bootorder g"
      "next_number (remember_option (fe_pool env) full arguments (g\<lparr>next_number := i\<rparr>)) = i"
    by (simp_all add: remember_option_def split: option.split)
  show ?thesis
  proof (cases "EFI_ERROR st'")
    case True
    then show ?thesis
      using add Some set pool ro set_good [OF good set] set_error [OF good set True]
      by (auto simp add: add_boot_option_def Let_def)
  next
    case False
    obtain a where a: "vars w'' (?v, GV_GUID) = Some (a, ?data)"
      using set_write [OF good set False pl ne] by blast
    have "vars w'' = (vars w)((?v, GV_GUID) \<mapsto> (a, ?data))"
      using a set_frame [OF good set] by (auto simp add: fun_eq_iff)
    then show ?thesis
      using False add Some set pool ro set_good [OF good set] num free
      by (auto simp add: add_boot_option_def Let_def)
  qed
qed

text \<open>The whole of \<open>add_to_boot_list\<close>.\<close>

lemma add_to_boot_list_outcome:
  assumes pool: "\<forall>n. fe_pool env n" and good: "good w" and r: "readable (vars w) label (hard_drive_part full) arguments"
    and path: "fe_FileDevicePath env (esp_path dirname filename) = Some full" and len: "length (bootorder g) < 65536"
  shows "\<exists>st g' w'. add_to_boot_list env dirname filename label arguments (g, w) = Some (Inr (st, g', w')) \<and> good w' \<and>
    ((\<exists>n. boot_entry (vars w) n label (hard_drive_part full) arguments \<and> st = EFI_SUCCESS \<and> w' = w
        \<and> entry_number w label (hard_drive_part full) arguments = Some (word_of_nat (fe_xtoi env (drop 4 n)))
        \<and> (let opt = word_of_nat (fe_xtoi env (drop 4 n)) in bootorder g' = opt # remove1 opt (bootorder g)))
   \<or> ((\<nexists>n. boot_entry (vars w) n label (hard_drive_part full) arguments) \<and> st = EFI_NOT_FOUND
        \<and> (bootorder g' = bootorder g \<and> vars w' = vars w
           \<or> (\<exists>i a. i \<le> 0xffff \<and> vars w (boot_varname i, GV_GUID) = None \<and> bootorder g' = word_of_nat i # bootorder g
                \<and> vars w' = (vars w)((boot_varname i, GV_GUID) \<mapsto> (a, option_bytes label (hard_drive_part full) arguments))))))"
proof -
  let ?dp = "hard_drive_part full"
  have mk: "make_full_path (fe_pool env) dirname filename = Inr (esp_path dirname filename)"
    using pool by (simp add: make_full_path_def esp_path_def Let_def)
  have run: "add_to_boot_list env dirname filename label arguments (g, w) =
     (case find_boot_option env w ?dp full label arguments g of
        None \<Rightarrow> None
      | Some (Inl Fault) \<Rightarrow> Some (Inl Fault)
      | Some (Inl (Status st)) \<Rightarrow> Some (Inr (st, snd (add_boot_option env ?dp full label arguments (g, w))))
      | Some (Inr (opt, g)) \<Rightarrow>
          (case put_first (fe_pool env) (bootorder g) opt of
             None \<Rightarrow> None
           | Some (Inl Fault) \<Rightarrow> Some (Inl Fault)
           | Some (Inl (Status st)) \<Rightarrow> Some (Inr (st, g, w))
           | Some (Inr order) \<Rightarrow> Some (Inr (EFI_SUCCESS, g\<lparr>bootorder := order\<rparr>, w))))"
    unfolding add_to_boot_list_def prod.case mk sum.case path option.case option_device_path_eq [OF pool] by (rule refl)
  have ro: "bootorder (remember_option (fe_pool env) full arguments g) = bootorder g"
    by (simp add: remember_option_def split: option.split)
  from find_boot_option_outcome [OF pool good r, of full g] show ?thesis
  proof
    assume "\<exists>n. boot_entry (vars w) n label ?dp arguments \<and> entry_number w label ?dp arguments = Some (word_of_nat (fe_xtoi env (drop 4 n)))
        \<and> find_boot_option env w ?dp full label arguments g
        = Some (Inr (word_of_nat (fe_xtoi env (drop 4 n)), remember_option (fe_pool env) full arguments g))"
    then obtain n where n: "boot_entry (vars w) n label ?dp arguments \<and> entry_number w label ?dp arguments = Some (word_of_nat (fe_xtoi env (drop 4 n)))"
        "find_boot_option env w ?dp full label arguments g
         = Some (Inr (word_of_nat (fe_xtoi env (drop 4 n)), remember_option (fe_pool env) full arguments g))" by blast
    show ?thesis using n(1) good run n(2) put_first_eq [OF pool len] ro by (auto simp add: Let_def)
  next
    assume n: "(\<nexists>n. boot_entry (vars w) n label ?dp arguments) \<and>
        find_boot_option env w ?dp full label arguments g = Some (Inl (Status EFI_NOT_FOUND))"
    obtain st' g' w' where a: "add_boot_option env ?dp full label arguments (g, w) = (st', g', w')" by (metis prod_cases3)
    have "add_to_boot_list env dirname filename label arguments (g, w) = Some (Inr (EFI_NOT_FOUND, g', w'))"
      using run n a by simp
    with add_boot_option_outcome [OF pool good a] n show ?thesis by blast
  qed
qed

text \<open>Adding the same option again only confirms it.\<close>

lemma boot_name_varname: "is_boot_name (boot_varname i)"
proof -
  have "isxdigit (hexmap ! k)" if "k < 16" for k
  proof -
    have "k \<in> set [0..<16]" using that by simp
    moreover have "list_all (\<lambda>k. isxdigit (hexmap ! k)) [0..<16]" by code_simp
    ultimately show ?thesis by (simp only: list_all_iff)
  qed
  then show ?thesis by (simp add: is_boot_name_def boot_varname_def)
qed

lemma add_to_boot_list_again:
  assumes pool: "\<forall>n. fe_pool env n" and good: "good w" and r: "readable (vars w) label (hard_drive_part full) arguments"
    and path: "fe_FileDevicePath env (esp_path dirname filename) = Some full" and len: "length (bootorder g) < 65535"
    and run: "add_to_boot_list env dirname filename label arguments (g, w) = Some (Inr (st, g', w'))"
    and did: "st = EFI_SUCCESS \<or> vars w' \<noteq> vars w"
  shows "\<exists>g''. add_to_boot_list env dirname filename label arguments (g', w') = Some (Inr (EFI_SUCCESS, g'', w'))
      \<and> bootorder g'' = bootorder g'"
proof -
  let ?dp = "hard_drive_part full"
  have len1: "length (bootorder g) < 65536" using len by simp
  have eq: "\<exists>st1 g1 w1. add_to_boot_list env dirname filename label arguments (g, w) = Some (Inr (st1, g1, w1)) \<and> P st1 g1 w1
      \<Longrightarrow> P st g' w'" for P using run by auto
  note first = eq [OF add_to_boot_list_outcome [OF pool good r path len1]]
  then have good': "good w'" by blast
  from first consider (found) n where "w' = w" "entry_number w label ?dp arguments = Some (word_of_nat (fe_xtoi env (drop 4 n)))"
      "bootorder g' = word_of_nat (fe_xtoi env (drop 4 n)) # remove1 (word_of_nat (fe_xtoi env (drop 4 n))) (bootorder g)"
      "boot_entry (vars w) n label ?dp arguments"
    | (added) i a where "\<nexists>n. boot_entry (vars w) n label ?dp arguments" "i \<le> 0xffff" "bootorder g' = word_of_nat i # bootorder g"
      "vars w' = (vars w)((boot_varname i, GV_GUID) \<mapsto> (a, option_bytes label ?dp arguments))"
    using did by (auto simp add: Let_def)
  then show ?thesis
  proof cases
    case found
    have l: "length (bootorder g') < 65536" using found(3) len by (auto simp add: length_remove1)
    from add_to_boot_list_outcome [OF pool good' r [folded found(1)] path l]
    show ?thesis using found by (auto simp add: Let_def)
  next
    case added
    let ?v = "boot_varname i"
    have only: "n = ?v" if "boot_entry (vars w') n label ?dp arguments" for n
      using that added(1,4) by (auto simp add: boot_entry_def split: if_splits)
    have r': "readable (vars w') label ?dp arguments"
      using r added(4) entry_check_self by (auto simp add: readable_def)
    have has: "boot_entry (vars w') ?v label ?dp arguments"
      using added(4) boot_name_varname entry_check_self by (auto simp add: boot_entry_def)
    have x: "fe_xtoi env (drop 4 ?v) = i" by (rule xtoi_number [OF added(2)])
    have l: "length (bootorder g') < 65536" using added(3) len by simp
    from add_to_boot_list_outcome [OF pool good' r' path l] has
    obtain g'' n where "add_to_boot_list env dirname filename label arguments (g', w') = Some (Inr (EFI_SUCCESS, g'', w'))"
        "boot_entry (vars w') n label ?dp arguments"
        "bootorder g'' = word_of_nat (fe_xtoi env (drop 4 n)) # remove1 (word_of_nat (fe_xtoi env (drop 4 n))) (bootorder g')"
      unfolding Let_def by blast
    moreover from this(2) have "n = ?v" by (rule only)
    ultimately show ?thesis using x added(3) by simp
  qed
qed

end

section \<open>A firmware on the mock store\<close>

text \<open>
  The enumeration as the UEFI specification describes it, over all variables of the mock store,
  and a hexadecimal reader.
\<close>

definition stored_keys :: "mock_state \<Rightarrow> (string \<times> guid) list" where
  "stored_keys w = map mv_key (mock_variables w)"

definition store_next :: "mock_state \<Rightarrow> nat \<Rightarrow> string \<Rightarrow> guid \<Rightarrow> name_out" where
  "store_next w sz n g =
     (case (if n = [] then stored_keys w else drop 1 (dropWhile (\<lambda>k. k \<noteq> (n, g)) (stored_keys w))) of
        [] \<Rightarrow> (EFI_NOT_FOUND, sz, n, g)
      | (m, h) # _ \<Rightarrow>
          if sz < 2 * (length m + 1) then (EFI_BUFFER_TOO_SMALL, 2 * (length m + 1), n, g)
          else (EFI_SUCCESS, 2 * (length m + 1), m, h))"

definition hex_digit :: "char \<Rightarrow> nat" where
  "hex_digit c = (let x = of_char c in if x < 58 then x - 48 else if x < 71 then x - 55 else x - 87)"

definition hex_value :: "string \<Rightarrow> nat" where
  "hex_value s = foldl (\<lambda>v c. 16 * v + hex_digit c) 0 s"

definition store_env :: "(wstr \<Rightarrow> dp_node list option) \<Rightarrow> mock_state fb_env" where
  "store_env dp =
     \<lparr>fe_rt = host_rt, fe_GetNextVariableName = store_next,
      fe_LibGetVariable = (\<lambda>w n g. map_option snd (mock_vars w (n, g))),
      fe_LibDeleteVariable = (\<lambda>w n g. del_variable host_rt w n g),
      fe_FileDevicePath = dp, fe_xtoi = hex_value, fe_pool = (\<lambda>n. True)\<rparr>"

lemma store_env_fields [simp]:
  "fe_rt (store_env dp) = host_rt" "fe_GetNextVariableName (store_env dp) = store_next"
  "fe_LibGetVariable (store_env dp) w n g = map_option snd (mock_vars w (n, g))"
  "fe_LibDeleteVariable (store_env dp) w n g = del_variable host_rt w n g"
  "fe_FileDevicePath (store_env dp) = dp" "fe_xtoi (store_env dp) = hex_value" "fe_pool (store_env dp) = (\<lambda>n. True)"
  by (simp_all add: store_env_def)

lemma hex_value_varname: "i \<le> 0xffff \<Longrightarrow> hex_value (drop 4 (boot_varname i)) = i"
proof -
  assume i: "i \<le> 0xffff"
  have d: "hex_digit (hexmap ! k) = k" if "k < 16" for k
  proof -
    have "k \<in> set [0..<16]" using that by simp
    moreover have "list_all (\<lambda>k. hex_digit (hexmap ! k) = k) [0..<16]" by code_simp
    ultimately show ?thesis by (simp only: list_all_iff)
  qed
  have b: "i div 4096 mod 16 = i div 4096" using i by simp
  have "16 * (i div 4096) + i div 256 mod 16 = i div 256"
    using div_mult_mod_eq [of "i div 256" 16] by (simp add: div_mult2_eq [symmetric])
  moreover have "16 * (i div 256) + i div 16 mod 16 = i div 16"
    using div_mult_mod_eq [of "i div 16" 16] by (simp add: div_mult2_eq [symmetric])
  moreover have "16 * (i div 16) + i mod 16 = i" by (simp add: mult.commute)
  moreover have "hex_value (drop 4 (boot_varname i))
      = 16 * (16 * (16 * (i div 4096 mod 16) + i div 256 mod 16) + i div 16 mod 16) + i mod 16"
    by (simp add: boot_varname_def hex_value_def d)
  ultimately show ?thesis by (simp only: b)
qed

lemma dropWhile_nth:
  "distinct ks \<Longrightarrow> i < length ks \<Longrightarrow> dropWhile (\<lambda>k. k \<noteq> ks ! i) ks = drop i ks"
proof (induction ks arbitrary: i)
  case (Cons k ks)
  then show ?case by (cases i) auto
qed simp

lemma store_next_step:
  assumes good: "mock_named w" and i: "i \<le> length (stored_keys w)"
    and v: "visited (stored_keys w) g i = (n, g')"
  shows "store_next w sz n g' =
     (if i < length (stored_keys w)
      then (case stored_keys w ! i of (m, h) \<Rightarrow>
              if sz < 2 * (length m + 1) then (EFI_BUFFER_TOO_SMALL, 2 * (length m + 1), n, g')
              else (EFI_SUCCESS, 2 * (length m + 1), m, h))
      else (EFI_NOT_FOUND, sz, n, g'))"
proof -
  have dist: "distinct (stored_keys w)" and named: "\<forall>(m, h)\<in>set (stored_keys w). m \<noteq> []"
    using good by (auto simp add: mock_named_def mock_good_def stored_keys_def mv_key_def)
  have "(if n = [] then stored_keys w else drop 1 (dropWhile (\<lambda>k. k \<noteq> (n, g')) (stored_keys w))) = drop i (stored_keys w)"
  proof (cases i)
    case 0
    then show ?thesis using v by simp
  next
    case (Suc j)
    then have k: "stored_keys w ! j = (n, g')" "j < length (stored_keys w)" using v i by simp_all
    then have "n \<noteq> []" using named nth_mem [of j "stored_keys w"] by auto
    then show ?thesis using dropWhile_nth [OF dist k(2)] k(1) Suc by simp
  qed
  then show ?thesis
  proof (cases "i < length (stored_keys w)")
    case True
    then show ?thesis using \<open>_ = drop i (stored_keys w)\<close>
      by (simp add: store_next_def Cons_nth_drop_Suc [symmetric] split: prod.split)
  qed (simp add: store_next_def)
qed

interpretation store: boot_firmware "store_env dp" mock_vars mock_named "\<lambda>w g. stored_keys w" for dp
proof (rule boot_firmware.intro)
  have del: "mock_named w' \<and> (\<forall>k. k \<noteq> (n, g) \<longrightarrow> mock_vars w' k = mock_vars w k)"
    if g: "mock_named w" and d: "del_variable host_rt w n g = (st, w')" for w w' n g st
  proof -
    have s: "SetVariable host_rt w n g 0 [] = (st, w')" using d by (simp add: del_variable_def set_variable_def)
    show ?thesis using mock_names.set_good [OF g s] mock_names.set_frame [OF g s] by blast
  qed
  show "variable_names (fe_rt (store_env dp)) mock_vars mock_named (fe_GetNextVariableName (store_env dp)) (\<lambda>w g. stored_keys w)"
  proof (simp only: store_env_fields, rule variable_names.intro [OF mock_services_named], unfold_locales, goal_cases)
    case (1 w i g n g' m h sz)
    then show ?case using store_next_step [OF 1(1) less_imp_le [OF 1(2)] 1(3)] by simp
  next
    case (2 w i g n g' m h sz)
    then show ?case using store_next_step [OF 2(1) less_imp_le [OF 2(2)] 2(3)] by simp
  next
    case (3 w g n g' sz)
    then show ?case using store_next_step [OF 3(1) order_refl 3(2)] by simp
  next
    case (4 w k g)
    then show ?case by (auto simp add: stored_keys_def mock_vars_entries dom_entries)
  qed
  show "boot_firmware_axioms (store_env dp) mock_vars mock_named (\<lambda>w g. stored_keys w)"
  proof (unfold_locales, goal_cases)
    case (2 w n g st w')
    then show ?case using del by simp
  next
    case (3 w k g)
    then show ?case by (auto simp add: stored_keys_def mock_vars_entries dom_entries)
  qed (simp_all add: hex_value_varname)
qed

section \<open>Properties\<close>


text \<open>An empty store, a file on a hard drive: the option becomes Boot0000 and heads the order.\<close>

definition demo_path :: "dp_node list" where
  "demo_path = [(1, 1, [0]), (4, 1, [7, 7]), (4, 4, [0x61, 0, 0, 0])]"

definition demo_store :: "mock_state fb_env" where
  "demo_store = store_env (\<lambda>p. if p = esp_path (wide ''os'') (wide ''a.efi'') then Some demo_path else None)"

lemma demo_boot_firmware: "boot_firmware demo_store mock_vars mock_named (\<lambda>w g. stored_keys w)"
  unfolding demo_store_def by (rule store.boot_firmware_axioms)

lemma empty_store_named: "mock_named empty_store"
  using empty_store_good by (simp add: mock_named_def empty_store_def)

lemma empty_store_entries: "readable (mock_vars empty_store) l d a" "\<not> boot_entry (mock_vars empty_store) n l d a"
  by (simp_all add: readable_def boot_entry_def empty_store_good)

lemma demo_path_eq: "fe_FileDevicePath demo_store (esp_path (wide ''os'') (wide ''a.efi'')) = Some demo_path"
  and demo_pool: "\<forall>n. fe_pool demo_store n"
  and demo_order: "length (bootorder fb_initial) < 65535" "bootorder fb_initial = []"
  by (simp_all add: demo_store_def fb_initial_def)

lemma demo_first_call:
  "\<exists>g' w'. add_to_boot_list demo_store (wide ''os'') (wide ''a.efi'') (wide ''OS'') (wide ''x'') (fb_initial, empty_store)
     = Some (Inr (EFI_NOT_FOUND, g', w')) \<and> bootorder g' = [0] \<and> mock_vars w' \<noteq> mock_vars empty_store"
proof -
  let ?l = "wide ''OS''" and ?a = "wide ''x''" and ?dp = "hard_drive_part demo_path"
  have find: "find_boot_option demo_store empty_store ?dp demo_path ?l ?a fb_initial = Some (Inl (Status EFI_NOT_FOUND))"
    using boot_firmware.find_boot_option_outcome [OF demo_boot_firmware demo_pool empty_store_named empty_store_entries(1)]
      empty_store_entries(2) by blast
  have mk: "make_full_path (fe_pool demo_store) (wide ''os'') (wide ''a.efi'') = Inr (esp_path (wide ''os'') (wide ''a.efi''))"
    using demo_pool by (simp add: make_full_path_def esp_path_def Let_def)
  have free: "free_number (\<lambda>n. fe_LibGetVariable demo_store empty_store n GV_GUID \<noteq> None) 0 = Some 0"
    by (simp add: free_number.simps demo_store_def empty_store_good)
  define d where "d = option_bytes ?l ?dp ?a"
  have d: "d \<noteq> []" by (simp add: d_def option_bytes_def device_path_bytes_def)
  have set: "SetVariable (fe_rt demo_store) empty_store (boot_varname 0) GV_GUID UEFI_VAR_NV_BS_RT d
      = (EFI_SUCCESS, empty_store\<lparr>mock_variables := [\<lparr>mv_name = boot_varname 0, mv_guid = GV_GUID, mv_attrs = UEFI_VAR_NV_BS_RT, mv_data = d\<rparr>]\<rparr>)"
    using d by (simp add: demo_store_def host_rt_def mock_rt_def mock_set_variable_def empty_store_def mock_set_new_def
        mock_new_variable_def mock_sv_adjust_usage_data_def find_limits_def mock_insert_def boot_varname_def var_attr_defs)
  obtain g' where add: "add_boot_option demo_store ?dp demo_path ?l ?a (fb_initial, empty_store)
      = (EFI_SUCCESS, g', empty_store\<lparr>mock_variables := [\<lparr>mv_name = boot_varname 0, mv_guid = GV_GUID, mv_attrs = UEFI_VAR_NV_BS_RT, mv_data = d\<rparr>]\<rparr>)"
      "bootorder g' = [0]"
    using demo_pool free set
    by (simp add: add_boot_option_def d_def [symmetric] fb_initial_def remember_option_def Let_def)
  have vars: "mock_vars (empty_store\<lparr>mock_variables := [\<lparr>mv_name = boot_varname 0, mv_guid = GV_GUID, mv_attrs = UEFI_VAR_NV_BS_RT, mv_data = d\<rparr>]\<rparr>) (boot_varname 0, GV_GUID)
      \<noteq> mock_vars empty_store (boot_varname 0, GV_GUID)"
    by (simp add: mock_vars_def mv_key_def empty_store_def)
  have "add_to_boot_list demo_store (wide ''os'') (wide ''a.efi'') ?l ?a (fb_initial, empty_store)
      = Some (Inr (EFI_NOT_FOUND, g', empty_store\<lparr>mock_variables := [\<lparr>mv_name = boot_varname 0, mv_guid = GV_GUID, mv_attrs = UEFI_VAR_NV_BS_RT, mv_data = d\<rparr>]\<rparr>))"
    unfolding add_to_boot_list_def prod.case mk sum.case demo_path_eq option.case option_device_path_eq [OF demo_pool] find
    by (simp add: add)
  with add(2) vars show ?thesis by fastforce
qed


text \<open>
  Adding an option that the first call found, or wrote, is confirmed by a second call: it
  succeeds, writes nothing and leaves the order as it is. There are no duplicate entries.
\<close>

theorem add_to_boot_list_idempotent:
  assumes "boot_firmware env vars good listed" and "\<forall>n. fe_pool env n" and "good w"
    and "readable (vars w) label (hard_drive_part full) arguments"
    and "fe_FileDevicePath env (esp_path dirname filename) = Some full" and "length (bootorder g) < 65535"
    and "add_to_boot_list env dirname filename label arguments (g, w) = Some (Inr (st, g', w'))"
    and "st = EFI_SUCCESS \<or> vars w' \<noteq> vars w"
  shows "\<exists>g''. add_to_boot_list env dirname filename label arguments (g', w') = Some (Inr (EFI_SUCCESS, g'', w'))
      \<and> bootorder g'' = bootorder g'"
  by (rule boot_firmware.add_to_boot_list_again [OF assms])

lemma add_to_boot_list_idempotent_witness:
  "\<exists>g' w' g''. add_to_boot_list demo_store (wide ''os'') (wide ''a.efi'') (wide ''OS'') (wide ''x'') (fb_initial, empty_store)
       = Some (Inr (EFI_NOT_FOUND, g', w'))
     \<and> add_to_boot_list demo_store (wide ''os'') (wide ''a.efi'') (wide ''OS'') (wide ''x'') (g', w') = Some (Inr (EFI_SUCCESS, g'', w'))
     \<and> bootorder g'' = [0]"
proof -
  obtain g' w' where r: "add_to_boot_list demo_store (wide ''os'') (wide ''a.efi'') (wide ''OS'') (wide ''x'') (fb_initial, empty_store)
      = Some (Inr (EFI_NOT_FOUND, g', w'))" "bootorder g' = [0]" "mock_vars w' \<noteq> mock_vars empty_store"
    using demo_first_call by blast
  from add_to_boot_list_idempotent [OF demo_boot_firmware demo_pool empty_store_named empty_store_entries(1) demo_path_eq
      demo_order(1) r(1)] r(3)
  show ?thesis using r(1,2) by auto
qed

text \<open>
  \<open>check_masked_boot_option\<close> recognises exactly the form in which the firmware hides an entry:
  attributes active and hidden, the vendor node and an end node before the device path, its size
  in the length field, and the label, device path and arguments of the option; only the top bits
  of the two type bytes are free. The end node must have the length of one.
\<close>

theorem masked_option_recognised:
  assumes "label \<noteq> []" and "0 \<notin> set label" and "DevicePathSize dp + 24 < 65536"
    and "length c < 2 ^ 30" and "length c = length (option_bytes label dp arguments) + 24"
    and "get_le c (8 + 2 * length label + 22) 2 = Inr 4"
  shows "check_masked_boot_option c (length c) (option_bytes label dp arguments @ [0, 0]) (length (option_bytes label dp arguments)) = Inr False
     \<longleftrightarrow> (\<exists>t u. dp_type t = 1 \<and> dp_type u = 0x7f \<and> c = masked_option_bytes t u label dp arguments)"
  using assms by (rule masked_option_eq)

lemma masked_option_recognised_witness:
  "check_masked_boot_option (masked_option_bytes 1 0x7f [0x61] [(4, 4, [])] []) 42
     (option_bytes [0x61] [(4, 4, [])] [] @ [0, 0]) 18 = Inr False"
proof -
  have l: "length (masked_option_bytes 1 0x7f [0x61] [(4, 4, [])] []) = 42" "length (option_bytes [0x61] [(4, 4, [])] []) = 18"
      "get_le (masked_option_bytes 1 0x7f [0x61] [(4, 4, [])] []) 32 2 = Inr 4"
    by (simp_all add: masked_option_bytes_def option_bytes_def DevicePathSize_def device_path_bytes_def dp_node_bytes_def
        masked_node_def ami_masked_device_path_guid_def mk_guid_def get_le_def get_bytes_def le_bytes_numeral)
  have ex: "\<exists>t u. dp_type t = 1 \<and> dp_type u = 0x7f \<and> masked_option_bytes 1 0x7f [0x61] [(4, 4, [])] [] = masked_option_bytes t u [0x61] [(4, 4, [])] []"
    by (rule exI [of _ 1], rule exI [of _ "0x7f"]) (simp add: dp_type_def)
  show ?thesis
    using masked_option_recognised [of "[0x61]" "[(4, 4, [])]" "masked_option_bytes 1 0x7f [0x61] [(4, 4, [])] []" "[]"] l ex
    by (simp add: DevicePathSize_def device_path_bytes_def dp_node_bytes_def)
qed

text \<open>
  The entry written for a label of 8-bit characters is read back by load-options.c:
  \<open>get_load_option_optional_data\<close> on the stored bytes finds exactly the arguments.
\<close>

theorem added_option_parsed:
  assumes "label \<noteq> []" and "0 \<notin> set label" and "\<forall>c\<in>set label. unat c < 256" and "\<forall>nd\<in>set dp. node_ok nd"
    and "DevicePathSize dp < 65536" and "unat n = length (option_bytes label dp arguments)"
  shows "get_load_option_optional_data (option_bytes label dp arguments @ post) 0 n
     = Some (Inr (if arguments = [] then (None, 0)
         else (Some (length (option_bytes label dp [])), word_of_nat (2 * length arguments))))"
proof -
  have desc: "wstr_bytes l @ [0, 0] = description_bytes (map ucast l)" if "\<forall>c\<in>set l. unat c < 256" for l :: wstr
    using that
  proof (induction l)
    case (Cons c l)
    have b: "word_of_nat (unat c) = (ucast c :: u8)" by (rule word_unat_eq_iff [THEN iffD2]) (simp add: unsigned_ucast_eq unat_of_nat take_bit_eq_mod)
    have "le_bytes 2 (unat c) = [ucast c, 0]" using Cons.prems b by (simp add: le_bytes_numeral)
    then show ?case using Cons by (simp add: description_bytes_def)
  qed (simp add: description_bytes_def)
  have e: "option_bytes label dp a = load_option_bytes (le_bytes 4 1) (map ucast label) dp (wstr_bytes a)" for a
    using desc [OF assms(3)] by (simp add: option_bytes_def load_option_bytes_def LOAD_OPTION_ACTIVE_def DevicePathSize_def)
  have "(ucast c :: u8) \<noteq> 0" if "c \<in> set label" for c
  proof
    assume z: "(ucast c :: u8) = 0"
    have "unat (ucast c :: u8) = unat c mod 256" by (simp add: unsigned_ucast_eq take_bit_eq_mod)
    then have "unat c = 0" using z assms(3) that by simp
    then show False using that assms(2) by (simp add: unat_eq_zero)
  qed
  then have z: "0 \<notin> set (map ucast label :: u8 list)" by auto
  have n: "unat n = length (load_option_bytes (le_bytes 4 1) (map ucast label) dp (wstr_bytes arguments))"
    using assms(6) by (simp only: e)
  have ne: "wstr_bytes arguments = [] \<longleftrightarrow> arguments = []" by (cases arguments) (simp_all add: le_bytes_numeral)
  show ?thesis
    using load_option_eq [OF _ z assms(4) assms(5) [unfolded DevicePathSize_def] n, of "[]" post] assms(1)
    unfolding e ne length_wstr_bytes by simp
qed

lemma added_option_parsed_witness:
  "get_load_option_optional_data (option_bytes [0x61] [(4, 4, [])] [0x78] @ []) 0 20 = Some (Inr (Some 18, 2))"
  using added_option_parsed [of "[0x61]" "[(4, 4, [])]" 20 "[0x78]" "[]"]
  by (simp add: option_bytes_def DevicePathSize_def device_path_bytes_def dp_node_bytes_def node_ok_def)

end
