(* ===== verification/FileProtocol.thy ===== *)
theory FileProtocol
  imports Ucs2
begin

text \<open>
  The firmware's file protocol, as the programs use it: a record of functions on the firmware state
  \<open>'w\<close> and on handles \<open>'h\<close> of open files and directories.
\<close>

record file_info =
  fi_FileSize :: nat
  fi_Attribute :: u64
  fi_FileName :: wstr

definition EFI_FILE_DIRECTORY :: u64 where "EFI_FILE_DIRECTORY = 0x10"

text \<open>
  \<open>GetInfo\<close> and \<open>Read\<close> are given the size of the buffer, 0 for none, and return the size they
  report. \<open>ReadDir\<close> is \<open>Read\<close> on the handle of a directory.
\<close>

record ('w, 'h) file_protocol =
  ff_HandleProtocol :: "'w \<Rightarrow> efi_status"
  ff_OpenVolume :: "'w \<Rightarrow> efi_status \<times> 'h option \<times> 'w"
  ff_Open :: "'w \<Rightarrow> 'h \<Rightarrow> wstr \<Rightarrow> efi_status \<times> 'h option \<times> 'w"
  ff_Close :: "'w \<Rightarrow> 'h \<Rightarrow> 'w"
  ff_SetPosition :: "'w \<Rightarrow> 'h \<Rightarrow> nat \<Rightarrow> efi_status \<times> 'w"
  ff_GetInfo :: "'w \<Rightarrow> 'h \<Rightarrow> nat \<Rightarrow> efi_status \<times> nat \<times> file_info"
  ff_Read :: "'w \<Rightarrow> 'h \<Rightarrow> nat \<Rightarrow> efi_status \<times> bytes \<times> 'w"
  ff_ReadDir :: "'w \<Rightarrow> 'h \<Rightarrow> nat \<Rightarrow> efi_status \<times> nat \<times> file_info \<times> 'w"

end
