(* ===== verification/FallbackMain.thy ===== *)
theory FallbackMain
  imports FallbackSpec FileProtocol
begin

text \<open>
  fallback.c: reading the boot.csv files below \EFI and the main program. A text is a buffer of
  16-bit units that the code splits in place; every read and write is checked against its end.
  Files and directories are reached through the firmware's file protocol.
\<close>

section \<open>Reading a file\<close>

text \<open>The size of a file; \<open>None\<close> when the caller's variable is left as it was.\<close>

definition get_file_size :: "('w, 'h) file_protocol \<Rightarrow> (nat \<Rightarrow> bool) \<Rightarrow> 'w \<Rightarrow> 'h \<Rightarrow> efi_status + nat option" where
  "get_file_size ff pool w fh =
     (case ff_GetInfo ff w fh 0 of (st, bs, _) \<Rightarrow>
        if EFI_ERROR st \<and> st \<noteq> EFI_BUFFER_TOO_SMALL then Inl st
        else if bs = 0 then Inr None
        else if \<not> pool bs then Inl EFI_OUT_OF_RESOURCES
        else case ff_GetInfo ff w fh bs of (st, _, fi) \<Rightarrow>
          if EFI_ERROR st then Inl st else Inr (Some (fi_FileSize fi)))"

text \<open>
  The buffer has two zero bytes more than the file; what is read goes through \<open>fh\<close>, the
  size comes from the handle opened by the path.
\<close>

definition read_file ::
  "('w, 'h) file_protocol \<Rightarrow> (nat \<Rightarrow> bool) \<Rightarrow> 'w \<Rightarrow> 'h \<Rightarrow> wstr \<Rightarrow> bytes res \<times> 'w"
where
  "read_file ff pool w fh fullpath =
     (case ff_Open ff w fh fullpath of
        (st, fh2, w) \<Rightarrow>
          if EFI_ERROR st then (Inl (Status st), w)
          else case fh2 of None \<Rightarrow> (Inl Fault, w)
          | Some fh2 \<Rightarrow>
          (case get_file_size ff pool w fh2 of
             Inl st \<Rightarrow> (Inl (Status st), ff_Close ff w fh2)
           | Inr sz \<Rightarrow>
               let len = (case sz of None \<Rightarrow> 0 | Some n \<Rightarrow> n)
               in if 1024 * 4096 < len then (Inl (Status EFI_BAD_BUFFER_SIZE), ff_Close ff w fh2)
                  else if \<not> pool (len + 2) then (Inl (Status EFI_OUT_OF_RESOURCES), ff_Close ff w fh2)
                  else (case ff_Read ff w fh len of (st, data, w) \<Rightarrow>
                    if EFI_ERROR st then (Inl (Status st), ff_Close ff w fh2)
                    else (Inr (written_over (replicate (len + 2) 0) (take len data)), ff_Close ff w fh2))))"

section \<open>The lines of a boot.csv file\<close>

definition set_unit :: "wstr \<Rightarrow> nat \<Rightarrow> u16 \<Rightarrow> wstr res" where
  "set_unit buf i c = (if i < length buf then Inr (buf[i := c]) else Inl Fault)"

fun read_string :: "wstr \<Rightarrow> wstr res" where
  "read_string [] = Inl Fault"
| "read_string (c # s) = (if c = 0 then Inr [] else bindR (read_string s) (\<lambda>r. Inr (c # r)))"

text \<open>
  The three fields of the line at \<open>csv\<close>, cut off in place: the status, the buffer, and the
  positions of the label and of the arguments.
\<close>

definition COMMA :: wstr where "COMMA = [0x2C, 0]"
definition NEWLINES :: wstr where "NEWLINES = [0x0D, 0x0A, 0]"

definition split_stanza :: "wstr \<Rightarrow> nat \<Rightarrow> (efi_status \<times> wstr \<times> nat \<times> nat) res" where
  "split_stanza buf csv =
     bindR (StrCSpn (drop csv buf) COMMA) (\<lambda>comma0.
     if comma0 = 0 then Inr (EFI_INVALID_PARAMETER, buf, 0, 0)
     else bindR (set_unit buf (csv + comma0) 0) (\<lambda>buf.
     let label = csv + comma0 + 1
     in bindR (StrCSpn (drop label buf) COMMA) (\<lambda>comma1.
     if comma1 = 0 then Inr (EFI_INVALID_PARAMETER, buf, 0, 0)
     else bindR (set_unit buf (label + comma1) 0) (\<lambda>buf.
     let arguments = csv + comma0 + 1 + comma1 + 1
     in bindR (StrCSpn (drop arguments buf) COMMA) (\<lambda>comma2.
     bindR (set_unit buf (arguments + comma2) 0) (\<lambda>buf. Inr (EFI_SUCCESS, buf, label, arguments)))))))"

definition populate_stanza ::
  "'w fb_env \<Rightarrow> wstr \<Rightarrow> wstr \<Rightarrow> nat \<Rightarrow> fb_globals \<times> 'w \<Rightarrow> (efi_status \<times> wstr \<times> fb_globals \<times> 'w) res option"
where
  "populate_stanza env dirname buf csv gw =
     (case split_stanza buf csv of
        Inl e \<Rightarrow> Some (Inl e)
      | Inr (st, buf, label, arguments) \<Rightarrow>
          if EFI_ERROR st then Some (Inr (st, buf, gw))
          else (case bindR (read_string (drop csv buf)) (\<lambda>f. bindR (read_string (drop label buf)) (\<lambda>l.
                       bindR (read_string (drop arguments buf)) (\<lambda>a. Inr (f, l, a)))) of
                  Inl e \<Rightarrow> Some (Inl e)
                | Inr (f, l, a) \<Rightarrow>
                    bindO (add_to_boot_list env dirname f l a gw) (\<lambda>(_, gw). Some (Inr (EFI_SUCCESS, buf, gw)))))"

text \<open>The number of line ends at the start of the text.\<close>

fun newlines :: "wstr \<Rightarrow> nat res" where
  "newlines [] = Inl Fault"
| "newlines (c # s) = (if c = 0x0D \<or> c = 0x0A then bindR (newlines s) (\<lambda>n. Inr (Suc n)) else Inr 0)"

definition unit_at :: "wstr \<Rightarrow> nat \<Rightarrow> u16 res" where
  "unit_at buf i = (if i < length buf then Inr (buf ! i) else Inl Fault)"

text \<open>The start and the length of the next line.\<close>

definition next_line :: "wstr \<Rightarrow> nat \<Rightarrow> (nat \<times> nat \<times> u16) res" where
  "next_line buf start =
     bindR (newlines (drop start buf)) (\<lambda>k. bindR (StrCSpn (drop (start + k) buf) NEWLINES) (\<lambda>l.
     bindR (unit_at buf (start + k + l)) (\<lambda>c. Inr (start + k, l, c))))"

partial_function (option) csv_loop ::
  "'w fb_env \<Rightarrow> wstr \<Rightarrow> wstr \<Rightarrow> nat \<Rightarrow> fb_globals \<times> 'w \<Rightarrow> (fb_globals \<times> 'w) res option"
where
  "csv_loop env dirname buf start gw =
     (case unit_at buf start of
        Inl e \<Rightarrow> Some (Inl e)
      | Inr c \<Rightarrow>
          if c = 0 then Some (Inr gw)
          else (case next_line buf start of
                  Inl e \<Rightarrow> Some (Inl e)
                | Inr (start, l, c) \<Rightarrow>
                    if l = 0 then (if c = 0 then Some (Inr gw) else csv_loop env dirname buf (start + 1) gw)
                    else (case populate_stanza env dirname (buf[start + l := 0]) start gw of
                            None \<Rightarrow> None
                          | Some (Inl e) \<Rightarrow> Some (Inl e)
                          | Some (Inr (_, buf, gw)) \<Rightarrow> csv_loop env dirname (buf[start + l := c]) (start + l) gw)))"

declare csv_loop.simps [code]

text \<open>A byte order mark at the start is skipped.\<close>

definition process_csv ::
  "'w fb_env \<Rightarrow> wstr \<Rightarrow> wstr \<Rightarrow> fb_globals \<times> 'w \<Rightarrow> (fb_globals \<times> 'w) res option"
where
  "process_csv env dirname buf gw =
     (case unit_at buf 0 of
        Inl e \<Rightarrow> Some (Inl e)
      | Inr c \<Rightarrow> csv_loop env dirname buf (if c = 0xfeff then 1 else 0) gw)"

definition try_boot_csv ::
  "'w fb_env \<Rightarrow> ('w, 'h) file_protocol \<Rightarrow> 'h \<Rightarrow> wstr \<Rightarrow> wstr \<Rightarrow> fb_globals \<times> 'w
   \<Rightarrow> (efi_status \<times> fb_globals \<times> 'w) res option"
where
  "try_boot_csv env ff fh dirname filename = (\<lambda>(g, w).
     case make_full_path (fe_pool env) dirname filename of
       Inl (Status st) \<Rightarrow> Some (Inr (st, g, w))
     | Inl Fault \<Rightarrow> Some (Inl Fault)
     | Inr fullpath \<Rightarrow>
         (case read_file ff (fe_pool env) w fh fullpath of
            (Inl (Status st), w) \<Rightarrow> Some (Inr (st, g, w))
          | (Inl Fault, w) \<Rightarrow> Some (Inl Fault)
          | (Inr b, w) \<Rightarrow>
              bindO (process_csv env dirname (order_entries b) (g, w)) (\<lambda>gw. Some (Inr (EFI_SUCCESS, gw)))))"

section \<open>Finding the boot.csv files\<close>

text \<open>The names of the two files in a directory, as they are spelled there.\<close>

partial_function (option) csv_names ::
  "('w, 'h) file_protocol \<Rightarrow> (nat \<Rightarrow> bool) \<Rightarrow> wstr \<Rightarrow> 'h \<Rightarrow> wstr option \<Rightarrow> wstr option \<Rightarrow> 'w
   \<Rightarrow> ((wstr option \<times> wstr option) res \<times> 'w) option"
where
  "csv_names ff pool arch fh bootcsv bootarchcsv w =
     (case ff_ReadDir ff w fh 0 of (st, bs, _, w) \<Rightarrow>
        if EFI_ERROR st \<and> st \<noteq> EFI_BUFFER_TOO_SMALL then Some (Inl (Status st), w)
        else if bs = 0 then Some (Inr (bootcsv, bootarchcsv), w)
        else if \<not> pool bs then Some (Inl (Status EFI_OUT_OF_RESOURCES), w)
        else case ff_ReadDir ff w fh bs of (st, bs, fi, w) \<Rightarrow>
          if EFI_ERROR st then Some (Inl (Status st), w)
          else if bs = 0 then Some (Inr (bootcsv, bootarchcsv), w)
          else (case bindR (StrCaseCmp (fi_FileName fi @ [0]) (wide ''boot.csv'' @ [0])) (\<lambda>a.
                     bindR (StrCaseCmp (fi_FileName fi @ [0]) (wide ''boot'' @ arch @ wide ''.csv'' @ [0])) (\<lambda>b. Inr (a = 0, b = 0))) of
                  Inl e \<Rightarrow> Some (Inl e, w)
                | Inr (isb, isa) \<Rightarrow>
                    let copy = (if pool (2 * (length (fi_FileName fi) + 1)) then Some (fi_FileName fi) else None)
                    in csv_names ff pool arch fh (if bootcsv = None \<and> isb then copy else bootcsv)
                         (if bootarchcsv = None \<and> isa then copy else bootarchcsv) w))"

declare csv_names.simps [code]

text \<open>Opening and processing one of them: the result has \<open>efi_status\<close> as it is afterwards.\<close>

definition open_and_try ::
  "'w fb_env \<Rightarrow> ('w, 'h) file_protocol \<Rightarrow> 'h \<Rightarrow> wstr \<Rightarrow> wstr \<Rightarrow> fb_globals \<times> 'w
   \<Rightarrow> (efi_status \<times> fb_globals \<times> 'w) res option"
where
  "open_and_try env ff fh dirname name = (\<lambda>(g, w).
     case ff_Open ff w fh name of (st, fh2, w) \<Rightarrow>
       if EFI_ERROR st then Some (Inr (st, g, w))
       else (case fh2 of None \<Rightarrow> Some (Inr (st, g, w))
             | Some fh2 \<Rightarrow> bindO (try_boot_csv env ff fh2 dirname name (g, w)) (\<lambda>(st, g, w).
                 Some (Inr (st, g, ff_Close ff w fh2)))))"

text \<open>boot.csv is for the case that there is no file for the architecture, or that it failed.\<close>

definition process_names ::
  "'w fb_env \<Rightarrow> ('w, 'h) file_protocol \<Rightarrow> 'h \<Rightarrow> wstr \<Rightarrow> wstr option \<Rightarrow> wstr option \<Rightarrow> fb_globals \<times> 'w
   \<Rightarrow> (fb_globals \<times> 'w) res option"
where
  "process_names env ff fh dirname bootcsv bootarchcsv gw =
     bindO (case bootarchcsv of
              None \<Rightarrow> Some (Inr (EFI_SUCCESS, gw))
            | Some name \<Rightarrow> open_and_try env ff fh dirname name gw) (\<lambda>(st, gw).
       case bootcsv of
         None \<Rightarrow> Some (Inr gw)
       | Some name \<Rightarrow>
           if EFI_ERROR st \<or> bootarchcsv = None
           then bindO (open_and_try env ff fh dirname name gw) (\<lambda>(_, gw). Some (Inr gw))
           else Some (Inr gw))"

definition find_boot_csv ::
  "'w fb_env \<Rightarrow> ('w, 'h) file_protocol \<Rightarrow> wstr \<Rightarrow> 'h \<Rightarrow> wstr \<Rightarrow> fb_globals \<times> 'w
   \<Rightarrow> (efi_status \<times> fb_globals \<times> 'w) res option"
where
  "find_boot_csv env ff arch fh dirname = (\<lambda>(g, w).
     case ff_GetInfo ff w fh 0 of (st, bs, _) \<Rightarrow>
       if EFI_ERROR st \<and> st \<noteq> EFI_BUFFER_TOO_SMALL then Some (Inr (st, g, w))
       else if bs = 0 then Some (Inr (EFI_SUCCESS, g, w))
       else if \<not> fe_pool env bs then Some (Inr (EFI_OUT_OF_RESOURCES, g, w))
       else case ff_GetInfo ff w fh bs of (st, _, fi) \<Rightarrow>
         if EFI_ERROR st then Some (Inr (st, g, w))
         else if fi_Attribute fi AND EFI_FILE_DIRECTORY = 0 then Some (Inr (EFI_SUCCESS, g, w))
         else (case csv_names ff (fe_pool env) arch fh None None w of
                 None \<Rightarrow> None
               | Some (Inl (Status st), w) \<Rightarrow> Some (Inr (st, g, w))
               | Some (Inl Fault, w) \<Rightarrow> Some (Inl Fault)
               | Some (Inr (bootcsv, bootarchcsv), w) \<Rightarrow>
                   bindO (process_names env ff fh dirname bootcsv bootarchcsv (g, w)) (\<lambda>gw. Some (Inr (EFI_SUCCESS, gw)))))"

text \<open>
  The directories below \EFI. The result is the status with which the loop ends, and whether it
  ended by a break; otherwise the function returns at once.
\<close>

definition skip_directory :: "file_info \<Rightarrow> bool" where
  "skip_directory fi \<longleftrightarrow> fi_Attribute fi AND EFI_FILE_DIRECTORY = 0
     \<or> fi_FileName fi = wide ''.'' \<or> fi_FileName fi = wide ''..''
     \<or> StrCaseCmp (fi_FileName fi @ [0]) (wide ''BOOT'' @ [0]) = Inr 0"

partial_function (option) directories ::
  "'w fb_env \<Rightarrow> ('w, 'h) file_protocol \<Rightarrow> wstr \<Rightarrow> 'h \<Rightarrow> 'h \<Rightarrow> fb_globals \<times> 'w
   \<Rightarrow> (bool \<times> efi_status \<times> fb_globals \<times> 'w) res option"
where
  "directories env ff arch fh fh2 gw =
     (case gw of (g, w) \<Rightarrow>
      case ff_ReadDir ff w fh2 0 of (st, bs, _, w) \<Rightarrow>
        if EFI_ERROR st \<and> st \<noteq> EFI_BUFFER_TOO_SMALL then Some (Inr (False, st, g, w))
        else if bs = 0 then Some (Inr (True, st, g, w))
        else if \<not> fe_pool env bs then Some (Inr (False, EFI_OUT_OF_RESOURCES, g, ff_Close ff (ff_Close ff w fh2) fh))
        else case ff_ReadDir ff w fh2 bs of (st, bs, fi, w) \<Rightarrow>
          if EFI_ERROR st then Some (Inr (False, st, g, ff_Close ff (ff_Close ff w fh2) fh))
          else if skip_directory fi then directories env ff arch fh fh2 (g, w)
          else case ff_Open ff w fh2 (fi_FileName fi) of (st, fh3, w) \<Rightarrow>
            if EFI_ERROR st then directories env ff arch fh fh2 (g, w)
            else (case fh3 of None \<Rightarrow> Some (Inl Fault)
                  | Some fh3 \<Rightarrow>
                      (case find_boot_csv env ff arch fh3 (fi_FileName fi) (g, w) of
                         None \<Rightarrow> None
                       | Some (Inl e) \<Rightarrow> Some (Inl e)
                       | Some (Inr (st, g, w)) \<Rightarrow>
                           if st = EFI_OUT_OF_RESOURCES then Some (Inr (True, st, g, ff_Close ff w fh3))
                           else directories env ff arch fh fh2 (g, ff_Close ff w fh3))))"

declare directories.simps [code]

definition find_boot_options ::
  "'w fb_env \<Rightarrow> ('w, 'h) file_protocol \<Rightarrow> wstr \<Rightarrow> fb_globals \<times> 'w \<Rightarrow> (efi_status \<times> fb_globals \<times> 'w) res option"
where
  "find_boot_options env ff arch = (\<lambda>(g, w).
     if EFI_ERROR (ff_HandleProtocol ff w) then Some (Inr (ff_HandleProtocol ff w, g, w))
     else case ff_OpenVolume ff w of (st, fh, w) \<Rightarrow>
       if EFI_ERROR st \<or> fh = None then Some (Inr (st, g, w))
       else let fh = the fh in case ff_Open ff w fh (wide ''EFI'') of (st, fh2, w) \<Rightarrow>
         if EFI_ERROR st \<or> fh2 = None then Some (Inr (st, g, ff_Close ff w fh))
         else let fh2 = the fh2 in case ff_SetPosition ff w fh2 0 of (st, w) \<Rightarrow>
           if EFI_ERROR st then Some (Inr (st, g, ff_Close ff (ff_Close ff w fh2) fh))
           else bindO (directories env ff arch fh fh2 (g, w)) (\<lambda>(by_break, st, g, w).
             if \<not> by_break then Some (Inr (st, g, w))
             else case (if \<not> EFI_ERROR st \<and> bootorder g \<noteq> [] then update_boot_order env g w else (st, w)) of
               (st, w) \<Rightarrow> Some (Inr (st, g, ff_Close ff (ff_Close ff w fh2) fh))))"

section \<open>Starting the first option, and the main program\<close>

text \<open>
  The boot services, the user's answers and the reset; what the program does to the outside is
  recorded as a list of events. A build can leave the questions out.
\<close>

datatype fb_event = Load_image "dp_node list" | Start_image "wstr option" nat | Set_no_reboot | Reset_system

record 'w fb_services =
  fm_loaded_image :: "'w \<Rightarrow> efi_status"
  fm_LoadImage :: "'w \<Rightarrow> dp_node list \<Rightarrow> efi_status \<times> 'w"
  fm_image_protocol :: "'w \<Rightarrow> efi_status"
  fm_StartImage :: "'w \<Rightarrow> wstr option \<Rightarrow> nat \<Rightarrow> efi_status \<times> 'w"
  fm_countdown :: "'w \<Rightarrow> int \<times> 'w"
  fm_select :: "'w \<Rightarrow> int \<times> 'w"
  fm_prefer_reset :: "'w \<Rightarrow> efi_status"
  fm_noninteractive :: bool
  fm_garbage :: bytes

text \<open>The option is started with its arguments; without the image protocol it has none.\<close>

definition try_start_first_option :: "'w fb_services \<Rightarrow> fb_globals \<Rightarrow> 'w \<Rightarrow> efi_status \<times> fb_event list \<times> 'w" where
  "try_start_first_option fm g w =
     (case first_new_option g of
        None \<Rightarrow> (EFI_SUCCESS, [], w)
      | Some dp \<Rightarrow>
          (case fm_LoadImage fm w dp of (st, w) \<Rightarrow>
             if EFI_ERROR st then (st, [Load_image dp], w)
             else let (args, sz) = (if EFI_ERROR (fm_image_protocol fm w) then (None, 0)
                                    else (first_new_option_args g, first_new_option_size g))
                  in case fm_StartImage fm w args sz of (st, w) \<Rightarrow> (st, [Load_image dp, Start_image args sz], w)))"

text \<open>A variable shorter than four bytes leaves the rest of the local variable as it was.\<close>

definition get_fallback_no_reboot :: "'w fb_env \<Rightarrow> 'w fb_services \<Rightarrow> 'w \<Rightarrow> nat" where
  "get_fallback_no_reboot env fm w =
     (let r = GetVariable (fe_rt env) w ''FB_NO_REBOOT'' SHIM_LOCK_GUID True 4
      in if EFI_ERROR (gv_status r) then 0 else le_nat (written_over (fm_garbage fm) (gv_data r)))"

definition set_fallback_no_reboot :: "'w fb_env \<Rightarrow> 'w \<Rightarrow> efi_status \<times> 'w" where
  "set_fallback_no_reboot env w =
     SetVariable (fe_rt env) w ''FB_NO_REBOOT'' SHIM_LOCK_GUID UEFI_VAR_NV_BS_RT (le_bytes 4 1)"

partial_function (option) get_user_choice :: "'w fb_services \<Rightarrow> 'w \<Rightarrow> (int \<times> 'w) option" where
  "get_user_choice fm w =
     (case fm_select fm w of (choice, w) \<Rightarrow>
        if choice < 0 \<or> 2 < choice then get_user_choice fm w else Some (choice, w))"

declare get_user_choice.simps [code]

text \<open>The part with a TPM: what happens before the reset.\<close>

definition ask_and_start :: "'w fb_env \<Rightarrow> 'w fb_services \<Rightarrow> fb_globals \<Rightarrow> 'w \<Rightarrow> (fb_event list \<times> 'w) option" where
  "ask_and_start env fm g w =
     (if fm_noninteractive fm then Some ([], w)
      else case fm_countdown fm w of (timeout, w) \<Rightarrow>
        if timeout = 0 then Some ([], w)
        else (case get_user_choice fm w of
                None \<Rightarrow> None
              | Some (choice, w) \<Rightarrow>
                  if choice = 0 then Some ([], w)
                  else if choice = 2 then
                    (case set_fallback_no_reboot env w of (st, w) \<Rightarrow>
                       if EFI_ERROR st then Some ([Set_no_reboot], w)
                       else (case try_start_first_option fm g w of (_, ev, w) \<Rightarrow> Some (Set_no_reboot # ev, w)))
                  else (case try_start_first_option fm g w of (_, ev, w) \<Rightarrow> Some (ev, w))))"

definition efi_main ::
  "'w fb_env \<Rightarrow> ('w, 'h) file_protocol \<Rightarrow> 'w fb_services \<Rightarrow> wstr \<Rightarrow> 'w \<Rightarrow> (efi_status \<times> fb_event list \<times> 'w) res option"
where
  "efi_main env ff fm arch w =
     (if EFI_ERROR (fm_loaded_image fm w) then Some (Inr (fm_loaded_image fm w, [], w))
      else bindO (find_boot_options env ff arch (set_boot_order env w fb_initial, w)) (\<lambda>(st, g, w).
        if EFI_ERROR st then Some (Inr (st, [], w))
        else if EFI_ERROR (fm_prefer_reset fm w) then
          (case try_start_first_option fm g w of (_, ev, w) \<Rightarrow> Some (Inr (EFI_SUCCESS, ev @ [Reset_system], w)))
        else case (if get_fallback_no_reboot env fm w = 1 then try_start_first_option fm g w else (EFI_SUCCESS, [], w)) of
          (_, ev, w) \<Rightarrow>
            (case ask_and_start env fm g w of
               None \<Rightarrow> None
             | Some (ev', w) \<Rightarrow> Some (Inr (EFI_SUCCESS, ev @ ev' @ [Reset_system], w)))))"

section \<open>What the text means\<close>

definition is_newline :: "u16 \<Rightarrow> bool" where
  "is_newline c \<longleftrightarrow> c = 0x0D \<or> c = 0x0A"

function csv_lines :: "wstr \<Rightarrow> wstr list" where
  "csv_lines t = (let u = dropWhile is_newline t
     in if u = [] then [] else takeWhile (\<lambda>c. \<not> is_newline c) u # csv_lines (dropWhile (\<lambda>c. \<not> is_newline c) u))"
  by pat_completeness auto
termination
proof (relation "measure length", goal_cases)
  case (2 t u)
  obtain c v where u: "u = c # v" using 2(2) by (cases u) simp_all
  have "\<not> is_newline (hd u)" using 2 hd_dropWhile [of is_newline t] by simp
  then have "\<not> is_newline c" using u by simp
  then have "length (dropWhile (\<lambda>c. \<not> is_newline c) u) \<le> length v" unfolding u by (simp add: length_dropWhile_le)
  moreover have "length u \<le> length t" using 2(1) by (simp add: length_dropWhile_le)
  ultimately show ?case using u by simp
qed simp

declare csv_lines.simps [simp del]

text \<open>A line is cut at its first three commas; an empty file name or label makes it void.\<close>

definition field :: "wstr \<Rightarrow> wstr" where "field s = takeWhile (\<lambda>c. c \<noteq> 0x2C) s"
definition after_field :: "wstr \<Rightarrow> wstr" where "after_field s = drop (Suc (length (field s))) s"

definition line_option :: "wstr \<Rightarrow> (wstr \<times> wstr \<times> wstr) option" where
  "line_option s =
     (let f = field s; l = field (after_field s); a = field (after_field (after_field s))
      in if f = [] \<or> l = [] then None else Some (f, l, a))"

text \<open>Every field up to the label that is not empty is followed by a comma.\<close>

definition proper_line :: "wstr \<Rightarrow> bool" where
  "proper_line s \<longleftrightarrow> field s = [] \<or>
     (length (field s) < length s \<and>
      (field (after_field s) = [] \<or> length (field (after_field s)) < length (after_field s)))"

fun add_lines :: "'w fb_env \<Rightarrow> wstr \<Rightarrow> wstr list \<Rightarrow> fb_globals \<times> 'w \<Rightarrow> (fb_globals \<times> 'w) res option" where
  "add_lines env dirname [] gw = Some (Inr gw)"
| "add_lines env dirname (ln # lns) gw =
     (case line_option ln of
        None \<Rightarrow> add_lines env dirname lns gw
      | Some (f, l, a) \<Rightarrow> bindO (add_to_boot_list env dirname f l a gw) (\<lambda>(_, gw). add_lines env dirname lns gw))"

lemma field_split:
  "(length (field s) < length s \<and> s = field s @ 0x2C # after_field s) \<or> (field s = s \<and> after_field s = [])"
proof (cases "length (field s) < length s")
  case True
  have n: "s ! length (field s) = 0x2C" using True nth_length_takeWhile [of "\<lambda>c. c \<noteq> 0x2C" s] by (simp add: field_def)
  have "s = take (length (field s)) s @ s ! length (field s) # drop (Suc (length (field s))) s"
    using True by (rule id_take_nth_drop)
  also have "take (length (field s)) s = field s" by (simp add: field_def takeWhile_eq_take [symmetric])
  finally show ?thesis using True n by (simp add: after_field_def)
next
  case False
  have "field s = take (length (field s)) s" by (simp add: field_def takeWhile_eq_take [symmetric])
  then show ?thesis using False by (simp add: after_field_def)
qed

lemma field_no_comma: "0x2C \<notin> set (field s)"
  by (auto simp add: field_def dest: set_takeWhileD)

lemma StrCSpn_comma:
  "0 \<notin> set s \<Longrightarrow> StrCSpn (s @ 0 # x) COMMA = Inr (length (field s))"
  using StrCSpn_eq [of s "[0x2C]" x "[]"] by (simp add: COMMA_def field_def)

lemma read_string_eq: "0 \<notin> set s \<Longrightarrow> read_string (s @ 0 # x) = Inr s"
  by (induction s) auto

lemma set_unit_at: "set_unit (a @ x # b) (length a) c = Inr (a @ c # b)"
  by (simp add: set_unit_def)

text \<open>One proper line.\<close>

lemma split_stanza_eq:
  assumes z: "0 \<notin> set line" and proper: "proper_line line" and buf: "buf = pre @ line @ 0 # tail"
  shows "\<exists>st line' p q. split_stanza buf (length pre) = Inr (st, pre @ line' @ 0 # tail, p, q) \<and> length line' = length line
     \<and> (case line_option line of
          None \<Rightarrow> EFI_ERROR st
        | Some (f, l, a) \<Rightarrow> \<not> EFI_ERROR st \<and> read_string (drop (length pre) (pre @ line' @ 0 # tail)) = Inr f
            \<and> read_string (drop p (pre @ line' @ 0 # tail)) = Inr l \<and> read_string (drop q (pre @ line' @ 0 # tail)) = Inr a)"
proof -
  have c0: "StrCSpn (drop (length pre) buf) COMMA = Inr (length (field line))"
    unfolding buf using StrCSpn_comma [OF z, of tail] by simp
  show ?thesis
  proof (cases "field line = []")
    case True
    then show ?thesis using c0 buf by (auto simp add: split_stanza_def line_option_def)
  next
    case False
    then obtain f r where line: "line = f @ 0x2C # r" and fr: "field line = f" "after_field line = r"
      using proper field_split [of line] by (auto simp add: proper_line_def)
    have f: "f \<noteq> []" using False fr by simp
    have zr: "0 \<notin> set r" "0 \<notin> set f" using z line by auto
    let ?b1 = "pre @ f @ 0 # r @ 0 # tail"
    have s1: "set_unit buf (length pre + length f) 0 = Inr ?b1"
      unfolding buf line using set_unit_at [of "pre @ f" "0x2C" "r @ 0 # tail" 0] by simp
    have c1: "StrCSpn (drop (length pre + length f + 1) ?b1) COMMA = Inr (length (field r))"
      using StrCSpn_comma [OF zr(1), of tail] by simp
    show ?thesis
    proof (cases "field r = []")
      case True
      have run: "split_stanza buf (length pre) = Inr (EFI_INVALID_PARAMETER, ?b1, 0, 0)"
        unfolding split_stanza_def c0 fr bindR_Inr Let_def s1 c1 using f True by simp
      have lo: "line_option line = None" using fr True by (simp add: line_option_def Let_def)
      have len: "length (f @ 0 # r) = length line" by (simp add: line)
      show ?thesis unfolding lo option.case
      proof (intro exI conjI)
        show "split_stanza buf (length pre) = Inr (EFI_INVALID_PARAMETER, pre @ (f @ 0 # r) @ 0 # tail, 0, 0)"
          unfolding run by simp
      qed (use len in simp_all)
    next
      case False
      then obtain l r2 where r: "r = l @ 0x2C # r2" and lr: "field r = l" "after_field r = r2"
        using proper f fr field_split [of r] by (auto simp add: proper_line_def)
      have l: "l \<noteq> []" using False lr by simp
      have z2: "0 \<notin> set r2" "0 \<notin> set l" using zr(1) r by auto
      let ?b2 = "pre @ f @ 0 # l @ 0 # r2 @ 0 # tail" and ?q = "length pre + length f + 1 + length l + 1"
      have s2: "set_unit ?b1 (length pre + length f + 1 + length l) 0 = Inr ?b2"
        unfolding r using set_unit_at [of "pre @ f @ 0 # l" "0x2C" "r2 @ 0 # tail" 0] by (simp add: add.assoc)
      have c2: "StrCSpn (drop ?q ?b2) COMMA = Inr (length (field r2))"
        using StrCSpn_comma [OF z2(1), of tail] by simp
      obtain a rest where a: "field r2 = a" "length a + length rest = length r2" "0 \<notin> set a"
          "set_unit ?b2 (?q + length a) 0 = Inr (pre @ f @ 0 # l @ 0 # a @ rest @ 0 # tail)" "rest = [] \<or> (\<exists>x. rest = 0 # x)"
      proof (cases "length (field r2) < length r2")
        case True
        then obtain a x where r2: "r2 = a @ 0x2C # x" "field r2 = a" using field_split [of r2] by auto
        have "set_unit ?b2 (?q + length a) 0 = Inr (pre @ f @ 0 # l @ 0 # a @ (0 # x) @ 0 # tail)"
          unfolding r2(1) using set_unit_at [of "pre @ f @ 0 # l @ 0 # a" "0x2C" "x @ 0 # tail" 0] by (simp add: add.assoc)
        then show ?thesis using that [of a "0 # x"] r2 z2(1) by auto
      next
        case False
        then have r2: "field r2 = r2" using field_split [of r2] by auto
        have "set_unit ?b2 (?q + length r2) 0 = Inr (pre @ f @ 0 # l @ 0 # r2 @ [] @ 0 # tail)"
          using set_unit_at [of "pre @ f @ 0 # l @ 0 # r2" 0 tail 0] by (simp add: add.assoc)
        then show ?thesis using that [of r2 "[]"] r2 z2(1) by simp
      qed
      let ?line = "f @ 0 # l @ 0 # a @ rest" and ?b3 = "pre @ f @ 0 # l @ 0 # a @ rest @ 0 # tail"
      have len: "length ?line = length line" using a(2) by (simp add: line r)
      have b3: "?b3 = pre @ ?line @ 0 # tail" by simp
      have run: "split_stanza buf (length pre) = Inr (EFI_SUCCESS, ?b3, length pre + length f + 1, ?q)"
        unfolding split_stanza_def c0 fr bindR_Inr Let_def s1 c1 lr s2 c2 a(1,4) using f l by simp
      have rf: "read_string (drop (length pre) ?b3) = Inr f" using read_string_eq [OF zr(2)] by simp
      have rl: "read_string (drop (length pre + length f + 1) ?b3) = Inr l" using read_string_eq [OF z2(2)] by simp
      have "drop ?q ?b3 = a @ rest @ 0 # tail" by simp
      then have ra: "read_string (drop ?q ?b3) = Inr a" using a(5) read_string_eq [OF a(3)] by auto
      have lo: "line_option line = Some (f, l, a)" using f l fr lr a(1) by (simp add: line_option_def Let_def)
      show ?thesis
        unfolding lo prod.case option.case
      proof (intro exI conjI)
        show "split_stanza buf (length pre) = Inr (EFI_SUCCESS, pre @ ?line @ 0 # tail, length pre + length f + 1, ?q)"
          unfolding run by simp
      qed (use rf rl ra len in simp_all)
    qed
  qed
qed

lemma populate_stanza_eq:
  assumes "0 \<notin> set line" and "proper_line line" and "buf = pre @ line @ 0 # tail"
  shows "\<exists>st line'. length line' = length line \<and> populate_stanza env dirname buf (length pre) gw =
     (case line_option line of
        None \<Rightarrow> Some (Inr (st, pre @ line' @ 0 # tail, gw))
      | Some (f, l, a) \<Rightarrow> bindO (add_to_boot_list env dirname f l a gw) (\<lambda>(_, gw).
          Some (Inr (EFI_SUCCESS, pre @ line' @ 0 # tail, gw))))"
proof -
  obtain st line' p q where r: "split_stanza buf (length pre) = Inr (st, pre @ line' @ 0 # tail, p, q)"
      "length line' = length line"
      "case line_option line of None \<Rightarrow> EFI_ERROR st
       | Some (f, l, a) \<Rightarrow> \<not> EFI_ERROR st \<and> read_string (drop (length pre) (pre @ line' @ 0 # tail)) = Inr f
           \<and> read_string (drop p (pre @ line' @ 0 # tail)) = Inr l \<and> read_string (drop q (pre @ line' @ 0 # tail)) = Inr a"
    using split_stanza_eq [OF assms] by blast
  show ?thesis
  proof (cases "line_option line")
    case None
    then have "populate_stanza env dirname buf (length pre) gw = Some (Inr (st, pre @ line' @ 0 # tail, gw))"
      using r(3) by (simp add: populate_stanza_def r(1))
    then show ?thesis using None r(2) by auto
  next
    case (Some fla)
    obtain f l a where fla: "fla = (f, l, a)" by (cases fla) auto
    note rd = r(3) [unfolded Some fla option.case prod.case]
    have "populate_stanza env dirname buf (length pre) gw = bindO (add_to_boot_list env dirname f l a gw) (\<lambda>(_, gw).
          Some (Inr (EFI_SUCCESS, pre @ line' @ 0 # tail, gw)))"
      unfolding populate_stanza_def r(1) sum.case prod.case if_not_P [OF conjunct1 [OF rd]]
      using rd by simp
    then show ?thesis using Some fla r(2) by auto
  qed
qed

lemma newlines_eq: "0 \<notin> set t \<Longrightarrow> newlines (t @ 0 # x) = Inr (length (takeWhile is_newline t))"
  by (induction t) (auto simp add: is_newline_def)

lemma StrCSpn_newline:
  "0 \<notin> set s \<Longrightarrow> StrCSpn (s @ 0 # x) NEWLINES = Inr (length (takeWhile (\<lambda>c. \<not> is_newline c) s))"
  using StrCSpn_eq [of s "[0x0D, 0x0A]" x "[]"] by (simp add: NEWLINES_def is_newline_def)

lemma csv_loop_eq:
  assumes "0 \<notin> set t" and "\<forall>ln\<in>set (csv_lines t). proper_line ln"
  shows "csv_loop env dirname (pre @ t @ 0 # pad) (length pre) gw = add_lines env dirname (csv_lines t) gw"
  using assms
proof (induction t arbitrary: pre gw rule: csv_lines.induct)
  case (1 t)
  let ?buf = "pre @ t @ 0 # pad" and ?P = "\<lambda>c. \<not> is_newline c"
  define nls where "nls = takeWhile is_newline t"
  define u where "u = dropWhile is_newline t"
  have t: "t = nls @ u" by (simp add: nls_def u_def)
  show ?case
  proof (cases "t = []")
    case True
    then show ?thesis by (subst csv_loop.simps) (simp add: unit_at_def csv_lines.simps [of "[]"])
  next
    case False
    then obtain c t' where ct: "t = c # t'" by (cases t) auto
    then have c: "unit_at ?buf (length pre) = Inr c" "c \<noteq> 0" using 1(2) by (auto simp add: unit_at_def)
    have nl: "newlines (drop (length pre) ?buf) = Inr (length nls)"
      using newlines_eq [OF 1(2), of pad] by (simp add: nls_def)
    have zu: "0 \<notin> set u" using 1(2) t by auto
    have "drop (length pre + length nls) ?buf = u @ 0 # pad" by (simp add: t)
    then have sp: "StrCSpn (drop (length pre + length nls) ?buf) NEWLINES = Inr (length (takeWhile ?P u))"
      using StrCSpn_newline [OF zu, of pad] by simp
    define line where "line = takeWhile ?P u"
    define v where "v = dropWhile ?P u"
    have uv: "u = line @ v" by (simp add: line_def v_def)
    obtain x y where xy: "v @ 0 # pad = x # y" by (cases v) auto
    have at: "unit_at ?buf (length pre + length nls + length line) = Inr x"
    proof -
      have b: "?buf = (pre @ nls @ line) @ x # y" using xy by (simp add: t uv)
      show ?thesis unfolding b unit_at_def by (simp add: nth_append add.assoc)
    qed
    have nx: "next_line ?buf (length pre) = Inr (length pre + length nls, length line, x)"
      unfolding next_line_def nl bindR_Inr sp at [unfolded line_def] line_def ..
    show ?thesis
    proof (cases "u = []")
      case True
      then have "line = []" "x = 0" using uv xy by auto
      then show ?thesis using c nx True
        by (subst csv_loop.simps) (simp add: csv_lines.simps [of t] u_def [symmetric] Let_def)
    next
      case u: False
      have lines: "csv_lines t = line # csv_lines v"
        using u by (subst csv_lines.simps) (simp add: u_def [symmetric] line_def v_def Let_def)
      have "\<not> is_newline (hd u)" using u hd_dropWhile [of is_newline t] by (simp add: u_def)
      then have line: "line \<noteq> []" using u by (cases u) (auto simp add: line_def)
      have ok: "proper_line line" "\<forall>ln\<in>set (csv_lines v). proper_line ln" using 1(3) lines by auto
      have z: "0 \<notin> set line" "0 \<notin> set v" using zu uv by auto
      have upd: "?buf[length pre + length nls + length line := 0] = (pre @ nls) @ line @ 0 # y"
      proof -
        have b: "?buf = (pre @ nls @ line) @ x # y" using xy by (simp add: t uv)
        show ?thesis unfolding b by (simp add: list_update_append add.assoc)
      qed
      obtain st line' where pop: "length line' = length line"
          "populate_stanza env dirname (?buf[length pre + length nls + length line := 0]) (length (pre @ nls)) gw =
         (case line_option line of
            None \<Rightarrow> Some (Inr (st, (pre @ nls) @ line' @ 0 # y, gw))
          | Some (f, l, a) \<Rightarrow> bindO (add_to_boot_list env dirname f l a gw) (\<lambda>(_, gw).
              Some (Inr (EFI_SUCCESS, (pre @ nls) @ line' @ 0 # y, gw))))"
        using populate_stanza_eq [OF z(1) ok(1) upd, of env dirname gw] by blast
      have rest: "csv_loop env dirname (((pre @ nls) @ line' @ 0 # y)[length pre + length nls + length line := x])
            (length pre + length nls + length line) gw' = add_lines env dirname (csv_lines v) gw'" for gw'
      proof -
        have b: "((pre @ nls) @ line' @ 0 # y)[length pre + length nls + length line := x] = (pre @ nls @ line') @ v @ 0 # pad"
          unfolding xy using pop(1) by (simp add: list_update_append add.assoc)
        have l: "length pre + length nls + length line = length (pre @ nls @ line')" using pop(1) by simp
        show ?thesis unfolding b unfolding l
          using 1(1) [OF u_def u z(2) [unfolded v_def] ok(2) [unfolded v_def], of "pre @ nls @ line'" gw']
          unfolding v_def .
      qed
      show ?thesis
      proof (cases "line_option line")
        case None
        then show ?thesis using c nx line pop(2) rest
          by (subst csv_loop.simps) (simp add: lines)
      next
        case (Some fla)
        then show ?thesis using c nx line pop(2) rest
          by (subst csv_loop.simps) (auto simp add: lines bindO_def split: option.splits sum.splits prod.splits)
      qed
    qed
  qed
qed

section \<open>The globals stay well-formed\<close>

text \<open>The recorded size is the size of the recorded arguments, and the counter stays in its range.\<close>

definition typed_globals :: "fb_globals \<Rightarrow> bool" where
  "typed_globals g \<longleftrightarrow> (\<forall>a. first_new_option_args g = Some a \<longrightarrow> first_new_option_size g = 2 * length a)
     \<and> next_number g \<le> 0x10000"

lemma typed_initial: "typed_globals fb_initial"
  by (simp add: typed_globals_def fb_initial_def)

lemma typed_order [simp]: "typed_globals (g\<lparr>bootorder := b\<rparr>) = typed_globals g"
  by (simp add: typed_globals_def)

lemma typed_remember [simp]: "typed_globals g \<Longrightarrow> typed_globals (remember_option pool dp a g)"
  by (simp add: typed_globals_def remember_option_def split: option.split)

lemma typed_set_order: "typed_globals g \<Longrightarrow> typed_globals (set_boot_order env w g)"
  by (simp add: set_boot_order_def split: option.split)

lemma typed_number: "typed_globals g \<Longrightarrow> i \<le> 0x10000 \<Longrightarrow> typed_globals (g\<lparr>next_number := i\<rparr>)"
  by (simp add: typed_globals_def)

lemma typed_add_boot_option:
  assumes "typed_globals g" and "add_boot_option env dp full label a (g, w) = (st, g', w')"
  shows "typed_globals g'"
proof (cases "free_number (\<lambda>n. fe_LibGetVariable env w n GV_GUID \<noteq> None) (next_number g)")
  case None
  moreover have "next_number g \<le> 0x10000" using assms(1) by (simp add: typed_globals_def)
  ultimately show ?thesis using assms typed_number [of g "0x10000"] by (auto simp add: add_boot_option_def)
next
  case (Some i)
  then have "typed_globals (g\<lparr>next_number := i\<rparr>)" using free_number_Some [OF Some] assms(1) by (simp add: typed_number)
  then show ?thesis using assms(2) Some
    by (auto simp add: add_boot_option_def Let_def split: if_splits prod.splits)
qed

lemma typed_add_to_boot_list:
  assumes "typed_globals g" and "add_to_boot_list env d f l a (g, w) = Some (Inr (st, g', w'))"
  shows "typed_globals g'"
proof -
  have find: "typed_globals g1" if "find_boot_option env w dp full l a g = Some (Inr (n, g1))" for dp full n g1
    using that assms(1) by (auto simp add: find_boot_option_def Let_def bindO_eq split: if_splits)
  have add: "typed_globals g1" if "snd (add_boot_option env dp full l a (g, w)) = (g1, w1)" for dp full g1 w1
    using that typed_add_boot_option [OF assms(1), of env dp full l a w] by (metis prod.collapse)
  show ?thesis
    using assms find add unfolding add_to_boot_list_def
    by (auto split: option.splits sum.splits exc.splits prod.splits)
qed

lemma typed_populate:
  "typed_globals g \<Longrightarrow> populate_stanza env d buf c (g, w) = Some (Inr (st, buf', g', w')) \<Longrightarrow> typed_globals g'"
  by (auto simp add: populate_stanza_def bindO_eq split: sum.splits if_splits prod.splits dest: typed_add_to_boot_list)

lemma typed_csv_loop_aux:
  "csv_loop env d buf start gw = Some r \<Longrightarrow>
   typed_globals (fst gw) \<longrightarrow> (\<forall>gw'. r = Inr gw' \<longrightarrow> typed_globals (fst gw'))"
proof (induction rule: csv_loop.raw_induct [rotated, consumes 1, case_names step])
  case (step loop env d buf start gw r)
  obtain g w where gw: "gw = (g, w)" by fastforce
  show ?case
    using step(2) unfolding gw
    by (auto split: sum.splits if_splits prod.splits option.splits dest!: step(1) dest: typed_populate)
qed

lemma typed_csv_loop:
  "csv_loop env d buf start (g, w) = Some (Inr (g', w')) \<Longrightarrow> typed_globals g \<Longrightarrow> typed_globals g'"
  using typed_csv_loop_aux [of env d buf start "(g, w)"] by auto

lemma typed_try_boot_csv:
  "typed_globals g \<Longrightarrow> try_boot_csv env ff fh d f (g, w) = Some (Inr (st, g', w')) \<Longrightarrow> typed_globals g'"
  by (auto simp add: try_boot_csv_def bindO_eq process_csv_def split: sum.splits exc.splits prod.splits
      dest: typed_csv_loop)

lemma typed_open_and_try:
  "typed_globals g \<Longrightarrow> open_and_try env ff fh d n (g, w) = Some (Inr (st, g', w')) \<Longrightarrow> typed_globals g'"
  by (auto simp add: open_and_try_def bindO_eq split: option.splits prod.splits if_splits dest: typed_try_boot_csv)

lemma typed_process_names:
  assumes "typed_globals g" and "process_names env ff fh d n m (g, w) = Some (Inr (g', w'))"
  shows "typed_globals g'"
proof -
  obtain st g1 w1 where a: "(case m of None \<Rightarrow> Some (Inr (EFI_SUCCESS, g, w)) | Some name \<Rightarrow> open_and_try env ff fh d name (g, w))
      = Some (Inr (st, g1, w1))"
    and b: "(case n of None \<Rightarrow> Some (Inr (g1, w1)) | Some name \<Rightarrow>
        if EFI_ERROR st \<or> m = None then bindO (open_and_try env ff fh d name (g1, w1)) (\<lambda>(_, gw). Some (Inr gw))
        else Some (Inr (g1, w1))) = Some (Inr (g', w'))"
    using assms(2) unfolding process_names_def bindO_eq by (auto simp del: split_paired_Ex)
  have "typed_globals g1" using a assms(1) by (auto split: option.splits dest: typed_open_and_try)
  then show ?thesis using b by (auto simp add: bindO_eq split: option.splits if_splits dest: typed_open_and_try)
qed

lemma typed_find_boot_csv:
  "typed_globals g \<Longrightarrow> find_boot_csv env ff arch fh d (g, w) = Some (Inr (st, g', w')) \<Longrightarrow> typed_globals g'"
  by (auto simp add: find_boot_csv_def bindO_eq split: option.splits prod.splits if_splits sum.splits exc.splits
      dest: typed_process_names)

lemma typed_directories_aux:
  "directories env ff arch fh fh2 gw = Some r \<Longrightarrow>
   typed_globals (fst gw) \<longrightarrow> (\<forall>b st g' w'. r = Inr (b, st, g', w') \<longrightarrow> typed_globals g')"
proof (induction rule: directories.raw_induct [rotated, consumes 1, case_names step])
  case (step loop env ff arch fh fh2 gw r)
  obtain g w where gw: "gw = (g, w)" by fastforce
  show ?case
    using step(2) unfolding gw
    by (auto split: sum.splits if_splits prod.splits option.splits dest!: step(1) dest: typed_find_boot_csv)
qed

lemma typed_directories:
  "directories env ff arch fh fh2 (g, w) = Some (Inr (b, st, g', w')) \<Longrightarrow> typed_globals g \<Longrightarrow> typed_globals g'"
  using typed_directories_aux [of env ff arch fh fh2 "(g, w)"] by auto

lemma typed_find_boot_options:
  assumes "typed_globals g" and "find_boot_options env ff arch (g, w) = Some (Inr (st, g', w'))"
  shows "typed_globals g'"
  using assms
  by (auto simp add: find_boot_options_def bindO_eq Let_def split: if_splits prod.splits dest: typed_directories)

section \<open>Properties\<close>

text \<open>
  A boot.csv text whose lines all have their commas is turned into exactly one call of
  \<open>add_to_boot_list\<close> for each line with a file name and a label, in order, with the fields of the
  line as arguments, whether or not it starts with a byte order mark and whatever line ends it
  uses; the in-place splitting never leaves the buffer.
\<close>

theorem process_csv_lines:
  assumes "0 \<notin> set t" and "\<forall>ln\<in>set (csv_lines t). proper_line ln" and "bom = [0xfeff] \<or> bom = [] \<and> take 1 t \<noteq> [0xfeff]"
  shows "process_csv env dirname (bom @ t @ 0 # pad) gw = add_lines env dirname (csv_lines t) gw"
proof (cases "bom = []")
  case False
  then show ?thesis using assms(3) csv_loop_eq [OF assms(1,2), of env dirname "[0xfeff]" pad gw]
    by (simp add: process_csv_def unit_at_def)
next
  case True
  then have "\<exists>c. unit_at (t @ 0 # pad) 0 = Inr c \<and> c \<noteq> 0xfeff" using assms(3) by (cases t) (auto simp add: unit_at_def)
  then show ?thesis using True csv_loop_eq [OF assms(1,2), of env dirname "[]" pad gw]
    by (auto simp add: process_csv_def)
qed

lemma process_csv_lines_witness:
  "process_csv demo_store (wide ''os'') ([0xfeff] @ [0x61, 0x2C, 0x62, 0x2C, 0x0A] @ 0 # []) (fb_initial, empty_store)
   = bindO (add_to_boot_list demo_store (wide ''os'') [0x61] [0x62] [] (fb_initial, empty_store)) (\<lambda>(_, gw). Some (Inr gw))"
proof -
  have l: "csv_lines [0x61, 0x2C, 0x62, 0x2C, 0x0A] = [[0x61, 0x2C, 0x62, 0x2C]]"
    by (simp add: csv_lines.simps [of "_ # _"] csv_lines.simps [of "[]"] is_newline_def Let_def)
  have o: "line_option [0x61, 0x2C, 0x62, 0x2C] = Some ([0x61], [0x62], [])"
    by (simp add: line_option_def field_def after_field_def Let_def)
  have pr: "proper_line [0x61, 0x2C, 0x62, 0x2C]" by (simp add: proper_line_def field_def after_field_def)
  show ?thesis
    using process_csv_lines [of "[0x61, 0x2C, 0x62, 0x2C, 0x0A]" "[0xfeff]" demo_store "wide ''os''" "[]" "(fb_initial, empty_store)"] pr
    unfolding l add_lines.simps o option.case prod.case by simp
qed

text \<open>
  A last line without a comma: the label is looked for behind the NUL that ends the line, so on
  a text that is one such line, in a buffer that ends with its NUL, the program reads past the buffer.
\<close>

theorem process_csv_missing_comma:
  assumes "line \<noteq> []" and "0 \<notin> set line" and "\<forall>c\<in>set line. \<not> is_newline c" and "0x2C \<notin> set line" and "0xfeff \<notin> set line"
  shows "process_csv env dirname (line @ [0]) gw = Some (Inl Fault)"
proof -
  obtain c t where line: "line = c # t" using assms(1) by (cases line) auto
  have tw: "takeWhile is_newline line = []" "takeWhile (\<lambda>c. \<not> is_newline c) line = line" "field line = line"
    using assms(3,4) by (auto simp add: line field_def)
  have nx: "next_line (line @ [0]) 0 = Inr (0, length line, 0)"
    using newlines_eq [OF assms(2), of "[]"] StrCSpn_newline [OF assms(2), of "[]"]
    by (simp add: next_line_def tw unit_at_def)
  have sp: "split_stanza ((line @ [0])[length line := 0]) 0 = Inl Fault"
    using StrCSpn_comma [OF assms(2), of "[]"] assms(1) by (simp add: split_stanza_def tw set_unit_def)
  have "csv_loop env dirname (line @ [0]) 0 gw = Some (Inl Fault)"
    using nx sp assms(1,2) by (subst csv_loop.simps) (simp add: unit_at_def line populate_stanza_def)
  then show ?thesis using assms(5) by (simp add: process_csv_def unit_at_def line)
qed

lemma process_csv_missing_comma_witness:
  "process_csv demo_store (wide ''os'') ([0x61, 0x62] @ [0]) (fb_initial, empty_store) = Some (Inl Fault)"
  using process_csv_missing_comma [of "[0x61, 0x62]"] by (simp add: is_newline_def)

text \<open>The user's choice: some selection is a number of the menu.\<close>

definition chooses :: "'w fb_services \<Rightarrow> 'w \<Rightarrow> bool" where
  "chooses fm w \<longleftrightarrow> (\<exists>n. let c = fst (fm_select fm (((\<lambda>w. snd (fm_select fm w)) ^^ n) w)) in 0 \<le> c \<and> c \<le> 2)"

lemma get_user_choice_returns:
  assumes "let c = fst (fm_select fm (((\<lambda>w. snd (fm_select fm w)) ^^ n) w)) in 0 \<le> c \<and> c \<le> 2"
  shows "\<exists>c w'. get_user_choice fm w = Some (c, w') \<and> 0 \<le> c \<and> c \<le> 2"
  using assms
proof (induction n arbitrary: w)
  case 0
  then show ?case by (subst get_user_choice.simps) (auto simp add: Let_def split: prod.split)
next
  case (Suc n)
  show ?case
  proof (cases "let c = fst (fm_select fm w) in 0 \<le> c \<and> c \<le> 2")
    case True
    then show ?thesis by (subst get_user_choice.simps) (auto simp add: Let_def split: prod.split)
  next
    case False
    obtain c w1 where s: "fm_select fm w = (c, w1)" by fastforce
    have "((\<lambda>w. snd (fm_select fm w)) ^^ Suc n) w = ((\<lambda>w. snd (fm_select fm w)) ^^ n) w1"
      unfolding funpow_Suc_right o_apply s snd_conv ..
    then have "\<exists>c w'. get_user_choice fm w1 = Some (c, w') \<and> 0 \<le> c \<and> c \<le> 2"
      using Suc.IH [of w1] Suc.prems by metis
    then show ?thesis using False s by (subst get_user_choice.simps) (auto simp add: Let_def)
  qed
qed

definition starts_only :: "fb_globals \<Rightarrow> fb_event \<Rightarrow> bool" where
  "starts_only g e \<longleftrightarrow> (case e of
      Load_image dp \<Rightarrow> first_new_option g = Some dp
    | Start_image args n \<Rightarrow> (args = None \<and> n = 0) \<or> (args = first_new_option_args g \<and> n = first_new_option_size g)
    | Set_no_reboot \<Rightarrow> True
    | Reset_system \<Rightarrow> False)"

lemma try_start_events: "try_start_first_option fm g w = (st, ev, w') \<Longrightarrow> \<forall>e\<in>set ev. starts_only g e \<and> e \<noteq> Set_no_reboot"
  by (auto simp add: try_start_first_option_def starts_only_def Let_def split: option.splits prod.splits if_splits)

lemma ask_and_start_events:
  assumes "\<forall>w. chooses fm w"
  shows "\<exists>ev w'. ask_and_start env fm g w = Some (ev, w') \<and> (\<forall>e\<in>set ev. starts_only g e)"
proof -
  obtain timeout w1 where t: "fm_countdown fm w = (timeout, w1)" by fastforce
  from assms [rule_format, of w1, unfolded chooses_def]
  obtain n where "let c = fst (fm_select fm (((\<lambda>w. snd (fm_select fm w)) ^^ n) w1)) in 0 \<le> c \<and> c \<le> 2" ..
  from get_user_choice_returns [OF this] obtain c w2 where c: "get_user_choice fm w1 = Some (c, w2)" by auto
  have so: "starts_only g Set_no_reboot" by (simp add: starts_only_def)
  have try_ok: "\<exists>ev w'. (case try_start_first_option fm g w of (_, ev, w) \<Rightarrow> Some (pre @ ev, w)) = Some (ev, w')
      \<and> (\<forall>e\<in>set ev. starts_only g e)" if "\<forall>e\<in>set pre. starts_only g e" for w pre
  proof -
    obtain st ev w' where r: "try_start_first_option fm g w = (st, ev, w')" by (metis prod_cases3)
    show ?thesis using try_start_events [OF r] that by (auto simp add: r)
  qed
  obtain st w3 where n: "set_fallback_no_reboot env w2 = (st, w3)" by fastforce
  show ?thesis
    unfolding ask_and_start_def t prod.case c option.case n
    using try_ok [of "[]" w2] try_ok [of "[Set_no_reboot]" w3] so by simp
qed

text \<open>A volume with an empty \<open>EFI\<close> directory, a machine with a TPM and a user who continues.\<close>

definition demo_files :: "('w, unit) file_protocol" where
  "demo_files = \<lparr>ff_HandleProtocol = (\<lambda>w. EFI_SUCCESS), ff_OpenVolume = (\<lambda>w. (EFI_SUCCESS, Some (), w)),
     ff_Open = (\<lambda>w h n. (EFI_SUCCESS, Some (), w)), ff_Close = (\<lambda>w h. w), ff_SetPosition = (\<lambda>w h p. (EFI_SUCCESS, w)),
     ff_GetInfo = (\<lambda>w h n. (EFI_NOT_FOUND, 0, \<lparr>fi_FileSize = 0, fi_Attribute = 0, fi_FileName = []\<rparr>)),
     ff_Read = (\<lambda>w h n. (EFI_SUCCESS, [], w)),
     ff_ReadDir = (\<lambda>w h n. (EFI_SUCCESS, 0, \<lparr>fi_FileSize = 0, fi_Attribute = 0, fi_FileName = []\<rparr>, w))\<rparr>"

definition demo_services :: "'w fb_services" where
  "demo_services = \<lparr>fm_loaded_image = (\<lambda>w. EFI_SUCCESS), fm_LoadImage = (\<lambda>w d. (EFI_SUCCESS, w)),
     fm_image_protocol = (\<lambda>w. EFI_SUCCESS), fm_StartImage = (\<lambda>w a n. (EFI_SUCCESS, w)),
     fm_countdown = (\<lambda>w. (1, w)), fm_select = (\<lambda>w. (1, w)), fm_prefer_reset = (\<lambda>w. EFI_SUCCESS),
     fm_noninteractive = False, fm_garbage = [0, 0, 0, 0]\<rparr>"

lemma demo_find: "find_boot_options demo_store demo_files arch (g, empty_store) = Some (Inr (EFI_SUCCESS, g, empty_store))"
  if "bootorder g = []"
  using that
  by (simp add: find_boot_options_def demo_files_def directories.simps)

lemma demo_order_empty: "set_boot_order demo_store empty_store fb_initial = fb_initial"
  by (simp add: set_boot_order_def demo_store_def empty_store_good)

text \<open>
  C37. When the boot entries have been restored and the user answers eventually, the run comes to an
  end, with the reset of the machine as its last and only reset; before it at most the image of the
  first option is loaded and started. When they have not, the program returns the error and does
  neither.
\<close>

theorem efi_main_resets:
  assumes "\<not> EFI_ERROR (fm_loaded_image fm w)" and "\<forall>w. chooses fm w"
    and "find_boot_options env ff arch (set_boot_order env w fb_initial, w) = Some (Inr (st, g, w1))"
  shows "\<exists>st' ev w'. efi_main env ff fm arch w = Some (Inr (st', ev, w')) \<and>
    (if EFI_ERROR st then st' = st \<and> ev = []
     else st' = EFI_SUCCESS \<and> (\<exists>before. ev = before @ [Reset_system] \<and> (\<forall>e\<in>set before. starts_only g e)))"
proof -
  obtain t1 ev1 w2 where r1: "try_start_first_option fm g w1 = (t1, ev1, w2)" by (metis prod_cases3)
  have e1: "\<forall>e\<in>set ev1. starts_only g e" using try_start_events [OF r1] by blast
  define r where "r = (if get_fallback_no_reboot env fm w1 = 1 then try_start_first_option fm g w1 else (EFI_SUCCESS, [], w1))"
  obtain t ev w3 where r: "r = (t, ev, w3)" by (metis prod_cases3)
  have e: "\<forall>e\<in>set ev. starts_only g e" using r e1 r1 by (auto simp add: r_def split: if_splits)
  obtain ev2 w4 where a: "ask_and_start env fm g w3 = Some (ev2, w4)" "\<forall>e\<in>set ev2. starts_only g e"
    using ask_and_start_events [OF assms(2)] by blast
  have main: "efi_main env ff fm arch w =
     (if EFI_ERROR st then Some (Inr (st, [], w1))
      else if EFI_ERROR (fm_prefer_reset fm w1) then Some (Inr (EFI_SUCCESS, ev1 @ [Reset_system], w2))
      else Some (Inr (EFI_SUCCESS, (ev @ ev2) @ [Reset_system], w4)))"
    unfolding efi_main_def if_not_P [OF assms(1)] assms(3) bindO_simps prod.case
    unfolding r_def [symmetric] unfolding r r1 prod.case a(1) option.case
    by simp
  show ?thesis unfolding main using e1 e a(2) by auto
qed

lemma efi_main_resets_witness:
  "\<exists>ev w'. efi_main demo_store demo_files demo_services [] empty_store = Some (Inr (EFI_SUCCESS, ev, w')) \<and> last ev = Reset_system"
proof -
  have f: "find_boot_options demo_store demo_files [] (set_boot_order demo_store empty_store fb_initial, empty_store)
      = Some (Inr (EFI_SUCCESS, fb_initial, empty_store))"
    unfolding demo_order_empty by (rule demo_find) (simp add: fb_initial_def)
  have "\<not> EFI_ERROR (fm_loaded_image demo_services empty_store)" "\<forall>w :: mock_state. chooses demo_services w"
    by (simp_all add: demo_services_def chooses_def)
  from efi_main_resets [OF this f] show ?thesis by auto
qed



end
