(* ===== verification/ShimLock.thy ===== *)
theory ShimLock
  imports Loader Tpm
begin

text \<open>
  shim.c, the shim lock protocol: what a boot program that shim has started calls to have its own
  files verified. The variables of globals.c that the boot programs' calls change are a record;
  the firmware is a state \<open>'w\<close>.
\<close>

section \<open>State and environment\<close>

record shim_globals =
  loader_is_participating :: bool
  in_protocol :: bool
  verification_method :: verification_method
  sbat_state :: sbat_state
  tpm :: tpm_state

text \<open>
  \<open>lk_pool_at\<close> is where the pool puts a buffer of a given size, \<open>lk_http\<close> the verdict of the
  remote check of keyless-sign.c on a file.
\<close>

record ('w, 'h, 'g) lock_env =
  lk_verify :: "'w verify_env"
  lk_sha256 :: "'h sha"
  lk_sha1 :: "'g sha"
  lk_atoi :: "bytes \<Rightarrow> nat"
  lk_pe :: pe_env
  lk_tpm :: "'w tpm_protocols"
  lk_require_tpm :: bool
  lk_http :: "'w \<Rightarrow> mbuf \<Rightarrow> efi_status"
  lk_pool_at :: "nat \<Rightarrow> u64"

section \<open>The protocol\<close>

definition header_env :: "('w, 'h, 'g) lock_env \<Rightarrow> bool \<Rightarrow> pe_env" where
  "header_env env protocol = (lk_pe env)\<lparr>pe_in_protocol := protocol\<rparr>"

definition protocol_pe :: "('w, 'h, 'g) lock_env \<Rightarrow> pe_env" where
  "protocol_pe env = header_env env True"

text \<open>What follows the measurement, on a copy of the file.\<close>

definition verify_copy ::
  "('w, 'h, 'g) lock_env \<Rightarrow> bytes \<Rightarrow> u32 \<Rightarrow> shim_globals \<times> 'w \<Rightarrow> (efi_status \<times> shim_globals \<times> 'w) res option"
where
  "verify_copy env bytes datasize gw =
     (let (g, w) = gw; copy = \<lparr>mb_base = lk_pool_at env (unat datasize), mb_data = bytes\<rparr> in
      if \<not> secure_mode (lk_verify env) w then Some (Inr (EFI_SUCCESS, g, w))
      else if \<not> ve_pool (lk_verify env) (unat datasize) then Some (Inr (EFI_OUT_OF_RESOURCES, g, w))
      else case read_header (protocol_pe env) copy (mb_base copy) datasize of
        Inl Fault \<Rightarrow> Some (Inl Fault)
      | Inl (Status st) \<Rightarrow> Some (Inr (st, g, w))
      | Inr ctx \<Rightarrow>
          bindO (verify_buffer (lk_verify env) w (lk_sha256 env) (lk_sha1 env) (ve_pool (lk_verify env)) (lk_http env w copy)
                  (lk_atoi env) (sbat_var (sbat_state g)) (in_protocol g) copy (mb_base copy) datasize ctx (verification_method g))
            (\<lambda>(st, vm, _). Some (Inr (st, g\<lparr>verification_method := vm\<rparr>, w))))"

text \<open>\<open>lk_require_tpm\<close> is the build option \<open>REQUIRE_TPM\<close>.\<close>

definition verify_in_protocol ::
  "('w, 'h, 'g) lock_env \<Rightarrow> mbuf \<Rightarrow> u64 \<Rightarrow> u32 \<Rightarrow> shim_globals \<times> 'w \<Rightarrow> (efi_status \<times> shim_globals \<times> 'w) res option"
where
  "verify_in_protocol env b data datasize gw =
     (let (g, w) = gw; pool = ve_pool (lk_verify env) in
      case bindR (read_header (protocol_pe env) b data datasize) (\<lambda>ctx.
           bindR (generate_hash (lk_sha256 env) (lk_sha1 env) pool b data datasize ctx) (\<lambda>(_, sha1hash, _).
           bindR (load b data (unat datasize)) (\<lambda>bytes. Inr (sha1hash, bytes)))) of
        Inl Fault \<Rightarrow> Some (Inl Fault)
      | Inl (Status st) \<Rightarrow> Some (Inr (st, g, w))
      | Inr (sha1hash, bytes) \<Rightarrow>
          (case tpm_log_pe (lk_tpm env) (lk_require_tpm env) pool (tpm g) w data bytes 0 None (Some sha1hash) 4 of
             (st, t, w) \<Rightarrow>
               if lk_require_tpm env \<and> EFI_ERROR st then Some (Inr (st, g\<lparr>tpm := t\<rparr>, w))
               else verify_copy env bytes datasize (g\<lparr>tpm := t\<rparr>, w)))"

definition shim_verify ::
  "('w, 'h, 'g) lock_env \<Rightarrow> mbuf \<Rightarrow> u64 \<Rightarrow> u32 \<Rightarrow> shim_globals \<times> 'w \<Rightarrow> (efi_status \<times> shim_globals \<times> 'w) res option"
where
  "shim_verify env b data datasize gw =
     (if datasize <s 0 then Some (Inr (EFI_INVALID_PARAMETER, gw))
      else bindO (verify_in_protocol env b data datasize
                   ((fst gw)\<lparr>loader_is_participating := True, in_protocol := True\<rparr>, snd gw))
        (\<lambda>(st, g, w). Some (Inr (st, g\<lparr>in_protocol := False\<rparr>, w))))"

definition shim_hash ::
  "('w, 'h, 'g) lock_env \<Rightarrow> mbuf \<Rightarrow> u64 \<Rightarrow> u32 \<Rightarrow> pe_context \<Rightarrow> shim_globals
   \<Rightarrow> (bytes \<times> bytes \<times> pe_context) res \<times> shim_globals"
where
  "shim_hash env b data datasize ctx g =
     (if datasize <s 0 then (Inl (Status EFI_INVALID_PARAMETER), g)
      else (generate_hash (lk_sha256 env) (lk_sha1 env) (ve_pool (lk_verify env)) b data datasize ctx,
            g\<lparr>in_protocol := False\<rparr>))"

definition shim_read_header ::
  "('w, 'h, 'g) lock_env \<Rightarrow> mbuf \<Rightarrow> u64 \<Rightarrow> u32 \<Rightarrow> shim_globals \<Rightarrow> pe_context res \<times> shim_globals"
where
  "shim_read_header env b data datasize g =
     (read_header (protocol_pe env) b data datasize, g\<lparr>in_protocol := False\<rparr>)"

section \<open>Measurements and the variables\<close>

text \<open>What is kept by every event that is logged, such as the contents of the variables.\<close>

definition tpm_keeps :: "'w tpm_protocols \<Rightarrow> ('w \<Rightarrow> bool) \<Rightarrow> bool" where
  "tpm_keeps fw P \<longleftrightarrow>
     (\<forall>w a buf ev. P w \<longrightarrow> P (snd (cc_hash_log_extend_event fw w a buf ev)))
   \<and> (\<forall>w a buf ev. P w \<longrightarrow> P (snd (hash_log_extend_event fw w a buf ev)))
   \<and> (\<forall>w buf ev. P w \<longrightarrow> P (snd (log_extend_event fw w buf ev)))"

lemma tpm_keepsD:
  assumes "tpm_keeps fw P" and "P w"
  shows "cc_hash_log_extend_event fw w a buf ev = (st, w') \<Longrightarrow> P w'"
    and "hash_log_extend_event fw w a buf ev = (st, w') \<Longrightarrow> P w'"
    and "log_extend_event fw w buf ev' = (st, w') \<Longrightarrow> P w'"
  using assms unfolding tpm_keeps_def by (metis snd_conv)+

lemma cc_log_keeps: "tpm_keeps fw P \<Longrightarrow> P w \<Longrightarrow> cc_log_event_raw fw pool w buf pcr log type pe = (st, w') \<Longrightarrow> P w'"
  by (auto simp add: cc_log_event_raw_def split: if_splits prod.splits dest: tpm_keepsD(1))

lemma tpm2_log_keeps: "tpm_keeps fw P \<Longrightarrow> P w \<Longrightarrow> tpm2_log_event fw pool w buf pcr log type h = (st, w') \<Longrightarrow> P w'"
  by (auto simp add: tpm2_log_event_def Let_def split: if_splits prod.splits dest: tpm_keepsD(2))

lemma tpm1_log_keeps: "tpm_keeps fw P \<Longrightarrow> P w \<Longrightarrow> tpm1_log_event fw pool s w buf pcr log type h = (st, s', w') \<Longrightarrow> P w'"
  by (auto simp add: tpm1_log_event_def Let_def split: if_splits prod.splits dest: tpm_keepsD(3))

lemma tpm_log_keeps:
  assumes "tpm_keeps fw P" and "P w" and "tpm_log_event_raw fw rq pool s w buf pcr log type h = (st, s', w')"
  shows "P w'"
  using assms(3) cc_log_keeps [OF assms(1,2)]
  by (auto simp add: tpm_log_event_raw_def split: if_splits prod.splits sum.splits located.splits
      dest!: tpm1_log_keeps [OF assms(1), rotated] tpm2_log_keeps [OF assms(1), rotated])

lemma tpm_log_pe_keeps:
  assumes "tpm_keeps fw P" and "P w" and "tpm_log_pe fw rq pool s w at0 buf addr path h pcr = (st, s', w')"
  shows "P w'"
  using assms(2,3) by (auto simp add: tpm_log_pe_def split: if_splits dest: tpm_log_keeps [OF assms(1,2)])

section \<open>Errors of the header parser\<close>

lemma err_only_ite [simp]: "err_only (if c then x else y) = (if c then err_only x else err_only y)"
  by simp

lemma err_only_read_header [simp]: "err_only (read_header penv b data n)"
  by (simp add: read_header_def find_pe_header_def image_is_64_bit_def read_pe_header_def image_is_loadable_def
      read_opt_header_def err_only_bind Let_def split: prod.splits)

section \<open>Properties\<close>

lemma int_negative:
  assumes "\<not> (n :: u32) < 0x80000000"
  shows "n <s 0"
proof -
  have "bit n 31"
  proof (rule ccontr)
    assume b: "\<not> bit n 31"
    have "n = take_bit 31 n"
    proof (rule bit_word_eqI)
      fix j assume "j < LENGTH(32)"
      then show "bit n j = bit (take_bit 31 n) j" using b by (cases "j = 31") (auto simp add: bit_take_bit_iff)
    qed
    then have "unat n < 2 ^ 31" by (metis unsigned_take_bit_eq take_bit_nat_less_exp)
    then show False using assms by (simp add: word_less_nat_alt)
  qed
  then show ?thesis by (simp add: word_sless_alt bit_last_iff [symmetric, where ?'a = 32, simplified])
qed

text \<open>
  What a verdict of the protocol rests on: the file parses and is trusted, and its .sbat section
  passes; \<open>d\<close> are the signature databases.
\<close>

definition accepted_file ::
  "('w, 'h, 'g) lock_env \<Rightarrow> sig_dbs \<Rightarrow> (bytes \<Rightarrow> bytes) \<Rightarrow> (bytes \<Rightarrow> bytes) \<Rightarrow> sbat_var_entry list \<Rightarrow> bool \<Rightarrow> 'w \<Rightarrow> mbuf \<Rightarrow> bool"
where
  "accepted_file env d sha256 sha1 sbat protocol w f \<longleftrightarrow>
     (\<exists>ctx sec st. read_header (header_env env protocol) f (mb_base f) (word_of_nat (length (mb_data f))) = Inr ctx
       \<and> trusted (lk_verify env) d f (mb_base f) (word_of_nat (length (mb_data f))) ctx (lk_http env w f)
           (sha256 (signed_content f (mb_base f) ctx)) (sha1 (signed_content f (mb_base f) ctx))
       \<and> sbat_section_of f ctx sec
       \<and> verify_sbat_section (ve_pool (lk_verify env)) (lk_atoi env) sbat protocol sec = Inr st \<and> \<not> EFI_ERROR st)"

text \<open>The databases of a firmware state; \<open>lock_ok\<close> collects what is assumed of the environment.\<close>

definition store_has :: "(mock_state, 'h, 'g) lock_env \<Rightarrow> sig_dbs \<Rightarrow> mock_state \<Rightarrow> bool" where
  "store_has env d w \<longleftrightarrow> mock_good w \<and> dbs_ok (lk_verify env) (mock_vars w) d"

definition lock_ok ::
  "(mock_state, 'h, 'g) lock_env \<Rightarrow> (bytes \<Rightarrow> bytes) \<Rightarrow> (bytes \<Rightarrow> bytes) \<Rightarrow> sig_dbs \<Rightarrow> bool"
where
  "lock_ok env sha256 sha1 d \<longleftrightarrow>
     ve_rt (lk_verify env) = host_rt \<and> (\<forall>n. ve_pool (lk_verify env) n)
   \<and> computes (lk_sha256 env) sha256 \<and> computes (lk_sha1 env) sha1
   \<and> (\<forall>m. length (sha256 m) = 32) \<and> (\<forall>m. length (sha1 m) = 20)
   \<and> (\<forall>n. unat (lk_pool_at env n) + 2 ^ 33 \<le> 2 ^ 64)
   \<and> tpm_keeps (lk_tpm env) (store_has env d)"

lemma verify_copy_accepts:
  assumes ok: "lock_ok env sha256 sha1 d" and w: "store_has env d w"
    and n: "length bytes = unat datasize" "datasize < 0x80000000" and p: "in_protocol g"
    and v: "verify_copy env bytes datasize (g, w) = Some (Inr (st, g', w'))"
  shows "w' = w \<and> (\<exists>vm. g' = g\<lparr>verification_method := vm\<rparr>)
    \<and> (\<not> EFI_ERROR st \<longrightarrow> secure_mode (lk_verify env) w \<longrightarrow>
        accepted_file env d sha256 sha1 (sbat_var (sbat_state g)) True w \<lparr>mb_base = lk_pool_at env (length bytes), mb_data = bytes\<rparr>)"
proof (cases "secure_mode (lk_verify env) w")
  case False
  then show ?thesis using v by (auto simp add: verify_copy_def intro!: exI [of _ "verification_method g"])
next
  case True
  let ?copy = "\<lparr>mb_base = lk_pool_at env (unat datasize), mb_data = bytes\<rparr>"
  have f: "is_file ?copy (mb_base ?copy) datasize" using ok n by (simp add: is_file_def lock_ok_def)
  have pool: "ve_pool (lk_verify env) (unat datasize)" using ok by (simp add: lock_ok_def)
  show ?thesis
  proof (cases "read_header (protocol_pe env) ?copy (mb_base ?copy) datasize")
    case (Inl e)
    then show ?thesis
      using v True pool err_only_read_header [of "protocol_pe env" ?copy "mb_base ?copy" datasize]
      by (cases e) (auto simp add: verify_copy_def err_only_def intro!: exI [of _ "verification_method g"])
  next
    case (Inr ctx)
    then obtain vm ctx' where b: "verify_buffer (lk_verify env) w (lk_sha256 env) (lk_sha1 env) (ve_pool (lk_verify env))
        (lk_http env w ?copy) (lk_atoi env) (sbat_var (sbat_state g)) True ?copy (mb_base ?copy) datasize ctx (verification_method g)
        = Some (Inr (st, vm, ctx'))" "g' = g\<lparr>verification_method := vm\<rparr>" "w' = w"
      using v True pool p by (auto simp add: verify_copy_def bindO_def Let_def split: option.splits sum.splits)
    have env: "mock_good w" "ve_rt (lk_verify env) = host_rt" "\<forall>n. ve_pool (lk_verify env) n"
      "dbs_ok (lk_verify env) (mock_vars w) d" "computes (lk_sha256 env) sha256" "computes (lk_sha1 env) sha1"
      "\<forall>m. length (sha256 m) = 32" "\<forall>m. length (sha1 m) = 20"
      using ok w by (simp_all add: lock_ok_def store_has_def)
    note a = buffer_accepts [OF env(1-4) f n(2) Inr env(5-8) b(1)]
    have sz: "word_of_nat (length bytes) = datasize" using n by simp
    have "accepted_file env d sha256 sha1 (sbat_var (sbat_state g)) True w ?copy" if "\<not> EFI_ERROR st"
      using a [OF that] Inr that n(1) sz unfolding accepted_file_def protocol_pe_def by auto
    then show ?thesis using b(2,3) n(1) by auto
  qed
qed


text \<open>The demonstration file through the protocol, with no TPM.\<close>

definition absent_tpm :: "'w tpm_protocols" where
  "absent_tpm = \<lparr>locate_cc = (\<lambda>w. False), map_pcr_to_mr_index = (\<lambda>w p. (EFI_UNSUPPORTED, 0)),
     cc_hash_log_extend_event = (\<lambda>w fl b ev. (EFI_UNSUPPORTED, w)), locate_tpm2 = (\<lambda>w. EFI_NOT_FOUND),
     get_capability = (\<lambda>w. (EFI_UNSUPPORTED,
        \<lparr>StructureVersion_Major = 1, StructureVersion_Minor = 1, PresentFlag = False\<rparr>)),
     hash_log_extend_event = (\<lambda>w fl b ev. (EFI_UNSUPPORTED, w)), locate_tpm = (\<lambda>w. EFI_NOT_FOUND),
     status_check = (\<lambda>w. (EFI_UNSUPPORTED, \<lparr>tcg_TPMPresentFlag = False, tcg_TPMDeactivatedFlag = False\<rparr>)),
     log_extend_event = (\<lambda>w b ev. (EFI_UNSUPPORTED, w))\<rparr>"

lemma absent_tpm_keeps: "tpm_keeps absent_tpm P"
  by (simp add: tpm_keeps_def absent_tpm_def)

lemma absent_tpm_log: "(\<forall>n. pool n) \<Longrightarrow> tpm_log_pe absent_tpm False pool s w a buf addr path h pcr = (EFI_SUCCESS, s, w)"
  by (auto simp add: tpm_log_pe_def tpm_log_event_raw_def cc_log_event_raw_def tpm_locate_protocol_def absent_tpm_def)

definition demo_lock_env :: "(mock_state, bytes, bytes) lock_env" where
  "demo_lock_env = \<lparr>lk_verify = demo_verify_env, lk_sha256 = demo_sha256 8, lk_sha1 = demo_sha1, lk_atoi = (\<lambda>_. 0),
     lk_pe = demo_pe_env, lk_tpm = absent_tpm, lk_require_tpm = False, lk_http = (\<lambda>_ _. EFI_NOT_FOUND),
     lk_pool_at = (\<lambda>_. 0x10000)\<rparr>"

definition demo_globals :: shim_globals where
  "demo_globals = \<lparr>loader_is_participating = False, in_protocol = False, verification_method = VERIFIED_BY_NOTHING,
     sbat_state = \<lparr>sbat_policy = 255, ssp_policy = 255, sbat_var = []\<rparr>, tpm = tpm_initial\<rparr>"

lemma demo_lock_ok: "lock_ok demo_lock_env (\<lambda>_. demo_hash 8) (\<lambda>_. replicate 20 0) demo_dbs"
  using demo_sha_facts demo_env_facts(1,2) by (simp add: lock_ok_def demo_lock_env_def absent_tpm_keeps)

lemma demo_store_has: "store_has demo_lock_env demo_dbs demo_secure_store"
  using demo_secure_good demo_secure_dbs by (simp add: store_has_def demo_lock_env_def)

lemma read_header_in_protocol:
  assumes "pe_arch env = X64" and "\<not> pe_allow_32bit_kernel_on_x64 env"
  shows "read_header (env\<lparr>pe_in_protocol := x\<rparr>) b data n = read_header env b data n"
proof -
  have "allow_64_bit (env\<lparr>pe_in_protocol := x\<rparr>) = allow_64_bit env"
    "allow_32_bit (env\<lparr>pe_in_protocol := x\<rparr>) = allow_32_bit env" "pe_arch (env\<lparr>pe_in_protocol := x\<rparr>) = pe_arch env"
    using assms by (simp_all add: allow_64_bit_def allow_32_bit_def)
  then have il: "image_is_loadable (env\<lparr>pe_in_protocol := x\<rparr>) b pe = image_is_loadable env b pe" for pe
    by (simp only: image_is_loadable_def)
  have nx: "pe_require_nx (env\<lparr>pe_in_protocol := x\<rparr>) = pe_require_nx env" by simp
  have "read_pe_header (env\<lparr>pe_in_protocol := x\<rparr>) b data n pe is64 = read_pe_header env b data n pe is64" for pe is64
    unfolding read_pe_header_def il nx ..
  then show ?thesis by (simp only: read_header_def)
qed

lemma demo_protocol_header: "read_header (protocol_pe demo_lock_env) demo_pe 0x10000 400 = Inr demo_ctx"
proof -
  have "pe_arch demo_pe_env = X64" "\<not> pe_allow_32bit_kernel_on_x64 demo_pe_env" by (simp_all add: demo_pe_env_def)
  then show ?thesis using demo_read_header by (simp add: protocol_pe_def header_env_def demo_lock_env_def read_header_in_protocol)
qed

lemma demo_shim_verify:
  "\<exists>g'. shim_verify demo_lock_env demo_pe 0x10000 400 (demo_globals, demo_secure_store) = Some (Inr (EFI_SUCCESS, g', demo_secure_store))"
proof -
  have g: "generate_hash (demo_sha256 8) demo_sha1 (\<lambda>_. True) demo_pe 0x10000 400 demo_ctx = Inr (demo_hash 8, replicate 20 0, demo_ctx)"
    unfolding demo_sha256_def demo_sha1_def using demo_generate_hash [of "\<lambda>_. demo_hash 8" "\<lambda>_. replicate 20 0"] by simp
  obtain vm' where v: "verify_buffer demo_verify_env demo_secure_store (demo_sha256 8) demo_sha1 (\<lambda>_. True) EFI_NOT_FOUND (\<lambda>_. 0) []
      True demo_pe 0x10000 400 demo_ctx VERIFIED_BY_NOTHING = Some (Inr (EFI_SUCCESS, vm', demo_ctx))"
    using demo_verify_buffer [OF demo_secure_good demo_secure_dbs] by blast
  have l: "load demo_pe 0x10000 400 = Inr (mb_data demo_pe)" using demo_length by (simp add: load_def in_buf_def off_def demo_pe_def)
  have c: "\<lparr>mb_base = 0x10000, mb_data = mb_data demo_pe\<rparr> = demo_pe" by (simp add: demo_pe_def)
  have e: "lk_verify demo_lock_env = demo_verify_env" "lk_sha256 demo_lock_env = demo_sha256 8" "lk_sha1 demo_lock_env = demo_sha1"
    "lk_atoi demo_lock_env = (\<lambda>_. 0)" "lk_tpm demo_lock_env = absent_tpm" "\<not> lk_require_tpm demo_lock_env"
    "lk_http demo_lock_env w f = EFI_NOT_FOUND" "lk_pool_at demo_lock_env n = 0x10000" "ve_pool demo_verify_env = (\<lambda>_. True)" for w f n
    by (simp_all add: demo_lock_env_def demo_verify_env_def)
  have copy: "verify_copy demo_lock_env (mb_data demo_pe) 400 (g, demo_secure_store)
      = Some (Inr (EFI_SUCCESS, g\<lparr>verification_method := vm'\<rparr>, demo_secure_store))"
    if "sbat_var (sbat_state g) = []" "in_protocol g" "verification_method g = VERIFIED_BY_NOTHING" for g
  proof -
    have b: "mb_base demo_pe = 0x10000" by (simp add: demo_pe_def)
    show ?thesis
      unfolding verify_copy_def Let_def prod.case e c that b demo_protocol_header using v that(2) by (simp add: demo_secure_mode)
  qed
  have "verify_in_protocol demo_lock_env demo_pe 0x10000 400 (g, demo_secure_store)
      = verify_copy demo_lock_env (mb_data demo_pe) 400 (g, demo_secure_store)" for g
    unfolding verify_in_protocol_def Let_def prod.case e demo_protocol_header
    by (simp add: g l absent_tpm_log e)
  then show ?thesis
    using copy int_nonneg [of 400] by (simp add: shim_verify_def demo_globals_def)
qed


end
