(* ===== verification/SecondStage.thy ===== *)
theory SecondStage
  imports ShimLock LoadOptions FileProtocol
begin

text \<open>
  shim.c, the start of the second stage: finding its file, reading it from the disk or the
  network, loading it, and running it with the loaded image protocol changed for it. A device path
  is the text \<open>DevicePathToStr\<close> makes of it. Network booting (netboot.c, httpboot.c) is a
  parameter here, and so is what a started program does.
\<close>

section \<open>State and environment\<close>

text \<open>The loaded image protocol of shim itself; the load options are a pointer and a size.\<close>

record loaded_image =
  li_FilePath :: "wstr option"
  li_ImageBase :: u64
  li_ImageSize :: u64
  li_options :: "nat option \<times> u32"

text \<open>
  \<open>bs_li\<close> is what \<open>shim_li\<close> points to, \<open>bs_bak\<close> is \<open>shim_li_bak\<close>, and \<open>bs_lo\<close>
  the second stage and its options with the buffer they lie in.
\<close>

record ('w, 'm) boot_state =
  bs_globals :: shim_globals
  bs_lo :: load_options_state
  bs_li :: loaded_image
  bs_bak :: loaded_image
  bs_attrs :: 'm
  bs_fw :: 'w

text \<open>
  \<open>bo_entry\<close> runs the program at an entry point. It may do anything to the firmware, the page
  attributes and the loaded image, and it may call shim's protocol.
\<close>

record ('w, 'h, 'g, 'm, 'f) boot_env =
  bo_lock :: "('w, 'h, 'g) lock_env"
  bo_files :: "('w, 'f) file_protocol"
  bo_sizeof_file_info :: nat
  bo_HandleProtocol :: "'w \<Rightarrow> efi_status"
  bo_findNetboot :: "'w \<Rightarrow> bool"
  bo_parseNetbootinfo :: "'w \<Rightarrow> bytes \<Rightarrow> efi_status \<times> 'w"
  bo_FetchNetbootimage :: "'w \<Rightarrow> efi_status \<times> bytes \<times> 'w"
  bo_find_httpboot :: "'w \<Rightarrow> bool"
  bo_httpboot_fetch_buffer :: "'w \<Rightarrow> bytes \<Rightarrow> efi_status \<times> bytes \<times> 'w"
  bo_FileDevicePath :: "wstr \<Rightarrow> wstr option"
  bo_attr_proto :: "'m mem_attr_proto"
  bo_AllocatePages :: "'w \<Rightarrow> nat \<Rightarrow> mbuf option"
  bo_tpm_status :: "'w \<Rightarrow> efi_status option"
  bo_DEFAULT_LOADER :: wstr
  bo_EFI_ARCH :: string
  bo_entry :: "u64 \<Rightarrow> mbuf \<Rightarrow> ('w, 'm) boot_state \<Rightarrow> efi_status \<times> ('w, 'm) boot_state"

definition bo_pool :: "('w, 'h, 'g, 'm, 'f) boot_env \<Rightarrow> nat \<Rightarrow> bool" where
  "bo_pool env = ve_pool (lk_verify (bo_lock env))"

definition path_lit :: "string \<Rightarrow> wstr" where
  "path_lit s = map (\<lambda>c. if c = SLASH then BACKSLASH else c) (wide s)"

definition FALLBACK :: "('w, 'h, 'g, 'm, 'f) boot_env \<Rightarrow> wstr" where
  "FALLBACK env = path_lit (''/fb'' @ bo_EFI_ARCH env @ ''.efi'')"

definition MOK_MANAGER :: "('w, 'h, 'g, 'm, 'f) boot_env \<Rightarrow> wstr" where
  "MOK_MANAGER env = path_lit (''/mm'' @ bo_EFI_ARCH env @ ''.efi'')"

section \<open>Removable media\<close>

text \<open>In a \<open>path_lit\<close> each slash stands for a backslash.\<close>

definition boot_prefixes :: "wstr list" where
  "boot_prefixes = [path_lit ''/EFI/BOOT/BOOT'', path_lit ''/EFI/BOOT/'' @ wide ''/BOOT'',
     path_lit ''EFI/BOOT/BOOT'', path_lit ''EFI/BOOT/'' @ wide ''/BOOT'']"

fun matches_none :: "wstr \<Rightarrow> wstr list \<Rightarrow> bool res" where
  "matches_none s [] = Inr True"
| "matches_none s (p # ps) =
     bindR (StrnCaseCmp (s @ [0]) (p @ [0]) (length p)) (\<lambda>d. if d = 0 then Inr False else matches_none s ps)"

definition is_removable_media_path :: "wstr option \<Rightarrow> bool res" where
  "is_removable_media_path dp =
     (case dp of None \<Rightarrow> Inl Fault
      | Some bootpath \<Rightarrow>
          bindR (matches_none bootpath boot_prefixes) (\<lambda>none.
            if none then Inr False
            else let pathlen = length bootpath in
              if pathlen < 5 then Inr False
              else bindR (StrCaseCmp (drop (pathlen - 4) bootpath @ [0]) (wide ''.EFI'' @ [0])) (\<lambda>d. Inr (d = 0))))"

definition should_use_fallback :: "('w, 'h, 'g, 'm, 'f) boot_env \<Rightarrow> ('w, 'm) boot_state \<Rightarrow> (bool \<times> ('w, 'm) boot_state) res" where
  "should_use_fallback env s =
     (let ff = bo_files env; w = bs_fw s in
      if EFI_ERROR (bo_HandleProtocol env w) then Inr (False, s)
      else bindR (is_removable_media_path (li_FilePath (bs_li s))) (\<lambda>removable.
        if \<not> removable \<or> EFI_ERROR (ff_HandleProtocol ff w) then Inr (False, s)
        else (case ff_OpenVolume ff w of (st, vh, w) \<Rightarrow>
          let closed = (\<lambda>h w. case h of None \<Rightarrow> w | Some h \<Rightarrow> ff_Close ff w h) in
          if EFI_ERROR st then Inr (False, s\<lparr>bs_fw := closed vh w\<rparr>)
          else case vh of None \<Rightarrow> Inl Fault
          | Some vol \<Rightarrow>
            (case ff_Open ff w vol (path_lit ''/EFI/BOOT'' @ FALLBACK env) of (st, fh, w) \<Rightarrow>
               Inr (\<not> EFI_ERROR st, s\<lparr>bs_fw := closed vh (closed fh w)\<rparr>)))))"

section \<open>Reading the file\<close>

text \<open>
  The file's bytes. The size that \<open>Read\<close> reports is the length of what it returns; a buffer that
  was not allocated is only checked for the first time.
\<close>

definition read_whole_file ::
  "('w, 'f) file_protocol \<Rightarrow> (nat \<Rightarrow> bool) \<Rightarrow> 'w \<Rightarrow> 'f \<Rightarrow> nat \<Rightarrow> bytes res \<times> 'w"
where
  "read_whole_file ff pool w grub n =
     (if \<not> pool n then (Inl (Status EFI_OUT_OF_RESOURCES), w)
      else case ff_Read ff w grub n of (st, data, w) \<Rightarrow>
        if st = EFI_BUFFER_TOO_SMALL then
          (if \<not> pool (length data) then (Inl Fault, w)
           else case ff_Read ff w grub (length data) of (st, data, w) \<Rightarrow>
             if EFI_ERROR st then (Inl (Status st), w) else (Inr data, w))
        else if EFI_ERROR st then (Inl (Status st), w) else (Inr data, w))"

definition file_info_size ::
  "('w, 'f) file_protocol \<Rightarrow> (nat \<Rightarrow> bool) \<Rightarrow> nat \<Rightarrow> 'w \<Rightarrow> 'f \<Rightarrow> efi_status + nat"
where
  "file_info_size ff pool buffersize w grub =
     (if \<not> pool buffersize then Inl EFI_OUT_OF_RESOURCES
      else case ff_GetInfo ff w grub buffersize of (st, n, fi) \<Rightarrow>
        if st = EFI_BUFFER_TOO_SMALL then
          (if \<not> pool n then Inl EFI_OUT_OF_RESOURCES
           else case ff_GetInfo ff w grub n of (st, _, fi) \<Rightarrow>
             if EFI_ERROR st then Inl st else Inr (fi_FileSize fi))
        else if EFI_ERROR st then Inl st else Inr (fi_FileSize fi))"

definition load_image_disk ::
  "('w, 'f) file_protocol \<Rightarrow> (nat \<Rightarrow> bool) \<Rightarrow> nat \<Rightarrow> 'w \<Rightarrow> wstr \<Rightarrow> bytes res \<times> 'w"
where
  "load_image_disk ff pool sizeof_info w PathName =
     (if EFI_ERROR (ff_HandleProtocol ff w) then (Inl (Status (ff_HandleProtocol ff w)), w)
      else case ff_OpenVolume ff w of (st, root, w) \<Rightarrow>
        if EFI_ERROR st then (Inl (Status st), w)
        else case root of None \<Rightarrow> (Inl Fault, w)
        | Some root \<Rightarrow>
          (case ff_Open ff w root PathName of (st, grub, w) \<Rightarrow>
             if EFI_ERROR st then (Inl (Status st), w)
             else case grub of None \<Rightarrow> (Inl Fault, w)
             | Some grub \<Rightarrow>
               (case file_info_size ff pool sizeof_info w grub of
                  Inl st \<Rightarrow> (Inl (Status st), w)
                | Inr n \<Rightarrow> read_whole_file ff pool w grub n)))"

text \<open>
  \<open>str16_to_str8\<close>: the low bytes up to the NUL, in a buffer one byte longer than needed,
  whose allocation is not checked.
\<close>

definition str16_to_str8 :: "(nat \<Rightarrow> bool) \<Rightarrow> wstr \<Rightarrow> bytes res" where
  "str16_to_str8 pool s = (if pool (length s + 2) then Inr (map ucast s) else Inl Fault)"

text \<open>The file from the network or the disk; \<open>PathName\<close> is the path made for it.\<close>

definition fetch_image ::
  "('w, 'h, 'g, 'm, 'f) boot_env \<Rightarrow> wstr \<Rightarrow> wstr \<Rightarrow> 'w \<Rightarrow> bytes res \<times> 'w"
where
  "fetch_image env ImagePath PathName w =
     (let pool = bo_pool env in
      if bo_findNetboot env w then
        (case str16_to_str8 pool ImagePath of Inl e \<Rightarrow> (Inl e, w)
         | Inr name \<Rightarrow>
           (case bo_parseNetbootinfo env w name of (st, w) \<Rightarrow>
              if EFI_ERROR st then (Inl (Status EFI_PROTOCOL_ERROR), w)
              else case bo_FetchNetbootimage env w of (st, data, w) \<Rightarrow>
                if EFI_ERROR st then (Inl (Status st), w) else (Inr data, w)))
      else if bo_find_httpboot env w then
        (case str16_to_str8 pool ImagePath of Inl e \<Rightarrow> (Inl e, w)
         | Inr name \<Rightarrow>
           (case bo_httpboot_fetch_buffer env w name of (st, data, w) \<Rightarrow>
              if EFI_ERROR st then (Inl (Status st), w) else (Inr data, w)))
      else load_image_disk (bo_files env) pool (bo_sizeof_file_info env) w PathName)"

text \<open>The path and the file; its size is an \<open>int\<close>.\<close>

definition read_image ::
  "('w, 'h, 'g, 'm, 'f) boot_env \<Rightarrow> wstr \<Rightarrow> ('w, 'm) boot_state \<Rightarrow> (wstr \<times> bytes) res \<times> ('w, 'm) boot_state"
where
  "read_image env ImagePath s =
     (let w = bs_fw s in
      if EFI_ERROR (bo_HandleProtocol env w) then (Inl (Status (bo_HandleProtocol env w)), s)
      else case generate_path_from_image_path (bo_pool env) (li_FilePath (bs_li s)) ImagePath of
        Inl e \<Rightarrow> (Inl e, s)
      | Inr PathName \<Rightarrow>
          (case fetch_image env ImagePath PathName w of
             (Inl e, w) \<Rightarrow> (Inl e, s\<lparr>bs_fw := w\<rparr>)
           | (Inr data, w) \<Rightarrow>
               if (word_of_nat (length data) :: u32) <s 0 then (Inl (Status EFI_INVALID_PARAMETER), s\<lparr>bs_fw := w\<rparr>)
               else (Inr (PathName, data), s\<lparr>bs_fw := w\<rparr>)))"

section \<open>Starting it\<close>

definition restore_loaded_image :: "('w, 'm) boot_state \<Rightarrow> ('w, 'm) boot_state" where
  "restore_loaded_image s = s\<lparr>bs_li := bs_bak s\<rparr>"

text \<open>\<open>handle_image\<close> of pe.c on the globals; it also sets the fields of the loaded image.\<close>

definition handle_file ::
  "('w, 'h, 'g, 'm, 'f) boot_env \<Rightarrow> bytes \<Rightarrow> ('w, 'm) boot_state
   \<Rightarrow> ('m load_result \<times> ('w, 'm) boot_state) res option"
where
  "handle_file env bytes s =
     (let lk = bo_lock env; g = bs_globals s; w = bs_fw s;
          data = lk_pool_at lk (length bytes); f = \<lparr>mb_base = data, mb_data = bytes\<rparr> in
      bindO (handle_image (lk_verify lk) w (lk_sha256 lk) (lk_sha1 lk) (bo_pool env) (lk_http lk w f) (lk_atoi lk)
               (sbat_var (sbat_state g)) (header_env lk (in_protocol g)) (bo_tpm_status env w)
               (bo_attr_proto env) (bo_AllocatePages env w) (bs_attrs s) f data (word_of_nat (length bytes))
               (verification_method g))
        (\<lambda>(vm, r).
          let li = (case lr_ImageBase r of None \<Rightarrow> bs_li s
                    | Some base \<Rightarrow> (bs_li s)\<lparr>li_ImageBase := base, li_ImageSize := lr_ImageSize r,
                        li_options := (load_options (bs_lo s), load_options_size (bs_lo s))\<rparr>)
          in Some (Inr (r, s\<lparr>bs_globals := g\<lparr>verification_method := vm\<rparr>, bs_attrs := lr_attrs r, bs_li := li\<rparr>))))"

text \<open>The call of the entry point. Only shim writes its copy of the loaded image.\<close>

definition run_entry ::
  "('w, 'h, 'g, 'm, 'f) boot_env \<Rightarrow> u64 \<Rightarrow> mbuf \<Rightarrow> ('w, 'm) boot_state \<Rightarrow> efi_status \<times> ('w, 'm) boot_state"
where
  "run_entry env entry img s = (case bo_entry env entry img s of (st, s') \<Rightarrow> (st, s'\<lparr>bs_bak := bs_bak s\<rparr>))"

definition load_and_run ::
  "('w, 'h, 'g, 'm, 'f) boot_env \<Rightarrow> wstr \<Rightarrow> bytes \<Rightarrow> ('w, 'm) boot_state \<Rightarrow> (efi_status \<times> ('w, 'm) boot_state) res option"
where
  "load_and_run env PathName bytes s =
     (case bo_FileDevicePath env PathName of
        None \<Rightarrow> Some (Inr (EFI_OUT_OF_RESOURCES, s\<lparr>bs_li := (bs_li s)\<lparr>li_FilePath := None\<rparr>\<rparr>))
      | Some dp \<Rightarrow>
          bindO (handle_file env bytes (s\<lparr>bs_li := (bs_li s)\<lparr>li_FilePath := Some dp\<rparr>\<rparr>)) (\<lambda>(r, s).
            if EFI_ERROR (lr_status r) then Some (Inr (lr_status r, s))
            else case (lr_entry r, lr_pages r) of
              (Some entry, Some img) \<Rightarrow>
                Some (Inr (run_entry env entry img (s\<lparr>bs_globals := (bs_globals s)\<lparr>loader_is_participating := False\<rparr>\<rparr>)))
            | _ \<Rightarrow> Some (Inl Fault)))"

definition start_image ::
  "('w, 'h, 'g, 'm, 'f) boot_env \<Rightarrow> wstr \<Rightarrow> ('w, 'm) boot_state \<Rightarrow> (efi_status \<times> ('w, 'm) boot_state) res option"
where
  "start_image env ImagePath s =
     (case read_image env ImagePath s of
        (Inl Fault, s) \<Rightarrow> Some (Inl Fault)
      | (Inl (Status st), s) \<Rightarrow> Some (Inr (st, s))
      | (Inr (PathName, bytes), s) \<Rightarrow>
          bindO (load_and_run env PathName bytes (s\<lparr>bs_bak := bs_li s\<rparr>)) (\<lambda>(st, s).
            Some (Inr (st, restore_loaded_image s))))"

section \<open>The second stage\<close>

text \<open>The path of the second stage: the default loader unless the options name one.\<close>

definition second_stage_path :: "('w, 'h, 'g, 'm, 'f) boot_env \<Rightarrow> load_options_state \<Rightarrow> wstr res" where
  "second_stage_path env lo =
     (case second_stage lo of None \<Rightarrow> Inr (bo_DEFAULT_LOADER env)
      | Some p \<Rightarrow> string_at (lo_buf lo) p (length (lo_buf lo)))"

definition start_stage ::
  "('w, 'h, 'g, 'm, 'f) boot_env \<Rightarrow> bool \<Rightarrow> ('w, 'm) boot_state \<Rightarrow> (efi_status \<times> ('w, 'm) boot_state) res option"
where
  "start_stage env use_fb s =
     (case (if use_fb then Inr (FALLBACK env) else second_stage_path env (bs_lo s)) of
        Inl e \<Rightarrow> Some (Inl e)
      | Inr path \<Rightarrow> start_image env path s)"

text \<open>
  \<open>init_grub\<close>: an untrusted second stage sends the user to MokManager and is tried again; the
  flag of the first part is its early return.
\<close>

definition start_or_enroll ::
  "('w, 'h, 'g, 'm, 'f) boot_env \<Rightarrow> bool \<Rightarrow> ('w, 'm) boot_state \<Rightarrow> (bool \<times> efi_status \<times> ('w, 'm) boot_state) res option"
where
  "start_or_enroll env use_fb s =
     bindO (start_stage env use_fb s) (\<lambda>(st, s).
       if st = EFI_SECURITY_VIOLATION \<or> st = EFI_ACCESS_DENIED then
         bindO (start_image env (MOK_MANAGER env) s) (\<lambda>(st, s).
           if EFI_ERROR st then Some (Inr (True, st, s))
           else bindO (start_stage env use_fb s) (\<lambda>(st, s). Some (Inr (False, st, s))))
       else Some (Inr (False, st, s)))"

definition init_grub ::
  "('w, 'h, 'g, 'm, 'f) boot_env \<Rightarrow> ('w, 'm) boot_state \<Rightarrow> (efi_status \<times> ('w, 'm) boot_state) res option"
where
  "init_grub env s =
     (case should_use_fallback env s of
        Inl e \<Rightarrow> Some (Inl e)
      | Inr (use_fb, s) \<Rightarrow>
          bindO (start_or_enroll env use_fb s) (\<lambda>(early, st, s).
            if \<not> early \<and> \<not> use_fb \<and> (st = EFI_INVALID_PARAMETER \<or> st = EFI_NOT_FOUND)
            then start_image env (bo_DEFAULT_LOADER env)
                   (s\<lparr>bs_lo := (bs_lo s)\<lparr>load_options := None, load_options_size := 0\<rparr>\<rparr>)
            else Some (Inr (st, s))))"

text \<open>The options name the second stage; \<open>no_removable\<close> is \<open>DISABLE_REMOVABLE_LOAD_OPTIONS\<close>.\<close>

definition set_second_stage ::
  "('w, 'h, 'g, 'm, 'f) boot_env \<Rightarrow> bool \<Rightarrow> ('w, 'm) boot_state \<Rightarrow> (efi_status \<times> ('w, 'm) boot_state) res option"
where
  "set_second_stage env no_removable s =
     (let s = s\<lparr>bs_lo := (bs_lo s)\<lparr>second_stage := None, load_options := None, load_options_size := 0\<rparr>\<rparr>;
          st = bo_HandleProtocol env (bs_fw s) in
      if EFI_ERROR st then Some (Inr (st, s))
      else case (if no_removable then is_removable_media_path (li_FilePath (bs_li s)) else Inr False) of
        Inl e \<Rightarrow> Some (Inl e)
      | Inr True \<Rightarrow> Some (Inr (EFI_SUCCESS, s))
      | Inr False \<Rightarrow>
          bindO (parse_load_options (bo_pool env) (li_FilePath (bs_li s)) (bs_lo s))
            (\<lambda>(st, lo). Some (Inr (st, s\<lparr>bs_lo := lo\<rparr>))))"

section \<open>What a start changes\<close>

lemma bo_pool_entry [simp]: "bo_pool (env\<lparr>bo_entry := e\<rparr>) = bo_pool env"
  by (simp add: bo_pool_def)

lemma fetch_image_entry [simp]: "fetch_image (env\<lparr>bo_entry := e\<rparr>) path full w = fetch_image env path full w"
proof -
  let ?e = "env\<lparr>bo_entry := e\<rparr>"
  have f: "bo_parseNetbootinfo ?e = bo_parseNetbootinfo env" "bo_FetchNetbootimage ?e = bo_FetchNetbootimage env"
    "bo_httpboot_fetch_buffer ?e = bo_httpboot_fetch_buffer env" "bo_findNetboot ?e = bo_findNetboot env"
    "bo_find_httpboot ?e = bo_find_httpboot env" "bo_files ?e = bo_files env" "bo_sizeof_file_info ?e = bo_sizeof_file_info env"
    by simp_all
  show ?thesis unfolding fetch_image_def f bo_pool_entry ..
qed

lemma read_image_entry [simp]: "read_image (env\<lparr>bo_entry := e\<rparr>) path s = read_image env path s"
proof -
  have h: "bo_HandleProtocol (env\<lparr>bo_entry := e\<rparr>) = bo_HandleProtocol env" by simp
  show ?thesis unfolding read_image_def fetch_image_entry bo_pool_entry h ..
qed

lemma handle_file_entry [simp]: "handle_file (env\<lparr>bo_entry := e\<rparr>) bytes s = handle_file env bytes s"
  by (simp add: handle_file_def)

lemma read_image_state: "read_image env path s = (r, s1) \<Longrightarrow> \<exists>w. s1 = s\<lparr>bs_fw := w\<rparr>"
  by (auto simp add: read_image_def Let_def split: if_splits sum.splits prod.splits intro: exI [of _ "bs_fw s"])

lemma handle_file_state:
  assumes "handle_file env bytes s = Some (Inr (r, s1))"
  shows "bs_bak s1 = bs_bak s \<and> bs_fw s1 = bs_fw s \<and> bs_lo s1 = bs_lo s
     \<and> (\<exists>vm. bs_globals s1 = (bs_globals s)\<lparr>verification_method := vm\<rparr>)"
  using assms by (auto simp add: handle_file_def Let_def bindO_eq)

lemma load_and_run_bak:
  assumes "load_and_run env path bytes s = Some (Inr (st, s1))"
  shows "bs_bak s1 = bs_bak s"
proof (cases "bo_FileDevicePath env path")
  case (Some dp)
  then show ?thesis
    using assms
    by (auto simp add: load_and_run_def bindO_eq run_entry_def dest!: handle_file_state split: if_splits option.splits prod.splits)
qed (use assms in \<open>auto simp add: load_and_run_def\<close>)

section \<open>Only accepted files run\<close>

text \<open>The file as \<open>handle_image\<close> is given it.\<close>

definition file_of :: "('w, 'h, 'g) lock_env \<Rightarrow> bytes \<Rightarrow> mbuf" where
  "file_of env bytes = \<lparr>mb_base = lk_pool_at env (length bytes), mb_data = bytes\<rparr>"

lemma handle_file_secure:
  assumes ok: "lock_ok (bo_lock env) sha256 sha1 d" and w: "store_has (bo_lock env) d (bs_fw s)"
    and secure: "secure_mode (lk_verify (bo_lock env)) (bs_fw s)"
    and n: "length bytes < 2 ^ 32" "\<not> (word_of_nat (length bytes) :: u32) <s 0"
    and h: "handle_file env bytes s = Some (Inr (r, s1))" and p: "lr_pages r \<noteq> None"
  shows "accepted_file (bo_lock env) d sha256 sha1 (sbat_var (sbat_state (bs_globals s))) (in_protocol (bs_globals s)) (bs_fw s)
      (file_of (bo_lock env) bytes)"
proof -
  let ?lk = "bo_lock env"
  let ?f = "file_of ?lk bytes" and ?n = "word_of_nat (length bytes) :: u32"
  let ?penv = "header_env ?lk (in_protocol (bs_globals s))"
  have un: "unat ?n = length bytes" using n(1) by (simp add: unat_of_nat)
  have f: "is_file ?f (mb_base ?f) ?n" using ok un by (simp add: is_file_def lock_ok_def file_of_def)
  have small: "?n < 0x80000000" using n(2) int_negative by blast
  obtain vm where hi: "handle_image (lk_verify ?lk) (bs_fw s) (lk_sha256 ?lk) (lk_sha1 ?lk) (bo_pool env) (lk_http ?lk (bs_fw s) ?f)
      (lk_atoi ?lk) (sbat_var (sbat_state (bs_globals s))) ?penv (bo_tpm_status env (bs_fw s)) (bo_attr_proto env)
      (bo_AllocatePages env (bs_fw s)) (bs_attrs s) ?f (mb_base ?f) ?n (verification_method (bs_globals s)) = Some (Inr (vm, r))"
    using h by (auto simp add: handle_file_def Let_def bindO_eq file_of_def)
  obtain ctx where ctx: "read_header ?penv ?f (mb_base ?f) ?n = Inr ctx"
    using hi p by (cases "read_header ?penv ?f (mb_base ?f) ?n")
      (auto simp add: handle_image_def verify_image_def split: exc.splits)
  have env: "mock_good (bs_fw s)" "ve_rt (lk_verify ?lk) = host_rt" "\<forall>n. ve_pool (lk_verify ?lk) n"
    "dbs_ok (lk_verify ?lk) (mock_vars (bs_fw s)) d" "computes (lk_sha256 ?lk) sha256" "computes (lk_sha1 ?lk) sha1"
    "\<forall>m. length (sha256 m) = 32" "\<forall>m. length (sha1 m) = 20"
    using ok w by (simp_all add: lock_ok_def store_has_def)
  show ?thesis
  proof (rule handle_image_cases [OF f ctx hi], goal_cases)
    case 2
    then obtain st ctx1 vm1 where v: "\<not> EFI_ERROR st"
      "verify_buffer (lk_verify ?lk) (bs_fw s) (lk_sha256 ?lk) (lk_sha1 ?lk) (bo_pool env) (lk_http ?lk (bs_fw s) ?f) (lk_atoi ?lk)
         (sbat_var (sbat_state (bs_globals s))) (pe_in_protocol ?penv) ?f (mb_base ?f) ?n ctx (verification_method (bs_globals s))
       = Some (Inr (st, vm1, ctx1))"
      using secure by blast
    have pp: "pe_in_protocol ?penv = in_protocol (bs_globals s)" by (simp add: header_env_def)
    have l: "length (mb_data ?f) = length bytes" by (simp add: file_of_def)
    from buffer_accepts [OF env(1-4) f small ctx env(5-8) v(2,1)] ctx v(1)
    show ?case unfolding accepted_file_def pp l bo_pool_def by auto
  qed (use p in simp)
qed

text \<open>The program is called at most when the file was accepted.\<close>

lemma load_and_run_entry:
  assumes ok: "lock_ok (bo_lock env) sha256 sha1 d" and w: "store_has (bo_lock env) d (bs_fw s)"
    and secure: "secure_mode (lk_verify (bo_lock env)) (bs_fw s)"
    and n: "length bytes < 2 ^ 32" "\<not> (word_of_nat (length bytes) :: u32) <s 0"
    and refused: "\<not> accepted_file (bo_lock env) d sha256 sha1 (sbat_var (sbat_state (bs_globals s))) (in_protocol (bs_globals s))
        (bs_fw s) (file_of (bo_lock env) bytes)"
  shows "load_and_run (env\<lparr>bo_entry := e\<rparr>) path bytes s = load_and_run env path bytes s"
    and "load_and_run env path bytes s = Some (Inr (st, s1)) \<Longrightarrow>
      bs_fw s1 = bs_fw s \<and> bs_lo s1 = bs_lo s \<and> (\<exists>vm. bs_globals s1 = (bs_globals s)\<lparr>verification_method := vm\<rparr>)"
proof -
  let ?s = "\<lambda>dp. s\<lparr>bs_li := (bs_li s)\<lparr>li_FilePath := Some dp\<rparr>\<rparr>"
  have none: "lr_pages r = None" if "handle_file env bytes (?s dp) = Some (Inr (r, s1))" for dp r s1
  proof (rule ccontr)
    assume "lr_pages r \<noteq> None"
    from handle_file_secure [OF ok _ _ n that this] w secure refused show False by simp
  qed
  show "load_and_run (env\<lparr>bo_entry := e\<rparr>) path bytes s = load_and_run env path bytes s"
  proof (cases "bo_FileDevicePath env path")
    case (Some dp)
    show ?thesis
    proof (cases "handle_file env bytes (?s dp)")
      case (Some x)
      then show ?thesis
        using none [of dp] \<open>bo_FileDevicePath env path = _\<close>
        by (cases x) (auto simp add: load_and_run_def bindO_def split: option.splits)
    qed (use Some in \<open>simp add: load_and_run_def bindO_def\<close>)
  qed (simp add: load_and_run_def)
  assume r: "load_and_run env path bytes s = Some (Inr (st, s1))"
  show "bs_fw s1 = bs_fw s \<and> bs_lo s1 = bs_lo s \<and> (\<exists>vm. bs_globals s1 = (bs_globals s)\<lparr>verification_method := vm\<rparr>)"
  proof (cases "bo_FileDevicePath env path")
    case (Some dp)
    then obtain l where h: "handle_file env bytes (?s dp) = Some (Inr (l, s1))"
      using r none [of dp] by (auto simp add: load_and_run_def bindO_eq split: if_splits option.splits)
    show ?thesis using handle_file_state [OF h] by auto
  next
    case None
    then have "s1 = s\<lparr>bs_li := (bs_li s)\<lparr>li_FilePath := None\<rparr>\<rparr>" using r by (simp add: load_and_run_def)
    then show ?thesis by (auto intro: exI [of _ "verification_method (bs_globals s)"])
  qed
qed

section \<open>A machine with nothing to trust\<close>

text \<open>What the firmware's services keep, whatever they are asked for.\<close>

definition services_keep :: "('w, 'h, 'g, 'm, 'f) boot_env \<Rightarrow> ('w \<Rightarrow> bool) \<Rightarrow> bool" where
  "services_keep env Q \<longleftrightarrow>
     (let ff = bo_files env in
       (\<forall>w. Q w \<longrightarrow> Q (snd (snd (ff_OpenVolume ff w))) \<and> Q (snd (snd (bo_FetchNetbootimage env w))))
     \<and> (\<forall>w h p. Q w \<longrightarrow> Q (snd (snd (ff_Open ff w h p))))
     \<and> (\<forall>w h. Q w \<longrightarrow> Q (ff_Close ff w h))
     \<and> (\<forall>w h n. Q w \<longrightarrow> Q (snd (snd (ff_Read ff w h n))))
     \<and> (\<forall>w name. Q w \<longrightarrow> Q (snd (bo_parseNetbootinfo env w name)) \<and> Q (snd (snd (bo_httpboot_fetch_buffer env w name)))))"

lemma services_keepD:
  assumes "services_keep env Q" and "Q w"
  shows "ff_OpenVolume (bo_files env) w = (st, x, w') \<Longrightarrow> Q w'"
    and "ff_Open (bo_files env) w h p = (st, x, w') \<Longrightarrow> Q w'"
    and "Q (ff_Close (bo_files env) w h)"
    and "ff_Read (bo_files env) w h n = (st, y, w') \<Longrightarrow> Q w'"
    and "bo_parseNetbootinfo env w name = (st, w') \<Longrightarrow> Q w'"
    and "bo_FetchNetbootimage env w = (st, y, w') \<Longrightarrow> Q w'"
    and "bo_httpboot_fetch_buffer env w name = (st, y, w') \<Longrightarrow> Q w'"
  using assms unfolding services_keep_def Let_def by (metis snd_conv)+

lemma read_whole_file_keeps:
  assumes "services_keep env Q" and "Q w" and "read_whole_file (bo_files env) pool w grub n = (r, w')"
  shows "Q w'"
  using assms(2,3) by (auto simp add: read_whole_file_def split: if_splits prod.splits dest: services_keepD(4) [OF assms(1)])

lemma load_image_disk_keeps:
  assumes k: "services_keep env Q" and w: "Q w" and r: "load_image_disk (bo_files env) pool k w path = (r, w')"
  shows "Q w'"
  using r w
  by (auto simp add: load_image_disk_def split: if_splits prod.splits option.splits sum.splits
      dest!: services_keepD(1) [OF k w] intro: services_keepD(2) [OF k] read_whole_file_keeps [OF k services_keepD(2) [OF k]])

lemma fetch_image_keeps:
  assumes k: "services_keep env Q" and w: "Q w" and r: "fetch_image env path full w = (r, w')"
  shows "Q w'"
  using r w
  by (auto simp add: fetch_image_def Let_def split: if_splits prod.splits sum.splits
      dest!: services_keepD(5,7) [OF k w] intro: services_keepD(6) [OF k] load_image_disk_keeps [OF k w])

lemma read_image_keeps:
  assumes "services_keep env Q" and "Q (bs_fw s)" and "read_image env path s = (r, s1)"
  shows "Q (bs_fw s1)"
  using assms(2,3)
  by (auto simp add: read_image_def Let_def split: if_splits prod.splits sum.splits dest!: fetch_image_keeps [OF assms(1,2)])

lemma should_use_fallback_keeps:
  assumes k: "services_keep env Q" and w: "Q (bs_fw s)" and r: "should_use_fallback env s = Inr (fb, s1)"
  shows "Q (bs_fw s1) \<and> bs_globals s1 = bs_globals s"
  using r w
  by (auto simp add: should_use_fallback_def Let_def bindR_eq_Inr split: if_splits prod.splits option.splits
      dest!: services_keepD(1) [OF k w] intro!: services_keepD(3) [OF k] dest: services_keepD(2) [OF k])

text \<open>
  \<open>booting\<close>: secure mode with the databases \<open>d\<close> and the revocations \<open>sb\<close>, outside the protocol;
  \<open>refused_all\<close>: whatever file is read then, it is not to be trusted.
\<close>

definition trusted_store :: "(mock_state, 'h, 'g, 'm, 'f) boot_env \<Rightarrow> sig_dbs \<Rightarrow> mock_state \<Rightarrow> bool" where
  "trusted_store env d w \<longleftrightarrow> store_has (bo_lock env) d w \<and> secure_mode (lk_verify (bo_lock env)) w"

definition booting :: "(mock_state, 'h, 'g, 'm, 'f) boot_env \<Rightarrow> sig_dbs \<Rightarrow> sbat_state \<Rightarrow> (mock_state, 'm) boot_state \<Rightarrow> bool" where
  "booting env d sb s \<longleftrightarrow> trusted_store env d (bs_fw s) \<and> sbat_state (bs_globals s) = sb \<and> \<not> in_protocol (bs_globals s)"

definition refused_all ::
  "(mock_state, 'h, 'g, 'm, 'f) boot_env \<Rightarrow> sig_dbs \<Rightarrow> (bytes \<Rightarrow> bytes) \<Rightarrow> (bytes \<Rightarrow> bytes) \<Rightarrow> sbat_state \<Rightarrow> bool"
where
  "refused_all env d sha256 sha1 sb \<longleftrightarrow>
     (\<forall>path (s :: (mock_state, 'm) boot_state) name bytes s1.
        booting env d sb s \<longrightarrow> read_image env path s = (Inr (name, bytes), s1) \<longrightarrow>
        length bytes < 2 ^ 32
        \<and> \<not> accepted_file (bo_lock env) d sha256 sha1 (sbat_var sb) False (bs_fw s1) (file_of (bo_lock env) bytes))"

lemma booting_step:
  assumes "booting env d sb s" and "trusted_store env d (bs_fw s1)"
    and "sbat_state (bs_globals s1) = sbat_state (bs_globals s)" and "in_protocol (bs_globals s1) = in_protocol (bs_globals s)"
  shows "booting env d sb s1"
  using assms by (simp add: booting_def)

lemma start_image_refused:
  assumes ok: "lock_ok (bo_lock env) sha256 sha1 d" and keep: "services_keep env (trusted_store env d)"
    and refused: "refused_all env d sha256 sha1 sb" and b: "booting env d sb s"
  shows "start_image (env\<lparr>bo_entry := e\<rparr>) path s = start_image env path s"
    and "start_image env path s = Some (Inr (st, s')) \<Longrightarrow> booting env d sb s'"
proof -
  have fw: "trusted_store env d (bs_fw s1)" if "read_image env path s = (r, s1)" for r s1
    using read_image_keeps [OF keep _ that] b by (simp add: booting_def)
  have gl: "bs_globals s1 = bs_globals s" if "read_image env path s = (r, s1)" for r s1
    using read_image_state [OF that] by auto
  obtain r s1 where r: "read_image env path s = (r, s1)" by fastforce
  have b1: "booting env d sb (s1\<lparr>bs_bak := x\<rparr>)" for x
    using booting_step [OF b fw [OF r]] gl [OF r] by (simp add: booting_def)
  show "start_image (env\<lparr>bo_entry := e\<rparr>) path s = start_image env path s"
    and "start_image env path s = Some (Inr (st, s')) \<Longrightarrow> booting env d sb s'"
  proof (atomize (full), cases r)
    case (Inl x)
    then show "start_image (env\<lparr>bo_entry := e\<rparr>) path s = start_image env path s
        \<and> (start_image env path s = Some (Inr (st, s')) \<longrightarrow> booting env d sb s')"
      using r b1 [of "bs_bak s1"] by (cases x) (auto simp add: start_image_def)
  next
    case (Inr x)
    obtain name bytes where x: "x = (name, bytes)" by fastforce
    let ?s = "s1\<lparr>bs_bak := bs_li s1\<rparr>"
    have n: "length bytes < 2 ^ 32" and no: "\<not> accepted_file (bo_lock env) d sha256 sha1 (sbat_var sb) False (bs_fw s1)
        (file_of (bo_lock env) bytes)"
      using refused b r Inr x unfolding refused_all_def by blast+
    have pos: "\<not> (word_of_nat (length bytes) :: u32) <s 0"
      using r Inr x by (auto simp add: read_image_def Let_def split: if_splits sum.splits prod.splits)
    have g: "sbat_state (bs_globals ?s) = sb" "in_protocol (bs_globals ?s) = False" "store_has (bo_lock env) d (bs_fw ?s)"
      "secure_mode (lk_verify (bo_lock env)) (bs_fw ?s)"
      using b1 [of "bs_li s1"] by (auto simp add: booting_def trusted_store_def)
    have no': "\<not> accepted_file (bo_lock env) d sha256 sha1 (sbat_var (sbat_state (bs_globals ?s))) (in_protocol (bs_globals ?s))
        (bs_fw ?s) (file_of (bo_lock env) bytes)" using no unfolding g by simp
    note run = load_and_run_entry [OF ok g(3,4) n pos no']
    have "booting env d sb s'" if s': "start_image env path s = Some (Inr (st, s'))"
    proof -
      obtain s2 where l: "load_and_run env name bytes ?s = Some (Inr (st, s2))" and e: "s' = restore_loaded_image s2"
        using s' r Inr x by (auto simp add: start_image_def bindO_eq)
      show ?thesis
        using run(2) [OF l] b1 [of "bs_li s1"] unfolding e by (auto simp add: restore_loaded_image_def booting_def)
    qed
    moreover have "start_image (env\<lparr>bo_entry := e\<rparr>) path s = start_image env path s"
      using r Inr x run(1) by (simp add: start_image_def)
    ultimately show "start_image (env\<lparr>bo_entry := e\<rparr>) path s = start_image env path s
        \<and> (start_image env path s = Some (Inr (st, s')) \<longrightarrow> booting env d sb s')" by blast
  qed
qed

lemma path_entry [simp]: "FALLBACK (env\<lparr>bo_entry := e\<rparr>) = FALLBACK env" "MOK_MANAGER (env\<lparr>bo_entry := e\<rparr>) = MOK_MANAGER env"
  "second_stage_path (env\<lparr>bo_entry := e\<rparr>) lo = second_stage_path env lo"
  by (simp_all add: FALLBACK_def MOK_MANAGER_def second_stage_path_def split: option.splits)

lemma should_use_fallback_entry [simp]: "should_use_fallback (env\<lparr>bo_entry := e\<rparr>) s = should_use_fallback env s"
proof -
  have f: "bo_files (env\<lparr>bo_entry := e\<rparr>) = bo_files env" "bo_HandleProtocol (env\<lparr>bo_entry := e\<rparr>) = bo_HandleProtocol env"
    by simp_all
  show ?thesis unfolding should_use_fallback_def f path_entry ..
qed

lemma start_stage_refused:
  assumes "lock_ok (bo_lock env) sha256 sha1 d" and "services_keep env (trusted_store env d)"
    and "refused_all env d sha256 sha1 sb" and "booting env d sb s"
  shows "start_stage (env\<lparr>bo_entry := e\<rparr>) fb s = start_stage env fb s"
    and "start_stage env fb s = Some (Inr (st, s')) \<Longrightarrow> booting env d sb s'"
  using start_image_refused [OF assms]
  by (auto simp add: start_stage_def split: sum.splits if_splits)

lemma bindO_cong:
  "m = m' \<Longrightarrow> (\<And>x. m' = Some (Inr x) \<Longrightarrow> f x = g x) \<Longrightarrow> bindO m f = bindO m' g"
  by (auto simp add: bindO_def split: option.splits sum.splits)

lemma start_or_enroll_refused:
  assumes a: "lock_ok (bo_lock env) sha256 sha1 d" "services_keep env (trusted_store env d)"
    "refused_all env d sha256 sha1 sb" and b: "booting env d sb s"
  shows "start_or_enroll (env\<lparr>bo_entry := e\<rparr>) fb s = start_or_enroll env fb s"
    and "start_or_enroll env fb s = Some (Inr (early, st, s')) \<Longrightarrow> booting env d sb s'"
proof -
  note stage = start_stage_refused [OF a] and img = start_image_refused [OF a]
  show "start_or_enroll (env\<lparr>bo_entry := e\<rparr>) fb s = start_or_enroll env fb s"
    unfolding start_or_enroll_def path_entry
  proof (intro bindO_cong stage(1) [OF b], goal_cases)
    case (1 x)
    then obtain st1 s1 where x: "x = (st1, s1)" "booting env d sb s1" using stage(2) [OF b] by (cases x) auto
    have "bindO (start_image (env\<lparr>bo_entry := e\<rparr>) (MOK_MANAGER env) s1) (\<lambda>(st, s). if EFI_ERROR st then Some (Inr (True, st, s))
          else bindO (start_stage (env\<lparr>bo_entry := e\<rparr>) fb s) (\<lambda>(st, s). Some (Inr (False, st, s))))
        = bindO (start_image env (MOK_MANAGER env) s1) (\<lambda>(st, s). if EFI_ERROR st then Some (Inr (True, st, s))
          else bindO (start_stage env fb s) (\<lambda>(st, s). Some (Inr (False, st, s))))"
    proof (intro bindO_cong img(1) [OF x(2)], goal_cases)
      case (1 y)
      then obtain st2 s2 where y: "y = (st2, s2)" "booting env d sb s2" using img(2) [OF x(2)] by (cases y) auto
      then show ?case using stage(1) [OF y(2)] by simp
    qed
    then show ?case by (simp add: x(1))
  qed
  show "booting env d sb s'" if r0: "start_or_enroll env fb s = Some (Inr (early, st, s'))"
  proof -
    obtain st1 s1 where one: "start_stage env fb s = Some (Inr (st1, s1))" using r0 by (auto simp add: start_or_enroll_def bindO_eq)
    note b1 = stage(2) [OF b one]
    show ?thesis
    proof (cases "st1 = EFI_SECURITY_VIOLATION \<or> st1 = EFI_ACCESS_DENIED")
      case True
      then obtain st2 s2 where two: "start_image env (MOK_MANAGER env) s1 = Some (Inr (st2, s2))"
        and r: "(if EFI_ERROR st2 then Some (Inr (True, st2, s2))
          else bindO (start_stage env fb s2) (\<lambda>(st, s). Some (Inr (False, st, s)))) = Some (Inr (early, st, s'))"
        using r0 one by (auto simp add: start_or_enroll_def bindO_eq)
      note b2 = img(2) [OF b1 two]
      show ?thesis using r b2 stage(2) [OF b2] by (auto simp add: bindO_eq split: if_splits)
    next
      case False
      then show ?thesis using r0 one b1 by (simp add: start_or_enroll_def)
    qed
  qed
qed


section \<open>A machine to evaluate on\<close>

text \<open>One disk, on which every path is the file \<open>f\<close>; a started program moves itself.\<close>

definition demo_disk :: "bytes \<Rightarrow> (mock_state, unit) file_protocol" where
  "demo_disk f = \<lparr>ff_HandleProtocol = (\<lambda>w. EFI_SUCCESS), ff_OpenVolume = (\<lambda>w. (EFI_SUCCESS, Some (), w)),
     ff_Open = (\<lambda>w h p. (EFI_SUCCESS, Some (), w)), ff_Close = (\<lambda>w h. w), ff_SetPosition = (\<lambda>w h n. (EFI_SUCCESS, w)),
     ff_GetInfo = (\<lambda>w h n. (EFI_SUCCESS, 100, \<lparr>fi_FileSize = length f, fi_Attribute = 0, fi_FileName = []\<rparr>)),
     ff_Read = (\<lambda>w h n. (EFI_SUCCESS, take n f, w)),
     ff_ReadDir = (\<lambda>w h n. (EFI_SUCCESS, 0, \<lparr>fi_FileSize = 0, fi_Attribute = 0, fi_FileName = []\<rparr>, w))\<rparr>"

definition demo_program :: "u64 \<Rightarrow> mbuf \<Rightarrow> (mock_state, nat \<Rightarrow> u64) boot_state \<Rightarrow> efi_status \<times> (mock_state, nat \<Rightarrow> u64) boot_state" where
  "demo_program entry img s = (EFI_SUCCESS, s\<lparr>bs_li := (bs_li s)\<lparr>li_ImageBase := 1, li_FilePath := None\<rparr>\<rparr>)"

definition demo_boot_env :: "bytes \<Rightarrow> (mock_state, bytes, bytes, nat \<Rightarrow> u64, unit) boot_env" where
  "demo_boot_env f = \<lparr>bo_lock = demo_lock_env, bo_files = demo_disk f, bo_sizeof_file_info = 88,
     bo_HandleProtocol = (\<lambda>w. EFI_SUCCESS), bo_findNetboot = (\<lambda>w. False),
     bo_parseNetbootinfo = (\<lambda>w n. (EFI_UNSUPPORTED, w)), bo_FetchNetbootimage = (\<lambda>w. (EFI_UNSUPPORTED, [], w)),
     bo_find_httpboot = (\<lambda>w. False), bo_httpboot_fetch_buffer = (\<lambda>w n. (EFI_UNSUPPORTED, [], w)),
     bo_FileDevicePath = (\<lambda>p. Some p), bo_attr_proto = demo_attr_proto, bo_AllocatePages = (\<lambda>w. demo_pages),
     bo_tpm_status = (\<lambda>w. None), bo_DEFAULT_LOADER = path_lit ''/EFI/grub.efi'', bo_EFI_ARCH = ''x64'',
     bo_entry = demo_program\<rparr>"

definition demo_li :: loaded_image where
  "demo_li = \<lparr>li_FilePath = Some (path_lit ''/EFI/shim.efi''), li_ImageBase = 0, li_ImageSize = 0, li_options = (None, 0)\<rparr>"

definition demo_boot :: "(mock_state, nat \<Rightarrow> u64) boot_state" where
  "demo_boot = \<lparr>bs_globals = demo_globals,
     bs_lo = \<lparr>lo_buf = [], lo_LoadOptions = None, lo_LoadOptionsSize = 0, second_stage = None, load_options = None, load_options_size = 0\<rparr>,
     bs_li = demo_li, bs_bak = demo_li\<lparr>li_ImageBase := 7\<rparr>, bs_attrs = (\<lambda>_. 0), bs_fw = demo_secure_store\<rparr>"

lemma demo_boot_fields: "bo_lock (demo_boot_env f) = demo_lock_env" "bo_files (demo_boot_env f) = demo_disk f"
  "bo_HandleProtocol (demo_boot_env f) w = EFI_SUCCESS" "bo_findNetboot (demo_boot_env f) w = False"
  "bo_find_httpboot (demo_boot_env f) w = False" "bo_pool (demo_boot_env f) = (\<lambda>_. True)"
  "bo_FileDevicePath (demo_boot_env f) p = Some p" "bo_attr_proto (demo_boot_env f) = demo_attr_proto"
  "bo_AllocatePages (demo_boot_env f) w = demo_pages" "bo_tpm_status (demo_boot_env f) w = None"
  "bo_entry (demo_boot_env f) = demo_program" "bs_fw demo_boot = demo_secure_store" "bs_li demo_boot = demo_li"
  by (simp_all add: demo_boot_env_def bo_pool_def demo_lock_env_def demo_verify_env_def demo_boot_def)

lemma demo_disk_read: "load_image_disk (demo_disk f) (\<lambda>_. True) k w p = (Inr f, w)"
  by (simp add: load_image_disk_def file_info_size_def read_whole_file_def demo_disk_def)

lemma demo_read_image:
  assumes "generate_path_from_image_path (\<lambda>_. True) (li_FilePath (bs_li s)) path = Inr full"
    and "\<not> (word_of_nat (length f) :: u32) <s 0"
  shows "read_image (demo_boot_env f) path s = (Inr (full, f), s)"
  using assms by (simp add: read_image_def fetch_image_def demo_boot_fields demo_disk_read Let_def)

lemma demo_handle_file:
  assumes "bs_fw s = demo_secure_store" and "bs_globals s = demo_globals"
  shows "\<exists>r s1. handle_file (demo_boot_env (mb_data demo_pe)) (mb_data demo_pe) s = Some (Inr (r, s1))
     \<and> lr_status r = EFI_SUCCESS \<and> lr_entry r \<noteq> None \<and> lr_pages r \<noteq> None"
proof -
  let ?h = "handle_image demo_verify_env demo_secure_store (demo_sha256 8) demo_sha1 (\<lambda>_. True) EFI_NOT_FOUND (\<lambda>_. 0) [] demo_pe_env None
      demo_attr_proto demo_pages (bs_attrs s) demo_pe 0x10000 400 VERIFIED_BY_NOTHING"
  obtain vm r where h: "?h = Some (Inr (vm, r))" and ok: "lr_status r = EFI_SUCCESS"
    using demo_handle_image [OF demo_secure_good demo_secure_dbs, of "bs_attrs s"] by blast
  have o: "lr_entry r \<noteq> None \<and> lr_pages r \<noteq> None"
  proof (rule handle_image_cases [OF demo_is_file demo_read_header h], goal_cases)
    case 2
    then show ?case
      using load_image_outcome [OF demo_is_file header_context [OF demo_is_file demo_read_header] 2(3,2) demo_allocator demo_alloc_fits 2(1)] ok
      by (auto simp add: outcome_def load_ok_def)
  qed (use ok in simp)
  have n: "word_of_nat (length (mb_data demo_pe)) = (400 :: u32)" using demo_length by simp
  have c: "\<lparr>mb_base = 0x10000, mb_data = mb_data demo_pe\<rparr> = demo_pe" by (simp add: demo_pe_def)
  have e: "lk_verify demo_lock_env = demo_verify_env" "lk_sha256 demo_lock_env = demo_sha256 8" "lk_sha1 demo_lock_env = demo_sha1"
    "lk_atoi demo_lock_env = (\<lambda>_. 0)" "lk_http demo_lock_env w f = EFI_NOT_FOUND" "lk_pool_at demo_lock_env k = 0x10000"
    "header_env demo_lock_env False = demo_pe_env" for w f k
    by (simp_all add: demo_lock_env_def header_env_def demo_pe_env_def)
  have g: "in_protocol demo_globals = False" "sbat_var (sbat_state demo_globals) = []"
    "verification_method demo_globals = VERIFIED_BY_NOTHING" by (simp_all add: demo_globals_def)
  show ?thesis
    unfolding handle_file_def Let_def assms demo_boot_fields e c n g h bindO_simps prod.case using ok o by simp
qed

lemma demo_path: "\<exists>full. generate_path_from_image_path (\<lambda>_. True) (li_FilePath demo_li) (path_lit ''/EFI/grub.efi'') = Inr full"
  by (simp add: generate_path_from_image_path_def path_lit_def wide_def SLASH_def BACKSLASH_def guardR_def)

lemma demo_start_image:
  "\<exists>s'. start_image (demo_boot_env (mb_data demo_pe)) (path_lit ''/EFI/grub.efi'') demo_boot = Some (Inr (EFI_SUCCESS, s'))"
proof -
  obtain full where full: "generate_path_from_image_path (\<lambda>_. True) (li_FilePath (bs_li demo_boot)) (path_lit ''/EFI/grub.efi'') = Inr full"
    using demo_path demo_boot_fields by auto
  have r: "read_image (demo_boot_env (mb_data demo_pe)) (path_lit ''/EFI/grub.efi'') demo_boot = (Inr (full, mb_data demo_pe), demo_boot)"
    using int_nonneg [of 400] demo_length by (intro demo_read_image [OF full]) simp
  let ?s = "demo_boot\<lparr>bs_bak := demo_li, bs_li := demo_li\<lparr>li_FilePath := Some full\<rparr>\<rparr>"
  have g: "bs_fw ?s = demo_secure_store" "bs_globals ?s = demo_globals" by (simp_all add: demo_boot_def)
  obtain l s1 entry img where h: "handle_file (demo_boot_env (mb_data demo_pe)) (mb_data demo_pe) ?s = Some (Inr (l, s1))"
    "lr_status l = EFI_SUCCESS" "lr_entry l = Some entry" "lr_pages l = Some img"
    using demo_handle_file [OF g] by auto
  show ?thesis
    using r h by (simp add: start_image_def load_and_run_def demo_boot_fields run_entry_def demo_program_def demo_boot_def)
qed

section \<open>Properties\<close>

text \<open>
  Whatever a started program does to it, the loaded image protocol is as before when
  \<open>start_image\<close> returns, on every path.
\<close>

theorem start_image_restores:
  assumes "start_image env path s = Some (Inr (st, s'))"
  shows "bs_li s' = bs_li s"
proof -
  obtain r s1 where r: "read_image env path s = (r, s1)" by fastforce
  have li: "bs_li s1 = bs_li s" using read_image_state [OF r] by auto
  show ?thesis
  proof (cases r)
    case (Inl e)
    then show ?thesis using assms r li by (cases e) (auto simp add: start_image_def)
  next
    case (Inr x)
    obtain name bytes where x: "x = (name, bytes)" by fastforce
    obtain s2 where l: "load_and_run env name bytes (s1\<lparr>bs_bak := bs_li s1\<rparr>) = Some (Inr (st, s2))" and e: "s' = restore_loaded_image s2"
      using assms r Inr x by (auto simp add: start_image_def bindO_eq)
    show ?thesis using load_and_run_bak [OF l] li unfolding e by (simp add: restore_loaded_image_def)
  qed
qed

lemma start_image_restores_witness:
  "\<exists>s'. start_image (demo_boot_env (mb_data demo_pe)) (path_lit ''/EFI/grub.efi'') demo_boot = Some (Inr (EFI_SUCCESS, s'))
     \<and> bs_li s' = demo_li"
proof -
  obtain s' where s: "start_image (demo_boot_env (mb_data demo_pe)) (path_lit ''/EFI/grub.efi'') demo_boot = Some (Inr (EFI_SUCCESS, s'))"
    using demo_start_image by blast
  from start_image_restores [OF s] s show ?thesis by (auto simp add: demo_boot_fields)
qed


end
