(* ===== verification/Hooks.thy ===== *)
theory Hooks
  imports SecondStage
begin

text \<open>
  replacements.c, and the functions of shim.c that set up and take down what shim leaves in the
  system for the boot programs: the shim lock protocol in the firmware's handle database, and the
  replacements of the boot services \<open>LoadImage\<close>, \<open>StartImage\<close>, \<open>ExitBootServices\<close> and
  \<open>Exit\<close>. A slot of the boot services table holds the firmware's function, shim's, or nothing.
\<close>

section \<open>State and environment\<close>

datatype service = LoadImage | StartImage | ExitBootServices | Exit

datatype slot = Null | Firmware | Shim

text \<open>
  \<open>slots\<close> is the table, \<open>saved\<close> the variables \<open>system_load_image\<close> and so on (null at first),
  \<open>hooked\<close> whether \<open>systab\<close> of replacements.c is set. Handles are numbers.
\<close>

record hook_state =
  slots :: "service \<Rightarrow> slot"
  saved :: "service \<Rightarrow> slot"
  hooked :: bool
  last_loaded_image :: "nat option"
  shim_lock_handle :: "nat option"

record ('w, 'm) machine =
  mc_hooks :: hook_state
  mc_boot :: "('w, 'm) boot_state"

text \<open>
  The firmware's services, on its state: locating, installing and uninstalling the shim lock
  protocol, and the boot services themselves. \<open>hk_vendor\<close> says that shim has vendor lists,
  \<open>hk_ebs\<close> is false in a build with \<open>DISABLE_EBS_PROTECTION\<close>, \<open>hk_no_removable\<close> is
  \<open>DISABLE_REMOVABLE_LOAD_OPTIONS\<close>.
\<close>

record ('w, 'h, 'g, 'm, 'f, 'q) hook_env =
  hk_boot :: "('w, 'h, 'g, 'm, 'f) boot_env"
  hk_vendor :: bool
  hk_ebs :: bool
  hk_no_removable :: bool
  hk_LocateLock :: "'w \<Rightarrow> efi_status"
  hk_InstallLock :: "'w \<Rightarrow> nat option \<Rightarrow> efi_status \<times> nat option \<times> 'w"
  hk_UninstallLock :: "'w \<Rightarrow> nat option \<Rightarrow> efi_status \<times> 'w"
  hk_LoadImage :: "'w \<Rightarrow> 'q \<Rightarrow> efi_status \<times> nat option \<times> 'w"
  hk_ExitBootServices :: "'w \<Rightarrow> efi_status \<times> 'w"
  hk_Exit :: "'w \<Rightarrow> efi_status \<times> 'w"

abbreviation mc_fw :: "('w, 'm) machine \<Rightarrow> 'w" where "mc_fw m \<equiv> bs_fw (mc_boot m)"

definition with_fw :: "('w, 'm) machine \<Rightarrow> 'w \<Rightarrow> ('w, 'm) machine" where
  "with_fw m w = m\<lparr>mc_boot := (mc_boot m)\<lparr>bs_fw := w\<rparr>\<rparr>"

definition with_participating :: "bool \<Rightarrow> ('w, 'm) machine \<Rightarrow> ('w, 'm) machine" where
  "with_participating b m = m\<lparr>mc_boot := (mc_boot m)\<lparr>bs_globals := (bs_globals (mc_boot m))\<lparr>loader_is_participating := b\<rparr>\<rparr>\<rparr>"

definition in_secure_mode :: "('w, 'h, 'g, 'm, 'f, 'q) hook_env \<Rightarrow> ('w, 'm) machine \<Rightarrow> bool" where
  "in_secure_mode env m = secure_mode (lk_verify (bo_lock (hk_boot env))) (mc_fw m)"

section \<open>The table\<close>

definition replaced :: "('w, 'h, 'g, 'm, 'f, 'q) hook_env \<Rightarrow> service set" where
  "replaced env = {LoadImage, StartImage} \<union> (if hk_ebs env then {ExitBootServices} else {})"

definition hook_system_services :: "('w, 'h, 'g, 'm, 'f, 'q) hook_env \<Rightarrow> ('w, 'm) machine \<Rightarrow> ('w, 'm) machine" where
  "hook_system_services env m =
     (let h = mc_hooks m in
      m\<lparr>mc_hooks := h\<lparr>hooked := True,
          saved := (\<lambda>s. if s \<in> replaced env then slots h s else saved h s),
          slots := (\<lambda>s. if s \<in> replaced env then Shim else slots h s)\<rparr>\<rparr>)"

definition unhook_system_services :: "('w, 'h, 'g, 'm, 'f, 'q) hook_env \<Rightarrow> ('w, 'm) machine \<Rightarrow> ('w, 'm) machine" where
  "unhook_system_services env m =
     (let h = mc_hooks m in
      if \<not> hooked h then m
      else m\<lparr>mc_hooks := h\<lparr>slots := (\<lambda>s. if s \<in> replaced env then saved h s else slots h s)\<rparr>\<rparr>)"

definition hook_exit :: "('w, 'm) machine \<Rightarrow> ('w, 'm) machine" where
  "hook_exit m =
     (let h = mc_hooks m in
      m\<lparr>mc_hooks := h\<lparr>hooked := True, saved := (saved h)(Exit := slots h Exit), slots := (slots h)(Exit := Shim)\<rparr>\<rparr>)"

definition unhook_exit :: "('w, 'm) machine \<Rightarrow> ('w, 'm) machine" where
  "unhook_exit m = m\<lparr>mc_hooks := (mc_hooks m)\<lparr>slots := (slots (mc_hooks m))(Exit := saved (mc_hooks m) Exit)\<rparr>\<rparr>"

section \<open>The protocol in the handle database\<close>

text \<open>The security policy hook of a build with \<open>OVERRIDE_SECURITY_POLICY\<close> is left out.\<close>

definition uninstall_shim_protocols :: "('w, 'h, 'g, 'm, 'f, 'q) hook_env \<Rightarrow> ('w, 'm) machine \<Rightarrow> ('w, 'm) machine" where
  "uninstall_shim_protocols env m = with_fw m (snd (hk_UninstallLock env (mc_fw m) (shim_lock_handle (mc_hooks m))))"

definition install_shim_protocols ::
  "('w, 'h, 'g, 'm, 'f, 'q) hook_env \<Rightarrow> ('w, 'm) machine \<Rightarrow> efi_status \<times> ('w, 'm) machine"
where
  "install_shim_protocols env m =
     (let m = (if \<not> EFI_ERROR (hk_LocateLock env (mc_fw m)) then uninstall_shim_protocols env m else m) in
      case hk_InstallLock env (mc_fw m) (shim_lock_handle (mc_hooks m)) of (st, handle, w) \<Rightarrow>
        let m = (with_fw m w)\<lparr>mc_hooks := (mc_hooks m)\<lparr>shim_lock_handle := handle\<rparr>\<rparr> in
        (if EFI_ERROR st then st else EFI_SUCCESS, m))"

section \<open>Setting up and taking down\<close>

definition shim_init ::
  "('w, 'h, 'g, 'm, 'f, 'q) hook_env \<Rightarrow> ('w, 'm) machine \<Rightarrow> (efi_status \<times> ('w, 'm) machine) res option"
where
  "shim_init env m =
     bindO (set_second_stage (hk_boot env) (hk_no_removable env) (mc_boot m)) (\<lambda>(st, b).
       let m = m\<lparr>mc_boot := b\<rparr> in
       if EFI_ERROR st then Some (Inr (st, m))
       else let m = (if in_secure_mode env m \<and> hk_vendor env
                     then with_participating False (hook_system_services env m) else m)
            in Some (Inr (install_shim_protocols env (hook_exit m))))"

definition cleanup_sbat_var :: "sbat_state \<Rightarrow> sbat_state" where
  "cleanup_sbat_var s = s\<lparr>sbat_var := []\<rparr>"

definition shim_fini :: "('w, 'h, 'g, 'm, 'f, 'q) hook_env \<Rightarrow> ('w, 'm) machine \<Rightarrow> ('w, 'm) machine" where
  "shim_fini env m =
     (let m = (if in_secure_mode env m
               then m\<lparr>mc_boot := (mc_boot m)\<lparr>bs_globals := (bs_globals (mc_boot m))\<lparr>sbat_state :=
                        cleanup_sbat_var (sbat_state (bs_globals (mc_boot m)))\<rparr>\<rparr>\<rparr> else m);
          m = uninstall_shim_protocols env m;
          m = (if in_secure_mode env m then unhook_system_services env m else m)
      in unhook_exit m)"

section \<open>The replacements\<close>

text \<open>
  A call through a slot of the table by shim itself, after its own functions have been taken out:
  a null pointer, or shim's function again, which calls itself without end, is a fault.
\<close>

definition through :: "('w, 'm) machine \<Rightarrow> service \<Rightarrow> 'a \<Rightarrow> 'a res" where
  "through m s x = (if slots (mc_hooks m) s = Firmware then Inr x else Inl Fault)"

definition hook_load_image ::
  "('w, 'h, 'g, 'm, 'f, 'q) hook_env \<Rightarrow> 'q \<Rightarrow> ('w, 'm) machine \<Rightarrow> (efi_status \<times> ('w, 'm) machine) res"
where
  "hook_load_image env q m =
     (let m = unhook_system_services env m in
      bindR (through m LoadImage (hk_LoadImage env (mc_fw m) q)) (\<lambda>(st, handle, w).
        let m = hook_system_services env (with_fw m w) in
        Inr (st, m\<lparr>mc_hooks := (mc_hooks m)\<lparr>last_loaded_image := if EFI_ERROR st then None else handle\<rparr>\<rparr>)))"

text \<open>A boot program asks with a variable of its own to keep the protocol.\<close>

definition SHIM_RETAIN_PROTOCOL_VAR_NAME :: string where
  "SHIM_RETAIN_PROTOCOL_VAR_NAME = ''ShimRetainProtocol''"

definition retain_protocol :: "('w, 'h, 'g, 'm, 'f, 'q) hook_env \<Rightarrow> 'w \<Rightarrow> bool" where
  "retain_protocol env w =
     (let r = GetVariable (ve_rt (lk_verify (bo_lock (hk_boot env)))) w SHIM_RETAIN_PROTOCOL_VAR_NAME SHIM_LOCK_GUID True 1;
          attrs = (case gv_attr r of None \<Rightarrow> 0 | Some a \<Rightarrow> a) in
      \<not> (EFI_ERROR (gv_status r) \<or> attrs AND EFI_VARIABLE_NON_VOLATILE \<noteq> 0
         \<or> attrs AND EFI_VARIABLE_BOOTSERVICE_ACCESS = 0 \<or> gv_size r \<noteq> 1 \<or> take 1 (gv_data r @ [0]) = [0]))"

text \<open>\<open>replacement_start_image\<close> before and after the image runs.\<close>

definition start_image_begin ::
  "('w, 'h, 'g, 'm, 'f, 'q) hook_env \<Rightarrow> nat option \<Rightarrow> ('w, 'm) machine \<Rightarrow> ('w, 'm) machine"
where
  "start_image_begin env image_handle m =
     (let m = unhook_system_services env m in
      if image_handle = last_loaded_image (mc_hooks m)
      then let m = with_participating True m in
           if retain_protocol env (mc_fw m) then m else uninstall_shim_protocols env m
      else m)"

datatype 'a ending = Returns 'a | ResetSystem

definition start_image_end ::
  "('w, 'h, 'g, 'm, 'f, 'q) hook_env \<Rightarrow> nat option \<Rightarrow> efi_status \<Rightarrow> ('w, 'm) machine \<Rightarrow> ('w, 'm) machine ending"
where
  "start_image_end env image_handle st m =
     (if \<not> EFI_ERROR st then Returns m
      else let (st2, m) = (if image_handle = last_loaded_image (mc_hooks m)
                           then install_shim_protocols env m else (EFI_SUCCESS, m)) in
        if EFI_ERROR st2 then ResetSystem
        else Returns (with_participating False (hook_system_services env m)))"

text \<open>The whole of it; \<open>run\<close> is what the firmware's \<open>StartImage\<close> does.\<close>

definition replacement_start_image ::
  "('w, 'h, 'g, 'm, 'f, 'q) hook_env \<Rightarrow> (('w, 'm) machine \<Rightarrow> efi_status \<times> ('w, 'm) machine) \<Rightarrow> nat option
   \<Rightarrow> ('w, 'm) machine \<Rightarrow> (efi_status \<times> ('w, 'm) machine) ending res"
where
  "replacement_start_image env run image_handle m =
     (let m = start_image_begin env image_handle m in
      bindR (through m StartImage (run m)) (\<lambda>(st, m).
        Inr (case start_image_end env image_handle st m of Returns m \<Rightarrow> Returns (st, m) | ResetSystem \<Rightarrow> ResetSystem)))"

text \<open>The flag says that the firmware has ended the boot services.\<close>

definition exit_boot_services ::
  "('w, 'h, 'g, 'm, 'f, 'q) hook_env \<Rightarrow> ('w, 'm) machine \<Rightarrow> (bool \<times> efi_status \<times> ('w, 'm) machine) ending res"
where
  "exit_boot_services env m =
     (let g = bs_globals (mc_boot m) in
      if loader_is_participating g \<or> verification_method g = VERIFIED_BY_HASH then
        let m = unhook_system_services env m in
        bindR (through m ExitBootServices (hk_ExitBootServices env (mc_fw m))) (\<lambda>(st, w).
          let m = with_fw m w in
          Inr (Returns (if EFI_ERROR st then (False, st, hook_system_services env m) else (True, st, m))))
      else Inr ResetSystem)"

text \<open>
  \<open>Exit\<close> returns only with an error; otherwise the caller is gone, which is \<open>None\<close> for the
  status.
\<close>

definition do_exit ::
  "('w, 'h, 'g, 'm, 'f, 'q) hook_env \<Rightarrow> ('w, 'm) machine \<Rightarrow> (efi_status option \<times> ('w, 'm) machine) ending res option"
where
  "do_exit env m =
     (let m = shim_fini env m; m = m\<lparr>mc_boot := restore_loaded_image (mc_boot m)\<rparr> in
      case through m Exit (hk_Exit env (mc_fw m)) of
        Inl e \<Rightarrow> Some (Inl e)
      | Inr (st, w) \<Rightarrow>
          (let m = with_fw m w in
           if \<not> EFI_ERROR st then Some (Inr (Returns (None, m)))
           else bindO (shim_init env m) (\<lambda>(st2, m).
             Some (Inr (if EFI_ERROR st2 then ResetSystem else Returns (Some st, m))))))"

section \<open>The boot programs' calls\<close>

text \<open>
  Between \<open>shim_init\<close> and \<open>shim_fini\<close> the boot programs run: the second stage, and the images
  it starts through the firmware's services. \<open>frames\<close> are the calls of \<open>StartImage\<close> in
  progress, through shim's replacement or directly, \<open>history\<close> what has happened, latest first.
  A program may change the firmware's state at will, but not the table.
\<close>

datatype frame = Direct | Replaced "nat option"

datatype event = Verified | Started | Finished | Ended

type_synonym ('w, 'm) system = "('w, 'm) machine \<times> frame list \<times> event list"

definition after_verify :: "('w, 'm) machine \<Rightarrow> shim_globals \<Rightarrow> 'w \<Rightarrow> ('w, 'm) machine" where
  "after_verify m g w = m\<lparr>mc_boot := (mc_boot m)\<lparr>bs_globals := g, bs_fw := w\<rparr>\<rparr>"

inductive step :: "('w, 'h, 'g, 'm, 'f, 'q) hook_env \<Rightarrow> ('w, 'm) system \<Rightarrow> ('w, 'm) system \<Rightarrow> bool"
  for env :: "('w, 'h, 'g, 'm, 'f, 'q) hook_env"
where
  work: "step env (m, fs, h) (with_fw m w, fs, h)"
| verify: "shim_verify (bo_lock (hk_boot env)) b data n (bs_globals (mc_boot m), mc_fw m) = Some (Inr (st, g, w)) \<Longrightarrow>
    step env (m, fs, h) (after_verify m g w, fs, Verified # h)"
| load: "slots (mc_hooks m) LoadImage = Shim \<Longrightarrow> hook_load_image env q m = Inr (st, m') \<Longrightarrow> step env (m, fs, h) (m', fs, h)"
| load_direct: "slots (mc_hooks m) LoadImage = Firmware \<Longrightarrow> hk_LoadImage env (mc_fw m) q = (st, i, w) \<Longrightarrow>
    step env (m, fs, h) (with_fw m w, fs, h)"
| start: "slots (mc_hooks m) StartImage = Shim \<Longrightarrow> through (start_image_begin env i m) StartImage () = Inr () \<Longrightarrow>
    step env (m, fs, h) (start_image_begin env i m, Replaced i # fs, Started # h)"
| start_direct: "slots (mc_hooks m) StartImage = Firmware \<Longrightarrow> step env (m, fs, h) (m, Direct # fs, Started # h)"
| return: "start_image_end env i st m = Returns m' \<Longrightarrow> step env (m, Replaced i # fs, h) (m', fs, h)"
| return_direct: "step env (m, Direct # fs, h) (m, fs, h)"
| end_boot: "slots (mc_hooks m) ExitBootServices = Shim \<Longrightarrow> exit_boot_services env m = Inr (Returns (ended, st, m')) \<Longrightarrow>
    step env (m, fs, h) (m', fs, if ended then Ended # h else h)"
| end_direct: "slots (mc_hooks m) ExitBootServices = Firmware \<Longrightarrow> hk_ExitBootServices env (mc_fw m) = (st, w) \<Longrightarrow>
    step env (m, fs, h) (with_fw m w, fs, if EFI_ERROR st then h else Ended # h)"
| exit: "slots (mc_hooks m) Exit = Shim \<Longrightarrow> do_exit env m = Some (Inr (Returns (st, m'))) \<Longrightarrow>
    step env (m, fs, h) (m', fs, Finished # h)"

definition runs :: "('w, 'h, 'g, 'm, 'f, 'q) hook_env \<Rightarrow> ('w, 'm) system \<Rightarrow> ('w, 'm) system \<Rightarrow> bool" where
  "runs env = (step env)\<^sup>*\<^sup>*"

section \<open>Lemmas\<close>

lemmas machine_defs = with_fw_def with_participating_def hook_system_services_def unhook_system_services_def
  hook_exit_def unhook_exit_def uninstall_shim_protocols_def

lemma fw_fields [simp]: "mc_hooks (with_fw m w) = mc_hooks m" "bs_globals (mc_boot (with_fw m w)) = bs_globals (mc_boot m)"
  "mc_fw (with_fw m w) = w"
  by (simp_all add: with_fw_def)

lemma participating_fields [simp]: "mc_hooks (with_participating b m) = mc_hooks m" "mc_fw (with_participating b m) = mc_fw m"
  "bs_globals (mc_boot (with_participating b m)) = (bs_globals (mc_boot m))\<lparr>loader_is_participating := b\<rparr>"
  by (simp_all add: with_participating_def)

lemma hook_fields [simp]: "mc_boot (hook_system_services env m) = mc_boot m" "mc_boot (unhook_system_services env m) = mc_boot m"
  "mc_boot (hook_exit m) = mc_boot m" "mc_boot (unhook_exit m) = mc_boot m"
  "hooked (mc_hooks (hook_system_services env m))"
  "hooked (mc_hooks (unhook_system_services env m)) = hooked (mc_hooks m)"
  "last_loaded_image (mc_hooks (hook_system_services env m)) = last_loaded_image (mc_hooks m)"
  "last_loaded_image (mc_hooks (unhook_system_services env m)) = last_loaded_image (mc_hooks m)"
  by (simp_all add: machine_defs Let_def)

lemma uninstall_fields [simp]: "mc_hooks (uninstall_shim_protocols env m) = mc_hooks m"
  "bs_globals (mc_boot (uninstall_shim_protocols env m)) = bs_globals (mc_boot m)"
  by (simp_all add: uninstall_shim_protocols_def)

lemma install_fields:
  assumes "install_shim_protocols env m = (st, m')"
  shows "slots (mc_hooks m') = slots (mc_hooks m)" "saved (mc_hooks m') = saved (mc_hooks m)"
    "hooked (mc_hooks m') = hooked (mc_hooks m)" "last_loaded_image (mc_hooks m') = last_loaded_image (mc_hooks m)"
    "bs_globals (mc_boot m') = bs_globals (mc_boot m)"
  using assms by (auto simp add: install_shim_protocols_def Let_def split: prod.splits if_splits)

lemma hook_slots [simp]:
  "slots (mc_hooks (hook_system_services env m)) s = (if s \<in> replaced env then Shim else slots (mc_hooks m) s)"
  "saved (mc_hooks (hook_system_services env m)) s = (if s \<in> replaced env then slots (mc_hooks m) s else saved (mc_hooks m) s)"
  "slots (mc_hooks (unhook_system_services env m)) s
     = (if hooked (mc_hooks m) \<and> s \<in> replaced env then saved (mc_hooks m) s else slots (mc_hooks m) s)"
  "saved (mc_hooks (unhook_system_services env m)) = saved (mc_hooks m)"
  by (simp_all add: machine_defs Let_def)

lemma replaced_mem [simp]: "LoadImage \<in> replaced env" "StartImage \<in> replaced env"
  "ExitBootServices \<in> replaced env \<longleftrightarrow> hk_ebs env" "Exit \<notin> replaced env"
  by (simp_all add: replaced_def)

lemma through_Inr: "through m s x = Inr y \<longleftrightarrow> slots (mc_hooks m) s = Firmware \<and> y = x"
  by (auto simp add: through_def)

lemma through_Firmware: "slots (mc_hooks m) s = Firmware \<Longrightarrow> through m s x = Inr x"
  by (simp add: through_def)

lemma begin_fields:
  "slots (mc_hooks (start_image_begin env i m)) = slots (mc_hooks (unhook_system_services env m))"
  "saved (mc_hooks (start_image_begin env i m)) = saved (mc_hooks m)"
  "hooked (mc_hooks (start_image_begin env i m)) = hooked (mc_hooks m)"
  "verification_method (bs_globals (mc_boot (start_image_begin env i m))) = verification_method (bs_globals (mc_boot m))"
  by (simp_all add: start_image_begin_def Let_def)

lemma end_cases:
  assumes "start_image_end env i st m = Returns m'"
  obtains "\<not> EFI_ERROR st" "m' = m"
  | m1 where "EFI_ERROR st" "m' = with_participating False (hook_system_services env m1)"
      "slots (mc_hooks m1) = slots (mc_hooks m)" "saved (mc_hooks m1) = saved (mc_hooks m)" "hooked (mc_hooks m1) = hooked (mc_hooks m)"
      "bs_globals (mc_boot m1) = bs_globals (mc_boot m)"
  using assms
  by (auto simp add: start_image_end_def Let_def split: if_splits prod.splits dest: install_fields)

lemma load_cases:
  assumes "hook_load_image env q m = Inr (st, m')"
  obtains w l where "mc_hooks m' = (mc_hooks (hook_system_services env (unhook_system_services env m)))\<lparr>last_loaded_image := l\<rparr>"
      "bs_globals (mc_boot m') = bs_globals (mc_boot m)"
  using assms
  by (auto simp add: hook_load_image_def Let_def bindR_eq_Inr through_Inr hook_system_services_def with_fw_def split: prod.splits)

lemma ebs_cases:
  assumes "exit_boot_services env m = Inr (Returns (ended, st, m'))"
  shows "loader_is_participating (bs_globals (mc_boot m)) \<or> verification_method (bs_globals (mc_boot m)) = VERIFIED_BY_HASH"
    and "bs_globals (mc_boot m') = bs_globals (mc_boot m)"
    and "mc_hooks m' = (if ended then mc_hooks (unhook_system_services env m)
                        else mc_hooks (hook_system_services env (unhook_system_services env m)))"
  using assms
  by (auto simp add: exit_boot_services_def Let_def bindR_eq_Inr through_Inr hook_system_services_def with_fw_def
      split: prod.splits if_splits)

lemma shim_verify_globals:
  assumes "shim_verify env b data n (g, w) = Some (Inr (st, g', w'))"
  shows "\<not> loader_is_participating g' \<Longrightarrow> g' = g"
  using assms by (auto simp add: shim_verify_def bindO_eq verify_in_protocol_def verify_copy_def Let_def
      split: if_splits sum.splits exc.splits prod.splits)

lemma shim_verify_participates:
  assumes "shim_verify env b data n (g, w) = Some (Inr (st, g', w'))" and "\<not> n <s 0"
  shows "loader_is_participating g'"
  using assms by (auto simp add: shim_verify_def bindO_eq verify_in_protocol_def verify_copy_def Let_def
      split: if_splits sum.splits exc.splits prod.splits)

section \<open>The table stays well-formed\<close>

text \<open>
  Without a call of \<open>Exit\<close>: the saved functions are the firmware's, and either all replaced slots
  are shim's and no call of \<open>StartImage\<close> went through shim, or all are the firmware's and at most
  one did.
\<close>

definition table_ok :: "('w, 'h, 'g, 'm, 'f, 'q) hook_env \<Rightarrow> ('w, 'm) machine \<Rightarrow> frame list \<Rightarrow> bool" where
  "table_ok env m fs \<longleftrightarrow>
     hooked (mc_hooks m) \<and> (slots (mc_hooks m) ExitBootServices = Shim \<longrightarrow> hk_ebs env)
   \<and> (\<forall>s \<in> replaced env. saved (mc_hooks m) s = Firmware)
   \<and> ((\<forall>s \<in> replaced env. slots (mc_hooks m) s = Shim) \<and> (\<forall>f \<in> set fs. f = Direct)
      \<or> (\<forall>s \<in> replaced env. slots (mc_hooks m) s = Firmware) \<and> length (filter (\<lambda>f. f \<noteq> Direct) fs) \<le> 1)"

lemma table_ok_step:
  assumes "step env (m, fs, h) (m', fs', h')" and "table_ok env m fs" and "Finished \<notin> set h'"
  shows "table_ok env m' fs'"
  using assms
proof (cases rule: step.cases)
  case (load q st)
  then show ?thesis using assms(2) by (auto simp add: table_ok_def split: if_splits elim!: load_cases)
next
  case (return i st)
  then show ?thesis using assms(2) by (auto simp add: table_ok_def filter_empty_conv split: if_splits elim!: end_cases)
next
  case (end_boot ended st)
  then show ?thesis using assms(2) ebs_cases(3) [OF end_boot(4)] by (auto simp add: table_ok_def split: if_splits)
qed (auto simp add: table_ok_def begin_fields after_verify_def)

lemma history_grows: "step env (m, fs, h) (m', fs', h') \<Longrightarrow> set h \<subseteq> set h'"
  by (erule step.cases) auto

section \<open>The end of the boot services\<close>

text \<open>
  What holds at any time after the services were replaced; \<open>vm\<close> is how the second stage itself
  was verified.
\<close>

definition guarded :: "('w, 'h, 'g, 'm, 'f, 'q) hook_env \<Rightarrow> verification_method \<Rightarrow> ('w, 'm) system \<Rightarrow> bool" where
  "guarded env vm y = (case y of (m, fs, h) \<Rightarrow>
     (Verified \<notin> set h \<and> Finished \<notin> set h \<longrightarrow> verification_method (bs_globals (mc_boot m)) = vm)
   \<and> (loader_is_participating (bs_globals (mc_boot m)) \<longrightarrow> Verified \<in> set h \<or> Started \<in> set h \<or> Finished \<in> set h)
   \<and> (slots (mc_hooks m) ExitBootServices \<noteq> Shim \<longrightarrow> Started \<in> set h \<or> Finished \<in> set h \<or> Ended \<in> set h)
   \<and> (Ended \<in> set h \<longrightarrow> Verified \<in> set h \<or> Started \<in> set h \<or> Finished \<in> set h \<or> vm = VERIFIED_BY_HASH))"

lemma guarded_step:
  assumes "step env y y'" and g: "guarded env vm y" and e: "hk_ebs env"
  shows "guarded env vm y'"
  using assms(1)
proof (cases rule: step.cases)
  case (load m q st m' fs h)
  then show ?thesis using g e by (auto simp add: guarded_def elim!: load_cases)
next
  case (return i st m m' fs h)
  then show ?thesis using g e by (auto simp add: guarded_def elim!: end_cases)
next
  case (end_boot m ended st m' fs h)
  then show ?thesis using g e ebs_cases [OF end_boot(4)] by (auto simp add: guarded_def)
next
  case (verify b data n m st g' w fs h)
  then show ?thesis using g shim_verify_globals [OF verify(3)] by (auto simp add: guarded_def after_verify_def)
next
  case (end_direct m st w fs h)
  then show ?thesis using g by (auto simp add: guarded_def)
next
  case (start m i fs h)
  then show ?thesis using g e by (auto simp add: guarded_def begin_fields)
qed (use g in \<open>auto simp add: guarded_def\<close>)

section \<open>Setting up\<close>

lemma set_second_stage_state:
  assumes "set_second_stage env nr s = Some (Inr (st, s'))"
  shows "bs_fw s' = bs_fw s" "bs_globals s' = bs_globals s"
  using assms by (auto simp add: set_second_stage_def Let_def bindO_eq split: if_splits sum.splits bool.splits)

lemma shim_init_cases:
  assumes i: "shim_init env m = Some (Inr (st, m'))" and ok: "\<not> EFI_ERROR st"
  obtains b where "bs_fw b = mc_fw m" "bs_globals b = bs_globals (mc_boot m)"
    "install_shim_protocols env (hook_exit (if in_secure_mode env m \<and> hk_vendor env
        then with_participating False (hook_system_services env (m\<lparr>mc_boot := b\<rparr>)) else m\<lparr>mc_boot := b\<rparr>)) = (st, m')"
proof -
  let ?rest = "\<lambda>(st, b). let m = m\<lparr>mc_boot := b\<rparr> in if EFI_ERROR st then Some (Inr (st, m) :: (_ \<times> _) res)
       else let m = (if in_secure_mode env m \<and> hk_vendor env
                     then with_participating False (hook_system_services env m) else m)
            in Some (Inr (install_shim_protocols env (hook_exit m)))"
  obtain x where x: "set_second_stage (hk_boot env) (hk_no_removable env) (mc_boot m) = Some (Inr x)" "?rest x = Some (Inr (st, m'))"
    using i unfolding shim_init_def bindO_eq by blast
  obtain st1 b where sb: "x = (st1, b)" by fastforce
  note b = x(1) [unfolded sb] and r = x(2) [unfolded sb prod.case]
  note f = set_second_stage_state [OF b]
  have s: "in_secure_mode env (m\<lparr>mc_boot := b\<rparr>) = in_secure_mode env m" using f by (simp add: in_secure_mode_def)
  have "\<not> EFI_ERROR st1" using r ok by (auto simp add: Let_def split: if_splits)
  then have "install_shim_protocols env (hook_exit (if in_secure_mode env m \<and> hk_vendor env
        then with_participating False (hook_system_services env (m\<lparr>mc_boot := b\<rparr>)) else m\<lparr>mc_boot := b\<rparr>)) = (st, m')"
    using r unfolding Let_def s by simp
  then show ?thesis using that [OF f] by blast
qed

lemma shim_init_table:
  assumes i: "shim_init env m = Some (Inr (st, m'))" and ok: "\<not> EFI_ERROR st"
    and hook: "in_secure_mode env m" "hk_vendor env" and fw: "\<forall>s. slots (mc_hooks m) s = Firmware"
  shows "table_ok env m' []"
    and "\<not> loader_is_participating (bs_globals (mc_boot m'))"
    and "verification_method (bs_globals (mc_boot m')) = verification_method (bs_globals (mc_boot m))"
    and "hk_ebs env \<Longrightarrow> slots (mc_hooks m') ExitBootServices = Shim"
proof -
  obtain b where b: "bs_globals b = bs_globals (mc_boot m)"
    "install_shim_protocols env (hook_exit (with_participating False (hook_system_services env (m\<lparr>mc_boot := b\<rparr>)))) = (st, m')"
    using shim_init_cases [OF i ok] hook by auto
  note f = install_fields [OF b(2)]
  show "table_ok env m' []" using f fw by (auto simp add: table_ok_def hook_exit_def Let_def split: if_splits)
  show "\<not> loader_is_participating (bs_globals (mc_boot m'))" using f by simp
  show "verification_method (bs_globals (mc_boot m')) = verification_method (bs_globals (mc_boot m))" using f b(1) by simp
  show "slots (mc_hooks m') ExitBootServices = Shim" if "hk_ebs env" using f that by (simp add: hook_exit_def Let_def)
qed

lemma runs_guarded:
  assumes "runs env y y'" and "guarded env vm y" and "hk_ebs env"
  shows "guarded env vm y'"
  using assms(1,2) unfolding runs_def by (induction rule: rtranclp_induct) (auto intro: guarded_step [OF _ _ assms(3)])

lemma runs_table:
  assumes "runs env (m, fs, h) (m', fs', h')" and "table_ok env m fs" and "Finished \<notin> set h'"
  shows "table_ok env m' fs'"
proof -
  have "Finished \<notin> set (snd (snd y')) \<longrightarrow> table_ok env (fst y') (fst (snd y'))"
    if "(step env)\<^sup>*\<^sup>* (m, fs, h) y'" for y'
    using that
  proof (induction rule: rtranclp_induct)
    case (step y z)
    obtain m1 f1 h1 m2 f2 h2 where yz: "y = (m1, f1, h1)" "z = (m2, f2, h2)" by (metis surj_pair)
    show ?case using step(2,3) history_grows [of env m1 f1 h1 m2 f2 h2] table_ok_step [of env m1 f1 h1 m2 f2 h2] unfolding yz by auto
  qed (use assms(2) in simp)
  from this [OF assms(1) [unfolded runs_def]] assms(3) show ?thesis by simp
qed

section \<open>Properties\<close>


text \<open>
  C9. Until a program calls \<open>Exit\<close>, the replaced services are all shim's or all the firmware's, and
  shim's replacements reach the firmware's functions: none of them faults or calls itself.
\<close>

theorem replacements_reach_firmware:
  assumes "shim_init env m0 = Some (Inr (st, m))" and "\<not> EFI_ERROR st" and "in_secure_mode env m0"
    and "hk_vendor env" and "\<forall>s. slots (mc_hooks m0) s = Firmware"
    and "runs env (m, [], []) (m', fs, h)" and "Finished \<notin> set h"
  shows "((\<forall>s \<in> replaced env. slots (mc_hooks m') s = Shim) \<or> (\<forall>s \<in> replaced env. slots (mc_hooks m') s = Firmware))
     \<and> hook_load_image env q m' \<noteq> Inl Fault
     \<and> replacement_start_image env run i m' \<noteq> Inl Fault
     \<and> (hk_ebs env \<longrightarrow> exit_boot_services env m' \<noteq> Inl Fault)"
proof -
  have t: "table_ok env m' fs" by (rule runs_table [OF assms(6) shim_init_table(1) [OF assms(1-5)] assms(7)])
  then have fw: "slots (mc_hooks (unhook_system_services env m')) s = Firmware" if "s \<in> replaced env" for s
    using that by (auto simp add: table_ok_def)
  have "hook_load_image env q m' \<noteq> Inl Fault"
    using fw [of LoadImage] by (auto simp add: hook_load_image_def Let_def through_Firmware split: prod.splits simp del: hook_slots)
  moreover have "slots (mc_hooks (start_image_begin env i m')) StartImage = Firmware" using fw [of StartImage] by (simp only: begin_fields replaced_mem)
  then have "replacement_start_image env run i m' \<noteq> Inl Fault"
    by (auto simp add: replacement_start_image_def Let_def through_Firmware split: prod.splits)
  moreover have "hk_ebs env \<longrightarrow> exit_boot_services env m' \<noteq> Inl Fault"
    using fw [of ExitBootServices]
    by (auto simp add: exit_boot_services_def Let_def through_Firmware split: prod.splits simp del: hook_slots)
  ultimately show ?thesis using t by (auto simp add: table_ok_def)
qed

text \<open>
  C29. When \<open>Exit\<close> fails in secure mode, shim comes back without its revocations: every SBAT
  section, also a missing one, passes.
\<close>

theorem failed_exit_drops_revocations:
  assumes "do_exit env m = Some (Inr (Returns (Some st, m')))" and "in_secure_mode env m"
  shows "verify_sbat_section pool atoi (sbat_var (sbat_state (bs_globals (mc_boot m')))) protocol sec = Inr EFI_SUCCESS"
proof -
  let ?m = "(shim_fini env m)\<lparr>mc_boot := restore_loaded_image (mc_boot (shim_fini env m))\<rparr>"
  obtain w st2 where i: "shim_init env (with_fw ?m w) = Some (Inr (st2, m'))" and ok: "\<not> EFI_ERROR st2"
    using assms(1) by (auto simp add: do_exit_def Let_def bindO_eq split: sum.splits prod.splits if_splits)
  obtain b where b: "bs_globals b = bs_globals (mc_boot (with_fw ?m w))" and inst: "install_shim_protocols env
      (hook_exit (if in_secure_mode env (with_fw ?m w) \<and> hk_vendor env
        then with_participating False (hook_system_services env ((with_fw ?m w)\<lparr>mc_boot := b\<rparr>)) else (with_fw ?m w)\<lparr>mc_boot := b\<rparr>)) = (st2, m')"
    using shim_init_cases [OF i ok] by metis
  have "sbat_state (bs_globals (mc_boot m')) = sbat_state (bs_globals b)" using install_fields(5) [OF inst] by (auto split: if_splits)
  also have "sbat_var \<dots> = []"
    using assms(2) unfolding b by (simp add: shim_fini_def Let_def restore_loaded_image_def cleanup_sbat_var_def)
  finally show ?thesis by (simp add: verify_sbat_section_def)
qed

text \<open>
  What is documented of the handle database: a handle whose last interface is uninstalled is no
  longer valid, and nothing can be installed on a handle that is not. \<open>lock\<close> is the handle that
  has the shim lock protocol as its only interface.
\<close>

definition handle_database ::
  "('w, 'h, 'g, 'm, 'f, 'q) hook_env \<Rightarrow> ('w \<Rightarrow> nat set) \<Rightarrow> ('w \<Rightarrow> nat option) \<Rightarrow> bool"
where
  "handle_database env handles lock \<longleftrightarrow>
     (\<forall>w. EFI_ERROR (hk_LocateLock env w) \<longleftrightarrow> lock w = None)
   \<and> (\<forall>w h. h \<notin> handles w \<longrightarrow> EFI_ERROR (fst (hk_InstallLock env w (Some h))))
   \<and> (\<forall>w h. lock w = Some h \<longrightarrow>
        h \<notin> handles (snd (hk_UninstallLock env w (Some h))) \<and> lock (snd (hk_UninstallLock env w (Some h))) = None)"

text \<open>
  When the image that was loaded last fails to start, shim has taken its protocol down and cannot
  install it again on the handle it still has: the machine is reset.
\<close>

theorem failed_start_resets:
  assumes "handle_database env handles lock"
    and "hooked (mc_hooks m)" and "saved (mc_hooks m) StartImage = Firmware"
    and "last_loaded_image (mc_hooks m) = i" and "shim_lock_handle (mc_hooks m) = Some lk" and "lock (mc_fw m) = Some lk"
    and "\<not> retain_protocol env (mc_fw m)" and "\<forall>m1. run m1 = (st, m1)" and "EFI_ERROR st"
  shows "replacement_start_image env run i m = Inr ResetSystem"
proof -
  let ?m = "start_image_begin env i m"
  have b: "?m = uninstall_shim_protocols env (with_participating True (unhook_system_services env m))"
    using assms(4,7) by (simp add: start_image_begin_def Let_def)
  have hk: "shim_lock_handle (mc_hooks ?m) = Some lk" "last_loaded_image (mc_hooks ?m) = i" "slots (mc_hooks ?m) StartImage = Firmware"
    using assms(2-5) unfolding b by (simp_all add: unhook_system_services_def Let_def)
  have "shim_lock_handle (mc_hooks (unhook_system_services env m)) = Some lk"
    using assms(5) by (simp add: unhook_system_services_def Let_def)
  then have w: "mc_fw ?m = snd (hk_UninstallLock env (mc_fw m) (Some lk))" unfolding b by (simp add: uninstall_shim_protocols_def)
  have db: "lk \<notin> handles (mc_fw ?m)" "lock (mc_fw ?m) = None"
    using assms(1,6) unfolding w handle_database_def by blast+
  then have e: "EFI_ERROR (hk_LocateLock env (mc_fw ?m))" "EFI_ERROR (fst (hk_InstallLock env (mc_fw ?m) (Some lk)))"
    using assms(1) unfolding handle_database_def by blast+
  then have "EFI_ERROR (fst (install_shim_protocols env ?m))"
    using hk(1) by (auto simp add: install_shim_protocols_def Let_def split: prod.splits)
  then have "start_image_end env i st ?m = ResetSystem"
    using hk(2) assms(9) by (auto simp add: start_image_end_def split: prod.splits)
  then show ?thesis using assms(8) hk(3) by (simp add: replacement_start_image_def Let_def through_Firmware)
qed

text \<open>
  In secure mode a shim without lists of its own replaces nothing, but takes its replacements down
  all the same: \<open>LoadImage\<close>, \<open>StartImage\<close> and \<open>ExitBootServices\<close> become null pointers.
\<close>

theorem fini_nulls_services:
  assumes "shim_init env m0 = Some (Inr (st, m))" and "\<not> EFI_ERROR st" and "\<not> hk_vendor env"
    and "\<forall>s. saved (mc_hooks m0) s = Null" and "in_secure_mode env (uninstall_shim_protocols env m)"
  shows "\<forall>s \<in> replaced env. slots (mc_hooks (shim_fini env m)) s = Null"
proof -
  obtain b where b: "install_shim_protocols env (hook_exit (m0\<lparr>mc_boot := b\<rparr>)) = (st, m)"
    using shim_init_cases [OF assms(1,2)] assms(3) by auto
  have sv: "saved (mc_hooks m) s = Null" if "s \<noteq> Exit" for s
    using install_fields(2) [OF b] assms(4) that by (simp add: hook_exit_def Let_def)
  have h: "hooked (mc_hooks m)" using install_fields(3) [OF b] by (simp add: hook_exit_def Let_def)
  let ?u = "uninstall_shim_protocols env (if in_secure_mode env m
      then m\<lparr>mc_boot := (mc_boot m)\<lparr>bs_globals := (bs_globals (mc_boot m))\<lparr>sbat_state :=
               cleanup_sbat_var (sbat_state (bs_globals (mc_boot m)))\<rparr>\<rparr>\<rparr> else m)"
  have "in_secure_mode env ?u"
    using assms(5) by (simp add: in_secure_mode_def uninstall_shim_protocols_def with_fw_def)
  then have f: "shim_fini env m = unhook_exit (unhook_system_services env ?u)" by (simp add: shim_fini_def Let_def)
  have u: "mc_hooks ?u = mc_hooks m" by simp
  show ?thesis
  proof
    fix s assume s: "s \<in> replaced env"
    then have "s \<noteq> Exit" by auto
    then show "slots (mc_hooks (shim_fini env m)) s = Null"
      using s h sv u unfolding f by (simp add: unhook_exit_def)
  qed
qed

section \<open>A machine to evaluate on\<close>

text \<open>The firmware accepts every installation and refuses to exit.\<close>

definition demo_hook_env :: "bool \<Rightarrow> (mock_state, bytes, bytes, nat \<Rightarrow> u64, unit, unit) hook_env" where
  "demo_hook_env vendor = \<lparr>hk_boot = demo_boot_env [], hk_vendor = vendor, hk_ebs = True, hk_no_removable = False,
     hk_LocateLock = (\<lambda>w. EFI_NOT_FOUND), hk_InstallLock = (\<lambda>w h. (EFI_SUCCESS, Some 1, w)), hk_UninstallLock = (\<lambda>w h. (EFI_SUCCESS, w)),
     hk_LoadImage = (\<lambda>w q. (EFI_SUCCESS, Some 2, w)), hk_ExitBootServices = (\<lambda>w. (EFI_SUCCESS, w)),
     hk_Exit = (\<lambda>w. (EFI_INVALID_PARAMETER, w))\<rparr>"

definition demo_machine :: "(mock_state, nat \<Rightarrow> u64) machine" where
  "demo_machine = \<lparr>mc_hooks = \<lparr>slots = (\<lambda>_. Firmware), saved = (\<lambda>_. Null), hooked = False, last_loaded_image = None,
     shim_lock_handle = None\<rparr>, mc_boot = demo_boot\<rparr>"

lemma demo_secure: "mc_fw m = demo_secure_store \<Longrightarrow> in_secure_mode (demo_hook_env v) m"
  using demo_secure_mode by (simp add: in_secure_mode_def demo_hook_env_def demo_boot_env_def demo_lock_env_def)

lemma demo_init:
  assumes "lo_LoadOptionsSize (bs_lo (mc_boot m)) = 0"
  shows "\<exists>m'. shim_init (demo_hook_env v) m = Some (Inr (EFI_SUCCESS, m')) \<and> mc_fw m' = mc_fw m \<and> bs_lo (mc_boot m')
      = (bs_lo (mc_boot m))\<lparr>second_stage := None, load_options := None, load_options_size := 0\<rparr>"
proof -
  let ?b = "(mc_boot m)\<lparr>bs_lo := (bs_lo (mc_boot m))\<lparr>second_stage := None, load_options := None, load_options_size := 0\<rparr>\<rparr>"
  have "set_second_stage (hk_boot (demo_hook_env v)) (hk_no_removable (demo_hook_env v)) (mc_boot m) = Some (Inr (EFI_SUCCESS, ?b))"
    using assms by (simp add: set_second_stage_def demo_hook_env_def demo_boot_fields parse_load_options_def Let_def)
  then show ?thesis
    by (auto simp add: shim_init_def install_shim_protocols_def Let_def with_fw_def) (simp_all add: demo_hook_env_def with_participating_def)
qed

lemma demo_machine_facts: "mc_fw demo_machine = demo_secure_store" "bs_globals (mc_boot demo_machine) = demo_globals"
  "lo_LoadOptionsSize (bs_lo (mc_boot demo_machine)) = 0" "\<forall>s. slots (mc_hooks demo_machine) s = Firmware"
  "\<forall>s. saved (mc_hooks demo_machine) s = Null" "hk_vendor (demo_hook_env v) = v" "hk_ebs (demo_hook_env v)"
  by (simp_all add: demo_machine_def demo_boot_def demo_hook_env_def)

lemma demo_verified_run:
  assumes i: "shim_init (demo_hook_env True) demo_machine = Some (Inr (EFI_SUCCESS, m))" and w: "mc_fw m = demo_secure_store"
  shows "\<exists>m1 m2. runs (demo_hook_env True) (m, [], []) (m1, [], [Verified]) \<and> runs (demo_hook_env True) (m, [], []) (m2, [], [Ended, Verified])"
proof -
  have s: "in_secure_mode (demo_hook_env True) demo_machine" by (rule demo_secure) (rule demo_machine_facts)
  have ok: "\<not> EFI_ERROR EFI_SUCCESS" by simp
  note t = shim_init_table [OF i ok s demo_machine_facts(6) [THEN iffD2, OF TrueI] demo_machine_facts(4)]
  obtain b where b: "bs_globals b = demo_globals" and inst: "install_shim_protocols (demo_hook_env True)
      (hook_exit (with_participating False (hook_system_services (demo_hook_env True) (demo_machine\<lparr>mc_boot := b\<rparr>)))) = (EFI_SUCCESS, m)"
    using shim_init_cases [OF i ok] s demo_machine_facts(2,6) by auto
  have g: "bs_globals (mc_boot m) = demo_globals" using install_fields(5) [OF inst] b by (simp add: demo_globals_def)
  have lk: "bo_lock (hk_boot (demo_hook_env True)) = demo_lock_env" by (simp add: demo_hook_env_def demo_boot_fields)
  obtain g' where v: "shim_verify demo_lock_env demo_pe 0x10000 400 (demo_globals, demo_secure_store) = Some (Inr (EFI_SUCCESS, g', demo_secure_store))"
    using demo_shim_verify by blast
  let ?m1 = "after_verify m g' demo_secure_store"
  have one: "step (demo_hook_env True) (m, [], []) (?m1, [], [Verified])"
    using v by (intro verify [of _ demo_pe "0x10000" 400]) (simp add: lk g w)
  have p: "loader_is_participating g'"
    using shim_verify_participates [OF v] int_nonneg [of 400] by simp
  have t1: "table_ok (demo_hook_env True) ?m1 []" using t(1) by (simp add: table_ok_def after_verify_def)
  have sh: "slots (mc_hooks ?m1) ExitBootServices = Shim" using t(4) demo_machine_facts(7) by (simp add: after_verify_def)
  have "slots (mc_hooks (unhook_system_services (demo_hook_env True) ?m1)) ExitBootServices = Firmware"
    using t1 demo_machine_facts(7) by (auto simp add: table_ok_def)
  then have "\<exists>m2. exit_boot_services (demo_hook_env True) ?m1 = Inr (Returns (True, EFI_SUCCESS, m2))"
    using p by (auto simp add: exit_boot_services_def Let_def through_Firmware after_verify_def demo_hook_env_def simp del: hook_slots)
  then obtain m2 where e: "exit_boot_services (demo_hook_env True) ?m1 = Inr (Returns (True, EFI_SUCCESS, m2))" by blast
  have two: "step (demo_hook_env True) (?m1, [], [Verified]) (m2, [], [Ended, Verified])"
    using end_boot [OF sh e, of "[]" "[Verified]"] by simp
  have r1: "runs (demo_hook_env True) (m, [], []) (?m1, [], [Verified])" using one unfolding runs_def by (rule r_into_rtranclp)
  have "runs (demo_hook_env True) (m, [], []) (m2, [], [Ended, Verified])"
    using r1 two unfolding runs_def by (rule rtranclp.rtrancl_into_rtrancl)
  with r1 show ?thesis by blast
qed


lemma replacements_reach_firmware_witness:
  "\<exists>m m'. runs (demo_hook_env True) (m, [], []) (m', [], [Verified]) \<and> hook_load_image (demo_hook_env True) () m' \<noteq> Inl Fault"
proof -
  obtain m where i: "shim_init (demo_hook_env True) demo_machine = Some (Inr (EFI_SUCCESS, m))" and w: "mc_fw m = demo_secure_store"
    using demo_init [OF demo_machine_facts(3), of True] demo_machine_facts(1) by auto
  obtain m1 where r: "runs (demo_hook_env True) (m, [], []) (m1, [], [Verified])" using demo_verified_run [OF i w] by blast
  have ok: "\<not> EFI_ERROR EFI_SUCCESS" and e: "Finished \<notin> set [Verified]" and v: "hk_vendor (demo_hook_env True)"
    by (simp_all add: demo_machine_facts)
  have s: "in_secure_mode (demo_hook_env True) demo_machine" by (rule demo_secure) (rule demo_machine_facts)
  from replacements_reach_firmware [OF i ok s v demo_machine_facts(4) r e, of "()"] r show ?thesis by blast
qed

lemma failed_exit_drops_revocations_witness:
  "\<exists>m'. do_exit (demo_hook_env False) (demo_machine\<lparr>mc_hooks := (mc_hooks demo_machine)\<lparr>saved := \<lambda>_. Firmware\<rparr>\<rparr>)
        = Some (Inr (Returns (Some EFI_INVALID_PARAMETER, m')))
     \<and> verify_sbat_section (\<lambda>_. True) (\<lambda>_. 0) (sbat_var (sbat_state (bs_globals (mc_boot m')))) False None = Inr EFI_SUCCESS"
proof -
  let ?e = "demo_hook_env False" and ?m = "demo_machine\<lparr>mc_hooks := (mc_hooks demo_machine)\<lparr>saved := \<lambda>_. Firmware\<rparr>\<rparr>"
  let ?f = "(shim_fini ?e ?m)\<lparr>mc_boot := restore_loaded_image (mc_boot (shim_fini ?e ?m))\<rparr>"
  have x: "slots (mc_hooks ?f) Exit = Firmware" by (simp add: shim_fini_def unhook_exit_def Let_def)
  have lo: "lo_LoadOptionsSize (bs_lo (mc_boot (with_fw ?f w))) = 0" for w
    by (simp add: shim_fini_def Let_def uninstall_shim_protocols_def with_fw_def restore_loaded_image_def demo_machine_facts)
  obtain m' where i: "shim_init ?e (with_fw ?f (mc_fw ?f)) = Some (Inr (EFI_SUCCESS, m'))" using demo_init [OF lo] by blast
  have ex: "hk_Exit ?e w = (EFI_INVALID_PARAMETER, w)" for w by (simp add: demo_hook_env_def)
  have d: "do_exit ?e ?m = Some (Inr (Returns (Some EFI_INVALID_PARAMETER, m')))"
    unfolding do_exit_def Let_def through_Firmware [OF x] ex sum.case prod.case i by simp
  have s: "in_secure_mode ?e ?m" by (rule demo_secure) (simp add: demo_machine_facts)
  from failed_exit_drops_revocations [OF d s] d show ?thesis by blast
qed

lemma fini_nulls_services_witness:
  "\<exists>m. shim_init (demo_hook_env False) demo_machine = Some (Inr (EFI_SUCCESS, m))
     \<and> slots (mc_hooks (shim_fini (demo_hook_env False) m)) LoadImage = Null"
proof -
  obtain m where i: "shim_init (demo_hook_env False) demo_machine = Some (Inr (EFI_SUCCESS, m))" and w: "mc_fw m = demo_secure_store"
    using demo_init [OF demo_machine_facts(3), of False] demo_machine_facts(1) by auto
  have ok: "\<not> EFI_ERROR EFI_SUCCESS" and v: "\<not> hk_vendor (demo_hook_env False)" by (simp_all add: demo_machine_facts)
  have "mc_fw (uninstall_shim_protocols (demo_hook_env False) m) = demo_secure_store"
    using w by (simp add: uninstall_shim_protocols_def demo_hook_env_def)
  from fini_nulls_services [OF i ok v demo_machine_facts(5) demo_secure [OF this]] i show ?thesis by (meson replaced_mem(1))
qed

text \<open>A handle database with one handle that can hold shim's protocol: it is the whole firmware state.\<close>

definition empty_rt :: "'w efi_rt" where
  "empty_rt = \<lparr>GetVariable = (\<lambda>w n g a sz. \<lparr>gv_status = EFI_NOT_FOUND, gv_attr = None, gv_size = 0, gv_data = []\<rparr>),
     SetVariable = (\<lambda>w n g a d. (EFI_UNSUPPORTED, w)), QueryVariableInfo = (\<lambda>w a. (EFI_UNSUPPORTED, 0, 0, 0)),
     GetTime = (\<lambda>w. (EFI_UNSUPPORTED, []))\<rparr>"

definition empty_sha :: "unit sha" where
  "empty_sha = \<lparr>sha_init = None, sha_update = (\<lambda>h b. None), sha_final = (\<lambda>h. None)\<rparr>"

definition db_lock_env :: "(nat option, unit, unit) lock_env" where
  "db_lock_env = \<lparr>lk_verify = \<lparr>ve_rt = empty_rt, ve_pool = (\<lambda>_. True), ve_authenticode = (\<lambda>a b c. False), ve_ekus = (\<lambda>_. None),
     ve_vendor_deauthorized = [], ve_vendor_db = None, ve_build_cert = None, ve_vendor_cert = None, ve_ignore_db = False,
     ve_user_insecure_mode = False\<rparr>, lk_sha256 = empty_sha, lk_sha1 = empty_sha, lk_atoi = (\<lambda>_. 0), lk_pe = demo_pe_env,
     lk_tpm = absent_tpm, lk_require_tpm = False, lk_http = (\<lambda>_ _. EFI_NOT_FOUND), lk_pool_at = (\<lambda>_. 0x10000)\<rparr>"

definition db_boot_env :: "(nat option, unit, unit, nat \<Rightarrow> u64, unit) boot_env" where
  "db_boot_env = \<lparr>bo_lock = db_lock_env, bo_files = \<lparr>ff_HandleProtocol = (\<lambda>w. EFI_NOT_FOUND), ff_OpenVolume = (\<lambda>w. (EFI_NOT_FOUND, None, w)),
     ff_Open = (\<lambda>w h p. (EFI_NOT_FOUND, None, w)), ff_Close = (\<lambda>w h. w), ff_SetPosition = (\<lambda>w h n. (EFI_UNSUPPORTED, w)),
     ff_GetInfo = (\<lambda>w h n. (EFI_UNSUPPORTED, 0, \<lparr>fi_FileSize = 0, fi_Attribute = 0, fi_FileName = []\<rparr>)),
     ff_Read = (\<lambda>w h n. (EFI_UNSUPPORTED, [], w)),
     ff_ReadDir = (\<lambda>w h n. (EFI_UNSUPPORTED, 0, \<lparr>fi_FileSize = 0, fi_Attribute = 0, fi_FileName = []\<rparr>, w))\<rparr>,
     bo_sizeof_file_info = 88, bo_HandleProtocol = (\<lambda>w. EFI_SUCCESS), bo_findNetboot = (\<lambda>w. False),
     bo_parseNetbootinfo = (\<lambda>w n. (EFI_UNSUPPORTED, w)), bo_FetchNetbootimage = (\<lambda>w. (EFI_UNSUPPORTED, [], w)),
     bo_find_httpboot = (\<lambda>w. False), bo_httpboot_fetch_buffer = (\<lambda>w n. (EFI_UNSUPPORTED, [], w)),
     bo_FileDevicePath = (\<lambda>p. Some p), bo_attr_proto = demo_attr_proto, bo_AllocatePages = (\<lambda>w. demo_pages),
     bo_tpm_status = (\<lambda>w. None), bo_DEFAULT_LOADER = [], bo_EFI_ARCH = [], bo_entry = (\<lambda>e i s. (EFI_SUCCESS, s))\<rparr>"

definition db_env :: "(nat option, unit, unit, nat \<Rightarrow> u64, unit, unit) hook_env" where
  "db_env = \<lparr>hk_boot = db_boot_env, hk_vendor = True, hk_ebs = True, hk_no_removable = False,
     hk_LocateLock = (\<lambda>w. if w = None then EFI_NOT_FOUND else EFI_SUCCESS),
     hk_InstallLock = (\<lambda>w h. case h of None \<Rightarrow> (EFI_SUCCESS, Some 1, Some 1)
        | Some i \<Rightarrow> if w = Some i then (EFI_SUCCESS, Some i, w) else (EFI_INVALID_PARAMETER, Some i, w)),
     hk_UninstallLock = (\<lambda>w h. if w \<noteq> None \<and> w = h then (EFI_SUCCESS, None) else (EFI_NOT_FOUND, w)),
     hk_LoadImage = (\<lambda>w q. (EFI_SUCCESS, Some 2, w)), hk_ExitBootServices = (\<lambda>w. (EFI_SUCCESS, w)), hk_Exit = (\<lambda>w. (EFI_SUCCESS, w))\<rparr>"

definition db_machine :: "(nat option, nat \<Rightarrow> u64) machine" where
  "db_machine = \<lparr>mc_hooks = \<lparr>slots = (\<lambda>_. Shim), saved = (\<lambda>_. Firmware), hooked = True, last_loaded_image = Some 2,
     shim_lock_handle = Some 1\<rparr>,
     mc_boot = \<lparr>bs_globals = demo_globals,
       bs_lo = \<lparr>lo_buf = [], lo_LoadOptions = None, lo_LoadOptionsSize = 0, second_stage = None, load_options = None, load_options_size = 0\<rparr>,
       bs_li = demo_li, bs_bak = demo_li, bs_attrs = (\<lambda>_. 0), bs_fw = Some 1\<rparr>\<rparr>"

lemma failed_start_resets_witness:
  "replacement_start_image db_env (\<lambda>m. (EFI_UNSUPPORTED, m)) (Some 2) db_machine = Inr ResetSystem"
proof (rule failed_start_resets [where handles = set_option and lock = "\<lambda>w. w" and lk = 1 and st = EFI_UNSUPPORTED])
  show "handle_database db_env set_option (\<lambda>w. w)"
    by (auto simp add: handle_database_def db_env_def)
  show "\<not> retain_protocol db_env (mc_fw db_machine)"
    by (simp add: retain_protocol_def db_env_def db_boot_env_def db_lock_env_def empty_rt_def Let_def)
qed (simp_all add: db_machine_def)

end
