(* ===== verification/Trust.thy ===== *)
theory Trust
  imports SecondStage
begin

text \<open>
  shim.c, trust that is not built in: revocations.efi, whose sections update the revocation
  variables, and the shim_certificate files, whose signature lists are added to the user
  certificates. The state is that of the second stage with \<open>user_cert\<close>.
\<close>

section \<open>State and environment\<close>

type_synonym ('w, 'm) trust_state = "('w, 'm) boot_state \<times> bytes"

record ('w, 'h, 'g, 'm, 'f) trust_env =
  tr_boot :: "('w, 'h, 'g, 'm, 'f) boot_env"
  tr_sbat :: "'w sbat_env"

definition REVOCATIONFILE :: wstr where "REVOCATIONFILE = wide ''revocations.efi''"

section \<open>A verified file\<close>

text \<open>\<open>verify_image\<close> of pe.c on a file that was read.\<close>

definition verify_file ::
  "('w, 'h, 'g, 'm, 'f) boot_env \<Rightarrow> bytes \<Rightarrow> ('w, 'm) boot_state
   \<Rightarrow> (efi_status \<times> pe_context option \<times> ('w, 'm) boot_state) res option"
where
  "verify_file env bytes s =
     (let lk = bo_lock env; g = bs_globals s; w = bs_fw s; f = file_of lk bytes in
      bindO (verify_image (lk_verify lk) w (lk_sha256 lk) (lk_sha1 lk) (bo_pool env) (lk_http lk w f) (lk_atoi lk)
               (sbat_var (sbat_state g)) (header_env lk (in_protocol g)) (bo_tpm_status env w) f (mb_base f)
               (word_of_nat (length bytes)) (verification_method g))
        (\<lambda>(st, vm, ctx). Some (Inr (st, ctx, s\<lparr>bs_globals := g\<lparr>verification_method := vm\<rparr>\<rparr>))))"

section \<open>Revocations\<close>

text \<open>
  \<open>check_section_helper\<close>: the pointer is set for a section of the name, also when the section
  is smaller than \<open>minsize\<close> and is said to be rejected.
\<close>

definition check_section :: "string \<Rightarrow> mbuf \<Rightarrow> section_header \<Rightarrow> nat \<Rightarrow> u64 option \<Rightarrow> u64 option" where
  "check_section name f s minsize p =
     (if sh_Name s = str8 name @ replicate (8 - length name) 0 then
        let p' = ImageAddress (mb_base f) (word_of_nat (length (mb_data f))) (ucast (sh_PointerToRawData s)) in
        if unat (sh_SizeOfRawData s) < minsize then p' else p'
      else p)"

record revocation_sections =
  rv_sbata :: "u64 option"
  rv_sbatl :: "u64 option"
  rv_sspva :: "u64 option"
  rv_sspsa :: "u64 option"
  rv_sspvl :: "u64 option"
  rv_sspsl :: "u64 option"

definition no_sections :: revocation_sections where
  "no_sections = \<lparr>rv_sbata = None, rv_sbatl = None, rv_sspva = None, rv_sspsa = None, rv_sspvl = None, rv_sspsl = None\<rparr>"

definition check_sections :: "mbuf \<Rightarrow> section_header \<Rightarrow> revocation_sections \<Rightarrow> revocation_sections" where
  "check_sections f s r =
     (let size_sbat = length SBAT_VAR_ORIGINAL + 1 in
      \<lparr>rv_sbata = check_section ''.sbata'' f s size_sbat (rv_sbata r),
       rv_sbatl = check_section ''.sbatl'' f s size_sbat (rv_sbatl r),
       rv_sspva = check_section ''.sspva'' f s SSPVER_SIZE (rv_sspva r),
       rv_sspsa = check_section ''.sspsa'' f s SSPSIG_SIZE (rv_sspsa r),
       rv_sspvl = check_section ''.sspvl'' f s SSPVER_SIZE (rv_sspvl r),
       rv_sspsl = check_section ''.sspsl'' f s SSPSIG_SIZE (rv_sspsl r)\<rparr>)"

fun revocation_loop :: "mbuf \<Rightarrow> pe_context \<Rightarrow> nat \<Rightarrow> nat \<Rightarrow> revocation_sections \<Rightarrow> revocation_sections res" where
  "revocation_loop f ctx 0 i r = Inr r"
| "revocation_loop f ctx (Suc k) i r =
     bindR (read_section f (section_ptr ctx i)) (\<lambda>s. revocation_loop f ctx k (Suc i) (check_sections f s r))"

text \<open>The file from a pointer on.\<close>

definition from_ptr :: "mbuf \<Rightarrow> u64 \<Rightarrow> bytes" where
  "from_ptr f p = drop (off f p) (mb_data f)"

definition update_revocations ::
  "'w sbat_env \<Rightarrow> mbuf \<Rightarrow> revocation_sections \<Rightarrow> efi_status \<Rightarrow> ('w, 'm) boot_state \<Rightarrow> (efi_status \<times> ('w, 'm) boot_state) res"
where
  "update_revocations env f r st s =
     bindR (case (rv_sbatl r, rv_sbata r) of
              (Some latest, Some automatic) \<Rightarrow>
                set_sbat_uefi_variable env (in_protocol (bs_globals s)) (sbat_state (bs_globals s)) (bs_fw s)
                  (from_ptr f automatic) (from_ptr f latest)
            | _ \<Rightarrow> Inr (st, sbat_state (bs_globals s), bs_fw s)) (\<lambda>(st, sb, w).
     bindR (if rv_sspva r \<noteq> None \<and> rv_sspsa r \<noteq> None \<or> rv_sspvl r \<noteq> None \<and> rv_sspsl r \<noteq> None
            then set_ssp_uefi_variable env sb w (map_option (from_ptr f) (rv_sspva r), map_option (from_ptr f) (rv_sspsa r))
                   (map_option (from_ptr f) (rv_sspvl r), map_option (from_ptr f) (rv_sspsl r))
            else Inr (st, sb, w)) (\<lambda>(st, sb, w).
       Inr (st, s\<lparr>bs_globals := (bs_globals s)\<lparr>sbat_state := sb\<rparr>, bs_fw := w\<rparr>)))"

definition load_revocations_file ::
  "('w, 'h, 'g, 'm, 'f) trust_env \<Rightarrow> ('w, 'm) trust_state \<Rightarrow> (efi_status \<times> ('w, 'm) trust_state) res option"
where
  "load_revocations_file env sc =
     (case read_image (tr_boot env) REVOCATIONFILE (fst sc) of
        (Inl Fault, s) \<Rightarrow> Some (Inl Fault)
      | (Inl (Status st), s) \<Rightarrow> Some (Inr (st, s, snd sc))
      | (Inr (path, bytes), s) \<Rightarrow>
          bindO (verify_file (tr_boot env) bytes s) (\<lambda>(st, ctx, s).
            if EFI_ERROR st then Some (Inr (st, s, snd sc))
            else case ctx of None \<Rightarrow> Some (Inl Fault)
            | Some ctx \<Rightarrow>
                let f = file_of (bo_lock (tr_boot env)) bytes in
                Some (bindR (revocation_loop f ctx (unat (c_NumberOfSections ctx)) 0 no_sections) (\<lambda>r.
                      bindR (update_revocations (tr_sbat env) f r st s) (\<lambda>(st, s). Inr (st, s, snd sc))))))"

section \<open>Certificates\<close>

text \<open>
  The list of one section is appended to \<open>user_cert\<close>; its size is taken from the list's header.
  The new size is a 32-bit number, and the allocation is not checked.
\<close>

definition append_cert_list :: "(nat \<Rightarrow> bool) \<Rightarrow> mbuf \<Rightarrow> u64 \<Rightarrow> bytes \<Rightarrow> bytes res" where
  "append_cert_list pool f p cert =
     bindR (rd32 f (p + 16)) (\<lambda>list_size.
     let user_cert_size = word_of_nat (length cert) + list_size :: u32 in
     if \<not> pool (unat user_cert_size) \<or> unat user_cert_size < length cert + unat list_size then Inl Fault
     else bindR (load f p (unat list_size)) (\<lambda>new. Inr (cert @ new)))"

fun cert_loop :: "(nat \<Rightarrow> bool) \<Rightarrow> mbuf \<Rightarrow> pe_context \<Rightarrow> nat \<Rightarrow> nat \<Rightarrow> bytes \<Rightarrow> bytes res" where
  "cert_loop pool f ctx 0 i cert = Inr cert"
| "cert_loop pool f ctx (Suc k) i cert =
     bindR (read_section f (section_ptr ctx i)) (\<lambda>s.
     bindR (if sh_Name s = str8 ''.db'' @ replicate 5 0 \<and> 28 \<le> unat (sh_SizeOfRawData s) then
              (case ImageAddress (mb_base f) (word_of_nat (length (mb_data f))) (ucast (sh_PointerToRawData s)) of
                 None \<Rightarrow> Inr cert
               | Some p \<Rightarrow> append_cert_list pool f p cert)
            else Inr cert) (cert_loop pool f ctx k (Suc i)))"

definition load_cert_file ::
  "('w, 'h, 'g, 'm, 'f) trust_env \<Rightarrow> wstr \<Rightarrow> ('w, 'm) trust_state \<Rightarrow> (efi_status \<times> ('w, 'm) trust_state) res option"
where
  "load_cert_file env filename sc =
     (case read_image (tr_boot env) filename (fst sc) of
        (Inl Fault, s) \<Rightarrow> Some (Inl Fault)
      | (Inl (Status st), s) \<Rightarrow> Some (Inr (st, s, snd sc))
      | (Inr (path, bytes), s) \<Rightarrow>
          bindO (verify_file (tr_boot env) bytes s) (\<lambda>(st, ctx, s).
            if EFI_ERROR st then Some (Inr (st, s, snd sc))
            else case ctx of None \<Rightarrow> Some (Inl Fault)
            | Some ctx \<Rightarrow>
                let f = file_of (bo_lock (tr_boot env)) bytes in
                Some (bindR (cert_loop (bo_pool (tr_boot env)) f ctx (unat (c_NumberOfSections ctx)) 0 (snd sc)) (\<lambda>cert.
                      Inr (EFI_SUCCESS, s, cert)))))"

section \<open>The directory\<close>

text \<open>
  \<open>rev\<close> and \<open>cert\<close> are \<open>load_revocations_file\<close> and \<open>load_cert_file\<close>, whose status is
  dropped; the state is any that has the firmware's state in it (\<open>fw\<close> and \<open>set\<close>).
\<close>

record ('s, 'w, 'f) dir_env =
  de_files :: "('w, 'f) file_protocol"
  de_pool :: "nat \<Rightarrow> bool"
  de_root :: 'f
  de_path :: wstr
  de_fw :: "'s \<Rightarrow> 'w"
  de_set :: "'w \<Rightarrow> 's \<Rightarrow> 's"
  de_rev :: "'s \<Rightarrow> 's res option"
  de_cert :: "wstr \<Rightarrow> 's \<Rightarrow> 's res option"

definition reopen :: "('s, 'w, 'f) dir_env \<Rightarrow> 's \<Rightarrow> (efi_status + 'f) res \<times> 's" where
  "reopen env s =
     (case ff_Open (de_files env) (de_fw env s) (de_root env) (de_path env) of
        (st, d, w) \<Rightarrow>
          (if EFI_ERROR st then Inr (Inl st) else case d of None \<Rightarrow> Inl Fault | Some d \<Rightarrow> Inr (Inr d), de_set env w s))"

text \<open>One entry: the result is a final status, or the handle and the flag to go on with.\<close>

definition is_revocations :: "wstr \<Rightarrow> bool res" where
  "is_revocations name = bindR (StrCaseCmp (name @ [0]) (REVOCATIONFILE @ [0])) (\<lambda>d. Inr (d = 0))"

definition is_certificate :: "wstr \<Rightarrow> bool res" where
  "is_certificate name = bindR (StrnCaseCmp (name @ [0]) (wide ''shim_certificate'' @ [0]) 16) (\<lambda>d. Inr (d = 0))"

definition trust_entry ::
  "('s, 'w, 'f) dir_env \<Rightarrow> 'f \<Rightarrow> bool \<Rightarrow> wstr \<Rightarrow> 's \<Rightarrow> ((efi_status + 'f \<times> bool) \<times> 's) res option"
where
  "trust_entry env dir search name s =
     (case bindR (is_revocations name) (\<lambda>r. bindR (is_certificate name) (\<lambda>c. Inr (r, c))) of
        Inl e \<Rightarrow> Some (Inl e)
      | Inr (r, c) \<Rightarrow>
          bindO (if search \<and> r then bindO (de_rev env s) (\<lambda>s.
                   case reopen env s of
                     (Inl e, s) \<Rightarrow> Some (Inl e)
                   | (Inr (Inl st), s) \<Rightarrow> Some (Inr (Inl st, s))
                   | (Inr (Inr d), s) \<Rightarrow> Some (Inr (Inr (d, False), s)))
                 else Some (Inr (Inr (dir, search), s))) (\<lambda>(next, s).
            case next of
              Inl st \<Rightarrow> Some (Inr (Inl st, s))
            | Inr (d, search) \<Rightarrow>
                if \<not> search \<and> c then bindO (de_cert env name s) (\<lambda>s. Some (Inr (Inr (d, search), s)))
                else Some (Inr (Inr (d, search), s))))"

partial_function (option) trust_loop ::
  "('s, 'w, 'f) dir_env \<Rightarrow> 'f \<Rightarrow> bool \<Rightarrow> nat \<Rightarrow> bool \<Rightarrow> 's \<Rightarrow> (efi_status \<times> 's) res option"
where
  "trust_loop env dir search n buf s =
     (case ff_ReadDir (de_files env) (de_fw env s) dir n of
        (st, n', info, w) \<Rightarrow>
          let s = de_set env w s in
          if st = EFI_BUFFER_TOO_SMALL then
            (let m = (if n' = n then (if n' < 4 then 4 else n' * 2) else n') in
             if n' = n \<and> 1024 < m \<or> \<not> de_pool env m then Some (Inr (st, s))
             else trust_loop env dir search m True s)
          else if EFI_ERROR st then Some (Inr (st, s))
          else if n' = 0 \<or> \<not> buf then
            (if search then
               (case reopen env s of
                  (Inl e, s) \<Rightarrow> Some (Inl e)
                | (Inr (Inl st), s) \<Rightarrow> Some (Inr (st, s))
                | (Inr (Inr d), s) \<Rightarrow> trust_loop env d False n' buf s)
             else Some (Inr (st, s)))
          else
            (case trust_entry env dir search (fi_FileName info) s of
               None \<Rightarrow> None
             | Some (Inl e) \<Rightarrow> Some (Inl e)
             | Some (Inr (Inl st, s)) \<Rightarrow> Some (Inr (st, s))
             | Some (Inr (Inr (d, search), s)) \<Rightarrow> trust_loop env d search n' buf s))"

declare trust_loop.simps [code]

definition drop_status :: "(efi_status \<times> 's) res option \<Rightarrow> 's res option" where
  "drop_status r = bindO r (\<lambda>(st, s). Some (Inr s))"

definition trust_dir ::
  "('w, 'h, 'g, 'm, 'f) trust_env \<Rightarrow> 'f \<Rightarrow> wstr \<Rightarrow> (('w, 'm) trust_state, 'w, 'f) dir_env"
where
  "trust_dir env root path = \<lparr>de_files = bo_files (tr_boot env), de_pool = bo_pool (tr_boot env), de_root = root, de_path = path,
     de_fw = (\<lambda>sc. bs_fw (fst sc)), de_set = (\<lambda>w sc. ((fst sc)\<lparr>bs_fw := w\<rparr>, snd sc)),
     de_rev = (\<lambda>sc. drop_status (load_revocations_file env sc)), de_cert = (\<lambda>name sc. drop_status (load_cert_file env name sc))\<rparr>"

text \<open>On a machine without a file system the file of revocations is loaded as certificates.\<close>

definition load_unbundled_trust ::
  "('w, 'h, 'g, 'm, 'f) trust_env \<Rightarrow> ('w, 'm) trust_state \<Rightarrow> (efi_status \<times> ('w, 'm) trust_state) res option"
where
  "load_unbundled_trust env sc =
     (let b = tr_boot env; s = fst sc; ff = bo_files b; st = bo_HandleProtocol b (bs_fw s) in
      if EFI_ERROR st then Some (Inr (st, sc))
      else case generate_path_from_image_path (bo_pool b) (li_FilePath (bs_li s)) [] of
        Inl Fault \<Rightarrow> Some (Inl Fault)
      | Inl (Status st) \<Rightarrow> Some (Inr (st, sc))
      | Inr path \<Rightarrow>
          if EFI_ERROR (ff_HandleProtocol ff (bs_fw s)) then
            bindO (load_cert_file env REVOCATIONFILE sc) (\<lambda>(_, sc). Some (Inr (ff_HandleProtocol ff (bs_fw s), sc)))
          else (case ff_OpenVolume ff (bs_fw s) of (st, root, w) \<Rightarrow>
            let sc = (s\<lparr>bs_fw := w\<rparr>, snd sc) in
            if EFI_ERROR st then Some (Inr (st, sc))
            else case root of None \<Rightarrow> Some (Inl Fault)
            | Some root \<Rightarrow>
                (let de = trust_dir env root path in
                 case reopen de sc of
                   (Inl e, sc) \<Rightarrow> Some (Inl e)
                 | (Inr (Inl st), sc) \<Rightarrow> Some (Inr (st, sc))
                 | (Inr (Inr dir), sc) \<Rightarrow>
                     if \<not> secure_mode (lk_verify (bo_lock b)) (bs_fw (fst sc)) then Some (Inr (EFI_SUCCESS, sc))
                     else trust_loop de dir True 0 False sc)))"

section \<open>Two passes over a directory\<close>

text \<open>
  What is documented of reading a directory: the entries come in order, a buffer that is too small
  leaves the position and reports the size, and the end reports the size 0. \<open>pos s d\<close> is the
  position of a handle, \<open>view\<close> what a state has loaded; loading a file leaves the positions.
\<close>

definition reads_entry ::
  "('s, 'w, 'f) dir_env \<Rightarrow> (file_info \<Rightarrow> nat) \<Rightarrow> ('s \<Rightarrow> 'f \<Rightarrow> nat option) \<Rightarrow> ('s \<Rightarrow> 'v) \<Rightarrow> file_info list \<Rightarrow> bool"
where
  "reads_entry env esz pos view entries \<longleftrightarrow>
     (\<forall>s d i n st n' info w. pos s d = Some i \<longrightarrow> ff_ReadDir (de_files env) (de_fw env s) d n = (st, n', info, w) \<longrightarrow>
        view (de_set env w s) = view s
        \<and> (if length entries \<le> i then st = EFI_SUCCESS \<and> n' = 0
           else if n < esz (entries ! i) then st = EFI_BUFFER_TOO_SMALL \<and> n' = esz (entries ! i) \<and> pos (de_set env w s) d = Some i
           else st = EFI_SUCCESS \<and> n' = esz (entries ! i) \<and> info = entries ! i \<and> pos (de_set env w s) d = Some (Suc i)))"

definition opens_directory :: "('s, 'w, 'f) dir_env \<Rightarrow> ('s \<Rightarrow> 'f \<Rightarrow> nat option) \<Rightarrow> ('s \<Rightarrow> 'v) \<Rightarrow> bool" where
  "opens_directory env pos view \<longleftrightarrow>
     (\<forall>s. \<exists>d s'. reopen env s = (Inr (Inr d), s') \<and> pos s' d = Some 0 \<and> view s' = view s)"

definition loads_files ::
  "('s, 'w, 'f) dir_env \<Rightarrow> ('s \<Rightarrow> 'f \<Rightarrow> nat option) \<Rightarrow> ('s \<Rightarrow> 'v) \<Rightarrow> ('v \<Rightarrow> 'v) \<Rightarrow> (wstr \<Rightarrow> 'v \<Rightarrow> 'v) \<Rightarrow> bool"
where
  "loads_files env pos view vrev vcert \<longleftrightarrow>
     (\<forall>s. \<exists>s'. de_rev env s = Some (Inr s') \<and> view s' = vrev (view s))
   \<and> (\<forall>name s. \<exists>s'. de_cert env name s = Some (Inr s') \<and> view s' = vcert name (view s) \<and> pos s' = pos s)"

definition directory_ok ::
  "('s, 'w, 'f) dir_env \<Rightarrow> (file_info \<Rightarrow> nat) \<Rightarrow> ('s \<Rightarrow> 'f \<Rightarrow> nat option) \<Rightarrow> ('s \<Rightarrow> 'v) \<Rightarrow> ('v \<Rightarrow> 'v)
   \<Rightarrow> (wstr \<Rightarrow> 'v \<Rightarrow> 'v) \<Rightarrow> file_info list \<Rightarrow> bool"
where
  "directory_ok env esz pos view vrev vcert entries \<longleftrightarrow>
     reads_entry env esz pos view entries \<and> opens_directory env pos view \<and> loads_files env pos view vrev vcert
   \<and> (\<forall>n. de_pool env n) \<and> (\<forall>e \<in> set entries. 0 < esz e)"

definition rev_name :: "wstr \<Rightarrow> bool" where "rev_name name \<longleftrightarrow> is_revocations name = Inr True"
definition cert_name :: "wstr \<Rightarrow> bool" where "cert_name name \<longleftrightarrow> is_certificate name = Inr True"

definition cert_names :: "file_info list \<Rightarrow> wstr list" where
  "cert_names entries = filter cert_name (map fi_FileName entries)"

lemma StrCaseCmp_returns: "\<exists>d. StrCaseCmp (a @ [0]) (b @ [0]) = Inr d"
  by (induction a "b" rule: list_induct2') auto

lemma StrnCaseCmp_returns: "\<exists>d. StrnCaseCmp (a @ [0]) (b @ [0]) n = Inr d"
proof (induction n arbitrary: a b)
  case (Suc n)
  then show ?case by (cases a; cases b) auto
qed simp

lemma names_decided: "is_revocations name = Inr (rev_name name)" "is_certificate name = Inr (cert_name name)"
  using StrCaseCmp_returns [of name REVOCATIONFILE] StrnCaseCmp_returns [of name "wide ''shim_certificate''" 16]
  by (auto simp add: rev_name_def cert_name_def is_revocations_def is_certificate_def)

lemma StrnCaseCmp_first:
  "0 < n \<Longrightarrow> StrnCaseCmp (a # as) (b # bs) n =
     (if a = 0 \<or> b = 0 then Inr (int (unat b) - int (unat a))
      else if upcase a \<noteq> upcase b then Inr (int (unat (upcase b)) - int (unat (upcase a)))
      else StrnCaseCmp as bs (n - 1))"
  by (cases n) auto

text \<open>The two names start with different letters.\<close>

lemma rev_not_cert:
  assumes "rev_name name"
  shows "\<not> cert_name name"
proof (cases name)
  case Nil
  then show ?thesis by (simp add: cert_name_def is_certificate_def wide_def StrnCaseCmp_first)
next
  case (Cons c cs)
  have "c \<noteq> 0" "upcase c = upcase 114"
    using assms Cons by (auto simp add: rev_name_def is_revocations_def REVOCATIONFILE_def wide_def dest: unsigned_word_eqI split: if_splits)
  then show ?thesis
    using Cons by (simp add: cert_name_def is_certificate_def wide_def StrnCaseCmp_first upcase_def)
qed

lemma loaded_certificate:
  assumes "directory_ok env esz pos view vrev vcert entries"
  shows "\<exists>s'. trust_entry env d False name s = Some (Inr (Inr (d, False), s'))
     \<and> view s' = (if cert_name name then vcert name (view s) else view s) \<and> pos s' = pos s"
proof -
  obtain s' where "de_cert env name s = Some (Inr s')" "view s' = vcert name (view s)" "pos s' = pos s"
    using assms by (fastforce simp add: directory_ok_def loads_files_def)
  then show ?thesis by (simp add: trust_entry_def names_decided)
qed

lemma skipped_entry: "\<not> rev_name name \<Longrightarrow> trust_entry env d True name s = Some (Inr (Inr (d, True), s))"
  by (simp add: trust_entry_def names_decided)

lemma loaded_revocations:
  assumes "directory_ok env esz pos view vrev vcert entries" and "rev_name name"
  shows "\<exists>d' s'. trust_entry env d True name s = Some (Inr (Inr (d', False), s'))
     \<and> view s' = vrev (view s) \<and> pos s' d' = Some 0"
proof -
  obtain s1 where s1: "de_rev env s = Some (Inr s1)" "view s1 = vrev (view s)"
    using assms(1) by (fastforce simp add: directory_ok_def loads_files_def)
  obtain d' s2 where "reopen env s1 = (Inr (Inr d'), s2)" "pos s2 d' = Some 0" "view s2 = view s1"
    using assms(1) by (fastforce simp add: directory_ok_def opens_directory_def)
  then show ?thesis
    using s1 rev_not_cert [OF assms(2)] assms(2) by (simp add: trust_entry_def names_decided)
qed

text \<open>The next entry is read with a buffer that is enlarged once at most.\<close>

lemma entry_read:
  assumes ok: "directory_ok env esz pos view vrev vcert entries" and "pos s d = Some i" and i: "i < length entries"
    and n: "esz (entries ! i) \<le> n"
  shows "\<exists>s'. pos s' d = Some (Suc i) \<and> view s' = view s
     \<and> trust_loop env d search n True s =
         (case trust_entry env d search (fi_FileName (entries ! i)) s' of
            None \<Rightarrow> None
          | Some (Inl e) \<Rightarrow> Some (Inl e)
          | Some (Inr (Inl st, s)) \<Rightarrow> Some (Inr (st, s))
          | Some (Inr (Inr (d, search), s)) \<Rightarrow> trust_loop env d search (esz (entries ! i)) True s)"
proof -
  obtain st n' info w where r: "ff_ReadDir (de_files env) (de_fw env s) d n = (st, n', info, w)"
    by (metis prod_cases4)
  have e: "st = EFI_SUCCESS" "n' = esz (entries ! i)" "info = entries ! i"
      "pos (de_set env w s) d = Some (Suc i)" "view (de_set env w s) = view s"
    using ok assms(2) r i n unfolding directory_ok_def reads_entry_def by fastforce+
  have "0 < esz (entries ! i)" using ok i by (simp add: directory_ok_def)
  then show ?thesis using e by (subst trust_loop.simps) (auto simp add: r Let_def)
qed

lemma buffer_grown:
  assumes ok: "directory_ok env esz pos view vrev vcert entries" and "pos s d = Some i" and i: "i < length entries"
    and n: "n < esz (entries ! i)"
  shows "\<exists>s'. pos s' d = Some i \<and> view s' = view s
     \<and> trust_loop env d search n buf s = trust_loop env d search (esz (entries ! i)) True s'"
proof -
  obtain st n' info w where r: "ff_ReadDir (de_files env) (de_fw env s) d n = (st, n', info, w)"
    by (metis prod_cases4)
  have e: "st = EFI_BUFFER_TOO_SMALL" "n' = esz (entries ! i)"
      "pos (de_set env w s) d = Some i" "view (de_set env w s) = view s"
    using ok assms(2) r i n unfolding directory_ok_def reads_entry_def by fastforce+
  have "de_pool env n'" using ok by (simp add: directory_ok_def)
  then show ?thesis
    using e n by (subst trust_loop.simps) (auto simp add: r Let_def intro!: exI [of _ "de_set env w s"])
qed

lemma next_entry:
  assumes ok: "directory_ok env esz pos view vrev vcert entries" and p: "pos s d = Some i" and i: "i < length entries"
    and b: "buf \<or> n = 0"
  shows "\<exists>s'. pos s' d = Some (Suc i) \<and> view s' = view s
     \<and> trust_loop env d search n buf s =
         (case trust_entry env d search (fi_FileName (entries ! i)) s' of
            None \<Rightarrow> None
          | Some (Inl e) \<Rightarrow> Some (Inl e)
          | Some (Inr (Inl st, s)) \<Rightarrow> Some (Inr (st, s))
          | Some (Inr (Inr (d, search), s)) \<Rightarrow> trust_loop env d search (esz (entries ! i)) True s)"
proof (cases "n < esz (entries ! i)")
  case True
  obtain s1 where s1: "pos s1 d = Some i" "view s1 = view s"
      "trust_loop env d search n buf s = trust_loop env d search (esz (entries ! i)) True s1"
    using buffer_grown [where ?s = s and ?d = d, OF ok p i True] by blast
  show ?thesis
    using entry_read [where ?s = s1 and ?d = d and search = search, OF ok s1(1) i order_refl] s1(2,3) by simp
next
  case False
  moreover have "0 < esz (entries ! i)" using ok i by (simp add: directory_ok_def)
  ultimately have "buf" using b by auto
  then show ?thesis
    using entry_read [where ?s = s and ?d = d and search = search and n = n, OF ok p i] False by simp
qed

lemma directory_end:
  assumes ok: "directory_ok env esz pos view vrev vcert entries" and "pos s d = Some i" and i: "length entries \<le> i"
  shows "\<exists>s'. trust_loop env d False n buf s = Some (Inr (EFI_SUCCESS, s')) \<and> view s' = view s" (is ?stop)
    and "\<exists>d' s'. trust_loop env d True n buf s = trust_loop env d' False 0 buf s' \<and> view s' = view s
       \<and> pos s' d' = Some 0" (is ?again)
proof -
  obtain st n' info w where r: "ff_ReadDir (de_files env) (de_fw env s) d n = (st, n', info, w)"
    by (metis prod_cases4)
  have e: "st = EFI_SUCCESS" "n' = 0" "view (de_set env w s) = view s"
    using ok assms(2) r i unfolding directory_ok_def reads_entry_def by fastforce+
  show ?stop using e by (subst trust_loop.simps) (simp add: r Let_def)
  obtain d' s' where "reopen env (de_set env w s) = (Inr (Inr d'), s')" "pos s' d' = Some 0" "view s' = view (de_set env w s)"
    using ok by (fastforce simp add: directory_ok_def opens_directory_def)
  then show ?again
    using e by (subst trust_loop.simps) (auto simp add: r Let_def intro!: exI [of _ d'] exI [of _ s'])
qed

lemma certificates_pass:
  assumes ok: "directory_ok env esz pos view vrev vcert entries" and "pos s d = Some i" and "buf \<or> n = 0"
  shows "\<exists>s'. trust_loop env d False n buf s = Some (Inr (EFI_SUCCESS, s'))
     \<and> view s' = fold vcert (cert_names (drop i entries)) (view s)"
  using assms(2,3)
proof (induction "length entries - i" arbitrary: i n buf s)
  case 0
  then show ?case using directory_end(1) [where ?s = s and ?d = d, OF ok "0.prems"(1)] by (simp add: cert_names_def)
next
  case (Suc k)
  then have i: "i < length entries" by simp
  obtain s1 where s1: "pos s1 d = Some (Suc i)" "view s1 = view s"
      "trust_loop env d False n buf s =
         (case trust_entry env d False (fi_FileName (entries ! i)) s1 of
            None \<Rightarrow> None
          | Some (Inl e) \<Rightarrow> Some (Inl e)
          | Some (Inr (Inl st, s)) \<Rightarrow> Some (Inr (st, s))
          | Some (Inr (Inr (d, search), s)) \<Rightarrow> trust_loop env d search (esz (entries ! i)) True s)"
    using next_entry [where ?s = s and ?d = d and search = False, OF ok Suc.prems(1) i Suc.prems(2)] by blast
  let ?name = "fi_FileName (entries ! i)"
  obtain s2 where s2: "trust_entry env d False ?name s1 = Some (Inr (Inr (d, False), s2))" "pos s2 = pos s1"
      "view s2 = (if cert_name ?name then vcert ?name (view s1) else view s1)"
    using loaded_certificate [OF ok] by blast
  have "\<exists>s'. trust_loop env d False (esz (entries ! i)) True s2 = Some (Inr (EFI_SUCCESS, s'))
     \<and> view s' = fold vcert (cert_names (drop (Suc i) entries)) (view s2)"
    by (rule Suc.hyps(1)) (use Suc.hyps(2) s1(1) s2(2) in auto)
  moreover have "drop i entries = entries ! i # drop (Suc i) entries" using i by (simp add: Cons_nth_drop_Suc)
  ultimately show ?case using s1(2,3) s2(1,3) by (auto simp add: cert_names_def)
qed

lemma revocations_pass:
  assumes ok: "directory_ok env esz pos view vrev vcert entries" and "pos s d = Some i" and "buf \<or> n = 0"
  shows "\<exists>d' n' buf' s'. trust_loop env d True n buf s = trust_loop env d' False n' buf' s'
     \<and> view s' = (if \<exists>e \<in> set (drop i entries). rev_name (fi_FileName e) then vrev (view s) else view s)
     \<and> pos s' d' = Some 0 \<and> (buf' \<or> n' = 0)"
  using assms(2,3)
proof (induction "length entries - i" arbitrary: i n buf s)
  case 0
  then show ?case using directory_end(2) [where ?s = s and ?d = d, OF ok "0.prems"(1)] by fastforce
next
  case (Suc k)
  then have i: "i < length entries" by simp
  then have drop: "drop i entries = entries ! i # drop (Suc i) entries" by (simp add: Cons_nth_drop_Suc)
  let ?name = "fi_FileName (entries ! i)"
  obtain s1 where s1: "pos s1 d = Some (Suc i)" "view s1 = view s"
      "trust_loop env d True n buf s =
         (case trust_entry env d True ?name s1 of
            None \<Rightarrow> None
          | Some (Inl e) \<Rightarrow> Some (Inl e)
          | Some (Inr (Inl st, s)) \<Rightarrow> Some (Inr (st, s))
          | Some (Inr (Inr (d, search), s)) \<Rightarrow> trust_loop env d search (esz (entries ! i)) True s)"
    using next_entry [where ?s = s and ?d = d and search = True, OF ok Suc.prems(1) i Suc.prems(2)] by blast
  show ?case
  proof (cases "rev_name ?name")
    case True
    obtain d' s2 where "trust_entry env d True ?name s1 = Some (Inr (Inr (d', False), s2))"
        "view s2 = vrev (view s1)" "pos s2 d' = Some 0"
      using loaded_revocations [OF ok True] by blast
    then show ?thesis
      using s1 True drop
      by (auto intro!: exI [of _ d'] exI [of _ "esz (entries ! i)"] exI [of _ True] exI [of _ s2])
  next
    case False
    have "\<exists>d' n' buf' s'. trust_loop env d True (esz (entries ! i)) True s1 = trust_loop env d' False n' buf' s'
       \<and> view s' = (if \<exists>e \<in> set (drop (Suc i) entries). rev_name (fi_FileName e) then vrev (view s1) else view s1)
       \<and> pos s' d' = Some 0 \<and> (buf' \<or> n' = 0)"
      by (rule Suc.hyps(1)) (use Suc.hyps(2) s1(1) in auto)
    then show ?thesis using s1(2,3) False drop by (cases "\<exists>e \<in> set (drop (Suc i) entries). rev_name (fi_FileName e)") (auto simp add: skipped_entry)
  qed
qed

section \<open>Properties\<close>


text \<open>A directory with a certificate before the revocations: the state is the position and the log of what was loaded.\<close>

definition demo_entries :: "file_info list" where
  "demo_entries = map (\<lambda>name. \<lparr>fi_FileSize = 1, fi_Attribute = 0, fi_FileName = name\<rparr>)
     [wide ''shim_certificate_0.efi'', wide ''grubx64.efi'', wide ''Revocations.efi'', wide ''shim_certificate_1.efi'']"

definition demo_read_dir :: "nat \<times> wstr list \<Rightarrow> unit \<Rightarrow> nat \<Rightarrow> efi_status \<times> nat \<times> file_info \<times> nat \<times> wstr list" where
  "demo_read_dir w d n =
     (if length demo_entries \<le> fst w then (EFI_SUCCESS, 0, demo_entries ! 0, w)
      else if n < 88 then (EFI_BUFFER_TOO_SMALL, 88, demo_entries ! 0, w)
      else (EFI_SUCCESS, 88, demo_entries ! fst w, Suc (fst w), snd w))"

definition demo_directory :: "(nat \<times> wstr list, nat \<times> wstr list, unit) dir_env" where
  "demo_directory = \<lparr>de_files = \<lparr>ff_HandleProtocol = (\<lambda>w. EFI_SUCCESS), ff_OpenVolume = (\<lambda>w. (EFI_SUCCESS, Some (), w)),
       ff_Open = (\<lambda>w d name. (EFI_SUCCESS, Some (), (0, snd w))), ff_Close = (\<lambda>w d. w),
       ff_SetPosition = (\<lambda>w d p. (EFI_SUCCESS, w)), ff_GetInfo = (\<lambda>w d n. (EFI_NOT_FOUND, 0, demo_entries ! 0)),
       ff_Read = (\<lambda>w d n. (EFI_SUCCESS, [], w)), ff_ReadDir = demo_read_dir\<rparr>,
     de_pool = (\<lambda>n. True), de_root = (), de_path = [], de_fw = (\<lambda>s. s), de_set = (\<lambda>w s. w),
     de_rev = (\<lambda>s. Some (Inr (fst s, snd s @ [REVOCATIONFILE]))), de_cert = (\<lambda>name s. Some (Inr (fst s, snd s @ [name])))\<rparr>"

lemma demo_directory_ok:
  "directory_ok demo_directory (\<lambda>e. 88) (\<lambda>s d. Some (fst s)) snd (\<lambda>v. v @ [REVOCATIONFILE]) (\<lambda>name v. v @ [name]) demo_entries"
  by (auto simp add: directory_ok_def demo_directory_def reads_entry_def opens_directory_def loads_files_def reopen_def
      demo_read_dir_def split: if_splits)

lemma demo_names:
  "cert_names demo_entries = [wide ''shim_certificate_0.efi'', wide ''shim_certificate_1.efi'']"
  "\<exists>e \<in> set demo_entries. rev_name (fi_FileName e)"
  by (simp_all add: cert_names_def demo_entries_def cert_name_def rev_name_def is_certificate_def is_revocations_def
      REVOCATIONFILE_def wide_def StrnCaseCmp_first upcase_def)


end
