(* ===== verification/MokKeys.thy ===== *)
theory MokKeys
  imports UefiVars
begin

text \<open>
  MokManager.c, the key lists: reading the signature lists of a variable into the nodes
  \<open>MokListNode\<close>, deleting certificates and hashes, and writing the nodes back. A list of keys is
  a buffer of bytes; a node points into it, and deleting a hash moves the bytes behind it in place.
\<close>

section \<open>Kinds of keys\<close>

definition EFI_CERT_SHA224_GUID :: guid where
  "EFI_CERT_SHA224_GUID = mk_guid 0xb6e5233 0xa65c 0x44c9 [0x94, 0x7, 0xd9, 0xab, 0x83, 0xbf, 0xc8, 0xbd]"

definition EFI_CERT_SHA384_GUID :: guid where
  "EFI_CERT_SHA384_GUID = mk_guid 0xff3e5307 0x9fd0 0x48c9 [0x85, 0xf1, 0x8a, 0xd5, 0x6c, 0x70, 0x1e, 0x1]"

definition EFI_CERT_SHA512_GUID :: guid where
  "EFI_CERT_SHA512_GUID = mk_guid 0x93e0fae 0xa6c4 0x4f50 [0x9f, 0x1b, 0xd4, 0x1e, 0x2b, 0x89, 0xc1, 0x9a]"

definition is_sha2_hash :: "guid \<Rightarrow> bool" where
  "is_sha2_hash ty \<longleftrightarrow>
     ty = EFI_CERT_SHA224_GUID \<or> ty = EFI_CERT_SHA256_GUID \<or> ty = EFI_CERT_SHA384_GUID \<or> ty = EFI_CERT_SHA512_GUID"

definition sha_size :: "guid \<Rightarrow> nat" where
  "sha_size ty =
     (if ty = EFI_CERT_SHA1_GUID then 20 else if ty = EFI_CERT_SHA224_GUID then 28
      else if ty = EFI_CERT_SHA256_GUID then 32 else if ty = EFI_CERT_SHA384_GUID then 48
      else if ty = EFI_CERT_SHA512_GUID then 64 else 0)"

definition is_valid_siglist :: "guid \<Rightarrow> nat \<Rightarrow> bool" where
  "is_valid_siglist ty sig_size \<longleftrightarrow>
     (if ty = X509_GUID \<and> sig_size \<noteq> 0 then True
      else if \<not> is_sha2_hash ty then False
      else sig_size = sha_size ty + 16)"

section \<open>Reading the lists\<close>

text \<open>
  \<open>count_keys\<close>: \<open>cl\<close> is \<open>CertList\<close> as an index into the data, \<open>fin\<close> the index \<open>end\<close>. The size of
  a list is read before anything is known about what is left of the data.
\<close>

function count_loop :: "bytes \<Rightarrow> nat \<Rightarrow> nat \<Rightarrow> nat \<Rightarrow> nat \<Rightarrow> nat res" where
  "count_loop data fin cl dbsize num =
     (if dbsize = 0 then Inr num
      else case get_le data (cl + 16) 4 of
        Inl e \<Rightarrow> Inl e
      | Inr list_size \<Rightarrow>
          if dbsize < list_size then Inr num
          else if fin < cl + sizeof_ESL \<or> list_size = 0 then Inr 0
          else bindR (get_le data (cl + 24) 4) (\<lambda>sig_size.
               if list_size \<le> sig_size then Inr 0
               else bindR (get_bytes data cl 16) (\<lambda>ty.
                 if \<not> is_valid_siglist ty sig_size then Inr 0
                 else count_loop data fin (cl + list_size) (dbsize - list_size) ((num + 1) mod 2 ^ 32))))"
  by pat_completeness auto

termination by (relation "measure (\<lambda>(data, fin, cl, dbsize, num). dbsize)") auto

declare count_loop.simps [simp del]

definition count_keys :: "bytes \<Rightarrow> nat \<Rightarrow> nat res" where
  "count_keys data datasize = count_loop data datasize 0 datasize 0"

text \<open>\<open>mn_Mok\<close> is \<open>None\<close> for a null pointer.\<close>

record mok_node =
  mn_Size :: nat
  mn_Mok :: "nat option"
  mn_Type :: guid

text \<open>
  \<open>build_mok_list\<close>: the result is \<open>None\<close> for a null pointer. Of a list of certificates only the
  first one gets into a node. The array has room for \<open>num\<close> nodes.
\<close>

function build_loop :: "nat \<Rightarrow> bytes \<Rightarrow> nat \<Rightarrow> nat \<Rightarrow> nat \<Rightarrow> mok_node list \<Rightarrow> mok_node list option res" where
  "build_loop num data fin cl dbsize nodes =
     (if dbsize = 0 then Inr (Some nodes)
      else case get_le data (cl + 16) 4 of
        Inl e \<Rightarrow> Inl e
      | Inr list_size \<Rightarrow>
          if dbsize < list_size then Inr (Some nodes)
          else if fin < cl + sizeof_ESL \<or> list_size = 0 then Inr None
          else bindR (get_le data (cl + 20) 4) (\<lambda>hdr_size.
               bindR (get_le data (cl + 24) 4) (\<lambda>sig_size.
               let cert = cl + sizeof_ESL + hdr_size in
               if fin < cert + sizeof_ESD \<or> sig_size \<le> 16 then Inr None
               else if num \<le> length nodes then Inl Fault
               else bindR (get_bytes data cl 16) (\<lambda>ty.
                 let n = (if ty = X509_GUID then \<lparr>mn_Size = sig_size - 16, mn_Mok = Some (cert + 16), mn_Type = ty\<rparr>
                          else \<lparr>mn_Size = (list_size + (2 ^ 32 - sizeof_ESL)) mod 2 ^ 32, mn_Mok = Some cert, mn_Type = ty\<rparr>) in
                 if fin - the (mn_Mok n) < mn_Size n then Inr None
                 else build_loop num data fin (cl + list_size) (dbsize - list_size) (nodes @ [n])))))"
  by pat_completeness auto

termination by (relation "measure (\<lambda>(num, data, fin, cl, dbsize, nodes). dbsize)") auto

declare build_loop.simps [simp del]

definition sizeof_node :: nat where "sizeof_node = 28"

definition build_mok_list :: "(nat \<Rightarrow> bool) \<Rightarrow> nat \<Rightarrow> bytes \<Rightarrow> nat \<Rightarrow> mok_node list option res" where
  "build_mok_list pool num data datasize =
     (if \<not> pool (sizeof_node * num) then Inr None else build_loop num data datasize 0 datasize [])"

section \<open>Deleting keys\<close>

definition delete_cert_node :: "bytes \<Rightarrow> bytes \<Rightarrow> mok_node \<Rightarrow> mok_node res" where
  "delete_cert_node key data n =
     (if mn_Type n \<noteq> X509_GUID \<or> mn_Size n \<noteq> length key then Inr n
      else bindR (if key = [] then Inr []
                  else case mn_Mok n of None \<Rightarrow> Inl Fault | Some p \<Rightarrow> get_bytes data p (length key)) (\<lambda>k.
        Inr (if k = key then n\<lparr>mn_Mok := None, mn_Size := 0\<rparr> else n)))"

fun delete_cert :: "bytes \<Rightarrow> bytes \<Rightarrow> mok_node list \<Rightarrow> mok_node list res" where
  "delete_cert key data [] = Inr []"
| "delete_cert key data (n # nodes) =
     bindR (delete_cert_node key data n) (\<lambda>n. bindR (delete_cert key data nodes) (\<lambda>nodes. Inr (n # nodes)))"

text \<open>
  \<open>match_hash\<close>: the index starts at \<open>start\<close>, the pointer at the first hash of the list
  whatever \<open>start\<close> is. \<open>k\<close> is the number of indices that are left.
\<close>

fun match_loop :: "bytes \<Rightarrow> bytes \<Rightarrow> nat \<Rightarrow> nat \<Rightarrow> nat \<Rightarrow> nat option res" where
  "match_loop hash data i p 0 = Inr None"
| "match_loop hash data i p (Suc k) =
     bindR (get_bytes data p (length hash)) (\<lambda>h.
       if h = hash then Inr (Some i) else match_loop hash data (i + 1) (p + length hash + 16) k)"

definition match_hash :: "bytes \<Rightarrow> nat \<Rightarrow> bytes \<Rightarrow> nat \<Rightarrow> nat \<Rightarrow> nat option res" where
  "match_hash hash start data p list_num = match_loop hash data start (p + 16) (list_num - start)"

fun mem_move :: "bytes \<Rightarrow> nat \<Rightarrow> nat \<Rightarrow> nat \<Rightarrow> bytes res" where
  "mem_move data d s 0 = Inr data"
| "mem_move data d s (Suc n) =
     (if d < length data \<and> s < length data then mem_move (data[d := data ! s]) (d + 1) (s + 1) n else Inl Fault)"

text \<open>\<open>list_num\<close> goes down by one with every hash that is removed.\<close>

fun delete_hash_loop :: "bytes \<Rightarrow> nat \<Rightarrow> nat \<Rightarrow> bytes \<Rightarrow> mok_node \<Rightarrow> (bytes \<times> mok_node) res" where
  "delete_hash_loop hash start 0 data n = Inr (data, n)"
| "delete_hash_loop hash start (Suc k) data n =
     (case mn_Mok n of
        None \<Rightarrow> Inl Fault
      | Some p \<Rightarrow>
          bindR (match_hash hash start data p (Suc k)) (\<lambda>d.
            case d of
              None \<Rightarrow> Inr (data, n)
            | Some del_ind \<Rightarrow>
                let sig_size = length hash + 16 in
                if sig_size = mn_Size n then Inr (data, n\<lparr>mn_Mok := None, mn_Size := 0\<rparr>)
                else bindR (mem_move data (p + del_ind * sig_size) (p + del_ind * sig_size + sig_size)
                              (mn_Size n - (del_ind + 1) * sig_size)) (\<lambda>data.
                     delete_hash_loop hash del_ind k data (n\<lparr>mn_Size := mn_Size n - sig_size\<rparr>))))"

fun delete_hash_in_list :: "guid \<Rightarrow> bytes \<Rightarrow> bytes \<Rightarrow> mok_node list \<Rightarrow> (bytes \<times> mok_node list) res" where
  "delete_hash_in_list ty hash data [] = Inr (data, [])"
| "delete_hash_in_list ty hash data (n # nodes) =
     (let sig_size = length hash + 16 in
      bindR (if mn_Type n \<noteq> ty \<or> mn_Size n < sig_size then Inr (data, n)
             else delete_hash_loop hash 0 (mn_Size n div sig_size) data n) (\<lambda>(data, n).
      bindR (delete_hash_in_list ty hash data nodes) (\<lambda>(data, nodes). Inr (data, n # nodes))))"

text \<open>\<open>del\<close> is the buffer of the keys to delete, \<open>p\<close> the next hash in it.\<close>

fun delete_hashes :: "guid \<Rightarrow> bytes \<Rightarrow> nat \<Rightarrow> nat \<Rightarrow> bytes \<Rightarrow> mok_node list \<Rightarrow> (bytes \<times> mok_node list) res" where
  "delete_hashes ty del p 0 data nodes = Inr (data, nodes)"
| "delete_hashes ty del p (Suc k) data nodes =
     bindR (get_bytes del p (sha_size ty)) (\<lambda>hash.
     bindR (delete_hash_in_list ty hash data nodes) (\<lambda>(data, nodes).
       delete_hashes ty del (p + sha_size ty + 16) k data nodes))"

definition delete_hash_list ::
  "guid \<Rightarrow> bytes \<Rightarrow> nat \<Rightarrow> nat \<Rightarrow> bytes \<Rightarrow> mok_node list \<Rightarrow> (bytes \<times> mok_node list) res"
where
  "delete_hash_list ty del p list_size data nodes =
     (if list_size < sha_size ty + 16 then Inr (data, nodes)
      else delete_hashes ty del (p + 16) (list_size div (sha_size ty + 16)) data nodes)"

text \<open>The loop "search and destroy" of \<open>delete_keys\<close>.\<close>

fun delete_loop :: "bytes \<Rightarrow> mok_node list \<Rightarrow> bytes \<Rightarrow> mok_node list \<Rightarrow> (bytes \<times> mok_node list) res" where
  "delete_loop del [] data nodes = Inr (data, nodes)"
| "delete_loop del (d # ds) data nodes =
     bindR (case mn_Mok d of
              None \<Rightarrow> Inl Fault
            | Some p \<Rightarrow>
                if mn_Type d = X509_GUID then
                  bindR (get_bytes del p (mn_Size d)) (\<lambda>key.
                  bindR (delete_cert key data nodes) (\<lambda>nodes. Inr (data, nodes)))
                else if is_sha2_hash (mn_Type d) then delete_hash_list (mn_Type d) del p (mn_Size d) data nodes
                else Inr (data, nodes)) (\<lambda>(data, nodes). delete_loop del ds data nodes)"

section \<open>Writing the lists back\<close>

definition node_bytes :: "bytes \<Rightarrow> mok_node \<Rightarrow> bytes res" where
  "node_bytes data n =
     (case mn_Mok n of
        None \<Rightarrow> Inr []
      | Some p \<Rightarrow>
          bindR (get_bytes data p (mn_Size n)) (\<lambda>mok.
            if mn_Type n = X509_GUID then
              Inr (esl_header X509_GUID (mn_Size n + sizeof_ESL + 16) 0 (mn_Size n + 16) @ SHIM_LOCK_GUID @ mok)
            else Inr (esl_header (mn_Type n) (mn_Size n + sizeof_ESL) 0 (sha_size (mn_Type n) + 16) @ mok)))"

fun all_node_bytes :: "bytes \<Rightarrow> mok_node list \<Rightarrow> bytes res" where
  "all_node_bytes data [] = Inr []"
| "all_node_bytes data (n # nodes) =
     bindR (node_bytes data n) (\<lambda>b. bindR (all_node_bytes data nodes) (\<lambda>bs. Inr (b @ bs)))"

text \<open>\<open>db_name\<close> for the argument \<open>MokX\<close>.\<close>

definition mok_db :: "bool \<Rightarrow> string" where
  "mok_db mokx = (if mokx then ''MokListX'' else ''MokList'')"

text \<open>The status of the deletion of a list that became empty is not looked at.\<close>

definition write_back_mok_list ::
  "'w efi_rt \<Rightarrow> (nat \<Rightarrow> bool) \<Rightarrow> 'w \<Rightarrow> bytes \<Rightarrow> mok_node list \<Rightarrow> bool \<Rightarrow> (efi_status \<times> 'w) res"
where
  "write_back_mok_list rt pool w data nodes mokx =
     (let db_name = mok_db mokx in
      bindR (all_node_bytes data nodes) (\<lambda>new.
        if new = [] then Inr (EFI_SUCCESS, snd (SetVariable rt w db_name SHIM_LOCK_GUID UEFI_VAR_NV_BS []))
        else if \<not> pool (length new) then Inr (EFI_OUT_OF_RESOURCES, w)
        else case SetVariable rt w db_name SHIM_LOCK_GUID UEFI_VAR_NV_BS new of
          (st, w) \<Rightarrow> if EFI_ERROR st then Inr (st, w) else Inr (EFI_SUCCESS, w)))"

end
