(* ===== verification/MokKeysSpec.thy ===== *)
theory MokKeysSpec
  imports MokKeys
begin

text \<open>
  What deleting keys means: a list of keys as entries, the entries that a deletion leaves, and the
  proof that the code of MokManager.c, which moves hashes about in the buffer, writes back exactly
  these.
\<close>

section \<open>Entries\<close>

datatype key_entry =
    MokCert bytes
  | MokHashes guid "(guid \<times> bytes) list"

text \<open>A list of the variable that has one certificate, or SHA-2 hashes of which none is twice.\<close>

definition key_list_ok :: "esl \<Rightarrow> bool" where
  "key_list_ok l \<longleftrightarrow> esl_wf l
     \<and> (if esl_type l = X509_GUID then length (esl_sigs l) = 1 \<and> 16 < esl_size l
        else is_sha2_hash (esl_type l) \<and> esl_hdr l = [] \<and> esl_sigs l \<noteq> []
          \<and> esl_size l = sha_size (esl_type l) + 16 \<and> distinct (map snd (esl_sigs l)))"

definition entry_of :: "esl \<Rightarrow> key_entry" where
  "entry_of l = (if esl_type l = X509_GUID then MokCert (snd (hd (esl_sigs l))) else MokHashes (esl_type l) (esl_sigs l))"

text \<open>The entry as it is written back, with shim as the owner of a certificate.\<close>

fun entry_bytes :: "key_entry \<Rightarrow> bytes" where
  "entry_bytes (MokCert c) = esl_header X509_GUID (length c + 44) 0 (length c + 16) @ SHIM_LOCK_GUID @ c"
| "entry_bytes (MokHashes ty sigs) =
     esl_header ty ((sha_size ty + 16) * length sigs + 28) 0 (sha_size ty + 16) @ concat (map sig_bytes sigs)"

text \<open>What the deletion of \<open>ds\<close> leaves of an entry.\<close>

fun purge :: "key_entry list \<Rightarrow> key_entry \<Rightarrow> key_entry option" where
  "purge ds (MokCert c) = (if MokCert c \<in> set ds then None else Some (MokCert c))"
| "purge ds (MokHashes ty sigs) =
     (let rest = filter (\<lambda>x. \<forall>gone. MokHashes ty gone \<in> set ds \<longrightarrow> snd x \<notin> snd ` set gone) sigs in
      if rest = [] then None else Some (MokHashes ty rest))"

fun entry_ok :: "key_entry \<Rightarrow> bool" where
  "entry_ok (MokCert c) \<longleftrightarrow> c \<noteq> []"
| "entry_ok (MokHashes ty sigs) \<longleftrightarrow> is_sha2_hash ty \<and> sigs \<noteq> [] \<and> distinct (map snd sigs)
     \<and> (\<forall>x \<in> set sigs. length (fst x) = 16 \<and> length (snd x) = sha_size ty)"

lemma sha2_guids [simp]:
  "is_sha2_hash ty \<Longrightarrow> ty \<noteq> X509_GUID" "is_sha2_hash ty \<Longrightarrow> 0 < sha_size ty" "is_sha2_hash ty \<Longrightarrow> length ty = 16"
  by (auto simp add: is_sha2_hash_def sha_size_def X509_GUID_def EFI_CERT_SHA1_GUID_def EFI_CERT_SHA224_GUID_def
      EFI_CERT_SHA256_GUID_def EFI_CERT_SHA384_GUID_def EFI_CERT_SHA512_GUID_def mk_guid_def le_bytes_numeral)

lemma entry_of_ok: "key_list_ok l \<Longrightarrow> entry_ok (entry_of l)"
  by (cases "esl_type l = X509_GUID") (auto simp add: key_list_ok_def entry_of_def esl_wf_def length_Suc_conv)

section \<open>Nodes and entries\<close>

text \<open>\<open>None\<close> is an entry that is gone: its node has a null pointer.\<close>

fun node_holds :: "bytes \<Rightarrow> mok_node \<Rightarrow> key_entry option \<Rightarrow> bool" where
  "node_holds data n None \<longleftrightarrow> mn_Mok n = None \<and> mn_Size n = 0"
| "node_holds data n (Some (MokCert c)) \<longleftrightarrow> mn_Type n = X509_GUID \<and> mn_Size n = length c
     \<and> (\<exists>p. mn_Mok n = Some p \<and> get_bytes data p (length c) = Inr c)"
| "node_holds data n (Some (MokHashes ty sigs)) \<longleftrightarrow> mn_Type n = ty \<and> mn_Size n = (sha_size ty + 16) * length sigs
     \<and> (\<exists>p. mn_Mok n = Some p \<and> get_bytes data p (mn_Size n) = Inr (concat (map sig_bytes sigs)))"

text \<open>The nodes lie one behind the other in the data, the first one not before \<open>lo\<close>.\<close>

fun layout :: "bytes \<Rightarrow> nat \<Rightarrow> mok_node list \<Rightarrow> key_entry option list \<Rightarrow> bool" where
  "layout data lo [] [] \<longleftrightarrow> lo \<le> length data"
| "layout data lo (n # ns) (e # es) \<longleftrightarrow> node_holds data n e \<and> (\<forall>x. e = Some x \<longrightarrow> entry_ok x)
     \<and> (\<exists>hi. lo \<le> hi \<and> (\<forall>p. mn_Mok n = Some p \<longrightarrow> lo \<le> p \<and> p + mn_Size n \<le> hi) \<and> layout data hi ns es)"
| "layout data lo _ _ \<longleftrightarrow> False"

lemma get_bytes_frame:
  assumes "length data' = length data" and "take k data' = take k data" and "p + n \<le> k"
  shows "get_bytes data' p n = get_bytes data p n"
proof -
  have "take n (drop p data') = take n (drop p data)"
  proof (rule nth_equalityI)
    fix i assume i: "i < length (take n (drop p data'))"
    then have "p + i < k" "p + i < length data" "p \<le> length data" using assms(1,3) by auto
    then have "data' ! (p + i) = data ! (p + i)" by (metis assms(2) nth_take)
    with i show "take n (drop p data') ! i = take n (drop p data) ! i" using \<open>p \<le> length data\<close> assms(1) by simp
  qed (use assms(1) in simp)
  then show ?thesis using assms(1) by (simp add: get_bytes_def)
qed

lemma get_bytes_frame_above:
  assumes "length data' = length data" and "drop k data' = drop k data" and "k \<le> p"
  shows "get_bytes data' p n = get_bytes data p n"
proof -
  have "drop p data' = drop p data" using assms(2,3) by (metis drop_drop le_add_diff_inverse2)
  then show ?thesis using assms(1) by (simp add: get_bytes_def)
qed

lemma node_frame:
  assumes "\<And>p. mn_Mok n = Some p \<Longrightarrow> get_bytes data' p (mn_Size n) = get_bytes data p (mn_Size n)"
  shows "node_holds data' n e = node_holds data n e"
  using assms by (cases "(data, n, e)" rule: node_holds.cases) auto

lemma layout_frame:
  assumes "length data' = length data" and "drop k data' = drop k data"
  shows "k \<le> lo \<Longrightarrow> layout data' lo ns es = layout data lo ns es"
proof (induction ns arbitrary: lo es)
  case Nil
  then show ?case using assms(1) by (cases es) auto
next
  case (Cons n ns)
  show ?case
  proof (cases es)
    case (Cons e es')
    have "node_holds data' n e = node_holds data n e" if "\<forall>p. mn_Mok n = Some p \<longrightarrow> lo \<le> p"
      by (rule node_frame) (metis that assms Cons.prems get_bytes_frame_above le_trans)
    then show ?thesis
      using Cons Cons.IH Cons.prems by simp (meson le_trans)
  qed simp
qed

lemma layout_bound: "layout data lo ns es \<Longrightarrow> lo \<le> length data"
proof (induction ns arbitrary: lo es)
  case (Cons n ns)
  then show ?case by (cases es) (auto, meson le_trans)
qed (case_tac es; simp)

lemma layout_length: "layout data lo ns es \<Longrightarrow> length ns = length es"
proof (induction ns arbitrary: lo es)
  case (Cons n ns)
  then show ?case by (cases es) auto
qed (case_tac es; simp)

section \<open>Moving the bytes\<close>

lemma mem_move_down:
  "d \<le> s \<Longrightarrow> s + n \<le> length data \<Longrightarrow>
   mem_move data d s n = Inr (take d data @ take n (drop s data) @ drop (d + n) data)"
proof (induction n arbitrary: data d s)
  case (Suc n)
  let ?data = "data[d := data ! s]"
  have "take (Suc d) ?data = take d data @ [data ! s]"
    using Suc.prems by (simp add: take_Suc_conv_app_nth)
  moreover have "drop (Suc s) ?data = drop (Suc s) data" "drop (Suc d + n) ?data = drop (Suc d + n) data"
    using Suc.prems by auto
  moreover have "take (Suc n) (drop s data) = data ! s # take n (drop (Suc s) data)"
    using Suc.prems by (simp add: Cons_nth_drop_Suc [symmetric])
  ultimately show ?case using Suc.IH [of "Suc d" "Suc s" ?data] Suc.prems by simp
qed simp

text \<open>A segment of the buffer.\<close>

lemma segment:
  assumes "get_bytes data p (length b) = Inr b"
  shows "data = take p data @ b @ drop (p + length b) data" and "p + length b \<le> length data"
proof -
  show le: "p + length b \<le> length data" using assms by (simp add: get_bytes_def split: if_splits)
  have "take (length b) (drop p data) = b" using assms le by (simp add: get_bytes_def)
  then show "data = take p data @ b @ drop (p + length b) data"
    by (metis append_assoc append_take_drop_id drop_drop add.commute)
qed

lemma match_loop_sigs:
  assumes "\<forall>x \<in> set sigs. length (fst x) = 16 \<and> length (snd x) = length hash"
  shows "match_loop hash (pre @ concat (map sig_bytes sigs) @ post) i (length pre + 16) (length sigs)
     = Inr (if hash \<in> snd ` set sigs then Some (i + length (takeWhile (\<lambda>x. snd x \<noteq> hash) sigs)) else None)"
  using assms
proof (induction sigs arbitrary: pre i)
  case (Cons x sigs)
  have g: "get_bytes (pre @ concat (map sig_bytes (x # sigs)) @ post) (length pre + 16) (length hash) = Inr (snd x)"
    using get_bytes_at [of "pre @ fst x" "length pre + 16" "snd x" "length hash"] Cons.prems by (simp add: sig_bytes_def)
  have l: "length (sig_bytes x) = length hash + 16" using Cons.prems by (simp add: sig_bytes_def)
  have "match_loop hash ((pre @ sig_bytes x) @ concat (map sig_bytes sigs) @ post) (i + 1)
      (length (pre @ sig_bytes x) + 16) (length sigs)
      = Inr (if hash \<in> snd ` set sigs then Some (i + 1 + length (takeWhile (\<lambda>x. snd x \<noteq> hash) sigs)) else None)"
    using Cons.IH [of "pre @ sig_bytes x" "i + 1"] Cons.prems by simp
  then have "match_loop hash (pre @ concat (map sig_bytes (x # sigs)) @ post) (i + 1)
      (length pre + 16 + length hash + 16) (length sigs)
      = Inr (if hash \<in> snd ` set sigs then Some (i + 1 + length (takeWhile (\<lambda>x. snd x \<noteq> hash) sigs)) else None)"
    using l by (simp add: ac_simps)
  then show ?case using g by auto
qed simp

section \<open>Deleting one hash\<close>

fun remove_hash :: "guid \<Rightarrow> bytes \<Rightarrow> key_entry option \<Rightarrow> key_entry option" where
  "remove_hash ty hash (Some (MokHashes t sigs)) =
     (if t = ty then (let rest = filter (\<lambda>x. snd x \<noteq> hash) sigs in if rest = [] then None else Some (MokHashes t rest))
      else Some (MokHashes t sigs))"
| "remove_hash ty hash e = e"

lemma remove_hash_ok: "\<forall>x. e = Some x \<longrightarrow> entry_ok x \<Longrightarrow> \<forall>x. remove_hash ty hash e = Some x \<longrightarrow> entry_ok x"
  by (cases "(ty, hash, e)" rule: remove_hash.cases) (auto simp add: Let_def distinct_map_filter)

text \<open>The node after the step, and what it did to the buffer.\<close>

definition node_step :: "bytes \<Rightarrow> mok_node \<Rightarrow> key_entry option \<Rightarrow> nat \<Rightarrow> bytes \<times> mok_node \<Rightarrow> bool" where
  "node_step data n e p r \<longleftrightarrow> (case r of (data', n') \<Rightarrow>
     node_holds data' n' e \<and> length data' = length data \<and> take p data' = take p data
     \<and> drop (p + mn_Size n) data' = drop (p + mn_Size n) data
     \<and> mn_Size n' \<le> mn_Size n \<and> (mn_Mok n' = None \<or> mn_Mok n' = mn_Mok n))"

lemma match_loop_none:
  assumes "\<forall>x \<in> set sigs. length (fst x) = 16 \<and> length (snd x) = length hash" and "hash \<notin> snd ` set sigs"
    and "k \<le> length sigs"
  shows "match_loop hash (pre @ concat (map sig_bytes sigs) @ post) i (length pre + 16) k = Inr None"
proof -
  have s: "set (take k sigs) \<subseteq> set sigs" by (rule set_take_subset)
  have "match_loop hash (pre @ concat (map sig_bytes (take k sigs)) @ (concat (map sig_bytes (drop k sigs)) @ post)) i
      (length pre + 16) (length (take k sigs)) = Inr None"
    by (subst match_loop_sigs) (use assms(1,2) s in auto)
  moreover have "concat (map sig_bytes sigs) = concat (map sig_bytes (take k sigs)) @ concat (map sig_bytes (drop k sigs))"
    by (metis append_take_drop_id concat_append map_append)
  ultimately show ?thesis using assms(3) by simp
qed

lemma concat_sigs_length:
  "\<forall>x \<in> set sigs. length (fst x) = 16 \<and> length (snd x) = h \<Longrightarrow> length (concat (map sig_bytes sigs)) = (h + 16) * length sigs"
  using length_sigs [of sigs "h + 16"] by simp

lemma hash_deleted:
  assumes n: "node_holds data n (Some (MokHashes ty sigs))" and p: "mn_Mok n = Some p"
    and ok: "entry_ok (MokHashes ty sigs)" and h: "length hash = sha_size ty"
  shows "\<exists>r. delete_hash_loop hash 0 (length sigs) data n = Inr r
     \<and> node_step data n (remove_hash ty hash (Some (MokHashes ty sigs))) p r"
proof -
  let ?sz = "sha_size ty + 16"
  let ?S = "concat (map sig_bytes sigs)"
  have len: "\<forall>x \<in> set sigs. length (fst x) = 16 \<and> length (snd x) = length hash" using ok h by simp
  have S: "length ?S = ?sz * length sigs" using concat_sigs_length [OF len] h by simp
  have "get_bytes data p (length ?S) = Inr ?S" using n p S by auto
  then obtain pre post where data: "data = pre @ ?S @ post" and pre: "length pre = p"
    using segment [of data p ?S] by (metis add_leD1 length_take min.absorb2)
  have size: "mn_Size n = ?sz * length sigs" "mn_Type n = ty" using n by simp_all
  obtain k where k: "length sigs = Suc k" using ok by (cases sigs) auto
  have m: "match_hash hash 0 data p (Suc k)
      = Inr (if hash \<in> snd ` set sigs then Some (length (takeWhile (\<lambda>x. snd x \<noteq> hash) sigs)) else None)"
    using match_loop_sigs [OF len, of pre post 0] by (simp add: match_hash_def data pre k)
  show ?thesis
  proof (cases "hash \<in> snd ` set sigs")
    case False
    then have "filter (\<lambda>x. snd x \<noteq> hash) sigs = sigs" by (auto simp add: filter_id_conv)
    then show ?thesis using False m n p k ok by (auto simp add: node_step_def)
  next
    case True
    then have "\<exists>x \<in> set sigs. snd x = hash" by auto
    from split_list_first_prop [OF this] obtain as x bs
      where sigs: "sigs = as @ x # bs" "\<forall>y \<in> set as. snd y \<noteq> hash" and "snd x = hash" by blast
    let ?A = "concat (map sig_bytes as)" and ?B = "concat (map sig_bytes bs)"
    have bs: "\<forall>y \<in> set bs. snd y \<noteq> hash" using ok sigs(1) \<open>snd x = hash\<close> by (force simp add: image_iff)
    have rest: "filter (\<lambda>x. snd x \<noteq> hash) sigs = as @ bs"
      using sigs bs \<open>snd x = hash\<close> by (simp add: filter_id_conv)
    have d: "takeWhile (\<lambda>x. snd x \<noteq> hash) sigs = as" using sigs \<open>snd x = hash\<close> by (simp add: takeWhile_append2)
    have l: "length ?A = ?sz * length as" "length ?B = ?sz * length bs" "length (sig_bytes x) = ?sz"
      using concat_sigs_length [of as] concat_sigs_length [of bs] len sigs(1) h by (simp_all add: sig_bytes_def)
    show ?thesis
    proof (cases "as @ bs = []")
      case True
      then show ?thesis using m d h p k rest size sigs(1) \<open>snd x = hash\<close> by (auto simp add: node_step_def Let_def)
    next
      case False
      have k': "k = length (as @ bs)" "0 < k" using k sigs(1) False by auto
      let ?n = "n\<lparr>mn_Size := ?sz * k\<rparr>" and ?post = "drop (p + ?sz * k) data"
      let ?data = "pre @ concat (map sig_bytes (as @ bs)) @ ?post"
      have mv: "mem_move data (p + length as * ?sz) (p + length as * ?sz + ?sz) (mn_Size n - (length as + 1) * ?sz) = Inr ?data"
      proof -
        have D: "data = pre @ ?A @ sig_bytes x @ ?B @ post" using data sigs(1) by simp
        have num: "mn_Size n - (length as + 1) * ?sz = length ?B"
          using size l sigs(1) by (simp add: algebra_simps)
        have i: "p + length as * ?sz = length (pre @ ?A)" "p + length as * ?sz + ?sz = length (pre @ ?A @ sig_bytes x)"
          "length (pre @ ?A) + length ?B = p + ?sz * k"
          using l pre k' by (simp_all add: algebra_simps)
        have "take (length (pre @ ?A)) data = pre @ ?A" "drop (length (pre @ ?A @ sig_bytes x)) data = ?B @ post"
          unfolding D by simp_all
        moreover have "length (pre @ ?A @ sig_bytes x) + length ?B \<le> length data" unfolding D by simp
        ultimately show ?thesis
          unfolding num i by (subst mem_move_down) (simp_all add: i(3) [unfolded length_append add.assoc] l(3) add.assoc)
      qed
      have nomatch: "match_hash hash (length as) ?data p k = Inr None"
        unfolding match_hash_def pre [symmetric]
        by (rule match_loop_none) (use len sigs bs k' in auto)
      have "delete_hash_loop hash (length as) k ?data ?n = Inr (?data, ?n)"
        using nomatch k'(2) p by (cases k) (auto simp add: k')
      then have "delete_hash_loop hash 0 (Suc k) data n = Inr (?data, ?n)"
        using m d h p True size k k'(2) mv by (simp add: Let_def)
      moreover have "node_step data n (remove_hash ty hash (Some (MokHashes ty sigs))) p (?data, ?n)"
      proof -
        have L: "length (concat (map sig_bytes (as @ bs))) = ?sz * k" using l k' by (simp add: algebra_simps)
        have g: "get_bytes ?data p (?sz * k) = Inr (concat (map sig_bytes (as @ bs)))"
          by (rule get_bytes_at) (use pre L in simp_all)
        have "p + ?sz * k \<le> length data" using data pre S k by simp
        then have len': "length ?data = length data" using pre L by simp
        have low: "take p ?data = take p data" using data pre by simp
        have "drop (p + ?sz * k) ?data = ?post" using pre L by simp
        then have "drop (?sz + (p + ?sz * k)) ?data = drop (?sz + (p + ?sz * k)) data"
          by (simp only: drop_drop [symmetric])
        moreover have e: "p + ?sz * Suc k = ?sz + (p + ?sz * k)" by simp
        ultimately have high: "drop (p + ?sz * Suc k) ?data = drop (p + ?sz * Suc k) data" by (simp only: e)
        have "remove_hash ty hash (Some (MokHashes ty sigs)) = Some (MokHashes ty (as @ bs))"
          using rest False by (simp add: Let_def)
        then show ?thesis
          using g len' low high size k k' p by (simp add: node_step_def del: map_append concat_append drop_append take_append)
      qed
      ultimately show ?thesis using k by auto
    qed
  qed
qed

section \<open>Deleting in all nodes\<close>

lemma node_kept:
  assumes "node_holds data n e" and "length data' = length data" and "take k data' = take k data"
    and "\<forall>p. mn_Mok n = Some p \<longrightarrow> p + mn_Size n \<le> k"
  shows "node_holds data' n e"
  using assms node_frame [of n data' data e] get_bytes_frame [of data' data k] by blast

lemma hash_deleted_in_node:
  assumes n: "node_holds data n e" and ok: "\<forall>x. e = Some x \<longrightarrow> entry_ok x"
    and p: "\<forall>p. mn_Mok n = Some p \<longrightarrow> lo \<le> p \<and> p + mn_Size n \<le> hi"
    and h: "length hash = sha_size ty" "is_sha2_hash ty"
  shows "\<exists>data' n'. (if mn_Type n \<noteq> ty \<or> mn_Size n < length hash + 16 then Inr (data, n)
        else delete_hash_loop hash 0 (mn_Size n div (length hash + 16)) data n) = Inr (data', n')
     \<and> node_holds data' n' (remove_hash ty hash e) \<and> length data' = length data
     \<and> take lo data' = take lo data \<and> drop hi data' = drop hi data
     \<and> (\<forall>p. mn_Mok n' = Some p \<longrightarrow> lo \<le> p \<and> p + mn_Size n' \<le> hi)"
proof (cases "\<exists>sigs. e = Some (MokHashes ty sigs)")
  case False
  then have "remove_hash ty hash e = e" by (cases "(ty, hash, e)" rule: remove_hash.cases) auto
  moreover have "mn_Type n \<noteq> ty \<or> mn_Size n < length hash + 16"
    using False n sha2_guids(1) [OF h(2)] by (cases "(data, n, e)" rule: node_holds.cases) auto
  ultimately show ?thesis using n p by auto
next
  case True
  then obtain sigs where e: "e = Some (MokHashes ty sigs)" by blast
  obtain q where q: "mn_Mok n = Some q" using n e by auto
  have "sigs \<noteq> []" using ok e by simp
  then have big: "\<not> mn_Size n < length hash + 16" "mn_Size n div (length hash + 16) = length sigs" "mn_Type n = ty"
    using n e h(1) by (auto simp add: Suc_le_eq)
  obtain data' n' where step: "delete_hash_loop hash 0 (length sigs) data n = Inr (data', n')"
      "node_step data n (remove_hash ty hash e) q (data', n')"
    using hash_deleted [of data n ty sigs q hash] n ok e q h(1) by auto
  then have s: "node_holds data' n' (remove_hash ty hash e)" "length data' = length data" "take q data' = take q data"
      "drop (q + mn_Size n) data' = drop (q + mn_Size n) data" "mn_Size n' \<le> mn_Size n"
      "mn_Mok n' = None \<or> mn_Mok n' = Some q"
    using q by (simp_all add: node_step_def)
  have b: "lo \<le> q" "q + mn_Size n \<le> hi" using p q by auto
  have low: "take lo data' = take lo data" using s(3) b(1) by (metis min.absorb1 take_take)
  have high: "drop hi data' = drop hi data" using s(4) b(2) by (metis drop_drop le_add_diff_inverse2)
  have "\<forall>p. mn_Mok n' = Some p \<longrightarrow> lo \<le> p \<and> p + mn_Size n' \<le> hi" using s(5,6) b by auto
  then show ?thesis using big step(1) s(1,2) low high by simp
qed

lemma hash_deleted_in_list:
  assumes h: "length hash = sha_size ty" "is_sha2_hash ty"
  shows "layout data lo ns es \<Longrightarrow> \<exists>data' ns'. delete_hash_in_list ty hash data ns = Inr (data', ns')
     \<and> layout data' lo ns' (map (remove_hash ty hash) es) \<and> length data' = length data \<and> take lo data' = take lo data"
proof (induction ns arbitrary: data lo es)
  case Nil
  then show ?case by (cases es) auto
next
  case (Cons n ns)
  then obtain e es' where es: "es = e # es'" by (cases es) auto
  from Cons.prems [unfolded es] obtain hi where c: "node_holds data n e" "\<forall>x. e = Some x \<longrightarrow> entry_ok x"
      "lo \<le> hi" "\<forall>p. mn_Mok n = Some p \<longrightarrow> lo \<le> p \<and> p + mn_Size n \<le> hi" "layout data hi ns es'"
    by auto
  obtain data1 n1 where s: "(if mn_Type n \<noteq> ty \<or> mn_Size n < length hash + 16 then Inr (data, n)
        else delete_hash_loop hash 0 (mn_Size n div (length hash + 16)) data n) = Inr (data1, n1)"
      "node_holds data1 n1 (remove_hash ty hash e)" "length data1 = length data"
      "take lo data1 = take lo data" "drop hi data1 = drop hi data"
      "\<forall>p. mn_Mok n1 = Some p \<longrightarrow> lo \<le> p \<and> p + mn_Size n1 \<le> hi"
    using hash_deleted_in_node [OF c(1,2,4) h] by blast
  have "layout data1 hi ns es'" using layout_frame [OF s(3,5) order_refl] c(5) by simp
  from Cons.IH [OF this] obtain data2 ns2 where r: "delete_hash_in_list ty hash data1 ns = Inr (data2, ns2)"
      "layout data2 hi ns2 (map (remove_hash ty hash) es')" "length data2 = length data1" "take hi data2 = take hi data1"
    by blast
  have "node_holds data2 n1 (remove_hash ty hash e)" by (rule node_kept [OF s(2) r(3,4)]) (use s(6) in blast)
  then have "layout data2 lo (n1 # ns2) (map (remove_hash ty hash) es)"
    using r(2) c(3) s(6) remove_hash_ok [OF c(2)] es by auto
  moreover have "take lo data2 = take lo data" using r(4) s(4) c(3) by (metis min.absorb1 take_take)
  ultimately show ?case using s(1,3) r(1,3) by (simp add: Let_def del: if_not_P)
qed

fun remove_cert :: "bytes \<Rightarrow> key_entry option \<Rightarrow> key_entry option" where
  "remove_cert key (Some (MokCert c)) = (if c = key then None else Some (MokCert c))"
| "remove_cert key e = e"

lemma cert_deleted_in_node:
  assumes "node_holds data n e" and "\<forall>x. e = Some x \<longrightarrow> entry_ok x" and "key \<noteq> []"
  shows "\<exists>n'. delete_cert_node key data n = Inr n' \<and> node_holds data n' (remove_cert key e)
     \<and> (mn_Mok n' = None \<or> n' = n)"
  using assms by (cases "(key, e)" rule: remove_cert.cases) (auto simp add: delete_cert_node_def)

lemma cert_deleted:
  assumes "key \<noteq> []"
  shows "layout data lo ns es \<Longrightarrow> \<exists>ns'. delete_cert key data ns = Inr ns' \<and> layout data lo ns' (map (remove_cert key) es)"
proof (induction ns arbitrary: lo es)
  case Nil
  then show ?case by (cases es) auto
next
  case (Cons n ns)
  then obtain e es' where es: "es = e # es'" by (cases es) auto
  from Cons.prems [unfolded es] obtain hi where c: "node_holds data n e" "\<forall>x. e = Some x \<longrightarrow> entry_ok x"
      "lo \<le> hi" "\<forall>p. mn_Mok n = Some p \<longrightarrow> lo \<le> p \<and> p + mn_Size n \<le> hi" "layout data hi ns es'"
    by auto
  obtain n' where n': "delete_cert_node key data n = Inr n'" "node_holds data n' (remove_cert key e)" "mn_Mok n' = None \<or> n' = n"
    using cert_deleted_in_node [OF c(1,2) assms] by blast
  obtain ns' where ns': "delete_cert key data ns = Inr ns'" "layout data hi ns' (map (remove_cert key) es')"
    using Cons.IH [OF c(5)] by blast
  have "\<forall>x. remove_cert key e = Some x \<longrightarrow> entry_ok x"
    using c(2) by (cases "(key, e)" rule: remove_cert.cases) auto
  then show ?case using n' ns' c(3,4) es by auto
qed

section \<open>Deleting all keys of a list\<close>

fun remove_entry :: "key_entry \<Rightarrow> key_entry option \<Rightarrow> key_entry option" where
  "remove_entry (MokCert c) e = remove_cert c e"
| "remove_entry (MokHashes ty gone) e = fold (\<lambda>g. remove_hash ty (snd g)) gone e"

lemma remove_entry_fun:
  "remove_entry (MokCert c) = remove_cert c"
  "remove_entry (MokHashes ty gone) = fold (\<lambda>g. remove_hash ty (snd g)) gone"
  by (rule ext; simp)+

lemma fold_map: "fold (\<lambda>x. map (f x)) xs ys = map (fold f xs) ys"
  by (induction xs arbitrary: ys) (auto simp add: comp_def)

lemma hashes_deleted:
  assumes "is_sha2_hash ty" and "\<forall>x \<in> set gone. length (fst x) = 16 \<and> length (snd x) = sha_size ty"
  shows "layout data lo ns es \<Longrightarrow>
    \<exists>data' ns'. delete_hashes ty (pre @ concat (map sig_bytes gone) @ post) (length pre + 16) (length gone) data ns = Inr (data', ns')
     \<and> layout data' lo ns' (map (fold (\<lambda>g. remove_hash ty (snd g)) gone) es)"
  using assms(2)
proof (induction gone arbitrary: pre data ns es)
  case Nil
  then show ?case by (simp add: id_def)
next
  case (Cons g gone)
  have l: "length (fst g) = 16" "length (snd g) = sha_size ty" using Cons.prems(2) by auto
  have g: "get_bytes (pre @ concat (map sig_bytes (g # gone)) @ post) (length pre + 16) (sha_size ty) = Inr (snd g)"
    using get_bytes_at [of "pre @ fst g" "length pre + 16" "snd g" "sha_size ty"] l by (simp add: sig_bytes_def)
  obtain data1 ns1 where s: "delete_hash_in_list ty (snd g) data ns = Inr (data1, ns1)"
      "layout data1 lo ns1 (map (remove_hash ty (snd g)) es)"
    using hash_deleted_in_list [OF l(2) assms(1) Cons.prems(1)] by blast
  have "length (pre @ sig_bytes g) + 16 = length pre + 16 + sha_size ty + 16" using l by (simp add: sig_bytes_def)
  then show ?case
    using Cons.IH [OF s(2), of "pre @ sig_bytes g"] Cons.prems(2) g s(1) by (simp add: comp_def)
qed

text \<open>One node of the list of keys to delete.\<close>

lemma entry_deleted:
  assumes d: "node_holds del d (Some x)" and ok: "entry_ok x" and lay: "layout data lo ns es"
  shows "\<exists>data' ns'. (case mn_Mok d of
              None \<Rightarrow> Inl Fault
            | Some p \<Rightarrow>
                if mn_Type d = X509_GUID then
                  bindR (get_bytes del p (mn_Size d)) (\<lambda>key. bindR (delete_cert key data ns) (\<lambda>nodes. Inr (data, nodes)))
                else if is_sha2_hash (mn_Type d) then delete_hash_list (mn_Type d) del p (mn_Size d) data ns
                else Inr (data, ns)) = Inr (data', ns')
     \<and> layout data' lo ns' (map (remove_entry x) es)"
proof (cases x)
  case (MokCert c)
  obtain ns' where "delete_cert c data ns = Inr ns'" "layout data lo ns' (map (remove_cert c) es)"
    using cert_deleted [OF _ lay, of c] ok MokCert by auto
  then show ?thesis using d MokCert by (auto simp add: remove_entry_fun)
next
  case (MokHashes ty gone)
  then have g: "is_sha2_hash ty" "\<forall>x \<in> set gone. length (fst x) = 16 \<and> length (snd x) = sha_size ty" "gone \<noteq> []"
    using ok by auto
  obtain p where p: "mn_Mok d = Some p" "mn_Type d = ty" "mn_Size d = (sha_size ty + 16) * length gone"
      "get_bytes del p (length (concat (map sig_bytes gone))) = Inr (concat (map sig_bytes gone))"
    using d MokHashes concat_sigs_length [OF g(2)] by auto
  obtain pre post where del: "del = pre @ concat (map sig_bytes gone) @ post" and pre: "length pre = p"
    using segment [OF p(4)] by (metis add_leD1 length_take min.absorb2)
  have big: "\<not> mn_Size d < sha_size ty + 16" using p(3) g(3) by (simp add: Suc_le_eq)
  have num: "mn_Size d div (sha_size ty + 16) = length gone" using p(3) by simp
  have "delete_hash_list ty del p (mn_Size d) data ns = delete_hashes ty del (p + 16) (length gone) data ns"
    using big num by (simp add: delete_hash_list_def)
  then show ?thesis
    using hashes_deleted [OF g(1,2) lay, of pre post] p(1,2) g(1) sha2_guids(1) [OF g(1)] del pre MokHashes by (simp add: remove_entry_fun)
qed

lemma entries_deleted:
  "list_all2 (\<lambda>d x. node_holds del d (Some x) \<and> entry_ok x) ds xs \<Longrightarrow> layout data lo ns es \<Longrightarrow>
   \<exists>data' ns'. delete_loop del ds data ns = Inr (data', ns') \<and> layout data' lo ns' (map (fold remove_entry xs) es)"
proof (induction arbitrary: data ns es rule: list_all2_induct)
  case Nil
  then show ?case by (simp add: id_def)
next
  case (Cons d ds x xs)
  obtain data1 ns1 where s: "(case mn_Mok d of
              None \<Rightarrow> Inl Fault
            | Some p \<Rightarrow>
                if mn_Type d = X509_GUID then
                  bindR (get_bytes del p (mn_Size d)) (\<lambda>key. bindR (delete_cert key data ns) (\<lambda>nodes. Inr (data, nodes)))
                else if is_sha2_hash (mn_Type d) then delete_hash_list (mn_Type d) del p (mn_Size d) data ns
                else Inr (data, ns)) = Inr (data1, ns1)"
      "layout data1 lo ns1 (map (remove_entry x) es)"
    using entry_deleted [OF _ _ Cons.prems, of del d x] Cons.hyps(1) by blast
  show ?case using Cons.IH [OF s(2)] by (simp only: delete_loop.simps s(1) bindR_Inr case_prod_conv) (simp add: comp_def)
qed

lemma fold_remove_hash:
  "sigs \<noteq> [] \<Longrightarrow> fold (\<lambda>g. remove_hash ty (snd g)) gone (Some (MokHashes t sigs)) =
     (if t = ty then (let rest = filter (\<lambda>x. snd x \<notin> snd ` set gone) sigs in if rest = [] then None else Some (MokHashes t rest))
      else Some (MokHashes t sigs))"
proof (induction gone arbitrary: sigs)
  case (Cons g gone)
  have none: "fold (\<lambda>g. remove_hash ty (snd g)) gone None = None" for gone :: "('a \<times> bytes) list"
    by (induction gone) auto
  let ?F = "filter (\<lambda>x. snd x \<noteq> snd g) sigs"
  have F: "filter (\<lambda>x. snd x \<notin> snd ` set gone) ?F = filter (\<lambda>x. snd x \<notin> snd ` set (g # gone)) sigs"
    by (simp add: conj_commute)
  show ?case
  proof (cases "t = ty \<and> ?F \<noteq> []")
    case True
    then have "fold (\<lambda>g. remove_hash ty (snd g)) (g # gone) (Some (MokHashes t sigs))
        = fold (\<lambda>g. remove_hash ty (snd g)) gone (Some (MokHashes t ?F))"
      by (simp add: Let_def del: filter.simps)
    then show ?thesis using Cons.IH [of ?F] True by (simp only: F simp_thms if_True)
  next
    case False
    have "?F = [] \<Longrightarrow> filter (\<lambda>x. snd x \<notin> snd ` set (g # gone)) sigs = []"
      unfolding F [symmetric] by simp
    then show ?thesis using False Cons.IH [OF Cons.prems] none [of gone] by (auto simp add: Let_def)
  qed
qed simp

lemma fold_remove_cert: "fold (\<lambda>g. remove_hash ty (snd g)) gone (Some (MokCert c)) = Some (MokCert c)"
  by (induction gone) auto

lemma fold_remove_none: "fold remove_entry ds None = None"
proof -
  have "fold (\<lambda>g. remove_hash ty (snd g)) gone None = None" for ty and gone :: "(guid \<times> bytes) list"
    by (induction gone) auto
  then have "remove_entry d None = None" for d by (cases d) auto
  then show ?thesis by (induction ds) auto
qed

lemma purged: "entry_ok e \<Longrightarrow> fold remove_entry ds (Some e) = purge ds e"
proof (induction ds arbitrary: e)
  case Nil
  then show ?case by (cases e) (auto simp add: filter_empty_conv)
next
  case (Cons d ds)
  show ?case
  proof (cases e)
    case (MokCert c)
    then show ?thesis
      using Cons by (cases d) (auto simp add: fold_remove_cert fold_remove_none)
  next
    case (MokHashes t sigs)
    show ?thesis
    proof (cases d)
      case (MokCert c)
      then show ?thesis using Cons.IH [of e] Cons.prems MokHashes by auto
    next
      case d: (MokHashes ty gone)
      let ?F = "filter (\<lambda>x. snd x \<notin> snd ` set gone) sigs"
      let ?G = "\<lambda>ds x. \<forall>gone. MokHashes t gone \<in> set ds \<longrightarrow> snd x \<notin> snd ` set gone"
      have "sigs \<noteq> []" using Cons.prems MokHashes by simp
      note step = fold_remove_hash [OF this, of ty gone t]
      show ?thesis
      proof (cases "ty = t")
        case False
        then have "purge (d # ds) e = purge ds e" using d MokHashes by simp
        then show ?thesis using step False Cons.IH [OF Cons.prems] d MokHashes by simp
      next
        case True
        have F: "filter (?G ds) ?F = filter (?G (d # ds)) sigs" using d True by (auto intro!: filter_cong)
        show ?thesis
        proof (cases "?F = []")
          case True
          then have "filter (?G (d # ds)) sigs = []" unfolding F [symmetric] by simp
          then have "purge (d # ds) e = None" by (simp only: MokHashes purge.simps Let_def simp_thms if_True)
          moreover have "remove_entry d (Some e) = None" using step True \<open>ty = t\<close> d MokHashes by (simp add: Let_def)
          ultimately show ?thesis by (simp add: fold_remove_none)
        next
          case False
          then have "remove_entry d (Some e) = Some (MokHashes t ?F)" using step \<open>ty = t\<close> d MokHashes by (simp add: Let_def)
          moreover have "fold remove_entry ds (Some (MokHashes t ?F)) = purge ds (MokHashes t ?F)"
            by (rule Cons.IH) (use Cons.prems MokHashes False in \<open>auto simp add: distinct_map_filter\<close>)
          moreover have "purge ds (MokHashes t ?F) = purge (d # ds) e"
            by (simp only: MokHashes purge.simps F)
          ultimately show ?thesis by simp
        qed
      qed
    qed
  qed
qed

section \<open>Reading and writing\<close>

lemma map_filter_purge_bytes:
  "layout data lo ns es \<Longrightarrow> all_node_bytes data ns = Inr (concat (map entry_bytes (List.map_filter id es)))"
proof (induction ns arbitrary: lo es)
  case Nil
  then show ?case by (cases es) (auto simp add: map_filter_simps)
next
  case (Cons n ns)
  then obtain e es' where es: "es = e # es'" by (cases es) auto
  from Cons.prems [unfolded es] obtain hi where c: "node_holds data n e" "\<forall>x. e = Some x \<longrightarrow> entry_ok x" "layout data hi ns es'"
    by auto
  have "node_bytes data n = Inr (case e of None \<Rightarrow> [] | Some x \<Rightarrow> entry_bytes x)"
    using c(1,2) sha2_guids(1)
    by (cases "(data, n, e)" rule: node_holds.cases) (auto simp add: node_bytes_def sizeof_ESL_def add.commute)
  then show ?case using Cons.IH [OF c(3)] es by (cases e) (simp_all add: map_filter_simps)
qed

lemma list_facts:
  assumes "key_list_ok l"
  shows "esl_wf l" and "16 < esl_size l" and "esl_size l < esl_len l" and "is_valid_siglist (esl_type l) (esl_size l)"
    and "sizeof_ESL + length (esl_hdr l) + sizeof_ESD \<le> esl_len l"
proof -
  show wf: "esl_wf l" using assms by (simp add: key_list_ok_def)
  show s: "16 < esl_size l" using assms sha2_guids(2) by (auto simp add: key_list_ok_def split: if_splits)
  have "esl_sigs l \<noteq> []" using assms by (auto simp add: key_list_ok_def split: if_splits)
  then have n: "esl_size l \<le> esl_size l * length (esl_sigs l)" by (cases "esl_sigs l") auto
  show "esl_size l < esl_len l" "sizeof_ESL + length (esl_hdr l) + sizeof_ESD \<le> esl_len l"
    unfolding esl_len_def sizeof_ESL_def sizeof_ESD_def using n s by linarith+
  show "is_valid_siglist (esl_type l) (esl_size l)"
    using assms s by (auto simp add: key_list_ok_def is_valid_siglist_def split: if_splits)
qed

lemma lists_counted:
  assumes "\<forall>l \<in> set ls. key_list_ok l"
  shows "num + length ls < 2 ^ 32 \<Longrightarrow> fin = length pre + length (concat (map esl_bytes ls)) \<Longrightarrow>
    count_loop (pre @ concat (map esl_bytes ls) @ post) fin (length pre) (length (concat (map esl_bytes ls))) num
    = Inr (num + length ls)"
  using assms
proof (induction ls arbitrary: pre num)
  case Nil
  then show ?case by (simp add: count_loop.simps)
next
  case (Cons l ls)
  note f = list_facts [of l]
  have ok: "key_list_ok l" using Cons.prems(3) by simp
  note g = esl_fields [OF f(1) [OF ok], of pre "concat (map esl_bytes ls) @ post"]
  have len: "length (esl_bytes l) = esl_len l" by (rule length_esl_bytes [OF f(1) [OF ok]])
  have ty: "get_bytes (pre @ esl_bytes l @ concat (map esl_bytes ls) @ post) (length pre) 16 = Inr (esl_type l)"
    using get_bytes_at [of pre "length pre" "esl_type l" 16] f(1) [OF ok] by (simp add: esl_bytes_def esl_header_def esl_wf_def)
  have ih: "count_loop (pre @ esl_bytes l @ concat (map esl_bytes ls) @ post) fin (length pre + esl_len l)
      (length (concat (map esl_bytes ls))) (num + 1) = Inr (num + 1 + length ls)"
    using Cons.IH [of "num + 1" "pre @ esl_bytes l"] Cons.prems len by simp
  show ?case
    using f(2-5) [OF ok] g ty ih Cons.prems(1,2) len
    by (subst count_loop.simps) (simp add: sizeof_ESL_def)
qed

lemma build_step:
  assumes "get_le data (cl + 16) 4 = Inr list_size" and "get_le data (cl + 20) 4 = Inr hdr_size"
    and "get_le data (cl + 24) 4 = Inr sig_size" and "get_bytes data cl 16 = Inr ty"
    and n: "n = (if ty = X509_GUID then \<lparr>mn_Size = sig_size - 16, mn_Mok = Some (cl + sizeof_ESL + hdr_size + 16), mn_Type = ty\<rparr>
       else \<lparr>mn_Size = (list_size + (2 ^ 32 - sizeof_ESL)) mod 2 ^ 32, mn_Mok = Some (cl + sizeof_ESL + hdr_size), mn_Type = ty\<rparr>)"
    and c: "dbsize \<noteq> 0" "\<not> dbsize < list_size" "\<not> (fin < cl + sizeof_ESL \<or> list_size = 0)"
      "\<not> (fin < cl + sizeof_ESL + hdr_size + sizeof_ESD \<or> sig_size \<le> 16)" "\<not> num \<le> length nodes"
      "\<not> fin - the (mn_Mok n) < mn_Size n"
  shows "build_loop num data fin cl dbsize nodes = build_loop num data fin (cl + list_size) (dbsize - list_size) (nodes @ [n])"
  by (subst build_loop.simps) (simp only: assms(1-4) c Let_def if_False sum.case bindR_Inr n [symmetric])

lemma lists_built:
  assumes "\<forall>l \<in> set ls. key_list_ok l"
  shows "num = length nodes + length ls \<Longrightarrow> fin = length pre + length (concat (map esl_bytes ls)) \<Longrightarrow>
    \<exists>ns. build_loop num (pre @ concat (map esl_bytes ls) @ post) fin (length pre) (length (concat (map esl_bytes ls))) nodes
      = Inr (Some (nodes @ ns))
     \<and> layout (pre @ concat (map esl_bytes ls) @ post) (length pre) ns (map (\<lambda>l. Some (entry_of l)) ls)"
  using assms
proof (induction ls arbitrary: pre nodes)
  case Nil
  then show ?case by (simp add: build_loop.simps)
next
  case (Cons l ls)
  have ok: "key_list_ok l" using Cons.prems(3) by simp
  note f = list_facts [OF ok]
  let ?data = "pre @ concat (map esl_bytes (l # ls)) @ post"
  note g = esl_fields [OF f(1), of pre "concat (map esl_bytes ls) @ post"]
  have len: "length (esl_bytes l) = esl_len l" by (rule length_esl_bytes [OF f(1)])
  have ty: "get_bytes ?data (length pre) 16 = Inr (esl_type l)"
    using get_bytes_at [of pre "length pre" "esl_type l" 16] f(1) by (simp add: esl_bytes_def esl_header_def esl_wf_def)
  obtain n where n: "n = (if esl_type l = X509_GUID
      then \<lparr>mn_Size = esl_size l - 16, mn_Mok = Some (length pre + sizeof_ESL + length (esl_hdr l) + 16), mn_Type = esl_type l\<rparr>
      else \<lparr>mn_Size = (esl_len l + (2 ^ 32 - sizeof_ESL)) mod 2 ^ 32,
             mn_Mok = Some (length pre + sizeof_ESL + length (esl_hdr l)), mn_Type = esl_type l\<rparr>)"
    by blast
  have node: "node_holds ?data n (Some (entry_of l))
      \<and> the (mn_Mok n) + mn_Size n \<le> length pre + esl_len l
      \<and> (\<exists>p. mn_Mok n = Some p \<and> length pre \<le> p)"
  proof (cases "esl_type l = X509_GUID")
    case True
    then obtain own c where sigs: "esl_sigs l = [(own, c)]"
      using ok by (auto simp add: key_list_ok_def length_Suc_conv)
    then have s: "length own = 16" "length c = esl_size l - 16" using f(1,2) by (auto simp add: esl_wf_def)
    have "get_bytes ?data (length pre + sizeof_ESL + length (esl_hdr l) + 16) (length c) = Inr c"
      using get_bytes_at [of "pre @ esl_header (esl_type l) (esl_len l) (length (esl_hdr l)) (esl_size l) @ esl_hdr l @ own"
          "length pre + sizeof_ESL + length (esl_hdr l) + 16" c "length c" "concat (map esl_bytes ls) @ post"]
        f(1) sigs s(1) by (simp add: esl_bytes_def sig_bytes_def esl_wf_def sizeof_ESL_def)
    then show ?thesis
      using True n sigs s f(2) by (simp add: entry_of_def esl_len_def)
  next
    case False
    then have h: "esl_hdr l = []" "esl_size l = sha_size (esl_type l) + 16" using ok by (auto simp add: key_list_ok_def)
    have S: "length (concat (map sig_bytes (esl_sigs l))) = esl_size l * length (esl_sigs l)"
      by (rule length_sigs) (use f(1) in \<open>simp add: esl_wf_def\<close>)
    have e: "esl_len l = 28 + esl_size l * length (esl_sigs l)" "esl_len l < 2 ^ 32"
      using h f(1) by (simp_all add: esl_len_def sizeof_ESL_def esl_wf_def)
    have "esl_len l + (2 ^ 32 - sizeof_ESL) = esl_size l * length (esl_sigs l) + 2 ^ 32"
      using e by (simp add: sizeof_ESL_def)
    then have size: "(esl_len l + (2 ^ 32 - sizeof_ESL)) mod 2 ^ 32 = esl_size l * length (esl_sigs l)"
      using e by simp
    have "get_bytes ?data (length pre + sizeof_ESL) (esl_size l * length (esl_sigs l)) = Inr (concat (map sig_bytes (esl_sigs l)))"
      using get_bytes_at [of "pre @ esl_header (esl_type l) (esl_len l) 0 (esl_size l)" "length pre + sizeof_ESL"
          "concat (map sig_bytes (esl_sigs l))" _ "concat (map esl_bytes ls) @ post"] f(1) S h(1)
      by (simp add: esl_bytes_def esl_wf_def sizeof_ESL_def)
    then show ?thesis
      using False n h size e(1) by (simp add: entry_of_def sizeof_ESL_def)
  qed
  then obtain p where p: "mn_Mok n = Some p" "length pre \<le> p" "p + mn_Size n \<le> length pre + esl_len l" by auto
  obtain ns where ns: "build_loop num (pre @ esl_bytes l @ concat (map esl_bytes ls) @ post) fin (length pre + esl_len l)
        (length (concat (map esl_bytes ls))) (nodes @ [n]) = Inr (Some ((nodes @ [n]) @ ns))"
      "layout (pre @ esl_bytes l @ concat (map esl_bytes ls) @ post) (length pre + esl_len l) ns (map (\<lambda>l. Some (entry_of l)) ls)"
    using Cons.IH [of "nodes @ [n]" "pre @ esl_bytes l"] Cons.prems len by auto
  have "build_loop num ?data fin (length pre) (length (concat (map esl_bytes (l # ls)))) nodes = Inr (Some (nodes @ n # ns))"
    by (subst build_step [OF _ _ _ _ n])
      (use f g ty ns(1) Cons.prems(1,2) len p in \<open>simp_all add: sizeof_ESL_def sizeof_ESD_def\<close>)
  moreover have "layout ?data (length pre) (n # ns) (map (\<lambda>l. Some (entry_of l)) (l # ls))"
    using node ns(2) p entry_of_ok [OF ok] by (auto intro!: exI [of _ "length pre + esl_len l"])
  ultimately show ?case by blast
qed

section \<open>The whole deletion\<close>

definition key_lists_ok :: "esl list \<Rightarrow> bool" where
  "key_lists_ok ls \<longleftrightarrow> (\<forall>l \<in> set ls. key_list_ok l) \<and> length ls < 2 ^ 32"

definition purge_all :: "esl list \<Rightarrow> esl list \<Rightarrow> bytes" where
  "purge_all ds ls = concat (map entry_bytes (List.map_filter (\<lambda>l. purge (map entry_of ds) (entry_of l)) ls))"

lemma lists_read:
  assumes "key_lists_ok ls" and "data = concat (map esl_bytes ls) @ pad" and "datasize = length (concat (map esl_bytes ls))"
    and "\<forall>n. pool n"
  shows "count_keys data datasize = Inr (length ls)"
    and "\<exists>ns. build_mok_list pool (length ls) data datasize = Inr (Some ns) \<and> layout data 0 ns (map (\<lambda>l. Some (entry_of l)) ls)"
  using lists_counted [of ls 0 datasize "[]" pad] lists_built [of ls "length ls" "[]" datasize "[]" pad] assms
  by (auto simp add: key_lists_ok_def count_keys_def build_mok_list_def)

lemma layout_nodes:
  "layout data lo ns (map (\<lambda>l. Some (entry_of l)) ls) \<Longrightarrow>
   list_all2 (\<lambda>d x. node_holds data d (Some x) \<and> entry_ok x) ns (map entry_of ls)"
proof (induction ls arbitrary: lo ns)
  case Nil
  then show ?case by (cases ns) auto
next
  case (Cons l ls)
  then show ?case by (cases ns) auto
qed

lemma keys_deleted:
  assumes "layout data 0 ns (map (\<lambda>l. Some (entry_of l)) ls)" and "layout del 0 ds (map (\<lambda>l. Some (entry_of l)) dels)"
    and "\<forall>l \<in> set ls. key_list_ok l"
  shows "\<exists>data' ns'. delete_loop del ds data ns = Inr (data', ns') \<and> all_node_bytes data' ns' = Inr (purge_all dels ls)"
proof -
  obtain data' ns' where d: "delete_loop del ds data ns = Inr (data', ns')"
      "layout data' 0 ns' (map (fold remove_entry (map entry_of dels)) (map (\<lambda>l. Some (entry_of l)) ls))"
    using entries_deleted [OF layout_nodes [OF assms(2)] assms(1)] by blast
  have "map (fold remove_entry (map entry_of dels)) (map (\<lambda>l. Some (entry_of l)) ls)
      = map (\<lambda>l. purge (map entry_of dels) (entry_of l)) ls"
    using assms(3) entry_of_ok by (auto simp add: purged)
  then have "all_node_bytes data' ns'
      = Inr (concat (map entry_bytes (List.map_filter id (map (\<lambda>l. purge (map entry_of dels) (entry_of l)) ls))))"
    using map_filter_purge_bytes d(2) by metis
  moreover have "List.map_filter id (map f xs) = List.map_filter f xs" for f :: "esl \<Rightarrow> key_entry option" and xs
    by (induction xs) (auto simp add: map_filter_simps split: option.splits)
  ultimately show ?thesis using d(1) by (auto simp add: purge_all_def)
qed

text \<open>
  A hash that is twice in a list is not deleted twice: the second search compares the beginning of
  the list again but counts from where the first one stopped, and takes out the hash there.
\<close>

lemma hash_search:
  assumes "\<forall>x \<in> set sigs. length (fst x) = 16 \<and> length (snd x) = length hash" and "k - start \<le> length sigs"
  shows "match_hash hash start (concat (map sig_bytes sigs) @ post) 0 k
     = Inr (if hash \<in> snd ` set (take (k - start) sigs)
            then Some (start + length (takeWhile (\<lambda>x. snd x \<noteq> hash) (take (k - start) sigs))) else None)"
proof -
  have "concat (map sig_bytes sigs) @ post
      = concat (map sig_bytes (take (k - start) sigs)) @ concat (map sig_bytes (drop (k - start) sigs)) @ post"
    by (metis append.assoc append_take_drop_id concat_append map_append)
  moreover have "\<forall>x \<in> set (take (k - start) sigs). length (fst x) = 16 \<and> length (snd x) = length hash"
    using assms(1) by (auto dest: in_set_takeD)
  from match_loop_sigs [OF this, of "[]" "concat (map sig_bytes (drop (k - start) sigs)) @ post" start]
  have "match_loop hash (concat (map sig_bytes (take (k - start) sigs)) @ concat (map sig_bytes (drop (k - start) sigs)) @ post)
      start (0 + 16) (k - start)
     = Inr (if hash \<in> snd ` set (take (k - start) sigs)
            then Some (start + length (takeWhile (\<lambda>x. snd x \<noteq> hash) (take (k - start) sigs))) else None)"
    using assms(2) by (simp only: append_Nil list.size length_take min.absorb2)
  ultimately show ?thesis by (simp only: match_hash_def)
qed

lemma hash_moved:
  assumes "\<forall>x \<in> set (as @ x # bs). length (fst x) = 16 \<and> length (snd x) = h"
  shows "\<exists>post'. mem_move (concat (map sig_bytes (as @ x # bs)) @ post) (length as * (h + 16)) (length as * (h + 16) + (h + 16))
      (length bs * (h + 16)) = Inr (concat (map sig_bytes (as @ bs)) @ post')"
proof -
  let ?A = "concat (map sig_bytes as)" and ?B = "concat (map sig_bytes bs)"
  have l: "length ?A = length as * (h + 16)" "length ?B = length bs * (h + 16)" "length (sig_bytes x) = h + 16"
    using concat_sigs_length [of as h] concat_sigs_length [of bs h] assms by (simp_all add: sig_bytes_def mult.commute)
  have "take (length ?A) (?A @ sig_bytes x @ ?B @ post) = ?A"
    "take (length ?B) (drop (length ?A + (h + 16)) (?A @ sig_bytes x @ ?B @ post)) = ?B"
    using l(3) by simp_all
  then show ?thesis
    unfolding l(1,2) [symmetric] by (subst mem_move_down) (use l(3) in auto)
qed

theorem repeated_hash_spared:
  assumes "\<forall>x \<in> set [a, h, h', c, d]. length (fst x) = 16 \<and> length (snd x) = 32"
    and "snd h = hash" and "snd h' = hash" and "snd a \<noteq> hash" and "snd c \<noteq> hash" and "snd d \<noteq> hash"
    and "mn_Type n = EFI_CERT_SHA256_GUID" and "mn_Mok n = Some 0" and "mn_Size n = 5 * 48"
  shows "\<exists>data'. delete_hash_in_list EFI_CERT_SHA256_GUID hash (concat (map sig_bytes [a, h, h', c, d])) [n]
      = Inr (data', [n\<lparr>mn_Size := 3 * 48\<rparr>])
     \<and> get_bytes data' 0 (3 * 48) = Inr (concat (map sig_bytes [a, h', d]))"
proof -
  let ?cat = "\<lambda>sigs. concat (map sig_bytes sigs)"
  have len: "\<forall>x \<in> set sigs. length (fst x) = 16 \<and> length (snd x) = length hash" if "set sigs \<subseteq> {a, h, h', c, d}" for sigs
    using that assms(1,2) by auto
  have hash: "length hash = 32" using assms(1,2) by auto
  note simps = assms(2-6)
  have e1: "match_hash hash 0 (?cat [a, h, h', c, d]) 0 5 = Inr (Some 1)"
    using hash_search [OF len [of "[a, h, h', c, d]"], of 5 0 "[]"] simps by (simp add: take_Cons')
  obtain p1 where mv1: "mem_move (?cat [a, h, h', c, d]) 48 96 144 = Inr (?cat [a, h', c, d] @ p1)"
    using hash_moved [of "[a]" h "[h', c, d]" 32 "[]"] len [of "[a, h, h', c, d]"] hash by auto
  have e2: "match_hash hash 1 (?cat [a, h', c, d] @ p1) 0 4 = Inr (Some 2)"
    using hash_search [OF len [of "[a, h', c, d]"], of 4 1 p1] simps by (simp add: take_Cons')
  obtain p2 where mv2: "mem_move (?cat [a, h', c, d] @ p1) 96 144 48 = Inr (?cat [a, h', d] @ p2)"
    using hash_moved [of "[a, h']" c "[d]" 32 p1] len [of "[a, h', c, d]"] hash by auto
  have e3: "match_hash hash 2 (?cat [a, h', d] @ p2) 0 3 = Inr None"
    using hash_search [OF len [of "[a, h', d]"], of 3 2 p2] simps by (simp add: take_Cons')
  have three: "delete_hash_loop hash 2 (Suc 2) (?cat [a, h', d] @ p2) (n\<lparr>mn_Size := 3 * 48\<rparr>)
      = Inr (?cat [a, h', d] @ p2, n\<lparr>mn_Size := 3 * 48\<rparr>)"
    using e3 assms(8) by (subst delete_hash_loop.simps(2)) simp
  have two: "delete_hash_loop hash 1 (Suc 3) (?cat [a, h', c, d] @ p1) (n\<lparr>mn_Size := 4 * 48\<rparr>)
      = Inr (?cat [a, h', d] @ p2, n\<lparr>mn_Size := 3 * 48\<rparr>)"
    using e2 mv2 three assms(8) hash by (subst delete_hash_loop.simps(2)) (simp add: Let_def)
  have "delete_hash_loop hash 0 (Suc 4) (?cat [a, h, h', c, d]) n = Inr (?cat [a, h', d] @ p2, n\<lparr>mn_Size := 3 * 48\<rparr>)"
    using e1 mv1 two assms(8,9) hash by (subst delete_hash_loop.simps(2)) (simp add: Let_def)
  moreover have "length (?cat [a, h', d]) = 144" using concat_sigs_length [OF len [of "[a, h', d]"]] hash by simp
  ultimately show ?thesis
    using hash assms(7,9) get_bytes_at [of "[]" 0 "?cat [a, h', d]" 144 p2] by (simp add: Let_def)
qed

end
