(* ===== verification/MokPassword.thy ===== *)
theory MokPassword
  imports SigDb Ucs2
begin

text \<open>
  MokManager.c and PasswordCrypt.c, passwords: reading a line from the keyboard, the hash of a
  password under the methods a password variable can name, and the comparison with three tries.
  Keystrokes, answers and random numbers come from the state \<open>'w\<close>, as the firmware's variables do.
  OpenSSL's hash functions and crypt_blowfish are parameters.
\<close>

section \<open>Environment\<close>

record 'w mm_env =
  mm_rt :: "'w efi_rt"
  mm_pool :: "nat \<Rightarrow> bool"
  mm_PoolPrint :: "'w \<Rightarrow> bool"
  mm_LibDeleteVariable :: "'w \<Rightarrow> string \<Rightarrow> guid \<Rightarrow> efi_status \<times> 'w"
  mm_keystroke :: "'w \<Rightarrow> efi_status \<times> u16 \<times> 'w"
  mm_yes_no :: "'w \<Rightarrow> bool \<times> 'w"
  mm_select :: "'w \<Rightarrow> nat \<Rightarrow> nat \<Rightarrow> int \<times> 'w"
  mm_countdown :: "'w \<Rightarrow> int \<Rightarrow> int \<times> 'w"
  mm_random :: "'w \<Rightarrow> u8 \<times> 'w"
  mm_Sha256 :: "bytes \<Rightarrow> bytes option"
  mm_md5 :: "bytes \<Rightarrow> bytes"
  mm_sha256 :: "bytes \<Rightarrow> bytes"
  mm_sha512 :: "bytes \<Rightarrow> bytes"
  mm_crypt_blowfish_rn :: "bytes \<Rightarrow> bytes \<Rightarrow> bytes option"

section \<open>Password hashes (PasswordCrypt.c)\<close>

datatype HashMethod = TRADITIONAL_DES | EXTEND_BSDI_DES | MD5_BASED | SHA256_BASED | SHA512_BASED | BLOWFISH_BASED

fun method_of :: "nat \<Rightarrow> HashMethod option" where
  "method_of m =
     (if m = 0 then Some TRADITIONAL_DES else if m = 1 then Some EXTEND_BSDI_DES else if m = 2 then Some MD5_BASED
      else if m = 3 then Some SHA256_BASED else if m = 4 then Some SHA512_BASED else if m = 5 then Some BLOWFISH_BASED
      else None)"

definition PASSWORD_CRYPT_SIZE :: nat where "PASSWORD_CRYPT_SIZE = 172"

text \<open>
  \<open>PASSWORD_CRYPT\<close>, packed: the fields of the buffer of 172 bytes. The salt is read from the
  buffer as far as \<open>salt_size\<close> says, beyond its 32 bytes too.
\<close>

definition crypt_method :: "bytes \<Rightarrow> nat res" where "crypt_method c = get_le c 0 2"
definition crypt_iter_count :: "bytes \<Rightarrow> nat res" where "crypt_iter_count c = get_le c 2 8"
definition crypt_salt_size :: "bytes \<Rightarrow> nat res" where "crypt_salt_size c = get_le c 10 2"
definition crypt_salt :: "bytes \<Rightarrow> nat \<Rightarrow> bytes res" where "crypt_salt c n = get_bytes c 12 n"
definition crypt_hash :: "bytes \<Rightarrow> nat \<Rightarrow> bytes res" where "crypt_hash c n = get_bytes c 44 n"

definition get_hash_size :: "nat \<Rightarrow> nat" where
  "get_hash_size m =
     (case method_of m of
        Some TRADITIONAL_DES \<Rightarrow> 13
      | Some EXTEND_BSDI_DES \<Rightarrow> 20
      | Some MD5_BASED \<Rightarrow> 16
      | Some SHA256_BASED \<Rightarrow> 32
      | Some SHA512_BASED \<Rightarrow> 64
      | Some BLOWFISH_BASED \<Rightarrow> 31
      | None \<Rightarrow> 0)"

text \<open>
  The inputs of the hash functions, as what is fed to a context from its initialisation on.
  \<open>blocks_gt\<close> is \<open>for (cnt = len; cnt > n; cnt -= n)\<close> and the rest, \<open>blocks_ge\<close> the loop with
  \<open>>=\<close>, and \<open>bit_loop\<close> goes over the bits of the length.
\<close>

function blocks_gt :: "nat \<Rightarrow> nat \<Rightarrow> bytes \<Rightarrow> bytes" where
  "blocks_gt n cnt d = (if 0 < n \<and> n < cnt then take n d @ blocks_gt n (cnt - n) d else take cnt d)"
  by pat_completeness auto
termination by (relation "measure (\<lambda>(n, cnt, d). cnt)") auto

function blocks_ge :: "nat \<Rightarrow> nat \<Rightarrow> bytes \<Rightarrow> bytes" where
  "blocks_ge n cnt d = (if 0 < n \<and> n \<le> cnt then take n d @ blocks_ge n (cnt - n) d else take cnt d)"
  by pat_completeness auto
termination by (relation "measure (\<lambda>(n, cnt, d). cnt)") auto

function bit_loop :: "bytes \<Rightarrow> bytes \<Rightarrow> nat \<Rightarrow> bytes" where
  "bit_loop one zero cnt =
     (if cnt = 0 then [] else (if cnt mod 2 \<noteq> 0 then one else zero) @ bit_loop one zero (cnt div 2))"
  by pat_completeness auto
termination by (relation "measure (\<lambda>(a, b, cnt). cnt)") auto

declare blocks_gt.simps [simp del] blocks_ge.simps [simp del] bit_loop.simps [simp del]

definition crypt_round :: "(bytes \<Rightarrow> bytes) \<Rightarrow> bytes \<Rightarrow> bytes \<Rightarrow> nat \<Rightarrow> bytes \<Rightarrow> bytes" where
  "crypt_round H p s cnt d =
     H ((if cnt mod 2 \<noteq> 0 then p else d)
        @ (if cnt mod 3 \<noteq> 0 then s else [])
        @ (if cnt mod 7 \<noteq> 0 then p else [])
        @ (if cnt mod 2 \<noteq> 0 then d else p))"

definition md5_crypt :: "(bytes \<Rightarrow> bytes) \<Rightarrow> bytes \<Rightarrow> bytes \<Rightarrow> bytes" where
  "md5_crypt H key salt =
     (let alt = H (key @ salt @ key);
          d = H (key @ str8 ''$1$'' @ salt @ blocks_gt 16 (length key) alt @ bit_loop [0] (take 1 key) (length key))
      in fold (crypt_round H key salt) [0..<1000] d)"

text \<open>\<open>sha256_crypt\<close> and \<open>sha512_crypt\<close> are the same code with \<open>n = 32\<close> and \<open>n = 64\<close>.\<close>

definition sha_crypt :: "(bytes \<Rightarrow> bytes) \<Rightarrow> nat \<Rightarrow> (nat \<Rightarrow> bool) \<Rightarrow> bytes \<Rightarrow> bytes \<Rightarrow> nat \<Rightarrow> bytes res" where
  "sha_crypt H n pool key salt rounds =
     (let alt = H (key @ salt @ key);
          d = H (key @ salt @ blocks_gt n (length key) alt @ bit_loop (take n alt) key (length key));
          dp = H (concat (replicate (length key) key));
          p = blocks_ge n (length key) dp;
          ds = H (concat (replicate (16 + unat (d ! 0)) salt));
          s = blocks_ge n (length salt) ds
      in if key \<noteq> [] \<and> \<not> pool (length key) \<or> salt \<noteq> [] \<and> \<not> pool (length salt) \<or> d = [] then Inl Fault
         else Inr (fold (crypt_round H p s) [0..<rounds] d))"

definition sha256_crypt :: "'w mm_env \<Rightarrow> bytes \<Rightarrow> bytes \<Rightarrow> nat \<Rightarrow> bytes res" where
  "sha256_crypt env key salt rounds = sha_crypt (mm_sha256 env) 32 (mm_pool env) key salt rounds"

definition sha512_crypt :: "'w mm_env \<Rightarrow> bytes \<Rightarrow> bytes \<Rightarrow> nat \<Rightarrow> bytes res" where
  "sha512_crypt env key salt rounds = sha_crypt (mm_sha512 env) 64 (mm_pool env) key salt rounds"

text \<open>
  The result of crypt_blowfish is a buffer of \<open>BF_RESULT_SIZE\<close> bytes; as many bytes are copied
  from the middle of it.
\<close>

definition BF_RESULT_SIZE :: nat where "BF_RESULT_SIZE = 7 + 22 + 31 + 1"

definition blowfish_crypt :: "'w mm_env \<Rightarrow> bytes \<Rightarrow> bytes \<Rightarrow> (efi_status \<times> bytes) res" where
  "blowfish_crypt env key salt =
     (case mm_crypt_blowfish_rn env key salt of
        None \<Rightarrow> Inr (EFI_UNSUPPORTED, [])
      | Some r \<Rightarrow>
          bindR (get_bytes (take BF_RESULT_SIZE (r @ replicate BF_RESULT_SIZE 0)) (7 + 22) BF_RESULT_SIZE) (\<lambda>h.
            Inr (EFI_SUCCESS, h)))"

text \<open>\<open>iter_count\<close> has 64 bits, the parameter \<open>rounds\<close> has 32.\<close>

definition password_crypt :: "'w mm_env \<Rightarrow> bytes \<Rightarrow> bytes \<Rightarrow> (efi_status \<times> bytes) res" where
  "password_crypt env key c =
     bindR (crypt_method c) (\<lambda>m. bindR (crypt_salt_size c) (\<lambda>n. bindR (crypt_iter_count c) (\<lambda>i.
       case method_of m of
         None \<Rightarrow> Inr (EFI_INVALID_PARAMETER, [])
       | Some TRADITIONAL_DES \<Rightarrow> Inr (EFI_UNSUPPORTED, [])
       | Some EXTEND_BSDI_DES \<Rightarrow> Inr (EFI_UNSUPPORTED, [])
       | Some MD5_BASED \<Rightarrow> bindR (crypt_salt c n) (\<lambda>salt. Inr (EFI_SUCCESS, md5_crypt (mm_md5 env) key salt))
       | Some SHA256_BASED \<Rightarrow>
           bindR (crypt_salt c n) (\<lambda>salt. bindR (sha256_crypt env key salt (i mod 2 ^ 32)) (\<lambda>h. Inr (EFI_SUCCESS, h)))
       | Some SHA512_BASED \<Rightarrow>
           bindR (crypt_salt c n) (\<lambda>salt. bindR (sha512_crypt env key salt (i mod 2 ^ 32)) (\<lambda>h. Inr (EFI_SUCCESS, h)))
       | Some BLOWFISH_BASED \<Rightarrow>
           if n \<noteq> 7 + 22 + 1 then Inr (EFI_INVALID_PARAMETER, [])
           else bindR (crypt_salt c 32) (\<lambda>salt. blowfish_crypt env key salt))))"

section \<open>Reading a line\<close>

definition CHAR_BACKSPACE :: u16 where "CHAR_BACKSPACE = 0x0008"
definition CHAR_TAB :: u16 where "CHAR_TAB = 0x0009"
definition CHAR_LINEFEED :: u16 where "CHAR_LINEFEED = 0x000A"
definition CHAR_CARRIAGE_RETURN :: u16 where "CHAR_CARRIAGE_RETURN = 0x000D"

text \<open>What a key does to the line: \<open>None\<close> is the end of the line.\<close>

definition line_key :: "nat \<Rightarrow> wstr \<Rightarrow> u16 \<Rightarrow> wstr option" where
  "line_key line_max line key =
     (if line_max \<le> length line \<and> key \<noteq> CHAR_BACKSPACE \<or> key = 0 \<or> key = CHAR_TAB \<or> key = CHAR_LINEFEED
         \<or> key = CHAR_CARRIAGE_RETURN
      then (if key = CHAR_CARRIAGE_RETURN then None else Some line)
      else if key = CHAR_BACKSPACE then Some (if line = [] then line else butlast line)
      else Some (line @ [key]))"

text \<open>The user need not press return, so reading a line may not end.\<close>

partial_function (option) get_line_loop :: "'w mm_env \<Rightarrow> nat \<Rightarrow> wstr \<Rightarrow> 'w \<Rightarrow> (efi_status \<times> wstr \<times> 'w) option" where
  "get_line_loop env line_max line w =
     (case mm_keystroke env w of
        (st, key, w) \<Rightarrow>
          if EFI_ERROR st then Some (st, [], w)
          else case line_key line_max line key of
            None \<Rightarrow> Some (EFI_SUCCESS, line, w)
          | Some line \<Rightarrow> get_line_loop env line_max line w)"

declare get_line_loop.simps [code]

definition get_line :: "'w mm_env \<Rightarrow> nat \<Rightarrow> 'w \<Rightarrow> (efi_status \<times> wstr \<times> 'w) option" where
  "get_line env line_max w = get_line_loop env line_max [] w"

definition PASSWORD_MAX :: nat where "PASSWORD_MAX = 256"
definition PASSWORD_MIN :: nat where "PASSWORD_MIN = 1"

definition get_password :: "'w mm_env \<Rightarrow> nat \<Rightarrow> 'w \<Rightarrow> (wstr \<times> 'w) res option" where
  "get_password env n w =
     (if \<not> mm_PoolPrint env w then Some (Inr ([], w))
      else case get_line env n w of
        None \<Rightarrow> None
      | Some (st, line, w) \<Rightarrow> Some (Inr (line, w)))"

definition get_password_charater :: "'w mm_env \<Rightarrow> 'w \<Rightarrow> (u16 \<times> 'w) res option" where
  "get_password_charater env w =
     (case get_line env 1 w of
        None \<Rightarrow> None
      | Some (st, line, w) \<Rightarrow> Some (Inr (if EFI_ERROR st then 0 else case line of [] \<Rightarrow> 0 | c # _ \<Rightarrow> c, w)))"

section \<open>Matching a password\<close>

definition compute_pw_hash :: "'w mm_env \<Rightarrow> bytes \<Rightarrow> bytes \<Rightarrow> efi_status \<times> bytes" where
  "compute_pw_hash env data password =
     (case mm_Sha256 env (data @ password) of None \<Rightarrow> (EFI_OUT_OF_RESOURCES, []) | Some h \<Rightarrow> (EFI_SUCCESS, h))"

text \<open>
  What a variable asks for: the hash under the method it names, or SHA-256 of the data and the
  password (with 16-bit characters), "for backward compatibility".
\<close>

datatype pw_auth = PwCrypt bytes | PwSha256 bytes bytes

definition pw_ascii :: "wstr \<Rightarrow> bytes" where "pw_ascii pw = map (\<lambda>c. ucast c) pw"

definition pw_unicode :: "wstr \<Rightarrow> bytes" where "pw_unicode pw = concat (map (\<lambda>c. le_bytes 2 (unat c)) pw)"

definition password_hash :: "'w mm_env \<Rightarrow> pw_auth \<Rightarrow> wstr \<Rightarrow> (efi_status \<times> bytes) res" where
  "password_hash env a pw =
     (case a of
        PwCrypt c \<Rightarrow> password_crypt env (pw_ascii pw) c
      | PwSha256 data auth \<Rightarrow> Inr (compute_pw_hash env data (pw_unicode pw)))"

text \<open>The stored hash, \<open>auth_hash\<close> and \<open>auth_size\<close>; \<open>None\<close> is a method without a size.\<close>

definition auth_hash :: "pw_auth \<Rightarrow> bytes option res" where
  "auth_hash a =
     (case a of
        PwCrypt c \<Rightarrow>
          bindR (crypt_method c) (\<lambda>m.
            if get_hash_size m = 0 then Inr None else bindR (crypt_hash c (get_hash_size m)) (\<lambda>h. Inr (Some h)))
      | PwSha256 data auth \<Rightarrow> bindR (get_bytes auth 0 32) (\<lambda>h. Inr (Some h)))"

text \<open>Whether a line is the password; \<open>want\<close> is the stored hash.\<close>

definition password_matches :: "'w mm_env \<Rightarrow> pw_auth \<Rightarrow> bytes \<Rightarrow> wstr \<Rightarrow> bool res" where
  "password_matches env a want pw =
     (if length pw < PASSWORD_MIN \<or> PASSWORD_MAX < length pw then Inr False
      else bindR (password_hash env a pw) (\<lambda>(st, h). Inr (\<not> EFI_ERROR st \<and> take (length want) h = want)))"

fun password_tries :: "'w mm_env \<Rightarrow> pw_auth \<Rightarrow> bytes \<Rightarrow> nat \<Rightarrow> 'w \<Rightarrow> (efi_status \<times> 'w) res option" where
  "password_tries env a want 0 w = Some (Inr (EFI_ACCESS_DENIED, w))"
| "password_tries env a want (Suc k) w =
     bindO (get_password env PASSWORD_MAX w) (\<lambda>(pw, w).
     bindO (Some (password_matches env a want pw)) (\<lambda>ok.
       if ok then Some (Inr (EFI_SUCCESS, w)) else password_tries env a want k w))"

definition match_password :: "'w mm_env \<Rightarrow> pw_auth \<Rightarrow> 'w \<Rightarrow> (efi_status \<times> 'w) res option" where
  "match_password env a w =
     bindO (Some (auth_hash a)) (\<lambda>want.
       case want of None \<Rightarrow> Some (Inr (EFI_INVALID_PARAMETER, w)) | Some h \<Rightarrow> password_tries env a h 3 w)"

end
