(* ===== verification/MokManager.thy ===== *)
theory MokManager
  imports MokKeysSpec MokPassword
begin

text \<open>
  MokManager.c, the program that changes the MOK variables on behalf of the user: storing and
  deleting keys, the prompts, the menu and the requests the operating system has left in variables.
  A variable that was read is its bytes with the three bytes of padding, and its size. The texts on
  the screen are left out, but not what the user answers.
\<close>

section \<open>Environment\<close>

text \<open>
  \<open>fe_X509\<close> says whether OpenSSL makes a certificate of the bytes, \<open>fe_shim_lock\<close> is the status of
  locating the shim lock protocol, \<open>fe_hash\<close> the digest from it (\<open>Context\<close> and \<open>Hash\<close>),
  \<open>fe_select\<close> the file selector, \<open>fe_read\<close> the status of \<open>simple_file_open\<close> and the bytes that
  \<open>simple_file_read_all\<close> read; \<open>fe_show\<close> shows one key or hash.
\<close>

record 'w man_env =
  me :: "'w mm_env"
  fe_X509 :: "bytes \<Rightarrow> bool"
  fe_shim_lock :: "'w \<Rightarrow> efi_status"
  fe_hash :: "'w \<Rightarrow> bytes \<Rightarrow> efi_status \<times> bytes"
  fe_select :: "'w \<Rightarrow> wstr option \<times> 'w"
  fe_read :: "'w \<Rightarrow> wstr \<Rightarrow> efi_status \<times> bytes \<times> 'w"
  fe_show :: "'w \<Rightarrow> guid \<Rightarrow> bytes \<Rightarrow> 'w"

type_synonym var_buf = "bytes \<times> nat"

text \<open>\<open>auth_name\<close> of \<open>store_keys\<close> and of \<open>delete_keys\<close>.\<close>

definition mok_auth :: "bool \<Rightarrow> string" where
  "mok_auth mokx = (if mokx then ''MokXAuth'' else ''MokAuth'')"

definition mok_del_auth :: "bool \<Rightarrow> string" where
  "mok_del_auth mokx = (if mokx then ''MokXDelAuth'' else ''MokDelAuth'')"

definition MOK_ATTRS :: u32 where
  "MOK_ATTRS = EFI_VARIABLE_NON_VOLATILE OR EFI_VARIABLE_BOOTSERVICE_ACCESS"

abbreviation set_mok :: "'w mm_env \<Rightarrow> 'w \<Rightarrow> string \<Rightarrow> bytes \<Rightarrow> efi_status \<times> 'w" where
  "set_mok env w name data \<equiv> SetVariable (mm_rt env) w name SHIM_LOCK_GUID MOK_ATTRS data"

definition delete_var :: "'w mm_env \<Rightarrow> string \<Rightarrow> 'w \<Rightarrow> 'w" where
  "delete_var env name w = snd (mm_LibDeleteVariable env w name SHIM_LOCK_GUID)"

section \<open>Showing the keys\<close>

text \<open>A menu of \<open>num\<close> entries and one to leave it, until the user leaves it.\<close>

partial_function (option) select_loop :: "'w mm_env \<Rightarrow> nat \<Rightarrow> (nat \<Rightarrow> 'w \<Rightarrow> 'w option) \<Rightarrow> nat \<Rightarrow> 'w \<Rightarrow> 'w option" where
  "select_loop env num show_item k w =
     (if num \<le> k then Some w
      else case mm_select env w (num + 1) k of
        (rc, w) \<Rightarrow>
          if rc < 0 \<or> num \<le> nat rc then Some w
          else case show_item (nat rc) w of
            None \<Rightarrow> None
          | Some w \<Rightarrow> select_loop env num show_item (nat rc) w)"

declare select_loop.simps [code]

definition show_efi_hash :: "'w man_env \<Rightarrow> guid \<Rightarrow> bytes \<Rightarrow> 'w \<Rightarrow> 'w option" where
  "show_efi_hash env ty mok w =
     (let sig_size = sha_size ty + 16 in
      if length mok mod sig_size \<noteq> 0 then Some w
      else let hash_num = length mok div sig_size;
               digest = (\<lambda>k. take (sha_size ty) (drop (sig_size * k + 16) mok)) in
        if hash_num = 1 then Some (fe_show env w ty (digest 0))
        else if \<not> mm_pool (me env) (8 * (hash_num + 2)) then Some w
        else select_loop (me env) hash_num (\<lambda>k w. Some (fe_show env w ty (digest k))) 0 w)"

definition show_mok_info :: "'w man_env \<Rightarrow> bytes \<Rightarrow> mok_node \<Rightarrow> 'w \<Rightarrow> 'w res option" where
  "show_mok_info env data n w =
     (case mn_Mok n of
        None \<Rightarrow> Some (Inr w)
      | Some p \<Rightarrow>
          if mn_Size n = 0 then Some (Inr w)
          else case get_bytes data p (mn_Size n) of
            Inl e \<Rightarrow> Some (Inl e)
          | Inr mok \<Rightarrow>
              if mn_Type n = X509_GUID then Some (Inr (fe_show env w X509_GUID mok))
              else if is_sha2_hash (mn_Type n) then map_option Inr (show_efi_hash env (mn_Type n) mok w)
              else Some (Inr w))"

partial_function (option) list_keys_loop :: "'w man_env \<Rightarrow> bytes \<Rightarrow> mok_node list \<Rightarrow> nat \<Rightarrow> 'w \<Rightarrow> 'w res option" where
  "list_keys_loop env data keys k w =
     (if length keys \<le> k then Some (Inr w)
      else case mm_select (me env) w (length keys + 1) k of
        (rc, w) \<Rightarrow>
          if rc < 0 \<or> length keys \<le> nat rc then Some (Inr w)
          else case show_mok_info env data (keys ! nat rc) w of
            None \<Rightarrow> None
          | Some (Inl e) \<Rightarrow> Some (Inl e)
          | Some (Inr w) \<Rightarrow> list_keys_loop env data keys (nat rc) w)"

declare list_keys_loop.simps [code]

definition list_keys :: "'w man_env \<Rightarrow> var_buf \<Rightarrow> 'w \<Rightarrow> (efi_status \<times> 'w) res option" where
  "list_keys env kl w =
     (case kl of (data, datasize) \<Rightarrow>
        if datasize < sizeof_ESL + sizeof_ESD then Some (Inr (EFI_NOT_FOUND, w))
        else bindO (Some (count_keys data datasize)) (\<lambda>num.
          if num = 0 then Some (Inr (EFI_ABORTED, w))
          else bindO (Some (build_mok_list (mm_pool (me env)) num data datasize)) (\<lambda>keys.
            case keys of
              None \<Rightarrow> Some (Inr (EFI_ABORTED, w))
            | Some keys \<Rightarrow>
                if \<not> mm_pool (me env) (8 * (num + 2)) then Some (Inr (EFI_OUT_OF_RESOURCES, w))
                else bindO (list_keys_loop env data keys 0 w) (\<lambda>w. Some (Inr (EFI_SUCCESS, w))))))"

section \<open>Storing keys\<close>

text \<open>
  \<open>write_db\<close>: the attributes are not set when there is no variable; then there are no old data
  either.
\<close>

definition write_db :: "'w mm_env \<Rightarrow> string \<Rightarrow> bytes \<Rightarrow> 'w \<Rightarrow> (efi_status \<times> 'w) res" where
  "write_db env db_name new w =
     (case get_variable_attr (mm_rt env) (mm_pool env) w True db_name SHIM_LOCK_GUID of
        (st, old, n, a) \<Rightarrow>
          if EFI_ERROR st \<and> st \<noteq> EFI_NOT_FOUND then Inr (st, w)
          else let n = (case a of Some a \<Rightarrow> if a AND EFI_VARIABLE_RUNTIME_ACCESS \<noteq> 0 then 0 else n | None \<Rightarrow> n) in
            if \<not> mm_pool env (n + length new) then Inr (EFI_OUT_OF_RESOURCES, w)
            else bindR (if n = 0 then Inr [] else case old of None \<Rightarrow> Inl Fault | Some d \<Rightarrow> get_bytes d 0 n) (\<lambda>d.
              Inr (set_mok env w db_name (d @ new))))"

text \<open>
  The authentication variable of a request: the status of a failure, which is success when the
  size is wrong, or what to match.
\<close>

definition read_auth :: "'w mm_env \<Rightarrow> string \<Rightarrow> bytes \<Rightarrow> 'w \<Rightarrow> efi_status + pw_auth" where
  "read_auth env auth_name data w =
     (let r = GetVariable (mm_rt env) w auth_name SHIM_LOCK_GUID True PASSWORD_CRYPT_SIZE in
      if EFI_ERROR (gv_status r) \<or> gv_size r \<noteq> 32 \<and> gv_size r \<noteq> PASSWORD_CRYPT_SIZE then Inl (gv_status r)
      else if gv_size r = PASSWORD_CRYPT_SIZE then Inr (PwCrypt (gv_data r))
      else Inr (PwSha256 data (gv_data r)))"

definition store_keys :: "'w mm_env \<Rightarrow> bytes \<Rightarrow> bool \<Rightarrow> bool \<Rightarrow> 'w \<Rightarrow> (efi_status \<times> 'w) res option" where
  "store_keys env new authenticate mokx w =
     (let db_name = mok_db mokx;
          auth_name = mok_auth mokx;
          put = (\<lambda>w. bindO (Some (if new = [] then Inr (set_mok env w db_name []) else write_db env db_name new w)) (\<lambda>(st, w).
                   Some (Inr (if EFI_ERROR st then st else EFI_SUCCESS, w)))) in
      if authenticate then
        (case read_auth env auth_name new w of
           Inl st \<Rightarrow> Some (Inr (st, w))
         | Inr a \<Rightarrow>
             bindO (match_password env a w) (\<lambda>(st, w). if EFI_ERROR st then Some (Inr (EFI_ACCESS_DENIED, w)) else put w))
      else put w)"

text \<open>\<open>MokNew\<close> with its size, as the prompt and the menu have it.\<close>

definition mok_enrollment_prompt :: "'w man_env \<Rightarrow> var_buf \<Rightarrow> bool \<Rightarrow> bool \<Rightarrow> 'w \<Rightarrow> (efi_status \<times> 'w) res option" where
  "mok_enrollment_prompt env new auth mokx w =
     bindO (list_keys env new w) (\<lambda>(st, w).
       if EFI_ERROR st then Some (Inr (st, w))
       else case mm_yes_no (me env) w of
         (yes, w) \<Rightarrow>
           if \<not> yes then Some (Inr (EFI_ABORTED, w))
           else bindO (store_keys (me env) (take (snd new) (fst new)) auth mokx w) (\<lambda>(st, w).
             if EFI_ERROR st then Some (Inr (st, w))
             else Some (Inr (EFI_SUCCESS,
               if \<not> auth then w
               else if mokx then delete_var (me env) ''MokXAuth'' (delete_var (me env) ''MokXNew'' w)
               else delete_var (me env) ''MokAuth'' (delete_var (me env) ''MokNew'' w)))))"

definition mok_reset_prompt :: "'w man_env \<Rightarrow> bool \<Rightarrow> 'w \<Rightarrow> (efi_status \<times> 'w) res option" where
  "mok_reset_prompt env mokx w =
     (case mm_yes_no (me env) w of
        (yes, w) \<Rightarrow>
          if \<not> yes then Some (Inr (EFI_ABORTED, w))
          else bindO (store_keys (me env) [] True mokx w) (\<lambda>(st, w).
            if EFI_ERROR st then Some (Inr (st, w))
            else Some (Inr (EFI_SUCCESS,
              fold (delete_var (me env))
                (if mokx then [''MokXNew'', ''MokXAuth'', ''MokListX''] else [''MokNew'', ''MokAuth'', ''MokList'']) w))))"

section \<open>Deleting keys\<close>

definition delete_keys :: "'w mm_env \<Rightarrow> var_buf \<Rightarrow> bool \<Rightarrow> 'w \<Rightarrow> (efi_status \<times> 'w) res option" where
  "delete_keys env del mokx w =
     (let db_name = mok_db mokx;
          auth_name = mok_del_auth mokx in
      case read_auth env auth_name (take (snd del) (fst del)) w of
        Inl st \<Rightarrow> Some (Inr (st, w))
      | Inr a \<Rightarrow>
          bindO (match_password env a w) (\<lambda>(st, w).
            if EFI_ERROR st then Some (Inr (EFI_ACCESS_DENIED, w))
            else case get_variable_attr (mm_rt env) (mm_pool env) w True db_name SHIM_LOCK_GUID of
              (st, old, n, a) \<Rightarrow>
                if EFI_ERROR st then Some (Inr (EFI_ABORTED, w))
                else if (case a of Some a \<Rightarrow> a | None \<Rightarrow> 0) AND EFI_VARIABLE_RUNTIME_ACCESS \<noteq> 0 then
                  Some (Inr (EFI_ACCESS_DENIED, snd (set_mok env w db_name [])))
                else case old of
                  None \<Rightarrow> Some (Inr (EFI_SUCCESS, w))
                | Some data \<Rightarrow>
                    if n = 0 then Some (Inr (EFI_SUCCESS, w))
                    else Some (bindR (count_keys data n) (\<lambda>mok_num.
                      if mok_num = 0 then Inr (EFI_ABORTED, snd (set_mok env w db_name []))
                      else bindR (build_mok_list (mm_pool env) mok_num data n) (\<lambda>mok.
                      case mok of None \<Rightarrow> Inr (EFI_ABORTED, w) | Some mok \<Rightarrow>
                      bindR (count_keys (fst del) (snd del)) (\<lambda>del_num.
                      if del_num = 0 then Inr (EFI_ABORTED, w)
                      else bindR (build_mok_list (mm_pool env) del_num (fst del) (snd del)) (\<lambda>del_key.
                      case del_key of None \<Rightarrow> Inr (EFI_ABORTED, w) | Some del_key \<Rightarrow>
                      bindR (delete_loop (fst del) del_key data mok) (\<lambda>(data, mok).
                        write_back_mok_list (mm_rt env) (mm_pool env) w data mok mokx))))))))"

definition mok_deletion_prompt :: "'w man_env \<Rightarrow> var_buf \<Rightarrow> bool \<Rightarrow> 'w \<Rightarrow> (efi_status \<times> 'w) res option" where
  "mok_deletion_prompt env del mokx w =
     bindO (list_keys env del w) (\<lambda>(st, w).
       if EFI_ERROR st then Some (Inr (st, w))
       else case mm_yes_no (me env) w of
         (yes, w) \<Rightarrow>
           if \<not> yes then Some (Inr (EFI_ABORTED, w))
           else bindO (delete_keys (me env) del mokx w) (\<lambda>(st, w).
             if EFI_ERROR st then Some (Inr (st, w))
             else Some (Inr (EFI_SUCCESS,
               if mokx then delete_var (me env) ''MokXDelAuth'' (delete_var (me env) ''MokXDel'' w)
               else delete_var (me env) ''MokDelAuth'' (delete_var (me env) ''MokDel'' w)))))"

end
