(* ===== verification/MokMenu.thy ===== *)
theory MokMenu
  imports MokManager
begin

text \<open>
  MokManager.c, the other prompts, the menu and the requests: the switches for secure boot, the
  database and the trusted list, which ask for three characters of a password, the MOK password,
  enrolling files, and the menu with what it offers for the requests that were found.
\<close>

section \<open>Three characters of a password\<close>

text \<open>
  \<open>MokSBvar\<close>, \<open>MokDBvar\<close> and \<open>MokTMLvar\<close>, packed: the state, the length of the password and 16
  characters. The length is not compared with 16, and a position is read wherever it lies.
\<close>

definition sizeof_MokSBvar :: nat where "sizeof_MokSBvar = 40"

definition var_state :: "bytes \<Rightarrow> nat res" where "var_state v = get_le v 0 4"
definition var_PWLen :: "bytes \<Rightarrow> nat res" where "var_PWLen v = get_le v 4 4"
definition var_Password :: "bytes \<Rightarrow> nat \<Rightarrow> u16 res" where
  "var_Password v pos = bindR (get_le v (8 + 2 * pos) 2) (\<lambda>c. Inr (word_of_nat c))"

text \<open>A position is drawn until it is none of the positions before; the length is not zero.\<close>

partial_function (option) pick_pos :: "'w mm_env \<Rightarrow> nat \<Rightarrow> nat list \<Rightarrow> 'w \<Rightarrow> (nat \<times> 'w) option" where
  "pick_pos env pwlen used w =
     (case mm_random env w of
        (r, w) \<Rightarrow>
          if unat r mod pwlen \<in> set used then pick_pos env pwlen used w else Some (unat r mod pwlen, w))"

declare pick_pos.simps [code]

definition pick_three :: "'w mm_env \<Rightarrow> nat \<Rightarrow> 'w \<Rightarrow> (nat list \<times> 'w) res option" where
  "pick_three env pwlen w =
     (if pwlen = 0 then Some (Inl Fault)
      else case pick_pos env pwlen [] w of None \<Rightarrow> None | Some (p1, w) \<Rightarrow>
      case pick_pos env pwlen [p1] w of None \<Rightarrow> None | Some (p2, w) \<Rightarrow>
      case pick_pos env pwlen [p2, p1] w of None \<Rightarrow> None | Some (p3, w) \<Rightarrow> Some (Inr ([p1, p2, p3], w)))"

text \<open>The characters the user types; without memory for a prompt the result is \<open>None\<close>.\<close>

fun ask_chars :: "'w mm_env \<Rightarrow> nat list \<Rightarrow> 'w \<Rightarrow> (u16 list option \<times> 'w) res option" where
  "ask_chars env [] w = Some (Inr (Some [], w))"
| "ask_chars env (p # ps) w =
     (if \<not> mm_PoolPrint env w then Some (Inr (None, w))
      else bindO (get_password_charater env w) (\<lambda>(c, w).
           bindO (ask_chars env ps w) (\<lambda>(cs, w). Some (Inr (map_option ((#) c) cs, w)))))"

text \<open>The comparison stops at the first difference.\<close>

fun chars_match :: "bytes \<Rightarrow> nat list \<Rightarrow> u16 list \<Rightarrow> bool res" where
  "chars_match v (p # ps) (c # cs) =
     bindR (var_Password v p) (\<lambda>x. if c \<noteq> x then Inr False else chars_match v ps cs)"
| "chars_match v _ _ = Inr True"

fun char_tries :: "'w mm_env \<Rightarrow> bytes \<Rightarrow> nat \<Rightarrow> nat \<Rightarrow> 'w \<Rightarrow> (efi_status \<times> 'w) res option" where
  "char_tries env v pwlen 0 w = Some (Inr (EFI_ACCESS_DENIED, w))"
| "char_tries env v pwlen (Suc k) w =
     bindO (pick_three env pwlen w) (\<lambda>(ps, w).
     bindO (ask_chars env ps w) (\<lambda>(cs, w).
       case cs of
         None \<Rightarrow> Some (Inr (EFI_OUT_OF_RESOURCES, w))
       | Some cs \<Rightarrow>
           bindO (Some (chars_match v ps cs)) (\<lambda>ok.
             if ok then Some (Inr (EFI_SUCCESS, w)) else char_tries env v pwlen k w)))"

text \<open>
  The three prompts differ in the variable of the request, the one that is changed, and in what
  the two states write to it.
\<close>

definition change_state ::
  "'w mm_env \<Rightarrow> string \<Rightarrow> string \<Rightarrow> bytes \<Rightarrow> bytes \<Rightarrow> var_buf \<Rightarrow> 'w \<Rightarrow> (efi_status \<times> 'w) res option"
where
  "change_state env request target on_zero otherwise var w =
     (if snd var \<noteq> sizeof_MokSBvar then Some (Inr (EFI_INVALID_PARAMETER, w))
      else bindO (Some (var_PWLen (fst var))) (\<lambda>pwlen.
           bindO (char_tries env (fst var) pwlen 3 w) (\<lambda>(st, w).
             if EFI_ERROR st then Some (Inr (st, w))
             else bindO (Some (var_state (fst var))) (\<lambda>state.
               case mm_yes_no env w of
                 (yes, w) \<Rightarrow>
                   if \<not> yes then Some (Inr (EFI_ABORTED, delete_var env request w))
                   else (case set_mok env w target (if state = 0 then on_zero else otherwise) of
                     (st, w) \<Rightarrow> Some (Inr (if EFI_ERROR st then st else EFI_SUCCESS, w)))))))"

definition mok_sb_prompt :: "'w mm_env \<Rightarrow> var_buf \<Rightarrow> 'w \<Rightarrow> (efi_status \<times> 'w) res option" where
  "mok_sb_prompt env = change_state env ''MokSB'' ''MokSBState'' [1] []"

definition mok_db_prompt :: "'w mm_env \<Rightarrow> var_buf \<Rightarrow> 'w \<Rightarrow> (efi_status \<times> 'w) res option" where
  "mok_db_prompt env = change_state env ''MokDB'' ''MokDBState'' [1] []"

definition mok_tml_prompt :: "'w mm_env \<Rightarrow> var_buf \<Rightarrow> 'w \<Rightarrow> (efi_status \<times> 'w) res option" where
  "mok_tml_prompt env = change_state env ''MokListTrustedNew'' ''MokListTrusted'' [] [1]"

section \<open>The MOK password\<close>

definition sized_auth :: "bytes \<Rightarrow> bytes \<Rightarrow> nat \<Rightarrow> pw_auth" where
  "sized_auth data v n = (if n = PASSWORD_CRYPT_SIZE then PwCrypt v else PwSha256 data v)"

definition mok_pw_prompt :: "'w mm_env \<Rightarrow> var_buf \<Rightarrow> 'w \<Rightarrow> (efi_status \<times> 'w) res option" where
  "mok_pw_prompt env pw w =
     (case pw of (v, n) \<Rightarrow>
        if n \<noteq> 32 \<and> n \<noteq> PASSWORD_CRYPT_SIZE then Some (Inr (EFI_INVALID_PARAMETER, w))
        else if take n v = replicate n 0 then
          (case mm_yes_no env w of
             (yes, w) \<Rightarrow>
               if \<not> yes then Some (Inr (EFI_ABORTED, w))
               else Some (Inr (EFI_SUCCESS, delete_var env ''MokPW'' (snd (set_mok env w ''MokPWStore'' [])))))
        else bindO (match_password env (sized_auth [] v n) w) (\<lambda>(st, w).
          if EFI_ERROR st then Some (Inr (st, w))
          else case mm_yes_no env w of
            (yes, w) \<Rightarrow>
              if \<not> yes then Some (Inr (EFI_ABORTED, w))
              else case set_mok env w ''MokPWStore'' (take n v) of
                (st, w) \<Rightarrow>
                  if EFI_ERROR st then Some (Inr (st, w))
                  else Some (Inr (EFI_SUCCESS, delete_var env ''MokPW'' w))))"

text \<open>\<open>verify_pw\<close>: whether to go on, and \<open>protected\<close>.\<close>

definition verify_pw :: "'w mm_env \<Rightarrow> 'w \<Rightarrow> (bool \<times> bool \<times> 'w) res option" where
  "verify_pw env w =
     (let r = GetVariable (mm_rt env) w ''MokPWStore'' SHIM_LOCK_GUID True PASSWORD_CRYPT_SIZE in
      if EFI_ERROR (gv_status r) \<or> gv_size r \<noteq> 32 \<and> gv_size r \<noteq> PASSWORD_CRYPT_SIZE then Some (Inr (True, False, w))
      else if (case gv_attr r of Some a \<Rightarrow> a | None \<Rightarrow> 0) AND EFI_VARIABLE_RUNTIME_ACCESS \<noteq> 0 then Some (Inr (True, False, w))
      else bindO (match_password env (sized_auth [] (gv_data r) (gv_size r)) w) (\<lambda>(st, w).
        Some (Inr (if EFI_ERROR st then (False, False, w) else (True, True, w)))))"

text \<open>The size of \<open>MokTimeout\<close> is not looked at.\<close>

definition draw_countdown :: "'w mm_env \<Rightarrow> 'w \<Rightarrow> (int \<times> 'w) res" where
  "draw_countdown env w =
     (case get_variable (mm_rt env) (mm_pool env) w ''MokTimeout'' SHIM_LOCK_GUID of
        (st, d, n) \<Rightarrow>
          bindR (if EFI_ERROR st then Inr (10, w)
                 else bindR (case d of None \<Rightarrow> Inl Fault | Some d \<Rightarrow> get_le d 0 4) (\<lambda>t.
                   Inr (sint (word_of_nat t :: u32), delete_var env ''MokTimeout'' w))) (\<lambda>(t, w).
            Inr (if t < 0 then (t, w) else mm_countdown env w t)))"

section \<open>Enrolling a file\<close>

definition verify_certificate :: "'w man_env \<Rightarrow> bytes \<Rightarrow> bool" where
  "verify_certificate env cert =
     (if length cert < 4 then False
      else if cert ! 0 \<noteq> 0x30 \<or> cert ! 1 \<noteq> 0x82 then False
      else if unat (cert ! 2) * 256 + unat (cert ! 3) \<noteq> length cert - 4 then False
      else fe_X509 env cert)"

text \<open>\<open>enroll_file\<close>: what fails without a status of its own leaves success.\<close>

definition enroll_file :: "'w man_env \<Rightarrow> bytes \<Rightarrow> bool \<Rightarrow> 'w \<Rightarrow> (efi_status \<times> 'w) res option" where
  "enroll_file env data hash w =
     (if hash then
        (if EFI_ERROR (fe_shim_lock env w) then Some (Inr (fe_shim_lock env w, w))
         else if \<not> mm_pool (me env) 76 then Some (Inr (EFI_SUCCESS, w))
         else case fe_hash env w data of
           (st, sha256) \<Rightarrow>
             if EFI_ERROR st then Some (Inr (st, w))
             else mok_enrollment_prompt env
                    (esl_header EFI_CERT_SHA256_GUID 76 0 48 @ SHIM_LOCK_GUID @ sha256, 76) False False w)
      else
        (let n = length data + 44 in
         if \<not> mm_pool (me env) n then Some (Inr (EFI_SUCCESS, w))
         else if \<not> verify_certificate env data then Some (Inr (EFI_SUCCESS, w))
         else mok_enrollment_prompt env
                (esl_header X509_GUID n 0 (16 + length data) @ SHIM_LOCK_GUID @ data, n) False False w))"

definition mok_hash_enroll :: "'w man_env \<Rightarrow> 'w \<Rightarrow> (efi_status \<times> 'w) res option" where
  "mok_hash_enroll env w =
     (case fe_select env w of
        (None, w) \<Rightarrow> Some (Inr (EFI_INVALID_PARAMETER, w))
      | (Some name, w) \<Rightarrow>
          (case fe_read env w name of
             (st, data, w) \<Rightarrow>
               if EFI_ERROR st then Some (Inr (st, w))
               else if data = [] then Some (Inr (EFI_BAD_BUFFER_SIZE, w))
               else enroll_file env data True w))"

definition lower :: "u16 \<Rightarrow> u16" where
  "lower c = (if 65 \<le> c \<and> c \<le> 90 then c + 32 else c)"

definition check_der_suffix :: "wstr \<Rightarrow> bool" where
  "check_der_suffix name =
     (if length name \<le> 4 then False
      else map lower (drop (length name - 4) name) \<in> {wide ''.cer'', wide ''.der'', wide ''.crt''})"

definition mok_key_enroll :: "'w man_env \<Rightarrow> 'w \<Rightarrow> (efi_status \<times> 'w) res option" where
  "mok_key_enroll env w =
     (case fe_select env w of
        (None, w) \<Rightarrow> Some (Inr (EFI_INVALID_PARAMETER, w))
      | (Some name, w) \<Rightarrow>
          if \<not> check_der_suffix name then Some (Inr (EFI_UNSUPPORTED, w))
          else (case fe_read env w name of
             (st, data, w) \<Rightarrow>
               if EFI_ERROR st then Some (Inr (st, w))
               else if data = [] then Some (Inr (EFI_BAD_BUFFER_SIZE, w))
               else enroll_file env data False w))"

section \<open>The menu\<close>

datatype mok_menu_item =
    MOK_BOOT | MOK_RESET_MOK | MOK_RESET_MOKX | MOK_ENROLL_MOK | MOK_ENROLL_MOKX | MOK_DELETE_MOK | MOK_DELETE_MOKX
  | MOK_CHANGE_SB | MOK_SET_PW | MOK_CHANGE_DB | MOK_KEY_ENROLL | MOK_HASH_ENROLL | MOK_CHANGE_TML

record requests =
  rq_New :: "var_buf option"
  rq_Del :: "var_buf option"
  rq_SB :: "var_buf option"
  rq_PW :: "var_buf option"
  rq_DB :: "var_buf option"
  rq_XNew :: "var_buf option"
  rq_XDel :: "var_buf option"
  rq_TML :: "var_buf option"

text \<open>
  The authentication variables are read into one array of \<open>PASSWORD_CRYPT_SIZE\<close> bytes, with the
  size the call before has left.
\<close>

definition read_flag :: "'w mm_env \<Rightarrow> 'w \<Rightarrow> string \<Rightarrow> nat \<Rightarrow> (bool \<times> nat) res" where
  "read_flag env w name auth_size =
     (let r = GetVariable (mm_rt env) w name SHIM_LOCK_GUID True auth_size in
      if PASSWORD_CRYPT_SIZE < length (gv_data r) then Inl Fault
      else Inr (\<not> EFI_ERROR (gv_status r) \<and> (gv_size r = 32 \<or> gv_size r = PASSWORD_CRYPT_SIZE), gv_size r))"

fun read_flags :: "'w mm_env \<Rightarrow> 'w \<Rightarrow> string list \<Rightarrow> nat \<Rightarrow> (bool list \<times> nat) res" where
  "read_flags env w [] auth_size = Inr ([], auth_size)"
| "read_flags env w (name # names) auth_size =
     bindR (read_flag env w name auth_size) (\<lambda>(b, auth_size).
     bindR (read_flags env w names auth_size) (\<lambda>(bs, auth_size). Inr (b # bs, auth_size)))"

definition auth_names :: "string list" where
  "auth_names = [''MokAuth'', ''MokDelAuth'', ''MokXAuth'', ''MokXDelAuth'']"

definition menu_items :: "requests \<Rightarrow> bool list \<Rightarrow> mok_menu_item list" where
  "menu_items rq auths =
     [MOK_BOOT]
     @ (if rq_New rq \<noteq> None then [MOK_ENROLL_MOK] else if auths ! 0 then [MOK_RESET_MOK] else [])
     @ (if rq_Del rq \<noteq> None \<or> auths ! 1 then [MOK_DELETE_MOK] else [])
     @ (if rq_XNew rq \<noteq> None then [MOK_ENROLL_MOKX] else if auths ! 2 then [MOK_RESET_MOKX] else [])
     @ (if rq_XDel rq \<noteq> None \<or> auths ! 3 then [MOK_DELETE_MOKX] else [])
     @ (if rq_SB rq \<noteq> None then [MOK_CHANGE_SB] else [])
     @ (if rq_PW rq \<noteq> None then [MOK_SET_PW] else [])
     @ (if rq_DB rq \<noteq> None then [MOK_CHANGE_DB] else [])
     @ (if rq_TML rq \<noteq> None then [MOK_CHANGE_TML] else [])
     @ [MOK_KEY_ENROLL, MOK_HASH_ENROLL]"

text \<open>
  One choice: the status, \<open>None\<close> for "internal error", and the requests, of which one that was
  dealt with is forgotten.
\<close>

definition with_request ::
  "var_buf option \<Rightarrow> (var_buf \<Rightarrow> (efi_status \<times> 'w) res option) \<Rightarrow> requests \<Rightarrow> requests \<Rightarrow> 'w
   \<Rightarrow> (efi_status option \<times> requests \<times> 'w) res option"
where
  "with_request v act rq rq' w =
     (case v of
        None \<Rightarrow> Some (Inr (None, rq, w))
      | Some b \<Rightarrow> bindO (act b) (\<lambda>(st, w). Some (Inr (Some st, if EFI_ERROR st then rq else rq', w))))"

definition perform :: "'w man_env \<Rightarrow> mok_menu_item \<Rightarrow> requests \<Rightarrow> 'w \<Rightarrow> (efi_status option \<times> requests \<times> 'w) res option" where
  "perform env item rq w =
     (let plain = (\<lambda>m. bindO m (\<lambda>(st, w). Some (Inr (Some st, rq, w)))) in
      case item of
        MOK_BOOT \<Rightarrow> Some (Inr (Some EFI_SUCCESS, rq, w))
      | MOK_RESET_MOK \<Rightarrow> plain (mok_reset_prompt env False w)
      | MOK_RESET_MOKX \<Rightarrow> plain (mok_reset_prompt env True w)
      | MOK_ENROLL_MOK \<Rightarrow> with_request (rq_New rq) (\<lambda>b. mok_enrollment_prompt env b True False w) rq (rq\<lparr>rq_New := None\<rparr>) w
      | MOK_ENROLL_MOKX \<Rightarrow> with_request (rq_XNew rq) (\<lambda>b. mok_enrollment_prompt env b True True w) rq (rq\<lparr>rq_XNew := None\<rparr>) w
      | MOK_DELETE_MOK \<Rightarrow> with_request (rq_Del rq) (\<lambda>b. mok_deletion_prompt env b False w) rq (rq\<lparr>rq_Del := None\<rparr>) w
      | MOK_DELETE_MOKX \<Rightarrow> with_request (rq_XDel rq) (\<lambda>b. mok_deletion_prompt env b True w) rq (rq\<lparr>rq_XDel := None\<rparr>) w
      | MOK_CHANGE_SB \<Rightarrow> with_request (rq_SB rq) (\<lambda>b. mok_sb_prompt (me env) b w) rq (rq\<lparr>rq_SB := None\<rparr>) w
      | MOK_SET_PW \<Rightarrow> with_request (rq_PW rq) (\<lambda>b. mok_pw_prompt (me env) b w) rq (rq\<lparr>rq_PW := None\<rparr>) w
      | MOK_CHANGE_DB \<Rightarrow> with_request (rq_DB rq) (\<lambda>b. mok_db_prompt (me env) b w) rq (rq\<lparr>rq_DB := None\<rparr>) w
      | MOK_CHANGE_TML \<Rightarrow> with_request (rq_TML rq) (\<lambda>b. mok_tml_prompt (me env) b w) rq (rq\<lparr>rq_TML := None\<rparr>) w
      | MOK_KEY_ENROLL \<Rightarrow> plain (mok_key_enroll env w)
      | MOK_HASH_ENROLL \<Rightarrow> plain (mok_hash_enroll env w))"

text \<open>How the menu is left: the machine is reset, or the program returns.\<close>

datatype menu_end = Reset | Return efi_status

definition leave :: "bool \<Rightarrow> efi_status \<Rightarrow> menu_end" where
  "leave changed st = (if changed then Reset else Return st)"

partial_function (option) menu_loop ::
  "'w man_env \<Rightarrow> requests \<Rightarrow> nat \<Rightarrow> bool \<Rightarrow> 'w \<Rightarrow> (menu_end \<times> 'w) res option"
where
  "menu_loop env rq auth_size changed w =
     (case read_flags (me env) w auth_names auth_size of
        Inl e \<Rightarrow> Some (Inl e)
      | Inr (auths, auth_size) \<Rightarrow>
          (let items = menu_items rq auths in
           if \<not> mm_pool (me env) (8 * (length items + 1)) \<or> \<not> mm_pool (me env) (4 * length items)
           then Some (Inr (Return EFI_OUT_OF_RESOURCES, w))
           else case mm_select (me env) w (length items) 0 of
             (choice, w) \<Rightarrow>
               if choice < 0 then Some (Inr (leave changed EFI_SUCCESS, w))
               else if length items \<le> nat choice then Some (Inl Fault)
               else if items ! nat choice = MOK_BOOT then Some (Inr (leave changed EFI_SUCCESS, w))
               else case perform env (items ! nat choice) rq w of
                 None \<Rightarrow> None
               | Some (Inl e) \<Rightarrow> Some (Inl e)
               | Some (Inr (None, rq, w)) \<Rightarrow> Some (Inr (leave changed EFI_ABORTED, w))
               | Some (Inr (Some st, rq, w)) \<Rightarrow> menu_loop env rq auth_size (changed \<or> \<not> EFI_ERROR st) w))"

declare menu_loop.simps [code]

definition enter_mok_menu :: "'w man_env \<Rightarrow> requests \<Rightarrow> 'w \<Rightarrow> (menu_end \<times> 'w) res option" where
  "enter_mok_menu env rq w =
     bindO (verify_pw (me env) w) (\<lambda>(go, protected, w).
       if \<not> go then Some (Inr (Return EFI_ACCESS_DENIED, w))
       else bindO (if protected then Some (Inr (1, w)) else Some (draw_countdown (me env) w)) (\<lambda>(t, w).
         if t = 0 then Some (Inr (leave False EFI_SUCCESS, w))
         else menu_loop env rq PASSWORD_CRYPT_SIZE False w))"

section \<open>The requests\<close>

text \<open>A request is taken out of its variable, which is deleted.\<close>

definition take_request :: "'w mm_env \<Rightarrow> string \<Rightarrow> 'w \<Rightarrow> var_buf option \<times> 'w" where
  "take_request env name w =
     (case get_variable (mm_rt env) (mm_pool env) w name SHIM_LOCK_GUID of
        (st, d, n) \<Rightarrow>
          if EFI_ERROR st then (None, w)
          else (map_option (\<lambda>d. (d, n)) d, delete_var env name w))"

definition take_requests :: "'w mm_env \<Rightarrow> 'w \<Rightarrow> requests \<times> 'w" where
  "take_requests env w =
     (case take_request env ''MokNew'' w of (mok_new, w) \<Rightarrow>
      case take_request env ''MokDel'' w of (mok_del, w) \<Rightarrow>
      case take_request env ''MokSB'' w of (mok_sb, w) \<Rightarrow>
      case take_request env ''MokPW'' w of (mok_pw, w) \<Rightarrow>
      case take_request env ''MokDB'' w of (mok_dbv, w) \<Rightarrow>
      case take_request env ''MokListTrustedNew'' w of (mok_tml, w) \<Rightarrow>
      case take_request env ''MokXNew'' w of (mok_xnew, w) \<Rightarrow>
      case take_request env ''MokXDel'' w of (mok_xdel, w) \<Rightarrow>
        (\<lparr>rq_New = mok_new, rq_Del = mok_del, rq_SB = mok_sb, rq_PW = mok_pw, rq_DB = mok_dbv,
           rq_XNew = mok_xnew, rq_XDel = mok_xdel, rq_TML = mok_tml\<rparr>, w))"

definition manager_check_mok_request :: "'w man_env \<Rightarrow> 'w \<Rightarrow> (menu_end \<times> 'w) res option" where
  "manager_check_mok_request env w =
     (case take_requests (me env) w of (rq, w) \<Rightarrow>
        bindO (enter_mok_menu env rq w) (\<lambda>(e, w).
          case e of
            Reset \<Rightarrow> Some (Inr (Reset, w))
          | Return st \<Rightarrow> Some (Inr (Return EFI_SUCCESS, fold (delete_var (me env)) auth_names w))))"

end
