(* ===== verification/MokUser.thy ===== *)
theory MokUser
  imports MokMenu MockVars
begin

text \<open>
  What changing the MOK variables takes. The firmware and the console are the locale
  \<open>mok_user\<close>: the variable services, a console that leaves the variables alone, and the library's
  function to delete a variable. Its instance is the mock store with a user whose keystrokes and
  answers are lists.
\<close>

section \<open>The contract\<close>

text \<open>No line the user types at this point is the password that the variable asks for.\<close>

definition refuses ::
  "'w mm_env \<Rightarrow> ('w \<Rightarrow> string \<times> guid \<Rightarrow> (u32 \<times> bytes) option) \<Rightarrow> ('w \<Rightarrow> bool) \<Rightarrow> string \<Rightarrow> 'w \<Rightarrow> bool"
where
  "refuses env vars good name w \<longleftrightarrow>
     (\<forall>w1 w2 data a. good w1 \<longrightarrow> vars w1 = vars w \<longrightarrow> read_auth env name data w1 = Inr a \<longrightarrow>
        match_password env a w1 \<noteq> Some (Inr (EFI_SUCCESS, w2)))"

text \<open>
  What writing a list of keys back comes to: an empty list is deleted, or not, and both are reported
  as a success; else a failure changes nothing and a success leaves the new list.
\<close>

definition list_written ::
  "('w \<Rightarrow> string \<times> guid \<Rightarrow> (u32 \<times> bytes) option) \<Rightarrow> string \<Rightarrow> bytes \<Rightarrow> 'w \<Rightarrow> efi_status \<Rightarrow> 'w \<Rightarrow> bool"
where
  "list_written vars name new w st w' \<longleftrightarrow>
     (\<forall>k. k \<noteq> (name, SHIM_LOCK_GUID) \<longrightarrow> vars w' k = vars w k)
     \<and> (if new = [] then st = EFI_SUCCESS \<and> (vars w' = vars w \<or> vars w' (name, SHIM_LOCK_GUID) = None)
        else if EFI_ERROR st then vars w' = vars w
        else \<exists>a. vars w' (name, SHIM_LOCK_GUID) = Some (a, new))"

locale mok_user = variable_services "mm_rt env" vars good
  for env :: "'w mm_env" and vars :: "'w \<Rightarrow> string \<times> guid \<Rightarrow> (u32 \<times> bytes) option" and good :: "'w \<Rightarrow> bool" +
  assumes keystroke_keeps: "good w \<Longrightarrow> mm_keystroke env w = (st, key, w') \<Longrightarrow> good w' \<and> vars w' = vars w"
    and yes_no_keeps: "good w \<Longrightarrow> mm_yes_no env w = (yes, w') \<Longrightarrow> good w' \<and> vars w' = vars w"
    and select_keeps: "good w \<Longrightarrow> mm_select env w num start = (rc, w') \<Longrightarrow> good w' \<and> vars w' = vars w"
    and random_keeps: "good w \<Longrightarrow> mm_random env w = (r, w') \<Longrightarrow> good w' \<and> vars w' = vars w"
    and lib_delete: "good w \<Longrightarrow> mm_LibDeleteVariable env w n g = (st, w') \<Longrightarrow>
      good w' \<and> (\<forall>k. k \<noteq> (n, g) \<longrightarrow> vars w' k = vars w k) \<and> (vars w' (n, g) = None \<or> EFI_ERROR st \<and> vars w' = vars w)"
begin

text \<open>The same variables.\<close>

definition same :: "'w \<Rightarrow> 'w \<Rightarrow> bool" where
  "same w w' \<longleftrightarrow> good w' \<and> vars w' = vars w"

lemma same_refl: "good w \<Longrightarrow> same w w"
  and same_trans: "same w w1 \<Longrightarrow> same w1 w2 \<Longrightarrow> same w w2"
  and same_good: "same w w' \<Longrightarrow> good w'"
  by (simp_all add: same_def)

lemma get_line_loop_same:
  assumes "get_line_loop e n line w = Some r"
  shows "e = env \<longrightarrow> good w \<longrightarrow> same w (snd (snd r))"
  by (rule get_line_loop.raw_induct [OF _ assms])
    (auto simp add: same_def split: prod.splits if_splits option.splits dest: keystroke_keeps)

lemma get_line_same: "get_line env n w = Some (st, line, w') \<Longrightarrow> good w \<Longrightarrow> same w w'"
  using get_line_loop_same [of env n "[]" w] by (fastforce simp add: get_line_def)

lemma get_password_same: "get_password env n w = Some (Inr (pw, w')) \<Longrightarrow> good w \<Longrightarrow> same w w'"
  using get_line_same by (fastforce simp add: get_password_def same_refl split: if_splits option.splits)

lemma password_tries_same: "password_tries env a want k w = Some (Inr (st, w')) \<Longrightarrow> good w \<Longrightarrow> same w w'"
proof (induction k arbitrary: w)
  case (Suc k)
  then obtain pw w1 ok where s: "get_password env PASSWORD_MAX w = Some (Inr (pw, w1))"
      "(if ok then Some (Inr (EFI_SUCCESS, w1)) else password_tries env a want k w1) = Some (Inr (st, w'))"
    by (auto simp add: bindO_eq)
  have "same w w1" by (rule get_password_same [OF s(1) Suc.prems(2)])
  then show ?case using Suc.IH [of w1] s(2) same_good same_trans by (auto split: if_splits)
qed (simp add: same_refl)

lemma match_password_same: "match_password env a w = Some (Inr (st, w')) \<Longrightarrow> good w \<Longrightarrow> same w w'"
  by (auto simp add: match_password_def bindO_eq same_refl split: option.splits dest: password_tries_same)

section \<open>Deleting keys exactly\<close>

lemma get_mok:
  assumes "good w" and "vars w (n, SHIM_LOCK_GUID) = Some (a, d)" and "\<forall>k. mm_pool env k"
  shows "get_variable_attr (mm_rt env) (mm_pool env) w True n SHIM_LOCK_GUID = (EFI_SUCCESS, Some (d @ [0, 0, 0]), length d, Some a)"
  using get_attr_present [OF assms(1,2)] assms(3) by simp

lemma read_auth_present:
  assumes "good w" and "vars w (n, SHIM_LOCK_GUID) = Some (a, d)" and "length d = 32 \<or> length d = PASSWORD_CRYPT_SIZE"
  shows "read_auth env n data w = Inr (sized_auth data d (length d))"
  using get_fits [OF assms(1,2), of PASSWORD_CRYPT_SIZE] assms(3)
  by (auto simp add: read_auth_def sized_auth_def PASSWORD_CRYPT_SIZE_def)

lemma MOK_ATTRS_plain: "plain_attrs MOK_ATTRS" "\<not> append_write MOK_ATTRS" "UEFI_VAR_NV_BS = MOK_ATTRS"
  by (simp_all add: plain_attrs_def append_write_def MOK_ATTRS_def var_attr_defs)

lemma written_back:
  assumes "good w" and "all_node_bytes data nodes = Inr new" and "\<forall>k. mm_pool env k"
  shows "\<exists>st w'. write_back_mok_list (mm_rt env) (mm_pool env) w data nodes mokx = Inr (st, w')
     \<and> good w' \<and> list_written vars (mok_db mokx) new w st w'"
proof -
  let ?name = "mok_db mokx"
  obtain st w' where set: "SetVariable (mm_rt env) w ?name SHIM_LOCK_GUID MOK_ATTRS new = (st, w')" by fastforce
  note f = set_good [OF assms(1) set] set_frame [OF assms(1) set] set_error [OF assms(1) set]
  show ?thesis
  proof (cases "new = []")
    case True
    have "\<not> EFI_ERROR st \<Longrightarrow> vars w' (?name, SHIM_LOCK_GUID) = None"
      using set_delete [OF assms(1), of ?name] set True MOK_ATTRS_plain by simp
    then show ?thesis
      using True assms(2) set f by (cases "EFI_ERROR st") (simp_all add: write_back_mok_list_def list_written_def Let_def MOK_ATTRS_plain(3))
  next
    case False
    have "\<not> EFI_ERROR st \<Longrightarrow> \<exists>a. vars w' (?name, SHIM_LOCK_GUID) = Some (a, new)"
      using set_write [OF assms(1) set] MOK_ATTRS_plain False by blast
    then show ?thesis
      using False assms(2,3) set f by (auto simp add: write_back_mok_list_def list_written_def Let_def MOK_ATTRS_plain(3))
  qed
qed

lemma keys_deleted_exactly:
  assumes "good w" and auth: "vars w (mok_del_auth mokx, SHIM_LOCK_GUID) = Some (a, auth)"
      "length auth = 32 \<or> length auth = PASSWORD_CRYPT_SIZE"
    and pw: "match_password env (sized_auth (concat (map esl_bytes dels)) auth (length auth)) w = Some (Inr (EFI_SUCCESS, w1))"
    and db: "vars w (mok_db mokx, SHIM_LOCK_GUID) = Some (la, concat (map esl_bytes ls))"
      "la AND EFI_VARIABLE_RUNTIME_ACCESS = 0"
    and ok: "key_lists_ok ls" "key_lists_ok dels" "dels \<noteq> []" and pool: "\<forall>k. mm_pool env k"
  shows "\<exists>st w'. delete_keys env (concat (map esl_bytes dels) @ pad, length (concat (map esl_bytes dels))) mokx w = Some (Inr (st, w'))
     \<and> good w' \<and> list_written vars (mok_db mokx) (purge_all dels ls) w st w'"
proof -
  let ?db = "concat (map esl_bytes ls)" and ?del = "concat (map esl_bytes dels)"
  have w1: "good w1" "vars w1 = vars w" using match_password_same [OF pw assms(1)] by (simp_all add: same_def)
  note g = get_mok [OF w1(1), unfolded w1(2), OF db(1) pool]
  have ne: "?db \<noteq> []" using nonempty [OF assms(1) db(1)] .
  then have "ls \<noteq> []" by auto
  obtain ns where ns: "count_keys (?db @ [0, 0, 0]) (length ?db) = Inr (length ls)"
      "build_mok_list (mm_pool env) (length ls) (?db @ [0, 0, 0]) (length ?db) = Inr (Some ns)"
      "layout (?db @ [0, 0, 0]) 0 ns (map (\<lambda>l. Some (entry_of l)) ls)"
    using lists_read [OF ok(1) refl refl pool] by blast
  obtain ds where ds: "count_keys (?del @ pad) (length ?del) = Inr (length dels)"
      "build_mok_list (mm_pool env) (length dels) (?del @ pad) (length ?del) = Inr (Some ds)"
      "layout (?del @ pad) 0 ds (map (\<lambda>l. Some (entry_of l)) dels)"
    using lists_read [OF ok(2) refl refl pool] by blast
  obtain data' ns' where d: "delete_loop (?del @ pad) ds (?db @ [0, 0, 0]) ns = Inr (data', ns')"
      "all_node_bytes data' ns' = Inr (purge_all dels ls)"
    using keys_deleted [OF ns(3) ds(3)] ok(1) by (auto simp add: key_lists_ok_def)
  have r: "delete_keys env (?del @ pad, length ?del) mokx w
      = Some (write_back_mok_list (mm_rt env) (mm_pool env) w1 data' ns' mokx)"
    using read_auth_present [OF assms(1) auth] pw g ns(1,2) ds(1,2) d(1) db(2) ne \<open>ls \<noteq> []\<close> ok(3)
    by (auto simp add: delete_keys_def Let_def)
  obtain st w' where w: "write_back_mok_list (mm_rt env) (mm_pool env) w1 data' ns' mokx = Inr (st, w')" "good w'"
      "list_written vars (mok_db mokx) (purge_all dels ls) w1 st w'"
    using written_back [OF w1(1) d(2) pool] by blast
  have "list_written vars (mok_db mokx) (purge_all dels ls) w st w'"
    using w(3) unfolding list_written_def w1(2) .
  then show ?thesis using r w(1,2) by simp
qed

section \<open>Without the password\<close>

lemma match_password_status: "match_password env a w = Some (Inr (st, w')) \<Longrightarrow> \<not> EFI_ERROR st \<Longrightarrow> st = EFI_SUCCESS"
proof -
  have "password_tries env a want k w = Some (Inr (st, w')) \<Longrightarrow> st = EFI_SUCCESS \<or> EFI_ERROR st" for want k w
    by (induction k arbitrary: w) (auto simp add: bindO_eq split: if_splits)
  then show "match_password env a w = Some (Inr (st, w')) \<Longrightarrow> \<not> EFI_ERROR st \<Longrightarrow> st = EFI_SUCCESS"
    by (auto simp add: match_password_def bindO_eq split: option.splits)
qed

lemma refused_same: "refuses env vars good name w \<Longrightarrow> same w w1 \<Longrightarrow> refuses env vars good name w1"
  by (simp add: refuses_def same_def)

lemma store_keys_refused:
  assumes "store_keys env new True mokx w = Some (Inr (st, w'))" and "refuses env vars good (mok_auth mokx) w" and "good w"
  shows "same w w'"
proof (cases "read_auth env (mok_auth mokx) new w")
  case (Inl st')
  then show ?thesis using assms(1,3) by (simp add: store_keys_def Let_def same_refl)
next
  case (Inr a)
  then obtain st1 w1 where m: "match_password env a w = Some (Inr (st1, w1))"
    using assms(1) by (auto simp add: store_keys_def Let_def bindO_eq)
  have "EFI_ERROR st1"
    using match_password_status [OF m] m assms(2,3) Inr by (auto simp add: refuses_def)
  then have "w' = w1" using assms(1) Inr m by (simp add: store_keys_def Let_def)
  then show ?thesis using match_password_same [OF m assms(3)] by simp
qed

lemma delete_keys_refused:
  assumes "delete_keys env del mokx w = Some (Inr (st, w'))" and "refuses env vars good (mok_del_auth mokx) w" and "good w"
  shows "same w w'"
proof (cases "read_auth env (mok_del_auth mokx) (take (snd del) (fst del)) w")
  case (Inl st')
  then show ?thesis using assms(1,3) by (simp add: delete_keys_def Let_def same_refl)
next
  case (Inr a)
  then obtain st1 w1 where m: "match_password env a w = Some (Inr (st1, w1))"
    using assms(1) by (auto simp add: delete_keys_def Let_def bindO_eq)
  have "EFI_ERROR st1"
    using match_password_status [OF m] m assms(2,3) Inr by (auto simp add: refuses_def)
  then have "w' = w1" using assms(1) Inr m by (simp add: delete_keys_def Let_def)
  then show ?thesis using match_password_same [OF m assms(3)] by simp
qed

lemma delete_var_frame:
  assumes "good w"
  shows "good (delete_var env n w)" and "k \<noteq> (n, SHIM_LOCK_GUID) \<Longrightarrow> vars (delete_var env n w) k = vars w k"
proof -
  obtain st w' where d: "mm_LibDeleteVariable env w n SHIM_LOCK_GUID = (st, w')" by fastforce
  show "good (delete_var env n w)" "k \<noteq> (n, SHIM_LOCK_GUID) \<Longrightarrow> vars (delete_var env n w) k = vars w k"
    using lib_delete [OF assms d] d by (cases k; auto simp add: delete_var_def)+
qed

text \<open>An authentication variable of a wrong size lets the reset through without a password.\<close>

lemma reset_unauthenticated:
  assumes "good w" and "me man = env" and "mm_yes_no env w = (True, w1)"
    and "vars w (mok_auth mokx, SHIM_LOCK_GUID) = Some (a, d)" and "length d < PASSWORD_CRYPT_SIZE" and "length d \<noteq> 32"
  shows "mok_reset_prompt man mokx w = Some (Inr (EFI_SUCCESS,
     fold (delete_var env) (if mokx then [''MokXNew'', ''MokXAuth'', ''MokListX''] else [''MokNew'', ''MokAuth'', ''MokList'']) w1))"
proof -
  have w1: "good w1" "vars w1 = vars w" using yes_no_keeps [OF assms(1,3)] by auto
  have "read_auth env (mok_auth mokx) [] w1 = Inl EFI_SUCCESS"
    using get_fits [OF w1(1), of "mok_auth mokx" SHIM_LOCK_GUID a d PASSWORD_CRYPT_SIZE] assms(4-6) w1(2)
    by (simp add: read_auth_def)
  then show ?thesis using assms(2,3) by (simp add: mok_reset_prompt_def store_keys_def Let_def)
qed

section \<open>The menu\<close>

text \<open>
  The size that a too large authentication variable reports is used for the next one, which then
  need not fit into the array.
\<close>

lemma flags_overflow:
  assumes "good w" and "vars w (''MokAuth'', SHIM_LOCK_GUID) = Some (a, d)" and "PASSWORD_CRYPT_SIZE < length d"
    and "vars w (''MokDelAuth'', SHIM_LOCK_GUID) = Some (a', d')" and "PASSWORD_CRYPT_SIZE < length d'" and "length d' \<le> length d"
  shows "read_flags env w auth_names PASSWORD_CRYPT_SIZE = Inl Fault"
proof -
  have small: "gv_size (GetVariable (mm_rt env) w ''MokAuth'' SHIM_LOCK_GUID True PASSWORD_CRYPT_SIZE) = length d"
    using get_small [OF assms(1-3)] by simp
  have "read_flag env w ''MokDelAuth'' (length d) = Inl Fault"
    using get_fits [OF assms(1,4,6)] assms(5) by (simp add: read_flag_def)
  then show ?thesis using small by (auto simp add: auth_names_def read_flag_def Let_def)
qed

lemma menu_overflow:
  assumes "good w" and "me man = env" and "vars w (''MokAuth'', SHIM_LOCK_GUID) = Some (a, d)" and "PASSWORD_CRYPT_SIZE < length d"
    and "vars w (''MokDelAuth'', SHIM_LOCK_GUID) = Some (a', d')" and "PASSWORD_CRYPT_SIZE < length d'" and "length d' \<le> length d"
  shows "menu_loop man rq PASSWORD_CRYPT_SIZE changed w = Some (Inl Fault)"
  using flags_overflow [OF assms(1,3-7)] assms(2) by (subst menu_loop.simps) simp

section \<open>Three characters\<close>

lemma pick_pos_same:
  assumes "pick_pos e n used w = Some r"
  shows "e = env \<longrightarrow> good w \<longrightarrow> same w (snd r)"
  by (rule pick_pos.raw_induct [OF _ assms])
    (auto simp add: same_def split: prod.splits if_splits dest: random_keeps)

lemma pick_pos_new:
  assumes "pick_pos e n used w = Some r"
  shows "fst r \<notin> set used \<and> (0 < n \<longrightarrow> fst r < n)"
  by (rule pick_pos.raw_induct [OF _ assms]) (auto split: prod.splits if_splits)

lemma pick_three_facts:
  assumes "pick_three env n w = Some (Inr (ps, w'))" and "good w"
  shows "same w w' \<and> length ps = 3 \<and> distinct ps \<and> (\<forall>p \<in> set ps. p < n)"
proof -
  obtain p1 w1 p2 w2 p3 where p: "pick_pos env n [] w = Some (p1, w1)" "pick_pos env n [p1] w1 = Some (p2, w2)"
      "pick_pos env n [p2, p1] w2 = Some (p3, w')" "ps = [p1, p2, p3]" "0 < n"
    using assms(1) by (auto simp add: pick_three_def split: if_splits option.splits)
  have "same w w1" using pick_pos_same [OF p(1)] assms(2) by simp
  moreover have "same w1 w2" using pick_pos_same [OF p(2)] same_good [OF calculation] by simp
  moreover have "same w2 w'" using pick_pos_same [OF p(3)] same_good [OF calculation(2)] by simp
  ultimately have "same w w'" by (blast intro: same_trans)
  then show ?thesis
    using pick_pos_new [OF p(1)] pick_pos_new [OF p(2)] pick_pos_new [OF p(3)] p(4,5) by simp
qed

lemma ask_chars_facts:
  "ask_chars env ps w = Some (Inr (cs, w')) \<Longrightarrow> good w \<Longrightarrow> same w w' \<and> (\<forall>l. cs = Some l \<longrightarrow> length l = length ps)"
proof (induction ps arbitrary: w cs)
  case (Cons p ps)
  show ?case
  proof (cases "mm_PoolPrint env w")
    case True
    then obtain c w1 cs' where s: "get_password_charater env w = Some (Inr (c, w1))"
        "ask_chars env ps w1 = Some (Inr (cs', w'))" "cs = map_option ((#) c) cs'"
      using Cons.prems(1) by (auto simp add: bindO_eq)
    have "same w w1"
      using s(1) get_line_same [of 1 w] Cons.prems(2) by (auto simp add: get_password_charater_def split: option.splits)
    then show ?thesis using Cons.IH [OF s(2)] s(3) same_good same_trans by auto
  qed (use Cons.prems in \<open>auto simp add: same_refl\<close>)
qed (auto simp add: same_refl)

lemma char_tries_facts:
  "char_tries env v n k w = Some (Inr (st, w')) \<Longrightarrow> good w \<Longrightarrow>
   same w w' \<and> (\<not> EFI_ERROR st \<longrightarrow>
     (\<exists>ps cs w1. length ps = 3 \<and> distinct ps \<and> (\<forall>p \<in> set ps. p < n) \<and> same w w1
       \<and> ask_chars env ps w1 = Some (Inr (Some cs, w')) \<and> chars_match v ps cs = Inr True))"
proof (induction k arbitrary: w)
  case (Suc k)
  then obtain ps w1 cs w2 where s: "pick_three env n w = Some (Inr (ps, w1))" "ask_chars env ps w1 = Some (Inr (cs, w2))"
    by (auto simp add: bindO_eq)
  note f = pick_three_facts [OF s(1) Suc.prems(2)]
  have a: "same w1 w2" using ask_chars_facts [OF s(2)] f same_good by blast
  have w2: "same w w2" using f a same_trans by blast
  show ?case
  proof (cases cs)
    case None
    then show ?thesis using Suc.prems(1) s w2 by (auto simp add: bindO_eq)
  next
    case (Some l)
    then obtain ok where ok: "chars_match v ps l = Inr ok"
        "(if ok then Some (Inr (EFI_SUCCESS, w2)) else char_tries env v n k w2) = Some (Inr (st, w'))"
      using Suc.prems(1) s by (auto simp add: bindO_eq)
    show ?thesis
    proof (cases ok)
      case True
      then have "w' = w2" using ok(2) by simp
      have "length ps = 3 \<and> distinct ps \<and> (\<forall>p \<in> set ps. p < n) \<and> same w w1
          \<and> ask_chars env ps w1 = Some (Inr (Some l, w')) \<and> chars_match v ps l = Inr True"
        using ok(1) s(2) Some f True \<open>w' = w2\<close> by simp
      then show ?thesis using w2 \<open>w' = w2\<close> by metis
    next
      case False
      then have "char_tries env v n k w2 = Some (Inr (st, w'))" using ok(2) by simp
      from Suc.IH [OF this same_good [OF w2]] show ?thesis using w2 same_trans by blast
    qed
  qed
qed (simp add: same_refl)

text \<open>A switch is changed only after three characters at different places were typed right.\<close>

lemma switch_changed:
  assumes "change_state env request target on_zero otherwise v w = Some (Inr (st, w'))" and "good w" and "target \<noteq> request"
    and "vars w' (target, SHIM_LOCK_GUID) \<noteq> vars w (target, SHIM_LOCK_GUID)"
  shows "\<exists>pwlen ps cs w1 w2. var_PWLen (fst v) = Inr pwlen \<and> length ps = 3 \<and> distinct ps \<and> (\<forall>p \<in> set ps. p < pwlen)
     \<and> ask_chars env ps w1 = Some (Inr (Some cs, w2)) \<and> vars w1 = vars w \<and> chars_match (fst v) ps cs = Inr True
     \<and> fst (mm_yes_no env w2)"
proof -
  obtain pwlen st1 w2 where s: "var_PWLen (fst v) = Inr pwlen" "char_tries env (fst v) pwlen 3 w = Some (Inr (st1, w2))"
    using assms(1,2,4) by (auto simp add: change_state_def bindO_eq split: if_splits)
  note f = char_tries_facts [OF s(2) assms(2)]
  have "\<not> EFI_ERROR st1" using assms(1,4) s f by (auto simp add: change_state_def same_def split: if_splits)
  moreover have "fst (mm_yes_no env w2)"
  proof (rule ccontr)
    assume no: "\<not> fst (mm_yes_no env w2)"
    obtain w3 where w3: "mm_yes_no env w2 = (False, w3)" using no by (cases "mm_yes_no env w2") auto
    have "good w3" "vars w3 = vars w" using yes_no_keeps [OF _ w3] f by (auto simp add: same_def)
    moreover have "w' = delete_var env request w3"
      using assms(1) s w3 calculation \<open>\<not> EFI_ERROR st1\<close> assms(4)
      by (auto simp add: change_state_def bindO_eq split: if_splits)
    ultimately show False using assms(3,4) delete_var_frame(2) [of w3 "(target, SHIM_LOCK_GUID)" request] by simp
  qed
  ultimately show ?thesis using s(1) f by (auto simp add: same_def)
qed


end

section \<open>The keys on the screen\<close>

locale mok_screen = mok_user "me man" vars good
  for man :: "'w man_env" and vars :: "'w \<Rightarrow> string \<times> guid \<Rightarrow> (u32 \<times> bytes) option" and good :: "'w \<Rightarrow> bool" +
  assumes show_keeps: "good w \<Longrightarrow> good (fe_show man w ty d) \<and> vars (fe_show man w ty d) = vars w"
begin

lemma select_loop_same:
  assumes "select_loop e num item k w = Some r"
  shows "e = me man \<longrightarrow> (\<forall>k w w'. good w \<longrightarrow> item k w = Some w' \<longrightarrow> same w w') \<longrightarrow> good w \<longrightarrow> same w r"
proof (rule select_loop.raw_induct [OF _ assms], intro impI)
  fix loop and e :: "'w mm_env" and num item k w r
  assume ih: "\<And>e num item k w r. loop e num item k w = Some r \<Longrightarrow>
      e = me man \<longrightarrow> (\<forall>k w w'. good w \<longrightarrow> item k w = Some w' \<longrightarrow> same w w') \<longrightarrow> good w \<longrightarrow> same w r"
    and body: "(if num \<le> k then Some w
      else case mm_select e w (num + 1) k of
        (rc, w) \<Rightarrow> if rc < 0 \<or> num \<le> nat rc then Some w
          else case item (nat rc) w of None \<Rightarrow> None | Some w \<Rightarrow> loop e num item (nat rc) w) = Some r"
    and e: "e = me man" and item: "\<forall>k w w'. good w \<longrightarrow> item k w = Some w' \<longrightarrow> same w w'" and w: "good w"
  obtain rc w1 where s: "mm_select e w (num + 1) k = (rc, w1)" by fastforce
  have w1: "same w w1" using select_keeps [OF w] s e by (auto simp add: same_def)
  show "same w r"
  proof (cases "num \<le> k \<or> rc < 0 \<or> num \<le> nat rc")
    case True
    then show ?thesis using body s w1 same_refl [OF w] by (auto split: if_splits)
  next
    case False
    then obtain w2 where w2: "item (nat rc) w1 = Some w2" "loop e num item (nat rc) w2 = Some r"
      using body s by (auto split: option.splits)
    then have "same w w2" using item same_good [OF w1] w1 same_trans by blast
    then show ?thesis using ih [OF w2(2)] e item same_good same_trans by blast
  qed
qed

lemma show_mok_info_same:
  assumes "show_mok_info man data n w = Some (Inr w')" and "good w"
  shows "same w w'"
proof -
  have show_item: "same w (fe_show man w ty d)" if "good w" for w ty d using show_keeps [OF that] by (simp add: same_def)
  have "same w w1" if "show_efi_hash man ty d w = Some w1" for ty d w1
    using that select_loop_same [of "me man"] assms(2) show_item same_refl
    by (fastforce simp add: show_efi_hash_def Let_def split: if_splits)
  then show ?thesis
    using assms show_item same_refl by (auto simp add: show_mok_info_def split: option.splits if_splits sum.splits)
qed

lemma list_keys_loop_same:
  assumes "list_keys_loop m data keys k w = Some r"
  shows "m = man \<longrightarrow> good w \<longrightarrow> (\<forall>w'. r = Inr w' \<longrightarrow> same w w')"
proof (rule list_keys_loop.raw_induct [OF _ assms], intro impI allI)
  fix loop and m :: "'w man_env" and data keys k w r w'
  assume ih: "\<And>m data keys k w r. loop m data keys k w = Some r \<Longrightarrow> m = man \<longrightarrow> good w \<longrightarrow> (\<forall>w'. r = Inr w' \<longrightarrow> same w w')"
    and body: "(if length keys \<le> k then Some (Inr w)
      else case mm_select (me m) w (length keys + 1) k of
        (rc, w) \<Rightarrow> if rc < 0 \<or> length keys \<le> nat rc then Some (Inr w)
          else case show_mok_info m data (keys ! nat rc) w of
            None \<Rightarrow> None
          | Some (Inl e) \<Rightarrow> Some (Inl e)
          | Some (Inr w) \<Rightarrow> loop m data keys (nat rc) w) = Some r"
    and m: "m = man" and w: "good w" and r: "r = Inr w'"
  obtain rc w1 where s: "mm_select (me m) w (length keys + 1) k = (rc, w1)" by fastforce
  have w1: "same w w1" using select_keeps [OF w] s m by (auto simp add: same_def)
  show "same w w'"
  proof (cases "length keys \<le> k \<or> rc < 0 \<or> length keys \<le> nat rc")
    case True
    then show ?thesis using body s w1 same_refl [OF w] r by (auto split: if_splits)
  next
    case False
    then obtain w2 where w2: "show_mok_info m data (keys ! nat rc) w1 = Some (Inr w2)" "loop m data keys (nat rc) w2 = Some r"
      using body s r by (auto split: option.splits sum.splits)
    then have "same w w2" using show_mok_info_same m same_good [OF w1] w1 same_trans by blast
    then show ?thesis using ih [OF w2(2)] m r same_good same_trans by blast
  qed
qed

lemma list_keys_same: "list_keys man kl w = Some (Inr (st, w')) \<Longrightarrow> good w \<Longrightarrow> same w w'"
  using list_keys_loop_same [of man]
  by (auto simp add: list_keys_def bindO_eq same_refl split: prod.splits if_splits option.splits)

lemma enrollment_refused:
  assumes "mok_enrollment_prompt man new True mokx w = Some (Inr (st, w'))" and "refuses (me man) vars good (mok_auth mokx) w"
    and "good w" and "n \<in> {''MokList'', ''MokListX''}"
  shows "vars w' (n, SHIM_LOCK_GUID) = vars w (n, SHIM_LOCK_GUID)"
proof -
  obtain st1 w1 where l: "list_keys man new w = Some (Inr (st1, w1))"
    using assms(1) by (auto simp add: mok_enrollment_prompt_def bindO_eq)
  have w1: "same w w1" by (rule list_keys_same [OF l assms(3)])
  obtain yes w2 where y: "mm_yes_no (me man) w1 = (yes, w2)" by fastforce
  have w2: "same w w2" using yes_no_keeps [OF same_good [OF w1] y] w1 by (simp add: same_def)
  show ?thesis
  proof (cases "EFI_ERROR st1 \<or> \<not> yes")
    case True
    then show ?thesis using assms(1) l y w1 w2 by (auto simp add: mok_enrollment_prompt_def same_def split: if_splits)
  next
    case False
    then obtain st3 w3 where s: "store_keys (me man) (take (snd new) (fst new)) True mokx w2 = Some (Inr (st3, w3))"
        "w' = w3 \<or> w' = delete_var (me man) (if mokx then ''MokXAuth'' else ''MokAuth'')
            (delete_var (me man) (if mokx then ''MokXNew'' else ''MokNew'') w3)"
      using assms(1) l y by (auto simp add: mok_enrollment_prompt_def bindO_eq split: if_splits)
    have w3: "same w w3"
      using store_keys_refused [OF s(1) refused_same [OF assms(2) w2] same_good [OF w2]] w2 same_trans by blast
    then show ?thesis
      using s(2) delete_var_frame [OF same_good [OF w3]] delete_var_frame assms(4)
      by (auto simp add: same_def split: if_splits)
  qed
qed

lemma deletion_refused:
  assumes "mok_deletion_prompt man del mokx w = Some (Inr (st, w'))" and "refuses (me man) vars good (mok_del_auth mokx) w"
    and "good w" and "n \<in> {''MokList'', ''MokListX''}"
  shows "vars w' (n, SHIM_LOCK_GUID) = vars w (n, SHIM_LOCK_GUID)"
proof -
  obtain st1 w1 where l: "list_keys man del w = Some (Inr (st1, w1))"
    using assms(1) by (auto simp add: mok_deletion_prompt_def bindO_eq)
  have w1: "same w w1" by (rule list_keys_same [OF l assms(3)])
  obtain yes w2 where y: "mm_yes_no (me man) w1 = (yes, w2)" by fastforce
  have w2: "same w w2" using yes_no_keeps [OF same_good [OF w1] y] w1 by (simp add: same_def)
  show ?thesis
  proof (cases "EFI_ERROR st1 \<or> \<not> yes")
    case True
    then show ?thesis using assms(1) l y w1 w2 by (auto simp add: mok_deletion_prompt_def same_def split: if_splits)
  next
    case False
    then obtain st3 w3 where s: "delete_keys (me man) del mokx w2 = Some (Inr (st3, w3))"
        "w' = w3 \<or> w' = delete_var (me man) (if mokx then ''MokXDelAuth'' else ''MokDelAuth'')
            (delete_var (me man) (if mokx then ''MokXDel'' else ''MokDel'') w3)"
      using assms(1) l y by (auto simp add: mok_deletion_prompt_def bindO_eq split: if_splits)
    have w3: "same w w3"
      using delete_keys_refused [OF s(1) refused_same [OF assms(2) w2] same_good [OF w2]] w2 same_trans by blast
    then show ?thesis
      using s(2) delete_var_frame [OF same_good [OF w3]] delete_var_frame assms(4)
      by (auto simp add: same_def split: if_splits)
  qed
qed

lemma lists_refused:
  assumes "perform man item rq w = Some (Inr (st, rq', w'))" and "good w"
    and "item \<in> {MOK_ENROLL_MOK, MOK_ENROLL_MOKX, MOK_DELETE_MOK, MOK_DELETE_MOKX}"
    and "\<forall>mokx. refuses (me man) vars good (mok_auth mokx) w \<and> refuses (me man) vars good (mok_del_auth mokx) w"
    and "n \<in> {''MokList'', ''MokListX''}"
  shows "vars w' (n, SHIM_LOCK_GUID) = vars w (n, SHIM_LOCK_GUID)"
  using assms enrollment_refused [of _ _ w _ w'] deletion_refused [of _ _ w _ w']
  by (auto simp add: perform_def with_request_def bindO_eq Let_def split: option.splits)

end

section \<open>The mock store and a user\<close>

text \<open>What the user will press and answer; without more of it a keystroke fails and an answer is no.\<close>

record user_state =
  us_store :: mock_state
  us_keys :: wstr
  us_answers :: "bool list"
  us_choices :: "int list"
  us_random :: bytes

definition user_vars :: "user_state \<Rightarrow> string \<times> guid \<Rightarrow> (u32 \<times> bytes) option" where
  "user_vars w = mock_vars (us_store w)"

definition user_good :: "user_state \<Rightarrow> bool" where "user_good w \<longleftrightarrow> mock_good (us_store w)"

definition user_rt :: "user_state efi_rt" where
  "user_rt = \<lparr>GetVariable = (\<lambda>w. GetVariable host_rt (us_store w)),
     SetVariable = (\<lambda>w n g a d. case SetVariable host_rt (us_store w) n g a d of (st, s) \<Rightarrow> (st, w\<lparr>us_store := s\<rparr>)),
     QueryVariableInfo = (\<lambda>w. QueryVariableInfo host_rt (us_store w)), GetTime = (\<lambda>w. GetTime host_rt (us_store w))\<rparr>"

definition user_env :: "(bytes \<Rightarrow> bytes option) \<Rightarrow> (bytes \<Rightarrow> bytes) \<Rightarrow> user_state mm_env" where
  "user_env digest crypt = \<lparr>mm_rt = user_rt, mm_pool = (\<lambda>n. True), mm_PoolPrint = (\<lambda>w. True),
     mm_LibDeleteVariable = (\<lambda>w n g. case SetVariable user_rt w n g 0 [] of
        (st, w') \<Rightarrow> if EFI_ERROR st then (st, w) else (st, w')),
     mm_keystroke = (\<lambda>w. case us_keys w of [] \<Rightarrow> (EFI_DEVICE_ERROR, 0, w) | k # ks \<Rightarrow> (EFI_SUCCESS, k, w\<lparr>us_keys := ks\<rparr>)),
     mm_yes_no = (\<lambda>w. case us_answers w of [] \<Rightarrow> (False, w) | a # as \<Rightarrow> (a, w\<lparr>us_answers := as\<rparr>)),
     mm_select = (\<lambda>w n k. case us_choices w of [] \<Rightarrow> (-1, w) | c # cs \<Rightarrow> (c, w\<lparr>us_choices := cs\<rparr>)),
     mm_countdown = (\<lambda>w t. (1, w)),
     mm_random = (\<lambda>w. case us_random w of [] \<Rightarrow> (0, w) | r # rs \<Rightarrow> (r, w\<lparr>us_random := rs\<rparr>)),
     mm_Sha256 = digest, mm_md5 = crypt, mm_sha256 = crypt, mm_sha512 = crypt, mm_crypt_blowfish_rn = (\<lambda>k s. None)\<rparr>"

definition user_man :: "(bytes \<Rightarrow> bytes option) \<Rightarrow> (bytes \<Rightarrow> bytes) \<Rightarrow> user_state man_env" where
  "user_man digest crypt = \<lparr>me = user_env digest crypt, fe_X509 = (\<lambda>c. True), fe_shim_lock = (\<lambda>w. EFI_NOT_FOUND),
     fe_hash = (\<lambda>w d. (EFI_UNSUPPORTED, [])), fe_select = (\<lambda>w. (None, w)), fe_read = (\<lambda>w n. (EFI_NOT_FOUND, [], w)),
     fe_show = (\<lambda>w ty d. w)\<rparr>"

lemma user_env_simps [simp]:
  "mm_rt (user_env digest crypt) = user_rt" "me (user_man digest crypt) = user_env digest crypt"
  "mm_pool (user_env digest crypt) n"
  by (simp_all add: user_env_def user_man_def)

lemma user_set:
  "SetVariable user_rt w n g a d = (st, w') \<longleftrightarrow>
     (\<exists>s. SetVariable host_rt (us_store w) n g a d = (st, s) \<and> w' = w\<lparr>us_store := s\<rparr>)"
  by (auto simp add: user_rt_def split: prod.splits)

lemma user_services: "variable_services user_rt user_vars user_good"
proof (unfold_locales, goal_cases)
  case (1 w n g hb sz)
  then show ?case using mock.get_missing by (simp add: user_rt_def user_good_def user_vars_def)
next
  case (2 w n g a d sz hb)
  then show ?case using mock.get_small by (simp add: user_rt_def user_good_def user_vars_def)
next
  case (3 w n g a d sz)
  then show ?case using mock.get_fits by (simp add: user_rt_def user_good_def user_vars_def)
next
  case (4 w k a d)
  then show ?case using mock.nonempty by (simp add: user_good_def user_vars_def)
next
  case (5 w n g a d st w')
  then show ?case using mock.set_good by (auto simp add: user_set user_good_def)
next
  case (6 w n g a d st w' k)
  then show ?case by (auto simp add: user_set user_good_def user_vars_def intro: mock.set_frame)
next
  case (7 w n g a d st w')
  then show ?case using mock.set_error by (auto simp add: user_set user_good_def user_vars_def)
next
  case (8 w n g a d st w')
  then show ?case using mock.set_write by (fastforce simp add: user_set user_good_def user_vars_def)
next
  case (9 w n g a st w')
  then show ?case using mock.set_delete by (fastforce simp add: user_set user_good_def user_vars_def)
next
  case (10 w n g a d st w')
  then show ?case using mock.set_append by (fastforce simp add: user_set user_good_def user_vars_def)
qed

interpretation user: mok_screen "user_man digest crypt" user_vars user_good
proof (rule mok_screen.intro, goal_cases)
  case 1
  have "variable_services (mm_rt (user_env digest crypt)) user_vars user_good" using user_services by simp
  then show ?case unfolding user_env_simps(2)
  proof (rule mok_user.intro, unfold_locales, goal_cases)
    case (5 w n g st w')
    obtain st' w1 where s: "SetVariable user_rt w n g 0 [] = (st', w1)" by fastforce
    have "user_vars w1 (n, g) = None" if "\<not> EFI_ERROR st'"
      using variable_services.set_delete [OF user_services 5(2) s that] by (simp add: plain_attrs_def append_write_def)
    moreover have "user_vars w1 k = user_vars w k" if "k \<noteq> (n, g)" for k
      using variable_services.set_frame [OF user_services 5(2) s that] .
    ultimately show ?case
      using 5 s variable_services.set_good [OF user_services 5(2) s]
      by (cases "EFI_ERROR st'") (simp_all add: user_env_def)
  qed (auto simp add: user_env_def user_good_def user_vars_def split: list.splits)
next
  case 2
  show ?case by unfold_locales (simp add: user_man_def)
qed

end
