(* ===== verification/MokSafety.thy ===== *)
theory MokSafety
  imports MokUser
begin

text \<open>
  The properties of MokManager.c: which password is accepted, what a deletion leaves, what cannot
  be changed without a password, and where the code lets more through than it should.
\<close>

section \<open>Passwords\<close>

text \<open>\<open>n\<close> lines in a row that are not the password.\<close>

inductive wrong_tries :: "'w mm_env \<Rightarrow> pw_auth \<Rightarrow> bytes \<Rightarrow> nat \<Rightarrow> 'w \<Rightarrow> 'w \<Rightarrow> bool"
  for env :: "'w mm_env" and a :: pw_auth and want :: bytes
where
  wrong_none: "wrong_tries env a want 0 w w"
| wrong_line: "get_password env PASSWORD_MAX w = Some (Inr (pw, w1)) \<Longrightarrow> password_matches env a want pw = Inr False \<Longrightarrow>
    wrong_tries env a want n w1 w2 \<Longrightarrow> wrong_tries env a want (Suc n) w w2"

inductive_simps wrong_zero: "wrong_tries env a want 0 w w'"
inductive_simps wrong_suc: "wrong_tries env a want (Suc n) w w'"

definition right_try :: "'w mm_env \<Rightarrow> pw_auth \<Rightarrow> bytes \<Rightarrow> 'w \<Rightarrow> 'w \<Rightarrow> bool" where
  "right_try env a want w w' \<longleftrightarrow>
     (\<exists>pw. get_password env PASSWORD_MAX w = Some (Inr (pw, w')) \<and> password_matches env a want pw = Inr True)"

lemma password_tries_verdict:
  "password_tries env a want k w = Some (Inr (st, w')) \<longleftrightarrow>
     st = EFI_SUCCESS \<and> (\<exists>n<k. \<exists>w1. wrong_tries env a want n w w1 \<and> right_try env a want w1 w')
   \<or> st = EFI_ACCESS_DENIED \<and> wrong_tries env a want k w w'"
proof (induction k arbitrary: w)
  case 0
  then show ?case by (auto simp add: wrong_zero)
next
  case (Suc k)
  have split: "(\<exists>n<Suc k. P n) \<longleftrightarrow> P 0 \<or> (\<exists>n<k. P (Suc n))" for P by (auto simp add: less_Suc_eq_0_disj)
  show ?case
    by (auto simp add: bindO_eq Suc.IH split wrong_zero wrong_suc right_try_def) (metis+)?
qed


section \<open>Deleting keys\<close>

text \<open>
  C7. Deleting keys with the right password: the list, whose lists have one certificate or different
  hashes, is replaced by exactly the keys that are not to be deleted. When none is left the list is
  deleted, and the result is a success even if the firmware refuses that.
\<close>

theorem delete_keys_exact:
  assumes "mok_user env vars good" and "good w" and "\<forall>k. mm_pool env k"
    and "vars w (mok_del_auth mokx, SHIM_LOCK_GUID) = Some (a, auth)" and "length auth = 32 \<or> length auth = PASSWORD_CRYPT_SIZE"
    and "match_password env (sized_auth (concat (map esl_bytes dels)) auth (length auth)) w = Some (Inr (EFI_SUCCESS, w1))"
    and "vars w (mok_db mokx, SHIM_LOCK_GUID) = Some (la, concat (map esl_bytes ls))"
    and "la AND EFI_VARIABLE_RUNTIME_ACCESS = 0" and "key_lists_ok ls" and "key_lists_ok dels" and "dels \<noteq> []"
  shows "\<exists>st w'. delete_keys env (concat (map esl_bytes dels) @ pad, length (concat (map esl_bytes dels))) mokx w = Some (Inr (st, w'))
     \<and> good w' \<and> list_written vars (mok_db mokx) (purge_all dels ls) w st w'"
  by (rule mok_user.keys_deleted_exactly [OF assms(1,2,4-11,3)])

text \<open>
  A hash that is twice in a list is deleted once only, and a hash behind it is deleted in its
  place: of \<open>a, h, h, c, d\<close> the deletion of \<open>h\<close> leaves \<open>a, h, d\<close>.
\<close>

theorem second_hash_spared:
  assumes "\<forall>x \<in> set [a, h, h', c, d]. length (fst x) = 16 \<and> length (snd x) = 32"
    and "snd h = hash" and "snd h' = hash" and "snd a \<noteq> hash" and "snd c \<noteq> hash" and "snd d \<noteq> hash"
    and "mn_Type n = EFI_CERT_SHA256_GUID" and "mn_Mok n = Some 0" and "mn_Size n = 5 * 48"
  shows "\<exists>data'. delete_hash_in_list EFI_CERT_SHA256_GUID hash (concat (map sig_bytes [a, h, h', c, d])) [n]
      = Inr (data', [n\<lparr>mn_Size := 3 * 48\<rparr>])
     \<and> get_bytes data' 0 (3 * 48) = Inr (concat (map sig_bytes [a, h', d]))"
  using assms by (rule repeated_hash_spared)

section \<open>What needs a password\<close>


text \<open>
  C21. The secure boot switch, like the two others, is changed only after three characters at three
  different places of the password were typed right, and the user has said yes.
\<close>

theorem switch_needs_characters:
  assumes "mok_user env vars good" and "good w" and "mok_sb_prompt env v w = Some (Inr (st, w'))"
    and "vars w' (''MokSBState'', SHIM_LOCK_GUID) \<noteq> vars w (''MokSBState'', SHIM_LOCK_GUID)"
  shows "\<exists>pwlen ps cs w1 w2. var_PWLen (fst v) = Inr pwlen \<and> length ps = 3 \<and> distinct ps \<and> (\<forall>p \<in> set ps. p < pwlen)
     \<and> ask_chars env ps w1 = Some (Inr (Some cs, w2)) \<and> vars w1 = vars w \<and> chars_match (fst v) ps cs = Inr True
     \<and> fst (mm_yes_no env w2)"
proof -
  have "change_state env ''MokSB'' ''MokSBState'' [1] [] v w = Some (Inr (st, w'))"
    using assms(3) by (simp add: mok_sb_prompt_def)
  moreover have "''MokSBState'' \<noteq> ''MokSB''" by simp
  ultimately show ?thesis by (rule mok_user.switch_changed [OF assms(1), OF _ assms(2) _ assms(4)])
qed


text \<open>
  C40. Two authentication variables that are too large, the second not larger than the first: the menu
  has the firmware write the second one past the end of its array.
\<close>

theorem auth_size_overflow:
  assumes "mok_user (me man) vars good" and "good w"
    and "vars w (''MokAuth'', SHIM_LOCK_GUID) = Some (a, d)" and "PASSWORD_CRYPT_SIZE < length d"
    and "vars w (''MokDelAuth'', SHIM_LOCK_GUID) = Some (a', d')" and "PASSWORD_CRYPT_SIZE < length d'" and "length d' \<le> length d"
  shows "menu_loop man rq PASSWORD_CRYPT_SIZE changed w = Some (Inl Fault)"
  by (rule mok_user.menu_overflow [OF assms(1), OF assms(2) refl assms(3-7)])

text \<open>With a password of one or two characters the third place is never found.\<close>

lemma pick_pos_none:
  assumes "\<forall>r. r mod n \<in> set used"
  shows "pick_pos env n used w = None"
proof (rule ccontr)
  assume "pick_pos env n used w \<noteq> None"
  then obtain r where r: "pick_pos env n used w = Some r" by auto
  have "\<not> (\<forall>r. r mod n \<in> set used)"
    by (rule pick_pos.raw_induct [OF _ r]) (auto split: prod.splits if_splits)
  then show False using assms by blast
qed

lemma pick_pos_fact: "0 < n \<Longrightarrow> pick_pos env n used w = Some (p, w') \<Longrightarrow> p < n \<and> p \<notin> set used"
proof -
  assume n: "0 < n" and p: "pick_pos env n used w = Some (p, w')"
  show "p < n \<and> p \<notin> set used"
    using pick_pos.raw_induct [of "\<lambda>e k u w r. fst r \<notin> set u \<and> (0 < k \<longrightarrow> fst r < k)", OF _ p] n
    by (fastforce split: prod.splits if_splits)
qed

lemma short_password_hangs:
  assumes "snd v = sizeof_MokSBvar" and "var_PWLen (fst v) = Inr n" and "n = 1 \<or> n = 2"
  shows "change_state env request target on_zero otherwise v w = None"
proof -
  have "pick_three env n w = None"
  proof (cases "pick_pos env n [] w")
    case (Some x)
    obtain p1 w1 where x: "x = (p1, w1)" by fastforce
    show ?thesis
    proof (cases "pick_pos env n [p1] w1")
      case None
      then show ?thesis using Some x assms(3) by (auto simp add: pick_three_def)
    next
      case (Some y)
      obtain p2 w2 where y: "y = (p2, w2)" by fastforce
      have "p1 < n" "p2 < n" "p2 \<noteq> p1"
        using pick_pos_fact [of n env "[]" w p1 w1] pick_pos_fact [of n env "[p1]" w1 p2 w2] Some \<open>pick_pos env n [] w = Some x\<close> x y assms(3)
        by auto
      then have "\<forall>r. r mod n \<in> set [p2, p1]" using assms(3) by (auto simp add: less_2_cases_iff)
      then have "pick_pos env n [p2, p1] w2 = None" by (rule pick_pos_none)
      then show ?thesis
        using Some \<open>pick_pos env n [] w = Some x\<close> x y assms(3) by (auto simp add: pick_three_def)
    qed
  qed (use assms(3) in \<open>auto simp add: pick_three_def\<close>)
  then show ?thesis using assms by (simp add: change_state_def eval_nat_numeral)
qed

section \<open>Examples\<close>

text \<open>Every line has the hash \<open>h\<close>; the variables are those of the list.\<close>

abbreviation demo_env :: "bytes \<Rightarrow> user_state mm_env" where
  "demo_env h \<equiv> user_env (\<lambda>d. Some h) (\<lambda>d. h)"

definition demo_user :: "(string \<times> bytes) list \<Rightarrow> wstr \<Rightarrow> bool list \<Rightarrow> bytes \<Rightarrow> user_state" where
  "demo_user vs keys answers rand = \<lparr>us_store = empty_store\<lparr>mock_variables :=
       map (\<lambda>(n, d). \<lparr>mv_name = n, mv_guid = SHIM_LOCK_GUID, mv_attrs = MOK_ATTRS, mv_data = d\<rparr>) vs\<rparr>,
     us_keys = keys, us_answers = answers, us_choices = [], us_random = rand\<rparr>"

lemma demo_vars: "user_vars (demo_user vs keys answers rand) (n, SHIM_LOCK_GUID) = map_option (\<lambda>d. (MOK_ATTRS, d)) (map_of vs n)"
  by (induction vs) (auto simp add: user_vars_def demo_user_def mock_vars_def mv_key_def)

lemma demo_good: "distinct (map fst vs) \<Longrightarrow> \<forall>x \<in> set vs. snd x \<noteq> [] \<Longrightarrow> user_good (demo_user vs keys answers rand)"
  by (induction vs) (auto simp add: user_good_def demo_user_def mock_good_def empty_store_def mv_key_def image_iff)

lemma demo_screen: "mok_screen (user_man digest crypt) user_vars user_good"
  by (rule user.mok_screen_axioms)

lemma demo_mok_user: "mok_user (user_env digest crypt) user_vars user_good"
  using user.mok_user_axioms [of digest crypt] by simp

lemma demo_line:
  assumes "us_keys w = c # 13 # ks" and "c \<notin> {0, 8, 9, 10, 13}" and "0 < n"
  shows "get_line (user_env digest crypt) n w = Some (EFI_SUCCESS, [c], w\<lparr>us_keys := ks\<rparr>)"
proof -
  let ?w = "w\<lparr>us_keys := 13 # ks\<rparr>"
  have "get_line_loop (user_env digest crypt) n [c] ?w = Some (EFI_SUCCESS, [c], w\<lparr>us_keys := ks\<rparr>)"
    by (subst get_line_loop.simps) (simp add: user_env_def line_key_def CHAR_CARRIAGE_RETURN_def CHAR_BACKSPACE_def)
  then show ?thesis
    unfolding get_line_def using assms
    by (subst get_line_loop.simps)
      (simp add: user_env_def line_key_def CHAR_CARRIAGE_RETURN_def CHAR_BACKSPACE_def CHAR_TAB_def CHAR_LINEFEED_def)
qed

lemma demo_password:
  assumes "us_keys w = [65, 13]" and "length h = 32"
  shows "match_password (demo_env h) (PwSha256 data h) w = Some (Inr (EFI_SUCCESS, w\<lparr>us_keys := []\<rparr>))"
proof -
  have "get_password (demo_env h) PASSWORD_MAX w = Some (Inr ([65], w\<lparr>us_keys := []\<rparr>))"
    using demo_line [OF assms(1), of 256] by (simp add: get_password_def PASSWORD_MAX_def user_env_def)
  then show ?thesis
    using assms(2)
    by (simp add: match_password_def auth_hash_def get_bytes_def numeral_3_eq_3 password_matches_def password_hash_def
        compute_pw_hash_def PASSWORD_MIN_def PASSWORD_MAX_def user_env_def)
qed


definition demo_hash :: "u8 \<Rightarrow> guid \<times> bytes" where "demo_hash b = (SHIM_LOCK_GUID, replicate 32 b)"

definition demo_lists :: "esl list" where
  "demo_lists = [\<lparr>esl_type = X509_GUID, esl_hdr = [], esl_size = 18, esl_sigs = [(replicate 16 0, [1, 2])]\<rparr>,
     \<lparr>esl_type = EFI_CERT_SHA256_GUID, esl_hdr = [], esl_size = 48, esl_sigs = [demo_hash 3, demo_hash 4]\<rparr>]"

definition demo_dels :: "esl list" where
  "demo_dels = [\<lparr>esl_type = EFI_CERT_SHA256_GUID, esl_hdr = [], esl_size = 48, esl_sigs = [demo_hash 4]\<rparr>]"

lemma demo_lists_ok: "key_lists_ok demo_lists" "key_lists_ok demo_dels"
  by (simp_all add: key_lists_ok_def demo_lists_def demo_dels_def key_list_ok_def esl_wf_def esl_len_def sizeof_ESL_def demo_hash_def
      is_sha2_hash_def sha_size_def X509_GUID_def EFI_CERT_SHA1_GUID_def EFI_CERT_SHA224_GUID_def EFI_CERT_SHA256_GUID_def
      mk_guid_def le_bytes_numeral)

lemma demo_purge:
  "purge_all demo_dels demo_lists = entry_bytes (MokCert [1, 2]) @ entry_bytes (MokHashes EFI_CERT_SHA256_GUID [demo_hash 3])"
  by (simp add: purge_all_def demo_dels_def demo_lists_def entry_of_def map_filter_simps demo_hash_def
      X509_GUID_def EFI_CERT_SHA256_GUID_def mk_guid_def le_bytes_numeral)

theorem delete_keys_exact_witness:
  "\<exists>st w'. delete_keys (demo_env (replicate 32 7))
       (concat (map esl_bytes demo_dels) @ [0, 0, 0], length (concat (map esl_bytes demo_dels))) False
       (demo_user [(''MokDelAuth'', replicate 32 7), (''MokList'', concat (map esl_bytes demo_lists))] [65, 13] [] [])
       = Some (Inr (st, w'))
     \<and> user_good w'
     \<and> list_written user_vars ''MokList'' (entry_bytes (MokCert [1, 2]) @ entry_bytes (MokHashes EFI_CERT_SHA256_GUID [demo_hash 3]))
         (demo_user [(''MokDelAuth'', replicate 32 7), (''MokList'', concat (map esl_bytes demo_lists))] [65, 13] [] []) st w'"
proof -
  let ?w = "demo_user [(''MokDelAuth'', replicate 32 7), (''MokList'', concat (map esl_bytes demo_lists))] [65, 13] [] []"
  have ne: "concat (map esl_bytes demo_lists) \<noteq> []"
    by (simp add: demo_lists_def esl_bytes_def esl_header_def le_bytes_numeral)
  have "match_password (demo_env (replicate 32 7)) (sized_auth data (replicate 32 7) 32) ?w
      = Some (Inr (EFI_SUCCESS, ?w\<lparr>us_keys := []\<rparr>))" for data
    using demo_password [of ?w "replicate 32 7"] by (simp add: sized_auth_def PASSWORD_CRYPT_SIZE_def demo_user_def)
  then show ?thesis
    using delete_keys_exact [OF demo_mok_user [of "\<lambda>d. Some (replicate 32 7)" "\<lambda>d. replicate 32 7"], where w = ?w and mokx = False and a = MOK_ATTRS and auth = "replicate 32 7"
        and dels = demo_dels and la = MOK_ATTRS and ls = demo_lists and pad = "[0, 0, 0]"] demo_lists_ok demo_purge demo_good [of "[(''MokDelAuth'', replicate 32 7), (''MokList'', concat (map esl_bytes demo_lists))]"] ne
    by (simp add: demo_vars mok_db_def mok_del_auth_def MOK_ATTRS_def var_attr_defs demo_dels_def)
qed

theorem second_hash_spared_witness:
  "\<exists>data'. delete_hash_in_list EFI_CERT_SHA256_GUID (replicate 32 2)
       (concat (map sig_bytes [demo_hash 1, demo_hash 2, demo_hash 2, demo_hash 3, demo_hash 4]))
       [\<lparr>mn_Size = 5 * 48, mn_Mok = Some 0, mn_Type = EFI_CERT_SHA256_GUID\<rparr>]
     = Inr (data', [\<lparr>mn_Size = 3 * 48, mn_Mok = Some 0, mn_Type = EFI_CERT_SHA256_GUID\<rparr>])
     \<and> get_bytes data' 0 (3 * 48) = Inr (concat (map sig_bytes [demo_hash 1, demo_hash 2, demo_hash 4]))"
proof -
  have "replicate 32 (1 :: u8) \<noteq> replicate 32 2" "replicate 32 (3 :: u8) \<noteq> replicate 32 2" "replicate 32 (4 :: u8) \<noteq> replicate 32 2"
    by (simp_all add: numeral_eq_Suc)
  then show ?thesis
    using second_hash_spared [of "demo_hash 1" "demo_hash 2" "demo_hash 2" "demo_hash 3" "demo_hash 4" "replicate 32 2"
        "\<lparr>mn_Size = 5 * 48, mn_Mok = Some 0, mn_Type = EFI_CERT_SHA256_GUID\<rparr>"]
    by (simp add: demo_hash_def)
qed


theorem auth_size_overflow_witness:
  "menu_loop (user_man Some id)
     \<lparr>rq_New = None, rq_Del = None, rq_SB = None, rq_PW = None, rq_DB = None, rq_XNew = None, rq_XDel = None, rq_TML = None\<rparr>
     PASSWORD_CRYPT_SIZE False
     (demo_user [(''MokAuth'', replicate 200 1), (''MokDelAuth'', replicate 180 2)] [] [] []) = Some (Inl Fault)"
proof -
  have m: "mok_user (me (user_man Some id)) user_vars user_good" using demo_mok_user by simp
  show ?thesis
    by (rule auth_size_overflow [OF m, where a = MOK_ATTRS and d = "replicate 200 1" and a' = MOK_ATTRS and d' = "replicate 180 2"])
      (simp_all add: demo_good demo_vars PASSWORD_CRYPT_SIZE_def)
qed

text \<open>A password of three letters, of which the user types all.\<close>

definition demo_switch :: bytes where
  "demo_switch = le_bytes 4 0 @ le_bytes 4 3 @ [97, 0, 98, 0, 99, 0] @ replicate 29 0"

lemma demo_char:
  "us_keys w = c # 13 # ks \<Longrightarrow> c \<notin> {0, 8, 9, 10, 13} \<Longrightarrow>
   get_password_charater (user_env digest crypt) w = Some (Inr (c, w\<lparr>us_keys := ks\<rparr>))"
  using demo_line [of w c ks 1] by (simp add: get_password_charater_def)

lemma demo_pick:
  "us_random w = r # rs \<Longrightarrow> unat r mod n \<notin> set used \<Longrightarrow>
   pick_pos (user_env digest crypt) n used w = Some (unat r mod n, w\<lparr>us_random := rs\<rparr>)"
  by (subst pick_pos.simps) (simp add: user_env_def)

definition demo_switched :: user_state where
  "demo_switched = demo_user [(''MokSBState'', [1])] [] [] []"

lemma demo_switch_set:
  "mok_sb_prompt (user_env Some id) (demo_switch, 40) (demo_user [] [97, 13, 98, 13, 99, 13] [True] [0, 1, 2])
   = Some (Inr (EFI_SUCCESS, demo_switched))"
proof -
  let ?w = "demo_user [] [97, 13, 98, 13, 99, 13] [True] [0, 1, 2]"
  let ?w1 = "demo_user [] [97, 13, 98, 13, 99, 13] [True] []"
  let ?w2 = "demo_user [] [] [True] []"
  have pick: "pick_three (user_env Some id) 3 ?w = Some (Inr ([0, 1, 2], ?w1))"
    by (simp add: pick_three_def demo_pick demo_user_def)
  have ask: "ask_chars (user_env Some id) [0, 1, 2] ?w1 = Some (Inr (Some [97, 98, 99], ?w2))"
    by (simp add: demo_char demo_user_def) (simp add: user_env_def)
  have vals: "var_PWLen demo_switch = Inr 3" "var_state demo_switch = Inr 0" "chars_match demo_switch [0, 1, 2] [97, 98, 99] = Inr True"
    by (simp_all add: demo_switch_def var_PWLen_def var_state_def var_Password_def get_le_def get_bytes_def le_bytes_numeral)
  have tries: "char_tries (user_env Some id) demo_switch 3 3 ?w = Some (Inr (EFI_SUCCESS, ?w2))"
    using pick ask vals(3) char_tries.simps(2) [of "user_env Some id" demo_switch 3 2 ?w] by simp
  have set: "SetVariable (mm_rt (user_env Some id)) (demo_user [] [] [] []) ''MokSBState'' SHIM_LOCK_GUID MOK_ATTRS [1]
      = (EFI_SUCCESS, demo_switched)"
    by (simp add: user_set demo_user_def demo_switched_def host_rt_def mock_rt_def mock_set_variable_def empty_store_def mock_set_new_def
        mock_new_variable_def mock_sv_adjust_usage_data_def find_limits_def mock_insert_def MOK_ATTRS_def var_attr_defs)
  have yes: "mm_yes_no (user_env Some id) ?w2 = (True, demo_user [] [] [] [])"
    by (simp add: user_env_def demo_user_def)
  show ?thesis
    using tries vals(1,2) set yes by (simp add: mok_sb_prompt_def change_state_def sizeof_MokSBvar_def)
qed

theorem switch_needs_characters_witness:
  "\<exists>pwlen ps cs w1 w2. var_PWLen demo_switch = Inr pwlen \<and> length ps = 3 \<and> distinct ps \<and> (\<forall>p \<in> set ps. p < pwlen)
     \<and> ask_chars (user_env Some id) ps w1 = Some (Inr (Some cs, w2))
     \<and> user_vars w1 = user_vars (demo_user [] [97, 13, 98, 13, 99, 13] [True] [0, 1, 2])
     \<and> chars_match demo_switch ps cs = Inr True \<and> fst (mm_yes_no (user_env Some id) w2)"
  using switch_needs_characters [OF demo_mok_user, OF _ demo_switch_set]
  by (simp add: demo_good demo_vars demo_switched_def)

text \<open>A wrong password, typed three times.\<close>

lemma demo_mismatch: "password_matches (demo_env (replicate 32 9)) (PwSha256 data auth) (replicate 32 7) pw = Inr False"
  by (simp add: password_matches_def password_hash_def compute_pw_hash_def user_env_def)

lemma demo_auth_hash: "auth_hash (PwSha256 data (replicate 32 7)) = Inr (Some (replicate 32 7))"
  by (simp add: auth_hash_def get_bytes_def)

lemma demo_never: "match_password (demo_env (replicate 32 9)) (PwSha256 data (replicate 32 7)) w \<noteq> Some (Inr (EFI_SUCCESS, w'))"
  by (simp add: match_password_def demo_auth_hash password_tries_verdict right_try_def demo_mismatch)

lemma demo_refused:
  assumes "us_keys w = [65, 13, 65, 13, 65, 13]"
  shows "match_password (demo_env (replicate 32 9)) (PwSha256 data (replicate 32 7)) w
     = Some (Inr (EFI_ACCESS_DENIED, w\<lparr>us_keys := []\<rparr>))"
proof -
  have pw: "get_password (demo_env (replicate 32 9)) PASSWORD_MAX v = Some (Inr ([65], v\<lparr>us_keys := ks\<rparr>))"
    if "us_keys v = 65 # 13 # ks" for v :: user_state and ks
    using demo_line [OF that, of 256] by (simp add: get_password_def PASSWORD_MAX_def user_env_def)
  show ?thesis
    using assms by (simp add: match_password_def demo_auth_hash numeral_3_eq_3 pw demo_mismatch)
qed

abbreviation demo_deletion :: "wstr \<Rightarrow> bool list \<Rightarrow> user_state" where
  "demo_deletion keys answers \<equiv>
     demo_user [(''MokDelAuth'', replicate 32 7), (''MokList'', concat (map esl_bytes demo_lists))] keys answers []"

definition demo_request :: requests where
  "demo_request = \<lparr>rq_New = None,
     rq_Del = Some (concat (map esl_bytes demo_dels) @ [0, 0, 0], length (concat (map esl_bytes demo_dels))),
     rq_SB = None, rq_PW = None, rq_DB = None, rq_XNew = None, rq_XDel = None, rq_TML = None\<rparr>"

lemma demo_deletion_good: "user_good (demo_deletion keys answers)"
  by (rule demo_good) (simp_all add: demo_lists_def esl_bytes_def esl_header_def le_bytes_numeral)

lemma demo_refuses:
  assumes "n \<in> {''MokAuth'', ''MokXAuth'', ''MokDelAuth'', ''MokXDelAuth''}"
  shows "refuses (demo_env (replicate 32 9)) user_vars user_good n (demo_deletion keys answers)"
  unfolding refuses_def
proof (intro allI impI)
  fix w1 w2 data a
  assume w1: "user_good w1" "user_vars w1 = user_vars (demo_deletion keys answers)"
    and a: "read_auth (demo_env (replicate 32 9)) n data w1 = Inr a"
  have "a = PwSha256 data (replicate 32 7)"
  proof (cases "n = ''MokDelAuth''")
    case True
    then show ?thesis
      using variable_services.get_fits [OF user_services w1(1), of n SHIM_LOCK_GUID MOK_ATTRS "replicate 32 7" PASSWORD_CRYPT_SIZE] w1(2) a
      by (simp add: demo_vars read_auth_def PASSWORD_CRYPT_SIZE_def)
  next
    case False
    then show ?thesis
      using variable_services.get_missing [OF user_services w1(1), of n SHIM_LOCK_GUID True PASSWORD_CRYPT_SIZE] w1(2) a assms
      by (auto simp add: demo_vars read_auth_def Let_def)
  qed
  then show "match_password (demo_env (replicate 32 9)) a w1 \<noteq> Some (Inr (EFI_SUCCESS, w2))" by (simp add: demo_never)
qed

lemma demo_delete_refused:
  "perform (user_man (\<lambda>d. Some (replicate 32 9)) (\<lambda>d. replicate 32 9)) MOK_DELETE_MOK demo_request
     (demo_deletion [65, 13, 65, 13, 65, 13] [True])
   = Some (Inr (Some EFI_ACCESS_DENIED, demo_request, demo_deletion [] []))"
proof -
  let ?man = "user_man (\<lambda>d. Some (replicate 32 9)) (\<lambda>d. replicate 32 9)"
  let ?del = "(concat (map esl_bytes demo_dels) @ [0, 0, 0], length (concat (map esl_bytes demo_dels)))"
  let ?w = "demo_deletion [65, 13, 65, 13, 65, 13] [True]" and ?w1 = "demo_deletion [65, 13, 65, 13, 65, 13] []"
  have len: "length (concat (map esl_bytes demo_dels)) = 76"
    using length_esl_bytes [of "hd demo_dels"] demo_lists_ok(2)
    by (simp add: demo_dels_def key_lists_ok_def key_list_ok_def esl_len_def sizeof_ESL_def EFI_CERT_SHA256_GUID_def X509_GUID_def
        mk_guid_def le_bytes_numeral split: if_splits)
  obtain ns where ns: "count_keys (fst ?del) (snd ?del) = Inr 1" "build_mok_list (\<lambda>n. True) 1 (fst ?del) (snd ?del) = Inr (Some ns)"
      "length ns = 1"
    using lists_read [OF demo_lists_ok(2), of "fst ?del" "[0, 0, 0]" "snd ?del" "\<lambda>n. True"] layout_length
    by (fastforce simp add: demo_dels_def)
  have loop: "list_keys_loop ?man (fst ?del) ns 0 ?w = Some (Inr ?w)"
    by (subst list_keys_loop.simps) (simp add: ns(3) user_env_def demo_user_def)
  have pool: "mm_pool (me ?man) = (\<lambda>n. True)" by (simp add: user_env_def)
  have list: "list_keys ?man ?del ?w = Some (Inr (EFI_SUCCESS, ?w))"
    using ns loop len pool by (simp add: list_keys_def sizeof_ESL_def sizeof_ESD_def)
  have yes: "mm_yes_no (me ?man) ?w = (True, ?w1)" by (simp add: user_env_def demo_user_def)
  have auth: "read_auth (me ?man) ''MokDelAuth'' data ?w1 = Inr (PwSha256 data (replicate 32 7))" for data
    using variable_services.get_fits [OF user_services, of ?w1 "''MokDelAuth''" SHIM_LOCK_GUID MOK_ATTRS "replicate 32 7" PASSWORD_CRYPT_SIZE]
      demo_deletion_good
    by (simp add: demo_vars read_auth_def PASSWORD_CRYPT_SIZE_def)
  have "delete_keys (me ?man) ?del False ?w1 = Some (Inr (EFI_ACCESS_DENIED, demo_deletion [] []))"
    using auth demo_refused [of ?w1] by (simp add: delete_keys_def mok_del_auth_def demo_user_def)
  then show ?thesis
    using list yes by (simp add: perform_def with_request_def demo_request_def mok_deletion_prompt_def)
qed


end
