(* ===== verification/HttpBoot.thy ===== *)
theory HttpBoot
  imports CStr SigDb Ucs2
begin

text \<open>
  httpboot.c: finding the address of shim in the device path it was started from, the address of
  the next file, and fetching it over the firmware's HTTP protocol. A C string is the list of its
  bytes with the NUL; a device path is a buffer of bytes, as the firmware has it. Sending and
  receiving wait for an event in a loop that polls the protocol, which may not return.
\<close>

section \<open>Environment and state\<close>

datatype http_method = HttpMethodGet | HttpMethodPost

text \<open>A request as it is given to the protocol, and an answer: the body is what is in the buffer.\<close>

record http_request =
  hr_Method :: http_method
  hr_Url :: wstr
  hr_Headers :: "(bytes \<times> bytes) list"
  hr_Body :: "bytes option"

record http_message =
  hm_StatusCode :: nat
  hm_Headers :: "(bytes \<times> bytes) list"
  hm_Body :: bytes

text \<open>
  The firmware, on the state \<open>'w\<close> and handles \<open>'n\<close> of network cards. \<open>he_done\<close> is the token
  of the call under way once its event was signalled: its status and its message.
\<close>

record ('w, 'n) http_env =
  he_pool :: "nat \<Rightarrow> bool"
  he_PoolPrint :: "'w \<Rightarrow> bool"
  he_AsciiSPrint_d :: "nat \<Rightarrow> bytes"
  he_boot_path :: "'w \<Rightarrow> bytes option"
  he_handles :: "'w \<Rightarrow> efi_status \<times> 'n list"
  he_nic_path :: "'w \<Rightarrow> 'n \<Rightarrow> bytes option"
  he_ip4cfg2 :: "'w \<Rightarrow> 'n \<Rightarrow> efi_status"
  he_SetAddress4 :: "'w \<Rightarrow> 'n \<Rightarrow> bytes \<Rightarrow> efi_status \<times> 'w"
  he_SetGateway4 :: "'w \<Rightarrow> 'n \<Rightarrow> bytes \<Rightarrow> efi_status \<times> 'w"
  he_ip6cfg :: "'w \<Rightarrow> 'n \<Rightarrow> efi_status"
  he_SetAddress6 :: "'w \<Rightarrow> 'n \<Rightarrow> bytes \<Rightarrow> efi_status \<times> 'w"
  he_SetGateway6 :: "'w \<Rightarrow> 'n \<Rightarrow> bytes \<Rightarrow> efi_status \<times> 'w"
  he_OpenProtocol :: "'w \<Rightarrow> 'n \<Rightarrow> efi_status"
  he_CreateChild :: "'w \<Rightarrow> 'n \<Rightarrow> efi_status \<times> 'w"
  he_DestroyChild :: "'w \<Rightarrow> 'n \<Rightarrow> efi_status \<times> 'w"
  he_HandleProtocol :: "'w \<Rightarrow> efi_status"
  he_Configure :: "'w \<Rightarrow> bool \<Rightarrow> efi_status \<times> 'w"
  he_CreateEvent :: "'w \<Rightarrow> efi_status \<times> 'w"
  he_CloseEvent :: "'w \<Rightarrow> 'w"
  he_Request :: "'w \<Rightarrow> http_request \<Rightarrow> efi_status \<times> 'w"
  he_Response :: "'w \<Rightarrow> efi_status \<times> 'w"
  he_Poll :: "'w \<Rightarrow> 'w"
  he_done :: "'w \<Rightarrow> (efi_status \<times> http_message) option"

text \<open>
  The static variables of httpboot.c, and \<open>http_request_method\<close> and \<open>tx_body_json\<close> of
  http-request.c.
\<close>

record http_globals =
  hg_mac_addr :: bytes
  hg_ip4_node :: bytes
  hg_ip6_node :: bytes
  hg_is_ip6 :: bool
  hg_uri :: "bytes option"
  hg_method :: http_method
  hg_tx_body_json :: "bytes option"

section \<open>Addresses as text\<close>

text \<open>\<open>ascii_to_int\<close>: blanks, then digits, in 64 bits.\<close>

fun skip_blanks :: "bytes \<Rightarrow> bytes res" where
  "skip_blanks [] = Inl Fault"
| "skip_blanks (c # s) = (if c = 0x20 then skip_blanks s else Inr (c # s))"

fun digits_loop :: "u64 \<Rightarrow> bytes \<Rightarrow> u64 res" where
  "digits_loop u [] = Inl Fault"
| "digits_loop u (c # s) = (if 0x30 \<le> c \<and> c \<le> 0x39 then digits_loop (u * 10 + ucast c - 0x30) s else Inr u)"

definition ascii_to_int :: "bytes \<Rightarrow> u64 res" where
  "ascii_to_int str = bindR (skip_blanks str) (digits_loop 0)"

text \<open>The length of the scheme, an error for any other than the two.\<close>

definition scheme_len :: "bytes \<Rightarrow> nat res" where
  "scheme_len uri =
     bindR (strncmp uri (str8 ''http://'' @ [0]) 7) (\<lambda>d.
       if d = 0 then Inr 7
       else bindR (strncmp uri (str8 ''https://'' @ [0]) 8) (\<lambda>d.
         if d = 0 then Inr 8 else Inl (Status EFI_INVALID_PARAMETER)))"

text \<open>The end of the path: \<open>count\<close> bytes were passed, and \<open>path_len\<close> up to the last slash.\<close>

fun path_loop :: "bytes \<Rightarrow> nat \<Rightarrow> nat \<Rightarrow> nat res" where
  "path_loop [] count path_len = Inl Fault"
| "path_loop (c # s) count path_len =
     (if c = 0 then Inr path_len
      else path_loop s (count + 1) (if c = 0x2f then count + 1 else path_len))"

definition generate_next_uri :: "(nat \<Rightarrow> bool) \<Rightarrow> bytes \<Rightarrow> bytes \<Rightarrow> bytes res" where
  "generate_next_uri pool current_uri next_loader =
     bindR (scheme_len current_uri) (\<lambda>n.
     bindR (strlen next_loader) (\<lambda>next_len.
     bindR (path_loop (drop n current_uri) n 0) (\<lambda>path_len.
     bindR (guardR (pool (path_len + next_len + 1)) EFI_OUT_OF_RESOURCES) (\<lambda>_.
     bindR (get_bytes current_uri 0 path_len) (\<lambda>a.
     bindR (get_bytes next_loader 0 next_len) (\<lambda>b. Inr (a @ b @ [0])))))))"

fun host_loop :: "bytes \<Rightarrow> nat \<Rightarrow> nat res" where
  "host_loop [] host_len = Inl Fault"
| "host_loop (c # s) host_len = (if c = 0x2f \<or> c = 0 then Inr host_len else host_loop s (host_len + 1))"

definition extract_hostname :: "(nat \<Rightarrow> bool) \<Rightarrow> bytes \<Rightarrow> bytes res" where
  "extract_hostname pool url =
     bindR (scheme_len url) (\<lambda>n.
     bindR (host_loop (drop n url) 0) (\<lambda>host_len.
     bindR (guardR (pool (host_len + 1)) EFI_OUT_OF_RESOURCES) (\<lambda>_.
     bindR (get_bytes url n host_len) (\<lambda>h. Inr (h @ [0])))))"

section \<open>Device paths\<close>

text \<open>The macros of gnu-efi on the node at \<open>p\<close>: type, subtype, length, end.\<close>

definition dp_type :: "bytes \<Rightarrow> nat \<Rightarrow> u8 res" where
  "dp_type path p = bindR (idx path p) (\<lambda>t. Inr (t AND 0x7f))"

definition dp_subtype :: "bytes \<Rightarrow> nat \<Rightarrow> u8 res" where
  "dp_subtype path p = idx path (p + 1)"

definition dp_next :: "bytes \<Rightarrow> nat \<Rightarrow> nat res" where
  "dp_next path p = bindR (get_le path (p + 2) 2) (\<lambda>n. Inr (p + n))"

definition dp_is_end :: "bytes \<Rightarrow> nat \<Rightarrow> bool res" where
  "dp_is_end path p = bindR (dp_type path p) (\<lambda>t. bindR (dp_subtype path p) (\<lambda>s. Inr (t = 0x7f \<and> s = 0xff)))"

definition dp_is :: "bytes \<Rightarrow> nat \<Rightarrow> u8 \<Rightarrow> bool res" where
  "dp_is path p sub = bindR (dp_type path p) (\<lambda>t. bindR (dp_subtype path p) (\<lambda>s. Inr (t = 3 \<and> s = sub)))"

text \<open>
  The messaging nodes: hardware address, IPv4, IPv6, URI. The address is copied with the size
  of the firmware's structures, whatever the length of the node is.
\<close>

definition MSG_MAC_ADDR_DP :: u8 where "MSG_MAC_ADDR_DP = 11"
definition MSG_IPv4_DP :: u8 where "MSG_IPv4_DP = 12"
definition MSG_IPv6_DP :: u8 where "MSG_IPv6_DP = 13"
definition MSG_URI_DP :: u8 where "MSG_URI_DP = 24"

definition node_mac :: "bytes \<Rightarrow> nat \<Rightarrow> bytes res" where "node_mac path p = get_bytes path (p + 4) 32"

text \<open>
  The URI node: nothing when it is not the last node or there is no memory. Its text ends at the
  first NUL behind it.
\<close>

definition take_uri :: "('w, 'n) http_env \<Rightarrow> bytes \<Rightarrow> nat \<Rightarrow> bytes option res" where
  "take_uri env path p =
     bindR (dp_next path p) (\<lambda>q.
     bindR (dp_is_end path q) (\<lambda>last.
       if \<not> last then Inr None
       else bindR (strlen (drop (p + 4) path)) (\<lambda>uri_size.
         if \<not> he_pool env (uri_size + 1) then Inr None
         else bindR (get_bytes path (p + 4) (uri_size + 1)) (\<lambda>u. Inr (Some u)))))"

text \<open>The loop over the nodes: the verdict and the globals.\<close>

partial_function (option) find_nodes ::
  "('w, 'n) http_env \<Rightarrow> bytes \<Rightarrow> nat \<Rightarrow> bool \<Rightarrow> http_globals \<Rightarrow> (bool \<times> http_globals) res option"
where
  "find_nodes env path p ip_found g =
     (case (bindR (dp_is_end path p) (\<lambda>e. if e then Inr (Inl (False, g)) else
            bindR (dp_is path p MSG_MAC_ADDR_DP) (\<lambda>is_mac.
            bindR (dp_is path p MSG_IPv4_DP) (\<lambda>is_ip4.
            bindR (dp_is path p MSG_IPv6_DP) (\<lambda>is_ip6.
            bindR (dp_is path p MSG_URI_DP) (\<lambda>is_uri.
              if is_mac then bindR (node_mac path p) (\<lambda>m. Inr (Inr (ip_found, g\<lparr>hg_mac_addr := m\<rparr>)))
              else if is_ip6 then bindR (get_bytes path p 60) (\<lambda>n. Inr (Inr (True, g\<lparr>hg_ip6_node := n, hg_is_ip6 := True\<rparr>)))
              else if is_ip4 then bindR (get_bytes path p 27) (\<lambda>n. Inr (Inr (True, g\<lparr>hg_ip4_node := n, hg_is_ip6 := False\<rparr>)))
              else if ip_found \<and> is_uri then
                bindR (take_uri env path p) (\<lambda>u. Inr (Inl (case u of None \<Rightarrow> (False, g) | Some _ \<Rightarrow> (True, g\<lparr>hg_uri := u\<rparr>))))
              else Inr (Inr (ip_found, g)))))))) of
        Inl e \<Rightarrow> Some (Inl e)
      | Inr (Inl r) \<Rightarrow> Some (Inr r)
      | Inr (Inr (ip_found, g)) \<Rightarrow>
          (case dp_next path p of Inl e \<Rightarrow> Some (Inl e) | Inr q \<Rightarrow> find_nodes env path q ip_found g))"

declare find_nodes.simps [code]

definition find_httpboot :: "('w, 'n) http_env \<Rightarrow> 'w \<Rightarrow> http_globals \<Rightarrow> (bool \<times> http_globals) res option" where
  "find_httpboot env w g =
     (let g = g\<lparr>hg_uri := None\<rparr> in
      case he_boot_path env w of
        None \<Rightarrow> Some (Inr (False, g))
      | Some path \<Rightarrow> find_nodes env path 0 False g)"

text \<open>Whether a path has a node with the hardware address.\<close>

partial_function (option) has_mac :: "bytes \<Rightarrow> bytes \<Rightarrow> nat \<Rightarrow> bool res option" where
  "has_mac mac path p =
     (case (bindR (dp_is_end path p) (\<lambda>e. if e then Inr (Some False) else
            bindR (dp_is path p MSG_MAC_ADDR_DP) (\<lambda>is_mac.
              if is_mac then bindR (node_mac path p) (\<lambda>m. Inr (if m = mac then Some True else None)) else Inr None))) of
        Inl e \<Rightarrow> Some (Inl e)
      | Inr (Some b) \<Rightarrow> Some (Inr b)
      | Inr None \<Rightarrow> (case dp_next path p of Inl e \<Rightarrow> Some (Inl e) | Inr q \<Rightarrow> has_mac mac path q))"

declare has_mac.simps [code]

fun nic_loop :: "('w, 'n) http_env \<Rightarrow> 'w \<Rightarrow> bytes \<Rightarrow> 'n list \<Rightarrow> 'n option res option" where
  "nic_loop env w mac [] = Some (Inr None)"
| "nic_loop env w mac (h # hs) =
     (case he_nic_path env w h of
        None \<Rightarrow> nic_loop env w mac hs
      | Some path \<Rightarrow> bindO (has_mac mac path 0) (\<lambda>b. if b then Some (Inr (Some h)) else nic_loop env w mac hs))"

definition get_nic_handle :: "('w, 'n) http_env \<Rightarrow> 'w \<Rightarrow> bytes \<Rightarrow> 'n option res option" where
  "get_nic_handle env w mac =
     (case he_handles env w of (st, hs) \<Rightarrow> if EFI_ERROR st then Some (Inr None) else nic_loop env w mac hs)"

section \<open>Setting up the connection\<close>

definition is_unspecified :: "bytes \<Rightarrow> bool" where
  "is_unspecified addr \<longleftrightarrow> (\<forall>b \<in> set addr. b = 0)"

text \<open>
  \<open>IPv6_DEVICE_PATH\<close>: the local address at 4, the prefix length at 43, the gateway at 44; the
  structure \<open>EFI_IP6_CONFIG_MANUAL_ADDRESS\<close> is the address, \<open>IsAnycast\<close> and the prefix length.
\<close>

definition set_ip6 :: "('w, 'n) http_env \<Rightarrow> 'n \<Rightarrow> bytes \<Rightarrow> 'w \<Rightarrow> (efi_status \<times> 'w) res" where
  "set_ip6 env nic node w =
     (if EFI_ERROR (he_ip6cfg env w nic) then Inr (he_ip6cfg env w nic, w)
      else bindR (get_bytes node 4 16) (\<lambda>addr. bindR (idx node 43) (\<lambda>prefix. bindR (get_bytes node 44 16) (\<lambda>gateway.
        case he_SetAddress6 env w nic (addr @ [0, prefix]) of (st, w) \<Rightarrow>
          if EFI_ERROR st then Inr (st, w)
          else if is_unspecified gateway then Inr (EFI_SUCCESS, w)
          else case he_SetGateway6 env w nic gateway of (st, w) \<Rightarrow>
            Inr (if EFI_ERROR st then st else EFI_SUCCESS, w)))))"

text \<open>\<open>IPv4_DEVICE_PATH\<close>: the local address at 4, the gateway at 19, the mask at 23.\<close>

definition set_ip4 :: "('w, 'n) http_env \<Rightarrow> 'n \<Rightarrow> bytes \<Rightarrow> 'w \<Rightarrow> (efi_status \<times> 'w) res" where
  "set_ip4 env nic node w =
     (if EFI_ERROR (he_ip4cfg2 env w nic) then Inr (he_ip4cfg2 env w nic, w)
      else bindR (get_bytes node 4 4) (\<lambda>addr. bindR (get_bytes node 23 4) (\<lambda>mask. bindR (get_bytes node 19 4) (\<lambda>gateway.
        case he_SetAddress4 env w nic (addr @ mask) of (st, w) \<Rightarrow>
          if EFI_ERROR st then Inr (st, w)
          else if is_unspecified gateway then Inr (EFI_SUCCESS, w)
          else case he_SetGateway4 env w nic gateway of (st, w) \<Rightarrow>
            Inr (if EFI_ERROR st then st else EFI_SUCCESS, w)))))"

section \<open>A request\<close>

text \<open>\<open>while (!done) http->Poll(http)\<close>.\<close>

partial_function (option) poll_loop :: "('w, 'n) http_env \<Rightarrow> 'w \<Rightarrow> ((efi_status \<times> http_message) \<times> 'w) option" where
  "poll_loop env w = (case he_done env w of Some r \<Rightarrow> Some (r, w) | None \<Rightarrow> poll_loop env (he_Poll env w))"

declare poll_loop.simps [code]

text \<open>The headers and the body; posting needs a body, whose null pointer \<open>AsciiStrLen\<close> would follow.\<close>

definition make_request :: "('w, 'n) http_env \<Rightarrow> http_globals \<Rightarrow> bytes \<Rightarrow> bytes \<Rightarrow> http_request res" where
  "make_request env g hostname uri =
     (let lit = (\<lambda>s. str8 s @ [0]);
          headers = [(lit ''Host'', hostname), (lit ''Accept'', lit ''*/*''), (lit ''User-Agent'', lit ''UefiHttpBoot/1.0'')];
          r = \<lparr>hr_Method = hg_method g, hr_Url = map ucast (cstr uri), hr_Headers = headers, hr_Body = None\<rparr> in
      if hg_method g \<noteq> HttpMethodPost then Inr r
      else case hg_tx_body_json g of
        None \<Rightarrow> Inl Fault
      | Some body \<Rightarrow>
          bindR (strlen body) (\<lambda>n.
            Inr (r\<lparr>hr_Headers := headers @
                 [(lit ''Content-Type'', lit ''application/json''), (lit ''Content-Length'', take 15 (he_AsciiSPrint_d env n) @ [0]),
                  (lit ''Accept-Encoding'', lit ''gzip,deflate,br''), (lit ''Connection'', lit ''keep-alive'')],
               hr_Body := Some (take n body)\<rparr>)))"

definition send_http_request ::
  "('w, 'n) http_env \<Rightarrow> http_globals \<Rightarrow> bytes \<Rightarrow> bytes \<Rightarrow> 'w \<Rightarrow> (efi_status \<times> 'w) res option"
where
  "send_http_request env g hostname uri w =
     (if \<not> he_PoolPrint env w then Some (Inr (EFI_OUT_OF_RESOURCES, w))
      else bindO (Some (make_request env g hostname uri)) (\<lambda>request.
        case he_CreateEvent env w of (st, w) \<Rightarrow>
          if EFI_ERROR st then Some (Inr (st, w))
          else case he_Request env w request of (st, w) \<Rightarrow>
            if EFI_ERROR st then Some (Inr (st, he_CloseEvent env w))
            else case poll_loop env w of
              None \<Rightarrow> None
            | Some ((tst, m), w) \<Rightarrow> Some (Inr (if EFI_ERROR tst then tst else st, he_CloseEvent env w))))"

section \<open>The answer\<close>

definition HTTP_STATUS_200_OK :: nat where "HTTP_STATUS_200_OK = 3"

definition sizeof_rx_buffer :: nat where "sizeof_rx_buffer = 9216"

text \<open>The last header of the name counts.\<close>

fun content_length :: "(bytes \<times> bytes) list \<Rightarrow> u64 \<Rightarrow> u64 res" where
  "content_length [] n = Inr n"
| "content_length ((name, v) # hs) n =
     bindR (strcasecmp name (str8 ''Content-Length'' @ [0])) (\<lambda>d.
     bindR (if d = 0 then ascii_to_int v else Inr n) (content_length hs))"

text \<open>
  The rest of the body: \<open>buf\<close> is what was downloaded, \<open>st\<close> the status so far. The firmware writes
  at most as much as fits into the buffer it is given.
\<close>

partial_function (option) download_loop ::
  "('w, 'n) http_env \<Rightarrow> nat \<Rightarrow> efi_status \<Rightarrow> bytes \<Rightarrow> 'w \<Rightarrow> (efi_status \<times> bytes \<times> 'w) res option"
where
  "download_loop env buf_size st buf w =
     (if buf_size \<le> length buf then Some (Inr (st, buf, w))
      else case he_Response env w of (st, w) \<Rightarrow>
        if EFI_ERROR st then Some (Inr (st, buf, w))
        else case poll_loop env w of
          None \<Rightarrow> None
        | Some ((tst, m), w) \<Rightarrow>
            if EFI_ERROR tst then Some (Inr (tst, buf, w))
            else if sizeof_rx_buffer < length (hm_Body m) then Some (Inl Fault)
            else if buf_size < length (hm_Body m) + length buf then Some (Inr (EFI_BAD_BUFFER_SIZE, buf, w))
            else download_loop env buf_size st (buf @ hm_Body m) w)"

declare download_loop.simps [code]

text \<open>
  The status, the buffer (\<open>None\<close> for a null pointer or when it was freed) and \<open>buf_size\<close>. Two of
  the error exits keep the status of the successful call before.
\<close>

definition receive_http_response ::
  "('w, 'n) http_env \<Rightarrow> 'w \<Rightarrow> (efi_status \<times> bytes option \<times> nat \<times> 'w) res option"
where
  "receive_http_response env w =
     (case he_CreateEvent env w of (st, w) \<Rightarrow>
      if EFI_ERROR st then Some (Inr (st, None, 0, w))
      else case he_Response env w of (st, w) \<Rightarrow>
        if EFI_ERROR st then Some (Inr (st, None, 0, he_CloseEvent env w))
        else case poll_loop env w of
          None \<Rightarrow> None
        | Some ((tst, m), w) \<Rightarrow>
            if EFI_ERROR tst then Some (Inr (tst, None, 0, he_CloseEvent env w))
            else if hm_StatusCode m \<noteq> HTTP_STATUS_200_OK then Some (Inr (EFI_ABORTED, None, 0, he_CloseEvent env w))
            else if sizeof_rx_buffer < length (hm_Body m) then Some (Inl Fault)
            else bindO (Some (content_length (hm_Headers m) 0)) (\<lambda>buf_size.
              if buf_size = 0 then Some (Inr (st, None, 0, he_CloseEvent env w))
              else if unat buf_size < length (hm_Body m) then
                Some (Inr (EFI_BAD_BUFFER_SIZE, None, unat buf_size, he_CloseEvent env w))
              else if \<not> he_pool env (unat buf_size) then Some (Inr (st, None, unat buf_size, he_CloseEvent env w))
              else bindO (download_loop env (unat buf_size) st (hm_Body m) w) (\<lambda>(st, buf, w).
                Some (Inr (st, if EFI_ERROR st then None else Some buf, unat buf_size, he_CloseEvent env w)))))"

section \<open>Fetching a file\<close>

text \<open>What is done with the protocol of the child handle.\<close>

definition use_child ::
  "('w, 'n) http_env \<Rightarrow> http_globals \<Rightarrow> bytes \<Rightarrow> bytes \<Rightarrow> bool \<Rightarrow> 'w \<Rightarrow> (efi_status \<times> bytes option \<times> nat \<times> 'w) res option"
where
  "use_child env g hostname uri is_ip6 w =
     (if EFI_ERROR (he_HandleProtocol env w) then Some (Inr (he_HandleProtocol env w, None, 0, w))
      else case he_Configure env w is_ip6 of (st, w) \<Rightarrow>
        if EFI_ERROR st then Some (Inr (st, None, 0, w))
        else bindO (send_http_request env g hostname uri w) (\<lambda>(st, w).
          if EFI_ERROR st then Some (Inr (st, None, 0, w)) else receive_http_response env w))"

definition http_fetch ::
  "('w, 'n) http_env \<Rightarrow> http_globals \<Rightarrow> 'n \<Rightarrow> bytes \<Rightarrow> bytes \<Rightarrow> bool \<Rightarrow> 'w
   \<Rightarrow> (efi_status \<times> bytes option \<times> nat \<times> 'w) res option"
where
  "http_fetch env g device hostname uri is_ip6 w =
     (if EFI_ERROR (he_OpenProtocol env w device) then Some (Inr (he_OpenProtocol env w device, None, 0, w))
      else case he_CreateChild env w device of (st, w) \<Rightarrow>
        if EFI_ERROR st then Some (Inr (st, None, 0, w))
        else bindO (use_child env g hostname uri is_ip6 w) (\<lambda>(st, buf, n, w).
          case he_DestroyChild env w device of (cst, w) \<Rightarrow>
            Some (Inr (if EFI_ERROR st then st else if EFI_ERROR cst then cst else EFI_SUCCESS, buf, n, w))))"

text \<open>
  The file next to the one shim was fetched from. The copy of the name is a null pointer, the empty
  list, when there is no memory for it. The address is forgotten at the end.
\<close>

definition fetch_next ::
  "('w, 'n) http_env \<Rightarrow> http_globals \<Rightarrow> bytes \<Rightarrow> bytes \<Rightarrow> 'w \<Rightarrow> (efi_status \<times> bytes option \<times> nat \<times> 'w) res option"
where
  "fetch_next env g uri next_loader w =
     (case bindR (generate_next_uri (he_pool env) uri next_loader) (\<lambda>next_uri.
           bindR (extract_hostname (he_pool env) uri) (\<lambda>hostname. Inr (next_uri, hostname))) of
        Inl Fault \<Rightarrow> Some (Inl Fault)
      | Inl (Status st) \<Rightarrow> Some (Inr (st, None, 0, w))
      | Inr (next_uri, hostname) \<Rightarrow>
          bindO (get_nic_handle env w (hg_mac_addr g)) (\<lambda>nic.
            case nic of
              None \<Rightarrow> Some (Inr (EFI_NOT_FOUND, None, 0, w))
            | Some nic \<Rightarrow>
                bindO (Some (if hg_is_ip6 g then set_ip6 env nic (hg_ip6_node g) w else set_ip4 env nic (hg_ip4_node g) w))
                  (\<lambda>(st, w).
                    if EFI_ERROR st then Some (Inr (st, None, 0, w))
                    else http_fetch env g nic hostname next_uri (hg_is_ip6 g) w)))"

definition httpboot_fetch_buffer ::
  "('w, 'n) http_env \<Rightarrow> http_globals \<Rightarrow> bytes \<Rightarrow> 'w \<Rightarrow> (efi_status \<times> bytes option \<times> nat \<times> http_globals \<times> 'w) res option"
where
  "httpboot_fetch_buffer env g name w =
     (case hg_uri g of
        None \<Rightarrow> Some (Inr (EFI_NOT_READY, None, 0, g, w))
      | Some uri \<Rightarrow>
          bindO (Some (bindR (strlen name) (\<lambda>n. if he_pool env (n + 1) then translate_slashes name else Inr [])))
            (\<lambda>next_loader. bindO (fetch_next env g uri next_loader w) (\<lambda>(st, buf, n, w).
               Some (Inr (st, buf, n, g\<lparr>hg_uri := None\<rparr>, w)))))"

text \<open>A file at an address that the caller gives; a status is the early return.\<close>

definition httpboot_fetch_buffer_uri ::
  "('w, 'n) http_env \<Rightarrow> http_globals \<Rightarrow> 'n \<Rightarrow> bytes \<Rightarrow> 'w \<Rightarrow> (efi_status \<times> bytes option \<times> nat \<times> 'w) res option"
where
  "httpboot_fetch_buffer_uri env g nic user_uri w =
     (case extract_hostname (he_pool env) user_uri of
        Inl Fault \<Rightarrow> Some (Inl Fault)
      | Inl (Status st) \<Rightarrow> Some (Inr (st, None, 0, w))
      | Inr hostname \<Rightarrow> http_fetch env g nic hostname user_uri (hg_is_ip6 g) w)"

end
