(* ===== verification/HttpSpec.thy ===== *)
theory HttpSpec
  imports HttpBoot
begin

text \<open>
  What httpboot.c computes: the address of the next file, the name of the host, and the body of an
  answer, which is put together from the pieces the firmware hands out.
\<close>

section \<open>The address of the next file\<close>

lemma strncmp_numeral:
  "strncmp (a # as) (b # bs) (numeral k) =
     (if a = 0 \<or> a \<noteq> b then Inr (int (unat a) - int (unat b)) else strncmp as bs (pred_numeral k))"
  by (simp add: numeral_eq_Suc)

lemma scheme_len_http: "r \<noteq> [] \<Longrightarrow> scheme_len (str8 ''http://'' @ r) = Inr 7"
  by (cases r) (simp_all add: scheme_len_def str8_def strncmp_numeral)

lemma scheme_len_https: "r \<noteq> [] \<Longrightarrow> scheme_len (str8 ''https://'' @ r) = Inr 8"
  by (cases r) (simp_all add: scheme_len_def str8_def strncmp_numeral)

text \<open>What stands before the name of the file: all up to the last slash.\<close>

definition dir_part :: "bytes \<Rightarrow> bytes" where
  "dir_part r = rev (dropWhile (\<lambda>c. c \<noteq> 0x2f) (rev r))"

lemma dir_part_Cons: "dir_part (c # r) = (if 0x2f \<in> set r then c # dir_part r else if c = 0x2f then [c] else [])"
  by (auto simp add: dir_part_def dropWhile_append)

lemma dir_part_prefix: "\<exists>f. r = dir_part r @ f \<and> 0x2f \<notin> set f"
proof (intro exI conjI)
  show "r = dir_part r @ rev (takeWhile (\<lambda>c. c \<noteq> 0x2f) (rev r))"
    by (simp add: dir_part_def flip: rev_append)
  show "0x2f \<notin> set (rev (takeWhile (\<lambda>c. c \<noteq> 0x2f) (rev r)))" by (auto dest: set_takeWhileD)
qed

lemma path_loop_dir: "0 \<notin> set r \<Longrightarrow> path_loop (r @ 0 # x) n pl = Inr (if 0x2f \<in> set r then n + length (dir_part r) else pl)"
  by (induction r arbitrary: n pl) (auto simp add: dir_part_Cons)

text \<open>The address of the file \<open>next\<close> beside \<open>scheme r\<close>: without a slash behind the scheme nothing of it is left.\<close>

definition beside :: "bytes \<Rightarrow> bytes \<Rightarrow> bytes \<Rightarrow> bytes" where
  "beside scheme r next_loader = (if 0x2f \<in> set r then scheme @ dir_part r else []) @ next_loader"

lemma generate_next_uri_gen:
  assumes "scheme_len (s @ r @ [0]) = Inr (length s)" and "0 \<notin> set r" and "0 \<notin> set l" and "\<forall>n. pool n"
  shows "generate_next_uri pool (s @ r @ [0]) (l @ [0]) = Inr (beside s r l @ [0])"
proof -
  obtain f where f: "r = dir_part r @ f" using dir_part_prefix by blast
  have "get_bytes (s @ r @ [0]) 0 (length s + length (dir_part r)) = Inr (s @ dir_part r)"
    by (subst f) (simp add: get_bytes_def)
  moreover have "strlen (l @ [0]) = Inr (length l)" "get_bytes (l @ [0]) 0 (length l) = Inr l"
    using assms(3) by (simp_all add: get_bytes_def)
  moreover have "path_loop (r @ [0]) (length s) 0 = Inr (if 0x2f \<in> set r then length s + length (dir_part r) else 0)"
    using path_loop_dir [OF assms(2), of "[]"] by simp
  ultimately show ?thesis
    using assms(1,4) by (simp add: generate_next_uri_def beside_def guardR_def) (simp add: get_bytes_def)
qed

text \<open>
  The next file is fetched from the directory of the address shim was fetched from; when that has
  no slash behind the scheme, the name of the file alone is taken for an address.
\<close>

theorem next_uri_beside:
  assumes "scheme \<in> {str8 ''http://'', str8 ''https://''}" and "0 \<notin> set r" and "0 \<notin> set next_loader" and "\<forall>n. pool n"
  shows "generate_next_uri pool (scheme @ r @ [0]) (next_loader @ [0]) = Inr (beside scheme r next_loader @ [0])"
proof -
  have "scheme_len (scheme @ r @ [0]) = Inr (length scheme)"
    using assms(1) scheme_len_http [of "r @ [0]"] scheme_len_https [of "r @ [0]"] by (auto simp add: str8_def)
  then show ?thesis using generate_next_uri_gen assms(2-4) by blast
qed

theorem next_uri_beside_witness:
  "generate_next_uri (\<lambda>n. True) (str8 ''http://'' @ str8 ''h/d/shim.efi'' @ [0]) (str8 ''grub.efi'' @ [0])
   = Inr (str8 ''http://h/d/grub.efi'' @ [0])"
  using next_uri_beside [of "str8 ''http://''" "str8 ''h/d/shim.efi''" "str8 ''grub.efi''" "\<lambda>n. True"]
  by (simp add: str8_def beside_def dir_part_def)

lemma host_loop_host: "0 \<notin> set h \<Longrightarrow> 0x2f \<notin> set h \<Longrightarrow> c = 0 \<or> c = 0x2f \<Longrightarrow> host_loop (h @ c # x) n = Inr (n + length h)"
  by (induction h arbitrary: n) auto

lemma extract_hostname_host:
  assumes "scheme \<in> {str8 ''http://'', str8 ''https://''}" and "0 \<notin> set h" and "0x2f \<notin> set h" and "c = 0 \<or> c = 0x2f" and "\<forall>n. pool n"
  shows "extract_hostname pool (scheme @ h @ c # x) = Inr (h @ [0])"
proof -
  have "scheme_len (scheme @ h @ c # x) = Inr (length scheme)"
    using assms(1) scheme_len_http [of "h @ c # x"] scheme_len_https [of "h @ c # x"] by (auto simp add: str8_def)
  then show ?thesis
    using host_loop_host [OF assms(2-4), of x 0] assms(5) by (simp add: extract_hostname_def get_bytes_def guardR_def)
qed

section \<open>The body of an answer\<close>

text \<open>The pieces in which the firmware hands out the rest of a body.\<close>

inductive pieces :: "('w, 'n) http_env \<Rightarrow> 'w \<Rightarrow> bytes list \<Rightarrow> 'w \<Rightarrow> bool" for env :: "('w, 'n) http_env" where
  no_piece: "pieces env w [] w"
| next_piece: "he_Response env w = (st, w1) \<Longrightarrow> \<not> EFI_ERROR st \<Longrightarrow> poll_loop env w1 = Some ((tst, m), w2) \<Longrightarrow>
    \<not> EFI_ERROR tst \<Longrightarrow> pieces env w2 bs w3 \<Longrightarrow> pieces env w (hm_Body m # bs) w3"

lemma download_pieces_gen:
  assumes "download_loop e n st0 buf w = Some r"
  shows "\<forall>st b w'. r = Inr (st, b, w') \<longrightarrow> \<not> EFI_ERROR st \<longrightarrow> length buf \<le> n \<longrightarrow>
    (\<exists>bs. b = buf @ concat bs \<and> length b = n \<and> pieces e w bs w')"
proof (rule download_loop.raw_induct [OF _ assms], intro allI impI)
  fix loop and e :: "('a, 'b) http_env" and n st0 buf w r st b w'
  assume ih: "\<And>e n st0 buf w r. loop e n st0 buf w = Some r \<Longrightarrow>
      \<forall>st b w'. r = Inr (st, b, w') \<longrightarrow> \<not> EFI_ERROR st \<longrightarrow> length buf \<le> n \<longrightarrow>
        (\<exists>bs. b = buf @ concat bs \<and> length b = n \<and> pieces e w bs w')"
    and body: "(if n \<le> length buf then Some (Inr (st0, buf, w))
      else case he_Response e w of (st, w) \<Rightarrow>
        if EFI_ERROR st then Some (Inr (st, buf, w))
        else case poll_loop e w of None \<Rightarrow> None
        | Some ((tst, m), w) \<Rightarrow>
            if EFI_ERROR tst then Some (Inr (tst, buf, w))
            else if sizeof_rx_buffer < length (hm_Body m) then Some (Inl Fault)
            else if n < length (hm_Body m) + length buf then Some (Inr (EFI_BAD_BUFFER_SIZE, buf, w))
            else loop e n st (buf @ hm_Body m) w) = Some r"
    and r: "r = Inr (st, b, w')" and st: "\<not> EFI_ERROR st" and n: "length buf \<le> n"
  show "\<exists>bs. b = buf @ concat bs \<and> length b = n \<and> pieces e w bs w'"
  proof (cases "n \<le> length buf")
    case True
    then have "r = Inr (st0, buf, w)" using body by simp
    then have "b = buf" "w' = w" using r by simp_all
    then show ?thesis using True n by (intro exI [of _ "[]"]) (simp add: no_piece)
  next
    case False
    obtain s1 w1 where r1: "he_Response e w = (s1, w1)" by (cases "he_Response e w")
    with body r st False have ok: "\<not> EFI_ERROR s1" by (auto split: if_splits)
    obtain ts m w2 where p: "poll_loop e w1 = Some ((ts, m), w2)"
      using body False r1 ok by (auto split: option.splits)
    have ts: "\<not> EFI_ERROR ts" and le: "length (buf @ hm_Body m) \<le> n" and l: "loop e n s1 (buf @ hm_Body m) w2 = Some r"
      using body r st False r1 ok p by (auto split: if_splits)
    obtain bs where "b = (buf @ hm_Body m) @ concat bs" "length b = n" "pieces e w2 bs w'"
      using ih [OF l] r st le by blast
    then show ?thesis using next_piece [OF r1 ok p ts] by (intro exI [of _ "hm_Body m # bs"]) simp
  qed
qed

lemma download_pieces:
  "download_loop env n st0 buf w = Some (Inr (st, b, w')) \<Longrightarrow> \<not> EFI_ERROR st \<Longrightarrow> length buf \<le> n \<Longrightarrow>
   \<exists>bs. b = buf @ concat bs \<and> length b = n \<and> pieces env w bs w'"
  by (drule download_pieces_gen) simp

text \<open>The first answer of the server, when sending and waiting succeed.\<close>

definition first_answer :: "('w, 'n) http_env \<Rightarrow> 'w \<Rightarrow> efi_status \<Rightarrow> http_message \<Rightarrow> 'w \<Rightarrow> bool" where
  "first_answer env w st m w' \<longleftrightarrow>
     (\<exists>s1 w1 w2 ts. he_CreateEvent env w = (s1, w1) \<and> \<not> EFI_ERROR s1 \<and> he_Response env w1 = (st, w2) \<and> \<not> EFI_ERROR st
        \<and> poll_loop env w2 = Some ((ts, m), w') \<and> \<not> EFI_ERROR ts)"

text \<open>
  What the firmware promises: a body that fits into the buffer it was given, and headers that are
  strings.
\<close>

definition answers_fit :: "('w, 'n) http_env \<Rightarrow> bool" where
  "answers_fit env \<longleftrightarrow> (\<forall>w ts m. he_done env w = Some (ts, m) \<longrightarrow>
     length (hm_Body m) \<le> sizeof_rx_buffer \<and> (\<forall>(k, v) \<in> set (hm_Headers m). 0 \<in> set k \<and> 0 \<in> set v))"

lemma poll_loop_gen:
  assumes "poll_loop e w = Some r"
  shows "\<exists>w'. he_done e w' = Some (fst r)"
  by (rule poll_loop.raw_induct [OF _ assms]) (auto split: option.splits)

lemma poll_loop_done: "poll_loop env w = Some (r, w') \<Longrightarrow> \<exists>w''. he_done env w'' = Some r"
  using poll_loop_gen by fastforce

lemma skip_blanks_safe: "0 \<in> set s \<Longrightarrow> \<exists>s'. skip_blanks s = Inr s' \<and> 0 \<in> set s'"
  by (induction s) auto

lemma digits_loop_safe: "0 \<in> set s \<Longrightarrow> \<exists>u'. digits_loop u s = Inr u'"
  by (induction s arbitrary: u) auto

lemma ascii_to_int_safe: "0 \<in> set s \<Longrightarrow> \<exists>u. ascii_to_int s = Inr u"
  using skip_blanks_safe digits_loop_safe by (fastforce simp add: ascii_to_int_def)

lemma strcasecmp_safe: "0 \<in> set a \<Longrightarrow> 0 \<in> set b \<Longrightarrow> \<exists>d. strcasecmp a b = Inr d"
proof (induction a b rule: strcasecmp.induct)
  case (1 a as b bs)
  have "toupper 0 = 0" by (simp add: toupper_def)
  moreover have "toupper c = 0 \<Longrightarrow> c = 0" for c
    by (auto simp add: toupper_def word_le_nat_alt unat_sub_if' word_unat_eq_iff split: if_splits)
  ultimately show ?case using 1 by (cases "a = 0 \<or> toupper a \<noteq> toupper b") auto
qed auto

lemma content_length_safe: "\<forall>(k, v) \<in> set hs. 0 \<in> set k \<and> 0 \<in> set v \<Longrightarrow> \<exists>u. content_length hs n = Inr u"
proof (induction hs arbitrary: n)
  case (Cons h hs)
  obtain k v where h: "h = (k, v)" by fastforce
  obtain d where "strcasecmp k (str8 ''Content-Length'' @ [0]) = Inr d"
    using strcasecmp_safe [of k "str8 ''Content-Length'' @ [0]"] Cons.prems h by auto
  moreover obtain u where "ascii_to_int v = Inr u" using ascii_to_int_safe Cons.prems h by fastforce
  ultimately show ?case using Cons h by auto
qed simp

lemma download_safe_gen:
  assumes "download_loop e n st buf w = Some r"
  shows "answers_fit e \<longrightarrow> r \<noteq> Inl Fault"
proof (rule download_loop.raw_induct [OF _ assms], goal_cases)
  case (1 loop e n st buf w r)
  show ?case
  proof
    assume fit: "answers_fit e"
    then have body: "poll_loop e w = Some ((ts, m), w') \<Longrightarrow> length (hm_Body m) \<le> sizeof_rx_buffer" for ts m w w'
      using poll_loop_done by (fastforce simp add: answers_fit_def)
    show "r \<noteq> Inl Fault"
      using 1(2) 1(1) fit by (auto split: if_splits prod.splits option.splits dest!: body)
  qed
qed

lemma receive_first:
  assumes "receive_http_response env w = Some (Inr (st, buf, n, w'))" and "\<not> EFI_ERROR st"
  obtains st1 m w1 k where "first_answer env w st1 m w1" and "hm_StatusCode m = HTTP_STATUS_200_OK"
    and "content_length (hm_Headers m) 0 = Inr k" and "length (hm_Body m) \<le> n \<or> k = 0" and "n = unat k"
    and "buf = None \<and> (k = 0 \<or> \<not> he_pool env n)
      \<or> (\<exists>b w2. buf = Some b \<and> download_loop env n st1 (hm_Body m) w1 = Some (Inr (st, b, w2)) \<and> length (hm_Body m) \<le> n)"
proof -
  obtain s1 w1 where c: "he_CreateEvent env w = (s1, w1)" by fastforce
  have s1: "\<not> EFI_ERROR s1" using assms c by (auto simp add: receive_http_response_def)
  obtain s2 w2 where r: "he_Response env w1 = (s2, w2)" by fastforce
  have s2: "\<not> EFI_ERROR s2" using assms c s1 r by (auto simp add: receive_http_response_def)
  obtain ts m w3 where p: "poll_loop env w2 = Some ((ts, m), w3)"
    using assms c s1 r s2 by (auto simp add: receive_http_response_def split: option.splits)
  have ts: "\<not> EFI_ERROR ts" "hm_StatusCode m = HTTP_STATUS_200_OK"
    using assms c s1 r s2 p by (auto simp add: receive_http_response_def split: if_splits)
  obtain k where k: "content_length (hm_Headers m) 0 = Inr k"
    using assms c s1 r s2 p ts
    by (cases "content_length (hm_Headers m) 0") (auto simp add: receive_http_response_def split: if_splits)
  show thesis
  proof (rule that [OF _ ts(2) k])
    show "first_answer env w s2 m w3" using c s1 r s2 p ts(1) by (auto simp add: first_answer_def)
  qed (use assms c s1 r s2 p ts k in \<open>auto simp add: receive_http_response_def bindO_eq not_less split: if_splits\<close>)
qed

lemma receive_no_fault:
  assumes "answers_fit env"
  shows "receive_http_response env w \<noteq> Some (Inl Fault)"
proof
  assume f: "receive_http_response env w = Some (Inl Fault)"
  obtain s1 w1 where c: "he_CreateEvent env w = (s1, w1)" by fastforce
  obtain s2 w2 where r: "he_Response env w1 = (s2, w2)" by fastforce
  obtain ts m w3 where p: "poll_loop env w2 = Some ((ts, m), w3)"
    using f c r by (auto simp add: receive_http_response_def split: if_splits option.splits)
  have m: "length (hm_Body m) \<le> sizeof_rx_buffer" "\<forall>(k, v) \<in> set (hm_Headers m). 0 \<in> set k \<and> 0 \<in> set v"
    using poll_loop_done [OF p] assms unfolding answers_fit_def by blast+
  obtain k where k: "content_length (hm_Headers m) 0 = Inr k" using content_length_safe [OF m(2)] by blast
  have "download_loop env (unat k) s2 (hm_Body m) w3 \<noteq> Some (Inl Fault)"
    using download_safe_gen [of env "unat k" s2 "hm_Body m" w3 "Inl Fault"] assms by auto
  then show False
    using f c r p m(1) k by (auto simp add: receive_http_response_def bindO_def split: if_splits option.splits sum.splits)
qed

text \<open>
  C22. Receiving an answer never leaves the buffers, and a success means that the first answer was
  "200 OK" and that the buffer has exactly the bytes the server sent, as many as its
  Content-Length says; or there is no buffer, because there was no such header or no memory.
\<close>

theorem receive_http_response_body:
  assumes "answers_fit env"
  shows "receive_http_response env w \<noteq> Some (Inl Fault)
   \<and> (\<forall>st buf n w'. receive_http_response env w = Some (Inr (st, buf, n, w')) \<longrightarrow> \<not> EFI_ERROR st \<longrightarrow>
     (\<exists>st1 m w1 k. first_answer env w st1 m w1 \<and> hm_StatusCode m = HTTP_STATUS_200_OK
        \<and> content_length (hm_Headers m) 0 = Inr k \<and> n = unat k
        \<and> (case buf of
              None \<Rightarrow> n = 0 \<or> \<not> he_pool env n
            | Some b \<Rightarrow> length b = n \<and> (\<exists>bs w2. pieces env w1 bs w2 \<and> b = hm_Body m @ concat bs))))"
proof (intro conjI allI impI)
  show "receive_http_response env w \<noteq> Some (Inl Fault)" by (rule receive_no_fault [OF assms])
next
  fix st buf n w'
  assume r: "receive_http_response env w = Some (Inr (st, buf, n, w'))" "\<not> EFI_ERROR st"
  obtain st1 m w1 k where f: "first_answer env w st1 m w1" "hm_StatusCode m = HTTP_STATUS_200_OK"
      "content_length (hm_Headers m) 0 = Inr k" "n = unat k"
    and b: "buf = None \<and> (k = 0 \<or> \<not> he_pool env n)
      \<or> (\<exists>b w2. buf = Some b \<and> download_loop env n st1 (hm_Body m) w1 = Some (Inr (st, b, w2)) \<and> length (hm_Body m) \<le> n)"
    using receive_first [OF r] by metis
  have "case buf of None \<Rightarrow> n = 0 \<or> \<not> he_pool env n
      | Some b \<Rightarrow> length b = n \<and> (\<exists>bs w2. pieces env w1 bs w2 \<and> b = hm_Body m @ concat bs)"
  proof (cases buf)
    case None
    then show ?thesis using b f(4) by auto
  next
    case (Some b')
    then obtain w2 where d: "download_loop env n st1 (hm_Body m) w1 = Some (Inr (st, b', w2))" "length (hm_Body m) \<le> n"
      using b by auto
    show ?thesis using download_pieces [OF d(1) r(2) d(2)] Some by auto
  qed
  then show "\<exists>st1 m w1 k. first_answer env w st1 m w1 \<and> hm_StatusCode m = HTTP_STATUS_200_OK
        \<and> content_length (hm_Headers m) 0 = Inr k \<and> n = unat k
        \<and> (case buf of None \<Rightarrow> n = 0 \<or> \<not> he_pool env n
            | Some b \<Rightarrow> length b = n \<and> (\<exists>bs w2. pieces env w1 bs w2 \<and> b = hm_Body m @ concat bs))"
    using f by blast
qed

section \<open>A server\<close>

text \<open>The state: the answer that has arrived, and those to come.\<close>

definition demo_http :: "(http_message option \<times> http_message list, nat) http_env" where
  "demo_http = \<lparr>he_pool = \<lambda>n. True, he_PoolPrint = \<lambda>w. True, he_AsciiSPrint_d = \<lambda>n. [0x31],
     he_boot_path = \<lambda>w. None, he_handles = \<lambda>w. (EFI_SUCCESS, [0]), he_nic_path = \<lambda>w n. None,
     he_ip4cfg2 = \<lambda>w n. EFI_SUCCESS, he_SetAddress4 = \<lambda>w n d. (EFI_SUCCESS, w), he_SetGateway4 = \<lambda>w n d. (EFI_SUCCESS, w),
     he_ip6cfg = \<lambda>w n. EFI_SUCCESS, he_SetAddress6 = \<lambda>w n d. (EFI_SUCCESS, w), he_SetGateway6 = \<lambda>w n d. (EFI_SUCCESS, w),
     he_OpenProtocol = \<lambda>w n. EFI_SUCCESS, he_CreateChild = \<lambda>w n. (EFI_SUCCESS, w), he_DestroyChild = \<lambda>w n. (EFI_SUCCESS, w),
     he_HandleProtocol = \<lambda>w. EFI_SUCCESS, he_Configure = \<lambda>w ip6. (EFI_SUCCESS, w),
     he_CreateEvent = \<lambda>w. (EFI_SUCCESS, w), he_CloseEvent = \<lambda>w. w,
     he_Request = \<lambda>w r. (EFI_SUCCESS, (Some \<lparr>hm_StatusCode = 0, hm_Headers = [], hm_Body = []\<rparr>, snd w)),
     he_Response = \<lambda>w. (case snd w of [] \<Rightarrow> (EFI_NOT_READY, w) | m # ms \<Rightarrow> (EFI_SUCCESS, (Some m, ms))),
     he_Poll = \<lambda>w. w,
     he_done = \<lambda>w. (case fst w of
        Some m \<Rightarrow> if length (hm_Body m) \<le> sizeof_rx_buffer \<and> (\<forall>(k, v) \<in> set (hm_Headers m). 0 \<in> set k \<and> 0 \<in> set v)
                  then Some (EFI_SUCCESS, m) else None
      | None \<Rightarrow> None)\<rparr>"

lemma demo_http_fits: "answers_fit demo_http"
  by (auto simp add: answers_fit_def demo_http_def split: option.splits if_splits)

definition ok_answer :: "bytes \<Rightarrow> bytes \<Rightarrow> http_message" where
  "ok_answer len body = \<lparr>hm_StatusCode = HTTP_STATUS_200_OK,
     hm_Headers = [(str8 ''content-length'' @ [0], len @ [0])], hm_Body = body\<rparr>"

definition demo_answers :: "http_message option \<times> http_message list" where
  "demo_answers = (None, [ok_answer [0x35] [1, 2, 3], \<lparr>hm_StatusCode = 0, hm_Headers = [], hm_Body = [4, 5]\<rparr>])"

lemma demo_received:
  "receive_http_response demo_http demo_answers
   = Some (Inr (EFI_SUCCESS, Some [1, 2, 3, 4, 5], 5, (Some \<lparr>hm_StatusCode = 0, hm_Headers = [], hm_Body = [4, 5]\<rparr>, [])))"
  by (simp add: receive_http_response_def demo_http_def demo_answers_def ok_answer_def poll_loop.simps download_loop.simps
      sizeof_rx_buffer_def HTTP_STATUS_200_OK_def str8_def toupper_def ascii_to_int_def)

lemma receive_http_response_body_witness:
  "\<exists>st1 m w1 k. first_answer demo_http demo_answers st1 m w1 \<and> content_length (hm_Headers m) 0 = Inr k \<and> 5 = unat k
     \<and> (\<exists>bs w2. pieces demo_http w1 bs w2 \<and> [1, 2, 3, 4, 5] = hm_Body m @ concat bs)"
  using receive_http_response_body [OF demo_http_fits, of demo_answers] demo_received by fastforce
end
