(* ===== verification/HttpRequest.thy ===== *)
theory HttpRequest
  imports HttpSpec FileProtocol
begin

text \<open>
  http-request.c: posting a request over any network card: the drivers the firmware lacks are loaded,
  a card gets an address, and the answer is fetched. The answer goes to the screen and nowhere else.
\<close>

section \<open>Environment\<close>

text \<open>
  \<open>re_GetData\<close> is given the size of the buffer and returns the size it reports and the data. The
  opened protocols are not state that anything depends on, except the exclusive one.
\<close>

record ('w, 'n, 'f) request_env =
  re_http :: "('w, 'n) http_env"
  re_files :: "('w, 'f) file_protocol"
  re_loaded_image :: "'w \<Rightarrow> bool"
  re_LoadImage :: "'w \<Rightarrow> bytes \<Rightarrow> efi_status \<times> bool \<times> 'w"
  re_StartImage :: "'w \<Rightarrow> 'w"
  re_Stall :: "'w \<Rightarrow> 'w"
  re_OpenPath :: "'w \<Rightarrow> 'n \<Rightarrow> efi_status \<times> 'w"
  re_ClosePath :: "'w \<Rightarrow> 'n \<Rightarrow> 'w"
  re_text_handles :: "'w \<Rightarrow> efi_status \<times> nat"
  re_OpenText :: "'w \<Rightarrow> efi_status"
  re_OpenIp4 :: "'w \<Rightarrow> 'n \<Rightarrow> efi_status"
  re_GetData :: "'w \<Rightarrow> 'n \<Rightarrow> nat \<Rightarrow> efi_status \<times> nat \<times> bytes"
  re_SetPolicy :: "'w \<Rightarrow> 'n \<Rightarrow> efi_status \<times> 'w"

abbreviation re_pool :: "('w, 'n, 'f) request_env \<Rightarrow> nat \<Rightarrow> bool" where
  "re_pool env \<equiv> he_pool (re_http env)"

section \<open>The network card\<close>

definition print_device_path :: "('w, 'n, 'f) request_env \<Rightarrow> 'n \<Rightarrow> 'w \<Rightarrow> efi_status \<times> 'w" where
  "print_device_path env nic w =
     (case re_OpenPath env w nic of (st, w) \<Rightarrow>
        if EFI_ERROR st then (st, w)
        else case re_text_handles env w of (st, n) \<Rightarrow>
          if EFI_ERROR st then (st, re_ClosePath env w nic)
          else if n = 0 then (EFI_NOT_FOUND, re_ClosePath env w nic)
          else (re_OpenText env w, re_ClosePath env w nic))"

text \<open>The size, then the data; what is in the buffer after an error is not used.\<close>

definition ip4_cfg2_get_data :: "('w, 'n, 'f) request_env \<Rightarrow> 'n \<Rightarrow> 'w \<Rightarrow> efi_status \<times> bytes option" where
  "ip4_cfg2_get_data env nic w =
     (case re_GetData env w nic 0 of (st, n, _) \<Rightarrow>
        if st \<noteq> EFI_BUFFER_TOO_SMALL then (st, None)
        else if \<not> re_pool env n then (EFI_OUT_OF_RESOURCES, None)
        else case re_GetData env w nic n of (st, _, d) \<Rightarrow>
          if EFI_ERROR st then (st, None) else (EFI_SUCCESS, Some (take n d)))"

text \<open>\<open>StationAddress\<close> is at 104 of \<open>EFI_IP4_CONFIG2_INTERFACE_INFO\<close>.\<close>

definition check_ip4_addr :: "bytes option \<Rightarrow> bool res" where
  "check_ip4_addr info =
     (case info of
        None \<Rightarrow> Inl Fault
      | Some d \<Rightarrow> bindR (get_bytes d 104 4) (\<lambda>a. Inr (sum_list (map unat a) \<noteq> 0)))"

fun iface_loop :: "('w, 'n, 'f) request_env \<Rightarrow> 'n \<Rightarrow> nat \<Rightarrow> 'w \<Rightarrow> (efi_status \<times> 'w) res" where
  "iface_loop env nic 0 w = Inr (EFI_NOT_READY, w)"
| "iface_loop env nic (Suc k) w =
     (let w = re_Stall env w in
      case ip4_cfg2_get_data env nic w of (st, info) \<Rightarrow>
        if EFI_ERROR st then Inr (st, w)
        else bindR (check_ip4_addr info) (\<lambda>ok. if ok then Inr (EFI_SUCCESS, w) else iface_loop env nic k w))"

definition wait_until_get_iface_info :: "('w, 'n, 'f) request_env \<Rightarrow> 'n \<Rightarrow> 'w \<Rightarrow> (efi_status \<times> 'w) res" where
  "wait_until_get_iface_info env nic = iface_loop env nic 30"

section \<open>Drivers\<close>

definition network_drivers :: "wstr list" where
  "network_drivers = map (\<lambda>s. map (\<lambda>c. if c = 0x2f then 0x5c else c) (wide s))
     [''/EFI/BOOT/Hash2DxeCrypto.efi'', ''/EFI/BOOT/TcpDxe.efi'', ''/EFI/BOOT/HttpDxe.efi'']"

definition driver_info :: "('w, 'n, 'f) request_env \<Rightarrow> 'w \<Rightarrow> 'f \<Rightarrow> file_info option" where
  "driver_info env w fh =
     (case ff_GetInfo (re_files env) w fh 0 of (st, n, _) \<Rightarrow>
        if st = EFI_BUFFER_TOO_SMALL \<and> re_pool env n then
          (case ff_GetInfo (re_files env) w fh n of (st, _, info) \<Rightarrow> if EFI_ERROR st then None else Some info)
        else None)"

definition run_driver :: "('w, 'n, 'f) request_env \<Rightarrow> 'f \<Rightarrow> 'w \<Rightarrow> 'w" where
  "run_driver env fh w =
     (case driver_info env w fh of
        None \<Rightarrow> w
      | Some info \<Rightarrow>
          if \<not> re_pool env (fi_FileSize info) then w
          else case ff_Read (re_files env) w fh (fi_FileSize info) of (st, d, w) \<Rightarrow>
            if EFI_ERROR st then w
            else case re_LoadImage env w d of (st, handle, w) \<Rightarrow>
              if EFI_ERROR st \<or> \<not> handle then w else re_StartImage env w)"

fun driver_loop :: "('w, 'n, 'f) request_env \<Rightarrow> 'f \<Rightarrow> wstr list \<Rightarrow> 'w \<Rightarrow> 'w res" where
  "driver_loop env root [] w = Inr w"
| "driver_loop env root (d # ds) w =
     (case ff_Open (re_files env) w root d of (st, fh, w) \<Rightarrow>
        if EFI_ERROR st then driver_loop env root ds w
        else case fh of
          None \<Rightarrow> Inl Fault
        | Some fh \<Rightarrow> driver_loop env root ds (ff_Close (re_files env) (run_driver env fh w) fh))"

definition load_network_drivers :: "('w, 'n, 'f) request_env \<Rightarrow> 'w \<Rightarrow> 'w res" where
  "load_network_drivers env w =
     (if \<not> re_loaded_image env w \<or> EFI_ERROR (ff_HandleProtocol (re_files env) w) then Inr w
      else case ff_OpenVolume (re_files env) w of (st, root, w) \<Rightarrow>
        if EFI_ERROR st then Inr w
        else case root of
          None \<Rightarrow> Inl Fault
        | Some root \<Rightarrow> bindR (driver_loop env root network_drivers w) (\<lambda>w. Inr (ff_Close (re_files env) w root)))"

section \<open>The request\<close>

text \<open>Up to 30 seconds for a card with HTTP to appear.\<close>

fun binding_loop :: "('w, 'n, 'f) request_env \<Rightarrow> nat \<Rightarrow> 'w \<Rightarrow> 'n list option \<times> 'w" where
  "binding_loop env 0 w = (None, w)"
| "binding_loop env (Suc k) w =
     (case he_handles (re_http env) w of (st, hs) \<Rightarrow>
        if \<not> EFI_ERROR st \<and> hs \<noteq> [] then (Some hs, w) else binding_loop env k (re_Stall env w))"

text \<open>The address of a card: the status of an error, or whether there is a card to use.\<close>

definition configure_card :: "('w, 'n, 'f) request_env \<Rightarrow> 'n \<Rightarrow> 'w \<Rightarrow> (efi_status \<times> bool \<times> 'w) res" where
  "configure_card env nic w =
     (case ip4_cfg2_get_data env nic w of (st, info) \<Rightarrow>
        if EFI_ERROR st \<or> info = None then Inr (st, False, w)
        else bindR (check_ip4_addr info) (\<lambda>ok.
          if ok then Inr (st, True, w)
          else case re_SetPolicy env w nic of (st, w) \<Rightarrow>
            if EFI_ERROR st then Inr (st, False, w)
            else bindR (wait_until_get_iface_info env nic w) (\<lambda>(st, w). Inr (st, \<not> EFI_ERROR st, w))))"

text \<open>One request for each card, until one fails; \<open>st\<close> is the status of the card before.\<close>

fun card_loop ::
  "('w, 'n, 'f) request_env \<Rightarrow> http_globals \<Rightarrow> bytes \<Rightarrow> 'n list \<Rightarrow> efi_status \<Rightarrow> 'w \<Rightarrow> (efi_status \<times> 'w) res option"
where
  "card_loop env g uri [] st w = Some (Inr (st, w))"
| "card_loop env g uri (nic # nics) st w =
     (case print_device_path env nic w of (st, w) \<Rightarrow>
        if EFI_ERROR st then Some (Inr (st, w))
        else if EFI_ERROR (re_OpenIp4 env w nic) then Some (Inr (re_OpenIp4 env w nic, w))
        else bindO (Some (configure_card env nic w)) (\<lambda>(st, go, w).
          if EFI_ERROR st then Some (Inr (st, w))
          else if \<not> go then card_loop env g uri nics st w
          else bindO (httpboot_fetch_buffer_uri (re_http env) g nic uri w) (\<lambda>(st, buf, n, w).
            if EFI_ERROR st then Some (Inr (st, w)) else card_loop env g uri nics st w)))"

definition send_http_get_request ::
  "('w, 'n, 'f) request_env \<Rightarrow> http_globals \<Rightarrow> bytes \<Rightarrow> 'w \<Rightarrow> (efi_status \<times> 'w) res option"
where
  "send_http_get_request env g uri w =
     bindO (Some (load_network_drivers env w)) (\<lambda>w.
       case binding_loop env 30 w of
         (None, w) \<Rightarrow> Some (Inr (EFI_NOT_FOUND, w))
       | (Some nics, w) \<Rightarrow> card_loop env g uri nics EFI_SUCCESS w)"

end
