(* ===== verification/Keyless.thy ===== *)
theory Keyless
  imports HttpRequest Verify
begin

text \<open>
  keyless-sign.c, keyless-sup.c: the remote check of a signature. The PKCS#7 signature of a file is
  taken apart, its digests are compared with the file, and the signed attributes, the signature and
  the certificate are posted to a server. OpenSSL's parsers are parameters: what they make of a
  signature is a record; its tag and length decoder, which looks at untrusted lengths, is translated.
\<close>

section \<open>Environment\<close>

datatype md_nid = NID_sha256 | NID_sha1 | NID_other

text \<open>
  The first signer, and a signature. A missing or empty part is the empty list, an attribute that
  is missing or is no octet string is \<open>None\<close>.
\<close>

record signer_info =
  si_digest_nid :: md_nid
  si_messageDigest :: "bytes option"
  si_auth_attr :: "bytes list option"
  si_enc_digest :: bytes

record pkcs7 =
  p7_signed :: bool
  p7_content :: bytes
  p7_signer_info :: "signer_info list"
  p7_cert :: "bytes option"

text \<open>
  \<open>ke_d2i_X509_SIG\<close> is \<open>None\<close> when the bytes are no DigestInfo, and has the digest in it otherwise;
  \<open>ke_base64\<close> is what the BIO filter writes, when it does.
\<close>

record keyless_env =
  ke_pool :: "nat \<Rightarrow> bool"
  ke_SHA256 :: "bytes \<Rightarrow> bytes"
  ke_SHA1 :: "bytes \<Rightarrow> bytes"
  ke_d2i_PKCS7 :: "bytes \<Rightarrow> pkcs7 option"
  ke_d2i_X509_SIG :: "bytes \<Rightarrow> bytes option option"
  ke_base64 :: "bytes \<Rightarrow> bytes option"

section \<open>Text\<close>

definition nybble_hex :: "u8 \<Rightarrow> bool \<Rightarrow> u8" where
  "nybble_hex v upper = (if v < 10 then 0x30 + v else (if upper then 0x41 else 0x61) + (v - 10))"

text \<open>\<open>bin_to_hex_buf\<close> into a buffer of \<open>cap\<close> bytes: what does not fit is cut off.\<close>

definition bin_to_hex :: "bytes \<Rightarrow> nat \<Rightarrow> bool \<Rightarrow> bytes" where
  "bin_to_hex d cap upper =
     concat (map (\<lambda>b. [nybble_hex (drop_bit 4 b AND 0x0f) upper, nybble_hex (b AND 0x0f) upper])
       (take (if cap < length d * 2 + 1 then (cap - 1) div 2 else length d) d)) @ [0]"

fun ascii_eq :: "bytes \<Rightarrow> bytes \<Rightarrow> bool res" where
  "ascii_eq (a # as) (b # bs) =
     (if a \<noteq> 0 \<and> b \<noteq> 0 then if a \<noteq> b then Inr False else ascii_eq as bs else Inr (a = 0 \<and> b = 0))"
| "ascii_eq _ _ = Inl Fault"

definition b64_encode :: "keyless_env \<Rightarrow> bytes \<Rightarrow> bytes option" where
  "b64_encode env d =
     (case ke_base64 env d of
        None \<Rightarrow> None
      | Some t \<Rightarrow> if t \<noteq> [] \<and> ke_pool env (length t + 1) then Some (t @ [0]) else None)"

text \<open>The array \<open>seq_hash_hex\<close> stays the empty string for an algorithm that is not known.\<close>

definition hash_to_hex :: "keyless_env \<Rightarrow> md_nid \<Rightarrow> bytes \<Rightarrow> bytes" where
  "hash_to_hex env nid d =
     (case nid of
        NID_sha256 \<Rightarrow> bin_to_hex (ke_SHA256 env d) 65 False
      | NID_sha1 \<Rightarrow> bin_to_hex (ke_SHA1 env d) 65 False
      | NID_other \<Rightarrow> [0])"

section \<open>Tags and lengths (asn1_lib.c)\<close>

fun length_loop :: "bytes \<Rightarrow> nat \<Rightarrow> nat \<Rightarrow> nat \<Rightarrow> (nat \<times> nat) res" where
  "length_loop d p 0 ret = Inr (p, ret)"
| "length_loop d p (Suc i) ret = bindR (idx d p) (\<lambda>b. length_loop d (p + 1) i (ret * 256 + unat b))"

text \<open>The position behind, whether the length is indefinite, and the length.\<close>

definition asn1_get_length :: "bytes \<Rightarrow> nat \<Rightarrow> nat \<Rightarrow> (nat \<times> bool \<times> nat) option res" where
  "asn1_get_length d p mx =
     (if mx < 1 then Inr None
      else bindR (idx d p) (\<lambda>b.
        if b = 0x80 then Inr (Some (p + 1, True, 0))
        else let i = unat (b AND 0x7f) in
          if b AND 0x80 = 0 then Inr (Some (p + 1, False, i))
          else if 8 < i \<or> mx - 1 < i then Inr None
          else bindR (length_loop d (p + 1) i 0) (\<lambda>(p, ret).
            if 2 ^ 63 \<le> ret then Inr None else Inr (Some (p, False, ret)))))"

text \<open>A tag in several bytes: the tag, the position behind it and what is left.\<close>

function tag_loop :: "bytes \<Rightarrow> nat \<Rightarrow> nat \<Rightarrow> nat \<Rightarrow> (nat \<times> nat \<times> nat) option res" where
  "tag_loop d p mx l =
     bindR (idx d p) (\<lambda>b.
       let l = l * 128 + unat (b AND 0x7f) in
       if mx \<le> 1 then Inr None
       else if b AND 0x80 = 0 then Inr (Some (l, p + 1, mx - 1))
       else if 2 ^ 24 - 1 < l then Inr None
       else tag_loop d (p + 1) (mx - 1) l)"
  by pat_completeness auto
termination by (relation "measure (\<lambda>(d, p, mx, l). mx)") auto

declare tag_loop.simps [simp del]

text \<open>\<open>None\<close> is a result with the bit 0x80: the header is too long, or the contents are.\<close>

definition ASN1_get_object :: "bytes \<Rightarrow> nat \<Rightarrow> nat \<Rightarrow> (nat \<times> nat \<times> nat) option res" where
  "ASN1_get_object d p omax =
     (if omax = 0 then Inr None
      else bindR (idx d p) (\<lambda>b.
      bindR (if b AND 0x1f = 0x1f then (if omax \<le> 1 then Inr None else tag_loop d (p + 1) (omax - 1) 0)
             else if omax \<le> 1 then Inr None
             else Inr (Some (unat (b AND 0x1f), p + 1, omax - 1))) (\<lambda>t.
        case t of None \<Rightarrow> Inr None | Some (tag, q, mx) \<Rightarrow>
          bindR (asn1_get_length d q mx) (\<lambda>r.
            case r of None \<Rightarrow> Inr None | Some (q, indef, len) \<Rightarrow>
              if indef \<and> b AND 0x20 = 0 then Inr None
              else if omax - (q - p) < len then Inr None
              else Inr (Some (tag, q, len))))))"

section \<open>What a signature says\<close>

text \<open>The digest in the content against the digests of the file, when there is one that parses.\<close>

definition embedded_digest_ok :: "keyless_env \<Rightarrow> bytes \<Rightarrow> bytes \<Rightarrow> bytes \<Rightarrow> bool res" where
  "embedded_digest_ok env seq sha256 sha1 =
     bindR (ASN1_get_object seq 0 (length seq)) (\<lambda>r.
       case r of
         None \<Rightarrow> Inr True
       | Some (tag, q, flen) \<Rightarrow>
           if length seq < q + flen then Inr True
           else if length seq \<le> q + flen then Inr True
           else Inr (case ke_d2i_X509_SIG env (drop (q + flen) seq) of
                  None \<Rightarrow> True
                | Some None \<Rightarrow> False
                | Some (Some e) \<Rightarrow> if length e = 32 then e = sha256 else if length e = 20 then e = sha1 else False))"

fun len_bytes :: "nat \<Rightarrow> bytes" where
  "len_bytes n = (if n = 0 then [] else word_of_nat n # len_bytes (n div 256))"

declare len_bytes.simps [simp del]

definition der_len :: "nat \<Rightarrow> bytes" where
  "der_len n =
     (if n < 128 then [word_of_nat n]
      else (0x80 OR word_of_nat (length (len_bytes n))) # rev (len_bytes n))"

text \<open>The signed attributes, as the set that was signed.\<close>

definition signed_attrs :: "keyless_env \<Rightarrow> bytes list option \<Rightarrow> bytes option" where
  "signed_attrs env attrs =
     (case attrs of
        None \<Rightarrow> None
      | Some as \<Rightarrow>
          let d = concat as in
          if d = [] then None else b64_encode env (0x31 # der_len (length d) @ d))"

text \<open>The text that is sent: attributes, signature and certificate, null pointers where there is none.\<close>

type_synonym sig_text = "bytes option \<times> bytes option \<times> bytes option"

definition no_text :: sig_text where "no_text = (None, None, None)"

definition sig_texts :: "keyless_env \<Rightarrow> pkcs7 \<Rightarrow> signer_info \<Rightarrow> sig_text" where
  "sig_texts env p7 si =
     (signed_attrs env (si_auth_attr si),
      if si_enc_digest si = [] then None else b64_encode env (si_enc_digest si),
      case p7_cert p7 of None \<Rightarrow> None | Some c \<Rightarrow> if c = [] then None else b64_encode env c)"

definition extract_verification_data :: "keyless_env \<Rightarrow> pkcs7 \<Rightarrow> bytes \<Rightarrow> bytes \<Rightarrow> (bool \<times> sig_text) res" where
  "extract_verification_data env p7 sha256 sha1 =
     (if \<not> p7_signed p7 then Inr (False, no_text)
      else case p7_signer_info p7 of
        [] \<Rightarrow> Inr (False, no_text)
      | si # _ \<Rightarrow>
          let content = p7_content p7 in
          if content = [] then Inr (False, no_text)
          else bindR (ASN1_get_object content 0 (length content)) (\<lambda>r.
            case r of
              None \<Rightarrow> Inr (False, no_text)
            | Some (tag, p, len) \<Rightarrow>
                if tag \<noteq> 16 \<or> length content < p + len then Inr (False, no_text)
                else let seq = take len (drop p content) in
                  case si_messageDigest si of
                    None \<Rightarrow> Inr (False, no_text)
                  | Some md \<Rightarrow>
                      bindR (ascii_eq (bin_to_hex md 65 False) (hash_to_hex env (si_digest_nid si) seq)) (\<lambda>md_match.
                      if \<not> md_match then Inr (False, no_text)
                      else bindR (embedded_digest_ok env seq sha256 sha1) (\<lambda>ok.
                        if \<not> ok then Inr (False, no_text) else Inr (True, sig_texts env p7 si)))))"

section \<open>The signature of a file\<close>

definition align_up8 :: "nat \<Rightarrow> nat" where "align_up8 n = (n + 7) div 8 * 8"

lemma align_up8_ge: "n \<le> align_up8 n"
  by (simp add: align_up8_def)

text \<open>The last PKCS#7 record of the table: its offset in it.\<close>

function last_record :: "mbuf \<Rightarrow> u64 \<Rightarrow> u64 \<Rightarrow> u64 \<Rightarrow> nat \<Rightarrow> nat \<Rightarrow> nat option \<Rightarrow> nat option res" where
  "last_record b data n start sz offset last_off =
     (if sz \<le> offset then Inr last_off
      else case ImageAddress data n (start + word_of_nat offset) of
        None \<Rightarrow> Inr last_off
      | Some w \<Rightarrow>
          bindR (rd32 b w) (\<lambda>wlen.
            if unat wlen < 8 \<or> sz - offset < unat wlen then Inr last_off
            else bindR (rd16 b (w + 6)) (\<lambda>ty.
              last_record b data n start sz (align_up8 (offset + unat wlen)) (if ty = 2 then Some offset else last_off))))"
  by pat_completeness auto
termination
proof (relation "measure (\<lambda>(b, data, n, start, sz, offset, l). sz - offset)", goal_cases)
  case (2 b data n start sz offset l w wlen ty)
  have "offset < offset + unat wlen" "offset < sz" using 2 by simp_all
  then show ?case using align_up8_ge [of "offset + unat wlen"] by simp
qed simp

declare last_record.simps [simp del]

definition osign_parse_pkcs7 ::
  "keyless_env \<Rightarrow> 'h sha \<Rightarrow> 'g sha \<Rightarrow> mbuf \<Rightarrow> u64 \<Rightarrow> u64 \<Rightarrow> pe_context \<Rightarrow> (efi_status \<times> sig_text) res"
where
  "osign_parse_pkcs7 env s256 s1 b data datasize ctx =
     bindR (rd32 b (c_SecDir ctx)) (\<lambda>va.
     bindR (rd32 b (c_SecDir ctx + 4)) (\<lambda>sz.
       let start = (ucast va :: u64); fin = start + ucast sz in
       if datasize < fin then Inr (EFI_INVALID_PARAMETER, no_text)
       else case generate_hash s256 s1 (ke_pool env) b data (ucast fin) ctx of
         Inl Fault \<Rightarrow> Inl Fault
       | Inl (Status st) \<Rightarrow> Inr (st, no_text)
       | Inr (sha256, sha1, _) \<Rightarrow>
           bindR (last_record b data datasize start (unat sz) 0 None) (\<lambda>last_off.
             case last_off of
               None \<Rightarrow> Inr (EFI_NOT_FOUND, no_text)
             | Some pos \<Rightarrow>
                 (case ImageAddress data datasize (start + word_of_nat pos) of
                    None \<Rightarrow> Inl Fault
                  | Some w \<Rightarrow>
                      bindR (rd32 b w) (\<lambda>len.
                      bindR (load b (w + 8) (unat len - 8)) (\<lambda>der.
                        case ke_d2i_PKCS7 env der of
                          None \<Rightarrow> Inr (EFI_COMPROMISED_DATA, no_text)
                        | Some p7 \<Rightarrow>
                            if \<not> p7_signed p7 then Inr (EFI_COMPROMISED_DATA, no_text)
                            else bindR (extract_verification_data env p7 sha256 sha1) (\<lambda>(ok, t).
                              Inr (if ok then EFI_SUCCESS else EFI_SECURITY_VIOLATION, t))))))))"

section \<open>Asking the server\<close>

definition verify_uri :: bytes where "verify_uri = str8 ''http://10.0.2.2:8080/verify'' @ [0]"

text \<open>The quotation mark is the code 34.\<close>

definition json_field :: "string \<Rightarrow> bytes option \<Rightarrow> bytes" where
  "json_field name v = [34] @ str8 name @ [34, 0x3a, 34] @ (case v of None \<Rightarrow> [] | Some t \<Rightarrow> cstr t) @ [34]"

definition json_body :: "sig_text \<Rightarrow> bytes" where
  "json_body t =
     (case t of (payload, signature, certificate) \<Rightarrow>
        [0x7b] @ json_field ''certificate'' certificate @ [0x2c] @ json_field ''payload'' payload @ [0x2c]
        @ json_field ''signature'' signature @ [0x7d])"

definition text_len :: "bytes option \<Rightarrow> nat" where
  "text_len v = (case v of None \<Rightarrow> 0 | Some t \<Rightarrow> length (cstr t))"

text \<open>The method and the body of the request; \<open>AsciiSPrint\<close> writes at most as much as fits.\<close>

definition json_len :: "sig_text \<Rightarrow> nat" where
  "json_len t = text_len (snd (snd t)) + text_len (fst t) + text_len (fst (snd t)) + 50000"

definition tx_globals :: "http_globals \<Rightarrow> sig_text \<Rightarrow> http_globals" where
  "tx_globals g t = g\<lparr>hg_method := HttpMethodPost, hg_tx_body_json := Some (take (json_len t) (json_body t) @ [0])\<rparr>"

text \<open>
  The status, whether the texts were freed, and the variables that are left. The memory for the
  address is not checked.
\<close>

definition osign_http_request ::
  "keyless_env \<Rightarrow> ('w, 'n, 'f) request_env \<Rightarrow> http_globals \<Rightarrow> sig_text \<Rightarrow> 'w
   \<Rightarrow> (efi_status \<times> bool \<times> http_globals \<times> 'w) res option"
where
  "osign_http_request kenv env g t w =
     (if \<not> ke_pool kenv (length verify_uri) then Some (Inl Fault)
      else if \<not> ke_pool kenv (json_len t + 1) then
        Some (Inr (EFI_HTTP_ERROR, False, g\<lparr>hg_method := HttpMethodPost, hg_tx_body_json := None\<rparr>, w))
      else bindO (send_http_get_request env (tx_globals g t) verify_uri w) (\<lambda>(st, w).
        Some (Inr (st, True, (tx_globals g t)\<lparr>hg_tx_body_json := None\<rparr>, w))))"

text \<open>The remote check, as \<open>verify_buffer_authenticode\<close> of shim.c makes it.\<close>

definition remote_check ::
  "keyless_env \<Rightarrow> ('w, 'n, 'f) request_env \<Rightarrow> 'h sha \<Rightarrow> 'g sha \<Rightarrow> mbuf \<Rightarrow> u64 \<Rightarrow> u64 \<Rightarrow> pe_context \<Rightarrow> http_globals \<Rightarrow> 'w
   \<Rightarrow> (efi_status \<times> http_globals \<times> 'w) res option"
where
  "remote_check kenv env s256 s1 b data n ctx g w =
     bindO (Some (osign_parse_pkcs7 kenv s256 s1 b data n ctx)) (\<lambda>(st, t).
       if EFI_ERROR st then Some (Inr (st, g, w))
       else bindO (osign_http_request kenv env g t w) (\<lambda>(st, _, g, w). Some (Inr (st, g, w))))"

section \<open>The check of a file on the disk\<close>

definition read_file_ondisk ::
  "keyless_env \<Rightarrow> ('w, 'f) file_protocol \<Rightarrow> nat \<Rightarrow> wstr \<Rightarrow> 'w \<Rightarrow> bytes res \<times> 'w"
where
  "read_file_ondisk env ff sizeof_info path w =
     (if EFI_ERROR (ff_HandleProtocol ff w) then (Inl (Status (ff_HandleProtocol ff w)), w)
      else case ff_OpenVolume ff w of (st, root, w) \<Rightarrow>
        if EFI_ERROR st then (Inl (Status st), w)
        else case root of None \<Rightarrow> (Inl Fault, w)
        | Some root \<Rightarrow>
          (case ff_Open ff w root path of (st, fh, w) \<Rightarrow>
             let done_with = (\<lambda>w. ff_Close ff (case fh of None \<Rightarrow> w | Some fh \<Rightarrow> ff_Close ff w fh) root) in
             if EFI_ERROR st then (Inl (Status st), done_with w)
             else case fh of None \<Rightarrow> (Inl Fault, w)
             | Some fh \<Rightarrow>
               (case (if \<not> ke_pool env sizeof_info then Inl EFI_OUT_OF_RESOURCES
                      else case ff_GetInfo ff w fh sizeof_info of (st, n, info) \<Rightarrow>
                        if st = EFI_BUFFER_TOO_SMALL then
                          (if \<not> ke_pool env n then Inl EFI_OUT_OF_RESOURCES
                           else case ff_GetInfo ff w fh n of (st, _, info) \<Rightarrow> if EFI_ERROR st then Inl st else Inr info)
                        else if EFI_ERROR st then Inl st else Inr info) of
                  Inl st \<Rightarrow> (Inl (Status st), done_with w)
                | Inr info \<Rightarrow>
                    if \<not> ke_pool env (fi_FileSize info) then (Inl (Status EFI_OUT_OF_RESOURCES), done_with w)
                    else case ff_Read ff w fh (fi_FileSize info) of (st, d, w) \<Rightarrow>
                      (if EFI_ERROR st then Inl (Status st) else Inr d, done_with w))))"

text \<open>
  The file with its header, which must have a certificate table. Without a loaded image, in spite of
  a success, the caller goes on with a header that was never filled in.
\<close>

definition osign_extract_data ::
  "keyless_env \<Rightarrow> ('w, 'n, 'f) request_env \<Rightarrow> ('w \<Rightarrow> efi_status \<times> bool) \<Rightarrow> nat \<Rightarrow> pe_env \<Rightarrow> (nat \<Rightarrow> u64) \<Rightarrow> wstr \<Rightarrow> 'w
   \<Rightarrow> (mbuf \<times> pe_context) res \<times> 'w"
where
  "osign_extract_data kenv env loaded_image sizeof_info penv pool_at path w =
     (if EFI_ERROR (fst (loaded_image w)) then (Inl (Status (fst (loaded_image w))), w)
      else if \<not> snd (loaded_image w) then (Inl Fault, w)
      else case read_file_ondisk kenv (re_files env) sizeof_info path w of
        (Inl e, w) \<Rightarrow> (Inl e, w)
      | (Inr d, w) \<Rightarrow>
          let b = \<lparr>mb_base = pool_at (length d), mb_data = d\<rparr> in
          (bindR (read_header penv b (mb_base b) (word_of_nat (length d))) (\<lambda>ctx.
           bindR (rd32 b (c_SecDir ctx + 4)) (\<lambda>sz.
             if sz = 0 then Inl (Status EFI_NOT_FOUND) else Inr (b, ctx))), w))"

text \<open>The texts are freed again when asking the server has failed and freed them already.\<close>

definition osign_verify ::
  "keyless_env \<Rightarrow> ('w, 'n, 'f) request_env \<Rightarrow> ('w \<Rightarrow> efi_status \<times> bool) \<Rightarrow> nat \<Rightarrow> pe_env \<Rightarrow> (nat \<Rightarrow> u64) \<Rightarrow> 'h sha \<Rightarrow> 'g sha
   \<Rightarrow> wstr \<Rightarrow> http_globals \<Rightarrow> 'w \<Rightarrow> (bool \<times> http_globals \<times> 'w) res option"
where
  "osign_verify kenv env loaded_image sizeof_info penv pool_at s256 s1 path g w =
     (case osign_extract_data kenv env loaded_image sizeof_info penv pool_at path w of
        (Inl Fault, w) \<Rightarrow> Some (Inl Fault)
      | (Inl (Status st), w) \<Rightarrow> Some (Inr (False, g, w))
      | (Inr (b, ctx), w) \<Rightarrow>
          bindO (Some (osign_parse_pkcs7 kenv s256 s1 b (mb_base b) (word_of_nat (length (mb_data b))) ctx)) (\<lambda>(st, t).
            if EFI_ERROR st then Some (Inr (False, g, w))
            else bindO (osign_http_request kenv env g t w) (\<lambda>(st, freed, g, w).
              if \<not> EFI_ERROR st then Some (Inr (True, g, w))
              else if freed \<and> t \<noteq> no_text then Some (Inl Fault)
              else Some (Inr (False, g, w)))))"

end
