(* ===== verification/KeylessSpec.thy ===== *)
theory KeylessSpec
  imports Keyless
begin

text \<open>
  What is asked of a signature before it is sent to the server: the decoder of tags and lengths stays
  in its bytes and reads what the code encodes, the verdict on the digests, and the record of the
  certificate table that is taken.
\<close>

section \<open>Tags and lengths\<close>

lemma len_bytes_0 [simp]: "len_bytes 0 = []"
  by (simp add: len_bytes.simps)

lemma len_bytes_pos: "0 < n \<Longrightarrow> len_bytes n = word_of_nat n # len_bytes (n div 256)"
  by (simp add: len_bytes.simps)

lemma len_bytes_value: "foldl (\<lambda>a b. a * 256 + unat b) 0 (rev (len_bytes n)) = n"
proof (induction n rule: len_bytes.induct)
  case (1 n)
  then show ?case by (cases "n = 0") (simp_all add: len_bytes_pos unat_of_nat)
qed

lemma len_bytes_length: "n < 256 ^ k \<Longrightarrow> length (len_bytes n) \<le> k"
proof (induction k arbitrary: n)
  case 0
  then show ?case by simp
next
  case (Suc k)
  have "n div 256 < 256 ^ k" using Suc.prems by (simp add: less_mult_imp_div_less mult.commute)
  then show ?case using Suc.IH by (cases "n = 0") (simp_all add: len_bytes_pos)
qed

lemma length_loop_bytes:
  "length_loop (pre @ bs @ post) (length pre) (length bs) ret
   = Inr (length pre + length bs, foldl (\<lambda>a b. a * 256 + unat b) ret bs)"
proof (induction bs arbitrary: pre ret)
  case (Cons b bs)
  then show ?case using Cons.IH [of "pre @ [b]" "ret * 256 + unat b"] by (simp add: idx_def)
qed simp

lemma long_form: "k \<le> 8 \<Longrightarrow> (0x80 OR word_of_nat k :: u8) AND 0x7f = word_of_nat k"
  "k \<le> 8 \<Longrightarrow> (0x80 OR word_of_nat k :: u8) AND 0x80 = 0x80"
proof -
  assume "k \<le> 8"
  then have "k \<in> {0, 1, 2, 3, 4, 5, 6, 7, 8}" by auto
  then show "(0x80 OR word_of_nat k :: u8) AND 0x7f = word_of_nat k" "(0x80 OR word_of_nat k :: u8) AND 0x80 = 0x80"
    by (elim insertE emptyE; simp)+
qed

text \<open>What \<open>der_len\<close> writes, \<open>asn1_get_length\<close> reads.\<close>

lemma asn1_get_length_der:
  assumes n: "n < 2 ^ 63" and mx: "length (der_len n) \<le> mx"
  shows "asn1_get_length (pre @ der_len n @ post) (length pre) mx = Inr (Some (length pre + length (der_len n), False, n))"
proof (cases "n < 128")
  case True
  have u: "unat (word_of_nat n :: u8) = n" using True by (simp add: unat_of_nat)
  have m: "(word_of_nat n :: u8) AND 0x7f = word_of_nat n"
  proof -
    have "unat (take_bit 7 (word_of_nat n :: u8)) = unat (word_of_nat n :: u8)"
      using True u by (simp add: unsigned_take_bit_eq take_bit_eq_mod unat_mod)
    then have "take_bit 7 (word_of_nat n :: u8) = word_of_nat n" by (simp add: word_unat_eq_iff)
    then show ?thesis by (simp add: take_bit_eq_mask mask_eq_exp_minus_1)
  qed
  have "(word_of_nat n :: u8) AND 0x80 = (word_of_nat n AND 0x7f) AND 0x80" by (simp only: m)
  also have "\<dots> = 0" by (simp add: and.assoc)
  finally have z: "(word_of_nat n :: u8) AND 0x80 = 0" .
  have ne: "(word_of_nat n :: u8) \<noteq> 0x80" using True u by (auto simp add: word_unat_eq_iff)
  show ?thesis using True mx u m z ne by (simp add: asn1_get_length_def der_len_def idx_def)
next
  case False
  let ?bs = "rev (len_bytes n)"
  have k: "length ?bs \<le> 8" using n len_bytes_length [of n 8] by simp
  have pos: "0 < length ?bs" using False by (simp add: len_bytes_pos)
  have ne: "(0x80 OR word_of_nat (length ?bs) :: u8) \<noteq> 0x80"
  proof
    assume "(0x80 OR word_of_nat (length ?bs) :: u8) = 0x80"
    then have "(word_of_nat (length ?bs) :: u8) = 0" using long_form(1) [OF k] by simp
    then have "unat (word_of_nat (length ?bs) :: u8) = 0" by (simp only: unat_0)
    then show False using pos k by (simp add: unat_of_nat)
  qed
  have l: "length_loop (pre @ (0x80 OR word_of_nat (length ?bs)) # ?bs @ post) (Suc (length pre)) (length ?bs) 0
      = Inr (Suc (length pre) + length ?bs, n)"
    using length_loop_bytes [of "pre @ [0x80 OR word_of_nat (length ?bs)]" ?bs post 0] by (simp add: len_bytes_value)
  show ?thesis using False mx k ne l long_form [OF k] n
    by (simp add: asn1_get_length_def der_len_def idx_def unat_of_nat Let_def)
qed

definition der :: "u8 \<Rightarrow> bytes \<Rightarrow> bytes" where "der t d = t # der_len (length d) @ d"

definition low_tag :: "u8 \<Rightarrow> bool" where "low_tag t \<longleftrightarrow> t AND 0x1f \<noteq> 0x1f"

lemma der_len_length: "1 \<le> length (der_len n)"
  by (simp add: der_len_def)

lemma get_object_der:
  assumes t: "low_tag t" and n: "length d < 2 ^ 63"
  shows "ASN1_get_object (der t d @ r) 0 (length (der t d @ r))
    = Inr (Some (unat (t AND 0x1f), Suc (length (der_len (length d))), length d))"
proof -
  let ?l = "der_len (length d)"
  have "asn1_get_length ([t] @ ?l @ d @ r) (length [t]) (length ?l + length d + length r)
      = Inr (Some (length [t] + length ?l, False, length d))"
    using n by (intro asn1_get_length_der) simp_all
  then show ?thesis
    using t der_len_length [of "length d"]
    by (auto simp add: ASN1_get_object_def der_def low_tag_def idx_def add.assoc)
qed

text \<open>On any bytes it stays within what it is given, and so does the object.\<close>

lemma length_loop_safe: "p + i \<le> length d \<Longrightarrow> \<exists>n. length_loop d p i ret = Inr (p + i, n)"
  by (induction d p i ret rule: length_loop.induct) (auto simp add: idx_def)

lemma asn1_get_length_safe:
  assumes "p + mx \<le> length d"
  shows "\<exists>r. asn1_get_length d p mx = Inr r \<and> (\<forall>q i n. r = Some (q, i, n) \<longrightarrow> p < q \<and> q \<le> p + mx)"
proof (cases "mx < 1")
  case False
  let ?i = "unat (d ! p AND 0x7f)"
  have "\<exists>n. length_loop d (Suc p) ?i 0 = Inr (Suc p + ?i, n)" if "?i \<le> mx - 1"
    using that assms False by (intro length_loop_safe) simp
  moreover have "Suc k \<le> mx" if "k \<le> mx - Suc 0" for k using that False by simp
  ultimately show ?thesis using False assms by (auto simp add: asn1_get_length_def idx_def Let_def not_less)
qed (simp add: asn1_get_length_def)

lemma tag_loop_safe:
  "p + mx \<le> length d \<Longrightarrow> 0 < mx \<Longrightarrow>
   \<exists>r. tag_loop d p mx l = Inr r \<and> (\<forall>t q m. r = Some (t, q, m) \<longrightarrow> p < q \<and> q + m = p + mx)"
proof (induction d p mx l rule: tag_loop.induct)
  case (1 d p mx l)
  let ?l = "l * 128 + unat (d ! p AND 0x7f)"
  show ?case
  proof (cases "\<not> mx \<le> 1 \<and> d ! p AND 0x80 \<noteq> 0 \<and> \<not> 2 ^ 24 - 1 < ?l")
    case True
    have "idx d p = Inr (d ! p)" using 1 by (simp add: idx_def)
    from 1(1) [OF this refl] show ?thesis using True 1(2,3)
      by (fastforce simp add: tag_loop.simps [of d p mx l] idx_def Let_def)
  next
    case False
    then show ?thesis using 1(2,3) by (auto simp add: tag_loop.simps [of d p mx l] idx_def Let_def)
  qed
qed

lemma get_object_safe:
  assumes "p + n \<le> length d"
  shows "\<exists>r. ASN1_get_object d p n = Inr r \<and> (\<forall>t q m. r = Some (t, q, m) \<longrightarrow> p < q \<and> q + m \<le> p + n)"
proof (cases "n \<le> 1")
  case True
  then show ?thesis using assms by (auto simp add: ASN1_get_object_def idx_def)
next
  case False
  let ?t = "if d ! p AND 0x1f = 0x1f then tag_loop d (p + 1) (n - 1) 0 else Inr (Some (unat (d ! p AND 0x1f), p + 1, n - 1))"
  obtain r where r: "?t = Inr r" "\<And>t q m. r = Some (t, q, m) \<Longrightarrow> p < q \<and> q + m = p + n"
    using tag_loop_safe [of "p + 1" "n - 1" d 0] assms False by (fastforce split: if_splits)
  show ?thesis
  proof (cases r)
    case None
    then show ?thesis using r(1) assms False by (auto simp add: ASN1_get_object_def idx_def split: if_splits)
  next
    case (Some x)
    obtain t q m where x: "x = (t, q, m)" by (cases x)
    have q: "p < q" "q + m = p + n" using r(2) Some x by auto
    obtain l where l: "asn1_get_length d q m = Inr l" "\<And>q' i k. l = Some (q', i, k) \<Longrightarrow> q < q' \<and> q' \<le> q + m"
      using asn1_get_length_safe [of q m d] q assms by auto
    show ?thesis using r(1) Some x l q assms False
      by (fastforce simp add: ASN1_get_object_def idx_def split: if_splits option.splits)
  qed
qed

section \<open>The digests\<close>

lemma unat_byte: "unat (b :: u8) < 256"
  using unsigned_less [where 'b = 8, of b] by simp

lemma nybble_hex_value: "unat v < 16 \<Longrightarrow> unat (nybble_hex v False) = (if unat v < 10 then 48 + unat v else 87 + unat v)"
  by (auto simp add: nybble_hex_def word_less_nat_alt unat_word_ariths unat_sub_if' split: if_splits)

lemma nybbles: "unat (drop_bit 4 b AND 0x0f :: u8) = unat b div 16" "unat (b AND 0x0f :: u8) = unat b mod 16"
proof -
  have m: "(0x0f :: u8) = mask 4" by (simp add: mask_eq_exp_minus_1)
  show l: "unat (b AND 0x0f :: u8) = unat b mod 16"
    unfolding m take_bit_eq_mask [symmetric] by (simp add: unsigned_take_bit_eq take_bit_eq_mod unat_mod)
  have "unat b div 16 < 16" using unat_byte [of b] by simp
  then show "unat (drop_bit 4 b AND 0x0f :: u8) = unat b div 16"
    unfolding m take_bit_eq_mask [symmetric] by (simp add: unsigned_take_bit_eq take_bit_eq_mod unat_mod unat_div unat_drop_bit_eq drop_bit_eq_div)
qed

definition hex2 :: "u8 \<Rightarrow> bytes" where
  "hex2 b = [nybble_hex (drop_bit 4 b AND 0x0f) False, nybble_hex (b AND 0x0f) False]"

lemma hex2_inj: "hex2 a = hex2 b \<Longrightarrow> a = b"
proof -
  assume h: "hex2 a = hex2 b"
  have n: "unat x = unat y" if "nybble_hex x False = nybble_hex y False" "unat x < 16" "unat y < 16" for x y
    using that nybble_hex_value [of x] nybble_hex_value [of y] by (auto split: if_splits)
  have eq: "nybble_hex (drop_bit 4 a AND 0x0f) False = nybble_hex (drop_bit 4 b AND 0x0f) False"
      "nybble_hex (a AND 0x0f) False = nybble_hex (b AND 0x0f) False"
    using h by (simp_all only: hex2_def list.inject)
  have le: "unat (drop_bit 4 x AND 0x0f :: u8) < 16" "unat (x AND 0x0f :: u8) < 16" for x
    by (simp_all add: nybbles(2))
  have "unat (drop_bit 4 a AND 0x0f :: u8) = unat (drop_bit 4 b AND 0x0f :: u8)" "unat (a AND 0x0f) = unat (b AND 0x0f)"
    by (rule n [OF eq(1) le(1) le(1)], rule n [OF eq(2) le(2) le(2)])
  then have "unat a div 16 = unat b div 16" "unat a mod 16 = unat b mod 16"
    by (simp only: nybbles(1), simp only: nybbles(2))
  then have "unat a = unat b" by (metis div_mult_mod_eq)
  then show "a = b" by (simp add: word_unat_eq_iff)
qed

lemma hex2_nonzero: "0 \<notin> set (hex2 b)"
proof -
  have "nybble_hex v False \<noteq> 0" if "unat v < 16" for v
    using nybble_hex_value [OF that] by (metis add_is_0 unat_0 zero_neq_numeral)
  then show ?thesis using nybbles [of b] unat_byte [of b] by (simp add: hex2_def)
qed

lemma hex_inj: "concat (map hex2 a) = concat (map hex2 b) \<longleftrightarrow> a = b"
proof (induction a arbitrary: b)
  case Nil
  then show ?case by (cases b) (simp_all add: hex2_def)
next
  case (Cons x a)
  have l: "length (hex2 x) = length (hex2 y)" for x y by (simp add: hex2_def)
  show ?case
  proof (cases b)
    case Nil
    then show ?thesis by (simp add: hex2_def)
  next
    case (Cons y ys)
    then show ?thesis using Cons.IH [of ys] l [of x y] hex2_inj [of x y] by auto
  qed
qed

lemma ascii_eq_strings: "0 \<notin> set a \<Longrightarrow> 0 \<notin> set b \<Longrightarrow> ascii_eq (a @ [0]) (b @ [0]) = Inr (a = b)"
proof (induction a arbitrary: b)
  case Nil
  then show ?case by (cases b) auto
next
  case (Cons x a)
  then show ?case by (cases b) auto
qed

lemma bin_to_hex_65: "bin_to_hex d 65 False = concat (map hex2 (take 32 d)) @ [0]"
  by (simp add: bin_to_hex_def hex2_def [abs_def])

lemma hex_text: "0 \<notin> set (concat (map hex2 d))"
  using hex2_nonzero by auto

text \<open>The attribute messageDigest against the digest of the content: 32 bytes count, and an unknown algorithm has none.\<close>

definition content_digest :: "keyless_env \<Rightarrow> md_nid \<Rightarrow> bytes \<Rightarrow> bytes" where
  "content_digest env nid d = (case nid of NID_sha256 \<Rightarrow> ke_SHA256 env d | NID_sha1 \<Rightarrow> ke_SHA1 env d | NID_other \<Rightarrow> [])"

definition hashes_fit :: "keyless_env \<Rightarrow> bool" where
  "hashes_fit env \<longleftrightarrow> (\<forall>d. length (ke_SHA256 env d) = 32 \<and> length (ke_SHA1 env d) = 20)"

lemma digest_compared:
  assumes "hashes_fit env"
  shows "ascii_eq (bin_to_hex md 65 False) (hash_to_hex env nid d) = Inr (take 32 md = content_digest env nid d)"
proof -
  have "hash_to_hex env nid d = concat (map hex2 (content_digest env nid d)) @ [0]"
    using assms by (auto simp add: hash_to_hex_def bin_to_hex_65 content_digest_def hashes_fit_def split: md_nid.splits)
  then show ?thesis
    unfolding bin_to_hex_65 by (simp only: ascii_eq_strings [OF hex_text hex_text] hex_inj)
qed

section \<open>The verdict on a signature\<close>

definition digest_info_ok :: "keyless_env \<Rightarrow> bytes \<Rightarrow> bytes \<Rightarrow> bytes \<Rightarrow> bool" where
  "digest_info_ok env di sha256 sha1 \<longleftrightarrow>
     (case ke_d2i_X509_SIG env di of
        None \<Rightarrow> True
      | Some e \<Rightarrow> e \<noteq> None \<and> (length (the e) = 32 \<and> the e = sha256 \<or> length (the e) = 20 \<and> the e = sha1))"

lemma embedded_digest_der:
  assumes "low_tag t" and "length f < 2 ^ 63"
  shows "embedded_digest_ok env (der t f @ di) sha256 sha1 = Inr (di = [] \<or> digest_info_ok env di sha256 sha1)"
proof -
  have l: "length (der t f) = Suc (length (der_len (length f))) + length f" by (simp add: der_def)
  show ?thesis
    unfolding embedded_digest_ok_def get_object_der [OF assms]
    using l by (auto simp add: digest_info_ok_def split: option.splits)
qed

lemma embedded_digest_safe: "\<exists>ok. embedded_digest_ok env seq sha256 sha1 = Inr ok"
  using get_object_safe [of 0 "length seq" seq] by (auto simp add: embedded_digest_ok_def split: option.splits prod.splits)

lemma ascii_eq_hex: "hashes_fit env \<Longrightarrow> \<exists>m. ascii_eq (bin_to_hex md 65 False) (hash_to_hex env nid d) = Inr m"
  by (simp add: digest_compared)

lemma extract_safe:
  assumes "hashes_fit env"
  shows "extract_verification_data env p7 sha256 sha1 \<noteq> Inl e"
proof -
  let ?c = "p7_content p7"
  obtain r where "ASN1_get_object ?c 0 (length ?c) = Inr r"
    using get_object_safe [of 0 "length ?c" ?c] by auto
  moreover obtain ok where "\<And>seq. embedded_digest_ok env seq sha256 sha1 = Inr (ok seq)"
    using choice [of "\<lambda>seq ok. embedded_digest_ok env seq sha256 sha1 = Inr ok"] embedded_digest_safe by blast
  ultimately show ?thesis
    by (simp add: extract_verification_data_def Let_def digest_compared [OF assms] split: list.splits option.splits)
qed

definition content_attested :: "keyless_env \<Rightarrow> signer_info \<Rightarrow> bytes \<Rightarrow> bool" where
  "content_attested env si seq \<longleftrightarrow>
     (\<exists>md. si_messageDigest si = Some md \<and> take 32 md = content_digest env (si_digest_nid si) seq)"

lemma extract_der:
  assumes "hashes_fit env" and "p7_signed p7" and "p7_signer_info p7 = si # sis"
    and "p7_content p7 = der 0x30 seq @ rest" and "seq = der t f @ di" and "low_tag t" and "length seq < 2 ^ 63"
  shows "extract_verification_data env p7 sha256 sha1
    = Inr (if content_attested env si seq \<and> (di = [] \<or> digest_info_ok env di sha256 sha1)
           then (True, sig_texts env p7 si) else (False, no_text))"
proof -
  have t: "low_tag 0x30" by (simp add: low_tag_def)
  have f: "length f < 2 ^ 63" using assms(5,7) by (simp add: der_def)
  have g: "ASN1_get_object (p7_content p7) 0 (length (p7_content p7)) = Inr (Some (16, Suc (length (der_len (length seq))), length seq))"
    using get_object_der [OF t assms(7), of rest] unfolding assms(4) by simp
  have s: "take (length seq) (drop (Suc (length (der_len (length seq)))) (p7_content p7)) = seq"
    "Suc (length (der_len (length seq))) + length seq \<le> length (p7_content p7)" "p7_content p7 \<noteq> []"
    unfolding assms(4) by (simp_all add: der_def)
  have e: "embedded_digest_ok env seq sha256 sha1 = Inr (di = [] \<or> digest_info_ok env di sha256 sha1)"
    unfolding assms(5) by (rule embedded_digest_der [OF assms(6) f])
  show ?thesis
    using s by (simp add: extract_verification_data_def assms(2,3) g e digest_compared [OF assms(1)] content_attested_def split: option.splits)
qed

text \<open>
  C13. On a signature whose content is the DER of a sequence of an object and a DigestInfo, the
  extraction succeeds exactly when the first 32 bytes of messageDigest are the digest of the content
  under the algorithm of the signer, the empty one when it is not known, and when the DigestInfo
  holds the digest of the file, is missing or cannot be parsed.
\<close>

theorem extract_verdict:
  assumes "hashes_fit env" and "p7_signed p7" and "p7_signer_info p7 = si # sis"
    and "p7_content p7 = der 0x30 seq @ rest" and "seq = der t f @ di" and "low_tag t" and "length seq < 2 ^ 63"
  shows "extract_verification_data env p7 sha256 sha1
    = Inr (if content_attested env si seq \<and> (di = [] \<or> digest_info_ok env di sha256 sha1)
           then (True, sig_texts env p7 si) else (False, no_text))"
  using assms by (rule extract_der)

text \<open>A signature of the content \<open>di\<close>.\<close>

definition demo_signer :: signer_info where
  "demo_signer = \<lparr>si_digest_nid = NID_sha256, si_messageDigest = Some (demo_hash 9), si_auth_attr = None, si_enc_digest = [1, 2]\<rparr>"

definition demo_p7 :: "bytes \<Rightarrow> pkcs7" where
  "demo_p7 di = \<lparr>p7_signed = True, p7_content = der 0x30 (der 0x30 [] @ di), p7_signer_info = [demo_signer], p7_cert = None\<rparr>"

definition demo_keyless :: keyless_env where
  "demo_keyless = \<lparr>ke_pool = \<lambda>n. True, ke_SHA256 = \<lambda>d. demo_hash 9, ke_SHA1 = \<lambda>d. replicate 20 0,
     ke_d2i_PKCS7 = \<lambda>d. if d = [1, 2, 3, 4, 5, 6, 7, 8] then Some (demo_p7 [1]) else None,
     ke_d2i_X509_SIG = \<lambda>d. if d = [1] then Some (Some (demo_hash 8)) else None, ke_base64 = Some\<rparr>"

lemma demo_p7_simps [simp]: "p7_signed (demo_p7 di)" "p7_signer_info (demo_p7 di) = [demo_signer]"
    "p7_content (demo_p7 di) = der 0x30 (der 0x30 [] @ di) @ []"
  by (simp_all add: demo_p7_def)

lemma demo_hashes_fit: "hashes_fit demo_keyless"
  by (simp add: hashes_fit_def demo_keyless_def demo_hash_def)

lemma demo_digest_info:
  "digest_info_ok demo_keyless [1] h256 h1 \<longleftrightarrow> h256 = demo_hash 8" "digest_info_ok demo_keyless [2] h256 h1"
  "content_attested demo_keyless demo_signer seq"
  by (auto simp add: digest_info_ok_def demo_keyless_def demo_hash_def content_attested_def content_digest_def demo_signer_def)

text \<open>The file with the digest that was signed, another one, and any file when nobody can parse what was signed.\<close>

lemma extract_verdict_witness:
  "extract_verification_data demo_keyless (demo_p7 [1]) (demo_hash 8) [] = Inr (True, sig_texts demo_keyless (demo_p7 [1]) demo_signer)
   \<and> extract_verification_data demo_keyless (demo_p7 [1]) (demo_hash 7) [] = Inr (False, no_text)
   \<and> extract_verification_data demo_keyless (demo_p7 [2]) (demo_hash 7) [] = Inr (True, sig_texts demo_keyless (demo_p7 [2]) demo_signer)"
proof -
  have t: "low_tag 0x30" and n: "length (der 0x30 [] @ [x]) < 2 ^ 63" for x by (simp_all add: low_tag_def der_def der_len_def)
  have "demo_hash 7 \<noteq> demo_hash 8" by (simp add: demo_hash_def)
  then show ?thesis
    unfolding extract_verdict [OF demo_hashes_fit demo_p7_simps refl t n] by (simp add: demo_digest_info)
qed

section \<open>The signature of a file\<close>

definition record_at :: "mbuf \<Rightarrow> u64 \<Rightarrow> u64 \<Rightarrow> u64 \<Rightarrow> nat \<Rightarrow> nat \<Rightarrow> bool" where
  "record_at b data n start sz pos \<longleftrightarrow>
     (\<exists>len. ImageAddress data n (start + word_of_nat pos) = Some (data + (start + word_of_nat pos))
        \<and> rd32 b (data + (start + word_of_nat pos)) = Inr len \<and> 8 \<le> unat len \<and> pos + unat len \<le> sz)"

lemma align_up8: "8 dvd align_up8 n"
  by (simp add: align_up8_def)

lemma last_record_safe:
  assumes "in_buf b data (unat start + sz)" and "8 dvd sz" and "unat data + unat start + sz < 2 ^ 64"
    and "8 dvd offset" and "\<forall>pos. last_off = Some pos \<longrightarrow> record_at b data n start sz pos"
  shows "safely (last_record b data n start sz offset last_off) (\<lambda>r. \<forall>pos. r = Some pos \<longrightarrow> record_at b data n start sz pos)"
  using assms
proof (induction b data n start sz offset last_off rule: last_record.induct)
  case (1 b data n start sz offset last_off)
  let ?w = "data + (start + word_of_nat offset)"
  note IH = 1(1) and buf = 1(2) and d = 1(3,5) and bound = 1(4) and l = 1(6)
  show ?case
  proof (cases "sz \<le> offset \<or> ImageAddress data n (start + word_of_nat offset) = None")
    case True
    then show ?thesis using l by (auto simp add: last_record.simps [of b data n start sz offset])
  next
    case False
    then have w: "ImageAddress data n (start + word_of_nat offset) = Some ?w" and o: "offset < sz"
      by (auto simp add: ImageAddress_Some)
    have o8: "offset + 8 \<le> sz" using d o by presburger
    have u: "unat (start + word_of_nat offset) = unat start + offset"
      using o bound by (intro unat_small_u64) (simp_all add: unat_of_nat_u64)
    have f: "in_buf b ?w 4" "in_buf b (?w + 6) 2"
    proof -
      show "in_buf b ?w 4" using o8 u by (intro in_buf_field [OF buf]) simp
      have "unat (start + word_of_nat offset + 6) = unat start + offset + 6"
        using o8 u bound by (intro unat_small_u64) simp_all
      then show "in_buf b (?w + 6) 2" using o8 in_buf_field [OF buf, of "start + word_of_nat offset + 6" 2] by (simp add: add.assoc)
    qed
    have "safely (bindR (rd32 b ?w) (\<lambda>wlen.
            if unat wlen < 8 \<or> sz - offset < unat wlen then Inr last_off
            else bindR (rd16 b (?w + 6)) (\<lambda>ty.
              last_record b data n start sz (align_up8 (offset + unat wlen)) (if ty = 2 then Some offset else last_off))))
        (\<lambda>r. \<forall>pos. r = Some pos \<longrightarrow> record_at b data n start sz pos)"
    proof (rule safely_rd32 [OF f(1)])
      fix wlen assume r: "rd32 b ?w = Inr wlen"
      show "safely (if unat wlen < 8 \<or> sz - offset < unat wlen then Inr last_off
            else bindR (rd16 b (?w + 6)) (\<lambda>ty.
              last_record b data n start sz (align_up8 (offset + unat wlen)) (if ty = 2 then Some offset else last_off)))
        (\<lambda>r. \<forall>pos. r = Some pos \<longrightarrow> record_at b data n start sz pos)"
      proof (cases "unat wlen < 8 \<or> sz - offset < unat wlen")
        case False
        have rec: "record_at b data n start sz offset"
          using w r False o by (auto simp add: record_at_def)
        show ?thesis
          unfolding if_not_P [OF False]
        proof (rule safely_rd16 [OF f(2)])
          fix ty assume ty: "rd16 b (?w + 6) = Inr ty"
          show "safely (last_record b data n start sz (align_up8 (offset + unat wlen)) (if ty = 2 then Some offset else last_off))
            (\<lambda>r. \<forall>pos. r = Some pos \<longrightarrow> record_at b data n start sz pos)"
            using o l rec by (intro IH [OF _ w r False ty buf d(1) bound align_up8]) auto
        qed
      qed (use l in simp)
    qed
    then show ?thesis using w o by (simp add: last_record.simps [of b data n start sz offset])
  qed
qed

text \<open>The bytes of a file that are handed to OpenSSL: a record of the certificate table without its header.\<close>

definition record_bytes :: "mbuf \<Rightarrow> nat \<Rightarrow> bytes \<Rightarrow> bool" where
  "record_bytes b va d \<longleftrightarrow> (\<exists>i n. va + 8 \<le> i \<and> i + n \<le> length (mb_data b) \<and> d = take n (drop i (mb_data b)))"

lemma last_record_no_status: "last_record b data n start sz offset last_off \<noteq> Inl (Status st)"
proof (induction b data n start sz offset last_off rule: last_record.induct)
  case (1 b data n start sz offset last_off)
  show ?case
    by (subst last_record.simps)
       (use 1 in \<open>auto simp add: bindR_eq_Inl rd_not_status split: option.splits if_splits\<close>)
qed

lemma extract_total: "hashes_fit env \<Longrightarrow> \<exists>ok texts. \<forall>p7. extract_verification_data env p7 sha256 sha1 = Inr (ok p7, texts p7)"
proof -
  assume h: "hashes_fit env"
  have "\<forall>p7. \<exists>r. extract_verification_data env p7 sha256 sha1 = Inr r"
  proof
    show "\<exists>r. extract_verification_data env p7 sha256 sha1 = Inr r" for p7
      using extract_safe [OF h] by (cases "extract_verification_data env p7 sha256 sha1") auto
  qed
  then obtain r where "\<forall>p7. extract_verification_data env p7 sha256 sha1 = Inr (r p7)" by metis
  then show ?thesis by (intro exI [of _ "\<lambda>p. fst (r p)"] exI [of _ "\<lambda>p. snd (r p)"]) simp
qed

lemma record_load:
  assumes f: "is_file b data datasize" and "unat start = va" and "va + pos + unat len \<le> unat datasize" and "8 \<le> unat len"
  shows "\<exists>d. load b (data + (start + word_of_nat pos) + 8) (unat len - 8) = Inr d \<and> record_bytes b va d"
proof -
  let ?p = "start + word_of_nat pos + 8"
  have ds: "unat datasize < 2 ^ 32" using unat_u32_bound [of datasize] by simp
  have "unat (start + word_of_nat pos) = va + pos"
    using assms ds by (intro unat_small_u64) (simp_all add: unat_of_nat_u64)
  then have u: "unat ?p = va + pos + 8" using assms ds by (intro unat_small_u64) simp_all
  have l: "length (mb_data b) = unat datasize" "off b (data + ?p) = va + pos + 8" using f u by (simp_all add: is_file_def off_def)
  then have "load b (data + ?p) (unat len - 8) = Inr (take (unat len - 8) (drop (va + pos + 8) (mb_data b)))"
    using assms(3,4) by (simp add: load_def in_buf_def)
  moreover have "record_bytes b va (take (unat len - 8) (drop (va + pos + 8) (mb_data b)))"
    using assms(3,4) l unfolding record_bytes_def by (intro exI [of _ "va + pos + 8"] exI [of _ "unat len - 8"]) simp
  ultimately show ?thesis by (simp add: add.assoc)
qed


text \<open>The file of the header theory with a certificate table behind it.\<close>

definition signed_pe_bytes :: bytes where
  "signed_pe_bytes = [0x4d, 0x5a] @ replicate 58 0 @ le_bytes 4 64
     @ le_bytes 2 0x4550 @ [0, 0] @ le_bytes 2 0x8664 @ le_bytes 2 1 @ replicate 12 0 @ le_bytes 2 240 @ le_bytes 2 0
     @ le_bytes 2 0x20b @ replicate 14 0 @ le_bytes 4 0x1000 @ replicate 4 0
     @ le_bytes 8 0x40000 @ le_bytes 4 0x1000 @ le_bytes 4 0x200
     @ replicate 16 0 @ le_bytes 4 0x3000 @ le_bytes 4 376 @ replicate 6 0 @ le_bytes 2 0x100
     @ replicate 36 0 @ le_bytes 4 16 @ replicate 32 0 @ le_bytes 4 392 @ le_bytes 4 16 @ replicate 88 0
     @ [0x2e, 0x74, 0x65, 0x78, 0x74, 0, 0, 0] @ le_bytes 4 0x1000 @ le_bytes 4 0x1000 @ le_bytes 4 16 @ le_bytes 4 376
     @ replicate 12 0 @ le_bytes 4 0x60000020 @ replicate 8 0 @ replicate 16 0xC3
     @ le_bytes 4 16 @ le_bytes 2 0x200 @ le_bytes 2 2 @ [1, 2, 3, 4, 5, 6, 7, 8]"

definition signed_pe :: mbuf where "signed_pe = \<lparr>mb_base = 0x10000, mb_data = signed_pe_bytes\<rparr>"

lemma signed_length: "length (mb_data signed_pe) = 408" "mb_base signed_pe = 0x10000"
  by (simp_all add: signed_pe_def signed_pe_bytes_def)

lemma signed_is_file: "is_file signed_pe 0x10000 408"
  by (simp add: is_file_def signed_length)

lemma signed_reads:
  "rd16 signed_pe 65536 = Inr 23117"
  "rd32 signed_pe 65596 = Inr 64"
  "rd16 signed_pe 65624 = Inr 523"
  "rd16 signed_pe 65604 = Inr 34404"
  "rd32 signed_pe 65732 = Inr 16"
  "rd32 signed_pe 65684 = Inr 376"
  "rd32 signed_pe 65680 = Inr 12288"
  "rd32 signed_pe 65656 = Inr 4096"
  "rd32 signed_pe 65660 = Inr 512"
  "rd16 signed_pe 65606 = Inr 1"
  "rd16 signed_pe 65620 = Inr 240"
  "rd16 signed_pe 65600 = Inr 17744"
  "rd16 signed_pe 65622 = Inr 0"
  "rd64 signed_pe 65648 = Inr 262144"
  "rd32 signed_pe 65640 = Inr 4096"
  "rd16 signed_pe 65694 = Inr 256"
  "rd32 signed_pe 65768 = Inr 392"
  "rd32 signed_pe 65772 = Inr 16"
  by (simp_all add: rd16_def rd32_def rd64_def load_def in_buf_def off_def signed_pe_def signed_pe_bytes_def le_nat_le_bytes)

lemma signed_read_header: "read_header demo_pe_env signed_pe 0x10000 408 = Inr demo_ctx"
  by (simp add: read_header_def find_pe_header_def signed_reads guardR_def image_is_64_bit_def read_pe_header_def
      image_is_loadable_def read_opt_header_def directories_ok_def section_table_offset_def section_table_fits_def
      checked_add_def checked_sub_def checked_mul_def orelse_status_def Let_def demo_pe_env_def demo_ctx_def machine_type_def
      adjust_alignment_def allow_64_bit_def EFI_IMAGE_NT_OPTIONAL_HDR64_MAGIC_def IMAGE_FILE_MACHINE_X64_def IMAGE_FILE_MACHINE_I386_def PAGE_SIZE_def)

lemma signed_section:
  "read_section signed_pe (section_ptr demo_ctx 0) = read_section demo_pe (section_ptr demo_ctx 0)"
  by (simp add: demo_section) (simp add: read_section_def section_ptr_def demo_ctx_def rd16_def rd32_def load_def in_buf_def off_def
      signed_pe_def signed_pe_bytes_def le_nat_le_bytes)

lemma signed_vma: "get_section_vma signed_pe demo_ctx 0 0x10000 = get_section_vma demo_pe demo_ctx 0 0x10000"
  by (simp add: get_section_vma_def signed_section)

lemma signed_sort: "sort_sections signed_pe 0x10000 408 demo_ctx 376 1 0 0 [zero_section] = sort_sections demo_pe 0x10000 400 demo_ctx 376 1 0 0 [zero_section]"
  by (simp add: demo_vma signed_vma)

lemma signed_load: "unat (p - 0x10000) + n \<le> 408 \<Longrightarrow> load signed_pe p n = Inr (file_slice (mb_data signed_pe) (unat (p - 0x10000)) (unat (p - 0x10000) + n))"
  by (simp add: load_def in_buf_def off_def signed_length file_slice_def)

lemma signed_hash_range:
  "check_size 0x10000 408 p n \<Longrightarrow> unat (p - 0x10000) + unat n \<le> 408 \<Longrightarrow>
   hash_range (demo_sha f) (demo_sha g) signed_pe 0x10000 408 h p n =
     (let bs = file_slice (mb_data signed_pe) (unat (p - 0x10000)) (unat (p - 0x10000) + unat n) in Inr (fst h @ bs, snd h @ bs))"
  by (simp add: hash_range_def signed_load Let_def orelse_status_def bind_guardR)

lemma signed_hash_headers:
  "\<exists>m. hash_headers (demo_sha f) (demo_sha g) signed_pe 0x10000 408 demo_ctx h = Inr (fst h @ m, snd h @ m)"
  by (simp add: hash_headers_def demo_ctx_def signed_hash_range check_size_def Let_def bind_guardR)

lemma signed_generate_hash:
  "\<exists>m. generate_hash (demo_sha f) (demo_sha g) (\<lambda>n. True) signed_pe 0x10000 408 demo_ctx = Inr (f m, g m, demo_ctx)"
proof -
  obtain m where m: "hash_headers (demo_sha f) (demo_sha g) signed_pe 0x10000 408 demo_ctx ([], []) = Inr (m, m)"
    using signed_hash_headers [where h = "([], [])"] by auto
  have fx: "fix_sections signed_pe 0x10000 408 64 demo_ctx = Inr demo_ctx"
    by (simp add: fix_sections_def demo_ctx_def)
  have f: "c_SizeOfHeaders demo_ctx = 376" "c_NumberOfSections demo_ctx = 1" "c_SecDir demo_ctx = 0x10000 + 64 + 136 + 32"
    by (simp_all add: demo_ctx_def)
  have "\<exists>n. hash_body (demo_sha f) (demo_sha g) (\<lambda>n. True) signed_pe 0x10000 408 (m, m) demo_ctx = Inr (f n, g n, demo_ctx)"
    unfolding hash_body_def
    by (simp add: f signed_sort [simplified] demo_sort [simplified] bind_guardR ImageAddress_def checked_add_def orelse_status_def
       signed_hash_range check_size_def Let_def hash_rest_def signed_reads) blast
  then show ?thesis
    by (simp add: generate_hash_def bind_guardR signed_reads orelse_status_def m fx)
qed

text \<open>Its signature is the one above, of a file with the digest that the hash function has.\<close>

definition demo_texts :: sig_text where "demo_texts = (None, Some [1, 2, 0], None)"

lemma demo_sig_texts: "sig_texts demo_keyless (demo_p7 di) demo_signer = demo_texts"
  by (simp add: sig_texts_def demo_signer_def demo_p7_def demo_keyless_def demo_texts_def signed_attrs_def b64_encode_def)

lemma signed_last_record: "last_record signed_pe 0x10000 408 392 16 0 None = Inr (Some 0)"
proof -
  have "rd32 signed_pe 65928 = Inr 16" "rd16 signed_pe 65934 = Inr 2"
    by (simp_all add: rd16_def rd32_def load_def in_buf_def off_def signed_pe_def signed_pe_bytes_def le_nat_le_bytes)
  then show ?thesis
    by (simp add: last_record.simps [of signed_pe "0x10000" 408 392 16 0 None]
        last_record.simps [of signed_pe "0x10000" 408 392 16 16 "Some 0"] ImageAddress_def checked_add_def align_up8_def)
qed

lemma signed_parse:
  "osign_parse_pkcs7 demo_keyless (demo_sha256 8) demo_sha1 signed_pe 0x10000 408 demo_ctx = Inr (EFI_SUCCESS, demo_texts)"
proof -
  obtain m where g: "generate_hash (demo_sha256 8) demo_sha1 (\<lambda>n. True) signed_pe 0x10000 408 demo_ctx = Inr (demo_hash 8, replicate 20 0, demo_ctx)"
    using signed_generate_hash [of "\<lambda>_. demo_hash 8" "\<lambda>_. replicate 20 0"] by (auto simp add: demo_sha256_def demo_sha1_def)
  have d: "rd32 signed_pe 65928 = Inr 16" "load signed_pe 65936 8 = Inr [1, 2, 3, 4, 5, 6, 7, 8]"
    by (simp_all add: rd32_def load_def in_buf_def off_def signed_pe_def signed_pe_bytes_def le_nat_le_bytes)
  have k: "ke_d2i_PKCS7 demo_keyless [1, 2, 3, 4, 5, 6, 7, 8] = Some (demo_p7 [1])" "ke_pool demo_keyless = (\<lambda>n. True)"
    by (simp_all add: demo_keyless_def)
  have c: "c_SecDir demo_ctx = 65768" by (simp add: demo_ctx_def)
  have e: "extract_verification_data demo_keyless (demo_p7 [1]) (demo_hash 8) (replicate 20 0) = Inr (True, demo_texts)"
  proof -
    have t: "low_tag 0x30" and n: "length (der 0x30 [] @ [1]) < 2 ^ 63" by (simp_all add: low_tag_def der_def der_len_def)
    show ?thesis
      unfolding extract_der [OF demo_hashes_fit demo_p7_simps refl t n] by (simp add: demo_digest_info demo_sig_texts)
  qed
  show ?thesis
    by (simp add: osign_parse_pkcs7_def c signed_reads Let_def k g signed_last_record ImageAddress_def checked_add_def d e)
qed


end
