(* ===== verification/RemoteCheck.thy ===== *)
theory RemoteCheck
  imports KeylessSpec
begin

text \<open>
  The remote check as a whole: the request carries the texts of the signature, its answer is not
  read, and the variables it leaves behind break the requests after it.
\<close>

section \<open>What the answer of the server is for\<close>

definition same_answer :: "http_message \<Rightarrow> http_message \<Rightarrow> bool" where
  "same_answer m m' \<longleftrightarrow> hm_StatusCode m' = hm_StatusCode m \<and> hm_Headers m' = hm_Headers m
     \<and> length (hm_Body m') = length (hm_Body m)"

text \<open>Two networks that answer alike, except for what is in the bodies.\<close>

definition same_but_bodies :: "('w, 'n) http_env \<Rightarrow> ('w, 'n) http_env \<Rightarrow> bool" where
  "same_but_bodies e e' \<longleftrightarrow> e' = e\<lparr>he_done := he_done e'\<rparr>
     \<and> (\<forall>w. rel_option (rel_prod (=) same_answer) (he_done e w) (he_done e' w))"

lemma same_but_bodies_sym:
  assumes "same_but_bodies e e'"
  shows "same_but_bodies e' e"
proof -
  have "rel_option (rel_prod (=) same_answer) (he_done e' w) (he_done e w)" for w
  proof -
    have "rel_option (rel_prod (=) same_answer) (he_done e w) (he_done e' w)" using assms by (simp add: same_but_bodies_def)
    then show ?thesis by (cases "he_done e w"; cases "he_done e' w") (auto simp add: same_answer_def)
  qed
  moreover have "e = e'\<lparr>he_done := he_done e\<rparr>"
    using assms unfolding same_but_bodies_def by (metis (no_types, lifting) http_env.surjective http_env.update_convs(23))
  ultimately show ?thesis by (simp add: same_but_bodies_def)
qed

lemma same_fields:
  assumes "same_but_bodies e e'"
  shows "he_pool e' = he_pool e" "he_PoolPrint e' = he_PoolPrint e" "he_AsciiSPrint_d e' = he_AsciiSPrint_d e"
    "he_handles e' = he_handles e" "he_OpenProtocol e' = he_OpenProtocol e" "he_CreateChild e' = he_CreateChild e"
    "he_DestroyChild e' = he_DestroyChild e" "he_HandleProtocol e' = he_HandleProtocol e" "he_Configure e' = he_Configure e"
    "he_CreateEvent e' = he_CreateEvent e" "he_CloseEvent e' = he_CloseEvent e" "he_Request e' = he_Request e"
    "he_Response e' = he_Response e" "he_Poll e' = he_Poll e"
  using assms unfolding same_but_bodies_def by (metis (no_types, lifting) http_env.ext_inject http_env.surjective http_env.update_convs(23))+

text \<open>Results that are related, and loops: a relation that goes both ways covers those that do not return.\<close>

abbreviation rel_res :: "('a \<Rightarrow> 'b \<Rightarrow> bool) \<Rightarrow> 'a res option \<Rightarrow> 'b res option \<Rightarrow> bool" where
  "rel_res R \<equiv> rel_option (rel_sum (=) R)"

lemma rel_optionI:
  assumes "\<And>r. x = Some r \<Longrightarrow> \<exists>r'. y = Some r' \<and> R r r'" and "\<And>r'. y = Some r' \<Longrightarrow> x \<noteq> None"
  shows "rel_option R x y"
  using assms by (cases x; cases y) fastforce+

lemma rel_res_bindO:
  assumes "rel_res R x y" and "\<And>a b. R a b \<Longrightarrow> rel_res S (f a) (g b)"
  shows "rel_res S (bindO x f) (bindO y g)"
  using assms by (cases x; cases y) (auto simp add: bindO_def split: sum.splits elim!: rel_sum.cases)

lemma rel_res_eq: "rel_res (=) x y \<longleftrightarrow> x = y"
  by (simp add: sum.rel_eq option.rel_eq)

lemma poll_loop_sim:
  assumes "poll_loop e w = Some r"
  shows "same_but_bodies e e' \<longrightarrow> (\<exists>m'. poll_loop e' w = Some ((fst (fst r), m'), snd r) \<and> same_answer (snd (fst r)) m')"
proof (rule poll_loop.raw_induct [OF _ assms], intro impI)
  fix loop and e :: "('a, 'b) http_env" and w r
  assume ih: "\<And>e w r. loop e w = Some r \<Longrightarrow>
      same_but_bodies e e' \<longrightarrow> (\<exists>m'. poll_loop e' w = Some ((fst (fst r), m'), snd r) \<and> same_answer (snd (fst r)) m')"
    and body: "(case he_done e w of Some r \<Rightarrow> Some (r, w) | None \<Rightarrow> loop e (he_Poll e w)) = Some r"
    and s: "same_but_bodies e e'"
  have d: "rel_option (rel_prod (=) same_answer) (he_done e w) (he_done e' w)" using s by (simp add: same_but_bodies_def)
  show "\<exists>m'. poll_loop e' w = Some ((fst (fst r), m'), snd r) \<and> same_answer (snd (fst r)) m'"
  proof (cases "he_done e w")
    case None
    then have "he_done e' w = None" using d by (cases "he_done e' w") auto
    then show ?thesis using ih [of e "he_Poll e w" r] body None s same_fields [OF s] by (simp add: poll_loop.simps [of e' w])
  next
    case (Some x)
    then obtain m' where "he_done e' w = Some (fst x, m')" "same_answer (snd x) m'"
      using d by (cases "he_done e' w"; cases x) auto
    then show ?thesis using body Some by (auto simp add: poll_loop.simps [of e' w])
  qed
qed

lemma poll_loop_rel:
  assumes "same_but_bodies e e'"
  shows "rel_option (rel_prod (rel_prod (=) same_answer) (=)) (poll_loop e w) (poll_loop e' w)"
proof (rule rel_optionI)
  fix r assume "poll_loop e w = Some r"
  then show "\<exists>r'. poll_loop e' w = Some r' \<and> rel_prod (rel_prod (=) same_answer) (=) r r'"
    using poll_loop_sim [of e w r e'] assms by (cases r) (auto simp add: rel_prod_conv)
next
  fix r assume "poll_loop e' w = Some r"
  then show "poll_loop e w \<noteq> None"
    using poll_loop_sim [of e' w r e] same_but_bodies_sym [OF assms] by auto
qed

definition same_lengths :: "efi_status \<times> bytes \<times> 'w \<Rightarrow> efi_status \<times> bytes \<times> 'w \<Rightarrow> bool" where
  "same_lengths r r' \<longleftrightarrow> fst r = fst r' \<and> length (fst (snd r)) = length (fst (snd r')) \<and> snd (snd r) = snd (snd r')"

lemma download_loop_sim:
  assumes "download_loop e n st buf w = Some r"
  shows "\<forall>buf'. same_but_bodies e e' \<longrightarrow> length buf' = length buf \<longrightarrow>
    (\<exists>r'. download_loop e' n st buf' w = Some r' \<and> rel_sum (=) same_lengths r r')"
proof (rule download_loop.raw_induct [OF _ assms], intro allI impI)
  fix loop and e :: "('a, 'b) http_env" and n st buf w r and buf' :: bytes
  assume ih: "\<And>e n st buf w r. loop e n st buf w = Some r \<Longrightarrow>
      \<forall>buf'. same_but_bodies e e' \<longrightarrow> length buf' = length buf \<longrightarrow>
        (\<exists>r'. download_loop e' n st buf' w = Some r' \<and> rel_sum (=) same_lengths r r')"
    and body: "(if n \<le> length buf then Some (Inr (st, buf, w))
      else case he_Response e w of (st, w) \<Rightarrow>
        if EFI_ERROR st then Some (Inr (st, buf, w))
        else case poll_loop e w of None \<Rightarrow> None
        | Some ((tst, m), w) \<Rightarrow>
            if EFI_ERROR tst then Some (Inr (tst, buf, w))
            else if sizeof_rx_buffer < length (hm_Body m) then Some (Inl Fault)
            else if n < length (hm_Body m) + length buf then Some (Inr (EFI_BAD_BUFFER_SIZE, buf, w))
            else loop e n st (buf @ hm_Body m) w) = Some r"
    and s: "same_but_bodies e e'" and l: "length buf' = length buf"
  note f = same_fields [OF s]
  obtain s1 w1 where r1: "he_Response e w = (s1, w1)" by fastforce
  show "\<exists>r'. download_loop e' n st buf' w = Some r' \<and> rel_sum (=) same_lengths r r'"
  proof (cases "n \<le> length buf \<or> EFI_ERROR s1")
    case True
    then show ?thesis using body l r1 by (auto simp add: download_loop.simps [of e' n st buf' w] f same_lengths_def)
  next
    case False
    then obtain ts m w2 where p: "poll_loop e w1 = Some ((ts, m), w2)"
      using body r1 by (auto split: option.splits)
    then obtain m' where p': "poll_loop e' w1 = Some ((ts, m'), w2)" "same_answer m m'"
      using poll_loop_rel [OF s, of w1] by (cases "poll_loop e' w1") auto
    have b: "length (hm_Body m') = length (hm_Body m)" using p'(2) by (simp add: same_answer_def)
    show ?thesis
    proof (cases "EFI_ERROR ts \<or> sizeof_rx_buffer < length (hm_Body m) \<or> n < length (hm_Body m) + length buf")
      case True
      then show ?thesis using body False l r1 p p'(1) b
        by (auto simp add: download_loop.simps [of e' n st buf' w] f same_lengths_def)
    next
      case ok: False
      then have "loop e n s1 (buf @ hm_Body m) w2 = Some r" using body False r1 p by simp
      then obtain r' where "download_loop e' n s1 (buf' @ hm_Body m') w2 = Some r'" "rel_sum (=) same_lengths r r'"
        using ih s l b by (metis length_append)
      then show ?thesis using False ok l r1 p'(1) b by (simp add: download_loop.simps [of e' n st buf' w] f)
    qed
  qed
qed

lemma download_loop_rel:
  assumes "same_but_bodies e e'" and "length buf' = length buf"
  shows "rel_res same_lengths (download_loop e n st buf w) (download_loop e' n st buf' w)"
proof (rule rel_optionI)
  show "\<exists>r'. download_loop e' n st buf' w = Some r' \<and> rel_sum (=) same_lengths r r'"
    if "download_loop e n st buf w = Some r" for r
    using download_loop_sim [OF that, of e'] assms by blast
  show "download_loop e n st buf w \<noteq> None" if "download_loop e' n st buf' w = Some r" for r
    using download_loop_sim [OF that, of e] same_but_bodies_sym [OF assms(1)] assms(2) by fastforce
qed

text \<open>The status, whether there is a buffer, its size and the state.\<close>

definition same_fetch :: "efi_status \<times> bytes option \<times> nat \<times> 'w \<Rightarrow> efi_status \<times> bytes option \<times> nat \<times> 'w \<Rightarrow> bool" where
  "same_fetch r r' \<longleftrightarrow> (case (r, r') of ((st, b, n, w), (st', b', n', w')) \<Rightarrow> st = st' \<and> (b = None) = (b' = None) \<and> n = n' \<and> w = w')"

lemma same_fetch_simps [simp]:
  "same_fetch (st, b, n, w) (st', b', n', w') \<longleftrightarrow> st = st' \<and> (b = None) = (b' = None) \<and> n = n' \<and> w = w'"
  by (simp add: same_fetch_def)

lemma receive_rel:
  assumes "same_but_bodies e e'"
  shows "rel_res same_fetch (receive_http_response e w) (receive_http_response e' w)"
proof -
  note f = same_fields [OF assms]
  obtain s1 w1 where c: "he_CreateEvent e w = (s1, w1)" by fastforce
  obtain s2 w2 where r: "he_Response e w1 = (s2, w2)" by fastforce
  show ?thesis
  proof (cases "EFI_ERROR s1 \<or> EFI_ERROR s2")
    case True
    then show ?thesis using c r by (auto simp add: receive_http_response_def f)
  next
    case ok: False
    have p: "rel_option (rel_prod (rel_prod (=) same_answer) (=)) (poll_loop e w2) (poll_loop e' w2)"
      by (rule poll_loop_rel [OF assms])
    show ?thesis
    proof (cases "poll_loop e w2")
      case None
      then have "poll_loop e' w2 = None" using p by (cases "poll_loop e' w2") auto
      then show ?thesis using None c r ok by (simp add: receive_http_response_def f)
    next
      case (Some x)
      obtain ts m w3 where x: "x = ((ts, m), w3)" by (metis surj_pair)
      obtain m' where p': "poll_loop e' w2 = Some ((ts, m'), w3)" and "same_answer m m'"
        using p Some x by (cases "poll_loop e' w2") auto
      then have b: "hm_StatusCode m' = hm_StatusCode m" "hm_Headers m' = hm_Headers m" "length (hm_Body m') = length (hm_Body m)"
        by (simp_all add: same_answer_def)
      have d: "rel_res same_lengths (download_loop e n s2 (hm_Body m) w3) (download_loop e' n s2 (hm_Body m') w3)" for n
        by (rule download_loop_rel [OF assms b(3)])
      show ?thesis
        using c r ok Some x p' by (simp add: receive_http_response_def f b cong: if_cong)
          (auto intro!: rel_res_bindO [OF d] rel_res_bindO [where R = "(=)"] simp add: sum.rel_eq same_lengths_def split: prod.splits)
    qed
  qed
qed

lemma make_request_same:
  assumes "same_but_bodies e e'"
  shows "make_request e' g hostname uri = make_request e g hostname uri"
  unfolding make_request_def same_fields [OF assms] ..

lemma send_http_request_same:
  assumes "same_but_bodies e e'"
  shows "send_http_request e g hostname uri w = send_http_request e' g hostname uri w"
proof -
  note f = same_fields [OF assms]
  have p: "(case poll_loop e w of None \<Rightarrow> None | Some ((tst, m), w) \<Rightarrow> Some (Inr (if EFI_ERROR tst then tst else st, he_CloseEvent e w)))
      = (case poll_loop e' w of None \<Rightarrow> None | Some ((tst, m), w) \<Rightarrow> Some (Inr (if EFI_ERROR tst then tst else st, he_CloseEvent e w)))"
    for w and st :: efi_status
    using poll_loop_rel [OF assms, of w] by (cases "poll_loop e w"; cases "poll_loop e' w") auto
  show ?thesis
    unfolding send_http_request_def f make_request_same [OF assms] p ..
qed

lemma use_child_rel:
  assumes "same_but_bodies e e'"
  shows "rel_res same_fetch (use_child e g hostname uri is_ip6 w) (use_child e' g hostname uri is_ip6 w)"
  unfolding use_child_def same_fields [OF assms] send_http_request_same [OF assms]
  by (auto intro!: rel_res_bindO [where R = "(=)"] receive_rel [OF assms] simp add: sum.rel_eq option.rel_eq split: prod.splits)

lemma http_fetch_rel:
  assumes "same_but_bodies e e'"
  shows "rel_res same_fetch (http_fetch e g device hostname uri is_ip6 w) (http_fetch e' g device hostname uri is_ip6 w)"
  unfolding http_fetch_def same_fields [OF assms]
  by (auto intro!: rel_res_bindO [OF use_child_rel [OF assms]] split: prod.splits)

lemma fetch_buffer_uri_rel:
  assumes "same_but_bodies e e'"
  shows "rel_res same_fetch (httpboot_fetch_buffer_uri e g nic uri w) (httpboot_fetch_buffer_uri e' g nic uri w)"
  unfolding httpboot_fetch_buffer_uri_def same_fields [OF assms]
  by (auto intro!: http_fetch_rel [OF assms] split: sum.splits exc.splits)

lemma cards_same:
  assumes "same_but_bodies (re_http env) e'"
  shows "print_device_path (env\<lparr>re_http := e'\<rparr>) nic w = print_device_path env nic w"
    and "configure_card (env\<lparr>re_http := e'\<rparr>) nic w = configure_card env nic w"
    and "load_network_drivers (env\<lparr>re_http := e'\<rparr>) w = load_network_drivers env w"
    and "binding_loop (env\<lparr>re_http := e'\<rparr>) k w = binding_loop env k w"
proof -
  let ?e = "env\<lparr>re_http := e'\<rparr>"
  have q: "re_files ?e = re_files env" "re_loaded_image ?e = re_loaded_image env" "re_LoadImage ?e = re_LoadImage env"
    "re_StartImage ?e = re_StartImage env" "re_Stall ?e = re_Stall env" "re_OpenPath ?e = re_OpenPath env"
    "re_ClosePath ?e = re_ClosePath env" "re_text_handles ?e = re_text_handles env" "re_OpenText ?e = re_OpenText env"
    "re_GetData ?e = re_GetData env" "re_SetPolicy ?e = re_SetPolicy env"
    "he_pool (re_http ?e) = he_pool (re_http env)" "he_handles (re_http ?e) = he_handles (re_http env)"
    by (simp_all add: same_fields [OF assms])
  have g: "ip4_cfg2_get_data ?e nic w = ip4_cfg2_get_data env nic w" for nic w
    unfolding ip4_cfg2_get_data_def q ..
  have i: "iface_loop ?e nic k w = iface_loop env nic k w" for nic k w
    by (induction k arbitrary: w) (simp_all add: g cong: if_cong)
  show "print_device_path ?e nic w = print_device_path env nic w"
    unfolding print_device_path_def q ..
  show "configure_card ?e nic w = configure_card env nic w"
    unfolding configure_card_def wait_until_get_iface_info_def q g i ..
  have r: "run_driver ?e fh w = run_driver env fh w" for fh w
    unfolding run_driver_def driver_info_def q ..
  have d: "driver_loop ?e root ds w = driver_loop env root ds w" for root ds w
    by (induction ds arbitrary: w) (simp_all add: r cong: if_cong option.case_cong)
  show "load_network_drivers ?e w = load_network_drivers env w"
    unfolding load_network_drivers_def q d ..
  show "binding_loop ?e k w = binding_loop env k w"
    by (induction k arbitrary: w) (simp_all add: same_fields [OF assms] cong: if_cong)
qed

lemma card_loop_same:
  assumes "same_but_bodies (re_http env) e'"
  shows "card_loop env g uri nics st w = card_loop (env\<lparr>re_http := e'\<rparr>) g uri nics st w"
proof (induction nics arbitrary: st w)
  case (Cons nic nics)
  have "bindO (httpboot_fetch_buffer_uri (re_http env) g nic uri w) (\<lambda>(st, buf, n, w).
            if EFI_ERROR st then Some (Inr (st, w)) else card_loop env g uri nics st w)
      = bindO (httpboot_fetch_buffer_uri e' g nic uri w) (\<lambda>(st, buf, n, w).
            if EFI_ERROR st then Some (Inr (st, w)) else card_loop (env\<lparr>re_http := e'\<rparr>) g uri nics st w)" for w
    unfolding rel_res_eq [symmetric]
    by (rule rel_res_bindO [OF fetch_buffer_uri_rel [OF assms]]) (auto simp add: Cons.IH sum.rel_eq option.rel_eq)
  then show ?case by (simp add: cards_same [OF assms] Cons.IH cong: if_cong)
qed simp

lemma send_get_same:
  assumes "same_but_bodies (re_http env) e'"
  shows "send_http_get_request (env\<lparr>re_http := e'\<rparr>) g uri w = send_http_get_request env g uri w"
  unfolding send_http_get_request_def cards_same [OF assms] card_loop_same [OF assms, symmetric] ..

text \<open>
  C3. The remote check does not depend on the bodies of the server's answers: two networks that differ
  only in them, byte for byte, give the same verdict, the same variables and the same state.
\<close>

theorem answer_not_read:
  assumes "same_but_bodies (re_http env) e'"
  shows "remote_check kenv (env\<lparr>re_http := e'\<rparr>) s256 s1 b data n ctx g w = remote_check kenv env s256 s1 b data n ctx g w"
  unfolding remote_check_def osign_http_request_def send_get_same [OF assms] ..

text \<open>A card with an address, and a server that answers with one byte, or with another.\<close>

definition demo_iface :: bytes where "demo_iface = replicate 104 0 @ [10, 0, 2, 15]"

definition demo_network :: "(http_message option \<times> http_message list, nat, nat) request_env" where
  "demo_network = \<lparr>re_http = demo_http,
     re_files = \<lparr>ff_HandleProtocol = \<lambda>w. EFI_NOT_FOUND, ff_OpenVolume = \<lambda>w. (EFI_NOT_FOUND, None, w), ff_Open = \<lambda>w h n. (EFI_NOT_FOUND, None, w),
        ff_Close = \<lambda>w h. w, ff_SetPosition = \<lambda>w h n. (EFI_SUCCESS, w),
        ff_GetInfo = \<lambda>w h n. (EFI_NOT_FOUND, 0, \<lparr>fi_FileSize = 0, fi_Attribute = 0, fi_FileName = []\<rparr>),
        ff_Read = \<lambda>w h n. (EFI_NOT_FOUND, [], w), ff_ReadDir = \<lambda>w h n. (EFI_NOT_FOUND, 0, \<lparr>fi_FileSize = 0, fi_Attribute = 0, fi_FileName = []\<rparr>, w)\<rparr>,
     re_loaded_image = \<lambda>w. True, re_LoadImage = \<lambda>w d. (EFI_NOT_FOUND, False, w), re_StartImage = \<lambda>w. w, re_Stall = \<lambda>w. w,
     re_OpenPath = \<lambda>w n. (EFI_SUCCESS, w), re_ClosePath = \<lambda>w n. w, re_text_handles = \<lambda>w. (EFI_SUCCESS, 1), re_OpenText = \<lambda>w. EFI_SUCCESS,
     re_OpenIp4 = \<lambda>w n. EFI_SUCCESS,
     re_GetData = \<lambda>w nic n. if n < 108 then (EFI_BUFFER_TOO_SMALL, 108, []) else (EFI_SUCCESS, 108, demo_iface),
     re_SetPolicy = \<lambda>w n. (EFI_SUCCESS, w)\<rparr>"

definition demo_variables :: http_globals where
  "demo_variables = \<lparr>hg_mac_addr = [], hg_ip4_node = [], hg_ip6_node = [], hg_is_ip6 = False, hg_uri = None,
     hg_method = HttpMethodGet, hg_tx_body_json = None\<rparr>"

definition one_byte :: "http_message option \<times> http_message list" where
  "one_byte = (None, [ok_answer [0x31] [0x31]])"

definition other_http :: "(http_message option \<times> http_message list, nat) http_env" where
  "other_http = demo_http\<lparr>he_done := \<lambda>w. map_option (\<lambda>(st, m). (st, m\<lparr>hm_Body := map (\<lambda>c. 0x30) (hm_Body m)\<rparr>)) (he_done demo_http w)\<rparr>"

lemma other_http_same: "same_but_bodies (re_http demo_network) other_http"
  by (auto simp add: same_but_bodies_def other_http_def demo_network_def same_answer_def option.rel_map option.rel_refl split: prod.splits
      intro!: option.rel_refl)

lemma demo_hostname: "extract_hostname (\<lambda>n. True) verify_uri = Inr (str8 ''10.0.2.2:8080'' @ [0])"
  by (simp add: extract_hostname_def verify_uri_def str8_def scheme_len_def strncmp_numeral guardR_def get_bytes_def)

lemma json_clean: "0 \<notin> set (json_body t)"
  using cstr_no_nul by (auto simp add: json_body_def json_field_def str8_def split: option.splits prod.splits)

lemma json_fits: "length (json_body t) \<le> json_len t"
proof -
  have f: "length (json_field name v) = length name + text_len v + 5" for name v
    by (simp add: json_field_def text_len_def str8_def split: option.splits)
  show ?thesis by (cases t) (simp add: json_body_def f json_len_def)
qed

text \<open>What is posted: the whole text, whatever its length.\<close>

lemma request_carries_texts:
  "\<exists>r. make_request e (tx_globals g t) hostname uri = Inr r \<and> hr_Method r = HttpMethodPost \<and> hr_Body r = Some (json_body t)"
  using strlen_terminated [OF json_clean [of t], of "[]"] json_fits [of t]
  by (simp add: make_request_def tx_globals_def)

lemma demo_sent: "send_http_request demo_http (tx_globals g t) hostname uri (a, ms)
   = Some (Inr (EFI_SUCCESS, (Some \<lparr>hm_StatusCode = 0, hm_Headers = [], hm_Body = []\<rparr>, ms)))"
  using request_carries_texts [of demo_http g t hostname uri]
  by (auto simp add: send_http_request_def demo_http_def poll_loop.simps)

lemma demo_answered: "receive_http_response demo_http (a, [ok_answer [0x31] [0x31]])
   = Some (Inr (EFI_SUCCESS, Some [0x31], 1, (Some (ok_answer [0x31] [0x31]), [])))"
  by (simp add: receive_http_response_def demo_http_def ok_answer_def poll_loop.simps download_loop.simps
      sizeof_rx_buffer_def HTTP_STATUS_200_OK_def str8_def toupper_def ascii_to_int_def)

lemma demo_fetched: "httpboot_fetch_buffer_uri demo_http (tx_globals demo_variables t) nic verify_uri (a, [ok_answer [0x31] [0x31]])
   = Some (Inr (EFI_SUCCESS, Some [0x31], 1, (Some (ok_answer [0x31] [0x31]), [])))"
proof -
  have d: "he_pool demo_http = (\<lambda>n. True)" "he_OpenProtocol demo_http w n = EFI_SUCCESS" "he_CreateChild demo_http w n = (EFI_SUCCESS, w)"
    "he_DestroyChild demo_http w n = (EFI_SUCCESS, w)" "he_HandleProtocol demo_http w = EFI_SUCCESS"
    "he_Configure demo_http w ip6 = (EFI_SUCCESS, w)" for w n ip6
    by (simp_all add: demo_http_def)
  show ?thesis
    by (simp add: httpboot_fetch_buffer_uri_def http_fetch_def use_child_def d demo_hostname demo_sent demo_answered)
qed

lemma demo_asked: "send_http_get_request demo_network (tx_globals demo_variables t) verify_uri one_byte
   = Some (Inr (EFI_SUCCESS, (Some (ok_answer [0x31] [0x31]), [])))"
proof -
  have l: "load_network_drivers demo_network w = Inr w" for w
    by (simp add: load_network_drivers_def demo_network_def)
  have b: "binding_loop demo_network 30 w = (Some [0], w)" for w
    by (simp add: numeral_eq_Suc demo_network_def demo_http_def)
  have p: "print_device_path demo_network nic w = (EFI_SUCCESS, w)" "re_OpenIp4 demo_network w nic = EFI_SUCCESS" for nic w
    by (simp_all add: print_device_path_def demo_network_def)
  have c: "configure_card demo_network nic w = Inr (EFI_SUCCESS, True, w)" for nic w
    by (simp add: configure_card_def ip4_cfg2_get_data_def demo_network_def demo_http_def demo_iface_def check_ip4_addr_def get_bytes_def)
  have h: "re_http demo_network = demo_http" by (simp add: demo_network_def)
  show ?thesis
    by (simp add: send_http_get_request_def l b one_byte_def p c h demo_fetched)
qed

lemma demo_checked: "remote_check demo_keyless demo_network (demo_sha256 8) demo_sha1 signed_pe 0x10000 408 demo_ctx demo_variables one_byte
   = Some (Inr (EFI_SUCCESS, (tx_globals demo_variables demo_texts)\<lparr>hg_tx_body_json := None\<rparr>, (Some (ok_answer [0x31] [0x31]), [])))"
proof -
  have k: "ke_pool demo_keyless n" for n by (simp add: demo_keyless_def)
  show ?thesis
    by (simp add: remote_check_def signed_parse osign_http_request_def k demo_asked)
qed

text \<open>The server of the second network answers the same file with a zero.\<close>

lemma answer_not_read_witness:
  "\<exists>g' w'. remote_check demo_keyless (demo_network\<lparr>re_http := other_http\<rparr>) (demo_sha256 8) demo_sha1 signed_pe 0x10000 408 demo_ctx
      demo_variables one_byte = Some (Inr (EFI_SUCCESS, g', w')) \<and> he_done other_http w' = Some (EFI_SUCCESS, ok_answer [0x31] [0x30])"
  unfolding answer_not_read [OF other_http_same] demo_checked
  by (simp add: other_http_def demo_http_def ok_answer_def sizeof_rx_buffer_def str8_def)



end
