(* ===== verification/Spec2Isabelle.thy ===== *)
theory Spec2Isabelle
  imports Loader LoadOptions MokMirror FallbackMain SecondStage Hooks Trust MokSafety RemoteCheck
begin

text \<open>
  A verification development for shim, the first-stage UEFI boot loader: the program that the
  firmware starts, that decides which further boot programs may run, loads them, and answers
  their requests to verify what they load in turn.

  \<^bold>\<open>The program.\<close> An untrusted PE file goes through \<open>read_header\<close> (pe-relocate.c), the
  Authenticode digest (pe.c), the deny and allow lists kept in firmware variables and in the
  program itself (shim.c), the revocation check of its .sbat section (sbat.c, csv.c), and then the
  loader (pe.c), which copies, relocates and protects it. Around this, shim mirrors the machine
  owner's variables for the operating system (mok.c), measures what it uses into the TPM (tpm.c),
  reads the load options (load-options.c), starts the second stage and serves it while it runs
  (shim.c, replacements.c), and comes with two more programs: fallback.c, which restores the boot
  entries of the firmware, and MokManager.c, which changes the machine owner's keys for a user
  who knows a password.

  \<^bold>\<open>The theories\<close>, in the order of their imports, and the code they translate:
  \<^item> \<open>ShimPrelude\<close>: status codes, the result type, memory buffers, loads and stores.
  \<^item> \<open>CStr\<close> (lib/string.c, include/str.h), \<open>Csv\<close> (csv.c): C strings, the tokenizer and the
    CSV parser that works in place.
  \<^item> \<open>UefiVars\<close> (lib/variables.c, lib/guid.c): signature lists and the variable wrappers; the
    locale \<open>variable_services\<close> is what they need of the firmware. \<open>MockVars\<close> and \<open>VarNames\<close>
    (mock-variables.c) are the provider under src/, on which the locales are interpreted.
  \<^item> \<open>Sbat\<close>, \<open>SbatSpec\<close> (sbat.c, \<open>verify_sbat_section\<close> of pe.c): sections, the revocation list,
    the verdict, the update of the revocation variables at boot.
  \<^item> \<open>PeHeader\<close>, \<open>Reloc\<close> (pe-relocate.c), \<open>PeHash\<close> (\<open>generate_hash\<close> of pe.c).
  \<^item> \<open>SigDb\<close>, \<open>Verify\<close> (shim.c up to \<open>verify_buffer\<close>), \<open>Loader\<close> (the rest of pe.c).
  \<^item> \<open>Ucs2\<close> (include/ucs2.h), \<open>LoadOptions\<close> (load-options.c).
  \<^item> \<open>Tpm\<close> (tpm.c), \<open>Mok\<close>, \<open>MokSpec\<close>, \<open>MokMirror\<close> (mok.c, globals.c).
  \<^item> \<open>Fallback\<close>, \<open>FallbackMasked\<close>, \<open>FallbackSpec\<close>, \<open>FallbackMain\<close> (fallback.c).
  \<^item> \<open>FileProtocol\<close> (the calls of the file protocol in shim.c), \<open>ShimLock\<close> (the shim lock
    protocol), \<open>SecondStage\<close> (\<open>init_grub\<close> and what it calls), \<open>Trust\<close>
    (\<open>load_unbundled_trust\<close>): the rest of shim.c.
  \<^item> \<open>Hooks\<close> (replacements.c, the installation of the protocol in shim.c): the replaced boot
    services as a state machine that boot programs drive by their calls.
  \<^item> \<open>MokPassword\<close> (PasswordCrypt.c, the password prompt of MokManager.c), \<open>MokKeys\<close> (its key
    lists), \<open>MokManager\<close> (storing and deleting keys), \<open>MokMenu\<close> (the other prompts, the menu, the
    requests); \<open>MokKeysSpec\<close> and \<open>MokUser\<close> hold their specification and the locales
    \<open>mok_user\<close> and \<open>mok_screen\<close> of firmware and user, and \<open>MokSafety\<close> the properties.
  \<^item> \<open>HttpBoot\<close> (httpboot.c): files over HTTP; \<open>HttpSpec\<close> holds what they contain.
  \<^item> \<open>HttpRequest\<close> (http-request.c), \<open>Keyless\<close> (keyless-sign.c, keyless-sup.c and the decoder of tags
    and lengths of Cryptlib/OpenSSL/crypto/asn1/asn1_lib.c): the remote check of a signature;
    \<open>KeylessSpec\<close> says which signatures are sent, \<open>RemoteCheck\<close> what becomes of the answer.

  \<^bold>\<open>How the code is modelled.\<close> A function has the name it has in the source. A status that is
  returned early is \<open>Inl (Status s)\<close>, an access outside an object is \<open>Inl Fault\<close> and never an
  unspecified value, so that a theorem that excludes \<open>Fault\<close> is a memory-safety statement. A
  pointer into an untrusted file or a loaded image is a 64-bit address into an \<open>mbuf\<close>; a pointer
  into another buffer is an index. Integers have the width they have in the code. A loop that may
  not return is a \<open>partial_function\<close> with \<open>None\<close> for not returning, and where the code
  does return this is proved. No fuel is used: a loop with a bound in the code is a recursion on
  that bound. State is passed explicitly: firmware state \<open>'w\<close>, page attributes \<open>'m\<close>,
  the globals of a file as a record.

  \<^bold>\<open>Parameters and their contracts.\<close> Code that is not under src/ is a parameter: runtime
  and boot services (records of functions, with the locales \<open>variable_services\<close>,
  \<open>variable_names\<close>, \<open>mok_firmware\<close>, \<open>boot_firmware\<close>, \<open>mok_user\<close>, \<open>mok_screen\<close>, each
  interpreted on the mock store), the memory attribute protocol (\<open>attr_protocol\<close>), the page allocator
  (\<open>allocator\<close>), the pool allocator (which requests succeed), the TPM protocols
  (\<open>tpm_firmware\<close>), the SHA functions (\<open>computes\<close>), OpenSSL, \<open>AuthenticodeVerify\<close>, the file
  protocol, the network (\<open>http_env\<close>, \<open>request_env\<close>), \<open>atoi\<close> and \<open>xtoi\<close>, and the answers of a user. Device paths are lists of nodes;
  the library's functions on strings are the list operations they denote. Build options are
  fields of the environments. Where a function uses the result of another part only, that result is
  an argument: the status of the remote check in \<open>verify_buffer\<close> is that of \<open>remote_check\<close>.

  \<^bold>\<open>What is proved.\<close>
  \<^item> Acceptance: what \<open>verify_buffer\<close> and \<open>handle_image\<close> in secure mode accept is trusted by digest,
    by a signature or by the remote check, is not denied, and passes the revocation check; the deny
    and allow lists decide exactly what their contents say.
  \<^item> The digest is that of the Authenticode input, nothing outside the file is hashed, and the
    header parser never reads outside a file of any content.
  \<^item> The loader: sections are copied as the reference image says, no page is writable and
    executable, pages are freed on failure, relocation adds the displacement to exactly the
    fields of the table and returns.
  \<^item> The parsers return the fields of their input and stay inside it; errors are those of the input.
  \<^item> Revocation levels are never reset or lowered in secure mode; hashes are enrolled once.
  \<^item> The import of the machine owner's variables sets its flags only from genuine variables, and
    mirrors, measures and lists the contents it should.
  \<^item> fallback.c adds each boot entry once, puts it first, keeps everything else, and ends in a
    reset or in the first entry.
  \<^item> Only trusted files are started as a second stage; in secure mode the boot services end only
    after the second stage has taken part in the verification; the replaced services always reach
    the firmware's; revocations are read before certificates.
  \<^item> A file over HTTP has exactly the bytes the server sent, and comes from beside shim.
  \<^item> MokManager changes the key lists and the switches only for a user who knows the password, and
    deletes exactly the keys it is asked to.
  \<^item> The remote check sends what it should: the signature of a record in the table whose digests are
    those of its content and, where they can be parsed, of the file.
  \<^item> Where the code lets through more than it should, this is proved too: the remote check accepts
    whatever the server says in its answer and breaks the requests after it, after a failed \<open>Exit\<close>
    the revocations are gone, a failed start resets the machine, an authentication variable of a
    wrong size needs no password, and two that are too large overflow an array.

  \<^bold>\<open>Not modelled.\<close> Messages, logging and delays; freeing of memory, except where a use after
  it would show or a theorem is about it; the console (lib/console.c), of which only the answers
  of the user are seen; the display of certificates and the seed of the random generator in
  MokManager.c; the network boot of netboot.c,
  whose result is an argument; conversions of certificates in keyless-sign.c and keyless-sup.c that
  nothing calls; the wrappers of firmware protocols in lib; the
  vendored library below Cryptlib and crypt_blowfish.c; the host tools, tests and fuzz drivers.
\<close>

end
